(* ===== verification/Prelude.thy ===== *)
theory Prelude
  imports Main "HOL-Library.Word" "HOL-Library.Signed_Division"
begin

text \<open>
  Shared vocabulary of the development: Go's (value, error) pairs as a sum, sequencing of
  fallible calls, the machine integers the core uses, instants and durations, UUIDs, and the
  small models of the standard library's string functions (strconv, strings) the modelled
  packages call.  Lemma collections: \<open>result_simps\<close> turns a successful or failed chain of
  calls into facts about its steps; \<open>int64_simps\<close> moves between 64-bit words and their signed
  values.
\<close>

named_theorems result_simps \<open>what a successful chain of fallible calls implies\<close>
named_theorems int64_simps \<open>signed values of 64-bit words\<close>

section \<open>Fallible results\<close>

text \<open>A Go function returning \<open>(T, error)\<close> is a sum: \<open>Inl\<close> the error, \<open>Inr\<close> the value.\<close>

type_synonym ('e, 'a) result = "'e + 'a"

definition andThen :: "('e, 'a) result \<Rightarrow> ('a \<Rightarrow> ('e, 'b) result) \<Rightarrow> ('e, 'b) result" where
  "andThen r f = (case r of Inl e \<Rightarrow> Inl e | Inr x \<Rightarrow> f x)"

definition mapErr :: "('e \<Rightarrow> 'f) \<Rightarrow> ('e, 'a) result \<Rightarrow> ('f, 'a) result" where
  "mapErr g r = (case r of Inl e \<Rightarrow> Inl (g e) | Inr x \<Rightarrow> Inr x)"

definition isOk :: "('e, 'a) result \<Rightarrow> bool" where
  "isOk r = (case r of Inl _ \<Rightarrow> False | Inr _ \<Rightarrow> True)"

lemma andThen_simps [simp]:
  "andThen (Inl e) f = Inl e"
  "andThen (Inr x) f = f x"
  by (simp_all add: andThen_def)

lemma mapErr_simps [simp]:
  "mapErr g (Inl e) = Inl (g e)"
  "mapErr g (Inr x) = Inr x"
  by (simp_all add: mapErr_def)

lemma isOk_simps [simp]: "isOk (Inl e) = False" "isOk (Inr x) = True"
  by (simp_all add: isOk_def)

lemma andThen_Inr [result_simps]: "andThen r f = Inr y \<longleftrightarrow> (\<exists>x. r = Inr x \<and> f x = Inr y)"
  by (cases r) auto

lemma andThen_Inl [result_simps]:
  "andThen r f = Inl e \<longleftrightarrow> r = Inl e \<or> (\<exists>x. r = Inr x \<and> f x = Inl e)"
  by (cases r) auto

lemma mapErr_Inr [result_simps]: "mapErr g r = Inr y \<longleftrightarrow> r = Inr y"
  by (cases r) auto

lemma mapErr_Inl [result_simps]: "mapErr g r = Inl e \<longleftrightarrow> (\<exists>e'. r = Inl e' \<and> e = g e')"
  by (cases r) auto

lemma isOk_iff: "isOk r \<longleftrightarrow> (\<exists>x. r = Inr x)"
  by (cases r) auto

text \<open>The check \<open>if err := f(); err != nil { return err }\<close> of a function without a value.\<close>

definition guardR :: "bool \<Rightarrow> 'e \<Rightarrow> ('e, unit) result" where
  "guardR b e = (if b then Inr () else Inl e)"

lemma guardR_Inr [result_simps]: "guardR b e = Inr u \<longleftrightarrow> b"
  by (simp add: guardR_def)

lemma guardR_Inl [result_simps]: "guardR b e = Inl e' \<longleftrightarrow> \<not> b \<and> e' = e"
  by (auto simp: guardR_def)

section \<open>Machine integers, instants, identities\<close>

type_synonym int64 = "64 word"
type_synonym int8 = "8 word"

text \<open>\<open>uuid.UUID\<close> is an array of 16 bytes compared with \<open>==\<close>; \<open>uuid.Nil\<close> is 0.\<close>
type_synonym uuid = "128 word"

text \<open>\<open>time.Time\<close> and \<open>time.Duration\<close> in nanoseconds; the modelled code compares and adds
  them within the range of real dates.\<close>
type_synonym instant = int
type_synonym duration = int

definition nanosecond :: duration where "nanosecond = 1"
definition second :: duration where "second = 1000000000"
definition minute :: duration where "minute = 60 * second"
definition hour :: duration where "hour = 60 * minute"

lemma hour_nanoseconds [simp]: "hour = 3600000000000" "minute = 60000000000" "second = 1000000000"
  by (simp_all add: hour_def minute_def second_def)

definition inInt64 :: "int \<Rightarrow> bool" where
  "inInt64 i \<longleftrightarrow> - 9223372036854775808 \<le> i \<and> i \<le> 9223372036854775807"

lemma sint64_range: "- 9223372036854775808 \<le> sint (x :: int64) \<and> sint x \<le> 9223372036854775807"
  using sint_greater_eq [of x] sint_lt [of x] by simp

lemma sint64_inInt64 [simp]: "inInt64 (sint (x :: int64))"
  using sint64_range [of x] by (simp add: inInt64_def)

lemma signed_take_bit_63: "inInt64 i \<Longrightarrow> signed_take_bit 63 i = i"
  by (rule signed_take_bit_int_eq_self) (simp_all add: inInt64_def)

lemma sint_of_int64 [int64_simps]: "inInt64 i \<Longrightarrow> sint (word_of_int i :: int64) = i"
  by (simp add: sint_sbintrunc' signed_take_bit_63)

lemma sint64_add [int64_simps]:
  "inInt64 (sint a + sint b) \<Longrightarrow> sint (a + b :: int64) = sint a + sint b"
  by (simp add: sint_word_ariths signed_take_bit_63)

lemma sint64_sub [int64_simps]:
  "inInt64 (sint a - sint b) \<Longrightarrow> sint (a - b :: int64) = sint a - sint b"
  by (simp add: sint_word_ariths signed_take_bit_63)

lemma sint64_mul [int64_simps]:
  "inInt64 (sint a * sint b) \<Longrightarrow> sint (a * b :: int64) = sint a * sint b"
  by (simp add: sint_word_ariths signed_take_bit_63)

lemma sint64_neg [int64_simps]: "inInt64 (- sint a) \<Longrightarrow> sint (- a :: int64) = - sint a"
  by (simp add: sint_word_ariths signed_take_bit_63)

lemma sint64_eq_iff: "sint (a :: int64) = sint b \<longleftrightarrow> a = b"
  by (rule signed_word_eqI [THEN iffI]) auto

lemma signed_wrap_64: "\<exists>k. signed_take_bit 63 (i :: int) = i - k * 18446744073709551616"
proof -
  have "signed_take_bit 63 i = (i + 2 ^ 63) mod 2 ^ Suc 63 - 2 ^ 63"
    by (simp add: signed_take_bit_eq_take_bit_shift take_bit_eq_mod)
  moreover have "(i + 2 ^ 63) mod 2 ^ Suc 63 = (i + 2 ^ 63) - ((i + 2 ^ 63) div 2 ^ Suc 63) * 2 ^ Suc 63"
    by (rule minus_div_mult_eq_mod [symmetric])
  ultimately have "signed_take_bit 63 i = i - ((i + 2 ^ 63) div 2 ^ Suc 63) * 18446744073709551616"
    by simp
  then show ?thesis by blast
qed

text \<open>Go's \<open>/\<close> on int64 truncates towards zero and wraps for the one unrepresentable quotient;
  the modelled code never divides by zero.\<close>

definition quot64 :: "int64 \<Rightarrow> int64 \<Rightarrow> int64" where
  "quot64 a b = word_of_int (sint a sdiv sint b)"

end
