(* ===== verification/GoStd.thy ===== *)
theory GoStd
  imports Prelude
begin

text \<open>
  The functions of Go's standard library that the modelled packages call on strings:
  \<open>strconv.FormatInt\<close> and \<open>strconv.ParseInt\<close> in base 10, \<open>strings.Split\<close> at a one-character
  separator, \<open>strings.TrimSpace\<close>.  A Go string is a list of bytes (\<open>string\<close>); text that is
  inspected rune by rune is a list of code points (\<open>rune list\<close>).
\<close>

section \<open>Numbers as text\<close>

definition digitChar :: "nat \<Rightarrow> char" where
  "digitChar d = char_of (48 + d)"

fun natDigits :: "nat \<Rightarrow> string" where
  "natDigits n = (if n < 10 then [digitChar n] else natDigits (n div 10) @ [digitChar (n mod 10)])"

declare natDigits.simps [simp del]

text \<open>\<open>strconv.FormatInt(i, 10)\<close>.\<close>

definition formatInt :: "int \<Rightarrow> string" where
  "formatInt i = (if i < 0 then CHR ''-'' # natDigits (nat (- i)) else natDigits (nat i))"

definition isDigitChar :: "char \<Rightarrow> bool" where
  "isDigitChar c \<longleftrightarrow> 48 \<le> (of_char c :: nat) \<and> (of_char c :: nat) \<le> 57"

definition digitVal :: "char \<Rightarrow> nat" where
  "digitVal c = of_char c - 48"

fun parseDigits :: "nat \<Rightarrow> string \<Rightarrow> nat option" where
  "parseDigits acc [] = Some acc"
| "parseDigits acc (c # cs) =
     (if isDigitChar c then parseDigits (acc * 10 + digitVal c) cs else None)"

text \<open>
  \<open>strconv.ParseInt(s, 10, bits)\<close>: an optional sign, at least one digit, digits only, and a value
  in the range of the width; \<open>None\<close> is its error (the modelled callers do not tell a syntax error
  from a range error).
\<close>

definition parseInt :: "nat \<Rightarrow> string \<Rightarrow> int option" where
  "parseInt bits s =
     (case s of
        [] \<Rightarrow> None
      | c # cs \<Rightarrow>
          (let neg = (c = CHR ''-''); ds = (if c = CHR ''+'' \<or> c = CHR ''-'' then cs else s)
           in if ds = [] then None
              else (case parseDigits 0 ds of
                      None \<Rightarrow> None
                    | Some n \<Rightarrow>
                        (let v = (if neg then - int n else int n)
                         in if - (2 ^ (bits - 1)) \<le> v \<and> v < 2 ^ (bits - 1) then Some v else None))))"

lemma of_char_digitChar: "d < 10 \<Longrightarrow> (of_char (digitChar d) :: nat) = 48 + d"
  by (simp add: digitChar_def)

lemma digitChar_digit [simp]: "d < 10 \<Longrightarrow> isDigitChar (digitChar d)"
  by (simp add: isDigitChar_def of_char_digitChar)

lemma digitVal_digitChar [simp]: "d < 10 \<Longrightarrow> digitVal (digitChar d) = d"
  by (simp add: digitVal_def of_char_digitChar)

lemma parseDigits_append:
  "parseDigits acc (xs @ ys) =
     (case parseDigits acc xs of None \<Rightarrow> None | Some n \<Rightarrow> parseDigits n ys)"
  by (induction xs arbitrary: acc) auto

lemma parseDigits_natDigits: "parseDigits 0 (natDigits n) = Some n"
proof (induction n rule: natDigits.induct)
  case (1 n)
  show ?case
  proof (cases "n < 10")
    case True
    then show ?thesis by (simp add: natDigits.simps [of n])
  next
    case False
    with 1 have "parseDigits 0 (natDigits (n div 10)) = Some (n div 10)" by simp
    with False show ?thesis
      by (simp add: natDigits.simps [of n] parseDigits_append)
  qed
qed

lemma natDigits_digits: "\<forall>c \<in> set (natDigits n). isDigitChar c"
proof (induction n rule: natDigits.induct)
  case (1 n)
  then show ?case by (cases "n < 10") (auto simp: natDigits.simps [of n])
qed

lemma natDigits_nonempty [simp]: "natDigits n \<noteq> []"
  by (simp add: natDigits.simps [of n])

lemma sign_not_digit [simp]: "\<not> isDigitChar (CHR ''-'')" "\<not> isDigitChar (CHR ''+'')"
    "\<not> isDigitChar (CHR '':'')"
  by (simp_all add: isDigitChar_def)

lemma natDigits_hd_not_sign:
  assumes "natDigits n = c # cs"
  shows "c \<noteq> CHR ''-''" and "c \<noteq> CHR ''+''"
  using natDigits_digits [of n] assms sign_not_digit by auto

lemma parseInt_formatInt:
  assumes "- (2 ^ (bits - 1)) \<le> i" and "i < 2 ^ (bits - 1)"
  shows "parseInt bits (formatInt i) = Some i"
proof (cases "i < 0")
  case True
  then show ?thesis
    using assms by (simp add: formatInt_def parseInt_def parseDigits_natDigits Let_def)
next
  case False
  obtain c cs where d: "natDigits (nat i) = c # cs"
    using natDigits_nonempty by (meson neq_Nil_conv)
  have "parseDigits 0 (c # cs) = Some (nat i)"
    using parseDigits_natDigits [of "nat i"] d by simp
  then show ?thesis
    using False assms d natDigits_hd_not_sign [OF d]
    by (simp add: formatInt_def parseInt_def Let_def del: parseDigits.simps)
qed

lemma formatInt_no_colon: "CHR '':'' \<notin> set (formatInt i)"
proof -
  have "CHR '':'' \<notin> set (natDigits n)" for n
    using natDigits_digits [of n] sign_not_digit(3) by blast
  then show ?thesis by (auto simp: formatInt_def)
qed

lemma formatInt_inj: "formatInt i = formatInt j \<Longrightarrow> i = j"
proof -
  assume eq: "formatInt i = formatInt j"
  obtain b :: nat where b: "\<bar>i\<bar> < 2 ^ b" "\<bar>j\<bar> < 2 ^ b"
  proof
    let ?n = "nat \<bar>i\<bar> + nat \<bar>j\<bar>"
    have "int ?n < int (2 ^ ?n)" by (simp only: of_nat_less_iff less_exp)
    then have n: "\<bar>i\<bar> + \<bar>j\<bar> < 2 ^ ?n" by simp
    show "\<bar>i\<bar> < 2 ^ ?n" "\<bar>j\<bar> < 2 ^ ?n" using n by linarith+
  qed
  have rt: "parseInt (Suc b) (formatInt x) = Some x" if "\<bar>x\<bar> < 2 ^ b" for x
  proof (rule parseInt_formatInt)
    show "- (2 ^ (Suc b - 1)) \<le> x" using that by (simp only: diff_Suc_1 abs_less_iff) linarith
    show "x < 2 ^ (Suc b - 1)" using that by (simp only: diff_Suc_1 abs_less_iff)
  qed
  have "parseInt (Suc b) (formatInt i) = Some i" "parseInt (Suc b) (formatInt j) = Some j"
    by (rule rt [OF b(1)]) (rule rt [OF b(2)])
  then show ?thesis by (metis eq option.inject)
qed

lemma parseInt_range:
  "parseInt bits s = Some v \<Longrightarrow> - (2 ^ (bits - 1)) \<le> v \<and> v < 2 ^ (bits - 1)"
  by (auto simp: parseInt_def Let_def split: list.splits option.splits if_splits)

section \<open>Splitting\<close>

text \<open>\<open>strings.Split(s, sep)\<close> for a one-character separator.\<close>

fun splitOn :: "char \<Rightarrow> string \<Rightarrow> string list" where
  "splitOn sep [] = [[]]"
| "splitOn sep (c # cs) =
     (if c = sep then [] # splitOn sep cs
      else (case splitOn sep cs of [] \<Rightarrow> [[c]] | p # ps \<Rightarrow> (c # p) # ps))"

lemma splitOn_plain: "sep \<notin> set a \<Longrightarrow> splitOn sep a = [a]"
  by (induction a) auto

lemma splitOn_append: "sep \<notin> set a \<Longrightarrow> splitOn sep (a @ sep # b) = a # splitOn sep b"
  by (induction a) auto

section \<open>Runes\<close>

type_synonym rune = nat

text \<open>The code points of Unicode's White_Space property, which \<open>strings.TrimSpace\<close> strips.\<close>

definition isSpaceRune :: "rune \<Rightarrow> bool" where
  "isSpaceRune r \<longleftrightarrow>
     (9 \<le> r \<and> r \<le> 13) \<or> r \<in> {0x20, 0x85, 0xA0, 0x1680, 0x2028, 0x2029, 0x202F, 0x205F, 0x3000} \<or>
     (0x2000 \<le> r \<and> r \<le> 0x200A)"

definition trimSpace :: "rune list \<Rightarrow> rune list" where
  "trimSpace s = rev (dropWhile isSpaceRune (rev (dropWhile isSpaceRune s)))"

lemma trimSpace_Nil_iff: "trimSpace s = [] \<longleftrightarrow> (\<forall>r \<in> set s. isSpaceRune r)"
proof -
  have "trimSpace s = [] \<longleftrightarrow> (\<forall>r \<in> set (dropWhile isSpaceRune s). isSpaceRune r)"
    by (simp add: trimSpace_def)
  also have "\<dots> \<longleftrightarrow> dropWhile isSpaceRune s = []"
    by (metis dropWhile_eq_Nil_conv hd_dropWhile hd_in_set list.set(1) empty_iff)
  also have "\<dots> \<longleftrightarrow> (\<forall>r \<in> set s. isSpaceRune r)" by simp
  finally show ?thesis .
qed

section \<open>Tables\<close>

text \<open>Reading a row by a unique key finds that row.\<close>

lemma find_distinct:
  assumes "distinct (map f xs)" "x \<in> set xs"
  shows "find (\<lambda>y. f y = f x) xs = Some x"
  using assms by (induction xs) auto

lemma find_append_case:
  "find P (xs @ ys) = (case find P xs of None \<Rightarrow> find P ys | Some x \<Rightarrow> Some x)"
  by (induction xs) auto

end
