(* ===== verification/Money.thy ===== *)
theory Money
  imports GoStd
begin

text \<open>
  The money package (services/core/internal/money): overflow-checked int64 primitives
  (checked.go), the authoritative amount with its compatibility discipline and text encoding
  (money.go, currency.go), the selectable rounding rules (rounding.go), fixed-point rates
  (basispoints.go) and the raw evidence triple (evidence.go).
\<close>

section \<open>Errors (errors.go)\<close>

datatype money_error =
  ErrCurrencyMismatch | ErrExponentMismatch | ErrInvalidCurrency | ErrOverflow | ErrMalformed
| ErrInvalidMoney

section \<open>Checked arithmetic (checked.go)\<close>

definition minInt64 :: int64 where
  "minInt64 = - 0x8000000000000000"

definition iadd :: "int64 \<Rightarrow> int64 \<Rightarrow> (money_error, int64) result" where
  "iadd a b =
     (let total = a + b in
      if (0 <s b \<and> total <s a) \<or> (b <s 0 \<and> a <s total) then Inl ErrOverflow else Inr total)"

definition isub :: "int64 \<Rightarrow> int64 \<Rightarrow> (money_error, int64) result" where
  "isub a b =
     (let diff = a - b in
      if (b <s 0 \<and> diff <s a) \<or> (0 <s b \<and> a <s diff) then Inl ErrOverflow else Inr diff)"

definition ineg :: "int64 \<Rightarrow> (money_error, int64) result" where
  "ineg a = (if a = minInt64 then Inl ErrOverflow else Inr (- a))"

definition imul :: "int64 \<Rightarrow> int64 \<Rightarrow> (money_error, int64) result" where
  "imul a b =
     (if a = 0 \<or> b = 0 then Inr 0
      else if a = minInt64 \<or> b = minInt64 then
        (if a = 1 then Inr b else if b = 1 then Inr a else Inl ErrOverflow)
      else
        (let p = a * b in if quot64 p b \<noteq> a then Inl ErrOverflow else Inr p))"

definition icmp :: "int64 \<Rightarrow> int64 \<Rightarrow> int" where
  "icmp a b = (if a <s b then - 1 else if b <s a then 1 else 0)"

definition iabs :: "int64 \<Rightarrow> (money_error, int64) result" where
  "iabs a = (if a <s 0 then ineg a else Inr a)"

definition isEven :: "int64 \<Rightarrow> bool" where
  "isEven a \<longleftrightarrow> sint a smod 2 = 0"

lemma sint_minInt64: "sint minInt64 = - 9223372036854775808"
  by (simp add: minInt64_def)

lemma minInt64_neq [simp]: "minInt64 \<noteq> 0" "minInt64 \<noteq> 1" "0 \<noteq> minInt64" "1 \<noteq> minInt64"
  by (simp_all add: minInt64_def)

lemma minInt64_iff: "a = minInt64 \<longleftrightarrow> sint a = - 9223372036854775808"
  using sint_minInt64 sint64_eq_iff by metis

lemma icmp_simps [simp]:
  "icmp a b < 0 \<longleftrightarrow> sint a < sint b"
  "0 < icmp a b \<longleftrightarrow> sint b < sint a"
  "icmp a b = 0 \<longleftrightarrow> a = b"
  "icmp a b \<le> 0 \<longleftrightarrow> sint a \<le> sint b"
  "0 \<le> icmp a b \<longleftrightarrow> sint b \<le> sint a"
  using sint64_eq_iff [of a b] by (auto simp: icmp_def word_sless_alt)

text \<open>
  Each primitive is the exact integer operation where that fits in int64, and \<open>ErrOverflow\<close>
  where it does not: the sign and division tests of the code decide exactly that.
\<close>

lemma iadd_spec:
  "iadd a b = (if inInt64 (sint a + sint b) then Inr (word_of_int (sint a + sint b)) else Inl ErrOverflow)"
proof -
  obtain k where k: "sint (a + b) = sint a + sint b - k * 18446744073709551616"
    using signed_wrap_64 [of "sint a + sint b"] by (auto simp: sint_word_ariths)
  note r = sint64_range [of a] sint64_range [of b] sint64_range [of "a + b"]
  have w: "word_of_int (sint a + sint b) = a + b"
    by (simp add: of_int_add)
  show ?thesis
  proof (cases "inInt64 (sint a + sint b)")
    case True
    then have "sint (a + b) = sint a + sint b" by (rule sint64_add)
    with True show ?thesis by (simp add: iadd_def Let_def word_sless_alt w)
  next
    case False
    then have "k = 1 \<or> k = -1" using k r by (simp add: inInt64_def) arith
    with False k r show ?thesis by (auto simp: iadd_def Let_def word_sless_alt inInt64_def)
  qed
qed

lemma isub_spec:
  "isub a b = (if inInt64 (sint a - sint b) then Inr (word_of_int (sint a - sint b)) else Inl ErrOverflow)"
proof -
  obtain k where k: "sint (a - b) = sint a - sint b - k * 18446744073709551616"
    using signed_wrap_64 [of "sint a - sint b"] by (auto simp: sint_word_ariths)
  note r = sint64_range [of a] sint64_range [of b] sint64_range [of "a - b"]
  have w: "word_of_int (sint a - sint b) = a - b"
    by (simp add: of_int_diff)
  show ?thesis
  proof (cases "inInt64 (sint a - sint b)")
    case True
    then have "sint (a - b) = sint a - sint b" by (rule sint64_sub)
    with True show ?thesis by (simp add: isub_def Let_def word_sless_alt w)
  next
    case False
    then have "k = 1 \<or> k = -1" using k r by (simp add: inInt64_def) arith
    with False k r show ?thesis by (auto simp: isub_def Let_def word_sless_alt inInt64_def)
  qed
qed

lemma ineg_spec:
  "ineg a = (if inInt64 (- sint a) then Inr (word_of_int (- sint a)) else Inl ErrOverflow)"
  using sint64_range [of a] by (auto simp: ineg_def minInt64_iff inInt64_def)

lemma sdiv_remainder_bound:
  fixes a b p :: int
  assumes "b \<noteq> 0" and "p sdiv b = a"
  shows "\<bar>p - a * b\<bar> < \<bar>b\<bar>"
proof -
  have "p - a * b = p smod b"
    by (simp add: minus_sdiv_mult_eq_smod flip: assms(2))
  also have "\<bar>p smod b\<bar> < \<bar>b\<bar>"
    using assms(1) by (simp add: smod_int_alt_def abs_mult abs_sgn_eq) 
  finally show ?thesis .
qed

lemma sdiv_mult_self:
  fixes a b :: int
  assumes "b \<noteq> 0"
  shows "(a * b) sdiv b = a"
proof -
  have "\<bar>a * b\<bar> div \<bar>b\<bar> = \<bar>a\<bar>" using assms by (simp add: abs_mult)
  moreover have "sgn (a * b) * sgn b = sgn a"
    using assms by (simp add: sgn_mult mult.assoc)
  ultimately show ?thesis by (simp add: signed_divide_int_def mult_sgn_abs)
qed

text \<open>
  The overflow test \<open>p / b != a\<close>: the wrapped product differs from the true one by a multiple of
  $2^{64}$, so a quotient that gives \<open>a\<close> back leaves no room for a non-zero multiple.
\<close>

lemma quot64_mul_iff:
  assumes "b \<noteq> 0" and "a \<noteq> minInt64"
  shows "quot64 (a * b) b = a \<longleftrightarrow> inInt64 (sint a * sint b)"
proof
  have b0: "sint b \<noteq> 0" using assms(1) sint64_eq_iff [of b 0] by simp
  {
    assume "inInt64 (sint a * sint b)"
    then have "sint (a * b) = sint a * sint b" by (rule sint64_mul)
    then show "quot64 (a * b) b = a"
      using b0 by (simp add: quot64_def sdiv_mult_self)
  next
    assume q: "quot64 (a * b) b = a"
    let ?p = "sint (a * b)"
    have "\<bar>?p sdiv sint b\<bar> \<le> \<bar>?p\<bar>" using sdiv_int_range [of ?p "sint b"] by auto
    then have "?p sdiv sint b \<noteq> 9223372036854775808 \<Longrightarrow> inInt64 (?p sdiv sint b)"
      using sint64_range [of "a * b"] by (simp add: inInt64_def) arith
    moreover have "?p sdiv sint b \<noteq> 9223372036854775808"
    proof
      assume "?p sdiv sint b = 9223372036854775808"
      then have "quot64 (a * b) b = minInt64" by (simp add: quot64_def minInt64_def)
      with q assms(2) show False by simp
    qed
    ultimately have "?p sdiv sint b = sint a"
      using q by (metis quot64_def sint_of_int64)
    then have near: "\<bar>?p - sint a * sint b\<bar> < \<bar>sint b\<bar>"
      using b0 by (rule sdiv_remainder_bound [rotated])
    obtain k where k: "?p = sint a * sint b - k * 18446744073709551616"
      using signed_wrap_64 [of "sint a * sint b"] by (auto simp: sint_word_ariths)
    have "k = 0"
      using near k sint64_range [of b] by arith
    with k have "?p = sint a * sint b" by simp
    then show "inInt64 (sint a * sint b)" by (metis sint64_inInt64)
  }
qed

lemma imul_spec:
  "imul a b = (if inInt64 (sint a * sint b) then Inr (word_of_int (sint a * sint b)) else Inl ErrOverflow)"
proof -
  have w: "word_of_int (sint a * sint b) = a * b" by (simp add: of_int_mult)
  have big: "\<not> inInt64 (- 9223372036854775808 * i)" if "i \<noteq> 0" "i \<noteq> 1" for i
    using that by (auto simp: inInt64_def)
  have nz: "sint x \<noteq> 0" if "x \<noteq> 0" for x :: int64 using that sint64_eq_iff [of x 0] by simp
  have n1: "sint x \<noteq> 1" if "x \<noteq> 1" for x :: int64 using that sint64_eq_iff [of x 1] by simp
  consider "a = 0 \<or> b = 0" | "a \<noteq> 0" "b \<noteq> 0" "a = minInt64" | "a \<noteq> 0" "b \<noteq> 0" "a \<noteq> minInt64" "b = minInt64"
    | "a \<noteq> 0" "b \<noteq> 0" "a \<noteq> minInt64" "b \<noteq> minInt64" by blast
  then show ?thesis
  proof cases
    case 1
    then show ?thesis by (auto simp: imul_def inInt64_def)
  next
    case 2
    then show ?thesis
      using big [of "sint b"] nz [of b] n1 [of b]
      by (cases "b = 1") (auto simp: imul_def sint_minInt64 minInt64_def [symmetric] inInt64_def w)
  next
    case 3
    then show ?thesis
      using big [of "sint a"] nz [of a] n1 [of a]
      by (cases "a = 1") (auto simp: imul_def sint_minInt64 mult.commute inInt64_def w
          intro: minInt64_def)
  next
    case 4
    then show ?thesis using quot64_mul_iff [of b a] by (simp add: imul_def Let_def w)
  qed
qed

lemma iabs_spec:
  "iabs a = (if inInt64 \<bar>sint a\<bar> then Inr (word_of_int \<bar>sint a\<bar>) else Inl ErrOverflow)"
  using sint64_inInt64 [of a] by (auto simp: iabs_def word_sless_alt ineg_spec abs_if)

lemma isEven_spec: "isEven a \<longleftrightarrow> even (sint a)"
proof -
  have "isEven a \<longleftrightarrow> \<bar>sint a\<bar> mod 2 = 0" by (auto simp: isEven_def signed_modulo_int_def sgn_if)
  then show ?thesis by (simp flip: even_iff_mod_2_eq_zero)
qed

lemmas checked_specs = iadd_spec isub_spec ineg_spec imul_spec iabs_spec

section \<open>Currencies (currency.go)\<close>

definition activeISO4217 :: "string list" where
  "activeISO4217 = [
     ''AED'', ''AFN'', ''ALL'', ''AMD'', ''ANG'', ''AOA'', ''ARS'', ''AUD'', ''AWG'',
     ''AZN'', ''BAM'', ''BBD'', ''BDT'', ''BGN'', ''BHD'', ''BIF'', ''BMD'', ''BND'',
     ''BOB'', ''BOV'', ''BRL'', ''BSD'', ''BTN'', ''BWP'', ''BYN'', ''BZD'', ''CAD'',
     ''CDF'', ''CHE'', ''CHF'', ''CHW'', ''CLF'', ''CLP'', ''CNY'', ''COP'', ''COU'',
     ''CRC'', ''CUC'', ''CUP'', ''CVE'', ''CZK'', ''DJF'', ''DKK'', ''DOP'', ''DZD'',
     ''EGP'', ''ERN'', ''ETB'', ''EUR'', ''FJD'', ''FKP'', ''GBP'', ''GEL'', ''GHS'',
     ''GIP'', ''GMD'', ''GNF'', ''GTQ'', ''GYD'', ''HKD'', ''HNL'', ''HTG'', ''HUF'',
     ''IDR'', ''ILS'', ''INR'', ''IQD'', ''IRR'', ''ISK'', ''JMD'', ''JOD'', ''JPY'',
     ''KES'', ''KGS'', ''KHR'', ''KMF'', ''KPW'', ''KRW'', ''KWD'', ''KYD'', ''KZT'',
     ''LAK'', ''LBP'', ''LKR'', ''LRD'', ''LSL'', ''LYD'', ''MAD'', ''MDL'', ''MGA'',
     ''MKD'', ''MMK'', ''MNT'', ''MOP'', ''MRU'', ''MUR'', ''MVR'', ''MWK'', ''MXN'',
     ''MXV'', ''MYR'', ''MZN'', ''NAD'', ''NGN'', ''NIO'', ''NOK'', ''NPR'', ''NZD'',
     ''OMR'', ''PAB'', ''PEN'', ''PGK'', ''PHP'', ''PKR'', ''PLN'', ''PYG'', ''QAR'',
     ''RON'', ''RSD'', ''RUB'', ''RWF'', ''SAR'', ''SBD'', ''SCR'', ''SDG'', ''SEK'',
     ''SGD'', ''SHP'', ''SLE'', ''SLL'', ''SOS'', ''SRD'', ''SSP'', ''STN'', ''SVC'',
     ''SYP'', ''SZL'', ''THB'', ''TJS'', ''TMT'', ''TND'', ''TOP'', ''TRY'', ''TTD'',
     ''TWD'', ''TZS'', ''UAH'', ''UGX'', ''USD'', ''USN'', ''UYI'', ''UYU'', ''UYW'',
     ''UZS'', ''VED'', ''VES'', ''VND'', ''VUV'', ''WST'', ''XAF'', ''XAG'', ''XAU'',
     ''XBA'', ''XBB'', ''XBC'', ''XBD'', ''XCD'', ''XDR'', ''XOF'', ''XPD'', ''XPF'',
     ''XPT'', ''XSU'', ''XTS'', ''XUA'', ''XXX'', ''YER'', ''ZAR'', ''ZMW'', ''ZWL'']"

definition validCurrency :: "string \<Rightarrow> bool" where
  "validCurrency code \<longleftrightarrow> code \<in> set activeISO4217"

lemma activeISO4217_shape:
  "list_all (\<lambda>c. length c = 3 \<and> CHR '':'' \<notin> set c) activeISO4217"
  by (simp add: activeISO4217_def)

lemma validCurrency_shape: "validCurrency c \<Longrightarrow> length c = 3 \<and> CHR '':'' \<notin> set c"
  using activeISO4217_shape by (auto simp: validCurrency_def list_all_iff)

lemma validCurrency_examples [simp]:
  "validCurrency ''IRR''" "validCurrency ''USD''" "validCurrency ''EUR''"
  by (simp_all add: validCurrency_def activeISO4217_def)

lemma validCurrency_Nil [simp]: "\<not> validCurrency []"
  using validCurrency_shape by fastforce

section \<open>Amounts (money.go)\<close>

record money =
  mantissa :: int64
  currency :: string
  exponent :: int8

text \<open>Go's zero value \<open>Money{}\<close>: no currency, hence not an authoritative amount.\<close>

definition zeroMoney :: money where
  "zeroMoney = \<lparr>mantissa = 0, currency = [], exponent = 0\<rparr>"

definition newMoney :: "int64 \<Rightarrow> string \<Rightarrow> int8 \<Rightarrow> (money_error, money) result" where
  "newMoney m c e =
     (if \<not> validCurrency c then Inl ErrInvalidCurrency
      else Inr \<lparr>mantissa = m, currency = c, exponent = e\<rparr>)"

definition zeroOf :: "string \<Rightarrow> int8 \<Rightarrow> (money_error, money) result" where
  "zeroOf c e = newMoney 0 c e"

definition valid :: "money \<Rightarrow> bool" where
  "valid m \<longleftrightarrow> validCurrency (currency m)"

definition isZero :: "money \<Rightarrow> (money_error, bool) result" where
  "isZero m = (if \<not> valid m then Inl ErrInvalidMoney else Inr (mantissa m = 0))"

definition compatible :: "money \<Rightarrow> money \<Rightarrow> (money_error, unit) result" where
  "compatible m n =
     (if \<not> valid m \<or> \<not> valid n then Inl ErrInvalidMoney
      else if currency m \<noteq> currency n then Inl ErrCurrencyMismatch
      else if exponent m \<noteq> exponent n then Inl ErrExponentMismatch
      else Inr ())"

definition addMoney :: "money \<Rightarrow> money \<Rightarrow> (money_error, money) result" where
  "addMoney m n =
     andThen (compatible m n) (\<lambda>_.
     andThen (iadd (mantissa m) (mantissa n)) (\<lambda>total.
     Inr \<lparr>mantissa = total, currency = currency m, exponent = exponent m\<rparr>))"

definition subMoney :: "money \<Rightarrow> money \<Rightarrow> (money_error, money) result" where
  "subMoney m n =
     andThen (compatible m n) (\<lambda>_.
     andThen (isub (mantissa m) (mantissa n)) (\<lambda>diff.
     Inr \<lparr>mantissa = diff, currency = currency m, exponent = exponent m\<rparr>))"

definition negMoney :: "money \<Rightarrow> (money_error, money) result" where
  "negMoney m =
     (if \<not> valid m then Inl ErrInvalidMoney
      else andThen (ineg (mantissa m)) (\<lambda>n.
           Inr \<lparr>mantissa = n, currency = currency m, exponent = exponent m\<rparr>))"

definition compareMoney :: "money \<Rightarrow> money \<Rightarrow> (money_error, int) result" where
  "compareMoney m n = andThen (compatible m n) (\<lambda>_. Inr (icmp (mantissa m) (mantissa n)))"

definition equalMoney :: "money \<Rightarrow> money \<Rightarrow> (money_error, bool) result" where
  "equalMoney m n = andThen (compatible m n) (\<lambda>_. Inr (icmp (mantissa m) (mantissa n) = 0))"

fun netFrom :: "money \<Rightarrow> money list \<Rightarrow> (money_error, money) result" where
  "netFrom acc [] = Inr acc"
| "netFrom acc (v # vs) = andThen (addMoney acc v) (\<lambda>next. netFrom next vs)"

fun net :: "money list \<Rightarrow> (money_error, money) result" where
  "net [] = Inl ErrMalformed"
| "net (v # vs) = (if \<not> valid v then Inl ErrInvalidMoney else netFrom v vs)"

definition marshalText :: "money \<Rightarrow> (money_error, string) result" where
  "marshalText m =
     (if \<not> valid m then Inl ErrInvalidMoney
      else Inr (currency m @ CHR '':'' # formatInt (sint (mantissa m)) @
                CHR '':'' # formatInt (sint (exponent m))))"

definition invalidMoneyMarker :: string where
  "invalidMoneyMarker = ''money(invalid)''"

definition moneyString :: "money \<Rightarrow> string" where
  "moneyString m = (case marshalText m of Inl _ \<Rightarrow> invalidMoneyMarker | Inr t \<Rightarrow> t)"

text \<open>\<open>UnmarshalText\<close>, which assigns its receiver only on success, and \<open>Decode\<close> around it.\<close>

definition unmarshalText :: "string \<Rightarrow> (money_error, money) result" where
  "unmarshalText text =
     (case splitOn (CHR '':'') text of
        [c, ms, es] \<Rightarrow>
          (if \<not> validCurrency c then Inl ErrInvalidCurrency
           else (case parseInt 64 ms of
                   None \<Rightarrow> Inl ErrMalformed
                 | Some mant \<Rightarrow>
                     (case parseInt 8 es of
                        None \<Rightarrow> Inl ErrMalformed
                      | Some e \<Rightarrow> Inr \<lparr>mantissa = word_of_int mant, currency = c,
                                       exponent = word_of_int e\<rparr>)))
      | _ \<Rightarrow> Inl ErrMalformed)"

definition decode :: "string \<Rightarrow> (money_error, money) result" where
  "decode text = unmarshalText text"

section \<open>Rounding rules (rounding.go)\<close>

type_synonym rounder = "int64 \<Rightarrow> int64 \<Rightarrow> int64 \<Rightarrow> (money_error, int64) result"

definition awayFromZero :: "int64 \<Rightarrow> int64 \<Rightarrow> (money_error, int64) result" where
  "awayFromZero quot remainder =
     (let s = icmp remainder 0 in
      if s = 1 then iadd quot 1 else if s = - 1 then isub quot 1 else Inr quot)"

definition compareTwiceRemToDivisor :: "int64 \<Rightarrow> int64 \<Rightarrow> (money_error, int) result" where
  "compareTwiceRemToDivisor remainder divisor =
     andThen (iabs remainder) (\<lambda>absRem.
     andThen (imul absRem 2) (\<lambda>twice. Inr (icmp twice divisor)))"

definition roundDown :: rounder where
  "roundDown quot remainder divisor = Inr quot"

definition roundUp :: rounder where
  "roundUp quot remainder divisor = awayFromZero quot remainder"

definition roundFloor :: rounder where
  "roundFloor quot remainder divisor =
     (if icmp remainder 0 < 0 then isub quot 1 else Inr quot)"

definition roundCeil :: rounder where
  "roundCeil quot remainder divisor =
     (if 0 < icmp remainder 0 then iadd quot 1 else Inr quot)"

definition roundHalfUp :: rounder where
  "roundHalfUp quot remainder divisor =
     andThen (compareTwiceRemToDivisor remainder divisor) (\<lambda>cmp.
     if 0 \<le> cmp then awayFromZero quot remainder else Inr quot)"

definition roundHalfEven :: rounder where
  "roundHalfEven quot remainder divisor =
     andThen (compareTwiceRemToDivisor remainder divisor) (\<lambda>cmp.
     if 0 < cmp then awayFromZero quot remainder
     else if cmp < 0 then Inr quot
     else if isEven quot then Inr quot
     else awayFromZero quot remainder)"

section \<open>Rates (basispoints.go)\<close>

definition basisPointScale :: int64 where
  "basisPointScale = 10000"

record basis_points = bpValue :: int64

definition newBasisPoints :: "int64 \<Rightarrow> basis_points" where
  "newBasisPoints v = \<lparr>bpValue = v\<rparr>"

definition percentPoints :: "int64 \<Rightarrow> (money_error, basis_points) result" where
  "percentPoints percent = andThen (imul percent 100) (\<lambda>v. Inr \<lparr>bpValue = v\<rparr>)"

text \<open>
  \<open>ApplyRate\<close>: the product and the truncated division are \<open>math/big\<close> integers (\<open>int\<close> here, with
  \<open>sdiv\<close> and \<open>smod\<close> as \<open>big.Int.QuoRem\<close>); \<open>None\<close> is the nil rounder.
\<close>

definition applyRate :: "money \<Rightarrow> basis_points \<Rightarrow> rounder option \<Rightarrow> (money_error, money) result" where
  "applyRate m bp round =
     (if \<not> valid m then Inl ErrInvalidMoney
      else
        (let rnd = (case round of None \<Rightarrow> roundHalfEven | Some r \<Rightarrow> r);
             num = sint (mantissa m) * sint (bpValue bp);
             den = sint basisPointScale;
             quo = num sdiv den;
             rm = num smod den
         in if \<not> inInt64 quo then Inl ErrOverflow
            else andThen (rnd (word_of_int quo) (word_of_int rm) basisPointScale) (\<lambda>adjusted.
                 Inr \<lparr>mantissa = adjusted, currency = currency m, exponent = exponent m\<rparr>)))"

section \<open>Raw evidence (evidence.go)\<close>

record raw_amount =
  raText :: "rune list"
  raValue :: "rune list"
  raUnit :: "rune list"

definition newRawAmount :: "rune list \<Rightarrow> rune list \<Rightarrow> rune list \<Rightarrow> raw_amount" where
  "newRawAmount text v u = \<lparr>raText = text, raValue = v, raUnit = u\<rparr>"

definition isEmptyRaw :: "raw_amount \<Rightarrow> bool" where
  "isEmptyRaw r \<longleftrightarrow> raText r = [] \<and> raValue r = [] \<and> raUnit r = []"

definition isStructurallyComplete :: "raw_amount \<Rightarrow> bool" where
  "isStructurallyComplete r \<longleftrightarrow>
     trimSpace (raText r) \<noteq> [] \<and> trimSpace (raValue r) \<noteq> [] \<and> trimSpace (raUnit r) \<noteq> []"

section \<open>Facts about amounts\<close>

text \<open>
  \<open>amt\<close> is the integer an amount stands for at its scale; two amounts can be combined exactly
  when they are valid and of one unit.
\<close>

abbreviation amt :: "money \<Rightarrow> int" where
  "amt m \<equiv> sint (mantissa m)"

definition sameUnit :: "money \<Rightarrow> money \<Rightarrow> bool" where
  "sameUnit m n \<longleftrightarrow> valid m \<and> valid n \<and> currency m = currency n \<and> exponent m = exponent n"

lemma compatible_ok [result_simps]: "compatible m n = Inr u \<longleftrightarrow> sameUnit m n"
  by (auto simp: compatible_def sameUnit_def)

lemma sameUnit_refl [simp]: "sameUnit m m \<longleftrightarrow> valid m"
  by (simp add: sameUnit_def)

lemma sameUnit_sym: "sameUnit m n \<Longrightarrow> sameUnit n m"
  by (simp add: sameUnit_def)

lemma sameUnit_trans: "sameUnit m n \<Longrightarrow> sameUnit n k \<Longrightarrow> sameUnit m k"
  by (simp add: sameUnit_def)

lemma sameUnit_valid: "sameUnit m n \<Longrightarrow> valid m" "sameUnit m n \<Longrightarrow> valid n"
  by (simp_all add: sameUnit_def)

lemma valid_update [simp]: "valid (m\<lparr>mantissa := x\<rparr>) = valid m"
  by (simp add: valid_def)

lemma money_eta: "\<lparr>mantissa = x, currency = currency m, exponent = exponent m\<rparr> = m\<lparr>mantissa := x\<rparr>"
  by simp

lemma money_eqI: "sameUnit m n \<Longrightarrow> amt m = amt n \<Longrightarrow> m = n"
  by (auto simp: sameUnit_def sint64_eq_iff)

lemma addMoney_ok [result_simps]:
  "addMoney m n = Inr r \<longleftrightarrow>
     sameUnit m n \<and> inInt64 (amt m + amt n) \<and> r = m\<lparr>mantissa := word_of_int (amt m + amt n)\<rparr>"
  by (auto simp: addMoney_def result_simps iadd_spec split: if_splits)

lemma subMoney_ok [result_simps]:
  "subMoney m n = Inr r \<longleftrightarrow>
     sameUnit m n \<and> inInt64 (amt m - amt n) \<and> r = m\<lparr>mantissa := word_of_int (amt m - amt n)\<rparr>"
  by (auto simp: subMoney_def result_simps isub_spec split: if_splits)

lemma negMoney_ok [result_simps]:
  "negMoney m = Inr r \<longleftrightarrow>
     valid m \<and> inInt64 (- amt m) \<and> r = m\<lparr>mantissa := word_of_int (- amt m)\<rparr>"
  by (auto simp: negMoney_def result_simps ineg_spec split: if_splits)

lemma compareMoney_ok [result_simps]:
  "compareMoney m n = Inr c \<longleftrightarrow> sameUnit m n \<and> c = icmp (mantissa m) (mantissa n)"
  by (auto simp: compareMoney_def result_simps)

lemma newMoney_ok [result_simps]:
  "newMoney m c e = Inr r \<longleftrightarrow> validCurrency c \<and> r = \<lparr>mantissa = m, currency = c, exponent = e\<rparr>"
  by (auto simp: newMoney_def)

lemma addMoney_amt: "addMoney m n = Inr r \<Longrightarrow> amt r = amt m + amt n \<and> sameUnit r m"
  by (auto simp: result_simps int64_simps sameUnit_def valid_def)

lemma subMoney_amt: "subMoney m n = Inr r \<Longrightarrow> amt r = amt m - amt n \<and> sameUnit r m"
  by (auto simp: result_simps int64_simps sameUnit_def valid_def)

lemma newMoney_valid: "newMoney m c e = Inr r \<Longrightarrow> valid r"
  by (auto simp: result_simps valid_def)

lemma zeroMoney_invalid [simp]: "\<not> valid zeroMoney"
  by (simp add: zeroMoney_def valid_def)

section \<open>The interface of a rounding rule\<close>

text \<open>
  What \<open>ApplyRate\<close> relies on: for an exact numerator \<open>q * d + r\<close> a rounder answers one of the two
  integers next to it.  \<open>nearest_rounder\<close> adds that the answer is a nearest integer,
  \<open>truncating_rounder\<close> that it never leaves zero.
\<close>

locale rounder =
  fixes rnd :: rounder
  assumes adjacent:
    "\<lbrakk>0 < sint d; \<bar>sint r\<bar> < sint d; rnd q r d = Inr z\<rbrakk>
      \<Longrightarrow> \<bar>sint z * sint d - (sint q * sint d + sint r)\<bar> < sint d"

locale nearest_rounder = rounder +
  assumes nearest:
    "\<lbrakk>0 < sint d; \<bar>sint r\<bar> < sint d; rnd q r d = Inr z\<rbrakk>
      \<Longrightarrow> 2 * \<bar>sint z * sint d - (sint q * sint d + sint r)\<bar> \<le> sint d"

locale truncating_rounder = rounder +
  assumes keeps_quotient: "rnd q r d = Inr z \<Longrightarrow> z = q"
    and never_fails: "isOk (rnd q r d)"

text \<open>The truncated division of a mantissa times a rate by 10000 yields word-sized parts.\<close>

lemma rate_parts:
  fixes n :: int
  assumes "inInt64 (n sdiv 10000)"
  shows "sint (word_of_int (n sdiv 10000) :: int64) * 10000 + sint (word_of_int (n smod 10000) :: int64) = n"
    and "\<bar>sint (word_of_int (n smod 10000) :: int64)\<bar> < 10000"
    and "sint (word_of_int (n smod 10000) :: int64) = n smod 10000"
proof -
  have r: "\<bar>n smod 10000\<bar> < 10000" using smod_int_range [of 10000 n] by auto
  then have s: "sint (word_of_int (n smod 10000) :: int64) = n smod 10000"
    by (intro sint_of_int64) (auto simp: inInt64_def)
  have "n sdiv 10000 * 10000 + n smod 10000 = n" by (rule sdiv_mult_smod_eq)
  then show "sint (word_of_int (n sdiv 10000) :: int64) * 10000 + sint (word_of_int (n smod 10000) :: int64) = n"
    using assms s by (simp add: sint_of_int64)
  show "\<bar>sint (word_of_int (n smod 10000) :: int64)\<bar> < 10000" using r s by simp
  show "sint (word_of_int (n smod 10000) :: int64) = n smod 10000" by (rule s)
qed

lemma sint_basisPointScale [simp]: "sint basisPointScale = 10000"
  by (simp add: basisPointScale_def)

context rounder
begin

lemma applyRate_ok:
  assumes "applyRate m bp (Some rnd) = Inr z"
  shows "sameUnit z m" and "\<bar>amt z * 10000 - amt m * sint (bpValue bp)\<bar> < 10000"
proof -
  let ?n = "amt m * sint (bpValue bp)"
  let ?q = "word_of_int (?n sdiv 10000) :: int64" and ?r = "word_of_int (?n smod 10000) :: int64"
  from assms have v: "valid m" and q: "inInt64 (?n sdiv 10000)"
    and z: "rnd ?q ?r basisPointScale = Inr (mantissa z)"
    and u: "currency z = currency m" "exponent z = exponent m"
    by (auto simp: applyRate_def Let_def result_simps split: if_splits)
  show "sameUnit z m" using v u by (simp add: sameUnit_def valid_def)
  have "\<bar>amt z * sint basisPointScale - (sint ?q * sint basisPointScale + sint ?r)\<bar> < sint basisPointScale"
    by (rule adjacent [OF _ _ z]) (use rate_parts(2) [OF q] in auto)
  then show "\<bar>amt z * 10000 - ?n\<bar> < 10000" using rate_parts(1) [OF q] by simp
qed

end

context nearest_rounder
begin

lemma applyRate_nearest:
  assumes "applyRate m bp (Some rnd) = Inr z"
  shows "2 * \<bar>amt z * 10000 - amt m * sint (bpValue bp)\<bar> \<le> 10000"
proof -
  let ?n = "amt m * sint (bpValue bp)"
  let ?q = "word_of_int (?n sdiv 10000) :: int64" and ?r = "word_of_int (?n smod 10000) :: int64"
  from assms have q: "inInt64 (?n sdiv 10000)" and z: "rnd ?q ?r basisPointScale = Inr (mantissa z)"
    by (auto simp: applyRate_def Let_def result_simps split: if_splits)
  from nearest [OF _ _ z] rate_parts(2) [OF q]
  have "2 * \<bar>amt z * 10000 - (sint ?q * 10000 + sint ?r)\<bar> \<le> 10000" by simp
  then show ?thesis using rate_parts(1) [OF q] by simp
qed

end

context truncating_rounder
begin

lemma applyRate_trunc:
  "applyRate m bp (Some rnd) =
     (if \<not> valid m then Inl ErrInvalidMoney
      else if inInt64 ((amt m * sint (bpValue bp)) sdiv 10000)
      then Inr (m\<lparr>mantissa := word_of_int ((amt m * sint (bpValue bp)) sdiv 10000)\<rparr>)
      else Inl ErrOverflow)"
proof -
  have "rnd q r d = Inr q" for q r d
    using never_fails [of q r d] keeps_quotient [of q r d] by (cases "rnd q r d") auto
  then show ?thesis by (simp add: applyRate_def Let_def)
qed

end

subsection \<open>The six named rules satisfy it\<close>

lemma awayFromZero_ok:
  assumes "awayFromZero q r = Inr z"
  shows "sint z = sint q + sgn (sint r)"
  using assms sint64_range [of r]
  by (auto simp: awayFromZero_def Let_def icmp_def word_sless_alt iadd_spec isub_spec int64_simps
      split: if_splits)

lemma compareTwice_ok:
  assumes "compareTwiceRemToDivisor r d = Inr c"
  shows "(0 < c \<longleftrightarrow> sint d < 2 * \<bar>sint r\<bar>) \<and> (c < 0 \<longleftrightarrow> 2 * \<bar>sint r\<bar> < sint d)"
  using assms
  by (auto simp: compareTwiceRemToDivisor_def result_simps iabs_spec imul_spec int64_simps
      mult.commute split: if_splits)

lemma away_error:
  assumes "0 < d" and "\<bar>r\<bar> < d"
  shows "\<bar>(q + sgn r) * d - (q * d + r)\<bar> < (d :: int)"
    and "d \<le> 2 * \<bar>r\<bar> \<Longrightarrow> 2 * \<bar>(q + sgn r) * d - (q * d + r)\<bar> \<le> d"
  using assms by (auto simp: algebra_simps sgn_if abs_if split: if_splits)

lemma nearest_choice:
  fixes d q r z :: int
  assumes "0 < d" and "\<bar>r\<bar> < d"
    and "z = q + sgn r \<and> d \<le> 2 * \<bar>r\<bar> \<or> z = q \<and> 2 * \<bar>r\<bar> \<le> d"
  shows "\<bar>z * d - (q * d + r)\<bar> < d" and "2 * \<bar>z * d - (q * d + r)\<bar> \<le> d"
proof -
  consider "z = q + sgn r" "d \<le> 2 * \<bar>r\<bar>" | "z = q" "2 * \<bar>r\<bar> \<le> d" using assms(3) by blast
  then have "\<bar>z * d - (q * d + r)\<bar> < d \<and> 2 * \<bar>z * d - (q * d + r)\<bar> \<le> d"
    using assms(1,2) by cases (simp_all add: away_error)
  then show "\<bar>z * d - (q * d + r)\<bar> < d" "2 * \<bar>z * d - (q * d + r)\<bar> \<le> d" by blast+
qed

lemma roundUp_ok: "roundUp q r d = Inr z \<Longrightarrow> sint z = sint q + sgn (sint r)"
  by (simp add: roundUp_def awayFromZero_ok)

lemma roundFloor_ok: "roundFloor q r d = Inr z \<Longrightarrow> sint z = (if sint r < 0 then sint q - 1 else sint q)"
  by (auto simp: roundFloor_def isub_spec int64_simps split: if_splits)

lemma roundCeil_ok: "roundCeil q r d = Inr z \<Longrightarrow> sint z = (if 0 < sint r then sint q + 1 else sint q)"
  by (auto simp: roundCeil_def iadd_spec int64_simps split: if_splits)

lemma roundHalfUp_ok:
  assumes "roundHalfUp q r d = Inr z"
  shows "sint z = (if sint d \<le> 2 * \<bar>sint r\<bar> then sint q + sgn (sint r) else sint q)"
  using assms compareTwice_ok [of r d] awayFromZero_ok [of q r z]
  by (auto simp: roundHalfUp_def result_simps split: if_splits)

lemma roundHalfEven_ok:
  assumes "roundHalfEven q r d = Inr z"
  shows "sint z = (if sint d < 2 * \<bar>sint r\<bar> \<or> sint d = 2 * \<bar>sint r\<bar> \<and> odd (sint q)
                   then sint q + sgn (sint r) else sint q)"
  using assms compareTwice_ok [of r d] awayFromZero_ok [of q r z]
  by (auto simp: roundHalfEven_def result_simps isEven_spec split: if_splits)

interpretation down: truncating_rounder roundDown
  by unfold_locales (auto simp: roundDown_def)

interpretation up: rounder roundUp
  by unfold_locales (auto simp: away_error dest!: roundUp_ok)

interpretation floor: rounder roundFloor
  by unfold_locales (auto simp: algebra_simps dest!: roundFloor_ok)

interpretation ceil: rounder roundCeil
  by unfold_locales (auto simp: algebra_simps dest!: roundCeil_ok)

lemma roundHalfUp_choice:
  "roundHalfUp q r d = Inr z \<Longrightarrow>
     sint z = sint q + sgn (sint r) \<and> sint d \<le> 2 * \<bar>sint r\<bar> \<or> sint z = sint q \<and> 2 * \<bar>sint r\<bar> \<le> sint d"
  by (auto dest!: roundHalfUp_ok split: if_splits)

lemma roundHalfEven_choice:
  "roundHalfEven q r d = Inr z \<Longrightarrow>
     sint z = sint q + sgn (sint r) \<and> sint d \<le> 2 * \<bar>sint r\<bar> \<or> sint z = sint q \<and> 2 * \<bar>sint r\<bar> \<le> sint d"
  by (auto dest!: roundHalfEven_ok split: if_splits)

interpretation half_up: nearest_rounder roundHalfUp
  by unfold_locales (blast intro: nearest_choice dest: roundHalfUp_choice)+

interpretation half_even: nearest_rounder roundHalfEven
  by unfold_locales (blast intro: nearest_choice dest: roundHalfEven_choice)+

section \<open>Banker's rounding against a reference definition\<close>

text \<open>The nearest integer to \<open>n / d\<close>, an exact half going to the even neighbour, over floor
  division: no truncation, remainder signs or overflow.\<close>

definition halfEvenRef :: "int \<Rightarrow> int \<Rightarrow> int" where
  "halfEvenRef n d =
     (let f = n div d; t = 2 * (n mod d)
      in if t < d then f else if d < t then f + 1 else if even f then f else f + 1)"

lemma halfEvenRef_10000:
  assumes n: "n = Q * 10000 + R" and R: "\<bar>R\<bar> < 10000"
  shows "halfEvenRef n 10000 =
    (if 10000 < 2 * \<bar>R\<bar> \<or> 2 * \<bar>R\<bar> = 10000 \<and> odd Q then Q + sgn R else Q)"
proof (cases "0 \<le> R")
  case True
  then have "n div 10000 = Q" "n mod 10000 = R" using n R by (simp_all add: div_pos_pos_trivial)
  then show ?thesis using True R by (auto simp: halfEvenRef_def Let_def sgn_if)
next
  case False
  have "n = 10000 * (Q - 1) + (R + 10000)" "0 \<le> R + 10000" "R + 10000 < 10000"
    using n R False by auto
  then have "n div 10000 = Q - 1" "n mod 10000 = R + 10000"
    using int_div_pos_eq int_mod_pos_eq by blast+
  then show ?thesis using False R by (auto simp: halfEvenRef_def Let_def sgn_if)
qed

lemma awayFromZero_spec:
  "awayFromZero q r =
     (if inInt64 (sint q + sgn (sint r)) then Inr (word_of_int (sint q + sgn (sint r))) else Inl ErrOverflow)"
  by (auto simp: awayFromZero_def Let_def icmp_def word_sless_alt iadd_spec isub_spec sgn_if)

lemma compareTwice_small:
  assumes "\<bar>sint r\<bar> < 10000"
  shows "compareTwiceRemToDivisor r basisPointScale =
    Inr (if 2 * \<bar>sint r\<bar> < 10000 then - 1 else if 10000 < 2 * \<bar>sint r\<bar> then 1 else 0)"
proof -
  have s: "sint (word_of_int \<bar>sint r\<bar> :: int64) = \<bar>sint r\<bar>"
          "sint (word_of_int (\<bar>sint r\<bar> * 2) :: int64) = \<bar>sint r\<bar> * 2"
    by (rule sint_of_int64, use assms in \<open>simp add: inInt64_def\<close>)+
  show ?thesis
    using assms s by (auto simp: compareTwiceRemToDivisor_def iabs_spec imul_spec icmp_def
        word_sless_alt inInt64_def)
qed

lemma roundHalfEven_spec:
  assumes "\<bar>sint r\<bar> < 10000"
  shows "roundHalfEven q r basisPointScale =
    (let z = halfEvenRef (sint q * 10000 + sint r) 10000
     in if inInt64 z then Inr (word_of_int z) else Inl ErrOverflow)"
  unfolding roundHalfEven_def compareTwice_small [OF assms]
  by (auto simp: halfEvenRef_10000 [OF refl assms] awayFromZero_spec isEven_spec Let_def)

lemma halfEvenRef_range:
  assumes "\<not> inInt64 (n sdiv 10000)"
  shows "\<not> inInt64 (halfEvenRef n 10000)"
proof -
  let ?Q = "n sdiv 10000" and ?R = "n smod 10000"
  have n: "n = ?Q * 10000 + ?R" by (rule sdiv_mult_smod_eq [symmetric])
  have R: "\<bar>?R\<bar> < 10000" using smod_int_range [of 10000 n] by auto
  have "0 < ?Q \<Longrightarrow> 0 \<le> sgn ?R" "?Q < 0 \<Longrightarrow> sgn ?R \<le> 0"
    by (auto simp: signed_divide_int_def signed_modulo_int_def sgn_if split: if_splits)
  then show ?thesis
    using assms unfolding halfEvenRef_10000 [OF n R] inInt64_def by auto
qed

lemma applyRate_default:
  "applyRate m bp None =
     (if \<not> valid m then Inl ErrInvalidMoney
      else let z = halfEvenRef (amt m * sint (bpValue bp)) 10000
           in if inInt64 z then Inr (m\<lparr>mantissa := word_of_int z\<rparr>) else Inl ErrOverflow)"
proof (cases "inInt64 ((amt m * sint (bpValue bp)) sdiv 10000)")
  case True
  show ?thesis
    using True rate_parts(1) [OF True]
    by (auto simp: applyRate_def Let_def roundHalfEven_spec [OF rate_parts(2) [OF True]])
next
  case False
  then show ?thesis using halfEvenRef_range [OF False] by (auto simp: applyRate_def Let_def)
qed

lemma netFrom_ok:
  "netFrom acc vs = Inr r \<Longrightarrow>
     (\<forall>v \<in> set vs. sameUnit acc v) \<and> amt r = amt acc + sum_list (map amt vs) \<and>
     currency r = currency acc \<and> exponent r = exponent acc"
proof (induction vs arbitrary: acc)
  case Nil
  then show ?case by simp
next
  case (Cons v vs)
  then obtain nx where nx: "addMoney acc v = Inr nx" and rest: "netFrom nx vs = Inr r"
    by (auto simp: result_simps)
  from nx have "sameUnit acc v" by (simp add: addMoney_ok)
  with addMoney_amt [OF nx] Cons.IH [OF rest] show ?case by (auto simp: sameUnit_def)
qed

lemma split_encoding:
  assumes "validCurrency c"
  shows "splitOn (CHR '':'') (c @ CHR '':'' # formatInt i @ CHR '':'' # formatInt j) = [c, formatInt i, formatInt j]"
  using validCurrency_shape [OF assms] formatInt_no_colon
  by (simp add: splitOn_append splitOn_plain)

lemma sint8_range: "- 128 \<le> sint (x :: int8) \<and> sint x \<le> 127"
  using sint_greater_eq [of x] sint_lt [of x] by simp

lemma parse_mantissa: "parseInt 64 (formatInt (sint (x :: int64))) = Some (sint x)"
  using sint64_range [of x] by (intro parseInt_formatInt) auto

lemma parse_exponent: "parseInt 8 (formatInt (sint (x :: int8))) = Some (sint x)"
  using sint8_range [of x] by (intro parseInt_formatInt) auto

lemma decode_marshal:
  assumes "valid m"
  shows "decode (moneyString m) = Inr m"
  using assms
  by (simp add: decode_def unmarshalText_def moneyString_def marshalText_def valid_def split_encoding
      parse_mantissa parse_exponent)

lemma sdiv_magnitude: "\<bar>n sdiv 10000\<bar> * 10000 \<le> \<bar>n :: int\<bar>"
proof -
  have "n sdiv 10000 = sgn n * (\<bar>n\<bar> div 10000)" by (simp add: signed_divide_int_def)
  then have "\<bar>n sdiv 10000\<bar> \<le> \<bar>n\<bar> div 10000"
    by (simp add: abs_mult sgn_if pos_imp_zdiv_nonneg_iff)
  moreover have "\<bar>n\<bar> div 10000 * 10000 \<le> \<bar>n\<bar>" by (simp flip: minus_mod_eq_div_mult)
  ultimately show ?thesis by linarith
qed

lemma down_magnitude:
  assumes "applyRate m bp (Some roundDown) = Inr z"
  shows "\<bar>amt z\<bar> * 10000 \<le> \<bar>amt m * sint (bpValue bp)\<bar>"
proof -
  let ?n = "amt m * sint (bpValue bp)"
  from assms have "inInt64 (?n sdiv 10000)" and z: "mantissa z = word_of_int (?n sdiv 10000)"
    by (auto simp: down.applyRate_trunc split: if_splits)
  then have "amt z = ?n sdiv 10000" by (simp add: sint_of_int64)
  then show ?thesis using sdiv_magnitude [of ?n] by simp
qed

text \<open>Unfolding set for closed money terms.\<close>

lemmas money_eval =
  applyRate_def addMoney_def subMoney_def negMoney_def compareMoney_def compatible_def valid_def
  iadd_def isub_def ineg_def imul_def iabs_def icmp_def quot64_def minInt64_def inInt64_def
  basisPointScale_def word_sless_alt roundDown_def roundHalfUp_def roundHalfEven_def
  awayFromZero_def compareTwiceRemToDivisor_def isEven_spec

section \<open>Properties\<close>

text \<open>
  C20. The arithmetic primitives of checked.go never wrap: each returns the exact integer sum,
  difference, negation, product or absolute value when it fits in int64 and \<open>ErrOverflow\<close>
  exactly when it does not.
\<close>

theorem checked_arithmetic_exact:
  "iadd a b = (if inInt64 (sint a + sint b) then Inr (word_of_int (sint a + sint b)) else Inl ErrOverflow)
   \<and> isub a b = (if inInt64 (sint a - sint b) then Inr (word_of_int (sint a - sint b)) else Inl ErrOverflow)
   \<and> ineg a = (if inInt64 (- sint a) then Inr (word_of_int (- sint a)) else Inl ErrOverflow)
   \<and> imul a b = (if inInt64 (sint a * sint b) then Inr (word_of_int (sint a * sint b)) else Inl ErrOverflow)
   \<and> iabs a = (if inInt64 \<bar>sint a\<bar> then Inr (word_of_int \<bar>sint a\<bar>) else Inl ErrOverflow)"
  by (intro conjI checked_specs)

text \<open>
  C19. Addition, subtraction and comparison combine only valid amounts of one currency and one
  exponent: an invalid operand is reported before a currency mismatch, that before an exponent
  mismatch, that before an overflow, and otherwise the result is exact in the same unit.  Negation
  refuses an invalid amount, then the one mantissa whose negation overflows, and is exact otherwise.
\<close>

theorem money_operations_exact:
  "addMoney m n =
     (if \<not> (valid m \<and> valid n) then Inl ErrInvalidMoney
      else if currency m \<noteq> currency n then Inl ErrCurrencyMismatch
      else if exponent m \<noteq> exponent n then Inl ErrExponentMismatch
      else if inInt64 (amt m + amt n) then Inr (m\<lparr>mantissa := word_of_int (amt m + amt n)\<rparr>)
      else Inl ErrOverflow)
   \<and> subMoney m n =
     (if \<not> (valid m \<and> valid n) then Inl ErrInvalidMoney
      else if currency m \<noteq> currency n then Inl ErrCurrencyMismatch
      else if exponent m \<noteq> exponent n then Inl ErrExponentMismatch
      else if inInt64 (amt m - amt n) then Inr (m\<lparr>mantissa := word_of_int (amt m - amt n)\<rparr>)
      else Inl ErrOverflow)
   \<and> compareMoney m n =
     (if \<not> (valid m \<and> valid n) then Inl ErrInvalidMoney
      else if currency m \<noteq> currency n then Inl ErrCurrencyMismatch
      else if exponent m \<noteq> exponent n then Inl ErrExponentMismatch
      else Inr (if amt m < amt n then - 1 else if amt n < amt m then 1 else 0))
   \<and> negMoney m =
     (if \<not> valid m then Inl ErrInvalidMoney
      else if inInt64 (- amt m) then Inr (m\<lparr>mantissa := word_of_int (- amt m)\<rparr>)
      else Inl ErrOverflow)"
  by (simp add: addMoney_def subMoney_def compareMoney_def negMoney_def compatible_def iadd_spec isub_spec
      ineg_spec icmp_def word_sless_alt)

text \<open>
  Further. Netting a list of amounts succeeds only over amounts of one unit, and then yields the exact
  sum of their mantissas in that unit; an empty list is an error.
\<close>

theorem net_exact:
  assumes "net vs = Inr r"
  shows "vs \<noteq> [] \<and> (\<forall>v \<in> set vs. sameUnit r v) \<and> amt r = sum_list (map amt vs)"
proof -
  obtain v ws where vs: "vs = v # ws" "valid v" "netFrom v ws = Inr r"
    using assms by (cases vs) (auto split: if_splits)
  from netFrom_ok [OF vs(3)] vs show ?thesis
    by (auto simp: sameUnit_def valid_def)
qed

theorem net_exact_witness:
  "sum_list (map amt [\<lparr>mantissa = 5, currency = ''IRR'', exponent = - 2\<rparr>,
                      \<lparr>mantissa = - 7, currency = ''IRR'', exponent = - 2\<rparr>]) = - 2"
proof -
  let ?m = "\<lambda>x. \<lparr>mantissa = x, currency = ''IRR'', exponent = - 2\<rparr>"
  have "net [?m 5, ?m (- 7)] = Inr (?m (- 2))"
    by (simp add: money_eval)
  from net_exact [OF this] show ?thesis by simp
qed

text \<open>
  C35. The text encoding is lossless: decoding the canonical text of a valid amount gives that
  amount back, and the marker an invalid amount prints as never decodes to an amount.
\<close>

theorem money_text_roundtrip:
  "decode (moneyString m) = (if valid m then Inr m else Inl ErrMalformed)"
proof (cases "valid m")
  case True
  then show ?thesis by (simp add: decode_marshal)
next
  case False
  then show ?thesis
    by (simp add: decode_def unmarshalText_def moneyString_def marshalText_def invalidMoneyMarker_def)
qed

text \<open>
  C21. Applying a basis-point rate with the default rule is exact banker's rounding: the result is
  the nearest integer to mantissa times rate over 10000 with halves to even, in the unit of the
  amount, or \<open>ErrOverflow\<close> when that integer leaves int64.
\<close>

theorem applyRate_bankers_rounding:
  "applyRate m bp None =
     (if \<not> valid m then Inl ErrInvalidMoney
      else let z = halfEvenRef (amt m * sint (bpValue bp)) 10000
           in if inInt64 z then Inr (m\<lparr>mantissa := word_of_int z\<rparr>) else Inl ErrOverflow)"
  by (rule applyRate_default)

text \<open>
  Further. Every named rounding rule stays within one unit of the exact rational, the two half rules
  within half a unit, and \<open>RoundDown\<close> never exceeds the exact magnitude.
\<close>

theorem applyRate_rounding_error:
  assumes "applyRate m bp (Some r) = Inr z"
    and "r \<in> {roundDown, roundUp, roundFloor, roundCeil, roundHalfUp, roundHalfEven}"
  shows "sameUnit z m
    \<and> \<bar>amt z * 10000 - amt m * sint (bpValue bp)\<bar> < 10000
    \<and> (r = roundHalfUp \<or> r = roundHalfEven \<longrightarrow>
         2 * \<bar>amt z * 10000 - amt m * sint (bpValue bp)\<bar> \<le> 10000)
    \<and> (r = roundDown \<longrightarrow> \<bar>amt z\<bar> * 10000 \<le> \<bar>amt m * sint (bpValue bp)\<bar>)"
proof (intro conjI impI)
  show "sameUnit z m" and "\<bar>amt z * 10000 - amt m * sint (bpValue bp)\<bar> < 10000"
    using assms(2) assms(1)
    by (auto dest: down.applyRate_ok up.applyRate_ok floor.applyRate_ok ceil.applyRate_ok
        half_up.applyRate_ok half_even.applyRate_ok)
  show "2 * \<bar>amt z * 10000 - amt m * sint (bpValue bp)\<bar> \<le> 10000" if "r = roundHalfUp \<or> r = roundHalfEven"
    using that assms(1) half_up.applyRate_nearest half_even.applyRate_nearest by blast
  show "\<bar>amt z\<bar> * 10000 \<le> \<bar>amt m * sint (bpValue bp)\<bar>" if "r = roundDown"
    using that assms(1) down_magnitude by blast
qed

theorem applyRate_rounding_error_witness:
  "applyRate \<lparr>mantissa = 333, currency = ''IRR'', exponent = 0\<rparr> \<lparr>bpValue = 500\<rparr> (Some roundHalfUp)
     = Inr \<lparr>mantissa = 17, currency = ''IRR'', exponent = 0\<rparr>
   \<and> \<bar>17 * 10000 - 333 * 500\<bar> < (10000 :: int)"
proof -
  let ?m = "\<lambda>x. \<lparr>mantissa = x, currency = ''IRR'', exponent = 0\<rparr>"
  have e: "applyRate (?m 333) \<lparr>bpValue = 500\<rparr> (Some roundHalfUp) = Inr (?m 17)"
    by (simp add: money_eval)
  from applyRate_rounding_error [OF e] show ?thesis using e by simp
qed

end
