(* ===== verification/Normalize.thy ===== *)
theory Normalize
  imports GoStd
begin

text \<open>
  The input normaliser (services/core/internal/normalize/normalize.go): Persian and Arabic-Indic
  digits fold to ASCII, every other rune is kept.  Text is the sequence of runes Go's \<open>range\<close>
  loop yields on a valid UTF-8 string.
\<close>

definition digitFold :: "rune \<Rightarrow> rune option" where
  "digitFold r =
     (if 0x06F0 \<le> r \<and> r \<le> 0x06F9 then Some (48 + (r - 0x06F0))
      else if 0x0660 \<le> r \<and> r \<le> 0x0669 then Some (48 + (r - 0x0660))
      else None)"

definition digits :: "rune list \<Rightarrow> rune list" where
  "digits s =
     (if s = [] then s
      else if \<not> list_ex (\<lambda>r. digitFold r \<noteq> None) s then s
      else map (\<lambda>r. case digitFold r of Some ascii \<Rightarrow> ascii | None \<Rightarrow> r) s)"

text \<open>The text of an ASCII string literal as runes, and back.\<close>

definition runes :: "string \<Rightarrow> rune list" where
  "runes s = map of_char s"

definition asciiOf :: "rune list \<Rightarrow> string" where
  "asciiOf rs = map char_of rs"

definition isDigitRune :: "rune \<Rightarrow> bool" where
  "isDigitRune r \<longleftrightarrow> 48 \<le> r \<and> r \<le> 57"

text \<open>The fast path of the code changes nothing: the result is always the rune-wise fold.\<close>

definition foldRune :: "rune \<Rightarrow> rune" where
  "foldRune r = (case digitFold r of Some ascii \<Rightarrow> ascii | None \<Rightarrow> r)"

lemma digits_map: "digits s = map foldRune s"
proof (cases "list_ex (\<lambda>r. digitFold r \<noteq> None) s")
  case True
  then show ?thesis by (auto simp: digits_def foldRune_def)
next
  case False
  then have "map foldRune s = s"
    by (intro map_idI) (auto simp: list_ex_iff foldRune_def)
  with False show ?thesis by (simp add: digits_def)
qed

lemma foldRune_idem [simp]: "foldRune (foldRune r) = foldRune r"
  by (auto simp: foldRune_def digitFold_def)

lemma foldRune_cases: "foldRune r = r \<or> isDigitRune (foldRune r)"
  by (auto simp: foldRune_def digitFold_def isDigitRune_def)

lemma digits_idem: "digits (digits s) = digits s"
  by (simp add: digits_map)

lemma digits_ascii: "\<forall>r \<in> set s. r < 0x0660 \<Longrightarrow> digits s = s"
  unfolding digits_map by (rule map_idI) (auto simp: foldRune_def digitFold_def)

lemma foldRune_space [simp]: "isSpaceRune (foldRune r) = isSpaceRune r"
  by (auto simp: foldRune_def digitFold_def isSpaceRune_def)

text \<open>The value a run of ASCII digits denotes.\<close>

definition digitsVal :: "rune list \<Rightarrow> nat" where
  "digitsVal rs = foldl (\<lambda>a r. a * 10 + (r - 48)) 0 rs"

lemma foldl_digits: "foldl (\<lambda>a r. a * 10 + (r - 48)) a rs = a * 10 ^ length rs + digitsVal rs"
proof (induction rs arbitrary: a)
  case Nil
  then show ?case by (simp add: digitsVal_def)
next
  case (Cons r rs)
  have "digitsVal (r # rs) = (r - 48) * 10 ^ length rs + digitsVal rs"
    using Cons.IH [of "r - 48"] by (simp add: digitsVal_def)
  with Cons.IH [of "a * 10 + (r - 48)"] show ?case by (simp add: algebra_simps)
qed

lemma digitsVal_append: "digitsVal (xs @ ys) = digitsVal xs * 10 ^ length ys + digitsVal ys"
proof -
  have "digitsVal (xs @ ys) = foldl (\<lambda>a r. a * 10 + (r - 48)) (digitsVal xs) ys"
    by (simp add: digitsVal_def)
  then show ?thesis by (simp only: foldl_digits)
qed

lemma digitsVal_Cons: "digitsVal (r # rs) = (r - 48) * 10 ^ length rs + digitsVal rs"
proof -
  have "digitsVal [r] = r - 48" by (simp add: digitsVal_def)
  then show ?thesis using digitsVal_append [of "[r]" rs] by simp
qed

lemma digitsVal_Nil [simp]: "digitsVal [] = 0"
  by (simp add: digitsVal_def)

lemma digitsVal_zeros [simp]: "digitsVal (replicate n 48) = 0"
  by (induction n) (simp_all add: digitsVal_Cons)

lemma digitsVal_trim: "digitsVal (dropWhile (\<lambda>r. r = 48) rs) = digitsVal rs"
  by (induction rs) (auto simp: digitsVal_Cons)

lemma parseDigits_runes:
  "\<forall>r \<in> set rs. isDigitRune r \<Longrightarrow>
     parseDigits acc (asciiOf rs) = Some (acc * 10 ^ length rs + digitsVal rs)"
proof (induction rs arbitrary: acc)
  case Nil
  then show ?case by (simp add: asciiOf_def)
next
  case (Cons r rs)
  then have "of_char (char_of r :: char) = r" "isDigitChar (char_of r)" "digitVal (char_of r) = r - 48"
    by (auto simp: isDigitRune_def isDigitChar_def digitVal_def)
  with Cons show ?case by (simp add: asciiOf_def digitsVal_Cons algebra_simps)
qed

lemma parseInt_runes:
  assumes "\<forall>r \<in> set rs. isDigitRune r" and "rs \<noteq> []"
  shows "parseInt 64 (asciiOf rs) =
    (if digitsVal rs \<le> 9223372036854775807 then Some (int (digitsVal rs)) else None)"
proof -
  obtain r rs' where rs: "rs = r # rs'" using assms(2) by (cases rs) auto
  then have "of_char (char_of r :: char) = r" "isDigitRune r" using assms(1) by (auto simp: isDigitRune_def)
  then have "isDigitChar (char_of r)" by (auto simp: isDigitChar_def isDigitRune_def)
  then have "char_of r \<noteq> CHR ''-''" "char_of r \<noteq> CHR ''+''" using sign_not_digit by metis+
  then show ?thesis
    using parseDigits_runes [OF assms(1), of 0] rs
    by (auto simp: parseInt_def asciiOf_def Let_def)
qed

end
