(* ===== verification/Cost.thy ===== *)
theory Cost
  imports Money Normalize
begin

text \<open>
  The pure part of the cost package (services/core/internal/cost): the closed set of cost
  components (component.go), authoritative provenance (provenance.go), the four-state margin
  readiness (readiness.go), the integer-only amount parser (amount.go, with the digit folding of
  internal/normalize), the column detection and record walk of a CSV import (csv.go) and the row
  dispositions of an import preview (preview.go).  The store-backed service is in CostStore.
\<close>

section \<open>Components (component.go)\<close>

text \<open>A Go string type with a closed set of named values: \<open>ComponentOther\<close> is any other string.\<close>

datatype component =
  ComponentCOGS | ComponentCommission | ComponentFulfillment | ComponentShipping
| ComponentPackaging | ComponentPromotion | ComponentAds | ComponentReturns
| ComponentOther string

definition allComponents :: "component list" where
  "allComponents =
     [ComponentCOGS, ComponentCommission, ComponentFulfillment, ComponentShipping,
      ComponentPackaging, ComponentPromotion, ComponentAds, ComponentReturns]"

definition isHardRequired :: "component \<Rightarrow> bool" where
  "isHardRequired c \<longleftrightarrow> c \<in> {ComponentCOGS, ComponentCommission}"

definition isApplicableOptional :: "component \<Rightarrow> bool" where
  "isApplicableOptional c \<longleftrightarrow> c \<in> {ComponentFulfillment, ComponentShipping, ComponentPromotion}"

definition isP0Optional :: "component \<Rightarrow> bool" where
  "isP0Optional c \<longleftrightarrow> c \<in> {ComponentPackaging, ComponentAds, ComponentReturns}"

definition componentValid :: "component \<Rightarrow> bool" where
  "componentValid c \<longleftrightarrow> isHardRequired c \<or> isApplicableOptional c \<or> isP0Optional c"

fun componentText :: "component \<Rightarrow> string" where
  "componentText ComponentCOGS = ''cogs''"
| "componentText ComponentCommission = ''commission''"
| "componentText ComponentFulfillment = ''fulfillment''"
| "componentText ComponentShipping = ''shipping''"
| "componentText ComponentPackaging = ''packaging''"
| "componentText ComponentPromotion = ''promotion''"
| "componentText ComponentAds = ''ads''"
| "componentText ComponentReturns = ''returns''"
| "componentText (ComponentOther s) = s"

text \<open>The conversion \<open>Component(s)\<close> and the fail-closed parser around it.\<close>

definition componentOf :: "string \<Rightarrow> component" where
  "componentOf s =
     (case find (\<lambda>c. componentText c = s) allComponents of
        Some c \<Rightarrow> c | None \<Rightarrow> ComponentOther s)"

definition parseComponent :: "string \<Rightarrow> component option" where
  "parseComponent s = (let c = componentOf s in if componentValid c then Some c else None)"

lemmas component_class_defs = isHardRequired_def isApplicableOptional_def isP0Optional_def

lemma componentValid_iff: "componentValid c \<longleftrightarrow> c \<in> set allComponents"
  by (cases c) (simp_all add: componentValid_def component_class_defs allComponents_def)

lemma component_classes_partition:
  "c \<in> set allComponents \<Longrightarrow>
     (isHardRequired c \<and> \<not> isApplicableOptional c \<and> \<not> isP0Optional c) \<or>
     (\<not> isHardRequired c \<and> isApplicableOptional c \<and> \<not> isP0Optional c) \<or>
     (\<not> isHardRequired c \<and> \<not> isApplicableOptional c \<and> isP0Optional c)"
  by (auto simp: allComponents_def component_class_defs)

lemma componentOf_text: "componentValid c \<Longrightarrow> componentOf (componentText c) = c"
  by (cases c) (simp_all add: componentOf_def allComponents_def componentValid_def component_class_defs)

lemma parse_componentText: "componentValid c \<Longrightarrow> parseComponent (componentText c) = Some c"
  by (simp add: parseComponent_def componentOf_text)

section \<open>Provenance (provenance.go)\<close>

definition sourceCSVImport :: string where "sourceCSVImport = ''csv_import''"
definition sourceSingleValue :: string where "sourceSingleValue = ''single_value''"
definition sourceConnector :: string where "sourceConnector = ''connector''"

definition isAuthoritativeSource :: "string \<Rightarrow> bool" where
  "isAuthoritativeSource source \<longleftrightarrow> source = sourceConnector"

definition requiresAuthoritativeProvenance :: "component \<Rightarrow> bool" where
  "requiresAuthoritativeProvenance c \<longleftrightarrow> c = ComponentCommission"

section \<open>Readiness (readiness.go)\<close>

datatype readiness_state = StateComplete | StatePartial | StateStale | StateMissing | StateOther string

record component_presence =
  cpPresent :: bool
  cpStale :: bool
  cpAuthoritative :: bool

text \<open>Reading a Go map at an absent key yields the zero value.\<close>

definition absentPresence :: component_presence where
  "absentPresence = \<lparr>cpPresent = False, cpStale = False, cpAuthoritative = False\<rparr>"

record readiness_input =
  riComponents :: "component \<rightharpoonup> component_presence"
  riApplicable :: "component \<Rightarrow> bool"
  riRequiredOptional :: "component \<Rightarrow> bool"

record readiness =
  rdState :: readiness_state
  rdMissing :: "component list"
  rdStale :: "component list"

definition presenceOf :: "readiness_input \<Rightarrow> component \<Rightarrow> component_presence" where
  "presenceOf inp c = (case riComponents inp c of None \<Rightarrow> absentPresence | Some p \<Rightarrow> p)"

definition required :: "readiness_input \<Rightarrow> component \<Rightarrow> bool" where
  "required inp c =
     (if isHardRequired c then True
      else if isApplicableOptional c then riApplicable inp c
      else if isP0Optional c then riRequiredOptional inp c
      else False)"

text \<open>One turn of the loop over \<open>AllComponents\<close>: the missing and stale lists and the flag.\<close>

definition readinessStep ::
  "readiness_input \<Rightarrow> component list \<times> component list \<times> bool \<Rightarrow> component
    \<Rightarrow> component list \<times> component list \<times> bool" where
  "readinessStep inp acc c =
     (case acc of (missing, stale, hardMissing) \<Rightarrow>
        if \<not> required inp c then acc
        else
          (let p = presenceOf inp c in
           if \<not> cpPresent p \<or> (requiresAuthoritativeProvenance c \<and> \<not> cpAuthoritative p)
           then (missing @ [c], stale, hardMissing \<or> isHardRequired c)
           else if cpStale p then (missing, stale @ [c], hardMissing)
           else acc))"

definition deriveReadiness :: "readiness_input \<Rightarrow> readiness" where
  "deriveReadiness inp =
     (case foldl (readinessStep inp) ([], [], False) allComponents of
        (missing, stale, hardMissing) \<Rightarrow>
          \<lparr>rdState = (if hardMissing then StateMissing
                      else if 0 < length stale then StateStale
                      else if 0 < length missing then StatePartial
                      else StateComplete),
           rdMissing = missing, rdStale = stale\<rparr>)"

subsection \<open>What readiness means\<close>

definition satisfied :: "readiness_input \<Rightarrow> component \<Rightarrow> bool" where
  "satisfied inp c \<longleftrightarrow>
     cpPresent (presenceOf inp c) \<and>
     (requiresAuthoritativeProvenance c \<longrightarrow> cpAuthoritative (presenceOf inp c))"

lemma readiness_fold:
  "foldl (readinessStep inp) (ms, ss, hm) cs =
     (ms @ filter (\<lambda>c. required inp c \<and> \<not> satisfied inp c) cs,
      ss @ filter (\<lambda>c. required inp c \<and> satisfied inp c \<and> cpStale (presenceOf inp c)) cs,
      hm \<or> (\<exists>c \<in> set cs. isHardRequired c \<and> \<not> satisfied inp c))"
proof (induction cs arbitrary: ms ss hm)
  case Nil
  then show ?case by simp
next
  case (Cons c cs)
  have "isHardRequired c \<Longrightarrow> required inp c" by (simp add: required_def)
  then have "readinessStep inp (ms, ss, hm) c =
     (ms @ (if required inp c \<and> \<not> satisfied inp c then [c] else []),
      ss @ (if required inp c \<and> satisfied inp c \<and> cpStale (presenceOf inp c) then [c] else []),
      hm \<or> (isHardRequired c \<and> \<not> satisfied inp c))"
    by (auto simp: readinessStep_def satisfied_def Let_def)
  then show ?case by (simp add: Cons.IH disj_assoc)
qed

lemma deriveReadiness_lists:
  "rdMissing (deriveReadiness inp) = filter (\<lambda>c. required inp c \<and> \<not> satisfied inp c) allComponents"
  "rdStale (deriveReadiness inp) =
     filter (\<lambda>c. required inp c \<and> satisfied inp c \<and> cpStale (presenceOf inp c)) allComponents"
  by (simp_all add: deriveReadiness_def readiness_fold)

lemma deriveReadiness_state:
  "rdState (deriveReadiness inp) =
     (if \<exists>c. isHardRequired c \<and> \<not> satisfied inp c then StateMissing
      else if \<exists>c. required inp c \<and> cpStale (presenceOf inp c) \<and> satisfied inp c then StateStale
      else if \<exists>c. required inp c \<and> \<not> satisfied inp c then StatePartial
      else StateComplete)"
proof -
  have r: "required inp c \<Longrightarrow> c \<in> set allComponents" for c
    by (auto simp: required_def componentValid_def simp flip: componentValid_iff split: if_splits)
  have h: "isHardRequired c \<Longrightarrow> required inp c" for c by (simp add: required_def)
  show ?thesis
    using r h by (auto simp: deriveReadiness_def readiness_fold filter_empty_conv)
qed

section \<open>Amounts typed by a seller (amount.go)\<close>

datatype amount_error =
  ErrEmptyAmount | ErrInvalidAmount | ErrNegativeAmount | ErrTooManyDecimals | ErrPercentNotMoney
| AmountMoneyErr money_error

definition amountReason :: "amount_error \<Rightarrow> string" where
  "amountReason err =
     (case err of
        ErrEmptyAmount \<Rightarrow> ''empty_amount''
      | ErrNegativeAmount \<Rightarrow> ''negative_amount''
      | ErrTooManyDecimals \<Rightarrow> ''too_many_decimals''
      | ErrPercentNotMoney \<Rightarrow> ''percent_not_money''
      | _ \<Rightarrow> ''invalid_amount'')"

definition percentMarks :: "rune list" where
  "percentMarks = [0x25, 0x066A, 0xFF05]"

text \<open>\<open>separatorReplacer\<close>: grouping marks vanish, the Arabic decimal separator becomes a dot.\<close>

definition replaceSeparator :: "rune \<Rightarrow> rune list" where
  "replaceSeparator r =
     (if r = 0x2C \<or> r = 0x066C \<or> r = 0x060C \<or> r = 0x20 then []
      else if r = 0x066B then [0x2E] else [r])"

text \<open>\<open>strings.Cut(s, ".")\<close>.\<close>

definition cutDot :: "rune list \<Rightarrow> rune list \<times> rune list \<times> bool" where
  "cutDot s =
     (takeWhile (\<lambda>r. r \<noteq> 0x2E) s, tl (dropWhile (\<lambda>r. r \<noteq> 0x2E) s), 0x2E \<in> set s)"

definition isASCIIDigits :: "rune list \<Rightarrow> bool" where
  "isASCIIDigits s \<longleftrightarrow> list_all isDigitRune s"

text \<open>
  \<open>targetFrac\<close> negates the exponent in int8, where $-128$ has no positive counterpart; the
  comparison is made in the wider \<open>int\<close>.
\<close>

definition targetFrac :: "int8 \<Rightarrow> int" where
  "targetFrac e = (if e <s 0 then sint (- e) else 0)"

text \<open>The digits of the mantissa: fraction right-padded, leading zeros trimmed.\<close>

definition mantissaDigits :: "rune list \<Rightarrow> rune list \<Rightarrow> int \<Rightarrow> rune list" where
  "mantissaDigits intPart fracPart target =
     (let padded = fracPart @ replicate (nat (target - int (length fracPart))) 48;
          ds = dropWhile (\<lambda>r. r = 48) (intPart @ padded)
      in if ds = [] then [48] else ds)"

definition parseAmount :: "rune list \<Rightarrow> string \<Rightarrow> int8 \<Rightarrow> (amount_error, money) result" where
  "parseAmount raw cur e =
     (let s0 = trimSpace (digits raw) in
      if list_ex (\<lambda>r. r \<in> set percentMarks) s0 then Inl ErrPercentNotMoney
      else
        (let s1 = concat (map replaceSeparator s0) in
         if s1 = [] then Inl ErrEmptyAmount
         else
           (let neg = (hd s1 = 0x2D);
                s = (if hd s1 = 0x2B \<or> hd s1 = 0x2D then tl s1 else s1) in
            if s = [] then Inl ErrInvalidAmount
            else
              (case cutDot s of (intPart, fracPart, hasDot) \<Rightarrow>
                 if 0x2E \<in> set fracPart then Inl ErrInvalidAmount
                 else if \<not> isASCIIDigits intPart \<or> \<not> isASCIIDigits fracPart then Inl ErrInvalidAmount
                 else if intPart = [] \<and> fracPart = [] then Inl ErrInvalidAmount
                 else if hasDot \<and> fracPart = [] then Inl ErrInvalidAmount
                 else if targetFrac e < int (length fracPart) then Inl ErrTooManyDecimals
                 else
                   (case parseInt 64 (asciiOf (mantissaDigits intPart fracPart (targetFrac e))) of
                      None \<Rightarrow> Inl ErrInvalidAmount
                    | Some m \<Rightarrow>
                        if neg \<and> m \<noteq> 0 then Inl ErrNegativeAmount
                        else mapErr AmountMoneyErr (newMoney (word_of_int m) cur e))))))"

lemma mantissaDigits_val:
  "int (length fp) \<le> t \<Longrightarrow>
     digitsVal (mantissaDigits ip fp t) = digitsVal (ip @ fp) * 10 ^ (nat t - length fp)"
proof -
  assume "int (length fp) \<le> t"
  then have n: "nat (t - int (length fp)) = nat t - length fp" by simp
  have z: "digitsVal (if ds = [] then [48] else ds) = digitsVal ds" for ds
    by (simp add: digitsVal_Cons)
  have "digitsVal (mantissaDigits ip fp t) = digitsVal ((ip @ fp) @ replicate (nat t - length fp) 48)"
    unfolding mantissaDigits_def Let_def z digitsVal_trim n by simp
  then show ?thesis by (simp only: digitsVal_append digitsVal_zeros length_replicate)
qed

lemma mantissaDigits_digits:
  assumes "isASCIIDigits ip" and "isASCIIDigits fp"
  shows "(\<forall>r \<in> set (mantissaDigits ip fp t). isDigitRune r) \<and> mantissaDigits ip fp t \<noteq> []"
  using assms
  by (auto simp: mantissaDigits_def Let_def isASCIIDigits_def list_all_iff isDigitRune_def
      dest!: set_dropWhileD)

lemma targetFrac_cases:
  "targetFrac e = (if sint e = - 128 then - 128 else max 0 (- sint e))"
proof (cases "sint e = - 128")
  case True
  then have "e = - 128" by (intro signed_word_eqI) simp
  then show ?thesis by (simp add: targetFrac_def word_sless_alt)
next
  case False
  then have "- 128 \<le> - sint e" "- sint e < 128" using sint8_range [of e] by auto
  then have "sint (- e) = - sint e"
    by (simp add: sint_word_ariths signed_take_bit_int_eq_self)
  with False show ?thesis by (simp add: targetFrac_def word_sless_alt)
qed

text \<open>
  A successful parse: the token is an optional sign followed by decimal digits with at most as
  many fractional digits as the exponent has places, and the mantissa is that decimal scaled
  exactly.
\<close>

definition amountToken :: "rune list \<Rightarrow> rune list" where
  "amountToken raw = concat (map replaceSeparator (trimSpace (digits raw)))"

definition unsignedToken :: "rune list \<Rightarrow> rune list" where
  "unsignedToken s = (if s \<noteq> [] \<and> (hd s = 0x2B \<or> hd s = 0x2D) then tl s else s)"

lemma parseAmount_ok:
  assumes "parseAmount raw cur e = Inr m"
  obtains ip fp hasDot where
    "cutDot (unsignedToken (amountToken raw)) = (ip, fp, hasDot)"
    "isASCIIDigits ip" "isASCIIDigits fp" "int (length fp) \<le> targetFrac e"
    "amt m = int (digitsVal (ip @ fp) * 10 ^ (nat (targetFrac e) - length fp))"
    "hd (amountToken raw) = 0x2D \<longrightarrow> amt m = 0"
    "valid m" "currency m = cur" "exponent m = e"
proof -
  obtain ip fp hd' where c: "cutDot (unsignedToken (amountToken raw)) = (ip, fp, hd')"
    by (metis prod_cases3)
  let ?ds = "mantissaDigits ip fp (targetFrac e)"
  from assms c obtain v where d: "isASCIIDigits ip" "isASCIIDigits fp" "int (length fp) \<le> targetFrac e"
    and v: "parseInt 64 (asciiOf ?ds) = Some v"
    and neg: "hd (amountToken raw) = 0x2D \<longrightarrow> v = 0"
    and m: "newMoney (word_of_int v) cur e = Inr m"
    by (auto simp: parseAmount_def Let_def amountToken_def unsignedToken_def result_simps
        split: if_splits prod.splits option.splits)
  from mantissaDigits_digits [OF d(1,2)] v
  have vv: "v = int (digitsVal ?ds)" "v \<le> 9223372036854775807"
    using parseInt_runes by (auto split: if_splits)
  then have "sint (word_of_int v :: int64) = v" by (intro sint_of_int64) (simp add: inInt64_def)
  moreover have "m = \<lparr>mantissa = word_of_int v, currency = cur, exponent = e\<rparr>" "validCurrency cur"
    using m by (auto simp: newMoney_ok)
  ultimately show thesis
    using that [OF c d] neg vv mantissaDigits_val [OF d(3)] by (simp add: valid_def)
qed

lemma parseAmount_fold: "parseAmount (digits raw) cur e = parseAmount raw cur e"
  by (simp add: parseAmount_def digits_idem)

section \<open>The columns and rows of a cost file (csv.go)\<close>

datatype csv_error = ErrNotUTF8 | ErrEmptyCSV | ErrNoSKUColumn | ErrNoComponentColumn | ErrMalformedCSV

record mapping_spec =
  mpSKUColumn :: "rune list"
  mpComponents :: "(rune list \<times> component) list"

record detected_column =
  dcHeader :: "rune list"
  dcComponent :: component

record detected_mapping =
  dmSKUColumn :: "rune list"
  dmComponentColumns :: "detected_column list"

record component_column =
  ccIdx :: nat
  ccComponent :: component

record parsed_entry =
  peRowNumber :: nat
  peRawSKU :: "rune list"
  peComponent :: component
  peRawValue :: "rune list"
  peNormalized :: "rune list"

definition skuHeaderAliases :: "rune list list" where
  "skuHeaderAliases = [runes ''sku'', runes ''supplier_code'', runes ''supplier code'']"

text \<open>
  The state of the header loop: the SKU index found so far, the component columns and what was
  detected.  \<open>lower\<close> is \<open>strings.ToLower\<close>, a parameter.
\<close>

record column_scan =
  csSku :: "nat option"
  csSkuHeader :: "rune list"
  csCols :: "component_column list"
  csDetected :: "detected_column list"

definition addColumn :: "nat \<Rightarrow> rune list \<Rightarrow> component \<Rightarrow> column_scan \<Rightarrow> column_scan" where
  "addColumn i h c st =
     st\<lparr>csCols := csCols st @ [\<lparr>ccIdx = i, ccComponent = c\<rparr>],
        csDetected := csDetected st @ [\<lparr>dcHeader = h, dcComponent = c\<rparr>]\<rparr>"

text \<open>\<open>ParseComponent\<close> on a token that may hold any rune.\<close>

definition parseComponentRunes :: "rune list \<Rightarrow> component option" where
  "parseComponentRunes key = find (\<lambda>c. runes (componentText c) = key) allComponents"

definition scanColumn ::
  "(rune list \<Rightarrow> rune list) \<Rightarrow> mapping_spec \<Rightarrow> nat \<Rightarrow> rune list \<Rightarrow> column_scan \<Rightarrow> column_scan" where
  "scanColumn lower m i h st =
     (let skuHeader = lower (trimSpace (mpSKUColumn m)); key = lower (trimSpace h) in
      if csSku st = None \<and> skuHeader \<noteq> [] \<and> key = skuHeader
      then st\<lparr>csSku := Some i, csSkuHeader := h\<rparr>
      else if csSku st = None \<and> skuHeader = [] \<and> key \<in> set skuHeaderAliases
      then st\<lparr>csSku := Some i, csSkuHeader := h\<rparr>
      else
        (let mapped = (case map_of (mpComponents m) h of
                         Some c \<Rightarrow> if componentValid c then Some c else None
                       | None \<Rightarrow> None)
         in case mapped of
              Some c \<Rightarrow> addColumn i h c st
            | None \<Rightarrow>
                if length (mpComponents m) = 0
                then (case parseComponentRunes key of Some c \<Rightarrow> addColumn i h c st | None \<Rightarrow> st)
                else st))"

fun scanColumns ::
  "(rune list \<Rightarrow> rune list) \<Rightarrow> mapping_spec \<Rightarrow> nat \<Rightarrow> rune list list \<Rightarrow> column_scan \<Rightarrow> column_scan" where
  "scanColumns lower m i [] st = st"
| "scanColumns lower m i (h # hs) st = scanColumns lower m (Suc i) hs (scanColumn lower m i h st)"

definition resolveColumns ::
  "(rune list \<Rightarrow> rune list) \<Rightarrow> rune list list \<Rightarrow> mapping_spec
    \<Rightarrow> (csv_error, nat \<times> component_column list \<times> detected_mapping) result" where
  "resolveColumns lower header m =
     (let st = scanColumns lower m 0 header
                 \<lparr>csSku = None, csSkuHeader = [], csCols = [], csDetected = []\<rparr> in
      case csSku st of
        None \<Rightarrow> Inl ErrNoSKUColumn
      | Some i \<Rightarrow>
          if length (csCols st) = 0 then Inl ErrNoComponentColumn
          else Inr (i, csCols st,
                    \<lparr>dmSKUColumn = csSkuHeader st, dmComponentColumns = csDetected st\<rparr>))"

definition isBlankRecord :: "rune list list \<Rightarrow> bool" where
  "isBlankRecord rec \<longleftrightarrow> list_all (\<lambda>f. trimSpace f = []) rec"

text \<open>
  The results \<open>r.Read()\<close> of \<open>encoding/csv\<close> returns before \<open>io.EOF\<close>: the first is the header.
\<close>

datatype csv_read = CsvRecord "rune list list" | CsvError

definition recordEntries ::
  "nat \<Rightarrow> nat \<Rightarrow> component_column list \<Rightarrow> rune list list \<Rightarrow> parsed_entry list" where
  "recordEntries line skuIdx compCols rec =
     (let rawSKU = (if skuIdx < length rec then trimSpace (rec ! skuIdx) else []) in
      concat (map (\<lambda>cc.
        if length rec \<le> ccIdx cc then []
        else
          (let cell = trimSpace (rec ! ccIdx cc) in
           if cell = [] then []
           else [\<lparr>peRowNumber = line, peRawSKU = rawSKU, peComponent = ccComponent cc,
                  peRawValue = cell, peNormalized = trimSpace (digits cell)\<rparr>])) compCols))"

fun readRecords ::
  "nat \<Rightarrow> nat \<Rightarrow> component_column list \<Rightarrow> csv_read list \<Rightarrow> (csv_error, parsed_entry list) result" where
  "readRecords line skuIdx compCols [] = Inr []"
| "readRecords line skuIdx compCols (CsvError # rs) = Inl ErrMalformedCSV"
| "readRecords line skuIdx compCols (CsvRecord rec # rs) =
     (if isBlankRecord rec then readRecords line skuIdx compCols rs
      else andThen (readRecords (Suc line) skuIdx compCols rs) (\<lambda>es.
           Inr (recordEntries (Suc line) skuIdx compCols rec @ es)))"

definition parseCSV ::
  "(rune list \<Rightarrow> rune list) \<Rightarrow> bool \<Rightarrow> csv_read list \<Rightarrow> mapping_spec
    \<Rightarrow> (csv_error, parsed_entry list \<times> detected_mapping) result" where
  "parseCSV lower validUTF8 reads m =
     (if \<not> validUTF8 then Inl ErrNotUTF8
      else
        (case reads of
           [] \<Rightarrow> Inl ErrEmptyCSV
         | CsvError # _ \<Rightarrow> Inl ErrMalformedCSV
         | CsvRecord header # rest \<Rightarrow>
             andThen (resolveColumns lower header m) (\<lambda>(skuIdx, compCols, detected).
             andThen (readRecords 0 skuIdx compCols rest) (\<lambda>entries.
             Inr (entries, detected)))))"

section \<open>Import previews (preview.go)\<close>

datatype disposition = DispositionAccept | DispositionReject | DispositionDuplicate

record resolved_sku =
  rsVariantID :: uuid
  rsCount :: nat

record preview_row =
  prRowNumber :: nat
  prRawSKU :: "rune list"
  prComponent :: component
  prRawValue :: "rune list"
  prNormalized :: "rune list"
  prVariantID :: uuid
  prHasVariant :: bool
  prMantissa :: int64
  prCurrency :: string
  prExponent :: int8
  prHasAmount :: bool
  prDisposition :: disposition
  prReason :: string

record counts =
  cntAccept :: nat
  cntReject :: nat
  cntDuplicate :: nat

definition dupKey :: "rune list \<Rightarrow> component \<Rightarrow> rune list" where
  "dupKey rawSKU c = rawSKU @ 0 # runes (componentText c)"

text \<open>The first loop fills a counter map; its value at a key is the number of entries with it.\<close>

fun dupCounts :: "parsed_entry list \<Rightarrow> (rune list \<Rightarrow> nat) \<Rightarrow> (rune list \<Rightarrow> nat)" where
  "dupCounts [] cnt = cnt"
| "dupCounts (e # es) cnt =
     (let k = dupKey (peRawSKU e) (peComponent e) in dupCounts es (cnt(k := cnt k + 1)))"

definition blankRow :: "parsed_entry \<Rightarrow> preview_row" where
  "blankRow e =
     \<lparr>prRowNumber = peRowNumber e, prRawSKU = peRawSKU e, prComponent = peComponent e,
      prRawValue = peRawValue e, prNormalized = peNormalized e, prVariantID = 0,
      prHasVariant = False, prMantissa = 0, prCurrency = [], prExponent = 0, prHasAmount = False,
      prDisposition = DispositionReject, prReason = []\<rparr>"

definition rejectRow :: "string \<Rightarrow> preview_row \<Rightarrow> preview_row" where
  "rejectRow reason row = row\<lparr>prDisposition := DispositionReject, prReason := reason\<rparr>"

definition decideRow ::
  "(rune list \<Rightarrow> nat) \<Rightarrow> (rune list \<rightharpoonup> resolved_sku) \<Rightarrow> string \<Rightarrow> int8 \<Rightarrow> parsed_entry \<Rightarrow> preview_row" where
  "decideRow dup resolved cur ex e =
     (let row = blankRow e in
      if 1 < dup (dupKey (peRawSKU e) (peComponent e))
      then row\<lparr>prDisposition := DispositionDuplicate, prReason := ''duplicate_in_file''\<rparr>
      else
        (let res = (case resolved (peRawSKU e) of None \<Rightarrow> \<lparr>rsVariantID = 0, rsCount = 0\<rparr> | Some r \<Rightarrow> r) in
         if rsCount res = 0 then rejectRow ''sku_not_found'' row
         else if 1 < rsCount res then rejectRow ''ambiguous_sku'' row
         else
           (let row = row\<lparr>prVariantID := rsVariantID res, prHasVariant := True\<rparr> in
            case parseAmount (peNormalized e) cur ex of
              Inl err \<Rightarrow> rejectRow (amountReason err) row
            | Inr m \<Rightarrow> row\<lparr>prMantissa := mantissa m, prCurrency := currency m,
                           prExponent := exponent m, prHasAmount := True,
                           prDisposition := DispositionAccept\<rparr>)))"

definition countRow :: "counts \<Rightarrow> preview_row \<Rightarrow> counts" where
  "countRow c row =
     (case prDisposition row of
        DispositionAccept \<Rightarrow> c\<lparr>cntAccept := cntAccept c + 1\<rparr>
      | DispositionReject \<Rightarrow> c\<lparr>cntReject := cntReject c + 1\<rparr>
      | DispositionDuplicate \<Rightarrow> c\<lparr>cntDuplicate := cntDuplicate c + 1\<rparr>)"

definition buildPreviewRows ::
  "parsed_entry list \<Rightarrow> (rune list \<rightharpoonup> resolved_sku) \<Rightarrow> string \<Rightarrow> int8 \<Rightarrow> preview_row list \<times> counts" where
  "buildPreviewRows entries resolved cur ex =
     (let dup = dupCounts entries (\<lambda>_. 0);
          rows = map (decideRow dup resolved cur ex) entries
      in (rows, foldl countRow \<lparr>cntAccept = 0, cntReject = 0, cntDuplicate = 0\<rparr> rows))"

section \<open>Facts about imports\<close>

lemma runes_inj [simp]: "runes a = runes b \<longleftrightarrow> a = b"
  by (auto simp: runes_def inj_map_eq_map [OF inj_of_char])

lemma componentText_no_nul: "componentValid c \<Longrightarrow> 0 \<notin> set (runes (componentText c))"
  by (cases c) (auto simp: componentValid_def component_class_defs runes_def)

lemma componentText_inj:
  "componentValid c \<Longrightarrow> componentValid d \<Longrightarrow> componentText c = componentText d \<longleftrightarrow> c = d"
  using componentOf_text by metis

lemma last_sep_eq:
  "x \<notin> set b \<Longrightarrow> x \<notin> set d \<Longrightarrow> a @ x # b = c @ x # d \<longleftrightarrow> a = c \<and> b = d"
proof (induction a arbitrary: c)
  case Nil
  then show ?case by (cases c) auto
next
  case (Cons y a)
  note IH = Cons.IH [OF Cons.prems]
  show ?case
  proof (cases c)
    case Nil
    then show ?thesis using Cons.prems(2) by auto
  next
    case (Cons z c')
    then show ?thesis using IH [of c'] by auto
  qed
qed

lemma dupKey_eq:
  "componentValid c \<Longrightarrow> componentValid d \<Longrightarrow> dupKey a c = dupKey b d \<longleftrightarrow> a = b \<and> c = d"
  by (simp add: dupKey_def last_sep_eq componentText_no_nul componentText_inj)

lemma dupCounts_spec:
  "dupCounts es cnt k = cnt k + length (filter (\<lambda>e. dupKey (peRawSKU e) (peComponent e) = k) es)"
  by (induction es arbitrary: cnt) (auto simp: Let_def)

lemma countRow_fold:
  "foldl countRow c rows =
     \<lparr>cntAccept = cntAccept c + length (filter (\<lambda>r. prDisposition r = DispositionAccept) rows),
      cntReject = cntReject c + length (filter (\<lambda>r. prDisposition r = DispositionReject) rows),
      cntDuplicate = cntDuplicate c + length (filter (\<lambda>r. prDisposition r = DispositionDuplicate) rows)\<rparr>"
  by (induction rows arbitrary: c) (auto simp: countRow_def split: disposition.splits)

lemma amountReason_nonempty: "amountReason err \<noteq> []"
  by (cases err) (simp_all add: amountReason_def)

lemma decideRow_reason: "prDisposition (decideRow d r cur ex e) \<noteq> DispositionAccept \<Longrightarrow>
    prReason (decideRow d r cur ex e) \<noteq> []"
  by (auto simp: decideRow_def Let_def rejectRow_def amountReason_nonempty
      split: if_splits option.splits sum.splits)

lemma decideRow_duplicate:
  "prDisposition (decideRow d r cur ex e) = DispositionDuplicate \<longleftrightarrow>
     1 < d (dupKey (peRawSKU e) (peComponent e))"
  by (auto simp: decideRow_def Let_def rejectRow_def split: if_splits option.splits sum.splits)

lemma parseComponentRunes_valid: "parseComponentRunes key = Some c \<Longrightarrow> componentValid c"
  by (auto simp: parseComponentRunes_def componentValid_iff find_Some_iff)

definition colsValid :: "column_scan \<Rightarrow> bool" where
  "colsValid st \<longleftrightarrow> (\<forall>cc \<in> set (csCols st). componentValid (ccComponent cc))"

lemma scanColumn_valid: "colsValid st \<Longrightarrow> colsValid (scanColumn lower m i h st)"
  by (auto simp: scanColumn_def Let_def addColumn_def colsValid_def parseComponentRunes_valid
      split: option.splits if_splits)

lemma scanColumns_valid: "colsValid st \<Longrightarrow> colsValid (scanColumns lower m i hs st)"
  by (induction hs arbitrary: i st) (simp_all add: scanColumn_valid)

lemma recordEntries_sound:
  "e \<in> set (recordEntries n i cols rec) \<Longrightarrow>
     peRowNumber e = n \<and> peRawValue e \<noteq> [] \<and> (\<exists>cc \<in> set cols. peComponent e = ccComponent cc)"
  by (auto simp: recordEntries_def Let_def split: if_splits)

lemma readRecords_sound:
  "readRecords n i cols rs = Inr es \<Longrightarrow> e \<in> set es \<Longrightarrow>
     n < peRowNumber e \<and> peRawValue e \<noteq> [] \<and> (\<exists>cc \<in> set cols. peComponent e = ccComponent cc)"
proof (induction n i cols rs arbitrary: es rule: readRecords.induct)
  case (3 n i cols rec rs)
  then show ?case
    by (fastforce simp: result_simps split: if_splits dest: recordEntries_sound)
qed auto

lemma parseCSV_entries_valid:
  assumes "parseCSV lower ok reads m = Inr (es, det)" and "e \<in> set es"
  shows "componentValid (peComponent e) \<and> peRawValue e \<noteq> [] \<and> 0 < peRowNumber e"
proof -
  from assms(1) obtain header rest i cols where
    r: "resolveColumns lower header m = Inr (i, cols, det)" and es: "readRecords 0 i cols rest = Inr es"
    by (auto simp: parseCSV_def result_simps split: if_splits list.splits csv_read.splits)
  from r have "\<forall>cc \<in> set cols. componentValid (ccComponent cc)"
    using scanColumns_valid [of "\<lparr>csSku = None, csSkuHeader = [], csCols = [], csDetected = []\<rparr>" lower m 0 header]
    by (auto simp: resolveColumns_def Let_def colsValid_def split: option.splits if_splits)
  with readRecords_sound [OF es assms(2)] show ?thesis by auto
qed

section \<open>Properties\<close>

text \<open>
  Further. Margin readiness is decided by a total precedence: Missing exactly when COGS or commission
  is unsatisfied (commission only by an authoritative source), else Stale when a required
  component is past its review instant, else Partial when another required component is absent,
  else Complete; the lists name exactly the offending components in canonical order.
\<close>

theorem readiness_precedence:
  "deriveReadiness inp =
     \<lparr>rdState =
        (if \<not> (satisfied inp ComponentCOGS \<and> satisfied inp ComponentCommission) then StateMissing
         else if \<exists>c. required inp c \<and> satisfied inp c \<and> cpStale (presenceOf inp c) then StateStale
         else if \<exists>c. required inp c \<and> \<not> satisfied inp c then StatePartial
         else StateComplete),
      rdMissing = filter (\<lambda>c. required inp c \<and> \<not> satisfied inp c) allComponents,
      rdStale = filter (\<lambda>c. required inp c \<and> satisfied inp c \<and> cpStale (presenceOf inp c)) allComponents\<rparr>"
proof -
  have "(\<exists>c. isHardRequired c \<and> \<not> satisfied inp c) \<longleftrightarrow>
      \<not> satisfied inp ComponentCOGS \<or> \<not> satisfied inp ComponentCommission"
    by (auto simp: isHardRequired_def)
  then have "rdState (deriveReadiness inp) =
      (if \<not> satisfied inp ComponentCOGS \<or> \<not> satisfied inp ComponentCommission then StateMissing
       else if \<exists>c. required inp c \<and> satisfied inp c \<and> cpStale (presenceOf inp c) then StateStale
       else if \<exists>c. required inp c \<and> \<not> satisfied inp c then StatePartial
       else StateComplete)"
    unfolding deriveReadiness_state by (simp only: conj_commute conj_left_commute)
  then show ?thesis using deriveReadiness_lists [of inp] by (cases "deriveReadiness inp") simp
qed

text \<open>
  Further. Amount parsing is exact: a token that parses is an optional sign and ASCII digits with no
  more fractional digits than the account exponent represents, its mantissa is that decimal
  shifted by the exponent with nothing rounded, it is never negative, and it carries the account
  unit; digits of the Persian and Arabic families parse as the ASCII ones.
\<close>

theorem parseAmount_exact:
  assumes "parseAmount raw cur e = Inr m"
  shows "\<exists>ip fp hasDot. cutDot (unsignedToken (amountToken raw)) = (ip, fp, hasDot)
      \<and> isASCIIDigits ip \<and> isASCIIDigits fp
      \<and> int (length fp) \<le> max 0 (- sint e)
      \<and> amt m * 10 ^ length fp = int (digitsVal (ip @ fp)) * 10 ^ nat (- sint e)
    \<and> 0 \<le> amt m \<and> valid m \<and> currency m = cur \<and> exponent m = e
    \<and> parseAmount (digits raw) cur e = Inr m"
proof -
  from parseAmount_ok [OF assms] obtain ip fp d where
    p: "cutDot (unsignedToken (amountToken raw)) = (ip, fp, d)" "isASCIIDigits ip" "isASCIIDigits fp"
       "int (length fp) \<le> targetFrac e"
       "amt m = int (digitsVal (ip @ fp) * 10 ^ (nat (targetFrac e) - length fp))"
       "valid m" "currency m = cur" "exponent m = e" by metis
  then have t: "targetFrac e = max 0 (- sint e)" by (auto simp: targetFrac_cases split: if_splits)
  have "10 ^ (nat (targetFrac e) - length fp) * 10 ^ length fp = (10 :: nat) ^ nat (targetFrac e)"
    using p(4) by (simp flip: power_add)
  then have "digitsVal (ip @ fp) * 10 ^ (nat (targetFrac e) - length fp) * 10 ^ length fp
      = digitsVal (ip @ fp) * 10 ^ nat (targetFrac e)" by (simp only: mult.assoc)
  then have "amt m * 10 ^ length fp = int (digitsVal (ip @ fp)) * 10 ^ nat (targetFrac e)"
    unfolding p(5) by (metis of_nat_mult of_nat_power of_nat_numeral)
  moreover have "nat (targetFrac e) = nat (- sint e)" using t by (simp add: max_def)
  ultimately show ?thesis using p t assms by (auto simp: parseAmount_fold)
qed

theorem parseAmount_exact_witness:
  "\<exists>m. parseAmount (runes ''1,250.5'') ''IRR'' (- 2) = Inr m \<and> amt m = 125050 \<and> 0 \<le> amt m"
proof -
  let ?m = "\<lparr>mantissa = 125050, currency = ''IRR'', exponent = - 2\<rparr>"
  have e: "parseAmount (runes ''1,250.5'') ''IRR'' (- 2) = Inr ?m"
    by (simp add: parseAmount_def runes_def digits_def digitFold_def trimSpace_def isSpaceRune_def
        percentMarks_def replaceSeparator_def cutDot_def isASCIIDigits_def isDigitRune_def
        targetFrac_def word_sless_alt mantissaDigits_def parseInt_runes digitsVal_def newMoney_def)
  from parseAmount_exact [OF e] have "0 \<le> amt ?m" by blast
  with e show ?thesis by auto
qed

text \<open>
  Further. An import preview decides every row: the rows answer the entries one for one and in order, a
  row is a duplicate exactly when another entry has its SKU and component, it is accepted exactly
  when it is no duplicate, its SKU resolves to one variant and its value parses, every other row
  states a reason, and the counts are the numbers of rows of each disposition.
\<close>

theorem preview_dispositions:
  assumes "buildPreviewRows es resolved cur ex = (rows, cnt)"
    and "\<forall>e \<in> set es. componentValid (peComponent e)"
    and "i < length es"
  shows "length rows = length es
    \<and> (prDisposition (rows ! i) = DispositionDuplicate \<longleftrightarrow>
        1 < length (filter (\<lambda>e. peRawSKU e = peRawSKU (es ! i) \<and> peComponent e = peComponent (es ! i)) es))
    \<and> (prDisposition (rows ! i) = DispositionAccept \<longleftrightarrow>
        prDisposition (rows ! i) \<noteq> DispositionDuplicate \<and>
        (\<exists>res m. resolved (peRawSKU (es ! i)) = Some res \<and> rsCount res = 1 \<and>
           parseAmount (peNormalized (es ! i)) cur ex = Inr m \<and> prMantissa (rows ! i) = mantissa m))
    \<and> (prDisposition (rows ! i) \<noteq> DispositionAccept \<longrightarrow> prReason (rows ! i) \<noteq> [])
    \<and> cntAccept cnt = length (filter (\<lambda>r. prDisposition r = DispositionAccept) rows)
    \<and> cntDuplicate cnt = length (filter (\<lambda>r. prDisposition r = DispositionDuplicate) rows)
    \<and> cntReject cnt = length (filter (\<lambda>r. prDisposition r = DispositionReject) rows)"
proof -
  let ?dup = "dupCounts es (\<lambda>_. 0)" and ?e = "es ! i"
  have rows: "rows = map (decideRow ?dup resolved cur ex) es"
    and cnt: "cnt = foldl countRow \<lparr>cntAccept = 0, cntReject = 0, cntDuplicate = 0\<rparr> rows"
    using assms(1) by (auto simp: buildPreviewRows_def Let_def)
  have row: "rows ! i = decideRow ?dup resolved cur ex ?e" using assms(3) rows by simp
  have "filter (\<lambda>e. dupKey (peRawSKU e) (peComponent e) = dupKey (peRawSKU ?e) (peComponent ?e)) es
      = filter (\<lambda>e. peRawSKU e = peRawSKU ?e \<and> peComponent e = peComponent ?e) es"
    using assms(2,3) by (intro filter_cong) (simp_all add: dupKey_eq)
  then have k: "?dup (dupKey (peRawSKU ?e) (peComponent ?e)) =
      length (filter (\<lambda>e. peRawSKU e = peRawSKU ?e \<and> peComponent e = peComponent ?e) es)"
    by (simp add: dupCounts_spec)
  show ?thesis
    unfolding cnt countRow_fold
  proof (intro conjI)
    show "prDisposition (rows ! i) = DispositionDuplicate \<longleftrightarrow>
        1 < length (filter (\<lambda>e. peRawSKU e = peRawSKU ?e \<and> peComponent e = peComponent ?e) es)"
      unfolding row decideRow_duplicate k ..
    show "prDisposition (rows ! i) = DispositionAccept \<longleftrightarrow>
        prDisposition (rows ! i) \<noteq> DispositionDuplicate \<and>
        (\<exists>res m. resolved (peRawSKU ?e) = Some res \<and> rsCount res = 1 \<and>
           parseAmount (peNormalized ?e) cur ex = Inr m \<and> prMantissa (rows ! i) = mantissa m)"
      unfolding row decideRow_duplicate
      by (auto simp: decideRow_def Let_def rejectRow_def blankRow_def not_less le_Suc_eq
          split: if_splits option.splits sum.splits)
    show "prDisposition (rows ! i) \<noteq> DispositionAccept \<longrightarrow> prReason (rows ! i) \<noteq> []"
      using row decideRow_reason by simp
  qed (simp_all add: rows)
qed

theorem preview_dispositions_witness:
  "prDisposition (fst (buildPreviewRows
      [\<lparr>peRowNumber = 1, peRawSKU = [65], peComponent = ComponentCOGS, peRawValue = [49], peNormalized = [49]\<rparr>]
      (Map.empty([65] \<mapsto> \<lparr>rsVariantID = 7, rsCount = 2\<rparr>)) ''IRR'' 0) ! 0) = DispositionReject"
proof -
  let ?e = "\<lparr>peRowNumber = 1, peRawSKU = [65], peComponent = ComponentCOGS, peRawValue = [49], peNormalized = [49]\<rparr>"
  let ?r = "Map.empty([65] \<mapsto> \<lparr>rsVariantID = 7, rsCount = 2\<rparr>) :: rune list \<rightharpoonup> resolved_sku"
  obtain rows cnt where b: "buildPreviewRows [?e] ?r ''IRR'' 0 = (rows, cnt)" by fastforce
  from preview_dispositions [OF b, of 0]
  have "prDisposition (rows ! 0) \<noteq> DispositionDuplicate" "prDisposition (rows ! 0) \<noteq> DispositionAccept"
    by (simp_all add: componentValid_def component_class_defs)
  then have "prDisposition (rows ! 0) = DispositionReject" by (cases "prDisposition (rows ! 0)") auto
  then show ?thesis by (simp only: b fst_conv)
qed

end
