(* ===== verification/Margin.thy ===== *)
theory Margin
  imports Cost "HOL-Library.Multiset"
begin

text \<open>
  The margin package (services/core/internal/margin): the contribution engine over money amounts
  and basis-point rates (contribution.go), its versioned rounding rule (rounding.go) and the
  reconciliation of the engine against the settlement examples (reconcile.go and
  fixtures/settlements.json).
\<close>

section \<open>Inputs and results (contribution.go)\<close>

datatype margin_error =
  ErrMissingRequiredComponent | ErrDuplicateComponent | ErrInvalidComponent | ErrRateBaseRequired
| ErrNegativeDeduction | ErrRateOutOfRange | MarginMoneyErr money_error | ErrUnknownKind string

definition minRateBasisPoints :: int64 where "minRateBasisPoints = 0"
definition maxRateBasisPoints :: int64 where "maxRateBasisPoints = basisPointScale"

definition contributionRoundingRule :: string where
  "contributionRoundingRule = ''contribution/round-half-even@v1''"

definition contributionRounder :: rounder where
  "contributionRounder = roundHalfEven"

datatype kind = KindAbsolute | KindRate | KindOther int

record component_input =
  ciComponent :: component
  ciKind :: kind
  ciAmount :: money
  ciRate :: basis_points
  ciVersion :: int64

record contribution_input =
  inNetProceeds :: money
  inRateBase :: money
  inComponents :: "component_input list"
  inReadiness :: readiness_state
  inAsOf :: instant

record deduction =
  ddComponent :: component
  ddAmount :: money
  ddKind :: kind
  ddVersion :: int64

record contribution =
  cbAmount :: money
  cbNetProceeds :: money
  cbDeductions :: "deduction list"
  cbReadiness :: readiness_state
  cbRoundingRule :: string
  cbAsOf :: instant

definition executable :: "contribution \<Rightarrow> bool" where
  "executable c \<longleftrightarrow> cbReadiness c = StateComplete"

definition isPositive :: "contribution \<Rightarrow> (money_error, bool) result" where
  "isPositive c =
     andThen (zeroOf (currency (cbAmount c)) (exponent (cbAmount c))) (\<lambda>zero.
     andThen (compareMoney (cbAmount c) zero) (\<lambda>cmp. Inr (0 < cmp)))"

section \<open>The engine\<close>

definition validateComponentDomain :: "component_input \<Rightarrow> (margin_error, unit) result" where
  "validateComponentDomain ci =
     (case ciKind ci of
        KindAbsolute \<Rightarrow> guardR (\<not> mantissa (ciAmount ci) <s 0) ErrNegativeDeduction
      | KindRate \<Rightarrow>
          (let v = bpValue (ciRate ci)
           in guardR (\<not> (v <s minRateBasisPoints \<or> maxRateBasisPoints <s v)) ErrRateOutOfRange)
      | KindOther _ \<Rightarrow> Inr ())"

definition resolveComponent :: "component_input \<Rightarrow> money \<Rightarrow> (margin_error, money) result" where
  "resolveComponent ci rateBase =
     (case ciKind ci of
        KindAbsolute \<Rightarrow> Inr (ciAmount ci)
      | KindRate \<Rightarrow>
          (if currency rateBase = [] then Inl ErrRateBaseRequired
           else mapErr MarginMoneyErr (applyRate rateBase (ciRate ci) (Some contributionRounder)))
      | KindOther _ \<Rightarrow> Inl ErrInvalidComponent)"

definition hardRequiredComponents :: "component list" where
  "hardRequiredComponents = filter isHardRequired allComponents"

text \<open>The loop over the components: what was seen, the running amount and the breakdown so far.\<close>

fun contributionLoop ::
  "money \<Rightarrow> component list \<Rightarrow> money \<Rightarrow> deduction list \<Rightarrow> component_input list
    \<Rightarrow> (margin_error, component list \<times> money \<times> deduction list) result" where
  "contributionLoop rateBase seen acc ds [] = Inr (seen, acc, ds)"
| "contributionLoop rateBase seen acc ds (ci # cis) =
     (if \<not> componentValid (ciComponent ci) then Inl ErrInvalidComponent
      else if ciComponent ci \<in> set seen then Inl ErrDuplicateComponent
      else
        andThen (validateComponentDomain ci) (\<lambda>_.
        andThen (resolveComponent ci rateBase) (\<lambda>amount.
        andThen (mapErr MarginMoneyErr (subMoney acc amount)) (\<lambda>next.
        contributionLoop rateBase (ciComponent ci # seen) next
          (ds @ [\<lparr>ddComponent = ciComponent ci, ddAmount = amount, ddKind = ciKind ci,
                  ddVersion = ciVersion ci\<rparr>]) cis))))"

definition contribute :: "contribution_input \<Rightarrow> (margin_error, contribution) result" where
  "contribute inp =
     andThen (contributionLoop (inRateBase inp) [] (inNetProceeds inp) [] (inComponents inp))
       (\<lambda>(seen, acc, ds).
        if list_ex (\<lambda>c. c \<notin> set seen) hardRequiredComponents
        then Inl ErrMissingRequiredComponent
        else Inr \<lparr>cbAmount = acc, cbNetProceeds = inNetProceeds inp, cbDeductions = ds,
                  cbReadiness = inReadiness inp, cbRoundingRule = contributionRoundingRule,
                  cbAsOf = inAsOf inp\<rparr>)"

section \<open>Reconciliation against settlements (reconcile.go)\<close>

record settlement_component =
  scComponent :: component
  scKind :: string
  scAmount :: money
  scRateBp :: int64
  scVersion :: int64

record settlement_example =
  seName :: string
  seNetProceeds :: money
  seRateBase :: money
  seReadiness :: readiness_state
  seComponents :: "settlement_component list"
  seExpected :: money
  seTolerance :: int64

record recon_result =
  rrName :: string
  rrExpected :: money
  rrGot :: money
  rrDelta :: int64
  rrMatched :: bool
  rrErr :: "margin_error option"

definition settlementComponentInput :: "settlement_component \<Rightarrow> (margin_error, component_input) result" where
  "settlementComponentInput c =
     (let ci = \<lparr>ciComponent = scComponent c, ciKind = KindAbsolute, ciAmount = zeroMoney,
                ciRate = newBasisPoints 0, ciVersion = scVersion c\<rparr> in
      if scKind c = ''absolute'' then Inr (ci\<lparr>ciAmount := scAmount c\<rparr>)
      else if scKind c = ''rate'' then Inr (ci\<lparr>ciKind := KindRate, ciRate := newBasisPoints (scRateBp c)\<rparr>)
      else Inl (ErrUnknownKind (scKind c)))"

fun settlementInputs :: "settlement_component list \<Rightarrow> (margin_error, component_input list) result" where
  "settlementInputs [] = Inr []"
| "settlementInputs (c # cs) =
     andThen (settlementComponentInput c) (\<lambda>ci. andThen (settlementInputs cs) (\<lambda>cis. Inr (ci # cis)))"

definition settlementInput :: "settlement_example \<Rightarrow> (margin_error, contribution_input) result" where
  "settlementInput e =
     andThen (settlementInputs (seComponents e)) (\<lambda>cis.
     Inr \<lparr>inNetProceeds = seNetProceeds e, inRateBase = seRateBase e, inComponents = cis,
          inReadiness = seReadiness e, inAsOf = 0\<rparr>)"

definition withinTolerance :: "money \<Rightarrow> money \<Rightarrow> int64 \<Rightarrow> (money_error, bool \<times> int64) result" where
  "withinTolerance got expected tolerance =
     andThen (subMoney got expected) (\<lambda>delta.
     andThen (newMoney tolerance (currency expected) (exponent expected)) (\<lambda>upper.
     andThen (negMoney upper) (\<lambda>lower.
     andThen (compareMoney delta upper) (\<lambda>hiCmp.
     andThen (compareMoney delta lower) (\<lambda>loCmp.
     Inr (hiCmp \<le> 0 \<and> 0 \<le> loCmp, mantissa delta))))))"

definition reconcileOne :: "settlement_example \<Rightarrow> recon_result" where
  "reconcileOne e =
     (let res = \<lparr>rrName = seName e, rrExpected = seExpected e, rrGot = zeroMoney, rrDelta = 0,
                 rrMatched = False, rrErr = None\<rparr> in
      case settlementInput e of
        Inl err \<Rightarrow> res\<lparr>rrErr := Some err\<rparr>
      | Inr inp \<Rightarrow>
          (case contribute inp of
             Inl err \<Rightarrow> res\<lparr>rrErr := Some err\<rparr>
           | Inr got \<Rightarrow>
               (case withinTolerance (cbAmount got) (seExpected e) (seTolerance e) of
                  Inl err \<Rightarrow> res\<lparr>rrGot := cbAmount got, rrErr := Some (MarginMoneyErr err)\<rparr>
                | Inr (matched, delta) \<Rightarrow>
                    res\<lparr>rrGot := cbAmount got, rrMatched := matched, rrDelta := delta\<rparr>)))"

definition reconcileExamples :: "settlement_example list \<Rightarrow> recon_result list" where
  "reconcileExamples examples = map reconcileOne examples"

section \<open>Facts about the engine\<close>

lemma validateComponentDomain_ok [result_simps]:
  "validateComponentDomain ci = Inr u \<longleftrightarrow>
     (ciKind ci = KindAbsolute \<longrightarrow> 0 \<le> amt (ciAmount ci)) \<and>
     (ciKind ci = KindRate \<longrightarrow> 0 \<le> sint (bpValue (ciRate ci)) \<and> sint (bpValue (ciRate ci)) \<le> 10000)"
  by (auto simp: validateComponentDomain_def result_simps minRateBasisPoints_def
      maxRateBasisPoints_def word_sless_alt Let_def split: kind.splits)

lemma halfEven_bounds:
  assumes "applyRate b r (Some roundHalfEven) = Inr m" and "0 \<le> amt b"
    and "0 \<le> sint (bpValue r)" and "sint (bpValue r) \<le> 10000"
  shows "0 \<le> amt m" and "amt m \<le> amt b"
proof -
  have n: "2 * \<bar>amt m * 10000 - amt b * sint (bpValue r)\<bar> \<le> 10000"
    by (rule half_even.applyRate_nearest [OF assms(1)])
  have "0 \<le> amt b * sint (bpValue r)" "amt b * sint (bpValue r) \<le> amt b * 10000"
    using assms by (auto intro: mult_left_mono)
  then show "0 \<le> amt m" "amt m \<le> amt b" using n by (auto simp: abs_if split: if_splits)
qed

text \<open>Every deduction the engine resolves is a non-negative amount when the rate base is.\<close>

lemma resolved_nonneg:
  assumes "validateComponentDomain ci = Inr u" and "resolveComponent ci rb = Inr m" and "0 \<le> amt rb"
  shows "0 \<le> amt m"
  using assms halfEven_bounds(1)
  by (auto simp: resolveComponent_def result_simps contributionRounder_def split: kind.splits if_splits)

lemma contributionLoop_Cons:
  "contributionLoop rb seen acc ds (ci # cis) = Inr r \<longleftrightarrow>
     componentValid (ciComponent ci) \<and> ciComponent ci \<notin> set seen \<and>
     (\<exists>a nx. validateComponentDomain ci = Inr () \<and> resolveComponent ci rb = Inr a \<and>
        subMoney acc a = Inr nx \<and>
        contributionLoop rb (ciComponent ci # seen) nx
          (ds @ [\<lparr>ddComponent = ciComponent ci, ddAmount = a, ddKind = ciKind ci,
                  ddVersion = ciVersion ci\<rparr>]) cis = Inr r)"
  by (auto simp: andThen_Inr mapErr_Inr)

declare contributionLoop.simps(2) [simp del]

lemma contributionLoop_amount:
  "contributionLoop rb seen acc ds cis = Inr (seen', acc', ds') \<Longrightarrow>
     amt acc' = amt acc - (sum_list (map (amt \<circ> ddAmount) ds') - sum_list (map (amt \<circ> ddAmount) ds)) \<and>
     currency acc' = currency acc \<and> exponent acc' = exponent acc \<and> valid acc' = valid acc"
proof (induction cis arbitrary: seen acc ds)
  case Nil
  then show ?case by simp
next
  case (Cons ci cis)
  then obtain a nx where nx: "subMoney acc a = Inr nx" and rest:
    "contributionLoop rb (ciComponent ci # seen) nx
      (ds @ [\<lparr>ddComponent = ciComponent ci, ddAmount = a, ddKind = ciKind ci, ddVersion = ciVersion ci\<rparr>]) cis
      = Inr (seen', acc', ds')"
    by (auto simp: contributionLoop_Cons)
  from Cons.IH [OF rest] subMoney_amt [OF nx] show ?case
    by (simp add: sameUnit_def valid_def)
qed

lemma contributionLoop_trace:
  "contributionLoop rb seen acc ds cis = Inr (seen', acc', ds') \<Longrightarrow>
     map ddComponent ds' = map ddComponent ds @ map ciComponent cis \<and>
     map ddVersion ds' = map ddVersion ds @ map ciVersion cis \<and>
     set seen' = set (map ciComponent cis) \<union> set seen \<and>
     distinct (map ciComponent cis) \<and> set (map ciComponent cis) \<inter> set seen = {} \<and>
     (\<forall>ci \<in> set cis. componentValid (ciComponent ci))"
proof (induction cis arbitrary: seen acc ds)
  case Nil
  then show ?case by simp
next
  case (Cons ci cis)
  then obtain a nx where v: "componentValid (ciComponent ci)" "ciComponent ci \<notin> set seen" and rest:
    "contributionLoop rb (ciComponent ci # seen) nx
      (ds @ [\<lparr>ddComponent = ciComponent ci, ddAmount = a, ddKind = ciKind ci, ddVersion = ciVersion ci\<rparr>]) cis
      = Inr (seen', acc', ds')"
    by (auto simp: contributionLoop_Cons)
  from Cons.IH [OF rest] v show ?case by auto
qed

lemma contributionLoop_nonneg:
  "contributionLoop rb seen acc ds cis = Inr (seen', acc', ds') \<Longrightarrow> 0 \<le> amt rb \<Longrightarrow>
     \<forall>d \<in> set ds. 0 \<le> amt (ddAmount d) \<Longrightarrow> \<forall>d \<in> set ds'. 0 \<le> amt (ddAmount d)"
proof (induction cis arbitrary: seen acc ds)
  case Nil
  then show ?case by simp
next
  case (Cons ci cis)
  then obtain a nx where a: "validateComponentDomain ci = Inr ()" "resolveComponent ci rb = Inr a" and rest:
    "contributionLoop rb (ciComponent ci # seen) nx
      (ds @ [\<lparr>ddComponent = ciComponent ci, ddAmount = a, ddKind = ciKind ci, ddVersion = ciVersion ci\<rparr>]) cis
      = Inr (seen', acc', ds')"
    by (auto simp: contributionLoop_Cons)
  from resolved_nonneg [OF a Cons.prems(2)] show ?case
    by (intro Cons.IH [OF rest]) (use Cons.prems in auto)
qed

text \<open>
  Success in terms of the components alone: since no deduction is negative, the running amount
  only falls, so it stays in range exactly when the final one does.
\<close>

definition deductionOf :: "money \<Rightarrow> component_input \<Rightarrow> int" where
  "deductionOf rb ci = (case resolveComponent ci rb of Inl _ \<Rightarrow> 0 | Inr a \<Rightarrow> amt a)"

definition componentOk :: "money \<Rightarrow> money \<Rightarrow> component_input \<Rightarrow> bool" where
  "componentOk np rb ci \<longleftrightarrow>
     componentValid (ciComponent ci) \<and> validateComponentDomain ci = Inr () \<and>
     (\<exists>a. resolveComponent ci rb = Inr a \<and> sameUnit np a)"

lemma componentOk_sameUnit: "sameUnit np np' \<Longrightarrow> componentOk np rb ci = componentOk np' rb ci"
  by (auto simp: componentOk_def sameUnit_def)

lemma deductionOf_nonneg: "componentOk np rb ci \<Longrightarrow> 0 \<le> amt rb \<Longrightarrow> 0 \<le> deductionOf rb ci"
  using resolved_nonneg by (auto simp: componentOk_def deductionOf_def)

lemma sum_deductions_nonneg:
  "\<forall>ci \<in> set cis. componentOk np rb ci \<Longrightarrow> 0 \<le> amt rb \<Longrightarrow> 0 \<le> sum_list (map (deductionOf rb) cis)"
  by (intro sum_list_nonneg) (auto intro: deductionOf_nonneg)

lemma contributionLoop_runs:
  assumes "0 \<le> amt rb"
  shows "\<lbrakk>valid acc; \<forall>ci \<in> set cis. componentOk acc rb ci; distinct (map ciComponent cis);
    set (map ciComponent cis) \<inter> set seen = {}; inInt64 (amt acc - sum_list (map (deductionOf rb) cis))\<rbrakk>
   \<Longrightarrow> \<exists>seen' acc' ds'. contributionLoop rb seen acc ds cis = Inr (seen', acc', ds') \<and>
         amt acc' = amt acc - sum_list (map (deductionOf rb) cis)"
proof (induction cis arbitrary: seen acc ds)
  case Nil
  then show ?case by simp
next
  case (Cons ci cis)
  from Cons.prems(2) obtain a where a: "resolveComponent ci rb = Inr a" "sameUnit acc a"
    and ok: "componentValid (ciComponent ci)" "validateComponentDomain ci = Inr ()"
    by (auto simp: componentOk_def)
  have d: "deductionOf rb ci = amt a" using a by (simp add: deductionOf_def)
  have "0 \<le> amt a" using resolved_nonneg [OF ok(2) a(1) assms] .
  moreover have "0 \<le> sum_list (map (deductionOf rb) cis)"
    using Cons.prems(2) assms by (intro sum_deductions_nonneg) auto
  ultimately have mid: "inInt64 (amt acc - amt a)"
    using Cons.prems(5) sint64_range [of "mantissa acc"] by (simp add: d inInt64_def)
  then obtain nx where nx: "subMoney acc a = Inr nx" using a(2) by (simp add: subMoney_ok)
  from subMoney_amt [OF nx] have nx': "amt nx = amt acc - amt a" "sameUnit nx acc" by auto
  have "\<exists>seen' acc' ds'. contributionLoop rb (ciComponent ci # seen) nx
      (ds @ [\<lparr>ddComponent = ciComponent ci, ddAmount = a, ddKind = ciKind ci, ddVersion = ciVersion ci\<rparr>]) cis
      = Inr (seen', acc', ds') \<and> amt acc' = amt nx - sum_list (map (deductionOf rb) cis)"
  proof (rule Cons.IH)
    show "\<forall>ci \<in> set cis. componentOk nx rb ci"
      using Cons.prems(2) componentOk_sameUnit [OF nx'(2)] by simp
  qed (use Cons.prems nx' d in \<open>auto simp: sameUnit_def diff_diff_eq\<close>)
  then obtain seen' acc' ds' where r:
    "contributionLoop rb (ciComponent ci # seen) nx
      (ds @ [\<lparr>ddComponent = ciComponent ci, ddAmount = a, ddKind = ciKind ci, ddVersion = ciVersion ci\<rparr>]) cis
      = Inr (seen', acc', ds')" "amt acc' = amt nx - sum_list (map (deductionOf rb) cis)" by blast
  have "contributionLoop rb seen acc ds (ci # cis) = Inr (seen', acc', ds')"
    unfolding contributionLoop_Cons using a(1) ok nx Cons.prems(4) r(1) by auto
  with r(2) nx'(1) d show ?case by auto
qed

lemma contributionLoop_needs:
  "contributionLoop rb seen acc ds cis = Inr (seen', acc', ds') \<Longrightarrow>
     (\<forall>ci \<in> set cis. componentOk acc rb ci) \<and>
     amt acc' = amt acc - sum_list (map (deductionOf rb) cis)"
proof (induction cis arbitrary: seen acc ds)
  case Nil
  then show ?case by simp
next
  case (Cons ci cis)
  then obtain a nx where a: "componentValid (ciComponent ci)" "validateComponentDomain ci = Inr ()"
      "resolveComponent ci rb = Inr a" and nx: "subMoney acc a = Inr nx" and rest:
    "contributionLoop rb (ciComponent ci # seen) nx
      (ds @ [\<lparr>ddComponent = ciComponent ci, ddAmount = a, ddKind = ciKind ci, ddVersion = ciVersion ci\<rparr>]) cis
      = Inr (seen', acc', ds')"
    by (auto simp: contributionLoop_Cons)
  from subMoney_amt [OF nx] nx have "sameUnit nx acc" "amt nx = amt acc - amt a" "sameUnit acc a"
    by (auto simp: subMoney_ok)
  with Cons.IH [OF rest] a show ?case
    using componentOk_sameUnit [of nx acc rb] by (auto simp: componentOk_def deductionOf_def)
qed

text \<open>When the engine returns a contribution, and which one.\<close>

lemma contribute_ok:
  assumes "contribute inp = Inr c"
  shows "(\<forall>ci \<in> set (inComponents inp). componentOk (inNetProceeds inp) (inRateBase inp) ci)"
    and "distinct (map ciComponent (inComponents inp))"
    and "{ComponentCOGS, ComponentCommission} \<subseteq> set (map ciComponent (inComponents inp))"
    and "amt (cbAmount c) = amt (inNetProceeds inp) - sum_list (map (deductionOf (inRateBase inp)) (inComponents inp))"
    and "sameUnit (cbAmount c) (inNetProceeds inp)"
    and "map ddComponent (cbDeductions c) = map ciComponent (inComponents inp)"
    and "map ddVersion (cbDeductions c) = map ciVersion (inComponents inp)"
    and "amt (cbAmount c) = amt (inNetProceeds inp) - sum_list (map (amt \<circ> ddAmount) (cbDeductions c))"
    and "cbReadiness c = inReadiness inp" and "cbNetProceeds c = inNetProceeds inp"
proof -
  from assms obtain seen where
    l: "contributionLoop (inRateBase inp) [] (inNetProceeds inp) [] (inComponents inp) =
          Inr (seen, cbAmount c, cbDeductions c)"
    and h: "list_all (\<lambda>c. c \<in> set seen) hardRequiredComponents"
    and r: "cbReadiness c = inReadiness inp" "cbNetProceeds c = inNetProceeds inp"
    by (auto simp: contribute_def result_simps list_ex_iff list_all_iff split: if_splits)
  note t = contributionLoop_trace [OF l] and n = contributionLoop_needs [OF l]
    and m = contributionLoop_amount [OF l]
  show "\<forall>ci \<in> set (inComponents inp). componentOk (inNetProceeds inp) (inRateBase inp) ci"
    and "amt (cbAmount c) = amt (inNetProceeds inp) - sum_list (map (deductionOf (inRateBase inp)) (inComponents inp))"
    using n by blast+
  show "distinct (map ciComponent (inComponents inp))"
    and "map ddComponent (cbDeductions c) = map ciComponent (inComponents inp)"
    and "map ddVersion (cbDeductions c) = map ciVersion (inComponents inp)"
    using t by auto
  show q: "{ComponentCOGS, ComponentCommission} \<subseteq> set (map ciComponent (inComponents inp))"
    using t h by (simp add: hardRequiredComponents_def isHardRequired_def allComponents_def)
  then obtain ci where "ci \<in> set (inComponents inp)" by fastforce
  then have "valid (inNetProceeds inp)" using n by (auto simp: componentOk_def sameUnit_def)
  then show "sameUnit (cbAmount c) (inNetProceeds inp)" using m by (simp add: sameUnit_def)
  show "amt (cbAmount c) = amt (inNetProceeds inp) - sum_list (map (amt \<circ> ddAmount) (cbDeductions c))"
    using m by simp
qed (use assms in \<open>auto simp: contribute_def result_simps split: if_splits\<close>)

lemma contribute_succeeds:
  assumes "0 \<le> amt (inRateBase inp)" and "valid (inNetProceeds inp)"
    and "\<forall>ci \<in> set (inComponents inp). componentOk (inNetProceeds inp) (inRateBase inp) ci"
    and "distinct (map ciComponent (inComponents inp))"
    and "{ComponentCOGS, ComponentCommission} \<subseteq> set (map ciComponent (inComponents inp))"
    and "inInt64 (amt (inNetProceeds inp) - sum_list (map (deductionOf (inRateBase inp)) (inComponents inp)))"
  shows "\<exists>c. contribute inp = Inr c"
proof -
  from contributionLoop_runs [OF assms(1-4) _ assms(6), of "[]" "[]"] obtain seen' acc' ds' where
    l: "contributionLoop (inRateBase inp) [] (inNetProceeds inp) [] (inComponents inp) = Inr (seen', acc', ds')"
    by auto
  moreover have "\<not> list_ex (\<lambda>c. c \<notin> set seen') hardRequiredComponents"
    using contributionLoop_trace [OF l] assms(5)
    by (simp add: hardRequiredComponents_def isHardRequired_def allComponents_def)
  ultimately show ?thesis by (simp add: contribute_def)
qed

section \<open>The committed settlement examples (fixtures/settlements.json)\<close>

definition irr :: "int64 \<Rightarrow> money" where
  "irr v = \<lparr>mantissa = v, currency = ''IRR'', exponent = 0\<rparr>"

definition absoluteCost :: "component \<Rightarrow> int64 \<Rightarrow> int64 \<Rightarrow> settlement_component" where
  "absoluteCost c v ver =
     \<lparr>scComponent = c, scKind = ''absolute'', scAmount = irr v, scRateBp = 0, scVersion = ver\<rparr>"

definition rateCost :: "component \<Rightarrow> int64 \<Rightarrow> int64 \<Rightarrow> settlement_component" where
  "rateCost c bp ver =
     \<lparr>scComponent = c, scKind = ''rate'', scAmount = zeroMoney, scRateBp = bp, scVersion = ver\<rparr>"

definition settlementExamples :: "settlement_example list" where
  "settlementExamples =
    [\<lparr>seName = ''absolute-only-full-profile'', seNetProceeds = irr 1000000, seRateBase = irr 1000000,
      seReadiness = StateComplete,
      seComponents =
        [absoluteCost ComponentCOGS 600000 1, rateCost ComponentCommission 1200 1,
         absoluteCost ComponentFulfillment 30000 1, absoluteCost ComponentShipping 20000 1,
         absoluteCost ComponentPackaging 5000 1, absoluteCost ComponentPromotion 10000 1,
         absoluteCost ComponentAds 8000 1, absoluteCost ComponentReturns 7000 1],
      seExpected = irr 200000, seTolerance = 0\<rparr>,
     \<lparr>seName = ''commission-rate-rounds-away'', seNetProceeds = irr 999999, seRateBase = irr 999999,
      seReadiness = StateComplete,
      seComponents = [absoluteCost ComponentCOGS 500000 3, rateCost ComponentCommission 1250 2],
      seExpected = irr 374999, seTolerance = 0\<rparr>,
     \<lparr>seName = ''commission-rate-exact-half-to-even'', seNetProceeds = irr 100, seRateBase = irr 3,
      seReadiness = StateComplete,
      seComponents = [absoluteCost ComponentCOGS 10 1, rateCost ComponentCommission 5000 1],
      seExpected = irr 88, seTolerance = 0\<rparr>,
     \<lparr>seName = ''partial-readiness-analysis-number'', seNetProceeds = irr 500000, seRateBase = irr 500000,
      seReadiness = StatePartial,
      seComponents = [absoluteCost ComponentCOGS 300000 5, absoluteCost ComponentCommission 50000 5],
      seExpected = irr 150000, seTolerance = 0\<rparr>,
     \<lparr>seName = ''negative-contribution-reported-faithfully'', seNetProceeds = irr 100000,
      seRateBase = irr 100000, seReadiness = StateComplete,
      seComponents = [absoluteCost ComponentCOGS 90000 1, rateCost ComponentCommission 2000 1],
      seExpected = irr (- 10000), seTolerance = 0\<rparr>]"

text \<open>Unfolding set for closed engine runs.\<close>

lemmas margin_eval =
  money_eval contribute_def contributionLoop.simps validateComponentDomain_def resolveComponent_def
  contributionRounder_def guardR_def minRateBasisPoints_def maxRateBasisPoints_def
  componentValid_def component_class_defs hardRequiredComponents_def allComponents_def

lemma settlement_results:
  "list_all (\<lambda>r. rrErr r = None \<and> rrMatched r \<and> rrDelta r = 0 \<and> rrGot r = rrExpected r)
     (reconcileExamples settlementExamples)"
  by (simp add: reconcileExamples_def settlementExamples_def reconcileOne_def settlementInput_def
      settlementComponentInput_def absoluteCost_def rateCost_def irr_def newBasisPoints_def
      withinTolerance_def newMoney_def margin_eval)

section \<open>Properties\<close>

text \<open>
  C6. A contribution is net proceeds minus exactly the deductions it lists, in the unit of the
  proceeds: one deduction per component in input order with its cost version, no component twice,
  COGS and commission present; with a non-negative rate base no deduction is negative, so no cost
  input can raise the contribution above the proceeds.
\<close>

theorem contribution_exact:
  assumes "contribute inp = Inr c"
  shows "amt (cbAmount c) = amt (inNetProceeds inp) - sum_list (map (amt \<circ> ddAmount) (cbDeductions c))
    \<and> sameUnit (cbAmount c) (inNetProceeds inp)
    \<and> map ddComponent (cbDeductions c) = map ciComponent (inComponents inp)
    \<and> map ddVersion (cbDeductions c) = map ciVersion (inComponents inp)
    \<and> distinct (map ddComponent (cbDeductions c))
    \<and> {ComponentCOGS, ComponentCommission} \<subseteq> set (map ddComponent (cbDeductions c))
    \<and> (0 \<le> amt (inRateBase inp) \<longrightarrow>
         (\<forall>d \<in> set (cbDeductions c). 0 \<le> amt (ddAmount d)) \<and> amt (cbAmount c) \<le> amt (inNetProceeds inp))"
proof -
  have "\<forall>d \<in> set (cbDeductions c). 0 \<le> amt (ddAmount d)" if "0 \<le> amt (inRateBase inp)"
    using assms that contributionLoop_nonneg [where ds = "[]"]
    by (force simp: contribute_def result_simps split: if_splits)
  moreover from this have "0 \<le> sum_list (map (amt \<circ> ddAmount) (cbDeductions c))"
    if "0 \<le> amt (inRateBase inp)" using that by (intro sum_list_nonneg) auto
  ultimately show ?thesis using contribute_ok [OF assms] by auto
qed

theorem contribution_exact_witness:
  "\<exists>c. contribute \<lparr>inNetProceeds = irr 999999, inRateBase = irr 999999,
        inComponents = [\<lparr>ciComponent = ComponentCOGS, ciKind = KindAbsolute, ciAmount = irr 500000,
                         ciRate = newBasisPoints 0, ciVersion = 3\<rparr>,
                        \<lparr>ciComponent = ComponentCommission, ciKind = KindRate, ciAmount = zeroMoney,
                         ciRate = newBasisPoints 1250, ciVersion = 2\<rparr>],
        inReadiness = StateComplete, inAsOf = 0\<rparr> = Inr c \<and> amt (cbAmount c) \<le> 999999"
proof -
  let ?i = "\<lparr>inNetProceeds = irr 999999, inRateBase = irr 999999,
        inComponents = [\<lparr>ciComponent = ComponentCOGS, ciKind = KindAbsolute, ciAmount = irr 500000,
                         ciRate = newBasisPoints 0, ciVersion = 3\<rparr>,
                        \<lparr>ciComponent = ComponentCommission, ciKind = KindRate, ciAmount = zeroMoney,
                         ciRate = newBasisPoints 1250, ciVersion = 2\<rparr>],
        inReadiness = StateComplete, inAsOf = 0\<rparr>"
  have "isOk (contribute ?i)" by (simp add: irr_def newBasisPoints_def margin_eval)
  then obtain c where c: "contribute ?i = Inr c" by (auto simp: isOk_iff)
  from contribution_exact [OF c] have "amt (cbAmount c) \<le> 999999" by (simp add: irr_def)
  with c show ?thesis by blast
qed

text \<open>
  Further. The order in which cost components are supplied does not matter: for a non-negative rate base
  a permuted input succeeds exactly when the original does, with the same contribution amount.
\<close>

theorem contribution_order_independent:
  assumes "mset (inComponents inp') = mset (inComponents inp)"
    and "inNetProceeds inp' = inNetProceeds inp" and "inRateBase inp' = inRateBase inp"
    and "0 \<le> amt (inRateBase inp)" and "contribute inp = Inr c"
  shows "\<exists>c'. contribute inp' = Inr c' \<and> cbAmount c' = cbAmount c"
proof -
  note ok = contribute_ok [OF assms(5)]
  have s: "set (inComponents inp') = set (inComponents inp)" by (rule mset_eq_setD [OF assms(1)])
  have m: "mset (map f (inComponents inp')) = mset (map f (inComponents inp))" for f :: "component_input \<Rightarrow> 'b"
    using assms(1) by simp
  have m1: "mset (map ciComponent (inComponents inp')) = mset (map ciComponent (inComponents inp))"
    using assms(1) by simp
  have "mset (map (deductionOf (inRateBase inp)) (inComponents inp'))
      = mset (map (deductionOf (inRateBase inp)) (inComponents inp))" using assms(1) by simp
  then have sum: "sum_list (map (deductionOf (inRateBase inp)) (inComponents inp'))
      = sum_list (map (deductionOf (inRateBase inp)) (inComponents inp))"
    by (metis sum_mset_sum_list)
  have "valid (inNetProceeds inp)" using ok(5) by (simp add: sameUnit_def)
  moreover have "inInt64 (amt (inNetProceeds inp) - sum_list (map (deductionOf (inRateBase inp)) (inComponents inp)))"
    using ok(4) sint64_inInt64 [of "mantissa (cbAmount c)"] by simp
  ultimately obtain c' where c': "contribute inp' = Inr c'"
    using contribute_succeeds [of inp'] ok(1,2,3) s sum assms(2-4) mset_eq_imp_distinct_iff [OF m1]
      mset_eq_setD [OF m1] by fastforce
  note ok' = contribute_ok [OF c']
  have "cbAmount c' = cbAmount c"
  proof (rule money_eqI)
    show "sameUnit (cbAmount c') (cbAmount c)"
      using ok(5) ok'(5) assms(2) by (auto simp: sameUnit_def)
    show "amt (cbAmount c') = amt (cbAmount c)" using ok(4) ok'(4) sum assms(2,3) by simp
  qed
  with c' show ?thesis by blast
qed

theorem contribution_order_independent_witness:
  "\<exists>c'. contribute \<lparr>inNetProceeds = irr 100, inRateBase = irr 3,
        inComponents = [\<lparr>ciComponent = ComponentCommission, ciKind = KindRate, ciAmount = zeroMoney,
                         ciRate = newBasisPoints 5000, ciVersion = 1\<rparr>,
                        \<lparr>ciComponent = ComponentCOGS, ciKind = KindAbsolute, ciAmount = irr 10,
                         ciRate = newBasisPoints 0, ciVersion = 1\<rparr>],
        inReadiness = StateComplete, inAsOf = 0\<rparr> = Inr c' \<and> cbAmount c' = irr 88"
proof -
  let ?x = "\<lparr>ciComponent = ComponentCommission, ciKind = KindRate, ciAmount = zeroMoney,
             ciRate = newBasisPoints 5000, ciVersion = 1\<rparr>"
  let ?y = "\<lparr>ciComponent = ComponentCOGS, ciKind = KindAbsolute, ciAmount = irr 10,
             ciRate = newBasisPoints 0, ciVersion = 1\<rparr>"
  let ?i = "\<lambda>cs. \<lparr>inNetProceeds = irr 100, inRateBase = irr 3, inComponents = cs,
                 inReadiness = StateComplete, inAsOf = 0\<rparr>"
  have "\<exists>c. contribute (?i [?y, ?x]) = Inr c \<and> cbAmount c = irr 88"
    by (simp add: irr_def newBasisPoints_def margin_eval)
  then obtain c where c: "contribute (?i [?y, ?x]) = Inr c" "cbAmount c = irr 88" by blast
  have "\<exists>c'. contribute (?i [?x, ?y]) = Inr c' \<and> cbAmount c' = cbAmount c"
    by (rule contribution_order_independent [OF _ _ _ _ c(1)]) (simp_all add: irr_def)
  with c(2) show ?thesis by simp
qed

text \<open>
  Further. The engine reconciles with every committed settlement example: for each of the five fixtures
  it returns the independently derived contribution exactly, with no error.
\<close>

theorem settlements_reconcile:
  "list_all (\<lambda>r. rrErr r = None \<and> rrMatched r \<and> rrDelta r = 0 \<and> rrGot r = rrExpected r)
     (reconcileExamples settlementExamples)"
  by (rule settlement_results)

end
