(* ===== verification/Policy.thy ===== *)
theory Policy
  imports Margin
begin

text \<open>
  The pricing policy (services/core/internal/policy): configuration with the stricter-only rule
  (policy.go) and the fixed six-stage evaluation (evaluate.go).  The contribution oracle of the
  evaluation is a function argument, as in the code.
\<close>

section \<open>Configuration (policy.go)\<close>

datatype strategy = StrategyHold | StrategyMatch | StrategyUndercut | StrategyOther string

datatype objective = ObjectiveMaximizeContribution | ObjectiveTrackStrategy | ObjectiveOther string

datatype 'e policy_error =
  ErrMovementCapTooLoose | ErrCooldownTooLoose | ErrInvalidMovementCap | ErrInvalidCooldown
| ErrUnknownStrategy | ErrUnknownObjective | ErrMissingReference | ErrReferenceUnitMismatch
| ErrUndercutOutOfRange | PolicyMoneyErr money_error | OracleErr 'e

definition movementCapMaxBp :: int64 where "movementCapMaxBp = 500"

definition defaultMovementCap :: basis_points where
  "defaultMovementCap = newBasisPoints movementCapMaxBp"

definition defaultCooldown :: duration where "defaultCooldown = hour"

definition maxUndercutBp :: int64 where "maxUndercutBp = 10000"

record boundary =
  bdKnown :: bool
  bdMin :: money
  bdMax :: money

record config =
  cfBoundary :: boundary
  cfContributionFloor :: money
  cfMovementCap :: basis_points
  cfCooldown :: duration
  cfStrategy :: strategy
  cfStrategyEnabled :: bool
  cfReference :: money
  cfUndercutBp :: basis_points
  cfObjective :: objective

record config_params =
  cpBoundary :: boundary
  cpContributionFloor :: money
  cpMovementCap :: "basis_points option"
  cpCooldown :: "duration option"
  cpStrategy :: strategy
  cpStrategyEnabled :: bool
  cpReference :: money
  cpUndercutBp :: basis_points
  cpObjective :: objective

definition validateCap :: "basis_points \<Rightarrow> ('e policy_error, unit) result" where
  "validateCap cap =
     (if bpValue cap <s 0 then Inl ErrInvalidMovementCap
      else if movementCapMaxBp <s bpValue cap then Inl ErrMovementCapTooLoose
      else Inr ())"

definition validateCooldown :: "duration \<Rightarrow> ('e policy_error, unit) result" where
  "validateCooldown d =
     (if d < 0 then Inl ErrInvalidCooldown
      else if d < defaultCooldown then Inl ErrCooldownTooLoose
      else Inr ())"

definition validateStrategy :: "strategy \<Rightarrow> ('e policy_error, unit) result" where
  "validateStrategy s =
     (case s of StrategyOther _ \<Rightarrow> Inl ErrUnknownStrategy | _ \<Rightarrow> Inr ())"

definition validateObjective :: "objective \<Rightarrow> ('e policy_error, unit) result" where
  "validateObjective s =
     (case s of ObjectiveOther _ \<Rightarrow> Inl ErrUnknownObjective | _ \<Rightarrow> Inr ())"

definition validateReference :: "money \<Rightarrow> money \<Rightarrow> ('e policy_error, unit) result" where
  "validateReference reference unt =
     (case isZero reference of
        Inl _ \<Rightarrow> Inl ErrMissingReference
      | Inr z \<Rightarrow>
          if z then Inl ErrMissingReference
          else if currency reference \<noteq> currency unt \<or> exponent reference \<noteq> exponent unt
          then Inl ErrReferenceUnitMismatch
          else Inr ())"

definition validateUndercutBp :: "basis_points \<Rightarrow> ('e policy_error, unit) result" where
  "validateUndercutBp bp =
     guardR (\<not> (bpValue bp <s 0 \<or> maxUndercutBp <s bpValue bp)) ErrUndercutOutOfRange"

definition validateStrategyParams ::
  "strategy \<Rightarrow> money \<Rightarrow> basis_points \<Rightarrow> money \<Rightarrow> ('e policy_error, unit) result" where
  "validateStrategyParams s reference undercutBp unt =
     (case s of
        StrategyHold \<Rightarrow> Inr ()
      | StrategyMatch \<Rightarrow> validateReference reference unt
      | StrategyUndercut \<Rightarrow>
          andThen (validateReference reference unt) (\<lambda>_. validateUndercutBp undercutBp)
      | StrategyOther _ \<Rightarrow> Inr ())"

definition validateConfig :: "config \<Rightarrow> ('e policy_error, unit) result" where
  "validateConfig c =
     andThen (validateCap (cfMovementCap c)) (\<lambda>_.
     andThen (validateCooldown (cfCooldown c)) (\<lambda>_.
     andThen (validateStrategy (cfStrategy c)) (\<lambda>_.
     andThen (validateObjective (cfObjective c)) (\<lambda>_.
     validateStrategyParams (cfStrategy c) (cfReference c) (cfUndercutBp c) (cfContributionFloor c)))))"

definition newConfig :: "config_params \<Rightarrow> ('e policy_error, config) result" where
  "newConfig p =
     (let movementCap = (case cpMovementCap p of None \<Rightarrow> defaultMovementCap | Some c \<Rightarrow> c) in
      andThen (validateCap movementCap) (\<lambda>_.
      (let cooldown = (case cpCooldown p of None \<Rightarrow> defaultCooldown | Some d \<Rightarrow> d) in
       andThen (validateCooldown cooldown) (\<lambda>_.
       andThen (validateStrategy (cpStrategy p)) (\<lambda>_.
       andThen (validateObjective (cpObjective p)) (\<lambda>_.
       andThen (validateStrategyParams (cpStrategy p) (cpReference p) (cpUndercutBp p)
                  (cpContributionFloor p)) (\<lambda>_.
       Inr \<lparr>cfBoundary = cpBoundary p, cfContributionFloor = cpContributionFloor p,
            cfMovementCap = movementCap, cfCooldown = cooldown, cfStrategy = cpStrategy p,
            cfStrategyEnabled = cpStrategyEnabled p, cfReference = cpReference p,
            cfUndercutBp = cpUndercutBp p, cfObjective = cpObjective p\<rparr>)))))))"

section \<open>Stages, blockers, results (evaluate.go)\<close>

text \<open>The iota constants; their integer value is the precedence order.\<close>

datatype stage =
  StageBoundary | StageHardFloor | StageMovementCap | StageCooldown | StageStrategy | StageObjective

fun stageRank :: "stage \<Rightarrow> nat" where
  "stageRank StageBoundary = 0"
| "stageRank StageHardFloor = 1"
| "stageRank StageMovementCap = 2"
| "stageRank StageCooldown = 3"
| "stageRank StageStrategy = 4"
| "stageRank StageObjective = 5"

lemma stageRank_inj: "stageRank s = stageRank t \<longleftrightarrow> s = t"
  by (cases s; cases t) auto

instantiation stage :: linorder
begin

definition less_eq_stage :: "stage \<Rightarrow> stage \<Rightarrow> bool" where
  "less_eq_stage s t \<longleftrightarrow> stageRank s \<le> stageRank t"

definition less_stage :: "stage \<Rightarrow> stage \<Rightarrow> bool" where
  "less_stage s t \<longleftrightarrow> stageRank s < stageRank t"

instance
  by standard (auto simp: less_eq_stage_def less_stage_def stageRank_inj)

end

fun stageText :: "stage \<Rightarrow> string" where
  "stageText StageBoundary = ''boundary''"
| "stageText StageHardFloor = ''hard_floor''"
| "stageText StageMovementCap = ''movement_cap''"
| "stageText StageCooldown = ''cooldown''"
| "stageText StageStrategy = ''strategy''"
| "stageText StageObjective = ''objective''"

fun isHard :: "stage \<Rightarrow> bool" where
  "isHard StageStrategy = False"
| "isHard StageObjective = False"
| "isHard _ = True"

datatype blocker_code =
  BlockerBoundaryUnknown | BlockerBoundaryInvalid | BlockerBelowFloor | BlockerCrossesZero
| BlockerMovementInfeasible | BlockerCooldownActive | BlockerStrategyDisabled
| BlockerObjectiveInfeasible

record blocker =
  bkStage :: stage
  bkCode :: blocker_code
  bkMessage :: string

record proposal =
  ppPrice :: money
  ppContribution :: money

record policy_result =
  prProposed :: "proposal option"
  prBlockers :: "blocker list"
  prSimulation :: bool
  prReadiness :: readiness_state

definition approvable :: "policy_result \<Rightarrow> bool" where
  "approvable r \<longleftrightarrow>
     \<not> prSimulation r \<and> prProposed r \<noteq> None \<and> length (prBlockers r) = 0 \<and>
     prReadiness r = StateComplete"

type_synonym 'e contribution_func = "money \<Rightarrow> ('e, money) result"

record 'e evaluate_input =
  eiConfig :: config
  eiCurrentPrice :: money
  eiContribution :: "'e contribution_func"
  eiNow :: instant
  eiLastActionAt :: "instant option"
  eiReadiness :: readiness_state

section \<open>The stages\<close>

definition liftMoney :: "(money_error, 'a) result \<Rightarrow> ('e policy_error, 'a) result" where
  "liftMoney r = mapErr PolicyMoneyErr r"

definition maxMoney :: "money \<Rightarrow> money \<Rightarrow> (money_error, money) result" where
  "maxMoney a b = andThen (compareMoney a b) (\<lambda>cmp. if cmp < 0 then Inr b else Inr a)"

definition minMoney :: "money \<Rightarrow> money \<Rightarrow> (money_error, money) result" where
  "minMoney a b = andThen (compareMoney a b) (\<lambda>cmp. if 0 < cmp then Inr b else Inr a)"

definition clamp :: "money \<Rightarrow> money \<Rightarrow> money \<Rightarrow> (money_error, money) result" where
  "clamp v low high =
     andThen (compareMoney v low) (\<lambda>lc.
     if lc < 0 then Inr low
     else andThen (compareMoney v high) (\<lambda>hc. if 0 < hc then Inr high else Inr v))"

definition strategyDesired :: "config \<Rightarrow> money \<Rightarrow> ('e policy_error, money) result" where
  "strategyDesired cfg current =
     (case cfStrategy cfg of
        StrategyHold \<Rightarrow> Inr current
      | StrategyMatch \<Rightarrow> Inr (cfReference cfg)
      | StrategyUndercut \<Rightarrow>
          liftMoney
            (andThen (applyRate (cfReference cfg) (cfUndercutBp cfg) (Some roundDown)) (\<lambda>cut.
             subMoney (cfReference cfg) cut))
      | StrategyOther _ \<Rightarrow> Inl ErrUnknownStrategy)"

definition objectivePreferred ::
  "config \<Rightarrow> money \<Rightarrow> money \<Rightarrow> money \<Rightarrow> ('e policy_error, money) result" where
  "objectivePreferred cfg desired low high =
     (case cfObjective cfg of
        ObjectiveMaximizeContribution \<Rightarrow> Inr high
      | ObjectiveTrackStrategy \<Rightarrow> liftMoney (clamp desired low high)
      | ObjectiveOther _ \<Rightarrow> Inl ErrUnknownObjective)"

definition classifyFloor :: "config \<Rightarrow> money \<Rightarrow> (money_error, bool \<times> bool) result" where
  "classifyFloor cfg c =
     andThen (compareMoney c (cfContributionFloor cfg)) (\<lambda>fcmp.
     andThen (zeroOf (currency c) (exponent c)) (\<lambda>z.
     andThen (compareMoney c z) (\<lambda>zcmp.
     Inr (fcmp < 0, zcmp \<le> 0))))"

definition hardFloorBlocker :: "bool \<Rightarrow> bool \<Rightarrow> blocker" where
  "hardFloorBlocker below crossesZero =
     (if crossesZero
      then \<lparr>bkStage = StageHardFloor, bkCode = BlockerCrossesZero,
             bkMessage = ''no feasible price keeps contribution above zero''\<rparr>
      else \<lparr>bkStage = StageHardFloor, bkCode = BlockerBelowFloor,
             bkMessage = ''no feasible price meets the hard contribution floor''\<rparr>)"

definition callOracle :: "'e contribution_func \<Rightarrow> money \<Rightarrow> ('e policy_error, money) result" where
  "callOracle contrib p = mapErr OracleErr (contrib p)"

definition resolveFloor ::
  "config \<Rightarrow> 'e contribution_func \<Rightarrow> money \<Rightarrow> money
    \<Rightarrow> ('e policy_error, money \<times> money \<times> blocker option) result" where
  "resolveFloor cfg contrib preferred feasHigh =
     andThen (callOracle contrib preferred) (\<lambda>prefC.
     andThen (liftMoney (classifyFloor cfg prefC)) (\<lambda>(below, zero).
     if \<not> below \<and> \<not> zero then Inr (preferred, prefC, None)
     else
       andThen (callOracle contrib feasHigh) (\<lambda>highC.
       andThen (liftMoney (classifyFloor cfg highC)) (\<lambda>(belowHigh, zeroHigh).
       if \<not> belowHigh \<and> \<not> zeroHigh then Inr (feasHigh, highC, None)
       else Inr (feasHigh, highC, Some (hardFloorBlocker belowHigh zeroHigh))))))"

definition cooldownBlocker ::
  "config \<Rightarrow> 'e evaluate_input \<Rightarrow> money \<Rightarrow> (money_error, blocker option) result" where
  "cooldownBlocker cfg inp final =
     (case eiLastActionAt inp of
        None \<Rightarrow> Inr None
      | Some lastAction \<Rightarrow>
          (let deadline = lastAction + cfCooldown cfg in
           if \<not> eiNow inp < deadline then Inr None
           else
             andThen (compareMoney final (eiCurrentPrice inp)) (\<lambda>changeCmp.
             if changeCmp = 0 then Inr None
             else Inr (Some \<lparr>bkStage = StageCooldown, bkCode = BlockerCooldownActive,
               bkMessage = ''cooldown is active; a price change is not permitted yet''\<rparr>))))"

text \<open>A result before readiness is stamped: Go's zero readiness is the empty string.\<close>

definition blocked :: "stage \<Rightarrow> blocker_code \<Rightarrow> string \<Rightarrow> policy_result" where
  "blocked st code msg =
     \<lparr>prProposed = None, prBlockers = [\<lparr>bkStage = st, bkCode = code, bkMessage = msg\<rparr>],
      prSimulation = False, prReadiness = StateOther []\<rparr>"

definition ordered :: "blocker list \<Rightarrow> policy_result" where
  "ordered blockers =
     \<lparr>prProposed = None, prBlockers = sort_key bkStage blockers,
      prSimulation = False, prReadiness = StateOther []\<rparr>"

text \<open>The feasible window: boundary intersected with the movement cap around the current price.\<close>

definition feasibleWindow ::
  "config \<Rightarrow> money \<Rightarrow> (money_error, money \<times> money) result" where
  "feasibleWindow cfg current =
     andThen (applyRate current (cfMovementCap cfg) (Some roundDown)) (\<lambda>capDelta.
     andThen (subMoney current capDelta) (\<lambda>moveLow.
     andThen (addMoney current capDelta) (\<lambda>moveHigh.
     andThen (maxMoney (bdMin (cfBoundary cfg)) moveLow) (\<lambda>feasLow.
     andThen (minMoney (bdMax (cfBoundary cfg)) moveHigh) (\<lambda>feasHigh.
     Inr (feasLow, feasHigh))))))"

text \<open>Stages 2, 4 and 5 over a non-empty window.\<close>

definition evaluateWindow ::
  "'e evaluate_input \<Rightarrow> money \<Rightarrow> money \<Rightarrow> ('e policy_error, policy_result) result" where
  "evaluateWindow inp feasLow feasHigh =
     (let cfg = eiConfig inp in
      andThen (strategyDesired cfg (eiCurrentPrice inp)) (\<lambda>desired.
      andThen (objectivePreferred cfg desired feasLow feasHigh) (\<lambda>target.
      andThen (resolveFloor cfg (eiContribution inp) target feasHigh) (\<lambda>(final, finalContrib, floorBlk).
      (let intent = (if floorBlk \<noteq> None then target else final) in
       andThen (liftMoney (cooldownBlocker cfg inp intent)) (\<lambda>cd.
       (let blockers = (case floorBlk of None \<Rightarrow> [] | Some b \<Rightarrow> [b]) @
                       (case cd of None \<Rightarrow> [] | Some b \<Rightarrow> [b]) in
        if 0 < length blockers then Inr (ordered blockers)
        else if \<not> cfStrategyEnabled cfg
        then Inr (blocked StageStrategy BlockerStrategyDisabled ''selected pricing strategy is not enabled'')
        else Inr \<lparr>prProposed = Some \<lparr>ppPrice = final, ppContribution = finalContrib\<rparr>,
                  prBlockers = [], prSimulation = False, prReadiness = StateOther []\<rparr>)))))))"

definition evaluateStages :: "'e evaluate_input \<Rightarrow> ('e policy_error, policy_result) result" where
  "evaluateStages inp =
     andThen (validateConfig (eiConfig inp)) (\<lambda>_.
     (let cfg = eiConfig inp in
      if \<not> bdKnown (cfBoundary cfg)
      then Inr (blocked StageBoundary BlockerBoundaryUnknown
                 ''marketplace price boundary is unknown; no executable price exists'')
      else
        andThen (liftMoney (compareMoney (bdMin (cfBoundary cfg)) (bdMax (cfBoundary cfg)))) (\<lambda>bcmp.
        if 0 < bcmp
        then Inr (blocked StageBoundary BlockerBoundaryInvalid
                   ''marketplace price boundary is invalid (min exceeds max)'')
        else
          andThen (liftMoney (feasibleWindow cfg (eiCurrentPrice inp))) (\<lambda>(feasLow, feasHigh).
          andThen (liftMoney (compareMoney feasLow feasHigh)) (\<lambda>fcmp.
          if 0 < fcmp
          then Inr (blocked StageMovementCap BlockerMovementInfeasible
                     ''movement cap admits no price inside the marketplace boundary'')
          else evaluateWindow inp feasLow feasHigh)))))"

definition evaluate :: "'e evaluate_input \<Rightarrow> ('e policy_error, policy_result) result" where
  "evaluate inp = andThen (evaluateStages inp) (\<lambda>res. Inr (res\<lparr>prReadiness := eiReadiness inp\<rparr>))"

definition simulate :: "'e evaluate_input \<Rightarrow> ('e policy_error, policy_result) result" where
  "simulate inp = andThen (evaluate inp) (\<lambda>r. Inr (r\<lparr>prSimulation := True\<rparr>))"

section \<open>Facts about the stages\<close>

lemma liftMoney_Inr [result_simps]: "liftMoney r = Inr x \<longleftrightarrow> r = Inr x"
  by (simp add: liftMoney_def result_simps)

lemma callOracle_Inr [result_simps]: "callOracle f p = Inr x \<longleftrightarrow> f p = Inr x"
  by (simp add: callOracle_def result_simps)

lemma maxMoney_ok [result_simps]:
  "maxMoney a b = Inr m \<longleftrightarrow> sameUnit a b \<and> m = (if amt a < amt b then b else a)"
  by (auto simp: maxMoney_def result_simps split: if_splits)

lemma minMoney_ok [result_simps]:
  "minMoney a b = Inr m \<longleftrightarrow> sameUnit a b \<and> m = (if amt b < amt a then b else a)"
  by (auto simp: minMoney_def result_simps split: if_splits)

lemma clamp_ok:
  assumes "clamp v low high = Inr m" and "amt low \<le> amt high"
  shows "amt low \<le> amt m \<and> amt m \<le> amt high \<and> sameUnit m low"
    and "amt low \<le> amt v \<Longrightarrow> amt v \<le> amt high \<Longrightarrow> m = v"
  using assms by (auto simp: clamp_def result_simps sameUnit_def split: if_splits)

lemma zeroOf_ok [result_simps]:
  "zeroOf c e = Inr z \<longleftrightarrow> validCurrency c \<and> z = \<lparr>mantissa = 0, currency = c, exponent = e\<rparr>"
  by (simp add: zeroOf_def newMoney_ok)

lemma classifyFloor_ok [result_simps]:
  "classifyFloor cfg c = Inr (b, z) \<longleftrightarrow>
     sameUnit c (cfContributionFloor cfg) \<and> b = (amt c < amt (cfContributionFloor cfg)) \<and> z = (amt c \<le> 0)"
  by (auto simp: classifyFloor_def result_simps sameUnit_def valid_def)

lemma validateCap_ok [result_simps]:
  "validateCap cap = Inr u \<longleftrightarrow> 0 \<le> sint (bpValue cap) \<and> sint (bpValue cap) \<le> 500"
  by (auto simp: validateCap_def word_sless_alt movementCapMaxBp_def)

lemma validateCooldown_ok [result_simps]: "validateCooldown d = Inr u \<longleftrightarrow> hour \<le> d"
  by (auto simp: validateCooldown_def defaultCooldown_def)

lemma validateStrategy_ok [result_simps]: "validateStrategy s = Inr u \<longleftrightarrow> (\<forall>x. s \<noteq> StrategyOther x)"
  by (cases s) (auto simp: validateStrategy_def)

lemma validateObjective_ok [result_simps]:
  "validateObjective s = Inr u \<longleftrightarrow> (\<forall>x. s \<noteq> ObjectiveOther x)"
  by (cases s) (auto simp: validateObjective_def)

lemma validateReference_ok [result_simps]:
  "validateReference r unt = Inr u \<longleftrightarrow>
     valid r \<and> mantissa r \<noteq> 0 \<and> currency r = currency unt \<and> exponent r = exponent unt"
  by (auto simp: validateReference_def isZero_def)

lemma validateUndercutBp_ok [result_simps]:
  "validateUndercutBp bp = Inr u \<longleftrightarrow> 0 \<le> sint (bpValue bp) \<and> sint (bpValue bp) \<le> 10000"
  by (auto simp: validateUndercutBp_def result_simps word_sless_alt maxUndercutBp_def)

lemma roundDown_delta:
  assumes "applyRate m bp (Some roundDown) = Inr d" and "0 \<le> sint (bpValue bp)"
  shows "sameUnit d m" and "\<bar>amt d\<bar> * 10000 \<le> \<bar>amt m\<bar> * sint (bpValue bp)"
  using down_magnitude [OF assms(1)] down.applyRate_ok [OF assms(1)] assms(2)
  by (simp_all add: abs_mult)

lemma scale_le: "x \<le> d \<Longrightarrow> d * 10000 \<le> K \<Longrightarrow> x * 10000 \<le> (K :: int)"
  by linarith

text \<open>The window lies in the boundary and within the cap of the current price.\<close>

lemma feasibleWindow_ok:
  assumes "feasibleWindow cfg cur = Inr (lo, hi)" and "0 \<le> sint (bpValue (cfMovementCap cfg))"
  shows "sameUnit lo cur" and "sameUnit hi cur"
    and "amt (bdMin (cfBoundary cfg)) \<le> amt lo" and "amt hi \<le> amt (bdMax (cfBoundary cfg))"
    and "(amt cur - amt lo) * 10000 \<le> \<bar>amt cur\<bar> * sint (bpValue (cfMovementCap cfg))"
    and "(amt hi - amt cur) * 10000 \<le> \<bar>amt cur\<bar> * sint (bpValue (cfMovementCap cfg))"
    and "sameUnit (bdMin (cfBoundary cfg)) cur" and "sameUnit (bdMax (cfBoundary cfg)) cur"
proof -
  from assms(1) obtain d ml mh where d: "applyRate cur (cfMovementCap cfg) (Some roundDown) = Inr d"
    and ml: "subMoney cur d = Inr ml" and mh: "addMoney cur d = Inr mh"
    and lo: "maxMoney (bdMin (cfBoundary cfg)) ml = Inr lo"
    and hi: "minMoney (bdMax (cfBoundary cfg)) mh = Inr hi"
    by (auto simp: feasibleWindow_def andThen_Inr)
  note dd = roundDown_delta [OF d assms(2)]
  note a = subMoney_amt [OF ml] addMoney_amt [OF mh]
  show "sameUnit (bdMin (cfBoundary cfg)) cur" "sameUnit (bdMax (cfBoundary cfg)) cur"
    using lo hi a by (auto simp: maxMoney_ok minMoney_ok sameUnit_def)
  then show "sameUnit lo cur" "sameUnit hi cur"
    using lo hi a by (auto simp: maxMoney_ok minMoney_ok)
  show "amt (bdMin (cfBoundary cfg)) \<le> amt lo" "amt hi \<le> amt (bdMax (cfBoundary cfg))"
    using lo hi by (auto simp: maxMoney_ok minMoney_ok)
  have "amt cur - amt lo \<le> \<bar>amt d\<bar>" "amt hi - amt cur \<le> \<bar>amt d\<bar>"
    using lo hi a by (auto simp: maxMoney_ok minMoney_ok)
  then show "(amt cur - amt lo) * 10000 \<le> \<bar>amt cur\<bar> * sint (bpValue (cfMovementCap cfg))"
    and "(amt hi - amt cur) * 10000 \<le> \<bar>amt cur\<bar> * sint (bpValue (cfMovementCap cfg))"
    using dd(2) by (blast intro: scale_le)+
qed

text \<open>What a resolved floor stage guarantees, and what a hard-floor blocker says.\<close>

definition acceptable :: "config \<Rightarrow> 'e contribution_func \<Rightarrow> money \<Rightarrow> bool" where
  "acceptable cfg contrib p \<longleftrightarrow>
     (\<exists>c. contrib p = Inr c \<and> sameUnit c (cfContributionFloor cfg) \<and>
        amt (cfContributionFloor cfg) \<le> amt c \<and> 0 < amt c)"

lemma resolveFloor_accepts:
  assumes "resolveFloor cfg contrib pref hi = Inr (f, c, None)"
  shows "contrib f = Inr c \<and> acceptable cfg contrib f \<and> (f = pref \<or> f = hi \<and> \<not> acceptable cfg contrib pref)"
  using assms
  by (fastforce simp: resolveFloor_def andThen_Inr callOracle_Inr liftMoney_Inr acceptable_def
      classifyFloor_ok split: if_splits)

lemma resolveFloor_blocks:
  assumes "resolveFloor cfg contrib pref hi = Inr (f, c, Some b)"
  shows "bkStage b = StageHardFloor \<and> contrib hi = Inr c \<and> \<not> acceptable cfg contrib hi
    \<and> \<not> acceptable cfg contrib pref \<and> sameUnit c (cfContributionFloor cfg)
    \<and> (bkCode b = BlockerCrossesZero \<longleftrightarrow> amt c \<le> 0)"
  using assms
  by (fastforce simp: resolveFloor_def andThen_Inr callOracle_Inr liftMoney_Inr acceptable_def
      classifyFloor_ok hardFloorBlocker_def split: if_splits)

lemma cooldownBlocker_ok:
  assumes "cooldownBlocker cfg inp p = Inr cd"
  shows "(cd = None \<longleftrightarrow> (\<forall>t. eiLastActionAt inp = Some t \<and> eiNow inp < t + cfCooldown cfg \<longrightarrow> p = eiCurrentPrice inp))
    \<and> (\<forall>b. cd = Some b \<longrightarrow> bkStage b = StageCooldown)"
  using assms money_eqI
  by (fastforce simp: cooldownBlocker_def Let_def andThen_Inr compareMoney_ok sint64_eq_iff
      split: option.splits if_splits)

text \<open>The objective's target lies in the window.\<close>

lemma objectivePreferred_ok:
  assumes "objectivePreferred cfg desired lo hi = Inr t" and "amt lo \<le> amt hi" and "sameUnit lo hi"
  shows "amt lo \<le> amt t \<and> amt t \<le> amt hi \<and> sameUnit t lo"
  using assms clamp_ok(1) [of desired lo hi t]
  by (auto simp: objectivePreferred_def liftMoney_Inr sameUnit_def split: objective.splits)

text \<open>The configurations an evaluation admits.\<close>

definition strategyParamsOk :: "strategy \<Rightarrow> money \<Rightarrow> basis_points \<Rightarrow> money \<Rightarrow> bool" where
  "strategyParamsOk s ref ucut unt \<longleftrightarrow>
     (s \<in> {StrategyMatch, StrategyUndercut} \<longrightarrow>
        valid ref \<and> mantissa ref \<noteq> 0 \<and> currency ref = currency unt \<and> exponent ref = exponent unt) \<and>
     (s = StrategyUndercut \<longrightarrow> 0 \<le> sint (bpValue ucut) \<and> sint (bpValue ucut) \<le> 10000)"

definition configOk :: "config \<Rightarrow> bool" where
  "configOk cfg \<longleftrightarrow>
     0 \<le> sint (bpValue (cfMovementCap cfg)) \<and> sint (bpValue (cfMovementCap cfg)) \<le> 500 \<and>
     hour \<le> cfCooldown cfg \<and> (\<forall>x. cfStrategy cfg \<noteq> StrategyOther x) \<and>
     (\<forall>x. cfObjective cfg \<noteq> ObjectiveOther x) \<and>
     strategyParamsOk (cfStrategy cfg) (cfReference cfg) (cfUndercutBp cfg) (cfContributionFloor cfg)"

lemma validateStrategyParams_ok [result_simps]:
  "validateStrategyParams s ref ucut unt = Inr u \<longleftrightarrow> strategyParamsOk s ref ucut unt"
  by (cases s) (auto simp: validateStrategyParams_def strategyParamsOk_def andThen_Inr
      validateReference_ok validateUndercutBp_ok)

lemma validateConfig_ok [result_simps]: "validateConfig cfg = Inr u \<longleftrightarrow> configOk cfg"
  by (auto simp: validateConfig_def configOk_def andThen_Inr validateCap_ok validateCooldown_ok
      validateStrategy_ok validateObjective_ok validateStrategyParams_ok)

text \<open>How an evaluation that produced a result went.\<close>

lemma evaluateStages_cases:
  assumes "evaluateStages inp = Inr r"
  obtains (boundary) b where "configOk (eiConfig inp)" "prBlockers r = [b]" "bkStage b = StageBoundary"
    "prProposed r = None"
    "\<not> bdKnown (cfBoundary (eiConfig inp)) \<or>
     amt (bdMax (cfBoundary (eiConfig inp))) < amt (bdMin (cfBoundary (eiConfig inp)))"
  | (empty_window) lo hi b where "configOk (eiConfig inp)" "bdKnown (cfBoundary (eiConfig inp))"
    "feasibleWindow (eiConfig inp) (eiCurrentPrice inp) = Inr (lo, hi)"
    "amt hi < amt lo" "prBlockers r = [b]" "bkStage b = StageMovementCap" "prProposed r = None"
  | (stages) lo hi where "configOk (eiConfig inp)"
    "bdKnown (cfBoundary (eiConfig inp))"
    "feasibleWindow (eiConfig inp) (eiCurrentPrice inp) = Inr (lo, hi)"
    "sameUnit lo hi" "amt lo \<le> amt hi" "evaluateWindow inp lo hi = Inr r"
proof -
  let ?cfg = "eiConfig inp"
  have ok: "configOk ?cfg" using assms by (auto simp: evaluateStages_def andThen_Inr validateConfig_ok)
  show thesis
  proof (cases "bdKnown (cfBoundary ?cfg)")
    case False
    with assms have "r = blocked StageBoundary BlockerBoundaryUnknown
        ''marketplace price boundary is unknown; no executable price exists''"
      by (auto simp: evaluateStages_def andThen_Inr Let_def)
    with False ok show thesis by (intro boundary [of "hd (prBlockers r)"]) (simp_all add: blocked_def)
  next
    case known: True
    show thesis
    proof (cases "amt (bdMax (cfBoundary ?cfg)) < amt (bdMin (cfBoundary ?cfg))")
      case True
      with assms known have "r = blocked StageBoundary BlockerBoundaryInvalid
          ''marketplace price boundary is invalid (min exceeds max)''"
        by (auto simp: evaluateStages_def andThen_Inr Let_def liftMoney_Inr compareMoney_ok)
      with True ok show thesis by (intro boundary [of "hd (prBlockers r)"]) (simp_all add: blocked_def)
    next
      case False
      with assms known obtain lo hi where w: "feasibleWindow ?cfg (eiCurrentPrice inp) = Inr (lo, hi)"
        and u: "sameUnit lo hi"
        and r: "(if amt hi < amt lo
                 then Inr (blocked StageMovementCap BlockerMovementInfeasible
                   ''movement cap admits no price inside the marketplace boundary'')
                 else evaluateWindow inp lo hi) = Inr r"
        by (auto simp: evaluateStages_def andThen_Inr Let_def liftMoney_Inr compareMoney_ok)
      show thesis
      proof (cases "amt hi < amt lo")
        case True
        with r have "r = blocked StageMovementCap BlockerMovementInfeasible
            ''movement cap admits no price inside the marketplace boundary''" by simp
        with True ok known w show thesis
          by (intro empty_window [of lo hi "hd (prBlockers r)"]) (simp_all add: blocked_def)
      next
        case False
        with r ok known w u show thesis by (intro stages) simp_all
      qed
    qed
  qed
qed

lemma evaluateWindow_cases:
  assumes "evaluateWindow inp lo hi = Inr r" and "sameUnit lo hi" and "amt lo \<le> amt hi"
  obtains (proposal) p where "prProposed r = Some p" "prBlockers r = []" "cfStrategyEnabled (eiConfig inp)"
    "amt lo \<le> amt (ppPrice p)" "amt (ppPrice p) \<le> amt hi" "sameUnit (ppPrice p) lo"
    "eiContribution inp (ppPrice p) = Inr (ppContribution p)"
    "acceptable (eiConfig inp) (eiContribution inp) (ppPrice p)"
    "\<forall>t. eiLastActionAt inp = Some t \<and> eiNow inp < t + cfCooldown (eiConfig inp) \<longrightarrow>
       ppPrice p = eiCurrentPrice inp"
  | (hard) bs where "prProposed r = None" "prBlockers r = sort_key bkStage bs" "bs \<noteq> []"
    "\<forall>b \<in> set bs. bkStage b \<in> {StageHardFloor, StageCooldown}" "distinct (map bkStage bs)"
    "StageHardFloor \<in> bkStage ` set bs \<longrightarrow> \<not> acceptable (eiConfig inp) (eiContribution inp) hi \<and>
       (\<exists>c. eiContribution inp hi = Inr c \<and> sameUnit c (cfContributionFloor (eiConfig inp)))"
  | (disabled) b where "prProposed r = None" "prBlockers r = [b]" "bkStage b = StageStrategy"
    "\<not> cfStrategyEnabled (eiConfig inp)"
proof -
  let ?cfg = "eiConfig inp" and ?f = "eiContribution inp"
  from assms(1) obtain desired target final finalC fb cd where
    t: "objectivePreferred ?cfg desired lo hi = (Inr target :: ('a policy_error, money) result)"
    and f: "resolveFloor ?cfg ?f target hi = Inr (final, finalC, fb)"
    and cd: "cooldownBlocker ?cfg inp (if fb \<noteq> None then target else final) = Inr cd"
    and r: "Inr r = (let blockers = (case fb of None \<Rightarrow> [] | Some b \<Rightarrow> [b]) @ (case cd of None \<Rightarrow> [] | Some b \<Rightarrow> [b]) in
        if 0 < length blockers then Inr (ordered blockers)
        else if \<not> cfStrategyEnabled ?cfg
        then Inr (blocked StageStrategy BlockerStrategyDisabled ''selected pricing strategy is not enabled'')
        else Inr \<lparr>prProposed = Some \<lparr>ppPrice = final, ppContribution = finalC\<rparr>,
                  prBlockers = [], prSimulation = False, prReadiness = StateOther []\<rparr>
          :: ('a policy_error, policy_result) result)"
    unfolding evaluateWindow_def
    by (clarsimp simp only: Let_def andThen_Inr liftMoney_Inr split_paired_all prod.case simp_thms)
  note tt = objectivePreferred_ok [OF t assms(3,2)] and cc = cooldownBlocker_ok [OF cd]
  define bs where "bs = (case fb of None \<Rightarrow> [] | Some b \<Rightarrow> [b]) @ (case cd of None \<Rightarrow> [] | Some b \<Rightarrow> [b])"
  show thesis
  proof (cases "bs = []")
    case False
    then have "r = ordered bs" using r by (simp add: bs_def)
    moreover have "\<forall>b \<in> set bs. bkStage b \<in> {StageHardFloor, StageCooldown}" "distinct (map bkStage bs)"
      using cc resolveFloor_blocks [of ?cfg ?f target hi final finalC] f
      by (auto simp: bs_def split: option.splits)
    moreover have "\<not> acceptable ?cfg ?f hi \<and> (\<exists>c. ?f hi = Inr c \<and> sameUnit c (cfContributionFloor ?cfg))"
      if hf: "StageHardFloor \<in> bkStage ` set bs"
    proof -
      obtain b where "fb = Some b" using hf cc [THEN conjunct2] by (cases fb) (auto simp: bs_def split: option.splits)
      then show ?thesis using resolveFloor_blocks f by blast
    qed
    ultimately show thesis using False by (intro hard [of bs]) (auto simp: ordered_def)
  next
    case True
    then have fb: "fb = None" and "cd = None" by (auto simp: bs_def split: option.splits)
    from resolveFloor_accepts f fb have a: "?f final = Inr finalC" "acceptable ?cfg ?f final"
      "final = target \<or> final = hi" by blast+
    show thesis
    proof (cases "cfStrategyEnabled ?cfg")
      case False
      then show thesis using r True
        by (intro disabled [of "hd (prBlockers r)"]) (simp_all add: bs_def [symmetric] blocked_def Let_def)
    next
      case en: True
      with r True have "prProposed r = Some \<lparr>ppPrice = final, ppContribution = finalC\<rparr>" "prBlockers r = []"
        by (simp_all add: bs_def [symmetric] Let_def)
      moreover have "amt lo \<le> amt final \<and> amt final \<le> amt hi \<and> sameUnit final lo"
        using a(3) tt assms(2,3) by (auto simp: sameUnit_def)
      ultimately show thesis using a en cc fb \<open>cd = None\<close> by (intro proposal) auto
    qed
  qed
qed

section \<open>Properties of the evaluation\<close>

lemma evaluate_Inr:
  "evaluate inp = Inr r \<longleftrightarrow> (\<exists>s. evaluateStages inp = Inr s \<and> r = s\<lparr>prReadiness := eiReadiness inp\<rparr>)"
  by (auto simp: evaluate_def andThen_Inr)

lemma configOk_cap: "configOk cfg \<Longrightarrow> 0 \<le> sint (bpValue (cfMovementCap cfg))"
  by (simp add: configOk_def)

lemma move_bound:
  "\<lbrakk>(c - l) * 10000 \<le> K; (h - c) * 10000 \<le> K; l \<le> p; p \<le> h\<rbrakk> \<Longrightarrow> \<bar>p - c\<bar> * 10000 \<le> (K :: int)"
  by (simp add: abs_if)

lemma cap_500: "0 \<le> (a :: int) \<Longrightarrow> k \<le> 500 \<Longrightarrow> d * 10000 \<le> a * k \<Longrightarrow> 20 * d \<le> a"
  using mult_left_mono [of k 500 a] by linarith

lemma flags_simps:
  "\<not> prSimulation (blocked st c m)" "\<not> prSimulation (ordered bs)"
  by (simp_all add: blocked_def ordered_def)

lemma evaluateWindow_sim: "evaluateWindow inp lo hi = Inr r \<Longrightarrow> \<not> prSimulation r"
  unfolding evaluateWindow_def
  by (clarsimp simp only: Let_def andThen_Inr split_paired_all prod.case split: if_splits)
    (auto simp: flags_simps)

lemma evaluateStages_sim: "evaluateStages inp = Inr r \<Longrightarrow> \<not> prSimulation r"
  using evaluateWindow_sim [of inp _ _ r]
  by (auto simp: evaluateStages_def andThen_Inr Let_def flags_simps split: if_splits)

lemma evaluate_proposal:
  assumes "evaluate inp = Inr r" and "prProposed r = Some p"
  obtains lo hi where "configOk (eiConfig inp)" "bdKnown (cfBoundary (eiConfig inp))"
    "feasibleWindow (eiConfig inp) (eiCurrentPrice inp) = Inr (lo, hi)"
    "amt lo \<le> amt (ppPrice p)" "amt (ppPrice p) \<le> amt hi" "sameUnit (ppPrice p) lo" "prBlockers r = []"
    "cfStrategyEnabled (eiConfig inp)" "eiContribution inp (ppPrice p) = Inr (ppContribution p)"
    "acceptable (eiConfig inp) (eiContribution inp) (ppPrice p)"
    "\<forall>t. eiLastActionAt inp = Some t \<and> eiNow inp < t + cfCooldown (eiConfig inp) \<longrightarrow>
       ppPrice p = eiCurrentPrice inp"
    "\<not> prSimulation r" "prReadiness r = eiReadiness inp"
proof -
  from assms(1) obtain s where s: "evaluateStages inp = Inr s" and r: "r = s\<lparr>prReadiness := eiReadiness inp\<rparr>"
    by (auto simp: evaluate_Inr)
  have sim: "\<not> prSimulation s" by (rule evaluateStages_sim [OF s])
  from s show thesis
  proof (cases rule: evaluateStages_cases)
    case (stages lo hi)
    from stages(6,4,5) show thesis
    proof (cases rule: evaluateWindow_cases)
      case (proposal q)
      with stages sim r assms(2) show thesis by (intro that [of lo hi]) simp_all
    qed (use assms r in simp_all)
  qed (use assms r in simp_all)
qed

text \<open>What the transport layer needs to know of an answer.\<close>

lemma evaluate_blockers:
  assumes "evaluate inp = Inr r"
  shows "(prProposed r = None) = (prBlockers r \<noteq> []) \<and> sorted (map bkStage (prBlockers r))
    \<and> distinct (map bkStage (prBlockers r))"
proof -
  from assms obtain s where s: "evaluateStages inp = Inr s" and r: "r = s\<lparr>prReadiness := eiReadiness inp\<rparr>"
    by (auto simp: evaluate_Inr)
  from s show ?thesis
  proof (cases rule: evaluateStages_cases)
    case (stages lo hi)
    from stages(6,4,5) show ?thesis
    proof (cases rule: evaluateWindow_cases)
      case (hard bs)
      then have "mset (map bkStage (prBlockers s)) = mset (map bkStage bs)" by simp
      with hard r show ?thesis
        using mset_eq_imp_distinct_iff [of "map bkStage (prBlockers s)"]
          by (auto simp: sorted_sort_key simp flip: set_empty)
    qed (simp_all add: r)
  qed (simp_all add: r)
qed

lemma evaluate_proposal_contribution:
  assumes "evaluate inp = Inr r" and "prProposed r = Some p"
  shows "valid (ppPrice p) \<and> valid (ppContribution p) \<and> prBlockers r = []
    \<and> eiContribution inp (ppPrice p) = Inr (ppContribution p) \<and> 0 < amt (ppContribution p)"
  using assms
proof (cases rule: evaluate_proposal)
  case (1 lo hi)
  note w = feasibleWindow_ok [OF 1(3) configOk_cap [OF 1(1)]]
  show ?thesis using 1 w by (auto simp: acceptable_def sameUnit_def)
qed

lemma proposal_facts:
  assumes "evaluate inp = Inr r" and "prProposed r = Some p" and "cfg = eiConfig inp"
    and "cur = eiCurrentPrice inp"
  shows "bdKnown (cfBoundary cfg) \<and> sameUnit (ppPrice p) cur
    \<and> amt (bdMin (cfBoundary cfg)) \<le> amt (ppPrice p) \<and> amt (ppPrice p) \<le> amt (bdMax (cfBoundary cfg))
    \<and> \<bar>amt (ppPrice p) - amt cur\<bar> * 10000 \<le> \<bar>amt cur\<bar> * sint (bpValue (cfMovementCap cfg))
    \<and> 20 * \<bar>amt (ppPrice p) - amt cur\<bar> \<le> \<bar>amt cur\<bar>
    \<and> eiContribution inp (ppPrice p) = Inr (ppContribution p) \<and> 0 < amt (ppContribution p)
    \<and> sameUnit (ppContribution p) (cfContributionFloor cfg)
    \<and> amt (cfContributionFloor cfg) \<le> amt (ppContribution p)
    \<and> (case eiLastActionAt inp of None \<Rightarrow> True
       | Some t \<Rightarrow> t + hour \<le> eiNow inp \<and> t + cfCooldown cfg \<le> eiNow inp \<or> ppPrice p = cur)
    \<and> cfStrategyEnabled cfg \<and> prBlockers r = [] \<and> (approvable r \<longleftrightarrow> eiReadiness inp = StateComplete)"
  using assms(1,2)
proof (cases rule: evaluate_proposal)
  case (1 lo hi)
  note w = feasibleWindow_ok [OF 1(3) configOk_cap [OF 1(1)]]
  have m: "\<bar>amt (ppPrice p) - amt cur\<bar> * 10000 \<le> \<bar>amt cur\<bar> * sint (bpValue (cfMovementCap cfg))"
    using move_bound [OF w(5,6) 1(4,5)] assms(3,4) by simp
  have "20 * \<bar>amt (ppPrice p) - amt cur\<bar> \<le> \<bar>amt cur\<bar>"
    by (rule cap_500 [OF _ _ m]) (use 1(1) assms(3) in \<open>simp_all add: configOk_def\<close>)
  moreover have "hour \<le> cfCooldown cfg" using 1(1) assms(3) by (simp add: configOk_def)
  moreover have "sameUnit (ppPrice p) cur" using 1(6) w(1) assms(4) by (simp add: sameUnit_def)
  ultimately show ?thesis
    using 1 w(3,4) m assms by (auto simp: acceptable_def approvable_def split: option.splits)
qed

text \<open>
  C4. A proposed price is safe: it lies in the known marketplace boundary, moves the current price by
  at most the configured cap (and never by more than 5 percent), its contribution as the oracle
  gives it is positive and at or above the hard floor, a changed price is outside the cooldown of at
  least one hour, the strategy is enabled, no blocker accompanies it, and it carries an approval
  control exactly when margin readiness is complete.
\<close>

theorem proposal_safe:
  assumes "evaluate inp = Inr r" and "prProposed r = Some p" and "cfg = eiConfig inp"
    and "cur = eiCurrentPrice inp"
  shows "bdKnown (cfBoundary cfg) \<and> sameUnit (ppPrice p) cur
    \<and> amt (bdMin (cfBoundary cfg)) \<le> amt (ppPrice p) \<and> amt (ppPrice p) \<le> amt (bdMax (cfBoundary cfg))
    \<and> \<bar>amt (ppPrice p) - amt cur\<bar> * 10000 \<le> \<bar>amt cur\<bar> * sint (bpValue (cfMovementCap cfg))
    \<and> 20 * \<bar>amt (ppPrice p) - amt cur\<bar> \<le> \<bar>amt cur\<bar>
    \<and> eiContribution inp (ppPrice p) = Inr (ppContribution p) \<and> 0 < amt (ppContribution p)
    \<and> sameUnit (ppContribution p) (cfContributionFloor cfg)
    \<and> amt (cfContributionFloor cfg) \<le> amt (ppContribution p)
    \<and> (case eiLastActionAt inp of None \<Rightarrow> True
       | Some t \<Rightarrow> t + hour \<le> eiNow inp \<and> t + cfCooldown cfg \<le> eiNow inp \<or> ppPrice p = cur)
    \<and> cfStrategyEnabled cfg \<and> prBlockers r = [] \<and> (approvable r \<longleftrightarrow> eiReadiness inp = StateComplete)"
  by (rule proposal_facts [OF assms])

text \<open>
  C36. An evaluation either proposes a price or says why not, never both; the blockers come in the
  fixed stage order, at most one per stage.
\<close>

theorem proposal_xor_blockers:
  assumes "evaluate inp = Inr r"
  shows "(prProposed r = None) = (prBlockers r \<noteq> []) \<and> sorted (map bkStage (prBlockers r))
    \<and> distinct (map bkStage (prBlockers r))"
  by (rule evaluate_blockers [OF assms])

text \<open>
  Further. The stricter-only rule: a configuration is built exactly when its effective cap is between 0 and
  5 percent, its effective cooldown is at least an hour and its strategy and objective are known with
  their parameters in range; omitted knobs take the system defaults, everything else is copied.
\<close>

theorem newConfig_stricter_only:
  "newConfig p = (Inr c :: ('e policy_error, config) result) \<longleftrightarrow>
     configOk c \<and> cfBoundary c = cpBoundary p \<and> cfContributionFloor c = cpContributionFloor p
     \<and> cfMovementCap c = (case cpMovementCap p of None \<Rightarrow> newBasisPoints 500 | Some m \<Rightarrow> m)
     \<and> cfCooldown c = (case cpCooldown p of None \<Rightarrow> hour | Some d \<Rightarrow> d)
     \<and> cfStrategy c = cpStrategy p \<and> cfStrategyEnabled c = cpStrategyEnabled p
     \<and> cfReference c = cpReference p \<and> cfUndercutBp c = cpUndercutBp p \<and> cfObjective c = cpObjective p"
  unfolding newConfig_def defaultMovementCap_def defaultCooldown_def movementCapMaxBp_def
  by (cases c) (auto simp: Let_def andThen_Inr validateCap_ok validateCooldown_ok
      validateStrategy_ok validateObjective_ok validateStrategyParams_ok configOk_def)

lemma toggle_simps:
  "strategyDesired (cfg\<lparr>cfStrategyEnabled := e\<rparr>) cur = strategyDesired cfg cur"
  "objectivePreferred (cfg\<lparr>cfStrategyEnabled := e\<rparr>) d lo hi = objectivePreferred cfg d lo hi"
  "classifyFloor (cfg\<lparr>cfStrategyEnabled := e\<rparr>) c = classifyFloor cfg c"
  "feasibleWindow (cfg\<lparr>cfStrategyEnabled := e\<rparr>) cur = feasibleWindow cfg cur"
  "validateConfig (cfg\<lparr>cfStrategyEnabled := e\<rparr>) = validateConfig cfg"
  by (simp_all add: strategyDesired_def objectivePreferred_def classifyFloor_def feasibleWindow_def
      validateConfig_def split: strategy.splits objective.splits)

lemma toggle_resolve:
  "resolveFloor (cfg\<lparr>cfStrategyEnabled := e\<rparr>) f p hi = resolveFloor cfg f p hi"
  "cooldownBlocker (cfg\<lparr>cfStrategyEnabled := e\<rparr>) (inp\<lparr>eiConfig := c\<rparr>) p = cooldownBlocker cfg inp p"
  by (simp_all add: resolveFloor_def cooldownBlocker_def toggle_simps cong: if_cong split: option.splits)

lemma evaluateWindow_toggle:
  assumes "evaluateWindow inp lo hi = Inr r" and "list_ex (\<lambda>b. isHard (bkStage b)) (prBlockers r)"
  shows "evaluateWindow (inp\<lparr>eiConfig := (eiConfig inp)\<lparr>cfStrategyEnabled := e\<rparr>\<rparr>) lo hi = Inr r"
  using assms unfolding evaluateWindow_def
  by (clarsimp simp only: Let_def andThen_Inr split_paired_all prod.case split: if_splits)
    (auto simp: blocked_def ordered_def toggle_simps toggle_resolve split: if_splits)

lemma evaluateStages_toggle:
  assumes "evaluateStages inp = Inr r" and "list_ex (\<lambda>b. isHard (bkStage b)) (prBlockers r)"
  shows "evaluateStages (inp\<lparr>eiConfig := (eiConfig inp)\<lparr>cfStrategyEnabled := e\<rparr>\<rparr>) = Inr r"
  using assms evaluateWindow_toggle [of inp _ _ r e] unfolding evaluateStages_def
  by (force simp: Let_def andThen_Inr toggle_simps split: if_splits)

text \<open>
  Further. A subordinate stage never clears a hard blocker: when an evaluation is blocked by the boundary, the
  floor, the cap or the cooldown, enabling (or disabling) the strategy gives the very same result.
\<close>

theorem strategy_cannot_clear_hard_blocker:
  assumes "evaluate inp = Inr r" and "list_ex (\<lambda>b. isHard (bkStage b)) (prBlockers r)"
  shows "evaluate (inp\<lparr>eiConfig := (eiConfig inp)\<lparr>cfStrategyEnabled := e\<rparr>\<rparr>) = Inr r"
  using assms evaluateStages_toggle [of inp _ e] by (auto simp: evaluate_Inr)

text \<open>
  The contract under which the two floor candidates decide the whole window: the contribution
  does not fall as the price rises.
\<close>

locale monotone_oracle =
  fixes contribAt :: "'k \<Rightarrow> 'e contribution_func"
    and admissible :: "'k \<Rightarrow> bool"
  assumes mono: "admissible k \<Longrightarrow> contribAt k p = Inr c \<Longrightarrow> contribAt k q = Inr d \<Longrightarrow> sameUnit p q \<Longrightarrow>
    amt p \<le> amt q \<Longrightarrow> amt c \<le> amt d"

context monotone_oracle
begin

lemma acceptable_mono:
  assumes "admissible k" and "acceptable cfg (contribAt k) p" and "sameUnit p q" and "amt p \<le> amt q"
    and "contribAt k q = Inr d" and "sameUnit d (cfContributionFloor cfg)"
  shows "acceptable cfg (contribAt k) q"
  using assms mono [OF assms(1) _ assms(5,3,4)] by (force simp: acceptable_def)

lemma window_blocked:
  assumes "admissible k" and "eiContribution inp = contribAt k"
    and "evaluateWindow inp lo hi = Inr r" and "sameUnit lo hi" and "amt lo \<le> amt hi"
    and "StageHardFloor \<in> bkStage ` set (prBlockers r)"
    and "sameUnit p lo" and "amt p \<le> amt hi"
  shows "\<not> acceptable (eiConfig inp) (contribAt k) p"
  using assms(3,4,5)
proof (cases rule: evaluateWindow_cases)
  case (hard bs)
  with assms(6) have "StageHardFloor \<in> bkStage ` set bs" by simp
  with hard(6) assms(2) obtain d where "\<not> acceptable (eiConfig inp) (contribAt k) hi"
    "contribAt k hi = Inr d" "sameUnit d (cfContributionFloor (eiConfig inp))" by auto
  with acceptable_mono [OF assms(1) _ _ assms(8)] show ?thesis
    using assms(4,7) by (auto simp: sameUnit_def)
qed (use assms(6) in auto)

lemma floor_block_complete:
  assumes "admissible k" and "eiContribution inp = contribAt k" and "evaluate inp = Inr r"
    and "StageHardFloor \<in> bkStage ` set (prBlockers r)"
    and "feasibleWindow (eiConfig inp) (eiCurrentPrice inp) = Inr (lo, hi)"
    and "sameUnit p lo" and "amt p \<le> amt hi"
  shows "\<not> acceptable (eiConfig inp) (contribAt k) p"
proof -
  from assms(3) obtain s where s: "evaluateStages inp = Inr s" and r: "r = s\<lparr>prReadiness := eiReadiness inp\<rparr>"
    by (auto simp: evaluate_Inr)
  from s show ?thesis
  proof (cases rule: evaluateStages_cases)
    case (stages lo' hi')
    with assms(5) have "lo' = lo" "hi' = hi" by simp_all
    with window_blocked [OF assms(1,2) stages(6,4,5)] assms(4,6,7) r show ?thesis by simp
  qed (use assms(4) r in auto)
qed

end

end
