(* ===== verification/PolicyApi.thy ===== *)
theory PolicyApi
  imports Policy
begin

text \<open>
  The simulation endpoint (services/core/internal/httpapi/policy.go and money_wire.go): the wire
  request is checked and mapped to engine inputs, the margin engine is the contribution oracle of
  the policy evaluation, and the answer is mapped back.  The request and response records mirror
  the generated gateway types the handler reads and fills.
\<close>

section \<open>Wire types\<close>

datatype api_error =
  ApiNoBody | ApiExponentRange | ApiBadMantissa string | ApiMoney money_error
| ApiUnknownComponent string | ApiAmountRequired string | ApiRateRequired string
| ApiUnknownKind string | ApiMargin margin_error | ApiPolicy "margin_error policy_error"

record money_amount =
  maMantissa :: string
  maCurrency :: string
  maExponent :: int

record component_item =
  itComponent :: string
  itKind :: string
  itAmount :: "money_amount option"
  itRateBasisPoints :: "int64 option"
  itVersion :: "int64 option"

record policy_config =
  pcBoundaryKnown :: bool
  pcBoundaryMin :: "money_amount option"
  pcBoundaryMax :: "money_amount option"
  pcContributionFloor :: money_amount
  pcCooldownSeconds :: "int64 option"
  pcMovementCapBasisPoints :: "int64 option"
  pcObjective :: string
  pcReference :: "money_amount option"
  pcStrategy :: string
  pcStrategyEnabled :: bool
  pcUndercutBasisPoints :: "int64 option"

record simulation_request =
  sqComponents :: "component_item list"
  sqConfig :: policy_config
  sqCurrentPrice :: money_amount
  sqLastActionAt :: "instant option"
  sqNow :: "instant option"
  sqReadiness :: readiness_state

record deduction_item =
  diComponent :: string
  diAmount :: money_amount
  diKind :: string
  diVersion :: int64

record contribution_item =
  coAmount :: money_amount
  coNetProceeds :: money_amount
  coDeductions :: "deduction_item list"
  coReadiness :: readiness_state
  coExecutable :: bool
  coRoundingRule :: string

record blocker_item =
  biStage :: string
  biStageOrder :: nat
  biCode :: blocker_code
  biMessage :: string

record simulation_result =
  srSimulation :: bool
  srApprovable :: bool
  srContribution :: contribution_item
  srBlockers :: "blocker_item list"
  srProposal :: "(money_amount \<times> money_amount) option"

section \<open>Money on the wire\<close>

definition wireMantissa :: "int64 \<Rightarrow> string" where
  "wireMantissa m = formatInt (sint m)"

definition parseWireMantissa :: "string \<Rightarrow> int64 option" where
  "parseWireMantissa s = map_option word_of_int (parseInt 64 s)"

definition moneyFromGateway :: "money_amount \<Rightarrow> (api_error, money) result" where
  "moneyFromGateway a =
     (if 127 < maExponent a \<or> maExponent a < -128 then Inl ApiExponentRange
      else case parseWireMantissa (maMantissa a) of
             None \<Rightarrow> Inl (ApiBadMantissa (maMantissa a))
           | Some m \<Rightarrow> mapErr ApiMoney (newMoney m (maCurrency a) (word_of_int (maExponent a))))"

definition moneyToGateway :: "money \<Rightarrow> money_amount" where
  "moneyToGateway m =
     \<lparr>maMantissa = wireMantissa (mantissa m), maCurrency = currency m, maExponent = sint (exponent m)\<rparr>"

section \<open>Reading the request\<close>

text \<open>The absolute and the rate arm of the component switch.\<close>

definition absoluteItem :: "component_item \<Rightarrow> component_input \<Rightarrow> (api_error, component_input) result" where
  "absoluteItem it ci =
     (case itAmount it of
        None \<Rightarrow> Inl (ApiAmountRequired (itComponent it))
      | Some a \<Rightarrow>
          andThen (moneyFromGateway a) (\<lambda>m.
          if mantissa m <s 0 then Inl (ApiMargin ErrNegativeDeduction)
          else Inr (ci\<lparr>ciKind := KindAbsolute, ciAmount := m\<rparr>)))"

definition rateItem :: "component_item \<Rightarrow> component_input \<Rightarrow> (api_error, component_input) result" where
  "rateItem it ci =
     (case itRateBasisPoints it of
        None \<Rightarrow> Inl (ApiRateRequired (itComponent it))
      | Some bp \<Rightarrow>
          if bp <s minRateBasisPoints \<or> maxRateBasisPoints <s bp then Inl (ApiMargin ErrRateOutOfRange)
          else Inr (ci\<lparr>ciKind := KindRate, ciRate := newBasisPoints bp\<rparr>))"

definition componentFromGateway :: "component_item \<Rightarrow> (api_error, component_input) result" where
  "componentFromGateway it =
     (let c = componentOf (itComponent it) in
      if \<not> componentValid c then Inl (ApiUnknownComponent (itComponent it))
      else
        (let ci = \<lparr>ciComponent = c, ciKind = KindAbsolute, ciAmount = zeroMoney,
                   ciRate = newBasisPoints 0,
                   ciVersion = (case itVersion it of None \<Rightarrow> 0 | Some v \<Rightarrow> v)\<rparr> in
         if itKind it = ''absolute'' then absoluteItem it ci
         else if itKind it = ''rate'' then rateItem it ci
         else Inl (ApiUnknownKind (itKind it))))"

fun componentsFromGateway :: "component_item list \<Rightarrow> (api_error, component_input list) result" where
  "componentsFromGateway [] = Inr []"
| "componentsFromGateway (it # its) =
     andThen (componentFromGateway it) (\<lambda>ci.
     andThen (componentsFromGateway its) (\<lambda>cis. Inr (ci # cis)))"

definition strategyOf :: "string \<Rightarrow> strategy" where
  "strategyOf s =
     (if s = ''hold'' then StrategyHold else if s = ''match'' then StrategyMatch
      else if s = ''undercut'' then StrategyUndercut else StrategyOther s)"

definition objectiveOf :: "string \<Rightarrow> objective" where
  "objectiveOf s =
     (if s = ''maximize_contribution'' then ObjectiveMaximizeContribution
      else if s = ''track_strategy'' then ObjectiveTrackStrategy else ObjectiveOther s)"

text \<open>An optional money field: absent leaves the zero value, which no operation accepts.\<close>

definition optionalMoney :: "money_amount option \<Rightarrow> (api_error, money) result" where
  "optionalMoney a = (case a of None \<Rightarrow> Inr zeroMoney | Some m \<Rightarrow> moneyFromGateway m)"

text \<open>\<open>time.Duration(s) * time.Second\<close> is an int64 product.\<close>

definition secondsDuration :: "int64 \<Rightarrow> duration" where
  "secondsDuration s = sint (s * 1000000000)"

definition configFromGateway :: "policy_config \<Rightarrow> (api_error, config) result" where
  "configFromGateway c =
     andThen (moneyFromGateway (pcContributionFloor c)) (\<lambda>floor.
     andThen (optionalMoney (pcBoundaryMin c)) (\<lambda>bmin.
     andThen (optionalMoney (pcBoundaryMax c)) (\<lambda>bmax.
     andThen (optionalMoney (pcReference c)) (\<lambda>reference.
     mapErr ApiPolicy (newConfig
       \<lparr>cpBoundary = \<lparr>bdKnown = pcBoundaryKnown c, bdMin = bmin, bdMax = bmax\<rparr>,
        cpContributionFloor = floor,
        cpMovementCap = map_option newBasisPoints (pcMovementCapBasisPoints c),
        cpCooldown = map_option secondsDuration (pcCooldownSeconds c),
        cpStrategy = strategyOf (pcStrategy c), cpStrategyEnabled = pcStrategyEnabled c,
        cpReference = reference,
        cpUndercutBp = (case pcUndercutBasisPoints c of None \<Rightarrow> newBasisPoints 0 | Some b \<Rightarrow> newBasisPoints b),
        cpObjective = objectiveOf (pcObjective c)\<rparr>)))))"

section \<open>The margin engine as the contribution oracle\<close>

definition contributionAt ::
  "component_input list \<Rightarrow> readiness_state \<Rightarrow> money \<Rightarrow> (margin_error, contribution) result" where
  "contributionAt comps rd price =
     contribute \<lparr>inNetProceeds = price, inRateBase = price, inComponents = comps,
                 inReadiness = rd, inAsOf = 0\<rparr>"

definition marginContribution :: "component_input list \<times> readiness_state \<Rightarrow> margin_error contribution_func" where
  "marginContribution k price =
     andThen (contributionAt (fst k) (snd k) price) (\<lambda>c. Inr (cbAmount c))"

section \<open>Writing the response\<close>

definition kindToGateway :: "kind \<Rightarrow> string" where
  "kindToGateway k = (if k = KindRate then ''rate'' else ''absolute'')"

definition toGatewayContribution :: "contribution \<Rightarrow> contribution_item" where
  "toGatewayContribution c =
     \<lparr>coAmount = moneyToGateway (cbAmount c), coNetProceeds = moneyToGateway (cbNetProceeds c),
      coDeductions = map (\<lambda>d. \<lparr>diComponent = componentText (ddComponent d),
        diAmount = moneyToGateway (ddAmount d), diKind = kindToGateway (ddKind d),
        diVersion = ddVersion d\<rparr>) (cbDeductions c),
      coReadiness = cbReadiness c, coExecutable = executable c, coRoundingRule = cbRoundingRule c\<rparr>"

definition toGatewayBlockers :: "blocker list \<Rightarrow> blocker_item list" where
  "toGatewayBlockers bs =
     map (\<lambda>b. \<lparr>biStage = stageText (bkStage b), biStageOrder = stageRank (bkStage b),
               biCode = bkCode b, biMessage = bkMessage b\<rparr>) bs"

definition toGatewaySimulation :: "policy_result \<Rightarrow> contribution \<Rightarrow> simulation_result" where
  "toGatewaySimulation res base =
     \<lparr>srSimulation = True, srApprovable = False, srContribution = toGatewayContribution base,
      srBlockers = toGatewayBlockers (prBlockers res),
      srProposal = map_option (\<lambda>p. (moneyToGateway (ppPrice p), moneyToGateway (ppContribution p)))
        (prProposed res)\<rparr>"

text \<open>The handler; \<open>serverNow\<close> is \<open>time.Now()\<close>.\<close>

definition simulatePolicy ::
  "instant \<Rightarrow> simulation_request option \<Rightarrow> (api_error, simulation_result) result" where
  "simulatePolicy serverNow req =
     (case req of None \<Rightarrow> Inl ApiNoBody
      | Some body \<Rightarrow>
          andThen (moneyFromGateway (sqCurrentPrice body)) (\<lambda>currentPrice.
          andThen (componentsFromGateway (sqComponents body)) (\<lambda>components.
          andThen (configFromGateway (sqConfig body)) (\<lambda>cfg.
          andThen (mapErr ApiMargin (contributionAt components (sqReadiness body) currentPrice)) (\<lambda>base.
          andThen (mapErr ApiPolicy (simulate
            \<lparr>eiConfig = cfg, eiCurrentPrice = currentPrice,
             eiContribution = marginContribution (components, sqReadiness body),
             eiNow = (case sqNow body of None \<Rightarrow> serverNow | Some t \<Rightarrow> t),
             eiLastActionAt = sqLastActionAt body, eiReadiness = sqReadiness body\<rparr>)) (\<lambda>res.
          Inr (toGatewaySimulation res base)))))))"

text \<open>The error code of a refused request; \<open>errors.Is\<close> looks through the wrapping.\<close>

fun marginCode :: "margin_error \<Rightarrow> string" where
  "marginCode ErrMissingRequiredComponent = ''COST_INCOMPLETE''"
| "marginCode ErrDuplicateComponent = ''INVALID_CONTRIBUTION_INPUT''"
| "marginCode ErrInvalidComponent = ''INVALID_CONTRIBUTION_INPUT''"
| "marginCode ErrRateBaseRequired = ''INVALID_CONTRIBUTION_INPUT''"
| "marginCode ErrNegativeDeduction = ''INVALID_CONTRIBUTION_INPUT''"
| "marginCode ErrRateOutOfRange = ''INVALID_CONTRIBUTION_INPUT''"
| "marginCode (MarginMoneyErr e) =
     (if e \<in> {ErrCurrencyMismatch, ErrExponentMismatch, ErrInvalidCurrency}
      then ''MONEY_INVALID'' else ''POLICY_ERROR'')"
| "marginCode (ErrUnknownKind _) = ''POLICY_ERROR''"

fun policyErr :: "api_error \<Rightarrow> string" where
  "policyErr ApiNoBody = ''INVALID_ARGUMENT''"
| "policyErr (ApiMoney e) = marginCode (MarginMoneyErr e)"
| "policyErr (ApiMargin e) = marginCode e"
| "policyErr (ApiPolicy (OracleErr e)) = marginCode e"
| "policyErr (ApiPolicy (PolicyMoneyErr e)) = marginCode (MarginMoneyErr e)"
| "policyErr (ApiPolicy ErrUnknownStrategy) = ''POLICY_ERROR''"
| "policyErr (ApiPolicy ErrUnknownObjective) = ''POLICY_ERROR''"
| "policyErr (ApiPolicy _) = ''POLICY_CONFIG_INVALID''"
| "policyErr _ = ''POLICY_ERROR''"

section \<open>With one rate component the oracle rises with the price\<close>

definition oneRate :: "component_input list \<Rightarrow> bool" where
  "oneRate cis \<longleftrightarrow> length (filter (\<lambda>ci. ciKind ci = KindRate) cis) \<le> 1"

lemma marginContribution_Inr:
  "marginContribution k p = Inr a \<longleftrightarrow> (\<exists>c. contributionAt (fst k) (snd k) p = Inr c \<and> a = cbAmount c)"
  by (auto simp: marginContribution_def andThen_Inr)

lemma absolute_deduction:
  assumes "componentOk np p ci" and "ciKind ci \<noteq> KindRate"
  shows "deductionOf q ci = deductionOf p ci"
  using assms by (auto simp: componentOk_def deductionOf_def resolveComponent_def split: kind.splits)

lemma nearest_pair:
  "2 * \<bar>m * 10000 - X\<bar> \<le> 10000 \<Longrightarrow> 2 * \<bar>n * 10000 - Y\<bar> \<le> 10000 \<Longrightarrow>
     10000 * (n - m) \<le> 10000 + (Y - X)" for m n X Y :: int
  by (simp add: abs_if split: if_splits)

lemma step_arith: "10000 * k \<le> 10000 + W \<Longrightarrow> W \<le> D * 9999 \<Longrightarrow> 0 < D \<Longrightarrow> k \<le> D" for k W D :: int
  by linarith

lemma nearest_step:
  fixes m n p q r :: int
  assumes "2 * \<bar>m * 10000 - p * r\<bar> \<le> 10000" and "2 * \<bar>n * 10000 - q * r\<bar> \<le> 10000"
    and "p \<le> q" and "0 \<le> r" and "r \<le> 10000" and "p = q \<longrightarrow> m = n"
  shows "n - m \<le> q - p"
proof (cases "r = 10000 \<or> p = q")
  case True
  then show ?thesis using assms(1,2,6) by (auto simp: abs_if split: if_splits)
next
  case False
  then have d: "0 < q - p" and r: "r \<le> 9999" using assms(3,5) by auto
  have "(q - p) * r \<le> (q - p) * 9999" using d r by (intro mult_left_mono) auto
  then have "q * r - p * r \<le> (q - p) * 9999" by (simp add: left_diff_distrib)
  then show ?thesis by (rule step_arith [OF nearest_pair [OF assms(1,2)] _ d])
qed

lemma rate_applied:
  assumes "componentOk np p ci" and "ciKind ci = KindRate"
  obtains a where "applyRate p (ciRate ci) (Some roundHalfEven) = Inr a" "deductionOf p ci = amt a"
    "0 \<le> sint (bpValue (ciRate ci))" "sint (bpValue (ciRate ci)) \<le> 10000"
proof -
  from assms(1) obtain a where v: "validateComponentDomain ci = Inr ()" and a: "resolveComponent ci p = Inr a"
    by (auto simp: componentOk_def)
  from a assms(2) have "applyRate p (ciRate ci) (Some roundHalfEven) = Inr a"
    by (simp add: resolveComponent_def mapErr_Inr contributionRounder_def split: if_splits)
  with a v assms(2) show thesis by (intro that) (simp_all add: deductionOf_def validateComponentDomain_ok)
qed

lemma rate_deduction:
  assumes "componentOk np p ci" and "componentOk nq q ci" and "amt p \<le> amt q" and "sameUnit p q"
  shows "deductionOf q ci - deductionOf p ci \<le> amt q - amt p"
proof (cases "ciKind ci = KindRate")
  case False
  then show ?thesis using absolute_deduction [OF assms(1), of q] assms(3) by simp
next
  case True
  from rate_applied [OF assms(1) True] obtain a where
    a: "applyRate p (ciRate ci) (Some roundHalfEven) = Inr a" "deductionOf p ci = amt a"
    and r: "0 \<le> sint (bpValue (ciRate ci))" "sint (bpValue (ciRate ci)) \<le> 10000" .
  from rate_applied [OF assms(2) True] obtain b where
    b: "applyRate q (ciRate ci) (Some roundHalfEven) = Inr b" "deductionOf q ci = amt b" .
  have "amt p = amt q \<longrightarrow> amt a = amt b" using a(1) b(1) money_eqI [OF assms(4)] by auto
  then show ?thesis
    unfolding a(2) b(2)
    by (rule nearest_step [OF half_even.applyRate_nearest [OF a(1)] half_even.applyRate_nearest [OF b(1)]
        assms(3) r])
qed

lemma sum_deductions_absolute:
  "\<forall>ci \<in> set cis. componentOk np p ci \<and> ciKind ci \<noteq> KindRate \<Longrightarrow>
     sum_list (map (deductionOf q) cis) = sum_list (map (deductionOf p) cis)"
  by (rule arg_cong [of _ _ sum_list], rule map_cong) (use absolute_deduction in blast)+

lemma sum_deductions_step:
  "\<lbrakk>oneRate cis; \<forall>ci \<in> set cis. componentOk np p ci \<and> componentOk nq q ci; amt p \<le> amt q; sameUnit p q\<rbrakk>
    \<Longrightarrow> sum_list (map (deductionOf q) cis) - sum_list (map (deductionOf p) cis) \<le> amt q - amt p"
proof (induction cis)
  case Nil
  then show ?case by simp
next
  case (Cons ci cis)
  show ?case
  proof (cases "ciKind ci = KindRate")
    case True
    with Cons.prems(1) have "\<forall>c \<in> set cis. ciKind c \<noteq> KindRate"
      by (auto simp: oneRate_def filter_empty_conv)
    with sum_deductions_absolute [of cis np p q] rate_deduction [of np p ci nq q] Cons.prems
    show ?thesis by simp
  next
    case False
    have "oneRate cis" using Cons.prems(1) False by (simp add: oneRate_def)
    with Cons.IH Cons.prems(2-4) absolute_deduction [of np p ci q] False show ?thesis by simp
  qed
qed

lemma marginContribution_mono:
  assumes "oneRate (fst k)" and "marginContribution k p = Inr a" and "marginContribution k q = Inr b"
    and "sameUnit p q" and "amt p \<le> amt q"
  shows "amt a \<le> amt b"
proof -
  from assms(2,3) obtain c d where c: "contributionAt (fst k) (snd k) p = Inr c" "a = cbAmount c"
    and d: "contributionAt (fst k) (snd k) q = Inr d" "b = cbAmount d"
    by (auto simp: marginContribution_Inr)
  note okc = contribute_ok [OF c(1) [unfolded contributionAt_def]]
    and okd = contribute_ok [OF d(1) [unfolded contributionAt_def]]
  have "sum_list (map (deductionOf q) (fst k)) - sum_list (map (deductionOf p) (fst k)) \<le> amt q - amt p"
    using okc(1) okd(1) by (intro sum_deductions_step [OF assms(1) _ assms(5,4), of p q]) simp
  then show ?thesis using okc(4) okd(4) c(2) d(2) by simp
qed

interpretation margin: monotone_oracle marginContribution "\<lambda>k. oneRate (fst k)"
  by unfold_locales (rule marginContribution_mono)

text \<open>
  Further. With the margin engine as oracle and at most one rate component, a hard-floor block is
  complete: no price of the feasible window (boundary and movement cap) has a contribution that is
  positive and at or above the floor, although the evaluation tried at most two prices.
\<close>

theorem hard_floor_block_complete:
  assumes "oneRate comps" and "eiContribution inp = marginContribution (comps, rd)"
    and "evaluate inp = Inr r" and "StageHardFloor \<in> set (map bkStage (prBlockers r))"
    and "feasibleWindow (eiConfig inp) (eiCurrentPrice inp) = Inr (lo, hi)"
    and "sameUnit p lo" and "amt p \<le> amt hi"
  shows "\<not> (\<exists>c. contributionAt comps rd p = Inr c \<and> sameUnit (cbAmount c) (cfContributionFloor (eiConfig inp)) \<and>
      amt (cfContributionFloor (eiConfig inp)) \<le> amt (cbAmount c) \<and> 0 < amt (cbAmount c))"
  using margin.floor_block_complete [of "(comps, rd)", OF _ assms(2,3) _ assms(5-7)] assms(1,4)
  by (auto simp: acceptable_def marginContribution_Inr)

section \<open>The wire\<close>

lemma parse_wireMantissa: "parseWireMantissa (wireMantissa m) = Some m"
  using parseInt_formatInt [of 64 "sint m"] sint64_range [of m] by (simp add: parseWireMantissa_def wireMantissa_def)

lemma sint8_bounds: "sint (e :: int8) \<le> 127" "-128 \<le> sint (e :: int8)"
  using sint_greater_eq [of e] sint_lt [of e] by simp_all

text \<open>
  Further. A money amount written on the wire reads back as the same amount; the zero value and any other
  amount without a currency code are refused instead.
\<close>

theorem money_wire_roundtrip:
  "moneyFromGateway (moneyToGateway m) =
     (if validCurrency (currency m) then Inr m else Inl (ApiMoney ErrInvalidCurrency))"
  using sint8_bounds [of "exponent m"]
  by (simp add: moneyFromGateway_def moneyToGateway_def parse_wireMantissa newMoney_def)

lemma simulate_Inr:
  "simulate inp = Inr r \<longleftrightarrow> (\<exists>e. evaluate inp = Inr e \<and> r = e\<lparr>prSimulation := True\<rparr>)"
  by (auto simp: simulate_def andThen_Inr)

lemma wire_of_valid: "valid m \<Longrightarrow> moneyFromGateway (moneyToGateway m) = Inr m"
  using sint8_bounds [of "exponent m"]
  by (simp add: moneyFromGateway_def moneyToGateway_def parse_wireMantissa newMoney_def valid_def)

lemma sorted_stageRank: "sorted (map stageRank ss) = sorted ss"
  by (induction ss) (auto simp: less_eq_stage_def)

lemma toGatewayBlockers_order: "map biStageOrder (toGatewayBlockers bs) = map stageRank (map bkStage bs)"
  by (simp add: toGatewayBlockers_def)

text \<open>
  Further. What the endpoint answers: always a simulation without approval control, with either a proposal
  or blockers in stage order; the price and the contribution of a proposal read back from the wire
  to a price and to the margin engine's own positive contribution at that price.
\<close>

theorem simulation_answer:
  assumes "simulatePolicy t (Some body) = Inr res"
  shows "srSimulation res \<and> \<not> srApprovable res
    \<and> (srProposal res = None) = (srBlockers res \<noteq> []) \<and> sorted (map biStageOrder (srBlockers res))
    \<and> (case srProposal res of None \<Rightarrow> True | Some (pw, cw) \<Rightarrow>
        (\<exists>comps p c. componentsFromGateway (sqComponents body) = Inr comps \<and> moneyFromGateway pw = Inr p
           \<and> contributionAt comps (sqReadiness body) p = Inr c \<and> moneyFromGateway cw = Inr (cbAmount c)
           \<and> 0 < amt (cbAmount c)))"
proof -
  from assms obtain cur comps cfg base e where c: "componentsFromGateway (sqComponents body) = Inr comps"
    and e: "evaluate \<lparr>eiConfig = cfg, eiCurrentPrice = cur,
             eiContribution = marginContribution (comps, sqReadiness body),
             eiNow = (case sqNow body of None \<Rightarrow> t | Some n \<Rightarrow> n),
             eiLastActionAt = sqLastActionAt body, eiReadiness = sqReadiness body\<rparr> = Inr e"
    and res: "res = toGatewaySimulation (e\<lparr>prSimulation := True\<rparr>) base"
    by (auto simp: simulatePolicy_def andThen_Inr mapErr_Inr simulate_Inr)
  note x = evaluate_blockers [OF e]
  show ?thesis
  proof (cases "prProposed e")
    case None
    have "sorted (map biStageOrder (toGatewayBlockers (prBlockers e)))"
      using x by (simp only: toGatewayBlockers_order sorted_stageRank)
    with None show ?thesis using x res by (simp add: toGatewaySimulation_def toGatewayBlockers_def)
  next
    case (Some p)
    note safe = evaluate_proposal_contribution [OF e Some]
    then have v: "valid (ppPrice p)" "valid (ppContribution p)" by auto
    from safe have "marginContribution (comps, sqReadiness body) (ppPrice p) = Inr (ppContribution p)" by simp
    then obtain k where "contributionAt comps (sqReadiness body) (ppPrice p) = Inr k" "ppContribution p = cbAmount k"
      by (auto simp: marginContribution_Inr)
    with Some v c safe x res show ?thesis
      by (auto simp: toGatewaySimulation_def toGatewayBlockers_def wire_of_valid)
  qed
qed

section \<open>Evaluation at concrete requests\<close>

lemmas policy_eval =
  margin_eval evaluate_def evaluateStages_def evaluateWindow_def feasibleWindow_def strategyDesired_def
  objectivePreferred_def clamp_def resolveFloor_def classifyFloor_def hardFloorBlocker_def
  callOracle_def cooldownBlocker_def maxMoney_def minMoney_def blocked_def ordered_def liftMoney_def
  zeroOf_def newMoney_def validateConfig_def validateCap_def validateCooldown_def
  validateStrategy_def validateObjective_def validateStrategyParams_def movementCapMaxBp_def
  defaultCooldown_def marginContribution_def contributionAt_def irr_def newBasisPoints_def

definition demoConfig :: config where
  "demoConfig =
     \<lparr>cfBoundary = \<lparr>bdKnown = True, bdMin = irr 90, bdMax = irr 102\<rparr>, cfContributionFloor = irr 1,
      cfMovementCap = newBasisPoints 500, cfCooldown = hour, cfStrategy = StrategyHold,
      cfStrategyEnabled = True, cfReference = zeroMoney, cfUndercutBp = newBasisPoints 0,
      cfObjective = ObjectiveTrackStrategy\<rparr>"

definition demoRate :: "component \<Rightarrow> int64 \<Rightarrow> component_input" where
  "demoRate c bp = \<lparr>ciComponent = c, ciKind = KindRate, ciAmount = zeroMoney, ciRate = newBasisPoints bp, ciVersion = 1\<rparr>"

definition demoCost :: "component \<Rightarrow> int64 \<Rightarrow> component_input" where
  "demoCost c v = \<lparr>ciComponent = c, ciKind = KindAbsolute, ciAmount = irr v, ciRate = newBasisPoints 0, ciVersion = 1\<rparr>"

definition demoInput :: "component_input list \<Rightarrow> margin_error evaluate_input" where
  "demoInput comps =
     \<lparr>eiConfig = demoConfig, eiCurrentPrice = irr 100,
      eiContribution = marginContribution (comps, StateComplete), eiNow = 0, eiLastActionAt = None,
      eiReadiness = StateComplete\<rparr>"

lemmas demo_defs = demoConfig_def demoRate_def demoCost_def demoInput_def

lemma demo_proposal:
  "evaluate (demoInput [demoCost ComponentCOGS 50, demoRate ComponentCommission 3000]) =
     Inr \<lparr>prProposed = Some \<lparr>ppPrice = irr 100, ppContribution = irr 20\<rparr>, prBlockers = [],
          prSimulation = False, prReadiness = StateComplete\<rparr>"
  by (simp add: demo_defs policy_eval)

theorem proposal_safe_witness:
  "\<exists>r p. evaluate (demoInput [demoCost ComponentCOGS 50, demoRate ComponentCommission 3000]) = Inr r \<and>
     prProposed r = Some p \<and> 0 < amt (ppContribution p) \<and> approvable r"
proof -
  let ?i = "demoInput [demoCost ComponentCOGS 50, demoRate ComponentCommission 3000]"
  obtain r p where r: "evaluate ?i = Inr r" "prProposed r = Some p" by (auto simp: demo_proposal)
  with proposal_safe [OF r refl refl] show ?thesis
    by (intro exI [of _ r] exI [of _ p]) (simp add: demoInput_def)
qed

definition demoTwoRates :: "component_input list" where
  "demoTwoRates = [demoCost ComponentCOGS 40, demoRate ComponentCommission 3000, demoRate ComponentFulfillment 3000]"

lemma demo_blocked:
  "evaluate (demoInput demoTwoRates) =
     Inr \<lparr>prProposed = None, prBlockers = [hardFloorBlocker True True], prSimulation = False,
          prReadiness = StateComplete\<rparr>"
  by (simp add: demo_defs demoTwoRates_def policy_eval)

theorem proposal_xor_blockers_witness:
  "\<exists>r. evaluate (demoInput demoTwoRates) = Inr r \<and> prProposed r = None \<and> prBlockers r \<noteq> []"
  using proposal_xor_blockers [OF demo_blocked] by (simp add: demo_blocked)

theorem strategy_cannot_clear_hard_blocker_witness:
  "evaluate ((demoInput demoTwoRates)\<lparr>eiConfig := demoConfig\<lparr>cfStrategyEnabled := False\<rparr>\<rparr>) =
     Inr \<lparr>prProposed = None, prBlockers = [hardFloorBlocker True True], prSimulation = False,
          prReadiness = StateComplete\<rparr>"
  using strategy_cannot_clear_hard_blocker [OF demo_blocked, of False]
  by (simp add: hardFloorBlocker_def demoInput_def)

definition demoLoss :: "component_input list" where
  "demoLoss = [demoCost ComponentCOGS 90, demoRate ComponentCommission 3000]"

lemma demo_loss_blocked:
  "evaluate (demoInput demoLoss) =
     Inr \<lparr>prProposed = None, prBlockers = [hardFloorBlocker True True], prSimulation = False,
          prReadiness = StateComplete\<rparr>"
  by (simp add: demo_defs demoLoss_def policy_eval)

lemma demo_window: "feasibleWindow demoConfig (irr 100) = Inr (irr 95, irr 102)"
  by (simp add: demo_defs policy_eval)

theorem hard_floor_block_complete_witness:
  "\<not> (\<exists>c. contributionAt demoLoss StateComplete (irr 101) = Inr c \<and> sameUnit (cbAmount c) (irr 1) \<and>
      1 \<le> amt (cbAmount c) \<and> 0 < amt (cbAmount c))"
proof -
  have "\<not> (\<exists>c. contributionAt demoLoss StateComplete (irr 101) = Inr c \<and>
      sameUnit (cbAmount c) (cfContributionFloor (eiConfig (demoInput demoLoss))) \<and>
      amt (cfContributionFloor (eiConfig (demoInput demoLoss))) \<le> amt (cbAmount c) \<and> 0 < amt (cbAmount c))"
  proof (rule hard_floor_block_complete [OF _ _ demo_loss_blocked])
    show "feasibleWindow (eiConfig (demoInput demoLoss)) (eiCurrentPrice (demoInput demoLoss)) = Inr (irr 95, irr 102)"
      using demo_window by (simp add: demoInput_def)
  qed (simp_all add: oneRate_def demoLoss_def demoCost_def demoRate_def demoInput_def hardFloorBlocker_def
      sameUnit_def irr_def valid_def)
  then show ?thesis by (simp add: demoInput_def demoConfig_def irr_def)
qed

text \<open>
  Further. With two rate components the block is not complete: rounding each rate separately makes the
  contribution drop from 1 to 0 between the prices 101 and 102, and the evaluation reports that no
  feasible price keeps the contribution above zero although 101 lies in the window and does.
\<close>

theorem two_rates_hide_a_price:
  "(\<exists>r. evaluate (demoInput demoTwoRates) = Inr r \<and> prProposed r = None \<and>
        map bkCode (prBlockers r) = [BlockerCrossesZero]) \<and>
   feasibleWindow demoConfig (irr 100) = Inr (irr 95, irr 102) \<and>
   marginContribution (demoTwoRates, StateComplete) (irr 101) = Inr (irr 1) \<and>
   cfContributionFloor demoConfig = irr 1"
proof -
  have "marginContribution (demoTwoRates, StateComplete) (irr 101) = Inr (irr 1)"
    by (simp add: demo_defs demoTwoRates_def policy_eval)
  moreover have "cfContributionFloor demoConfig = irr 1" by (simp add: demoConfig_def)
  ultimately show ?thesis by (simp add: demo_blocked demo_window hardFloorBlocker_def)
qed

definition demoAmount :: "int64 \<Rightarrow> money_amount" where
  "demoAmount v = moneyToGateway (irr v)"

definition demoRequest :: simulation_request where
  "demoRequest =
     \<lparr>sqComponents =
        [\<lparr>itComponent = ''cogs'', itKind = ''absolute'', itAmount = Some (demoAmount 50),
          itRateBasisPoints = None, itVersion = None\<rparr>,
         \<lparr>itComponent = ''commission'', itKind = ''rate'', itAmount = None,
          itRateBasisPoints = Some 3000, itVersion = None\<rparr>],
      sqConfig = \<lparr>pcBoundaryKnown = True, pcBoundaryMin = Some (demoAmount 90),
        pcBoundaryMax = Some (demoAmount 102), pcContributionFloor = demoAmount 1,
        pcCooldownSeconds = None, pcMovementCapBasisPoints = None, pcObjective = ''track_strategy'',
        pcReference = None, pcStrategy = ''hold'', pcStrategyEnabled = True, pcUndercutBasisPoints = None\<rparr>,
      sqCurrentPrice = demoAmount 100, sqLastActionAt = None, sqNow = None, sqReadiness = StateComplete\<rparr>"

lemma demo_amount: "moneyFromGateway (demoAmount v) = Inr (irr v)"
  by (simp add: demoAmount_def wire_of_valid irr_def valid_def)

lemma demo_answer: "\<exists>res. simulatePolicy 0 (Some demoRequest) = Inr res"
proof -
  have c: "componentsFromGateway (sqComponents demoRequest)
      = Inr [(demoCost ComponentCOGS 50)\<lparr>ciVersion := 0\<rparr>, (demoRate ComponentCommission 3000)\<lparr>ciVersion := 0\<rparr>]"
    by (simp add: demoRequest_def componentFromGateway_def componentOf_def allComponents_def
        componentValid_def component_class_defs absoluteItem_def rateItem_def demo_amount
        demoCost_def demoRate_def irr_def minRateBasisPoints_def maxRateBasisPoints_def
        basisPointScale_def word_sless_alt)
  have g: "configFromGateway (sqConfig demoRequest) = Inr demoConfig"
    by (simp add: demoRequest_def configFromGateway_def optionalMoney_def demo_amount newConfig_def
        defaultMovementCap_def strategyOf_def objectiveOf_def demo_defs policy_eval)
  show ?thesis
    using c g
    by (simp add: simulatePolicy_def demo_amount simulate_def)
      (simp add: demoRequest_def demo_amount demo_defs policy_eval)
qed

theorem simulation_answer_witness:
  "\<exists>res. simulatePolicy 0 (Some demoRequest) = Inr res \<and> srSimulation res \<and> \<not> srApprovable res"
  using demo_answer simulation_answer [of 0 demoRequest] by blast

text \<open>
  Further. The cooldown a request asks for is taken modulo 2 to the 64 nanoseconds: a request for
  18446747674 seconds (584 years) is accepted and configures a cooldown of 1 hour and 290448384 ns.
\<close>

theorem cooldown_request_wraps:
  "map_option cfCooldown (case configFromGateway ((sqConfig demoRequest)\<lparr>pcCooldownSeconds := Some 18446747674\<rparr>)
     of Inr c \<Rightarrow> Some c | Inl _ \<Rightarrow> None) = Some (hour + 290448384)"
  by (simp add: demoRequest_def configFromGateway_def optionalMoney_def demo_amount newConfig_def
      defaultMovementCap_def strategyOf_def objectiveOf_def secondsDuration_def demo_defs policy_eval)

end
