(* ===== verification/Approval.thy ===== *)
theory Approval
  imports Money "HOL-Library.Finite_Map"
begin

text \<open>
  The approval package (services/core/internal/approval): the state machine (state.go), the version
  binding of a control (binding.go), the immutable approval card and its operations (card.go) and
  the two per-state decision tables (authorized.go).  \<open>lifecycle\<close> is the step relation of a card under
  those operations; its invariants say what must have happened before a card executes.
\<close>

section \<open>The state machine (state.go, errors.go)\<close>

datatype approval_error =
  ErrUnknownState | ErrUndefinedTransition | ErrInvalidated | ErrNoControl

datatype state =
  StateDraft | StateReadyForReview | StateBlocked | StateAwaitingConfirmation | StateApproved
| StateExpired | StateInvalidated | StateRevalidating | StateExecuting | StateAccepted
| StateRejected | StatePendingReconciliation | StateFailed | StateUnknown string

definition allStates :: "state list" where
  "allStates =
     [StateDraft, StateReadyForReview, StateBlocked, StateAwaitingConfirmation, StateApproved,
      StateExpired, StateInvalidated, StateRevalidating, StateExecuting, StateAccepted,
      StateRejected, StatePendingReconciliation, StateFailed]"

definition stateValid :: "state \<Rightarrow> bool" where
  "stateValid s \<longleftrightarrow> s \<in> set allStates"

definition transitions :: "(state \<times> state) list" where
  "transitions =
     [(StateDraft, StateReadyForReview),
      (StateDraft, StateBlocked),
      (StateReadyForReview, StateAwaitingConfirmation),
      (StateAwaitingConfirmation, StateApproved),
      (StateAwaitingConfirmation, StateExpired),
      (StateAwaitingConfirmation, StateInvalidated),
      (StateApproved, StateRevalidating),
      (StateRevalidating, StateExecuting),
      (StateRevalidating, StateInvalidated),
      (StateExecuting, StateAccepted),
      (StateExecuting, StateRejected),
      (StateExecuting, StatePendingReconciliation),
      (StateExecuting, StateFailed),
      (StatePendingReconciliation, StateAccepted),
      (StatePendingReconciliation, StateFailed),
      (StateInvalidated, StateDraft)]"

definition canTransition :: "state \<Rightarrow> state \<Rightarrow> bool" where
  "canTransition s t \<longleftrightarrow> (s, t) \<in> set transitions"

definition terminal :: "state \<Rightarrow> bool" where
  "terminal s \<longleftrightarrow> stateValid s \<and> list_all (\<lambda>tr. fst tr \<noteq> s) transitions"

definition advance :: "state \<Rightarrow> state \<Rightarrow> (approval_error, unit) result" where
  "advance s t =
     (if \<not> stateValid s \<or> \<not> stateValid t then Inl ErrUnknownState
      else if \<not> canTransition s t then Inl ErrUndefinedTransition
      else Inr ())"

section \<open>The version binding (binding.go)\<close>

record binding =
  bnActionID :: uuid
  bnParameterVersion :: int64
  bnContextVersion :: int64
  bnPolicyVersion :: int64
  bnCostProfileVersion :: int64
  bnEvidenceVersions :: "(uuid, int64) fmap"
  bnExpiry :: instant

datatype invalidation_reason =
  ReasonNone | ReasonActionMismatch | ReasonParameterChanged | ReasonContextChanged
| ReasonPolicyChanged | ReasonCostChanged | ReasonEvidenceChanged | ReasonExpired

text \<open>\<open>UUID.String\<close> is code of another module: it is the argument \<open>uuidStr\<close>.\<close>

definition idempotencyKey :: "(uuid \<Rightarrow> string) \<Rightarrow> binding \<Rightarrow> string" where
  "idempotencyKey uuidStr b =
     ''action:'' @ uuidStr (bnActionID b) @ '':pv:'' @ formatInt (sint (bnParameterVersion b))"

definition expired :: "binding \<Rightarrow> instant \<Rightarrow> bool" where
  "expired b now \<longleftrightarrow> \<not> now < bnExpiry b"

definition evidenceChanged :: "(uuid, int64) fmap \<Rightarrow> (uuid, int64) fmap \<Rightarrow> bool" where
  "evidenceChanged bound current \<longleftrightarrow>
     fcard (fmdom bound) \<noteq> fcard (fmdom current) \<or>
     \<not> fmpred (\<lambda>i v. fmlookup current i = Some v) bound"

definition validateAgainst :: "binding \<Rightarrow> binding \<Rightarrow> instant \<Rightarrow> invalidation_reason" where
  "validateAgainst b current now =
     (if expired b now then ReasonExpired
      else if bnActionID b \<noteq> bnActionID current then ReasonActionMismatch
      else if bnParameterVersion b \<noteq> bnParameterVersion current then ReasonParameterChanged
      else if bnContextVersion b \<noteq> bnContextVersion current then ReasonContextChanged
      else if bnPolicyVersion b \<noteq> bnPolicyVersion current then ReasonPolicyChanged
      else if bnCostProfileVersion b \<noteq> bnCostProfileVersion current then ReasonCostChanged
      else if evidenceChanged (bnEvidenceVersions b) (bnEvidenceVersions current) then ReasonEvidenceChanged
      else ReasonNone)"

definition bindingValid :: "binding \<Rightarrow> binding \<Rightarrow> instant \<Rightarrow> bool" where
  "bindingValid b current now \<longleftrightarrow> validateAgainst b current now = ReasonNone"

text \<open>A copy of a Go map is the same finite map; nil and empty are not distinguished.\<close>

definition cloneEvidence :: "(uuid, int64) fmap \<Rightarrow> (uuid, int64) fmap" where
  "cloneEvidence src = (if fcard (fmdom src) = 0 then fmempty else fmfilter (\<lambda>_. True) src)"

section \<open>The approval card (card.go)\<close>

record card =
  cdID :: uuid
  cdRecommendationID :: uuid
  cdVersion :: int64
  cdState :: state
  cdBinding :: binding
  cdPrice :: money
  cdSimulation :: bool

record control =
  ctCardID :: uuid
  ctRecommendationID :: uuid
  ctCardVersion :: int64
  ctBinding :: binding
  ctIdempotencyKey :: string

definition newDraft :: "uuid \<Rightarrow> uuid \<Rightarrow> int64 \<Rightarrow> binding \<Rightarrow> money \<Rightarrow> bool \<Rightarrow> card" where
  "newDraft i recommendationID version b price simulation =
     \<lparr>cdID = i, cdRecommendationID = recommendationID, cdVersion = version, cdState = StateDraft,
      cdBinding = b\<lparr>bnEvidenceVersions := cloneEvidence (bnEvidenceVersions b)\<rparr>,
      cdPrice = price, cdSimulation = simulation\<rparr>"

definition withState :: "card \<Rightarrow> state \<Rightarrow> (approval_error, card) result" where
  "withState c t = andThen (advance (cdState c) t) (\<lambda>_. Inr (c\<lparr>cdState := t\<rparr>))"

definition ready :: "card \<Rightarrow> (approval_error, card) result" where
  "ready c = withState c StateReadyForReview"

definition block :: "card \<Rightarrow> (approval_error, card) result" where
  "block c = withState c StateBlocked"

definition openCard :: "card \<Rightarrow> (approval_error, card) result" where
  "openCard c = withState c StateAwaitingConfirmation"

definition controlOf :: "(uuid \<Rightarrow> string) \<Rightarrow> card \<Rightarrow> (approval_error, control) result" where
  "controlOf uuidStr c =
     (if cdSimulation c then Inl ErrNoControl
      else if cdState c \<noteq> StateAwaitingConfirmation then Inl ErrNoControl
      else Inr \<lparr>ctCardID = cdID c, ctRecommendationID = cdRecommendationID c,
                ctCardVersion = cdVersion c, ctBinding = cdBinding c,
                ctIdempotencyKey = idempotencyKey uuidStr (cdBinding c)\<rparr>)"

definition confirm ::
  "card \<Rightarrow> binding \<Rightarrow> instant \<Rightarrow> (approval_error, card \<times> invalidation_reason) result" where
  "confirm c current now =
     (if cdSimulation c then Inl ErrNoControl
      else if cdState c \<noteq> StateAwaitingConfirmation then Inl ErrNoControl
      else
        (let reason = validateAgainst (cdBinding c) current now in
         case reason of
           ReasonNone \<Rightarrow> andThen (withState c StateApproved) (\<lambda>n. Inr (n, ReasonNone))
         | ReasonExpired \<Rightarrow> andThen (withState c StateExpired) (\<lambda>n. Inr (n, ReasonExpired))
         | _ \<Rightarrow> andThen (withState c StateInvalidated) (\<lambda>n. Inr (n, reason))))"

definition editPrice :: "card \<Rightarrow> money \<Rightarrow> int64 \<Rightarrow> int64 \<Rightarrow> instant \<Rightarrow> card" where
  "editPrice c newPrice nextCardVersion nextParameterVersion newExpiry =
     \<lparr>cdID = cdID c, cdRecommendationID = cdRecommendationID c, cdVersion = nextCardVersion,
      cdState = StateDraft,
      cdBinding = (cdBinding c)\<lparr>bnParameterVersion := nextParameterVersion, bnExpiry := newExpiry,
        bnEvidenceVersions := cloneEvidence (bnEvidenceVersions (cdBinding c))\<rparr>,
      cdPrice = newPrice, cdSimulation = cdSimulation c\<rparr>"

definition beginRevalidation :: "card \<Rightarrow> (approval_error, card) result" where
  "beginRevalidation c = withState c StateRevalidating"

definition invalidate :: "card \<Rightarrow> (approval_error, card) result" where
  "invalidate c = withState c StateInvalidated"

definition recalculate :: "card \<Rightarrow> (approval_error, card) result" where
  "recalculate c = withState c StateDraft"

definition revalidate ::
  "card \<Rightarrow> binding \<Rightarrow> instant \<Rightarrow> (approval_error, card \<times> invalidation_reason \<times> bool) result" where
  "revalidate c current now =
     (if cdSimulation c then Inl ErrNoControl
      else if cdState c \<noteq> StateRevalidating then Inl ErrNoControl
      else
        (let reason = validateAgainst (cdBinding c) current now in
         if reason = ReasonNone
         then andThen (withState c StateExecuting) (\<lambda>n. Inr (n, ReasonNone, True))
         else andThen (withState c StateInvalidated) (\<lambda>n. Inr (n, reason, False))))"

section \<open>Sealed and pending authorizations (authorized.go)\<close>

definition authorizedStates :: "state \<rightharpoonup> bool" where
  "authorizedStates =
     [StateDraft \<mapsto> False, StateReadyForReview \<mapsto> False, StateAwaitingConfirmation \<mapsto> False,
      StateBlocked \<mapsto> False, StateExpired \<mapsto> False, StateInvalidated \<mapsto> False,
      StateApproved \<mapsto> True, StateRevalidating \<mapsto> True, StateExecuting \<mapsto> True,
      StateAccepted \<mapsto> True, StateRejected \<mapsto> True, StatePendingReconciliation \<mapsto> True,
      StateFailed \<mapsto> True]"

definition stateHasAuthorized :: "state \<Rightarrow> bool" where
  "stateHasAuthorized s = (case authorizedStates s of None \<Rightarrow> False | Some b \<Rightarrow> b)"

definition pendingExecutionStates :: "state \<rightharpoonup> bool" where
  "pendingExecutionStates =
     [StateDraft \<mapsto> False, StateReadyForReview \<mapsto> False, StateAwaitingConfirmation \<mapsto> False,
      StateBlocked \<mapsto> False, StateExpired \<mapsto> False, StateInvalidated \<mapsto> False,
      StateApproved \<mapsto> True, StateRevalidating \<mapsto> True, StateExecuting \<mapsto> True,
      StateAccepted \<mapsto> False, StateRejected \<mapsto> False, StatePendingReconciliation \<mapsto> False,
      StateFailed \<mapsto> False]"

definition stateHasPendingExecution :: "state \<Rightarrow> bool" where
  "stateHasPendingExecution s = (case pendingExecutionStates s of None \<Rightarrow> False | Some b \<Rightarrow> b)"

section \<open>Facts about the machine\<close>

lemma advance_ok [result_simps]: "advance s t = Inr u \<longleftrightarrow> canTransition s t"
  by (auto simp: advance_def canTransition_def transitions_def stateValid_def allStates_def)

lemma withState_ok [result_simps]:
  "withState c t = Inr d \<longleftrightarrow> canTransition (cdState c) t \<and> d = c\<lparr>cdState := t\<rparr>"
  by (auto simp: withState_def andThen_Inr advance_ok)

lemma fmap_subset_card:
  assumes "fcard (fmdom m) = fcard (fmdom n)" and "fmpred (\<lambda>i v. fmlookup n i = Some v) m"
  shows "m = n"
proof -
  have sub: "fmlookup m i = Some v \<Longrightarrow> fmlookup n i = Some v" for i v
    using assms(2) by (auto simp: fmpred_iff)
  have "fmdom m |\<subseteq>| fmdom n" using sub by (fastforce simp: fmlookup_dom_iff)
  then have dom: "fmdom m = fmdom n"
    using assms(1) by (metis pfsubset_fcard_mono less_irrefl fsubset_antisym pfsubsetI fsubset_not_fsubset_eq)
  show ?thesis
  proof (rule fmap_ext)
    fix i
    show "fmlookup m i = fmlookup n i"
    proof (cases "fmlookup m i")
      case None
      then have "i |\<notin>| fmdom n" using dom by (simp add: fmdom_notI flip: dom)
      then show ?thesis using None by (simp add: fmdom_notD)
    next
      case (Some v)
      then show ?thesis using sub by simp
    qed
  qed
qed

lemma evidenceChanged_iff [simp]: "evidenceChanged m n \<longleftrightarrow> m \<noteq> n"
  using fmap_subset_card [of m n] by (auto simp: evidenceChanged_def fmpred_iff)

lemma cloneEvidence_id [simp]: "cloneEvidence m = m"
proof (rule fmap_ext)
  fix i
  show "fmlookup (cloneEvidence m) i = fmlookup m i"
    using fmdom_notD [of i m] by (auto simp: cloneEvidence_def)
qed

lemma validateAgainst_None:
  "validateAgainst b current now = ReasonNone \<longleftrightarrow>
     now < bnExpiry b \<and> current\<lparr>bnExpiry := bnExpiry b\<rparr> = b"
  by (cases b; cases current) (auto simp: validateAgainst_def expired_def)

lemma validateAgainst_Expired: "validateAgainst b current now = ReasonExpired \<longleftrightarrow> bnExpiry b \<le> now"
  by (auto simp: validateAgainst_def expired_def)

section \<open>The life of a card\<close>

text \<open>
  The operations that produce the next value of a card, labelled.  The four result moves are made
  by the execution service through \<open>Advance\<close>.
\<close>

datatype card_event =
  EvReady | EvBlock | EvOpen | EvConfirm binding instant | EvEdit | EvBeginRevalidation
| EvRevalidate binding instant | EvInvalidate | EvRecalculate | EvResult state

inductive cardStep :: "card \<Rightarrow> card_event \<Rightarrow> card \<Rightarrow> bool" where
  step_ready: "ready c = Inr d \<Longrightarrow> cardStep c EvReady d"
| step_block: "block c = Inr d \<Longrightarrow> cardStep c EvBlock d"
| step_open: "openCard c = Inr d \<Longrightarrow> cardStep c EvOpen d"
| step_confirm: "confirm c current now = Inr (d, reason) \<Longrightarrow> cardStep c (EvConfirm current now) d"
| step_edit: "editPrice c price cv pv expiry = d \<Longrightarrow> cardStep c EvEdit d"
| step_begin: "beginRevalidation c = Inr d \<Longrightarrow> cardStep c EvBeginRevalidation d"
| step_revalidate:
    "revalidate c current now = Inr (d, reason, okay) \<Longrightarrow> cardStep c (EvRevalidate current now) d"
| step_invalidate: "invalidate c = Inr d \<Longrightarrow> cardStep c EvInvalidate d"
| step_recalculate: "recalculate c = Inr d \<Longrightarrow> cardStep c EvRecalculate d"
| step_result:
    "t \<in> {StateAccepted, StateRejected, StatePendingReconciliation, StateFailed} \<Longrightarrow>
      withState c t = Inr d \<Longrightarrow> cardStep c (EvResult t) d"

inductive_cases cardStepE: "cardStep c e d"

text \<open>The events that led from a fresh draft to a card, the latest first.\<close>

inductive lifecycle :: "card_event list \<Rightarrow> card \<Rightarrow> bool" where
  fresh: "lifecycle [] (newDraft i rid v b price sim)"
| step: "lifecycle es c \<Longrightarrow> cardStep c e d \<Longrightarrow> lifecycle (e # es) d"

text \<open>
  Scanning back from the latest event: was the control confirmed (and later revalidated) against
  the binding the card still has, with no price edit or recalculation since?
\<close>

fun confirmedIn :: "binding \<Rightarrow> card_event list \<Rightarrow> bool" where
  "confirmedIn b [] = False"
| "confirmedIn b (EvConfirm current now # es) = (now < bnExpiry b \<and> current\<lparr>bnExpiry := bnExpiry b\<rparr> = b)"
| "confirmedIn b (EvEdit # es) = False"
| "confirmedIn b (EvRecalculate # es) = False"
| "confirmedIn b (EvInvalidate # es) = False"
| "confirmedIn b (_ # es) = confirmedIn b es"

fun revalidatedIn :: "binding \<Rightarrow> card_event list \<Rightarrow> bool" where
  "revalidatedIn b [] = False"
| "revalidatedIn b (EvRevalidate current now # es) =
     (now < bnExpiry b \<and> current\<lparr>bnExpiry := bnExpiry b\<rparr> = b \<and> confirmedIn b es)"
| "revalidatedIn b (EvResult _ # es) = revalidatedIn b es"
| "revalidatedIn b (_ # es) = False"

definition cardInvariant :: "card_event list \<Rightarrow> card \<Rightarrow> bool" where
  "cardInvariant es c \<longleftrightarrow>
     stateValid (cdState c) \<and>
     (stateHasAuthorized (cdState c) \<longrightarrow> \<not> cdSimulation c \<and> confirmedIn (cdBinding c) es) \<and>
     (stateHasAuthorized (cdState c) \<and> cdState c \<notin> {StateApproved, StateRevalidating} \<longrightarrow>
        revalidatedIn (cdBinding c) es)"

lemma stateHasAuthorized_iff:
  "stateHasAuthorized s \<longleftrightarrow>
     s \<in> {StateApproved, StateRevalidating, StateExecuting, StateAccepted, StateRejected,
          StatePendingReconciliation, StateFailed}"
  by (cases s) (simp_all add: stateHasAuthorized_def authorizedStates_def)

lemma stateHasPendingExecution_iff:
  "stateHasPendingExecution s \<longleftrightarrow> s \<in> {StateApproved, StateRevalidating, StateExecuting}"
  by (cases s) (simp_all add: stateHasPendingExecution_def pendingExecutionStates_def)

lemma stateValid_iff: "stateValid s \<longleftrightarrow> (\<forall>x. s \<noteq> StateUnknown x)"
  by (cases s) (simp_all add: stateValid_def allStates_def)

lemma canTransition_into:
  "canTransition s StateReadyForReview \<longleftrightarrow> s = StateDraft"
  "canTransition s StateBlocked \<longleftrightarrow> s = StateDraft"
  "canTransition s StateAwaitingConfirmation \<longleftrightarrow> s = StateReadyForReview"
  "canTransition s StateRevalidating \<longleftrightarrow> s = StateApproved"
  "canTransition s StateInvalidated \<longleftrightarrow> s = StateAwaitingConfirmation \<or> s = StateRevalidating"
  "canTransition s StateDraft \<longleftrightarrow> s = StateInvalidated"
  "canTransition s StateAccepted \<longleftrightarrow> s = StateExecuting \<or> s = StatePendingReconciliation"
  "canTransition s StateRejected \<longleftrightarrow> s = StateExecuting"
  "canTransition s StatePendingReconciliation \<longleftrightarrow> s = StateExecuting"
  "canTransition s StateFailed \<longleftrightarrow> s = StateExecuting \<or> s = StatePendingReconciliation"
  by (auto simp: canTransition_def transitions_def)

lemmas card_ops =
  ready_def block_def openCard_def beginRevalidation_def invalidate_def recalculate_def withState_ok
  canTransition_into

lemma confirm_ok:
  "confirm c current now = Inr (d, reason) \<longleftrightarrow>
     \<not> cdSimulation c \<and> cdState c = StateAwaitingConfirmation \<and>
     reason = validateAgainst (cdBinding c) current now \<and>
     d = c\<lparr>cdState := (if reason = ReasonNone then StateApproved
                       else if reason = ReasonExpired then StateExpired else StateInvalidated)\<rparr>"
  by (cases "validateAgainst (cdBinding c) current now")
    (auto simp: confirm_def Let_def andThen_Inr withState_ok canTransition_def transitions_def)

lemma revalidate_ok:
  "revalidate c current now = Inr (d, reason, okay) \<longleftrightarrow>
     \<not> cdSimulation c \<and> cdState c = StateRevalidating \<and>
     reason = validateAgainst (cdBinding c) current now \<and> okay = (reason = ReasonNone) \<and>
     d = c\<lparr>cdState := (if reason = ReasonNone then StateExecuting else StateInvalidated)\<rparr>"
  by (auto simp: revalidate_def Let_def andThen_Inr withState_ok canTransition_def transitions_def)

lemma cardStep_invariant:
  assumes "cardStep c e d" and "cardInvariant es c"
  shows "cardInvariant (e # es) d"
  using assms
proof (cases rule: cardStep.cases)
  case (step_confirm current now reason)
  then show ?thesis
    by (auto simp: confirm_ok cardInvariant_def stateHasAuthorized_iff stateValid_iff validateAgainst_None)
next
  case (step_revalidate current now reason okay)
  then show ?thesis using assms(2)
    by (auto simp: revalidate_ok cardInvariant_def stateHasAuthorized_iff stateValid_iff validateAgainst_None)
next
  case step_edit
  then show ?thesis
    by (auto simp: editPrice_def cardInvariant_def stateHasAuthorized_iff stateValid_iff)
next
  case (step_result t)
  from step_result(3) have "canTransition (cdState c) t" and d: "d = c\<lparr>cdState := t\<rparr>"
    by (simp_all add: withState_ok)
  with step_result(2) have "cdState c = StateExecuting \<or> cdState c = StatePendingReconciliation"
    by (auto simp: canTransition_into)
  then have "revalidatedIn (cdBinding c) es \<and> confirmedIn (cdBinding c) es \<and> \<not> cdSimulation c"
    using assms(2) by (auto simp: cardInvariant_def stateHasAuthorized_iff)
  moreover have "stateValid t" using step_result(2) by (auto simp: stateValid_iff)
  ultimately show ?thesis unfolding d step_result(1) by (simp add: cardInvariant_def)
next
  case step_begin
  then show ?thesis using assms(2)
    by (simp add: card_ops cardInvariant_def stateHasAuthorized_iff stateValid_iff)
qed (simp_all add: card_ops cardInvariant_def stateHasAuthorized_iff stateValid_iff)

lemma lifecycle_invariant: "lifecycle es c \<Longrightarrow> cardInvariant es c"
proof (induction rule: lifecycle.induct)
  case (fresh i rid v b price sim)
  then show ?case by (simp add: cardInvariant_def newDraft_def stateHasAuthorized_iff stateValid_iff)
next
  case (step es c e d)
  then show ?case by (blast intro: cardStep_invariant)
qed

section \<open>Properties\<close>

text \<open>
  C3. Nothing executes without approval: a card that is executing or has an external result is not a
  simulation, its control was confirmed before expiry against exactly the versions the card is still
  bound to, and after that, with no price edit, invalidation or recalculation in between, it was
  revalidated before expiry against the same versions.
\<close>

theorem executing_was_approved:
  assumes "lifecycle es c"
    and "cdState c \<in> {StateExecuting, StateAccepted, StateRejected, StatePendingReconciliation, StateFailed}"
  shows "\<not> cdSimulation c \<and> confirmedIn (cdBinding c) es \<and> revalidatedIn (cdBinding c) es"
  using lifecycle_invariant [OF assms(1)] assms(2)
  by (auto simp: cardInvariant_def stateHasAuthorized_iff)

text \<open>
  Further. Confirmation: only a non-simulation card awaiting confirmation can be confirmed; it becomes
  approved exactly when the control is unexpired and every bound dimension equals the current one,
  expired when the expiry is reached, and invalidated otherwise; nothing but the state changes.
\<close>

theorem confirm_decides:
  "confirm c current now =
     (if \<not> (\<not> cdSimulation c \<and> cdState c = StateAwaitingConfirmation) then Inl ErrNoControl
      else if bnExpiry (cdBinding c) \<le> now then Inr (c\<lparr>cdState := StateExpired\<rparr>, ReasonExpired)
      else if current\<lparr>bnExpiry := bnExpiry (cdBinding c)\<rparr> = cdBinding c
      then Inr (c\<lparr>cdState := StateApproved\<rparr>, ReasonNone)
      else Inr (c\<lparr>cdState := StateInvalidated\<rparr>, validateAgainst (cdBinding c) current now))"
proof (cases "cdSimulation c \<or> cdState c \<noteq> StateAwaitingConfirmation")
  case True
  then show ?thesis by (auto simp: confirm_def)
next
  case False
  then show ?thesis
    using confirm_ok [of c current now] validateAgainst_None [of "cdBinding c" current now]
      validateAgainst_Expired [of "cdBinding c" current now]
    by (auto simp: not_le)
qed

text \<open>
  Further. A price edit mints a draft under the new price and parameter version whatever the state was, and
  a control bound to the old parameter version is refused against it for good.
\<close>

theorem edit_invalidates_old_control:
  assumes "pv \<noteq> bnParameterVersion (cdBinding c)"
  shows "cdState (editPrice c price cv pv expiry) = StateDraft
    \<and> cdPrice (editPrice c price cv pv expiry) = price
    \<and> cdVersion (editPrice c price cv pv expiry) = cv
    \<and> cdSimulation (editPrice c price cv pv expiry) = cdSimulation c
    \<and> controlOf uuidStr (editPrice c price cv pv expiry) = Inl ErrNoControl
    \<and> validateAgainst (cdBinding c) (cdBinding (editPrice c price cv pv expiry)) now
        = (if bnExpiry (cdBinding c) \<le> now then ReasonExpired else ReasonParameterChanged)"
  using assms by (auto simp: editPrice_def controlOf_def validateAgainst_def expired_def)

lemma edit_invalidates_old_control_witness:
  "validateAgainst \<lparr>bnActionID = 7, bnParameterVersion = 1, bnContextVersion = 1, bnPolicyVersion = 1,
       bnCostProfileVersion = 1, bnEvidenceVersions = fmempty, bnExpiry = 10\<rparr>
     \<lparr>bnActionID = 7, bnParameterVersion = 2, bnContextVersion = 1, bnPolicyVersion = 1,
       bnCostProfileVersion = 1, bnEvidenceVersions = fmempty, bnExpiry = 20\<rparr> 5 = ReasonParameterChanged"
proof -
  let ?b = "\<lparr>bnActionID = 7, bnParameterVersion = 1, bnContextVersion = 1, bnPolicyVersion = 1,
       bnCostProfileVersion = 1, bnEvidenceVersions = fmempty, bnExpiry = 10\<rparr>"
  let ?c = "newDraft 1 2 1 ?b zeroMoney False"
  have "(2 :: int64) \<noteq> bnParameterVersion (cdBinding ?c)" by (simp add: newDraft_def)
  from edit_invalidates_old_control [OF this, of zeroMoney 2 20 "\<lambda>_. []" 5]
  show ?thesis by (simp add: newDraft_def editPrice_def)
qed

text \<open>
  Further. The idempotency key identifies the action and its parameter version: two bindings have the same
  key exactly when both agree.  Relied on: \<open>UUID.String\<close> is injective and writes no colon.
\<close>

theorem idempotencyKey_identifies:
  assumes "inj uuidStr" and "\<And>u. CHR '':'' \<notin> set (uuidStr u)"
  shows "idempotencyKey uuidStr a = idempotencyKey uuidStr b \<longleftrightarrow>
     bnActionID a = bnActionID b \<and> bnParameterVersion a = bnParameterVersion b"
proof
  assume "idempotencyKey uuidStr a = idempotencyKey uuidStr b"
  then have "splitOn CHR '':'' (uuidStr (bnActionID a) @ CHR '':'' # ''pv:'' @ formatInt (sint (bnParameterVersion a)))
      = splitOn CHR '':'' (uuidStr (bnActionID b) @ CHR '':'' # ''pv:'' @ formatInt (sint (bnParameterVersion b)))"
    by (simp add: idempotencyKey_def)
  then have "uuidStr (bnActionID a) = uuidStr (bnActionID b)"
    "formatInt (sint (bnParameterVersion a)) = formatInt (sint (bnParameterVersion b))"
    using assms(2) \<open>idempotencyKey uuidStr a = idempotencyKey uuidStr b\<close>
    by (simp_all add: splitOn_append idempotencyKey_def)
  then show "bnActionID a = bnActionID b \<and> bnParameterVersion a = bnParameterVersion b"
    using assms(1) formatInt_inj [of "sint (bnParameterVersion a)" "sint (bnParameterVersion b)"]
    by (auto simp: inj_def sint64_eq_iff)
qed (simp add: idempotencyKey_def)

text \<open>
  Further. The decision tables agree with the machine: the terminal states are exactly the five without an
  outgoing edge, every move is refused from them, a pending execution is always a sealed
  authorization, and only a sealed one can be left by invalidation.
\<close>

theorem machine_tables:
  "terminal s = (s \<in> {StateBlocked, StateExpired, StateAccepted, StateRejected, StateFailed})
   \<and> advance s t = (if \<not> (stateValid s \<and> stateValid t) then Inl ErrUnknownState
       else if \<not> (\<not> terminal s \<and> canTransition s t) then Inl ErrUndefinedTransition else Inr ())
   \<and> (stateHasPendingExecution s \<longleftrightarrow>
       stateHasAuthorized s \<and> s \<notin> {StateAccepted, StateRejected, StatePendingReconciliation, StateFailed})
   \<and> {f. canTransition f t \<and> \<not> stateHasAuthorized f \<and> stateHasAuthorized t} \<subseteq> {StateAwaitingConfirmation}"
  by (cases s) (auto simp: terminal_def stateValid_iff stateHasPendingExecution_iff
      stateHasAuthorized_iff advance_def canTransition_def transitions_def)

theorem executing_was_approved_witness:
  "\<exists>c. cdState c = StateExecuting \<and> \<not> cdSimulation c \<and> lifecycle
     [EvRevalidate \<lparr>bnActionID = 7, bnParameterVersion = 1, bnContextVersion = 1, bnPolicyVersion = 1,
         bnCostProfileVersion = 1, bnEvidenceVersions = fmempty, bnExpiry = 0\<rparr> 6,
      EvBeginRevalidation,
      EvConfirm \<lparr>bnActionID = 7, bnParameterVersion = 1, bnContextVersion = 1, bnPolicyVersion = 1,
         bnCostProfileVersion = 1, bnEvidenceVersions = fmempty, bnExpiry = 0\<rparr> 5,
      EvOpen, EvReady] c"
proof -
  let ?b = "\<lparr>bnActionID = 7, bnParameterVersion = 1, bnContextVersion = 1, bnPolicyVersion = 1,
       bnCostProfileVersion = 1, bnEvidenceVersions = fmempty, bnExpiry = 10\<rparr>"
  let ?e = "?b\<lparr>bnExpiry := 0\<rparr>"
  let ?c = "newDraft 1 2 1 ?b zeroMoney False"
  let ?x = "?c\<lparr>cdState := StateExecuting\<rparr>"
  have "lifecycle [] ?c" by (rule fresh)
  then have "lifecycle [EvReady] (?c\<lparr>cdState := StateReadyForReview\<rparr>)"
    by (rule lifecycle.step) (intro step_ready, simp add: card_ops newDraft_def)
  then have "lifecycle [EvOpen, EvReady] (?c\<lparr>cdState := StateAwaitingConfirmation\<rparr>)"
    by (rule lifecycle.step) (intro step_open, simp add: card_ops newDraft_def)
  then have "lifecycle [EvConfirm ?e 5, EvOpen, EvReady] (?c\<lparr>cdState := StateApproved\<rparr>)"
    by (rule lifecycle.step)
      (intro step_confirm [where reason = ReasonNone], simp add: confirm_ok validateAgainst_def expired_def newDraft_def)
  then have "lifecycle [EvBeginRevalidation, EvConfirm ?e 5, EvOpen, EvReady] (?c\<lparr>cdState := StateRevalidating\<rparr>)"
    by (rule lifecycle.step) (intro step_begin, simp add: card_ops newDraft_def)
  then have l: "lifecycle [EvRevalidate ?e 6, EvBeginRevalidation, EvConfirm ?e 5, EvOpen, EvReady] ?x"
    by (rule lifecycle.step)
      (intro step_revalidate [where reason = ReasonNone and okay = True],
        simp add: revalidate_ok validateAgainst_def expired_def newDraft_def)
  from executing_was_approved [OF l] l show ?thesis by (intro exI [of _ ?x]) (simp add: newDraft_def)
qed

theorem idempotencyKey_identifies_witness:
  "idempotencyKey (\<lambda>u. formatInt (uint u))
      \<lparr>bnActionID = 7, bnParameterVersion = 1, bnContextVersion = 1, bnPolicyVersion = 1,
       bnCostProfileVersion = 1, bnEvidenceVersions = fmempty, bnExpiry = 10\<rparr> \<noteq>
   idempotencyKey (\<lambda>u. formatInt (uint u))
      \<lparr>bnActionID = 7, bnParameterVersion = 2, bnContextVersion = 1, bnPolicyVersion = 1,
       bnCostProfileVersion = 1, bnEvidenceVersions = fmempty, bnExpiry = 10\<rparr>"
proof -
  have "inj (\<lambda>u :: uuid. formatInt (uint u))"
    by (rule injI) (use formatInt_inj in \<open>auto simp: word_uint_eq_iff\<close>)
  from idempotencyKey_identifies [OF this formatInt_no_colon] show ?thesis by simp
qed

end
