(* ===== verification/AuditTrail.thy ===== *)
theory AuditTrail
  imports Approval
begin

text \<open>
  The audit trail (services/core/internal/audit and queries/audit.sql): the closed set of event
  types, one append per state-changing operation, and the reproduction read of an action.  The JSON
  encoding of the snapshot is the library's; the model keeps the map it encodes, with the
  values that \<open>UUID.String\<close> and \<open>Time.Format\<close> render.
\<close>

datatype event_type =
  EventConfirmation | EventRevalidationBlocked | EventExecutionStarted | EventExternalResult
| EventReconciliation | EventRecommendOnly | EventTerminal | EventLevel2Proposal
| EventGuardrailChange | EventWatchlistChange

record actor =
  acID :: string
  acRole :: string
  acSurface :: string

text \<open>The values the code renders as strings into a snapshot.\<close>

datatype snapshot_value =
  SnapText string | SnapUUID uuid | SnapTime instant | SnapInt int | SnapBool bool
| SnapEvidence "(uuid, int64) fmap" | SnapObject "(string \<times> snapshot_value) list"

type_synonym snapshot = "(string \<times> snapshot_value) list"

record audit_event =
  aeActionID :: uuid
  aeCardID :: uuid
  aeAccountID :: uuid
  aeType :: event_type
  aeActor :: actor
  aeBinding :: binding
  aeCardSnapshot :: snapshot
  aeDetail :: snapshot
  aeTerminalState :: string

text \<open>A row of audit_records: \<open>id\<close> and \<open>occurred_at\<close> are given by the database.\<close>

record audit_record =
  arID :: uuid
  arActionID :: uuid
  arCardID :: "uuid option"
  arAccountID :: "uuid option"
  arEventType :: event_type
  arActor :: actor
  arContextVersion :: int64
  arParameterVersion :: int64
  arPolicyVersion :: int64
  arCostProfileVersion :: int64
  arEvidenceVersions :: "(uuid, int64) fmap"
  arCardSnapshot :: snapshot
  arDetail :: snapshot
  arTerminalState :: string
  arOccurredAt :: instant

definition optionalUUID :: "uuid \<Rightarrow> uuid option" where
  "optionalUUID i = (if i = 0 then None else Some i)"

text \<open>The zero \<open>Binding\<close> around an action id.\<close>

definition actionBinding :: "uuid \<Rightarrow> binding" where
  "actionBinding i =
     \<lparr>bnActionID = i, bnParameterVersion = 0, bnContextVersion = 0, bnPolicyVersion = 0,
      bnCostProfileVersion = 0, bnEvidenceVersions = fmempty, bnExpiry = 0\<rparr>"

definition auditRecord :: "uuid \<Rightarrow> instant \<Rightarrow> audit_event \<Rightarrow> audit_record" where
  "auditRecord i now ev =
     \<lparr>arID = i, arActionID = aeActionID ev, arCardID = optionalUUID (aeCardID ev),
      arAccountID = optionalUUID (aeAccountID ev), arEventType = aeType ev, arActor = aeActor ev,
      arContextVersion = bnContextVersion (aeBinding ev),
      arParameterVersion = bnParameterVersion (aeBinding ev),
      arPolicyVersion = bnPolicyVersion (aeBinding ev),
      arCostProfileVersion = bnCostProfileVersion (aeBinding ev),
      arEvidenceVersions = bnEvidenceVersions (aeBinding ev), arCardSnapshot = aeCardSnapshot ev,
      arDetail = aeDetail ev, arTerminalState = aeTerminalState ev, arOccurredAt = now\<rparr>"

definition auditAppend :: "uuid \<Rightarrow> instant \<Rightarrow> audit_event \<Rightarrow> audit_record list \<Rightarrow> audit_record list" where
  "auditAppend i now ev trail = trail @ [auditRecord i now ev]"

text \<open>\<open>ORDER BY occurred_at, id\<close>: two stable sorts.\<close>

definition reproduce :: "audit_record list \<Rightarrow> uuid \<Rightarrow> audit_record list" where
  "reproduce trail action =
     sort_key arOccurredAt (sort_key (uint \<circ> arID) (filter (\<lambda>r. arActionID r = action) trail))"

definition hasTerminal :: "audit_record list \<Rightarrow> bool" where
  "hasTerminal records = list_ex (\<lambda>r. arEventType r = EventTerminal) records"

lemma set_reproduce [simp]: "set (reproduce trail a) = {r \<in> set trail. arActionID r = a}"
  by (simp add: reproduce_def)

lemma auditRecord_sel [simp]:
  "arActionID (auditRecord i now ev) = aeActionID ev" "arEventType (auditRecord i now ev) = aeType ev"
  by (simp_all add: auditRecord_def)

lemma auditAppend_length [simp]: "length (auditAppend i now ev trail) = Suc (length trail)"
  by (simp add: auditAppend_def)

text \<open>
  Further. The trail is append-only: an append adds exactly its own record, carrying the actor and the five
  bound versions, to the reproduction of its action, keeps what every reproduction held before, and
  records are read in order of occurrence.
\<close>

theorem audit_append_only:
  "set (reproduce (auditAppend i now ev trail) a) =
     set (reproduce trail a) \<union> (if a = aeActionID ev then {auditRecord i now ev} else {})
   \<and> sorted (map arOccurredAt (reproduce trail a))
   \<and> (hasTerminal (reproduce (auditAppend i now ev trail) a) \<longleftrightarrow>
        hasTerminal (reproduce trail a) \<or> a = aeActionID ev \<and> aeType ev = EventTerminal)"
proof -
  have s: "set (reproduce (auditAppend i now ev trail) a) =
     set (reproduce trail a) \<union> (if a = aeActionID ev then {auditRecord i now ev} else {})"
    by (auto simp: auditAppend_def)
  have "sorted (map arOccurredAt (reproduce trail a))" by (simp add: reproduce_def)
  moreover have "hasTerminal (reproduce (auditAppend i now ev trail) a) \<longleftrightarrow>
        hasTerminal (reproduce trail a) \<or> a = aeActionID ev \<and> aeType ev = EventTerminal"
    unfolding hasTerminal_def list_ex_iff s by auto
  ultimately show ?thesis using s by blast
qed

end
