(* ===== verification/Guardrail.thy ===== *)
theory Guardrail
  imports Policy AuditTrail
begin

text \<open>
  The commercial guardrails (services/core/internal/guardrail and queries/guardrail.sql): the
  stricter-only gate, the version-guarded write with its audit record in one transaction, and the
  tenant scoping of the transport-facing calls.  The write is split where other transactions can
  commit in between: the baseline read with its checks, and the guarded upsert.
\<close>

section \<open>Settings and the stricter-only gate (guardrail.go, stricter.go)\<close>

record settings =
  gsContributionFloor :: money
  gsMovementCapBp :: int64
  gsCooldownSeconds :: int64
  gsStrategy :: strategy
  gsStrategyEnabled :: bool

record config_view =
  cvAccountID :: uuid
  cvSettings :: settings
  cvVersion :: int64
  cvUpdatedAt :: instant
  cvUpdatedBy :: string

datatype guardrail_error =
  ErrInvalidStrategy | ErrVersionConflict | ErrNotStricter | ErrAccountNotFound
| GuardrailMoneyErr money_error | GuardrailNoRows | GuardrailDbErr

definition defaultMovementCapBp :: int64 where
  "defaultMovementCapBp = bpValue defaultMovementCap"

definition defaultCooldownSeconds :: int64 where
  "defaultCooldownSeconds = word_of_int (defaultCooldown div second)"

definition validateStricter :: "settings \<Rightarrow> settings \<Rightarrow> bool \<Rightarrow> (guardrail_error, unit) result" where
  "validateStricter baseline next hasBaseline =
     (let capLimit = (if hasBaseline \<and> gsMovementCapBp baseline <s defaultMovementCapBp
                      then gsMovementCapBp baseline else defaultMovementCapBp) in
      if capLimit <s gsMovementCapBp next then Inl ErrNotStricter
      else
        (let cooldownFloor = (if hasBaseline \<and> defaultCooldownSeconds <s gsCooldownSeconds baseline
                              then gsCooldownSeconds baseline else defaultCooldownSeconds) in
         if gsCooldownSeconds next <s cooldownFloor then Inl ErrNotStricter
         else if hasBaseline
         then andThen (mapErr GuardrailMoneyErr
                 (compareMoney (gsContributionFloor next) (gsContributionFloor baseline))) (\<lambda>cmp.
              if cmp < 0 then Inl ErrNotStricter else Inr ())
         else Inr ()))"

section \<open>The store (queries/guardrail.sql)\<close>

record guardrail_db =
  gdAccountOfOrg :: "uuid \<rightharpoonup> uuid"
  gdRows :: "uuid \<rightharpoonup> config_view"
  gdAudit :: "audit_record list"

definition getGuardrailSettings :: "guardrail_db \<Rightarrow> uuid \<Rightarrow> (guardrail_error, config_view) result" where
  "getGuardrailSettings db account =
     (case gdRows db account of None \<Rightarrow> Inl GuardrailNoRows | Some row \<Rightarrow> Inr row)"

text \<open>A stored floor is rebuilt through \<open>money.New\<close>, which refuses an invalid currency.\<close>

definition fromRow :: "config_view \<Rightarrow> (guardrail_error, config_view) result" where
  "fromRow row =
     (let f = gsContributionFloor (cvSettings row) in
      andThen (mapErr GuardrailMoneyErr (newMoney (mantissa f) (currency f) (exponent f))) (\<lambda>floor.
      Inr (row\<lparr>cvSettings := (cvSettings row)\<lparr>gsContributionFloor := floor\<rparr>\<rparr>)))"

text \<open>
  The guarded upsert: version 1 on insert, plus one on an update whose expected version is still
  current, no row otherwise; a version at the end of bigint is a database error.
\<close>

definition upsertGuardrailSettings ::
  "guardrail_db \<Rightarrow> uuid \<Rightarrow> settings \<Rightarrow> string \<Rightarrow> int64 \<Rightarrow> instant \<Rightarrow> (guardrail_error, config_view) result" where
  "upsertGuardrailSettings db account settings by expectedVersion now =
     (case gdRows db account of
        None \<Rightarrow> Inr \<lparr>cvAccountID = account, cvSettings = settings, cvVersion = 1,
                     cvUpdatedAt = now, cvUpdatedBy = by\<rparr>
      | Some row \<Rightarrow>
          if cvVersion row \<noteq> expectedVersion then Inl GuardrailNoRows
          else if sint (cvVersion row) = 9223372036854775807 then Inl GuardrailDbErr
          else Inr \<lparr>cvAccountID = account, cvSettings = settings, cvVersion = cvVersion row + 1,
                    cvUpdatedAt = now, cvUpdatedBy = by\<rparr>)"

section \<open>The service\<close>

definition baselineTx :: "guardrail_db \<Rightarrow> uuid \<Rightarrow> (guardrail_error, config_view option) result" where
  "baselineTx db account =
     (case getGuardrailSettings db account of
        Inl GuardrailNoRows \<Rightarrow> Inr None
      | Inl e \<Rightarrow> Inl e
      | Inr row \<Rightarrow> andThen (fromRow row) (\<lambda>v. Inr (Some v)))"

text \<open>\<open>Set\<close> up to the upsert: what is checked against the baseline it read.\<close>

definition setChecks ::
  "guardrail_db \<Rightarrow> uuid \<Rightarrow> settings \<Rightarrow> int64 \<Rightarrow> (guardrail_error, unit) result" where
  "setChecks db account settings expectedVersion =
     (case gsStrategy settings of
        StrategyOther _ \<Rightarrow> Inl ErrInvalidStrategy
      | _ \<Rightarrow>
          andThen (baselineTx db account) (\<lambda>baseline.
          case baseline of
            Some b \<Rightarrow>
              if expectedVersion \<noteq> cvVersion b then Inl ErrVersionConflict
              else validateStricter (cvSettings b) settings True
          | None \<Rightarrow>
              if expectedVersion \<noteq> 0 then Inl ErrVersionConflict
              else validateStricter settings settings False))"

definition boolText :: "bool \<Rightarrow> string" where
  "boolText b = (if b then ''true'' else ''false'')"

definition strategyText :: "strategy \<Rightarrow> string" where
  "strategyText s = (case s of StrategyHold \<Rightarrow> ''hold'' | StrategyMatch \<Rightarrow> ''match''
     | StrategyUndercut \<Rightarrow> ''undercut'' | StrategyOther x \<Rightarrow> x)"

definition guardrailEvent :: "uuid \<Rightarrow> uuid \<Rightarrow> actor \<Rightarrow> settings \<Rightarrow> config_view \<Rightarrow> audit_event" where
  "guardrailEvent actionID account actor settings row =
     \<lparr>aeActionID = actionID, aeCardID = 0, aeAccountID = account, aeType = EventGuardrailChange,
      aeActor = actor, aeBinding = actionBinding actionID,
      aeCardSnapshot =
        [(''contribution_floor'', SnapText (moneyString (gsContributionFloor settings))),
         (''movement_cap_basis_points'', SnapText (formatInt (sint (gsMovementCapBp settings)))),
         (''cooldown_seconds'', SnapText (formatInt (sint (gsCooldownSeconds settings)))),
         (''strategy'', SnapText (strategyText (gsStrategy settings))),
         (''strategy_enabled'', SnapText (boolText (gsStrategyEnabled settings))),
         (''version'', SnapText (formatInt (sint (cvVersion row))))],
      aeDetail = [], aeTerminalState = []\<rparr>"

text \<open>
  \<open>Set\<close> from the upsert to the commit, on the database as it is then; \<open>ids\<close> are the fresh action id
  and the id of the audit row.  The answer is read back from the committed row.
\<close>

definition setCommit ::
  "guardrail_db \<Rightarrow> uuid \<Rightarrow> actor \<Rightarrow> settings \<Rightarrow> int64 \<Rightarrow> instant \<Rightarrow> uuid \<times> uuid
    \<Rightarrow> guardrail_db \<times> (guardrail_error, config_view) result" where
  "setCommit db account actor settings expectedVersion now ids =
     (case upsertGuardrailSettings db account settings (acID actor) expectedVersion now of
        Inl GuardrailNoRows \<Rightarrow> (db, Inl ErrVersionConflict)
      | Inl e \<Rightarrow> (db, Inl e)
      | Inr row \<Rightarrow>
          (db\<lparr>gdRows := (gdRows db)(account \<mapsto> row),
              gdAudit := auditAppend (snd ids) now (guardrailEvent (fst ids) account actor settings row)
                           (gdAudit db)\<rparr>,
           fromRow row))"

text \<open>\<open>Set\<close> with no other transaction in between.\<close>

definition guardrailSet ::
  "guardrail_db \<Rightarrow> uuid \<Rightarrow> actor \<Rightarrow> settings \<Rightarrow> int64 \<Rightarrow> instant \<Rightarrow> uuid \<times> uuid
    \<Rightarrow> guardrail_db \<times> (guardrail_error, config_view) result" where
  "guardrailSet db account actor settings expectedVersion now ids =
     (case setChecks db account settings expectedVersion of
        Inl e \<Rightarrow> (db, Inl e)
      | Inr _ \<Rightarrow> setCommit db account actor settings expectedVersion now ids)"

definition guardrailGet :: "guardrail_db \<Rightarrow> uuid \<Rightarrow> (guardrail_error, config_view) result" where
  "guardrailGet db account = andThen (getGuardrailSettings db account) fromRow"

section \<open>Tenant scoping (scoped.go)\<close>

definition accountForOrg :: "guardrail_db \<Rightarrow> uuid \<Rightarrow> (guardrail_error, uuid) result" where
  "accountForOrg db organizationID =
     (case gdAccountOfOrg db organizationID of None \<Rightarrow> Inl ErrAccountNotFound | Some a \<Rightarrow> Inr a)"

definition getForOrg :: "guardrail_db \<Rightarrow> uuid \<Rightarrow> uuid \<Rightarrow> (guardrail_error, config_view) result" where
  "getForOrg db organizationID requestedAccount =
     andThen (accountForOrg db organizationID) (\<lambda>account.
     if requestedAccount \<noteq> account then Inl ErrAccountNotFound else guardrailGet db account)"

definition setForOrg ::
  "guardrail_db \<Rightarrow> uuid \<Rightarrow> uuid \<Rightarrow> actor \<Rightarrow> settings \<Rightarrow> int64 \<Rightarrow> instant \<Rightarrow> uuid \<times> uuid
    \<Rightarrow> guardrail_db \<times> (guardrail_error, config_view) result" where
  "setForOrg db organizationID requestedAccount actor settings expectedVersion now ids =
     (case accountForOrg db organizationID of
        Inl e \<Rightarrow> (db, Inl e)
      | Inr account \<Rightarrow>
          if requestedAccount \<noteq> account then (db, Inl ErrAccountNotFound)
          else guardrailSet db account actor settings expectedVersion now ids)"

section \<open>Facts about the gate\<close>

definition stricterEq :: "settings \<Rightarrow> settings \<Rightarrow> bool" where
  "stricterEq next base \<longleftrightarrow>
     sint (gsMovementCapBp next) \<le> sint (gsMovementCapBp base) \<and>
     sint (gsCooldownSeconds base) \<le> sint (gsCooldownSeconds next) \<and>
     sameUnit (gsContributionFloor next) (gsContributionFloor base) \<and>
     amt (gsContributionFloor base) \<le> amt (gsContributionFloor next)"

definition withinDefaults :: "settings \<Rightarrow> bool" where
  "withinDefaults s \<longleftrightarrow> sint (gsMovementCapBp s) \<le> 500 \<and> 3600 \<le> sint (gsCooldownSeconds s)"

lemma default_values [simp]:
  "defaultMovementCapBp = 500" "defaultCooldownSeconds = 3600"
  by (simp_all add: defaultMovementCapBp_def defaultMovementCap_def movementCapMaxBp_def newBasisPoints_def
      defaultCooldownSeconds_def defaultCooldown_def)

lemma validateStricter_first:
  "validateStricter b s False = Inr u \<longleftrightarrow> withinDefaults s"
  by (auto simp: validateStricter_def Let_def withinDefaults_def word_sless_alt)

lemma validateStricter_next:
  "validateStricter b s True = Inr u \<longleftrightarrow> withinDefaults s \<and> stricterEq s b"
  by (auto simp: validateStricter_def Let_def withinDefaults_def stricterEq_def word_sless_alt
      andThen_Inr mapErr_Inr compareMoney_ok split: if_splits)

lemma stricterEq_trans: "stricterEq a b \<Longrightarrow> stricterEq b c \<Longrightarrow> stricterEq a c"
  by (auto simp: stricterEq_def sameUnit_def)

lemma fromRow_ok [result_simps]:
  "fromRow row = Inr v \<longleftrightarrow> validCurrency (currency (gsContributionFloor (cvSettings row))) \<and> v = row"
  by (auto simp: fromRow_def Let_def andThen_Inr mapErr_Inr newMoney_ok)

lemma fromRow_id: "fromRow row = Inr v \<Longrightarrow> v = row"
  by (simp add: fromRow_ok)

lemma baselineTx_ok:
  "baselineTx db a = Inr b \<longleftrightarrow>
     (case gdRows db a of None \<Rightarrow> b = None
      | Some row \<Rightarrow> validCurrency (currency (gsContributionFloor (cvSettings row))) \<and> b = Some row)"
  by (auto simp: baselineTx_def getGuardrailSettings_def andThen_Inr fromRow_ok split: option.splits)

text \<open>What the checks establish about the baseline they read.\<close>

definition checkedAgainst :: "config_view option \<Rightarrow> settings \<Rightarrow> int64 \<Rightarrow> bool" where
  "checkedAgainst b s ev \<longleftrightarrow>
     withinDefaults s \<and>
     (case b of None \<Rightarrow> ev = 0 | Some row \<Rightarrow> ev = cvVersion row \<and> stricterEq s (cvSettings row))"

lemma setChecks_ok: "setChecks db a s ev = Inr u \<Longrightarrow> checkedAgainst (gdRows db a) s ev"
  by (auto simp: setChecks_def andThen_Inr baselineTx_ok checkedAgainst_def validateStricter_first
      validateStricter_next split: strategy.splits option.splits if_splits)

lemma upsert_ok:
  "upsertGuardrailSettings db a s by ev now = Inr row \<longleftrightarrow>
     row = \<lparr>cvAccountID = a, cvSettings = s,
            cvVersion = (case gdRows db a of None \<Rightarrow> 1 | Some r \<Rightarrow> cvVersion r + 1),
            cvUpdatedAt = now, cvUpdatedBy = by\<rparr> \<and>
     (\<forall>r. gdRows db a = Some r \<longrightarrow> cvVersion r = ev \<and> sint (cvVersion r) \<noteq> 9223372036854775807)"
  by (auto simp: upsertGuardrailSettings_def split: option.splits)

lemma setCommit_cases:
  assumes "setCommit db a actor s ev now ids = (db', res)"
  obtains (refused) e where "db' = db" "res = Inl e"
  | (written) row where "upsertGuardrailSettings db a s (acID actor) ev now = Inr row"
      "gdRows db' = (gdRows db)(a \<mapsto> row)" "gdAccountOfOrg db' = gdAccountOfOrg db"
      "gdAudit db' = auditAppend (snd ids) now (guardrailEvent (fst ids) a actor s row) (gdAudit db)"
      "res = fromRow row"
proof (cases "upsertGuardrailSettings db a s (acID actor) ev now")
  case (Inl e)
  then have "setCommit db a actor s ev now ids = (db, Inl (if e = GuardrailNoRows then ErrVersionConflict else e))"
    by (simp add: setCommit_def split: guardrail_error.splits)
  then show thesis using refused assms by simp
next
  case (Inr row)
  then show thesis using assms by (intro written [of row]) (auto simp: setCommit_def)
qed

section \<open>Concurrent writers\<close>

text \<open>
  Any number of \<open>Set\<close> calls in flight: a call reads its baseline and passes the checks at one time
  and runs the upsert at a later one; the baseline it saw is recorded with it.
\<close>

record writer =
  wrAccount :: uuid
  wrSettings :: settings
  wrExpected :: int64
  wrBaseline :: "config_view option"

inductive guardrailStep :: "guardrail_db \<times> writer list \<Rightarrow> guardrail_db \<times> writer list \<Rightarrow> bool" where
  begin_set: "setChecks db a s ev = Inr () \<Longrightarrow>
    guardrailStep (db, ws)
      (db, \<lparr>wrAccount = a, wrSettings = s, wrExpected = ev, wrBaseline = gdRows db a\<rparr> # ws)"
| commit_set: "w \<in> set ws \<Longrightarrow>
    setCommit db (wrAccount w) actor (wrSettings w) (wrExpected w) now ids = (db', res) \<Longrightarrow>
    guardrailStep (db, ws) (db', remove1 w ws)"
| abort_set: "guardrailStep (db, ws) (db, remove1 w ws)"

inductive guardrailReachable :: "guardrail_db \<times> writer list \<Rightarrow> bool" where
  start: "guardrailReachable (db, [])"
| step: "guardrailReachable st \<Longrightarrow> guardrailStep st st' \<Longrightarrow> guardrailReachable st'"

definition baselineCurrent :: "config_view option \<Rightarrow> config_view option \<Rightarrow> bool" where
  "baselineCurrent base now \<longleftrightarrow>
     (case (base, now) of
        (None, None) \<Rightarrow> True
      | (None, Some r) \<Rightarrow> 1 \<le> sint (cvVersion r)
      | (Some b, Some r) \<Rightarrow>
          r = b \<or> sint (cvVersion b) < sint (cvVersion r)
      | (Some b, None) \<Rightarrow> False)"

definition writersOk :: "guardrail_db \<times> writer list \<Rightarrow> bool" where
  "writersOk st \<longleftrightarrow>
     (\<forall>w \<in> set (snd st). checkedAgainst (wrBaseline w) (wrSettings w) (wrExpected w) \<and>
        baselineCurrent (wrBaseline w) (gdRows (fst st) (wrAccount w)))"

lemma version_bump:
  "sint (v :: int64) \<noteq> 9223372036854775807 \<Longrightarrow> sint (v + 1) = sint v + 1"
  using sint64_range [of v] by (intro trans [OF sint64_add]) (auto simp: inInt64_def)

lemma written_version:
  assumes "upsertGuardrailSettings db a s by ev now = Inr row" and "gdRows db a = Some r"
  shows "sint (cvVersion row) = sint (cvVersion r) + 1"
  using assms version_bump by (auto simp: upsert_ok)

lemma baselineCurrent_written:
  assumes "baselineCurrent b (gdRows db a)" and "upsertGuardrailSettings db a s by ev now = Inr row"
  shows "baselineCurrent b (Some row)"
proof (cases "gdRows db a")
  case None
  then show ?thesis using assms by (auto simp: baselineCurrent_def upsert_ok split: option.splits)
next
  case (Some r)
  with assms(1) written_version [OF assms(2) Some] show ?thesis
    by (auto simp: baselineCurrent_def split: option.splits)
qed

lemma writersOk_step:
  assumes "guardrailStep st st'" and "writersOk st"
  shows "writersOk st'"
  using assms
proof (cases rule: guardrailStep.cases)
  case (begin_set db a s ev ws)
  then show ?thesis using assms(2)
    by (auto simp: writersOk_def baselineCurrent_def dest: setChecks_ok split: option.splits)
next
  case (commit_set w ws db actor now ids db' res)
  from commit_set(4) show ?thesis
  proof (cases rule: setCommit_cases)
    case (refused e)
    then show ?thesis using commit_set(1,2) assms(2) set_remove1_subset [of w ws]
      by (auto simp: writersOk_def)
  next
    case (written row)
    have "baselineCurrent (wrBaseline u) (gdRows db' (wrAccount u))" if "u \<in> set ws" for u
      using that assms(2) commit_set(1) written(2) baselineCurrent_written [OF _ written(1)]
      by (auto simp: writersOk_def)
    then show ?thesis using commit_set(1,2) assms(2) set_remove1_subset [of w ws]
      by (auto simp: writersOk_def)
  qed
next
  case (abort_set db ws w)
  then show ?thesis using assms(2) set_remove1_subset [of w ws] by (auto simp: writersOk_def)
qed

lemma reachable_writersOk: "guardrailReachable st \<Longrightarrow> writersOk st"
  by (induction rule: guardrailReachable.induct) (auto simp: writersOk_def [of "(_, [])"] intro: writersOk_step)

text \<open>
  Further. No interleaving of concurrent guardrail writes loosens or loses anything: whenever a step changes
  the row of a configured account, the new settings are stricter than or equal to exactly the row
  they replace and within the system defaults, the version goes up by one, and one audit record is
  appended; a first write is within the defaults; rows never disappear.
\<close>

theorem concurrent_writes_stricter:
  assumes "guardrailReachable (db, ws)" and "guardrailStep (db, ws) (db', ws')"
    and "gdRows db' a \<noteq> gdRows db a"
  shows "\<exists>row. gdRows db' a = Some row \<and> withinDefaults (cvSettings row)
    \<and> length (gdAudit db') = Suc (length (gdAudit db))
    \<and> (case gdRows db a of None \<Rightarrow> cvVersion row = 1
       | Some old \<Rightarrow> stricterEq (cvSettings row) (cvSettings old) \<and>
           sint (cvVersion row) = sint (cvVersion old) + 1)"
  using assms(2)
proof (cases rule: guardrailStep.cases)
  case (commit_set w actor now ids res)
  from commit_set(3) show ?thesis
  proof (cases rule: setCommit_cases)
    case (refused e)
    then show ?thesis using assms(3) by simp
  next
    case (written row)
    then have a: "a = wrAccount w" and new: "gdRows db' a = Some row"
      using assms(3) by (auto split: if_splits)
    from reachable_writersOk [OF assms(1)] commit_set(2)
    have c: "checkedAgainst (wrBaseline w) (wrSettings w) (wrExpected w)"
      and b: "baselineCurrent (wrBaseline w) (gdRows db a)" by (auto simp: writersOk_def a)
    have u: "cvSettings row = wrSettings w" using written(1) by (simp add: upsert_ok)
    have "case gdRows db a of None \<Rightarrow> cvVersion row = 1
       | Some old \<Rightarrow> stricterEq (cvSettings row) (cvSettings old) \<and>
           sint (cvVersion row) = sint (cvVersion old) + 1"
    proof (cases "gdRows db a")
      case None
      then show ?thesis using written(1) by (simp add: upsert_ok a)
    next
      case (Some old)
      then have ev: "cvVersion old = wrExpected w" using written(1) by (simp add: upsert_ok a)
      then have "wrBaseline w = Some old"
        using b c Some by (auto simp: baselineCurrent_def checkedAgainst_def split: option.splits)
      then show ?thesis using c u Some written_version [OF written(1)] a
        by (simp add: checkedAgainst_def)
    qed
    moreover have "withinDefaults (cvSettings row)" using c u by (simp add: checkedAgainst_def)
    ultimately show ?thesis using new written(4) by simp
  qed
qed (use assms(3) in auto)

text \<open>
  Further. Tenant scoping: a call naming an account other than the caller's own is a not-found that reads
  and changes nothing; otherwise it is the unscoped call on that account.
\<close>

theorem guardrail_tenant_scoped:
  "setForOrg db org a actor s ev now ids =
     (if gdAccountOfOrg db org = Some a then guardrailSet db a actor s ev now ids
      else (db, Inl ErrAccountNotFound))
   \<and> getForOrg db org a = (if gdAccountOfOrg db org = Some a then guardrailGet db a else Inl ErrAccountNotFound)"
  by (auto simp: setForOrg_def getForOrg_def accountForOrg_def split: option.splits)

text \<open>
  Further. A negative movement cap is accepted and cannot be undone: nothing bounds the cap below, so once
  a row holds a negative one every later successful write holds a negative one too, and no policy
  configuration can be built from it.
\<close>

theorem negative_cap_is_permanent:
  assumes "gdRows db a = Some row" and "sint (gsMovementCapBp (cvSettings row)) < 0"
    and "guardrailSet db a actor s ev now ids = (db', Inr v)"
  shows "sint (gsMovementCapBp (cvSettings v)) < 0 \<and>
    validateCap (newBasisPoints (gsMovementCapBp (cvSettings v))) = Inl ErrInvalidMovementCap"
proof -
  from assms(3) obtain u where c: "setChecks db a s ev = Inr u"
    and w: "setCommit db a actor s ev now ids = (db', Inr v)"
    by (auto simp: guardrailSet_def split: sum.splits)
  from w have "cvSettings v = s"
    by (cases rule: setCommit_cases) (auto dest: fromRow_id [OF sym] simp: upsert_ok)
  moreover have "sint (gsMovementCapBp s) < 0"
    using setChecks_ok [OF c] assms(1,2) by (auto simp: checkedAgainst_def stricterEq_def)
  ultimately show ?thesis by (simp add: validateCap_def word_sless_alt newBasisPoints_def)
qed

definition demoSettings :: "int64 \<Rightarrow> settings" where
  "demoSettings cap =
     \<lparr>gsContributionFloor = irr 5, gsMovementCapBp = cap, gsCooldownSeconds = 7200,
      gsStrategy = StrategyHold, gsStrategyEnabled = True\<rparr>"

definition demoRow :: "int64 \<Rightarrow> config_view" where
  "demoRow cap = \<lparr>cvAccountID = 1, cvSettings = demoSettings cap, cvVersion = 3, cvUpdatedAt = 0, cvUpdatedBy = []\<rparr>"

definition demoStore :: "int64 \<Rightarrow> guardrail_db" where
  "demoStore cap = \<lparr>gdAccountOfOrg = Map.empty, gdRows = [1 \<mapsto> demoRow cap], gdAudit = []\<rparr>"

definition demoActor :: actor where
  "demoActor = \<lparr>acID = ''owner'', acRole = ''owner'', acSurface = ''screens''\<rparr>"

lemmas demo_store = demoSettings_def demoRow_def demoStore_def irr_def valid_def compatible_def

lemma demo_checks:
  "setChecks (demoStore (- 5)) 1 (demoSettings (- 7)) 3 = Inr ()"
  "setChecks (demoStore 400) 1 (demoSettings 300) 3 = Inr ()"
  by (simp_all add: setChecks_def baselineTx_def getGuardrailSettings_def fromRow_def newMoney_def
      validateStricter_def word_sless_alt compareMoney_def icmp_def demo_store)

theorem negative_cap_is_permanent_witness:
  "\<exists>db' v. guardrailSet (demoStore (- 5)) 1 demoActor (demoSettings (- 7)) 3 0 (8, 9) = (db', Inr v) \<and>
     validateCap (newBasisPoints (gsMovementCapBp (cvSettings v))) = Inl ErrInvalidMovementCap"
proof -
  obtain db' v where s: "guardrailSet (demoStore (- 5)) 1 demoActor (demoSettings (- 7)) 3 0 (8, 9) = (db', Inr v)"
    by (simp add: guardrailSet_def demo_checks)
      (simp add: setCommit_def upsertGuardrailSettings_def fromRow_def newMoney_def demo_store)
  have "gdRows (demoStore (- 5)) 1 = Some (demoRow (- 5))"
    "sint (gsMovementCapBp (cvSettings (demoRow (- 5)))) < 0"
    by (simp_all add: demo_store)
  from negative_cap_is_permanent [OF this s] s show ?thesis by blast
qed

theorem concurrent_writes_stricter_witness:
  "\<exists>st ids db'. guardrailReachable st \<and> setCommit (fst st) 1 demoActor (demoSettings 300) 3 0 ids
     = (db', Inr ((demoRow 300)\<lparr>cvVersion := 4, cvUpdatedBy := ''owner''\<rparr>)) \<and>
     stricterEq (demoSettings 300) (demoSettings 400)"
proof -
  let ?db = "demoStore 400"
  let ?w = "\<lparr>wrAccount = 1, wrSettings = demoSettings 300, wrExpected = 3, wrBaseline = gdRows ?db 1\<rparr>"
  let ?new = "(demoRow 300)\<lparr>cvVersion := 4, cvUpdatedBy := ''owner''\<rparr>"
  have r: "guardrailReachable (?db, [?w])"
    by (rule guardrailReachable.step [OF guardrailReachable.start]) (rule begin_set [OF demo_checks(2)])
  obtain db' where c: "setCommit ?db 1 demoActor (demoSettings 300) 3 0 (8, 9) = (db', Inr ?new)"
    "gdRows db' = [1 \<mapsto> ?new]"
    by (simp add: setCommit_def upsertGuardrailSettings_def fromRow_def newMoney_def demoActor_def demo_store)
  have "setCommit ?db (wrAccount ?w) demoActor (wrSettings ?w) (wrExpected ?w) 0 (8, 9) = (db', Inr ?new)"
    using c(1) by simp
  from commit_set [OF _ this, of "[?w]"] have s: "guardrailStep (?db, [?w]) (db', [])" by simp
  have "gdRows db' 1 \<noteq> gdRows ?db 1" by (simp add: c(2) demo_store)
  from concurrent_writes_stricter [OF r s this]
  have "stricterEq (cvSettings ?new) (cvSettings (demoRow 400))" by (auto simp: c(2) demoStore_def)
  then show ?thesis using r c(1) by (intro exI [of _ "(?db, [?w])"] exI) (auto simp: demoRow_def)
qed

end
