(* ===== verification/Watchlist.thy ===== *)
theory Watchlist
  imports AuditTrail
begin

text \<open>
  The priority watchlist (services/core/internal/watchlist and queries/watchlist.sql).  \<open>Add\<close> holds an
  advisory lock on the account from before its reads to its commit, so it is one atomic step.
\<close>

definition maxEntries :: nat where "maxEntries = 50"

datatype watchlist_error = ErrCapExceeded | ErrNotConfirmed | ErrWatchAccountNotFound

text \<open>The columns of market_product_identities the query filters on.\<close>

record identity_row =
  miAccountID :: uuid
  miVariantID :: uuid
  miConfirmed :: bool
  miActive :: bool

record watchlist_entry =
  weID :: uuid
  weAccountID :: uuid
  weVariantID :: uuid
  weAddedBy :: string
  weCreatedAt :: instant

record watchlist_db =
  wdAccountOfOrg :: "uuid \<rightharpoonup> uuid"
  wdIdentities :: "identity_row list"
  wdEntries :: "watchlist_entry list"
  wdAudit :: "audit_record list"

definition getActiveConfirmedIdentityForVariant :: "watchlist_db \<Rightarrow> uuid \<Rightarrow> identity_row option" where
  "getActiveConfirmedIdentityForVariant db variant =
     find (\<lambda>i. miVariantID i = variant \<and> miConfirmed i \<and> miActive i) (wdIdentities db)"

definition getWatchlistEntry :: "watchlist_db \<Rightarrow> uuid \<Rightarrow> uuid \<Rightarrow> watchlist_entry option" where
  "getWatchlistEntry db account variant =
     find (\<lambda>e. weAccountID e = account \<and> weVariantID e = variant) (wdEntries db)"

definition countWatchlistEntries :: "watchlist_db \<Rightarrow> uuid \<Rightarrow> nat" where
  "countWatchlistEntries db account = length (filter (\<lambda>e. weAccountID e = account) (wdEntries db))"

text \<open>\<open>ORDER BY created_at DESC\<close>.\<close>

definition listEntries :: "watchlist_db \<Rightarrow> uuid \<Rightarrow> watchlist_entry list" where
  "listEntries db account =
     sort_key (\<lambda>e. - weCreatedAt e) (filter (\<lambda>e. weAccountID e = account) (wdEntries db))"

definition watchlistEvent :: "uuid \<Rightarrow> uuid \<Rightarrow> actor \<Rightarrow> uuid \<Rightarrow> instant \<Rightarrow> audit_event" where
  "watchlistEvent actionID account actor variant now =
     \<lparr>aeActionID = actionID, aeCardID = 0, aeAccountID = account, aeType = EventWatchlistChange,
      aeActor = actor, aeBinding = actionBinding actionID,
      aeCardSnapshot = [(''variant_id'', SnapUUID variant), (''added_at'', SnapTime now)],
      aeDetail = [], aeTerminalState = []\<rparr>"

text \<open>\<open>ids\<close>: the id of the entry, the fresh action id and the id of the audit row.\<close>

definition watchlistAdd ::
  "watchlist_db \<Rightarrow> uuid \<Rightarrow> uuid \<Rightarrow> actor \<Rightarrow> instant \<Rightarrow> uuid \<times> uuid \<times> uuid
    \<Rightarrow> watchlist_db \<times> (watchlist_error, watchlist_entry) result" where
  "watchlistAdd db account variant actor now ids =
     (case getActiveConfirmedIdentityForVariant db variant of
        None \<Rightarrow> (db, Inl ErrNotConfirmed)
      | Some _ \<Rightarrow>
          (case getWatchlistEntry db account variant of
             Some existing \<Rightarrow> (db, Inr existing)
           | None \<Rightarrow>
               if maxEntries \<le> countWatchlistEntries db account then (db, Inl ErrCapExceeded)
               else
                 (let entry = \<lparr>weID = fst ids, weAccountID = account, weVariantID = variant,
                               weAddedBy = acID actor, weCreatedAt = now\<rparr> in
                  (db\<lparr>wdEntries := wdEntries db @ [entry],
                      wdAudit := auditAppend (snd (snd ids)) now
                        (watchlistEvent (fst (snd ids)) account actor variant now) (wdAudit db)\<rparr>,
                   Inr entry))))"

definition watchAccountForOrg :: "watchlist_db \<Rightarrow> uuid \<Rightarrow> (watchlist_error, uuid) result" where
  "watchAccountForOrg db organizationID =
     (case wdAccountOfOrg db organizationID of None \<Rightarrow> Inl ErrWatchAccountNotFound | Some a \<Rightarrow> Inr a)"

definition listForOrg :: "watchlist_db \<Rightarrow> uuid \<Rightarrow> uuid \<Rightarrow> (watchlist_error, watchlist_entry list) result" where
  "listForOrg db organizationID requestedAccount =
     andThen (watchAccountForOrg db organizationID) (\<lambda>account.
     if requestedAccount \<noteq> account then Inl ErrWatchAccountNotFound else Inr (listEntries db account))"

definition addForOrg ::
  "watchlist_db \<Rightarrow> uuid \<Rightarrow> uuid \<Rightarrow> uuid \<Rightarrow> actor \<Rightarrow> instant \<Rightarrow> uuid \<times> uuid \<times> uuid
    \<Rightarrow> watchlist_db \<times> (watchlist_error, watchlist_entry) result" where
  "addForOrg db organizationID requestedAccount variant actor now ids =
     (case watchAccountForOrg db organizationID of
        Inl e \<Rightarrow> (db, Inl e)
      | Inr account \<Rightarrow>
          if requestedAccount \<noteq> account then (db, Inl ErrWatchAccountNotFound)
          else watchlistAdd db account variant actor now ids)"

definition watchlistOk :: "watchlist_db \<Rightarrow> bool" where
  "watchlistOk db \<longleftrightarrow>
     distinct (map (\<lambda>e. (weAccountID e, weVariantID e)) (wdEntries db)) \<and>
     (\<forall>a. countWatchlistEntries db a \<le> maxEntries)"

lemma watchlistAdd_cases:
  assumes "watchlistAdd db a v actor now ids = (db', res)"
  obtains (same) "db' = db"
  | (added) e where "getActiveConfirmedIdentityForVariant db v \<noteq> None" "getWatchlistEntry db a v = None"
      "countWatchlistEntries db a < maxEntries" "weAccountID e = a" "weVariantID e = v" "res = Inr e"
      "wdEntries db' = wdEntries db @ [e]" "length (wdAudit db') = Suc (length (wdAudit db))"
proof (cases "getActiveConfirmedIdentityForVariant db v \<noteq> None \<and> getWatchlistEntry db a v = None
    \<and> countWatchlistEntries db a < maxEntries")
  case True
  then show thesis using assms
    by (intro added [of "\<lparr>weID = fst ids, weAccountID = a, weVariantID = v, weAddedBy = acID actor,
        weCreatedAt = now\<rparr>"]) (auto simp: watchlistAdd_def Let_def)
next
  case False
  then show thesis using assms
    by (intro same) (auto simp: watchlistAdd_def Let_def split: option.splits if_splits)
qed

text \<open>
  Further. Adding keeps the list well formed: no account ever exceeds the cap of 50, no variant is listed
  twice for an account; the trail grows by one record exactly when an entry is added, and adding a
  listed variant again changes nothing.
\<close>

theorem watchlist_capped:
  assumes "watchlistOk db" and "watchlistAdd db a v actor now ids = (db', res)"
  shows "watchlistOk db'
    \<and> length (wdAudit db') - length (wdAudit db) = length (wdEntries db') - length (wdEntries db)
    \<and> (getWatchlistEntry db a v \<noteq> None \<longrightarrow> db' = db)"
  using assms(2)
proof (cases rule: watchlistAdd_cases)
  case same
  then show ?thesis using assms(1) by simp
next
  case (added e)
  have "(a, v) \<notin> (\<lambda>e. (weAccountID e, weVariantID e)) ` set (wdEntries db)"
    using added(2) by (auto simp: getWatchlistEntry_def find_None_iff)
  moreover have "countWatchlistEntries db' b \<le> maxEntries" for b
    using assms(1) added(3,4,7) by (auto simp: watchlistOk_def countWatchlistEntries_def)
  ultimately show ?thesis using assms(1) added by (auto simp: watchlistOk_def)
qed

definition demoWatch :: watchlist_db where
  "demoWatch =
     \<lparr>wdAccountOfOrg = [1 \<mapsto> 10, 2 \<mapsto> 20],
      wdIdentities = [\<lparr>miAccountID = 20, miVariantID = 7, miConfirmed = True, miActive = True\<rparr>],
      wdEntries = [], wdAudit = []\<rparr>"

theorem watchlist_capped_witness:
  "watchlistOk (fst (watchlistAdd demoWatch 20 7 \<lparr>acID = [], acRole = [], acSurface = []\<rparr> 5 (1, 2, 3)))"
proof -
  have "watchlistOk demoWatch"
    by (simp add: watchlistOk_def demoWatch_def countWatchlistEntries_def)
  from watchlist_capped [OF this, of 20 7 "\<lparr>acID = [], acRole = [], acSurface = []\<rparr>" 5 "(1, 2, 3)"]
  show ?thesis by (metis prod.collapse)
qed

text \<open>
  Further. An account can list a product it does not own: the confirmation check looks at the variant
  alone, so organisation 1 adds variant 7, whose only confirmed identity belongs to the account of
  organisation 2.
\<close>

theorem watchlist_accepts_foreign_variant:
  "\<exists>db' e. addForOrg demoWatch 1 10 7 \<lparr>acID = [], acRole = [], acSurface = []\<rparr> 5 (1, 2, 3) = (db', Inr e) \<and>
     weAccountID e = 10 \<and> wdEntries db' = [e] \<and>
     map miAccountID (filter (\<lambda>i. miVariantID i = 7) (wdIdentities demoWatch)) = [20]"
  by (simp add: addForOrg_def watchAccountForOrg_def watchlistAdd_def demoWatch_def maxEntries_def
      getActiveConfirmedIdentityForVariant_def getWatchlistEntry_def countWatchlistEntries_def Let_def)

end
