(* ===== verification/Execution.thy ===== *)
theory Execution
  imports AuditTrail
begin

text \<open>
  The execution plane (services/core/internal/execution): the nine-gate revalidation matrix
  (gate.go), the external result states and their classification (result.go, writer.go), the two-key
  write enablement (enablement.go), recommend-only matching (recommend_only.go), the unified view
  (unified.go) and the executor (service.go) over its tables.  Every database transaction and the
  external write are one definition each; \<open>procStep\<close> strings them together as \<open>Execute\<close> does.
\<close>

section \<open>The gate matrix (gate.go)\<close>

datatype gate =
  GateIdentity | GateCurrentPrice | GateCosts | GateMoneyUnit | GateBoundary | GateEvidence
| GateGuardrails | GatePermission | GateExpiry

record revalidation_inputs =
  rvBound :: binding
  rvCurrent :: binding
  rvNow :: instant
  rvIdentityConfirmed :: bool
  rvCurrentPriceMatches :: bool
  rvMoneyUnitAmbiguous :: bool
  rvBoundaryKnown :: bool
  rvPermissionGranted :: bool
  rvJITFresh :: bool

record gate_outcome =
  goOK :: bool
  goFailed :: "gate option"
  goReason :: invalidation_reason

definition failedGate :: "gate \<Rightarrow> invalidation_reason \<Rightarrow> gate_outcome" where
  "failedGate g reason = \<lparr>goOK = False, goFailed = Some g, goReason = reason\<rparr>"

definition evaluateGates :: "revalidation_inputs \<Rightarrow> gate_outcome" where
  "evaluateGates inp =
     (let b = rvBound inp; c = rvCurrent inp in
      if \<not> rvIdentityConfirmed inp then failedGate GateIdentity ReasonNone
      else if bnActionID b \<noteq> bnActionID c then failedGate GateIdentity ReasonActionMismatch
      else if bnParameterVersion b \<noteq> bnParameterVersion c
      then failedGate GateCurrentPrice ReasonParameterChanged
      else if \<not> rvCurrentPriceMatches inp then failedGate GateCurrentPrice ReasonNone
      else if bnCostProfileVersion b \<noteq> bnCostProfileVersion c
      then failedGate GateCosts ReasonCostChanged
      else if rvMoneyUnitAmbiguous inp then failedGate GateMoneyUnit ReasonNone
      else if \<not> rvBoundaryKnown inp then failedGate GateBoundary ReasonNone
      else if evidenceChanged (bnEvidenceVersions b) (bnEvidenceVersions c)
      then failedGate GateEvidence ReasonEvidenceChanged
      else if \<not> rvJITFresh inp then failedGate GateEvidence ReasonNone
      else if bnPolicyVersion b \<noteq> bnPolicyVersion c then failedGate GateGuardrails ReasonPolicyChanged
      else if bnContextVersion b \<noteq> bnContextVersion c
      then failedGate GateGuardrails ReasonContextChanged
      else if \<not> rvPermissionGranted inp then failedGate GatePermission ReasonNone
      else if \<not> rvNow inp < bnExpiry b then failedGate GateExpiry ReasonExpired
      else \<lparr>goOK = True, goFailed = None, goReason = ReasonNone\<rparr>)"

section \<open>External results (result.go, writer.go)\<close>

datatype external_state =
  ExtAccepted | ExtRejected | ExtPendingReconciliation | ExtFailed | ExtOther string

definition extValid :: "external_state \<Rightarrow> bool" where
  "extValid s \<longleftrightarrow> s \<in> {ExtAccepted, ExtRejected, ExtPendingReconciliation, ExtFailed}"

definition extTerminal :: "external_state \<Rightarrow> bool" where
  "extTerminal s \<longleftrightarrow> s = ExtAccepted \<or> s = ExtRejected \<or> s = ExtFailed"

datatype write_outcome =
  OutcomeAccepted | OutcomeRejected | OutcomeFailed | OutcomeUnknown | OutcomeOther string

record write_request =
  wqIdempotencyKey :: string
  wqVariantNativeID :: int64
  wqPrice :: money

record write_result =
  wsOutcome :: write_outcome
  wsExternalRef :: string
  wsDetail :: string

definition classify :: "write_result \<Rightarrow> external_state" where
  "classify r =
     (case wsOutcome r of
        OutcomeAccepted \<Rightarrow> ExtAccepted
      | OutcomeRejected \<Rightarrow> ExtRejected
      | OutcomeFailed \<Rightarrow> ExtFailed
      | _ \<Rightarrow> ExtPendingReconciliation)"

text \<open>
  \<open>WritePrice\<close> by what becomes of the attempt: the body does not encode, the HTTP request cannot be built,
  the client returns a transport error, or it returns a status and the body carries the batch handle
  \<open>extractBatchRef\<close> finds in it.  The first two fail before anything is sent.
\<close>

datatype write_attempt =
  MarshalError | BuildError | TransportError string | Responded int string

definition writeOutcome :: "write_attempt \<Rightarrow> write_result" where
  "writeOutcome attempt =
     (case attempt of
        MarshalError \<Rightarrow> \<lparr>wsOutcome = OutcomeFailed, wsExternalRef = [], wsDetail = ''marshal request''\<rparr>
      | BuildError \<Rightarrow> \<lparr>wsOutcome = OutcomeFailed, wsExternalRef = [], wsDetail = ''build request''\<rparr>
      | TransportError err \<Rightarrow>
          \<lparr>wsOutcome = OutcomeUnknown, wsExternalRef = [], wsDetail = ''transport: '' @ err\<rparr>
      | Responded status batchRef \<Rightarrow>
          if 200 \<le> status \<and> status < 300
          then \<lparr>wsOutcome = OutcomeAccepted, wsExternalRef = batchRef, wsDetail = ''http 2xx''\<rparr>
          else if 400 \<le> status \<and> status < 500
          then \<lparr>wsOutcome = OutcomeRejected, wsExternalRef = [], wsDetail = ''http '' @ formatInt status\<rparr>
          else \<lparr>wsOutcome = OutcomeFailed, wsExternalRef = [], wsDetail = ''http '' @ formatInt status\<rparr>)"

section \<open>Enablement (enablement.go)\<close>

record write_enablement =
  enCapabilitySupported :: bool
  enRegionWriteVerified :: bool

definition canWrite :: "write_enablement \<Rightarrow> bool" where
  "canWrite e \<longleftrightarrow> enCapabilitySupported e \<and> enRegionWriteVerified e"

section \<open>Recommend-only matching (recommend_only.go)\<close>

datatype recommend_only_state =
  StateAwaitingExternalExecution | StateExternallyExecuted | StateLapsed | RecommendOther string

definition matchWindow :: duration where "matchWindow = 24 * hour"

record owned_price_observation =
  opPrice :: money
  opObservedAt :: instant

record match_input =
  mtApprovedPrice :: money
  mtApprovedAt :: instant
  mtObservations :: "owned_price_observation list"
  mtNow :: instant

definition matchingObservation :: "match_input \<Rightarrow> owned_price_observation \<Rightarrow> bool" where
  "matchingObservation inp obs \<longleftrightarrow>
     \<not> (opObservedAt obs < mtApprovedAt inp \<or> mtApprovedAt inp + matchWindow < opObservedAt obs) \<and>
     equalMoney (opPrice obs) (mtApprovedPrice inp) = Inr True"

definition matchRecommendOnly ::
  "match_input \<Rightarrow> recommend_only_state \<times> owned_price_observation option" where
  "matchRecommendOnly inp =
     (case find (matchingObservation inp) (mtObservations inp) of
        Some obs \<Rightarrow> (StateExternallyExecuted, Some obs)
      | None \<Rightarrow>
          if \<not> mtNow inp < mtApprovedAt inp + matchWindow then (StateLapsed, None)
          else (StateAwaitingExternalExecution, None))"

section \<open>The unified view (unified.go)\<close>

datatype mode = ModeWrite | ModeRecommendOnly

datatype canonical_state =
  CanonicalAwaiting | CanonicalSucceeded | CanonicalRejected | CanonicalFailed
| CanonicalLapsed | CanonicalUnknown

fun canonicalWrite :: "external_state \<Rightarrow> canonical_state" where
  "canonicalWrite ExtAccepted = CanonicalSucceeded"
| "canonicalWrite ExtRejected = CanonicalRejected"
| "canonicalWrite ExtFailed = CanonicalFailed"
| "canonicalWrite ExtPendingReconciliation = CanonicalAwaiting"
| "canonicalWrite (ExtOther _) = CanonicalUnknown"

fun canonicalRecommendOnly :: "recommend_only_state \<Rightarrow> canonical_state" where
  "canonicalRecommendOnly StateExternallyExecuted = CanonicalSucceeded"
| "canonicalRecommendOnly StateLapsed = CanonicalLapsed"
| "canonicalRecommendOnly StateAwaitingExternalExecution = CanonicalAwaiting"
| "canonicalRecommendOnly (RecommendOther _) = CanonicalUnknown"

section \<open>The tables\<close>

text \<open>
  A row of approval_cards.  \<open>crEvidence\<close> is the parsed evidence column, None when it is malformed.
\<close>

record card_row =
  crID :: uuid
  crLineageID :: uuid
  crRecommendationID :: uuid
  crAccountID :: uuid
  crVersion :: int64
  crState :: state
  crActionID :: uuid
  crParameterVersion :: int64
  crContextVersion :: int64
  crPolicyVersion :: int64
  crCostProfileVersion :: int64
  crEvidence :: "(uuid, int64) fmap option"
  crIdempotencyKey :: string
  crPrice :: money
  crExpiresAt :: instant
  crCreatedAt :: instant

record card_state_row =
  csCardID :: uuid
  csFromState :: "state option"
  csToState :: state
  csReason :: string

record execution_row =
  exID :: uuid
  exCardID :: uuid
  exActionID :: uuid
  exIdempotencyKey :: string
  exExternalState :: external_state
  exExternalRef :: string
  exGateBlocked :: bool
  exReconciledAt :: "instant option"

record recommend_only_row =
  roActionID :: uuid
  roCardID :: uuid
  roAccountID :: uuid
  roVariantID :: uuid
  roApprovedPrice :: money
  roApprovedAt :: instant
  roWindowExpiresAt :: instant
  roState :: recommend_only_state
  roMatchedObservationAt :: "instant option"

record outcome_window_row =
  owCardID :: "uuid option"
  owOpenedAt :: instant
  owClosesAt :: instant

text \<open>A durable notification intent: an execution failure or a safety failure with its gate.\<close>

datatype notification =
  ExecutionFailure uuid uuid uuid | SafetyFailure uuid uuid uuid gate

text \<open>
  The tables the executor reads and writes.  \<open>edWrites\<close> is not a table: it records the requests sent to
  the marketplace, with the inputs the call had revalidated, so that properties can speak of them.
\<close>

record exec_db =
  edCards :: "uuid \<rightharpoonup> card_row"
  edCardStates :: "card_state_row list"
  edExecutions :: "execution_row list"
  edRecommendOnly :: "uuid \<rightharpoonup> recommend_only_row"
  edWindows :: "uuid \<rightharpoonup> outcome_window_row"
  edAudit :: "audit_record list"
  edNotifications :: "notification list"
  edWrites :: "(write_request \<times> revalidation_inputs \<times> write_enablement) list"

datatype execution_error =
  ErrNotApproved | ErrUnreconciled | ErrNoExecution | ErrAlreadyTerminal | ErrRejectedTransition
| ErrCorruptEvidence | ErrSignalsStatic | ExecNoRows | ExecDbErr

definition executionByAction :: "exec_db \<Rightarrow> uuid \<Rightarrow> execution_row option" where
  "executionByAction db a = find (\<lambda>e. exActionID e = a) (edExecutions db)"

definition executionByKey :: "exec_db \<Rightarrow> string \<Rightarrow> execution_row option" where
  "executionByKey db k = find (\<lambda>e. exIdempotencyKey e = k) (edExecutions db)"

text \<open>
  An insert with \<open>ON CONFLICT (idempotency_key) DO NOTHING\<close>: no row on a known key, an error on the
  other unique column and on the primary key.
\<close>

definition insertExecution ::
  "exec_db \<Rightarrow> execution_row \<Rightarrow> (execution_error, exec_db \<times> execution_row option) result" where
  "insertExecution db row =
     (if executionByKey db (exIdempotencyKey row) \<noteq> None then Inr (db, None)
      else if executionByAction db (exActionID row) \<noteq> None \<or>
        list_ex (\<lambda>e. exID e = exID row) (edExecutions db) then Inl ExecDbErr
      else Inr (db\<lparr>edExecutions := edExecutions db @ [row]\<rparr>, Some row))"

text \<open>\<open>RecordExecutionResult\<close> and \<open>ReconcileActionExecution\<close>: guarded on the pending state.\<close>

definition resolveExecution ::
  "exec_db \<Rightarrow> uuid \<Rightarrow> external_state \<Rightarrow> string \<Rightarrow> instant \<Rightarrow> exec_db" where
  "resolveExecution db i st ref now =
     db\<lparr>edExecutions := map (\<lambda>e.
          if exID e = i \<and> exExternalState e = ExtPendingReconciliation
          then e\<lparr>exExternalState := st, exExternalRef := ref,
                 exReconciledAt := (if st \<noteq> ExtPendingReconciliation then Some now else exReconciledAt e)\<rparr>
          else e) (edExecutions db)\<rparr>"

definition openOutcomeWindow :: "exec_db \<Rightarrow> uuid \<Rightarrow> outcome_window_row \<Rightarrow> exec_db" where
  "openOutcomeWindow db a row =
     (if edWindows db a = None then db\<lparr>edWindows := (edWindows db)(a \<mapsto> row)\<rparr> else db)"

definition appendAudit :: "exec_db \<Rightarrow> uuid \<Rightarrow> instant \<Rightarrow> audit_event \<Rightarrow> exec_db" where
  "appendAudit db i now ev = db\<lparr>edAudit := auditAppend i now ev (edAudit db)\<rparr>"

text \<open>\<open>AdvanceTx\<close> (recommendation/service.go): the guarded move and its history row.\<close>

definition advanceTx :: "exec_db \<Rightarrow> uuid \<Rightarrow> state \<Rightarrow> state \<Rightarrow> string \<Rightarrow> (execution_error, exec_db) result" where
  "advanceTx db cardID st_from st_to reason =
     (case advance st_from st_to of
        Inl _ \<Rightarrow> Inl ErrRejectedTransition
      | Inr _ \<Rightarrow>
          (case edCards db cardID of
             None \<Rightarrow> Inl ErrRejectedTransition
           | Some row \<Rightarrow>
               if crState row \<noteq> st_from then Inl ErrRejectedTransition
               else Inr (db\<lparr>edCards := (edCards db)(cardID \<mapsto> row\<lparr>crState := st_to\<rparr>),
                            edCardStates := edCardStates db @
                              [\<lparr>csCardID = cardID, csFromState = Some st_from, csToState = st_to,
                                csReason = reason\<rparr>]\<rparr>)))"

section \<open>The executor (service.go)\<close>

record revalidation_context =
  rcInputs :: revalidation_inputs
  rcEnablement :: write_enablement
  rcAccountID :: uuid
  rcVariantID :: uuid
  rcVariantNativeID :: int64

record execute_result =
  erActionID :: uuid
  erCardID :: uuid
  erMode :: mode
  erBlocked :: bool
  erFailedGate :: "gate option"
  erExternalState :: "external_state option"
  erRecommendOnlyState :: "recommend_only_state option"
  erDidWrite :: bool

fun stateName :: "state \<Rightarrow> string" where
  "stateName StateDraft = ''draft''"
| "stateName StateReadyForReview = ''ready_for_review''"
| "stateName StateBlocked = ''blocked''"
| "stateName StateAwaitingConfirmation = ''awaiting_confirmation''"
| "stateName StateApproved = ''approved''"
| "stateName StateExpired = ''expired''"
| "stateName StateInvalidated = ''invalidated''"
| "stateName StateRevalidating = ''revalidating''"
| "stateName StateExecuting = ''executing''"
| "stateName StateAccepted = ''accepted''"
| "stateName StateRejected = ''rejected''"
| "stateName StatePendingReconciliation = ''pending_reconciliation''"
| "stateName StateFailed = ''failed''"
| "stateName (StateUnknown s) = s"

fun externalName :: "external_state \<Rightarrow> string" where
  "externalName ExtAccepted = ''accepted''"
| "externalName ExtRejected = ''rejected''"
| "externalName ExtPendingReconciliation = ''pending_reconciliation''"
| "externalName ExtFailed = ''failed''"
| "externalName (ExtOther s) = s"

fun gateName :: "gate \<Rightarrow> string" where
  "gateName GateIdentity = ''identity''"
| "gateName GateCurrentPrice = ''current_price''"
| "gateName GateCosts = ''costs''"
| "gateName GateMoneyUnit = ''money_unit''"
| "gateName GateBoundary = ''boundary''"
| "gateName GateEvidence = ''evidence_jit''"
| "gateName GateGuardrails = ''guardrails''"
| "gateName GatePermission = ''permission''"
| "gateName GateExpiry = ''expiry''"

definition cardStateFor :: "external_state \<Rightarrow> state" where
  "cardStateFor s =
     (case s of ExtAccepted \<Rightarrow> StateAccepted | ExtRejected \<Rightarrow> StateRejected
      | ExtFailed \<Rightarrow> StateFailed | _ \<Rightarrow> StatePendingReconciliation)"

definition bindingOf :: "card_row \<Rightarrow> (execution_error, binding) result" where
  "bindingOf c =
     (case crEvidence c of
        None \<Rightarrow> Inl ErrCorruptEvidence
      | Some ev \<Rightarrow>
          Inr \<lparr>bnActionID = crActionID c, bnParameterVersion = crParameterVersion c,
               bnContextVersion = crContextVersion c, bnPolicyVersion = crPolicyVersion c,
               bnCostProfileVersion = crCostProfileVersion c, bnEvidenceVersions = ev,
               bnExpiry = crExpiresAt c\<rparr>)"

definition cardSnapshot :: "card_row \<Rightarrow> snapshot" where
  "cardSnapshot c =
     [(''id'', SnapUUID (crID c)), (''recommendation_id'', SnapUUID (crRecommendationID c)),
      (''lineage_id'', SnapUUID (crLineageID c)), (''account_id'', SnapUUID (crAccountID c)),
      (''version'', SnapInt (sint (crVersion c))), (''state'', SnapText (stateName (crState c))),
      (''action_id'', SnapUUID (crActionID c)),
      (''parameter_version'', SnapInt (sint (crParameterVersion c))),
      (''context_version'', SnapInt (sint (crContextVersion c))),
      (''policy_version'', SnapInt (sint (crPolicyVersion c))),
      (''cost_profile_version'', SnapInt (sint (crCostProfileVersion c))),
      (''evidence_versions'', SnapEvidence (case crEvidence c of None \<Rightarrow> fmempty | Some e \<Rightarrow> e)),
      (''idempotency_key'', SnapText (crIdempotencyKey c)),
      (''price_mantissa'', SnapInt (amt (crPrice c))),
      (''price_currency'', SnapText (currency (crPrice c))),
      (''price_exponent'', SnapInt (sint (exponent (crPrice c)))),
      (''expires_at'', SnapTime (crExpiresAt c)), (''created_at'', SnapTime (crCreatedAt c))]"

definition recoveryDetail :: "snapshot \<Rightarrow> bool \<Rightarrow> state \<Rightarrow> snapshot" where
  "recoveryDetail base recovered st_from =
     (if \<not> recovered then base
      else base @ [(''recovery'', SnapBool True), (''recovered_from'', SnapText (stateName st_from))])"

definition cardEvent ::
  "card_row \<Rightarrow> uuid \<Rightarrow> event_type \<Rightarrow> actor \<Rightarrow> binding \<Rightarrow> snapshot \<Rightarrow> string \<Rightarrow> audit_event" where
  "cardEvent c account ty act b detail terminalState =
     \<lparr>aeActionID = crActionID c, aeCardID = crID c, aeAccountID = account, aeType = ty, aeActor = act,
      aeBinding = b, aeCardSnapshot = cardSnapshot c, aeDetail = detail,
      aeTerminalState = terminalState\<rparr>"

text \<open>What one step needs besides the tables: the clock, two audit ids and a row id.\<close>

record step_env =
  seNow :: instant
  seAuditID :: uuid
  seTerminalAuditID :: uuid
  seRowID :: uuid

type_synonym tx_hook = "exec_db \<Rightarrow> (execution_error, exec_db) result"

fun runHooks :: "tx_hook list \<Rightarrow> exec_db \<Rightarrow> (execution_error, exec_db) result" where
  "runHooks [] db = Inr db"
| "runHooks (h # hs) db = andThen (h db) (runHooks hs)"

definition advanceWithAudit ::
  "exec_db \<Rightarrow> card_row \<Rightarrow> state \<Rightarrow> state \<Rightarrow> string \<Rightarrow> audit_event \<Rightarrow> tx_hook list \<Rightarrow> step_env
    \<Rightarrow> (execution_error, exec_db) result" where
  "advanceWithAudit db c st_from st_to reason ev hooks env =
     andThen (advanceTx db (crID c) st_from st_to reason) (\<lambda>db1.
     runHooks hooks (appendAudit db1 (seAuditID env) (seNow env) ev))"

definition safetyFailureHook :: "bool \<Rightarrow> uuid \<Rightarrow> uuid \<Rightarrow> uuid \<Rightarrow> gate \<Rightarrow> tx_hook" where
  "safetyFailureHook notifier account action cardID g db =
     Inr (if notifier
          then db\<lparr>edNotifications := edNotifications db @ [SafetyFailure account action cardID g]\<rparr>
          else db)"

definition gateBlockedRow :: "card_row \<Rightarrow> uuid \<Rightarrow> execution_row" where
  "gateBlockedRow c i =
     \<lparr>exID = i, exCardID = crID c, exActionID = crActionID c, exIdempotencyKey = crIdempotencyKey c,
      exExternalState = ExtPendingReconciliation, exExternalRef = [], exGateBlocked = True,
      exReconciledAt = None\<rparr>"

definition gateBlockedExecutionHook :: "card_row \<Rightarrow> uuid \<Rightarrow> tx_hook" where
  "gateBlockedExecutionHook c i db = andThen (insertExecution db (gateBlockedRow c i)) (\<lambda>(db', _). Inr db')"

text \<open>Where an \<open>Execute\<close> call stands between two statements; the card is the row it loaded.\<close>

datatype pc =
  PcStart uuid
| PcLoaded card_row
| PcReplay card_row execution_row
| PcNoExecution card_row
| PcResolve card_row
| PcBegin card_row revalidation_context
| PcGate card_row revalidation_context
| PcResumeGate card_row revalidation_context
| PcClaim card_row revalidation_context
| PcWrite card_row revalidation_context execution_row
| PcCommit card_row revalidation_context execution_row write_result external_state bool
| PcRecommend card_row revalidation_context
| PcRecommendBlocked card_row revalidation_context gate_outcome
| PcDone "(execution_error, execute_result) result"

definition baseResult :: "card_row \<Rightarrow> mode \<Rightarrow> execute_result" where
  "baseResult c m =
     \<lparr>erActionID = crActionID c, erCardID = crID c, erMode = m, erBlocked = False,
      erFailedGate = None, erExternalState = None, erRecommendOnlyState = None, erDidWrite = False\<rparr>"

definition blockedResult :: "card_row \<Rightarrow> mode \<Rightarrow> gate_outcome \<Rightarrow> execute_result" where
  "blockedResult c m g = (baseResult c m)\<lparr>erBlocked := True, erFailedGate := goFailed g\<rparr>"

fun reasonName :: "invalidation_reason \<Rightarrow> string" where
  "reasonName ReasonNone = []"
| "reasonName ReasonActionMismatch = ''action_mismatch''"
| "reasonName ReasonParameterChanged = ''parameter_version_changed''"
| "reasonName ReasonContextChanged = ''context_version_changed''"
| "reasonName ReasonPolicyChanged = ''policy_version_changed''"
| "reasonName ReasonCostChanged = ''cost_version_changed''"
| "reasonName ReasonEvidenceChanged = ''evidence_version_changed''"
| "reasonName ReasonExpired = ''expired''"

definition gateDetail :: "gate_outcome \<Rightarrow> snapshot" where
  "gateDetail g =
     (case goFailed g of None \<Rightarrow> [] | Some x \<Rightarrow> [(''gate'', SnapText (gateName x))])
     @ [(''reason'', SnapText (reasonName (goReason g)))]"

definition gateReason :: "string \<Rightarrow> gate_outcome \<Rightarrow> string" where
  "gateReason prefix g = prefix @ (case goFailed g of None \<Rightarrow> [] | Some x \<Rightarrow> gateName x)"

text \<open>\<open>replayWrite\<close>: the recorded state, and the move of a card left behind it.\<close>

definition replayWrite ::
  "exec_db \<Rightarrow> card_row \<Rightarrow> execution_row \<Rightarrow> actor \<Rightarrow> step_env
    \<Rightarrow> exec_db \<times> (execution_error, execute_result) result" where
  "replayWrite db c existing act env =
     (let extState = exExternalState existing; want = cardStateFor extState;
          res = (baseResult c ModeWrite)\<lparr>erExternalState := Some extState\<rparr> in
      if crState c = StateExecuting \<and> want = StatePendingReconciliation
      then
        (case bindingOf c of
           Inl e \<Rightarrow> (db, Inl e)
         | Inr b \<Rightarrow>
             (case advanceWithAudit db c StateExecuting want
                     (''recovery:converge_to_'' @ externalName extState)
                     (cardEvent c (crAccountID c) EventExternalResult act b
                        [(''external_state'', SnapText (externalName extState)),
                         (''external_ref'', SnapText (exExternalRef existing)),
                         (''wrote'', SnapBool False), (''recovery'', SnapBool True)]
                        (externalName extState)) [] env of
                Inr db' \<Rightarrow> (db', Inr res)
              | Inl ErrRejectedTransition \<Rightarrow> (db, Inr res)
              | Inl e \<Rightarrow> (db, Inl e)))
      else (db, Inr res))"

text \<open>The reads and checks of \<open>Execute\<close> before the write or recommend-only path.\<close>

definition loadCard :: "exec_db \<Rightarrow> uuid \<Rightarrow> pc" where
  "loadCard db i = (case edCards db i of None \<Rightarrow> PcDone (Inl ExecNoRows) | Some c \<Rightarrow> PcLoaded c)"

definition findExecution :: "exec_db \<Rightarrow> card_row \<Rightarrow> pc" where
  "findExecution db c =
     (case executionByAction db (crActionID c) of Some e \<Rightarrow> PcReplay c e | None \<Rightarrow> PcNoExecution c)"

definition findRecommendOnly :: "exec_db \<Rightarrow> card_row \<Rightarrow> pc" where
  "findRecommendOnly db c =
     (case edRecommendOnly db (crActionID c) of
        Some ro \<Rightarrow> PcDone (Inr ((baseResult c ModeRecommendOnly)\<lparr>erRecommendOnlyState := Some (roState ro)\<rparr>))
      | None \<Rightarrow>
          if crState c \<noteq> StateApproved \<and> \<not> (crState c = StateRevalidating \<or> crState c = StateExecuting)
          then PcDone (Inl ErrNotApproved) else PcResolve c)"

definition dispatch :: "card_row \<Rightarrow> (execution_error, revalidation_context) result \<Rightarrow> pc" where
  "dispatch c resolved =
     (case resolved of
        Inl e \<Rightarrow> PcDone (Inl e)
      | Inr rc \<Rightarrow>
          if canWrite (rcEnablement rc) then PcBegin c rc
          else if crState c \<noteq> StateApproved then PcDone (Inl ErrNotApproved)
          else PcRecommend c rc)"

text \<open>\<open>executeWrite\<close>: the prelude, the gate at Revalidating, the gate of a resumed Executing card.\<close>

definition beginWrite :: "exec_db \<Rightarrow> card_row \<Rightarrow> revalidation_context \<Rightarrow> exec_db \<times> pc" where
  "beginWrite db c rc =
     (case bindingOf c of
        Inl e \<Rightarrow> (db, PcDone (Inl e))
      | Inr _ \<Rightarrow>
          if crState c = StateApproved
          then (case advanceTx db (crID c) StateApproved StateRevalidating ''revalidation started'' of
                  Inl e \<Rightarrow> (db, PcDone (Inl e))
                | Inr db' \<Rightarrow> (db', PcGate c rc))
          else if crState c = StateRevalidating then (db, PcGate c rc)
          else (db, PcResumeGate c rc))"

definition gateWrite ::
  "exec_db \<Rightarrow> card_row \<Rightarrow> revalidation_context \<Rightarrow> bool \<Rightarrow> actor \<Rightarrow> step_env \<Rightarrow> exec_db \<times> pc" where
  "gateWrite db c rc notifier act env =
     (let g = evaluateGates (rcInputs rc); recovered = (crState c \<noteq> StateApproved) in
      case bindingOf c of
        Inl e \<Rightarrow> (db, PcDone (Inl e))
      | Inr b \<Rightarrow>
          if \<not> goOK g
          then (case advanceWithAudit db c StateRevalidating StateInvalidated (gateReason ''gate_blocked:'' g)
                       (cardEvent c (rcAccountID rc) EventRevalidationBlocked act b
                          (recoveryDetail (gateDetail g) recovered (crState c)) [])
                       [safetyFailureHook notifier (rcAccountID rc) (crActionID c) (crID c) (the (goFailed g))]
                       env of
                  Inl e \<Rightarrow> (db, PcDone (Inl e))
                | Inr db' \<Rightarrow> (db', PcDone (Inr (blockedResult c ModeWrite g))))
          else (case advanceWithAudit db c StateRevalidating StateExecuting ''revalidated; executing''
                       (cardEvent c (rcAccountID rc) EventExecutionStarted act b
                          (recoveryDetail [] recovered (crState c)) []) [] env of
                  Inl e \<Rightarrow> (db, PcDone (Inl e))
                | Inr db' \<Rightarrow> (db', PcClaim c rc)))"

definition resumeGate ::
  "exec_db \<Rightarrow> card_row \<Rightarrow> revalidation_context \<Rightarrow> bool \<Rightarrow> actor \<Rightarrow> step_env \<Rightarrow> exec_db \<times> pc" where
  "resumeGate db c rc notifier act env =
     (let g = evaluateGates (rcInputs rc);
          res = (blockedResult c ModeWrite g)\<lparr>erExternalState := Some ExtPendingReconciliation\<rparr> in
      if goOK g then (db, PcClaim c rc)
      else
        (case bindingOf c of
           Inl e \<Rightarrow> (db, PcDone (Inl e))
         | Inr b \<Rightarrow>
             (case advanceWithAudit db c StateExecuting StatePendingReconciliation
                     (gateReason ''gate_blocked_on_recovery:'' g)
                     (cardEvent c (rcAccountID rc) EventRevalidationBlocked act b
                        (recoveryDetail (gateDetail g @ [(''wrote'', SnapBool False)]) True (crState c))
                        (stateName StatePendingReconciliation))
                     [gateBlockedExecutionHook c (seRowID env),
                      safetyFailureHook notifier (rcAccountID rc) (crActionID c) (crID c) (the (goFailed g))]
                     env of
                Inr db' \<Rightarrow> (db', PcDone (Inr res))
              | Inl ErrRejectedTransition \<Rightarrow> (db, PcDone (Inr res))
              | Inl e \<Rightarrow> (db, PcDone (Inl e)))))"

text \<open>\<open>claimAndWrite\<close>: the durable claim, then the one external write.\<close>

definition writeRequest :: "card_row \<Rightarrow> revalidation_context \<Rightarrow> write_request" where
  "writeRequest c rc =
     \<lparr>wqIdempotencyKey = crIdempotencyKey c, wqVariantNativeID = rcVariantNativeID rc, wqPrice = crPrice c\<rparr>"

definition claimRow :: "card_row \<Rightarrow> uuid \<Rightarrow> execution_row" where
  "claimRow c i = (gateBlockedRow c i)\<lparr>exGateBlocked := False\<rparr>"

definition emptyWriteResult :: write_result where
  "emptyWriteResult = \<lparr>wsOutcome = OutcomeOther [], wsExternalRef = [], wsDetail = []\<rparr>"

definition claimWrite :: "exec_db \<Rightarrow> card_row \<Rightarrow> revalidation_context \<Rightarrow> step_env \<Rightarrow> exec_db \<times> pc" where
  "claimWrite db c rc env =
     (case insertExecution db (claimRow c (seRowID env)) of
        Inl e \<Rightarrow> (db, PcDone (Inl e))
      | Inr (db', Some row) \<Rightarrow> (db', PcWrite c rc row)
      | Inr (db', None) \<Rightarrow>
          (case executionByKey db (crIdempotencyKey c) of
             None \<Rightarrow> (db, PcDone (Inl ExecNoRows))
           | Some existing \<Rightarrow>
               (db, PcCommit c rc existing emptyWriteResult (exExternalState existing) False)))"

definition externalWrite ::
  "exec_db \<Rightarrow> card_row \<Rightarrow> revalidation_context \<Rightarrow> execution_row \<Rightarrow> write_result \<Rightarrow> exec_db \<times> pc" where
  "externalWrite db c rc row response =
     (db\<lparr>edWrites := edWrites db @ [(writeRequest c rc, rcInputs rc, rcEnablement rc)]\<rparr>,
      PcCommit c rc row response (classify response) True)"

definition outcomeWindow :: duration where "outcomeWindow = 7 * 24 * hour"

definition windowFor :: "card_row \<Rightarrow> instant \<Rightarrow> outcome_window_row" where
  "windowFor c opened =
     \<lparr>owCardID = optionalUUID (crID c), owOpenedAt = opened, owClosesAt = opened + outcomeWindow\<rparr>"

text \<open>\<open>redactedRequest\<close> and \<open>redactedResponse\<close>: what the external result record keeps.\<close>

definition outcomeName :: "write_outcome \<Rightarrow> string" where
  "outcomeName w =
     (case w of OutcomeAccepted \<Rightarrow> ''accepted'' | OutcomeRejected \<Rightarrow> ''rejected''
      | OutcomeFailed \<Rightarrow> ''failed'' | OutcomeUnknown \<Rightarrow> ''unknown'' | OutcomeOther s \<Rightarrow> s)"

definition redactedRequest :: "write_request \<Rightarrow> snapshot" where
  "redactedRequest rq =
     [(''idempotency_key'', SnapText (wqIdempotencyKey rq)),
      (''variant_native_id'', SnapInt (sint (wqVariantNativeID rq))),
      (''price_mantissa'', SnapInt (amt (wqPrice rq))),
      (''price_currency'', SnapText (currency (wqPrice rq))),
      (''price_exponent'', SnapInt (sint (exponent (wqPrice rq))))]"

definition redactedResponse :: "write_result \<Rightarrow> external_state \<Rightarrow> snapshot" where
  "redactedResponse r st =
     [(''outcome'', SnapText (outcomeName (wsOutcome r))),
      (''external_ref'', SnapText (wsExternalRef r)),
      (''external_state'', SnapText (externalName st))]"

definition resultDetail ::
  "card_row \<Rightarrow> revalidation_context \<Rightarrow> write_result \<Rightarrow> external_state \<Rightarrow> bool \<Rightarrow> snapshot" where
  "resultDetail c rc response st wrote =
     recoveryDetail
       ([(''external_state'', SnapText (externalName st)),
         (''external_ref'', SnapText (wsExternalRef response)), (''wrote'', SnapBool wrote),
         (''request'', SnapObject (redactedRequest (writeRequest c rc))),
         (''response'', SnapObject (redactedResponse response st))])
       (crState c \<noteq> StateApproved) (crState c)"

text \<open>\<open>commitWriteResult\<close>: one transaction.\<close>

definition commitWriteResult ::
  "exec_db \<Rightarrow> card_row \<Rightarrow> revalidation_context \<Rightarrow> execution_row \<Rightarrow> write_result \<Rightarrow> external_state
    \<Rightarrow> bool \<Rightarrow> bool \<Rightarrow> actor \<Rightarrow> step_env \<Rightarrow> (execution_error, exec_db) result" where
  "commitWriteResult db c rc claimed response st wrote notifier act env =
     andThen (bindingOf c) (\<lambda>b.
     (let db1 = (if wrote then resolveExecution db (exID claimed) st (wsExternalRef response) (seNow env) else db) in
      case advanceTx db1 (crID c) StateExecuting (cardStateFor st) (''external_result:'' @ externalName st) of
        Inl ErrRejectedTransition \<Rightarrow> Inr db1
      | Inl e \<Rightarrow> Inl e
      | Inr db2 \<Rightarrow>
          (let db3 = appendAudit db2 (seAuditID env) (seNow env)
                 (cardEvent c (rcAccountID rc) EventExternalResult act b
                    (resultDetail c rc response st wrote) (externalName st));
               db4 = (if extTerminal st
                      then appendAudit (openOutcomeWindow db3 (crActionID c) (windowFor c (seNow env)))
                             (seTerminalAuditID env) (seNow env)
                             (cardEvent c (rcAccountID rc) EventTerminal act b [] (externalName st))
                      else db3) in
           Inr (if st = ExtFailed \<and> notifier
                then db4\<lparr>edNotifications := edNotifications db4 @
                           [ExecutionFailure (rcAccountID rc) (crActionID c) (exID claimed)]\<rparr>
                else db4))))"

text \<open>\<open>recordRecommendOnly\<close>: its two transactions on a blocked gate, or its one otherwise.\<close>

definition recommendRow :: "card_row \<Rightarrow> revalidation_context \<Rightarrow> instant \<Rightarrow> recommend_only_row" where
  "recommendRow c rc now =
     \<lparr>roActionID = crActionID c, roCardID = crID c, roAccountID = crAccountID c,
      roVariantID = rcVariantID rc, roApprovedPrice = crPrice c, roApprovedAt = now,
      roWindowExpiresAt = now + matchWindow, roState = StateAwaitingExternalExecution,
      roMatchedObservationAt = None\<rparr>"

definition recordRecommendOnly ::
  "exec_db \<Rightarrow> card_row \<Rightarrow> revalidation_context \<Rightarrow> actor \<Rightarrow> step_env \<Rightarrow> exec_db \<times> pc" where
  "recordRecommendOnly db c rc act env =
     (case bindingOf c of
        Inl e \<Rightarrow> (db, PcDone (Inl e))
      | Inr b \<Rightarrow>
          (let g = evaluateGates (rcInputs rc) in
           if \<not> goOK g
           then (case advanceTx db (crID c) StateApproved StateRevalidating
                        ''revalidation started (recommend-only)'' of
                   Inl e \<Rightarrow> (db, PcDone (Inl e))
                 | Inr db' \<Rightarrow> (db', PcRecommendBlocked c rc g))
           else
             (let db1 = (if edRecommendOnly db (crActionID c) = None
                         then db\<lparr>edRecommendOnly :=
                                  (edRecommendOnly db)(crActionID c \<mapsto> recommendRow c rc (seNow env))\<rparr>
                         else db) in
              (appendAudit db1 (seAuditID env) (seNow env)
                 (cardEvent c (rcAccountID rc) EventRecommendOnly act b
                    [(''state'', SnapText ''awaiting_external_execution''),
                     (''window_expires_at'', SnapTime (seNow env + matchWindow))] []),
               PcDone (Inr ((baseResult c ModeRecommendOnly)
                 \<lparr>erRecommendOnlyState := Some StateAwaitingExternalExecution\<rparr>))))))"

definition recommendBlocked ::
  "exec_db \<Rightarrow> card_row \<Rightarrow> revalidation_context \<Rightarrow> gate_outcome \<Rightarrow> bool \<Rightarrow> actor \<Rightarrow> step_env \<Rightarrow> exec_db \<times> pc" where
  "recommendBlocked db c rc g notifier act env =
     (case bindingOf c of
        Inl e \<Rightarrow> (db, PcDone (Inl e))
      | Inr b \<Rightarrow>
          (case advanceWithAudit db c StateRevalidating StateInvalidated (gateReason ''gate_blocked:'' g)
                  (cardEvent c (rcAccountID rc) EventRevalidationBlocked act b
                     (gateDetail g @ [(''mode'', SnapText ''recommend_only'')]) [])
                  [safetyFailureHook notifier (rcAccountID rc) (crActionID c) (crID c) (the (goFailed g))] env of
             Inl e \<Rightarrow> (db, PcDone (Inl e))
           | Inr db' \<Rightarrow> (db', PcDone (Inr (blockedResult c ModeRecommendOnly g)))))"

text \<open>
  One step of an \<open>Execute\<close> call: one statement, transaction or external call, and where it goes next.
  The resolver's answer and the marketplace's response come from outside.
\<close>

record call_env =
  ceActor :: actor
  ceNotifier :: bool
  ceResolved :: "(execution_error, revalidation_context) result"
  ceResponse :: write_result
  ceStep :: step_env

fun procStep :: "call_env \<Rightarrow> exec_db \<Rightarrow> pc \<Rightarrow> exec_db \<times> pc" where
  "procStep ce db (PcStart i) = (db, loadCard db i)"
| "procStep ce db (PcLoaded c) = (db, findExecution db c)"
| "procStep ce db (PcReplay c e) =
     (case replayWrite db c e (ceActor ce) (ceStep ce) of (db', r) \<Rightarrow> (db', PcDone r))"
| "procStep ce db (PcNoExecution c) = (db, findRecommendOnly db c)"
| "procStep ce db (PcResolve c) = (db, dispatch c (ceResolved ce))"
| "procStep ce db (PcBegin c rc) = beginWrite db c rc"
| "procStep ce db (PcGate c rc) = gateWrite db c rc (ceNotifier ce) (ceActor ce) (ceStep ce)"
| "procStep ce db (PcResumeGate c rc) = resumeGate db c rc (ceNotifier ce) (ceActor ce) (ceStep ce)"
| "procStep ce db (PcClaim c rc) = claimWrite db c rc (ceStep ce)"
| "procStep ce db (PcWrite c rc row) = externalWrite db c rc row (ceResponse ce)"
| "procStep ce db (PcCommit c rc row response st wrote) =
     (case commitWriteResult db c rc row response st wrote (ceNotifier ce) (ceActor ce) (ceStep ce) of
        Inl e \<Rightarrow> (db, PcDone (Inl e))
      | Inr db' \<Rightarrow>
          (db', PcDone (Inr ((baseResult c ModeWrite)\<lparr>erExternalState := Some st, erDidWrite := wrote\<rparr>))))"
| "procStep ce db (PcRecommend c rc) = recordRecommendOnly db c rc (ceActor ce) (ceStep ce)"
| "procStep ce db (PcRecommendBlocked c rc g) =
     recommendBlocked db c rc g (ceNotifier ce) (ceActor ce) (ceStep ce)"
| "procStep ce db (PcDone r) = (db, PcDone r)"

text \<open>\<open>Execute\<close> with nothing in between: ten steps are more than any path has.\<close>

fun runProc :: "call_env \<Rightarrow> nat \<Rightarrow> exec_db \<times> pc \<Rightarrow> exec_db \<times> pc" where
  "runProc ce 0 st = st"
| "runProc ce (Suc n) st = runProc ce n (procStep ce (fst st) (snd st))"

definition executeFuel :: nat where "executeFuel = 10"

definition executeCall :: "call_env \<Rightarrow> exec_db \<Rightarrow> uuid \<Rightarrow> exec_db \<times> pc" where
  "executeCall ce db i = runProc ce executeFuel (db, PcStart i)"

definition retryAction :: "exec_db \<Rightarrow> uuid \<Rightarrow> (execution_error, unit) result" where
  "retryAction db a =
     (case executionByAction db a of
        None \<Rightarrow> Inl ErrNoExecution
      | Some e \<Rightarrow>
          (case exExternalState e of
             ExtPendingReconciliation \<Rightarrow> Inl ErrUnreconciled
           | ExtFailed \<Rightarrow> Inr ()
           | _ \<Rightarrow> Inl ErrAlreadyTerminal))"

text \<open>\<open>GetUnifiedAction\<close>: a write record takes precedence.\<close>

record unified_action =
  uaActionID :: uuid
  uaCardID :: uuid
  uaMode :: mode
  uaCanonical :: canonical_state
  uaExternalState :: "external_state option"
  uaExternalRef :: string
  uaReconciledAt :: "instant option"
  uaRecommendOnlyState :: "recommend_only_state option"
  uaMatchedObservationAt :: "instant option"

definition unifiedFromExecution :: "execution_row \<Rightarrow> unified_action" where
  "unifiedFromExecution e =
     \<lparr>uaActionID = exActionID e, uaCardID = exCardID e, uaMode = ModeWrite,
      uaCanonical = canonicalWrite (exExternalState e), uaExternalState = Some (exExternalState e),
      uaExternalRef = exExternalRef e, uaReconciledAt = exReconciledAt e,
      uaRecommendOnlyState = None, uaMatchedObservationAt = None\<rparr>"

definition unifiedFromRecommendOnly :: "recommend_only_row \<Rightarrow> unified_action" where
  "unifiedFromRecommendOnly r =
     \<lparr>uaActionID = roActionID r, uaCardID = roCardID r, uaMode = ModeRecommendOnly,
      uaCanonical = canonicalRecommendOnly (roState r), uaExternalState = None, uaExternalRef = [],
      uaReconciledAt = None, uaRecommendOnlyState = Some (roState r),
      uaMatchedObservationAt = roMatchedObservationAt r\<rparr>"

definition getUnifiedAction :: "exec_db \<Rightarrow> uuid \<Rightarrow> (execution_error, unified_action) result" where
  "getUnifiedAction db a =
     (case executionByAction db a of
        Some e \<Rightarrow> Inr (unifiedFromExecution e)
      | None \<Rightarrow>
          (case edRecommendOnly db a of
             Some r \<Rightarrow> Inr (unifiedFromRecommendOnly r)
           | None \<Rightarrow> Inl ExecNoRows))"

section \<open>Properties of the pure parts\<close>

lemma goOK_iff:
  "goOK (evaluateGates inp) \<longleftrightarrow>
     rvIdentityConfirmed inp \<and> rvCurrentPriceMatches inp \<and> \<not> rvMoneyUnitAmbiguous inp \<and>
     rvBoundaryKnown inp \<and> rvPermissionGranted inp \<and> rvJITFresh inp \<and>
     validateAgainst (rvBound inp) (rvCurrent inp) (rvNow inp) = ReasonNone"
  by (auto simp: evaluateGates_def Let_def failedGate_def validateAgainst_def expired_def)

text \<open>
  Further. The gate matrix passes exactly when the six external signals are good and the bound versions are
  valid against the current ones as the approval package decides it; otherwise it names a gate.
\<close>

theorem gates_agree_with_binding:
  "goOK (evaluateGates inp) = (rvIdentityConfirmed inp \<and> rvCurrentPriceMatches inp
     \<and> \<not> rvMoneyUnitAmbiguous inp \<and> rvBoundaryKnown inp \<and> rvPermissionGranted inp \<and> rvJITFresh inp
     \<and> bindingValid (rvBound inp) (rvCurrent inp) (rvNow inp))
   \<and> (goFailed (evaluateGates inp) = None) = goOK (evaluateGates inp)"
proof -
  have "(goFailed (evaluateGates inp) = None) = goOK (evaluateGates inp)"
    by (simp add: evaluateGates_def Let_def failedGate_def)
  then show ?thesis by (simp add: goOK_iff bindingValid_def)
qed

text \<open>
  Further. Recommend-only matching: externally executed exactly when some observation of the approved amount
  in the same unit was captured within 24 hours of the approval, whatever the other observations are;
  without one the action lapses once the 24 hours are over.
\<close>

theorem recommend_only_match:
  "fst (matchRecommendOnly inp) =
     (if (\<exists>obs. obs \<in> set (mtObservations inp) \<and> mtApprovedAt inp \<le> opObservedAt obs
            \<and> opObservedAt obs \<le> mtApprovedAt inp + 24 * hour \<and> sameUnit (opPrice obs) (mtApprovedPrice inp)
            \<and> amt (opPrice obs) = amt (mtApprovedPrice inp))
      then StateExternallyExecuted
      else if mtApprovedAt inp + 24 * hour \<le> mtNow inp then StateLapsed
      else StateAwaitingExternalExecution)"
proof -
  have m: "matchingObservation inp obs \<longleftrightarrow> mtApprovedAt inp \<le> opObservedAt obs
      \<and> opObservedAt obs \<le> mtApprovedAt inp + 24 * hour \<and> sameUnit (opPrice obs) (mtApprovedPrice inp)
      \<and> amt (opPrice obs) = amt (mtApprovedPrice inp)" for obs
    by (auto simp: matchingObservation_def matchWindow_def equalMoney_def andThen_Inr result_simps icmp_def
        word_sless_alt not_less sint64_eq_iff split: if_splits)
  show ?thesis
  proof (cases "find (matchingObservation inp) (mtObservations inp)")
    case None
    then have "\<forall>x. x \<in> set (mtObservations inp) \<longrightarrow> \<not> matchingObservation inp x"
      by (auto simp: find_None_iff)
    note n = this [unfolded m]
    show ?thesis using None by (auto simp: matchRecommendOnly_def matchWindow_def not_less dest!: n [rule_format])
  next
    case (Some obs)
    then have "obs \<in> set (mtObservations inp)" "matchingObservation inp obs"
      by (auto simp: find_Some_iff)
    note n = this [unfolded m]
    from n have "\<exists>x. x \<in> set (mtObservations inp) \<and> mtApprovedAt inp \<le> opObservedAt x
      \<and> opObservedAt x \<le> mtApprovedAt inp + 24 * hour \<and> sameUnit (opPrice x) (mtApprovedPrice inp)
      \<and> amt (opPrice x) = amt (mtApprovedPrice inp)" by blast
    then show ?thesis using Some by (simp add: matchRecommendOnly_def)
  qed
qed

text \<open>
  A gateway timeout, whose effect on the marketplace nobody knows, is classified as a definite failure.
\<close>

lemma gateway_timeout_failed: "classify (writeOutcome (Responded 504 ref)) = ExtFailed"
  by (simp add: classify_def writeOutcome_def)

end
