(* ===== verification/Reconcile.thy ===== *)
theory Reconcile
  imports Execution "HOL-Library.Multiset"
begin

text \<open>
  Reconciliation (services/core/internal/reconcile) over the executor's tables, the invalidation of
  stale cards (recommendation/service.go), and the interleavings of any number of \<open>Execute\<close> calls,
  crashes and reconciliations with the invariants that hold in all of them.
\<close>

section \<open>Reconciling a pending action (reconcile.go)\<close>

datatype resolution = ResolveAccepted | ResolveFailed | ResolutionOther string

datatype reconcile_error =
  ErrNotPending | ErrUnknownResolution | ErrGateBlockedNoWrite | ReconcileExec execution_error

definition resolutionValid :: "resolution \<Rightarrow> bool" where
  "resolutionValid r \<longleftrightarrow> r = ResolveAccepted \<or> r = ResolveFailed"

definition resolve :: "resolution \<Rightarrow> (reconcile_error, external_state \<times> state) result" where
  "resolve r =
     (case r of
        ResolveAccepted \<Rightarrow> Inr (ExtAccepted, StateAccepted)
      | ResolveFailed \<Rightarrow> Inr (ExtFailed, StateFailed)
      | ResolutionOther _ \<Rightarrow> Inl ErrUnknownResolution)"

definition systemActor :: actor where
  "systemActor = \<lparr>acID = [], acRole = [], acSurface = []\<rparr>"

definition reconcileEvent ::
  "uuid \<Rightarrow> card_row \<Rightarrow> event_type \<Rightarrow> binding \<Rightarrow> snapshot \<Rightarrow> snapshot \<Rightarrow> external_state \<Rightarrow> audit_event" where
  "reconcileEvent actionID c ty b snap detail outcome =
     \<lparr>aeActionID = actionID, aeCardID = crID c, aeAccountID = 0, aeType = ty, aeActor = systemActor,
      aeBinding = b, aeCardSnapshot = snap, aeDetail = detail,
      aeTerminalState = externalName outcome\<rparr>"

text \<open>The transaction of \<open>ReconcilePending\<close>.\<close>

definition reconcileTx ::
  "exec_db \<Rightarrow> execution_row \<Rightarrow> card_row \<Rightarrow> binding \<Rightarrow> external_state \<Rightarrow> state \<Rightarrow> string \<Rightarrow> step_env
    \<Rightarrow> (reconcile_error, exec_db) result" where
  "reconcileTx db e c b outcome cardState detail env =
     (let db1 = resolveExecution db (exID e) outcome (exExternalRef e) (seNow env) in
      andThen (mapErr ReconcileExec
        (advanceTx db1 (crID c) StatePendingReconciliation cardState (''reconciled:'' @ externalName outcome)))
        (\<lambda>db2.
        (let db3 = appendAudit db2 (seAuditID env) (seNow env)
               (reconcileEvent (exActionID e) c EventReconciliation b
                  [(''id'', SnapUUID (crID c)), (''action_id'', SnapUUID (crActionID c)),
                   (''state'', SnapText (stateName cardState))]
                  [(''resolution'', SnapText (externalName outcome)), (''detail'', SnapText detail),
                   (''prior_external_state'', SnapText (externalName (exExternalState e))),
                   (''external_ref'', SnapText (exExternalRef e))] outcome);
             db4 = openOutcomeWindow db3 (exActionID e) (windowFor c (seNow env)) in
         Inr (appendAudit db4 (seTerminalAuditID env) (seNow env)
           (reconcileEvent (exActionID e) c EventTerminal b [] [] outcome)))))"

definition reconcilePending ::
  "exec_db \<Rightarrow> uuid \<Rightarrow> resolution \<Rightarrow> string \<Rightarrow> step_env \<Rightarrow> (reconcile_error, exec_db) result" where
  "reconcilePending db actionID r detail env =
     andThen (resolve r) (\<lambda>(outcome, cardState).
     (case executionByAction db actionID of
        None \<Rightarrow> Inl ErrNotPending
      | Some e \<Rightarrow>
          if exExternalState e \<noteq> ExtPendingReconciliation then Inl ErrNotPending
          else if exGateBlocked e \<and> r = ResolveAccepted then Inl ErrGateBlockedNoWrite
          else
            (case edCards db (exCardID e) of
               None \<Rightarrow> Inl (ReconcileExec ExecNoRows)
             | Some c \<Rightarrow>
                 andThen (mapErr ReconcileExec (bindingOf c)) (\<lambda>b.
                 reconcileTx db e c b outcome cardState detail env))))"

section \<open>Invalidating stale cards (recommendation/service.go)\<close>

definition invalidateApprovedCard :: "exec_db \<Rightarrow> uuid \<Rightarrow> string \<Rightarrow> (execution_error, exec_db) result" where
  "invalidateApprovedCard db i reason =
     andThen (advanceTx db i StateApproved StateRevalidating reason) (\<lambda>db1.
     advanceTx db1 i StateRevalidating StateInvalidated reason)"

definition invalidateDependent :: "exec_db \<Rightarrow> uuid \<Rightarrow> state \<Rightarrow> string \<Rightarrow> (execution_error, exec_db) result" where
  "invalidateDependent db i st_from reason =
     (if st_from = StateApproved then invalidateApprovedCard db i reason
      else if \<not> canTransition st_from StateInvalidated then Inl ErrRejectedTransition
      else advanceTx db i st_from StateInvalidated reason)"

text \<open>\<open>ExpireDependentForVariant\<close> over the live cards its query listed.\<close>

fun expireDependent :: "exec_db \<Rightarrow> (uuid \<times> state) list \<Rightarrow> string \<Rightarrow> exec_db \<times> (execution_error, nat) result" where
  "expireDependent db [] reason = (db, Inr 0)"
| "expireDependent db ((i, st_from) # cs) reason =
     (case invalidateDependent db i st_from reason of
        Inl ErrRejectedTransition \<Rightarrow> expireDependent db cs reason
      | Inl e \<Rightarrow> (db, Inl e)
      | Inr db' \<Rightarrow>
          (case expireDependent db' cs reason of (db'', r) \<Rightarrow> (db'', andThen r (\<lambda>n. Inr (Suc n)))))"

section \<open>What each transaction changes\<close>

text \<open>The columns of an execution record that never change.\<close>

definition claims :: "exec_db \<Rightarrow> (uuid \<times> string \<times> bool) list" where
  "claims db = map (\<lambda>e. (exID e, exIdempotencyKey e, exGateBlocked e)) (edExecutions db)"

definition writeKeys :: "exec_db \<Rightarrow> string list" where
  "writeKeys db = map (\<lambda>w. wqIdempotencyKey (fst w)) (edWrites db)"

lemma advanceTx_ok:
  "advanceTx db i f t reason = Inr db' \<longleftrightarrow>
     canTransition f t \<and> (\<exists>c. edCards db i = Some c \<and> crState c = f \<and>
       db' = db\<lparr>edCards := (edCards db)(i \<mapsto> c\<lparr>crState := t\<rparr>),
                edCardStates := edCardStates db @
                  [\<lparr>csCardID = i, csFromState = Some f, csToState = t, csReason = reason\<rparr>]\<rparr>)"
  by (auto simp: advanceTx_def advance_def canTransition_def transitions_def stateValid_def allStates_def
      split: option.splits if_splits)

lemma insertExecution_ok:
  "insertExecution db row = Inr (db', r) \<longleftrightarrow>
     (executionByKey db (exIdempotencyKey row) \<noteq> None \<and> db' = db \<and> r = None \<or>
      executionByKey db (exIdempotencyKey row) = None \<and> executionByAction db (exActionID row) = None \<and>
      \<not> list_ex (\<lambda>e. exID e = exID row) (edExecutions db) \<and> db' = db\<lparr>edExecutions := edExecutions db @ [row]\<rparr> \<and> r = Some row)"
  by (auto simp: insertExecution_def)

lemma executionByKey_None: "executionByKey db k = None \<longleftrightarrow> k \<notin> (\<lambda>x. fst (snd x)) ` set (claims db)"
  by (force simp: executionByKey_def claims_def find_None_iff)

text \<open>A transaction that neither claims nor writes.\<close>

definition quiet :: "exec_db \<Rightarrow> exec_db \<Rightarrow> bool" where
  "quiet db db' \<longleftrightarrow> claims db' = claims db \<and> edWrites db' = edWrites db"

lemma quiet_refl [simp, intro]: "quiet db db"
  by (simp add: quiet_def)

lemma quiet_trans: "quiet a b \<Longrightarrow> quiet b c \<Longrightarrow> quiet a c"
  by (simp add: quiet_def)

lemma quiet_advanceTx: "advanceTx db i f t reason = Inr db' \<Longrightarrow> quiet db db'"
  by (auto simp: advanceTx_ok quiet_def claims_def)

lemma claims_simps [simp]:
  "claims (appendAudit db i now ev) = claims db"
  "claims (resolveExecution db j st ref now) = claims db"
  "claims (openOutcomeWindow db a row) = claims db"
  "claims (db\<lparr>edNotifications := n\<rparr>) = claims db"
  "claims (db\<lparr>edRecommendOnly := ro\<rparr>) = claims db"
  by (simp_all add: claims_def appendAudit_def resolveExecution_def openOutcomeWindow_def comp_def if_distrib
      cong: if_cong)

lemma writes_simps [simp]:
  "edWrites (appendAudit db i now ev) = edWrites db"
  "edWrites (resolveExecution db j st ref now) = edWrites db"
  "edWrites (openOutcomeWindow db a row) = edWrites db"
  by (simp_all add: appendAudit_def resolveExecution_def openOutcomeWindow_def)

lemma quiet_safetyHook: "safetyFailureHook n a b c g db = Inr db' \<Longrightarrow> quiet db db'"
  by (auto simp: safetyFailureHook_def quiet_def)

lemma quiet_advanceWithAudit:
  assumes "advanceWithAudit db c f t reason ev hooks env = Inr db'"
    and "\<And>a b. runHooks hooks a = Inr b \<Longrightarrow> quiet a b"
  shows "quiet db db'"
proof -
  from assms(1) obtain a where a: "advanceTx db (crID c) f t reason = Inr a"
    and h: "runHooks hooks (appendAudit a (seAuditID env) (seNow env) ev) = Inr db'"
    by (auto simp: advanceWithAudit_def andThen_Inr)
  from quiet_advanceTx [OF a] assms(2) [OF h] show ?thesis by (simp add: quiet_def)
qed

lemma quiet_noHooks: "runHooks [] a = Inr b \<Longrightarrow> quiet a b"
  by simp

lemma quiet_safetyHooks: "runHooks [safetyFailureHook n x y z g] a = Inr b \<Longrightarrow> quiet a b"
  by (auto simp: andThen_Inr dest: quiet_safetyHook)

lemma quiet_commit:
  assumes "commitWriteResult db c rc row response st wrote n act env = Inr db'"
  shows "quiet db db'"
proof -
  let ?db1 = "if wrote then resolveExecution db (exID row) st (wsExternalRef response) (seNow env) else db"
  have q1: "quiet db ?db1" by (simp add: quiet_def)
  show ?thesis
  proof (cases "advanceTx ?db1 (crID c) StateExecuting (cardStateFor st) (''external_result:'' @ externalName st)")
    case (Inl e)
    then have "db' = ?db1"
      using assms by (auto simp: commitWriteResult_def andThen_Inr Let_def split: execution_error.splits)
    with q1 show ?thesis by simp
  next
    case (Inr db2)
    have "quiet db2 db'"
      using assms Inr
      by (auto simp: commitWriteResult_def andThen_Inr Let_def quiet_def simp del: externalName.simps)
    with q1 quiet_advanceTx [OF Inr] show ?thesis by (blast intro: quiet_trans)
  qed
qed

section \<open>The steps of a call\<close>

fun pcKey :: "pc \<Rightarrow> string option" where
  "pcKey (PcWrite c rc row) = Some (crIdempotencyKey c)"
| "pcKey _ = None"

fun pcCleared :: "pc \<Rightarrow> bool" where
  "pcCleared (PcBegin c rc) = canWrite (rcEnablement rc)"
| "pcCleared (PcGate c rc) = canWrite (rcEnablement rc)"
| "pcCleared (PcResumeGate c rc) = canWrite (rcEnablement rc)"
| "pcCleared (PcClaim c rc) = (canWrite (rcEnablement rc) \<and> goOK (evaluateGates (rcInputs rc)))"
| "pcCleared (PcWrite c rc row) = (canWrite (rcEnablement rc) \<and> goOK (evaluateGates (rcInputs rc)))"
| "pcCleared _ = True"

lemma quiet_replay: "replayWrite db c e act env = (db', r) \<Longrightarrow> quiet db db'"
  using quiet_advanceWithAudit [OF _ quiet_noHooks]
  by (fastforce simp: replayWrite_def Let_def split: if_splits sum.splits execution_error.splits)

lemma quiet_gateWrite:
  "gateWrite db c rc n act env = (db', p) \<Longrightarrow> canWrite (rcEnablement rc) \<Longrightarrow>
     quiet db db' \<and> pcKey p = None \<and> pcCleared p"
  using quiet_advanceWithAudit [OF _ quiet_noHooks] quiet_advanceWithAudit [OF _ quiet_safetyHooks]
  by (fastforce simp: gateWrite_def Let_def simp del: runHooks.simps split: if_splits sum.splits)

lemma quiet_beginWrite:
  "beginWrite db c rc = (db', p) \<Longrightarrow> canWrite (rcEnablement rc) \<Longrightarrow>
     quiet db db' \<and> pcKey p = None \<and> pcCleared p"
  using quiet_advanceTx by (fastforce simp: beginWrite_def split: if_splits sum.splits)

lemma quiet_recommend:
  "recordRecommendOnly db c rc act env = (db', p) \<Longrightarrow> quiet db db' \<and> pcKey p = None \<and> pcCleared p"
  using quiet_advanceTx
  by (fastforce simp: recordRecommendOnly_def Let_def quiet_def split: if_splits sum.splits)

lemma quiet_recommendBlocked:
  "recommendBlocked db c rc g n act env = (db', p) \<Longrightarrow> quiet db db' \<and> pcKey p = None \<and> pcCleared p"
  using quiet_advanceWithAudit [OF _ quiet_safetyHooks]
  by (fastforce simp: recommendBlocked_def simp del: runHooks.simps split: sum.splits)

lemma insert_claims:
  assumes "insertExecution db row = Inr (db', r)"
  shows "edWrites db' = edWrites db \<and>
     (r = None \<and> claims db' = claims db \<or>
      r = Some row \<and> claims db' = claims db @ [(exID row, exIdempotencyKey row, exGateBlocked row)] \<and>
      exIdempotencyKey row \<notin> (\<lambda>x. fst (snd x)) ` set (claims db))"
  using assms by (auto simp: insertExecution_ok executionByKey_None claims_def)

lemma resumeHooks_claims:
  assumes "runHooks [gateBlockedExecutionHook c i, safetyFailureHook n x y z g] a = Inr b"
  shows "edWrites b = edWrites a \<and>
     (claims b = claims a \<or> claims b = claims a @ [(i, crIdempotencyKey c, True)] \<and>
        crIdempotencyKey c \<notin> (\<lambda>x. fst (snd x)) ` set (claims a))"
proof -
  from assms obtain a1 r where i: "insertExecution a (gateBlockedRow c i) = Inr (a1, r)"
    and h: "safetyFailureHook n x y z g a1 = Inr b"
    by (auto simp: gateBlockedExecutionHook_def andThen_Inr)
  from quiet_safetyHook [OF h] insert_claims [OF i] show ?thesis
    by (auto simp: quiet_def gateBlockedRow_def)
qed

lemma resumeGate_claims:
  assumes "resumeGate db c rc n act env = (db', p)" and "canWrite (rcEnablement rc)"
  shows "edWrites db' = edWrites db \<and> pcKey p = None \<and> pcCleared p \<and>
     (claims db' = claims db \<or> claims db' = claims db @ [(seRowID env, crIdempotencyKey c, True)] \<and>
        crIdempotencyKey c \<notin> (\<lambda>x. fst (snd x)) ` set (claims db))"
proof (cases "goOK (evaluateGates (rcInputs rc))")
  case True
  then show ?thesis using assms by (auto simp: resumeGate_def Let_def)
next
  case False
  let ?g = "evaluateGates (rcInputs rc)"
  let ?hooks = "[gateBlockedExecutionHook c (seRowID env),
      safetyFailureHook n (rcAccountID rc) (crActionID c) (crID c) (the (goFailed ?g))]"
  have adv: "edWrites d = edWrites db \<and>
     (claims d = claims db \<or> claims d = claims db @ [(seRowID env, crIdempotencyKey c, True)] \<and>
        crIdempotencyKey c \<notin> (\<lambda>x. fst (snd x)) ` set (claims db))"
    if w: "advanceWithAudit db c f t reason ev ?hooks env = Inr d" for f t reason ev d
  proof -
    from w obtain a where a: "advanceTx db (crID c) f t reason = Inr a"
      and h: "runHooks ?hooks (appendAudit a (seAuditID env) (seNow env) ev) = Inr d"
      by (auto simp: advanceWithAudit_def andThen_Inr simp del: runHooks.simps)
    from quiet_advanceTx [OF a] resumeHooks_claims [OF h] show ?thesis by (simp add: quiet_def)
  qed
  show ?thesis
    using assms(1) False adv
    by (auto simp: resumeGate_def Let_def simp del: runHooks.simps split: sum.splits execution_error.splits)
qed

lemma claimWrite_claims:
  assumes "claimWrite db c rc env = (db', p)" and "canWrite (rcEnablement rc) \<and> goOK (evaluateGates (rcInputs rc))"
  shows "edWrites db' = edWrites db \<and> pcCleared p \<and>
     (claims db' = claims db \<and> pcKey p = None \<or>
      claims db' = claims db @ [(seRowID env, crIdempotencyKey c, False)] \<and> pcKey p = Some (crIdempotencyKey c) \<and>
        crIdempotencyKey c \<notin> (\<lambda>x. fst (snd x)) ` set (claims db))"
proof (cases "insertExecution db (claimRow c (seRowID env))")
  case (Inl e)
  then show ?thesis using assms by (auto simp: claimWrite_def)
next
  case (Inr q)
  then obtain d r where q: "insertExecution db (claimRow c (seRowID env)) = Inr (d, r)" by (cases q) auto
  from insert_claims [OF q] assms q show ?thesis
    by (auto simp: claimWrite_def claimRow_def gateBlockedRow_def split: option.splits)
qed

section \<open>Interleavings\<close>

text \<open>
  Any number of calls, each between two of its steps; a call may start, move, or vanish (a crash), and a
  reconciliation may run, at any time.
\<close>

type_synonym world = "exec_db \<times> pc list"

inductive worldStep :: "world \<Rightarrow> world \<Rightarrow> bool" where
  call: "worldStep (db, ps) (db, PcStart i # ps)"
| move: "procStep ce db p = (db', p') \<Longrightarrow> worldStep (db, ps @ p # qs) (db', ps @ p' # qs)"
| crash: "worldStep (db, ps @ p # qs) (db, ps @ qs)"
| reconcile: "reconcilePending db a r detail env = Inr db' \<Longrightarrow> worldStep (db, ps) (db', ps)"

definition initialDb :: "exec_db \<Rightarrow> bool" where
  "initialDb db \<longleftrightarrow>
     edExecutions db = [] \<and> edWrites db = [] \<and>
     (\<forall>i c. edCards db i = Some c \<longrightarrow>
        crID c = i \<and> crState c \<notin> {StateAccepted, StateRejected, StateFailed})"

inductive worldReachable :: "world \<Rightarrow> bool" where
  start: "initialDb db \<Longrightarrow> worldReachable (db, [])"
| step: "worldReachable w \<Longrightarrow> worldStep w w' \<Longrightarrow> worldReachable w'"

definition inFlight :: "pc list \<Rightarrow> string list" where
  "inFlight ps = concat (map (\<lambda>p. case pcKey p of None \<Rightarrow> [] | Some k \<Rightarrow> [k]) ps)"

definition keyHits :: "exec_db \<Rightarrow> pc list \<Rightarrow> string \<Rightarrow> nat" where
  "keyHits db ps k = count (mset (writeKeys db)) k + count (mset (inFlight ps)) k"

definition onceOk :: "world \<Rightarrow> bool" where
  "onceOk w \<longleftrightarrow>
     distinct (map (\<lambda>x. fst (snd x)) (claims (fst w))) \<and>
     (\<forall>k. keyHits (fst w) (snd w) k \<le> 1 \<and>
        (0 < keyHits (fst w) (snd w) k \<longrightarrow> (\<exists>i. (i, k, False) \<in> set (claims (fst w))))) \<and>
     (\<forall>p \<in> set (snd w). pcCleared p) \<and>
     (\<forall>(req, inp, en) \<in> set (edWrites (fst w)). canWrite en \<and> goOK (evaluateGates inp))"

lemma inFlight_split:
  "mset (inFlight (ps @ p # qs)) =
     mset (inFlight (ps @ qs)) + (case pcKey p of None \<Rightarrow> {#} | Some k \<Rightarrow> {#k#})"
  by (cases "pcKey p") (simp_all add: inFlight_def)

lemma keyHits_split:
  "keyHits db (ps @ p # qs) k = keyHits db (ps @ qs) k + (if pcKey p = Some k then 1 else 0)"
  unfolding keyHits_def inFlight_split by (auto split: option.splits)

lemma keyHits_quiet: "edWrites db' = edWrites db \<Longrightarrow> keyHits db' ps k = keyHits db ps k"
  by (simp add: keyHits_def writeKeys_def)

text \<open>How a step changes the claims, the writes and the key the call holds.\<close>

lemma procStep_claims:
  assumes "procStep ce db p = (db', p')" and "pcCleared p"
  shows "pcCleared p' \<and>
    (pcKey p = None \<and> pcKey p' = None \<and> edWrites db' = edWrites db \<and>
        (claims db' = claims db \<or>
         (\<exists>i k. claims db' = claims db @ [(i, k, True)] \<and> k \<notin> (\<lambda>x. fst (snd x)) ` set (claims db)))
     \<or> pcKey p = None \<and> edWrites db' = edWrites db \<and>
        (\<exists>i k. pcKey p' = Some k \<and> claims db' = claims db @ [(i, k, False)] \<and>
            k \<notin> (\<lambda>x. fst (snd x)) ` set (claims db))
     \<or> (\<exists>req inp en. pcKey p = Some (wqIdempotencyKey req) \<and> pcKey p' = None \<and> claims db' = claims db \<and>
            edWrites db' = edWrites db @ [(req, inp, en)] \<and> canWrite en \<and> goOK (evaluateGates inp)))"
proof (cases p)
  case (PcStart i)
  then show ?thesis using assms by (auto simp: loadCard_def split: option.splits)
next
  case (PcLoaded c)
  then show ?thesis using assms by (auto simp: findExecution_def split: option.splits)
next
  case (PcReplay c e)
  then obtain r where "replayWrite db c e (ceActor ce) (ceStep ce) = (db', r)" "p' = PcDone r"
    using assms(1) by (auto split: prod.splits)
  with quiet_replay PcReplay show ?thesis by (fastforce simp: quiet_def)
next
  case (PcNoExecution c)
  then show ?thesis using assms by (auto simp: findRecommendOnly_def split: option.splits if_splits)
next
  case (PcResolve c)
  then show ?thesis using assms by (auto simp: dispatch_def split: sum.splits if_splits)
next
  case (PcBegin c rc)
  then show ?thesis using assms quiet_beginWrite [of db c rc db' p'] by (auto simp: quiet_def)
next
  case (PcGate c rc)
  then show ?thesis
    using assms quiet_gateWrite [of db c rc "ceNotifier ce" "ceActor ce" "ceStep ce" db' p'] by (auto simp: quiet_def)
next
  case (PcResumeGate c rc)
  then show ?thesis
    using assms resumeGate_claims [of db c rc "ceNotifier ce" "ceActor ce" "ceStep ce" db' p'] by auto
next
  case (PcClaim c rc)
  then show ?thesis using assms claimWrite_claims [of db c rc "ceStep ce" db' p'] by auto
next
  case (PcWrite c rc row)
  then show ?thesis using assms by (auto simp: externalWrite_def writeRequest_def claims_def)
next
  case (PcCommit c rc row response st wrote)
  then show ?thesis
    using assms quiet_commit [of db c rc row response st wrote "ceNotifier ce" "ceActor ce" "ceStep ce"]
    by (auto simp: quiet_def split: sum.splits)
next
  case (PcRecommend c rc)
  then show ?thesis using assms quiet_recommend [of db c rc "ceActor ce" "ceStep ce" db' p'] by (auto simp: quiet_def)
next
  case (PcRecommendBlocked c rc g)
  then show ?thesis
    using assms quiet_recommendBlocked [of db c rc g "ceNotifier ce" "ceActor ce" "ceStep ce" db' p']
    by (auto simp: quiet_def)
next
  case (PcDone r)
  then show ?thesis using assms by auto
qed

lemma onceOkD:
  assumes "onceOk (db, ps)"
  shows "distinct (map (\<lambda>x. fst (snd x)) (claims db))" and "keyHits db ps k \<le> 1"
    and "0 < keyHits db ps k \<Longrightarrow> \<exists>i. (i, k, False) \<in> set (claims db)"
    and "p \<in> set ps \<Longrightarrow> pcCleared p"
    and "\<forall>(req, inp, en) \<in> set (edWrites db). canWrite en \<and> goOK (evaluateGates inp)"
  using assms by (simp_all add: onceOk_def)

lemma onceOkI:
  assumes "distinct (map (\<lambda>x. fst (snd x)) (claims db))" and "\<And>k. keyHits db ps k \<le> 1"
    and "\<And>k. 0 < keyHits db ps k \<Longrightarrow> \<exists>i. (i, k, False) \<in> set (claims db)"
    and "\<And>p. p \<in> set ps \<Longrightarrow> pcCleared p"
    and "\<forall>(req, inp, en) \<in> set (edWrites db). canWrite en \<and> goOK (evaluateGates inp)"
  shows "onceOk (db, ps)"
  using assms by (simp add: onceOk_def)

lemma keyHits_zero:
  assumes "onceOk (db, ps)" and "k \<notin> (\<lambda>x. fst (snd x)) ` set (claims db)"
  shows "keyHits db ps k = 0"
  using onceOkD(3) [OF assms(1), of k] assms(2) by force

lemma onceOk_move:
  assumes "procStep ce db p = (db', p')" and ok: "onceOk (db, ps @ p # qs)"
  shows "onceOk (db', ps @ p' # qs)"
proof -
  let ?key = "\<lambda>x :: uuid \<times> string \<times> bool. fst (snd x)"
  note d = onceOkD [OF ok] and zero = keyHits_zero [OF ok]
  have cl: "pcCleared p" by (rule d(4)) simp
  note step = procStep_claims [OF assms(1) cl]
  have cls: "r \<in> set (ps @ p' # qs) \<Longrightarrow> pcCleared r" for r using step d(4) by auto
  from step [THEN conjunct2] show ?thesis
  proof (elim disjE conjE exE)
    assume a: "pcKey p = None" "pcKey p' = None" "edWrites db' = edWrites db" "claims db' = claims db"
    then have n: "keyHits db' (ps @ p' # qs) k = keyHits db (ps @ p # qs) k" for k
      by (simp add: keyHits_split keyHits_quiet [OF a(3)])
    show ?thesis
    proof (rule onceOkI)
      show "keyHits db' (ps @ p' # qs) j \<le> 1" for j unfolding n by (rule d(2))
      show "\<exists>i. (i, j, False) \<in> set (claims db')" if "0 < keyHits db' (ps @ p' # qs) j" for j
        using d(3) that n a(4) by simp
    qed (use cls d(1,5) a(3,4) in auto)
  next
    fix i k
    assume a: "pcKey p = None" "pcKey p' = None" "edWrites db' = edWrites db"
      and c: "claims db' = claims db @ [(i, k, True)]" "k \<notin> ?key ` set (claims db)"
    then have n: "keyHits db' (ps @ p' # qs) j = keyHits db (ps @ p # qs) j" for j
      by (simp add: keyHits_split keyHits_quiet [OF a(3)])
    show ?thesis
    proof (rule onceOkI)
      show "distinct (map ?key (claims db'))" using d(1) c by simp
      show "keyHits db' (ps @ p' # qs) j \<le> 1" for j unfolding n by (rule d(2))
      show "\<exists>i. (i, j, False) \<in> set (claims db')" if "0 < keyHits db' (ps @ p' # qs) j" for j
        using d(3) that n c by auto
    qed (use cls d(5) a(3) in auto)
  next
    fix i k
    assume a: "pcKey p = None" "pcKey p' = Some k" "edWrites db' = edWrites db"
      and c: "claims db' = claims db @ [(i, k, False)]" "k \<notin> ?key ` set (claims db)"
    then have n: "keyHits db' (ps @ p' # qs) j = keyHits db (ps @ p # qs) j + (if j = k then 1 else 0)" for j
      by (simp add: keyHits_split keyHits_quiet [OF a(3)])
    have z: "keyHits db (ps @ p # qs) k = 0" by (rule zero [OF c(2)])
    show ?thesis
    proof (rule onceOkI)
      show "distinct (map ?key (claims db'))" using d(1) c by simp
      show "keyHits db' (ps @ p' # qs) j \<le> 1" for j
      proof (cases "j = k")
        case True
        then show ?thesis using z n by simp
      next
        case False
        then show ?thesis using d(2) [of j] n by simp
      qed
      show "\<exists>i. (i, j, False) \<in> set (claims db')" if "0 < keyHits db' (ps @ p' # qs) j" for j
      proof (cases "j = k")
        case True
        then show ?thesis using c by auto
      next
        case False
        then show ?thesis using d(3) [of j] that n c by auto
      qed
    qed (use cls d(5) a(3) in auto)
  next
    fix req inp en
    assume a: "pcKey p = Some (wqIdempotencyKey req)" "pcKey p' = None" "claims db' = claims db"
      and w: "edWrites db' = edWrites db @ [(req, inp, en)]" "canWrite en" "goOK (evaluateGates inp)"
    then have n: "keyHits db' (ps @ p' # qs) k = keyHits db (ps @ p # qs) k" for k
      unfolding keyHits_split by (simp add: keyHits_def writeKeys_def)
    show ?thesis
    proof (rule onceOkI)
      show "keyHits db' (ps @ p' # qs) j \<le> 1" for j unfolding n by (rule d(2))
      show "\<exists>i. (i, j, False) \<in> set (claims db')" if "0 < keyHits db' (ps @ p' # qs) j" for j
        using d(3) that n a(3) by simp
    qed (use cls d(1,5) a(3) w in auto)
  qed
qed

lemma reconcilePending_ok:
  assumes "reconcilePending db a r detail env = Inr db'"
  obtains t s e c b where "resolve r = Inr (t, s)" "executionByAction db a = Some e"
    "exExternalState e = ExtPendingReconciliation" "\<not> (exGateBlocked e \<and> r = ResolveAccepted)"
    "edCards db (exCardID e) = Some c" "bindingOf c = Inr b" "reconcileTx db e c b t s detail env = Inr db'"
proof (cases "resolve r")
  case (Inl x)
  then show thesis using assms by (simp add: reconcilePending_def)
next
  case (Inr ts)
  obtain t s where ts: "ts = (t, s)" by (cases ts)
  show thesis
  proof (cases "executionByAction db a")
    case None
    then show thesis using assms Inr ts by (simp add: reconcilePending_def)
  next
    case (Some e)
    show thesis
    proof (cases "edCards db (exCardID e)")
      case None
      then show thesis using assms Inr ts Some by (simp add: reconcilePending_def split: if_splits)
    next
      case c: (Some c)
      from assms Inr ts Some c obtain b where "bindingOf c = Inr b"
        "exExternalState e = ExtPendingReconciliation" "\<not> (exGateBlocked e \<and> r = ResolveAccepted)"
        "reconcileTx db e c b t s detail env = Inr db'"
        by (auto simp: reconcilePending_def andThen_Inr mapErr_Inr split: if_splits)
      with Inr ts Some c show thesis by (intro that) simp_all
    qed
  qed
qed

lemma reconcile_quiet:
  assumes "reconcilePending db a r detail env = Inr db'"
  shows "quiet db db'"
  using assms
proof (cases rule: reconcilePending_ok)
  case (1 t s e c b)
  then obtain d where "advanceTx (resolveExecution db (exID e) t (exExternalRef e) (seNow env)) (crID c)
      StatePendingReconciliation s (''reconciled:'' @ externalName t) = Inr d" and "quiet d db'"
    by (auto simp: reconcileTx_def Let_def andThen_Inr mapErr_Inr quiet_def)
  from quiet_advanceTx [OF this(1)] this(2) show ?thesis by (simp add: quiet_def)
qed

lemma onceOk_step:
  assumes "worldStep w w'" and "onceOk w"
  shows "onceOk w'"
  using assms
proof (cases rule: worldStep.cases)
  case (call db ps i)
  then have n: "keyHits db (PcStart i # ps) k = keyHits db ps k" for k
    using keyHits_split [of db "[]"] by simp
  from call assms(2) have ok: "onceOk (db, ps)" by simp
  show ?thesis unfolding call(2)
    by (rule onceOkI) (use onceOkD [OF ok] n in auto)
next
  case (move ce db p db' p' ps qs)
  then show ?thesis using onceOk_move [OF move(3), of ps qs] assms(2) by simp
next
  case (crash db ps p qs)
  from crash assms(2) have ok: "onceOk (db, ps @ p # qs)" by simp
  have n: "keyHits db (ps @ qs) k \<le> keyHits db (ps @ p # qs) k" for k by (simp add: keyHits_split)
  show ?thesis unfolding crash(2)
  proof (rule onceOkI)
    show "keyHits db (ps @ qs) k \<le> 1" for k using n onceOkD(2) [OF ok] by (rule le_trans)
    show "\<exists>i. (i, k, False) \<in> set (claims db)" if "0 < keyHits db (ps @ qs) k" for k
      using onceOkD(3) [OF ok] less_le_trans [OF that n] by blast
  qed (use onceOkD(1,4,5) [OF ok] in auto)
next
  case (reconcile db a r detail env db' ps)
  then have q: "quiet db db'" by (simp add: reconcile_quiet)
  from reconcile assms(2) have ok: "onceOk (db, ps)" by simp
  from q have w: "edWrites db' = edWrites db" and c: "claims db' = claims db" by (simp_all add: quiet_def)
  note n = keyHits_quiet [OF w, of ps]
  show ?thesis unfolding reconcile(2)
    by (rule onceOkI) (use onceOkD [OF ok] in \<open>auto simp: w c n\<close>)
qed

lemma onceOk_reachable: "worldReachable w \<Longrightarrow> onceOk w"
proof (induction rule: worldReachable.induct)
  case (start db)
  then show ?case by (simp add: initialDb_def onceOk_def keyHits_def writeKeys_def inFlight_def claims_def)
next
  case (step w w')
  then show ?case by (blast intro: onceOk_step)
qed

section \<open>Properties\<close>

text \<open>
  C1. At most one external write per idempotency key, however calls, retries, crashes and
  reconciliations interleave: no two requests ever sent carry the same key, every key sent has its
  claim on record (not a gate-blocked marker), and every request was sent by a call whose resolved
  inputs passed all nine gates with writing enabled.
\<close>

theorem at_most_one_write:
  assumes "worldReachable (db, ps)"
  shows "distinct (writeKeys db)
    \<and> set (writeKeys db) \<subseteq> {exIdempotencyKey e | e. e \<in> set (edExecutions db) \<and> \<not> exGateBlocked e}
    \<and> list_all (\<lambda>(req, inp, en). canWrite en \<and> goOK (evaluateGates inp)) (edWrites db)"
proof -
  note ok = onceOk_reachable [OF assms]
  have c: "count (mset (writeKeys db)) k \<le> 1" for k
    using onceOkD(2) [OF ok, of k] by (simp add: keyHits_def)
  have "distinct (writeKeys db)"
    unfolding distinct_count_atmost_1
  proof
    fix k
    show "count (mset (writeKeys db)) k = (if k \<in> set (writeKeys db) then 1 else 0)"
      using c [of k] count_greater_zero_iff [of "mset (writeKeys db)" k] by (simp add: Suc_le_eq le_antisym)
  qed
  moreover have "\<exists>e. k = exIdempotencyKey e \<and> e \<in> set (edExecutions db) \<and> \<not> exGateBlocked e"
    if "k \<in> set (writeKeys db)" for k
  proof -
    from that have "0 < keyHits db ps k" by (simp add: keyHits_def)
    with onceOkD(3) [OF ok] obtain i where "(i, k, False) \<in> set (claims db)" by blast
    then show ?thesis by (auto simp: claims_def)
  qed
  ultimately show ?thesis using onceOkD(5) [OF ok] by (auto simp: list_all_iff)
qed

lemma worldReachable_run:
  "worldReachable (db, ps @ p # qs) \<Longrightarrow> runProc ce n (db, p) = (db', p') \<Longrightarrow>
     worldReachable (db', ps @ p' # qs)"
proof (induction n arbitrary: db p)
  case 0
  then show ?case by simp
next
  case (Suc n)
  obtain d q where s: "procStep ce db p = (d, q)" by (cases "procStep ce db p")
  from worldReachable.step [OF Suc.prems(1) move [OF s]] Suc.IH Suc.prems(2) s show ?case by simp
qed

text \<open>A concrete approved card, its resolved context and a call on it.\<close>

definition demoCard :: card_row where
  "demoCard =
     \<lparr>crID = 1, crLineageID = 2, crRecommendationID = 3, crAccountID = 4, crVersion = 1,
      crState = StateApproved, crActionID = 7, crParameterVersion = 1, crContextVersion = 1,
      crPolicyVersion = 1, crCostProfileVersion = 1, crEvidence = Some fmempty,
      crIdempotencyKey = ''action:7:pv:1'',
      crPrice = \<lparr>mantissa = 100, currency = ''IRR'', exponent = 0\<rparr>, crExpiresAt = 1000, crCreatedAt = 0\<rparr>"

definition demoBinding :: binding where
  "demoBinding =
     \<lparr>bnActionID = 7, bnParameterVersion = 1, bnContextVersion = 1, bnPolicyVersion = 1,
      bnCostProfileVersion = 1, bnEvidenceVersions = fmempty, bnExpiry = 1000\<rparr>"

definition demoContext :: revalidation_context where
  "demoContext =
     \<lparr>rcInputs = \<lparr>rvBound = demoBinding, rvCurrent = demoBinding, rvNow = 5, rvIdentityConfirmed = True,
        rvCurrentPriceMatches = True, rvMoneyUnitAmbiguous = False, rvBoundaryKnown = True,
        rvPermissionGranted = True, rvJITFresh = True\<rparr>,
      rcEnablement = \<lparr>enCapabilitySupported = True, enRegionWriteVerified = True\<rparr>,
      rcAccountID = 4, rcVariantID = 5, rcVariantNativeID = 6\<rparr>"

definition demoCall :: call_env where
  "demoCall =
     \<lparr>ceActor = systemActor, ceNotifier = True, ceResolved = Inr demoContext,
      ceResponse = \<lparr>wsOutcome = OutcomeAccepted, wsExternalRef = ''batch'', wsDetail = []\<rparr>,
      ceStep = \<lparr>seNow = 5, seAuditID = 11, seTerminalAuditID = 12, seRowID = 13\<rparr>\<rparr>"

definition demoTables :: exec_db where
  "demoTables =
     \<lparr>edCards = [1 \<mapsto> demoCard], edCardStates = [], edExecutions = [], edRecommendOnly = Map.empty,
      edWindows = Map.empty, edAudit = [], edNotifications = [], edWrites = []\<rparr>"

definition demoInFlight :: "exec_db \<times> pc" where
  "demoInFlight = runProc demoCall 7 (demoTables, PcStart 1)"

lemma demo_gates: "goOK (evaluateGates (rcInputs demoContext))"
  by (simp add: goOK_iff demoContext_def validateAgainst_def expired_def demoBinding_def)

lemma demo_init: "initialDb demoTables"
  by (auto simp: initialDb_def demoTables_def demoCard_def)

lemmas run_eval =
  loadCard_def findExecution_def findRecommendOnly_def dispatch_def beginWrite_def gateWrite_def
  claimWrite_def externalWrite_def commitWriteResult_def replayWrite_def advanceWithAudit_def
  insertExecution_def executionByAction_def executionByKey_def advanceTx_def bindingOf_def
  advance_def stateValid_def allStates_def canTransition_def transitions_def cardStateFor_def
  classify_def extTerminal_def resolveExecution_def openOutcomeWindow_def claimRow_def
  gateBlockedRow_def canWrite_def Let_def

lemma demo_inFlight:
  "\<exists>d. demoInFlight = (d, PcWrite demoCard demoContext (claimRow demoCard 13)) \<and>
     edExecutions d = [claimRow demoCard 13] \<and> edCards d = [1 \<mapsto> demoCard\<lparr>crState := StateExecuting\<rparr>] \<and>
     edWindows d = Map.empty \<and> edWrites d = []"
  using demo_gates
  by (simp add: demoInFlight_def numeral_eq_Suc run_eval demoTables_def demoCard_def demoCall_def)
    (simp add: demoContext_def appendAudit_def)

theorem at_most_one_write_witness:
  "\<exists>db ps. worldReachable (db, ps) \<and> writeKeys db = [''action:7:pv:1''] \<and> distinct (writeKeys db)"
proof -
  obtain d where d: "runProc demoCall 7 (demoTables, PcStart 1) = (d, PcWrite demoCard demoContext (claimRow demoCard 13))"
    "edWrites d = []"
    using demo_inFlight by (auto simp: demoInFlight_def)
  have "worldReachable (demoTables, [PcStart 1])"
    by (rule worldReachable.step [OF start [OF demo_init] call])
  then have "worldReachable (d, [PcWrite demoCard demoContext (claimRow demoCard 13)])"
    using worldReachable_run [of demoTables "[]" "PcStart 1" "[]" demoCall 7] d(1) by simp
  moreover obtain d' q where q: "runProc demoCall 1 (d, PcWrite demoCard demoContext (claimRow demoCard 13)) = (d', q)"
    by (cases "runProc demoCall 1 (d, PcWrite demoCard demoContext (claimRow demoCard 13))")
  ultimately have r: "worldReachable (d', [q])"
    using worldReachable_run [of d "[]" _ "[]" demoCall 1] by simp
  from q d(2) have "writeKeys d' = [''action:7:pv:1'']"
    by (auto simp: externalWrite_def writeKeys_def writeRequest_def demoCard_def)
  with r at_most_one_write [OF r] show ?thesis by blast
qed

text \<open>The second call on the card in flight, and then the end of the first call.\<close>

definition demoDuplicate :: "exec_db \<times> pc" where
  "demoDuplicate = runProc demoCall 3 (fst demoInFlight, PcStart 1)"

definition demoStranded :: "exec_db \<times> pc" where
  "demoStranded = runProc demoCall 2 (fst demoDuplicate, snd demoInFlight)"

definition demoMove :: "state \<Rightarrow> state \<Rightarrow> string \<Rightarrow> card_state_row" where
  "demoMove f t reason = \<lparr>csCardID = 1, csFromState = Some f, csToState = t, csReason = reason\<rparr>"

definition demoFlightTables :: exec_db where
  "demoFlightTables =
     demoTables\<lparr>edCards := [1 \<mapsto> demoCard\<lparr>crState := StateExecuting\<rparr>],
        edCardStates := [demoMove StateApproved StateRevalidating ''revalidation started'',
          demoMove StateRevalidating StateExecuting ''revalidated; executing''],
        edExecutions := [claimRow demoCard 13],
        edAudit := [auditRecord 11 5 (cardEvent demoCard 4 EventExecutionStarted systemActor demoBinding [] [])]\<rparr>"

lemma demo_inFlight_eval:
  "demoInFlight = (demoFlightTables, PcWrite demoCard demoContext (claimRow demoCard 13))"
  using demo_gates
  by (simp add: demoInFlight_def numeral_eq_Suc run_eval demoTables_def demoCard_def demoCall_def
      demoFlightTables_def demoMove_def)
    (simp add: demoContext_def appendAudit_def auditAppend_def recoveryDetail_def demoBinding_def)

definition demoDuplicateEvent :: audit_event where
  "demoDuplicateEvent =
     cardEvent (demoCard\<lparr>crState := StateExecuting\<rparr>) 4 EventExternalResult systemActor demoBinding
       [(''external_state'', SnapText ''pending_reconciliation''), (''external_ref'', SnapText []),
        (''wrote'', SnapBool False), (''recovery'', SnapBool True)] ''pending_reconciliation''"

definition demoDuplicateTables :: exec_db where
  "demoDuplicateTables =
     demoFlightTables\<lparr>edCards := [1 \<mapsto> demoCard\<lparr>crState := StatePendingReconciliation\<rparr>],
        edCardStates := edCardStates demoFlightTables @
          [demoMove StateExecuting StatePendingReconciliation ''recovery:converge_to_pending_reconciliation''],
        edAudit := edAudit demoFlightTables @ [auditRecord 11 5 demoDuplicateEvent]\<rparr>"

lemma demo_duplicate_eval:
  "demoDuplicate =
     (demoDuplicateTables,
      PcDone (Inr ((baseResult (demoCard\<lparr>crState := StateExecuting\<rparr>) ModeWrite)
        \<lparr>erExternalState := Some ExtPendingReconciliation\<rparr>)))"
  by (simp add: demoDuplicate_def demo_inFlight_eval numeral_eq_Suc run_eval demoTables_def demoCard_def
      demoCall_def demoFlightTables_def demoDuplicateTables_def demoDuplicateEvent_def demoMove_def
      baseResult_def appendAudit_def auditAppend_def demoBinding_def systemActor_def)

lemma demo_stranded_eval:
  "demoStranded =
     (resolveExecution (demoDuplicateTables\<lparr>edWrites := [(writeRequest demoCard demoContext, rcInputs demoContext,
          rcEnablement demoContext)]\<rparr>) 13 ExtAccepted ''batch'' 5,
      PcDone (Inr ((baseResult demoCard ModeWrite)\<lparr>erExternalState := Some ExtAccepted, erDidWrite := True\<rparr>)))"
  by (simp add: demoStranded_def demo_duplicate_eval demo_inFlight_eval numeral_eq_Suc run_eval demoTables_def
      demoCard_def demoCall_def demoFlightTables_def demoDuplicateTables_def baseResult_def)

text \<open>
  Further. A second call while the first is writing strands the card: the replay takes the first call's
  claim for a crash and parks the card, the first call's accepted result then finds the card gone
  from executing and commits only the record.  All calls have returned without error, and the card
  is pending reconciliation for an accepted write with no terminal audit record and no outcome
  window, which reconciliation refuses to resolve.
\<close>

theorem duplicate_call_strands_card:
  "\<exists>db ps. worldReachable (db, ps) \<and> list_all (\<lambda>p. case p of PcDone r \<Rightarrow> isOk r | _ \<Rightarrow> False) ps
     \<and> map_option crState (edCards db 1) = Some StatePendingReconciliation
     \<and> map_option exExternalState (executionByAction db 7) = Some ExtAccepted
     \<and> \<not> hasTerminal (reproduce (edAudit db) 7) \<and> edWindows db 7 = None
     \<and> (\<forall>r detail env. reconcilePending db 7 r detail env \<in> {Inl ErrNotPending, Inl ErrUnknownResolution})"
proof -
  let ?w = "PcWrite demoCard demoContext (claimRow demoCard 13)"
  have "worldReachable (demoTables, [PcStart 1])"
    by (rule worldReachable.step [OF start [OF demo_init] call])
  then have "worldReachable (demoFlightTables, [?w])"
    using worldReachable_run [of demoTables "[]" "PcStart 1" "[]" demoCall 7] demo_inFlight_eval
    by (simp add: demoInFlight_def)
  then have "worldReachable (demoFlightTables, [PcStart 1, ?w])"
    by (rule worldReachable.step [OF _ call])
  then have "worldReachable (demoDuplicateTables, [snd demoDuplicate, ?w])"
    using worldReachable_run [of demoFlightTables "[]" "PcStart 1" "[?w]" demoCall 3] demo_duplicate_eval
    by (simp add: demoDuplicate_def demo_inFlight_eval)
  then have r: "worldReachable (fst demoStranded, [snd demoDuplicate, snd demoStranded])"
    using worldReachable_run [of demoDuplicateTables "[snd demoDuplicate]" ?w "[]" demoCall 2]
      prod.collapse [of demoStranded]
    by (simp add: demoStranded_def demo_duplicate_eval demo_inFlight_eval del: prod.collapse)
  have e: "executionByAction (fst demoStranded) 7 = Some ((claimRow demoCard 13)
      \<lparr>exExternalState := ExtAccepted, exExternalRef := ''batch'', exReconciledAt := Some 5\<rparr>)"
    by (simp add: demo_stranded_eval resolveExecution_def executionByAction_def demoDuplicateTables_def
        demoFlightTables_def claimRow_def gateBlockedRow_def demoCard_def)
  have n: "reconcilePending (fst demoStranded) 7 r detail env \<in> {Inl ErrNotPending, Inl ErrUnknownResolution}"
    for r detail env
    using e by (cases r) (simp_all add: reconcilePending_def resolve_def)
  have a: "edAudit (fst demoStranded) = edAudit demoDuplicateTables"
    "map arEventType (edAudit demoDuplicateTables) = [EventExecutionStarted, EventExternalResult]"
    by (simp_all add: demo_stranded_eval resolveExecution_def demoDuplicateTables_def demoFlightTables_def
        demoDuplicateEvent_def cardEvent_def)
  then have "\<not> hasTerminal (reproduce (edAudit (fst demoStranded)) 7)"
    by (auto simp: hasTerminal_def list_ex_iff map_eq_Cons_conv)
  moreover have "map_option crState (edCards (fst demoStranded) 1) = Some StatePendingReconciliation"
    "edWindows (fst demoStranded) 7 = None"
    by (simp_all add: demo_stranded_eval resolveExecution_def demoDuplicateTables_def demoFlightTables_def
        demoTables_def)
  moreover have "list_all (\<lambda>p. case p of PcDone r \<Rightarrow> isOk r | _ \<Rightarrow> False) [snd demoDuplicate, snd demoStranded]"
    by (simp add: demo_stranded_eval demo_duplicate_eval)
  ultimately show ?thesis using r e n
    by (intro exI [of _ "fst demoStranded"] exI [of _ "[snd demoDuplicate, snd demoStranded]"]) simp
qed

text \<open>
  Further. A card approved after a price edit of an executed action is never written: the edit keeps the
  action id, so the call finds the record of the earlier price and answers with its state, whatever
  the resolver and the marketplace would say; the tables do not change.
\<close>

theorem edited_card_replays_old_result:
  assumes "edCards db i = Some c" and "crState c = StateApproved"
    and "executionByAction db (crActionID c) = Some e" and "exIdempotencyKey e \<noteq> crIdempotencyKey c"
  shows "executeCall ce db i =
    (db, PcDone (Inr ((baseResult c ModeWrite)\<lparr>erExternalState := Some (exExternalState e)\<rparr>)))"
  using assms
  by (simp add: executeCall_def executeFuel_def numeral_eq_Suc loadCard_def findExecution_def replayWrite_def Let_def)

theorem edited_card_replays_old_result_witness:
  "snd (executeCall demoCall
      (demoTables\<lparr>edCards := [1 \<mapsto> demoCard\<lparr>crParameterVersion := 2, crIdempotencyKey := ''action:7:pv:2''\<rparr>],
         edExecutions := [(claimRow demoCard 13)\<lparr>exExternalState := ExtAccepted\<rparr>]\<rparr>) 1) =
   PcDone (Inr ((baseResult demoCard ModeWrite)\<lparr>erExternalState := Some ExtAccepted\<rparr>))"
proof -
  let ?c = "demoCard\<lparr>crParameterVersion := 2, crIdempotencyKey := ''action:7:pv:2''\<rparr>"
  let ?e = "(claimRow demoCard 13)\<lparr>exExternalState := ExtAccepted\<rparr>"
  let ?db = "demoTables\<lparr>edCards := [1 \<mapsto> ?c], edExecutions := [?e]\<rparr>"
  have "edCards ?db 1 = Some ?c" by simp
  moreover have "crState ?c = StateApproved" by (simp add: demoCard_def)
  moreover have "executionByAction ?db (crActionID ?c) = Some ?e"
    by (simp add: executionByAction_def claimRow_def gateBlockedRow_def demoCard_def)
  moreover have "exIdempotencyKey ?e \<noteq> crIdempotencyKey ?c"
    by (simp add: claimRow_def gateBlockedRow_def demoCard_def)
  ultimately show ?thesis
    using edited_card_replays_old_result [of ?db 1 ?c ?e demoCall] by (simp add: baseResult_def)
qed

end
