(* ===== verification/Observation.thy ===== *)
theory Observation
  imports Money Normalize
begin

text \<open>
  The observation store (services/core/internal/observation): the six-state evidence quality machine
  (quality.go), capture validation and tiers (evidence.go), the parser registry (registry.go), replay
  and evidence keys (dedup.go), and ingest, expiry sweep and drift downgrade over the tables
  (service.go, queries/observation.sql), with the capture upload endpoint (httpapi/observation.go).
  Instants count from Go's zero time.
\<close>

section \<open>Quality (quality.go)\<close>

type_synonym utext = "rune list"

datatype quality = Verified | Supported | Unverified | Conflicted | Stale | Unavailable | QualityOther utext

definition allQualities :: "quality list" where
  "allQualities = [Verified, Supported, Unverified, Conflicted, Stale, Unavailable]"

definition qualityValid :: "quality \<Rightarrow> bool" where
  "qualityValid q \<longleftrightarrow> (case q of QualityOther _ \<Rightarrow> False | _ \<Rightarrow> True)"

datatype display_mode = DisplayFull | DisplayWithWarning | DisplayWithConflict | DisplayAgeOnly | DisplayStateOnly
datatype execute_mode = ExecuteNever | ExecuteIfGatesPass | ExecuteAfterJITRefresh

record consequence =
  cqDisplay :: display_mode
  cqCanShowValue :: bool
  cqRecommend :: bool
  cqExecute :: execute_mode
  cqCanExecute :: bool

definition consequenceMatrix :: "quality \<rightharpoonup> consequence" where
  "consequenceMatrix =
     [Verified \<mapsto> \<lparr>cqDisplay = DisplayFull, cqCanShowValue = True, cqRecommend = True,
        cqExecute = ExecuteIfGatesPass, cqCanExecute = True\<rparr>,
      Supported \<mapsto> \<lparr>cqDisplay = DisplayFull, cqCanShowValue = True, cqRecommend = True,
        cqExecute = ExecuteAfterJITRefresh, cqCanExecute = True\<rparr>,
      Unverified \<mapsto> \<lparr>cqDisplay = DisplayWithWarning, cqCanShowValue = True, cqRecommend = False,
        cqExecute = ExecuteNever, cqCanExecute = False\<rparr>,
      Conflicted \<mapsto> \<lparr>cqDisplay = DisplayWithConflict, cqCanShowValue = True, cqRecommend = False,
        cqExecute = ExecuteNever, cqCanExecute = False\<rparr>,
      Stale \<mapsto> \<lparr>cqDisplay = DisplayAgeOnly, cqCanShowValue = False, cqRecommend = False,
        cqExecute = ExecuteNever, cqCanExecute = False\<rparr>,
      Unavailable \<mapsto> \<lparr>cqDisplay = DisplayStateOnly, cqCanShowValue = False, cqRecommend = False,
        cqExecute = ExecuteNever, cqCanExecute = False\<rparr>]"

definition consequenceOf :: "quality \<Rightarrow> consequence" where
  "consequenceOf q =
     (case consequenceMatrix q of Some c \<Rightarrow> c | None \<Rightarrow> the (consequenceMatrix Unavailable))"

definition satisfiesCurrentDataGate :: "quality \<Rightarrow> bool" where
  "satisfiesCurrentDataGate q \<longleftrightarrow> q = Verified \<or> q = Supported \<or> q = Unverified"

record quality_signals =
  qsHasValue :: bool
  qsDisappeared :: bool
  qsFresh :: bool
  qsSchemaValid :: bool
  qsIdentityValid :: bool
  qsLowConfidence :: bool
  qsConflicted :: bool
  qsCorroborated :: bool
  qsHasHistory :: bool

definition deriveQuality :: "quality_signals \<Rightarrow> quality" where
  "deriveQuality s =
     (if \<not> qsHasValue s \<or> qsDisappeared s then Unavailable
      else if \<not> qsFresh s then Stale
      else if \<not> qsSchemaValid s \<or> \<not> qsIdentityValid s then Unverified
      else if qsConflicted s then Conflicted
      else if qsLowConfidence s then Unverified
      else if qsCorroborated s then Verified
      else if qsHasHistory s then Supported
      else Unverified)"

section \<open>Captures (evidence.go)\<close>

datatype route = RouteA | RouteB | RouteC | RouteOther utext
datatype source_type =
  SourcePublicWebEndpoint | SourceEmbeddedJSON | SourceDOM | SourceUserTriggered | SourceOfficialAPI
| SourceOther utext
datatype availability = InStock | OutOfStock | Limited | TempUnavail | Disappeared | AvailabilityOther utext
datatype confidence = ConfVerified | ConfPartiallyVerified | ConfUnverified | ConfOther utext
datatype tier = TierPriority | TierStandard | TierBackground | TierOther utext

definition routeValid :: "route \<Rightarrow> bool" where
  "routeValid r \<longleftrightarrow> r = RouteA \<or> r = RouteB \<or> r = RouteC"

definition sourceValid :: "source_type \<Rightarrow> bool" where
  "sourceValid s \<longleftrightarrow> (case s of SourceOther _ \<Rightarrow> False | _ \<Rightarrow> True)"

definition availabilityValid :: "availability \<Rightarrow> bool" where
  "availabilityValid a \<longleftrightarrow> (case a of AvailabilityOther _ \<Rightarrow> False | _ \<Rightarrow> True)"

definition availabilityHasValue :: "availability \<Rightarrow> bool" where
  "availabilityHasValue a \<longleftrightarrow> a \<noteq> Disappeared"

definition confidenceValid :: "confidence \<Rightarrow> bool" where
  "confidenceValid c \<longleftrightarrow> c = ConfVerified \<or> c = ConfPartiallyVerified \<or> c = ConfUnverified"

definition confidenceLow :: "confidence \<Rightarrow> bool" where
  "confidenceLow c \<longleftrightarrow> c \<noteq> ConfVerified \<and> c \<noteq> ConfPartiallyVerified"

definition tierWindows :: "tier \<rightharpoonup> duration \<times> duration" where
  "tierWindows =
     [TierPriority \<mapsto> (60 * minute, 60 * minute), TierStandard \<mapsto> (6 * hour, 6 * hour),
      TierBackground \<mapsto> (24 * hour, 24 * hour)]"

definition tierWindow :: "tier \<Rightarrow> duration \<times> duration" where
  "tierWindow t =
     (case tierWindows t of Some w \<Rightarrow> w
      | None \<Rightarrow> (case tierWindows TierStandard of Some w \<Rightarrow> w | None \<Rightarrow> (0, 0)))"

record capture =
  cpTargetID :: uuid
  cpAccount :: uuid
  cpNativeVariantID :: int64
  cpNativeSellerID :: utext
  cpOfferIdentity :: utext
  cpRoute :: route
  cpSubRoute :: utext
  cpSourceType :: source_type
  cpSourceURL :: utext
  cpParserVersion :: utext
  cpConnectorVersion :: utext
  cpEvidenceRef :: utext
  cpRawFixtureRef :: utext
  cpPrice :: raw_amount
  cpListPrice :: raw_amount
  cpAvailability :: availability
  cpStockSignal :: "int64 option"
  cpCapturedAt :: instant
  cpConfidence :: confidence
  cpParsingWarnings :: "utext list"
  cpSchemaValid :: bool

definition canonicalOfferIdentity :: "int64 \<Rightarrow> utext \<Rightarrow> utext" where
  "canonicalOfferIdentity nativeVariantID sellerID =
     runes ''v'' @ runes (formatInt (sint nativeVariantID)) @ runes '':s'' @ trimSpace sellerID"

definition resolvedOfferIdentity :: "capture \<Rightarrow> utext" where
  "resolvedOfferIdentity c =
     (if trimSpace (cpOfferIdentity c) \<noteq> [] then cpOfferIdentity c
      else canonicalOfferIdentity (cpNativeVariantID c) (cpNativeSellerID c))"

definition hasCurrentPriceValue :: "capture \<Rightarrow> bool" where
  "hasCurrentPriceValue c \<longleftrightarrow> availabilityHasValue (cpAvailability c) \<and> isStructurallyComplete (cpPrice c)"

text \<open>The names \<open>Validate\<close> reports, in its order; an empty list is a nil error.\<close>

definition missingFields :: "capture \<Rightarrow> string list" where
  "missingFields c =
     (if cpTargetID c = 0 then [''targetId''] else []) @
     (if cpAccount c = 0 then [''marketplaceAccountId''] else []) @
     (if cpNativeVariantID c = 0 then [''nativeVariantId''] else []) @
     (if \<not> routeValid (cpRoute c) then [''route''] else []) @
     (if \<not> sourceValid (cpSourceType c) then [''sourceType''] else []) @
     (if trimSpace (cpParserVersion c) = [] then [''parserVersion''] else []) @
     (if trimSpace (cpEvidenceRef c) = [] then [''evidenceRef''] else []) @
     (if \<not> availabilityValid (cpAvailability c) then [''availabilityStatus''] else []) @
     (if \<not> confidenceValid (cpConfidence c) then [''confidence''] else []) @
     (if cpCapturedAt c = 0 then [''capturedAt''] else [])"

section \<open>The parser registry (registry.go)\<close>

record parser_support =
  psSourceType :: source_type
  psParserVersion :: utext
  psConnectorVersions :: "utext list"

record connector_set =
  cnAny :: bool
  cnConnectors :: "utext list"

type_synonym parser_registry = "source_type \<times> utext \<rightharpoonup> connector_set"

definition registerParser :: "parser_registry \<Rightarrow> parser_support \<Rightarrow> parser_registry" where
  "registerParser reg e =
     (if trimSpace (psParserVersion e) = [] \<or> \<not> sourceValid (psSourceType e) then reg
      else
        (let k = (psSourceType e, psParserVersion e);
             cur = (case reg k of Some s \<Rightarrow> s | None \<Rightarrow> \<lparr>cnAny = False, cnConnectors = []\<rparr>)
         in reg(k \<mapsto> \<lparr>cnAny = cnAny cur \<or> length (psConnectorVersions e) = 0,
                      cnConnectors = cnConnectors cur @ psConnectorVersions e\<rparr>)))"

definition newParserRegistry :: "parser_support list \<Rightarrow> parser_registry" where
  "newParserRegistry entries = foldl registerParser Map.empty entries"

definition defaultParserRegistry :: parser_registry where
  "defaultParserRegistry = newParserRegistry
     [\<lparr>psSourceType = SourcePublicWebEndpoint, psParserVersion = runes ''routec-parser/1.0.0'',
       psConnectorVersions = []\<rparr>,
      \<lparr>psSourceType = SourcePublicWebEndpoint, psParserVersion = runes ''dk-product@1.0.0'',
       psConnectorVersions = [runes ''market-ops-ext@0.1.0'']\<rparr>]"

definition supportedParser :: "parser_registry \<Rightarrow> source_type \<Rightarrow> utext \<Rightarrow> utext \<Rightarrow> bool" where
  "supportedParser reg sourceType parserVersion connectorVersion =
     (if trimSpace parserVersion = [] then False
      else
        (case reg (sourceType, parserVersion) of
           None \<Rightarrow> False
         | Some s \<Rightarrow> if cnAny s then True else connectorVersion \<in> set (cnConnectors s)))"

datatype rejection_reason = RejectionBlankParserVersion | RejectionUnknownParser | RejectionConnectorIncompatible

definition classifyRejection :: "parser_registry \<Rightarrow> source_type \<Rightarrow> utext \<Rightarrow> utext \<Rightarrow> rejection_reason" where
  "classifyRejection reg sourceType parserVersion connectorVersion =
     (if trimSpace parserVersion = [] then RejectionBlankParserVersion
      else
        (case reg (sourceType, parserVersion) of
           None \<Rightarrow> RejectionUnknownParser
         | Some s \<Rightarrow>
             if cnAny s then RejectionUnknownParser
             else if connectorVersion \<notin> set (cnConnectors s) then RejectionConnectorIncompatible
             else RejectionUnknownParser))"

section \<open>Replay and evidence keys (dedup.go)\<close>

text \<open>\<open>UUID.String\<close>, RFC 3339 formatting and hex-encoded sha256 are code of other modules.\<close>

record codec =
  cdUUID :: "uuid \<Rightarrow> utext"
  cdTime :: "instant \<Rightarrow> utext"
  cdHash :: "utext \<Rightarrow> utext"

definition routeText :: "route \<Rightarrow> utext" where
  "routeText r = (case r of RouteA \<Rightarrow> runes ''route_a'' | RouteB \<Rightarrow> runes ''route_b''
     | RouteC \<Rightarrow> runes ''route_c'' | RouteOther t \<Rightarrow> t)"

definition availabilityText :: "availability \<Rightarrow> utext" where
  "availabilityText a = (case a of InStock \<Rightarrow> runes ''in_stock'' | OutOfStock \<Rightarrow> runes ''out_of_stock''
     | Limited \<Rightarrow> runes ''limited'' | TempUnavail \<Rightarrow> runes ''unavailable''
     | Disappeared \<Rightarrow> runes ''disappeared'' | AvailabilityOther t \<Rightarrow> t)"

definition sourceText :: "source_type \<Rightarrow> utext" where
  "sourceText s = (case s of SourcePublicWebEndpoint \<Rightarrow> runes ''public-web-endpoint''
     | SourceEmbeddedJSON \<Rightarrow> runes ''embedded-json'' | SourceDOM \<Rightarrow> runes ''dom''
     | SourceUserTriggered \<Rightarrow> runes ''user-triggered-request''
     | SourceOfficialAPI \<Rightarrow> runes ''official-api'' | SourceOther t \<Rightarrow> t)"

definition confidenceText :: "confidence \<Rightarrow> utext" where
  "confidenceText c = (case c of ConfVerified \<Rightarrow> runes ''verified''
     | ConfPartiallyVerified \<Rightarrow> runes ''partially_verified'' | ConfUnverified \<Rightarrow> runes ''unverified''
     | ConfOther t \<Rightarrow> t)"

definition boolRunes :: "bool \<Rightarrow> utext" where
  "boolRunes b = (if b then runes ''true'' else runes ''false'')"

definition stockSignalToken :: "int64 option \<Rightarrow> utext" where
  "stockSignalToken v = (case v of None \<Rightarrow> 0 # runes ''nil'' | Some n \<Rightarrow> runes (formatInt (sint n)))"

fun joinWith :: "rune \<Rightarrow> utext list \<Rightarrow> utext" where
  "joinWith sep [] = []"
| "joinWith sep [p] = p"
| "joinWith sep (p # q # ps) = p @ sep # joinWith sep (q # ps)"

definition dedupParts :: "codec \<Rightarrow> capture \<Rightarrow> utext list" where
  "dedupParts cd c =
     [cdUUID cd (cpTargetID c), resolvedOfferIdentity c, routeText (cpRoute c), cpSubRoute c,
      trimSpace (raValue (cpPrice c)), trimSpace (raUnit (cpPrice c)), trimSpace (raValue (cpListPrice c)),
      availabilityText (cpAvailability c), cdTime cd (cpCapturedAt c)]"

definition dedupKey :: "codec \<Rightarrow> capture \<Rightarrow> utext" where
  "dedupKey cd c = cdHash cd (joinWith 31 (dedupParts cd c))"

definition evidenceParts :: "codec \<Rightarrow> capture \<Rightarrow> utext list" where
  "evidenceParts cd c =
     [cdUUID cd (cpTargetID c), resolvedOfferIdentity c, runes (formatInt (sint (cpNativeVariantID c))),
      cpNativeSellerID c, routeText (cpRoute c), cpSubRoute c, sourceText (cpSourceType c),
      cpSourceURL c, cpParserVersion c, cpConnectorVersion c, cpEvidenceRef c, cpRawFixtureRef c,
      raText (cpPrice c), raValue (cpPrice c), raUnit (cpPrice c),
      raText (cpListPrice c), raValue (cpListPrice c), raUnit (cpListPrice c),
      availabilityText (cpAvailability c), stockSignalToken (cpStockSignal c),
      confidenceText (cpConfidence c), boolRunes (cpSchemaValid c), cdTime cd (cpCapturedAt c),
      runes (formatInt (int (length (cpParsingWarnings c))))] @ cpParsingWarnings c"

definition evidenceHash :: "codec \<Rightarrow> capture \<Rightarrow> utext" where
  "evidenceHash cd c = cdHash cd (joinWith 31 (evidenceParts cd c))"

section \<open>The tables (queries/observation.sql)\<close>

record observation_target =
  otID :: uuid
  otAccountID :: uuid
  otNativeVariantID :: int64
  otFreshnessDeadlineSeconds :: "32 word"
  otActive :: bool

text \<open>A row of observations: the capture, under the target's account, and what the service derived for it.\<close>

record observation_row =
  obID :: uuid
  obCapture :: capture
  obOfferIdentity :: utext
  obQuality :: quality
  obFreshnessDeadline :: instant
  obDedupKey :: utext
  obSchemaValid :: bool
  obIdentityValid :: bool

record observed_offer =
  ofTargetID :: uuid
  ofAccountID :: uuid
  ofOfferIdentity :: utext
  ofNativeVariantID :: int64
  ofNativeSellerID :: utext
  ofPrice :: raw_amount
  ofListPrice :: raw_amount
  ofAvailability :: availability
  ofStockSignal :: "int64 option"
  ofQuality :: quality
  ofCapturedAt :: instant
  ofFreshnessDeadline :: instant
  ofRoutes :: "route list"
  ofLastObservationID :: uuid
  ofEndedAt :: "instant option"

record dedup_conflict =
  dcDedupKey :: utext
  dcStoredHash :: utext
  dcConflictingHash :: utext
  dcCapture :: capture
  dcQuality :: quality

record observation_db =
  odTargets :: "uuid \<rightharpoonup> observation_target"
  odObservations :: "observation_row list"
  odDedup :: "utext \<rightharpoonup> utext"
  odConflicts :: "dedup_conflict list"
  odOffers :: "uuid \<times> utext \<rightharpoonup> observed_offer"

text \<open>
  \<open>DISTINCT ON (route) ... ORDER BY route, captured_at DESC\<close>: per route the row captured last; among
  rows of one instant SQL leaves the choice open, here it is the first inserted.
\<close>

definition laterRow :: "observation_row option \<Rightarrow> observation_row \<Rightarrow> observation_row option" where
  "laterRow acc r =
     (case acc of None \<Rightarrow> Some r
      | Some a \<Rightarrow> if cpCapturedAt (obCapture a) < cpCapturedAt (obCapture r) then Some r else Some a)"

definition listInWindowRouteValues :: "observation_db \<Rightarrow> uuid \<Rightarrow> utext \<Rightarrow> instant \<Rightarrow> observation_row list" where
  "listInWindowRouteValues db targetID offerIdentity now =
     (let rows = filter (\<lambda>r. cpTargetID (obCapture r) = targetID \<and> obOfferIdentity r = offerIdentity
                     \<and> now < obFreshnessDeadline r \<and> obSchemaValid r) (odObservations db) in
      concat (map (\<lambda>rt. case foldl laterRow None (filter (\<lambda>r. cpRoute (obCapture r) = rt) rows) of
                      None \<Rightarrow> [] | Some r \<Rightarrow> [r]) [RouteA, RouteB, RouteC]))"

section \<open>Ingest (service.go)\<close>

record route_analysis =
  raCorroborated :: bool
  raConflicted :: bool
  raHasHistory :: bool
  raAgree :: "route list"

definition sameValue :: "observation_row \<Rightarrow> capture \<Rightarrow> bool" where
  "sameValue r c \<longleftrightarrow>
     raValue (cpPrice (obCapture r)) = raValue (cpPrice c) \<and>
     raUnit (cpPrice (obCapture r)) = raUnit (cpPrice c) \<and>
     cpAvailability (obCapture r) = cpAvailability c"

fun analyzeLoop :: "capture \<Rightarrow> route_analysis \<Rightarrow> observation_row list \<Rightarrow> route_analysis" where
  "analyzeLoop c a [] = a"
| "analyzeLoop c a (r # rs) =
     analyzeLoop c
       (if cpRoute (obCapture r) = cpRoute c
        then (if sameValue r c then a\<lparr>raHasHistory := True\<rparr> else a)
        else if sameValue r c
        then a\<lparr>raCorroborated := True, raHasHistory := True, raAgree := cpRoute (obCapture r) # raAgree a\<rparr>
        else a\<lparr>raConflicted := True\<rparr>) rs"

definition analyzeRoutes :: "observation_row list \<Rightarrow> capture \<Rightarrow> route_analysis" where
  "analyzeRoutes inWindow c =
     analyzeLoop c \<lparr>raCorroborated = False, raConflicted = False, raHasHistory = False,
                    raAgree = [cpRoute c]\<rparr> inWindow"

definition agreedRoutes :: "route_analysis \<Rightarrow> route list" where
  "agreedRoutes a = filter (\<lambda>r. r \<in> set (raAgree a)) [RouteA, RouteB, RouteC]"

record ingest_result =
  irDeduped :: bool
  irConflict :: bool
  irObservationID :: uuid
  irQuality :: quality
  irOffer :: "observed_offer option"

datatype observation_error =
  ErrIncompleteEvidence "string list" | ErrTargetNotFound | ErrIdentityMismatch
| ErrDedupEvidenceConflict ingest_result

definition freshWindow :: "observation_target \<Rightarrow> duration" where
  "freshWindow t = sint (otFreshnessDeadlineSeconds t) * second"

definition captureSignals ::
  "capture \<Rightarrow> bool \<Rightarrow> bool \<Rightarrow> route_analysis \<Rightarrow> quality_signals" where
  "captureSignals c fresh schemaValid a =
     \<lparr>qsHasValue = hasCurrentPriceValue c, qsDisappeared = (cpAvailability c = Disappeared),
      qsFresh = fresh, qsSchemaValid = schemaValid, qsIdentityValid = True,
      qsLowConfidence = confidenceLow (cpConfidence c), qsConflicted = raConflicted a,
      qsCorroborated = raCorroborated a, qsHasHistory = raHasHistory a\<rparr>"

definition existingQuality :: "observed_offer option \<Rightarrow> quality" where
  "existingQuality existing = (case existing of None \<Rightarrow> QualityOther [] | Some x \<Rightarrow> ofQuality x)"

definition upsertedOffer ::
  "observation_target \<Rightarrow> capture \<Rightarrow> quality \<Rightarrow> route_analysis \<Rightarrow> uuid \<Rightarrow> observed_offer option \<Rightarrow> observed_offer" where
  "upsertedOffer t c q a i existing =
     \<lparr>ofTargetID = cpTargetID c,
      ofAccountID = (case existing of None \<Rightarrow> otAccountID t | Some x \<Rightarrow> ofAccountID x),
      ofOfferIdentity = resolvedOfferIdentity c,
      ofNativeVariantID = (case existing of None \<Rightarrow> cpNativeVariantID c | Some x \<Rightarrow> ofNativeVariantID x),
      ofNativeSellerID = cpNativeSellerID c, ofPrice = cpPrice c, ofListPrice = cpListPrice c,
      ofAvailability = cpAvailability c, ofStockSignal = cpStockSignal c, ofQuality = q,
      ofCapturedAt = cpCapturedAt c, ofFreshnessDeadline = cpCapturedAt c + freshWindow t,
      ofRoutes = agreedRoutes a, ofLastObservationID = i, ofEndedAt = None\<rparr>"

text \<open>After the evidence row is in: close, mark conflicted, leave alone, or replace the current offer.\<close>

definition settleOffer ::
  "observation_db \<Rightarrow> observation_target \<Rightarrow> capture \<Rightarrow> quality \<Rightarrow> route_analysis \<Rightarrow> bool \<Rightarrow> uuid
    \<Rightarrow> observation_db \<times> ingest_result" where
  "settleOffer db t c q a schemaValid i =
     (let k = (cpTargetID c, resolvedOfferIdentity c); existing = odOffers db k;
          res = \<lparr>irDeduped = False, irConflict = False, irObservationID = i, irQuality = q, irOffer = None\<rparr> in
      if cpAvailability c = Disappeared
      then
        (case existing of
           None \<Rightarrow> (db, res\<lparr>irQuality := Unavailable\<rparr>)
         | Some old \<Rightarrow>
             (let closed = old\<lparr>ofAvailability := Disappeared, ofQuality := Unavailable,
                               ofEndedAt := Some (cpCapturedAt c), ofLastObservationID := i\<rparr>
              in (db\<lparr>odOffers := (odOffers db)(k \<mapsto> closed)\<rparr>,
                  res\<lparr>irQuality := Unavailable, irOffer := Some closed\<rparr>)))
      else if q = Conflicted \<and> existing \<noteq> None
      then
        (let marked = (the existing)\<lparr>ofQuality := Conflicted, ofLastObservationID := i\<rparr>
         in (db\<lparr>odOffers := (odOffers db)(k \<mapsto> marked)\<rparr>, res\<lparr>irQuality := Conflicted, irOffer := Some marked\<rparr>))
      else if \<not> schemaValid
      then (db, res\<lparr>irOffer := existing\<rparr>)
      else
        (let offer = upsertedOffer t c q a i existing
         in (db\<lparr>odOffers := (odOffers db)(k \<mapsto> offer)\<rparr>, res\<lparr>irOffer := Some offer\<rparr>)))"

text \<open>\<open>Ingest\<close>, one transaction; \<open>i\<close> is the id the database gives the evidence row.\<close>

definition ingest ::
  "codec \<Rightarrow> parser_registry \<Rightarrow> observation_db \<Rightarrow> capture \<Rightarrow> instant \<Rightarrow> uuid
    \<Rightarrow> observation_db \<times> (observation_error, ingest_result) result" where
  "ingest cd reg db c now i =
     (if missingFields c \<noteq> [] then (db, Inl (ErrIncompleteEvidence (missingFields c)))
      else
        (case odTargets db (cpTargetID c) of
           None \<Rightarrow> (db, Inl ErrTargetNotFound)
         | Some t \<Rightarrow>
             if cpNativeVariantID c \<noteq> otNativeVariantID t then (db, Inl ErrIdentityMismatch)
             else
               (let offerIdentity = resolvedOfferIdentity c;
                    deadline = cpCapturedAt c + freshWindow t;
                    existing = odOffers db (cpTargetID c, offerIdentity);
                    a = analyzeRoutes (listInWindowRouteValues db (cpTargetID c) offerIdentity now) c;
                    registered = supportedParser reg (cpSourceType c) (cpParserVersion c) (cpConnectorVersion c);
                    schemaValid = (cpSchemaValid c \<and> registered);
                    q = deriveQuality (captureSignals c (\<not> deadline < now) schemaValid a) in
                case odDedup db (dedupKey cd c) of
                  Some stored \<Rightarrow>
                    if stored = evidenceHash cd c
                    then (db, Inr \<lparr>irDeduped = True, irConflict = False, irObservationID = 0,
                                   irQuality = existingQuality existing, irOffer = existing\<rparr>)
                    else
                      (db\<lparr>odConflicts := odConflicts db @
                            [\<lparr>dcDedupKey = dedupKey cd c, dcStoredHash = stored,
                              dcConflictingHash = evidenceHash cd c,
                              dcCapture = c\<lparr>cpAccount := otAccountID t\<rparr>, dcQuality = q\<rparr>]\<rparr>,
                       Inl (ErrDedupEvidenceConflict
                         \<lparr>irDeduped = False, irConflict = True, irObservationID = 0,
                          irQuality = existingQuality existing, irOffer = existing\<rparr>))
                | None \<Rightarrow>
                    (let row = \<lparr>obID = i, obCapture = c\<lparr>cpAccount := otAccountID t\<rparr>,
                                obOfferIdentity = offerIdentity, obQuality = q,
                                obFreshnessDeadline = deadline, obDedupKey = dedupKey cd c,
                                obSchemaValid = schemaValid, obIdentityValid = True\<rparr>;
                         db1 = db\<lparr>odDedup := (odDedup db)(dedupKey cd c \<mapsto> evidenceHash cd c),
                                  odObservations := odObservations db @ [row]\<rparr>
                     in case settleOffer db1 t c q a schemaValid i of (db2, res) \<Rightarrow> (db2, Inr res)))))"

text \<open>\<open>SweepExpired\<close> and \<open>DowngradeCurrentForDrift\<close> over the current view.\<close>

definition sweepExpired :: "observation_db \<Rightarrow> uuid \<Rightarrow> instant \<Rightarrow> observation_db" where
  "sweepExpired db account now =
     db\<lparr>odOffers := (\<lambda>k. map_option (\<lambda>x.
          if ofAccountID x = account \<and> ofEndedAt x = None \<and> ofFreshnessDeadline x < now
             \<and> ofQuality x \<noteq> Stale \<and> ofQuality x \<noteq> Unavailable
          then x\<lparr>ofQuality := Stale\<rparr> else x) (odOffers db k))\<rparr>"

definition downgradeCurrentForDrift :: "observation_db \<Rightarrow> uuid \<Rightarrow> observation_db" where
  "downgradeCurrentForDrift db targetID =
     db\<lparr>odOffers := (\<lambda>k. map_option (\<lambda>x.
          if ofTargetID x = targetID \<and> ofEndedAt x = None
             \<and> ofQuality x \<noteq> Stale \<and> ofQuality x \<noteq> Unavailable \<and> ofQuality x \<noteq> Conflicted
          then x\<lparr>ofQuality := (if ofAvailability x = Disappeared then Unavailable else Stale)\<rparr>
          else x) (odOffers db k))\<rparr>"

section \<open>The upload endpoint (httpapi/observation.go)\<close>

record capture_upload =
  cuTargetID :: uuid
  cuAccountID :: uuid
  cuNativeVariantID :: int64
  cuNativeSellerID :: "utext option"
  cuSubRoute :: utext
  cuSourceType :: source_type
  cuSourceURL :: "utext option"
  cuParserVersion :: utext
  cuConnectorVersion :: "utext option"
  cuEvidenceRef :: utext
  cuRawFixtureRef :: "utext option"
  cuPrice :: "raw_amount option"
  cuListPrice :: "raw_amount option"
  cuAvailability :: availability
  cuStockSignal :: "int64 option"
  cuCapturedAt :: instant
  cuConfidence :: confidence

definition rawAmountFrom :: "raw_amount option \<Rightarrow> raw_amount" where
  "rawAmountFrom r = (case r of None \<Rightarrow> newRawAmount [] [] [] | Some a \<Rightarrow> a)"

definition orBlank :: "utext option \<Rightarrow> utext" where
  "orBlank t = (case t of None \<Rightarrow> [] | Some x \<Rightarrow> x)"

definition captureFromUpload :: "capture_upload \<Rightarrow> capture" where
  "captureFromUpload u =
     \<lparr>cpTargetID = cuTargetID u, cpAccount = cuAccountID u, cpNativeVariantID = cuNativeVariantID u,
      cpNativeSellerID = orBlank (cuNativeSellerID u), cpOfferIdentity = [], cpRoute = RouteB,
      cpSubRoute = cuSubRoute u, cpSourceType = cuSourceType u, cpSourceURL = orBlank (cuSourceURL u),
      cpParserVersion = cuParserVersion u, cpConnectorVersion = orBlank (cuConnectorVersion u),
      cpEvidenceRef = cuEvidenceRef u, cpRawFixtureRef = orBlank (cuRawFixtureRef u),
      cpPrice = rawAmountFrom (cuPrice u), cpListPrice = rawAmountFrom (cuListPrice u),
      cpAvailability = cuAvailability u, cpStockSignal = cuStockSignal u,
      cpCapturedAt = cuCapturedAt u, cpConfidence = cuConfidence u, cpParsingWarnings = [],
      cpSchemaValid = True\<rparr>"

datatype upload_response = UploadStatus nat | UploadAccepted bool quality "uuid option"

text \<open>\<open>credential\<close>: the account of the capture credential, if the caller used one.\<close>

definition uploadCapture ::
  "codec \<Rightarrow> parser_registry \<Rightarrow> observation_db \<Rightarrow> uuid option \<Rightarrow> capture_upload option \<Rightarrow> instant \<Rightarrow> uuid
    \<Rightarrow> observation_db \<times> upload_response" where
  "uploadCapture cd reg db credential body now i =
     (case body of
        None \<Rightarrow> (db, UploadStatus 400)
      | Some u \<Rightarrow>
          if (case credential of None \<Rightarrow> False | Some acct \<Rightarrow> acct \<noteq> cuAccountID u)
          then (db, UploadStatus 403)
          else
            (case ingest cd reg db (captureFromUpload u) now i of
               (db', Inl e) \<Rightarrow>
                 (db', UploadStatus (case e of ErrIncompleteEvidence _ \<Rightarrow> 400 | ErrIdentityMismatch \<Rightarrow> 409
                         | ErrTargetNotFound \<Rightarrow> 409 | ErrDedupEvidenceConflict _ \<Rightarrow> 500))
             | (db', Inr res) \<Rightarrow>
                 (db', UploadAccepted (irDeduped res) (irQuality res)
                         (if irObservationID res \<noteq> 0 then Some (irObservationID res) else None))))"

section \<open>Runs of the store\<close>

text \<open>
  Any sequence of ingests, expiry sweeps and drift downgrades, with the targets table free to change
  between them, from empty evidence and offer tables.
\<close>

inductive storeStep :: "codec \<Rightarrow> parser_registry \<Rightarrow> observation_db \<Rightarrow> observation_db \<Rightarrow> bool"
  for cd reg where
  step_ingest: "storeStep cd reg db (fst (ingest cd reg db c now i))"
| step_sweep: "storeStep cd reg db (sweepExpired db account now)"
| step_downgrade: "storeStep cd reg db (downgradeCurrentForDrift db targetID)"
| step_targets: "storeStep cd reg db (db\<lparr>odTargets := ts\<rparr>)"

definition emptyStore :: observation_db where
  "emptyStore = \<lparr>odTargets = Map.empty, odObservations = [], odDedup = Map.empty, odConflicts = [],
                 odOffers = Map.empty\<rparr>"

inductive storeReachable :: "codec \<Rightarrow> parser_registry \<Rightarrow> observation_db \<Rightarrow> bool" for cd reg where
  reach_empty: "storeReachable cd reg emptyStore"
| reach_step: "storeReachable cd reg db \<Longrightarrow> storeStep cd reg db db' \<Longrightarrow> storeReachable cd reg db'"

text \<open>What an offer of record rests on: a registered, schema-valid evidence row with its price.\<close>

definition backs :: "parser_registry \<Rightarrow> uuid \<times> utext \<Rightarrow> observed_offer \<Rightarrow> observation_row \<Rightarrow> bool" where
  "backs reg k x r \<longleftrightarrow>
     obSchemaValid r \<and>
     supportedParser reg (cpSourceType (obCapture r)) (cpParserVersion (obCapture r))
       (cpConnectorVersion (obCapture r)) \<and>
     cpTargetID (obCapture r) = fst k \<and> obOfferIdentity r = snd k \<and>
     cpPrice (obCapture r) = ofPrice x \<and> cpCapturedAt (obCapture r) = ofCapturedAt x \<and>
     (ofEndedAt x = None \<longrightarrow> cpAvailability (obCapture r) = ofAvailability x)"

definition storeBacked :: "parser_registry \<Rightarrow> observation_db \<Rightarrow> bool" where
  "storeBacked reg db \<longleftrightarrow>
     (\<forall>k x. odOffers db k = Some x \<longrightarrow> (\<exists>r \<in> set (odObservations db). backs reg k x r))"

text \<open>One evidence row per replay key, and the key's claim holds that row's evidence hash.\<close>

definition storeKeyed :: "codec \<Rightarrow> observation_db \<Rightarrow> bool" where
  "storeKeyed cd db \<longleftrightarrow>
     distinct (map obDedupKey (odObservations db)) \<and>
     (\<forall>k h. odDedup db k = Some h \<longleftrightarrow>
        (\<exists>r \<in> set (odObservations db). obDedupKey r = k \<and> evidenceHash cd (obCapture r) = h)) \<and>
     (\<forall>r \<in> set (odObservations db). obDedupKey r = dedupKey cd (obCapture r))"

section \<open>Lemmas\<close>

lemma resolved_account [simp]: "resolvedOfferIdentity (c\<lparr>cpAccount := a\<rparr>) = resolvedOfferIdentity c"
  by (simp add: resolvedOfferIdentity_def)

lemma keys_account [simp]:
  "dedupKey cd (c\<lparr>cpAccount := a\<rparr>) = dedupKey cd c"
  "evidenceHash cd (c\<lparr>cpAccount := a\<rparr>) = evidenceHash cd c"
  by (simp_all add: dedupKey_def dedupParts_def evidenceHash_def evidenceParts_def)

named_theorems obs_defs

declare captureSignals_def [obs_defs] deriveQuality_def [obs_defs] settleOffer_def [obs_defs]
  upsertedOffer_def [obs_defs]

lemma quality_untrusted:
  "deriveQuality (captureSignals c fresh False a) \<noteq> Conflicted"
  by (simp add: obs_defs)

lemma quality_conflicted_trusted:
  "deriveQuality (captureSignals c fresh v a) = Conflicted \<Longrightarrow> v"
  using quality_untrusted [of c fresh a] by (cases v) auto

lemma settle_observations:
  "settleOffer db t c q a v i = (db', res) \<Longrightarrow>
     odObservations db' = odObservations db \<and> odDedup db' = odDedup db \<and>
     odConflicts db' = odConflicts db \<and> odTargets db' = odTargets db"
  by (auto simp: settleOffer_def Let_def split: if_splits option.splits)

lemma settle_other_offers:
  "settleOffer db t c q a v i = (db', res) \<Longrightarrow> k \<noteq> (cpTargetID c, resolvedOfferIdentity c) \<Longrightarrow>
     odOffers db' k = odOffers db k"
  by (auto simp: settleOffer_def Let_def split: if_splits option.splits)

lemma settle_not_deduped:
  "settleOffer db t c q a v i = (db', res) \<Longrightarrow> \<not> irDeduped res \<and> irObservationID res = i"
  by (auto simp: settleOffer_def Let_def split: if_splits option.splits)

text \<open>An offer that differs from another at most in its status keeps the other's evidence.\<close>

definition sameEvidence :: "observed_offer \<Rightarrow> observed_offer \<Rightarrow> bool" where
  "sameEvidence x y \<longleftrightarrow>
     ofPrice x = ofPrice y \<and> ofCapturedAt x = ofCapturedAt y \<and>
     (ofEndedAt x = None \<longrightarrow> ofEndedAt y = None \<and> ofAvailability x = ofAvailability y)"

lemma sameEvidence_refl [simp]: "sameEvidence x x"
  by (simp add: sameEvidence_def)

lemma sameEvidence_backs: "sameEvidence x y \<Longrightarrow> backs reg k y r \<Longrightarrow> backs reg k x r"
  by (simp add: sameEvidence_def backs_def)

text \<open>The offers a settlement can write: the closed or marked old one, or the capture's own.\<close>

lemma settle_offer_cases:
  assumes "settleOffer db t c q a v i = (db', res)"
    and "odOffers db' k = Some x" and "odOffers db' k \<noteq> odOffers db k"
  obtains (kept) y where "k = (cpTargetID c, resolvedOfferIdentity c)" "odOffers db k = Some y"
      "sameEvidence x y"
    | (fresh) "k = (cpTargetID c, resolvedOfferIdentity c)" "v" "cpAvailability c \<noteq> Disappeared"
      "x = upsertedOffer t c q a i (odOffers db k)"
proof -
  have k: "k = (cpTargetID c, resolvedOfferIdentity c)"
    using assms settle_other_offers by metis
  show thesis
    using assms that k
    by (fastforce simp: settleOffer_def Let_def sameEvidence_def split: if_splits option.splits)
qed

definition ingestRow ::
  "codec \<Rightarrow> parser_registry \<Rightarrow> observation_db \<Rightarrow> capture \<Rightarrow> instant \<Rightarrow> uuid \<Rightarrow> observation_target
    \<Rightarrow> observation_row" where
  "ingestRow cd reg db c now i t =
     (let a = analyzeRoutes (listInWindowRouteValues db (cpTargetID c) (resolvedOfferIdentity c) now) c;
          v = (cpSchemaValid c \<and> supportedParser reg (cpSourceType c) (cpParserVersion c) (cpConnectorVersion c))
      in \<lparr>obID = i, obCapture = c\<lparr>cpAccount := otAccountID t\<rparr>, obOfferIdentity = resolvedOfferIdentity c,
          obQuality = deriveQuality (captureSignals c (\<not> cpCapturedAt c + freshWindow t < now) v a),
          obFreshnessDeadline = cpCapturedAt c + freshWindow t, obDedupKey = dedupKey cd c,
          obSchemaValid = v, obIdentityValid = True\<rparr>)"

text \<open>Every ingest either leaves evidence and offers alone, or inserts one row and settles the offer.\<close>

lemma ingest_cases:
  assumes "ingest cd reg db c now i = (db', r)"
  obtains (quiet) "odObservations db' = odObservations db" "odDedup db' = odDedup db"
      "odOffers db' = odOffers db" "odTargets db' = odTargets db"
      "\<And>res. r = Inr res \<Longrightarrow> irDeduped res \<and> odDedup db (dedupKey cd c) = Some (evidenceHash cd c)"
    | (inserted) t a res where "missingFields c = []" "odTargets db (cpTargetID c) = Some t"
      "cpNativeVariantID c = otNativeVariantID t" "odDedup db (dedupKey cd c) = None"
      "settleOffer
         (db\<lparr>odDedup := (odDedup db)(dedupKey cd c \<mapsto> evidenceHash cd c),
             odObservations := odObservations db @ [ingestRow cd reg db c now i t]\<rparr>) t c
         (obQuality (ingestRow cd reg db c now i t)) a (obSchemaValid (ingestRow cd reg db c now i t)) i
         = (db', res)" "r = Inr res"
proof (cases "missingFields c = []")
  case False
  with assms show thesis by (intro quiet) (auto simp: ingest_def)
next
  case missing: True
  show thesis
  proof (cases "odTargets db (cpTargetID c)")
    case None
    with missing assms show thesis by (intro quiet) (auto simp: ingest_def)
  next
    case (Some t)
    show thesis
    proof (cases "cpNativeVariantID c = otNativeVariantID t")
      case False
      with missing Some assms show thesis by (intro quiet) (auto simp: ingest_def)
    next
      case ident: True
      show thesis
      proof (cases "odDedup db (dedupKey cd c)")
        case None
        let ?a = "analyzeRoutes (listInWindowRouteValues db (cpTargetID c) (resolvedOfferIdentity c) now) c"
        let ?row = "ingestRow cd reg db c now i t"
        let ?db = "db\<lparr>odDedup := (odDedup db)(dedupKey cd c \<mapsto> evidenceHash cd c),
                      odObservations := odObservations db @ [?row]\<rparr>"
        obtain db2 res where
          s: "settleOffer ?db t c (obQuality ?row) ?a (obSchemaValid ?row) i = (db2, res)"
          by (rule prod.exhaust)
        have "ingest cd reg db c now i
                = (case settleOffer ?db t c (obQuality ?row) ?a (obSchemaValid ?row) i of
                     (db2, res) \<Rightarrow> (db2, Inr res))"
          unfolding ingest_def Let_def ingestRow_def using missing Some ident None by simp
        with s assms have "db' = db2" "r = Inr res" by simp_all
        with s show thesis by (intro inserted [OF missing Some ident None]) simp_all
      next
        case stored: (Some h)
        with missing Some ident assms show thesis
          by (intro quiet) (simp_all add: ingest_def Let_def split: if_splits, auto)
      qed
    qed
  qed
qed

lemma storeBacked_mono:
  assumes "storeBacked reg db" and "set (odObservations db) \<subseteq> set (odObservations db')"
    and "\<And>k x. odOffers db' k = Some x \<Longrightarrow>
           (\<exists>y. odOffers db k = Some y \<and> sameEvidence x y)
           \<or> (\<exists>r \<in> set (odObservations db'). backs reg k x r)"
  shows "storeBacked reg db'"
  unfolding storeBacked_def
proof (intro allI impI)
  fix k x assume "odOffers db' k = Some x"
  from assms(3) [OF this] show "\<exists>r \<in> set (odObservations db'). backs reg k x r"
  proof
    assume "\<exists>y. odOffers db k = Some y \<and> sameEvidence x y"
    then obtain y where y: "odOffers db k = Some y" "sameEvidence x y" by blast
    from assms(1) y(1) obtain r where r: "r \<in> set (odObservations db)" "backs reg k y r"
      unfolding storeBacked_def by blast
    from y(2) r(2) have "backs reg k x r" by (rule sameEvidence_backs)
    with r(1) assms(2) show ?thesis by blast
  qed
qed

lemma ingest_backed:
  assumes b: "storeBacked reg db" and i: "ingest cd reg db c now i = (db', r)"
  shows "storeBacked reg db'"
  using i
proof (cases rule: ingest_cases)
  case quiet
  with b show ?thesis by (simp add: storeBacked_def)
next
  case (inserted t a res)
  note set = inserted(5)
  let ?row = "ingestRow cd reg db c now i t"
  have obs: "odObservations db' = odObservations db @ [?row]"
    using settle_observations [OF set] by simp
  show ?thesis
  proof (rule storeBacked_mono [OF b])
    fix k x assume x: "odOffers db' k = Some x"
    show "(\<exists>y. odOffers db k = Some y \<and> sameEvidence x y) \<or>
          (\<exists>r \<in> set (odObservations db'). backs reg k x r)"
    proof (cases "odOffers db' k = odOffers db k")
      case True
      with x show ?thesis by auto
    next
      case False
      then have "odOffers db' k \<noteq> odOffers
        (db\<lparr>odDedup := (odDedup db)(dedupKey cd c \<mapsto> evidenceHash cd c),
            odObservations := odObservations db @ [?row]\<rparr>) k" by simp
      from set x this show ?thesis
      proof (cases rule: settle_offer_cases)
        case (kept y)
        then show ?thesis by auto
      next
        case fresh
        then have "backs reg k x ?row"
          by (simp add: backs_def ingestRow_def upsertedOffer_def Let_def)
        with obs show ?thesis by auto
      qed
    qed
  qed (use obs in auto)
qed

lemma ingest_keyed:
  assumes k: "storeKeyed cd db" and i: "ingest cd reg db c now i = (db', r)"
  shows "storeKeyed cd db'"
  using i
proof (cases rule: ingest_cases)
  case quiet
  with k show ?thesis by (simp add: storeKeyed_def)
next
  case (inserted t a res)
  let ?row = "ingestRow cd reg db c now i t"
  from settle_observations [OF inserted(5)]
  have db': "odObservations db' = odObservations db @ [?row]"
    "odDedup db' = (odDedup db)(dedupKey cd c \<mapsto> evidenceHash cd c)" by simp_all
  have row: "obDedupKey ?row = dedupKey cd c" "obCapture ?row = c\<lparr>cpAccount := otAccountID t\<rparr>"
    by (simp_all add: ingestRow_def Let_def)
  have new: "dedupKey cd c \<notin> obDedupKey ` set (odObservations db)"
    using k inserted(4) unfolding storeKeyed_def by force
  show ?thesis
    unfolding storeKeyed_def db'
    using k new row unfolding storeKeyed_def by (auto simp: fun_upd_def) (metis image_eqI)
qed

lemma sweep_same: "odOffers (sweepExpired db account now) k = Some x \<Longrightarrow>
    \<exists>y. odOffers db k = Some y \<and> sameEvidence x y"
  by (auto simp: sweepExpired_def sameEvidence_def split: if_splits)

lemma downgrade_same: "odOffers (downgradeCurrentForDrift db targetID) k = Some x \<Longrightarrow>
    \<exists>y. odOffers db k = Some y \<and> sameEvidence x y"
  by (auto simp: downgradeCurrentForDrift_def sameEvidence_def split: if_splits)

lemma storeStep_preserves:
  assumes "storeStep cd reg db db'" and "storeBacked reg db \<and> storeKeyed cd db"
  shows "storeBacked reg db' \<and> storeKeyed cd db'"
  using assms(1)
proof (cases rule: storeStep.cases)
  case (step_ingest c now i)
  obtain r where "ingest cd reg db c now i = (db', r)"
    using step_ingest by (metis prod.collapse)
  with assms(2) show ?thesis using ingest_backed ingest_keyed by blast
next
  case (step_sweep account now)
  have "storeBacked reg db'"
    by (rule storeBacked_mono [of reg db])
      (use assms(2) step_sweep sweep_same in \<open>auto simp: sweepExpired_def\<close>)
  moreover have "storeKeyed cd db'"
    using assms(2) step_sweep by (simp add: storeKeyed_def sweepExpired_def)
  ultimately show ?thesis by simp
next
  case (step_downgrade targetID)
  have "storeBacked reg db'"
    by (rule storeBacked_mono [of reg db])
      (use assms(2) step_downgrade downgrade_same in \<open>auto simp: downgradeCurrentForDrift_def\<close>)
  moreover have "storeKeyed cd db'"
    using assms(2) step_downgrade by (simp add: storeKeyed_def downgradeCurrentForDrift_def)
  ultimately show ?thesis by simp
next
  case (step_targets ts)
  with assms(2) show ?thesis by (simp add: storeBacked_def storeKeyed_def)
qed

lemma store_invariant:
  assumes "storeReachable cd reg db"
  shows "storeBacked reg db \<and> storeKeyed cd db"
  using assms
proof induction
  case reach_empty
  show ?case by (simp add: storeBacked_def storeKeyed_def emptyStore_def)
next
  case (reach_step db db')
  then show ?case using storeStep_preserves by blast
qed

lemma filter_key_single:
  "distinct (map f xs) \<Longrightarrow> x \<in> set xs \<Longrightarrow> filter (\<lambda>y. f y = f x) xs = [x]"
  by (induction xs) (auto simp: filter_empty_conv, metis image_eqI)

section \<open>Properties\<close>

text \<open>
  C9. Every offer of record rests on evidence: in every reachable store it has a schema-valid evidence
  row of a registered parser with its target, offer identity, price and capture time (and, while
  the offer is open, its availability). Each replay key has exactly one evidence row, and the key's
  stored hash is that row's.
\<close>

theorem offer_of_record_backed:
  assumes "storeReachable cd reg db" and "odOffers db k = Some x"
  shows "\<exists>r \<in> set (odObservations db).
      obSchemaValid r \<and>
      supportedParser reg (cpSourceType (obCapture r)) (cpParserVersion (obCapture r))
        (cpConnectorVersion (obCapture r)) \<and>
      cpTargetID (obCapture r) = fst k \<and> obOfferIdentity r = snd k \<and>
      cpPrice (obCapture r) = ofPrice x \<and> cpCapturedAt (obCapture r) = ofCapturedAt x \<and>
      \<not> (ofEndedAt x = None \<and> cpAvailability (obCapture r) \<noteq> ofAvailability x) \<and>
      filter (\<lambda>s. obDedupKey s = obDedupKey r) (odObservations db) = [r] \<and>
      odDedup db (obDedupKey r) = Some (evidenceHash cd (obCapture r))"
proof -
  from store_invariant [OF assms(1)] have inv: "storeBacked reg db" "storeKeyed cd db" by simp_all
  from inv(1) assms(2) obtain r where r: "r \<in> set (odObservations db)" "backs reg k x r"
    unfolding storeBacked_def by blast
  from inv(2) have "distinct (map obDedupKey (odObservations db))" by (simp add: storeKeyed_def)
  from filter_key_single [OF this r(1)]
  have f: "filter (\<lambda>s. obDedupKey s = obDedupKey r) (odObservations db) = [r]" .
  from inv(2) r(1) have d: "odDedup db (obDedupKey r) = Some (evidenceHash cd (obCapture r))"
    unfolding storeKeyed_def by blast
  from r f d show ?thesis by (auto simp: backs_def intro!: bexI [of _ r])
qed

definition witnessCodec :: codec where
  "witnessCodec = \<lparr>cdUUID = (\<lambda>_. []), cdTime = (\<lambda>_. []), cdHash = (\<lambda>t. t)\<rparr>"

definition witnessCapture :: capture where
  "witnessCapture =
     \<lparr>cpTargetID = 1, cpAccount = 2, cpNativeVariantID = 7, cpNativeSellerID = [], cpOfferIdentity = [65],
      cpRoute = RouteB, cpSubRoute = [], cpSourceType = SourcePublicWebEndpoint, cpSourceURL = [],
      cpParserVersion = [112], cpConnectorVersion = [], cpEvidenceRef = [101], cpRawFixtureRef = [],
      cpPrice = newRawAmount [49] [49] [73], cpListPrice = newRawAmount [] [] [],
      cpAvailability = InStock, cpStockSignal = None, cpCapturedAt = 100, cpConfidence = ConfVerified,
      cpParsingWarnings = [], cpSchemaValid = True\<rparr>"

definition witnessRegistry :: parser_registry where
  "witnessRegistry =
     newParserRegistry [\<lparr>psSourceType = SourcePublicWebEndpoint, psParserVersion = [112],
                         psConnectorVersions = []\<rparr>]"

definition witnessTargets :: "uuid \<rightharpoonup> observation_target" where
  "witnessTargets =
     [1 \<mapsto> \<lparr>otID = 1, otAccountID = 2, otNativeVariantID = 7, otFreshnessDeadlineSeconds = 60,
            otActive = True\<rparr>]"

definition witnessStore :: observation_db where
  "witnessStore =
     fst (ingest witnessCodec witnessRegistry (emptyStore\<lparr>odTargets := witnessTargets\<rparr>) witnessCapture 100 9)"

lemma witnessStore_reachable: "storeReachable witnessCodec witnessRegistry witnessStore"
  unfolding witnessStore_def
  by (rule reach_step [OF reach_step [OF reach_empty step_targets] step_ingest])

lemma witness_checks:
  "missingFields witnessCapture = []" "resolvedOfferIdentity witnessCapture = [65]"
  "missingFields (witnessCapture\<lparr>cpAvailability := Disappeared, cpCapturedAt := 101\<rparr>) = []"
  "resolvedOfferIdentity (witnessCapture\<lparr>cpAvailability := Disappeared, cpCapturedAt := 101\<rparr>) = [65]"
  "raValue (cpPrice witnessCapture) = [49] \<and> isStructurallyComplete (cpPrice witnessCapture)"
  by (simp_all add: witnessCapture_def missingFields_def routeValid_def sourceValid_def
      availabilityValid_def confidenceValid_def resolvedOfferIdentity_def trimSpace_def isSpaceRune_def
      newRawAmount_def isStructurallyComplete_def)

lemma witness_supported:
  "supportedParser witnessRegistry (cpSourceType witnessCapture) (cpParserVersion witnessCapture)
     (cpConnectorVersion witnessCapture)"
  by (simp add: witnessCapture_def witnessRegistry_def newParserRegistry_def registerParser_def
      supportedParser_def trimSpace_def isSpaceRune_def sourceValid_def)

lemma witness_keys:
  "dedupKey witnessCodec witnessCapture \<noteq>
     dedupKey witnessCodec (witnessCapture\<lparr>cpAvailability := Disappeared, cpCapturedAt := 101\<rparr>)"
  by (simp add: dedupKey_def witnessCodec_def dedupParts_def witness_checks availabilityText_def
      trimSpace_def isSpaceRune_def runes_def)
    (simp add: witnessCapture_def newRawAmount_def runes_def)

lemma witnessStore_offer:
  "map_option ofPrice (odOffers witnessStore (1, [65])) = Some (newRawAmount [49] [49] [73])"
  using witness_checks witness_supported
  by (simp add: witnessStore_def ingest_def Let_def settleOffer_def emptyStore_def witnessTargets_def
      listInWindowRouteValues_def analyzeRoutes_def upsertedOffer_def captureSignals_def deriveQuality_def)
    (simp add: witnessCapture_def)

lemma witnessStore_tables:
  "odTargets witnessStore = witnessTargets"
  "odDedup witnessStore = [dedupKey witnessCodec witnessCapture \<mapsto> evidenceHash witnessCodec witnessCapture]"
  using witness_checks witness_supported
  by (simp_all add: witnessStore_def ingest_def Let_def settleOffer_def emptyStore_def witnessTargets_def)
    (simp_all add: witnessCapture_def)

theorem offer_of_record_backed_witness:
  "\<exists>x. odOffers witnessStore (1, [65]) = Some x \<and>
     (\<exists>r \<in> set (odObservations witnessStore). cpPrice (obCapture r) = newRawAmount [49] [49] [73] \<and>
        ofPrice x = cpPrice (obCapture r) \<and> obSchemaValid r)"
proof -
  from witnessStore_offer obtain x where x: "odOffers witnessStore (1, [65]) = Some x"
    "ofPrice x = newRawAmount [49] [49] [73]" by auto
  from offer_of_record_backed [OF witnessStore_reachable x(1)] x show ?thesis by fastforce
qed

text \<open>
  Further. A capture of an unregistered parser, or one that failed its own schema, changes no offer of
  record, whatever it claims, unless it reports a disappearance.
\<close>

theorem untrusted_capture_inert:
  assumes "\<not> (cpSchemaValid c
      \<and> supportedParser reg (cpSourceType c) (cpParserVersion c) (cpConnectorVersion c))"
    and "cpAvailability c \<noteq> Disappeared"
  shows "odOffers (fst (ingest cd reg db c now i)) = odOffers db"
proof -
  obtain db' r where i: "ingest cd reg db c now i = (db', r)" by (rule prod.exhaust)
  then have "odOffers db' = odOffers db"
  proof (cases rule: ingest_cases)
    case (inserted t a res)
    let ?row = "ingestRow cd reg db c now i t"
    have v: "obSchemaValid ?row = False" using assms(1) by (simp add: ingestRow_def Let_def)
    then have q: "obQuality ?row \<noteq> Conflicted"
      using quality_conflicted_trusted unfolding ingestRow_def Let_def by auto
    from inserted(5) q assms(2) show ?thesis unfolding v by (auto simp: settleOffer_def Let_def)
  qed
  with i show ?thesis by simp
qed

theorem untrusted_capture_inert_witness:
  "odOffers (fst (ingest witnessCodec Map.empty witnessStore (witnessCapture\<lparr>cpCapturedAt := 101\<rparr>) 101 10))
     = odOffers witnessStore"
  by (rule untrusted_capture_inert) (simp_all add: supportedParser_def witnessCapture_def)

text \<open>
  Further. A disappearance is exempt from that guard: whatever the registry says of the parser, a first
  capture that reports it closes the open offer of record, as soon as the target and its variant
  match. An unregistered parser can so take a current offer down.
\<close>

theorem unregistered_disappearance_closes:
  assumes "missingFields c = []" and "cpAvailability c = Disappeared"
    and "odTargets db (cpTargetID c) = Some t" and "cpNativeVariantID c = otNativeVariantID t"
    and "odDedup db (dedupKey cd c) = None"
    and "odOffers db (cpTargetID c, resolvedOfferIdentity c) = Some x"
  shows "odOffers (fst (ingest cd Map.empty db c now i)) (cpTargetID c, resolvedOfferIdentity c)
           = Some (x\<lparr>ofAvailability := Disappeared, ofQuality := Unavailable,
                     ofEndedAt := Some (cpCapturedAt c), ofLastObservationID := i\<rparr>)"
proof -
  obtain db' r where i: "ingest cd Map.empty db c now i = (db', r)" by (rule prod.exhaust)
  then show ?thesis
  proof (cases rule: ingest_cases)
    case quiet
    then have False using i assms by (auto simp: ingest_def Let_def split: prod.splits)
    then show ?thesis ..
  next
    case (inserted s a res)
    from inserted(5) i assms show ?thesis by (auto simp: settleOffer_def Let_def)
  qed
qed

theorem unregistered_disappearance_closes_witness:
  "map_option ofEndedAt (odOffers (fst (ingest witnessCodec Map.empty witnessStore
      (witnessCapture\<lparr>cpAvailability := Disappeared, cpCapturedAt := 101\<rparr>) 101 10)) (1, [65]))
     = Some (Some 101)"
proof -
  let ?c = "witnessCapture\<lparr>cpAvailability := Disappeared, cpCapturedAt := 101\<rparr>"
  from witnessStore_offer obtain x where x: "odOffers witnessStore (1, [65]) = Some x" by auto
  have k: "cpTargetID ?c = 1" by (simp add: witnessCapture_def)
  have d: "odDedup witnessStore (dedupKey witnessCodec ?c) = None"
    using witness_keys by (simp add: witnessStore_tables)
  have t: "odTargets witnessStore (cpTargetID ?c) = witnessTargets 1"
    by (simp add: witnessStore_tables witnessCapture_def)
  from unregistered_disappearance_closes [OF witness_checks(3) _ _ _ d, of _ x 101 10] x k t
  show ?thesis
    by (simp add: witnessTargets_def witness_checks(4)) (simp add: witnessCapture_def)
qed

text \<open>
  Further. Replay: after a capture was accepted, ingesting it again, at any later time, answers Deduped with
  the offer of record and changes nothing.
\<close>

theorem replay_is_noop:
  assumes "ingest cd reg db c now i = (db', Inr res)"
  shows "\<exists>res'. ingest cd reg db' c now' j = (db', Inr res') \<and> irDeduped res' \<and>
           irOffer res' = odOffers db' (cpTargetID c, resolvedOfferIdentity c)"
  using assms
proof (cases rule: ingest_cases)
  case quiet
  have "odDedup db (dedupKey cd c) = Some (evidenceHash cd c)" by (rule quiet(5) [THEN conjunct2]) simp
  with assms show ?thesis by (auto simp: ingest_def Let_def split: if_splits option.splits)
next
  case (inserted t a res2)
  from settle_observations [OF inserted(5)] inserted
  show ?thesis by (auto simp: ingest_def Let_def)
qed

theorem replay_is_noop_witness:
  "\<exists>res'. ingest witnessCodec witnessRegistry witnessStore witnessCapture 500 12 = (witnessStore, Inr res')
     \<and> irDeduped res'"
proof -
  have "isOk (snd (ingest witnessCodec witnessRegistry (emptyStore\<lparr>odTargets := witnessTargets\<rparr>)
           witnessCapture 100 9))"
    using witness_checks witness_supported
    by (simp add: ingest_def Let_def emptyStore_def witnessTargets_def split: prod.splits)
      (simp add: witnessCapture_def)
  then obtain res where "ingest witnessCodec witnessRegistry (emptyStore\<lparr>odTargets := witnessTargets\<rparr>)
      witnessCapture 100 9 = (witnessStore, Inr res)"
    unfolding witnessStore_def isOk_iff by (metis prod.collapse)
  from replay_is_noop [OF this, of 500 12] show ?thesis by blast
qed

text \<open>
  Further. The quality machine: every derived quality is one of the six, and it lets a price be executed
  or recommended on exactly when the capture has a usable value, is fresh, schema- and identity-valid,
  not conflicted, of sufficient confidence, and corroborated or seen before. A quality that shows no
  value fails the current-data gate.
\<close>

theorem derived_quality_actionable:
  "qualityValid (deriveQuality s) \<and>
   (cqCanExecute (consequenceOf (deriveQuality s)) \<longleftrightarrow>
      qsHasValue s \<and> \<not> qsDisappeared s \<and> qsFresh s \<and> qsSchemaValid s \<and> qsIdentityValid s \<and>
      \<not> qsConflicted s \<and> \<not> qsLowConfidence s \<and> \<not> (\<not> qsCorroborated s \<and> \<not> qsHasHistory s)) \<and>
   (cqRecommend (consequenceOf (deriveQuality s)) \<longleftrightarrow> cqCanExecute (consequenceOf (deriveQuality s))) \<and>
   (cqExecute (consequenceOf (deriveQuality s)) = ExecuteNever
      \<longleftrightarrow> \<not> cqCanExecute (consequenceOf (deriveQuality s))) \<and>
   \<not> (satisfiesCurrentDataGate (deriveQuality s) \<and> \<not> cqCanShowValue (consequenceOf (deriveQuality s)))"
  by (cases s) (auto simp: deriveQuality_def consequenceOf_def consequenceMatrix_def qualityValid_def
      satisfiesCurrentDataGate_def)

text \<open>
  Further. Ingest never compares the account a capture claims with its target's: any two nonzero accounts
  give the same store and the same answer. As the endpoint compares a capture credential with the
  body's account only, a credential of one account can write the offers of another account's target.
\<close>

theorem capture_account_ignored:
  assumes "cpAccount c \<noteq> 0" and "a \<noteq> 0"
  shows "ingest cd reg db (c\<lparr>cpAccount := a\<rparr>) now i = ingest cd reg db c now i"
proof -
  let ?c = "c\<lparr>cpAccount := a\<rparr>"
  have m: "missingFields ?c = missingFields c" using assms by (simp add: missingFields_def)
  have s: "\<And>r. sameValue r ?c = sameValue r c" by (simp add: sameValue_def)
  have l: "analyzeLoop ?c acc rs = analyzeLoop c acc rs" for acc rs
    by (induction rs arbitrary: acc) (simp_all add: s)
  then have an: "\<And>rs. analyzeRoutes rs ?c = analyzeRoutes rs c" by (simp add: analyzeRoutes_def)
  have sig: "\<And>f v x. captureSignals ?c f v x = captureSignals c f v x"
    by (simp add: captureSignals_def hasCurrentPriceValue_def)
  have set: "\<And>db t q x v. settleOffer db t ?c q x v i = settleOffer db t c q x v i"
    by (auto simp: settleOffer_def upsertedOffer_def Let_def cong: option.case_cong)
  show ?thesis unfolding ingest_def m
    by (cases "odTargets db (cpTargetID c)"; cases "odDedup db (dedupKey cd c)")
      (simp_all add: an sig set Let_def)
qed

theorem capture_account_ignored_witness:
  "ingest witnessCodec witnessRegistry witnessStore (witnessCapture\<lparr>cpAccount := 99\<rparr>) 100 9
     = ingest witnessCodec witnessRegistry witnessStore witnessCapture 100 9"
  by (rule capture_account_ignored) (simp_all add: witnessCapture_def)

end
