(* ===== verification/ObservationReads.thy ===== *)
theory ObservationReads
  imports Observation
begin

text \<open>
  The reads of the observation store (observation/service.go, scoped.go): targets, offers, conflicts
  and evidence of an account, their organization-scoped variants, and the side-by-side evidence of
  a conflicted offer. \<open>accounts\<close> is the account of an organization (an organization owns one at
  most), \<open>keys\<close> the offer table's keys in the order the query returns them (by update time).
\<close>

datatype read_error = ErrAccountNotFound

definition accountForOrg :: "(uuid \<rightharpoonup> uuid) \<Rightarrow> uuid \<Rightarrow> (read_error, uuid) result" where
  "accountForOrg accounts organizationID =
     (case accounts organizationID of None \<Rightarrow> Inl ErrAccountNotFound | Some acct \<Rightarrow> Inr acct)"

text \<open>The check the scoped variants share: the requested account is the caller's own.\<close>

definition ownAccount :: "(uuid \<rightharpoonup> uuid) \<Rightarrow> uuid \<Rightarrow> uuid \<Rightarrow> (read_error, uuid) result" where
  "ownAccount accounts organizationID requestedAccount =
     andThen (accountForOrg accounts organizationID)
       (\<lambda>account. if requestedAccount \<noteq> account then Inl ErrAccountNotFound else Inr account)"

definition listTargets :: "observation_target list \<Rightarrow> uuid \<Rightarrow> observation_target list" where
  "listTargets targets account =
     sort_key (\<lambda>t. sint (otNativeVariantID t))
       (filter (\<lambda>t. otAccountID t = account \<and> otActive t) targets)"

definition listObservedOffers ::
  "observation_db \<Rightarrow> (uuid \<times> utext) list \<Rightarrow> uuid \<Rightarrow> observed_offer list" where
  "listObservedOffers db keys account =
     filter (\<lambda>x. ofAccountID x = account) (List.map_filter (odOffers db) keys)"

definition listConflictedObservedOffers ::
  "observation_db \<Rightarrow> (uuid \<times> utext) list \<Rightarrow> uuid \<Rightarrow> observed_offer list" where
  "listConflictedObservedOffers db keys account =
     filter (\<lambda>x. ofAccountID x = account \<and> ofQuality x = Conflicted) (List.map_filter (odOffers db) keys)"

definition clampLimit :: "int \<Rightarrow> nat" where
  "clampLimit limit = (if limit \<le> 0 \<or> 500 < limit then 100 else nat limit)"

definition listObservations :: "observation_db \<Rightarrow> uuid \<Rightarrow> int \<Rightarrow> observation_row list" where
  "listObservations db target limit =
     take (clampLimit limit)
       (sort_key (\<lambda>r. - cpCapturedAt (obCapture r))
          (filter (\<lambda>r. cpTargetID (obCapture r) = target) (odObservations db)))"

definition listTargetsForOrg ::
  "(uuid \<rightharpoonup> uuid) \<Rightarrow> observation_target list \<Rightarrow> uuid \<Rightarrow> uuid \<Rightarrow> (read_error, observation_target list) result" where
  "listTargetsForOrg accounts targets organizationID requestedAccount =
     andThen (ownAccount accounts organizationID requestedAccount) (\<lambda>account. Inr (listTargets targets account))"

definition listObservedOffersForOrg ::
  "(uuid \<rightharpoonup> uuid) \<Rightarrow> observation_db \<Rightarrow> (uuid \<times> utext) list \<Rightarrow> uuid \<Rightarrow> uuid
    \<Rightarrow> (read_error, observed_offer list) result" where
  "listObservedOffersForOrg accounts db keys organizationID requestedAccount =
     andThen (ownAccount accounts organizationID requestedAccount)
       (\<lambda>account. Inr (listObservedOffers db keys account))"

definition listObservationsForOrg ::
  "(uuid \<rightharpoonup> uuid) \<Rightarrow> observation_db \<Rightarrow> uuid \<Rightarrow> uuid \<Rightarrow> int \<Rightarrow> (read_error, observation_row list) result" where
  "listObservationsForOrg accounts db organizationID target limit =
     andThen (accountForOrg accounts organizationID)
       (\<lambda>account. Inr (take (clampLimit limit)
          (sort_key (\<lambda>r. - cpCapturedAt (obCapture r))
             (filter (\<lambda>r. cpTargetID (obCapture r) = target \<and> cpAccount (obCapture r) = account)
                (odObservations db)))))"

section \<open>Conflicts with their evidence\<close>

record conflict_route_evidence =
  ceRoute :: route
  ceValue :: utext
  ceUnit :: utext
  ceAvailability :: availability
  ceCapturedAt :: instant
  ceFreshnessDeadline :: instant

record conflict_evidence =
  ceAvailable :: bool
  ceRoutes :: "conflict_route_evidence list"

record conflict_view =
  cwOffer :: observed_offer
  cwEvidence :: conflict_evidence

definition routeEvidence :: "observation_row \<Rightarrow> conflict_route_evidence" where
  "routeEvidence r =
     \<lparr>ceRoute = cpRoute (obCapture r), ceValue = raValue (cpPrice (obCapture r)),
      ceUnit = raUnit (cpPrice (obCapture r)), ceAvailability = cpAvailability (obCapture r),
      ceCapturedAt = cpCapturedAt (obCapture r), ceFreshnessDeadline = obFreshnessDeadline r\<rparr>"

definition conflictEvidenceFrom :: "observation_row list \<Rightarrow> conflict_evidence" where
  "conflictEvidenceFrom rows =
     (if length rows < 2 then \<lparr>ceAvailable = False, ceRoutes = []\<rparr>
      else \<lparr>ceAvailable = True, ceRoutes = map routeEvidence rows\<rparr>)"

definition listMarketConflictsForOrg ::
  "(uuid \<rightharpoonup> uuid) \<Rightarrow> observation_db \<Rightarrow> (uuid \<times> utext) list \<Rightarrow> uuid \<Rightarrow> uuid \<Rightarrow> instant
    \<Rightarrow> (read_error, conflict_view list) result" where
  "listMarketConflictsForOrg accounts db keys organizationID requestedAccount now =
     andThen (ownAccount accounts organizationID requestedAccount)
       (\<lambda>account. Inr (map (\<lambda>x. \<lparr>cwOffer = x,
          cwEvidence = conflictEvidenceFrom
            (listInWindowRouteValues db (ofTargetID x) (ofOfferIdentity x) now)\<rparr>)
          (listConflictedObservedOffers db keys account)))"

section \<open>Lemmas\<close>

lemma laterRow_member: "foldl laterRow acc xs = Some r \<Longrightarrow> r \<in> set xs \<or> acc = Some r"
  by (induction xs arbitrary: acc) (auto simp: laterRow_def split: option.splits if_splits)

lemma laterRow_latest:
  "foldl laterRow acc xs = Some r \<Longrightarrow>
     (\<forall>x \<in> set xs. cpCapturedAt (obCapture x) \<le> cpCapturedAt (obCapture r)) \<and>
     (\<forall>a. acc = Some a \<longrightarrow> cpCapturedAt (obCapture a) \<le> cpCapturedAt (obCapture r))"
proof (induction xs arbitrary: acc)
  case (Cons y ys)
  then have ih: "(\<forall>x \<in> set ys. cpCapturedAt (obCapture x) \<le> cpCapturedAt (obCapture r)) \<and>
     (\<forall>a. laterRow acc y = Some a \<longrightarrow> cpCapturedAt (obCapture a) \<le> cpCapturedAt (obCapture r))"
    by simp
  obtain a where a: "laterRow acc y = Some a" "cpCapturedAt (obCapture y) \<le> cpCapturedAt (obCapture a)"
    "\<forall>b. acc = Some b \<longrightarrow> cpCapturedAt (obCapture b) \<le> cpCapturedAt (obCapture a)"
  proof (cases acc)
    case None
    then show thesis by (intro that [of y]) (simp_all add: laterRow_def)
  next
    case (Some b)
    then show thesis
      by (intro that [of "if cpCapturedAt (obCapture b) < cpCapturedAt (obCapture y) then y else b"])
        (auto simp: laterRow_def)
  qed
  with ih show ?case by force
qed simp

lemma inWindow_pick:
  assumes "r \<in> set (listInWindowRouteValues db t k now)"
  obtains rt where "rt \<in> {RouteA, RouteB, RouteC}"
    "foldl laterRow None (filter (\<lambda>r. cpRoute (obCapture r) = rt)
       (filter (\<lambda>r. cpTargetID (obCapture r) = t \<and> obOfferIdentity r = k \<and> now < obFreshnessDeadline r
          \<and> obSchemaValid r) (odObservations db))) = Some r"
proof -
  let ?pick = "\<lambda>rt. foldl laterRow None (filter (\<lambda>r. cpRoute (obCapture r) = rt)
       (filter (\<lambda>r. cpTargetID (obCapture r) = t \<and> obOfferIdentity r = k \<and> now < obFreshnessDeadline r
          \<and> obSchemaValid r) (odObservations db)))"
  from assms obtain rt where "rt \<in> {RouteA, RouteB, RouteC}"
    "r \<in> set (case ?pick rt of None \<Rightarrow> [] | Some r \<Rightarrow> [r])"
    unfolding listInWindowRouteValues_def Let_def set_concat set_map by force
  with that show thesis by (cases "?pick rt") auto
qed

lemma inWindow_member:
  assumes "r \<in> set (listInWindowRouteValues db t k now)"
  shows "r \<in> set (odObservations db)" "cpTargetID (obCapture r) = t" "obOfferIdentity r = k"
    "now < obFreshnessDeadline r" "obSchemaValid r" "cpRoute (obCapture r) \<in> {RouteA, RouteB, RouteC}"
  using assms by (auto elim!: inWindow_pick dest!: laterRow_member)

lemma inWindow_latest:
  assumes "r \<in> set (listInWindowRouteValues db t k now)" and "s \<in> set (odObservations db)"
    and "cpTargetID (obCapture s) = t" "obOfferIdentity s = k" "now < obFreshnessDeadline s"
      "obSchemaValid s" "cpRoute (obCapture s) = cpRoute (obCapture r)"
  shows "cpCapturedAt (obCapture s) \<le> cpCapturedAt (obCapture r)"
  using assms(1)
proof (rule inWindow_pick)
  fix rt assume f: "foldl laterRow None (filter (\<lambda>r. cpRoute (obCapture r) = rt)
     (filter (\<lambda>r. cpTargetID (obCapture r) = t \<and> obOfferIdentity r = k \<and> now < obFreshnessDeadline r
        \<and> obSchemaValid r) (odObservations db))) = Some r"
  from laterRow_member [OF f] have "cpRoute (obCapture r) = rt" by simp
  with laterRow_latest [OF f] assms show ?thesis by auto
qed

lemma inWindow_distinct: "distinct (map (\<lambda>r. cpRoute (obCapture r)) (listInWindowRouteValues db t k now))"
  by (auto simp: listInWindowRouteValues_def Let_def dest!: laterRow_member split: option.splits)

section \<open>Properties\<close>

text \<open>
  Further. Conflict views are scoped and verbatim: an organization gets an answer only for its own account,
  every view is a conflicted offer of that account, and evidence is shown only when at least two
  distinct routes are still in window, one line per route, each copied from the latest fresh
  schema-valid row of the offer on that route.
\<close>

theorem conflict_views_verbatim:
  assumes "listMarketConflictsForOrg accounts db keys org account now = Inr views" and "w \<in> set views"
  shows "accounts org = Some account \<and> ofAccountID (cwOffer w) = account \<and>
    ofQuality (cwOffer w) = Conflicted \<and> (\<exists>k \<in> set keys. odOffers db k = Some (cwOffer w)) \<and>
    (ceAvailable (cwEvidence w) \<longleftrightarrow> 2 \<le> length (ceRoutes (cwEvidence w))) \<and>
    distinct (map ceRoute (ceRoutes (cwEvidence w))) \<and>
    (\<forall>e \<in> set (ceRoutes (cwEvidence w)). \<exists>r \<in> set (odObservations db).
       e = routeEvidence r \<and> obSchemaValid r \<and> now < ceFreshnessDeadline e \<and>
       cpTargetID (obCapture r) = ofTargetID (cwOffer w) \<and>
       obOfferIdentity r = ofOfferIdentity (cwOffer w) \<and>
       (\<forall>s \<in> set (odObservations db).
          cpTargetID (obCapture s) = ofTargetID (cwOffer w) \<and> obOfferIdentity s = ofOfferIdentity (cwOffer w)
          \<and> now < obFreshnessDeadline s \<and> obSchemaValid s \<and> cpRoute (obCapture s) = ceRoute e
          \<longrightarrow> cpCapturedAt (obCapture s) \<le> ceCapturedAt e))"
proof -
  from assms obtain x where org: "accounts org = Some account"
    and x: "x \<in> set (listConflictedObservedOffers db keys account)"
    and w: "w = \<lparr>cwOffer = x, cwEvidence = conflictEvidenceFrom
            (listInWindowRouteValues db (ofTargetID x) (ofOfferIdentity x) now)\<rparr>"
    by (auto simp: listMarketConflictsForOrg_def ownAccount_def accountForOrg_def result_simps
        split: option.splits if_splits)
  let ?rows = "listInWindowRouteValues db (ofTargetID x) (ofOfferIdentity x) now"
  have ev: "ceRoutes (cwEvidence w) = (if length ?rows < 2 then [] else map routeEvidence ?rows)"
    "ceAvailable (cwEvidence w) \<longleftrightarrow> 2 \<le> length ?rows" "cwOffer w = x"
    by (auto simp: w conflictEvidenceFrom_def)
  from x have "ofAccountID x = account" "ofQuality x = Conflicted" "\<exists>k \<in> set keys. odOffers db k = Some x"
    by (auto simp: listConflictedObservedOffers_def List.map_filter_def)
  moreover have "distinct (map ceRoute (ceRoutes (cwEvidence w)))"
    using inWindow_distinct [of db "ofTargetID x" "ofOfferIdentity x" now]
    by (simp add: ev comp_def routeEvidence_def)
  moreover have "\<forall>e \<in> set (ceRoutes (cwEvidence w)). \<exists>r \<in> set (odObservations db).
       e = routeEvidence r \<and> obSchemaValid r \<and> now < ceFreshnessDeadline e \<and>
       cpTargetID (obCapture r) = ofTargetID x \<and> obOfferIdentity r = ofOfferIdentity x \<and>
       (\<forall>s \<in> set (odObservations db).
          cpTargetID (obCapture s) = ofTargetID x \<and> obOfferIdentity s = ofOfferIdentity x
          \<and> now < obFreshnessDeadline s \<and> obSchemaValid s \<and> cpRoute (obCapture s) = ceRoute e
          \<longrightarrow> cpCapturedAt (obCapture s) \<le> ceCapturedAt e)"
  proof
    fix e assume "e \<in> set (ceRoutes (cwEvidence w))"
    then obtain r where r: "r \<in> set ?rows" "e = routeEvidence r" by (auto simp: ev split: if_splits)
    show "\<exists>r \<in> set (odObservations db).
       e = routeEvidence r \<and> obSchemaValid r \<and> now < ceFreshnessDeadline e \<and>
       cpTargetID (obCapture r) = ofTargetID x \<and> obOfferIdentity r = ofOfferIdentity x \<and>
       (\<forall>s \<in> set (odObservations db).
          cpTargetID (obCapture s) = ofTargetID x \<and> obOfferIdentity s = ofOfferIdentity x
          \<and> now < obFreshnessDeadline s \<and> obSchemaValid s \<and> cpRoute (obCapture s) = ceRoute e
          \<longrightarrow> cpCapturedAt (obCapture s) \<le> ceCapturedAt e)"
      using inWindow_member [OF r(1)] inWindow_latest [OF r(1)] r(2)
      by (intro bexI [of _ r]) (auto simp: routeEvidence_def)
  qed
  ultimately show ?thesis using org ev by auto
qed

definition conflictRow :: "route \<Rightarrow> utext \<Rightarrow> observation_row" where
  "conflictRow rt v =
     \<lparr>obID = 9, obCapture = witnessCapture\<lparr>cpRoute := rt, cpPrice := newRawAmount v v [73]\<rparr>,
      obOfferIdentity = [65], obQuality = Unverified, obFreshnessDeadline = 500, obDedupKey = [],
      obSchemaValid = True, obIdentityValid = True\<rparr>"

definition conflictOffer :: observed_offer where
  "conflictOffer =
     \<lparr>ofTargetID = 1, ofAccountID = 2, ofOfferIdentity = [65], ofNativeVariantID = 7,
      ofNativeSellerID = [], ofPrice = newRawAmount [49] [49] [73], ofListPrice = newRawAmount [] [] [],
      ofAvailability = InStock, ofStockSignal = None, ofQuality = Conflicted, ofCapturedAt = 100,
      ofFreshnessDeadline = 500, ofRoutes = [RouteB], ofLastObservationID = 9, ofEndedAt = None\<rparr>"

definition conflictStore :: observation_db where
  "conflictStore = emptyStore\<lparr>odObservations := [conflictRow RouteB [49], conflictRow RouteC [50]],
                              odOffers := [(1, [65]) \<mapsto> conflictOffer]\<rparr>"

theorem conflict_views_verbatim_witness:
  "\<exists>views w. listMarketConflictsForOrg [4 \<mapsto> 2] conflictStore [(1, [65])] 4 2 400 = Inr views \<and>
     w \<in> set views \<and> ceAvailable (cwEvidence w) \<and> ofAccountID (cwOffer w) = 2 \<and>
     distinct (map ceRoute (ceRoutes (cwEvidence w)))"
proof -
  have r: "listInWindowRouteValues conflictStore 1 [65] 400 = [conflictRow RouteB [49], conflictRow RouteC [50]]"
    by (simp add: listInWindowRouteValues_def conflictStore_def conflictRow_def witnessCapture_def laterRow_def)
  let ?w = "\<lparr>cwOffer = conflictOffer, cwEvidence = conflictEvidenceFrom
              [conflictRow RouteB [49], conflictRow RouteC [50]]\<rparr>"
  have v: "listMarketConflictsForOrg [4 \<mapsto> 2] conflictStore [(1, [65])] 4 2 400 = Inr [?w]"
    using r by (simp add: listMarketConflictsForOrg_def ownAccount_def accountForOrg_def
        listConflictedObservedOffers_def List.map_filter_def conflictStore_def)
      (simp add: conflictOffer_def)
  from conflict_views_verbatim [OF v, of ?w] v show ?thesis
    by (auto simp: conflictEvidenceFrom_def)
qed

end
