(* ===== verification/RouteCBudget.thy ===== *)
theory RouteCBudget
  imports Prelude
begin

text \<open>
  Route C's per-account request and byte budget (routec/budget.go, queries/routec.sql): the durable
  budget over the table route_budget_usage, the in-memory budget, and the contract the observer and
  the scheduler rely on, as the locale \<open>budget_reserver\<close>. Limits and counts are integers (the table
  holds bigint counts, far from their bounds); \<open>now\<close> is what the budget's clock reads.
\<close>

record budget_state =
  bsRequestsRemaining :: int
  bsBytesRemaining :: int

definition max0 :: "int \<Rightarrow> int" where
  "max0 v = (if v < 0 then 0 else v)"

text \<open>\<open>now().UTC().Truncate(window)\<close> rounds down since Go's zero time.\<close>

definition windowKeyFor :: "instant \<Rightarrow> duration \<Rightarrow> instant" where
  "windowKeyFor now window = now - now mod window"

definition normalizeWindow :: "duration \<Rightarrow> duration" where
  "normalizeWindow window = (if window \<le> 0 then 24 * hour else window)"

record account_spend =
  asRequests :: nat
  asBytes :: nat

section \<open>The durable budget\<close>

record db_budget =
  dbRequests :: int
  dbBytes :: int
  dbWindow :: duration
  dbUsage :: "uuid \<times> instant \<rightharpoonup> account_spend"

definition newDBBudget :: "int \<Rightarrow> int \<Rightarrow> duration \<Rightarrow> db_budget" where
  "newDBBudget maxRequests maxBytes window =
     \<lparr>dbRequests = maxRequests, dbBytes = maxBytes, dbWindow = normalizeWindow window, dbUsage = Map.empty\<rparr>"

text \<open>\<open>ReserveRequestBudget\<close>: the returned row, if the statement inserts or updates one.\<close>

definition reserveRequestBudget ::
  "(uuid \<times> instant \<rightharpoonup> account_spend) \<Rightarrow> uuid \<Rightarrow> instant \<Rightarrow> int \<Rightarrow> int
    \<Rightarrow> account_spend option \<times> (uuid \<times> instant \<rightharpoonup> account_spend)" where
  "reserveRequestBudget usage account key requestLimit byteLimit =
     (if 0 < requestLimit \<and> 0 < byteLimit
      then
        (case usage (account, key) of
           None \<Rightarrow>
             (let row = \<lparr>asRequests = 1, asBytes = 0\<rparr> in (Some row, usage((account, key) \<mapsto> row)))
         | Some old \<Rightarrow>
             if int (asRequests old) < requestLimit \<and> int (asBytes old) < byteLimit
             then
               (let row = old\<lparr>asRequests := asRequests old + 1\<rparr>
                in (Some row, usage((account, key) \<mapsto> row)))
             else (None, usage))
      else (None, usage))"

definition dbReserve :: "db_budget \<Rightarrow> instant \<Rightarrow> uuid \<Rightarrow> bool \<times> db_budget" where
  "dbReserve d now account =
     (case reserveRequestBudget (dbUsage d) account (windowKeyFor now (dbWindow d)) (dbRequests d) (dbBytes d) of
        (row, usage) \<Rightarrow> (row \<noteq> None, d\<lparr>dbUsage := usage\<rparr>))"

definition consumeByteBudget ::
  "(uuid \<times> instant \<rightharpoonup> account_spend) \<Rightarrow> uuid \<Rightarrow> instant \<Rightarrow> nat \<Rightarrow> (uuid \<times> instant \<rightharpoonup> account_spend)" where
  "consumeByteBudget usage account key n =
     (case usage (account, key) of
        None \<Rightarrow> usage((account, key) \<mapsto> \<lparr>asRequests = 0, asBytes = n\<rparr>)
      | Some old \<Rightarrow> usage((account, key) \<mapsto> old\<lparr>asBytes := asBytes old + n\<rparr>))"

definition dbConsume :: "db_budget \<Rightarrow> instant \<Rightarrow> uuid \<Rightarrow> int \<Rightarrow> db_budget" where
  "dbConsume d now account n =
     (if n \<le> 0 then d
      else d\<lparr>dbUsage := consumeByteBudget (dbUsage d) account (windowKeyFor now (dbWindow d)) (nat n)\<rparr>)"

definition dbSnapshot :: "db_budget \<Rightarrow> instant \<Rightarrow> uuid \<Rightarrow> budget_state \<times> db_budget" where
  "dbSnapshot d now account =
     (case dbUsage d (account, windowKeyFor now (dbWindow d)) of
        None \<Rightarrow> (\<lparr>bsRequestsRemaining = dbRequests d, bsBytesRemaining = dbBytes d\<rparr>, d)
      | Some row \<Rightarrow>
          (\<lparr>bsRequestsRemaining = max0 (dbRequests d - int (asRequests row)),
            bsBytesRemaining = max0 (dbBytes d - int (asBytes row))\<rparr>, d))"

section \<open>The in-memory budget\<close>

record mem_budget =
  mbRequests :: int
  mbBytes :: int
  mbWindow :: duration
  mbWindowKey :: instant
  mbAccounts :: "uuid \<rightharpoonup> account_spend"

definition newBudget :: "int \<Rightarrow> int \<Rightarrow> duration \<Rightarrow> instant \<Rightarrow> mem_budget" where
  "newBudget maxRequests maxBytes window now =
     \<lparr>mbRequests = maxRequests, mbBytes = maxBytes, mbWindow = normalizeWindow window,
      mbWindowKey = windowKeyFor now (normalizeWindow window), mbAccounts = Map.empty\<rparr>"

definition rollIfNeeded :: "mem_budget \<Rightarrow> instant \<Rightarrow> mem_budget" where
  "rollIfNeeded b now =
     (let cur = windowKeyFor now (mbWindow b)
      in if cur \<noteq> mbWindowKey b then b\<lparr>mbWindowKey := cur, mbAccounts := Map.empty\<rparr> else b)"

definition spendOf :: "mem_budget \<Rightarrow> uuid \<Rightarrow> account_spend" where
  "spendOf b account =
     (case mbAccounts b account of None \<Rightarrow> \<lparr>asRequests = 0, asBytes = 0\<rparr> | Some s \<Rightarrow> s)"

definition memReserve :: "mem_budget \<Rightarrow> instant \<Rightarrow> uuid \<Rightarrow> bool \<times> mem_budget" where
  "memReserve b0 now account =
     (let b = rollIfNeeded b0 now; s = spendOf b account in
      if mbRequests b \<le> int (asRequests s) \<or> mbBytes b \<le> int (asBytes s)
      then (False, b\<lparr>mbAccounts := (mbAccounts b)(account \<mapsto> s)\<rparr>)
      else (True, b\<lparr>mbAccounts := (mbAccounts b)(account \<mapsto> s\<lparr>asRequests := asRequests s + 1\<rparr>)\<rparr>))"

definition memConsume :: "mem_budget \<Rightarrow> instant \<Rightarrow> uuid \<Rightarrow> int \<Rightarrow> mem_budget" where
  "memConsume b0 now account n =
     (if n \<le> 0 then b0
      else
        (let b = rollIfNeeded b0 now; s = spendOf b account
         in b\<lparr>mbAccounts := (mbAccounts b)(account \<mapsto> s\<lparr>asBytes := asBytes s + nat n\<rparr>)\<rparr>))"

definition memSnapshot :: "mem_budget \<Rightarrow> instant \<Rightarrow> uuid \<Rightarrow> budget_state \<times> mem_budget" where
  "memSnapshot b0 now account =
     (let b = rollIfNeeded b0 now; s = spendOf b account in
      (\<lparr>bsRequestsRemaining = max0 (mbRequests b - int (asRequests s)),
        bsBytesRemaining = max0 (mbBytes b - int (asBytes s))\<rparr>,
       b\<lparr>mbAccounts := (mbAccounts b)(account \<mapsto> s)\<rparr>))"

section \<open>The contract\<close>

datatype budget_call = CallReserve uuid | CallConsume uuid int | CallSnapshot uuid

datatype budget_answer = Admitted bool | Consumed | Headroom budget_state

text \<open>A budget's three operations, and sequences of calls to them with the instants of the calls.\<close>

record 's budget_ops =
  boReserve :: "'s \<Rightarrow> instant \<Rightarrow> uuid \<Rightarrow> bool \<times> 's"
  boConsume :: "'s \<Rightarrow> instant \<Rightarrow> uuid \<Rightarrow> int \<Rightarrow> 's"
  boSnapshot :: "'s \<Rightarrow> instant \<Rightarrow> uuid \<Rightarrow> budget_state \<times> 's"

definition budgetCall :: "'s budget_ops \<Rightarrow> 's \<Rightarrow> instant \<times> budget_call \<Rightarrow> budget_answer \<times> 's" where
  "budgetCall ops s c =
     (case c of (now, CallReserve a) \<Rightarrow> map_prod Admitted id (boReserve ops s now a)
      | (now, CallConsume a n) \<Rightarrow> (Consumed, boConsume ops s now a n)
      | (now, CallSnapshot a) \<Rightarrow> map_prod Headroom id (boSnapshot ops s now a))"

fun budgetRun :: "'s budget_ops \<Rightarrow> 's \<Rightarrow> (instant \<times> budget_call) list \<Rightarrow> budget_answer list \<times> 's" where
  "budgetRun ops s [] = ([], s)"
| "budgetRun ops s (c # cs) = (case budgetCall ops s c of (r, s') \<Rightarrow> map_prod (Cons r) id (budgetRun ops s' cs))"

text \<open>How many of the calls admitted a request of an account.\<close>

fun admissions :: "'s budget_ops \<Rightarrow> 's \<Rightarrow> uuid \<Rightarrow> (instant \<times> budget_call) list \<Rightarrow> nat" where
  "admissions ops s a [] = 0"
| "admissions ops s a (c # cs) =
     (if snd c = CallReserve a \<and> fst (budgetCall ops s c) = Admitted True then 1 else 0)
       + admissions ops (snd (budgetCall ops s c)) a cs"

definition dbOps :: "db_budget budget_ops" where
  "dbOps = \<lparr>boReserve = dbReserve, boConsume = dbConsume, boSnapshot = dbSnapshot\<rparr>"

definition memOps :: "mem_budget budget_ops" where
  "memOps = \<lparr>boReserve = memReserve, boConsume = memConsume, boSnapshot = memSnapshot\<rparr>"

text \<open>
  \<open>used s k a\<close> is what account \<open>a\<close> spent in window \<open>k\<close> according to \<open>s\<close>, \<open>windowOf\<close> the window
  length and \<open>limits\<close> the request and byte limits; they never change.
\<close>

locale budget_reserver =
  fixes ops :: "'s budget_ops"
    and used :: "'s \<Rightarrow> instant \<Rightarrow> uuid \<Rightarrow> account_spend"
    and windowOf :: "'s \<Rightarrow> duration"
    and limits :: "'s \<Rightarrow> int \<times> int"
  assumes reserve_admits: "fst (boReserve ops s now a) \<longleftrightarrow>
      int (asRequests (used s (windowKeyFor now (windowOf s)) a)) < fst (limits s) \<and>
      int (asBytes (used s (windowKeyFor now (windowOf s)) a)) < snd (limits s)"
    and reserve_used: "used (snd (boReserve ops s now a)) (windowKeyFor now (windowOf s)) a' =
      (if a' = a \<and> fst (boReserve ops s now a)
       then (used s (windowKeyFor now (windowOf s)) a')
              \<lparr>asRequests := asRequests (used s (windowKeyFor now (windowOf s)) a') + 1\<rparr>
       else used s (windowKeyFor now (windowOf s)) a')"
    and reserve_config: "windowOf (snd (boReserve ops s now a)) = windowOf s" "limits (snd (boReserve ops s now a)) = limits s"
    and consume_used: "used (boConsume ops s now a n) (windowKeyFor now (windowOf s)) a' =
      (if a' = a \<and> 0 < n
       then (used s (windowKeyFor now (windowOf s)) a')
              \<lparr>asBytes := asBytes (used s (windowKeyFor now (windowOf s)) a') + nat n\<rparr>
       else used s (windowKeyFor now (windowOf s)) a')"
    and consume_config: "windowOf (boConsume ops s now a n) = windowOf s" "limits (boConsume ops s now a n) = limits s"
    and snapshot_used: "used (snd (boSnapshot ops s now a)) (windowKeyFor now (windowOf s)) a' =
      used s (windowKeyFor now (windowOf s)) a'"
    and snapshot_headroom: "0 \<le> fst (limits s) \<Longrightarrow> 0 \<le> snd (limits s) \<Longrightarrow>
      fst (boSnapshot ops s now a) =
        \<lparr>bsRequestsRemaining = max0 (fst (limits s) - int (asRequests (used s (windowKeyFor now (windowOf s)) a))),
         bsBytesRemaining = max0 (snd (limits s) - int (asBytes (used s (windowKeyFor now (windowOf s)) a)))\<rparr>"
    and snapshot_config: "windowOf (snd (boSnapshot ops s now a)) = windowOf s" "limits (snd (boSnapshot ops s now a)) = limits s"
begin

lemma call_config: "windowOf (snd (budgetCall ops s c)) = windowOf s" "limits (snd (budgetCall ops s c)) = limits s"
  by (auto simp: budgetCall_def reserve_config consume_config snapshot_config map_prod_def
      split: prod.splits budget_call.splits)
    (metis reserve_config snapshot_config snd_conv)+

lemma call_requests:
  assumes "windowKeyFor (fst c) (windowOf s) = k"
  shows "asRequests (used (snd (budgetCall ops s c)) k a) =
    asRequests (used s k a) + (if snd c = CallReserve a \<and> fst (budgetCall ops s c) = Admitted True then 1 else 0)"
proof (cases c)
  case (Pair now op)
  with assms have k: "windowKeyFor now (windowOf s) = k" by simp
  show ?thesis
  proof (cases op)
    case (CallReserve b)
    obtain r s' where r: "boReserve ops s now b = (r, s')" by (rule prod.exhaust)
    from reserve_used [of s now b a] show ?thesis by (auto simp: Pair CallReserve budgetCall_def r k)
  next
    case (CallConsume b n)
    from consume_used [of s now b n a] show ?thesis by (auto simp: Pair CallConsume budgetCall_def k)
  next
    case (CallSnapshot b)
    obtain r s' where r: "boSnapshot ops s now b = (r, s')" by (rule prod.exhaust)
    from snapshot_used [of s now b a] show ?thesis by (auto simp: Pair CallSnapshot budgetCall_def r k)
  qed
qed

lemma admissions_used:
  assumes "\<forall>c \<in> set cs. windowKeyFor (fst c) (windowOf s) = k"
  shows "asRequests (used (snd (budgetRun ops s cs)) k a) = asRequests (used s k a) + admissions ops s a cs"
  using assms
proof (induction cs arbitrary: s)
  case (Cons c cs)
  from Cons.prems have c: "windowKeyFor (fst c) (windowOf s) = k" by simp
  have "asRequests (used (snd (budgetRun ops (snd (budgetCall ops s c)) cs)) k a)
          = asRequests (used (snd (budgetCall ops s c)) k a) + admissions ops (snd (budgetCall ops s c)) a cs"
    by (rule Cons.IH) (use Cons.prems in \<open>simp add: call_config\<close>)
  with call_requests [OF c, of a] show ?case by (cases "budgetCall ops s c") simp
qed simp

lemma requests_bounded:
  assumes "\<forall>c \<in> set cs. windowKeyFor (fst c) (windowOf s) = k"
    and "int (asRequests (used s k a)) \<le> max 0 (fst (limits s))"
  shows "int (asRequests (used (snd (budgetRun ops s cs)) k a)) \<le> max 0 (fst (limits s))"
  using assms
proof (induction cs arbitrary: s)
  case (Cons c cs)
  from Cons.prems have c: "windowKeyFor (fst c) (windowOf s) = k" by simp
  have "int (asRequests (used (snd (budgetCall ops s c)) k a)) \<le> max 0 (fst (limits s))"
  proof (cases "snd c = CallReserve a \<and> fst (budgetCall ops s c) = Admitted True")
    case True
    then have "fst (boReserve ops s (fst c) a)"
      by (cases c; cases "boReserve ops s (fst c) a") (auto simp: budgetCall_def)
    with reserve_admits [of s "fst c" a] c have "int (asRequests (used s k a)) < fst (limits s)" by simp
    with call_requests [OF c, of a] True show ?thesis by simp
  next
    case False
    with call_requests [OF c, of a] Cons.prems show ?thesis by simp
  qed
  then have "int (asRequests (used (snd (budgetRun ops (snd (budgetCall ops s c)) cs)) k a)) \<le> max 0 (fst (limits (snd (budgetCall ops s c))))"
    using Cons.prems by (intro Cons.IH) (simp_all add: call_config)
  then show ?case by (cases "budgetCall ops s c") (simp add: call_config [of s c, symmetric])
qed simp

text \<open>However calls of different accounts interleave, one window admits at most the request limit.\<close>

lemma admissions_bounded:
  assumes "\<forall>c \<in> set cs. windowKeyFor (fst c) (windowOf s) = k" and "asRequests (used s k a) = 0"
  shows "int (admissions ops s a cs) \<le> max 0 (fst (limits s))"
proof -
  have "int (asRequests (used (snd (budgetRun ops s cs)) k a)) \<le> max 0 (fst (limits s))"
    by (rule requests_bounded) (use assms in simp_all)
  with admissions_used [OF assms(1), of a] assms(2) show ?thesis by simp
qed

end

section \<open>The two budgets\<close>

definition dbUsed :: "db_budget \<Rightarrow> instant \<Rightarrow> uuid \<Rightarrow> account_spend" where
  "dbUsed d k a = (case dbUsage d (a, k) of None \<Rightarrow> \<lparr>asRequests = 0, asBytes = 0\<rparr> | Some row \<Rightarrow> row)"

definition memUsed :: "mem_budget \<Rightarrow> instant \<Rightarrow> uuid \<Rightarrow> account_spend" where
  "memUsed b k a = (if k = mbWindowKey b then spendOf b a else \<lparr>asRequests = 0, asBytes = 0\<rparr>)"

interpretation db: budget_reserver dbOps dbUsed dbWindow "\<lambda>d. (dbRequests d, dbBytes d)"
  by unfold_locales
    (auto simp: dbOps_def dbReserve_def dbConsume_def dbSnapshot_def dbUsed_def
      reserveRequestBudget_def consumeByteBudget_def max0_def Let_def split: option.splits prod.splits if_splits)

lemma roll_key [simp]: "mbWindowKey (rollIfNeeded b now) = windowKeyFor now (mbWindow b)"
  and roll_config [simp]: "mbWindow (rollIfNeeded b now) = mbWindow b"
  "mbRequests (rollIfNeeded b now) = mbRequests b" "mbBytes (rollIfNeeded b now) = mbBytes b"
  by (auto simp: rollIfNeeded_def Let_def)

lemma roll_spend: "spendOf (rollIfNeeded b now) a = memUsed b (windowKeyFor now (mbWindow b)) a"
  by (auto simp: rollIfNeeded_def memUsed_def spendOf_def Let_def)

interpretation mem: budget_reserver memOps memUsed mbWindow "\<lambda>b. (mbRequests b, mbBytes b)"
proof
  fix s :: mem_budget and now a a' n
  let ?k = "windowKeyFor now (mbWindow s)"
  show "fst (boReserve memOps s now a) \<longleftrightarrow>
      int (asRequests (memUsed s ?k a)) < fst (mbRequests s, mbBytes s) \<and>
      int (asBytes (memUsed s ?k a)) < snd (mbRequests s, mbBytes s)"
    by (auto simp: memOps_def memReserve_def roll_spend Let_def)
  show "memUsed (snd (boReserve memOps s now a)) ?k a' =
      (if a' = a \<and> fst (boReserve memOps s now a)
       then (memUsed s ?k a')\<lparr>asRequests := asRequests (memUsed s ?k a') + 1\<rparr> else memUsed s ?k a')"
    using roll_spend [of s now a] roll_spend [of s now a']
    by (auto simp: memOps_def memReserve_def memUsed_def [of "_\<lparr>mbAccounts := _\<rparr>"] spendOf_def Let_def)
  show "memUsed (boConsume memOps s now a n) ?k a' =
      (if a' = a \<and> 0 < n
       then (memUsed s ?k a')\<lparr>asBytes := asBytes (memUsed s ?k a') + nat n\<rparr> else memUsed s ?k a')"
    using roll_spend [of s now a] roll_spend [of s now a']
    by (auto simp: memOps_def memConsume_def memUsed_def [of "_\<lparr>mbAccounts := _\<rparr>"] spendOf_def Let_def)
  show "memUsed (snd (boSnapshot memOps s now a)) ?k a' = memUsed s ?k a'"
    using roll_spend [of s now a] roll_spend [of s now a']
    by (auto simp: memOps_def memSnapshot_def memUsed_def [of "_\<lparr>mbAccounts := _\<rparr>"] spendOf_def Let_def)
qed (auto simp: memOps_def memReserve_def memConsume_def memSnapshot_def roll_spend Let_def)

section \<open>The durable budget refines the in-memory one\<close>

lemma windowKey_mono: "0 < w \<Longrightarrow> t \<le> u \<Longrightarrow> windowKeyFor t w \<le> windowKeyFor u w"
proof -
  assume "0 < w" "t \<le> u"
  then have "w * (t div w) \<le> w * (u div w)" by (simp add: zdiv_mono1)
  then show ?thesis by (simp add: windowKeyFor_def minus_mod_eq_mult_div)
qed

text \<open>The two hold the same spend for the in-memory budget's window and every later one.\<close>

definition budgetSim :: "db_budget \<Rightarrow> mem_budget \<Rightarrow> instant \<Rightarrow> bool" where
  "budgetSim d b t \<longleftrightarrow>
     dbRequests d = mbRequests b \<and> dbBytes d = mbBytes b \<and> dbWindow d = mbWindow b \<and> 0 < mbWindow b \<and>
     0 \<le> mbRequests b \<and> 0 \<le> mbBytes b \<and> mbWindowKey b \<le> windowKeyFor t (mbWindow b) \<and>
     (\<forall>k a. mbWindowKey b \<le> k \<longrightarrow> memUsed b k a = dbUsed d k a)"

lemma dbUsed_other:
  assumes "k \<noteq> windowKeyFor (fst c) (dbWindow d)"
  shows "dbUsed (snd (budgetCall dbOps d c)) k a = dbUsed d k a"
  using assms
  by (cases c; cases "snd c") (auto simp: budgetCall_def dbOps_def dbReserve_def dbConsume_def dbSnapshot_def
      dbUsed_def reserveRequestBudget_def consumeByteBudget_def Let_def split: option.splits prod.splits)

lemma memUsed_other:
  "mbWindowKey (snd (budgetCall memOps b c)) = mbWindowKey b \<and> snd (budgetCall memOps b c) = b \<or>
   mbWindowKey (snd (budgetCall memOps b c)) = windowKeyFor (fst c) (mbWindow b)"
  by (cases c; cases "snd c") (auto simp: budgetCall_def memOps_def memReserve_def memConsume_def
      memSnapshot_def Let_def)

lemma budgetSim_step:
  assumes sim: "budgetSim d b t" and t: "t \<le> fst c"
  shows "fst (budgetCall dbOps d c) = fst (budgetCall memOps b c) \<and>
    budgetSim (snd (budgetCall dbOps d c)) (snd (budgetCall memOps b c)) (fst c)"
proof -
  obtain now op where c: "c = (now, op)" by (rule prod.exhaust)
  let ?k = "windowKeyFor now (mbWindow b)" and ?d = "snd (budgetCall dbOps d c)" and ?b = "snd (budgetCall memOps b c)"
  have w: "dbWindow d = mbWindow b" "0 < mbWindow b" and lim: "dbRequests d = mbRequests b" "dbBytes d = mbBytes b"
    "0 \<le> mbRequests b" "0 \<le> mbBytes b" using sim by (simp_all add: budgetSim_def)
  have "windowKeyFor t (mbWindow b) \<le> ?k" using t c w by (intro windowKey_mono) simp_all
  then have k: "mbWindowKey b \<le> ?k" using sim by (simp add: budgetSim_def)
  have eq: "memUsed b ?k a = dbUsed d ?k a" for a using sim k by (simp add: budgetSim_def)
  have ans: "fst (budgetCall dbOps d c) = fst (budgetCall memOps b c) \<and>
      (\<forall>a. memUsed ?b ?k a = dbUsed ?d ?k a)"
  proof (cases op)
    case (CallReserve a)
    from db.reserve_admits [of d now a] mem.reserve_admits [of b now a]
    have "fst (boReserve dbOps d now a) = fst (boReserve memOps b now a)" by (simp add: w lim eq)
    with db.reserve_used [of d now a] mem.reserve_used [of b now a] show ?thesis
      by (auto simp: c CallReserve budgetCall_def w eq map_prod_def split: prod.splits)
  next
    case (CallConsume a n)
    with db.consume_used [of d now a n] mem.consume_used [of b now a n] show ?thesis
      by (auto simp: c budgetCall_def w eq)
  next
    case (CallSnapshot a)
    from db.snapshot_headroom [of d now a] mem.snapshot_headroom [of b now a]
    have "fst (boSnapshot dbOps d now a) = fst (boSnapshot memOps b now a)" by (simp add: w lim eq)
    with db.snapshot_used [of d now a] mem.snapshot_used [of b now a] CallSnapshot show ?thesis
      by (auto simp: c budgetCall_def w eq map_prod_def split: prod.splits)
  qed
  have cfg: "dbWindow ?d = mbWindow b" "mbWindow ?b = mbWindow b" "dbRequests ?d = mbRequests b"
    "dbBytes ?d = mbBytes b" "mbRequests ?b = mbRequests b" "mbBytes ?b = mbBytes b"
    using db.call_config [of d c] mem.call_config [of b c] w lim by simp_all
  have used: "memUsed ?b k a = dbUsed ?d k a" if "mbWindowKey ?b \<le> k" for k a
  proof (cases "k = ?k")
    case True
    with ans show ?thesis by simp
  next
    case False
    then have d: "dbUsed ?d k a = dbUsed d k a" using w c by (intro dbUsed_other) simp
    from memUsed_other [of b c] show ?thesis
    proof
      assume "mbWindowKey ?b = mbWindowKey b \<and> ?b = b"
      with that d sim show ?thesis by (simp add: budgetSim_def)
    next
      assume key: "mbWindowKey ?b = windowKeyFor (fst c) (mbWindow b)"
      then have m: "memUsed ?b k a = \<lparr>asRequests = 0, asBytes = 0\<rparr>" using False c by (simp add: memUsed_def)
      from key that k c False have "mbWindowKey b < k" by simp
      with sim have "dbUsed d k a = memUsed b k a" by (simp add: budgetSim_def)
      with \<open>mbWindowKey b < k\<close> have "dbUsed d k a = \<lparr>asRequests = 0, asBytes = 0\<rparr>"
        by (simp add: memUsed_def)
      with d m show ?thesis by simp
    qed
  qed
  have "mbWindowKey ?b \<le> ?k" using memUsed_other [of b c] k c by auto
  with ans cfg used w lim c show ?thesis by (simp add: budgetSim_def)
qed

lemma budgetSim_run:
  assumes "budgetSim d b t" and "sorted (t # map fst cs)"
  shows "fst (budgetRun dbOps d cs) = fst (budgetRun memOps b cs)"
  using assms
proof (induction cs arbitrary: d b t)
  case (Cons c cs)
  from Cons.prems have "t \<le> fst c" by simp
  from budgetSim_step [OF Cons.prems(1) this] Cons.prems(2)
  have "fst (budgetCall dbOps d c) = fst (budgetCall memOps b c)"
    "fst (budgetRun dbOps (snd (budgetCall dbOps d c)) cs) = fst (budgetRun memOps (snd (budgetCall memOps b c)) cs)"
    using Cons.IH [of _ _ "fst c"] by auto
  then show ?case by (cases "budgetCall dbOps d c"; cases "budgetCall memOps b c") simp
qed simp

section \<open>Properties\<close>

text \<open>
  Further. The hard daily ceiling: in one window the durable budget admits at most its request limit for an
  account, in every interleaving of reservations, byte reports and snapshots of all accounts.
\<close>

theorem window_admissions_bounded:
  assumes "\<forall>c \<in> set cs. windowKeyFor (fst c) (dbWindow d) = k" and "dbUsage d (a, k) = None"
  shows "int (admissions dbOps d a cs) \<le> max 0 (dbRequests d)"
  using db.admissions_bounded [of cs d k a] assms by (simp add: dbUsed_def)

theorem window_admissions_bounded_witness:
  "admissions dbOps (newDBBudget 1 1000 hour) 5 [(10, CallReserve 5), (20, CallReserve 5)] \<le> 1"
  using window_admissions_bounded [of "[(10, CallReserve 5), (20, CallReserve 5)]" "newDBBudget 1 1000 hour" 0 5]
  by (simp add: newDBBudget_def normalizeWindow_def windowKeyFor_def)

text \<open>
  C22. The durable budget refines the in-memory one: with the same non-negative limits and window, any
  sequence of calls whose clock does not go back gets the same answers from both.
\<close>

theorem durable_budget_refines:
  assumes "0 \<le> requests" and "0 \<le> bytes" and "sorted (t # map fst cs)"
  shows "fst (budgetRun dbOps (newDBBudget requests bytes window) cs)
           = fst (budgetRun memOps (newBudget requests bytes window t) cs)"
proof (rule budgetSim_run [OF _ assms(3)])
  show "budgetSim (newDBBudget requests bytes window) (newBudget requests bytes window t) t"
    using assms(1,2)
    by (simp add: budgetSim_def newDBBudget_def newBudget_def normalizeWindow_def memUsed_def dbUsed_def spendOf_def)
qed

theorem durable_budget_refines_witness:
  "fst (budgetRun dbOps (newDBBudget 1 9 hour) [(1, CallReserve 5), (2, CallSnapshot 5), (7200000000000, CallReserve 5)])
     = fst (budgetRun memOps (newBudget 1 9 hour 0) [(1, CallReserve 5), (2, CallSnapshot 5), (7200000000000, CallReserve 5)])"
  by (rule durable_budget_refines) simp_all

end
