(* ===== verification/RouteCSweep.thy ===== *)
theory RouteCSweep
  imports Observation RouteCBudget
begin

text \<open>
  Route C's sweep planning and rotation (routec/scheduler.go), priority cap (routec.go), retry backoff
  and schedule jitter (backoff.go).
\<close>

section \<open>Priority cap (routec.go)\<close>

definition maxPriorityCap :: int where "maxPriorityCap = 200"
definition defaultPriorityCap :: int where "defaultPriorityCap = 50"

definition effectivePriorityCap :: "int \<Rightarrow> int" where
  "effectivePriorityCap measuredCap =
     (let cap = (if 0 < measuredCap then measuredCap else defaultPriorityCap);
          cap = (if maxPriorityCap < cap then maxPriorityCap else cap)
      in if cap < 0 then 0 else cap)"

definition tierCadence :: "tier \<Rightarrow> duration \<times> duration" where
  "tierCadence tr = tierWindow tr"

section \<open>Planning (scheduler.go)\<close>

record sweep_plan =
  spTier :: tier
  spCadence :: duration
  spFreshness :: duration
  spTargetIDs :: "uuid list"
  spTrimmed :: int
  spNextCursor :: int

text \<open>Go's \<open>%\<close> keeps the sign of the dividend, as \<open>smod\<close> on int does.\<close>

definition planSweep :: "tier \<Rightarrow> uuid list \<Rightarrow> int \<Rightarrow> budget_state \<Rightarrow> int \<Rightarrow> sweep_plan" where
  "planSweep tr targetIDs countCap budget cursor =
     (let eligible = int (length targetIDs);
          selected = (if 0 \<le> countCap \<and> countCap < eligible then countCap else eligible);
          selected = (if bsRequestsRemaining budget < selected then bsRequestsRemaining budget else selected);
          selected = (if selected < 0 then 0 else selected);
          plan = \<lparr>spTier = tr, spCadence = fst (tierCadence tr), spFreshness = snd (tierCadence tr),
                  spTargetIDs = [], spTrimmed = 0, spNextCursor = 0\<rparr> in
      if eligible = 0 then plan
      else
        (let start = (cursor smod eligible + eligible) smod eligible
         in plan\<lparr>spTargetIDs :=
                   map (\<lambda>i. targetIDs ! nat ((start + int i) smod eligible)) [0..<nat selected],
                 spTrimmed := eligible - selected,
                 spNextCursor := (start + selected) smod eligible\<rparr>))"

text \<open>Sweeps of one (tier, account): each plan's cursor is fed into the next.\<close>

fun sweeps :: "tier \<Rightarrow> uuid list \<Rightarrow> int \<Rightarrow> budget_state list \<Rightarrow> int \<Rightarrow> sweep_plan list" where
  "sweeps tr ids cap [] cursor = []"
| "sweeps tr ids cap (b # bs) cursor =
     (let plan = planSweep tr ids cap b cursor in plan # sweeps tr ids cap bs (spNextCursor plan))"

section \<open>Backoff and jitter (backoff.go)\<close>

record backoff =
  bkBase :: int64
  bkMax :: int64
  bkFactor :: int64

fun backoffLoop :: "int64 \<Rightarrow> int64 \<Rightarrow> int64 \<Rightarrow> nat \<Rightarrow> int64" where
  "backoffLoop factor maxNs e 0 = e"
| "backoffLoop factor maxNs e (Suc n) =
     (let e' = e * factor in if 0 <s maxNs \<and> maxNs \<le>s e' then maxNs else backoffLoop factor maxNs e' n)"

text \<open>\<open>rng\<close> is the generator's \<open>Int63n\<close>, or None for a nil generator.\<close>

definition delay :: "backoff \<Rightarrow> int \<Rightarrow> (int64 \<Rightarrow> int64) option \<Rightarrow> int64" where
  "delay b attempt rng =
     (let attempt = (if attempt < 0 then 0 else attempt);
          factor = (if bkFactor b <s 1 then 1 else bkFactor b);
          e = backoffLoop factor (bkMax b) (bkBase b) (nat attempt);
          e = (if 0 <s bkMax b \<and> bkMax b <s e then bkMax b else e)
      in if e \<le>s 0 then 0
         else (case rng of None \<Rightarrow> e | Some int63n \<Rightarrow> int63n (e + 1)))"

definition jitter :: "int64 \<Rightarrow> int64 \<Rightarrow> (int64 \<Rightarrow> int64) option \<Rightarrow> int64" where
  "jitter base jitterBP rng =
     (case rng of None \<Rightarrow> base
      | Some int63n \<Rightarrow>
          if jitterBP \<le>s 0 \<or> base \<le>s 0 then base
          else
            (let bp = (if 10000 <s jitterBP then 10000 else jitterBP);
                 span = quot64 (base * bp) 10000
             in if span \<le>s 0 then base else base + (int63n (2 * span + 1) - span)))"

section \<open>Lemmas\<close>

lemma smod_nonneg: "0 \<le> a \<Longrightarrow> 0 < n \<Longrightarrow> a smod n = a mod (n :: int)"
  by (simp add: smod_mod_positive)

lemma smod_range: "0 < n \<Longrightarrow> - n < a smod n \<and> a smod n < (n :: int)"
  using smod_int_range [of n a] by simp

text \<open>The start index: a valid one, and the cursor itself when that is valid.\<close>

lemma start_range:
  assumes "0 < n"
  shows "0 \<le> (c smod n + n) smod n \<and> (c smod n + n) smod n < (n :: int)"
  using smod_range [OF assms, of c] assms by (simp add: smod_nonneg)

lemma start_id: "0 \<le> c \<Longrightarrow> c < n \<Longrightarrow> (c smod n + n) smod n = (c :: int)"
  by (simp add: smod_nonneg)

definition rotation :: "uuid list \<Rightarrow> int \<Rightarrow> nat \<Rightarrow> uuid list" where
  "rotation ids start k = map (\<lambda>i. ids ! nat ((start + int i) mod int (length ids))) [0..<k]"

lemma length_rotation [simp]: "length (rotation ids start k) = k"
  by (simp add: rotation_def)

lemma rotation_append:
  assumes "ids \<noteq> []"
  shows "rotation ids start (j + k) = rotation ids start j @ rotation ids ((start + int j) mod int (length ids)) k"
proof -
  have "rotation ids start (j + k)
          = rotation ids start j @ map (\<lambda>i. ids ! nat ((start + int i) mod int (length ids))) [j..<j + k]"
    unfolding rotation_def upt_add_eq_append [of 0 j k, OF le0] by (rule map_append)
  also have "map (\<lambda>i. ids ! nat ((start + int i) mod int (length ids))) [j..<j + k]
               = map (\<lambda>i. ids ! nat ((start + int (i + j)) mod int (length ids))) [0..<k]"
  proof -
    have "[j..<j + k] = map (\<lambda>i. i + j) [0..<k]" using map_add_upt [of j k] by (simp only: add.commute)
    then show ?thesis by (simp only: map_map comp_def)
  qed
  also have "\<dots> = rotation ids ((start + int j) mod int (length ids)) k"
    unfolding rotation_def
  proof (rule map_cong [OF refl])
    fix i
    have "((start + int j) mod int (length ids) + int i) mod int (length ids)
            = (start + int j + int i) mod int (length ids)" by (rule mod_add_left_eq)
    also have "start + int j + int i = start + int (i + j)" by simp
    finally show "ids ! nat ((start + int (i + j)) mod int (length ids))
        = ids ! nat (((start + int j) mod int (length ids) + int i) mod int (length ids))" by simp
  qed
  finally show ?thesis .
qed

definition planSelected :: "uuid list \<Rightarrow> int \<Rightarrow> budget_state \<Rightarrow> nat" where
  "planSelected ids cap b =
     nat (min (min (if 0 \<le> cap then cap else int (length ids)) (int (length ids))) (bsRequestsRemaining b))"

lemma planSweep_rotation:
  fixes cursor :: int
  assumes "ids \<noteq> []"
  defines "start \<equiv> (cursor smod int (length ids) + int (length ids)) smod int (length ids)"
  shows "spTargetIDs (planSweep tr ids cap b cursor) = rotation ids start (planSelected ids cap b)"
    "spNextCursor (planSweep tr ids cap b cursor) = (start + int (planSelected ids cap b)) mod int (length ids)"
    "spTrimmed (planSweep tr ids cap b cursor) = int (length ids) - int (planSelected ids cap b)"
proof -
  have n: "0 < int (length ids)" using assms(1) by simp
  from start_range [OF n] have st: "0 \<le> start" unfolding start_def by simp
  have sel: "(let selected = (if 0 \<le> cap \<and> cap < int (length ids) then cap else int (length ids));
      selected = (if bsRequestsRemaining b < selected then bsRequestsRemaining b else selected)
      in (if selected < 0 then 0 else selected)) = int (planSelected ids cap b)"
    by (auto simp: planSelected_def Let_def)
  show "spTargetIDs (planSweep tr ids cap b cursor) = rotation ids start (planSelected ids cap b)"
    "spNextCursor (planSweep tr ids cap b cursor) = (start + int (planSelected ids cap b)) mod int (length ids)"
    "spTrimmed (planSweep tr ids cap b cursor) = int (length ids) - int (planSelected ids cap b)"
    using n st assms(1) unfolding planSweep_def sel [unfolded Let_def] Let_def start_def [symmetric]
    by (simp_all add: rotation_def smod_nonneg)
qed

lemma sweeps_rotation:
  assumes "ids \<noteq> []" and "0 \<le> cursor" and "cursor < int (length ids)"
  shows "concat (map spTargetIDs (sweeps tr ids cap bs cursor))
           = rotation ids cursor (sum_list (map (planSelected ids cap) bs))"
  using assms(2,3)
proof (induction bs arbitrary: cursor)
  case Nil
  then show ?case by (simp add: rotation_def)
next
  case (Cons b bs)
  let ?n = "int (length ids)"
  have st: "(cursor smod ?n + ?n) smod ?n = cursor" using Cons.prems by (rule start_id)
  let ?next = "(cursor + int (planSelected ids cap b)) mod ?n"
  have n: "0 < ?n" using assms(1) by simp
  have "concat (map spTargetIDs (sweeps tr ids cap bs ?next))
          = rotation ids ?next (sum_list (map (planSelected ids cap) bs))"
    by (rule Cons.IH) (use n in simp_all)
  then show ?case
    using planSweep_rotation [OF assms(1), where cursor = cursor and tr = tr and cap = cap and b = b] assms(1)
    by (simp add: Let_def st rotation_append)
qed

lemma nat_mod_less: "0 < int n \<Longrightarrow> nat (x mod int n) < n"
  using pos_mod_bound [of "int n" x] pos_mod_sign [of "int n" x] by linarith

lemma rotation_covers:
  assumes "length ids \<le> k" and "0 \<le> start"
  shows "set ids \<subseteq> set (rotation ids start k)"
proof
  fix x assume "x \<in> set ids"
  then obtain j where j: "j < length ids" "ids ! j = x" by (auto simp: in_set_conv_nth)
  let ?n = "int (length ids)" and ?i = "nat ((int j - start) mod int (length ids))"
  have n: "0 < ?n" using j by auto
  have b: "0 \<le> (int j - start) mod ?n" "(int j - start) mod ?n < ?n"
    using n by (rule pos_mod_sign, rule pos_mod_bound)
  then have i: "?i < k" using assms(1) by linarith
  have "(start + int ?i) mod ?n = (start + (int j - start) mod ?n) mod ?n" using b(1) by simp
  also have "\<dots> = (start + (int j - start)) mod ?n" by (rule mod_add_right_eq)
  also have "\<dots> = int j" using j(1) by simp
  finally have "(start + int ?i) mod ?n = int j" .
  with j(2) have "ids ! nat ((start + int ?i) mod ?n) = x" by simp
  with i show "x \<in> set (rotation ids start k)" unfolding rotation_def by force
qed

lemma rotation_distinct:
  assumes "distinct ids" and "k \<le> length ids"
  shows "distinct (rotation ids start k)"
  unfolding rotation_def distinct_map
proof (intro conjI inj_onI)
  fix i j assume ij: "i \<in> set [0..<k]" "j \<in> set [0..<k]"
    and eq: "ids ! nat ((start + int i) mod int (length ids)) = ids ! nat ((start + int j) mod int (length ids))"
  let ?n = "int (length ids)"
  from ij assms(2) have n: "0 < ?n" by auto
  from eq have "nat ((start + int i) mod ?n) = nat ((start + int j) mod ?n)"
    using nth_eq_iff_index_eq [OF assms(1)] nat_mod_less [OF n] by simp
  then have "(start + int i) mod ?n = (start + int j) mod ?n"
    using pos_mod_sign [OF n] by (metis nat_eq_iff)
  then have "?n dvd (start + int i) - (start + int j)" by (simp only: mod_eq_dvd_iff)
  then have "?n dvd (int i - int j)" by simp
  moreover have "\<bar>int i - int j\<bar> < ?n" using ij assms(2) by auto
  ultimately show "i = j" using zdvd_not_zless [of "\<bar>int i - int j\<bar>" ?n] by (cases "i = j") auto
qed simp

lemma sweeps_rotation_any:
  fixes cursor :: int
  assumes "ids \<noteq> []"
  defines "start \<equiv> (cursor smod int (length ids) + int (length ids)) smod int (length ids)"
  shows "concat (map spTargetIDs (sweeps tr ids cap bs cursor))
           = rotation ids start (sum_list (map (planSelected ids cap) bs))"
proof (cases bs)
  case Nil
  then show ?thesis by (simp add: rotation_def)
next
  case (Cons b rest)
  have n: "0 < int (length ids)" using assms(1) by simp
  note st = start_range [OF n, of cursor, folded start_def]
  have "planSweep tr ids cap b cursor = planSweep tr ids cap b start"
    unfolding planSweep_def Let_def start_id [OF st [THEN conjunct1] st [THEN conjunct2]]
    by (simp only: start_def)
  then have "sweeps tr ids cap bs cursor = sweeps tr ids cap bs start" by (simp add: Cons Let_def)
  with sweeps_rotation [OF assms(1), of start tr cap bs] st show ?thesis by simp
qed

lemma planSelected_le: "planSelected ids cap b \<le> length ids"
  by (simp add: planSelected_def)

lemma rotation_subset: "0 < length ids \<Longrightarrow> set (rotation ids start k) \<subseteq> set ids"
  using nat_mod_less [of "length ids"] by (auto simp: rotation_def intro!: nth_mem)

lemma backoffLoop_min:
  assumes "0 < sint m" and "1 \<le> sint f" and "0 \<le> sint e" and "sint e \<le> sint m"
    and "sint m * sint f \<le> 9223372036854775807"
  shows "sint (backoffLoop f m e n) = min (sint e * sint f ^ n) (sint m)"
  using assms(3,4)
proof (induction n arbitrary: e)
  case 0
  then show ?case by simp
next
  case (Suc n)
  have le: "sint e * sint f \<le> sint m * sint f" using Suc.prems assms(2) by (intro mult_right_mono) simp_all
  have nn: "0 \<le> sint e * sint f" using Suc.prems assms(2) by simp
  have "inInt64 (sint e * sint f)" using le nn assms(5) unfolding inInt64_def by linarith
  then have e': "sint (e * f) = sint e * sint f" by (rule sint64_mul)
  show ?case
  proof (cases "m \<le>s e * f")
    case True
    then have ge: "sint m \<le> sint e * sint f" by (simp add: word_sle_eq e')
    have "1 \<le> sint f ^ n" using assms(2) by (rule one_le_power)
    then have "sint e * sint f * 1 \<le> sint e * sint f * sint f ^ n" using nn by (intro mult_left_mono)
    with ge have "sint m \<le> sint e * sint f ^ Suc n" by (simp add: mult.assoc)
    with True assms(1) show ?thesis by (simp add: Let_def word_sless_alt)
  next
    case False
    then have "sint (e * f) \<le> sint m" by (simp add: word_sle_eq)
    then have "sint (backoffLoop f m (e * f) n) = min (sint (e * f) * sint f ^ n) (sint m)"
      using nn e' by (intro Suc.IH) simp_all
    with False show ?thesis by (simp add: Let_def e' mult.assoc)
  qed
qed

lemma planSweep_targets: "set (spTargetIDs (planSweep tr ids cap b cursor)) \<subseteq> set ids"
proof (cases "ids = []")
  case True
  then show ?thesis by (simp add: planSweep_def Let_def)
next
  case False
  then show ?thesis
    using planSweep_rotation(1) [OF False, of tr cap b cursor] rotation_subset [of ids] by auto
qed

section \<open>Properties\<close>

text \<open>
  Further. A plan stays inside its limits: it selects only eligible targets, no more than the count cap and
  the account's remaining requests, counts the rest as trimmed, keeps the tier's cadence and freshness
  whatever the pressure, and hands on a cursor into the eligible list.
\<close>

theorem plan_within_limits:
  "(let plan = planSweep tr ids cap b cursor; n = int (length ids) in
     set (spTargetIDs plan) \<subseteq> set ids \<and>
     int (length (spTargetIDs plan)) \<le> max 0 (bsRequestsRemaining b) \<and>
     \<not> (0 \<le> cap \<and> cap < int (length (spTargetIDs plan))) \<and>
     int (length (spTargetIDs plan)) + spTrimmed plan = n \<and>
     (spCadence plan, spFreshness plan) = tierWindow tr \<and>
     0 \<le> spNextCursor plan \<and> spNextCursor plan \<le> max 0 (n - 1))"
proof (cases "ids = []")
  case True
  then show ?thesis by (simp add: planSweep_def tierCadence_def Let_def)
next
  case False
  then have n: "0 < int (length ids)" by simp
  have w: "(spCadence (planSweep tr ids cap b cursor), spFreshness (planSweep tr ids cap b cursor)) = tierWindow tr"
    by (simp add: planSweep_def tierCadence_def Let_def)
  let ?start = "(cursor smod int (length ids) + int (length ids)) smod int (length ids)"
  have "spNextCursor (planSweep tr ids cap b cursor) < int (length ids)"
    "0 \<le> spNextCursor (planSweep tr ids cap b cursor)"
    using planSweep_rotation(2) [OF False, of tr cap b cursor] n by simp_all
  then show ?thesis
    using planSweep_rotation(1,3) [OF False, of tr cap b cursor] rotation_subset [of ids ?start] n
      planSelected_le [of ids cap b] w False
    by (auto simp: Let_def planSelected_def)
qed

text \<open>
  Further. Fairness: successive sweeps of a tier and account, whatever their budgets and the cursor they
  start with, go round the eligible list. No target comes again before every other had its turn, and
  once the sweeps have selected as many targets as are eligible, every one has been selected.
\<close>

theorem sweeps_rotate_fairly:
  assumes "ids \<noteq> []" and "distinct ids"
    and "turns = sum_list (map (\<lambda>p. length (spTargetIDs p)) (sweeps tr ids cap bs cursor))"
  shows "if length ids \<le> turns then set ids \<subseteq> set (concat (map spTargetIDs (sweeps tr ids cap bs cursor)))
         else distinct (concat (map spTargetIDs (sweeps tr ids cap bs cursor)))"
proof -
  let ?start = "(cursor smod int (length ids) + int (length ids)) smod int (length ids)"
  have r: "concat (map spTargetIDs (sweeps tr ids cap bs cursor))
             = rotation ids ?start (sum_list (map (planSelected ids cap) bs))"
    by (rule sweeps_rotation_any [OF assms(1)])
  have "turns = length (concat (map spTargetIDs (sweeps tr ids cap bs cursor)))"
    by (simp add: assms(3) length_concat comp_def)
  then have t: "turns = sum_list (map (planSelected ids cap) bs)" by (simp add: r)
  have "0 \<le> ?start" using assms(1) start_range [of "int (length ids)" cursor] by simp
  with rotation_covers rotation_distinct [OF assms(2)] show ?thesis
    by (auto simp: r t dest!: rotation_covers [THEN subsetD])
qed

theorem sweeps_rotate_fairly_witness:
  "set [1, 2, 3] \<subseteq> set (concat (map spTargetIDs (sweeps TierStandard [1, 2, 3] 100
     [\<lparr>bsRequestsRemaining = 2, bsBytesRemaining = 9\<rparr>, \<lparr>bsRequestsRemaining = 1, bsBytesRemaining = 9\<rparr>] (- 1))))"
proof -
  let ?s = "sweeps TierStandard [1, 2, 3] 100
     [\<lparr>bsRequestsRemaining = 2, bsBytesRemaining = 9\<rparr>, \<lparr>bsRequestsRemaining = 1, bsBytesRemaining = 9\<rparr>] (- 1)"
  have "sum_list (map (\<lambda>p. length (spTargetIDs p)) ?s) = 3" by (simp add: planSweep_def Let_def)
  moreover have "if length [1, 2, 3 :: uuid] \<le> 3 then set [1, 2, 3] \<subseteq> set (concat (map spTargetIDs ?s))
      else distinct (concat (map spTargetIDs ?s))"
    by (rule sweeps_rotate_fairly [OF _ _ calculation [symmetric]]) simp_all
  ultimately show ?thesis by simp
qed

text \<open>
  Further. Retry delays: for a base within the cap and a cap times factor that int64 can hold, a retry waits
  at most \<open>min(Base * Factor^attempt, Max)\<close>, exactly that without a generator, and never a negative time.
\<close>

theorem retry_delay_bounded:
  assumes "0 < sint (bkBase b)" and "sint (bkBase b) \<le> sint (bkMax b)" and "1 \<le> sint (bkFactor b)"
    and "sint (bkMax b) * sint (bkFactor b) \<le> 9223372036854775806"
    and "\<forall>n. 0 < sint n \<longrightarrow> 0 \<le> sint (rnd n) \<and> sint (rnd n) < sint n"
  shows "sint (delay b attempt None) = min (sint (bkBase b) * sint (bkFactor b) ^ nat attempt) (sint (bkMax b)) \<and>
    0 \<le> sint (delay b attempt (Some rnd)) \<and>
    sint (delay b attempt (Some rnd)) \<le> min (sint (bkBase b) * sint (bkFactor b) ^ nat attempt) (sint (bkMax b))"
proof -
  let ?e = "backoffLoop (bkFactor b) (bkMax b) (bkBase b) (nat attempt)"
  have e: "sint ?e = min (sint (bkBase b) * sint (bkFactor b) ^ nat attempt) (sint (bkMax b))"
    using assms by (intro backoffLoop_min) simp_all
  have "1 \<le> sint (bkFactor b) ^ nat attempt" using assms(3) by (rule one_le_power)
  then have "0 < sint (bkBase b) * sint (bkFactor b) ^ nat attempt"
    using assms(1) by (intro mult_pos_pos) simp_all
  with e assms(1,2) have pos: "0 < sint ?e" by simp
  have "sint (bkMax b) * 1 \<le> sint (bkMax b) * sint (bkFactor b)"
    using assms(1,2,3) by (intro mult_left_mono) simp_all
  with e assms(4) have "sint ?e < 9223372036854775807" by simp
  then have "inInt64 (sint ?e + sint (1 :: int64))" using pos by (simp add: inInt64_def)
  from sint64_add [OF this] have p1: "sint (?e + 1) = sint ?e + 1" by simp
  have d: "delay b attempt r = (case r of None \<Rightarrow> ?e | Some int63n \<Rightarrow> int63n (?e + 1))" for r
    using pos e assms(3)
    by (cases "attempt < 0") (auto simp: delay_def Let_def word_sless_alt word_sle_eq split: option.splits)
  from assms(5) [rule_format, of "?e + 1"] p1 pos d e show ?thesis by simp
qed

theorem retry_delay_bounded_witness:
  "sint (delay \<lparr>bkBase = 2000000000, bkMax = 120000000000, bkFactor = 2\<rparr> 3 (Some (\<lambda>n. n - 1))) \<le> 16000000000"
proof -
  have "\<forall>n :: int64. 0 < sint n \<longrightarrow> 0 \<le> sint (n - 1) \<and> sint (n - 1) < sint n"
  proof (intro allI impI)
    fix n :: int64 assume n: "0 < sint n"
    with sint64_range [of n] have "inInt64 (sint n - sint (1 :: int64))" by (simp add: inInt64_def)
    from sint64_sub [OF this] n show "0 \<le> sint (n - 1) \<and> sint (n - 1) < sint n" by simp
  qed
  from retry_delay_bounded [of "\<lparr>bkBase = 2000000000, bkMax = 120000000000, bkFactor = 2\<rparr>" "\<lambda>n. n - 1" 3, OF _ _ _ _ this]
  show ?thesis by simp
qed

end
