(* ===== verification/RouteCStops.thy ===== *)
theory RouteCStops
  imports Prelude
begin

text \<open>
  Route C's operator stops and concurrency caps: the layered kill switch (routec/killswitch.go, its
  durable table and memstore.go) behind the locale \<open>kill_switch_store\<close>, and the limiter's two
  semaphores (limiter.go) as a step relation over its callers.
\<close>

section \<open>Kill switches\<close>

datatype kill_scope = KillGlobal | KillAccount | KillTarget

record switch =
  swScope :: kill_scope
  swAccount :: uuid
  swTargetID :: uuid
  swReason :: string

record snapshot =
  snGlobal :: bool
  snAccounts :: "uuid set"
  snTargets :: "uuid set"

definition addSwitch :: "snapshot \<Rightarrow> switch \<Rightarrow> snapshot" where
  "addSwitch snap s =
     (case swScope s of
        KillGlobal \<Rightarrow> snap\<lparr>snGlobal := True\<rparr>
      | KillAccount \<Rightarrow> snap\<lparr>snAccounts := insert (swAccount s) (snAccounts snap)\<rparr>
      | KillTarget \<Rightarrow> snap\<lparr>snTargets := insert (swTargetID s) (snTargets snap)\<rparr>)"

definition loadSnapshot :: "switch list \<Rightarrow> snapshot" where
  "loadSnapshot engaged = foldl addSwitch \<lparr>snGlobal = False, snAccounts = {}, snTargets = {}\<rparr> engaged"

definition blocked :: "snapshot \<Rightarrow> uuid \<Rightarrow> uuid \<Rightarrow> bool" where
  "blocked s account target =
     (if snGlobal s then True
      else if account \<in> snAccounts s then True
      else if target \<in> snTargets s then True
      else False)"

datatype switch_call =
  EngageGlobal string | EngageAccount uuid string | EngageTarget uuid uuid string
| DisengageGlobal | DisengageAccount uuid | DisengageTarget uuid

text \<open>
  The durable table: its rows, with NULL for \<open>uuid.Nil\<close>. \<open>engage\<close> inserts unless a row of the
  layer exists; the CHECK refuses an account or target switch without its ids. \<open>known\<close> is the
  foreign keys' answer: the accounts and targets that exist.
\<close>

record kill_row =
  krScope :: kill_scope
  krAccount :: "uuid option"
  krTarget :: "uuid option"
  krReason :: string

definition nullableUUID :: "uuid \<Rightarrow> uuid option" where
  "nullableUUID i = (if i = 0 then None else Some i)"

definition dbEngaged :: "kill_row list \<Rightarrow> switch list" where
  "dbEngaged rows =
     map (\<lambda>r. \<lparr>swScope = krScope r,
               swAccount = (case krAccount r of None \<Rightarrow> 0 | Some a \<Rightarrow> a),
               swTargetID = (case krTarget r of None \<Rightarrow> 0 | Some t \<Rightarrow> t), swReason = krReason r\<rparr>) rows"

definition dbInsertSwitch :: "(uuid \<Rightarrow> bool) \<Rightarrow> kill_row list \<Rightarrow> kill_row \<Rightarrow> kill_row list option" where
  "dbInsertSwitch known rows r =
     (if (krScope r \<noteq> KillGlobal \<and> krAccount r = None) \<or> (krScope r = KillTarget \<and> krTarget r = None)
         \<or> (case krAccount r of None \<Rightarrow> False | Some a \<Rightarrow> \<not> known a)
         \<or> (case krTarget r of None \<Rightarrow> False | Some t \<Rightarrow> \<not> known t)
      then None
      else if (\<exists>x \<in> set rows. krScope x = krScope r \<and>
                (krScope r = KillAccount \<longrightarrow> krAccount x = krAccount r) \<and>
                (krScope r = KillTarget \<longrightarrow> krTarget x = krTarget r))
      then Some rows
      else Some (rows @ [r]))"

text \<open>The calls of the store; None is an error, which leaves the store as it was.\<close>

definition dbSwitch :: "(uuid \<Rightarrow> bool) \<Rightarrow> kill_row list \<Rightarrow> switch_call \<Rightarrow> kill_row list option" where
  "dbSwitch known rows c =
     (case c of
        EngageGlobal reason \<Rightarrow>
          dbInsertSwitch known rows \<lparr>krScope = KillGlobal, krAccount = None, krTarget = None, krReason = reason\<rparr>
      | EngageAccount a reason \<Rightarrow>
          dbInsertSwitch known rows
            \<lparr>krScope = KillAccount, krAccount = nullableUUID a, krTarget = None, krReason = reason\<rparr>
      | EngageTarget a t reason \<Rightarrow>
          dbInsertSwitch known rows
            \<lparr>krScope = KillTarget, krAccount = nullableUUID a, krTarget = nullableUUID t, krReason = reason\<rparr>
      | DisengageGlobal \<Rightarrow> Some (filter (\<lambda>r. krScope r \<noteq> KillGlobal) rows)
      | DisengageAccount a \<Rightarrow>
          Some (filter (\<lambda>r. \<not> (krScope r = KillAccount \<and> nullableUUID a \<noteq> None \<and> krAccount r = nullableUUID a)) rows)
      | DisengageTarget t \<Rightarrow>
          Some (filter (\<lambda>r. \<not> (krScope r = KillTarget \<and> nullableUUID t \<noteq> None \<and> krTarget r = nullableUUID t)) rows))"

text \<open>The in-memory store, with the order \<open>Engaged\<close> ranges over its maps left to association lists.\<close>

record mem_kill =
  mkGlobal :: bool
  mkAccounts :: "(uuid \<times> string) list"
  mkTargets :: "(uuid \<times> string) list"

definition newMemKillSwitchStore :: mem_kill where
  "newMemKillSwitchStore = \<lparr>mkGlobal = False, mkAccounts = [], mkTargets = []\<rparr>"

definition memEngaged :: "mem_kill \<Rightarrow> switch list" where
  "memEngaged m =
     (if mkGlobal m then [\<lparr>swScope = KillGlobal, swAccount = 0, swTargetID = 0, swReason = []\<rparr>] else []) @
     map (\<lambda>(a, r). \<lparr>swScope = KillAccount, swAccount = a, swTargetID = 0, swReason = r\<rparr>) (mkAccounts m) @
     map (\<lambda>(t, r). \<lparr>swScope = KillTarget, swAccount = 0, swTargetID = t, swReason = r\<rparr>) (mkTargets m)"

definition memSwitch :: "mem_kill \<Rightarrow> switch_call \<Rightarrow> mem_kill option" where
  "memSwitch m c =
     Some (case c of
        EngageGlobal _ \<Rightarrow> m\<lparr>mkGlobal := True\<rparr>
      | EngageAccount a r \<Rightarrow> m\<lparr>mkAccounts := (a, r) # filter (\<lambda>x. fst x \<noteq> a) (mkAccounts m)\<rparr>
      | EngageTarget _ t r \<Rightarrow> m\<lparr>mkTargets := (t, r) # filter (\<lambda>x. fst x \<noteq> t) (mkTargets m)\<rparr>
      | DisengageGlobal \<Rightarrow> m\<lparr>mkGlobal := False\<rparr>
      | DisengageAccount a \<Rightarrow> m\<lparr>mkAccounts := filter (\<lambda>x. fst x \<noteq> a) (mkAccounts m)\<rparr>
      | DisengageTarget t \<Rightarrow> m\<lparr>mkTargets := filter (\<lambda>x. fst x \<noteq> t) (mkTargets m)\<rparr>)"

text \<open>A call that fails leaves the store as it was.\<close>

definition switchStep :: "('s \<Rightarrow> switch_call \<Rightarrow> 's option) \<Rightarrow> 's \<Rightarrow> switch_call \<Rightarrow> 's" where
  "switchStep call s c = (case call s c of None \<Rightarrow> s | Some s' \<Rightarrow> s')"

definition covers :: "switch_call \<Rightarrow> uuid \<Rightarrow> uuid \<Rightarrow> bool" where
  "covers c account target \<longleftrightarrow> (case c of EngageGlobal _ \<Rightarrow> True | EngageAccount a _ \<Rightarrow> a = account
     | EngageTarget _ t _ \<Rightarrow> t = target | _ \<Rightarrow> False)"

text \<open>The call that lifts what a call engaged.\<close>

definition lifts :: "switch_call \<Rightarrow> switch_call \<Rightarrow> bool" where
  "lifts d c \<longleftrightarrow> (case (d, c) of (DisengageGlobal, EngageGlobal _) \<Rightarrow> True
     | (DisengageAccount a, EngageAccount b _) \<Rightarrow> a = b
     | (DisengageTarget s, EngageTarget _ t _) \<Rightarrow> s = t | _ \<Rightarrow> False)"

text \<open>
  What the observer relies on: the three layers the store's switches add up to, and how a
  successful call changes them.
\<close>

locale kill_switch_store =
  fixes call :: "'s \<Rightarrow> switch_call \<Rightarrow> 's option"
    and engaged :: "'s \<Rightarrow> switch list"
    and wf :: "'s \<Rightarrow> bool"
  assumes call_wf: "wf s \<Longrightarrow> call s c = Some s' \<Longrightarrow> wf s'"
    and call_global: "wf s \<Longrightarrow> call s c = Some s' \<Longrightarrow>
      snGlobal (loadSnapshot (engaged s')) = (case c of EngageGlobal _ \<Rightarrow> True | DisengageGlobal \<Rightarrow> False
        | _ \<Rightarrow> snGlobal (loadSnapshot (engaged s)))"
    and call_accounts: "wf s \<Longrightarrow> call s c = Some s' \<Longrightarrow>
      snAccounts (loadSnapshot (engaged s')) = (case c of EngageAccount a _ \<Rightarrow> insert a (snAccounts (loadSnapshot (engaged s)))
        | DisengageAccount a \<Rightarrow> snAccounts (loadSnapshot (engaged s)) - {a} | _ \<Rightarrow> snAccounts (loadSnapshot (engaged s)))"
    and call_targets: "wf s \<Longrightarrow> call s c = Some s' \<Longrightarrow>
      snTargets (loadSnapshot (engaged s')) = (case c of EngageTarget _ t _ \<Rightarrow> insert t (snTargets (loadSnapshot (engaged s)))
        | DisengageTarget t \<Rightarrow> snTargets (loadSnapshot (engaged s)) - {t} | _ \<Rightarrow> snTargets (loadSnapshot (engaged s)))"
begin

text \<open>The layer a call engages.\<close>

definition holds :: "switch_call \<Rightarrow> 's \<Rightarrow> bool" where
  "holds c s \<longleftrightarrow> (case c of EngageGlobal _ \<Rightarrow> snGlobal (loadSnapshot (engaged s))
     | EngageAccount a _ \<Rightarrow> a \<in> snAccounts (loadSnapshot (engaged s))
     | EngageTarget _ t _ \<Rightarrow> t \<in> snTargets (loadSnapshot (engaged s)) | _ \<Rightarrow> False)"

lemma step_wf: "wf s \<Longrightarrow> wf (switchStep call s c)"
  by (auto simp: switchStep_def call_wf split: option.splits)

lemma holds_step:
  assumes "wf s" and "holds c s" and "\<not> lifts d c"
  shows "holds c (switchStep call s d)"
proof (cases "call s d")
  case (Some s')
  with assms call_global [OF assms(1) Some] call_accounts [OF assms(1) Some] call_targets [OF assms(1) Some]
  show ?thesis
    by (cases c; cases d) (auto simp: holds_def switchStep_def lifts_def)
qed (use assms in \<open>simp add: switchStep_def\<close>)

lemma holds_run:
  "wf s \<Longrightarrow> holds c s \<Longrightarrow> \<forall>d \<in> set ds. \<not> lifts d c \<Longrightarrow> holds c (foldl (switchStep call) s ds)"
proof (induction ds arbitrary: s)
  case (Cons d ds)
  then show ?case using holds_step [of s c d] step_wf [of s d] by simp
qed simp

lemma holds_blocks: "holds c s \<Longrightarrow> covers c a t \<Longrightarrow> blocked (loadSnapshot (engaged s)) a t"
  by (cases c) (auto simp: holds_def covers_def blocked_def)

text \<open>A stop lasts until the call that lifts it, whatever else is engaged or lifted meanwhile.\<close>

lemma stop_lasts:
  assumes "wf s" and "call s c = Some s'" and "covers c a t" and "\<forall>d \<in> set ds. \<not> lifts d c"
  shows "blocked (loadSnapshot (engaged (foldl (switchStep call) s' ds))) a t"
proof -
  have "holds c s'"
    using assms(3) call_global [OF assms(1,2)] call_accounts [OF assms(1,2)] call_targets [OF assms(1,2)]
    by (cases c) (auto simp: holds_def covers_def)
  with call_wf [OF assms(1,2)] assms(4) have "holds c (foldl (switchStep call) s' ds)" by (intro holds_run)
  then show ?thesis using assms(3) by (rule holds_blocks)
qed

end

section \<open>The two stores\<close>

lemma load_fold:
  "snGlobal (foldl addSwitch sn xs) \<longleftrightarrow> snGlobal sn \<or> (\<exists>s \<in> set xs. swScope s = KillGlobal)"
  "snAccounts (foldl addSwitch sn xs) = snAccounts sn \<union> swAccount ` {s \<in> set xs. swScope s = KillAccount}"
  "snTargets (foldl addSwitch sn xs) = snTargets sn \<union> swTargetID ` {s \<in> set xs. swScope s = KillTarget}"
  by (induction xs arbitrary: sn) (auto simp: addSwitch_def split: kill_scope.splits)

lemma load_layers:
  "snGlobal (loadSnapshot xs) \<longleftrightarrow> (\<exists>s \<in> set xs. swScope s = KillGlobal)"
  "snAccounts (loadSnapshot xs) = swAccount ` {s \<in> set xs. swScope s = KillAccount}"
  "snTargets (loadSnapshot xs) = swTargetID ` {s \<in> set xs. swScope s = KillTarget}"
  by (simp_all add: loadSnapshot_def load_fold)

text \<open>Rows of the durable table have the ids of their scope (the table's CHECK).\<close>

definition wfRows :: "kill_row list \<Rightarrow> bool" where
  "wfRows rows \<longleftrightarrow> (\<forall>r \<in> set rows.
     (krScope r = KillAccount \<longrightarrow> (\<exists>a. a \<noteq> 0 \<and> krAccount r = Some a)) \<and>
     (krScope r = KillTarget \<longrightarrow> (\<exists>t. t \<noteq> 0 \<and> krTarget r = Some t)))"

lemma db_layers:
  assumes "wfRows rows"
  shows "snGlobal (loadSnapshot (dbEngaged rows)) \<longleftrightarrow> (\<exists>r \<in> set rows. krScope r = KillGlobal)"
    "snAccounts (loadSnapshot (dbEngaged rows)) = {a. a \<noteq> 0 \<and> (\<exists>r \<in> set rows. krScope r = KillAccount \<and> krAccount r = Some a)}"
    "snTargets (loadSnapshot (dbEngaged rows)) = {t. t \<noteq> 0 \<and> (\<exists>r \<in> set rows. krScope r = KillTarget \<and> krTarget r = Some t)}"
proof -
  show "snGlobal (loadSnapshot (dbEngaged rows)) \<longleftrightarrow> (\<exists>r \<in> set rows. krScope r = KillGlobal)"
    by (auto simp: load_layers dbEngaged_def)
  show "snAccounts (loadSnapshot (dbEngaged rows)) = {a. a \<noteq> 0 \<and> (\<exists>r \<in> set rows. krScope r = KillAccount \<and> krAccount r = Some a)}"
    using assms unfolding wfRows_def load_layers dbEngaged_def by force
  show "snTargets (loadSnapshot (dbEngaged rows)) = {t. t \<noteq> 0 \<and> (\<exists>r \<in> set rows. krScope r = KillTarget \<and> krTarget r = Some t)}"
    using assms unfolding wfRows_def load_layers dbEngaged_def by force
qed

lemma insert_rows:
  assumes "dbInsertSwitch known rows r = Some rows'" and "wfRows rows"
    and "krScope r = KillAccount \<longrightarrow> krAccount r \<noteq> Some 0"
    and "krScope r = KillTarget \<longrightarrow> krTarget r \<noteq> Some 0"
  shows "wfRows rows' \<and> set rows \<subseteq> set rows' \<and> set rows' \<subseteq> insert r (set rows) \<and>
    (\<exists>x \<in> set rows'. krScope x = krScope r \<and> (krScope r = KillAccount \<longrightarrow> krAccount x = krAccount r) \<and>
       (krScope r = KillTarget \<longrightarrow> krTarget x = krTarget r))"
  using assms by (cases "krScope r") (fastforce simp: dbInsertSwitch_def wfRows_def split: if_splits option.splits)+

lemma insert_ids:
  assumes "dbInsertSwitch known rows r = Some rows'"
  shows "krScope r \<noteq> KillGlobal \<Longrightarrow> krAccount r \<noteq> None" "krScope r = KillTarget \<Longrightarrow> krTarget r \<noteq> None"
  using assms by (auto simp: dbInsertSwitch_def split: if_splits)

abbreviation accountRows :: "kill_row list \<Rightarrow> uuid set" where
  "accountRows rows \<equiv> {a. a \<noteq> 0 \<and> (\<exists>r \<in> set rows. krScope r = KillAccount \<and> krAccount r = Some a)}"

abbreviation targetRows :: "kill_row list \<Rightarrow> uuid set" where
  "targetRows rows \<equiv> {t. t \<noteq> 0 \<and> (\<exists>r \<in> set rows. krScope r = KillTarget \<and> krTarget r = Some t)}"

abbreviation globalRow :: "kill_row list \<Rightarrow> bool" where
  "globalRow rows \<equiv> \<exists>r \<in> set rows. krScope r = KillGlobal"

lemma insert_layers:
  assumes "dbInsertSwitch known rows r = Some rows'" and "wfRows rows"
    and "krScope r = KillAccount \<longrightarrow> krAccount r \<noteq> Some 0"
    and "krScope r = KillTarget \<longrightarrow> krTarget r \<noteq> Some 0"
  shows "wfRows rows'"
    "globalRow rows' \<longleftrightarrow> globalRow rows \<or> krScope r = KillGlobal"
    "accountRows rows' = accountRows rows \<union> {a. krScope r = KillAccount \<and> krAccount r = Some a}"
    "targetRows rows' = targetRows rows \<union> {t. krScope r = KillTarget \<and> krTarget r = Some t}"
proof -
  from insert_rows [OF assms] have sub: "set rows \<subseteq> set rows'" and sup: "set rows' \<subseteq> insert r (set rows)"
    and new: "\<exists>x \<in> set rows'. krScope x = krScope r \<and> (krScope r = KillAccount \<longrightarrow> krAccount x = krAccount r) \<and>
       (krScope r = KillTarget \<longrightarrow> krTarget x = krTarget r)" and "wfRows rows'" by simp_all
  then show "wfRows rows'" by simp
  show "globalRow rows' \<longleftrightarrow> globalRow rows \<or> krScope r = KillGlobal"
  proof
    assume "globalRow rows'"
    then show "globalRow rows \<or> krScope r = KillGlobal" using sup by auto
  next
    assume "globalRow rows \<or> krScope r = KillGlobal"
    then show "globalRow rows'"
    proof
      assume "krScope r = KillGlobal"
      moreover from new obtain x where "x \<in> set rows'" "krScope x = krScope r" by auto
      ultimately show ?thesis by auto
    qed (use sub in auto)
  qed
  show "accountRows rows' = accountRows rows \<union> {a. krScope r = KillAccount \<and> krAccount r = Some a}"
  proof (cases "krScope r = KillAccount")
    case True
    with new obtain x where "x \<in> set rows'" "krScope x = KillAccount" "krAccount x = krAccount r" by auto
    with sub sup assms(3) True show ?thesis by fastforce
  qed (use sub sup in blast)
  show "targetRows rows' = targetRows rows \<union> {t. krScope r = KillTarget \<and> krTarget r = Some t}"
  proof (cases "krScope r = KillTarget")
    case True
    with new obtain x where "x \<in> set rows'" "krScope x = KillTarget" "krTarget x = krTarget r" by auto
    with sub sup assms(4) True show ?thesis by fastforce
  qed (use sub sup in blast)
qed

lemma nullableUUID_Some [simp]:
  "nullableUUID i = Some j \<longleftrightarrow> i = j \<and> i \<noteq> 0" "Some j = nullableUUID i \<longleftrightarrow> i = j \<and> i \<noteq> 0"
  "nullableUUID i = None \<longleftrightarrow> i = 0"
  by (auto simp: nullableUUID_def)

lemma db_call_layers:
  assumes wf: "wfRows rows" and c: "dbSwitch known rows c = Some rows'"
  shows "wfRows rows' \<and>
    (globalRow rows' \<longleftrightarrow> (case c of EngageGlobal _ \<Rightarrow> True | DisengageGlobal \<Rightarrow> False | _ \<Rightarrow> globalRow rows)) \<and>
    accountRows rows' = (case c of EngageAccount a _ \<Rightarrow> insert a (accountRows rows)
      | DisengageAccount a \<Rightarrow> accountRows rows - {a} | _ \<Rightarrow> accountRows rows) \<and>
    targetRows rows' = (case c of EngageTarget _ t _ \<Rightarrow> insert t (targetRows rows)
      | DisengageTarget t \<Rightarrow> targetRows rows - {t} | _ \<Rightarrow> targetRows rows)"
proof (cases c)
  case (EngageGlobal r)
  with c have "dbInsertSwitch known rows \<lparr>krScope = KillGlobal, krAccount = None, krTarget = None, krReason = r\<rparr> = Some rows'"
    by (simp add: dbSwitch_def)
  from insert_layers [OF this wf] EngageGlobal show ?thesis by simp
next
  case (EngageAccount a r)
  with c have i: "dbInsertSwitch known rows
      \<lparr>krScope = KillAccount, krAccount = nullableUUID a, krTarget = None, krReason = r\<rparr> = Some rows'"
    by (simp add: dbSwitch_def)
  from insert_ids(1) [OF i] have "a \<noteq> 0" by simp
  with insert_layers [OF i wf] EngageAccount show ?thesis by simp
next
  case (EngageTarget a t r)
  with c have i: "dbInsertSwitch known rows
      \<lparr>krScope = KillTarget, krAccount = nullableUUID a, krTarget = nullableUUID t, krReason = r\<rparr> = Some rows'"
    by (simp add: dbSwitch_def)
  from insert_ids(2) [OF i] have "t \<noteq> 0" by simp
  with insert_layers [OF i wf] EngageTarget show ?thesis by simp
qed (use wf c in \<open>auto simp: dbSwitch_def wfRows_def\<close>)

interpretation dbk: kill_switch_store "dbSwitch known" dbEngaged wfRows
proof
  fix s c s'
  assume w: "wfRows s" and c: "dbSwitch known s c = Some s'"
  note l = db_call_layers [OF w c]
  show w': "wfRows s'" using l by simp
  show "snGlobal (loadSnapshot (dbEngaged s')) = (case c of EngageGlobal _ \<Rightarrow> True | DisengageGlobal \<Rightarrow> False
        | _ \<Rightarrow> snGlobal (loadSnapshot (dbEngaged s)))"
    using l unfolding db_layers [OF w] db_layers [OF w'] by simp
  show "snAccounts (loadSnapshot (dbEngaged s')) = (case c of EngageAccount a _ \<Rightarrow> insert a (snAccounts (loadSnapshot (dbEngaged s)))
        | DisengageAccount a \<Rightarrow> snAccounts (loadSnapshot (dbEngaged s)) - {a} | _ \<Rightarrow> snAccounts (loadSnapshot (dbEngaged s)))"
    using l unfolding db_layers [OF w] db_layers [OF w'] by simp
  show "snTargets (loadSnapshot (dbEngaged s')) = (case c of EngageTarget _ t _ \<Rightarrow> insert t (snTargets (loadSnapshot (dbEngaged s)))
        | DisengageTarget t \<Rightarrow> snTargets (loadSnapshot (dbEngaged s)) - {t} | _ \<Rightarrow> snTargets (loadSnapshot (dbEngaged s)))"
    using l unfolding db_layers [OF w] db_layers [OF w'] by simp
qed

lemma mem_layers:
  "snGlobal (loadSnapshot (memEngaged m)) = mkGlobal m"
  "snAccounts (loadSnapshot (memEngaged m)) = fst ` set (mkAccounts m)"
  "snTargets (loadSnapshot (memEngaged m)) = fst ` set (mkTargets m)"
proof -
  let ?A = "map (\<lambda>(a, r). \<lparr>swScope = KillAccount, swAccount = a, swTargetID = 0, swReason = r\<rparr>) (mkAccounts m)"
  let ?T = "map (\<lambda>(t, r). \<lparr>swScope = KillTarget, swAccount = 0, swTargetID = t, swReason = r\<rparr>) (mkTargets m)"
  show "snGlobal (loadSnapshot (memEngaged m)) = mkGlobal m"
    by (auto simp: load_layers memEngaged_def)
  have "swAccount ` {s \<in> set (memEngaged m). swScope s = KillAccount} = swAccount ` set ?A"
    by (rule arg_cong [where f = "image swAccount"]) (auto simp: memEngaged_def)
  then show "snAccounts (loadSnapshot (memEngaged m)) = fst ` set (mkAccounts m)"
    by (simp add: load_layers image_image case_prod_unfold)
  have "swTargetID ` {s \<in> set (memEngaged m). swScope s = KillTarget} = swTargetID ` set ?T"
    by (rule arg_cong [where f = "image swTargetID"]) (auto simp: memEngaged_def)
  then show "snTargets (loadSnapshot (memEngaged m)) = fst ` set (mkTargets m)"
    by (simp add: load_layers image_image case_prod_unfold)
qed

interpretation memk: kill_switch_store memSwitch memEngaged "\<lambda>_. True"
  by unfold_locales (auto simp: memSwitch_def mem_layers split: switch_call.splits)

section \<open>The limiter (limiter.go)\<close>

datatype caller = Idle | WaitAccount uuid | WaitHost uuid | Holding uuid

text \<open>
  The channels' fill levels and the callers of \<open>Acquire\<close>. A caller takes an account slot, then the
  host slot; \<open>ctx.Done\<close> while waiting gives back what it holds; \<open>release\<close> frees both, once.
\<close>

record limiter =
  lmPerAccount :: nat
  lmPerHost :: nat
  lmHost :: nat
  lmAccounts :: "uuid \<Rightarrow> nat"
  lmCallers :: "caller list"

definition newLimiter :: "int \<Rightarrow> int \<Rightarrow> nat \<Rightarrow> limiter" where
  "newLimiter perAccount perHost callers =
     \<lparr>lmPerAccount = nat (if perAccount < 1 then 1 else perAccount),
      lmPerHost = nat (if perHost < 1 then 1 else perHost), lmHost = 0, lmAccounts = (\<lambda>_. 0),
      lmCallers = replicate callers Idle\<rparr>"

inductive limiterStep :: "limiter \<Rightarrow> limiter \<Rightarrow> bool" where
  acquire_start: "i < length (lmCallers l) \<Longrightarrow> lmCallers l ! i = Idle \<Longrightarrow>
    limiterStep l (l\<lparr>lmCallers := (lmCallers l)[i := WaitAccount a]\<rparr>)"
| account_slot: "i < length (lmCallers l) \<Longrightarrow> lmCallers l ! i = WaitAccount a \<Longrightarrow>
    lmAccounts l a < lmPerAccount l \<Longrightarrow>
    limiterStep l (l\<lparr>lmAccounts := (lmAccounts l)(a := lmAccounts l a + 1),
                     lmCallers := (lmCallers l)[i := WaitHost a]\<rparr>)"
| host_slot: "i < length (lmCallers l) \<Longrightarrow> lmCallers l ! i = WaitHost a \<Longrightarrow> lmHost l < lmPerHost l \<Longrightarrow>
    limiterStep l (l\<lparr>lmHost := lmHost l + 1, lmCallers := (lmCallers l)[i := Holding a]\<rparr>)"
| cancel_account: "i < length (lmCallers l) \<Longrightarrow> lmCallers l ! i = WaitAccount a \<Longrightarrow>
    limiterStep l (l\<lparr>lmCallers := (lmCallers l)[i := Idle]\<rparr>)"
| cancel_host: "i < length (lmCallers l) \<Longrightarrow> lmCallers l ! i = WaitHost a \<Longrightarrow>
    limiterStep l (l\<lparr>lmAccounts := (lmAccounts l)(a := lmAccounts l a - 1),
                     lmCallers := (lmCallers l)[i := Idle]\<rparr>)"
| release: "i < length (lmCallers l) \<Longrightarrow> lmCallers l ! i = Holding a \<Longrightarrow>
    limiterStep l (l\<lparr>lmHost := lmHost l - 1, lmAccounts := (lmAccounts l)(a := lmAccounts l a - 1),
                     lmCallers := (lmCallers l)[i := Idle]\<rparr>)"

definition isHolding :: "caller \<Rightarrow> bool" where
  "isHolding c \<longleftrightarrow> (case c of Holding _ \<Rightarrow> True | _ \<Rightarrow> False)"

definition hasAccountSlot :: "uuid \<Rightarrow> caller \<Rightarrow> bool" where
  "hasAccountSlot a c \<longleftrightarrow> c = WaitHost a \<or> c = Holding a"

definition limiterInv :: "limiter \<Rightarrow> bool" where
  "limiterInv l \<longleftrightarrow>
     0 < lmPerAccount l \<and> 0 < lmPerHost l \<and>
     lmHost l = length (filter isHolding (lmCallers l)) \<and> lmHost l \<le> lmPerHost l \<and>
     (\<forall>a. lmAccounts l a = length (filter (hasAccountSlot a) (lmCallers l))) \<and>
     (\<forall>a. length (filter (hasAccountSlot a) (lmCallers l)) \<le> lmPerAccount l)"

lemma length_filter_update:
  "i < length xs \<Longrightarrow>
     length (filter P (xs[i := v])) = length (filter P xs) + of_bool (P v) - of_bool (P (xs ! i))"
proof (induction xs arbitrary: i)
  case (Cons x xs)
  show ?case
  proof (cases i)
    case (Suc j)
    have "of_bool (P (xs ! j)) \<le> length (filter P xs)"
      using Cons.prems Suc by (cases "P (xs ! j)") (auto simp: Suc_le_eq filter_empty_conv)
    with Cons Suc show ?thesis by auto
  qed simp
qed simp

lemma limiterStep_inv:
  assumes "limiterStep l l'" and "limiterInv l"
  shows "limiterInv l'"
  using assms
  by (cases rule: limiterStep.cases)
    (simp_all add: limiterInv_def length_filter_update isHolding_def hasAccountSlot_def le_diff_conv trans_le_add1)

inductive limiterReachable :: "limiter \<Rightarrow> limiter \<Rightarrow> bool" for l0 where
  limiter_start: "limiterReachable l0 l0"
| limiter_step: "limiterReachable l0 l \<Longrightarrow> limiterStep l l' \<Longrightarrow> limiterReachable l0 l'"

lemma limiterStep_config:
  "limiterStep l l' \<Longrightarrow> lmPerAccount l' = lmPerAccount l \<and> lmPerHost l' = lmPerHost l"
  by (cases rule: limiterStep.cases) auto

lemma limiterReachable_inv:
  "limiterReachable (newLimiter pa ph n) l \<Longrightarrow>
     limiterInv l \<and> lmPerAccount l = nat (max 1 pa) \<and> lmPerHost l = nat (max 1 ph)"
proof (induction rule: limiterReachable.induct)
  case limiter_start
  show ?case
    by (auto simp: limiterInv_def newLimiter_def isHolding_def hasAccountSlot_def max_def)
next
  case (limiter_step l l')
  then show ?case using limiterStep_inv limiterStep_config by fastforce
qed

text \<open>Caller \<open>i\<close> gets a slot it waits for, or holds its slots and can release them.\<close>

definition canMove :: "limiter \<Rightarrow> nat \<Rightarrow> bool" where
  "canMove l i \<longleftrightarrow> i < length (lmCallers l) \<and>
     (case lmCallers l ! i of Idle \<Rightarrow> False | WaitAccount a \<Rightarrow> lmAccounts l a < lmPerAccount l
      | WaitHost _ \<Rightarrow> lmHost l < lmPerHost l | Holding _ \<Rightarrow> True)"

lemma filter_pos: "0 < length (filter P xs) \<Longrightarrow> \<exists>i < length xs. P (xs ! i)"
  by (metis filter_False in_set_conv_nth length_0_conv less_numeral_extra(3))

lemma limiter_progress:
  assumes inv: "limiterInv l" and i: "i < length (lmCallers l)" "lmCallers l ! i \<noteq> Idle"
  shows "\<exists>j. canMove l j"
proof (cases "\<exists>j < length (lmCallers l). isHolding (lmCallers l ! j)")
  case True
  then obtain j where "j < length (lmCallers l)" "isHolding (lmCallers l ! j)" by blast
  then show ?thesis by (auto simp: canMove_def isHolding_def split: caller.splits intro!: exI [of _ j])
next
  case False
  then have "lmHost l = 0" using inv filter_pos [of isHolding "lmCallers l"] by (auto simp: limiterInv_def)
  then have host: "lmHost l < lmPerHost l" using inv by (simp add: limiterInv_def)
  show ?thesis
  proof (cases "lmCallers l ! i")
    case (WaitAccount a)
    show ?thesis
    proof (cases "lmAccounts l a < lmPerAccount l")
      case True
      with i WaitAccount show ?thesis by (auto simp: canMove_def intro!: exI [of _ i])
    next
      case full: False
      then have "0 < length (filter (hasAccountSlot a) (lmCallers l))" using inv by (auto simp: limiterInv_def)
      from filter_pos [OF this] obtain j where j: "j < length (lmCallers l)" "hasAccountSlot a (lmCallers l ! j)" by blast
      with False have "lmCallers l ! j = WaitHost a" by (auto simp: hasAccountSlot_def isHolding_def)
      with j host show ?thesis by (auto simp: canMove_def intro!: exI [of _ j])
    qed
  qed (use i host False in \<open>auto simp: canMove_def isHolding_def intro!: exI [of _ i]\<close>)
qed

section \<open>Properties\<close>

text \<open>
  Further. An operator stop lasts: once the durable store accepted a switch, every account and target it
  covers is blocked in each later snapshot until the matching disengage, whatever other switches are
  engaged or lifted in between, failed calls included.
\<close>

theorem durable_stop_lasts:
  assumes "wfRows rows" and "dbSwitch known rows c = Some rows'" and "covers c account target"
    and "\<forall>d \<in> set ds. \<not> lifts d c"
  shows "blocked (loadSnapshot (dbEngaged (foldl (switchStep (dbSwitch known)) rows' ds))) account target"
  using assms by (rule dbk.stop_lasts)

theorem durable_stop_lasts_witness:
  "\<exists>rows'. dbSwitch (\<lambda>_. True) [] (EngageAccount 3 ''x'') = Some rows' \<and>
     blocked (loadSnapshot (dbEngaged (foldl (switchStep (dbSwitch (\<lambda>_. True))) rows'
       [EngageGlobal [], DisengageGlobal, DisengageAccount 4]))) 3 7"
proof -
  have c: "dbSwitch (\<lambda>_. True) [] (EngageAccount 3 ''x'')
      = Some [\<lparr>krScope = KillAccount, krAccount = Some 3, krTarget = None, krReason = ''x''\<rparr>]"
    by (simp add: dbSwitch_def dbInsertSwitch_def nullableUUID_def)
  have "wfRows []" by (simp add: wfRows_def)
  from durable_stop_lasts [OF this c, of 3 7 "[EngageGlobal [], DisengageGlobal, DisengageAccount 4]"] c
  show ?thesis by (simp add: covers_def lifts_def)
qed

text \<open>
  Further. The limiter keeps both caps and never gets stuck: in every reachable state at most the
  per-account number of callers of an account and at most the per-host number of callers fetch at
  once, and whenever a caller is not idle some caller can get the slot it waits for or release its own.
\<close>

theorem limiter_caps_and_progress:
  assumes "limiterReachable (newLimiter perAccount perHost n) l"
  shows "int (length (filter (\<lambda>c. c = Holding a) (lmCallers l))) \<le> max 1 perAccount \<and>
    int (length (filter isHolding (lmCallers l))) \<le> max 1 perHost \<and>
    \<not> ((\<exists>c \<in> set (lmCallers l). c \<noteq> Idle) \<and> (\<nexists>j. canMove l j))"
proof -
  from limiterReachable_inv [OF assms] have inv: "limiterInv l"
    and cap: "lmPerAccount l = nat (max 1 perAccount)" "lmPerHost l = nat (max 1 perHost)" by simp_all
  have "filter (\<lambda>c. c = Holding a) (lmCallers l) = filter (\<lambda>c. c = Holding a) (filter (hasAccountSlot a) (lmCallers l))"
    by (auto simp: hasAccountSlot_def intro: filter_cong)
  then have "length (filter (\<lambda>c. c = Holding a) (lmCallers l)) \<le> length (filter (hasAccountSlot a) (lmCallers l))"
    by (metis length_filter_le)
  also have "\<dots> \<le> lmPerAccount l" using inv by (simp add: limiterInv_def)
  finally have "int (length (filter (\<lambda>c. c = Holding a) (lmCallers l))) \<le> max 1 perAccount" using cap by simp
  moreover have "int (length (filter isHolding (lmCallers l))) \<le> max 1 perHost"
  proof -
    have "length (filter isHolding (lmCallers l)) \<le> nat (max 1 perHost)"
      using inv cap by (simp add: limiterInv_def)
    then show ?thesis by linarith
  qed
  moreover have "\<exists>j. canMove l j" if "\<exists>c \<in> set (lmCallers l). c \<noteq> Idle"
    using that limiter_progress [OF inv] by (auto simp: in_set_conv_nth)
  ultimately show ?thesis by blast
qed

theorem limiter_caps_and_progress_witness:
  "let l = newLimiter 0 4 2\<lparr>lmCallers := [WaitAccount 3, Idle]\<rparr> in \<exists>j. canMove l j"
proof -
  have "limiterReachable (newLimiter 0 4 2) (newLimiter 0 4 2\<lparr>lmCallers := (lmCallers (newLimiter 0 4 2))[0 := WaitAccount 3]\<rparr>)"
    by (rule limiter_step [OF limiter_start acquire_start]) (simp_all add: newLimiter_def)
  then have "limiterReachable (newLimiter 0 4 2) (newLimiter 0 4 2\<lparr>lmCallers := [WaitAccount 3, Idle]\<rparr>)"
    by (simp add: newLimiter_def numeral_2_eq_2)
  from limiter_caps_and_progress [OF this] show ?thesis by auto
qed

end
