(* ===== verification/RouteCBreaker.thy ===== *)
theory RouteCBreaker
  imports Prelude
begin

text \<open>
  Route C's per-account circuit breaker (routec/breaker.go): faults counted per signal in a rolling
  window, open, half-open with one probe, closed. Each operation takes the instant its clock reads.
\<close>

section \<open>Signals (fetcher.go)\<close>

datatype signal =
  SignalOK | Signal403 | Signal429 | SignalChallenge | SignalLatency | SignalDrift | SignalTransport

definition signalString :: "signal \<Rightarrow> string" where
  "signalString s = (case s of SignalOK \<Rightarrow> ''ok'' | Signal403 \<Rightarrow> ''403'' | Signal429 \<Rightarrow> ''429''
     | SignalChallenge \<Rightarrow> ''challenge'' | SignalLatency \<Rightarrow> ''latency'' | SignalDrift \<Rightarrow> ''drift''
     | SignalTransport \<Rightarrow> ''transport'')"

section \<open>The breaker\<close>

datatype breaker_state = BreakerClosed | BreakerOpen | BreakerHalfOpen

definition breakerStateString :: "breaker_state \<Rightarrow> string" where
  "breakerStateString s = (case s of BreakerClosed \<Rightarrow> ''closed'' | BreakerOpen \<Rightarrow> ''open''
     | BreakerHalfOpen \<Rightarrow> ''half_open'')"

text \<open>\<open>bcThresholds = None\<close> is the nil map.\<close>

record breaker_config =
  bcWindow :: duration
  bcCooldown :: duration
  bcThresholds :: "(signal \<rightharpoonup> int) option"

definition defaultThresholds :: "signal \<rightharpoonup> int" where
  "defaultThresholds =
     [Signal403 \<mapsto> 3, Signal429 \<mapsto> 2, SignalChallenge \<mapsto> 1, SignalLatency \<mapsto> 5, SignalDrift \<mapsto> 1]"

definition defaultBreakerConfig :: breaker_config where
  "defaultBreakerConfig =
     \<lparr>bcWindow = 5 * minute, bcCooldown = minute, bcThresholds = Some defaultThresholds\<rparr>"

record breaker =
  brWindow :: duration
  brCooldown :: duration
  brThresholds :: "signal \<rightharpoonup> int"
  brState :: breaker_state
  brOpenedAt :: instant
  brTripSig :: signal
  brEvents :: "signal \<Rightarrow> instant list"

definition newBreaker :: "breaker_config \<Rightarrow> breaker" where
  "newBreaker cfg =
     \<lparr>brWindow = (if bcWindow cfg \<le> 0 then bcWindow defaultBreakerConfig else bcWindow cfg),
      brCooldown = (if bcCooldown cfg \<le> 0 then bcCooldown defaultBreakerConfig else bcCooldown cfg),
      brThresholds = (case bcThresholds cfg of None \<Rightarrow> defaultThresholds | Some t \<Rightarrow> t),
      brState = BreakerClosed, brOpenedAt = 0, brTripSig = SignalOK, brEvents = (\<lambda>_. [])\<rparr>"

definition allow :: "breaker \<Rightarrow> instant \<Rightarrow> bool \<times> breaker" where
  "allow b now =
     (case brState b of
        BreakerClosed \<Rightarrow> (True, b)
      | BreakerOpen \<Rightarrow>
          if brCooldown b \<le> now - brOpenedAt b then (True, b\<lparr>brState := BreakerHalfOpen\<rparr>)
          else (False, b)
      | BreakerHalfOpen \<Rightarrow> (False, b))"

definition openBreaker :: "breaker \<Rightarrow> signal \<Rightarrow> instant \<Rightarrow> breaker" where
  "openBreaker b sig now = b\<lparr>brState := BreakerOpen, brOpenedAt := now, brTripSig := sig\<rparr>"

definition resetBreaker :: "breaker \<Rightarrow> breaker" where
  "resetBreaker b = b\<lparr>brState := BreakerClosed, brTripSig := SignalOK, brEvents := (\<lambda>_. [])\<rparr>"

definition pruneBreaker :: "breaker \<Rightarrow> instant \<Rightarrow> breaker" where
  "pruneBreaker b now =
     (let cutoff = now + (- brWindow b)
      in b\<lparr>brEvents := (\<lambda>sig. filter (\<lambda>t. cutoff < t) (brEvents b sig))\<rparr>)"

definition observe :: "breaker \<Rightarrow> signal \<Rightarrow> instant \<Rightarrow> breaker" where
  "observe b sig now =
     (if brState b = BreakerHalfOpen
      then (if sig = SignalOK then resetBreaker b else openBreaker b sig now)
      else if sig = SignalOK then pruneBreaker b now
      else
        (case brThresholds b sig of
           None \<Rightarrow> b
         | Some threshold \<Rightarrow>
             if threshold \<le> 0 then b
             else
               (let b1 = pruneBreaker (b\<lparr>brEvents := (brEvents b)(sig := brEvents b sig @ [now])\<rparr>) now
                in if threshold \<le> int (length (brEvents b1 sig)) then openBreaker b1 sig now else b1)))"

definition breakerState :: "breaker \<Rightarrow> instant \<Rightarrow> (breaker_state \<times> signal) \<times> breaker" where
  "breakerState b now =
     (let b1 = (if brState b = BreakerOpen \<and> brCooldown b \<le> now - brOpenedAt b
                then b\<lparr>brState := BreakerHalfOpen\<rparr> else b)
      in if brState b1 = BreakerClosed then ((brState b1, SignalOK), b1)
         else ((brState b1, brTripSig b1), b1))"

section \<open>Use of the breaker\<close>

text \<open>What callers do with it, with the instants of their calls.\<close>

datatype breaker_call = CallAllow instant | CallObserve signal instant | CallState instant

definition breakerCall :: "breaker \<Rightarrow> breaker_call \<Rightarrow> bool \<times> breaker" where
  "breakerCall b c = (case c of CallAllow t \<Rightarrow> allow b t | CallObserve s t \<Rightarrow> (False, observe b s t)
     | CallState t \<Rightarrow> (False, snd (breakerState b t)))"

fun breakerRun :: "breaker \<Rightarrow> breaker_call list \<Rightarrow> bool list \<times> breaker" where
  "breakerRun b [] = ([], b)"
| "breakerRun b (c # cs) =
     (case breakerCall b c of (r, b') \<Rightarrow> (case breakerRun b' cs of (rs, b'') \<Rightarrow> (r # rs, b'')))"

section \<open>Lemmas\<close>

named_theorems breaker_simps

lemmas [breaker_simps] = allow_def openBreaker_def resetBreaker_def pruneBreaker_def Let_def

lemma observe_config [simp]:
  "brWindow (observe b s t) = brWindow b" "brCooldown (observe b s t) = brCooldown b"
  "brThresholds (observe b s t) = brThresholds b"
  by (auto simp: observe_def breaker_simps split: option.splits)

lemma allow_config [simp]:
  "brWindow (snd (allow b t)) = brWindow b" "brCooldown (snd (allow b t)) = brCooldown b"
  "brThresholds (snd (allow b t)) = brThresholds b" "brEvents (snd (allow b t)) = brEvents b"
  by (auto simp: allow_def split: breaker_state.splits)

text \<open>A closed breaker holds fewer faults of each configured signal than its threshold.\<close>

definition breakerInv :: "breaker \<Rightarrow> bool" where
  "breakerInv b \<longleftrightarrow> brState b = BreakerClosed \<longrightarrow>
     (\<forall>s th. brThresholds b s = Some th \<and> 0 < th \<longrightarrow> int (length (brEvents b s)) < th)"

lemma newBreaker_inv: "breakerInv (newBreaker cfg)"
  by (simp add: breakerInv_def newBreaker_def)

lemma length_filter_less: "int (length xs) < th \<Longrightarrow> int (length (filter P xs)) < th"
  using length_filter_le [of P xs] by linarith

lemma observe_inv: "breakerInv b \<Longrightarrow> breakerInv (observe b s t)"
  by (auto simp: breakerInv_def observe_def breaker_simps intro: length_filter_less
      split: option.splits if_splits)

lemma allow_inv: "breakerInv b \<Longrightarrow> breakerInv (snd (allow b t))"
  by (auto simp: breakerInv_def allow_def split: breaker_state.splits if_splits)

lemma state_inv: "breakerInv b \<Longrightarrow> breakerInv (snd (breakerState b t))"
  by (auto simp: breakerInv_def breakerState_def Let_def split: if_splits)

lemma call_inv: "breakerInv b \<Longrightarrow> breakerInv (snd (breakerCall b c))"
  by (cases c) (simp_all add: breakerCall_def observe_inv allow_inv state_inv)

text \<open>Faults of one signal within the window accumulate until the threshold.\<close>

lemma observe_fault:
  assumes "brState b = BreakerClosed" and "brThresholds b s = Some th" and "0 < th" and "s \<noteq> SignalOK"
    and "\<forall>x \<in> set (brEvents b s). t - brWindow b < x" and "0 < brWindow b"
  shows "brEvents (observe b s t) s = brEvents b s @ [t]"
    and "brState (observe b s t)
           = (if th \<le> int (length (brEvents b s)) + 1 then BreakerOpen else BreakerClosed)"
    and "th \<le> int (length (brEvents b s)) + 1 \<Longrightarrow>
           brTripSig (observe b s t) = s \<and> brOpenedAt (observe b s t) = t"
proof -
  have f: "filter (\<lambda>x. t + - brWindow b < x) (brEvents b s @ [t]) = brEvents b s @ [t]"
    using assms(5,6) by (intro filter_True) auto
  show "brEvents (observe b s t) s = brEvents b s @ [t]"
    "brState (observe b s t) = (if th \<le> int (length (brEvents b s)) + 1 then BreakerOpen else BreakerClosed)"
    "th \<le> int (length (brEvents b s)) + 1 \<Longrightarrow>
       brTripSig (observe b s t) = s \<and> brOpenedAt (observe b s t) = t"
    using assms f by (simp_all add: observe_def breaker_simps)
qed

lemma faults_accumulate:
  assumes "brState b = BreakerClosed" and "brThresholds b s = Some th" and "s \<noteq> SignalOK" and "0 < brWindow b"
    and "\<forall>x \<in> set (brEvents b s) \<union> set ts. \<forall>y \<in> set ts. y - brWindow b < x"
    and "int (length (brEvents b s) + length ts) \<le> th" and "int (length (brEvents b s)) < th"
  shows "let b' = foldl (\<lambda>b t. observe b s t) b ts in
    brState b' = (if int (length (brEvents b s) + length ts) = th then BreakerOpen else BreakerClosed) \<and>
    (int (length (brEvents b s) + length ts) = th \<longrightarrow> brTripSig b' = s \<and> brOpenedAt b' = last ts)"
  using assms
proof (induction ts arbitrary: b)
  case Nil
  then show ?case by simp
next
  case (Cons t ts)
  have o: "brEvents (observe b s t) s = brEvents b s @ [t]"
    "brState (observe b s t) = (if th \<le> int (length (brEvents b s)) + 1 then BreakerOpen else BreakerClosed)"
    "th \<le> int (length (brEvents b s)) + 1 \<Longrightarrow> brTripSig (observe b s t) = s \<and> brOpenedAt (observe b s t) = t"
    by (rule observe_fault [of b s th t]; use Cons.prems in simp)+
  show ?case
  proof (cases ts)
    case Nil
    with o Cons.prems show ?thesis by auto
  next
    case (Cons u us)
    with Cons.prems o have c: "brState (observe b s t) = BreakerClosed" by auto
    have "let b' = foldl (\<lambda>b t. observe b s t) (observe b s t) ts in
      brState b' = (if int (length (brEvents (observe b s t) s) + length ts) = th then BreakerOpen else BreakerClosed) \<and>
      (int (length (brEvents (observe b s t) s) + length ts) = th \<longrightarrow> brTripSig b' = s \<and> brOpenedAt b' = last ts)"
      using Cons.prems c o(1) Cons by (intro Cons.IH) auto
    with o(1) Cons show ?thesis by simp
  qed
qed

definition isObserve :: "breaker_call \<Rightarrow> bool" where
  "isObserve c \<longleftrightarrow> (case c of CallObserve _ _ \<Rightarrow> True | _ \<Rightarrow> False)"

lemma half_open_call:
  assumes "brState b = BreakerHalfOpen" and "\<not> isObserve c"
  shows "breakerCall b c = (False, b)"
  using assms by (cases c) (simp_all add: breakerCall_def allow_def breakerState_def isObserve_def)

lemma half_open_run:
  "brState b = BreakerHalfOpen \<Longrightarrow> \<forall>c \<in> set cs. \<not> isObserve c \<Longrightarrow>
     breakerRun b cs = (replicate (length cs) False, b)"
  by (induction cs) (simp_all add: half_open_call)

lemma open_call:
  assumes "brState b = BreakerOpen" and "\<not> isObserve c" and "breakerCall b c = (r, b')"
  shows "(\<not> r \<and> b' = b) \<or> (brState b' = BreakerHalfOpen \<and> brCooldown b' = brCooldown b)"
  using assms
  by (cases c) (auto simp: breakerCall_def allow_def breakerState_def isObserve_def split: if_splits)

definition refusedBefore :: "breaker \<Rightarrow> breaker_call \<Rightarrow> bool" where
  "refusedBefore b c \<longleftrightarrow> (case c of CallAllow t \<Rightarrow> t - brOpenedAt b < brCooldown b | _ \<Rightarrow> True)"

lemma open_run:
  assumes "brState b = BreakerOpen" and "\<forall>c \<in> set cs. \<not> isObserve c"
  shows "length (filter id (fst (breakerRun b cs))) \<le> 1 \<and>
    ((\<forall>c \<in> set cs. refusedBefore b c) \<longrightarrow> True \<notin> set (fst (breakerRun b cs)))"
  using assms
proof (induction cs)
  case (Cons c cs)
  obtain r b' where c: "breakerCall b c = (r, b')" by (rule prod.exhaust)
  from Cons.prems have n: "\<not> isObserve c" by simp
  have ref: "refusedBefore b c \<Longrightarrow> \<not> r"
    using c Cons.prems(1) n
    by (cases c) (auto simp: breakerCall_def allow_def refusedBefore_def isObserve_def)
  from open_call [OF Cons.prems(1) n c] show ?case
  proof
    assume "\<not> r \<and> b' = b"
    with c Cons show ?thesis by (auto split: prod.splits)
  next
    assume h: "brState b' = BreakerHalfOpen \<and> brCooldown b' = brCooldown b"
    then have "breakerRun b' cs = (replicate (length cs) False, b')"
      using Cons.prems by (intro half_open_run) auto
    with c ref show ?thesis by auto
  qed
qed simp

text \<open>One guarded request of a caller that reports the outcome of every request it was admitted for.\<close>

definition breakerRound :: "breaker \<Rightarrow> instant \<times> signal \<times> instant \<Rightarrow> breaker" where
  "breakerRound b r =
     (case r of (t, s, u) \<Rightarrow> (case allow b t of (ok, b') \<Rightarrow> if ok then observe b' s u else b'))"

lemma round_not_half_open: "brState b \<noteq> BreakerHalfOpen \<Longrightarrow> brState (breakerRound b r) \<noteq> BreakerHalfOpen"
  by (auto simp: breakerRound_def allow_def observe_def breaker_simps
      split: prod.splits breaker_state.splits if_splits option.splits)

lemma rounds_not_half_open:
  "brState b \<noteq> BreakerHalfOpen \<Longrightarrow> brState (foldl breakerRound b rs) \<noteq> BreakerHalfOpen"
  by (induction rs arbitrary: b) (simp_all add: round_not_half_open)

section \<open>Properties\<close>

text \<open>
  Further. Every configured signal opens the breaker on its own, and at its threshold exactly: from a closed
  breaker without faults of that signal, any run of them inside one window leaves the breaker closed
  while there are fewer than the threshold, and open, tripped by that signal, when it is reached.
\<close>

theorem breaker_trips_at_threshold:
  assumes "brState b = BreakerClosed" and "brEvents b s = []" and "brThresholds b s = Some th" and "0 < th"
    and "s \<noteq> SignalOK" and "0 < brWindow b" and "\<forall>x \<in> set ts. \<forall>y \<in> set ts. y - brWindow b < x"
    and "int (length ts) \<le> th"
  shows "let b' = foldl (\<lambda>b t. observe b s t) b ts in
    if int (length ts) = th
    then brState b' = BreakerOpen \<and> brTripSig b' = s \<and> brOpenedAt b' = last ts
    else brState b' = BreakerClosed"
proof -
  have "let b' = foldl (\<lambda>b t. observe b s t) b ts in
    brState b' = (if int (length (brEvents b s) + length ts) = th then BreakerOpen else BreakerClosed) \<and>
    (int (length (brEvents b s) + length ts) = th \<longrightarrow> brTripSig b' = s \<and> brOpenedAt b' = last ts)"
    using assms by (intro faults_accumulate) auto
  with assms(2) show ?thesis by (simp add: Let_def)
qed

theorem breaker_trips_at_threshold_witness:
  "brState (foldl (\<lambda>b t. observe b Signal403 t) (newBreaker defaultBreakerConfig) [10, 20, 30]) = BreakerOpen
   \<and> brState (foldl (\<lambda>b t. observe b Signal403 t) (newBreaker defaultBreakerConfig) [10, 20]) = BreakerClosed"
  using breaker_trips_at_threshold [of "newBreaker defaultBreakerConfig" Signal403 3 "[10, 20, 30]"]
    breaker_trips_at_threshold [of "newBreaker defaultBreakerConfig" Signal403 3 "[10, 20]"]
  by (simp add: newBreaker_def defaultBreakerConfig_def defaultThresholds_def Let_def)

text \<open>
  Further. An open breaker admits at most one request, and none before its cooldown is over, until the
  outcome of a request is reported to it; a half-open one admits none, so the probe's outcome is all
  that can move it.
\<close>

theorem breaker_single_probe:
  assumes "brState b \<noteq> BreakerClosed" and "\<forall>c \<in> set cs. \<not> isObserve c"
  shows "length (filter id (fst (breakerRun b cs))) \<le> 1 \<and>
    \<not> ((\<forall>c \<in> set cs. refusedBefore b c) \<and> True \<in> set (fst (breakerRun b cs))) \<and>
    \<not> (brState b = BreakerHalfOpen \<and> snd (breakerRun b cs) \<noteq> b)"
proof (cases "brState b")
  case BreakerOpen
  with open_run [OF _ assms(2)] show ?thesis by auto
next
  case BreakerHalfOpen
  from half_open_run [OF this assms(2)] show ?thesis by auto
qed (use assms in simp)

theorem breaker_single_probe_witness:
  "length (filter id (fst (breakerRun (openBreaker (newBreaker defaultBreakerConfig) Signal429 0)
     [CallAllow 60000000000, CallAllow 60000000001]))) \<le> 1"
  using breaker_single_probe [of "openBreaker (newBreaker defaultBreakerConfig) Signal429 0"
      "[CallAllow 60000000000, CallAllow 60000000001]"]
  by (simp add: openBreaker_def isObserve_def)

text \<open>
  Further. A caller that reports the outcome of every request it was admitted for is never shut out: after
  any number of such requests the breaker admits the next one as soon as the cooldown since it opened
  is over, and a clean outcome of that request closes it.
\<close>

theorem reporting_caller_readmitted:
  assumes "brState b \<noteq> BreakerOpen \<or> brOpenedAt b + brCooldown b \<le> t"
    and "b = foldl breakerRound (newBreaker cfg) rs"
  shows "fst (allow b t) \<and> brState (observe (snd (allow b t)) SignalOK u) = BreakerClosed"
proof -
  have "brState b \<noteq> BreakerHalfOpen"
    unfolding assms(2) by (rule rounds_not_half_open) (simp add: newBreaker_def)
  with assms(1) show ?thesis
    by (auto simp: allow_def observe_def breaker_simps split: breaker_state.splits)
qed

theorem reporting_caller_readmitted_witness:
  "fst (allow (foldl breakerRound (newBreaker defaultBreakerConfig) [(1, SignalDrift, 2)]) 60000000002)"
  using reporting_caller_readmitted
    [of "foldl breakerRound (newBreaker defaultBreakerConfig) [(1, SignalDrift, 2)]" 60000000002
      defaultBreakerConfig "[(1, SignalDrift, 2)]" 0]
  by (simp add: breakerRound_def newBreaker_def defaultBreakerConfig_def defaultThresholds_def
      allow_def observe_def breaker_simps)

end
