(* ===== verification/RouteCParser.thy ===== *)
theory RouteCParser
  imports Observation RouteCBreaker
begin

text \<open>
  What Route C makes of a response: the signal a fetch is classified as (routec/fetcher.go), the
  product-detail parser (parser.go), the canary and the drift guard (drift.go). encoding/json's
  decoding is a parameter; the parser starts from the decoded envelope.
\<close>

section \<open>Classification (fetcher.go)\<close>

fun containsText :: "utext \<Rightarrow> utext \<Rightarrow> bool" where
  "containsText [] m \<longleftrightarrow> m = []"
| "containsText (x # xs) m \<longleftrightarrow> take (length m) (x # xs) = m \<or> containsText xs m"

definition challengeMarkers :: "utext list" where
  "challengeMarkers = [runes ''captcha'', runes ''are you a robot'', runes ''cf-challenge'',
     runes ''__cf_chl'', runes ''enable javascript'']"

text \<open>\<open>lower\<close> is \<open>strings.ToLower\<close>.\<close>

definition looksLikeChallenge :: "(utext \<Rightarrow> utext) \<Rightarrow> utext \<Rightarrow> bool" where
  "looksLikeChallenge lower body =
     (let trimmed = trimSpace body in
      if take 1 trimmed = runes ''{'' \<or> take 1 trimmed = runes ''['' then False
      else list_ex (\<lambda>m. containsText (lower trimmed) m) challengeMarkers)"

definition classify :: "(utext \<Rightarrow> utext) \<Rightarrow> int \<Rightarrow> utext \<Rightarrow> duration \<Rightarrow> duration \<Rightarrow> signal" where
  "classify lower status body latency ceiling =
     (if status = 403 then (if looksLikeChallenge lower body then SignalChallenge else Signal403)
      else if status = 429 then Signal429
      else if 500 \<le> status then SignalTransport
      else if looksLikeChallenge lower body then SignalChallenge
      else if 0 < ceiling \<and> ceiling < latency then SignalLatency
      else if status = 200 then SignalOK
      else if status < 200 \<or> 300 \<le> status then SignalTransport
      else SignalOK)"

section \<open>The product-detail payload (parser.go)\<close>

definition parserVersionC :: utext where "parserVersionC = runes ''routec-parser/1.0.0''"
definition rawRialUnit :: utext where "rawRialUnit = runes ''IRR-rial''"

record price_json =
  pjSellingPrice :: "int64 option"
  pjRrpPrice :: "int64 option"
  pjMarketableStock :: "int64 option"

record seller_json =
  sjID :: "int64 option"
  sjCode :: "utext option"

record variant_json =
  vjID :: "int64 option"
  vjStatus :: "utext option"
  vjSeller :: "seller_json option"
  vjPrice :: "price_json option"

record product_detail =
  pdID :: "int64 option"
  pdStatus :: "utext option"
  pdVariants :: "variant_json list"

text \<open>The envelope's data, if any, and its product, if any.\<close>

record envelope =
  enStatus :: "int option"
  enData :: "product_detail option option"

record parsed_offer =
  poNativeVariantID :: int64
  poSellerID :: utext
  poSellerCode :: utext
  poPrice :: raw_amount
  poListPrice :: raw_amount
  poAvailability :: availability
  poStock :: "int64 option"

record parsed_product =
  ppProductID :: int64
  ppProductStatus :: utext
  ppUnavailable :: bool
  ppOffers :: "parsed_offer list"

datatype parse_drift =
  InvalidJSON | MissingProduct | MissingProductID | VariantMissingID nat | MarketableWithoutPrice nat

definition mapAvailability :: "utext option \<Rightarrow> availability" where
  "mapAvailability status =
     (case status of None \<Rightarrow> TempUnavail
      | Some s \<Rightarrow>
          if trimSpace s = runes ''marketable'' then InStock
          else if trimSpace s = runes ''out_of_stock'' then OutOfStock
          else TempUnavail)"

definition priceToken :: "int64 \<Rightarrow> raw_amount" where
  "priceToken p = (let v = runes (formatInt (sint p)) in newRawAmount v v rawRialUnit)"

definition emptyRaw :: raw_amount where "emptyRaw = newRawAmount [] [] []"

text \<open>A variant without a selling price: drift when it claims to be purchasable.\<close>

definition unpriced :: "nat \<Rightarrow> parsed_offer \<Rightarrow> (parse_drift, parsed_offer) result" where
  "unpriced i offer =
     (if poAvailability offer = InStock \<or> poAvailability offer = Limited
      then Inl (MarketableWithoutPrice i) else Inr offer)"

definition parseVariant :: "nat \<Rightarrow> variant_json \<Rightarrow> (parse_drift, parsed_offer) result" where
  "parseVariant i v =
     (case vjID v of
        None \<Rightarrow> Inl (VariantMissingID i)
      | Some vid \<Rightarrow>
          (let offer = \<lparr>poNativeVariantID = vid,
                 poSellerID = (case vjSeller v of None \<Rightarrow> []
                   | Some s \<Rightarrow> (case sjID s of None \<Rightarrow> [] | Some n \<Rightarrow> runes (formatInt (sint n)))),
                 poSellerCode = (case vjSeller v of None \<Rightarrow> []
                   | Some s \<Rightarrow> (case sjCode s of None \<Rightarrow> [] | Some c \<Rightarrow> trimSpace c)),
                 poPrice = emptyRaw, poListPrice = emptyRaw,
                 poAvailability = mapAvailability (vjStatus v), poStock = None\<rparr> in
           case vjPrice v of
             None \<Rightarrow> unpriced i offer
           | Some pr \<Rightarrow>
               (case pjSellingPrice pr of
                  None \<Rightarrow> unpriced i offer
                | Some p \<Rightarrow>
                    Inr (offer\<lparr>poPrice := priceToken p,
                      poListPrice := (case pjRrpPrice pr of None \<Rightarrow> emptyRaw | Some l \<Rightarrow> priceToken l),
                      poStock := pjMarketableStock pr\<rparr>))))"

fun parseVariants :: "nat \<Rightarrow> variant_json list \<Rightarrow> (parse_drift, parsed_offer list) result" where
  "parseVariants i [] = Inr []"
| "parseVariants i (v # vs) =
     andThen (parseVariant i v) (\<lambda>x. andThen (parseVariants (i + 1) vs) (\<lambda>xs. Inr (x # xs)))"

definition parseProductDetail :: "envelope option \<Rightarrow> (parse_drift, parsed_product) result" where
  "parseProductDetail decoded =
     (case decoded of
        None \<Rightarrow> Inl InvalidJSON
      | Some env \<Rightarrow>
          (case enData env of
             Some (Some p) \<Rightarrow>
               (case pdID p of
                  None \<Rightarrow> Inl MissingProductID
                | Some i \<Rightarrow>
                    (let out = \<lparr>ppProductID = i,
                           ppProductStatus = (case pdStatus p of None \<Rightarrow> [] | Some s \<Rightarrow> s),
                           ppUnavailable = False, ppOffers = []\<rparr> in
                     if length (pdVariants p) = 0 then Inr (out\<lparr>ppUnavailable := True\<rparr>)
                     else andThen (parseVariants 0 (pdVariants p)) (\<lambda>xs. Inr (out\<lparr>ppOffers := xs\<rparr>))))
           | _ \<Rightarrow> Inl MissingProduct))"

section \<open>The canary (drift.go)\<close>

datatype canary_reason = ZeroOffers | UnexpectedUnit nat utext | NonNumericPrice nat utext | AllZeroPriced

record canary_result =
  crPassed :: bool
  crReasons :: "canary_reason list"

text \<open>\<open>strconv.ParseInt\<close> accepts ASCII only.\<close>

definition parseInt64 :: "utext \<Rightarrow> int option" where
  "parseInt64 v = (if list_all (\<lambda>r. r < 128) v then parseInt 64 (asciiOf v) else None)"

record canary_state =
  csReasons :: "canary_reason list"
  csValued :: nat
  csNonZero :: nat

definition canaryOffer :: "nat \<Rightarrow> parsed_offer \<Rightarrow> canary_state \<Rightarrow> canary_state" where
  "canaryOffer i x st =
     (if isEmptyRaw (poPrice x) then st
      else
        (let st1 = st\<lparr>csValued := csValued st + 1\<rparr>;
             st2 = (if raUnit (poPrice x) \<noteq> rawRialUnit
                    then st1\<lparr>csReasons := csReasons st1 @ [UnexpectedUnit i (raUnit (poPrice x))]\<rparr> else st1)
         in case parseInt64 (raValue (poPrice x)) of
              None \<Rightarrow> st2\<lparr>csReasons := csReasons st2 @ [NonNumericPrice i (raValue (poPrice x))]\<rparr>
            | Some n \<Rightarrow> if 0 < n then st2\<lparr>csNonZero := csNonZero st2 + 1\<rparr> else st2))"

fun canaryLoop :: "nat \<Rightarrow> parsed_offer list \<Rightarrow> canary_state \<Rightarrow> canary_state" where
  "canaryLoop i [] st = st"
| "canaryLoop i (x # xs) st = canaryLoop (i + 1) xs (canaryOffer i x st)"

definition canary :: "parsed_product \<Rightarrow> canary_result" where
  "canary p =
     (if ppUnavailable p then \<lparr>crPassed = True, crReasons = []\<rparr>
      else if length (ppOffers p) = 0 then \<lparr>crPassed = False, crReasons = [ZeroOffers]\<rparr>
      else
        (let st = canaryLoop 0 (ppOffers p) \<lparr>csReasons = [], csValued = 0, csNonZero = 0\<rparr>;
             reasons = (if 0 < csValued st \<and> csNonZero st = 0 then csReasons st @ [AllZeroPriced] else csReasons st)
         in \<lparr>crPassed = (length reasons = 0), crReasons = reasons\<rparr>))"

section \<open>The drift guard (drift.go)\<close>

datatype drift_reason =
  DriftParse parse_drift | DriftCanary "canary_reason list" | DriftIdentity int64 int64

datatype drift_guard = DriftHealthy | DriftPaused drift_reason

record recovery_evidence =
  reGreenFixtures :: bool
  reGreenCanary :: bool
  reManualSample :: bool

definition evidenceComplete :: "recovery_evidence \<Rightarrow> bool" where
  "evidenceComplete r \<longleftrightarrow> reGreenFixtures r \<and> reGreenCanary r \<and> reManualSample r"

definition extracting :: "drift_guard \<Rightarrow> bool" where
  "extracting g \<longleftrightarrow> g = DriftHealthy"

definition reportCanary :: "drift_guard \<Rightarrow> canary_result \<Rightarrow> drift_guard" where
  "reportCanary g res = (if crPassed res then g else DriftPaused (DriftCanary (crReasons res)))"

definition reportDrift :: "drift_guard \<Rightarrow> drift_reason \<Rightarrow> drift_guard" where
  "reportDrift g reason = DriftPaused reason"

definition recover :: "drift_guard \<Rightarrow> recovery_evidence \<Rightarrow> bool \<times> drift_guard" where
  "recover g ev =
     (case g of DriftHealthy \<Rightarrow> (True, g)
      | DriftPaused _ \<Rightarrow> if \<not> evidenceComplete ev then (False, g) else (True, DriftHealthy))"

definition pausedQuality :: "bool \<Rightarrow> quality" where
  "pausedQuality hadValue = (if hadValue then Stale else Unavailable)"

section \<open>Lemmas\<close>

text \<open>What the parser lets through for an offer: no price, or the tokens of an int64 price.\<close>

definition pricedAs :: "parsed_offer \<Rightarrow> int64 option \<Rightarrow> bool" where
  "pricedAs x p \<longleftrightarrow> poPrice x = (case p of None \<Rightarrow> emptyRaw | Some v \<Rightarrow> priceToken v)"

definition sellingPrice :: "variant_json \<Rightarrow> int64 option" where
  "sellingPrice v = (case vjPrice v of None \<Rightarrow> None | Some pr \<Rightarrow> pjSellingPrice pr)"

lemma parseVariant_ok:
  "parseVariant i v = Inr x \<longleftrightarrow>
     (\<exists>vid. vjID v = Some vid \<and> poNativeVariantID x = vid \<and>
        poSellerID x = (case vjSeller v of None \<Rightarrow> []
          | Some s \<Rightarrow> (case sjID s of None \<Rightarrow> [] | Some n \<Rightarrow> runes (formatInt (sint n)))) \<and>
        poSellerCode x = (case vjSeller v of None \<Rightarrow> []
          | Some s \<Rightarrow> (case sjCode s of None \<Rightarrow> [] | Some c \<Rightarrow> trimSpace c)) \<and>
        poAvailability x = mapAvailability (vjStatus v) \<and>
        pricedAs x (sellingPrice v) \<and>
        poListPrice x = (if sellingPrice v = None then emptyRaw
          else (case pjRrpPrice (the (vjPrice v)) of None \<Rightarrow> emptyRaw | Some l \<Rightarrow> priceToken l)) \<and>
        poStock x = (if sellingPrice v = None then None else pjMarketableStock (the (vjPrice v))) \<and>
        (sellingPrice v = None \<longrightarrow> mapAvailability (vjStatus v) \<noteq> InStock \<and> mapAvailability (vjStatus v) \<noteq> Limited))"
  by (cases x) (auto simp: parseVariant_def unpriced_def pricedAs_def sellingPrice_def Let_def
      split: option.splits if_splits)

lemma parseVariants_ok:
  "parseVariants i vs = Inr xs \<longleftrightarrow> list_all2 (\<lambda>v x. parseVariant 0 v = Inr x) vs xs"
proof (induction vs arbitrary: i xs)
  case Nil
  then show ?case by auto
next
  case (Cons v vs)
  have "parseVariant i v = Inr x \<longleftrightarrow> parseVariant 0 v = Inr x" for x by (simp only: parseVariant_ok)
  with Cons show ?case by (cases xs) (auto simp: result_simps)
qed

lemma priceToken_unit [simp]: "raUnit (priceToken p) = rawRialUnit"
  by (simp add: priceToken_def newRawAmount_def Let_def)

lemma rawRialUnit_nonempty [simp]: "rawRialUnit \<noteq> []"
  by (simp add: rawRialUnit_def runes_def)

lemma priceToken_nonempty [simp]: "\<not> isEmptyRaw (priceToken p)"
  by (simp add: isEmptyRaw_def)

lemma emptyRaw_empty [simp]: "isEmptyRaw emptyRaw"
  by (simp add: isEmptyRaw_def emptyRaw_def newRawAmount_def)

lemma asciiOf_runes [simp]: "asciiOf (runes s) = s"
  by (induction s) (simp_all add: asciiOf_def runes_def)

lemma formatInt_ascii: "list_all (\<lambda>r. r < 128) (runes (formatInt i))"
proof -
  have "of_char c < (128 :: nat)" if "isDigitChar c" for c using that by (auto simp: isDigitChar_def)
  then have "\<forall>c \<in> set (natDigits n). of_char c < (128 :: nat)" for n using natDigits_digits [of n] by blast
  then show ?thesis by (auto simp: formatInt_def runes_def list_all_iff)
qed

lemma parseInt64_formatInt [simp]: "parseInt64 (runes (formatInt (sint (p :: int64)))) = Some (sint p)"
  using sint64_range [of p] by (simp add: parseInt64_def formatInt_ascii parseInt_formatInt)

lemma priceToken_value [simp]: "parseInt64 (raValue (priceToken p)) = Some (sint p)"
  by (simp add: priceToken_def newRawAmount_def Let_def)

lemma canaryOffer_priced:
  assumes "pricedAs x p"
  shows "canaryOffer i x st = (case p of None \<Rightarrow> st
    | Some v \<Rightarrow> st\<lparr>csValued := csValued st + 1, csNonZero := csNonZero st + (if 0 < sint v then 1 else 0)\<rparr>)"
  using assms by (cases p) (simp_all add: canaryOffer_def pricedAs_def Let_def)

lemma canaryLoop_priced:
  assumes "list_all2 pricedAs xs ps"
  shows "canaryLoop i xs st = st\<lparr>csValued := csValued st + length (List.map_filter id ps),
    csNonZero := csNonZero st + length (filter (\<lambda>v. 0 < sint v) (List.map_filter id ps))\<rparr>"
  using assms
proof (induction xs ps arbitrary: i st rule: list_all2_induct)
  case Nil
  then show ?case by (simp add: List.map_filter_def)
next
  case (Cons x xs p ps)
  then show ?case by (cases p) (simp_all add: canaryOffer_priced List.map_filter_def)
qed

section \<open>Properties\<close>

lemma parse_variants:
  assumes "parseProductDetail (Some env) = Inr pp"
  shows "\<exists>p. enData env = Some (Some p) \<and> pdID p = Some (ppProductID pp) \<and>
    (ppUnavailable pp \<longleftrightarrow> pdVariants p = []) \<and>
    list_all2 (\<lambda>v x. parseVariant 0 v = Inr x) (pdVariants p) (ppOffers pp)"
  using assms
  by (auto simp: parseProductDetail_def Let_def result_simps parseVariants_ok split: option.splits if_splits)

lemma mapAvailability_InStock:
  "mapAvailability st = InStock \<longleftrightarrow> (\<exists>s. st = Some s \<and> trimSpace s = runes ''marketable'')"
  by (auto simp: mapAvailability_def split: option.splits)

text \<open>
  C38. The parser is faithful: a payload it accepts has a product with an id, and it returns one offer
  per variant, in order, with the variant's id. The offer's price is absent exactly when the payload
  has no selling price and otherwise reads back as exactly that integer, in the raw source unit; an
  in-stock claim comes only from the literal token, with a price.
\<close>

theorem parse_faithful:
  assumes "parseProductDetail (Some env) = Inr pp"
  shows "\<exists>p. enData env = Some (Some p) \<and> pdID p = Some (ppProductID pp) \<and>
    (ppUnavailable pp \<longleftrightarrow> pdVariants p = []) \<and>
    list_all2 (\<lambda>v x. vjID v = Some (poNativeVariantID x) \<and>
        (case sellingPrice v of None \<Rightarrow> isEmptyRaw (poPrice x)
         | Some q \<Rightarrow> parseInt64 (raValue (poPrice x)) = Some (sint q) \<and> raUnit (poPrice x) = rawRialUnit) \<and>
        \<not> (poAvailability x = InStock \<and>
           (sellingPrice v = None \<or> (\<nexists>s. vjStatus v = Some s \<and> trimSpace s = runes ''marketable''))))
      (pdVariants p) (ppOffers pp)"
proof -
  from parse_variants [OF assms] obtain p where
    p: "enData env = Some (Some p)" "pdID p = Some (ppProductID pp)" "ppUnavailable pp \<longleftrightarrow> pdVariants p = []"
    and all: "list_all2 (\<lambda>v x. parseVariant 0 v = Inr x) (pdVariants p) (ppOffers pp)" by blast
  from all have "list_all2 (\<lambda>v x. vjID v = Some (poNativeVariantID x) \<and>
        (case sellingPrice v of None \<Rightarrow> isEmptyRaw (poPrice x)
         | Some q \<Rightarrow> parseInt64 (raValue (poPrice x)) = Some (sint q) \<and> raUnit (poPrice x) = rawRialUnit) \<and>
        \<not> (poAvailability x = InStock \<and>
           (sellingPrice v = None \<or> (\<nexists>s. vjStatus v = Some s \<and> trimSpace s = runes ''marketable''))))
      (pdVariants p) (ppOffers pp)"
    by (rule list_all2_mono)
      (auto simp: parseVariant_ok pricedAs_def mapAvailability_InStock split: option.splits)
  with p show ?thesis by blast
qed

definition witnessVariant :: variant_json where
  "witnessVariant = \<lparr>vjID = Some 7, vjStatus = Some (runes ''marketable''), vjSeller = None,
     vjPrice = Some \<lparr>pjSellingPrice = Some 1200, pjRrpPrice = None, pjMarketableStock = Some 3\<rparr>\<rparr>"

definition witnessEnvelope :: "variant_json list \<Rightarrow> envelope" where
  "witnessEnvelope vs = \<lparr>enStatus = None, enData = Some (Some \<lparr>pdID = Some 5, pdStatus = None, pdVariants = vs\<rparr>)\<rparr>"

lemma witness_parses: "\<exists>x. parseProductDetail (Some (witnessEnvelope [witnessVariant]))
    = Inr \<lparr>ppProductID = 5, ppProductStatus = [], ppUnavailable = False, ppOffers = [x]\<rparr>
    \<and> poPrice x = priceToken 1200"
  by (simp add: parseProductDetail_def witnessEnvelope_def witnessVariant_def parseVariant_def unpriced_def Let_def)

theorem parse_faithful_witness:
  "\<exists>pp. parseProductDetail (Some (witnessEnvelope [witnessVariant])) = Inr pp \<and> ppProductID pp = 5 \<and>
     map (\<lambda>x. parseInt64 (raValue (poPrice x))) (ppOffers pp) = [Some 1200]"
proof -
  from witness_parses obtain x where x: "parseProductDetail (Some (witnessEnvelope [witnessVariant]))
    = Inr \<lparr>ppProductID = 5, ppProductStatus = [], ppUnavailable = False, ppOffers = [x]\<rparr>" by blast
  from parse_faithful [OF x] have "parseInt64 (raValue (poPrice x)) = Some 1200"
    by (auto simp: witnessEnvelope_def witnessVariant_def sellingPrice_def)
  with x show ?thesis by simp
qed

text \<open>
  Further. The canary on a parsed payload: of its four reasons only one can occur, that every priced offer
  is zero or negative, and it fails exactly then. A payload without any price passes.
\<close>

theorem canary_on_parsed:
  assumes "parseProductDetail (Some env) = Inr pp" and "enData env = Some (Some p)"
    and "prices = List.map_filter sellingPrice (pdVariants p)"
  shows "canary pp =
    (if prices \<noteq> [] \<and> (\<forall>q \<in> set prices. sint q \<le> 0)
     then \<lparr>crPassed = False, crReasons = [AllZeroPriced]\<rparr> else \<lparr>crPassed = True, crReasons = []\<rparr>)"
proof -
  from parse_variants [OF assms(1)] assms(2) have un: "ppUnavailable pp \<longleftrightarrow> pdVariants p = []"
    and all: "list_all2 (\<lambda>v x. parseVariant 0 v = Inr x) (pdVariants p) (ppOffers pp)" by auto
  have "list_all2 (\<lambda>v x. pricedAs x (sellingPrice v)) (pdVariants p) (ppOffers pp)"
    using all by (rule list_all2_mono) (simp add: parseVariant_ok)
  then have "list_all2 pricedAs (ppOffers pp) (map sellingPrice (pdVariants p))"
    by (simp add: list_all2_conv_all_nth)
  from canaryLoop_priced [OF this] have loop: "canaryLoop 0 (ppOffers pp) st =
    st\<lparr>csValued := csValued st + length prices,
       csNonZero := csNonZero st + length (filter (\<lambda>v. 0 < sint v) prices)\<rparr>" for st
    by (simp add: assms(3) List.map_filter_def comp_def)
  have len: "length (ppOffers pp) = length (pdVariants p)" using all by (auto dest: list_all2_lengthD)
  have "prices = []" if "pdVariants p = []" using that by (simp add: assms(3) List.map_filter_def)
  then show ?thesis
    using un len by (auto simp: canary_def Let_def loop filter_empty_conv not_less)
qed

theorem canary_on_parsed_witness:
  "\<exists>pp. parseProductDetail (Some (witnessEnvelope [witnessVariant])) = Inr pp \<and> crPassed (canary pp)"
proof -
  from witness_parses obtain x where x: "parseProductDetail (Some (witnessEnvelope [witnessVariant]))
    = Inr \<lparr>ppProductID = 5, ppProductStatus = [], ppUnavailable = False, ppOffers = [x]\<rparr>" by blast
  from canary_on_parsed [OF x _ refl] x show ?thesis
    by (simp add: witnessEnvelope_def witnessVariant_def sellingPrice_def List.map_filter_def)
qed

end
