(* ===== verification/RouteCObserver.thy ===== *)
theory RouteCObserver
  imports RouteCSweep RouteCStops RouteCParser
begin

text \<open>
  Route C's observer (routec/observer.go): one target through the guards in their order, the fetch
  with its bounded retries, the captures handed to the store, and the sweep of a tier. Production
  wiring (bundle.go): the durable budget and the observation store. \<open>obSent\<close> is what the fetcher was
  asked for. What the outside answers (clock readings, fetches, database failures) is an argument.
\<close>

section \<open>State and environment\<close>

record target_ref =
  trAccount :: uuid
  trTargetID :: uuid
  trNativeVariantID :: int64
  trNativeProductID :: int64
  trTier :: tier

record fetch_request =
  fqURL :: utext
  fqAccount :: uuid
  fqTargetID :: uuid

record fetch_result =
  frBody :: utext
  frBytes :: int
  frSignal :: signal

record route_config =
  rcMaxRetries :: int
  rcBreaker :: breaker_config
  rcMeasuredPriorityCap :: int

record observer =
  obBreakers :: "uuid \<rightharpoonup> breaker"
  obBudget :: db_budget
  obDrift :: drift_guard
  obCursors :: "tier \<times> uuid \<Rightarrow> int"
  obStore :: observation_db
  obSent :: "fetch_request list"

text \<open>One fetch attempt: the backoff wait (a retry's only), its admission, the fetch, its accounting.\<close>

record attempt_env =
  aeCancelled :: bool
  aeAllowAt :: instant
  aeReserveAt :: instant
  aeReserveFails :: bool
  aeResult :: fetch_result
  aeFetchFails :: bool
  aeConsumeAt :: instant
  aeConsumeFails :: bool
  aeObserveAt :: instant

record target_env =
  teAttempts :: "nat \<Rightarrow> attempt_env"
  teAcquireFails :: bool
  teDriftAt :: instant
  teDowngradeFails :: bool
  teNow :: instant
  teIngest :: "nat \<Rightarrow> instant \<times> uuid"

text \<open>Code of other modules: JSON decoding, sha256 and the like, and the parsers registered.\<close>

record externals =
  exDecode :: "utext \<Rightarrow> envelope option"
  exCodec :: codec
  exRegistry :: parser_registry

datatype observe_error =
  ErrReserveBudget | ErrAcquireSlot | ErrCancelled | ErrReserveRetryBudget | ErrConsumeBytes
| ErrPersistDowngrade | ErrIdentity | ErrIngest observation_error

datatype skip_reason =
  SkipNone | SkipKillSwitch | SkipBreakerOpen | SkipBudget | SkipDriftPaused | SkipFetchSignal
| SkipParseDrift | SkipCanaryFailed | SkipIdentityMismatch

record observe_outcome =
  ooSkipped :: skip_reason
  ooSignal :: signal
  ooIngested :: nat
  ooDowngradedQuality :: "quality option"
  ooPersistedDowngrades :: nat

definition skipOutcome :: "skip_reason \<Rightarrow> observe_outcome" where
  "skipOutcome r = \<lparr>ooSkipped = r, ooSignal = SignalOK, ooIngested = 0, ooDowngradedQuality = None,
                     ooPersistedDowngrades = 0\<rparr>"

definition productURL :: "int64 \<Rightarrow> utext" where
  "productURL nativeProductID =
     runes ''https://'' @ runes ''api.digikala.com'' @ runes ''/v2/product/''
       @ runes (formatInt (sint nativeProductID)) @ runes ''/''"

section \<open>Breakers per account\<close>

definition getBreaker :: "route_config \<Rightarrow> observer \<Rightarrow> uuid \<Rightarrow> breaker" where
  "getBreaker cfg st account =
     (case obBreakers st account of None \<Rightarrow> newBreaker (rcBreaker cfg) | Some b \<Rightarrow> b)"

definition putBreaker :: "observer \<Rightarrow> uuid \<Rightarrow> breaker \<Rightarrow> observer" where
  "putBreaker st account b = st\<lparr>obBreakers := (obBreakers st)(account \<mapsto> b)\<rparr>"

definition allowFor :: "route_config \<Rightarrow> observer \<Rightarrow> uuid \<Rightarrow> instant \<Rightarrow> bool \<times> observer" where
  "allowFor cfg st account now =
     (case allow (getBreaker cfg st account) now of (ok, b) \<Rightarrow> (ok, putBreaker st account b))"

definition observeFor :: "route_config \<Rightarrow> observer \<Rightarrow> uuid \<Rightarrow> signal \<Rightarrow> instant \<Rightarrow> observer" where
  "observeFor cfg st account sig now =
     putBreaker st account (observe (getBreaker cfg st account) sig now)"

text \<open>\<open>budget.Reserve\<close>: an error, or whether the request is admitted.\<close>

definition reserveFor :: "observer \<Rightarrow> uuid \<Rightarrow> attempt_env \<Rightarrow> bool option \<times> observer" where
  "reserveFor st account ae =
     (if aeReserveFails ae then (None, st)
      else (case dbReserve (obBudget st) (aeReserveAt ae) account of
              (ok, d) \<Rightarrow> (Some ok, st\<lparr>obBudget := d\<rparr>)))"

section \<open>Fetch with bounded retries\<close>

definition transientFault :: "signal \<Rightarrow> bool \<Rightarrow> bool" where
  "transientFault sig fetchFails \<longleftrightarrow> fetchFails \<or> sig = SignalTransport"

definition fetchOnce ::
  "route_config \<Rightarrow> target_ref \<Rightarrow> attempt_env \<Rightarrow> observer \<Rightarrow> observer \<times> bool" where
  "fetchOnce cfg ref ae st =
     (let req = \<lparr>fqURL = productURL (trNativeProductID ref), fqAccount = trAccount ref, fqTargetID = trTargetID ref\<rparr>;
          res = aeResult ae;
          st1 = st\<lparr>obSent := obSent st @ [req]\<rparr> in
      if aeConsumeFails ae \<and> 0 < frBytes res then (st1, False)
      else
        (let st2 = st1\<lparr>obBudget := dbConsume (obBudget st1) (aeConsumeAt ae) (trAccount ref) (frBytes res)\<rparr>
         in (observeFor cfg st2 (trAccount ref) (frSignal res) (aeObserveAt ae), True)))"

text \<open>What a retry checks before it fetches: None stops the loop, with an error or without.\<close>

definition admitRetry ::
  "route_config \<Rightarrow> target_ref \<Rightarrow> attempt_env \<Rightarrow> observer \<Rightarrow> observer \<times> (observe_error, bool) result" where
  "admitRetry cfg ref ae st =
     (if aeCancelled ae then (st, Inl ErrCancelled)
      else
        (case allowFor cfg st (trAccount ref) (aeAllowAt ae) of (ok, st1) \<Rightarrow>
           if \<not> ok then (st1, Inr False)
           else
             (case reserveFor st1 (trAccount ref) ae of
                (None, st2) \<Rightarrow> (st2, Inl ErrReserveRetryBudget)
              | (Some admitted, st2) \<Rightarrow> (st2, Inr admitted))))"

function fetchFrom ::
  "route_config \<Rightarrow> target_ref \<Rightarrow> (nat \<Rightarrow> attempt_env) \<Rightarrow> nat \<Rightarrow> fetch_result \<Rightarrow> observer
    \<Rightarrow> observer \<times> (observe_error, fetch_result) result" where
  "fetchFrom cfg ref env attempt prev st =
     (case (if 0 < attempt then admitRetry cfg ref (env attempt) st else (st, Inr True)) of
        (st1, Inl e) \<Rightarrow> (st1, Inl e)
      | (st1, Inr False) \<Rightarrow> (st1, Inr prev)
      | (st1, Inr True) \<Rightarrow>
          (case fetchOnce cfg ref (env attempt) st1 of
             (st2, False) \<Rightarrow> (st2, Inl ErrConsumeBytes)
           | (st2, True) \<Rightarrow>
               (let res = aeResult (env attempt) in
                if \<not> aeFetchFails (env attempt) \<and> frSignal res = SignalOK then (st2, Inr res)
                else if \<not> transientFault (frSignal res) (aeFetchFails (env attempt))
                        \<or> rcMaxRetries cfg \<le> int attempt
                then (st2, Inr res)
                else fetchFrom cfg ref env (attempt + 1) res st2)))"
  by pat_completeness auto
termination
  by (relation "measure (\<lambda>(cfg, _, _, attempt, _, _). nat (rcMaxRetries cfg - int attempt))")
    (auto split: if_splits)

declare fetchFrom.simps [simp del]

section \<open>Captures\<close>

definition baseCapture :: "target_ref \<Rightarrow> instant \<Rightarrow> availability \<Rightarrow> utext \<Rightarrow> capture" where
  "baseCapture ref now avail seller =
     \<lparr>cpTargetID = trTargetID ref, cpAccount = trAccount ref, cpNativeVariantID = trNativeVariantID ref,
      cpNativeSellerID = seller, cpOfferIdentity = [], cpRoute = RouteC, cpSubRoute = [],
      cpSourceType = SourcePublicWebEndpoint, cpSourceURL = productURL (trNativeProductID ref),
      cpParserVersion = parserVersionC, cpConnectorVersion = [],
      cpEvidenceRef = runes ''routec:'' @ runes (formatInt (sint (trNativeProductID ref))) @ runes '':''
        @ runes (formatInt (sint (trNativeVariantID ref))),
      cpRawFixtureRef = [], cpPrice = emptyRaw, cpListPrice = emptyRaw, cpAvailability = avail,
      cpStockSignal = None, cpCapturedAt = now, cpConfidence = ConfPartiallyVerified,
      cpParsingWarnings = [], cpSchemaValid = True\<rparr>"

definition offerCapture :: "target_ref \<Rightarrow> instant \<Rightarrow> parsed_offer \<Rightarrow> capture" where
  "offerCapture ref now off =
     (baseCapture ref now (poAvailability off) (poSellerID off))
       \<lparr>cpPrice := poPrice off, cpListPrice := poListPrice off, cpStockSignal := poStock off\<rparr>"

definition buildCaptures :: "target_ref \<Rightarrow> instant \<Rightarrow> parsed_product \<Rightarrow> capture list" where
  "buildCaptures ref now parsed =
     (let own = filter (\<lambda>off. poNativeVariantID off = trNativeVariantID ref) (ppOffers parsed) in
      if own = [] then [baseCapture ref now TempUnavail []]
      else map (offerCapture ref now) own)"

text \<open>The captures go to the store one by one; the first error stops.\<close>

fun ingestAll ::
  "externals \<Rightarrow> (nat \<Rightarrow> instant \<times> uuid) \<Rightarrow> nat \<Rightarrow> capture list \<Rightarrow> observation_db
    \<Rightarrow> observation_db \<times> (observe_error, unit) result" where
  "ingestAll ex env i [] db = (db, Inr ())"
| "ingestAll ex env i (c # cs) db =
     (case ingest (exCodec ex) (exRegistry ex) db c (fst (env i)) (snd (env i)) of
        (db', Inl ErrIdentityMismatch) \<Rightarrow> (db', Inl ErrIdentity)
      | (db', Inl e) \<Rightarrow> (db', Inl (ErrIngest e))
      | (db', Inr _) \<Rightarrow> ingestAll ex env (i + 1) cs db')"

section \<open>One target\<close>

text \<open>\<open>persistDriftDowngrade\<close>: how many offers it changes, or the error of a failed write.\<close>

definition downgradedOffers :: "observation_db \<Rightarrow> observation_db \<Rightarrow> (uuid \<times> utext) list \<Rightarrow> nat" where
  "downgradedOffers db db' keys = length (filter (\<lambda>k. odOffers db k \<noteq> odOffers db' k) keys)"

definition driftStop ::
  "target_env \<Rightarrow> (uuid \<times> utext) list \<Rightarrow> target_ref \<Rightarrow> skip_reason \<Rightarrow> observer
    \<Rightarrow> observer \<times> (observe_error, observe_outcome) result" where
  "driftStop te keys ref reason st =
     (if teDowngradeFails te then (st, Inl ErrPersistDowngrade)
      else
        (let db' = downgradeCurrentForDrift (obStore st) (trTargetID ref)
         in (st\<lparr>obStore := db'\<rparr>,
             Inr ((skipOutcome reason)\<lparr>ooDowngradedQuality := Some (pausedQuality True),
                    ooPersistedDowngrades := downgradedOffers (obStore st) db' keys\<rparr>))))"

text \<open>A drift verdict: pause extraction, feed the breaker, downgrade the target's current offers.\<close>

definition driftVerdict ::
  "route_config \<Rightarrow> target_env \<Rightarrow> (uuid \<times> utext) list \<Rightarrow> target_ref \<Rightarrow> skip_reason \<Rightarrow> drift_guard \<Rightarrow> observer
    \<Rightarrow> observer \<times> (observe_error, observe_outcome) result" where
  "driftVerdict cfg te keys ref reason guard st =
     driftStop te keys ref reason
       (observeFor cfg (st\<lparr>obDrift := guard\<rparr>) (trAccount ref) SignalDrift (teDriftAt te))"

definition acceptBody ::
  "externals \<Rightarrow> route_config \<Rightarrow> target_env \<Rightarrow> (uuid \<times> utext) list \<Rightarrow> target_ref \<Rightarrow> utext \<Rightarrow> observer
    \<Rightarrow> observer \<times> (observe_error, observe_outcome) result" where
  "acceptBody ex cfg te keys ref body st =
     (case parseProductDetail (exDecode ex body) of
        Inl perr \<Rightarrow>
          driftVerdict cfg te keys ref SkipParseDrift (reportDrift (obDrift st) (DriftParse perr)) st
      | Inr parsed \<Rightarrow>
          (let can = canary parsed in
           if \<not> crPassed can
           then driftVerdict cfg te keys ref SkipCanaryFailed (reportCanary (obDrift st) can) st
           else if ppProductID parsed \<noteq> trNativeProductID ref
           then driftVerdict cfg te keys ref SkipIdentityMismatch
                  (reportDrift (obDrift st) (DriftIdentity (ppProductID parsed) (trNativeProductID ref))) st
           else
             (let captures = buildCaptures ref (teNow te) parsed in
              case ingestAll ex (teIngest te) 0 captures (obStore st) of
                (db', Inl e) \<Rightarrow> (st\<lparr>obStore := db'\<rparr>, Inl e)
              | (db', Inr _) \<Rightarrow>
                  (st\<lparr>obStore := db'\<rparr>, Inr ((skipOutcome SkipNone)\<lparr>ooIngested := length captures\<rparr>)))))"

definition observeTarget ::
  "externals \<Rightarrow> route_config \<Rightarrow> target_env \<Rightarrow> (uuid \<times> utext) list \<Rightarrow> snapshot \<Rightarrow> target_ref \<Rightarrow> observer
    \<Rightarrow> observer \<times> (observe_error, observe_outcome) result" where
  "observeTarget ex cfg te keys snap ref st =
     (let account = trAccount ref; first = teAttempts te 0 in
      if blocked snap account (trTargetID ref) then (st, Inr (skipOutcome SkipKillSwitch))
      else if \<not> extracting (obDrift st) then driftStop te keys ref SkipDriftPaused st
      else
        (case allowFor cfg st account (aeAllowAt first) of (ok, st1) \<Rightarrow>
           if \<not> ok then (st1, Inr (skipOutcome SkipBreakerOpen))
           else
             (case reserveFor st1 account first of
                (None, st2) \<Rightarrow> (st2, Inl ErrReserveBudget)
              | (Some admitted, st2) \<Rightarrow>
                  if \<not> admitted then (st2, Inr (skipOutcome SkipBudget))
                  else if teAcquireFails te then (st2, Inl ErrAcquireSlot)
                  else
                    (case fetchFrom cfg ref (teAttempts te) 0 \<lparr>frBody = [], frBytes = 0, frSignal = SignalOK\<rparr> st2 of
                       (st3, Inl e) \<Rightarrow> (st3, Inl e)
                     | (st3, Inr res) \<Rightarrow>
                         if frSignal res \<noteq> SignalOK
                         then (st3, Inr ((skipOutcome SkipFetchSignal)\<lparr>ooSignal := frSignal res\<rparr>))
                         else acceptBody ex cfg te keys ref (frBody res) st3))))"

section \<open>One sweep of a tier\<close>

record sweep_summary =
  ssGlobalStopped :: bool
  ssObserved :: nat
  ssIngested :: nat
  ssSkippedKill :: nat
  ssSkippedBreak :: nat
  ssSkippedBudget :: nat
  ssDowngraded :: nat
  ssPersistedDowngrades :: nat
  ssTrimmed :: int
  ssErrors :: nat

definition emptySummary :: sweep_summary where
  "emptySummary = \<lparr>ssGlobalStopped = False, ssObserved = 0, ssIngested = 0, ssSkippedKill = 0,
     ssSkippedBreak = 0, ssSkippedBudget = 0, ssDowngraded = 0, ssPersistedDowngrades = 0, ssTrimmed = 0,
     ssErrors = 0\<rparr>"

definition tally :: "sweep_summary \<Rightarrow> observe_outcome \<Rightarrow> sweep_summary" where
  "tally s out =
     (case ooSkipped out of
        SkipKillSwitch \<Rightarrow> s\<lparr>ssSkippedKill := ssSkippedKill s + 1\<rparr>
      | SkipBreakerOpen \<Rightarrow> s\<lparr>ssSkippedBreak := ssSkippedBreak s + 1\<rparr>
      | SkipBudget \<Rightarrow> s\<lparr>ssSkippedBudget := ssSkippedBudget s + 1\<rparr>
      | SkipFetchSignal \<Rightarrow> s
      | SkipNone \<Rightarrow> s\<lparr>ssObserved := ssObserved s + 1, ssIngested := ssIngested s + ooIngested out\<rparr>
      | _ \<Rightarrow> s\<lparr>ssDowngraded := ssDowngraded s + 1,
              ssPersistedDowngrades := ssPersistedDowngrades s + ooPersistedDowngrades out\<rparr>)"

text \<open>What the outside answers during a sweep; a snapshot that fails is None.\<close>

record sweep_env =
  seSnapshotAt :: "uuid \<Rightarrow> instant option"
  seTarget :: "uuid \<Rightarrow> target_env"
  seKeys :: "(uuid \<times> utext) list"

definition tierCountCap :: "route_config \<Rightarrow> tier \<Rightarrow> int" where
  "tierCountCap cfg tr =
     (if tr = TierPriority then effectivePriorityCap (rcMeasuredPriorityCap cfg) else 9223372036854775807)"

definition accountsOf :: "target_ref list \<Rightarrow> uuid list" where
  "accountsOf targets = rev (foldl (\<lambda>acc r. if trAccount r \<in> set acc then acc else trAccount r # acc) [] targets)"

fun observeIDs ::
  "externals \<Rightarrow> route_config \<Rightarrow> sweep_env \<Rightarrow> snapshot \<Rightarrow> (uuid \<rightharpoonup> target_ref) \<Rightarrow> uuid list
    \<Rightarrow> observer \<times> sweep_summary \<Rightarrow> observer \<times> sweep_summary" where
  "observeIDs ex cfg se snap byID [] s = s"
| "observeIDs ex cfg se snap byID (i # ids) (st, acc) =
     (case observeTarget ex cfg (seTarget se i) (seKeys se) snap (the (byID i)) st of
        (st', Inl _) \<Rightarrow> observeIDs ex cfg se snap byID ids (st', acc\<lparr>ssErrors := ssErrors acc + 1\<rparr>)
      | (st', Inr out) \<Rightarrow> observeIDs ex cfg se snap byID ids (st', tally acc out))"

definition sweepAccount ::
  "externals \<Rightarrow> route_config \<Rightarrow> sweep_env \<Rightarrow> snapshot \<Rightarrow> tier \<Rightarrow> target_ref list \<Rightarrow> uuid
    \<Rightarrow> observer \<times> sweep_summary \<Rightarrow> observer \<times> sweep_summary" where
  "sweepAccount ex cfg se snap tr targets account s =
     (case s of (st, acc) \<Rightarrow>
        (let refs = filter (\<lambda>r. trAccount r = account) targets;
             ids = map trTargetID refs;
             byID = map_of (rev (map (\<lambda>r. (trTargetID r, r)) refs)) in
         case seSnapshotAt se account of
           None \<Rightarrow> (st, acc\<lparr>ssErrors := ssErrors acc + 1\<rparr>)
         | Some at \<Rightarrow>
             (let budget = fst (dbSnapshot (obBudget st) at account);
                  plan = planSweep tr ids (tierCountCap cfg tr) budget (obCursors st (tr, account));
                  st1 = st\<lparr>obCursors := (obCursors st)((tr, account) := spNextCursor plan)\<rparr>
              in observeIDs ex cfg se snap byID (spTargetIDs plan)
                   (st1, acc\<lparr>ssTrimmed := ssTrimmed acc + spTrimmed plan\<rparr>))))"

text \<open>\<open>rows\<close>: the engaged switches; \<open>targets\<close>: the tier's active targets; None for a failed read.\<close>

definition runSweep ::
  "externals \<Rightarrow> route_config \<Rightarrow> sweep_env \<Rightarrow> kill_row list option \<Rightarrow> target_ref list option \<Rightarrow> tier \<Rightarrow> observer
    \<Rightarrow> observer \<times> sweep_summary option" where
  "runSweep ex cfg se rows targets tr st =
     (case rows of
        None \<Rightarrow> (st, None)
      | Some rs \<Rightarrow>
          (let snap = loadSnapshot (dbEngaged rs) in
           if snGlobal snap then (st, Some (emptySummary\<lparr>ssGlobalStopped := True\<rparr>))
           else
             (case targets of
                None \<Rightarrow> (st, None)
              | Some ts \<Rightarrow>
                  (case foldl (\<lambda>s a. sweepAccount ex cfg se snap tr ts a s) (st, emptySummary) (accountsOf ts) of
                     (st', acc) \<Rightarrow> (st', Some acc)))))"

section \<open>What each step touches\<close>

definition sentBy :: "observer \<Rightarrow> uuid \<Rightarrow> nat" where
  "sentBy st a = length (filter (\<lambda>q. fqAccount q = a) (obSent st))"

definition usedBy :: "observer \<Rightarrow> instant \<Rightarrow> uuid \<Rightarrow> nat" where
  "usedBy st k a = asRequests (dbUsed (obBudget st) k a)"

definition withinLimit :: "observer \<Rightarrow> instant \<Rightarrow> uuid \<Rightarrow> bool" where
  "withinLimit st k a \<longleftrightarrow> int (usedBy st k a) \<le> max 0 (dbRequests (obBudget st))"

text \<open>A call whose reservations all fall into window \<open>k\<close>.\<close>

definition reservesIn :: "duration \<Rightarrow> instant \<Rightarrow> (nat \<Rightarrow> attempt_env) \<Rightarrow> bool" where
  "reservesIn w k env \<longleftrightarrow> (\<forall>n. windowKeyFor (aeReserveAt (env n)) w = k)"

named_theorems touches \<open>fields an observer step leaves alone\<close>

lemma putBreaker_fields [touches]:
  "obBudget (putBreaker st a b) = obBudget st" "obDrift (putBreaker st a b) = obDrift st"
  "obStore (putBreaker st a b) = obStore st" "obSent (putBreaker st a b) = obSent st"
  "obCursors (putBreaker st a b) = obCursors st"
  by (simp_all add: putBreaker_def)

lemma allowFor_fields [touches]:
  "obBudget (snd (allowFor cfg st a t)) = obBudget st" "obDrift (snd (allowFor cfg st a t)) = obDrift st"
  "obStore (snd (allowFor cfg st a t)) = obStore st" "obSent (snd (allowFor cfg st a t)) = obSent st"
  by (simp_all add: allowFor_def touches split: prod.splits)

lemma observeFor_fields [touches]:
  "obBudget (observeFor cfg st a s t) = obBudget st" "obDrift (observeFor cfg st a s t) = obDrift st"
  "obStore (observeFor cfg st a s t) = obStore st" "obSent (observeFor cfg st a s t) = obSent st"
  by (simp_all add: observeFor_def touches)

lemma reserveFor_fields [touches]:
  "obDrift (snd (reserveFor st a ae)) = obDrift st" "obStore (snd (reserveFor st a ae)) = obStore st"
  "obSent (snd (reserveFor st a ae)) = obSent st" "obBreakers (snd (reserveFor st a ae)) = obBreakers st"
  by (simp_all add: reserveFor_def split: prod.splits)

lemma dbReserve_ops: "boReserve dbOps = dbReserve" "boConsume dbOps = dbConsume"
  by (simp_all add: dbOps_def)

lemma reserveFor_used:
  assumes "windowKeyFor (aeReserveAt ae) (dbWindow (obBudget st)) = k"
  shows "usedBy (snd (reserveFor st a ae)) k a' =
    usedBy st k a' + (if a' = a \<and> fst (reserveFor st a ae) = Some True then 1 else 0)"
  using db.reserve_used [of "obBudget st" "aeReserveAt ae" a a'] assms
  by (cases "dbReserve (obBudget st) (aeReserveAt ae) a")
    (auto simp: reserveFor_def usedBy_def dbReserve_ops)

lemma reserveFor_config [simp]:
  "dbWindow (obBudget (snd (reserveFor st a ae))) = dbWindow (obBudget st)"
  "dbRequests (obBudget (snd (reserveFor st a ae))) = dbRequests (obBudget st)"
  using db.reserve_config [of "obBudget st" "aeReserveAt ae" a]
  by (cases "dbReserve (obBudget st) (aeReserveAt ae) a"; auto simp: reserveFor_def dbReserve_ops)+

lemma reserveFor_within:
  assumes "windowKeyFor (aeReserveAt ae) (dbWindow (obBudget st)) = k"
    and "withinLimit st k a'"
  shows "withinLimit (snd (reserveFor st a ae)) k a'"
proof (cases "a' = a \<and> fst (reserveFor st a ae) = Some True")
  case True
  then have "fst (dbReserve (obBudget st) (aeReserveAt ae) a)"
    by (auto simp: reserveFor_def split: if_splits prod.splits)
  with db.reserve_admits [of "obBudget st" "aeReserveAt ae" a] assms(1)
  have "int (usedBy st k a) < dbRequests (obBudget st)" by (simp add: dbReserve_ops usedBy_def)
  with reserveFor_used [OF assms(1), of a a'] True show ?thesis by (simp add: withinLimit_def)
next
  case False
  with reserveFor_used [OF assms(1), of a a'] assms(2) show ?thesis by (auto simp: withinLimit_def)
qed

lemma dbConsume_requests: "asRequests (dbUsed (dbConsume d t a n) k a') = asRequests (dbUsed d k a')"
  by (auto simp: dbConsume_def consumeByteBudget_def dbUsed_def split: option.splits)

lemma dbConsume_config [simp]:
  "dbWindow (dbConsume d t a n) = dbWindow d" "dbRequests (dbConsume d t a n) = dbRequests d"
  by (simp_all add: dbConsume_def)

lemma fetchOnce_touches:
  "fetchOnce cfg ref ae st = (st', ok) \<Longrightarrow>
     sentBy st' a = sentBy st a + (if a = trAccount ref then 1 else 0) \<and> usedBy st' k a = usedBy st k a \<and>
     dbWindow (obBudget st') = dbWindow (obBudget st) \<and> dbRequests (obBudget st') = dbRequests (obBudget st) \<and>
     obDrift st' = obDrift st \<and> obStore st' = obStore st"
  by (auto simp: fetchOnce_def Let_def sentBy_def usedBy_def touches dbConsume_requests split: if_splits)

text \<open>
  The effect of a stretch of a call on account \<open>a\<close> in window \<open>k\<close>: the requests sent, beyond
  \<open>credit\<close> ones admitted before, are covered by admissions, and these stay below the limit.
\<close>

definition covered :: "instant \<Rightarrow> uuid \<Rightarrow> nat \<Rightarrow> observer \<Rightarrow> observer \<Rightarrow> bool" where
  "covered k a credit st st' \<longleftrightarrow>
     sentBy st' a + usedBy st k a \<le> sentBy st a + usedBy st' k a + credit \<and>
     dbWindow (obBudget st') = dbWindow (obBudget st) \<and> dbRequests (obBudget st') = dbRequests (obBudget st) \<and>
     (withinLimit st k a \<longrightarrow> withinLimit st' k a)"

lemma covered_trans: "covered k a c st st1 \<Longrightarrow> covered k a d st1 st2 \<Longrightarrow> covered k a (c + d) st st2"
  unfolding covered_def by (elim conjE, intro conjI impI; (linarith | simp))

lemma covered_same: "obSent st' = obSent st \<Longrightarrow> obBudget st' = obBudget st \<Longrightarrow> covered k a c st st'"
  by (simp add: covered_def withinLimit_def sentBy_def usedBy_def)

lemma covered_mono: "covered k a c st st' \<Longrightarrow> c \<le> d \<Longrightarrow> covered k a d st st'"
  unfolding covered_def by linarith

lemma covered_reserve:
  assumes "windowKeyFor (aeReserveAt ae) (dbWindow (obBudget st)) = k"
  shows "covered k a' 0 st (snd (reserveFor st a ae))"
proof -
  have "sentBy (snd (reserveFor st a ae)) a' = sentBy st a'" by (simp add: sentBy_def touches)
  moreover have "usedBy st k a' \<le> usedBy (snd (reserveFor st a ae)) k a'"
    using reserveFor_used [OF assms, of a a'] by simp
  ultimately show ?thesis using reserveFor_within [OF assms] by (simp add: covered_def)
qed

text \<open>After an admitted reservation one more request may go out.\<close>

lemma admitRetry_covered:
  assumes "windowKeyFor (aeReserveAt ae) (dbWindow (obBudget st)) = k"
    and "admitRetry cfg ref ae st = (st', r)"
  shows "covered k a 0 st st' \<and>
    (r = Inr True \<longrightarrow> sentBy st' a + usedBy st k a + (if a = trAccount ref then 1 else 0) \<le> sentBy st a + usedBy st' k a)
    \<and> obDrift st' = obDrift st \<and> obStore st' = obStore st"
proof -
  obtain ok st1 where al: "allowFor cfg st (trAccount ref) (aeAllowAt ae) = (ok, st1)" by (rule prod.exhaust)
  have same: "obBudget st1 = obBudget st" "obSent st1 = obSent st" "obDrift st1 = obDrift st" "obStore st1 = obStore st"
    using allowFor_fields [of cfg st "trAccount ref" "aeAllowAt ae"] by (simp_all add: al)
  obtain adm st2 where re: "reserveFor st1 (trAccount ref) ae = (adm, st2)" by (rule prod.exhaust)
  have w: "windowKeyFor (aeReserveAt ae) (dbWindow (obBudget st1)) = k" using assms(1) same by simp
  have st2: "covered k a 0 st1 st2" "obSent st2 = obSent st1" "obDrift st2 = obDrift st1" "obStore st2 = obStore st1"
    using covered_reserve [OF w, of a "trAccount ref"] reserveFor_fields [of st1 "trAccount ref" ae]
    by (simp_all add: re)
  have used: "usedBy st2 k a = usedBy st1 k a + (if a = trAccount ref \<and> adm = Some True then 1 else 0)"
    using reserveFor_used [OF w, of "trAccount ref" a] by (simp add: re)
  have u1: "usedBy st1 k a = usedBy st k a" "sentBy st1 a = sentBy st a" "sentBy st2 a = sentBy st a"
    using same st2 by (simp_all add: usedBy_def sentBy_def)
  have c1: "covered k a 0 st st1" by (rule covered_same) (simp_all add: same)
  from covered_trans [OF c1 st2(1)] have c2: "covered k a 0 st st2" by simp
  have "admitRetry cfg ref ae st =
      (if aeCancelled ae then (st, Inl ErrCancelled) else if \<not> ok then (st1, Inr False)
       else (case adm of None \<Rightarrow> (st2, Inl ErrReserveRetryBudget) | Some b \<Rightarrow> (st2, Inr b)))"
    by (simp add: admitRetry_def al re split: option.splits)
  with assms(2) have "st' = st \<and> r = Inl ErrCancelled \<or> st' = st1 \<and> r = Inr False \<or>
      st' = st2 \<and> (r = Inr True \<longrightarrow> adm = Some True)"
    by (auto split: if_splits option.splits)
  then show ?thesis
    using c1 c2 used u1 same st2 covered_same [of st st k a 0] by auto
qed

lemma fetchOnce_covered:
  assumes "fetchOnce cfg ref ae st = (st', ok)"
  shows "covered k a (if a = trAccount ref then 1 else 0) st st' \<and> obDrift st' = obDrift st \<and> obStore st' = obStore st"
  using fetchOnce_touches [OF assms] by (simp add: covered_def withinLimit_def)

text \<open>One round of the loop: admission (a retry's only), then the fetch.\<close>

lemma round_covered:
  fixes attempt :: nat
  assumes w: "windowKeyFor (aeReserveAt ae) (dbWindow (obBudget st)) = k"
    and ad: "(if 0 < attempt then admitRetry cfg ref ae st else (st, Inr True)) = (st1, Inr True)"
    and fe: "fetchOnce cfg ref ae st1 = (st2, ok)"
  shows "covered k a (if attempt = 0 \<and> a = trAccount ref then 1 else 0) st st2 \<and>
    obDrift st2 = obDrift st \<and> obStore st2 = obStore st"
proof (cases "attempt = 0")
  case True
  with ad have "st1 = st" by simp
  with fetchOnce_covered [OF fe, of k a] True show ?thesis by simp
next
  case False
  with ad have "admitRetry cfg ref ae st = (st1, Inr True)" by simp
  from admitRetry_covered [OF w this, of a] have
    r: "covered k a 0 st st1" "obDrift st1 = obDrift st" "obStore st1 = obStore st"
    "sentBy st1 a + usedBy st k a + (if a = trAccount ref then 1 else 0) \<le> sentBy st a + usedBy st1 k a" by auto
  have f: "sentBy st2 a = sentBy st1 a + (if a = trAccount ref then 1 else 0)" "usedBy st2 k a = usedBy st1 k a"
    "obDrift st2 = obDrift st1" "obStore st2 = obStore st1" "dbWindow (obBudget st2) = dbWindow (obBudget st1)"
    "dbRequests (obBudget st2) = dbRequests (obBudget st1)"
    using fetchOnce_touches [OF fe, of a k] by simp_all
  have "covered k a 0 st st2"
    using r(1,4) f unfolding covered_def withinLimit_def by auto
  with r f False show ?thesis by simp
qed

lemma fetchFrom_covered:
  assumes "reservesIn (dbWindow (obBudget st)) k env"
    and "fetchFrom cfg ref env attempt prev st = (st', r)"
  shows "covered k a (if attempt = 0 \<and> a = trAccount ref then 1 else 0) st st' \<and>
    obDrift st' = obDrift st \<and> obStore st' = obStore st"
  using assms
proof (induction cfg ref env attempt prev st arbitrary: st' r rule: fetchFrom.induct)
  case (1 cfg ref env attempt prev st)
  let ?ad = "if 0 < attempt then admitRetry cfg ref (env attempt) st else (st, Inr True)"
  have w: "windowKeyFor (aeReserveAt (env attempt)) (dbWindow (obBudget st)) = k"
    using "1.prems"(1) by (simp add: reservesIn_def)
  obtain st1 x where ad: "?ad = (st1, x)" by (rule prod.exhaust)
  have st1: "covered k a 0 st st1 \<and> obDrift st1 = obDrift st \<and> obStore st1 = obStore st"
  proof (cases "0 < attempt")
    case True
    with ad have "admitRetry cfg ref (env attempt) st = (st1, x)" by simp
    from admitRetry_covered [OF w this, of a] show ?thesis by simp
  qed (use ad covered_same [of st st k a 0] in simp)
  show ?case
  proof (cases "x = Inr True")
    case False
    then have "st' = st1"
      using "1.prems"(2) ad by (auto simp: fetchFrom.simps [of cfg ref env attempt] split: sum.splits)
    with st1 covered_mono [of k a 0 st st1] show ?thesis by simp
  next
    case True
    obtain st2 ok where fe: "fetchOnce cfg ref (env attempt) st1 = (st2, ok)" by (rule prod.exhaust)
    from ad True have ad': "?ad = (st1, Inr True)" by simp
    have st2: "covered k a (if attempt = 0 \<and> a = trAccount ref then 1 else 0) st st2"
      "obDrift st2 = obDrift st" "obStore st2 = obStore st"
      using round_covered [OF w ad' fe, of a] by simp_all
    show ?thesis
    proof (cases "ok \<and> \<not> (\<not> aeFetchFails (env attempt) \<and> frSignal (aeResult (env attempt)) = SignalOK) \<and>
        transientFault (frSignal (aeResult (env attempt))) (aeFetchFails (env attempt)) \<and> int attempt < rcMaxRetries cfg")
      case more: True
      then have rec: "fetchFrom cfg ref env (attempt + 1) (aeResult (env attempt)) st2 = (st', r)"
        using "1.prems"(2) ad' fe by (auto simp: fetchFrom.simps [of cfg ref env attempt] Let_def split: if_splits)
      have "reservesIn (dbWindow (obBudget st2)) k env"
        using "1.prems"(1) st2(1) by (simp add: covered_def)
      from "1.IH" [OF ad' [symmetric] refl refl fe [symmetric] _ refl _ _ this rec] more
      have "covered k a 0 st2 st' \<and> obDrift st' = obDrift st2 \<and> obStore st' = obStore st2" by auto
      with st2 covered_trans [OF st2(1), of 0 st'] show ?thesis by simp
    next
      case False
      then have "st' = st2"
        using "1.prems"(2) ad' fe
        by (auto simp: fetchFrom.simps [of cfg ref env attempt] Let_def split: if_splits bool.splits)
      with st2 show ?thesis by simp
    qed
  qed
qed

lemma driftStop_same:
  "driftStop te keys ref reason st = (st', r) \<Longrightarrow>
     obSent st' = obSent st \<and> obBudget st' = obBudget st \<and> obDrift st' = obDrift st \<and>
     obBreakers st' = obBreakers st \<and> odObservations (obStore st') = odObservations (obStore st)"
  by (auto simp: driftStop_def Let_def downgradeCurrentForDrift_def split: if_splits)

lemma driftVerdict_same:
  "driftVerdict cfg te keys ref reason g st = (st', r) \<Longrightarrow>
     obSent st' = obSent st \<and> obBudget st' = obBudget st \<and> obDrift st' = g \<and>
     odObservations (obStore st') = odObservations (obStore st)"
  by (auto simp: driftVerdict_def touches dest!: driftStop_same)

lemma acceptBody_same:
  "acceptBody ex cfg te keys ref body st = (st', r) \<Longrightarrow> obSent st' = obSent st \<and> obBudget st' = obBudget st"
  by (auto simp: acceptBody_def Let_def split: sum.splits prod.splits if_splits dest!: driftVerdict_same)

text \<open>How a call of \<open>observeTarget\<close> ends: stopped before the fetch, or with what the fetch returned.\<close>

definition startFetch :: "fetch_result" where
  "startFetch = \<lparr>frBody = [], frBytes = 0, frSignal = SignalOK\<rparr>"

lemma observeTarget_cases:
  assumes "observeTarget ex cfg te keys snap ref st = (st', r)"
  obtains (blocked) "blocked snap (trAccount ref) (trTargetID ref)" "st' = st" "r = Inr (skipOutcome SkipKillSwitch)"
    | (paused) "\<not> extracting (obDrift st)" "driftStop te keys ref SkipDriftPaused st = (st', r)"
    | (shut) st1 where "extracting (obDrift st)" "allowFor cfg st (trAccount ref) (aeAllowAt (teAttempts te 0)) = (False, st1)"
        "st' = st1" "r = Inr (skipOutcome SkipBreakerOpen)"
    | (denied) st1 adm where "extracting (obDrift st)"
        "allowFor cfg st (trAccount ref) (aeAllowAt (teAttempts te 0)) = (True, st1)"
        "reserveFor st1 (trAccount ref) (teAttempts te 0) = (adm, st')"
        "adm \<noteq> Some True \<or> teAcquireFails te"
    | (failed) st1 st2 e where "extracting (obDrift st)"
        "allowFor cfg st (trAccount ref) (aeAllowAt (teAttempts te 0)) = (True, st1)"
        "reserveFor st1 (trAccount ref) (teAttempts te 0) = (Some True, st2)"
        "fetchFrom cfg ref (teAttempts te) 0 startFetch st2 = (st', Inl e)" "r = Inl e"
    | (fault) st1 st2 res where "extracting (obDrift st)"
        "allowFor cfg st (trAccount ref) (aeAllowAt (teAttempts te 0)) = (True, st1)"
        "reserveFor st1 (trAccount ref) (teAttempts te 0) = (Some True, st2)"
        "fetchFrom cfg ref (teAttempts te) 0 startFetch st2 = (st', Inr res)" "frSignal res \<noteq> SignalOK"
        "r = Inr ((skipOutcome SkipFetchSignal)\<lparr>ooSignal := frSignal res\<rparr>)"
    | (fetched) st1 st2 st3 res where "\<not> blocked snap (trAccount ref) (trTargetID ref)" "extracting (obDrift st)"
        "allowFor cfg st (trAccount ref) (aeAllowAt (teAttempts te 0)) = (True, st1)"
        "reserveFor st1 (trAccount ref) (teAttempts te 0) = (Some True, st2)"
        "fetchFrom cfg ref (teAttempts te) 0 startFetch st2 = (st3, Inr res)" "frSignal res = SignalOK"
        "acceptBody ex cfg te keys ref (frBody res) st3 = (st', r)"
proof (cases "blocked snap (trAccount ref) (trTargetID ref)")
  case True
  with assms show thesis by (intro blocked) (auto simp: observeTarget_def)
next
  case clear: False
  show thesis
  proof (cases "extracting (obDrift st)")
    case False
    with clear assms show thesis by (intro paused) (auto simp: observeTarget_def)
  next
    case ex: True
    obtain ok st1 where al: "allowFor cfg st (trAccount ref) (aeAllowAt (teAttempts te 0)) = (ok, st1)"
      by (rule prod.exhaust)
    obtain adm st2 where re: "reserveFor st1 (trAccount ref) (teAttempts te 0) = (adm, st2)"
      by (rule prod.exhaust)
    obtain st3 x where fe: "fetchFrom cfg ref (teAttempts te) 0 startFetch st2 = (st3, x)"
      by (rule prod.exhaust)
    have eq: "observeTarget ex cfg te keys snap ref st =
      (if \<not> ok then (st1, Inr (skipOutcome SkipBreakerOpen))
       else (case adm of None \<Rightarrow> (st2, Inl ErrReserveBudget)
         | Some a \<Rightarrow> if \<not> a then (st2, Inr (skipOutcome SkipBudget))
             else if teAcquireFails te then (st2, Inl ErrAcquireSlot)
             else (case x of Inl e \<Rightarrow> (st3, Inl e)
               | Inr res \<Rightarrow> if frSignal res \<noteq> SignalOK
                   then (st3, Inr ((skipOutcome SkipFetchSignal)\<lparr>ooSignal := frSignal res\<rparr>))
                   else acceptBody ex cfg te keys ref (frBody res) st3)))"
      using clear ex by (simp add: observeTarget_def Let_def al re fe [unfolded startFetch_def] split: option.splits sum.splits)
    show thesis
    proof (cases "ok")
      case False
      with eq assms al ex show thesis by (intro shut) simp_all
    next
      case ok: True
      show thesis
      proof (cases "adm = Some True \<and> \<not> teAcquireFails te")
        case False
        then have "st' = st2" using eq assms ok by (auto split: option.splits if_splits)
        with False al re ok ex show thesis by (intro denied) auto
      next
        case True
        with eq assms ok have e: "(case x of Inl e \<Rightarrow> (st3, Inl e)
               | Inr res \<Rightarrow> if frSignal res \<noteq> SignalOK
                   then (st3, Inr ((skipOutcome SkipFetchSignal)\<lparr>ooSignal := frSignal res\<rparr>))
                   else acceptBody ex cfg te keys ref (frBody res) st3) = (st', r)" by simp
        show thesis
        proof (cases x)
          case (Inl err)
          with e fe re al True ok ex show thesis by (intro failed) auto
        next
          case (Inr res)
          show thesis
          proof (cases "frSignal res = SignalOK")
            case True
            with e Inr have "acceptBody ex cfg te keys ref (frBody res) st3 = (st', r)" by simp
            with fe re al \<open>adm = Some True \<and> \<not> teAcquireFails te\<close> ok ex clear Inr True show thesis
              by (intro fetched) auto
          next
            case False
            with e Inr fe re al \<open>adm = Some True \<and> \<not> teAcquireFails te\<close> ok ex show thesis
              by (intro fault) auto
          qed
        qed
      qed
    qed
  qed
qed

lemma observeTarget_covered:
  assumes "reservesIn (dbWindow (obBudget st)) k (teAttempts te)"
    and "observeTarget ex cfg te keys snap ref st = (st', r)"
  shows "covered k a 0 st st'"
proof -
  let ?ae = "teAttempts te 0" and ?acct = "trAccount ref"
  have al: "obBudget st1 = obBudget st \<and> obSent st1 = obSent st" if "allowFor cfg st ?acct (aeAllowAt ?ae) = (ok, st1)" for ok st1
    using allowFor_fields [of cfg st ?acct "aeAllowAt ?ae"] that by simp
  have w: "windowKeyFor (aeReserveAt ?ae) (dbWindow (obBudget st)) = k" using assms(1) by (simp add: reservesIn_def)
  have re: "covered k a 0 st st2 \<and> obBudget st1 = obBudget st"
    if "allowFor cfg st ?acct (aeAllowAt ?ae) = (ok, st1)" "reserveFor st1 ?acct ?ae = (adm, st2)" for ok st1 adm st2
  proof -
    from al [OF that(1)] have st1: "obBudget st1 = obBudget st" "obSent st1 = obSent st" by simp_all
    have "covered k a 0 st1 st2" using covered_reserve [of ?ae st1 k a ?acct] w st1 that(2) by simp
    moreover have "covered k a 0 st st1" using st1 by (simp add: covered_same)
    ultimately have "covered k a (0 + 0) st st2" by (rule covered_trans [rotated])
    with st1 show ?thesis by simp
  qed
  have fe: "covered k a 0 st st3"
    if "allowFor cfg st ?acct (aeAllowAt ?ae) = (True, st1)" "reserveFor st1 ?acct ?ae = (Some True, st2)"
      "fetchFrom cfg ref (teAttempts te) 0 startFetch st2 = (st3, x)" for st1 st2 st3 x
  proof -
    from re [OF that(1,2)] have c2: "covered k a 0 st st2" and b1: "obBudget st1 = obBudget st" by simp_all
    have "usedBy st2 k a = usedBy st1 k a + (if a = ?acct then 1 else 0)"
      using reserveFor_used [of ?ae st1 k ?acct a] w b1 that(2) by simp
    moreover have "sentBy st2 a = sentBy st a"
      using al [OF that(1)] reserveFor_fields(3) [of st1 ?acct ?ae] that(2) by (simp add: sentBy_def)
    moreover have "usedBy st1 k a = usedBy st k a" using b1 by (simp add: usedBy_def)
    moreover have "covered k a (if a = ?acct then 1 else 0) st2 st3"
      using fetchFrom_covered [of st2 k "teAttempts te" cfg ref 0, OF _ that(3), of a] assms(1) c2
      by (simp add: covered_def)
    ultimately show ?thesis using c2 unfolding covered_def by (auto split: if_splits)
  qed
  from assms(2) show ?thesis
  proof (cases rule: observeTarget_cases)
    case blocked
    then show ?thesis by (simp add: covered_same)
  next
    case paused
    from driftStop_same [OF paused(2)] show ?thesis by (simp add: covered_same)
  next
    case (shut st1)
    from al [OF shut(2)] shut(3) show ?thesis by (simp add: covered_same)
  next
    case (denied st1 adm)
    from re [OF denied(2,3)] show ?thesis by simp
  next
    case (failed st1 st2 e)
    from fe [OF failed(2,3,4)] show ?thesis .
  next
    case (fault st1 st2 res)
    from fe [OF fault(2,3,4)] show ?thesis .
  next
    case (fetched st1 st2 st3 res)
    from acceptBody_same [OF fetched(7)] have "covered k a 0 st3 st'" by (simp add: covered_same)
    from covered_trans [OF fe [OF fetched(3,4,5)] this] show ?thesis by simp
  qed
qed

text \<open>Any number of calls, of any targets and accounts, with what the outside answers to each.\<close>

type_synonym observe_call = "target_env \<times> (uuid \<times> utext) list \<times> snapshot \<times> target_ref"

definition observeMany :: "externals \<Rightarrow> route_config \<Rightarrow> observe_call list \<Rightarrow> observer \<Rightarrow> observer" where
  "observeMany ex cfg calls st =
     foldl (\<lambda>st (te, keys, snap, ref). fst (observeTarget ex cfg te keys snap ref st)) st calls"

lemma observeMany_covered:
  assumes "\<forall>c \<in> set calls. reservesIn (dbWindow (obBudget st)) k (teAttempts (fst c))"
  shows "covered k a 0 st (observeMany ex cfg calls st)"
  using assms
proof (induction calls arbitrary: st)
  case Nil
  then show ?case by (simp add: observeMany_def covered_same)
next
  case (Cons c calls)
  obtain te keys snap ref where c: "c = (te, keys, snap, ref)" by (cases c) auto
  obtain st1 r where o: "observeTarget ex cfg te keys snap ref st = (st1, r)" by (rule prod.exhaust)
  have st1: "covered k a 0 st st1" using Cons.prems c o by (intro observeTarget_covered) auto
  then have "\<forall>c \<in> set calls. reservesIn (dbWindow (obBudget st1)) k (teAttempts (fst c))"
    using Cons.prems by (simp add: covered_def)
  from covered_trans [OF st1 Cons.IH [OF this]] show ?case by (simp add: observeMany_def c o)
qed

text \<open>A half-open breaker nobody reports to stays half-open, and its account is sent nothing.\<close>

definition shutOut :: "route_config \<Rightarrow> observer \<Rightarrow> uuid \<Rightarrow> bool" where
  "shutOut cfg st a \<longleftrightarrow> brState (getBreaker cfg st a) = BreakerHalfOpen"

lemma shutOut_allow: "shutOut cfg st a \<Longrightarrow> fst (allowFor cfg st a t) = False \<and> shutOut cfg (snd (allowFor cfg st a t)) a"
  by (auto simp: shutOut_def allowFor_def allow_def putBreaker_def getBreaker_def split: prod.splits)

lemma getBreaker_put: "getBreaker cfg (putBreaker st a b) a' = (if a' = a then b else getBreaker cfg st a')"
  by (simp add: getBreaker_def putBreaker_def)

lemma getBreaker_cong: "obBreakers st' = obBreakers st \<Longrightarrow> getBreaker cfg st' a = getBreaker cfg st a"
  by (simp add: getBreaker_def)

lemma allowFor_other: "a \<noteq> b \<Longrightarrow> allowFor cfg st b t = (ok, st') \<Longrightarrow> getBreaker cfg st' a = getBreaker cfg st a"
  by (auto simp: allowFor_def getBreaker_put split: prod.splits)

lemma observeFor_other: "a \<noteq> b \<Longrightarrow> getBreaker cfg (observeFor cfg st b s t) a = getBreaker cfg st a"
  by (simp add: observeFor_def getBreaker_put)

lemma reserveFor_breaker: "reserveFor st b ae = (r, st') \<Longrightarrow> getBreaker cfg st' a = getBreaker cfg st a"
  using reserveFor_fields(4) [of st b ae] by (simp add: getBreaker_def)

lemma fetchOnce_other:
  "a \<noteq> trAccount ref \<Longrightarrow> fetchOnce cfg ref ae st = (st', ok) \<Longrightarrow> getBreaker cfg st' a = getBreaker cfg st a"
  by (auto simp: fetchOnce_def Let_def observeFor_other getBreaker_def [of cfg "_\<lparr>obSent := _\<rparr>"]
      getBreaker_def [of cfg "_\<lparr>obBudget := _\<rparr>"] getBreaker_def [of cfg st] split: if_splits)

lemma admitRetry_other:
  assumes "a \<noteq> trAccount ref" and "admitRetry cfg ref ae st = (st', x)"
  shows "getBreaker cfg st' a = getBreaker cfg st a"
proof -
  obtain ok st1 where al: "allowFor cfg st (trAccount ref) (aeAllowAt ae) = (ok, st1)" by (rule prod.exhaust)
  obtain adm st2 where re: "reserveFor st1 (trAccount ref) ae = (adm, st2)" by (rule prod.exhaust)
  have "st' = st \<or> st' = st1 \<or> st' = st2"
    using assms(2) by (auto simp: admitRetry_def al re split: if_splits option.splits)
  then show ?thesis using allowFor_other [OF assms(1) al] reserveFor_breaker [OF re, of cfg a] by auto
qed

lemma fetchFrom_invariant:
  assumes "\<And>n s s' x. admitRetry cfg ref (env n) s = (s', x) \<Longrightarrow> I s \<Longrightarrow> I s'"
    and "\<And>n s s' ok. fetchOnce cfg ref (env n) s = (s', ok) \<Longrightarrow> I s \<Longrightarrow> I s'"
    and "I st" and "fetchFrom cfg ref env attempt prev st = (st', r)"
  shows "I st'"
  using assms
proof (induction cfg ref env attempt prev st arbitrary: st' r rule: fetchFrom.induct)
  case (1 cfg ref env attempt prev st)
  let ?ad = "if 0 < attempt then admitRetry cfg ref (env attempt) st else (st, Inr True)"
  obtain st1 x where ad: "?ad = (st1, x)" by (rule prod.exhaust)
  have st1: "I st1" using ad "1.prems"(1,3) by (cases "0 < attempt") auto
  obtain st2 ok where fe: "fetchOnce cfg ref (env attempt) st1 = (st2, ok)" by (rule prod.exhaust)
  have st2: "I st2" using "1.prems"(2) fe st1 by blast
  show ?case
  proof (cases "x = Inr True \<and> ok \<and> \<not> (\<not> aeFetchFails (env attempt) \<and> frSignal (aeResult (env attempt)) = SignalOK) \<and>
      transientFault (frSignal (aeResult (env attempt))) (aeFetchFails (env attempt)) \<and> int attempt < rcMaxRetries cfg")
    case True
    with ad have ad': "?ad = (st1, Inr True)" by simp
    have rec: "fetchFrom cfg ref env (attempt + 1) (aeResult (env attempt)) st2 = (st', r)"
      using "1.prems"(4) ad' fe True by (auto simp: fetchFrom.simps [of cfg ref env attempt] Let_def split: if_splits)
    from True have c: "\<not> (\<not> aeFetchFails (env attempt) \<and> frSignal (aeResult (env attempt)) = SignalOK)"
      "\<not> (\<not> transientFault (frSignal (aeResult (env attempt))) (aeFetchFails (env attempt)) \<or>
          rcMaxRetries cfg \<le> int attempt)" by auto
    from fe True have fe': "(st2, True) = fetchOnce cfg ref (env attempt) st1" by simp
    show ?thesis
      by (rule "1.IH" [OF ad' [symmetric] refl refl fe' refl refl c(1,2) _ _ st2 rec]) (fact "1.prems"(1,2))+
  next
    case False
    then have "st' = st1 \<or> st' = st2"
      using "1.prems"(4) ad fe
      by (auto simp: fetchFrom.simps [of cfg ref env attempt] Let_def split: if_splits bool.splits sum.splits)
    with st1 st2 show ?thesis by auto
  qed
qed

lemma fetchFrom_other:
  assumes "a \<noteq> trAccount ref" and "fetchFrom cfg ref env attempt prev st = (st', r)"
  shows "getBreaker cfg st' a = getBreaker cfg st a"
  by (rule fetchFrom_invariant [OF _ _ _ assms(2)])
    (auto simp: admitRetry_other [OF assms(1)] fetchOnce_other [OF assms(1)])

lemma acceptBody_other:
  "a \<noteq> trAccount ref \<Longrightarrow> acceptBody ex cfg te keys ref body st = (st', r) \<Longrightarrow>
     getBreaker cfg st' a = getBreaker cfg st a"
proof -
  assume a: "a \<noteq> trAccount ref" and acc: "acceptBody ex cfg te keys ref body st = (st', r)"
  have v: "getBreaker cfg s' a = getBreaker cfg st a" if "driftVerdict cfg te keys ref reason g st = (s', x)" for reason g s' x
  proof -
    from that have "obBreakers s' = obBreakers (observeFor cfg (st\<lparr>obDrift := g\<rparr>) (trAccount ref) SignalDrift (teDriftAt te))"
      unfolding driftVerdict_def by (blast dest: driftStop_same)
    then have "getBreaker cfg s' a = getBreaker cfg (st\<lparr>obDrift := g\<rparr>) a"
      using observeFor_other [OF a, of cfg "st\<lparr>obDrift := g\<rparr>" SignalDrift "teDriftAt te"] by (simp add: getBreaker_def)
    then show ?thesis by (simp add: getBreaker_def)
  qed
  from acc show ?thesis
    by (auto simp: acceptBody_def Let_def getBreaker_def [of cfg "_\<lparr>obStore := _\<rparr>"] getBreaker_def [of cfg st, symmetric]
        split: sum.splits prod.splits if_splits dest!: v)
qed

lemma observeTarget_other:
  assumes a: "a \<noteq> trAccount ref" and "observeTarget ex cfg te keys snap ref st = (st', r)"
  shows "getBreaker cfg st' a = getBreaker cfg st a"
  using assms(2)
proof (cases rule: observeTarget_cases)
  case paused
  from driftStop_same [OF paused(2)] show ?thesis by (simp add: getBreaker_def)
next
  case (shut st1)
  with allowFor_other [OF a shut(2)] show ?thesis by simp
next
  case (denied st1 adm)
  with allowFor_other [OF a denied(2)] reserveFor_breaker [OF denied(3), of cfg a] show ?thesis by simp
next
  case (failed st1 st2 e)
  with allowFor_other [OF a failed(2)] reserveFor_breaker [OF failed(3), of cfg a] fetchFrom_other [OF a failed(4)]
  show ?thesis by simp
next
  case (fault st1 st2 res)
  with allowFor_other [OF a fault(2)] reserveFor_breaker [OF fault(3), of cfg a] fetchFrom_other [OF a fault(4)]
  show ?thesis by simp
next
  case (fetched st1 st2 st3 res)
  with allowFor_other [OF a fetched(3)] reserveFor_breaker [OF fetched(4), of cfg a] fetchFrom_other [OF a fetched(5)]
    acceptBody_other [OF a fetched(7)]
  show ?thesis by simp
qed simp

lemma admitRetry_sent:
  assumes "admitRetry cfg ref ae st = (st', x)"
  shows "obSent st' = obSent st"
proof -
  obtain ok st1 where al: "allowFor cfg st (trAccount ref) (aeAllowAt ae) = (ok, st1)" by (rule prod.exhaust)
  obtain adm st2 where re: "reserveFor st1 (trAccount ref) ae = (adm, st2)" by (rule prod.exhaust)
  have "obSent st1 = obSent st" "obSent st2 = obSent st1"
    using allowFor_fields(4) [of cfg st "trAccount ref" "aeAllowAt ae"]
      reserveFor_fields(3) [of st1 "trAccount ref" ae] by (simp_all add: al re)
  moreover have "st' = st \<or> st' = st1 \<or> st' = st2"
    using assms by (auto simp: admitRetry_def al re split: if_splits option.splits)
  ultimately show ?thesis by auto
qed

lemma fetchFrom_sent_other:
  assumes "a \<noteq> trAccount ref" and "fetchFrom cfg ref env attempt prev st = (st', r)"
  shows "sentBy st' a = sentBy st a"
proof (rule fetchFrom_invariant [OF _ _ _ assms(2), where I = "\<lambda>s. sentBy s a = sentBy st a"])
  fix n s s' x
  assume "admitRetry cfg ref (env n) s = (s', x)" "sentBy s a = sentBy st a"
  then show "sentBy s' a = sentBy st a" using admitRetry_sent by (simp add: sentBy_def)
next
  fix n s s' ok
  assume "fetchOnce cfg ref (env n) s = (s', ok)" "sentBy s a = sentBy st a"
  then show "sentBy s' a = sentBy st a" using fetchOnce_touches [of cfg ref "env n" s s' ok a] assms(1) by simp
qed simp

lemma before_fetch_sent:
  assumes "allowFor cfg st b t = (ok, st1)" and "reserveFor st1 b ae = (adm, st2)"
  shows "sentBy st1 a = sentBy st a" "sentBy st2 a = sentBy st a"
  using allowFor_fields(4) [of cfg st b t] reserveFor_fields(3) [of st1 b ae] assms by (simp_all add: sentBy_def)

lemma observeTarget_sent_other:
  assumes a: "a \<noteq> trAccount ref" and "observeTarget ex cfg te keys snap ref st = (st', r)"
  shows "sentBy st' a = sentBy st a"
  using assms(2)
proof (cases rule: observeTarget_cases)
  case paused
  from driftStop_same [OF paused(2)] show ?thesis by (simp add: sentBy_def)
next
  case (shut st1)
  with allowFor_fields(4) [of cfg st "trAccount ref" "aeAllowAt (teAttempts te 0)"] show ?thesis by (simp add: sentBy_def)
next
  case (denied st1 adm)
  from before_fetch_sent [OF denied(2,3)] show ?thesis by simp
next
  case (failed st1 st2 e)
  from before_fetch_sent [OF failed(2,3)] fetchFrom_sent_other [OF a failed(4)] show ?thesis by simp
next
  case (fault st1 st2 res)
  from before_fetch_sent [OF fault(2,3)] fetchFrom_sent_other [OF a fault(4)] show ?thesis by simp
next
  case (fetched st1 st2 st3 res)
  from before_fetch_sent [OF fetched(3,4)] fetchFrom_sent_other [OF a fetched(5)] acceptBody_same [OF fetched(7)]
  show ?thesis by (simp add: sentBy_def)
qed simp

lemma shutOut_step:
  assumes "shutOut cfg st a" and "observeTarget ex cfg te keys snap ref st = (st', r)"
  shows "shutOut cfg st' a \<and> sentBy st' a = sentBy st a"
proof (cases "a = trAccount ref")
  case False
  with observeTarget_other [OF False assms(2)] observeTarget_sent_other [OF False assms(2)] assms(1)
  show ?thesis by (simp add: shutOut_def)
next
  case True
  have al: "ok = False \<and> shutOut cfg st1 a \<and> sentBy st1 a = sentBy st a"
    if "allowFor cfg st (trAccount ref) (aeAllowAt (teAttempts te 0)) = (ok, st1)" for ok st1
    using shutOut_allow [OF assms(1), of "aeAllowAt (teAttempts te 0)"] that
      allowFor_fields(4) [of cfg st a "aeAllowAt (teAttempts te 0)"] by (simp add: True sentBy_def)
  from assms(2) show ?thesis
  proof (cases rule: observeTarget_cases)
    case paused
    from driftStop_same [OF paused(2)] assms(1) show ?thesis by (simp add: sentBy_def shutOut_def getBreaker_def)
  next
    case (shut st1)
    with al [OF shut(2)] show ?thesis by simp
  qed (use al assms(1) in fastforce)+
qed

lemma observeMany_Cons:
  "observeMany ex cfg ((te, keys, snap, ref) # calls) st
     = observeMany ex cfg calls (fst (observeTarget ex cfg te keys snap ref st))"
  by (simp add: observeMany_def)

lemma shutOut_many:
  "shutOut cfg st a \<Longrightarrow> sentBy (observeMany ex cfg calls st) a = sentBy st a"
proof (induction calls arbitrary: st)
  case Nil
  then show ?case by (simp add: observeMany_def)
next
  case (Cons c calls)
  obtain te keys snap ref where c: "c = (te, keys, snap, ref)" by (cases c) auto
  obtain st1 r where o: "observeTarget ex cfg te keys snap ref st = (st1, r)" by (rule prod.exhaust)
  from shutOut_step [OF Cons.prems o] Cons.IH [of st1] show ?case by (simp add: c o observeMany_Cons)
qed

text \<open>While extraction is paused nothing is fetched and no evidence is added.\<close>

lemma paused_step:
  assumes "\<not> extracting (obDrift st)" and "observeTarget ex cfg te keys snap ref st = (st', r)"
  shows "obSent st' = obSent st \<and> obDrift st' = obDrift st \<and>
    odObservations (obStore st') = odObservations (obStore st) \<and> obBudget st' = obBudget st"
  using assms(2)
proof (cases rule: observeTarget_cases)
  case paused
  from driftStop_same [OF paused(2)] show ?thesis by simp
qed (use assms(1) in simp_all)

lemma paused_many:
  "\<not> extracting (obDrift st) \<Longrightarrow> obSent (observeMany ex cfg calls st) = obSent st \<and>
     odObservations (obStore (observeMany ex cfg calls st)) = odObservations (obStore st)"
proof (induction calls arbitrary: st)
  case Nil
  then show ?case by (simp add: observeMany_def)
next
  case (Cons c calls)
  obtain te keys snap ref where c: "c = (te, keys, snap, ref)" by (cases c) auto
  obtain st1 r where o: "observeTarget ex cfg te keys snap ref st = (st1, r)" by (rule prod.exhaust)
  from paused_step [OF Cons.prems o] Cons.IH [of st1] Cons.prems show ?case by (simp add: c o observeMany_Cons)
qed

section \<open>Evidence of a call\<close>

lemma ingest_rows:
  assumes "ingest cd reg db c now i = (db', r)"
  shows "\<exists>new. odObservations db' = odObservations db @ new \<and>
    (\<forall>row \<in> set new. obCapture row = c\<lparr>cpAccount := cpAccount (obCapture row)\<rparr>)"
  using assms
proof (cases rule: ingest_cases)
  case quiet
  then show ?thesis by (intro exI [of _ "[]"]) simp
next
  case (inserted t a res)
  from settle_observations [OF inserted(5)] show ?thesis
    by (intro exI [of _ "[ingestRow cd reg db c now i t]"]) (simp add: ingestRow_def Let_def)
qed

lemma ingestAll_rows:
  "ingestAll ex env i cs db = (db', r) \<Longrightarrow>
     \<exists>new. odObservations db' = odObservations db @ new \<and>
       (\<forall>row \<in> set new. \<exists>c \<in> set cs. obCapture row = c\<lparr>cpAccount := cpAccount (obCapture row)\<rparr>)"
proof (induction cs arbitrary: i db)
  case Nil
  then show ?case by simp
next
  case (Cons c cs)
  obtain db1 x where g: "ingest (exCodec ex) (exRegistry ex) db c (fst (env i)) (snd (env i)) = (db1, x)"
    by (rule prod.exhaust)
  from ingest_rows [OF g] obtain new1 where n1: "odObservations db1 = odObservations db @ new1"
    "\<forall>row \<in> set new1. obCapture row = c\<lparr>cpAccount := cpAccount (obCapture row)\<rparr>" by blast
  show ?case
  proof (cases x)
    case (Inl e)
    with Cons.prems g have "db' = db1" by (cases e) auto
    with n1 show ?thesis by auto
  next
    case (Inr y)
    with Cons.prems g have "ingestAll ex env (i + 1) cs db1 = (db', r)" by simp
    from Cons.IH [OF this] obtain new2 where "odObservations db' = odObservations db1 @ new2"
      "\<forall>row \<in> set new2. \<exists>c \<in> set cs. obCapture row = c\<lparr>cpAccount := cpAccount (obCapture row)\<rparr>" by blast
    with n1 show ?thesis by (intro exI [of _ "new1 @ new2"]) auto
  qed
qed

lemma buildCaptures_own:
  assumes "c \<in> set (buildCaptures ref now parsed)"
  shows "cpTargetID c = trTargetID ref \<and> cpNativeVariantID c = trNativeVariantID ref \<and> cpRoute c = RouteC \<and>
    (cpPrice c = emptyRaw \<and> cpAvailability c = TempUnavail \<or>
     (\<exists>off \<in> set (ppOffers parsed). poNativeVariantID off = trNativeVariantID ref \<and> cpPrice c = poPrice off
        \<and> cpAvailability c = poAvailability off))"
  using assms by (auto simp: buildCaptures_def baseCapture_def offerCapture_def Let_def split: if_splits)

lemma acceptBody_rows:
  assumes "acceptBody ex cfg te keys ref body st = (st', r)"
  shows "\<exists>new. odObservations (obStore st') = odObservations (obStore st) @ new \<and>
    (new = [] \<or> (\<exists>parsed. parseProductDetail (exDecode ex body) = Inr parsed \<and> crPassed (canary parsed) \<and>
       ppProductID parsed = trNativeProductID ref \<and>
       (\<forall>row \<in> set new. \<exists>c \<in> set (buildCaptures ref (teNow te) parsed).
          obCapture row = c\<lparr>cpAccount := cpAccount (obCapture row)\<rparr>)))"
proof (cases "\<exists>parsed. parseProductDetail (exDecode ex body) = Inr parsed \<and> crPassed (canary parsed) \<and>
       ppProductID parsed = trNativeProductID ref")
  case True
  then obtain parsed where p: "parseProductDetail (exDecode ex body) = Inr parsed" "crPassed (canary parsed)"
    "ppProductID parsed = trNativeProductID ref" by blast
  obtain db' x where g: "ingestAll ex (teIngest te) 0 (buildCaptures ref (teNow te) parsed) (obStore st) = (db', x)"
    by (rule prod.exhaust)
  have "obStore st' = db'" using assms p g by (auto simp: acceptBody_def Let_def split: sum.splits)
  with ingestAll_rows [OF g] p show ?thesis by blast
next
  case False
  then have "odObservations (obStore st') = odObservations (obStore st)"
    using assms by (auto simp: acceptBody_def Let_def split: sum.splits if_splits dest: driftVerdict_same)
  then show ?thesis by simp
qed

lemma fetchOnce_count: "fetchOnce cfg ref ae st = (st', ok) \<Longrightarrow> length (obSent st') = length (obSent st) + 1"
  by (auto simp: fetchOnce_def Let_def touches split: if_splits)

lemma fetchFrom_count:
  "fetchFrom cfg ref env attempt prev st = (st', r) \<Longrightarrow>
     length (obSent st') \<le> length (obSent st) + nat (rcMaxRetries cfg - int attempt) + 1"
proof (induction cfg ref env attempt prev st arbitrary: st' r rule: fetchFrom.induct)
  case (1 cfg ref env attempt prev st)
  let ?ad = "if 0 < attempt then admitRetry cfg ref (env attempt) st else (st, Inr True)"
  obtain st1 x where ad: "?ad = (st1, x)" by (rule prod.exhaust)
  have st1: "length (obSent st1) = length (obSent st)"
    using ad admitRetry_sent by (cases "0 < attempt") fastforce+
  obtain st2 ok where fe: "fetchOnce cfg ref (env attempt) st1 = (st2, ok)" by (rule prod.exhaust)
  have st2: "length (obSent st2) = length (obSent st) + 1" using fetchOnce_count [OF fe] st1 by simp
  show ?case
  proof (cases "x = Inr True \<and> ok \<and> \<not> (\<not> aeFetchFails (env attempt) \<and> frSignal (aeResult (env attempt)) = SignalOK) \<and>
      transientFault (frSignal (aeResult (env attempt))) (aeFetchFails (env attempt)) \<and> int attempt < rcMaxRetries cfg")
    case True
    with ad have ad': "?ad = (st1, Inr True)" by simp
    have rec: "fetchFrom cfg ref env (attempt + 1) (aeResult (env attempt)) st2 = (st', r)"
      using "1.prems" ad' fe True by (auto simp: fetchFrom.simps [of cfg ref env attempt] Let_def split: if_splits)
    from True have c: "\<not> (\<not> aeFetchFails (env attempt) \<and> frSignal (aeResult (env attempt)) = SignalOK)"
      "\<not> (\<not> transientFault (frSignal (aeResult (env attempt))) (aeFetchFails (env attempt)) \<or>
          rcMaxRetries cfg \<le> int attempt)" by auto
    from fe True have fe': "(st2, True) = fetchOnce cfg ref (env attempt) st1" by simp
    have "length (obSent st') \<le> length (obSent st2) + nat (rcMaxRetries cfg - int (attempt + 1)) + 1"
      by (rule "1.IH" [OF ad' [symmetric] refl refl fe' refl refl c rec])
    with st2 True show ?thesis by linarith
  next
    case False
    then have "st' = st1 \<or> st' = st2"
      using "1.prems" ad fe
      by (auto simp: fetchFrom.simps [of cfg ref env attempt] Let_def split: if_splits bool.splits sum.splits)
    with st1 st2 show ?thesis by auto
  qed
qed

lemma observeTarget_count:
  assumes "observeTarget ex cfg te keys snap ref st = (st', r)"
  shows "length (obSent st') \<le> length (obSent st) + nat (rcMaxRetries cfg) + 1"
proof -
  have b: "obSent st2 = obSent st" if "allowFor cfg st (trAccount ref) (aeAllowAt (teAttempts te 0)) = (ok, st1)"
    "reserveFor st1 (trAccount ref) (teAttempts te 0) = (adm, st2)" for ok st1 adm st2
    using allowFor_fields(4) [of cfg st "trAccount ref" "aeAllowAt (teAttempts te 0)"]
      reserveFor_fields(3) [of st1 "trAccount ref" "teAttempts te 0"] that by simp
  from assms show ?thesis
  proof (cases rule: observeTarget_cases)
    case paused
    from driftStop_same [OF paused(2)] show ?thesis by simp
  next
    case (shut st1)
    with allowFor_fields(4) [of cfg st "trAccount ref" "aeAllowAt (teAttempts te 0)"] show ?thesis by simp
  next
    case (denied st1 adm)
    from b [OF denied(2,3)] show ?thesis by simp
  next
    case (failed st1 st2 e)
    from b [OF failed(2,3)] fetchFrom_count [OF failed(4)] show ?thesis by simp
  next
    case (fault st1 st2 res)
    from b [OF fault(2,3)] fetchFrom_count [OF fault(4)] show ?thesis by simp
  next
    case (fetched st1 st2 st3 res)
    from b [OF fetched(3,4)] fetchFrom_count [OF fetched(5)] acceptBody_same [OF fetched(7)] show ?thesis by simp
  qed simp
qed

text \<open>The requests of a call, and of a sweep.\<close>

definition requestOf :: "target_ref \<Rightarrow> fetch_request" where
  "requestOf ref = \<lparr>fqURL = productURL (trNativeProductID ref), fqAccount = trAccount ref, fqTargetID = trTargetID ref\<rparr>"

definition sends :: "(fetch_request \<Rightarrow> bool) \<Rightarrow> observer \<Rightarrow> observer \<Rightarrow> bool" where
  "sends P st st' \<longleftrightarrow> (\<exists>new. obSent st' = obSent st @ new \<and> (\<forall>q \<in> set new. P q))"

lemma sends_refl: "obSent st' = obSent st \<Longrightarrow> sends P st st'"
  by (simp add: sends_def)

lemma sends_trans: "sends P st st1 \<Longrightarrow> sends P st1 st2 \<Longrightarrow> sends P st st2"
  by (auto simp: sends_def)

lemma sends_mono: "sends P st st' \<Longrightarrow> (\<And>q. P q \<Longrightarrow> Q q) \<Longrightarrow> sends Q st st'"
  by (auto simp: sends_def)

lemma fetchFrom_sends:
  assumes "fetchFrom cfg ref env attempt prev st = (st', r)"
  shows "sends (\<lambda>q. q = requestOf ref) st st'"
proof (rule fetchFrom_invariant [OF _ _ _ assms, where I = "sends (\<lambda>q. q = requestOf ref) st"])
  fix n s s' x
  assume a: "admitRetry cfg ref (env n) s = (s', x)" and s: "sends (\<lambda>q. q = requestOf ref) st s"
  from sends_trans [OF s sends_refl [OF admitRetry_sent [OF a]]] show "sends (\<lambda>q. q = requestOf ref) st s'" .
next
  fix n s s' ok
  assume a: "fetchOnce cfg ref (env n) s = (s', ok)" and s: "sends (\<lambda>q. q = requestOf ref) st s"
  from a have "obSent s' = obSent s @ [requestOf ref]"
    by (auto simp: fetchOnce_def Let_def touches requestOf_def split: if_splits)
  then have "sends (\<lambda>q. q = requestOf ref) s s'" by (simp add: sends_def)
  with s show "sends (\<lambda>q. q = requestOf ref) st s'" by (rule sends_trans)
qed (simp add: sends_def)

lemma observeTarget_sends:
  assumes "observeTarget ex cfg te keys snap ref st = (st', r)"
  shows "sends (\<lambda>q. q = requestOf ref \<and> \<not> blocked snap (fqAccount q) (fqTargetID q)) st st'"
proof (cases "blocked snap (trAccount ref) (trTargetID ref)")
  case True
  with assms have "st' = st" by (simp add: observeTarget_def Let_def)
  then show ?thesis by (simp add: sends_refl)
next
  case False
  have b: "obSent st2 = obSent st" if "allowFor cfg st (trAccount ref) (aeAllowAt (teAttempts te 0)) = (ok, st1)"
    "reserveFor st1 (trAccount ref) (teAttempts te 0) = (adm, st2)" for ok st1 adm st2
    using allowFor_fields(4) [of cfg st "trAccount ref" "aeAllowAt (teAttempts te 0)"]
      reserveFor_fields(3) [of st1 "trAccount ref" "teAttempts te 0"] that by simp
  have f: "sends (\<lambda>q. q = requestOf ref) st st3"
    if "allowFor cfg st (trAccount ref) (aeAllowAt (teAttempts te 0)) = (ok, st1)"
      "reserveFor st1 (trAccount ref) (teAttempts te 0) = (adm, st2)"
      "fetchFrom cfg ref (teAttempts te) 0 startFetch st2 = (st3, x)" for ok st1 adm st2 st3 x
    by (rule sends_trans [OF sends_refl [OF b [OF that(1,2)]] fetchFrom_sends [OF that(3)]])
  have "sends (\<lambda>q. q = requestOf ref) st st'"
    using assms
  proof (cases rule: observeTarget_cases)
    case blocked
    then show ?thesis by (simp add: sends_refl)
  next
    case paused
    from driftStop_same [OF paused(2)] show ?thesis by (simp add: sends_refl)
  next
    case (shut st1)
    with allowFor_fields(4) [of cfg st "trAccount ref" "aeAllowAt (teAttempts te 0)"] show ?thesis
      by (simp add: sends_refl)
  next
    case (denied st1 adm)
    from b [OF denied(2,3)] show ?thesis by (rule sends_refl)
  next
    case (failed st1 st2 e)
    show ?thesis by (rule f [OF failed(2,3,4)])
  next
    case (fault st1 st2 res)
    show ?thesis by (rule f [OF fault(2,3,4)])
  next
    case (fetched st1 st2 st3 res)
    from acceptBody_same [OF fetched(7)] have "sends (\<lambda>q. q = requestOf ref) st3 st'" by (simp add: sends_refl)
    with f [OF fetched(3,4,5)] show ?thesis by (rule sends_trans)
  qed
  then show ?thesis by (rule sends_mono) (use False in \<open>simp add: requestOf_def\<close>)
qed

text \<open>A request of a target in the list that no switch covers.\<close>

definition ownRequest :: "snapshot \<Rightarrow> target_ref list \<Rightarrow> fetch_request \<Rightarrow> bool" where
  "ownRequest snap ts q \<longleftrightarrow> \<not> blocked snap (fqAccount q) (fqTargetID q) \<and> (\<exists>t \<in> set ts. q = requestOf t)"

lemma observeIDs_sends:
  "\<forall>i \<in> set ids. \<exists>t \<in> set ts. byID i = Some t \<Longrightarrow>
     sends (ownRequest snap ts) st (fst (observeIDs ex cfg se snap byID ids (st, acc)))"
proof (induction ids arbitrary: st acc)
  case Nil
  then show ?case by (simp add: sends_refl)
next
  case (Cons i ids)
  obtain st1 r where o: "observeTarget ex cfg (seTarget se i) (seKeys se) snap (the (byID i)) st = (st1, r)"
    by (rule prod.exhaust)
  from Cons.prems have t: "the (byID i) \<in> set ts" by auto
  have "sends (ownRequest snap ts) st st1"
    by (rule sends_mono [OF observeTarget_sends [OF o]]) (use t in \<open>auto simp: ownRequest_def\<close>)
  then have "sends (ownRequest snap ts) st (fst (observeIDs ex cfg se snap byID ids (st1, acc')))" for acc'
    using Cons.IH [of st1 acc'] Cons.prems by (auto intro: sends_trans)
  then show ?case by (cases r) (simp_all add: o)
qed

lemma byID_found:
  "i \<in> trTargetID ` set refs \<Longrightarrow> \<exists>t \<in> set refs. map_of (rev (map (\<lambda>r. (trTargetID r, r)) refs)) i = Some t"
proof -
  let ?m = "rev (map (\<lambda>r. (trTargetID r, r)) refs)"
  assume "i \<in> trTargetID ` set refs"
  then have "i \<in> fst ` set ?m" by (simp add: image_image)
  then have "map_of ?m i \<noteq> None" by (simp only: map_of_eq_None_iff not_not)
  then obtain t where t: "map_of ?m i = Some t" by blast
  from map_of_SomeD [OF this] have "t \<in> set refs" by auto
  with t show ?thesis by blast
qed

lemma sweepAccount_sends:
  "sends (ownRequest snap ts) st (fst (sweepAccount ex cfg se snap tr ts a (st, acc)))"
proof (cases "seSnapshotAt se a")
  case None
  then show ?thesis by (simp add: sweepAccount_def Let_def sends_refl)
next
  case (Some at)
  let ?refs = "filter (\<lambda>r. trAccount r = a) ts"
  let ?plan = "planSweep tr (map trTargetID ?refs) (tierCountCap cfg tr) (fst (dbSnapshot (obBudget st) at a))
    (obCursors st (tr, a))"
  let ?byID = "map_of (rev (map (\<lambda>r. (trTargetID r, r)) ?refs))"
  have "set (spTargetIDs ?plan) \<subseteq> trTargetID ` set ?refs"
    using planSweep_targets [of tr "map trTargetID ?refs" "tierCountCap cfg tr"
      "fst (dbSnapshot (obBudget st) at a)" "obCursors st (tr, a)"] by simp
  then have "\<forall>i \<in> set (spTargetIDs ?plan). \<exists>t \<in> set ts. ?byID i = Some t"
    using byID_found [of _ ?refs] by fastforce
  from observeIDs_sends [OF this, of snap "st\<lparr>obCursors := (obCursors st)((tr, a) := spNextCursor ?plan)\<rparr>"]
  show ?thesis using Some by (simp add: sweepAccount_def Let_def sends_def)
qed

lemma sweepAccounts_sends:
  "sends (ownRequest snap ts) (fst s) (fst (foldl (\<lambda>s a. sweepAccount ex cfg se snap tr ts a s) s accounts))"
proof (induction accounts arbitrary: s)
  case Nil
  then show ?case by (simp add: sends_refl)
next
  case (Cons a accounts)
  have "sends (ownRequest snap ts) (fst s) (fst (sweepAccount ex cfg se snap tr ts a s))"
    using sweepAccount_sends [of snap ts "fst s" ex cfg se tr a "snd s"] by simp
  from sends_trans [OF this Cons.IH] show ?case by simp
qed

section \<open>Properties\<close>

text \<open>
  C10. Requests stay within the daily budget: over any calls of the observer, for any targets and accounts
  and whatever the fetches and the database answer, an account whose window is unused is sent at most
  its request limit of requests in that window, retries included.
\<close>

theorem requests_within_budget:
  assumes "\<forall>c \<in> set calls. reservesIn (dbWindow (obBudget st)) k (teAttempts (fst c))"
    and "dbUsage (obBudget st) (a, k) = None"
  shows "int (sentBy (observeMany ex cfg calls st) a) \<le> int (sentBy st a) + max 0 (dbRequests (obBudget st))"
proof -
  let ?st = "observeMany ex cfg calls st"
  have u: "usedBy st k a = 0" using assms(2) by (simp add: usedBy_def dbUsed_def)
  then have "withinLimit st k a" by (simp add: withinLimit_def)
  with observeMany_covered [OF assms(1), of a ex cfg] u
  have "sentBy ?st a \<le> sentBy st a + usedBy ?st k a" "int (usedBy ?st k a) \<le> max 0 (dbRequests (obBudget st))"
    by (auto simp: covered_def withinLimit_def)
  then show ?thesis by linarith
qed

definition witnessConfig :: route_config where
  "witnessConfig = \<lparr>rcMaxRetries = 1, rcBreaker = defaultBreakerConfig, rcMeasuredPriorityCap = 0\<rparr>"

definition witnessObserver :: "int \<Rightarrow> observer" where
  "witnessObserver limit = \<lparr>obBreakers = Map.empty, obBudget = newDBBudget limit 1000 hour,
     obDrift = DriftHealthy, obCursors = (\<lambda>_. 0), obStore = witnessStore, obSent = []\<rparr>"

definition witnessRef :: target_ref where
  "witnessRef = \<lparr>trAccount = 2, trTargetID = 1, trNativeVariantID = 7, trNativeProductID = 5, trTier = TierStandard\<rparr>"

definition witnessEnv :: "signal \<Rightarrow> bool \<Rightarrow> target_env" where
  "witnessEnv sig down = \<lparr>teAttempts = (\<lambda>_. \<lparr>aeCancelled = False, aeAllowAt = 60000000010, aeReserveAt = 60000000010,
     aeReserveFails = False, aeResult = \<lparr>frBody = [], frBytes = 9, frSignal = sig\<rparr>, aeFetchFails = False,
     aeConsumeAt = 60000000010, aeConsumeFails = False, aeObserveAt = 60000000010\<rparr>), teAcquireFails = False,
     teDriftAt = 60000000010, teDowngradeFails = down, teNow = 60000000010, teIngest = (\<lambda>_. (60000000010, 11))\<rparr>"

definition noStops :: snapshot where
  "noStops = \<lparr>snGlobal = False, snAccounts = {}, snTargets = {}\<rparr>"

definition witnessExternals :: externals where
  "witnessExternals = \<lparr>exDecode = (\<lambda>_. Some (witnessEnvelope [witnessVariant])), exCodec = witnessCodec,
     exRegistry = defaultParserRegistry\<rparr>"

theorem requests_within_budget_witness:
  "int (sentBy (observeMany witnessExternals witnessConfig
     [(witnessEnv SignalTransport False, [], noStops, witnessRef), (witnessEnv SignalOK False, [], noStops, witnessRef)]
     (witnessObserver 2)) 2) \<le> 2"
  using requests_within_budget [of
    "[(witnessEnv SignalTransport False, [], noStops, witnessRef), (witnessEnv SignalOK False, [], noStops, witnessRef)]"
    "witnessObserver 2" 0 2 witnessExternals witnessConfig]
  by (simp add: reservesIn_def witnessEnv_def witnessObserver_def newDBBudget_def normalizeWindow_def
      windowKeyFor_def sentBy_def)

text \<open>
  C37. One call of \<open>ObserveTarget\<close> ends after at most one fetch plus the configured retries, whatever the
  fetches answer.
\<close>

theorem fetches_bounded:
  "length (obSent (fst (observeTarget ex cfg te keys snap ref st)))
     \<le> length (obSent st) + nat (rcMaxRetries cfg) + 1"
  by (rule observeTarget_count [of _ _ _ _ _ _ _ _ "snd (observeTarget ex cfg te keys snap ref st)"]) simp

text \<open>
  Further. A probe that is admitted and then denied wedges the account: if the breaker is open and cooled
  down, and the call it admits ends before its fetch (budget exhausted, budget store error, or no
  concurrency slot), then no later call, whatever its clock and budget, sends the account another request.
\<close>

theorem denied_probe_wedges:
  assumes "\<not> blocked snap a (trTargetID ref)" and "extracting (obDrift st)" and "trAccount ref = a"
    and "brState (getBreaker cfg st a) = BreakerOpen"
    and "brCooldown (getBreaker cfg st a) \<le> aeAllowAt (teAttempts te 0) - brOpenedAt (getBreaker cfg st a)"
    and "aeReserveFails (teAttempts te 0) \<or> teAcquireFails te \<or>
      \<not> fst (dbReserve (obBudget st) (aeReserveAt (teAttempts te 0)) a)"
  shows "sentBy (observeMany ex cfg calls (fst (observeTarget ex cfg te keys snap ref st))) a = sentBy st a"
proof -
  obtain ok st1 where al: "allowFor cfg st a (aeAllowAt (teAttempts te 0)) = (ok, st1)" by (rule prod.exhaust)
  with assms(4,5) have ok: "ok" and so: "shutOut cfg st1 a"
    by (auto simp: allowFor_def allow_def shutOut_def getBreaker_put split: prod.splits)
  obtain adm st2 where re: "reserveFor st1 a (teAttempts te 0) = (adm, st2)" by (rule prod.exhaust)
  have b1: "obBudget st1 = obBudget st"
    using allowFor_fields(1) [of cfg st a "aeAllowAt (teAttempts te 0)"] al by simp
  have no: "adm \<noteq> Some True \<or> teAcquireFails te"
    using re assms(6) b1 by (auto simp: reserveFor_def split: if_splits prod.splits)
  have so2: "shutOut cfg st2 a" using so reserveFor_breaker [OF re, of cfg a] by (simp add: shutOut_def)
  have s2: "sentBy st2 a = sentBy st a" by (rule before_fetch_sent(2) [OF al re])
  have "fst (observeTarget ex cfg te keys snap ref st) = st2"
    using assms(1-3) ok no by (auto simp: observeTarget_def Let_def al re split: option.splits)
  with shutOut_many [OF so2] s2 show ?thesis by simp
qed

theorem denied_probe_wedges_witness:
  "sentBy (observeMany witnessExternals witnessConfig [(witnessEnv SignalOK False, [], noStops, witnessRef)]
     (fst (observeTarget witnessExternals witnessConfig (witnessEnv SignalOK False) [] noStops witnessRef
       ((witnessObserver 0)\<lparr>obBreakers := [2 \<mapsto> openBreaker (newBreaker defaultBreakerConfig) Signal429 0]\<rparr>)))) 2 = 0"
  using denied_probe_wedges [of noStops 2 witnessRef
    "(witnessObserver 0)\<lparr>obBreakers := [2 \<mapsto> openBreaker (newBreaker defaultBreakerConfig) Signal429 0]\<rparr>"
    witnessConfig "witnessEnv SignalOK False" witnessExternals "[(witnessEnv SignalOK False, [], noStops, witnessRef)]" "[]"]
  by (simp add: blocked_def noStops_def extracting_def witnessObserver_def witnessRef_def getBreaker_def
      openBreaker_def newBreaker_def defaultBreakerConfig_def witnessEnv_def dbReserve_def
      reserveRequestBudget_def newDBBudget_def sentBy_def)

text \<open>
  Further. A paused parser stays paused: once the drift guard is paused, no call of the observer, for any
  target, sends a request or adds evidence; only a recovery with green fixtures, a green canary and a
  manual sample together makes it extract again.
\<close>

theorem drift_pause_holds:
  assumes "\<not> extracting (obDrift st)"
  shows "obSent (observeMany ex cfg calls st) = obSent st \<and>
    odObservations (obStore (observeMany ex cfg calls st)) = odObservations (obStore st) \<and>
    (extracting (snd (recover (obDrift st) ev)) \<longleftrightarrow> reGreenFixtures ev \<and> reGreenCanary ev \<and> reManualSample ev)"
  using paused_many [OF assms] assms
  by (auto simp: extracting_def recover_def evidenceComplete_def split: drift_guard.splits)

theorem drift_pause_holds_witness:
  "obSent (observeMany witnessExternals witnessConfig [(witnessEnv SignalOK False, [], noStops, witnessRef)]
     ((witnessObserver 5)\<lparr>obDrift := DriftPaused (DriftParse InvalidJSON)\<rparr>)) = []"
  using drift_pause_holds [of "(witnessObserver 5)\<lparr>obDrift := DriftPaused (DriftParse InvalidJSON)\<rparr>"
      witnessExternals witnessConfig "[(witnessEnv SignalOK False, [], noStops, witnessRef)]"]
  by (simp add: extracting_def witnessObserver_def)

text \<open>Admission, reservation and fetching leave the store alone.\<close>

lemma fetch_keeps_store:
  assumes "allowFor cfg st (trAccount ref) (aeAllowAt (teAttempts te 0)) = (ok, st1)"
    "reserveFor st1 (trAccount ref) (teAttempts te 0) = (adm, st2)"
    "st3 = st2 \<or> fetchFrom cfg ref (teAttempts te) 0 startFetch st2 = (st3, x)"
  shows "obStore st3 = obStore st"
proof -
  have "obStore st2 = obStore st"
    using allowFor_fields(3) [of cfg st "trAccount ref" "aeAllowAt (teAttempts te 0)"]
      reserveFor_fields(2) [of st1 "trAccount ref" "teAttempts te 0"] assms by simp
  moreover have "obStore s' = obStore s2" if "fetchFrom cfg ref (teAttempts te) 0 startFetch s2 = (s', x)" for s2 s'
  proof (rule fetchFrom_invariant [OF _ _ _ that, where I = "\<lambda>s. obStore s = obStore s2"])
    fix n s s' x
    assume a: "admitRetry cfg ref (teAttempts te n) s = (s', x)" and "obStore s = obStore s2"
    with admitRetry_covered [OF refl a] show "obStore s' = obStore s2" by simp
  next
    fix n s s' ok
    assume a: "fetchOnce cfg ref (teAttempts te n) s = (s', ok)" and "obStore s = obStore s2"
    with fetchOnce_touches [OF a] show "obStore s' = obStore s2" by simp
  qed simp
  ultimately show ?thesis using assms(3) by auto
qed

lemma row_of_capture_own:
  assumes "\<exists>c \<in> set (buildCaptures ref now parsed). obCapture row = c\<lparr>cpAccount := cpAccount (obCapture row)\<rparr>"
  shows "cpTargetID (obCapture row) = trTargetID ref \<and>
    cpNativeVariantID (obCapture row) = trNativeVariantID ref \<and> cpRoute (obCapture row) = RouteC \<and>
    (cpPrice (obCapture row) = emptyRaw \<and> cpAvailability (obCapture row) = TempUnavail \<or>
     (\<exists>off \<in> set (ppOffers parsed). poNativeVariantID off = trNativeVariantID ref \<and>
        cpPrice (obCapture row) = poPrice off \<and> cpAvailability (obCapture row) = poAvailability off))"
proof -
  from assms obtain c where c: "c \<in> set (buildCaptures ref now parsed)"
    and row: "obCapture row = c\<lparr>cpAccount := cpAccount (obCapture row)\<rparr>" by blast
  have "cpTargetID (obCapture row) = cpTargetID c" "cpNativeVariantID (obCapture row) = cpNativeVariantID c"
    "cpRoute (obCapture row) = cpRoute c" "cpPrice (obCapture row) = cpPrice c"
    "cpAvailability (obCapture row) = cpAvailability c" by (subst row, simp)+
  with buildCaptures_own [OF c] show ?thesis by simp
qed

text \<open>
  C23. Evidence is the target's own: a call adds evidence rows only for the scheduled target and its
  variant on Route C, from a payload whose product is the target's and whose canary passed, and each
  row's price and availability are those of an offer of that variant in it, or no price and temporarily
  unavailable.
\<close>

theorem evidence_is_own_product:
  assumes "observeTarget ex cfg te keys snap ref st = (st', r)"
  shows "\<exists>new. odObservations (obStore st') = odObservations (obStore st) @ new \<and>
    (new = [] \<or>
     (\<exists>body parsed. parseProductDetail (exDecode ex body) = Inr parsed \<and> crPassed (canary parsed) \<and>
        ppProductID parsed = trNativeProductID ref \<and>
        (\<forall>row \<in> set new. cpTargetID (obCapture row) = trTargetID ref \<and>
           cpNativeVariantID (obCapture row) = trNativeVariantID ref \<and> cpRoute (obCapture row) = RouteC \<and>
           (cpPrice (obCapture row) = emptyRaw \<and> cpAvailability (obCapture row) = TempUnavail \<or>
            (\<exists>off \<in> set (ppOffers parsed). poNativeVariantID off = trNativeVariantID ref \<and>
               cpPrice (obCapture row) = poPrice off \<and> cpAvailability (obCapture row) = poAvailability off)))))"
proof -
  have same: "odObservations (obStore st') = odObservations (obStore st) \<Longrightarrow> ?thesis" by simp
  note fs = fetch_keeps_store
  from assms show ?thesis
  proof (cases rule: observeTarget_cases)
    case blocked
    then show ?thesis by (intro same) simp
  next
    case paused
    from driftStop_same [OF paused(2)] show ?thesis by (intro same) simp
  next
    case (shut st1)
    with allowFor_fields(3) [of cfg st "trAccount ref" "aeAllowAt (teAttempts te 0)"] show ?thesis
      by (intro same) simp
  next
    case (denied st1 adm)
    from fs [OF denied(2,3) disjI1 [OF refl]] show ?thesis by (intro same) simp
  next
    case (failed st1 st2 e)
    from fs [OF failed(2,3) disjI2 [OF failed(4)]] show ?thesis by (intro same) simp
  next
    case (fault st1 st2 res)
    from fs [OF fault(2,3) disjI2 [OF fault(4)]] show ?thesis by (intro same) simp
  next
    case (fetched st1 st2 st3 res)
    from fs [OF fetched(3,4) disjI2 [OF fetched(5)]] have "obStore st3 = obStore st" .
    with acceptBody_rows [OF fetched(7)] obtain new where n: "odObservations (obStore st') = odObservations (obStore st) @ new"
      "new = [] \<or> (\<exists>parsed. parseProductDetail (exDecode ex (frBody res)) = Inr parsed \<and> crPassed (canary parsed) \<and>
         ppProductID parsed = trNativeProductID ref \<and>
         (\<forall>row \<in> set new. \<exists>c \<in> set (buildCaptures ref (teNow te) parsed).
            obCapture row = c\<lparr>cpAccount := cpAccount (obCapture row)\<rparr>))" by auto
    show ?thesis using n row_of_capture_own by blast
  qed
qed

theorem evidence_is_own_product_witness:
  "\<exists>new. odObservations (obStore (fst (observeTarget witnessExternals witnessConfig (witnessEnv SignalOK False) []
     noStops witnessRef (witnessObserver 5)))) = odObservations witnessStore @ new \<and>
     (\<forall>row \<in> set new. cpTargetID (obCapture row) = 1)"
proof -
  from evidence_is_own_product [of witnessExternals witnessConfig "witnessEnv SignalOK False" "[]" noStops witnessRef
      "witnessObserver 5", OF surjective_pairing]
  show ?thesis by (auto simp: witnessObserver_def witnessRef_def)
qed

text \<open>
  Further. A sweep asks only for what it may: every request it sends is the product page of an active target
  of the tier that no engaged kill switch covers, globally, by account or by target.
\<close>

theorem sweep_requests_allowed:
  assumes "runSweep ex cfg se (Some rows) (Some ts) tr st = (st', s)"
  shows "\<exists>new. obSent st' = obSent st @ new \<and>
    (\<forall>q \<in> set new. \<not> blocked (loadSnapshot (dbEngaged rows)) (fqAccount q) (fqTargetID q) \<and>
       (\<exists>t \<in> set ts. q = \<lparr>fqURL = productURL (trNativeProductID t), fqAccount = trAccount t, fqTargetID = trTargetID t\<rparr>))"
proof -
  have "sends (ownRequest (loadSnapshot (dbEngaged rows)) ts) st st'"
    using assms sweepAccounts_sends [of "loadSnapshot (dbEngaged rows)" ts "(st, emptySummary)" ex cfg se tr "accountsOf ts"]
    by (auto simp: runSweep_def Let_def sends_refl split: if_splits prod.splits)
  then show ?thesis by (simp add: sends_def ownRequest_def requestOf_def)
qed

theorem sweep_requests_allowed_witness:
  "\<exists>new. obSent (fst (runSweep witnessExternals witnessConfig
       \<lparr>seSnapshotAt = (\<lambda>_. Some 60000000010), seTarget = (\<lambda>_. witnessEnv SignalOK False), seKeys = []\<rparr>
       (Some []) (Some [witnessRef]) TierStandard (witnessObserver 5))) = new \<and>
     (\<forall>q \<in> set new. fqAccount q = 2)"
proof -
  from sweep_requests_allowed [of witnessExternals witnessConfig
      "\<lparr>seSnapshotAt = (\<lambda>_. Some 60000000010), seTarget = (\<lambda>_. witnessEnv SignalOK False), seKeys = []\<rparr>"
      "[]" "[witnessRef]" TierStandard "witnessObserver 5", OF surjective_pairing]
  show ?thesis by (auto simp: witnessObserver_def witnessRef_def)
qed

end
