(* ===== verification/Recommendation.thy ===== *)
theory Recommendation
  imports PolicyApi Approval
begin

text \<open>
  The pure part of the recommendation package (services/core/internal/recommendation): optional
  fields with a reason (optional.go), the seven executable blockers (blockers.go), the assembly of a
  recommendation with its executable gate and the draft card behind it (recommendation.go), the
  policy re-check of an edited price (edit_recheck.go) and the aggregate of a bulk selection
  (bulk_preview.go).
\<close>

section \<open>Errors of the package\<close>

text \<open>\<open>RecSeamErr\<close> is an error of an injected dependency, \<open>RecDbErr\<close> a failed statement.\<close>

datatype rec_error =
  RecRejectedTransition | RecEditedPriceRejected | RecEntityMismatch | RecNotExecutable
| RecUnknownMember | RecAccountNotFound | RecLineageNotOwned | RecLimitAboveMax | RecInvalidCursor
| RecInputsUnavailable | RecNoRows | RecDbErr | RecCorruptEvidence | RecSeamErr string
| RecMoneyErr money_error | RecApprovalErr approval_error | RecPolicyErr "string policy_error"

section \<open>Optional values (optional.go)\<close>

datatype 'a optional = Present 'a | Unavailable string

fun isPresent :: "'a optional \<Rightarrow> bool" where
  "isPresent (Present v) = True"
| "isPresent (Unavailable r) = False"

fun optReason :: "'a optional \<Rightarrow> string" where
  "optReason (Present v) = []"
| "optReason (Unavailable r) = r"

fun optGet :: "'a optional \<Rightarrow> 'a option" where
  "optGet (Present v) = Some v"
| "optGet (Unavailable r) = None"

text \<open>A Go slice that may be nil, as its JSON form differs from that of an empty one.\<close>

type_synonym 'a slice = "'a list option"

definition elems :: "'a slice \<Rightarrow> 'a list" where
  "elems s = (case s of None \<Rightarrow> [] | Some xs \<Rightarrow> xs)"

definition appendSlice :: "'a slice \<Rightarrow> 'a \<Rightarrow> 'a slice" where
  "appendSlice s x = Some (elems s @ [x])"

lemma elems_simps [simp]: "elems None = []" "elems (Some xs) = xs" "elems (appendSlice s x) = elems s @ [x]"
  by (simp_all add: elems_def appendSlice_def)

section \<open>Inputs and the assembled record (recommendation.go)\<close>

record rec_range =
  rgMin :: money
  rgMax :: money

record rec_evidence =
  reQuality :: string
  reRefs :: "string list"
  reObservationID :: uuid
  reAsOf :: instant

record assemble_input =
  aiAccountID :: uuid
  aiVariantID :: uuid
  aiEventID :: uuid
  aiObjective :: objective
  aiCurrentPrice :: money
  aiCurrentContribution :: money
  aiContribution :: contribution
  aiPolicy :: policy_result
  aiBoundary :: boundary
  aiEvidence :: rec_evidence
  aiIdentityConfirmed :: bool
  aiMoneyUnitAmbiguous :: bool
  aiBoundaryKnown :: bool
  aiPermissionGranted :: bool
  aiReadiness :: readiness_state
  aiEvidenceQuality :: string
  aiAssumptions :: "string list"
  aiNow :: instant
  aiExpiry :: instant
  aiActionID :: uuid
  aiParameterVersion :: int64
  aiContextVersion :: int64
  aiPolicyVersion :: int64
  aiCostProfileVersion :: int64
  aiEvidenceVersions :: "(uuid, int64) fmap"
  aiSimulation :: bool

section \<open>The executable blockers (blockers.go)\<close>

datatype rec_blocker_code =
  BlockerUnconfirmedIdentity | BlockerIncompleteCost | BlockerAmbiguousMoneyUnit
| BlockerUnusableEvidence | BlockerUnknownBoundary | BlockerPermissionFailure | BlockerPolicyConflict

fun recBlockerText :: "rec_blocker_code \<Rightarrow> string" where
  "recBlockerText BlockerUnconfirmedIdentity = ''unconfirmed_identity''"
| "recBlockerText BlockerIncompleteCost = ''incomplete_cost''"
| "recBlockerText BlockerAmbiguousMoneyUnit = ''ambiguous_money_unit''"
| "recBlockerText BlockerUnusableEvidence = ''unusable_evidence''"
| "recBlockerText BlockerUnknownBoundary = ''unknown_boundary''"
| "recBlockerText BlockerPermissionFailure = ''permission_failure''"
| "recBlockerText BlockerPolicyConflict = ''policy_conflict''"

record rec_blocker =
  rbCode :: rec_blocker_code
  rbMessage :: string

definition blockerOrder :: "rec_blocker_code list" where
  "blockerOrder =
     [BlockerUnconfirmedIdentity, BlockerIncompleteCost, BlockerAmbiguousMoneyUnit,
      BlockerUnusableEvidence, BlockerUnknownBoundary, BlockerPermissionFailure,
      BlockerPolicyConflict]"

definition evidenceUsable :: "string \<Rightarrow> bool" where
  "evidenceUsable quality \<longleftrightarrow> quality = ''verified'' \<or> quality = ''supported''"

definition policyConflicted :: "policy_result \<Rightarrow> bool" where
  "policyConflicted r \<longleftrightarrow> 0 < length (prBlockers r) \<or> prProposed r = None"

text \<open>One turn of the loop: the blocker added for a code, if its condition holds.\<close>

definition detectOne :: "assemble_input \<Rightarrow> rec_blocker slice \<Rightarrow> rec_blocker_code \<Rightarrow> rec_blocker slice" where
  "detectOne inp out code =
     (let add = (\<lambda>msg. appendSlice out \<lparr>rbCode = code, rbMessage = msg\<rparr>) in
      case code of
        BlockerUnconfirmedIdentity \<Rightarrow>
          if \<not> aiIdentityConfirmed inp
          then add ''variant has no confirmed market product identity'' else out
      | BlockerIncompleteCost \<Rightarrow>
          if aiReadiness inp \<noteq> StateComplete
          then add ''margin readiness is not complete; cost is incomplete/stale'' else out
      | BlockerAmbiguousMoneyUnit \<Rightarrow>
          if aiMoneyUnitAmbiguous inp
          then add ''source money unit is ambiguous and was quarantined'' else out
      | BlockerUnusableEvidence \<Rightarrow>
          if \<not> evidenceUsable (aiEvidenceQuality inp)
          then add ''cited evidence quality is not usable for an executable number'' else out
      | BlockerUnknownBoundary \<Rightarrow>
          if \<not> aiBoundaryKnown inp
          then add ''marketplace price boundary is unknown'' else out
      | BlockerPermissionFailure \<Rightarrow>
          if \<not> aiPermissionGranted inp
          then add ''acting principal lacks approval permission'' else out
      | BlockerPolicyConflict \<Rightarrow>
          if policyConflicted (aiPolicy inp)
          then add ''policy engine produced a hard blocker'' else out)"

definition detectBlockers :: "assemble_input \<Rightarrow> rec_blocker slice" where
  "detectBlockers inp = foldl (detectOne inp) None blockerOrder"

section \<open>Assembly and the executable gate (recommendation.go)\<close>

record recommendation =
  rnAccountID :: uuid
  rnVariantID :: uuid
  rnEventID :: "uuid optional"
  rnObjective :: objective
  rnCurrentPrice :: money
  rnProposedPrice :: "money optional"
  rnCurrentContribution :: "money optional"
  rnProposedContribution :: "money optional"
  rnAllowedRange :: "rec_range optional"
  rnInputs :: "deduction list"
  rnEvidence :: rec_evidence
  rnAge :: "duration optional"
  rnQuality :: string
  rnReadiness :: readiness_state
  rnAssumptions :: "string list"
  rnBlockers :: "rec_blocker slice"
  rnExpiry :: "instant optional"
  rnSimulation :: bool
  rnBinding :: binding

fun policyCodeText :: "blocker_code \<Rightarrow> string" where
  "policyCodeText BlockerBoundaryUnknown = ''boundary_unknown''"
| "policyCodeText BlockerBoundaryInvalid = ''boundary_invalid''"
| "policyCodeText BlockerBelowFloor = ''contribution_below_floor''"
| "policyCodeText BlockerCrossesZero = ''contribution_crosses_zero''"
| "policyCodeText BlockerMovementInfeasible = ''movement_cap_infeasible''"
| "policyCodeText BlockerCooldownActive = ''cooldown_active''"
| "policyCodeText BlockerStrategyDisabled = ''strategy_disabled''"
| "policyCodeText BlockerObjectiveInfeasible = ''objective_infeasible''"

text \<open>\<open>Time.Sub\<close> saturates at the ends of the 64-bit duration; the zero time is instant 0.\<close>

definition timeSub :: "instant \<Rightarrow> instant \<Rightarrow> duration" where
  "timeSub t u = max (- 9223372036854775808) (min 9223372036854775807 (t - u))"

definition recApprovable :: "recommendation \<Rightarrow> bool" where
  "recApprovable r \<longleftrightarrow>
     \<not> rnSimulation r \<and> length (elems (rnBlockers r)) = 0 \<and> rnReadiness r = StateComplete \<and>
     isPresent (rnProposedPrice r)"

definition noProposalReason :: "policy_result \<Rightarrow> string" where
  "noProposalReason p =
     (case prBlockers p of
        [] \<Rightarrow> ''policy engine produced no proposal''
      | b # _ \<Rightarrow> ''policy blocked: '' @ policyCodeText (bkCode b))"

definition inputBinding :: "assemble_input \<Rightarrow> binding" where
  "inputBinding inp =
     \<lparr>bnActionID = aiActionID inp, bnParameterVersion = aiParameterVersion inp,
      bnContextVersion = aiContextVersion inp, bnPolicyVersion = aiPolicyVersion inp,
      bnCostProfileVersion = aiCostProfileVersion inp, bnEvidenceVersions = aiEvidenceVersions inp,
      bnExpiry = aiExpiry inp\<rparr>"

definition assembleBase :: "assemble_input \<Rightarrow> recommendation" where
  "assembleBase inp =
     \<lparr>rnAccountID = aiAccountID inp, rnVariantID = aiVariantID inp,
      rnEventID =
        (if aiEventID inp \<noteq> 0 then Present (aiEventID inp)
         else Unavailable ''recommendation is not driven by a market event''),
      rnObjective = aiObjective inp, rnCurrentPrice = aiCurrentPrice inp,
      rnProposedPrice =
        (case prProposed (aiPolicy inp) of
           Some p \<Rightarrow> Present (ppPrice p) | None \<Rightarrow> Unavailable (noProposalReason (aiPolicy inp))),
      rnCurrentContribution = Present (aiCurrentContribution inp),
      rnProposedContribution =
        (case prProposed (aiPolicy inp) of
           Some p \<Rightarrow> Present (ppContribution p) | None \<Rightarrow> Unavailable (noProposalReason (aiPolicy inp))),
      rnAllowedRange =
        (if aiBoundaryKnown inp \<and> bdKnown (aiBoundary inp)
         then Present \<lparr>rgMin = bdMin (aiBoundary inp), rgMax = bdMax (aiBoundary inp)\<rparr>
         else Unavailable ''marketplace price boundary is unknown''),
      rnInputs = cbDeductions (aiContribution inp), rnEvidence = aiEvidence inp,
      rnAge =
        (if reAsOf (aiEvidence inp) = 0 then Unavailable ''no evidence capture time recorded''
         else Present (timeSub (aiNow inp) (reAsOf (aiEvidence inp)))),
      rnQuality = aiEvidenceQuality inp, rnReadiness = aiReadiness inp,
      rnAssumptions = aiAssumptions inp, rnBlockers = detectBlockers inp,
      rnExpiry = Unavailable [], rnSimulation = aiSimulation inp, rnBinding = inputBinding inp\<rparr>"

definition assemble :: "assemble_input \<Rightarrow> recommendation" where
  "assemble inp =
     (let r = assembleBase inp in
      if recApprovable r then r\<lparr>rnExpiry := Present (aiExpiry inp)\<rparr>
      else r\<lparr>rnExpiry := Unavailable ''recommendation is not executable; no approval control''\<rparr>)"

definition buildBinding :: "recommendation \<Rightarrow> binding option" where
  "buildBinding r = (if \<not> recApprovable r then None else Some (rnBinding r))"

definition newDraftCard :: "recommendation \<Rightarrow> uuid \<Rightarrow> uuid \<Rightarrow> int64 \<Rightarrow> card option" where
  "newDraftCard r cardID recommendationID version =
     (case buildBinding r of
        None \<Rightarrow> None
      | Some b \<Rightarrow>
          (case optGet (rnProposedPrice r) of
             None \<Rightarrow> None
           | Some price \<Rightarrow> Some (newDraft cardID recommendationID version b price False)))"

section \<open>The re-check of an edited price (edit_recheck.go)\<close>

record policy_context =
  pxConfig :: config
  pxCurrentPrice :: money
  pxContribution :: "string contribution_func"
  pxLastActionAt :: "instant option"
  pxReadiness :: readiness_state

definition validateEditedValue :: "money \<Rightarrow> money \<Rightarrow> (rec_error, unit) result" where
  "validateEditedValue edited unt =
     (case isZero edited of
        Inl _ \<Rightarrow> Inl RecEditedPriceRejected
      | Inr z \<Rightarrow>
          if z then Inl RecEditedPriceRejected
          else if currency edited \<noteq> currency unt \<or> exponent edited \<noteq> exponent unt
          then Inl RecEditedPriceRejected
          else Inr ())"

definition evaluateEditedPrice :: "policy_context \<Rightarrow> instant \<Rightarrow> (rec_error, policy_result) result" where
  "evaluateEditedPrice pc now =
     mapErr RecPolicyErr
       (evaluate \<lparr>eiConfig = pxConfig pc, eiCurrentPrice = pxCurrentPrice pc,
                  eiContribution = pxContribution pc, eiNow = now, eiLastActionAt = pxLastActionAt pc,
                  eiReadiness = pxReadiness pc\<rparr>)"

definition admitsEditedPrice :: "policy_result \<Rightarrow> money \<Rightarrow> bool" where
  "admitsEditedPrice res edited \<longleftrightarrow>
     approvable res \<and>
     (case prProposed res of None \<Rightarrow> False | Some p \<Rightarrow> compareMoney (ppPrice p) edited = Inr 0)"

definition admitEditedPrice ::
  "policy_context \<Rightarrow> money \<Rightarrow> instant \<Rightarrow> (rec_error, policy_result \<times> bool) result" where
  "admitEditedPrice pc edited now =
     andThen (validateEditedValue edited (pxCurrentPrice pc)) (\<lambda>_.
     andThen (evaluateEditedPrice pc now) (\<lambda>res.
     Inr (res, admitsEditedPrice res edited)))"

section \<open>The aggregate of a selection (bulk_preview.go)\<close>

record member_contribution =
  mcAvailable :: bool
  mcMantissa :: int64
  mcCurrency :: string
  mcExponent :: int8

fun aggregateFrom ::
  "money option \<Rightarrow> member_contribution list \<Rightarrow> (rec_error, money option) result" where
  "aggregateFrom impact [] = Inr impact"
| "aggregateFrom impact (c # cs) =
     (if \<not> mcAvailable c then Inr None
      else
        (case newMoney (mcMantissa c) (mcCurrency c) (mcExponent c) of
           Inl e \<Rightarrow> Inl (RecMoneyErr e)
         | Inr contrib \<Rightarrow>
             (case impact of
                None \<Rightarrow> aggregateFrom (Some contrib) cs
              | Some sofar \<Rightarrow>
                  (case addMoney sofar contrib of
                     Inl _ \<Rightarrow> Inr None
                   | Inr summed \<Rightarrow> aggregateFrom (Some summed) cs))))"

definition aggregateContribution ::
  "member_contribution list \<Rightarrow> (rec_error, money option) result" where
  "aggregateContribution cs = aggregateFrom None cs"

section \<open>The gate\<close>

text \<open>What each blocker stands for, as a condition on the inputs.\<close>

fun blockerHolds :: "assemble_input \<Rightarrow> rec_blocker_code \<Rightarrow> bool" where
  "blockerHolds inp BlockerUnconfirmedIdentity = (\<not> aiIdentityConfirmed inp)"
| "blockerHolds inp BlockerIncompleteCost = (aiReadiness inp \<noteq> StateComplete)"
| "blockerHolds inp BlockerAmbiguousMoneyUnit = aiMoneyUnitAmbiguous inp"
| "blockerHolds inp BlockerUnusableEvidence = (\<not> evidenceUsable (aiEvidenceQuality inp))"
| "blockerHolds inp BlockerUnknownBoundary = (\<not> aiBoundaryKnown inp)"
| "blockerHolds inp BlockerPermissionFailure = (\<not> aiPermissionGranted inp)"
| "blockerHolds inp BlockerPolicyConflict = (prBlockers (aiPolicy inp) \<noteq> [] \<or> prProposed (aiPolicy inp) = None)"

lemma detectOne_codes:
  "map rbCode (elems (detectOne inp out code)) =
     map rbCode (elems out) @ (if blockerHolds inp code then [code] else [])"
  by (cases code) (simp_all add: detectOne_def Let_def policyConflicted_def)

lemma detect_fold_codes:
  "map rbCode (elems (foldl (detectOne inp) out codes)) =
     map rbCode (elems out) @ filter (blockerHolds inp) codes"
  by (induction codes arbitrary: out) (simp_all add: detectOne_codes)

lemma detectBlockers_codes: "map rbCode (elems (detectBlockers inp)) = filter (blockerHolds inp) blockerOrder"
  by (simp add: detectBlockers_def detect_fold_codes)

lemma detectOne_nil: "detectOne inp out code = None \<longleftrightarrow> out = None \<and> \<not> blockerHolds inp code"
  by (cases code) (auto simp: detectOne_def Let_def policyConflicted_def appendSlice_def)

lemma detect_fold_nil:
  "foldl (detectOne inp) out codes = None \<longleftrightarrow> out = None \<and> filter (blockerHolds inp) codes = []"
  by (induction codes arbitrary: out) (auto simp: detectOne_nil)

text \<open>The loop never makes an empty slice: without a blocker the slice stays nil.\<close>

lemma detectBlockers_nil: "detectBlockers inp = None \<longleftrightarrow> elems (detectBlockers inp) = []"
  using detectBlockers_codes [of inp]
  by (auto simp: detectBlockers_def detect_fold_nil)

lemma blockerOrder_all: "set blockerOrder = UNIV"
proof -
  have "c \<in> set blockerOrder" for c by (cases c) (simp_all add: blockerOrder_def)
  then show ?thesis by blast
qed

lemma no_blocker_iff:
  "(\<forall>c. \<not> blockerHolds inp c) \<longleftrightarrow>
     aiIdentityConfirmed inp \<and> aiReadiness inp = StateComplete \<and> \<not> aiMoneyUnitAmbiguous inp \<and>
     evidenceUsable (aiEvidenceQuality inp) \<and> aiBoundaryKnown inp \<and> aiPermissionGranted inp \<and>
     prBlockers (aiPolicy inp) = [] \<and> prProposed (aiPolicy inp) \<noteq> None"
proof -
  have "(\<forall>c. \<not> blockerHolds inp c) \<longleftrightarrow> list_all (\<lambda>c. \<not> blockerHolds inp c) blockerOrder"
    by (simp add: list_all_iff blockerOrder_all)
  then show ?thesis by (simp add: blockerOrder_def)
qed

lemma assemble_fields [simp]:
  "rnProposedPrice (assemble inp) = rnProposedPrice (assembleBase inp)"
  "rnBlockers (assemble inp) = detectBlockers inp" "rnReadiness (assemble inp) = aiReadiness inp"
  "rnSimulation (assemble inp) = aiSimulation inp" "rnBinding (assemble inp) = inputBinding inp"
  "rnAccountID (assemble inp) = aiAccountID inp" "rnVariantID (assemble inp) = aiVariantID inp"
  by (simp_all add: assemble_def assembleBase_def Let_def)

lemma assemble_approvable:
  "recApprovable (assemble inp) \<longleftrightarrow> \<not> aiSimulation inp \<and> (\<forall>c. \<not> blockerHolds inp c)"
proof -
  have "elems (detectBlockers inp) = [] \<longleftrightarrow> (\<forall>c. \<not> blockerHolds inp c)"
    using detectBlockers_codes [of inp] blockerOrder_all
    by (metis (no_types, lifting) UNIV_I filter_empty_conv list.map_disc_iff)
  moreover have "isPresent (rnProposedPrice (assembleBase inp)) \<longleftrightarrow> prProposed (aiPolicy inp) \<noteq> None"
    by (simp add: assembleBase_def split: option.splits)
  moreover have "(\<forall>c. \<not> blockerHolds inp c) \<Longrightarrow> aiReadiness inp = StateComplete \<and> prProposed (aiPolicy inp) \<noteq> None"
    by (simp add: no_blocker_iff)
  ultimately show ?thesis by (auto simp: recApprovable_def)
qed

lemma assemble_expiry: "isPresent (rnExpiry (assemble inp)) \<longleftrightarrow> recApprovable (assemble inp)"
  by (simp add: assemble_def Let_def recApprovable_def)

lemma newDraftCard_Some:
  "newDraftCard (assemble inp) i rid v = Some c \<longleftrightarrow>
     recApprovable (assemble inp) \<and>
     (\<exists>p. prProposed (aiPolicy inp) = Some p \<and> c = newDraft i rid v (inputBinding inp) (ppPrice p) False)"
  by (auto simp: newDraftCard_def buildBinding_def assembleBase_def split: option.splits)

text \<open>
  Further. The executable gate: a draft card, a version binding and an expiry exist exactly when the
  recommendation is no simulation and none of the seven blocking conditions holds (identity
  unconfirmed, cost incomplete, money unit ambiguous, evidence unusable, boundary unknown,
  permission missing, policy blocked or silent); the card is a draft with the price the policy
  engine proposed and the versions of the inputs; and the blockers reported are exactly the
  conditions that hold, in the fixed order.
\<close>

theorem executable_gate:
  "(newDraftCard (assemble inp) i rid v \<noteq> None) =
     (\<not> aiSimulation inp \<and> list_all (\<lambda>c. \<not> blockerHolds inp c) blockerOrder)
   \<and> (buildBinding (assemble inp) \<noteq> None) = (newDraftCard (assemble inp) i rid v \<noteq> None)
   \<and> isPresent (rnExpiry (assemble inp)) = (newDraftCard (assemble inp) i rid v \<noteq> None)
   \<and> (case newDraftCard (assemble inp) i rid v of None \<Rightarrow> True
      | Some c \<Rightarrow> cdState c = StateDraft \<and> \<not> cdSimulation c \<and> cdBinding c = inputBinding inp
          \<and> map_option ppPrice (prProposed (aiPolicy inp)) = Some (cdPrice c))
   \<and> map rbCode (elems (rnBlockers (assemble inp))) = filter (blockerHolds inp) blockerOrder"
proof -
  have all: "list_all (\<lambda>c. \<not> blockerHolds inp c) blockerOrder \<longleftrightarrow> (\<forall>c. \<not> blockerHolds inp c)"
    by (simp add: list_all_iff blockerOrder_all)
  have some: "newDraftCard (assemble inp) i rid v \<noteq> None \<longleftrightarrow> recApprovable (assemble inp)"
    by (auto simp: newDraftCard_Some assemble_approvable no_blocker_iff)
  then show ?thesis
    by (auto simp: all assemble_approvable assemble_expiry buildBinding_def newDraftCard_Some newDraft_def
        detectBlockers_codes inputBinding_def split: option.split)
qed

text \<open>
  C32. A draft card whose recommendation carries the answer of the policy engine has a safe price: inside
  the known marketplace boundary, at most 5 percent from the current price, with a contribution that
  is positive and at or above the hard floor, under complete margin readiness and usable evidence.
\<close>

theorem minted_price_safe:
  assumes "evaluate pin = Inr (aiPolicy inp)" and "newDraftCard (assemble inp) i rid v = Some c"
  shows "bdKnown (cfBoundary (eiConfig pin)) \<and> sameUnit (cdPrice c) (eiCurrentPrice pin)
    \<and> amt (bdMin (cfBoundary (eiConfig pin))) \<le> amt (cdPrice c)
    \<and> amt (cdPrice c) \<le> amt (bdMax (cfBoundary (eiConfig pin)))
    \<and> 20 * \<bar>amt (cdPrice c) - amt (eiCurrentPrice pin)\<bar> \<le> \<bar>amt (eiCurrentPrice pin)\<bar>
    \<and> (\<exists>m. eiContribution pin (cdPrice c) = Inr m \<and> 0 < amt m
          \<and> amt (cfContributionFloor (eiConfig pin)) \<le> amt m)
    \<and> aiReadiness inp = StateComplete \<and> evidenceUsable (aiEvidenceQuality inp)"
proof -
  from assms(2) obtain p where p: "prProposed (aiPolicy inp) = Some p" "c = newDraft i rid v (inputBinding inp) (ppPrice p) False"
    and a: "\<forall>c. \<not> blockerHolds inp c"
    by (auto simp: newDraftCard_Some assemble_approvable)
  have "aiReadiness inp = StateComplete" "evidenceUsable (aiEvidenceQuality inp)"
    using a by (simp_all add: no_blocker_iff)
  then show ?thesis
    using proposal_facts [OF assms(1) p(1) refl refl] p(2) by (auto simp: newDraft_def)
qed

section \<open>Edited prices\<close>

lemma compareMoney_zero:
  assumes "compareMoney a b = Inr 0"
  shows "a = b"
  using assms by (cases a; cases b)
    (auto simp: compareMoney_def andThen_Inr result_simps sameUnit_def icmp_def split: if_splits)

lemma validateEditedValue_ok:
  "validateEditedValue e u = Inr x \<longleftrightarrow>
     valid e \<and> mantissa e \<noteq> 0 \<and> currency e = currency u \<and> exponent e = exponent u"
  by (auto simp: validateEditedValue_def isZero_def split: sum.splits)

text \<open>
  Further. An edited price is admitted exactly when it is an authoritative, non-zero amount in the unit of the
  current price and is the very price the policy chain itself proposes, without a blocker and with
  complete readiness, from the same context.  An admitted price therefore lies in the boundary, within
  5 percent of the current price and above the floor.
\<close>

theorem edited_price_is_proposal:
  assumes "pin = \<lparr>eiConfig = pxConfig pc, eiCurrentPrice = pxCurrentPrice pc,
                  eiContribution = pxContribution pc, eiNow = now, eiLastActionAt = pxLastActionAt pc,
                  eiReadiness = pxReadiness pc\<rparr>"
    and "admitEditedPrice pc edited now = Inr (res, True)"
  shows "evaluate pin = Inr res \<and> map_option ppPrice (prProposed res) = Some edited
    \<and> approvable res \<and> pxReadiness pc = StateComplete \<and> valid edited \<and> mantissa edited \<noteq> 0
    \<and> amt (bdMin (cfBoundary (pxConfig pc))) \<le> amt edited
    \<and> amt edited \<le> amt (bdMax (cfBoundary (pxConfig pc)))
    \<and> 20 * \<bar>amt edited - amt (pxCurrentPrice pc)\<bar> \<le> \<bar>amt (pxCurrentPrice pc)\<bar>
    \<and> (\<exists>m. pxContribution pc edited = Inr m \<and> 0 < amt m \<and> amt (cfContributionFloor (pxConfig pc)) \<le> amt m)"
proof -
  from assms(2) have v: "valid edited" "mantissa edited \<noteq> 0"
    and ev: "evaluate pin = Inr res" and ad: "admitsEditedPrice res edited"
    by (auto simp: admitEditedPrice_def andThen_Inr validateEditedValue_ok evaluateEditedPrice_def
        mapErr_Inr assms(1))
  from ad obtain p where p: "prProposed res = Some p" "compareMoney (ppPrice p) edited = Inr 0" "approvable res"
    by (auto simp: admitsEditedPrice_def split: option.splits)
  have e: "ppPrice p = edited" by (rule compareMoney_zero [OF p(2)])
  show ?thesis
    using proposal_facts [OF ev p(1) refl refl] p e v ev by (auto simp: assms(1))
qed

section \<open>Aggregates\<close>

abbreviation memberAmount :: "member_contribution \<Rightarrow> int" where
  "memberAmount c \<equiv> sint (mcMantissa c)"

lemma all_take_Cons: "(\<forall>k. P (take k (x # xs))) \<longleftrightarrow> P [] \<and> (\<forall>k. P (x # take k xs))"
proof -
  have "P (take k (x # xs))" if "P []" "\<forall>k. P (x # take k xs)" for k
    using that by (cases k) simp_all
  then show ?thesis by (metis take0 take_Suc_Cons)
qed

definition joins :: "money \<Rightarrow> member_contribution \<Rightarrow> bool" where
  "joins a c \<longleftrightarrow> mcAvailable c \<and> mcCurrency c = currency a \<and> mcExponent c = exponent a"

lemma aggregateFrom_Cons:
  assumes "valid a"
  shows "aggregateFrom (Some a) (c # cs) = Inr (Some m) \<longleftrightarrow>
    joins a c \<and> inInt64 (amt a + memberAmount c) \<and>
    aggregateFrom (Some (a\<lparr>mantissa := word_of_int (amt a + memberAmount c)\<rparr>)) cs = Inr (Some m)"
proof (cases "newMoney (mcMantissa c) (mcCurrency c) (mcExponent c)")
  case (Inl e)
  then show ?thesis using assms by (auto simp: newMoney_def joins_def valid_def split: if_splits)
next
  case (Inr d)
  then have d: "d = \<lparr>mantissa = mcMantissa c, currency = mcCurrency c, exponent = mcExponent c\<rparr>"
    and v: "validCurrency (mcCurrency c)"
    by (auto simp: newMoney_def split: if_splits)
  have u: "sameUnit a d \<longleftrightarrow> mcCurrency c = currency a \<and> mcExponent c = exponent a"
    using assms v by (auto simp: sameUnit_def d valid_def)
  show ?thesis
  proof (cases "addMoney a d")
    case (Inl e)
    then have "\<not> (sameUnit a d \<and> inInt64 (amt a + amt d))"
      using addMoney_ok [of a d] by auto
    then show ?thesis using Inl Inr u by (auto simp: joins_def d)
  next
    case (Inr r)
    then have "sameUnit a d" "inInt64 (amt a + amt d)" "r = a\<lparr>mantissa := word_of_int (amt a + amt d)\<rparr>"
      by (simp_all add: addMoney_ok)
    then show ?thesis using Inr \<open>newMoney _ _ _ = Inr d\<close> u by (simp add: joins_def d)
  qed
qed

lemma aggregateFrom_Some:
  assumes "valid a"
  shows "aggregateFrom (Some a) cs = Inr (Some m) \<longleftrightarrow>
    list_all (joins a) cs \<and> (\<forall>k. inInt64 (amt a + sum_list (map memberAmount (take k cs)))) \<and>
    m = a\<lparr>mantissa := word_of_int (amt a + sum_list (map memberAmount cs))\<rparr>"
  using assms
proof (induction cs arbitrary: a)
  case Nil
  then show ?case by auto
next
  case (Cons c cs)
  let ?a = "a\<lparr>mantissa := word_of_int (amt a + memberAmount c)\<rparr>"
  have v: "valid ?a" and j: "joins ?a = joins a" using Cons.prems by (auto simp: valid_def joins_def fun_eq_iff)
  have t: "(\<forall>k. inInt64 (amt a + sum_list (map memberAmount (take k (c # cs))))) \<longleftrightarrow>
    (\<forall>k. inInt64 (amt a + memberAmount c + sum_list (map memberAmount (take k cs))))"
    using all_take_Cons [of "\<lambda>ys. inInt64 (amt a + sum_list (map memberAmount ys))" c cs]
    by (simp add: add.assoc)
  have r: "inInt64 (amt a + memberAmount c)"
    if "\<forall>k. inInt64 (amt a + memberAmount c + sum_list (map memberAmount (take k cs)))"
    using that [rule_format, of 0] by simp
  have s: "inInt64 (amt a + memberAmount c) \<Longrightarrow> amt ?a = amt a + memberAmount c"
    using sint_of_int64 [of "amt a + memberAmount c"] by simp
  show ?case
    unfolding aggregateFrom_Cons [OF Cons.prems] Cons.IH [OF v] j t
    using r s by (auto simp: add.assoc)
qed

text \<open>
  Further. A selection aggregate is the complete sum or nothing: it is known exactly when there is a member,
  every member's contribution is available, all are in one valid currency and exponent and no running
  sum leaves the 64-bit range, and then it is the exact sum of all members.
\<close>

theorem aggregate_complete_sum:
  "aggregateContribution cs = Inr (Some m) \<longleftrightarrow>
     cs \<noteq> [] \<and> list_all mcAvailable cs \<and>
     list_all (\<lambda>c. mcCurrency c = currency m \<and> mcExponent c = exponent m) cs \<and> valid m \<and>
     (\<forall>k. inInt64 (sum_list (map memberAmount (take k cs)))) \<and>
     amt m = sum_list (map memberAmount cs)"
proof (cases cs)
  case Nil
  then show ?thesis by (simp add: aggregateContribution_def)
next
  case (Cons c ds)
  let ?a = "\<lparr>mantissa = mcMantissa c, currency = mcCurrency c, exponent = mcExponent c\<rparr>"
  have start: "aggregateContribution cs = Inr (Some m) \<longleftrightarrow>
    mcAvailable c \<and> validCurrency (mcCurrency c) \<and> aggregateFrom (Some ?a) ds = Inr (Some m)"
    by (simp add: aggregateContribution_def Cons newMoney_def)
  have t: "(\<forall>k. inInt64 (sum_list (map memberAmount (take k cs)))) \<longleftrightarrow>
    (\<forall>k. inInt64 (memberAmount c + sum_list (map memberAmount (take k ds))))"
    using all_take_Cons [of "\<lambda>ys. inInt64 (sum_list (map memberAmount ys))" c ds]
    by (simp add: Cons inInt64_def)
  show ?thesis
  proof (cases "validCurrency (mcCurrency c)")
    case True
    then have v: "valid ?a" by (simp add: valid_def)
    have m: "m = ?a\<lparr>mantissa := word_of_int (memberAmount c + sum_list (map memberAmount ds))\<rparr> \<longleftrightarrow>
      currency m = mcCurrency c \<and> exponent m = mcExponent c
      \<and> amt m = memberAmount c + sum_list (map memberAmount ds)"
      if "\<forall>k. inInt64 (memberAmount c + sum_list (map memberAmount (take k ds)))"
    proof -
      let ?t = "memberAmount c + sum_list (map memberAmount ds)"
      have "sint (word_of_int ?t :: int64) = ?t"
        using that [rule_format, of "length ds"] by (intro sint_of_int64) simp
      then show ?thesis
        by (cases m) (auto simp flip: sint64_eq_iff)
    qed
    show ?thesis
      unfolding start aggregateFrom_Some [OF v] t
      using m True by (auto simp: Cons joins_def list_all_iff valid_def)
  next
    case False
    then show ?thesis unfolding start by (auto simp: Cons valid_def)
  qed
qed

section \<open>Evaluation at concrete inputs\<close>

definition demoPolicy :: policy_result where
  "demoPolicy = \<lparr>prProposed = Some \<lparr>ppPrice = irr 100, ppContribution = irr 20\<rparr>, prBlockers = [],
     prSimulation = False, prReadiness = StateComplete\<rparr>"

definition demoAssemble :: assemble_input where
  "demoAssemble =
     \<lparr>aiAccountID = 1, aiVariantID = 2, aiEventID = 3, aiObjective = ObjectiveTrackStrategy,
      aiCurrentPrice = irr 100, aiCurrentContribution = irr 20,
      aiContribution = \<lparr>cbAmount = irr 20, cbNetProceeds = irr 100, cbDeductions = [],
        cbReadiness = StateComplete, cbRoundingRule = contributionRoundingRule, cbAsOf = 1\<rparr>,
      aiPolicy = demoPolicy, aiBoundary = \<lparr>bdKnown = True, bdMin = irr 90, bdMax = irr 102\<rparr>,
      aiEvidence = \<lparr>reQuality = ''verified'', reRefs = [''obs''], reObservationID = 4, reAsOf = 1\<rparr>,
      aiIdentityConfirmed = True, aiMoneyUnitAmbiguous = False, aiBoundaryKnown = True,
      aiPermissionGranted = True, aiReadiness = StateComplete, aiEvidenceQuality = ''verified'',
      aiAssumptions = [], aiNow = 5, aiExpiry = 5 + hour, aiActionID = 6, aiParameterVersion = 1,
      aiContextVersion = 1, aiPolicyVersion = 1, aiCostProfileVersion = 1,
      aiEvidenceVersions = fmempty, aiSimulation = False\<rparr>"

lemma demo_assembled: "newDraftCard (assemble demoAssemble) i rid v =
   Some (newDraft i rid v (inputBinding demoAssemble) (irr 100) False)"
  by (simp add: newDraftCard_Some assemble_approvable no_blocker_iff)
    (simp add: demoAssemble_def demoPolicy_def evidenceUsable_def)

theorem minted_price_safe_witness:
  "\<exists>c. newDraftCard (assemble demoAssemble) 7 8 1 = Some c \<and> 90 \<le> amt (cdPrice c) \<and> amt (cdPrice c) \<le> 102"
proof -
  have "evaluate (demoInput [demoCost ComponentCOGS 50, demoRate ComponentCommission 3000]) = Inr (aiPolicy demoAssemble)"
    by (simp add: demo_proposal demoAssemble_def demoPolicy_def)
  from minted_price_safe [OF this demo_assembled [of 7 8 1]] demo_assembled [of 7 8 1] show ?thesis
    by (simp add: demoInput_def demoConfig_def irr_def)
qed

definition demoContext :: policy_context where
  "demoContext =
     \<lparr>pxConfig = demoConfig, pxCurrentPrice = irr 100, pxContribution = (\<lambda>p. Inr (irr 20)),
      pxLastActionAt = None, pxReadiness = StateComplete\<rparr>"

lemma demo_edit: "admitEditedPrice demoContext (irr 100) 0 = Inr (demoPolicy, True)"
proof -
  have v: "validateEditedValue (irr 100) (pxCurrentPrice demoContext) = Inr ()"
    by (simp add: validateEditedValue_def isZero_def demoContext_def irr_def valid_def)
  have e: "evaluateEditedPrice demoContext 0 = Inr demoPolicy"
    by (simp add: evaluateEditedPrice_def demoContext_def demo_defs policy_eval demoPolicy_def)
  have "admitsEditedPrice demoPolicy (irr 100)"
    by (simp add: admitsEditedPrice_def approvable_def demoPolicy_def compareMoney_def compatible_def
        icmp_def irr_def valid_def)
  then show ?thesis by (simp add: admitEditedPrice_def v e)
qed

theorem edited_price_is_proposal_witness:
  "admitEditedPrice demoContext (irr 100) 0 = Inr (demoPolicy, True) \<and> amt (irr 100) \<le> 102"
proof -
  have "amt (irr 100) \<le> amt (bdMax (cfBoundary (pxConfig demoContext)))"
    using edited_price_is_proposal [OF refl demo_edit] by blast
  then have "amt (irr 100) \<le> 102" by (simp add: demoContext_def demoConfig_def irr_def)
  with demo_edit show ?thesis by blast
qed

end
