(* ===== verification/RecommendationStore.thy ===== *)
theory RecommendationStore
  imports Recommendation Execution
begin

text \<open>
  The recommendation service over its tables (services/core/internal/recommendation): persistence
  (persist.go), the draft mint, the guarded advance, the expiry of dependent cards and the individual
  confirmation (service.go), the price edit (edit_price.go), the atomic production of a version with
  its card and the producer pass (producer_service.go, producer.go), and the dispatch of the durable
  execution intent (dispatch.go).  A transaction is a function from the committed tables to an error,
  which rolls everything back, or to the new tables.
\<close>

section \<open>The tables\<close>

text \<open>The columns of an optional amount and of an optional range.\<close>

record money_columns =
  mlAvailable :: bool
  mlMantissa :: "int64 option"
  mlCurrency :: string
  mlExponent :: int8
  mlReason :: string

record range_columns =
  raAvailable :: bool
  raMin :: "int64 option"
  raMax :: "int64 option"
  raCurrency :: string
  raExponent :: int8
  raReason :: string

record recommendation_row =
  rmID :: uuid
  rmAccountID :: uuid
  rmVariantID :: uuid
  rmLineageID :: uuid
  rmVersion :: int
  rmEventID :: "uuid option"
  rmObjective :: objective
  rmCurrentPrice :: money
  rmProposedPrice :: money_columns
  rmCurrentContribution :: money_columns
  rmProposedContribution :: money_columns
  rmAllowedRange :: range_columns
  rmReadiness :: readiness_state
  rmEvidenceQuality :: string
  rmEvidenceObservationID :: "uuid option"
  rmEvidenceRefs :: "string list"
  rmEvidenceAsOf :: "instant option"
  rmCostProfileVersion :: int64
  rmPolicyVersion :: int64
  rmContextVersion :: int64
  rmParameterVersion :: int64
  rmInputs :: "deduction list"
  rmAssumptions :: "string list"
  rmBlockers :: "rec_blocker slice"
  rmApprovable :: bool
  rmSimulation :: bool
  rmExpiresAt :: "instant option"
  rmEvidenceVersions :: "(uuid, int64) fmap option"

text \<open>The durable intent of \<open>jobs.ExecuteApprovedArgs\<close>.\<close>

record execute_args =
  xaCardID :: uuid
  xaActionID :: uuid
  xaParameterVersion :: int64
  xaContextVersion :: int64

datatype sel_disposition =
  DispositionExecutable | DispositionWarning | DispositionBlocked

record selection_set =
  ssID :: uuid
  ssAccountID :: uuid
  ssLineageID :: uuid
  ssVersion :: int
  ssName :: string
  ssCriteria :: "(string \<times> string) list"
  ssMemberCount :: int
  ssAggregate :: "money option"
  ssFingerprint :: "nat list"

record selection_member =
  smSetID :: uuid
  smAccountID :: uuid
  smVariantID :: uuid
  smRecommendationID :: "uuid option"
  smDisposition :: sel_disposition

record level2_proposal =
  lpID :: uuid
  lpAccountID :: uuid
  lpActionID :: uuid
  lpSettingKey :: string
  lpBeforeKey :: string
  lpAfterKey :: string
  lpScopeKey :: string
  lpConsequenceKey :: string
  lpExpiresAt :: instant
  lpActor :: actor

text \<open>
  The tables of this service around those of the executor.  \<open>rdCardOrder\<close> lists the card ids in
  insertion order, as a map cannot be enumerated.
\<close>

record rec_db =
  rdExec :: exec_db
  rdCardOrder :: "uuid list"
  rdRecommendations :: "recommendation_row list"
  rdIntents :: "execute_args list"
  rdOwners :: "uuid \<rightharpoonup> uuid"
  rdSets :: "selection_set list"
  rdMembers :: "selection_member list"
  rdProposals :: "level2_proposal list"

text \<open>
  What the database and the UUID library supply: the next generated key, the transaction time and the
  text form of a UUID.
\<close>

record rec_env =
  nvID :: "rec_db \<Rightarrow> uuid"
  nvNow :: instant
  nvUUIDStr :: "uuid \<Rightarrow> string"

section \<open>Queries (queries/recommendation.sql, queries/approval.sql)\<close>

text \<open>\<open>ORDER BY version DESC LIMIT 1\<close>.\<close>

definition latestBy :: "('a \<Rightarrow> int) \<Rightarrow> 'a list \<Rightarrow> 'a option" where
  "latestBy f xs = find (\<lambda>x. list_all (\<lambda>y. f y \<le> f x) xs) xs"

text \<open>\<open>COALESCE(MAX(version), 0) + 1\<close> of an integer column: out of range is an error.\<close>

definition nextVersion :: "('a \<Rightarrow> int) \<Rightarrow> 'a list \<Rightarrow> int option" where
  "nextVersion f xs =
     (let v = (case latestBy f xs of None \<Rightarrow> 0 | Some x \<Rightarrow> f x) + 1 in
      if v \<le> 2147483647 then Some v else None)"

fun rowsIn :: "(uuid \<rightharpoonup> card_row) \<Rightarrow> uuid list \<Rightarrow> card_row list" where
  "rowsIn m [] = []"
| "rowsIn m (i # ids) = (case m i of None \<Rightarrow> rowsIn m ids | Some c \<Rightarrow> c # rowsIn m ids)"

definition cards :: "rec_db \<Rightarrow> card_row list" where
  "cards db = rowsIn (edCards (rdExec db)) (rdCardOrder db)"

definition getCard :: "rec_db \<Rightarrow> uuid \<Rightarrow> card_row option" where
  "getCard db i = edCards (rdExec db) i"

abbreviation cardVersion :: "card_row \<Rightarrow> int" where
  "cardVersion c \<equiv> sint (crVersion c)"

definition currentCard :: "rec_db \<Rightarrow> uuid \<Rightarrow> card_row option" where
  "currentCard db lineage = latestBy cardVersion (filter (\<lambda>c. crLineageID c = lineage) (cards db))"

definition currentCardByRecommendation :: "rec_db \<Rightarrow> uuid \<Rightarrow> card_row option" where
  "currentCardByRecommendation db i =
     latestBy cardVersion (filter (\<lambda>c. crRecommendationID c = i) (cards db))"

definition getRecommendation :: "rec_db \<Rightarrow> uuid \<Rightarrow> recommendation_row option" where
  "getRecommendation db i = find (\<lambda>r. rmID r = i) (rdRecommendations db)"

definition currentRecommendation :: "rec_db \<Rightarrow> uuid \<Rightarrow> recommendation_row option" where
  "currentRecommendation db lineage =
     latestBy rmVersion (filter (\<lambda>r. rmLineageID r = lineage) (rdRecommendations db))"

text \<open>The CHECK constraints of the recommendations table.\<close>

definition moneyCheck :: "money_columns \<Rightarrow> bool" where
  "moneyCheck m \<longleftrightarrow> \<not> mlAvailable m \<or> mlMantissa m \<noteq> None \<and> mlCurrency m \<noteq> []"

definition recommendationChecks :: "recommendation_row \<Rightarrow> bool" where
  "recommendationChecks r \<longleftrightarrow>
     rmObjective r \<in> {ObjectiveMaximizeContribution, ObjectiveTrackStrategy} \<and>
     rmReadiness r \<in> {StateComplete, StatePartial, StateStale, StateMissing} \<and>
     rmEvidenceQuality r \<in> {''verified'', ''supported'', ''unverified'', ''conflicted'', ''stale'',
       ''unavailable''} \<and>
     moneyCheck (rmProposedPrice r) \<and> moneyCheck (rmCurrentContribution r) \<and>
     moneyCheck (rmProposedContribution r) \<and>
     (\<not> raAvailable (rmAllowedRange r) \<or>
        raMin (rmAllowedRange r) \<noteq> None \<and> raMax (rmAllowedRange r) \<noteq> None \<and>
        raCurrency (rmAllowedRange r) \<noteq> []) \<and>
     (\<not> rmApprovable r \<or> rmReadiness r = StateComplete \<and> \<not> rmSimulation r \<and> rmExpiresAt r \<noteq> None)"

text \<open>\<open>InsertRecommendation\<close>: the id and the version of the row are set by the database.\<close>

definition insertRecommendation ::
  "rec_env \<Rightarrow> rec_db \<Rightarrow> recommendation_row \<Rightarrow> (rec_error, rec_db \<times> recommendation_row) result" where
  "insertRecommendation env db row =
     (case nextVersion rmVersion (filter (\<lambda>r. rmLineageID r = rmLineageID row) (rdRecommendations db)) of
        None \<Rightarrow> Inl RecDbErr
      | Some v \<Rightarrow>
          (let stored = row\<lparr>rmID := nvID env db, rmVersion := v\<rparr> in
           if \<not> recommendationChecks stored \<or> getRecommendation db (rmID stored) \<noteq> None
           then Inl RecDbErr
           else Inr (db\<lparr>rdRecommendations := rdRecommendations db @ [stored]\<rparr>, stored)))"

text \<open>
  \<open>InsertApprovalCard\<close>: the next version of the lineage; the idempotency key and the id are unique, and the
  recommendation must exist under the same account.
\<close>

definition insertCard ::
  "rec_env \<Rightarrow> rec_db \<Rightarrow> card_row \<Rightarrow> (rec_error, rec_db \<times> card_row) result" where
  "insertCard env db row =
     (case nextVersion cardVersion (filter (\<lambda>c. crLineageID c = crLineageID row) (cards db)) of
        None \<Rightarrow> Inl RecDbErr
      | Some v \<Rightarrow>
          (let stored = row\<lparr>crID := nvID env db, crVersion := word_of_int v, crCreatedAt := nvNow env\<rparr> in
           if getCard db (crID stored) \<noteq> None
             \<or> list_ex (\<lambda>c. crIdempotencyKey c = crIdempotencyKey stored) (cards db)
             \<or> \<not> list_ex (\<lambda>r. rmID r = crRecommendationID stored \<and> rmAccountID r = crAccountID stored)
                  (rdRecommendations db)
           then Inl RecDbErr
           else
             Inr (db\<lparr>rdExec := (rdExec db)\<lparr>edCards := (edCards (rdExec db))(crID stored \<mapsto> stored)\<rparr>,
                     rdCardOrder := rdCardOrder db @ [crID stored]\<rparr>, stored)))"

definition appendCardState :: "rec_db \<Rightarrow> card_state_row \<Rightarrow> rec_db" where
  "appendCardState db row =
     db\<lparr>rdExec := (rdExec db)\<lparr>edCardStates := edCardStates (rdExec db) @ [row]\<rparr>\<rparr>"

section \<open>Persistence (persist.go)\<close>

definition optionalMoneyColumns :: "money optional \<Rightarrow> money_columns" where
  "optionalMoneyColumns opt =
     (case optGet opt of
        Some m \<Rightarrow> \<lparr>mlAvailable = True, mlMantissa = Some (mantissa m), mlCurrency = currency m,
                   mlExponent = exponent m, mlReason = []\<rparr>
      | None \<Rightarrow> \<lparr>mlAvailable = False, mlMantissa = None, mlCurrency = [], mlExponent = 0,
                 mlReason = optReason opt\<rparr>)"

definition optionalRangeColumns :: "rec_range optional \<Rightarrow> range_columns" where
  "optionalRangeColumns opt =
     (case optGet opt of
        Some r \<Rightarrow> \<lparr>raAvailable = True, raMin = Some (mantissa (rgMin r)), raMax = Some (mantissa (rgMax r)),
                   raCurrency = currency (rgMin r), raExponent = exponent (rgMin r), raReason = []\<rparr>
      | None \<Rightarrow> \<lparr>raAvailable = False, raMin = None, raMax = None, raCurrency = [], raExponent = 0,
                 raReason = optReason opt\<rparr>)"

definition eventOf :: "recommendation \<Rightarrow> uuid" where
  "eventOf r = (case optGet (rnEventID r) of Some i \<Rightarrow> i | None \<Rightarrow> 0)"

text \<open>The row before the database gives it an id and a version.\<close>

definition recommendationParams :: "uuid \<Rightarrow> recommendation \<Rightarrow> recommendation_row" where
  "recommendationParams lineage r =
     \<lparr>rmID = 0, rmAccountID = rnAccountID r, rmVariantID = rnVariantID r, rmLineageID = lineage,
      rmVersion = 0, rmEventID = optionalUUID (eventOf r), rmObjective = rnObjective r,
      rmCurrentPrice = rnCurrentPrice r, rmProposedPrice = optionalMoneyColumns (rnProposedPrice r),
      rmCurrentContribution = optionalMoneyColumns (rnCurrentContribution r),
      rmProposedContribution = optionalMoneyColumns (rnProposedContribution r),
      rmAllowedRange = optionalRangeColumns (rnAllowedRange r), rmReadiness = rnReadiness r,
      rmEvidenceQuality = rnQuality r,
      rmEvidenceObservationID = optionalUUID (reObservationID (rnEvidence r)),
      rmEvidenceRefs = reRefs (rnEvidence r),
      rmEvidenceAsOf = (if reAsOf (rnEvidence r) = 0 then None else Some (reAsOf (rnEvidence r))),
      rmCostProfileVersion = bnCostProfileVersion (rnBinding r),
      rmPolicyVersion = bnPolicyVersion (rnBinding r), rmContextVersion = bnContextVersion (rnBinding r),
      rmParameterVersion = bnParameterVersion (rnBinding r), rmInputs = rnInputs r,
      rmAssumptions = rnAssumptions r, rmBlockers = rnBlockers r, rmApprovable = recApprovable r,
      rmSimulation = rnSimulation r, rmExpiresAt = optGet (rnExpiry r),
      rmEvidenceVersions = Some (bnEvidenceVersions (rnBinding r))\<rparr>"

definition persist ::
  "rec_env \<Rightarrow> rec_db \<Rightarrow> uuid \<Rightarrow> recommendation \<Rightarrow> (rec_error, rec_db \<times> recommendation_row) result" where
  "persist env db lineage r = insertRecommendation env db (recommendationParams lineage r)"

section \<open>Minting drafts and advancing cards (service.go)\<close>

definition cardParams ::
  "rec_env \<Rightarrow> uuid \<Rightarrow> uuid \<Rightarrow> uuid \<Rightarrow> binding \<Rightarrow> money \<Rightarrow> card_row" where
  "cardParams env recID lineage account b price =
     \<lparr>crID = 0, crLineageID = lineage, crRecommendationID = recID, crAccountID = account,
      crVersion = 0, crState = StateDraft, crActionID = bnActionID b,
      crParameterVersion = bnParameterVersion b, crContextVersion = bnContextVersion b,
      crPolicyVersion = bnPolicyVersion b, crCostProfileVersion = bnCostProfileVersion b,
      crEvidence = Some (bnEvidenceVersions b), crIdempotencyKey = idempotencyKey (nvUUIDStr env) b,
      crPrice = price, crExpiresAt = bnExpiry b, crCreatedAt = 0\<rparr>"

definition mintDraftCard ::
  "rec_env \<Rightarrow> rec_db \<Rightarrow> uuid \<Rightarrow> uuid \<Rightarrow> uuid \<Rightarrow> binding \<Rightarrow> money \<Rightarrow> (rec_error, rec_db \<times> card_row) result" where
  "mintDraftCard env db recID lineage account b price =
     andThen (insertCard env db (cardParams env recID lineage account b price)) (\<lambda>(db1, stored).
     Inr (appendCardState db1
            \<lparr>csCardID = crID stored, csFromState = None, csToState = StateDraft,
             csReason = ''card created''\<rparr>, stored))"

definition createCard ::
  "rec_env \<Rightarrow> rec_db \<Rightarrow> uuid \<Rightarrow> uuid \<Rightarrow> uuid \<Rightarrow> recommendation \<Rightarrow> (rec_error, rec_db \<times> card_row) result" where
  "createCard env db recID lineage account r =
     (case buildBinding r of
        None \<Rightarrow> Inl RecRejectedTransition
      | Some b \<Rightarrow>
          (case optGet (rnProposedPrice r) of
             None \<Rightarrow> Inl RecRejectedTransition
           | Some price \<Rightarrow> mintDraftCard env db recID lineage account b price))"

text \<open>\<open>AdvanceTx\<close>, in terms of the guarded move of the executor's tables.\<close>

definition advanceCard ::
  "rec_db \<Rightarrow> uuid \<Rightarrow> state \<Rightarrow> state \<Rightarrow> string \<Rightarrow> (rec_error, rec_db \<times> card_row) result" where
  "advanceCard db cardID st_from st_to reason =
     (case advanceTx (rdExec db) cardID st_from st_to reason of
        Inl _ \<Rightarrow> Inl RecRejectedTransition
      | Inr ex \<Rightarrow>
          (case edCards ex cardID of
             None \<Rightarrow> Inl RecRejectedTransition
           | Some row \<Rightarrow> Inr (db\<lparr>rdExec := ex\<rparr>, row)))"

definition liveStates :: "state list" where
  "liveStates =
     [StateDraft, StateReadyForReview, StateAwaitingConfirmation, StateApproved, StateRevalidating]"

definition liveCardsForVariant :: "rec_db \<Rightarrow> uuid \<Rightarrow> card_row list" where
  "liveCardsForVariant db variant =
     filter (\<lambda>c. crState c \<in> set liveStates \<and>
         (case getRecommendation db (crRecommendationID c) of
            None \<Rightarrow> False | Some r \<Rightarrow> rmVariantID r = variant)) (cards db)"

definition invalidateApprovedCard :: "rec_db \<Rightarrow> uuid \<Rightarrow> string \<Rightarrow> (rec_error, rec_db) result" where
  "invalidateApprovedCard db cardID reason =
     andThen (advanceCard db cardID StateApproved StateRevalidating reason) (\<lambda>(db1, _).
     andThen (advanceCard db1 cardID StateRevalidating StateInvalidated reason) (\<lambda>(db2, _). Inr db2))"

definition invalidateDependent :: "rec_db \<Rightarrow> uuid \<Rightarrow> state \<Rightarrow> string \<Rightarrow> (rec_error, rec_db) result" where
  "invalidateDependent db cardID st_from reason =
     (if st_from = StateApproved then invalidateApprovedCard db cardID reason
      else if \<not> canTransition st_from StateInvalidated then Inl RecRejectedTransition
      else andThen (advanceCard db cardID st_from StateInvalidated reason) (\<lambda>(db1, _). Inr db1))"

text \<open>The loop over the listed rows: a rejected move is skipped, any other error ends it.\<close>

fun expireLoop :: "rec_db \<Rightarrow> card_row list \<Rightarrow> string \<Rightarrow> nat \<Rightarrow> rec_db \<times> nat \<times> rec_error option" where
  "expireLoop db [] reason n = (db, n, None)"
| "expireLoop db (c # cs) reason n =
     (case invalidateDependent db (crID c) (crState c) reason of
        Inl RecRejectedTransition \<Rightarrow> expireLoop db cs reason n
      | Inl e \<Rightarrow> (db, n, Some e)
      | Inr db' \<Rightarrow> expireLoop db' cs reason (Suc n))"

definition expireDependentForVariant ::
  "rec_db \<Rightarrow> uuid \<Rightarrow> string \<Rightarrow> rec_db \<times> nat \<times> rec_error option" where
  "expireDependentForVariant db variant reason =
     expireLoop db (liveCardsForVariant db variant) reason 0"

definition mappingReopened :: "rec_db \<Rightarrow> uuid \<Rightarrow> string \<Rightarrow> rec_db \<times> rec_error option" where
  "mappingReopened db variant reason =
     (case expireDependentForVariant db variant (''identity_reopen:'' @ reason) of
        (db', _, err) \<Rightarrow> (db', err))"

section \<open>The service and its seams (service.go, dispatch.go)\<close>

text \<open>
  The injected collaborators: the dispatcher of the execution intent and the rechecker of edited prices
  may be unset; the audit append is \<open>audit.Append\<close> in production.
\<close>

record rec_service =
  svDispatcher :: "(rec_db \<Rightarrow> card_row \<Rightarrow> (rec_error, rec_db) result) option"
  svRecheck :: "(recommendation_row \<Rightarrow> (rec_error, policy_context) result) option"
  svAuditAppend :: "rec_db \<Rightarrow> audit_event \<Rightarrow> (rec_error, rec_db) result"

definition appendAuditRow :: "rec_env \<Rightarrow> rec_db \<Rightarrow> audit_event \<Rightarrow> (rec_error, rec_db) result" where
  "appendAuditRow env db ev =
     Inr (db\<lparr>rdExec := appendAudit (rdExec db) (nvID env db) (nvNow env) ev\<rparr>)"

definition newService :: "rec_env \<Rightarrow> rec_service" where
  "newService env = \<lparr>svDispatcher = None, svRecheck = None, svAuditAppend = appendAuditRow env\<rparr>"

definition setExecutionDispatcher ::
  "rec_service \<Rightarrow> (rec_db \<Rightarrow> card_row \<Rightarrow> (rec_error, rec_db) result) \<Rightarrow> rec_service" where
  "setExecutionDispatcher s d = s\<lparr>svDispatcher := Some d\<rparr>"

definition setEditPriceRechecker ::
  "rec_service \<Rightarrow> (recommendation_row \<Rightarrow> (rec_error, policy_context) result) \<Rightarrow> rec_service" where
  "setEditPriceRechecker s r = s\<lparr>svRecheck := Some r\<rparr>"

text \<open>The River insert is unique by card id: a duplicate is skipped without an error.\<close>

definition dispatchApproved :: "rec_db \<Rightarrow> card_row \<Rightarrow> (rec_error, rec_db) result" where
  "dispatchApproved db c =
     Inr (if list_ex (\<lambda>a. xaCardID a = crID c) (rdIntents db) then db
          else db\<lparr>rdIntents := rdIntents db @
                 [\<lparr>xaCardID = crID c, xaActionID = crActionID c,
                   xaParameterVersion = crParameterVersion c, xaContextVersion = crContextVersion c\<rparr>]\<rparr>)"

section \<open>Individual confirmation (service.go)\<close>

record confirm_outcome =
  coCard :: card_row
  coState :: state
  coReason :: invalidation_reason
  coExecutionPending :: bool

definition cardFromDB :: "card_row \<Rightarrow> (rec_error, card) result" where
  "cardFromDB row =
     andThen (mapErr RecMoneyErr
                (newMoney (mantissa (crPrice row)) (currency (crPrice row)) (exponent (crPrice row))))
       (\<lambda>price.
     (case crEvidence row of
        None \<Rightarrow> Inl RecCorruptEvidence
      | Some ev \<Rightarrow>
          Inr \<lparr>cdID = crID row, cdRecommendationID = crRecommendationID row, cdVersion = crVersion row,
               cdState = crState row,
               cdBinding =
                 \<lparr>bnActionID = crActionID row, bnParameterVersion = crParameterVersion row,
                  bnContextVersion = crContextVersion row, bnPolicyVersion = crPolicyVersion row,
                  bnCostProfileVersion = crCostProfileVersion row, bnEvidenceVersions = ev,
                  bnExpiry = crExpiresAt row\<rparr>,
               cdPrice = price, cdSimulation = False\<rparr>))"

definition confirmReason :: "invalidation_reason \<Rightarrow> string" where
  "confirmReason r = (if r = ReasonNone then ''structured control activated'' else reasonName r)"

definition confirmationSnapshot :: "card_row \<Rightarrow> snapshot" where
  "confirmationSnapshot c =
     [(''card_id'', SnapUUID (crID c)), (''recommendation_id'', SnapUUID (crRecommendationID c)),
      (''version'', SnapInt (sint (crVersion c))), (''state'', SnapText (stateName (crState c))),
      (''action_id'', SnapUUID (crActionID c)),
      (''price'', SnapObject
         [(''mantissa'', SnapInt (amt (crPrice c))), (''currency'', SnapText (currency (crPrice c))),
          (''exponent'', SnapInt (sint (exponent (crPrice c))))]),
      (''expires_at'', SnapTime (crExpiresAt c))]"

definition confirmationDetail :: "binding \<Rightarrow> snapshot" where
  "confirmationDetail presented =
     [(''event'', SnapText ''structured_control_activated''),
      (''presented_action_id'', SnapUUID (bnActionID presented))]"

definition confirmationEvent :: "card_row \<Rightarrow> binding \<Rightarrow> binding \<Rightarrow> actor \<Rightarrow> audit_event" where
  "confirmationEvent advanced bound presented act =
     \<lparr>aeActionID = crActionID advanced, aeCardID = crID advanced, aeAccountID = crAccountID advanced,
      aeType = EventConfirmation, aeActor = act, aeBinding = bound,
      aeCardSnapshot = confirmationSnapshot advanced, aeDetail = confirmationDetail presented,
      aeTerminalState = []\<rparr>"

text \<open>What a superseded control changed, with the fallback that keeps the path closed.\<close>

definition supersededReason :: "binding \<Rightarrow> binding \<Rightarrow> instant \<Rightarrow> invalidation_reason" where
  "supersededReason bound current now =
     (let r = validateAgainst bound current now in if r = ReasonNone then ReasonParameterChanged else r)"

definition recordApproval ::
  "rec_service \<Rightarrow> rec_db \<Rightarrow> card_row \<Rightarrow> binding \<Rightarrow> binding \<Rightarrow> actor \<Rightarrow> (rec_error, rec_db) result" where
  "recordApproval svc db advanced bound presented act =
     andThen (svAuditAppend svc db (confirmationEvent advanced bound presented act)) (\<lambda>db1.
     (case svDispatcher svc of None \<Rightarrow> Inr db1 | Some d \<Rightarrow> d db1 advanced))"

text \<open>
  The transaction after the first read and the lineage lock.  \<open>requested\<close> is the row that read returned; the
  tables are those committed when the lock was granted.
\<close>

definition confirmLocked ::
  "rec_service \<Rightarrow> rec_db \<Rightarrow> card_row \<Rightarrow> binding \<Rightarrow> instant \<Rightarrow> actor
    \<Rightarrow> (rec_error, rec_db \<times> confirm_outcome) result" where
  "confirmLocked svc db requested presented now act =
     andThen (cardFromDB requested) (\<lambda>c.
     andThen (mapErr RecApprovalErr (controlOf (\<lambda>_. []) c)) (\<lambda>_.
     (case currentCard db (crLineageID requested) of
        None \<Rightarrow> Inl RecNoRows
      | Some current \<Rightarrow>
          if crID requested \<noteq> crID current \<or> crVersion requested \<noteq> crVersion current
          then
            andThen (cardFromDB current) (\<lambda>currentC.
            (let reason = supersededReason (cdBinding c) (cdBinding currentC) now in
             andThen (advanceCard db (crID requested) StateAwaitingConfirmation StateInvalidated
                        (confirmReason reason)) (\<lambda>(db1, advanced).
             Inr (db1, \<lparr>coCard = advanced, coState = StateInvalidated, coReason = reason,
                        coExecutionPending = False\<rparr>))))
          else
            andThen (mapErr RecApprovalErr (confirm c presented now)) (\<lambda>(c', reason).
            andThen (advanceCard db (crID requested) StateAwaitingConfirmation (cdState c')
                       (confirmReason reason)) (\<lambda>(db1, advanced).
            andThen (if cdState c' = StateApproved
                     then recordApproval svc db1 advanced (cdBinding c) presented act
                     else Inr db1) (\<lambda>db2.
            Inr (db2, \<lparr>coCard = advanced, coState = cdState c', coReason = reason,
                       coExecutionPending = (cdState c' = StateApproved)\<rparr>)))))))"

text \<open>\<open>racing\<close> is what other sessions commit between the first read and the lock.\<close>

definition confirmIndividual ::
  "rec_service \<Rightarrow> (rec_db \<Rightarrow> rec_db) \<Rightarrow> rec_db \<Rightarrow> uuid \<Rightarrow> binding \<Rightarrow> instant \<Rightarrow> actor
    \<Rightarrow> (rec_error, rec_db \<times> confirm_outcome) result" where
  "confirmIndividual svc racing db cardID presented now act =
     (case getCard db cardID of
        None \<Rightarrow> Inl RecNoRows
      | Some requested \<Rightarrow> confirmLocked svc (racing db) requested presented now act)"

section \<open>Price edits (edit_price.go)\<close>

definition editPriceControlTTL :: duration where "editPriceControlTTL = hour"

text \<open>
  The card is read in \<open>dbC\<close>, its recommendation in \<open>dbR\<close>, each by a statement of its own; the policy context
  comes from the rechecker; the mint is one transaction, under the lineage lock, on \<open>db\<close>.
\<close>

definition editCardPrice ::
  "rec_service \<Rightarrow> rec_env \<Rightarrow> rec_db \<Rightarrow> rec_db \<Rightarrow> rec_db \<Rightarrow> uuid \<Rightarrow> money \<Rightarrow> instant \<Rightarrow> (rec_error, rec_db \<times> card_row) result" where
  "editCardPrice svc env dbC dbR db cardID newPrice now =
     (case getCard dbC cardID of
        None \<Rightarrow> Inl RecNoRows
      | Some current \<Rightarrow>
          (case svRecheck svc of
             None \<Rightarrow> Inl RecEditedPriceRejected
           | Some recheck \<Rightarrow>
               (case getRecommendation dbR (crRecommendationID current) of
                  None \<Rightarrow> Inl RecNoRows
                | Some r \<Rightarrow>
                    andThen (recheck r) (\<lambda>pc.
                    andThen (admitEditedPrice pc newPrice now) (\<lambda>(_, admitted).
                    if \<not> admitted then Inl RecEditedPriceRejected
                    else
                      (case crEvidence current of
                         None \<Rightarrow> Inl RecCorruptEvidence
                       | Some ev \<Rightarrow>
                           mintDraftCard env db (crRecommendationID current) (crLineageID current)
                             (crAccountID current)
                             \<lparr>bnActionID = crActionID current,
                              bnParameterVersion = crParameterVersion current + 1,
                              bnContextVersion = crContextVersion current,
                              bnPolicyVersion = crPolicyVersion current,
                              bnCostProfileVersion = crCostProfileVersion current,
                              bnEvidenceVersions = ev, bnExpiry = now + editPriceControlTTL\<rparr>
                             newPrice))))))"

section \<open>Production (producer_service.go, producer.go)\<close>

definition produceVersion ::
  "rec_env \<Rightarrow> rec_db \<Rightarrow> uuid \<Rightarrow> uuid \<Rightarrow> recommendation
    \<Rightarrow> (rec_error, rec_db \<times> recommendation_row \<times> bool) result" where
  "produceVersion env db lineage account r =
     andThen (insertRecommendation env db (recommendationParams lineage r)) (\<lambda>(db1, persisted).
     if recApprovable r
     then
       (case buildBinding r of
          None \<Rightarrow> Inl RecRejectedTransition
        | Some b \<Rightarrow>
            (case optGet (rnProposedPrice r) of
               None \<Rightarrow> Inl RecRejectedTransition
             | Some price \<Rightarrow>
                 andThen (mintDraftCard env db1 (rmID persisted) lineage account b price) (\<lambda>(db2, _).
                 Inr (db2, persisted, True))))
     else Inr (db1, persisted, False))"

record eligible_event =
  egEventID :: uuid
  egAccountID :: uuid
  egVariantID :: uuid
  egEvidenceVersion :: int64

text \<open>
  The producer's dependencies: the input resolver, its clock, and the UUIDv5 lineage of an event, which
  is code of the UUID library.
\<close>

record producer =
  pdResolve :: "eligible_event \<Rightarrow> (rec_error, assemble_input) result"
  pdNow :: instant
  pdLineage :: "uuid \<Rightarrow> uuid"

record producer_metrics =
  pmScanned :: nat
  pmProduced :: nat
  pmBlocked :: nat
  pmDeduped :: nat
  pmParked :: nat
  pmErrors :: nat

definition zeroMetrics :: producer_metrics where
  "zeroMetrics = \<lparr>pmScanned = 0, pmProduced = 0, pmBlocked = 0, pmDeduped = 0, pmParked = 0, pmErrors = 0\<rparr>"

definition darkResolve :: "eligible_event \<Rightarrow> (rec_error, assemble_input) result" where
  "darkResolve ev = Inl RecInputsUnavailable"

definition stampInput :: "producer \<Rightarrow> eligible_event \<Rightarrow> assemble_input \<Rightarrow> assemble_input" where
  "stampInput pd ev inp =
     inp\<lparr>aiEventID := egEventID ev, aiAccountID := egAccountID ev, aiVariantID := egVariantID ev,
        aiContextVersion := egEvidenceVersion ev,
        aiNow := (if aiNow inp = 0 then pdNow pd else aiNow inp)\<rparr>"

definition produceOne ::
  "producer \<Rightarrow> rec_env \<Rightarrow> rec_db \<Rightarrow> eligible_event \<Rightarrow> producer_metrics
    \<Rightarrow> rec_db \<times> producer_metrics \<times> rec_error option" where
  "produceOne pd env db ev m =
     (case pdResolve pd ev of
        Inl RecInputsUnavailable \<Rightarrow> (db, m\<lparr>pmParked := pmParked m + 1\<rparr>, None)
      | Inl e \<Rightarrow> (db, m\<lparr>pmErrors := pmErrors m + 1\<rparr>, Some e)
      | Inr inp \<Rightarrow>
          (let lineage = pdLineage pd (egEventID ev); current = currentRecommendation db lineage in
           if (case current of None \<Rightarrow> False
               | Some r \<Rightarrow> egEvidenceVersion ev \<le>s rmContextVersion r)
           then (db, m\<lparr>pmDeduped := pmDeduped m + 1\<rparr>, None)
           else
             (case produceVersion env db lineage (egAccountID ev) (assemble (stampInput pd ev inp)) of
                Inl e \<Rightarrow> (db, m\<lparr>pmErrors := pmErrors m + 1\<rparr>, Some e)
              | Inr (db', _, cardCreated) \<Rightarrow>
                  if cardCreated then (db', m\<lparr>pmProduced := pmProduced m + 1\<rparr>, None)
                  else (db', m\<lparr>pmBlocked := pmBlocked m + 1\<rparr>, None))))"

fun produceAll ::
  "producer \<Rightarrow> rec_env \<Rightarrow> rec_db \<Rightarrow> eligible_event list \<Rightarrow> producer_metrics \<Rightarrow> rec_error list
    \<Rightarrow> rec_db \<times> producer_metrics \<times> rec_error list" where
  "produceAll pd env db [] m errs = (db, m, errs)"
| "produceAll pd env db (ev # evs) m errs =
     (case produceOne pd env db ev (m\<lparr>pmScanned := pmScanned m + 1\<rparr>) of
        (db', m', err) \<Rightarrow>
          produceAll pd env db' evs m' (case err of None \<Rightarrow> errs | Some e \<Rightarrow> errs @ [e]))"

definition runOnce ::
  "producer \<Rightarrow> rec_env \<Rightarrow> rec_db \<Rightarrow> (rec_error, eligible_event list) result
    \<Rightarrow> rec_db \<times> producer_metrics \<times> rec_error list" where
  "runOnce pd env db eligible =
     (case eligible of
        Inl e \<Rightarrow> (db, zeroMetrics\<lparr>pmErrors := 1\<rparr>, [e])
      | Inr events \<Rightarrow> produceAll pd env db events zeroMetrics [])"

section \<open>Facts about the queries\<close>

lemma find_Some_set: "find P xs = Some x \<Longrightarrow> x \<in> set xs \<and> P x"
  by (induction xs) (auto split: if_splits)

lemma latestBy_Some: "latestBy f xs = Some x \<Longrightarrow> x \<in> set xs \<and> (\<forall>y\<in>set xs. f y \<le> f x)"
  using find_Some_set [of _ xs x] by (auto simp: latestBy_def list_all_iff)

lemma latestBy_exists: "xs \<noteq> [] \<Longrightarrow> \<exists>x\<in>set xs. \<forall>y\<in>set xs. f y \<le> (f x :: int)"
proof (induction xs)
  case (Cons a xs)
  show ?case
  proof (cases "xs = []")
    case False
    with Cons.IH obtain x where x: "x \<in> set xs" "\<forall>y\<in>set xs. f y \<le> f x" by blast
    show ?thesis
    proof (cases "f a \<le> f x")
      case True
      with x show ?thesis by (intro bexI [of _ x]) auto
    next
      case le: False
      with x show ?thesis by (intro bexI [of _ a]) fastforce+
    qed
  qed simp
qed simp

lemma latestBy_None: "latestBy f xs = None \<longleftrightarrow> xs = []"
  using latestBy_exists [of xs f] by (auto simp: latestBy_def find_None_iff list_all_iff)

lemma latestBy_unique:
  assumes "x \<in> set xs" and "\<And>y. y \<in> set xs \<Longrightarrow> y \<noteq> x \<Longrightarrow> f y < f x"
  shows "latestBy f xs = Some x"
proof -
  have "latestBy f xs \<noteq> None" using assms(1) by (auto simp: latestBy_None)
  then obtain y where y: "latestBy f xs = Some y" by blast
  with latestBy_Some [OF y] assms show ?thesis by (metis not_le)
qed

lemma nextVersion_Some:
  assumes "nextVersion f xs = Some v"
  shows "v \<le> 2147483647 \<and> (\<forall>y\<in>set xs. f y < v) \<and> (xs = [] \<longrightarrow> v = 1)
    \<and> (xs \<noteq> [] \<longrightarrow> (\<exists>x\<in>set xs. v = f x + 1))"
proof (cases "latestBy f xs")
  case None
  with assms show ?thesis by (auto simp: nextVersion_def latestBy_None split: if_splits)
next
  case (Some x)
  with assms latestBy_Some [OF Some] show ?thesis
    by (auto simp: nextVersion_def Let_def split: if_splits intro!: bexI [of _ x])
qed

lemma getRecommendation_Some: "getRecommendation db i = Some r \<Longrightarrow> r \<in> set (rdRecommendations db) \<and> rmID r = i"
  using find_Some_set [of _ "rdRecommendations db" r] by (auto simp: getRecommendation_def)

section \<open>What each statement changes\<close>

lemma advanceCard_ok:
  "advanceCard db i f t reason = Inr (db', row') \<longleftrightarrow>
     canTransition f t \<and>
     (\<exists>row. getCard db i = Some row \<and> crState row = f \<and> row' = row\<lparr>crState := t\<rparr> \<and>
        db' = db\<lparr>rdExec := (rdExec db)\<lparr>edCards := (edCards (rdExec db))(i \<mapsto> row'),
                 edCardStates := edCardStates (rdExec db) @
                   [\<lparr>csCardID = i, csFromState = Some f, csToState = t, csReason = reason\<rparr>]\<rparr>\<rparr>)"
proof (cases "advance f t")
  case (Inl e)
  then show ?thesis using advance_ok [of f t] by (auto simp: advanceCard_def advanceTx_def)
next
  case (Inr u)
  then show ?thesis
    using advance_ok [of f t]
    by (auto simp: advanceCard_def advanceTx_def getCard_def split: option.splits if_splits)
qed

lemma advanceCard_err: "advanceCard db i f t reason = Inl e \<Longrightarrow> e = RecRejectedTransition"
  by (auto simp: advanceCard_def split: sum.splits option.splits)

lemma insertCard_ok:
  assumes "insertCard env db row = Inr (db', c)"
  obtains v where
    "nextVersion cardVersion (filter (\<lambda>c. crLineageID c = crLineageID row) (cards db)) = Some v"
    "c = row\<lparr>crID := nvID env db, crVersion := word_of_int v, crCreatedAt := nvNow env\<rparr>"
    "getCard db (crID c) = None" "\<forall>d\<in>set (cards db). crIdempotencyKey d \<noteq> crIdempotencyKey c"
    "\<exists>r\<in>set (rdRecommendations db). rmID r = crRecommendationID c \<and> rmAccountID r = crAccountID c"
    "db' = db\<lparr>rdExec := (rdExec db)\<lparr>edCards := (edCards (rdExec db))(crID c \<mapsto> c)\<rparr>,
             rdCardOrder := rdCardOrder db @ [crID c]\<rparr>"
  using assms by (auto simp: insertCard_def Let_def list_ex_iff split: option.splits if_splits)

section \<open>Well-formed tables\<close>

definition rowsOk :: "rec_db \<Rightarrow> bool" where
  "rowsOk db \<longleftrightarrow>
     distinct (rdCardOrder db) \<and> dom (edCards (rdExec db)) = set (rdCardOrder db) \<and>
     (\<forall>i c. getCard db i = Some c \<longrightarrow>
        crID c = i \<and> 1 \<le> cardVersion c \<and> cardVersion c \<le> 2147483647 \<and>
        (\<exists>r\<in>set (rdRecommendations db). rmID r = crRecommendationID c \<and> rmAccountID r = crAccountID c))"

definition uniqueOk :: "rec_db \<Rightarrow> bool" where
  "uniqueOk db \<longleftrightarrow>
     (\<forall>c\<in>set (cards db). \<forall>d\<in>set (cards db).
        crIdempotencyKey c = crIdempotencyKey d \<or>
        crLineageID c = crLineageID d \<and> crVersion c = crVersion d \<longrightarrow> c = d)"

lemma set_rowsIn: "c \<in> set (rowsIn m ids) \<longleftrightarrow> (\<exists>i\<in>set ids. m i = Some c)"
  by (induction ids) (auto split: option.splits)

lemma rowsIn_cong: "(\<And>i. i \<in> set ids \<Longrightarrow> m i = n i) \<Longrightarrow> rowsIn m ids = rowsIn n ids"
  by (induction ids) (simp_all split: option.splits)

lemma rowsIn_append: "rowsIn m (ids @ js) = rowsIn m ids @ rowsIn m js"
  by (induction ids) (simp_all split: option.splits)

lemma set_cards: "c \<in> set (cards db) \<longleftrightarrow> (\<exists>i\<in>set (rdCardOrder db). getCard db i = Some c)"
  by (simp add: cards_def getCard_def set_rowsIn)

lemma rowsOk_set_cards: "rowsOk db \<Longrightarrow> c \<in> set (cards db) \<longleftrightarrow> getCard db (crID c) = Some c"
  by (auto simp: set_cards rowsOk_def getCard_def)

lemma rowsOk_ID: "rowsOk db \<Longrightarrow> getCard db i = Some c \<Longrightarrow> crID c = i"
  by (simp add: rowsOk_def)

lemma currentCard_Some:
  assumes "rowsOk db" and "currentCard db l = Some c"
  shows "getCard db (crID c) = Some c \<and> crLineageID c = l \<and>
    (\<forall>d. getCard db (crID d) = Some d \<and> crLineageID d = l \<longrightarrow> cardVersion d \<le> cardVersion c)"
  using latestBy_Some [of cardVersion _ c] assms
  by (fastforce simp: currentCard_def rowsOk_set_cards)

lemma currentCard_exists: "rowsOk db \<Longrightarrow> getCard db i = Some c \<Longrightarrow> currentCard db (crLineageID c) \<noteq> None"
  by (auto simp: currentCard_def latestBy_None filter_empty_conv rowsOk_set_cards rowsOk_ID)

text \<open>Moving a card keeps everything but its state.\<close>

lemma cards_advance:
  assumes "rowsOk db" and "advanceCard db i f t reason = Inr (db', row')"
  shows "cards db' = map (\<lambda>c. if crID c = i then c\<lparr>crState := t\<rparr> else c) (cards db)"
proof -
  from assms(2) obtain row where row: "getCard db i = Some row" "row' = row\<lparr>crState := t\<rparr>"
    and o: "rdCardOrder db' = rdCardOrder db" "edCards (rdExec db') = (edCards (rdExec db))(i \<mapsto> row')"
    by (auto simp: advanceCard_ok)
  have "rowsIn ((edCards (rdExec db))(i \<mapsto> row')) js
      = map (\<lambda>c. if crID c = i then c\<lparr>crState := t\<rparr> else c) (rowsIn (edCards (rdExec db)) js)" for js
  proof (induction js)
    case (Cons j js)
    have "edCards (rdExec db) j = Some c \<Longrightarrow> crID c = j" for c
      using rowsOk_ID [OF assms(1), of j c] by (simp add: getCard_def)
    then show ?case using Cons row by (cases "j = i") (auto simp: getCard_def split: option.splits)
  qed simp
  then show ?thesis by (simp add: cards_def o)
qed

lemma advance_frame:
  assumes "advanceCard db i f t reason = Inr (db', row')"
  shows "rdCardOrder db' = rdCardOrder db" "rdRecommendations db' = rdRecommendations db"
    "rdIntents db' = rdIntents db" "edAudit (rdExec db') = edAudit (rdExec db)"
    "rdOwners db' = rdOwners db" "rdSets db' = rdSets db" "rdMembers db' = rdMembers db"
    "rdProposals db' = rdProposals db"
  using assms by (auto simp: advanceCard_ok)

lemma getCard_advance:
  assumes "advanceCard db i f t reason = Inr (db', row')"
  obtains row where "getCard db i = Some row" "crState row = f" "row' = row\<lparr>crState := t\<rparr>"
    "canTransition f t" "\<And>j. getCard db' j = (if j = i then Some row' else getCard db j)"
    "edCardStates (rdExec db') = edCardStates (rdExec db) @
       [\<lparr>csCardID = i, csFromState = Some f, csToState = t, csReason = reason\<rparr>]"
  using assms by (auto simp: advanceCard_ok getCard_def)

definition rowOk :: "recommendation_row list \<Rightarrow> uuid \<Rightarrow> card_row \<Rightarrow> bool" where
  "rowOk rs i c \<longleftrightarrow>
     crID c = i \<and> 1 \<le> cardVersion c \<and> cardVersion c \<le> 2147483647 \<and>
     (\<exists>r\<in>set rs. rmID r = crRecommendationID c \<and> rmAccountID r = crAccountID c)"

lemma rowsOk_iff:
  "rowsOk db \<longleftrightarrow>
     distinct (rdCardOrder db) \<and> (\<forall>i. i \<in> set (rdCardOrder db) \<longleftrightarrow> getCard db i \<noteq> None) \<and>
     (\<forall>i c. getCard db i = Some c \<longrightarrow> rowOk (rdRecommendations db) i c)"
  by (auto simp: rowsOk_def rowOk_def getCard_def)

lemma rowOk_state [simp]: "rowOk rs i (c\<lparr>crState := t\<rparr>) = rowOk rs i c"
  by (simp add: rowOk_def)

lemma rowsOk_advance:
  assumes "rowsOk db" and "advanceCard db i f t reason = Inr (db', row')"
  shows "rowsOk db'"
  using assms(2)
proof (rule getCard_advance)
  fix row
  assume a: "getCard db i = Some row" "row' = row\<lparr>crState := t\<rparr>"
    "\<And>j. getCard db' j = (if j = i then Some row' else getCard db j)"
  have "rowOk (rdRecommendations db) i row" using assms(1) a(1) by (simp add: rowsOk_iff)
  moreover have "i \<in> set (rdCardOrder db)" using assms(1) a(1) by (simp add: rowsOk_iff)
  ultimately show "rowsOk db'"
    using assms(1) unfolding rowsOk_iff advance_frame [OF assms(2)] by (simp add: a(2,3))
qed

lemma uniqueOk_advance:
  assumes "rowsOk db" and "uniqueOk db" and "advanceCard db i f t reason = Inr (db', row')"
  shows "uniqueOk db'"
proof -
  have "crID c = crID d \<Longrightarrow> c = d" if "c \<in> set (cards db)" "d \<in> set (cards db)" for c d
    using that assms(1) by (metis option.inject rowsOk_set_cards)
  then show ?thesis
    using assms(2) unfolding uniqueOk_def cards_advance [OF assms(1,3)] by auto
qed

lemma cards_mint:
  assumes "rowsOk db" and "mintDraftCard env db recID l a b p = Inr (db', c)"
  shows "cards db' = cards db @ [c]" and "getCard db (crID c) = None"
    and "edCards (rdExec db') = (edCards (rdExec db))(crID c \<mapsto> c)"
proof -
  from assms(2) obtain db1 where i: "insertCard env db (cardParams env recID l a b p) = Inr (db1, c)"
    and d: "db' = appendCardState db1 \<lparr>csCardID = crID c, csFromState = None, csToState = StateDraft, csReason = ''card created''\<rparr>"
    by (auto simp: mintDraftCard_def andThen_Inr)
  from i show n: "getCard db (crID c) = None" and e: "edCards (rdExec db') = (edCards (rdExec db))(crID c \<mapsto> c)"
    by (auto elim!: insertCard_ok simp: d appendCardState_def)
  have o: "rdCardOrder db' = rdCardOrder db @ [crID c]"
    using i by (auto elim!: insertCard_ok simp: d appendCardState_def)
  have "crID c \<notin> set (rdCardOrder db)" using n assms(1) by (auto simp: rowsOk_def getCard_def)
  then have "rowsIn ((edCards (rdExec db))(crID c \<mapsto> c)) (rdCardOrder db) = cards db"
    unfolding cards_def by (intro rowsIn_cong) auto
  then show "cards db' = cards db @ [c]" by (simp add: cards_def e o rowsIn_append)
qed

end
