(* ===== verification/RecommendationLife.thy ===== *)
theory RecommendationLife
  imports RecommendationStore
begin

text \<open>
  What the recommendation service keeps over the life of its cards: the append-only history of a card
  is a path of the approval machine that ends in its state, every approval has exactly one audit
  record and a durable execution intent, a superseded control cannot approve, a reopened mapping
  leaves no control alive, and production is idempotent.
\<close>

section \<open>Minted rows\<close>

lemma mint_ok:
  assumes "mintDraftCard env db recID l a b p = Inr (db', c)"
  obtains v where
    "nextVersion cardVersion (filter (\<lambda>d. crLineageID d = l) (cards db)) = Some v"
    "c = (cardParams env recID l a b p)\<lparr>crID := nvID env db, crVersion := word_of_int v, crCreatedAt := nvNow env\<rparr>"
    "getCard db (crID c) = None" "\<forall>d\<in>set (cards db). crIdempotencyKey d \<noteq> crIdempotencyKey c"
    "\<exists>r\<in>set (rdRecommendations db). rmID r = recID \<and> rmAccountID r = a"
    "\<And>j. getCard db' j = (if j = crID c then Some c else getCard db j)"
    "rdCardOrder db' = rdCardOrder db @ [crID c]"
    "edCardStates (rdExec db') = edCardStates (rdExec db) @
       [\<lparr>csCardID = crID c, csFromState = None, csToState = StateDraft, csReason = ''card created''\<rparr>]"
    "rdRecommendations db' = rdRecommendations db" "rdIntents db' = rdIntents db"
    "edAudit (rdExec db') = edAudit (rdExec db)"
proof -
  from assms obtain db1 where i: "insertCard env db (cardParams env recID l a b p) = Inr (db1, c)"
    and d: "db' = appendCardState db1 \<lparr>csCardID = crID c, csFromState = None, csToState = StateDraft, csReason = ''card created''\<rparr>"
    by (auto simp: mintDraftCard_def andThen_Inr)
  from i show thesis
  proof (rule insertCard_ok)
    fix v
    assume "nextVersion cardVersion (filter (\<lambda>d. crLineageID d = crLineageID (cardParams env recID l a b p)) (cards db)) = Some v"
      and "c = (cardParams env recID l a b p)\<lparr>crID := nvID env db, crVersion := word_of_int v, crCreatedAt := nvNow env\<rparr>"
      and "getCard db (crID c) = None" and "\<forall>d\<in>set (cards db). crIdempotencyKey d \<noteq> crIdempotencyKey c"
      and "\<exists>r\<in>set (rdRecommendations db). rmID r = crRecommendationID c \<and> rmAccountID r = crAccountID c"
      and "db1 = db\<lparr>rdExec := (rdExec db)\<lparr>edCards := (edCards (rdExec db))(crID c \<mapsto> c)\<rparr>,
             rdCardOrder := rdCardOrder db @ [crID c]\<rparr>"
    then show thesis
      by (intro that [of v]) (auto simp: d appendCardState_def getCard_def cardParams_def)
  qed
qed

lemma nextVersion_word:
  assumes "nextVersion cardVersion cs = Some v" and "\<forall>c\<in>set cs. 1 \<le> cardVersion c"
  shows "sint (word_of_int v :: int64) = v \<and> 1 \<le> v \<and> v \<le> 2147483647"
proof -
  note n = nextVersion_Some [OF assms(1)]
  have "1 \<le> v"
  proof (cases "cs = []")
    case False
    then show ?thesis using n assms(2) by fastforce
  qed (use n in simp)
  then show ?thesis using n by (simp add: sint_of_int64 inInt64_def)
qed

lemma mint_version:
  assumes "rowsOk db" and "mintDraftCard env db recID l a b p = Inr (db', c)"
  shows "1 \<le> cardVersion c" "cardVersion c \<le> 2147483647"
    "\<And>d. getCard db (crID d) = Some d \<Longrightarrow> crLineageID d = l \<Longrightarrow> cardVersion d < cardVersion c"
proof -
  from assms(2) obtain v where v: "nextVersion cardVersion (filter (\<lambda>d. crLineageID d = l) (cards db)) = Some v"
    and c: "crVersion c = word_of_int v"
    by (auto elim!: mint_ok)
  have w: "sint (word_of_int v :: int64) = v \<and> 1 \<le> v \<and> v \<le> 2147483647"
    using assms(1) by (intro nextVersion_word [OF v]) (auto simp: rowsOk_set_cards rowsOk_iff rowOk_def)
  then show "1 \<le> cardVersion c" "cardVersion c \<le> 2147483647" by (simp_all add: c)
  show "cardVersion d < cardVersion c" if "getCard db (crID d) = Some d" "crLineageID d = l" for d
  proof -
    have "d \<in> set (filter (\<lambda>d. crLineageID d = l) (cards db))"
      using that assms(1) by (simp add: rowsOk_set_cards)
    then show ?thesis using nextVersion_Some [OF v] w by (simp add: c)
  qed
qed

lemma mint_row:
  assumes "mintDraftCard env db recID l a b p = Inr (db', c)"
  shows "crState c = StateDraft" "crLineageID c = l" "crRecommendationID c = recID" "crAccountID c = a"
    "crPrice c = p" "crIdempotencyKey c = idempotencyKey (nvUUIDStr env) b"
    "crParameterVersion c = bnParameterVersion b" "crActionID c = bnActionID b"
    "crEvidence c = Some (bnEvidenceVersions b)" "crExpiresAt c = bnExpiry b"
    "crContextVersion c = bnContextVersion b" "crPolicyVersion c = bnPolicyVersion b"
    "crCostProfileVersion c = bnCostProfileVersion b"
  using assms by (auto elim!: mint_ok simp: cardParams_def)

lemma rowsOk_mint:
  assumes "rowsOk db" and "mintDraftCard env db recID l a b p = Inr (db', c)"
  shows "rowsOk db'"
  using assms(2)
proof (rule mint_ok)
  assume m: "getCard db (crID c) = None" "\<And>j. getCard db' j = (if j = crID c then Some c else getCard db j)"
    "rdCardOrder db' = rdCardOrder db @ [crID c]" "rdRecommendations db' = rdRecommendations db"
    "\<exists>r\<in>set (rdRecommendations db). rmID r = recID \<and> rmAccountID r = a"
  have "rowOk (rdRecommendations db) (crID c) c"
    using mint_version [OF assms] mint_row [OF assms(2)] m(5) by (simp add: rowOk_def)
  moreover have "crID c \<notin> set (rdCardOrder db)" using assms(1) m(1) by (simp add: rowsOk_iff)
  ultimately show ?thesis
    using assms(1) unfolding rowsOk_iff m(3,4) by (auto simp: m(2))
qed

lemma uniqueOk_mint:
  assumes "rowsOk db" and "uniqueOk db" and "mintDraftCard env db recID l a b p = Inr (db', c)"
  shows "uniqueOk db'"
proof -
  have k: "\<forall>d\<in>set (cards db). crIdempotencyKey d \<noteq> crIdempotencyKey c"
    using assms(3) by (auto elim!: mint_ok)
  have v: "\<forall>d\<in>set (cards db). \<not> (crLineageID d = crLineageID c \<and> crVersion d = crVersion c)"
    using mint_version(3) [OF assms(1,3)] mint_row(2) [OF assms(3)] assms(1)
    by (fastforce simp: rowsOk_set_cards)
  show ?thesis
    using assms(2) k v unfolding uniqueOk_def cards_mint(1) [OF assms(1,3)] by auto
qed

text \<open>The minted card heads its lineage.\<close>

lemma mint_current:
  assumes "rowsOk db" and "mintDraftCard env db recID l a b p = Inr (db', c)"
  shows "currentCard db' l = Some c"
proof -
  have "currentCard db' l = latestBy cardVersion (filter (\<lambda>d. crLineageID d = l) (cards db) @ [c])"
    by (simp add: currentCard_def cards_mint(1) [OF assms] mint_row(2) [OF assms(2)])
  also have "\<dots> = Some c"
    using mint_version(3) [OF assms] assms(1)
    by (intro latestBy_unique) (auto simp: rowsOk_set_cards)
  finally show ?thesis .
qed

section \<open>The history of a card\<close>

definition history :: "rec_db \<Rightarrow> uuid \<Rightarrow> card_state_row list" where
  "history db i = filter (\<lambda>r. csCardID r = i) (edCardStates (rdExec db))"

text \<open>The rows lead from one state to the other along the machine; no state is before the first.\<close>

fun follows :: "state option \<Rightarrow> card_state_row list \<Rightarrow> state option \<Rightarrow> bool" where
  "follows s [] t \<longleftrightarrow> s = t"
| "follows s (r # rs) t \<longleftrightarrow>
     csFromState r = s \<and>
     (case s of None \<Rightarrow> csToState r = StateDraft | Some f \<Rightarrow> canTransition f (csToState r)) \<and>
     follows (Some (csToState r)) rs t"

lemma follows_append: "follows s (xs @ ys) t \<longleftrightarrow> (\<exists>u. follows s xs u \<and> follows u ys t)"
  by (induction xs arbitrary: s) auto

definition historyOk :: "rec_db \<Rightarrow> bool" where
  "historyOk db \<longleftrightarrow> (\<forall>i. follows None (history db i) (map_option crState (getCard db i)))"

lemma historyOk_append:
  assumes "historyOk db" and "\<And>j. getCard db' j = (if j = i then Some c else getCard db j)"
    and "edCardStates (rdExec db') = edCardStates (rdExec db) @ [r]" and "csCardID r = i"
    and "follows (map_option crState (getCard db i)) [r] (Some (crState c))"
  shows "historyOk db'"
proof -
  have "history db' j = history db j @ (if j = i then [r] else [])" for j
    by (simp add: history_def assms(3,4))
  then show ?thesis using assms(1,2,5) by (auto simp: historyOk_def follows_append)
qed

lemma mint_effect:
  assumes "mintDraftCard env db recID l a b p = Inr (db', c)"
  shows "\<And>j. getCard db' j = (if j = crID c then Some c else getCard db j)" "getCard db (crID c) = None"
    "edCardStates (rdExec db') = edCardStates (rdExec db) @
       [\<lparr>csCardID = crID c, csFromState = None, csToState = StateDraft, csReason = ''card created''\<rparr>]"
    "rdRecommendations db' = rdRecommendations db" "rdIntents db' = rdIntents db"
    "edAudit (rdExec db') = edAudit (rdExec db)" "rdCardOrder db' = rdCardOrder db @ [crID c]"
    "\<forall>d\<in>set (cards db). crIdempotencyKey d \<noteq> crIdempotencyKey c"
  using assms by (auto elim!: mint_ok)

lemma historyOk_mint:
  assumes "historyOk db" and "mintDraftCard env db recID l a b p = Inr (db', c)"
  shows "historyOk db'"
  using mint_row(1) [OF assms(2)] mint_effect(2) [OF assms(2)]
  by (intro historyOk_append [OF assms(1) mint_effect(1,3) [OF assms(2)]]) simp_all

lemma historyOk_advance:
  assumes "historyOk db" and "advanceCard db i f t reason = Inr (db', row')"
  shows "historyOk db'"
  using assms(2)
  by (rule getCard_advance) (rule historyOk_append [OF assms(1)], assumption, assumption, simp_all)

section \<open>Individual confirmation\<close>

text \<open>The service as it is wired at startup, with a rechecker or without.\<close>

definition wired ::
  "rec_env \<Rightarrow> (recommendation_row \<Rightarrow> (rec_error, policy_context) result) option \<Rightarrow> rec_service" where
  "wired env rc = (setExecutionDispatcher (newService env) dispatchApproved)\<lparr>svRecheck := rc\<rparr>"

text \<open>
  A row read earlier in the transaction: only the state of a card ever changes, so it may differ from
  the committed row in the state alone.
\<close>

definition earlierRead :: "rec_db \<Rightarrow> card_row \<Rightarrow> bool" where
  "earlierRead db requested \<longleftrightarrow>
     (\<exists>row. getCard db (crID requested) = Some row \<and> requested = row\<lparr>crState := crState requested\<rparr>)"

definition rowBinding :: "card_row \<Rightarrow> binding" where
  "rowBinding c =
     \<lparr>bnActionID = crActionID c, bnParameterVersion = crParameterVersion c,
      bnContextVersion = crContextVersion c, bnPolicyVersion = crPolicyVersion c,
      bnCostProfileVersion = crCostProfileVersion c,
      bnEvidenceVersions = (case crEvidence c of None \<Rightarrow> fmempty | Some e \<Rightarrow> e),
      bnExpiry = crExpiresAt c\<rparr>"

definition intentOf :: "card_row \<Rightarrow> execute_args" where
  "intentOf c = \<lparr>xaCardID = crID c, xaActionID = crActionID c, xaParameterVersion = crParameterVersion c,
     xaContextVersion = crContextVersion c\<rparr>"

definition hasIntent :: "rec_db \<Rightarrow> uuid \<Rightarrow> bool" where
  "hasIntent db i \<longleftrightarrow> list_ex (\<lambda>a. xaCardID a = i) (rdIntents db)"

lemma cardFromDB_ok:
  "cardFromDB row = Inr c \<Longrightarrow> cdState c = crState row \<and> cdBinding c = rowBinding row \<and> \<not> cdSimulation c \<and>
     cdID c = crID row \<and> cdVersion c = crVersion row \<and> cdPrice c = crPrice row"
  by (auto simp: cardFromDB_def andThen_Inr mapErr_Inr newMoney_def rowBinding_def
      split: option.splits if_splits)

lemma controlOf_ok: "controlOf f c = Inr k \<Longrightarrow> cdState c = StateAwaitingConfirmation \<and> \<not> cdSimulation c"
  by (auto simp: controlOf_def split: if_splits)

lemma wired_sel [simp]:
  "svDispatcher (wired env rc) = Some dispatchApproved" "svRecheck (wired env rc) = rc"
  "svAuditAppend (wired env rc) = appendAuditRow env"
  by (simp_all add: wired_def setExecutionDispatcher_def newService_def)

definition auditApproval :: "rec_env \<Rightarrow> rec_db \<Rightarrow> audit_event \<Rightarrow> rec_db" where
  "auditApproval env db ev = db\<lparr>rdExec := appendAudit (rdExec db) (nvID env db) (nvNow env) ev\<rparr>"

definition addIntent :: "rec_db \<Rightarrow> card_row \<Rightarrow> rec_db" where
  "addIntent db c = (if hasIntent db (crID c) then db else db\<lparr>rdIntents := rdIntents db @ [intentOf c]\<rparr>)"

lemma dispatchApproved_eq: "dispatchApproved db c = Inr (addIntent db c)"
  by (simp add: dispatchApproved_def addIntent_def hasIntent_def intentOf_def)

lemma recordApproval_wired:
  "recordApproval (wired env rc) db advanced b pres act = Inr db2 \<longleftrightarrow>
     db2 = addIntent (auditApproval env db (confirmationEvent advanced b pres act)) advanced"
  by (auto simp: recordApproval_def appendAuditRow_def dispatchApproved_eq auditApproval_def)

lemma earlierRead_head:
  assumes "rowsOk db" and "getCard db (crID requested) = Some row"
    and "requested = row\<lparr>crState := crState requested\<rparr>" and "currentCard db (crLineageID row) = Some current"
  shows "crID requested = crID current \<and> crVersion requested = crVersion current \<longleftrightarrow> current = row"
proof -
  have c: "getCard db (crID current) = Some current"
    using currentCard_Some [OF assms(1,4)] by simp
  have v: "crVersion requested = crVersion row" by (subst assms(3)) simp
  have i: "crID row = crID requested" using rowsOk_ID [OF assms(1,2)] .
  show ?thesis
  proof
    assume "crID requested = crID current \<and> crVersion requested = crVersion current"
    then have "crID requested = crID current" ..
    with c assms(2) show "current = row" by simp
  next
    assume "current = row"
    with v i show "crID requested = crID current \<and> crVersion requested = crVersion current" by simp
  qed
qed

lemma rowBinding_state [simp]: "rowBinding (c\<lparr>crState := t\<rparr>) = rowBinding c"
  by (simp add: rowBinding_def)

lemma supersededReason_not_none: "supersededReason b c now \<noteq> ReasonNone"
  by (simp add: supersededReason_def Let_def)

lemma confirmLocked_cases:
  assumes "rowsOk db" and "earlierRead db requested"
    and "confirmLocked svc db requested presented now act = Inr (db', out)"
  obtains
    (superseded) row current db1 where
      "getCard db (crID requested) = Some row" "crState row = StateAwaitingConfirmation"
      "currentCard db (crLineageID row) = Some current" "current \<noteq> row" "db' = db1"
      "advanceCard db (crID requested) StateAwaitingConfirmation StateInvalidated (confirmReason (coReason out))
         = Inr (db1, coCard out)"
      "coState out = StateInvalidated" "coReason out = supersededReason (rowBinding row) (rowBinding current) now"
      "\<not> coExecutionPending out"
  | (current) row db1 where
      "getCard db (crID requested) = Some row" "crState row = StateAwaitingConfirmation"
      "currentCard db (crLineageID row) = Some row"
      "coReason out = validateAgainst (rowBinding row) presented now"
      "coState out = (if coReason out = ReasonNone then StateApproved
         else if coReason out = ReasonExpired then StateExpired else StateInvalidated)"
      "advanceCard db (crID requested) StateAwaitingConfirmation (coState out) (confirmReason (coReason out))
         = Inr (db1, coCard out)"
      "coExecutionPending out = (coState out = StateApproved)"
      "if coState out = StateApproved
       then recordApproval svc db1 (coCard out) (rowBinding row) presented act = Inr db' else db' = db1"
proof -
  from assms(2) obtain row where row: "getCard db (crID requested) = Some row"
    and req: "requested = row\<lparr>crState := crState requested\<rparr>"
    by (auto simp: earlierRead_def)
  have same: "crLineageID requested = crLineageID row" "rowBinding requested = rowBinding row"
    by (subst req, simp)+
  from assms(3) obtain c k current where c: "cardFromDB requested = Inr c" "controlOf (\<lambda>_. []) c = Inr k"
    and cur: "currentCard db (crLineageID row) = Some current"
    by (auto simp: confirmLocked_def andThen_Inr mapErr_Inr same split: option.splits)
  have b: "cdBinding c = rowBinding row" using cardFromDB_ok [OF c(1)] same by simp
  note head = earlierRead_head [OF assms(1) row req cur]
  show thesis
  proof (cases "current = row")
    case False
    with assms(3) head b c obtain d db1 adv where d: "cardFromDB current = Inr d"
      and a: "advanceCard db (crID requested) StateAwaitingConfirmation StateInvalidated
        (confirmReason (supersededReason (rowBinding row) (cdBinding d) now)) = Inr (db1, adv)"
      and o: "db' = db1" "out = \<lparr>coCard = adv, coState = StateInvalidated,
        coReason = supersededReason (rowBinding row) (cdBinding d) now, coExecutionPending = False\<rparr>"
      by (auto simp: confirmLocked_def andThen_Inr mapErr_Inr same cur Let_def split: if_splits)
    from a row have "crState row = StateAwaitingConfirmation" by (auto simp: advanceCard_ok)
    then show thesis
      using superseded [OF row _ cur False] a o cardFromDB_ok [OF d] by simp
  next
    case True
    with assms(3) head b c obtain c' reason db1 adv where k: "confirm c presented now = Inr (c', reason)"
      and a: "advanceCard db (crID requested) StateAwaitingConfirmation (cdState c') (confirmReason reason) = Inr (db1, adv)"
      and r: "(if cdState c' = StateApproved then recordApproval svc db1 adv (rowBinding row) presented act
               else Inr db1) = Inr db'"
      and o: "out = \<lparr>coCard = adv, coState = cdState c', coReason = reason,
        coExecutionPending = (cdState c' = StateApproved)\<rparr>"
      by (auto simp: confirmLocked_def andThen_Inr mapErr_Inr same cur Let_def split: if_splits)
    from a row have s: "crState row = StateAwaitingConfirmation" by (auto simp: advanceCard_ok)
    from k b have "reason = validateAgainst (rowBinding row) presented now"
      "cdState c' = (if reason = ReasonNone then StateApproved
         else if reason = ReasonExpired then StateExpired else StateInvalidated)"
      by (simp_all add: confirm_ok)
    then show thesis
      using current [OF row s] cur True a r o by (simp split: if_splits)
  qed
qed

lemma approval_frame [simp]:
  "getCard (addIntent db c) j = getCard db j" "getCard (auditApproval env db ev) j = getCard db j"
  "edAudit (rdExec (addIntent db c)) = edAudit (rdExec db)"
  "edAudit (rdExec (auditApproval env db ev)) =
     edAudit (rdExec db) @ [auditRecord (nvID env db) (nvNow env) ev]"
  "edCardStates (rdExec (addIntent db c)) = edCardStates (rdExec db)"
  "edCardStates (rdExec (auditApproval env db ev)) = edCardStates (rdExec db)"
  "rdIntents (addIntent db c) = rdIntents db @ (if hasIntent db (crID c) then [] else [intentOf c])"
  "rdIntents (auditApproval env db ev) = rdIntents db"
  "rdCardOrder (addIntent db c) = rdCardOrder db" "rdCardOrder (auditApproval env db ev) = rdCardOrder db"
  "rdRecommendations (addIntent db c) = rdRecommendations db"
  "rdRecommendations (auditApproval env db ev) = rdRecommendations db"
  "edCards (rdExec (addIntent db c)) = edCards (rdExec db)"
  "edCards (rdExec (auditApproval env db ev)) = edCards (rdExec db)"
  by (simp_all add: addIntent_def auditApproval_def appendAudit_def auditAppend_def getCard_def)

lemma hasIntent_frame [simp]: "hasIntent (auditApproval env db ev) i = hasIntent db i"
  by (simp add: hasIntent_def)

lemma hasIntent_advance: "advanceCard db i f t reason = Inr (db', row') \<Longrightarrow> hasIntent db' j = hasIntent db j"
  by (simp add: hasIntent_def advance_frame)

lemma intentOf_state [simp]: "intentOf (c\<lparr>crState := t\<rparr>) = intentOf c"
  by (simp add: intentOf_def)

lemma approved_iff:
  "(validateAgainst (rowBinding row) presented now = ReasonNone) =
     (now < crExpiresAt row \<and> presented\<lparr>bnExpiry := crExpiresAt row\<rparr> = rowBinding row)"
  by (simp add: validateAgainst_None rowBinding_def)

text \<open>
  C7. Individual confirmation decides one card, and only one that awaits confirmation: it becomes Approved
  exactly when it heads its lineage, has not expired and every bound version presented equals the one it
  was minted with; otherwise it becomes Expired or Invalidated.  An approval adds exactly one audit
  record, with the confirming actor and the bound versions, and leaves one execution intent for the
  card; any other outcome adds neither.  Whatever was read before the lineage lock does not matter.
\<close>

theorem confirm_outcomes:
  assumes "rowsOk db" and "earlierRead db requested"
    and "confirmLocked (wired env rc) db requested presented now act = Inr (db', out)"
  shows "\<exists>row i. getCard db (crID requested) = Some row \<and> crState row = StateAwaitingConfirmation
    \<and> coState out \<in> {StateApproved, StateExpired, StateInvalidated}
    \<and> coExecutionPending out = (coState out = StateApproved)
    \<and> (\<forall>j. getCard db' j = (if j = crID row then Some (row\<lparr>crState := coState out\<rparr>) else getCard db j))
    \<and> (coState out = StateApproved) =
        (currentCard db (crLineageID row) = Some row \<and> now < crExpiresAt row \<and>
         presented\<lparr>bnExpiry := crExpiresAt row\<rparr> = rowBinding row)
    \<and> edAudit (rdExec db') = edAudit (rdExec db) @
        (if coState out = StateApproved
         then [auditRecord i (nvNow env) (confirmationEvent (row\<lparr>crState := StateApproved\<rparr>) (rowBinding row) presented act)]
         else [])
    \<and> rdIntents db' = rdIntents db @
        (if coState out = StateApproved \<and> \<not> hasIntent db (crID row) then [intentOf row] else [])"
  using assms
proof (cases rule: confirmLocked_cases)
  case (superseded row current db1)
  have i: "crID row = crID requested" by (rule rowsOk_ID [OF assms(1) superseded(1)])
  from superseded(6) superseded(1) i show ?thesis
    using superseded advance_frame [OF superseded(6)]
    by (intro exI [of _ row] exI [of _ 0]) (auto elim!: getCard_advance)
next
  case (current row db1)
  have i: "crID row = crID requested" by (rule rowsOk_ID [OF assms(1) current(1)])
  have f: "edAudit (rdExec db1) = edAudit (rdExec db)" "rdIntents db1 = rdIntents db"
    "hasIntent db1 = hasIntent db"
    using advance_frame [OF current(6)] hasIntent_advance [OF current(6)] by (auto simp: fun_eq_iff)
  have g: "getCard db1 j = (if j = crID row then Some (row\<lparr>crState := coState out\<rparr>) else getCard db j)" for j
    using current(1,6) i by (auto elim!: getCard_advance)
  have c: "coCard out = row\<lparr>crState := coState out\<rparr>"
    using current(1,6) by (auto elim!: getCard_advance)
  have a: "(coState out = StateApproved) = (now < crExpiresAt row \<and> presented\<lparr>bnExpiry := crExpiresAt row\<rparr> = rowBinding row)"
    unfolding approved_iff [symmetric] using current(4,5) by auto
  show ?thesis
  proof (cases "coState out = StateApproved")
    case True
    with current(8) have "db' = addIntent (auditApproval env db1 (confirmationEvent (coCard out) (rowBinding row) presented act)) (coCard out)"
      by (simp add: recordApproval_wired)
    then show ?thesis using current(1-3,7) True f g c a i
      by (intro exI [of _ row] exI [of _ "nvID env db1"]) simp
  next
    case False
    with current(8) have "db' = db1" by simp
    then show ?thesis using current(1-3,5,7) False f g a i
      by (intro exI [of _ row] exI [of _ 0]) (auto split: if_splits)
  qed
qed

definition editedBinding :: "card_row \<Rightarrow> (uuid, int64) fmap \<Rightarrow> instant \<Rightarrow> binding" where
  "editedBinding old ev now =
     \<lparr>bnActionID = crActionID old, bnParameterVersion = crParameterVersion old + 1,
      bnContextVersion = crContextVersion old, bnPolicyVersion = crPolicyVersion old,
      bnCostProfileVersion = crCostProfileVersion old, bnEvidenceVersions = ev,
      bnExpiry = now + editPriceControlTTL\<rparr>"

lemma editCardPrice_ok:
  assumes "editCardPrice svc env dbC dbR db cardID price now = Inr (db', new)"
  obtains old recheck r pc res ev where
    "getCard dbC cardID = Some old" "svRecheck svc = Some recheck"
    "getRecommendation dbR (crRecommendationID old) = Some r" "recheck r = Inr pc"
    "admitEditedPrice pc price now = Inr (res, True)" "crEvidence old = Some ev"
    "mintDraftCard env db (crRecommendationID old) (crLineageID old) (crAccountID old)
       (editedBinding old ev now) price = Inr (db', new)"
  using assms
  by (auto simp: editCardPrice_def andThen_Inr editedBinding_def split: option.splits if_splits)

section \<open>Approvals, their audit records and intents\<close>

definition confirmationsOf :: "rec_db \<Rightarrow> uuid \<Rightarrow> nat" where
  "confirmationsOf db i =
     length (filter (\<lambda>a. arEventType a = EventConfirmation \<and> arCardID a = optionalUUID i) (edAudit (rdExec db)))"

definition approvalsOf :: "rec_db \<Rightarrow> uuid \<Rightarrow> nat" where
  "approvalsOf db i = length (filter (\<lambda>r. csToState r = StateApproved) (history db i))"

definition approvalsOk :: "rec_db \<Rightarrow> bool" where
  "approvalsOk db \<longleftrightarrow>
     (\<forall>i. confirmationsOf db i = approvalsOf db i) \<and> distinct (map xaCardID (rdIntents db)) \<and>
     (\<forall>i. hasIntent db i \<longleftrightarrow> 0 < approvalsOf db i)"

lemma optionalUUID_inj [simp]: "optionalUUID i = optionalUUID j \<longleftrightarrow> i = j"
  by (simp add: optionalUUID_def)

lemma approvalsOf_append:
  assumes "edCardStates (rdExec db') = edCardStates (rdExec db) @ [r]"
  shows "approvalsOf db' i = approvalsOf db i + (if csCardID r = i \<and> csToState r = StateApproved then 1 else 0)"
  by (simp add: approvalsOf_def history_def assms)

lemma approvalsOk_other:
  assumes "approvalsOk db" and "edCardStates (rdExec db') = edCardStates (rdExec db) @ [r]"
    and "csToState r \<noteq> StateApproved" and "edAudit (rdExec db') = edAudit (rdExec db)"
    and "rdIntents db' = rdIntents db"
  shows "approvalsOk db'"
  using assms(1,3)
  by (simp add: approvalsOk_def approvalsOf_append [OF assms(2)] confirmationsOf_def hasIntent_def assms(4,5))

lemma approvalsOk_mint:
  assumes "approvalsOk db" and "mintDraftCard env db recID l a b p = Inr (db', c)"
  shows "approvalsOk db'"
  by (rule approvalsOk_other [OF assms(1) mint_effect(3) [OF assms(2)]])
    (simp_all add: mint_effect [OF assms(2)])

lemma approvalsOk_advance:
  assumes "approvalsOk db" and "advanceCard db i f t reason = Inr (db', row')" and "t \<noteq> StateApproved"
  shows "approvalsOk db'"
  using assms(2)
proof (rule getCard_advance)
  assume h: "edCardStates (rdExec db') = edCardStates (rdExec db) @
       [\<lparr>csCardID = i, csFromState = Some f, csToState = t, csReason = reason\<rparr>]"
  show ?thesis
    by (rule approvalsOk_other [OF assms(1) h]) (simp_all add: assms(3) advance_frame [OF assms(2)])
qed

text \<open>The approving transaction as a whole keeps the books.\<close>

lemma approvalsOk_approve:
  assumes "approvalsOk db" and "advanceCard db i StateAwaitingConfirmation StateApproved reason = Inr (db1, adv)"
    and "crID adv = i"
    and "db2 = addIntent (auditApproval env db1 (confirmationEvent adv b pres act)) adv"
  shows "approvalsOk db2"
proof -
  have h: "edCardStates (rdExec db2) = edCardStates (rdExec db) @
     [\<lparr>csCardID = i, csFromState = Some StateAwaitingConfirmation, csToState = StateApproved, csReason = reason\<rparr>]"
    using assms(2) by (auto elim!: getCard_advance simp: assms(4))
  have a: "edAudit (rdExec db2) = edAudit (rdExec db) @
     [auditRecord (nvID env db1) (nvNow env) (confirmationEvent adv b pres act)]"
    by (simp add: assms(4) advance_frame [OF assms(2)])
  have n: "rdIntents db2 = rdIntents db @ (if hasIntent db i then [] else [intentOf adv])"
    by (simp add: assms(3,4) hasIntent_advance [OF assms(2)] advance_frame [OF assms(2)])
  have e: "aeCardID (confirmationEvent adv b pres act) = i" "aeType (confirmationEvent adv b pres act) = EventConfirmation"
    by (simp_all add: confirmationEvent_def assms(3))
  have "confirmationsOf db2 j = confirmationsOf db j + (if j = i then 1 else 0)" for j
    by (simp add: confirmationsOf_def a auditRecord_def e)
  moreover have "approvalsOf db2 j = approvalsOf db j + (if j = i then 1 else 0)" for j
    by (simp add: approvalsOf_append [OF h])
  moreover have "hasIntent db2 j \<longleftrightarrow> hasIntent db j \<or> j = i" for j
    using assms(3) by (auto simp: hasIntent_def n intentOf_def)
  moreover have "distinct (map xaCardID (rdIntents db2))"
  proof (cases "hasIntent db i")
    case False
    then have "i \<notin> xaCardID ` set (rdIntents db)" by (auto simp: hasIntent_def list_ex_iff)
    with False assms(1,3) show ?thesis by (simp add: approvalsOk_def n intentOf_def)
  qed (use assms(1) in \<open>simp add: approvalsOk_def n\<close>)
  ultimately show ?thesis using assms(1) by (simp add: approvalsOk_def)
qed

text \<open>All invariants of the tables together.\<close>

definition tablesOk :: "rec_db \<Rightarrow> bool" where
  "tablesOk db \<longleftrightarrow> rowsOk db \<and> uniqueOk db \<and> historyOk db \<and> approvalsOk db"

lemma tablesOk_mint: "tablesOk db \<Longrightarrow> mintDraftCard env db recID l a b p = Inr (db', c) \<Longrightarrow> tablesOk db'"
  using rowsOk_mint uniqueOk_mint historyOk_mint approvalsOk_mint by (fastforce simp: tablesOk_def)

lemma tablesOk_advance:
  "tablesOk db \<Longrightarrow> advanceCard db i f t reason = Inr (db', row') \<Longrightarrow> t \<noteq> StateApproved \<Longrightarrow> tablesOk db'"
  using rowsOk_advance uniqueOk_advance historyOk_advance approvalsOk_advance by (fastforce simp: tablesOk_def)

lemma rowsOk_cong:
  assumes "edCards (rdExec db') = edCards (rdExec db)" and "rdCardOrder db' = rdCardOrder db"
    and "rdRecommendations db' = rdRecommendations db"
  shows "rowsOk db' = rowsOk db" "uniqueOk db' = uniqueOk db"
  by (simp_all add: rowsOk_def uniqueOk_def getCard_def cards_def assms)

lemma historyOk_cong:
  assumes "edCards (rdExec db') = edCards (rdExec db)" and "edCardStates (rdExec db') = edCardStates (rdExec db)"
  shows "historyOk db' = historyOk db"
  by (simp add: historyOk_def history_def getCard_def assms)

lemma tablesOk_confirm:
  assumes "tablesOk db" and "earlierRead db requested"
    and "confirmLocked (wired env rc) db requested presented now act = Inr (db', out)"
  shows "tablesOk db'"
proof -
  have r: "rowsOk db" using assms(1) by (simp add: tablesOk_def)
  from r assms(2,3) show ?thesis
  proof (cases rule: confirmLocked_cases)
    case (superseded row current db1)
    then show ?thesis using tablesOk_advance [OF assms(1) superseded(6)] by simp
  next
    case (current row db1)
    show ?thesis
    proof (cases "coState out = StateApproved")
      case False
      then show ?thesis using current(8) tablesOk_advance [OF assms(1) current(6)] by simp
    next
      case True
      with current(8) have d: "db' = addIntent (auditApproval env db1 (confirmationEvent (coCard out) (rowBinding row) presented act)) (coCard out)"
        by (simp add: recordApproval_wired)
      from current(6) have "crID (coCard out) = crID requested"
      proof (rule getCard_advance)
        fix row'
        assume "getCard db (crID requested) = Some row'" and "coCard out = row'\<lparr>crState := coState out\<rparr>"
        then show ?thesis using rowsOk_ID [OF r, of "crID requested" row'] by simp
      qed
      with True have "approvalsOk db'"
        using approvalsOk_approve [OF _ current(6) [unfolded True] _ d] assms(1) by (simp add: tablesOk_def)
      moreover have "rowsOk db1 \<and> uniqueOk db1 \<and> historyOk db1"
        using assms(1) rowsOk_advance [OF _ current(6)] uniqueOk_advance [OF _ _ current(6)]
          historyOk_advance [OF _ current(6)] by (simp add: tablesOk_def)
      moreover have "rowsOk db' = rowsOk db1" "uniqueOk db' = uniqueOk db1" "historyOk db' = historyOk db1"
        using rowsOk_cong [of db' db1] historyOk_cong [of db' db1] by (simp_all add: d)
      ultimately show ?thesis by (simp add: tablesOk_def)
    qed
  qed
qed

section \<open>Expiry of dependent cards\<close>

definition bearsControl :: "state \<Rightarrow> bool" where
  "bearsControl s \<longleftrightarrow> s \<in> {StateAwaitingConfirmation, StateApproved, StateRevalidating}"

lemma transition_facts:
  "canTransition StateApproved StateRevalidating" "canTransition StateRevalidating StateInvalidated"
  "canTransition s StateInvalidated \<longleftrightarrow> s = StateAwaitingConfirmation \<or> s = StateRevalidating"
  by (auto simp: canTransition_into canTransition_def transitions_def)

lemma advanceCard_exists:
  assumes "canTransition (crState row) t" and "getCard db i = Some row"
  obtains db' where "advanceCard db i (crState row) t reason = Inr (db', row\<lparr>crState := t\<rparr>)"
  using assms by (auto simp: advanceCard_ok)

text \<open>One dependent card: what its invalidation changes, or that nothing can be done.\<close>

definition movedTo :: "rec_db \<Rightarrow> rec_db \<Rightarrow> uuid \<Rightarrow> state \<Rightarrow> bool" where
  "movedTo db db' i t \<longleftrightarrow>
     (\<forall>j. getCard db' j = (if j = i then map_option (\<lambda>c. c\<lparr>crState := t\<rparr>) (getCard db j) else getCard db j)) \<and>
     rdRecommendations db' = rdRecommendations db \<and> rdIntents db' = rdIntents db \<and>
     edAudit (rdExec db') = edAudit (rdExec db) \<and> (tablesOk db \<longrightarrow> tablesOk db')"

lemma advance_movedTo:
  assumes "advanceCard db i f t reason = Inr (db', row')" and "t \<noteq> StateApproved"
  shows "movedTo db db' i t"
  using assms(1)
  by (rule getCard_advance)
    (use assms(2) tablesOk_advance [OF _ assms(1,2)] in \<open>simp add: movedTo_def advance_frame [OF assms(1)]\<close>)

lemma movedTo_trans: "movedTo db db1 i s \<Longrightarrow> movedTo db1 db2 i t \<Longrightarrow> movedTo db db2 i t"
  by (auto simp: movedTo_def map_option.compositionality comp_def)

lemma invalidateDependent_moves:
  assumes "getCard db i = Some row" and "bearsControl (crState row)"
  obtains db' where "invalidateDependent db i (crState row) reason = Inr db'" "movedTo db db' i StateInvalidated"
proof (cases "crState row = StateApproved")
  case True
  obtain db1 where a: "advanceCard db i (crState row) StateRevalidating reason = Inr (db1, row\<lparr>crState := StateRevalidating\<rparr>)"
    using advanceCard_exists [of row StateRevalidating db i reason] assms(1) True transition_facts(1) by auto
  then have m: "movedTo db db1 i StateRevalidating" by (rule advance_movedTo) simp
  then have g: "getCard db1 i = Some (row\<lparr>crState := StateRevalidating\<rparr>)" by (simp add: movedTo_def assms(1))
  obtain db2 where b: "advanceCard db1 i StateRevalidating StateInvalidated reason
      = Inr (db2, row\<lparr>crState := StateRevalidating\<rparr>\<lparr>crState := StateInvalidated\<rparr>)"
    using advanceCard_exists [of "row\<lparr>crState := StateRevalidating\<rparr>" StateInvalidated db1 i reason] g transition_facts(2)
    by auto
  then have "movedTo db1 db2 i StateInvalidated" by (rule advance_movedTo) simp
  then show thesis
    using that [of db2] movedTo_trans [OF m] a b True
    by (simp add: invalidateDependent_def invalidateApprovedCard_def)
next
  case False
  then have t: "canTransition (crState row) StateInvalidated"
    using assms(2) by (auto simp: bearsControl_def transition_facts(3))
  obtain db1 where a: "advanceCard db i (crState row) StateInvalidated reason = Inr (db1, row\<lparr>crState := StateInvalidated\<rparr>)"
    using advanceCard_exists [of row StateInvalidated db i reason] assms(1) t by auto
  then have "movedTo db db1 i StateInvalidated" by (rule advance_movedTo) simp
  then show thesis using that [of db1] a t False by (simp add: invalidateDependent_def)
qed

lemma invalidateDependent_skips:
  "\<not> bearsControl s \<Longrightarrow> invalidateDependent db i s reason = Inl RecRejectedTransition"
  by (simp add: invalidateDependent_def bearsControl_def transition_facts(3))

lemma expireLoop_ok:
  assumes "distinct (map crID cs)" and "\<And>c. c \<in> set cs \<Longrightarrow> getCard db (crID c) = Some c"
  obtains db' where "expireLoop db cs reason n = (db', n + length (filter (\<lambda>c. bearsControl (crState c)) cs), None)"
    "\<And>j. getCard db' j = (if \<exists>c\<in>set cs. crID c = j \<and> bearsControl (crState c)
        then map_option (\<lambda>c. c\<lparr>crState := StateInvalidated\<rparr>) (getCard db j) else getCard db j)"
    "rdRecommendations db' = rdRecommendations db" "rdIntents db' = rdIntents db"
    "edAudit (rdExec db') = edAudit (rdExec db)" "tablesOk db \<Longrightarrow> tablesOk db'"
  using assms
proof (induction cs arbitrary: db n thesis)
  case Nil
  show ?case by (rule Nil.prems(1) [of db]) simp_all
next
  case (Cons c cs)
  have rest: "distinct (map crID cs)" "crID c \<notin> crID ` set cs" using Cons.prems(2) by auto
  have c: "getCard db (crID c) = Some c" using Cons.prems(3) by simp
  show ?case
  proof (cases "bearsControl (crState c)")
    case False
    show ?thesis
    proof (rule Cons.IH [of db n, OF _ rest(1)])
      fix db'
      assume r: "expireLoop db cs reason n = (db', n + length (filter (\<lambda>c. bearsControl (crState c)) cs), None)"
        "\<And>j. getCard db' j = (if \<exists>c\<in>set cs. crID c = j \<and> bearsControl (crState c)
          then map_option (\<lambda>c. c\<lparr>crState := StateInvalidated\<rparr>) (getCard db j) else getCard db j)"
        "rdRecommendations db' = rdRecommendations db" "rdIntents db' = rdIntents db"
        "edAudit (rdExec db') = edAudit (rdExec db)" "tablesOk db \<Longrightarrow> tablesOk db'"
      show thesis
        by (rule Cons.prems(1) [of db']) (use r False invalidateDependent_skips [OF False] in auto)
    qed (use Cons.prems(3) in auto)
  next
    case True
    obtain db1 where i: "invalidateDependent db (crID c) (crState c) reason = Inr db1"
      and m: "movedTo db db1 (crID c) StateInvalidated"
      using invalidateDependent_moves [OF c True] .
    have g: "getCard db1 (crID d) = Some d" if "d \<in> set cs" for d
    proof -
      have "crID d \<noteq> crID c" using that rest(2) by (metis imageI)
      then show ?thesis using that Cons.prems(3) m by (simp add: movedTo_def)
    qed
    show ?thesis
    proof (rule Cons.IH [of db1 "Suc n", OF _ rest(1)])
      fix db'
      assume r: "expireLoop db1 cs reason (Suc n) = (db', Suc n + length (filter (\<lambda>c. bearsControl (crState c)) cs), None)"
        "\<And>j. getCard db' j = (if \<exists>c\<in>set cs. crID c = j \<and> bearsControl (crState c)
          then map_option (\<lambda>c. c\<lparr>crState := StateInvalidated\<rparr>) (getCard db1 j) else getCard db1 j)"
        "rdRecommendations db' = rdRecommendations db1" "rdIntents db' = rdIntents db1"
        "edAudit (rdExec db') = edAudit (rdExec db1)" "tablesOk db1 \<Longrightarrow> tablesOk db'"
      show thesis
      proof (rule Cons.prems(1) [of db'])
        show "getCard db' j = (if \<exists>c\<in>set (c # cs). crID c = j \<and> bearsControl (crState c)
          then map_option (\<lambda>c. c\<lparr>crState := StateInvalidated\<rparr>) (getCard db j) else getCard db j)" for j
          using r(2) [of j] m True c rest(2) by (auto simp: movedTo_def)
      qed (use r m True i in \<open>auto simp: movedTo_def\<close>)
    qed (use g in auto)
  qed
qed

definition dependentCard :: "rec_db \<Rightarrow> uuid \<Rightarrow> card_row \<Rightarrow> bool" where
  "dependentCard db variant c \<longleftrightarrow>
     bearsControl (crState c) \<and>
     map_option rmVariantID (getRecommendation db (crRecommendationID c)) = Some variant"

lemma distinct_cards: "rowsOk db \<Longrightarrow> distinct (map crID (cards db))"
proof -
  assume r: "rowsOk db"
  have "map crID (rowsIn (edCards (rdExec db)) ids) = filter (\<lambda>i. edCards (rdExec db) i \<noteq> None) ids" for ids
    using rowsOk_ID [OF r] by (induction ids) (auto simp: getCard_def split: option.splits)
  then show ?thesis using r by (simp add: cards_def rowsOk_iff)
qed

text \<open>
  Further. Reopening a mapping expires its dependents: every card of the variant that awaits confirmation, is
  approved or is revalidating becomes Invalidated (an approved one through Revalidating, as the machine
  demands), all other cards stay as they are, no audit record or intent is added, the call reports how
  many cards it moved, and no card of the variant is left whose control could still authorize a write.
\<close>

theorem reopen_expires_controls:
  assumes "tablesOk db" and "expireDependentForVariant db variant reason = (db', n, err)"
  shows "err = None \<and> n = length (filter (dependentCard db variant) (cards db))
    \<and> (\<forall>j. getCard db' j = map_option (\<lambda>c. if dependentCard db variant c then c\<lparr>crState := StateInvalidated\<rparr> else c) (getCard db j))
    \<and> edAudit (rdExec db') = edAudit (rdExec db) \<and> rdIntents db' = rdIntents db
    \<and> (\<forall>j c. getCard db' j = Some c \<longrightarrow> \<not> dependentCard db' variant c) \<and> tablesOk db'"
proof -
  let ?cs = "liveCardsForVariant db variant"
  have r: "rowsOk db" using assms(1) by (simp add: tablesOk_def)
  have live: "bearsControl s \<Longrightarrow> s \<in> set liveStates" for s by (auto simp: bearsControl_def liveStates_def)
  have dep: "c \<in> set ?cs \<and> bearsControl (crState c) \<longleftrightarrow> c \<in> set (cards db) \<and> dependentCard db variant c" for c
    using live by (auto simp: liveCardsForVariant_def dependentCard_def split: option.splits)
  have d: "distinct (map crID ?cs)"
    using distinct_cards [OF r] by (simp add: liveCardsForVariant_def distinct_map_filter)
  have g: "c \<in> set ?cs \<Longrightarrow> getCard db (crID c) = Some c" for c
    using rowsOk_set_cards [OF r] by (auto simp: liveCardsForVariant_def)
  obtain db1 where e: "expireLoop db ?cs reason 0 = (db1, 0 + length (filter (\<lambda>c. bearsControl (crState c)) ?cs), None)"
    and c1: "\<And>j. getCard db1 j = (if \<exists>c\<in>set ?cs. crID c = j \<and> bearsControl (crState c)
        then map_option (\<lambda>c. c\<lparr>crState := StateInvalidated\<rparr>) (getCard db j) else getCard db j)"
    and f: "rdRecommendations db1 = rdRecommendations db" "rdIntents db1 = rdIntents db"
      "edAudit (rdExec db1) = edAudit (rdExec db)" "tablesOk db \<Longrightarrow> tablesOk db1"
    by (rule expireLoop_ok [where n = 0 and reason = reason, OF d g]) blast+
  have s: "db' = db1" "err = None" "n = length (filter (\<lambda>c. bearsControl (crState c)) ?cs)"
    using assms(2) e by (simp_all add: expireDependentForVariant_def)
  have "filter (\<lambda>c. bearsControl (crState c)) ?cs = filter (dependentCard db variant) (cards db)"
    using live by (auto simp: liveCardsForVariant_def dependentCard_def split: option.splits intro!: filter_cong)
  moreover have k: "getCard db1 j = map_option (\<lambda>c. if dependentCard db variant c then c\<lparr>crState := StateInvalidated\<rparr> else c) (getCard db j)" for j
  proof (cases "getCard db j")
    case (Some c)
    have "crID c = j" by (rule rowsOk_ID [OF r Some])
    with Some have "c \<in> set (cards db)" by (simp add: rowsOk_set_cards [OF r])
    moreover have "(\<exists>d\<in>set ?cs. crID d = j \<and> bearsControl (crState d)) \<longleftrightarrow> c \<in> set ?cs \<and> bearsControl (crState c)"
      using g Some \<open>crID c = j\<close> by (metis option.inject)
    ultimately show ?thesis using Some dep [of c] by (simp add: c1)
  qed (simp add: c1)
  moreover have "\<not> dependentCard db1 variant c" if gc: "getCard db1 j = Some c" for j c
  proof -
    obtain d where "c = (if dependentCard db variant d then d\<lparr>crState := StateInvalidated\<rparr> else d)"
      using gc [unfolded k map_option_eq_Some] by blast
    then show ?thesis
      by (cases "dependentCard db variant d")
        (simp_all add: dependentCard_def getRecommendation_def f(1) bearsControl_def)
  qed
  ultimately show ?thesis using s f assms(1) by simp
qed

section \<open>Production\<close>

lemma insertRecommendation_ok:
  assumes "insertRecommendation env db row = Inr (db', stored)"
  shows "db' = db\<lparr>rdRecommendations := rdRecommendations db @ [stored]\<rparr>"
    "\<exists>v. stored = row\<lparr>rmID := nvID env db, rmVersion := v\<rparr>"
    "currentRecommendation db' l = (if l = rmLineageID row then Some stored else currentRecommendation db l)"
    "recommendationChecks stored"
proof -
  from assms obtain v where v: "nextVersion rmVersion (filter (\<lambda>r. rmLineageID r = rmLineageID row) (rdRecommendations db)) = Some v"
    and s: "stored = row\<lparr>rmID := nvID env db, rmVersion := v\<rparr>"
    and d: "db' = db\<lparr>rdRecommendations := rdRecommendations db @ [stored]\<rparr>"
    and c: "recommendationChecks stored"
    by (auto simp: insertRecommendation_def Let_def split: option.splits if_splits)
  show "db' = db\<lparr>rdRecommendations := rdRecommendations db @ [stored]\<rparr>" by (rule d)
  show "\<exists>v. stored = row\<lparr>rmID := nvID env db, rmVersion := v\<rparr>" using s by blast
  show "recommendationChecks stored" by (rule c)
  have "latestBy rmVersion (filter (\<lambda>r. rmLineageID r = rmLineageID row) (rdRecommendations db) @ [stored]) = Some stored"
    using nextVersion_Some [OF v] s by (intro latestBy_unique) auto
  then show "currentRecommendation db' l = (if l = rmLineageID row then Some stored else currentRecommendation db l)"
    by (simp add: currentRecommendation_def d s)
qed

lemma produceVersion_ok:
  assumes "produceVersion env db l a r = Inr (db', row, created)"
  obtains db1 where "insertRecommendation env db (recommendationParams l r) = Inr (db1, row)"
      "created = recApprovable r"
      "created \<Longrightarrow> \<exists>price c. optGet (rnProposedPrice r) = Some price \<and>
         mintDraftCard env db1 (rmID row) l a (rnBinding r) price = Inr (db', c)"
      "\<not> created \<Longrightarrow> db' = db1"
  using assms
  by (auto simp: produceVersion_def andThen_Inr buildBinding_def split: if_splits option.splits)

lemma produceVersion_recommendations:
  assumes "produceVersion env db l a r = Inr (db', row, created)"
  shows "currentRecommendation db' k = (if k = l then Some row else currentRecommendation db k)"
    "rmContextVersion row = bnContextVersion (rnBinding r)"
  using assms
proof (atomize (full), rule produceVersion_ok)
  fix db1
  assume i: "insertRecommendation env db (recommendationParams l r) = Inr (db1, row)"
    and t: "created \<Longrightarrow> \<exists>price c. optGet (rnProposedPrice r) = Some price \<and>
         mintDraftCard env db1 (rmID row) l a (rnBinding r) price = Inr (db', c)"
    and f: "\<not> created \<Longrightarrow> db' = db1"
  have "rdRecommendations db' = rdRecommendations db1"
    by (cases created) (use t f mint_effect(4) in auto)
  then have "currentRecommendation db' k = currentRecommendation db1 k" by (simp add: currentRecommendation_def)
  moreover obtain v where "row = (recommendationParams l r)\<lparr>rmID := nvID env db, rmVersion := v\<rparr>"
    using insertRecommendation_ok(2) [OF i] by blast
  ultimately show "currentRecommendation db' k = (if k = l then Some row else currentRecommendation db k) \<and>
      rmContextVersion row = bnContextVersion (rnBinding r)"
    using insertRecommendation_ok(3) [OF i, of k] by (simp add: recommendationParams_def)
qed

text \<open>
  Further. A version is produced with its card or without, in one step: an approvable recommendation leaves a
  Draft card that heads the lineage, belongs to the stored row and carries exactly its price, versions
  and expiry; any other recommendation leaves the row alone, with its blockers and no card.
\<close>

theorem production_atomic:
  assumes "rowsOk db" and "produceVersion env db l a r = Inr (db', row, created)"
  shows "created = recApprovable r \<and> currentRecommendation db' l = Some row
    \<and> rmApprovable row = recApprovable r \<and> rmBlockers row = rnBlockers r
    \<and> (if created
       then \<exists>c. currentCard db' l = Some c \<and> cards db' = cards db @ [c] \<and> crState c = StateDraft
             \<and> crRecommendationID c = rmID row \<and> rowBinding c = rnBinding r
             \<and> optGet (rnProposedPrice r) = Some (crPrice c)
       else cards db' = cards db)"
proof -
  from assms(2) obtain db1 where i: "insertRecommendation env db (recommendationParams l r) = Inr (db1, row)"
    and c: "created = recApprovable r"
    and t: "created \<Longrightarrow> \<exists>price c. optGet (rnProposedPrice r) = Some price \<and>
         mintDraftCard env db1 (rmID row) l a (rnBinding r) price = Inr (db', c)"
    and f: "\<not> created \<Longrightarrow> db' = db1"
    by (rule produceVersion_ok) blast
  note d = insertRecommendation_ok(1) [OF i]
  have k: "cards db1 = cards db" by (simp add: d cards_def)
  have r: "rowsOk db1"
    using assms(1) unfolding rowsOk_iff by (auto simp: d getCard_def rowOk_def)
  obtain v where "row = (recommendationParams l r)\<lparr>rmID := nvID env db, rmVersion := v\<rparr>"
    using insertRecommendation_ok(2) [OF i] by blast
  then have row: "rmApprovable row = recApprovable r" "rmBlockers row = rnBlockers r"
    by (simp_all add: recommendationParams_def)
  have cur: "currentRecommendation db' l = Some row"
    using produceVersion_recommendations(1) [OF assms(2), of l] by simp
  show ?thesis
  proof (cases created)
    case True
    then obtain price c' where m: "optGet (rnProposedPrice r) = Some price"
      "mintDraftCard env db1 (rmID row) l a (rnBinding r) price = Inr (db', c')"
      using t by blast
    have "rowBinding c' = rnBinding r"
      using mint_row [OF m(2)] by (simp add: rowBinding_def)
    then show ?thesis
      using True c row cur m(1) k mint_row [OF m(2)] mint_current [OF r m(2)] cards_mint(1) [OF r m(2)]
      by (auto intro!: exI [of _ c'])
  qed (use c row cur k f in simp)
qed

definition covered :: "producer \<Rightarrow> rec_db \<Rightarrow> eligible_event \<Rightarrow> bool" where
  "covered pd db ev \<longleftrightarrow>
     (case currentRecommendation db (pdLineage pd (egEventID ev)) of
        None \<Rightarrow> False | Some r \<Rightarrow> egEvidenceVersion ev \<le>s rmContextVersion r)"

definition parked :: "producer \<Rightarrow> eligible_event \<Rightarrow> bool" where
  "parked pd ev \<longleftrightarrow> pdResolve pd ev = Inl RecInputsUnavailable"

lemma produceOne_settled:
  assumes "parked pd ev \<or> (\<exists>inp. pdResolve pd ev = Inr inp) \<and> covered pd db ev"
  shows "produceOne pd env db ev m =
    (db, if parked pd ev then m\<lparr>pmParked := pmParked m + 1\<rparr> else m\<lparr>pmDeduped := pmDeduped m + 1\<rparr>, None)"
  using assms by (auto simp: produceOne_def parked_def covered_def Let_def split: option.splits)

lemma produceOne_settles:
  assumes "produceOne pd env db ev m = (db', m', None)"
  shows "(parked pd ev \<or> (\<exists>inp. pdResolve pd ev = Inr inp) \<and> covered pd db' ev) \<and>
    (\<forall>ev0. covered pd db ev0 \<longrightarrow> covered pd db' ev0)"
proof (cases "pdResolve pd ev")
  case (Inl e)
  then show ?thesis using assms
    by (cases "e = RecInputsUnavailable") (auto simp: produceOne_def parked_def split: rec_error.splits)
next
  case (Inr inp)
  show ?thesis
  proof (cases "covered pd db ev")
    case True
    then have "db' = db" using assms produceOne_settled [of pd ev db env m] Inr by simp
    then show ?thesis using True Inr by simp
  next
    case False
    let ?l = "pdLineage pd (egEventID ev)" and ?r = "assemble (stampInput pd ev inp)"
    from False assms Inr obtain row created where p: "produceVersion env db ?l (egAccountID ev) ?r = Inr (db', row, created)"
      by (auto simp: produceOne_def covered_def Let_def split: option.splits sum.splits if_splits)
    have c: "rmContextVersion row = egEvidenceVersion ev"
      using produceVersion_recommendations(2) [OF p] by (simp add: stampInput_def inputBinding_def)
    have g: "currentRecommendation db' k = (if k = ?l then Some row else currentRecommendation db k)" for k
      by (rule produceVersion_recommendations(1) [OF p])
    have "covered pd db' ev0" if "covered pd db ev0" for ev0
      using that False by (auto simp: covered_def g c split: option.splits)
    then show ?thesis using Inr by (simp add: covered_def g c)
  qed
qed

lemma produceAll_errs: "produceAll pd env db evs m errs = (db', m', errs') \<Longrightarrow> \<exists>es. errs' = errs @ es"
proof (induction evs arbitrary: db m errs)
  case (Cons ev evs)
  obtain db1 m1 err where o: "produceOne pd env db ev (m\<lparr>pmScanned := pmScanned m + 1\<rparr>) = (db1, m1, err)"
    by (cases "produceOne pd env db ev (m\<lparr>pmScanned := pmScanned m + 1\<rparr>)")
  with Cons.prems have "produceAll pd env db1 evs m1 (case err of None \<Rightarrow> errs | Some e \<Rightarrow> errs @ [e]) = (db', m', errs')"
    by simp
  from Cons.IH [OF this] show ?case by (auto split: option.splits)
qed simp

lemma produceAll_settles:
  assumes "produceAll pd env db evs m [] = (db', m', [])"
  shows "\<forall>ev. ev \<in> set evs \<or> parked pd ev \<or> (\<exists>inp. pdResolve pd ev = Inr inp) \<and> covered pd db ev \<longrightarrow>
    parked pd ev \<or> (\<exists>inp. pdResolve pd ev = Inr inp) \<and> covered pd db' ev"
  using assms
proof (induction evs arbitrary: db m)
  case (Cons ev evs)
  obtain db1 m1 err where o: "produceOne pd env db ev (m\<lparr>pmScanned := pmScanned m + 1\<rparr>) = (db1, m1, err)"
    by (cases "produceOne pd env db ev (m\<lparr>pmScanned := pmScanned m + 1\<rparr>)")
  with Cons.prems have a: "produceAll pd env db1 evs m1 (case err of None \<Rightarrow> [] | Some e \<Rightarrow> [e]) = (db', m', [])"
    by (simp split: option.splits)
  with produceAll_errs [OF a] have "err = None" by (auto split: option.splits)
  with o a have s: "produceOne pd env db ev (m\<lparr>pmScanned := pmScanned m + 1\<rparr>) = (db1, m1, None)"
    and r: "produceAll pd env db1 evs m1 [] = (db', m', [])" by simp_all
  show ?case using Cons.IH [OF r] produceOne_settles [OF s] by auto
qed simp

lemma produceAll_settled:
  assumes "\<forall>ev\<in>set evs. parked pd ev \<or> (\<exists>inp. pdResolve pd ev = Inr inp) \<and> covered pd db ev"
  shows "produceAll pd env db evs m errs =
    (db, m\<lparr>pmScanned := pmScanned m + length evs,
           pmParked := pmParked m + length (filter (parked pd) evs),
           pmDeduped := pmDeduped m + length (filter (\<lambda>ev. \<not> parked pd ev) evs)\<rparr>, errs)"
  using assms by (induction evs arbitrary: m) (simp_all add: produceOne_settled)

text \<open>
  Further. A producer pass can be repeated: after a pass without errors, a second pass over the same events with
  the same resolved inputs stores nothing, mints nothing and reports every event as parked or as a
  duplicate, whatever versions the events came in and however the clock moved.
\<close>

theorem production_idempotent:
  assumes "runOnce pd env db (Inr evs) = (db1, m1, [])"
  shows "runOnce (pd\<lparr>pdNow := now2\<rparr>) env2 db1 (Inr evs) =
    (db1, \<lparr>pmScanned = length evs, pmProduced = 0, pmBlocked = 0,
           pmDeduped = length (filter (\<lambda>ev. \<not> parked pd ev) evs),
           pmParked = length (filter (parked pd) evs), pmErrors = 0\<rparr>, [])"
proof -
  have "produceAll pd env db evs zeroMetrics [] = (db1, m1, [])" using assms by (simp add: runOnce_def)
  then have "\<forall>ev\<in>set evs. parked pd ev \<or> (\<exists>inp. pdResolve pd ev = Inr inp) \<and> covered pd db1 ev"
    using produceAll_settles by blast
  moreover have "parked (pd\<lparr>pdNow := now2\<rparr>) = parked pd" "covered (pd\<lparr>pdNow := now2\<rparr>) = covered pd"
    by (simp_all add: parked_def covered_def fun_eq_iff)
  ultimately show ?thesis
    by (simp add: runOnce_def produceAll_settled zeroMetrics_def)
qed

section \<open>Evaluation on concrete tables\<close>

definition demoEnv :: rec_env where
  "demoEnv = \<lparr>nvID = (\<lambda>db. 200 + of_nat (length (rdCardOrder db) + length (rdRecommendations db))),
     nvNow = 50, nvUUIDStr = (\<lambda>u. formatInt (uint u))\<rparr>"

definition demoRow :: recommendation_row where
  "demoRow = (recommendationParams 9 (assemble demoAssemble))\<lparr>rmID := 100, rmVersion := 1\<rparr>"

definition demoCard :: "state \<Rightarrow> card_row" where
  "demoCard st = (cardParams demoEnv 100 9 1 (inputBinding demoAssemble) (irr 100))
     \<lparr>crID := 101, crVersion := 1, crState := st, crCreatedAt := 50\<rparr>"

definition demoHistory :: "card_state_row list" where
  "demoHistory =
     [\<lparr>csCardID = 101, csFromState = None, csToState = StateDraft, csReason = ''card created''\<rparr>,
      \<lparr>csCardID = 101, csFromState = Some StateDraft, csToState = StateReadyForReview, csReason = []\<rparr>,
      \<lparr>csCardID = 101, csFromState = Some StateReadyForReview, csToState = StateAwaitingConfirmation, csReason = []\<rparr>]"

definition noTables :: exec_db where
  "noTables = \<lparr>edCards = Map.empty, edCardStates = [], edExecutions = [], edRecommendOnly = Map.empty,
     edWindows = Map.empty, edAudit = [], edNotifications = [], edWrites = []\<rparr>"

definition emptyRec :: rec_db where
  "emptyRec = \<lparr>rdExec = noTables, rdCardOrder = [], rdRecommendations = [], rdIntents = [], rdOwners = Map.empty,
     rdSets = [], rdMembers = [], rdProposals = []\<rparr>"

definition demoRec :: rec_db where
  "demoRec = emptyRec\<lparr>rdExec := noTables\<lparr>edCards := [101 \<mapsto> demoCard StateAwaitingConfirmation], edCardStates := demoHistory\<rparr>,
     rdCardOrder := [101], rdRecommendations := [demoRow]\<rparr>"

lemma demoCard_fields [simp]:
  "crID (demoCard st) = 101" "crLineageID (demoCard st) = 9" "crVersion (demoCard st) = 1"
  "crState (demoCard st) = st" "crRecommendationID (demoCard st) = 100" "crAccountID (demoCard st) = 1"
  "crPrice (demoCard st) = irr 100" "crEvidence (demoCard st) = Some fmempty"
  "crExpiresAt (demoCard st) = 5 + hour" "rowBinding (demoCard st) = inputBinding demoAssemble"
  "(demoCard st)\<lparr>crState := t\<rparr> = demoCard t" "crParameterVersion (demoCard st) = 1"
  "crIdempotencyKey (demoCard st) = idempotencyKey (nvUUIDStr demoEnv) (inputBinding demoAssemble)"
  by (simp_all add: demoCard_def cardParams_def rowBinding_def inputBinding_def demoAssemble_def)

lemma demoRow_fields [simp]:
  "rmID demoRow = 100" "rmAccountID demoRow = 1" "rmLineageID demoRow = 9" "rmVariantID demoRow = 2"
  by (simp_all add: demoRow_def recommendationParams_def) (simp_all add: demoAssemble_def)

lemma demoRec_cards [simp]:
  "getCard demoRec i = (if i = 101 then Some (demoCard StateAwaitingConfirmation) else None)"
  "cards demoRec = [demoCard StateAwaitingConfirmation]" "rdIntents demoRec = []"
  "rdRecommendations demoRec = [demoRow]" "rdCardOrder demoRec = [101]" "edAudit (rdExec demoRec) = []"
  "edCardStates (rdExec demoRec) = demoHistory"
  by (simp_all add: demoRec_def emptyRec_def noTables_def getCard_def cards_def)

lemma demo_current [simp]: "currentCard demoRec 9 = Some (demoCard StateAwaitingConfirmation)"
  by (simp add: currentCard_def latestBy_def)

lemma demo_tablesOk: "tablesOk demoRec"
proof -
  have "rowsOk demoRec" by (auto simp: rowsOk_iff rowOk_def)
  moreover have "uniqueOk demoRec" by (simp add: uniqueOk_def)
  moreover have "historyOk demoRec"
    by (auto simp: historyOk_def history_def demoHistory_def canTransition_into)
  moreover have "approvalsOk demoRec"
    by (auto simp: approvalsOk_def confirmationsOf_def approvalsOf_def history_def demoHistory_def hasIntent_def)
  ultimately show ?thesis by (simp add: tablesOk_def)
qed

lemma demo_rowsOk: "rowsOk demoRec"
  using demo_tablesOk by (simp add: tablesOk_def)

definition demoActor :: actor where
  "demoActor = \<lparr>acID = ''u1'', acRole = ''owner'', acSurface = ''screens''\<rparr>"

lemma demo_card: "cardFromDB (demoCard st) = Inr \<lparr>cdID = 101, cdRecommendationID = 100, cdVersion = 1,
    cdState = st, cdBinding = inputBinding demoAssemble, cdPrice = irr 100, cdSimulation = False\<rparr>"
proof -
  have "\<lparr>bnActionID = crActionID (demoCard st), bnParameterVersion = crParameterVersion (demoCard st),
      bnContextVersion = crContextVersion (demoCard st), bnPolicyVersion = crPolicyVersion (demoCard st),
      bnCostProfileVersion = crCostProfileVersion (demoCard st), bnEvidenceVersions = fmempty,
      bnExpiry = crExpiresAt (demoCard st)\<rparr> = inputBinding demoAssemble"
    by (simp add: demoCard_def cardParams_def inputBinding_def demoAssemble_def)
  then show ?thesis by (simp add: cardFromDB_def newMoney_def irr_def)
qed

lemma demo_validate: "validateAgainst (inputBinding demoAssemble) (inputBinding demoAssemble) 6 = ReasonNone"
  by (simp add: validateAgainst_None) (simp add: inputBinding_def demoAssemble_def)

lemma demo_confirmed:
  "\<exists>db' out. confirmLocked (wired demoEnv None) demoRec (demoCard StateAwaitingConfirmation)
     (inputBinding demoAssemble) 6 demoActor = Inr (db', out)"
proof -
  obtain db1 where "advanceCard demoRec 101 StateAwaitingConfirmation StateApproved (confirmReason ReasonNone)
      = Inr (db1, demoCard StateApproved)"
    using advanceCard_exists [of "demoCard StateAwaitingConfirmation" StateApproved demoRec 101 "confirmReason ReasonNone"]
    by (auto simp: canTransition_def transitions_def)
  then show ?thesis
    by (simp add: confirmLocked_def demo_card controlOf_def confirm_def demo_validate withState_def
        advance_def stateValid_iff canTransition_def transitions_def recordApproval_def appendAuditRow_def
        dispatchApproved_eq)
qed

theorem confirm_outcomes_witness:
  "\<exists>db' out. confirmLocked (wired demoEnv None) demoRec (demoCard StateAwaitingConfirmation)
     (inputBinding demoAssemble) 6 demoActor = Inr (db', out) \<and> coState out = StateApproved \<and>
     length (edAudit (rdExec db')) = 1 \<and> length (rdIntents db') = 1"
proof -
  obtain db' out where c: "confirmLocked (wired demoEnv None) demoRec (demoCard StateAwaitingConfirmation)
     (inputBinding demoAssemble) 6 demoActor = Inr (db', out)"
    using demo_confirmed by blast
  have e: "earlierRead demoRec (demoCard StateAwaitingConfirmation)" by (simp add: earlierRead_def)
  have b: "(inputBinding demoAssemble)\<lparr>bnExpiry := 5 + hour\<rparr> = inputBinding demoAssemble"
    by (simp add: inputBinding_def demoAssemble_def)
  from confirm_outcomes [OF demo_rowsOk e c]
  have "coState out = StateApproved \<and> length (edAudit (rdExec db')) = 1 \<and> length (rdIntents db') = 1"
    using b by (auto simp: hasIntent_def)
  with c show ?thesis by blast
qed

definition demoRecheck :: "recommendation_row \<Rightarrow> (rec_error, policy_context) result" where
  "demoRecheck r = Inr demoContext"

theorem reopen_expires_controls_witness:
  "\<exists>db' err. expireDependentForVariant demoRec 2 ''identity'' = (db', 1, err) \<and>
     getCard db' 101 = Some (demoCard StateInvalidated)"
proof -
  obtain db' n err where e: "expireDependentForVariant demoRec 2 ''identity'' = (db', n, err)"
    by (cases "expireDependentForVariant demoRec 2 ''identity''")
  have d: "dependentCard demoRec 2 (demoCard StateAwaitingConfirmation)"
    by (simp add: dependentCard_def bearsControl_def getRecommendation_def)
  note r = reopen_expires_controls [OF demo_tablesOk e]
  have "n = length (filter (dependentCard demoRec 2) (cards demoRec))" using r by blast
  then have "n = 1" using d by simp
  moreover have "getCard db' 101 = map_option (\<lambda>c. if dependentCard demoRec 2 c then c\<lparr>crState := StateInvalidated\<rparr> else c)
      (getCard demoRec 101)" using r by blast
  then have "getCard db' 101 = Some (demoCard StateInvalidated)" using d by simp
  ultimately show ?thesis using e by blast
qed

lemma demo_approvable: "recApprovable (assemble demoAssemble)"
  by (simp add: assemble_approvable no_blocker_iff) (simp add: demoAssemble_def demoPolicy_def evidenceUsable_def)

lemma recApprovable_expiry: "recApprovable (r\<lparr>rnExpiry := e\<rparr>) = recApprovable r"
  by (simp add: recApprovable_def)

lemma assemble_when_approvable:
  "recApprovable (assemble inp) \<Longrightarrow> assemble inp = (assembleBase inp)\<lparr>rnExpiry := Present (aiExpiry inp)\<rparr>"
  by (simp add: assemble_def Let_def recApprovable_expiry split: if_splits)

lemma demo_assembled_fields:
  "rnProposedPrice (assembleBase demoAssemble) = Present (irr 100)"
  "rnProposedContribution (assemble demoAssemble) = Present (irr 20)"
  "rnCurrentContribution (assemble demoAssemble) = Present (irr 20)"
  "rnAllowedRange (assemble demoAssemble) = Present \<lparr>rgMin = irr 90, rgMax = irr 102\<rparr>"
  "rnExpiry (assemble demoAssemble) = Present (5 + hour)" "rnQuality (assemble demoAssemble) = ''verified''"
  "rnObjective (assemble demoAssemble) = ObjectiveTrackStrategy" "aiAccountID demoAssemble = 1"
  "aiReadiness demoAssemble = StateComplete" "aiSimulation demoAssemble = False"
  unfolding assemble_when_approvable [OF demo_approvable]
  by (simp_all add: assembleBase_def) (simp_all add: demoAssemble_def demoPolicy_def)

lemma demo_row_checks: "recommendationChecks ((recommendationParams 9 (assemble demoAssemble))\<lparr>rmID := i, rmVersion := v\<rparr>)"
  by (simp add: recommendationChecks_def recommendationParams_def demo_assembled_fields moneyCheck_def
      optionalMoneyColumns_def optionalRangeColumns_def irr_def)

lemma mint_first:
  assumes "edCards (rdExec db) = Map.empty" and "rdCardOrder db = []"
    and "r \<in> set (rdRecommendations db)" and "rmID r = recID" and "rmAccountID r = a"
  shows "\<exists>db' c. mintDraftCard env db recID l a b p = Inr (db', c)"
proof -
  have "list_ex (\<lambda>r. rmID r = recID \<and> rmAccountID r = a) (rdRecommendations db)"
    using assms(3-5) by (auto simp: list_ex_iff)
  then show ?thesis
    by (simp add: mintDraftCard_def insertCard_def Let_def cards_def nextVersion_def latestBy_def getCard_def
        cardParams_def assms(1,2))
qed

lemma demo_produced: "\<exists>db' row. produceVersion demoEnv emptyRec 9 1 (assemble demoAssemble) = Inr (db', row, True)"
proof -
  have "insertRecommendation demoEnv emptyRec (recommendationParams 9 (assemble demoAssemble)) =
    Inr (emptyRec\<lparr>rdRecommendations := [(recommendationParams 9 (assemble demoAssemble))\<lparr>rmID := 200, rmVersion := 1\<rparr>]\<rparr>,
      (recommendationParams 9 (assemble demoAssemble))\<lparr>rmID := 200, rmVersion := 1\<rparr>)"
    by (simp add: insertRecommendation_def nextVersion_def latestBy_def demo_row_checks getRecommendation_def
        emptyRec_def demoEnv_def Let_def)
  moreover have "\<exists>db' c. mintDraftCard demoEnv (emptyRec\<lparr>rdRecommendations := [(recommendationParams 9 (assemble demoAssemble))\<lparr>rmID := 200, rmVersion := 1\<rparr>]\<rparr>)
      200 9 1 (inputBinding demoAssemble) (irr 100) = Inr (db', c)"
    by (rule mint_first [where r = "(recommendationParams 9 (assemble demoAssemble))\<lparr>rmID := 200, rmVersion := 1\<rparr>"])
      (simp_all add: emptyRec_def noTables_def recommendationParams_def demo_assembled_fields)
  ultimately show ?thesis
    by (auto simp: produceVersion_def buildBinding_def demo_approvable demo_assembled_fields)
qed

lemma empty_rowsOk: "rowsOk emptyRec"
  by (simp add: rowsOk_iff emptyRec_def noTables_def getCard_def)

theorem production_atomic_witness:
  "\<exists>db' row. produceVersion demoEnv emptyRec 9 1 (assemble demoAssemble) = Inr (db', row, True) \<and>
     map crPrice (cards db') = [irr 100]"
proof -
  obtain db' row where p: "produceVersion demoEnv emptyRec 9 1 (assemble demoAssemble) = Inr (db', row, True)"
    using demo_produced by blast
  have "cards emptyRec = []" by (simp add: cards_def emptyRec_def)
  with production_atomic [OF empty_rowsOk p] p show ?thesis
    by (auto simp: demo_assembled_fields)
qed

definition demoProducer :: producer where
  "demoProducer =
     \<lparr>pdResolve = (\<lambda>ev. if egEventID ev = 3 then Inr demoAssemble else Inl RecInputsUnavailable),
      pdNow = 5, pdLineage = (\<lambda>e. e)\<rparr>"

definition demoEvents :: "eligible_event list" where
  "demoEvents =
     [\<lparr>egEventID = 4, egAccountID = 1, egVariantID = 2, egEvidenceVersion = 1\<rparr>]"

theorem production_idempotent_witness:
  "runOnce demoProducer demoEnv emptyRec (Inr demoEvents) = (emptyRec, zeroMetrics\<lparr>pmScanned := 1, pmParked := 1\<rparr>, []) \<and>
   pmParked (fst (snd (runOnce (demoProducer\<lparr>pdNow := 7\<rparr>) demoEnv emptyRec (Inr demoEvents)))) = 1"
proof -
  have r: "runOnce demoProducer demoEnv emptyRec (Inr demoEvents) = (emptyRec, zeroMetrics\<lparr>pmScanned := 1, pmParked := 1\<rparr>, [])"
    by (simp add: runOnce_def demoEvents_def produceOne_def demoProducer_def zeroMetrics_def)
  with production_idempotent [OF r, of 7 demoEnv] show ?thesis
    by (simp add: demoEvents_def parked_def demoProducer_def)
qed

end
