(* ===== verification/RecommendationBulk.thy ===== *)
theory RecommendationBulk
  imports RecommendationLife
begin

text \<open>
  Bulk selections and the machine plane of the recommendation service: sealed selection-set versions
  and their fingerprint (selection.go), lineage ownership (lineage_ownership.go), the server-side preview
  (bulk_preview.go), the bulk confirmation through the individual one (bulk_confirm.go), the drafts of
  the chat plane (chat_drafts.go) and the wrappers that resolve the caller's account (scoped.go).
\<close>

section \<open>The fingerprint of a version (selection.go)\<close>

record member_view =
  pvVariantID :: uuid
  pvRecommendationID :: uuid
  pvDisposition :: sel_disposition

fun dispositionText :: "sel_disposition \<Rightarrow> string" where
  "dispositionText DispositionExecutable = ''executable''"
| "dispositionText DispositionWarning = ''warning''"
| "dispositionText DispositionBlocked = ''blocked''"

text \<open>The \<open>n\<close> low bytes of a number, the most significant first.\<close>

fun bytesBE :: "nat \<Rightarrow> nat \<Rightarrow> nat list" where
  "bytesBE 0 v = []"
| "bytesBE (Suc n) v = bytesBE n (v div 256) @ [v mod 256]"

definition uuidBytes :: "uuid \<Rightarrow> nat list" where
  "uuidBytes u = bytesBE 16 (unat u)"

definition textBytes :: "string \<Rightarrow> nat list" where
  "textBytes s = map (of_char :: char \<Rightarrow> nat) s"

text \<open>The comparison of \<open>sort.Slice\<close>: variant, recommendation, disposition, each bytewise.\<close>

fun bytesLess :: "nat list \<Rightarrow> nat list \<Rightarrow> bool" where
  "bytesLess _ [] = False"
| "bytesLess [] (b # bs) = True"
| "bytesLess (a # as) (b # bs) = (a < b \<or> a = b \<and> bytesLess as bs)"

definition viewKey :: "member_view \<Rightarrow> nat list" where
  "viewKey v =
     uuidBytes (pvVariantID v) @ uuidBytes (pvRecommendationID v) @
     textBytes (dispositionText (pvDisposition v))"

fun insertView :: "member_view \<Rightarrow> member_view list \<Rightarrow> member_view list" where
  "insertView v [] = [v]"
| "insertView v (w # ws) = (if bytesLess (viewKey w) (viewKey v) then w # insertView v ws else v # w # ws)"

definition sortViews :: "member_view list \<Rightarrow> member_view list" where
  "sortViews vs = foldr insertView vs []"

definition writeField :: "nat list \<Rightarrow> nat list" where
  "writeField b = bytesBE 8 (length b) @ b"

definition viewBytes :: "member_view \<Rightarrow> nat list" where
  "viewBytes v =
     writeField (uuidBytes (pvVariantID v)) @ writeField (uuidBytes (pvRecommendationID v)) @
     writeField (textBytes (dispositionText (pvDisposition v)))"

definition aggregateBytes :: "money option \<Rightarrow> nat list" where
  "aggregateBytes agg =
     (case agg of
        None \<Rightarrow> [0]
      | Some m \<Rightarrow>
          [1] @ bytesBE 8 (unat (mantissa m)) @ writeField (textBytes (currency m)) @
          [unat (exponent m)])"

text \<open>What is hashed, and the hash; SHA-256 is an argument.\<close>

definition fingerprintBytes :: "member_view list \<Rightarrow> money option \<Rightarrow> nat list" where
  "fingerprintBytes views agg =
     bytesBE 8 (length views) @ concat (map viewBytes (sortViews views)) @ aggregateBytes agg"

definition membershipFingerprint ::
  "(nat list \<Rightarrow> nat list) \<Rightarrow> member_view list \<Rightarrow> money option \<Rightarrow> nat list" where
  "membershipFingerprint sha256 views agg = sha256 (fingerprintBytes views agg)"

section \<open>Ownership and sealed versions (lineage_ownership.go, selection.go)\<close>

text \<open>The tables of a bulk environment: the generators and the hash.\<close>

record bulk_env = rec_env +
  bvSHA256 :: "nat list \<Rightarrow> nat list"

definition recEnv :: "bulk_env \<Rightarrow> rec_env" where
  "recEnv env = \<lparr>nvID = nvID env, nvNow = nvNow env, nvUUIDStr = nvUUIDStr env\<rparr>"

definition claimLineageOwnership :: "rec_db \<Rightarrow> uuid \<Rightarrow> uuid \<Rightarrow> (rec_error, rec_db) result" where
  "claimLineageOwnership db lineage account =
     (let db1 = (if rdOwners db lineage = None
                 then db\<lparr>rdOwners := (rdOwners db)(lineage \<mapsto> account)\<rparr> else db) in
      case rdOwners db1 lineage of
        None \<Rightarrow> Inl RecNoRows
      | Some owner \<Rightarrow> if owner \<noteq> account then Inl RecLineageNotOwned else Inr db1)"

definition getSet :: "rec_db \<Rightarrow> uuid \<Rightarrow> selection_set option" where
  "getSet db i = find (\<lambda>s. ssID s = i) (rdSets db)"

definition currentSet :: "rec_db \<Rightarrow> uuid \<Rightarrow> selection_set option" where
  "currentSet db lineage = latestBy ssVersion (filter (\<lambda>s. ssLineageID s = lineage) (rdSets db))"

definition currentSetForAccount :: "rec_db \<Rightarrow> uuid \<Rightarrow> uuid \<Rightarrow> selection_set option" where
  "currentSetForAccount db lineage account =
     latestBy ssVersion
       (filter (\<lambda>s. ssLineageID s = lineage \<and> ssAccountID s = account) (rdSets db))"

definition setMembers :: "rec_db \<Rightarrow> uuid \<Rightarrow> selection_member list" where
  "setMembers db setID = filter (\<lambda>m. smSetID m = setID) (rdMembers db)"

text \<open>
  \<open>InsertSelectionSet\<close>: the next version of the lineage under the account, the foreign key to its owner,
  the unique (lineage, version) and the check on a known aggregate.
\<close>

definition insertSet :: "rec_env \<Rightarrow> rec_db \<Rightarrow> selection_set \<Rightarrow> (rec_error, rec_db \<times> selection_set) result" where
  "insertSet env db row =
     (case nextVersion ssVersion (filter (\<lambda>s. ssLineageID s = ssLineageID row \<and>
             ssAccountID s = ssAccountID row) (rdSets db)) of
        None \<Rightarrow> Inl RecDbErr
      | Some v \<Rightarrow>
          (let stored = row\<lparr>ssID := nvID env db, ssVersion := v\<rparr> in
           if getSet db (ssID stored) \<noteq> None
             \<or> rdOwners db (ssLineageID stored) \<noteq> Some (ssAccountID stored)
             \<or> list_ex (\<lambda>s. ssLineageID s = ssLineageID stored \<and> ssVersion s = v) (rdSets db)
             \<or> (case ssAggregate stored of None \<Rightarrow> False | Some m \<Rightarrow> currency m = [])
           then Inl RecDbErr
           else Inr (db\<lparr>rdSets := rdSets db @ [stored]\<rparr>, stored)))"

text \<open>
  \<open>InsertSelectionSetMember\<close>: the immutability trigger counts the rows against the sealed count, a
  variant enters once, and set and recommendation belong to the member's account.
\<close>

definition insertMember :: "rec_db \<Rightarrow> selection_member \<Rightarrow> (rec_error, rec_db) result" where
  "insertMember db m =
     (case getSet db (smSetID m) of
        None \<Rightarrow> Inl RecDbErr
      | Some s \<Rightarrow>
          if ssMemberCount s \<le> int (length (setMembers db (smSetID m)))
            \<or> list_ex (\<lambda>x. smVariantID x = smVariantID m) (setMembers db (smSetID m))
            \<or> ssAccountID s \<noteq> smAccountID m
            \<or> (case smRecommendationID m of
                 None \<Rightarrow> False
               | Some i \<Rightarrow>
                   (case getRecommendation db i of
                      None \<Rightarrow> True | Some r \<Rightarrow> rmAccountID r \<noteq> smAccountID m))
          then Inl RecDbErr
          else Inr (db\<lparr>rdMembers := rdMembers db @ [m]\<rparr>))"

fun insertMembers ::
  "rec_db \<Rightarrow> uuid \<Rightarrow> uuid \<Rightarrow> member_view list \<Rightarrow> (rec_error, rec_db) result" where
  "insertMembers db setID account [] = Inr db"
| "insertMembers db setID account (v # vs) =
     andThen (insertMember db
                \<lparr>smSetID = setID, smAccountID = account, smVariantID = pvVariantID v,
                 smRecommendationID = optionalUUID (pvRecommendationID v),
                 smDisposition = pvDisposition v\<rparr>) (\<lambda>db1.
     insertMembers db1 setID account vs)"

definition sealSelectionVersion ::
  "bulk_env \<Rightarrow> rec_db \<Rightarrow> uuid \<Rightarrow> uuid \<Rightarrow> string \<Rightarrow> (string \<times> string) list \<Rightarrow> member_view list \<Rightarrow> money option
    \<Rightarrow> (rec_error, rec_db \<times> selection_set) result" where
  "sealSelectionVersion env db account lineage name criteria views agg =
     andThen (insertSet (recEnv env) db
                \<lparr>ssID = 0, ssAccountID = account, ssLineageID = lineage, ssVersion = 0, ssName = name,
                 ssCriteria = criteria, ssMemberCount = sint (word_of_nat (length views) :: 32 word),
                 ssAggregate = agg,
                 ssFingerprint = membershipFingerprint (bvSHA256 env) views agg\<rparr>) (\<lambda>(db1, set_row).
     andThen (insertMembers db1 (ssID set_row) account views) (\<lambda>db2. Inr (db2, set_row)))"

definition createSelectionSet ::
  "bulk_env \<Rightarrow> rec_db \<Rightarrow> uuid \<Rightarrow> uuid \<Rightarrow> string \<Rightarrow> (string \<times> string) list \<Rightarrow> money option
    \<Rightarrow> (rec_error, rec_db \<times> selection_set) result" where
  "createSelectionSet env db account lineage name criteria agg =
     andThen (claimLineageOwnership db lineage account) (\<lambda>db1.
     sealSelectionVersion env db1 account lineage name criteria [] agg)"

definition bulkPreviewValid :: "rec_db \<Rightarrow> uuid \<Rightarrow> int \<Rightarrow> (rec_error, bool) result" where
  "bulkPreviewValid db lineage boundVersion =
     (case currentSet db lineage of
        None \<Rightarrow> Inl RecNoRows | Some s \<Rightarrow> Inr (ssVersion s = boundVersion))"

section \<open>The preview (bulk_preview.go)\<close>

text \<open>The text of a jsonb value as the driver returns it.\<close>

definition blockerJSON :: "rec_blocker \<Rightarrow> string" where
  "blockerJSON b =
     ''{'' @ [CHR 34] @ ''Code'' @ [CHR 34] @ '': '' @ [CHR 34] @ recBlockerText (rbCode b) @ [CHR 34] @
     '', '' @ [CHR 34] @ ''Message'' @ [CHR 34] @ '': '' @ [CHR 34] @ rbMessage b @ [CHR 34] @ ''}''"

fun joinText :: "string \<Rightarrow> string list \<Rightarrow> string" where
  "joinText sep [] = []"
| "joinText sep [x] = x"
| "joinText sep (x # y # xs) = x @ sep @ joinText sep (y # xs)"

definition blockersJSON :: "rec_blocker slice \<Rightarrow> string" where
  "blockersJSON s =
     (case s of None \<Rightarrow> ''null'' | Some bs \<Rightarrow> ''['' @ joinText '', '' (map blockerJSON bs) @ '']'')"

definition dispositionOf :: "recommendation_row \<Rightarrow> sel_disposition" where
  "dispositionOf row =
     (if rmApprovable row then DispositionExecutable
      else if 2 < length (blockersJSON (rmBlockers row)) then DispositionBlocked
      else DispositionWarning)"

definition memberContribution :: "recommendation_row \<Rightarrow> member_contribution" where
  "memberContribution row =
     \<lparr>mcAvailable = mlAvailable (rmProposedContribution row),
      mcMantissa = (case mlMantissa (rmProposedContribution row) of None \<Rightarrow> 0 | Some m \<Rightarrow> m),
      mcCurrency = mlCurrency (rmProposedContribution row),
      mcExponent = mlExponent (rmProposedContribution row)\<rparr>"

text \<open>A requested member is a variant with the recommendation named for it.\<close>

fun resolveViews ::
  "rec_db \<Rightarrow> uuid \<Rightarrow> (uuid \<times> uuid) list \<Rightarrow> (rec_error, (member_view \<times> member_contribution) list) result" where
  "resolveViews db account [] = Inr []"
| "resolveViews db account ((variant, recID) # ms) =
     (case getRecommendation db recID of
        None \<Rightarrow> Inl RecUnknownMember
      | Some row \<Rightarrow>
          if rmAccountID row \<noteq> account \<or> rmVariantID row \<noteq> variant then Inl RecUnknownMember
          else
            andThen (resolveViews db account ms) (\<lambda>rest.
            Inr ((\<lparr>pvVariantID = variant, pvRecommendationID = recID, pvDisposition = dispositionOf row\<rparr>,
                  memberContribution row) # rest)))"

definition resolveBulkMembers ::
  "rec_db \<Rightarrow> uuid \<Rightarrow> (uuid \<times> uuid) list \<Rightarrow> (rec_error, member_view list \<times> money option) result" where
  "resolveBulkMembers db account members =
     andThen (resolveViews db account members) (\<lambda>vs.
     andThen (aggregateContribution (map snd vs)) (\<lambda>agg.
     Inr (map fst vs, agg)))"

definition previewBulkSelection ::
  "bulk_env \<Rightarrow> rec_db \<Rightarrow> uuid \<Rightarrow> uuid \<Rightarrow> string \<Rightarrow> (string \<times> string) list \<Rightarrow> (uuid \<times> uuid) list
    \<Rightarrow> (rec_error, rec_db \<times> selection_set \<times> member_view list \<times> money option) result" where
  "previewBulkSelection env db account lineage0 name criteria members =
     (let lineage = (if lineage0 = 0 then nvID env db else lineage0) in
      andThen (resolveBulkMembers db account members) (\<lambda>(views, agg).
      andThen (claimLineageOwnership db lineage account) (\<lambda>db1.
      andThen (sealSelectionVersion env db1 account lineage name criteria views agg) (\<lambda>(db2, set_row).
      Inr (db2, set_row, views, agg)))))"

section \<open>Bulk confirmation (bulk_confirm.go)\<close>

datatype bulk_item_state =
  BulkItemPending | BulkItemAuthorized | BulkItemAlreadyAuthorized | BulkItemExcluded
| BulkItemInvalidated | BulkItemFailed

record bulk_item =
  biVariantID :: uuid
  biRecommendationID :: uuid
  biDisposition :: sel_disposition
  biState :: bulk_item_state
  biReason :: string

record bulk_outcome =
  boLineage :: uuid
  boBoundVersion :: int
  boCurrentVersion :: int
  boValid :: bool
  boExecutionPending :: bool
  boItems :: "bulk_item list"

definition bindSelectionVersion ::
  "rec_db \<Rightarrow> uuid \<Rightarrow> uuid \<Rightarrow> int \<Rightarrow> (rec_error, selection_set \<times> selection_member list) result" where
  "bindSelectionVersion db account lineage boundVersion =
     (case currentSetForAccount db lineage account of
        None \<Rightarrow> Inl RecNoRows
      | Some current \<Rightarrow>
          if ssVersion current \<noteq> boundVersion then Inr (current, [])
          else Inr (current, setMembers db (ssID current)))"

definition currentCardState :: "rec_db \<Rightarrow> uuid \<Rightarrow> state option" where
  "currentCardState db recID = map_option crState (currentCardByRecommendation db recID)"

definition settled :: "bulk_item \<Rightarrow> bulk_item_state \<Rightarrow> string \<Rightarrow> bulk_item" where
  "settled item st reason = item\<lparr>biState := st, biReason := reason\<rparr>"

text \<open>The answer to a refused confirmation, from the state read afterwards.\<close>

definition refusedItem :: "rec_db \<Rightarrow> bulk_item \<Rightarrow> bulk_item \<times> bool" where
  "refusedItem db item =
     (case currentCardState db (biRecommendationID item) of
        None \<Rightarrow> (settled item BulkItemFailed ''state_read_failed'', False)
      | Some st \<Rightarrow>
          if stateHasAuthorized st
          then (settled item BulkItemAlreadyAuthorized ''already_authorized'', stateHasPendingExecution st)
          else (settled item BulkItemInvalidated ''not_control_bearing'', False))"

definition answeredItem :: "confirm_outcome \<Rightarrow> bulk_item \<Rightarrow> bulk_item \<times> bool" where
  "answeredItem out item =
     (if coState out = StateApproved
      then (settled item BulkItemAuthorized ''authorized'', stateHasPendingExecution StateApproved)
      else
        (settled item BulkItemInvalidated
           (if coReason out \<noteq> ReasonNone then reasonName (coReason out) else stateName (coState out)), False))"

text \<open>
  One executable member.  \<open>others k\<close> is what other sessions commit before the k-th statement or
  transaction of this one: the card lookup, the read of the confirmation, its lock, the second read.
\<close>

definition authorizeBulkMember ::
  "rec_service \<Rightarrow> (nat \<Rightarrow> rec_db \<Rightarrow> rec_db) \<Rightarrow> rec_db \<Rightarrow> uuid \<Rightarrow> bulk_item \<Rightarrow> instant \<Rightarrow> actor
    \<Rightarrow> rec_db \<times> bulk_item \<times> bool" where
  "authorizeBulkMember svc others db account item now act =
     (if biRecommendationID item = 0
      then (db, settled item BulkItemInvalidated ''no_recommendation'', False)
      else
        (let db0 = others 0 db in
         case currentCardByRecommendation db0 (biRecommendationID item) of
           None \<Rightarrow> (db0, settled item BulkItemInvalidated ''no_live_card'', False)
         | Some c \<Rightarrow>
             if crAccountID c \<noteq> account
             then (db0, settled item BulkItemInvalidated ''account_mismatch'', False)
             else
               (case cardFromDB c of
                  Inl _ \<Rightarrow> (db0, settled item BulkItemFailed ''card_decode_failed'', False)
                | Inr domainCard \<Rightarrow>
                    (let db1 = others 1 db0 in
                     case confirmIndividual svc (others 2) db1 (crID c) (cdBinding domainCard) now act of
                       Inr (db', out) \<Rightarrow> (db', answeredItem out item)
                     | Inl err \<Rightarrow>
                         if err = RecApprovalErr ErrNoControl \<or> err = RecRejectedTransition
                         then (let db3 = others 3 (others 2 db1) in (db3, refusedItem db3 item))
                         else if err = RecNoRows
                         then (others 2 db1, settled item BulkItemInvalidated ''no_live_card'', False)
                         else (others 2 db1, settled item BulkItemFailed ''authorize_failed'', False)))))"

definition newItem :: "selection_member \<Rightarrow> bulk_item" where
  "newItem m =
     \<lparr>biVariantID = smVariantID m,
      biRecommendationID = (case smRecommendationID m of None \<Rightarrow> 0 | Some i \<Rightarrow> i),
      biDisposition = smDisposition m, biState = BulkItemPending, biReason = []\<rparr>"

fun authorizeMembers ::
  "rec_service \<Rightarrow> (uuid \<Rightarrow> nat \<Rightarrow> rec_db \<Rightarrow> rec_db) \<Rightarrow> rec_db \<Rightarrow> uuid \<Rightarrow> selection_member list \<Rightarrow> instant \<Rightarrow> actor
    \<Rightarrow> rec_db \<times> bulk_item list \<times> bool" where
  "authorizeMembers svc others db account [] now act = (db, [], False)"
| "authorizeMembers svc others db account (m # ms) now act =
     (let (db1, item, pending) =
        (if smDisposition m \<noteq> DispositionExecutable
         then (db, settled (newItem m) BulkItemExcluded (dispositionText (smDisposition m)), False)
         else authorizeBulkMember svc (others (smVariantID m)) db account (newItem m) now act);
        (db2, items, pendingAny) = authorizeMembers svc others db1 account ms now act
      in (db2, item # items, pending \<or> pendingAny))"

definition confirmBulkSelection ::
  "rec_service \<Rightarrow> (uuid \<Rightarrow> nat \<Rightarrow> rec_db \<Rightarrow> rec_db) \<Rightarrow> rec_db \<Rightarrow> uuid \<Rightarrow> uuid \<Rightarrow> int \<Rightarrow> instant \<Rightarrow> actor
    \<Rightarrow> (rec_error, rec_db \<times> bulk_outcome) result" where
  "confirmBulkSelection svc others db account lineage boundVersion now act =
     andThen (bindSelectionVersion db account lineage boundVersion) (\<lambda>(current, members).
     if ssVersion current \<noteq> boundVersion
     then Inr (db, \<lparr>boLineage = lineage, boBoundVersion = boundVersion,
                    boCurrentVersion = ssVersion current, boValid = False,
                    boExecutionPending = False, boItems = []\<rparr>)
     else
       (case authorizeMembers svc others db account members now act of
          (db', items, pendingAny) \<Rightarrow>
            Inr (db', \<lparr>boLineage = lineage, boBoundVersion = boundVersion,
                       boCurrentVersion = ssVersion current, boValid = True,
                       boExecutionPending = pendingAny, boItems = items\<rparr>)))"

section \<open>Drafts of the chat plane (chat_drafts.go)\<close>

record draft_ticket =
  dtDraftID :: uuid
  dtActionID :: uuid
  dtContextVersion :: int64
  dtRecommendationVersion :: int64
  dtParameterVersion :: int64
  dtExpiresAt :: instant

definition draftControlTTL :: duration where "draftControlTTL = hour"
definition level2ScopeKey :: string where "level2ScopeKey = ''scope.account''"
definition level2ConsequenceKey :: string where "level2ConsequenceKey = ''consequence.reversible''"

text \<open>\<open>actionID\<close> is the fresh \<open>uuid.New()\<close> of the call.\<close>

definition prepareRecommendationDraft ::
  "rec_env \<Rightarrow> rec_db \<Rightarrow> uuid \<Rightarrow> uuid \<Rightarrow> uuid \<Rightarrow> uuid \<Rightarrow> (rec_error, rec_db \<times> draft_ticket) result" where
  "prepareRecommendationDraft env db actionID account entity recID =
     (case getRecommendation db recID of
        None \<Rightarrow> Inl RecNoRows
      | Some row \<Rightarrow>
          if rmAccountID row \<noteq> account \<or> rmVariantID row \<noteq> entity then Inl RecEntityMismatch
          else
            (case rmExpiresAt row of
               None \<Rightarrow> Inl RecNotExecutable
             | Some expiry \<Rightarrow>
                 if \<not> rmApprovable row \<or> \<not> mlAvailable (rmProposedPrice row) then Inl RecNotExecutable
                 else
                   andThen (mapErr RecMoneyErr
                     (newMoney (case mlMantissa (rmProposedPrice row) of None \<Rightarrow> 0 | Some m \<Rightarrow> m)
                        (mlCurrency (rmProposedPrice row)) (mlExponent (rmProposedPrice row)))) (\<lambda>price.
                   (case rmEvidenceVersions row of
                      None \<Rightarrow> Inl RecCorruptEvidence
                    | Some ev \<Rightarrow>
                        andThen (mintDraftCard env db recID (rmLineageID row) account
                          \<lparr>bnActionID = actionID, bnParameterVersion = rmParameterVersion row,
                           bnContextVersion = rmContextVersion row, bnPolicyVersion = rmPolicyVersion row,
                           bnCostProfileVersion = rmCostProfileVersion row, bnEvidenceVersions = ev,
                           bnExpiry = expiry\<rparr> price) (\<lambda>(db1, c).
                        Inr (db1, \<lparr>dtDraftID = crID c, dtActionID = actionID,
                                   dtContextVersion = rmContextVersion row,
                                   dtRecommendationVersion = word_of_int (rmVersion row),
                                   dtParameterVersion = rmParameterVersion row,
                                   dtExpiresAt = expiry\<rparr>))))))"

definition compileSelectionCriteria :: "string \<Rightarrow> (string \<times> string) list" where
  "compileSelectionCriteria query = [(''query'', query)]"

definition prepareSelectionSetDraft ::
  "bulk_env \<Rightarrow> rec_db \<Rightarrow> uuid \<Rightarrow> uuid \<Rightarrow> uuid \<Rightarrow> string \<Rightarrow> instant \<Rightarrow> (rec_error, rec_db \<times> draft_ticket) result" where
  "prepareSelectionSetDraft env db lineage actionID account query now =
     andThen (createSelectionSet env db account lineage query (compileSelectionCriteria query) None)
       (\<lambda>(db1, set_row).
     Inr (db1, \<lparr>dtDraftID = ssID set_row, dtActionID = actionID,
                dtContextVersion = word_of_int (ssVersion set_row), dtRecommendationVersion = 0,
                dtParameterVersion = word_of_int (ssVersion set_row),
                dtExpiresAt = now + draftControlTTL\<rparr>))"

definition level2Event :: "uuid \<Rightarrow> uuid \<Rightarrow> actor \<Rightarrow> instant \<Rightarrow> level2_proposal \<Rightarrow> audit_event" where
  "level2Event actionID account act expiry prop =
     \<lparr>aeActionID = actionID, aeCardID = 0, aeAccountID = account, aeType = EventLevel2Proposal,
      aeActor = act, aeBinding = (actionBinding actionID)\<lparr>bnExpiry := expiry\<rparr>,
      aeCardSnapshot =
        [(''setting_key'', SnapText (lpSettingKey prop)), (''before_key'', SnapText (lpBeforeKey prop)),
         (''after_key'', SnapText (lpAfterKey prop)), (''scope_key'', SnapText level2ScopeKey),
         (''consequence_key'', SnapText level2ConsequenceKey)],
      aeDetail = [(''proposal_id'', SnapUUID (lpID prop))], aeTerminalState = []\<rparr>"

definition prepareLevel2Proposal ::
  "rec_env \<Rightarrow> rec_db \<Rightarrow> uuid \<Rightarrow> uuid \<Rightarrow> actor \<Rightarrow> string \<Rightarrow> string \<Rightarrow> string \<Rightarrow> instant
    \<Rightarrow> (rec_error, rec_db \<times> draft_ticket) result" where
  "prepareLevel2Proposal env db actionID account act settingKey beforeKey afterKey now =
     (let expiry = now + draftControlTTL;
          prop = \<lparr>lpID = nvID env db, lpAccountID = account, lpActionID = actionID,
                  lpSettingKey = settingKey, lpBeforeKey = beforeKey, lpAfterKey = afterKey,
                  lpScopeKey = level2ScopeKey, lpConsequenceKey = level2ConsequenceKey,
                  lpExpiresAt = expiry, lpActor = act\<rparr> in
      if list_ex (\<lambda>p. lpID p = lpID prop) (rdProposals db) then Inl RecDbErr
      else
        andThen (appendAuditRow env (db\<lparr>rdProposals := rdProposals db @ [prop]\<rparr>)
                   (level2Event actionID account act expiry prop)) (\<lambda>db1.
        Inr (db1, \<lparr>dtDraftID = lpID prop, dtActionID = actionID, dtContextVersion = 0,
                   dtRecommendationVersion = 0, dtParameterVersion = 0, dtExpiresAt = expiry\<rparr>)))"

section \<open>The caller's account (scoped.go)\<close>

text \<open>\<open>orgs\<close> is the account each organization owns.\<close>

definition accountForOrg :: "(uuid \<rightharpoonup> uuid) \<Rightarrow> uuid \<Rightarrow> (rec_error, uuid) result" where
  "accountForOrg orgs org = (case orgs org of None \<Rightarrow> Inl RecNoRows | Some a \<Rightarrow> Inr a)"

definition getCardForAccount :: "rec_db \<Rightarrow> uuid \<Rightarrow> uuid \<Rightarrow> (rec_error, card_row) result" where
  "getCardForAccount db cardID account =
     (case getCard db cardID of
        None \<Rightarrow> Inl RecNoRows
      | Some c \<Rightarrow> if crAccountID c = account then Inr c else Inl RecNoRows)"

definition getCardForOrg :: "(uuid \<rightharpoonup> uuid) \<Rightarrow> rec_db \<Rightarrow> uuid \<Rightarrow> uuid \<Rightarrow> (rec_error, card_row) result" where
  "getCardForOrg orgs db org cardID =
     andThen (accountForOrg orgs org) (\<lambda>account. getCardForAccount db cardID account)"

definition getRecommendationForOrg ::
  "(uuid \<rightharpoonup> uuid) \<Rightarrow> rec_db \<Rightarrow> uuid \<Rightarrow> uuid \<Rightarrow> (rec_error, recommendation_row) result" where
  "getRecommendationForOrg orgs db org i =
     andThen (accountForOrg orgs org) (\<lambda>account.
     (case getRecommendation db i of
        None \<Rightarrow> Inl RecNoRows
      | Some r \<Rightarrow> if rmAccountID r = account then Inr r else Inl RecNoRows))"

definition confirmIndividualForOrg ::
  "rec_service \<Rightarrow> (uuid \<rightharpoonup> uuid) \<Rightarrow> (rec_db \<Rightarrow> rec_db) \<Rightarrow> rec_db \<Rightarrow> uuid \<Rightarrow> uuid \<Rightarrow> binding \<Rightarrow> instant \<Rightarrow> actor
    \<Rightarrow> (rec_error, rec_db \<times> confirm_outcome) result" where
  "confirmIndividualForOrg svc orgs racing db org cardID presented now act =
     andThen (accountForOrg orgs org) (\<lambda>account.
     andThen (getCardForAccount db cardID account) (\<lambda>_.
     confirmIndividual svc racing db cardID presented now act))"

definition editPriceForOrg ::
  "rec_service \<Rightarrow> rec_env \<Rightarrow> (uuid \<rightharpoonup> uuid) \<Rightarrow> rec_db \<Rightarrow> rec_db \<Rightarrow> rec_db \<Rightarrow> rec_db \<Rightarrow> uuid \<Rightarrow> uuid
    \<Rightarrow> money \<Rightarrow> instant \<Rightarrow> (rec_error, rec_db \<times> card_row) result" where
  "editPriceForOrg svc env orgs dbO dbC dbR db org cardID price now =
     andThen (accountForOrg orgs org) (\<lambda>account.
     andThen (getCardForAccount dbO cardID account) (\<lambda>_.
     editCardPrice svc env dbC dbR db cardID price now))"

definition previewBulkSelectionForOrg ::
  "bulk_env \<Rightarrow> (uuid \<rightharpoonup> uuid) \<Rightarrow> rec_db \<Rightarrow> uuid \<Rightarrow> uuid \<Rightarrow> uuid \<Rightarrow> string \<Rightarrow> (string \<times> string) list
    \<Rightarrow> (uuid \<times> uuid) list \<Rightarrow> (rec_error, rec_db \<times> selection_set \<times> member_view list \<times> money option) result" where
  "previewBulkSelectionForOrg env orgs db org requested lineage name criteria members =
     andThen (accountForOrg orgs org) (\<lambda>account.
     if requested \<noteq> account then Inl RecAccountNotFound
     else previewBulkSelection env db account lineage name criteria members)"

definition confirmBulkSelectionForOrg ::
  "rec_service \<Rightarrow> (uuid \<rightharpoonup> uuid) \<Rightarrow> (uuid \<Rightarrow> nat \<Rightarrow> rec_db \<Rightarrow> rec_db) \<Rightarrow> rec_db \<Rightarrow> uuid \<Rightarrow> uuid \<Rightarrow> int
    \<Rightarrow> instant \<Rightarrow> actor \<Rightarrow> (rec_error, rec_db \<times> bulk_outcome) result" where
  "confirmBulkSelectionForOrg svc orgs others db org lineage boundVersion now act =
     andThen (accountForOrg orgs org) (\<lambda>account.
     confirmBulkSelection svc others db account lineage boundVersion now act)"

end
