(* ===== verification/BulkApproval.thy ===== *)
theory BulkApproval
  imports RecommendationBulk
begin

text \<open>
  What a bulk confirmation may do: whatever other sessions commit in between, its own effects are
  individual confirmations of the current cards of executable members of the bound version, under the
  caller's account; a stale version authorizes nothing; and repeating a bulk confirmation changes
  nothing.
\<close>

section \<open>Tables that differ in card states only\<close>

text \<open>Only cards that await confirmation move.\<close>

definition stateMoves :: "(card_row \<Rightarrow> state) \<Rightarrow> card_row list \<Rightarrow> bool" where
  "stateMoves f cs \<longleftrightarrow> (\<forall>c\<in>set cs. crState c \<noteq> StateAwaitingConfirmation \<longrightarrow> f c = crState c)"

definition moveState :: "(card_row \<Rightarrow> state) \<Rightarrow> card_row \<Rightarrow> card_row" where
  "moveState f c = c\<lparr>crState := f c\<rparr>"

definition onlyStates :: "rec_db \<Rightarrow> rec_db \<Rightarrow> bool" where
  "onlyStates db db' \<longleftrightarrow> (\<exists>f. cards db' = map (moveState f) (cards db) \<and> stateMoves f (cards db))"

lemma moveState_sel [simp]:
  "crID (moveState f c) = crID c" "crLineageID (moveState f c) = crLineageID c"
  "crRecommendationID (moveState f c) = crRecommendationID c" "crAccountID (moveState f c) = crAccountID c"
  "crVersion (moveState f c) = crVersion c" "crState (moveState f c) = f c"
  "crPrice (moveState f c) = crPrice c" "crEvidence (moveState f c) = crEvidence c"
  by (simp_all add: moveState_def)

lemma cardFromDB_moveState: "isl (cardFromDB (moveState f c)) = isl (cardFromDB c)"
  by (simp add: cardFromDB_def andThen_def mapErr_def split: sum.splits option.splits)

lemma find_map_some: "find P (map g xs) = map_option g (find (\<lambda>x. P (g x)) xs)"
  by (induction xs) auto

lemma latestBy_map: "(\<And>x. f (g x) = f x) \<Longrightarrow> latestBy f (map g xs) = map_option g (latestBy f xs)"
  by (simp add: latestBy_def find_map_some list.pred_map comp_def)

lemma onlyStates_current:
  assumes "cards db' = map (moveState f) (cards db)"
  shows "currentCard db' l = map_option (moveState f) (currentCard db l)"
    and "currentCardByRecommendation db' i = map_option (moveState f) (currentCardByRecommendation db i)"
  by (simp_all add: currentCard_def currentCardByRecommendation_def assms filter_map comp_def latestBy_map)

lemma onlyStates_refl [simp]: "onlyStates db db"
  by (auto simp: onlyStates_def moveState_def stateMoves_def intro!: exI [of _ crState] map_idI [symmetric])

lemma onlyStates_trans: "onlyStates db d1 \<Longrightarrow> onlyStates d1 d2 \<Longrightarrow> onlyStates db d2"
proof -
  assume "onlyStates db d1" "onlyStates d1 d2"
  then obtain f g where f: "cards d1 = map (moveState f) (cards db)" "stateMoves f (cards db)"
    and g: "cards d2 = map (moveState g) (cards d1)" "stateMoves g (cards d1)"
    unfolding onlyStates_def by blast
  have "moveState g (moveState f c) = moveState (\<lambda>c. g (moveState f c)) c" for c
    by (simp add: moveState_def)
  then have "cards d2 = map (moveState (\<lambda>c. g (moveState f c))) (cards db)" by (simp add: g f)
  moreover have "stateMoves (\<lambda>c. g (moveState f c)) (cards db)"
    using f g by (auto simp: stateMoves_def)
  ultimately show ?thesis by (auto simp: onlyStates_def)
qed

lemma onlyStates_advance:
  assumes "rowsOk db" and "advanceCard db i StateAwaitingConfirmation t reason = Inr (db', row')"
  shows "onlyStates db db'"
proof -
  let ?f = "\<lambda>c. if crID c = i then t else crState c"
  have "cards db' = map (moveState ?f) (cards db)"
    by (simp add: cards_advance [OF assms] moveState_def)
  moreover have "crState c = StateAwaitingConfirmation" if "c \<in> set (cards db)" "crID c = i" for c
    using that assms by (auto simp: rowsOk_set_cards advanceCard_ok)
  then have "stateMoves ?f (cards db)" by (auto simp: stateMoves_def)
  ultimately show ?thesis unfolding onlyStates_def by blast
qed

lemma onlyStates_cong:
  "edCards (rdExec db') = edCards (rdExec d1) \<Longrightarrow> rdCardOrder db' = rdCardOrder d1 \<Longrightarrow>
   onlyStates db d1 \<Longrightarrow> onlyStates db db'"
  by (simp add: onlyStates_def cards_def)

lemma onlyStates_confirm:
  assumes "rowsOk db" and "earlierRead db requested"
    and "confirmLocked (wired env rc) db requested presented now act = Inr (db', out)"
  shows "onlyStates db db'"
  using assms
proof (cases rule: confirmLocked_cases)
  case (superseded row current db1)
  then show ?thesis using onlyStates_advance [OF assms(1) superseded(6)] by simp
next
  case (current row db1)
  have m: "onlyStates db db1"
    by (rule onlyStates_advance [OF assms(1) current(6)])
  show ?thesis
  proof (cases "coState out = StateApproved")
    case True
    with current(8) have "db' = addIntent (auditApproval env db1 (confirmationEvent (coCard out) (rowBinding row) presented act)) (coCard out)"
      by (simp add: recordApproval_wired)
    then show ?thesis using onlyStates_cong [OF _ _ m, of db'] by simp
  qed (use current(8) m in simp)
qed

section \<open>Members that cannot be decided\<close>

definition decodable :: "card_row \<Rightarrow> bool" where
  "decodable c \<longleftrightarrow> \<not> isl (cardFromDB c)"

lemma decodable_iff: "decodable c \<longleftrightarrow> (\<exists>d. cardFromDB c = Inr d)"
  by (cases "cardFromDB c") (simp_all add: decodable_def)

lemma decodable_moveState [simp]: "decodable (moveState f c) = decodable c"
  by (simp add: decodable_def cardFromDB_moveState)

definition heldBack :: "rec_db \<Rightarrow> uuid \<Rightarrow> uuid \<Rightarrow> bool" where
  "heldBack db account i \<longleftrightarrow>
     i = 0 \<or>
     (case currentCardByRecommendation db i of
        None \<Rightarrow> True
      | Some c \<Rightarrow>
          crAccountID c \<noteq> account \<or> \<not> decodable c \<or> crState c \<noteq> StateAwaitingConfirmation \<or>
          (case currentCard db (crLineageID c) of
             None \<Rightarrow> True | Some h \<Rightarrow> crID h \<noteq> crID c \<and> \<not> decodable h))"

lemma heldBack_onlyStates: "heldBack db account i \<Longrightarrow> onlyStates db db' \<Longrightarrow> heldBack db' account i"
proof -
  assume h: "heldBack db account i" and "onlyStates db db'"
  then obtain f where f: "cards db' = map (moveState f) (cards db)" "stateMoves f (cards db)"
    unfolding onlyStates_def by blast
  show ?thesis
  proof (cases "currentCardByRecommendation db i")
    case None
    then show ?thesis by (simp add: heldBack_def onlyStates_current [OF f(1)])
  next
    case (Some c)
    then have "c \<in> set (cards db)"
      using latestBy_Some [OF Some [unfolded currentCardByRecommendation_def]] by simp
    then have "crState c \<noteq> StateAwaitingConfirmation \<Longrightarrow> f c \<noteq> StateAwaitingConfirmation"
      using f(2) by (auto simp: stateMoves_def)
    then show ?thesis
      using h Some by (cases "currentCard db (crLineageID c)") (auto simp: heldBack_def onlyStates_current [OF f(1)])
  qed
qed

lemma currentByRecommendation_row:
  assumes "rowsOk db" and "currentCardByRecommendation db i = Some c"
  shows "getCard db (crID c) = Some c" "crRecommendationID c = i" "earlierRead db c"
proof -
  have "c \<in> set (cards db)" "crRecommendationID c = i"
    using latestBy_Some [OF assms(2) [unfolded currentCardByRecommendation_def]] by simp_all
  then show "getCard db (crID c) = Some c" "crRecommendationID c = i" "earlierRead db c"
    using assms(1) by (simp_all add: rowsOk_set_cards earlierRead_def)
qed

lemma head_same:
  assumes "rowsOk db" and "getCard db (crID c) = Some c" and "currentCard db (crLineageID c) = Some h"
  shows "crID c = crID h \<and> crVersion c = crVersion h \<longleftrightarrow> crID h = crID c"
proof -
  have "getCard db (crID h) = Some h" using currentCard_Some [OF assms(1,3)] by simp
  with assms(2) have "crID h = crID c \<Longrightarrow> h = c" by simp
  then show ?thesis by fastforce
qed

lemma confirmLocked_refuses:
  assumes "rowsOk db" and "currentCardByRecommendation db i = Some c" and "heldBack db account i" and "i \<noteq> 0"
    and "crAccountID c = account"
  shows "\<exists>e. confirmLocked svc db c presented now act = Inl e"
proof (cases "cardFromDB c")
  case (Inl e)
  then show ?thesis by (simp add: confirmLocked_def)
next
  case (Inr d)
  note row = currentByRecommendation_row [OF assms(1,2)]
  show ?thesis
  proof (cases "crState c = StateAwaitingConfirmation")
    case False
    then show ?thesis using Inr cardFromDB_ok [OF Inr] by (simp add: confirmLocked_def controlOf_def mapErr_def)
  next
    case True
    obtain h where h: "currentCard db (crLineageID c) = Some h"
      using currentCard_exists [OF assms(1) row(1)] by blast
    with assms(2-5) True Inr have "crID h \<noteq> crID c" "isl (cardFromDB h)"
      by (auto simp: heldBack_def decodable_def)
    then show ?thesis
      using Inr True h cardFromDB_ok [OF Inr]
      by (auto simp: confirmLocked_def controlOf_def mapErr_def andThen_def split: sum.splits)
  qed
qed

lemma confirmLocked_decides:
  assumes "rowsOk db" and "currentCardByRecommendation db i = Some c" and "\<not> heldBack db account i"
  shows "\<exists>db' out. confirmLocked (wired env rc) db c presented now act = Inr (db', out)"
proof -
  note row = currentByRecommendation_row [OF assms(1,2)]
  from assms(2,3) obtain d h where d: "cardFromDB c = Inr d" and s: "crState c = StateAwaitingConfirmation"
    and h: "currentCard db (crLineageID c) = Some h" "crID h = crID c \<or> decodable h"
    by (auto simp: heldBack_def decodable_def isl_def split: option.splits sum.splits) (metis sum.exhaust)+
  note k = cardFromDB_ok [OF d]
  show ?thesis
  proof (cases "crID h = crID c")
    case False
    then obtain e where e: "cardFromDB h = Inr e" using h(2) by (cases "cardFromDB h") (auto simp: decodable_def)
    let ?r = "supersededReason (cdBinding d) (cdBinding e) now"
    obtain db1 where "advanceCard db (crID c) StateAwaitingConfirmation StateInvalidated (confirmReason ?r)
        = Inr (db1, c\<lparr>crState := StateInvalidated\<rparr>)"
      using advanceCard_exists [of c StateInvalidated db "crID c" "confirmReason ?r"] s row(1)
      by (auto simp: canTransition_into)
    then show ?thesis
      using False d e h(1) k s by (simp add: confirmLocked_def controlOf_def mapErr_def Let_def)
  next
    case True
    then have v: "crVersion h = crVersion c" using head_same [OF assms(1) row(1) h(1)] by simp
    let ?r = "validateAgainst (cdBinding d) presented now"
    obtain t where t: "t = (if ?r = ReasonNone then StateApproved else if ?r = ReasonExpired then StateExpired else StateInvalidated)"
      "canTransition StateAwaitingConfirmation t"
      by (auto simp: canTransition_def transitions_def)
    have m: "confirm d presented now = Inr (d\<lparr>cdState := t\<rparr>, ?r)"
      using k s by (simp add: confirm_ok t(1))
    obtain db1 where a: "advanceCard db (crID c) StateAwaitingConfirmation t (confirmReason ?r)
        = Inr (db1, c\<lparr>crState := t\<rparr>)"
      using advanceCard_exists [of c t db "crID c" "confirmReason ?r"] s row(1) t(2) by auto
    have "\<exists>db2. (if t = StateApproved then recordApproval (wired env rc) db1 (c\<lparr>crState := t\<rparr>) (cdBinding d) presented act
        else Inr db1) = Inr db2"
      by (simp add: recordApproval_def appendAuditRow_def dispatchApproved_eq)
    then show ?thesis
      using True v d h(1) k s m a by (auto simp: confirmLocked_def controlOf_def mapErr_def)
  qed
qed

section \<open>One member without interference\<close>

abbreviation alone :: "nat \<Rightarrow> rec_db \<Rightarrow> rec_db" where
  "alone \<equiv> \<lambda>_ d. d"

definition approvedCard :: "rec_db \<Rightarrow> uuid \<Rightarrow> uuid \<Rightarrow> bool" where
  "approvedCard db account i \<longleftrightarrow>
     i \<noteq> 0 \<and>
     (case currentCardByRecommendation db i of
        None \<Rightarrow> False
      | Some c \<Rightarrow> crAccountID c = account \<and> decodable c \<and> crState c = StateApproved)"

lemma approvedCard_onlyStates: "approvedCard db account i \<Longrightarrow> onlyStates db db' \<Longrightarrow> approvedCard db' account i"
proof -
  assume h: "approvedCard db account i" and "onlyStates db db'"
  then obtain f where f: "cards db' = map (moveState f) (cards db)" "stateMoves f (cards db)"
    unfolding onlyStates_def by blast
  from h obtain c where c: "currentCardByRecommendation db i = Some c" "crState c = StateApproved"
    by (auto simp: approvedCard_def split: option.splits)
  then have "c \<in> set (cards db)"
    using latestBy_Some [OF c(1) [unfolded currentCardByRecommendation_def]] by simp
  then have "f c = StateApproved" using f(2) c(2) by (simp add: stateMoves_def)
  then show ?thesis using h c by (simp add: approvedCard_def onlyStates_current [OF f(1)])
qed

lemma confirmLocked_account_errors:
  assumes "cardFromDB c = Inr d" and "crState c \<noteq> StateAwaitingConfirmation"
  shows "confirmLocked svc db c presented now act = Inl (RecApprovalErr ErrNoControl)"
  using assms(2) cardFromDB_ok [OF assms(1)]
  by (simp add: confirmLocked_def assms(1) controlOf_def mapErr_def)

lemma confirmLocked_frame:
  assumes "rowsOk db" and "earlierRead db requested"
    and "confirmLocked (wired env rc) db requested presented now act = Inr (db', out)"
  shows "rowsOk db' \<and> rdSets db' = rdSets db \<and> rdMembers db' = rdMembers db \<and>
    length (edAudit (rdExec db')) = length (edAudit (rdExec db)) + (if coState out = StateApproved then 1 else 0) \<and>
    coState out \<noteq> StateAwaitingConfirmation \<and>
    map_option crState (getCard db' (crID requested)) = Some (coState out)"
  using assms
proof (cases rule: confirmLocked_cases)
  case (superseded row current db1)
  then show ?thesis
    using rowsOk_advance [OF assms(1) superseded(6)] advance_frame [OF superseded(6)]
    by (auto elim!: getCard_advance)
next
  case (current row db1)
  have a: "rowsOk db1" "rdSets db1 = rdSets db" "rdMembers db1 = rdMembers db" "edAudit (rdExec db1) = edAudit (rdExec db)"
    using rowsOk_advance [OF assms(1) current(6)] advance_frame [OF current(6)] by simp_all
  have s: "map_option crState (getCard db1 (crID requested)) = Some (coState out)" "coState out \<noteq> StateAwaitingConfirmation"
    using current(6) current(5) by (auto elim!: getCard_advance)
  show ?thesis
  proof (cases "coState out = StateApproved")
    case True
    with current(8) have d: "db' = addIntent (auditApproval env db1 (confirmationEvent (coCard out) (rowBinding row) presented act)) (coCard out)"
      by (simp add: recordApproval_wired)
    have "rowsOk db' = rowsOk db1" by (rule rowsOk_cong) (simp_all add: d)
    moreover have "rdSets db' = rdSets db1" "rdMembers db' = rdMembers db1"
      by (simp_all add: d addIntent_def auditApproval_def)
    ultimately show ?thesis using a s True by (simp add: d)
  qed (use current(8) a s in simp)
qed

lemma answered_states:
  "biState (fst (refusedItem db item)) \<noteq> BulkItemAuthorized"
  "(biState (fst (answeredItem out item)) = BulkItemAuthorized) = (coState out = StateApproved)"
  by (simp_all add: refusedItem_def answeredItem_def settled_def split: option.split)

lemma authorize_alone:
  assumes "biRecommendationID item \<noteq> 0" and "currentCardByRecommendation db (biRecommendationID item) = Some c"
    and "crAccountID c = account" and "cardFromDB c = Inr d" and "getCard db (crID c) = Some c"
  shows "authorizeBulkMember svc alone db account item now act =
    (case confirmLocked svc db c (cdBinding d) now act of
       Inr (db', out) \<Rightarrow> (db', answeredItem out item)
     | Inl err \<Rightarrow>
         if err = RecApprovalErr ErrNoControl \<or> err = RecRejectedTransition then (db, refusedItem db item)
         else if err = RecNoRows then (db, settled item BulkItemInvalidated ''no_live_card'', False)
         else (db, settled item BulkItemFailed ''authorize_failed'', False))"
  using assms by (simp add: authorizeBulkMember_def Let_def confirmIndividual_def split: sum.split)

lemma authorize_early:
  assumes "biRecommendationID item = 0 \<or> (case currentCardByRecommendation db (biRecommendationID item) of
    None \<Rightarrow> True | Some c \<Rightarrow> crAccountID c \<noteq> account \<or> \<not> decodable c)"
  shows "\<exists>st reason. authorizeBulkMember svc alone db account item now act = (db, settled item st reason, False) \<and>
    st \<noteq> BulkItemAuthorized"
  using assms
  by (auto simp: authorizeBulkMember_def Let_def decodable_def isl_def split: option.splits sum.splits)

lemma authorize_held:
  assumes "rowsOk db" and "heldBack db account (biRecommendationID item)"
    and "authorizeBulkMember svc alone db account item now act = (db', item', p)"
  shows "db' = db \<and> biState item' \<noteq> BulkItemAuthorized \<and>
    (approvedCard db account (biRecommendationID item) \<longrightarrow> biState item' = BulkItemAlreadyAuthorized)"
proof (cases "biRecommendationID item = 0 \<or> (case currentCardByRecommendation db (biRecommendationID item) of
    None \<Rightarrow> True | Some c \<Rightarrow> crAccountID c \<noteq> account \<or> \<not> decodable c)")
  case True
  moreover from True have "\<not> approvedCard db account (biRecommendationID item)"
    by (auto simp: approvedCard_def split: option.splits)
  ultimately show ?thesis
    using authorize_early [OF True, of svc now act] assms(3) by (auto simp: settled_def)
next
  case False
  then obtain c d where i: "biRecommendationID item \<noteq> 0" and c: "currentCardByRecommendation db (biRecommendationID item) = Some c"
    and a: "crAccountID c = account" and d: "cardFromDB c = Inr d"
    by (auto simp: decodable_iff split: option.splits)
  note row = currentByRecommendation_row [OF assms(1) c]
  obtain e where e: "confirmLocked svc db c (cdBinding d) now act = Inl e"
    using confirmLocked_refuses [OF assms(1) c assms(2) i a] by blast
  have "db' = db \<and> biState item' \<noteq> BulkItemAuthorized"
    using assms(3) answered_states(1) [of db item]
    by (auto simp: authorize_alone [OF i c a d row(1)] e settled_def prod_eq_iff split: if_splits)
  moreover have "biState item' = BulkItemAlreadyAuthorized" if "approvedCard db account (biRecommendationID item)"
  proof -
    have s: "crState c = StateApproved" using that c by (simp add: approvedCard_def)
    then show ?thesis
      using assms(3) confirmLocked_account_errors [OF d, of svc db "cdBinding d" now act]
      by (auto simp: authorize_alone [OF i c a d row(1)] refusedItem_def currentCardState_def c stateHasAuthorized_iff settled_def split: if_splits)
  qed
  ultimately show ?thesis by blast
qed

lemma authorizeBulkMember_ok:
  assumes "rowsOk db" and "authorizeBulkMember (wired env rc) alone db account item now act = (db', item', p)"
  shows "onlyStates db db' \<and> rowsOk db' \<and> rdSets db' = rdSets db \<and> rdMembers db' = rdMembers db \<and>
    heldBack db' account (biRecommendationID item) \<and>
    (biState item' = BulkItemAuthorized \<longrightarrow> approvedCard db' account (biRecommendationID item)) \<and>
    length (edAudit (rdExec db')) = length (edAudit (rdExec db)) + (if biState item' = BulkItemAuthorized then 1 else 0)"
proof (cases "heldBack db account (biRecommendationID item)")
  case True
  then show ?thesis using authorize_held [OF assms(1) True assms(2)] assms(1) by simp
next
  case False
  then obtain c d where i: "biRecommendationID item \<noteq> 0" and c: "currentCardByRecommendation db (biRecommendationID item) = Some c"
    and a: "crAccountID c = account" and d: "cardFromDB c = Inr d"
    by (auto simp: heldBack_def decodable_iff split: option.splits)
  note row = currentByRecommendation_row [OF assms(1) c]
  obtain d2 out where k: "confirmLocked (wired env rc) db c (cdBinding d) now act = Inr (d2, out)"
    using confirmLocked_decides [OF assms(1) c False] by blast
  have o1: "db' = d2" "(biState item' = BulkItemAuthorized) = (coState out = StateApproved)"
    using assms(2) answered_states(2) [of out item]
    by (simp_all add: authorize_alone [OF i c a d row(1)] k prod_eq_iff)
  note f = confirmLocked_frame [OF assms(1) row(3) k]
  obtain g where g: "cards d2 = map (moveState g) (cards db)"
    using onlyStates_confirm [OF assms(1) row(3) k] unfolding onlyStates_def by blast
  have cur: "currentCardByRecommendation d2 (biRecommendationID item) = Some (moveState g c)"
    by (simp add: onlyStates_current [OF g] c)
  have "rowsOk d2" using f by simp
  from currentByRecommendation_row(1) [OF this cur] f have s: "g c = coState out" by simp
  have "decodable c" by (simp add: decodable_def d)
  with s f cur a i have "heldBack d2 account (biRecommendationID item)"
    "coState out = StateApproved \<longrightarrow> approvedCard d2 account (biRecommendationID item)"
    by (simp_all add: heldBack_def approvedCard_def)
  then show ?thesis
    using f o1 onlyStates_confirm [OF assms(1) row(3) k] by simp
qed

section \<open>All members\<close>

definition authorizedItems :: "bulk_item list \<Rightarrow> nat" where
  "authorizedItems items = length (filter (\<lambda>i. biState i = BulkItemAuthorized) items)"

text \<open>What one member leaves behind, and what the next run makes of it.\<close>

definition memberDone :: "rec_db \<Rightarrow> uuid \<Rightarrow> selection_member \<Rightarrow> bulk_item \<Rightarrow> bool" where
  "memberDone db account m item \<longleftrightarrow>
     (smDisposition m = DispositionExecutable \<longrightarrow> heldBack db account (biRecommendationID (newItem m))) \<and>
     (biState item = BulkItemAuthorized \<longrightarrow>
        smDisposition m = DispositionExecutable \<and> approvedCard db account (biRecommendationID (newItem m)))"

lemma memberDone_onlyStates: "memberDone db account m item \<Longrightarrow> onlyStates db db' \<Longrightarrow> memberDone db' account m item"
  using heldBack_onlyStates approvedCard_onlyStates by (auto simp: memberDone_def)

lemma authorizeMembers_ok:
  assumes "rowsOk db" and "authorizeMembers (wired env rc) (\<lambda>_. alone) db account ms now act = (db', items, p)"
  shows "onlyStates db db' \<and> rowsOk db' \<and> rdSets db' = rdSets db \<and> rdMembers db' = rdMembers db \<and>
    list_all2 (memberDone db' account) ms items \<and>
    length (edAudit (rdExec db')) = length (edAudit (rdExec db)) + authorizedItems items"
  using assms
proof (induction ms arbitrary: db items p db')
  case Nil
  then show ?case by (simp add: authorizedItems_def)
next
  case (Cons m ms)
  obtain d1 item p1 where f: "(if smDisposition m \<noteq> DispositionExecutable
         then (db, settled (newItem m) BulkItemExcluded (dispositionText (smDisposition m)), False)
         else authorizeBulkMember (wired env rc) alone db account (newItem m) now act) = (d1, item, p1)"
    by (metis prod_cases3)
  obtain d2 its p2 where r: "authorizeMembers (wired env rc) (\<lambda>_. alone) d1 account ms now act = (d2, its, p2)"
    by (metis prod_cases3)
  have o1: "db' = d2" "items = item # its" using Cons.prems(2) f r by (auto split: if_splits)
  have k: "onlyStates db d1 \<and> rowsOk d1 \<and> rdSets d1 = rdSets db \<and> rdMembers d1 = rdMembers db \<and>
      memberDone d1 account m item \<and>
      length (edAudit (rdExec d1)) = length (edAudit (rdExec db)) + authorizedItems [item]"
  proof (cases "smDisposition m = DispositionExecutable")
    case True
    with f have "authorizeBulkMember (wired env rc) alone db account (newItem m) now act = (d1, item, p1)" by simp
    from authorizeBulkMember_ok [OF Cons.prems(1) this] True show ?thesis
      by (simp add: memberDone_def authorizedItems_def)
  next
    case False
    with f Cons.prems(1) show ?thesis by (auto simp: memberDone_def authorizedItems_def settled_def)
  qed
  have rest: "onlyStates d1 d2 \<and> rowsOk d2 \<and> rdSets d2 = rdSets d1 \<and> rdMembers d2 = rdMembers d1 \<and>
      list_all2 (memberDone d2 account) ms its \<and>
      length (edAudit (rdExec d2)) = length (edAudit (rdExec d1)) + authorizedItems its"
    using Cons.IH [OF _ r] k by blast
  have "memberDone d2 account m item" using k rest memberDone_onlyStates by blast
  then show ?case using k rest onlyStates_trans by (auto simp: o1 authorizedItems_def)
qed

lemma authorizeMembers_again:
  assumes "rowsOk db" and "list_all2 (memberDone db account) ms items"
    and "authorizeMembers svc (\<lambda>_. alone) db account ms now act = (db', items', p)"
  shows "db' = db \<and> authorizedItems items' = 0 \<and>
    list_all2 (\<lambda>i i'. biState i = BulkItemAuthorized \<longrightarrow> biState i' = BulkItemAlreadyAuthorized) items items'"
  using assms(2,3)
proof (induction ms arbitrary: items items' p db')
  case Nil
  then show ?case by (simp add: authorizedItems_def)
next
  case (Cons m ms)
  obtain i its where i: "items = i # its" "memberDone db account m i" "list_all2 (memberDone db account) ms its"
    using Cons.prems(1) by (auto simp: list_all2_Cons1)
  obtain d1 item p1 where f: "(if smDisposition m \<noteq> DispositionExecutable
         then (db, settled (newItem m) BulkItemExcluded (dispositionText (smDisposition m)), False)
         else authorizeBulkMember svc alone db account (newItem m) now act) = (d1, item, p1)"
    by (metis prod_cases3)
  obtain d2 its' p2 where r: "authorizeMembers svc (\<lambda>_. alone) d1 account ms now act = (d2, its', p2)"
    by (metis prod_cases3)
  have o1: "db' = d2" "items' = item # its'" using Cons.prems(2) f r by (auto split: if_splits)
  have k: "d1 = db \<and> biState item \<noteq> BulkItemAuthorized \<and>
      (biState i = BulkItemAuthorized \<longrightarrow> biState item = BulkItemAlreadyAuthorized)"
  proof (cases "smDisposition m = DispositionExecutable")
    case True
    with f have a: "authorizeBulkMember svc alone db account (newItem m) now act = (d1, item, p1)" by simp
    from authorize_held [OF assms(1) _ a] i(2) True show ?thesis by (auto simp: memberDone_def)
  next
    case False
    with f i(2) show ?thesis by (auto simp: memberDone_def settled_def)
  qed
  with r have "authorizeMembers svc (\<lambda>_. alone) db account ms now act = (d2, its', p2)" by simp
  from Cons.IH [OF i(3) this] k show ?case by (simp add: o1 i(1) authorizedItems_def)
qed

lemma authorizeMembers_total: "\<exists>db' items p. authorizeMembers svc others db account ms now act = (db', items, p)"
  by (metis prod_cases3)

text \<open>
  Further. A bulk confirmation is idempotent: repeating it, by whomever and at whatever time, on the tables it
  left changes nothing, authorizes no member a second time, and reports every member the first run
  authorized as already authorized; and the first run appends one audit record for each member it
  reports as authorized and no other.
\<close>

theorem bulk_replay_noop:
  assumes "rowsOk db"
    and "confirmBulkSelection (wired env rc) (\<lambda>_. alone) db account lineage v now act = Inr (db', out)"
  shows "\<exists>out'. confirmBulkSelection (wired env' rc') (\<lambda>_. alone) db' account lineage v now' act' = Inr (db', out')
    \<and> boValid out' = boValid out \<and> authorizedItems (boItems out') = 0
    \<and> list_all2 (\<lambda>i i'. biState i = BulkItemAuthorized \<longrightarrow> biState i' = BulkItemAlreadyAuthorized) (boItems out) (boItems out')
    \<and> length (edAudit (rdExec db')) = length (edAudit (rdExec db)) + authorizedItems (boItems out)"
proof -
  from assms(2) obtain current members where b: "bindSelectionVersion db account lineage v = Inr (current, members)"
    by (auto simp: confirmBulkSelection_def andThen_Inr)
  show ?thesis
  proof (cases "ssVersion current = v")
    case False
    with assms(2) b show ?thesis
      by (auto simp: confirmBulkSelection_def authorizedItems_def)
  next
    case True
    obtain d1 items p where a: "authorizeMembers (wired env rc) (\<lambda>_. alone) db account members now act = (d1, items, p)"
      using authorizeMembers_total by blast
    with assms(2) b True have o1: "d1 = db'" "boItems out = items" "boValid out"
      by (auto simp: confirmBulkSelection_def)
    note k = authorizeMembers_ok [OF assms(1) a, unfolded o1]
    have b': "bindSelectionVersion db' account lineage v = Inr (current, members)"
    proof -
      have "currentSetForAccount db' = currentSetForAccount db" "setMembers db' = setMembers db"
        using k by (simp_all add: currentSetForAccount_def setMembers_def fun_eq_iff)
      with b show ?thesis by (auto simp: bindSelectionVersion_def split: option.splits if_splits)
    qed
    obtain d2 items' p' where a': "authorizeMembers (wired env' rc') (\<lambda>_. alone) db' account members now' act' = (d2, items', p')"
      using authorizeMembers_total by blast
    from authorizeMembers_again [OF _ _ a', of items] k
    have "d2 = db' \<and> authorizedItems items' = 0 \<and>
      list_all2 (\<lambda>i i'. biState i = BulkItemAuthorized \<longrightarrow> biState i' = BulkItemAlreadyAuthorized) items items'"
      by blast
    then show ?thesis using k b' a' True o1 by (simp add: confirmBulkSelection_def)
  qed
qed

section \<open>Under interference\<close>

text \<open>What other sessions may commit: rows keep everything but their state.\<close>

definition keepsRows :: "rec_db \<Rightarrow> rec_db \<Rightarrow> bool" where
  "keepsRows db db' \<longleftrightarrow>
     (rowsOk db \<longrightarrow> rowsOk db') \<and>
     (\<forall>i c. getCard db i = Some c \<longrightarrow> (\<exists>t. getCard db' i = Some (c\<lparr>crState := t\<rparr>)))"

lemma keepsRows_refl: "keepsRows d d"
proof -
  have "c\<lparr>crState := crState c\<rparr> = c" for c :: card_row by simp
  then show ?thesis unfolding keepsRows_def by metis
qed

text \<open>
  The runs of a bulk confirmation: the commits of the others, and individual confirmations under the
  lineage lock of a card of an executable member, with the binding the card was minted with.
\<close>

inductive bulkRun ::
  "rec_service \<Rightarrow> (uuid \<Rightarrow> nat \<Rightarrow> rec_db \<Rightarrow> rec_db) \<Rightarrow> uuid \<Rightarrow> selection_member list \<Rightarrow> instant \<Rightarrow> actor
    \<Rightarrow> rec_db \<Rightarrow> rec_db \<Rightarrow> bool"
  for svc others account members now act where
  run_start: "bulkRun svc others account members now act db db"
| run_other: "bulkRun svc others account members now act db d1 \<Longrightarrow>
    bulkRun svc others account members now act db (others v k d1)"
| run_member: "bulkRun svc others account members now act db d1 \<Longrightarrow> m \<in> set members \<Longrightarrow>
    smDisposition m = DispositionExecutable \<Longrightarrow> smRecommendationID m = Some (crRecommendationID c) \<Longrightarrow>
    crAccountID c = account \<Longrightarrow> earlierRead d1 c \<Longrightarrow>
    confirmLocked svc d1 c (rowBinding c) now act = Inr (d2, out) \<Longrightarrow>
    bulkRun svc others account members now act db d2"

lemma bulkRun_trans:
  assumes "bulkRun svc others account ms now act d1 d2" and "bulkRun svc others account ms now act db d1"
  shows "bulkRun svc others account ms now act db d2"
  using assms by induction (auto intro: bulkRun.intros)

lemma bulkRun_more:
  "bulkRun svc others account ms now act db db' \<Longrightarrow> bulkRun svc others account (m # ms) now act db db'"
  by (induction rule: bulkRun.induct) (auto intro: bulkRun.intros)

lemma bulkRun_rowsOk:
  assumes "bulkRun (wired env rc) others account ms now act db db'" and "\<And>v k d. keepsRows d (others v k d)"
    and "rowsOk db"
  shows "rowsOk db'"
  using assms(1,3)
proof (induction rule: bulkRun.induct)
  case (run_other db d1 v k)
  then show ?case using assms(2) by (simp add: keepsRows_def)
next
  case (run_member db d1 m c d2 out)
  then show ?case using confirmLocked_frame [OF _ run_member.hyps(6,7)] by blast
qed

lemma authorizeBulkMember_run:
  assumes "rowsOk db" and "\<And>v k d. keepsRows d (others v k d)" and "m \<in> set ms"
    and "smDisposition m = DispositionExecutable"
    and "authorizeBulkMember (wired env rc) (others v) db account (newItem m) now act = (db', item, p)"
  shows "bulkRun (wired env rc) others account ms now act db db'"
proof -
  let ?run = "bulkRun (wired env rc) others account ms now act"
  note steps = run_start run_other
  show ?thesis
  proof (cases "biRecommendationID (newItem m) = 0")
    case True
    with assms(5) show ?thesis by (simp add: authorizeBulkMember_def run_start)
  next
    case i: False
    then have m: "smRecommendationID m = Some (biRecommendationID (newItem m))"
      by (auto simp: newItem_def split: option.splits)
    let ?d0 = "others v 0 db"
    let ?d1 = "others v 1 ?d0"
    let ?d2 = "others v 2 ?d1"
    have r0: "rowsOk ?d0" and r1: "rowsOk ?d1" using assms(1,2) by (simp_all add: keepsRows_def)
    have s: "?run db ?d0" "?run db ?d1" "?run db ?d2" "?run db (others v 3 ?d2)"
      by (intro steps)+
    show ?thesis
    proof (cases "currentCardByRecommendation ?d0 (biRecommendationID (newItem m))")
      case None
      with assms(5) i s show ?thesis by (simp add: authorizeBulkMember_def Let_def)
    next
      case (Some c)
      note row = currentByRecommendation_row [OF r0 Some]
      show ?thesis
      proof (cases "crAccountID c = account \<and> decodable c")
        case False
        with assms(5) i s(1) Some show ?thesis
          by (auto simp: authorizeBulkMember_def Let_def decodable_iff split: sum.splits if_splits)
      next
        case True
        then obtain d where d: "cardFromDB c = Inr d" "crAccountID c = account" by (auto simp: decodable_iff)
        obtain t where g1: "getCard ?d1 (crID c) = Some (c\<lparr>crState := t\<rparr>)"
          using assms(2) row(1) by (fastforce simp: keepsRows_def)
        then obtain u where "getCard ?d2 (crID c) = Some (c\<lparr>crState := t\<rparr>\<lparr>crState := u\<rparr>)"
          using assms(2) by (fastforce simp: keepsRows_def)
        then have e: "earlierRead ?d2 (c\<lparr>crState := t\<rparr>)" by (simp add: earlierRead_def)
        have b: "cdBinding d = rowBinding (c\<lparr>crState := t\<rparr>)" using cardFromDB_ok [OF d(1)] by simp
        show ?thesis
        proof (cases "confirmLocked (wired env rc) ?d2 (c\<lparr>crState := t\<rparr>) (cdBinding d) now act")
          case (Inl err)
          with assms(5) i s Some d g1 show ?thesis
            by (auto simp: authorizeBulkMember_def Let_def confirmIndividual_def split: if_splits)
        next
          case (Inr x)
          then obtain d3 out where x: "confirmLocked (wired env rc) ?d2 (c\<lparr>crState := t\<rparr>) (cdBinding d) now act = Inr (d3, out)"
            by (cases x) simp
          with assms(5) i Some d g1 have "db' = d3"
            by (simp add: authorizeBulkMember_def Let_def confirmIndividual_def)
          moreover have "?run db d3"
            using x m d(2) row(2) by (intro run_member [OF s(3) assms(3,4) _ _ e]) (simp_all add: b)
          ultimately show ?thesis by simp
        qed
      qed
    qed
  qed
qed

definition itemFor :: "selection_member \<Rightarrow> bulk_item \<Rightarrow> bool" where
  "itemFor m i \<longleftrightarrow>
     biVariantID i = smVariantID m \<and> biDisposition i = smDisposition m \<and> biState i \<noteq> BulkItemPending \<and>
     (biState i = BulkItemExcluded) = (smDisposition m \<noteq> DispositionExecutable)"

definition sameItem :: "bulk_item \<Rightarrow> bulk_item \<Rightarrow> bool" where
  "sameItem i j \<longleftrightarrow> biVariantID i = biVariantID j \<and> biDisposition i = biDisposition j \<and>
     biState i \<noteq> BulkItemPending \<and> biState i \<noteq> BulkItemExcluded"

lemma sameItem_settled:
  "sameItem (settled j st reason) j \<longleftrightarrow> st \<noteq> BulkItemPending \<and> st \<noteq> BulkItemExcluded"
  "sameItem (fst (refusedItem db j)) j" "sameItem (fst (answeredItem out j)) j"
  by (simp_all add: sameItem_def settled_def refusedItem_def answeredItem_def split: option.split)

lemma authorize_sameItem:
  assumes "authorizeBulkMember svc others db account j now act = (db', i, p)"
  shows "sameItem i j"
proof -
  have "sameItem (fst (snd (authorizeBulkMember svc others db account j now act))) j"
    by (simp add: authorizeBulkMember_def Let_def sameItem_settled split: option.split sum.split prod.split)
  with assms show ?thesis by simp
qed

lemma authorizeMembers_run:
  assumes "rowsOk db" and "\<And>v k d. keepsRows d (others v k d)"
    and "authorizeMembers (wired env rc) others db account ms now act = (db', items, p)"
  shows "bulkRun (wired env rc) others account ms now act db db' \<and> list_all2 itemFor ms items"
  using assms(1,3)
proof (induction ms arbitrary: db items p db')
  case Nil
  then show ?case by (simp add: run_start)
next
  case (Cons m ms)
  let ?run = "bulkRun (wired env rc) others account (m # ms) now act"
  obtain d1 item p1 where f: "(if smDisposition m \<noteq> DispositionExecutable
         then (db, settled (newItem m) BulkItemExcluded (dispositionText (smDisposition m)), False)
         else authorizeBulkMember (wired env rc) (others (smVariantID m)) db account (newItem m) now act) = (d1, item, p1)"
    by (metis prod_cases3)
  obtain d2 its p2 where r: "authorizeMembers (wired env rc) others d1 account ms now act = (d2, its, p2)"
    by (metis prod_cases3)
  have o1: "db' = d2" "items = item # its" using Cons.prems(2) f r by (auto split: if_splits)
  have k: "?run db d1 \<and> itemFor m item"
  proof (cases "smDisposition m = DispositionExecutable")
    case True
    with f have a: "authorizeBulkMember (wired env rc) (others (smVariantID m)) db account (newItem m) now act = (d1, item, p1)" by simp
    have "?run db d1"
      by (rule authorizeBulkMember_run [where others = others, OF Cons.prems(1) assms(2) _ True a]) simp
    then show ?thesis using authorize_sameItem [OF a] True by (simp add: sameItem_def itemFor_def newItem_def)
  next
    case False
    with f show ?thesis by (auto simp: itemFor_def settled_def newItem_def run_start)
  qed
  have "rowsOk d1" by (rule bulkRun_rowsOk [where others = others, OF conjunct1 [OF k] assms(2) Cons.prems(1)])
  from Cons.IH [OF this r] k show ?case
    using bulkRun_trans bulkRun_more by (fastforce simp: o1)
qed

lemma bindSelectionVersion_ok:
  "bindSelectionVersion db account lineage v = Inr (current, members) \<longleftrightarrow>
     currentSetForAccount db lineage account = Some current \<and>
     members = (if ssVersion current = v then setMembers db (ssID current) else [])"
  by (auto simp: bindSelectionVersion_def split: option.splits)

text \<open>
  C24. A bulk confirmation adds nothing to the individual one.  It binds the current version of the
  caller's own lineage; a stale bound version confirms nothing.  Otherwise, whatever other sessions
  commit in between, every change of the tables is one of theirs or an individual confirmation, under
  the lineage lock, of a card of an executable member under the caller's account with the binding the
  card was minted with; and every sealed member gets one answer, Excluded exactly when it is not
  executable.
\<close>

theorem bulk_only_confirms:
  assumes "rowsOk db" and "\<And>v k d. keepsRows d (others v k d)"
    and "confirmBulkSelection (wired env rc) others db account lineage v now act = Inr (db', out)"
  shows "\<exists>current. currentSetForAccount db lineage account = Some current
    \<and> boCurrentVersion out = ssVersion current \<and> boValid out = (ssVersion current = v)
    \<and> (if boValid out
       then bulkRun (wired env rc) others account (setMembers db (ssID current)) now act db db' \<and>
            list_all2 itemFor (setMembers db (ssID current)) (boItems out)
       else db' = db \<and> boItems out = [] \<and> \<not> boExecutionPending out)"
proof -
  from assms(3) obtain current members where b: "currentSetForAccount db lineage account = Some current"
      "members = (if ssVersion current = v then setMembers db (ssID current) else [])"
      "bindSelectionVersion db account lineage v = Inr (current, members)"
    by (auto simp: confirmBulkSelection_def andThen_Inr bindSelectionVersion_ok)
  obtain d1 items p where a: "authorizeMembers (wired env rc) others db account members now act = (d1, items, p)"
    using authorizeMembers_total by blast
  show ?thesis
    using assms(3) b authorizeMembers_run [OF assms(1,2) a] a
    by (auto simp: confirmBulkSelection_def split: if_splits)
qed

definition memberOf :: "selection_member list \<Rightarrow> card_row \<Rightarrow> bool" where
  "memberOf ms c \<longleftrightarrow> list_ex (\<lambda>m. smDisposition m = DispositionExecutable \<and> smRecommendationID m = Some (crRecommendationID c)) ms"

definition bulkChange :: "rec_db \<Rightarrow> uuid \<Rightarrow> selection_member list \<Rightarrow> instant \<Rightarrow> card_row option \<Rightarrow> card_row option \<Rightarrow> bool" where
  "bulkChange db account ms now c0 c1 \<longleftrightarrow>
     c1 = c0 \<or>
     (case c0 of
        None \<Rightarrow> False
      | Some c \<Rightarrow>
          crAccountID c = account \<and> memberOf ms c \<and> crState c = StateAwaitingConfirmation \<and>
          (\<exists>t. c1 = Some (c\<lparr>crState := t\<rparr>) \<and>
             (t = StateApproved \<longrightarrow> now < crExpiresAt c \<and> map_option crID (currentCard db (crLineageID c)) = Some (crID c)) \<and>
             t \<in> {StateApproved, StateExpired, StateInvalidated}))"

lemma confirmLocked_cards:
  assumes "rowsOk db" and "earlierRead db c"
    and "confirmLocked (wired env rc) db c presented now act = Inr (db', out)"
  shows "\<exists>row. getCard db (crID c) = Some row \<and> crState row = StateAwaitingConfirmation
    \<and> getCard db' j = (if j = crID c then Some (row\<lparr>crState := coState out\<rparr>) else getCard db j)
    \<and> coState out \<in> {StateApproved, StateExpired, StateInvalidated}
    \<and> (coState out = StateApproved \<longrightarrow> now < crExpiresAt row \<and> currentCard db (crLineageID row) = Some row)"
  using assms
proof (cases rule: confirmLocked_cases)
  case (superseded row current db1)
  then show ?thesis by (auto elim!: getCard_advance)
next
  case (current row db1)
  have g: "getCard db1 j = (if j = crID c then Some (row\<lparr>crState := coState out\<rparr>) else getCard db j)" for j
    using current(1,6) by (auto elim!: getCard_advance)
  have "getCard db' = getCard db1"
  proof (cases "coState out = StateApproved")
    case True
    with current(8) show ?thesis by (simp add: recordApproval_wired fun_eq_iff)
  qed (use current(8) in simp)
  then show ?thesis using current(1-5) g approved_iff [of row presented now] by auto
qed

lemma bulkRun_changes:
  assumes "bulkRun (wired env rc) (\<lambda>_. alone) account ms now act db db'" and "rowsOk db"
  shows "rowsOk db' \<and> onlyStates db db' \<and> bulkChange db account ms now (getCard db j) (getCard db' j)"
  using assms
proof (induction rule: bulkRun.induct)
  case (run_start db)
  then show ?case by (simp add: bulkChange_def)
next
  case (run_other db d1 v k)
  then show ?case by simp
next
  case (run_member db d1 m c d2 out)
  then have d1: "rowsOk d1" "onlyStates db d1" "bulkChange db account ms now (getCard db j) (getCard d1 j)" by simp_all
  obtain row where row: "getCard d1 (crID c) = Some row" "crState row = StateAwaitingConfirmation"
    and g: "getCard d2 j = (if j = crID c then Some (row\<lparr>crState := coState out\<rparr>) else getCard d1 j)"
    and s: "coState out \<in> {StateApproved, StateExpired, StateInvalidated}"
    and a: "coState out = StateApproved \<longrightarrow> now < crExpiresAt row \<and> currentCard d1 (crLineageID row) = Some row"
    using confirmLocked_cards [OF d1(1) run_member.hyps(6,7), of j] by blast
  have same: "crAccountID row = crAccountID c" "crRecommendationID row = crRecommendationID c"
    using run_member.hyps(6) row(1) by (auto simp: earlierRead_def) (metis card_row.select_convs card_row.surjective card_row.update_convs(6))+
  have m: "memberOf ms row" using run_member.hyps(2-4) same by (auto simp: memberOf_def list_ex_iff)
  obtain f where f: "cards d1 = map (moveState f) (cards db)" "stateMoves f (cards db)"
    using d1(2) unfolding onlyStates_def by blast
  have cur: "map_option crID (currentCard db l) = map_option crID (currentCard d1 l)" for l
    by (simp add: onlyStates_current [OF f(1)] option.map_comp comp_def)
  have "bulkChange db account ms now (getCard db j) (getCard d2 j)"
  proof (cases "j = crID c")
    case False
    then show ?thesis using g d1(3) by simp
  next
    case True
    have "getCard d1 j = getCard db j"
      using d1(3) row True by (auto simp: bulkChange_def split: option.splits)
    then have c0: "getCard db j = Some row" using row(1) True by simp
    have c1: "getCard d2 j = Some (row\<lparr>crState := coState out\<rparr>)" using g True by simp
    have "coState out = StateApproved \<longrightarrow> now < crExpiresAt row \<and>
        map_option crID (currentCard db (crLineageID row)) = Some (crID row)"
      using a by (simp add: cur)
    then show ?thesis
      using s m same(1) run_member.hyps(5) row(2) unfolding bulkChange_def c0 c1 option.case by blast
  qed
  then show ?case
    using confirmLocked_frame [OF d1(1) run_member.hyps(6,7)] onlyStates_trans [OF d1(2)]
      onlyStates_confirm [OF d1(1) run_member.hyps(6,7)] by blast
qed

text \<open>
  C25. Left to itself, a bulk confirmation approves only what was sealed: the one change it can make to a
  card is to decide a card under the caller's account that awaits confirmation and belongs to an
  executable member of the bound version, and it becomes Approved only unexpired and at the head of its
  lineage; no other card, set or membership changes.
\<close>

theorem bulk_approves_sealed_members:
  assumes "rowsOk db" and "confirmBulkSelection (wired env rc) (\<lambda>_. alone) db account lineage v now act = Inr (db', out)"
    and "currentSetForAccount db lineage account = Some current"
  shows "bulkChange db account (setMembers db (ssID current)) now (getCard db j) (getCard db' j) \<and>
    (ssVersion current \<noteq> v \<longrightarrow> getCard db' j = getCard db j) \<and> rdSets db' = rdSets db \<and> rdMembers db' = rdMembers db"
proof -
  obtain members where b: "bindSelectionVersion db account lineage v = Inr (current, members)"
    "members = (if ssVersion current = v then setMembers db (ssID current) else [])"
    using assms(3) by (simp add: bindSelectionVersion_ok)
  obtain d1 items p where a: "authorizeMembers (wired env rc) (\<lambda>_. alone) db account members now act = (d1, items, p)"
    using authorizeMembers_total by blast
  note run = authorizeMembers_run [where others = "\<lambda>_. alone", OF assms(1) keepsRows_refl a]
  show ?thesis
  proof (cases "ssVersion current = v")
    case False
    then show ?thesis using assms(2) b by (auto simp: confirmBulkSelection_def bulkChange_def)
  next
    case True
    then have "db' = d1" using assms(2) b a by (auto simp: confirmBulkSelection_def)
    then show ?thesis
      using bulkRun_changes [OF conjunct1 [OF run] assms(1)] authorizeMembers_ok [OF assms(1) a] True b(2) by simp
  qed
qed

section \<open>Evaluation on concrete tables\<close>

definition demoSet :: selection_set where
  "demoSet =
     \<lparr>ssID = 40, ssAccountID = 1, ssLineageID = 30, ssVersion = 1, ssName = [], ssCriteria = [],
      ssMemberCount = 1, ssAggregate = None, ssFingerprint = []\<rparr>"

definition demoMember :: selection_member where
  "demoMember =
     \<lparr>smSetID = 40, smAccountID = 1, smVariantID = 2, smRecommendationID = Some 100,
      smDisposition = DispositionExecutable\<rparr>"

definition demoBulk :: rec_db where
  "demoBulk = demoRec\<lparr>rdOwners := [30 \<mapsto> 1], rdSets := [demoSet], rdMembers := [demoMember]\<rparr>"

lemma demoBulk_rowsOk: "rowsOk demoBulk"
  using demo_rowsOk rowsOk_cong(1) [of demoBulk demoRec] by (simp add: demoBulk_def)

lemma demoBulk_current: "currentSetForAccount demoBulk 30 1 = Some demoSet"
  by (simp add: currentSetForAccount_def demoBulk_def latestBy_def) (simp add: demoSet_def)

lemma bulk_total:
  assumes "currentSetForAccount db lineage account = Some current"
  shows "\<exists>db' out. confirmBulkSelection svc others db account lineage v now act = Inr (db', out)"
proof -
  obtain members where "bindSelectionVersion db account lineage v = Inr (current, members)"
    using assms by (simp add: bindSelectionVersion_ok)
  then show ?thesis
    using authorizeMembers_total [of svc others db account members now act]
    by (auto simp: confirmBulkSelection_def)
qed

theorem bulk_replay_noop_witness:
  "\<exists>db' out out'. confirmBulkSelection (wired demoEnv None) (\<lambda>_. alone) demoBulk 1 30 1 6 demoActor = Inr (db', out)
     \<and> confirmBulkSelection (wired demoEnv None) (\<lambda>_. alone) db' 1 30 1 7 demoActor = Inr (db', out')
     \<and> authorizedItems (boItems out') = 0"
proof -
  obtain db' out where c: "confirmBulkSelection (wired demoEnv None) (\<lambda>_. alone) demoBulk 1 30 1 6 demoActor = Inr (db', out)"
    using bulk_total [OF demoBulk_current] by blast
  from bulk_replay_noop [OF demoBulk_rowsOk c, of demoEnv None 7 demoActor] c show ?thesis by blast
qed

theorem bulk_only_confirms_witness:
  "\<exists>db' out. confirmBulkSelection (wired demoEnv None) (\<lambda>_. alone) demoBulk 1 30 1 6 demoActor = Inr (db', out)
     \<and> boValid out \<and> list_all2 itemFor [demoMember] (boItems out)"
proof -
  obtain db' out where c: "confirmBulkSelection (wired demoEnv None) (\<lambda>_. alone) demoBulk 1 30 1 6 demoActor = Inr (db', out)"
    using bulk_total [OF demoBulk_current] by blast
  have m: "setMembers demoBulk (ssID demoSet) = [demoMember]" "ssVersion demoSet = 1"
    by (simp_all add: setMembers_def demoBulk_def demoMember_def demoSet_def)
  from bulk_only_confirms [where others = "\<lambda>_. alone", OF demoBulk_rowsOk keepsRows_refl c] m c show ?thesis
    by (auto simp: demoBulk_current split: if_splits)
qed

theorem bulk_approves_sealed_members_witness:
  "\<exists>db' out. confirmBulkSelection (wired demoEnv None) (\<lambda>_. alone) demoBulk 1 30 2 6 demoActor = Inr (db', out)
     \<and> getCard db' 101 = Some (demoCard StateAwaitingConfirmation)"
proof -
  obtain db' out where c: "confirmBulkSelection (wired demoEnv None) (\<lambda>_. alone) demoBulk 1 30 2 6 demoActor = Inr (db', out)"
    using bulk_total [OF demoBulk_current] by blast
  have g: "getCard demoBulk 101 = getCard demoRec 101" by (simp add: demoBulk_def getCard_def)
  from bulk_approves_sealed_members [OF demoBulk_rowsOk c demoBulk_current, of 101]
  have "ssVersion demoSet \<noteq> 2 \<longrightarrow> getCard db' 101 = getCard demoBulk 101" by blast
  then have "getCard db' 101 = Some (demoCard StateAwaitingConfirmation)" by (simp add: demoSet_def g)
  with c show ?thesis by blast
qed

end
