(* ===== verification/RecommendationReach.thy ===== *)
theory RecommendationReach
  imports BulkApproval
begin

text \<open>
  The recommendation service as a transition system: every committed transaction of the service, of the
  executor and of the chat plane is a step, and the books of approvals balance in every reachable state.
  Further, what a price edit supersedes for good, what the drafts of the chat plane bind and supersede, and
  which dispositions can be stored.
\<close>

section \<open>Steps\<close>

text \<open>
  The moves of the executor and of the reconciler are guarded moves into a state other than Approved and
  audit records of their own event types.
\<close>

inductive recStep :: "rec_db \<Rightarrow> rec_db \<Rightarrow> bool" where
  step_produce: "produceVersion env db l a r = Inr (db', row, created) \<Longrightarrow> recStep db db'"
| step_edit: "editCardPrice svc env dbC dbR db i price now = Inr (db', c) \<Longrightarrow> recStep db db'"
| step_draft: "prepareRecommendationDraft env db act a e i = Inr (db', t) \<Longrightarrow> recStep db db'"
| step_level2: "prepareLevel2Proposal env db act a who k b f now = Inr (db', t) \<Longrightarrow> recStep db db'"
| step_set: "createSelectionSet benv db a l n cr agg = Inr (db', s) \<Longrightarrow> recStep db db'"
| step_preview: "previewBulkSelection benv db a l n cr ms = Inr (db', s, vs, agg) \<Longrightarrow> recStep db db'"
| step_advance: "advanceCard db i s t reason = Inr (db', row) \<Longrightarrow> t \<noteq> StateApproved \<Longrightarrow> recStep db db'"
| step_confirm: "earlierRead db c \<Longrightarrow> confirmLocked (wired env rc) db c b now act = Inr (db', out) \<Longrightarrow> recStep db db'"
| step_bulk: "confirmBulkSelection (wired env rc) (\<lambda>_. alone) db a l v now act = Inr (db', out2) \<Longrightarrow> recStep db db'"
| step_expire: "expireDependentForVariant db v reason = (db', n, err) \<Longrightarrow> recStep db db'"
| step_audit: "aeType ev \<noteq> EventConfirmation \<Longrightarrow> recStep db (auditApproval env db ev)"

inductive recReachable :: "rec_db \<Rightarrow> bool" where
  reach_empty: "recReachable emptyRec"
| reach_step: "recReachable db \<Longrightarrow> recStep db db' \<Longrightarrow> recReachable db'"

section \<open>The steps keep the tables\<close>

text \<open>The tables that the invariants read.\<close>

lemma tablesOk_cong:
  assumes "edCards (rdExec db') = edCards (rdExec db)" and "rdCardOrder db' = rdCardOrder db"
    and "edCardStates (rdExec db') = edCardStates (rdExec db)" and "rdIntents db' = rdIntents db"
    and "set (rdRecommendations db) \<subseteq> set (rdRecommendations db')"
    and "\<exists>as. edAudit (rdExec db') = edAudit (rdExec db) @ as \<and> (\<forall>a\<in>set as. arEventType a \<noteq> EventConfirmation)"
    and "tablesOk db"
  shows "tablesOk db'"
proof -
  have g: "getCard db' = getCard db" "cards db' = cards db" "history db' = history db"
    by (simp_all add: getCard_def cards_def history_def fun_eq_iff assms(1-3))
  have "confirmationsOf db' i = confirmationsOf db i" for i
    using assms(6) by (auto simp: confirmationsOf_def filter_empty_conv)
  then have "approvalsOk db'"
    using assms(7) by (simp add: tablesOk_def approvalsOk_def approvalsOf_def g hasIntent_def assms(4))
  moreover have "rowsOk db'"
    using assms(5,7) unfolding tablesOk_def rowsOk_iff rowOk_def g assms(2) by blast
  ultimately show ?thesis
    using assms(7) by (simp add: tablesOk_def uniqueOk_def historyOk_def g)
qed

lemma tablesOk_recommendation:
  assumes "tablesOk db" and "insertRecommendation env db row = Inr (db', stored)"
  shows "tablesOk db'"
  by (rule tablesOk_cong [OF _ _ _ _ _ _ assms(1)]) (auto simp: insertRecommendation_ok(1) [OF assms(2)])

lemma tablesOk_audit:
  assumes "tablesOk db" and "aeType ev \<noteq> EventConfirmation"
  shows "tablesOk (auditApproval env db ev)"
  by (rule tablesOk_cong [OF _ _ _ _ _ _ assms(1)]) (simp_all add: auditRecord_def assms(2))

text \<open>Operations on selection sets and proposals leave the approval tables alone.\<close>

definition sameBooks :: "rec_db \<Rightarrow> rec_db \<Rightarrow> bool" where
  "sameBooks db db' \<longleftrightarrow>
     rdExec db' = rdExec db \<and> rdCardOrder db' = rdCardOrder db \<and> rdIntents db' = rdIntents db \<and>
     rdRecommendations db' = rdRecommendations db"

lemma sameBooks_trans: "sameBooks db d1 \<Longrightarrow> sameBooks d1 d2 \<Longrightarrow> sameBooks db d2"
  by (simp add: sameBooks_def)

lemma sameBooks_tablesOk: "sameBooks db db' \<Longrightarrow> tablesOk db \<Longrightarrow> tablesOk db'"
  by (rule tablesOk_cong) (auto simp: sameBooks_def)

lemma sameBooks_insertSet: "insertSet env db row = Inr (db', s) \<Longrightarrow> sameBooks db db'"
  by (auto simp: insertSet_def Let_def sameBooks_def split: option.splits if_splits)

lemma sameBooks_insertMember: "insertMember db m = Inr db' \<Longrightarrow> sameBooks db db'"
  by (auto simp: insertMember_def sameBooks_def split: option.splits if_splits)

lemma sameBooks_insertMembers: "insertMembers db i a vs = Inr db' \<Longrightarrow> sameBooks db db'"
proof (induction vs arbitrary: db)
  case (Cons v vs)
  then show ?case using sameBooks_insertMember sameBooks_trans by (fastforce simp: andThen_Inr)
qed (simp add: sameBooks_def)

lemma sameBooks_claim: "claimLineageOwnership db l a = Inr db' \<Longrightarrow> sameBooks db db'"
  by (auto simp: claimLineageOwnership_def Let_def sameBooks_def split: option.splits if_splits)

lemma sameBooks_seal: "sealSelectionVersion env db a l n cr vs agg = Inr (db', s) \<Longrightarrow> sameBooks db db'"
  using sameBooks_insertSet sameBooks_insertMembers sameBooks_trans
  by (fastforce simp: sealSelectionVersion_def andThen_Inr)

lemma sameBooks_sets:
  "createSelectionSet benv db a l n cr agg = Inr (db', s) \<Longrightarrow> sameBooks db db'"
  "previewBulkSelection benv db a l n cr ms = Inr (db', s, vs, agg) \<Longrightarrow> sameBooks db db'"
  using sameBooks_claim sameBooks_seal sameBooks_trans
  by (fastforce simp: createSelectionSet_def previewBulkSelection_def andThen_Inr Let_def)+

lemma prepareRecommendationDraft_ok:
  assumes "prepareRecommendationDraft env db act a e i = Inr (db', t)"
  obtains row ev expiry price c where
    "getRecommendation db i = Some row" "rmAccountID row = a" "rmVariantID row = e" "rmApprovable row"
    "mlAvailable (rmProposedPrice row)" "rmExpiresAt row = Some expiry" "rmEvidenceVersions row = Some ev"
    "newMoney (case mlMantissa (rmProposedPrice row) of None \<Rightarrow> 0 | Some m \<Rightarrow> m)
       (mlCurrency (rmProposedPrice row)) (mlExponent (rmProposedPrice row)) = Inr price"
    "mintDraftCard env db i (rmLineageID row) a
       \<lparr>bnActionID = act, bnParameterVersion = rmParameterVersion row, bnContextVersion = rmContextVersion row,
        bnPolicyVersion = rmPolicyVersion row, bnCostProfileVersion = rmCostProfileVersion row,
        bnEvidenceVersions = ev, bnExpiry = expiry\<rparr> price = Inr (db', c)"
    "dtDraftID t = crID c" "dtActionID t = act" "dtExpiresAt t = expiry"
  using assms
  by (auto simp: prepareRecommendationDraft_def andThen_Inr mapErr_Inr split: option.splits if_splits)

lemma bulkRun_tablesOk:
  assumes "bulkRun (wired env rc) (\<lambda>_. alone) account ms now act db db'" and "tablesOk db"
  shows "tablesOk db'"
  using assms
proof (induction rule: bulkRun.induct)
  case (run_member db d1 m c d2 out)
  then show ?case using tablesOk_confirm by blast
qed simp_all

lemma tablesOk_bulk:
  assumes "tablesOk db" and "confirmBulkSelection (wired env rc) (\<lambda>_. alone) db a l v now act = Inr (db', out)"
  shows "tablesOk db'"
proof -
  have r: "rowsOk db" using assms(1) by (simp add: tablesOk_def)
  from assms(2) obtain current members where b: "bindSelectionVersion db a l v = Inr (current, members)"
    by (auto simp: confirmBulkSelection_def andThen_Inr)
  obtain d1 items p where m: "authorizeMembers (wired env rc) (\<lambda>_. alone) db a members now act = (d1, items, p)"
    using authorizeMembers_total by blast
  have "tablesOk d1"
    using authorizeMembers_run [where others = "\<lambda>_. alone", OF r keepsRows_refl m] bulkRun_tablesOk assms(1) by blast
  moreover have "db' = db \<or> db' = d1"
    using assms(2) b m by (auto simp: confirmBulkSelection_def split: if_splits)
  ultimately show ?thesis using assms(1) by blast
qed

lemma tablesOk_produce:
  assumes "tablesOk db" and "produceVersion env db l a r = Inr (db', row, created)"
  shows "tablesOk db'"
  using assms(2)
proof (rule produceVersion_ok)
  fix db1
  assume i: "insertRecommendation env db (recommendationParams l r) = Inr (db1, row)"
    and t: "created \<Longrightarrow> \<exists>price c. optGet (rnProposedPrice r) = Some price \<and>
         mintDraftCard env db1 (rmID row) l a (rnBinding r) price = Inr (db', c)"
    and f: "\<not> created \<Longrightarrow> db' = db1"
  have "tablesOk db1" by (rule tablesOk_recommendation [OF assms(1) i])
  then show ?thesis by (cases created) (use t f tablesOk_mint in blast)+
qed

lemma tablesOk_level2:
  assumes "tablesOk db" and "prepareLevel2Proposal env db act a who k b f now = Inr (db', t)"
  shows "tablesOk db'"
proof -
  let ?proposal = "\<lparr>lpID = nvID env db, lpAccountID = a, lpActionID = act, lpSettingKey = k, lpBeforeKey = b,
    lpAfterKey = f, lpScopeKey = level2ScopeKey, lpConsequenceKey = level2ConsequenceKey,
    lpExpiresAt = now + draftControlTTL, lpActor = who\<rparr>"
  let ?db1 = "db\<lparr>rdProposals := rdProposals db @ [?proposal]\<rparr>"
  have "db' = auditApproval env ?db1 (level2Event act a who (now + draftControlTTL) ?proposal)"
    using assms(2) by (auto simp: prepareLevel2Proposal_def Let_def appendAuditRow_def auditApproval_def split: if_splits)
  moreover have "tablesOk ?db1" by (rule sameBooks_tablesOk [OF _ assms(1)]) (simp add: sameBooks_def)
  ultimately show ?thesis by (simp add: tablesOk_audit level2Event_def)
qed

lemma tablesOk_expire:
  assumes "tablesOk db" and "expireDependentForVariant db v reason = (db', n, err)"
  shows "tablesOk db'"
proof -
  let ?cs = "liveCardsForVariant db v"
  have r: "rowsOk db" using assms(1) by (simp add: tablesOk_def)
  have "distinct (map crID ?cs)"
    using distinct_cards [OF r] by (simp add: liveCardsForVariant_def distinct_map_filter)
  moreover have "c \<in> set ?cs \<Longrightarrow> getCard db (crID c) = Some c" for c
    using rowsOk_set_cards [OF r] by (auto simp: liveCardsForVariant_def)
  ultimately obtain db1 where "expireLoop db ?cs reason 0 = (db1, 0 + length (filter (\<lambda>c. bearsControl (crState c)) ?cs), None)"
    and "tablesOk db \<Longrightarrow> tablesOk db1"
    by (rule expireLoop_ok [where n = 0 and reason = reason]) blast+
  with assms show ?thesis by (simp add: expireDependentForVariant_def)
qed

lemma tablesOk_step: "recStep db db' \<Longrightarrow> tablesOk db \<Longrightarrow> tablesOk db'"
proof (induction rule: recStep.induct)
  case (step_edit svc env dbC dbR db i price now db' c)
  then show ?case by (elim editCardPrice_ok) (rule tablesOk_mint)
next
  case (step_draft env db act a e i db' t)
  then show ?case by (elim prepareRecommendationDraft_ok) (rule tablesOk_mint)
qed (auto intro: tablesOk_produce tablesOk_level2 sameBooks_tablesOk sameBooks_sets tablesOk_advance
    tablesOk_confirm tablesOk_bulk tablesOk_expire tablesOk_audit)

lemma empty_tablesOk: "tablesOk emptyRec"
proof -
  have "uniqueOk emptyRec \<and> historyOk emptyRec \<and> approvalsOk emptyRec"
    by (simp add: uniqueOk_def historyOk_def approvalsOk_def cards_def history_def
        getCard_def confirmationsOf_def approvalsOf_def hasIntent_def emptyRec_def noTables_def)
  then show ?thesis by (simp add: tablesOk_def empty_rowsOk)
qed

lemma reachable_tablesOk: "recReachable db \<Longrightarrow> tablesOk db"
  by (induction rule: recReachable.induct) (auto intro: empty_tablesOk tablesOk_step)

section \<open>No authorized card without a confirmation\<close>

lemma canTransition_authorized:
  "canTransition s t \<Longrightarrow> stateHasAuthorized t \<Longrightarrow> t = StateApproved \<or> stateHasAuthorized s"
  by (auto simp: canTransition_def transitions_def stateHasAuthorized_iff)

lemma follows_authorized:
  "follows s rs (Some t) \<Longrightarrow> stateHasAuthorized t \<Longrightarrow> (\<forall>u. s = Some u \<longrightarrow> \<not> stateHasAuthorized u) \<Longrightarrow>
   \<exists>r\<in>set rs. csToState r = StateApproved"
proof (induction rs arbitrary: s)
  case (Cons r rs)
  show ?case
  proof (cases "stateHasAuthorized (csToState r)")
    case True
    with Cons.prems show ?thesis
      by (cases s) (auto dest: canTransition_authorized simp: stateHasAuthorized_iff)
  next
    case False
    with Cons.IH [of "Some (csToState r)"] Cons.prems show ?thesis by auto
  qed
qed auto

text \<open>
  C2. In every state the service can reach, through any sequence of productions, edits, drafts, previews,
  confirmations, bulk confirmations, expiries and moves of the executor, the approval books balance: the
  history of every card is a path of the state machine from its minting to its present state; it has as
  many confirmation records in the audit trail as approvals in its history; exactly the approved cards
  have an execution intent, one each; a card that is approved, executing or has an external result was
  approved on the record; and no two cards share an idempotency key or a version of a lineage.
\<close>

theorem reachable_books:
  assumes "recReachable db"
  shows "follows None (history db i) (map_option crState (getCard db i))
    \<and> confirmationsOf db i = approvalsOf db i
    \<and> hasIntent db i = (0 < approvalsOf db i) \<and> distinct (map xaCardID (rdIntents db))
    \<and> (\<forall>c. getCard db i = Some c \<and> stateHasAuthorized (crState c) \<longrightarrow> 0 < confirmationsOf db i)
    \<and> (\<forall>c d. c \<in> set (cards db) \<and> d \<in> set (cards db) \<and>
         (crIdempotencyKey c = crIdempotencyKey d \<or> crLineageID c = crLineageID d \<and> crVersion c = crVersion d)
         \<longrightarrow> c = d)"
proof -
  have t: "tablesOk db" by (rule reachable_tablesOk [OF assms])
  have h: "follows None (history db i) (map_option crState (getCard db i))"
    using t by (simp add: tablesOk_def historyOk_def)
  have b: "confirmationsOf db i = approvalsOf db i" "hasIntent db i = (0 < approvalsOf db i)"
    "distinct (map xaCardID (rdIntents db))"
    using t by (simp_all add: tablesOk_def approvalsOk_def)
  have "0 < confirmationsOf db i" if "getCard db i = Some c" "stateHasAuthorized (crState c)" for c
    using follows_authorized [of None "history db i" "crState c"] h that b(1)
    by (auto simp: approvalsOf_def filter_empty_conv)
  moreover have "c \<in> set (cards db) \<and> d \<in> set (cards db) \<and>
         (crIdempotencyKey c = crIdempotencyKey d \<or> crLineageID c = crLineageID d \<and> crVersion c = crVersion d)
         \<longrightarrow> c = d" for c d
    using t unfolding tablesOk_def uniqueOk_def by blast
  ultimately show ?thesis using h b by blast
qed

theorem reachable_books_witness:
  "\<exists>db' row. produceVersion demoEnv emptyRec 9 1 (assemble demoAssemble) = Inr (db', row, True) \<and>
     confirmationsOf db' 5 = approvalsOf db' 5"
proof -
  obtain db' row where p: "produceVersion demoEnv emptyRec 9 1 (assemble demoAssemble) = Inr (db', row, True)"
    using demo_produced by blast
  have "recReachable db'" by (rule reach_step [OF reach_empty step_produce [OF p]])
  from reachable_books [OF this] p show ?thesis by blast
qed

section \<open>What a price edit supersedes\<close>

text \<open>Cards are never removed, and nothing but their state ever changes.\<close>

lemma keepsRows_trans: "keepsRows a b \<Longrightarrow> keepsRows b c \<Longrightarrow> keepsRows a c"
  unfolding keepsRows_def by fastforce

lemma keepsRowsI:
  assumes "rowsOk db'" and "\<And>i c. getCard db i = Some c \<Longrightarrow> \<exists>t. getCard db' i = Some (c\<lparr>crState := t\<rparr>)"
  shows "keepsRows db db'"
  using assms by (simp add: keepsRows_def)

lemma same_state [simp]: "\<exists>t. c = c\<lparr>crState := t\<rparr>" "\<exists>t. c\<lparr>crState := u\<rparr> = c\<lparr>crState := t\<rparr>" for c :: card_row
proof -
  have "c = c\<lparr>crState := crState c\<rparr>" by simp
  then show "\<exists>t. c = c\<lparr>crState := t\<rparr>" by metis
qed blast

lemma keepsRows_cards: "rowsOk db' \<Longrightarrow> getCard db' = getCard db \<Longrightarrow> keepsRows db db'"
  by (rule keepsRowsI) (simp_all add: same_state)

lemma keepsRows_mint: "rowsOk db \<Longrightarrow> mintDraftCard env db r l a b p = Inr (db', c) \<Longrightarrow> keepsRows db db'"
  by (rule keepsRowsI, erule (1) rowsOk_mint) (auto elim!: mint_ok simp: same_state)

lemma keepsRows_advance: "rowsOk db \<Longrightarrow> advanceCard db i f t reason = Inr (db', row) \<Longrightarrow> keepsRows db db'"
  by (rule keepsRowsI, erule (1) rowsOk_advance) (auto elim!: getCard_advance simp: same_state)

lemma keepsRows_confirm:
  assumes "rowsOk db" and "earlierRead db requested"
    and "confirmLocked (wired env rc) db requested presented now act = Inr (db', out)"
  shows "keepsRows db db'"
  using assms
proof (cases rule: confirmLocked_cases)
  case (superseded row current db1)
  then show ?thesis using keepsRows_advance [OF assms(1)] by blast
next
  case (current row db1)
  have k: "keepsRows db db1" by (rule keepsRows_advance [OF assms(1) current(6)])
  have "getCard db' = getCard db1"
    using current(8) by (auto simp: recordApproval_wired fun_eq_iff split: if_splits)
  moreover have "rowsOk db'" using confirmLocked_frame [OF assms] by blast
  ultimately show ?thesis using keepsRows_trans [OF k keepsRows_cards] by blast
qed

lemma keepsRows_bulk:
  assumes "bulkRun (wired env rc) (\<lambda>_. alone) account ms now act db db'" and "rowsOk db"
  shows "keepsRows db db'"
  using assms
proof (induction rule: bulkRun.induct)
  case (run_member db d1 m c d2 out)
  then have "rowsOk d1" by (simp add: keepsRows_def)
  then show ?case using run_member keepsRows_confirm keepsRows_trans by blast
qed (simp_all add: keepsRows_refl)

lemma keepsRows_step: "recStep db db' \<Longrightarrow> tablesOk db \<Longrightarrow> keepsRows db db'"
proof -
  assume st: "recStep db db'" and ok: "tablesOk db"
  have r: "rowsOk db" using ok by (simp add: tablesOk_def)
  have r': "rowsOk db'" using tablesOk_step [OF st ok] by (simp add: tablesOk_def)
  have same: "keepsRows db db'" if "sameBooks db db'"
    using that by (intro keepsRows_cards [OF r']) (simp add: sameBooks_def getCard_def fun_eq_iff)
  from st show ?thesis
  proof cases
    case (step_produce env l a r row created)
    from step_produce show ?thesis
    proof (rule produceVersion_ok)
      fix db1
      assume i: "insertRecommendation env db (recommendationParams l r) = Inr (db1, row)"
        and t: "created \<Longrightarrow> \<exists>price c. optGet (rnProposedPrice r) = Some price \<and>
           mintDraftCard env db1 (rmID row) l a (rnBinding r) price = Inr (db', c)"
        and f: "\<not> created \<Longrightarrow> db' = db1"
      have t1: "rowsOk db1" using tablesOk_recommendation [OF ok i] by (simp add: tablesOk_def)
      have k: "keepsRows db db1"
        by (rule keepsRows_cards [OF t1]) (simp add: insertRecommendation_ok(1) [OF i] getCard_def fun_eq_iff)
      show ?thesis
      proof (cases created)
        case True
        with t show ?thesis using keepsRows_trans [OF k keepsRows_mint [OF t1]] by blast
      qed (use k f in simp)
    qed
  next
    case (step_edit svc env dbC dbR i price now c)
    then show ?thesis by (elim editCardPrice_ok) (rule keepsRows_mint [OF r])
  next
    case (step_draft env act a e i t)
    then show ?thesis by (elim prepareRecommendationDraft_ok) (rule keepsRows_mint [OF r])
  next
    case (step_level2 env act a who k b f now t)
    then have "getCard db' = getCard db"
      by (auto simp: prepareLevel2Proposal_def Let_def appendAuditRow_def appendAudit_def auditAppend_def
          getCard_def fun_eq_iff split: if_splits)
    then show ?thesis by (rule keepsRows_cards [OF r'])
  next
    case (step_set benv a l n cr agg s)
    then show ?thesis using same sameBooks_sets by blast
  next
    case (step_preview benv a l n cr ms s vs agg)
    then show ?thesis using same sameBooks_sets by blast
  next
    case (step_advance i s t reason row)
    then show ?thesis using keepsRows_advance [OF r] by blast
  next
    case (step_confirm c env rc b now act out)
    then show ?thesis using keepsRows_confirm [OF r] by blast
  next
    case (step_bulk env rc a l v now act out2)
    from step_bulk obtain current members where b: "bindSelectionVersion db a l v = Inr (current, members)"
      by (auto simp: confirmBulkSelection_def andThen_Inr)
    obtain d1 items p where m: "authorizeMembers (wired env rc) (\<lambda>_. alone) db a members now act = (d1, items, p)"
      using authorizeMembers_total by blast
    have "keepsRows db d1"
      using authorizeMembers_run [where others = "\<lambda>_. alone", OF r keepsRows_refl m] keepsRows_bulk r by blast
    moreover have "db' = db \<or> db' = d1"
      using step_bulk b m by (auto simp: confirmBulkSelection_def split: if_splits)
    ultimately show ?thesis using keepsRows_refl by blast
  next
    case (step_expire v reason n err)
    show ?thesis
    proof (rule keepsRowsI [OF r'])
      fix i c
      assume "getCard db i = Some c"
      then have "getCard db' i = Some (if dependentCard db v c then c\<lparr>crState := StateInvalidated\<rparr> else c)"
        using reopen_expires_controls [OF ok step_expire] by simp
      then show "\<exists>t. getCard db' i = Some (c\<lparr>crState := t\<rparr>)" using same_state by (auto split: if_splits)
    qed
  next
    case (step_audit ev env)
    then show ?thesis by (intro keepsRows_cards [OF r']) (simp add: fun_eq_iff)
  qed
qed

lemma keepsRows_run: "recStep\<^sup>*\<^sup>* db db' \<Longrightarrow> tablesOk db \<Longrightarrow> tablesOk db' \<and> keepsRows db db'"
  by (induction rule: rtranclp_induct)
    (auto intro: keepsRows_refl keepsRows_trans keepsRows_step tablesOk_step)

text \<open>A control whose lineage has a newer card is dead.\<close>

lemma older_never_approved:
  assumes "rowsOk db" and "getCard db i = Some c" and "crLineageID c = crLineageID requested"
    and "cardVersion requested < cardVersion c" and "earlierRead db requested"
    and "confirmLocked svc db requested presented now act = Inr (db', out)"
  shows "coState out \<noteq> StateApproved"
  using assms(1,5,6)
proof (cases rule: confirmLocked_cases)
  case (current row db1)
  from assms(5) current(1) have req: "requested = row\<lparr>crState := crState requested\<rparr>"
    by (auto simp: earlierRead_def)
  have "crLineageID requested = crLineageID row" "crVersion requested = crVersion row" by (subst req, simp)+
  moreover have "getCard db (crID c) = Some c" using assms(2) rowsOk_ID [OF assms(1,2)] by simp
  ultimately have "cardVersion c \<le> cardVersion row" "cardVersion requested = cardVersion row"
    using currentCard_Some [OF assms(1) current(3)] assms(3) by simp_all
  then show ?thesis using assms(4) by simp
qed simp

lemma superseded_never_approved:
  assumes "rowsOk db" and "currentCard db l = Some c" and "crState c \<noteq> StateAwaitingConfirmation"
    and "crLineageID requested = l" and "earlierRead db requested"
    and "confirmLocked (wired env rc) db requested presented now act = Inr (db', out)"
  shows "coState out \<noteq> StateApproved"
  using assms(1,5,6)
proof (cases rule: confirmLocked_cases)
  case (current row db1)
  from assms(5) current(1) have "crLineageID row = crLineageID requested"
    by (auto simp: earlierRead_def) (metis card_row.select_convs(2) card_row.surjective card_row.update_convs(6))
  with current(2,3) assms(2-4) show ?thesis by auto
qed simp

text \<open>
  C31. A price edit supersedes every earlier control of its lineage, for good.  The card, its recommendation
  and the mint may each see a later state of the service.  The edit mints a draft with the edited price, the
  next parameter version and a one-hour expiry at the head of the lineage, only for a price that the policy
  chain proposes itself in the context the rechecker gives for the card's own recommendation, and changes
  no other card.  In every later state of the service no confirmation of an older card of that lineage
  approves it; and right after the edit no card of the lineage can be approved at all.
\<close>

theorem edit_supersedes:
  assumes "recReachable dbC" and "recStep\<^sup>*\<^sup>* dbC dbR" and "recStep\<^sup>*\<^sup>* dbR db"
    and "editCardPrice svc env dbC dbR db cardID price now = Inr (db', new)"
  shows "\<exists>old recheck r pc res. getCard dbC cardID = Some old \<and> svRecheck svc = Some recheck
    \<and> getRecommendation dbR (crRecommendationID old) = Some r \<and> recheck r = Inr pc
    \<and> admitEditedPrice pc price now = Inr (res, True)
    \<and> crLineageID new = crLineageID old \<and> crState new = StateDraft \<and> crPrice new = price
    \<and> crExpiresAt new = now + hour \<and> crParameterVersion new = crParameterVersion old + 1
    \<and> cardVersion old < cardVersion new \<and> currentCard db' (crLineageID old) = Some new
    \<and> (\<forall>j. getCard db' j = (if j = crID new then Some new else getCard db j))
    \<and> (\<forall>dbL requested env' rc presented now' act db'' out.
          recStep\<^sup>*\<^sup>* db' dbL \<and> crLineageID requested = crLineageID old \<and> earlierRead dbL requested \<and>
          (cardVersion requested < cardVersion new \<or> dbL = db') \<and>
          confirmLocked (wired env' rc) dbL requested presented now' act = Inr (db'', out) \<longrightarrow>
          coState out \<noteq> StateApproved)"
proof -
  have C: "tablesOk dbC" by (rule reachable_tablesOk [OF assms(1)])
  have "recStep\<^sup>*\<^sup>* dbC db" using assms(2,3) by (rule rtranclp_trans)
  from keepsRows_run [OF this C] have D: "tablesOk db" "keepsRows dbC db" by blast+
  have ok: "rowsOk db" using D(1) by (simp add: tablesOk_def)
  from assms(4) obtain old recheck r pc res ev where old: "getCard dbC cardID = Some old"
    and re: "svRecheck svc = Some recheck" "getRecommendation dbR (crRecommendationID old) = Some r" "recheck r = Inr pc"
    and ad: "admitEditedPrice pc price now = Inr (res, True)"
    and m: "mintDraftCard env db (crRecommendationID old) (crLineageID old) (crAccountID old)
      (editedBinding old ev now) price = Inr (db', new)"
    by (rule editCardPrice_ok)
  have b: "bnParameterVersion (editedBinding old ev now) = crParameterVersion old + 1"
    "bnExpiry (editedBinding old ev now) = now + hour"
    by (simp_all add: editedBinding_def editPriceControlTTL_def)
  have id: "crID old = cardID" using C old by (auto simp: tablesOk_def intro: rowsOk_ID)
  obtain t where "getCard db cardID = Some (old\<lparr>crState := t\<rparr>)" using D(2) old unfolding keepsRows_def by blast
  then have v: "cardVersion old < cardVersion new" using mint_version(3) [OF ok m, of "old\<lparr>crState := t\<rparr>"] id by simp
  have cur: "currentCard db' (crLineageID old) = Some new" by (rule mint_current [OF ok m])
  have ok': "tablesOk db'" by (rule tablesOk_mint [OF D(1) m])
  have new: "getCard db' (crID new) = Some new" by (simp add: mint_effect(1) [OF m])
  have dead: "coState out \<noteq> StateApproved"
    if l: "recStep\<^sup>*\<^sup>* db' dbL" and q: "crLineageID requested = crLineageID old" "earlierRead dbL requested"
      and o: "cardVersion requested < cardVersion new \<or> dbL = db'"
      and c: "confirmLocked (wired env' rc) dbL requested presented now' act = Inr (db'', out)"
    for dbL requested env' rc presented now' act db'' out
    using o
  proof
    assume v: "cardVersion requested < cardVersion new"
    from keepsRows_run [OF l ok'] have L: "rowsOk dbL" "keepsRows db' dbL" by (simp_all add: tablesOk_def)
    then obtain u where "getCard dbL (crID new) = Some (new\<lparr>crState := u\<rparr>)" using new unfolding keepsRows_def by blast
    from older_never_approved [OF L(1) this _ _ q(2) c] show ?thesis using v q(1) mint_row(2) [OF m] by simp
  next
    assume "dbL = db'"
    then show ?thesis
      using superseded_never_approved [OF _ cur _ q(1)] ok' q(2) c mint_row(1) [OF m] by (simp add: tablesOk_def)
  qed
  then have "\<forall>dbL requested env' rc presented now' act db'' out.
      recStep\<^sup>*\<^sup>* db' dbL \<and> crLineageID requested = crLineageID old \<and> earlierRead dbL requested \<and>
      (cardVersion requested < cardVersion new \<or> dbL = db') \<and>
      confirmLocked (wired env' rc) dbL requested presented now' act = Inr (db'', out) \<longrightarrow>
      coState out \<noteq> StateApproved"
    by blast
  moreover have "crExpiresAt new = now + hour" using mint_row(10) [OF m] b(2) by (simp only:)
  ultimately show ?thesis
    using old re ad mint_row(1,2,5,7) [OF m] b(1) v cur mint_effect(1) [OF m] by metis
qed

section \<open>What a chat draft binds\<close>

text \<open>
  Further. A draft of the chat plane binds what was produced and supersedes what was minted before: it exists
  only for a stored approvable recommendation of the named account and variant; the new card is a Draft
  at the head of the lineage with the stored price, versions, evidence and expiry under a fresh action;
  it is not approved, and from then on no confirmation of any card of that lineage can approve it.
\<close>

theorem chat_draft_terminal:
  assumes "rowsOk db" and "prepareRecommendationDraft env db act a e i = Inr (db', t)"
  shows "\<exists>row c. getRecommendation db i = Some row \<and> rmAccountID row = a \<and> rmVariantID row = e \<and> rmApprovable row
    \<and> cards db' = cards db @ [c] \<and> dtDraftID t = crID c \<and> crState c = StateDraft
    \<and> currentCard db' (rmLineageID row) = Some c
    \<and> bnActionID (rowBinding c) = act \<and> bnContextVersion (rowBinding c) = rmContextVersion row
    \<and> bnPolicyVersion (rowBinding c) = rmPolicyVersion row \<and> bnParameterVersion (rowBinding c) = rmParameterVersion row
    \<and> bnCostProfileVersion (rowBinding c) = rmCostProfileVersion row
    \<and> rmEvidenceVersions row = Some (bnEvidenceVersions (rowBinding c))
    \<and> rmExpiresAt row = Some (bnExpiry (rowBinding c))
    \<and> mlAvailable (rmProposedPrice row) \<and> crPrice c =
        \<lparr>mantissa = (case mlMantissa (rmProposedPrice row) of None \<Rightarrow> 0 | Some m \<Rightarrow> m),
         currency = mlCurrency (rmProposedPrice row), exponent = mlExponent (rmProposedPrice row)\<rparr>
    \<and> rdIntents db' = rdIntents db \<and> edAudit (rdExec db') = edAudit (rdExec db)
    \<and> (\<forall>requested env' rc presented now act' db'' out.
          crLineageID requested = rmLineageID row \<and> earlierRead db' requested \<and>
          confirmLocked (wired env' rc) db' requested presented now act' = Inr (db'', out) \<longrightarrow>
          coState out \<noteq> StateApproved)"
  using assms(2)
proof (rule prepareRecommendationDraft_ok)
  fix row :: recommendation_row and ev expiry price c
  let ?b = "\<lparr>bnActionID = act, bnParameterVersion = rmParameterVersion row, bnContextVersion = rmContextVersion row,
    bnPolicyVersion = rmPolicyVersion row, bnCostProfileVersion = rmCostProfileVersion row,
    bnEvidenceVersions = ev, bnExpiry = expiry\<rparr>"
  assume r: "getRecommendation db i = Some row" "rmAccountID row = a" "rmVariantID row = e" "rmApprovable row"
    "mlAvailable (rmProposedPrice row)" "rmExpiresAt row = Some expiry" "rmEvidenceVersions row = Some ev"
    and p: "newMoney (case mlMantissa (rmProposedPrice row) of None \<Rightarrow> 0 | Some m \<Rightarrow> m)
       (mlCurrency (rmProposedPrice row)) (mlExponent (rmProposedPrice row)) = Inr price"
    and m: "mintDraftCard env db i (rmLineageID row) a ?b price = Inr (db', c)"
    and t: "dtDraftID t = crID c"
  have cur: "currentCard db' (rmLineageID row) = Some c" by (rule mint_current [OF assms(1) m])
  have ok: "rowsOk db'" by (rule rowsOk_mint [OF assms(1) m])
  have b: "rowBinding c = ?b" using mint_row [OF m] by (simp add: rowBinding_def)
  have price: "crPrice c = \<lparr>mantissa = (case mlMantissa (rmProposedPrice row) of None \<Rightarrow> 0 | Some m \<Rightarrow> m),
         currency = mlCurrency (rmProposedPrice row), exponent = mlExponent (rmProposedPrice row)\<rparr>"
    using p mint_row(5) [OF m] by (auto simp: newMoney_def split: if_splits)
  have "crState c \<noteq> StateAwaitingConfirmation" by (simp add: mint_row(1) [OF m])
  then have "\<forall>requested env' rc presented now act' db'' out.
      crLineageID requested = rmLineageID row \<and> earlierRead db' requested \<and>
      confirmLocked (wired env' rc) db' requested presented now act' = Inr (db'', out) \<longrightarrow>
      coState out \<noteq> StateApproved"
    using superseded_never_approved [OF ok cur] by blast
  then show ?thesis
    using r t cur price mint_row(1) [OF m] cards_mint(1) [OF assms(1) m] mint_effect(5,6) [OF m]
    by (intro exI [of _ row] exI [of _ c]) (simp add: b)
qed

section \<open>Dispositions of stored recommendations\<close>

lemma stored_blockers: "2 < length (blockersJSON (rnBlockers (assemble inp)))"
proof (cases "rnBlockers (assemble inp)")
  case (Some bs)
  have "rnBlockers (assemble inp) = detectBlockers inp" by (simp add: assemble_def assembleBase_def Let_def)
  with Some have d: "detectBlockers inp = Some bs" by simp
  then have "bs \<noteq> []" using detectBlockers_nil [of inp] by auto
  moreover have "0 < length (blockerJSON b)" for b by (simp add: blockerJSON_def)
  ultimately show ?thesis
    using Some by (cases bs rule: remdups_adj.cases) (simp_all add: blockersJSON_def)
qed (simp add: blockersJSON_def)

text \<open>
  Further. A stored recommendation is Executable or Blocked in a bulk preview, never Warning: one without
  blockers that is not approvable, a simulation, has the JSON text null for its blockers, which the
  length test takes for a non-empty list.
\<close>

theorem stored_never_warning:
  assumes "produceVersion env db l a (assemble inp) = Inr (db', row, created)"
  shows "dispositionOf row = (if rmApprovable row then DispositionExecutable else DispositionBlocked)"
  using assms
proof (rule produceVersion_ok)
  fix db1
  assume "insertRecommendation env db (recommendationParams l (assemble inp)) = Inr (db1, row)"
  then obtain v where "row = (recommendationParams l (assemble inp))\<lparr>rmID := nvID env db, rmVersion := v\<rparr>"
    using insertRecommendation_ok(2) by blast
  then show ?thesis using stored_blockers [of inp] by (simp add: dispositionOf_def recommendationParams_def)
qed

theorem stored_never_warning_witness:
  "\<exists>db' row. produceVersion demoEnv emptyRec 9 1 (assemble demoAssemble) = Inr (db', row, True) \<and>
     dispositionOf row \<noteq> DispositionWarning"
proof -
  obtain db' row where p: "produceVersion demoEnv emptyRec 9 1 (assemble demoAssemble) = Inr (db', row, True)"
    using demo_produced by blast
  from stored_never_warning [OF p] p show ?thesis by auto
qed

lemma demo_row_columns:
  "rmApprovable demoRow" "rmProposedPrice demoRow = optionalMoneyColumns (Present (irr 100))"
  "rmExpiresAt demoRow = Some (5 + hour)" "rmEvidenceVersions demoRow = Some fmempty"
proof -
  show "rmProposedPrice demoRow = optionalMoneyColumns (Present (irr 100))"
    using demo_assembled_fields(1)
    by (simp add: demoRow_def recommendationParams_def assemble_when_approvable [OF demo_approvable])
  show "rmApprovable demoRow" by (simp add: demoRow_def recommendationParams_def demo_approvable)
  show "rmExpiresAt demoRow = Some (5 + hour)"
    by (simp add: demoRow_def recommendationParams_def demo_assembled_fields)
  show "rmEvidenceVersions demoRow = Some fmempty"
    by (simp add: demoRow_def recommendationParams_def assemble_when_approvable [OF demo_approvable])
      (simp add: assembleBase_def inputBinding_def demoAssemble_def)
qed

lemma demo_drafted: "\<exists>db' t. prepareRecommendationDraft demoEnv demoRec 50 1 2 100 = Inr (db', t)"
proof -
  have "idempotencyKey (nvUUIDStr demoEnv) (inputBinding demoAssemble) =
      ''action:'' @ nvUUIDStr demoEnv 6 @ '':pv:'' @ formatInt 1"
    by (simp add: idempotencyKey_def inputBinding_def demoAssemble_def)
  moreover have "formatInt i = formatInt j \<longleftrightarrow> i = j" for i j using formatInt_inj by blast
  moreover have "rmParameterVersion demoRow = 1"
    by (simp add: demoRow_def recommendationParams_def assemble_when_approvable [OF demo_approvable])
      (simp add: assembleBase_def inputBinding_def demoAssemble_def)
  moreover have "nvID demoEnv demoRec = 202" by (simp add: demoEnv_def)
  moreover have "nvUUIDStr demoEnv 6 = formatInt 6" "nvUUIDStr demoEnv 50 = formatInt 50"
    by (simp_all add: demoEnv_def)
  ultimately show ?thesis
    by (simp add: prepareRecommendationDraft_def getRecommendation_def demo_row_columns optionalMoneyColumns_def
        newMoney_def irr_def mapErr_def mintDraftCard_def insertCard_def nextVersion_def latestBy_def
        cardParams_def Let_def idempotencyKey_def)
qed

theorem chat_draft_terminal_witness:
  "\<exists>db' t c. prepareRecommendationDraft demoEnv demoRec 50 1 2 100 = Inr (db', t) \<and>
     currentCard db' 9 = Some c \<and> crState c = StateDraft \<and> crPrice c = irr 100"
proof -
  obtain db' t where d: "prepareRecommendationDraft demoEnv demoRec 50 1 2 100 = Inr (db', t)"
    using demo_drafted by blast
  have g: "getRecommendation demoRec 100 = Some demoRow" by (simp add: getRecommendation_def)
  from chat_draft_terminal [OF demo_rowsOk d] d g show ?thesis
    by (auto simp: demo_row_columns optionalMoneyColumns_def irr_def)
qed

section \<open>A reachable edit\<close>

text \<open>The recommendation and its draft as the producer stores them, and an edit of that draft.\<close>

definition demoMintEnv :: rec_env where
  "demoMintEnv = demoEnv\<lparr>nvID := (\<lambda>db. 100 + of_nat (length (rdCardOrder db) + length (rdRecommendations db)))\<rparr>"

definition demoMinted :: rec_db where
  "demoMinted = emptyRec\<lparr>rdExec := noTables\<lparr>edCards := [101 \<mapsto> demoCard StateDraft], edCardStates := [hd demoHistory]\<rparr>,
     rdCardOrder := [101], rdRecommendations := [demoRow]\<rparr>"

lemma demoMinted_tables [simp]:
  "getCard demoMinted i = (if i = 101 then Some (demoCard StateDraft) else None)"
  "cards demoMinted = [demoCard StateDraft]" "rdRecommendations demoMinted = [demoRow]" "rdCardOrder demoMinted = [101]"
  by (simp_all add: demoMinted_def emptyRec_def noTables_def getCard_def cards_def)

lemma demoMinted_step: "recStep emptyRec demoMinted"
proof -
  let ?db1 = "emptyRec\<lparr>rdRecommendations := [demoRow]\<rparr>"
  have row: "demoRow = (recommendationParams 9 (assemble demoAssemble))\<lparr>rmID := 100, rmVersion := 1\<rparr>"
    by (simp add: demoRow_def)
  have "insertRecommendation demoMintEnv emptyRec (recommendationParams 9 (assemble demoAssemble)) = Inr (?db1, demoRow)"
    unfolding row
    by (simp add: insertRecommendation_def nextVersion_def latestBy_def demo_row_checks getRecommendation_def
        emptyRec_def demoMintEnv_def Let_def)
  moreover have "mintDraftCard demoMintEnv ?db1 100 9 1 (inputBinding demoAssemble) (irr 100) = Inr (demoMinted, demoCard StateDraft)"
    by (simp add: mintDraftCard_def insertCard_def nextVersion_def latestBy_def cards_def getCard_def demoMintEnv_def
        emptyRec_def noTables_def demoMinted_def appendCardState_def demoCard_def cardParams_def demoHistory_def
        demoEnv_def Let_def)
  ultimately have "produceVersion demoMintEnv emptyRec 9 1 (assemble demoAssemble) = Inr (demoMinted, demoRow, True)"
    by (simp add: produceVersion_def buildBinding_def demo_approvable demo_assembled_fields)
  then show ?thesis by (rule step_produce)
qed

lemma demo_edited:
  "\<exists>db' new. editCardPrice (wired demoEnv (Some demoRecheck)) demoEnv demoMinted demoMinted demoMinted 101 (irr 100) 0 = Inr (db', new)"
proof -
  have "idempotencyKey (nvUUIDStr demoEnv) (inputBinding demoAssemble) =
      ''action:'' @ nvUUIDStr demoEnv 6 @ '':pv:'' @ formatInt 1"
    by (simp add: idempotencyKey_def inputBinding_def demoAssemble_def)
  moreover have "formatInt i = formatInt j \<longleftrightarrow> i = j" for i j using formatInt_inj by blast
  moreover have "crActionID (demoCard st) = 6" for st
    by (simp add: demoCard_def cardParams_def inputBinding_def demoAssemble_def)
  moreover have "nvID demoEnv demoMinted = 202" by (simp add: demoEnv_def)
  ultimately show ?thesis
    by (simp add: editCardPrice_def getRecommendation_def demoRecheck_def demo_edit mintDraftCard_def
        insertCard_def nextVersion_def latestBy_def cardParams_def Let_def idempotencyKey_def)
qed

theorem edit_supersedes_witness:
  "\<exists>db' new. editCardPrice (wired demoEnv (Some demoRecheck)) demoEnv demoMinted demoMinted demoMinted 101 (irr 100) 0 = Inr (db', new)
     \<and> currentCard db' 9 = Some new \<and> crParameterVersion new = 2
     \<and> confirmLocked (wired demoEnv None) db' (demoCard StateDraft) (inputBinding demoAssemble) 6 demoActor = Inl (RecApprovalErr ErrNoControl)"
proof -
  obtain db' new where c: "editCardPrice (wired demoEnv (Some demoRecheck)) demoEnv demoMinted demoMinted demoMinted 101 (irr 100) 0 = Inr (db', new)"
    using demo_edited by blast
  have "recReachable demoMinted" by (rule reach_step [OF reach_empty demoMinted_step])
  from edit_supersedes [OF this rtranclp.rtrancl_refl rtranclp.rtrancl_refl c]
  have "currentCard db' 9 = Some new \<and> crParameterVersion new = 2" by (elim exE conjE) auto
  with c show ?thesis by (auto simp: confirmLocked_def demo_card controlOf_def)
qed

end
