(* ===== verification/Fingerprint.thy ===== *)
theory Fingerprint
  imports RecommendationBulk "HOL-Library.Multiset"
begin

text \<open>
  The membership fingerprint of a sealed version (selection.go): what is hashed determines the members,
  as a multiset, and the aggregate, and depends on nothing else.
\<close>

section \<open>Fixed-width and length-prefixed fields\<close>

lemma length_bytesBE [simp]: "length (bytesBE n v) = n"
  by (induction n arbitrary: v) auto

lemma bytesBE_inj: "bytesBE n v = bytesBE n w \<Longrightarrow> v < 256 ^ n \<Longrightarrow> w < 256 ^ n \<Longrightarrow> v = w"
proof (induction n arbitrary: v w)
  case (Suc n)
  from Suc.prems have m: "bytesBE n (v div 256) = bytesBE n (w div 256)" "v mod 256 = w mod 256" by simp_all
  have "v div 256 = w div 256"
    using Suc.prems by (intro Suc.IH m(1)) (auto simp: less_mult_imp_div_less mult.commute)
  with m(2) show ?case by (metis div_mult_mod_eq)
qed simp

lemma bytesBE_word_inj: "bytesBE n (unat (u :: 'a::len word)) = bytesBE n (unat v) \<longleftrightarrow> u = v"
  if "2 ^ LENGTH('a) \<le> (256 :: nat) ^ n"
proof -
  have "unat w < 256 ^ n" for w :: "'a word" using unsigned_less [of w, where ?'a = nat] that by linarith
  then show ?thesis using bytesBE_inj [of n "unat u" "unat v"] by (auto dest: unsigned_word_eqI)
qed

text \<open>Lengths fit the 64-bit length of a Go slice.\<close>

definition fits :: "nat \<Rightarrow> bool" where
  "fits n \<longleftrightarrow> n < 18446744073709551616"

lemma fits_inj: "fits m \<Longrightarrow> fits n \<Longrightarrow> bytesBE 8 m = bytesBE 8 n \<Longrightarrow> m = n"
  using bytesBE_inj [of 8 m n] by (simp add: fits_def)

lemma writeField_append:
  assumes "fits (length b)" and "fits (length c)"
  shows "writeField b @ xs = writeField c @ ys \<longleftrightarrow> b = c \<and> xs = ys"
proof
  assume e: "writeField b @ xs = writeField c @ ys"
  then have "bytesBE 8 (length b) = bytesBE 8 (length c)" by (simp add: writeField_def)
  then have "length b = length c" by (rule fits_inj [OF assms])
  with e show "b = c \<and> xs = ys" by (simp add: writeField_def)
qed auto

lemma uuidBytes_inj [simp]: "uuidBytes u = uuidBytes v \<longleftrightarrow> u = v"
  by (simp add: uuidBytes_def bytesBE_word_inj)

lemma length_uuidBytes [simp]: "length (uuidBytes u) = 16"
  by (simp add: uuidBytes_def)

lemma textBytes_inj [simp]: "textBytes s = textBytes t \<longleftrightarrow> s = t"
proof -
  have "inj (of_char :: char \<Rightarrow> nat)" by (rule injI) simp
  then show ?thesis by (simp add: textBytes_def inj_map_eq_map)
qed

lemma length_textBytes [simp]: "length (textBytes s) = length s"
  by (simp add: textBytes_def)

lemma dispositionText_inj [simp]: "dispositionText d = dispositionText e \<longleftrightarrow> d = e"
  by (cases d; cases e) simp_all

lemma length_dispositionText: "length (dispositionText d) \<le> 10"
  by (cases d) simp_all

lemma fits_disposition: "fits (length (dispositionText d))"
  using length_dispositionText [of d] by (simp add: fits_def)

lemma viewBytes_append:
  "viewBytes v @ xs = viewBytes w @ ys \<longleftrightarrow> v = w \<and> xs = ys"
proof -
  have "fits 16" by (simp add: fits_def)
  then show ?thesis
    by (auto simp: viewBytes_def writeField_append fits_disposition)
qed

lemma views_append:
  "length vs = length ws \<Longrightarrow>
   concat (map viewBytes vs) @ xs = concat (map viewBytes ws) @ ys \<longleftrightarrow> vs = ws \<and> xs = ys"
  by (induction vs ws rule: list_induct2) (simp_all add: viewBytes_append conj_ac)

definition currencyFits :: "money option \<Rightarrow> bool" where
  "currencyFits agg \<longleftrightarrow> (case agg of None \<Rightarrow> True | Some m \<Rightarrow> fits (length (currency m)))"

lemma aggregateBytes_inj:
  assumes "currencyFits a" and "currencyFits b"
  shows "aggregateBytes a = aggregateBytes b \<longleftrightarrow> a = b"
proof (cases a; cases b)
  fix m n
  assume "a = Some m" "b = Some n"
  with assms have "fits (length (currency m))" "fits (length (currency n))" by (simp_all add: currencyFits_def)
  then have "writeField (textBytes (currency m)) @ [unat (exponent m)] = writeField (textBytes (currency n)) @ [unat (exponent n)]
      \<longleftrightarrow> currency m = currency n \<and> exponent m = exponent n"
    by (subst writeField_append) (auto dest: unsigned_word_eqI)
  then show ?thesis
    using \<open>a = Some m\<close> \<open>b = Some n\<close>
    by (auto simp: aggregateBytes_def bytesBE_word_inj append_eq_append_conv intro!: money.equality)
qed (simp_all add: aggregateBytes_def)

section \<open>Sorting\<close>

lemma bytesLess_linear: "length xs = length ys \<Longrightarrow> bytesLess xs ys \<or> xs = ys \<or> bytesLess ys xs"
  by (induction xs ys rule: list_induct2) auto

lemma bytesLess_total: "bytesLess xs ys \<or> xs = ys \<or> bytesLess ys xs"
proof (induction xs arbitrary: ys)
  case Nil
  then show ?case by (cases ys) auto
next
  case (Cons x xs)
  then show ?case by (cases ys) auto
qed

lemma bytesLess_irrefl [simp]: "\<not> bytesLess xs xs"
  by (induction xs) auto

lemma bytesLess_trans: "bytesLess xs ys \<Longrightarrow> bytesLess ys zs \<Longrightarrow> bytesLess xs zs"
proof (induction xs arbitrary: ys zs)
  case Nil
  then show ?case by (cases ys; cases zs) auto
next
  case (Cons x xs)
  then show ?case by (cases ys; cases zs) auto
qed

lemma viewKey_inj [simp]: "viewKey v = viewKey w \<longleftrightarrow> v = w"
proof -
  have "length (uuidBytes (pvVariantID v)) = length (uuidBytes (pvVariantID w))"
    "length (uuidBytes (pvRecommendationID v)) = length (uuidBytes (pvRecommendationID w))" by simp_all
  then show ?thesis by (auto simp: viewKey_def intro!: member_view.equality)
qed

definition viewLe :: "member_view \<Rightarrow> member_view \<Rightarrow> bool" where
  "viewLe v w \<longleftrightarrow> v = w \<or> bytesLess (viewKey v) (viewKey w)"

lemma viewLe_facts:
  "viewLe v w \<or> viewLe w v" "viewLe v w \<Longrightarrow> viewLe w v \<Longrightarrow> v = w" "viewLe u v \<Longrightarrow> viewLe v w \<Longrightarrow> viewLe u w"
  "\<not> bytesLess (viewKey w) (viewKey v) \<longleftrightarrow> viewLe v w"
  using bytesLess_total [of "viewKey v" "viewKey w"] bytesLess_trans bytesLess_irrefl
  unfolding viewLe_def by (metis viewKey_inj)+

lemma mset_insertView [simp]: "mset (insertView v ws) = add_mset v (mset ws)"
  by (induction ws) auto

lemma mset_sortViews [simp]: "mset (sortViews vs) = mset vs"
  by (induction vs) (simp_all add: sortViews_def)

lemma length_sortViews [simp]: "length (sortViews vs) = length vs"
  by (metis mset_sortViews size_mset)

lemma set_insertView [simp]: "set (insertView v ws) = insert v (set ws)"
  by (metis mset_insertView set_mset_add_mset_insert set_mset_mset)

lemma insertView_sorted: "sorted_wrt viewLe ws \<Longrightarrow> sorted_wrt viewLe (insertView v ws)"
proof (induction ws)
  case (Cons w ws)
  show ?case
  proof (cases "bytesLess (viewKey w) (viewKey v)")
    case True
    then have "viewLe w v" by (simp add: viewLe_def)
    then show ?thesis using Cons True by auto
  next
    case False
    then have "viewLe v w" by (simp add: viewLe_facts(4))
    then show ?thesis using Cons False viewLe_facts(3) by auto
  qed
qed simp

lemma sortViews_sorted: "sorted_wrt viewLe (sortViews vs)"
  by (induction vs) (simp_all add: sortViews_def insertView_sorted)

lemma sorted_views_unique:
  "sorted_wrt viewLe vs \<Longrightarrow> sorted_wrt viewLe ws \<Longrightarrow> mset vs = mset ws \<Longrightarrow> vs = ws"
proof (induction vs arbitrary: ws)
  case (Cons v vs)
  then obtain w ws' where w: "ws = w # ws'" by (cases ws) auto
  have "v \<in> set ws" "w \<in> set (v # vs)" using Cons.prems(3) w by (metis list.set_intros(1) mset_eq_setD)+
  then have "viewLe w v" "viewLe v w" using Cons.prems w by (auto simp: viewLe_def)
  then have "v = w" using viewLe_facts(2) by blast
  then show ?case using Cons w by auto
qed simp

text \<open>
  C33. The fingerprint of a sealed version binds it: two versions hash the same bytes exactly when they
  have the same members with the same recommendations and dispositions, in any order and with the same
  multiplicities, and the same aggregate, known or unknown, down to amount, currency and exponent.
\<close>

theorem fingerprint_binds:
  assumes "fits (length vs)" and "fits (length ws)" and "currencyFits a" and "currencyFits b"
  shows "fingerprintBytes vs a = fingerprintBytes ws b \<longleftrightarrow> mset vs = mset ws \<and> a = b"
proof
  assume e: "fingerprintBytes vs a = fingerprintBytes ws b"
  then have "bytesBE 8 (length vs) = bytesBE 8 (length ws)" by (simp add: fingerprintBytes_def)
  then have l: "length vs = length ws" by (rule fits_inj [OF assms(1,2)])
  with e have "concat (map viewBytes (sortViews vs)) @ aggregateBytes a = concat (map viewBytes (sortViews ws)) @ aggregateBytes b"
    by (simp add: fingerprintBytes_def)
  then have s: "sortViews vs = sortViews ws \<and> aggregateBytes a = aggregateBytes b"
    using l by (simp add: views_append)
  then have "mset vs = mset ws" by (metis mset_sortViews)
  then show "mset vs = mset ws \<and> a = b" using s aggregateBytes_inj [OF assms(3,4)] by simp
next
  assume m: "mset vs = mset ws \<and> a = b"
  then have "sortViews vs = sortViews ws"
    by (intro sorted_views_unique sortViews_sorted) simp
  moreover have "length vs = length ws" using m by (metis size_mset)
  ultimately show "fingerprintBytes vs a = fingerprintBytes ws b" using m by (simp add: fingerprintBytes_def)
qed

theorem fingerprint_binds_witness:
  "fingerprintBytes [\<lparr>pvVariantID = 1, pvRecommendationID = 2, pvDisposition = DispositionBlocked\<rparr>] None
   \<noteq> fingerprintBytes [] (Some \<lparr>mantissa = 5, currency = ''IRR'', exponent = 0\<rparr>)"
  by (subst fingerprint_binds) (simp_all add: fits_def currencyFits_def)

end
