(* ===== verification/ActionsQueue.thy ===== *)
theory ActionsQueue
  imports RecommendationLife "HOL-Library.Product_Lexorder"
begin

text \<open>
  The keyset cursor codec (keyset/keyset.go) and the paginated actions queue
  (recommendation/actions.go, queries/approval.sql).
\<close>

section \<open>Cursors (keyset.go)\<close>

datatype queue_error = ErrLimitAboveMax | ErrInvalidCursor | ErrAccountNotOwned | QueueNoRows

record keyset_cursor =
  kcAccount :: uuid
  kcCreatedAt :: instant
  kcID :: uuid

record keyset_payload =
  kpV :: int
  kpA :: string
  kpT :: int64
  kpI :: string

text \<open>
  The libraries of the codec: base64url over the JSON object, decoded with unknown fields refused, and
  the text form of UUIDs.
\<close>

record codec_lib =
  klWire :: "keyset_payload \<Rightarrow> string"
  klUnwire :: "string \<Rightarrow> keyset_payload option"
  klUUIDText :: "uuid \<Rightarrow> string"
  klParseUUID :: "string \<Rightarrow> uuid option"

definition keysetVersion :: int where "keysetVersion = 1"

definition encodeCursor :: "codec_lib \<Rightarrow> uuid \<Rightarrow> instant \<Rightarrow> uuid \<Rightarrow> string" where
  "encodeCursor lib account createdAt i =
     klWire lib \<lparr>kpV = keysetVersion, kpA = klUUIDText lib account, kpT = word_of_int createdAt,
                kpI = klUUIDText lib i\<rparr>"

definition decodeCursor :: "codec_lib \<Rightarrow> string \<Rightarrow> (queue_error, keyset_cursor) result" where
  "decodeCursor lib token =
     (case klUnwire lib token of
        None \<Rightarrow> Inl ErrInvalidCursor
      | Some p \<Rightarrow>
          if kpV p \<noteq> keysetVersion then Inl ErrInvalidCursor
          else
            (case klParseUUID lib (kpA p) of
               None \<Rightarrow> Inl ErrInvalidCursor
             | Some account \<Rightarrow>
                 (case klParseUUID lib (kpI p) of
                    None \<Rightarrow> Inl ErrInvalidCursor
                  | Some i \<Rightarrow> Inr \<lparr>kcAccount = account, kcCreatedAt = sint (kpT p), kcID = i\<rparr>)))"

section \<open>The queue (actions.go, ListApprovalCardsPage)\<close>

definition defaultActionsLimit :: int where "defaultActionsLimit = 200"
definition maxActionsLimit :: int where "maxActionsLimit = 500"

definition resolveActionsLimit :: "int option \<Rightarrow> (queue_error, int) result" where
  "resolveActionsLimit requested =
     (case requested of
        None \<Rightarrow> Inr defaultActionsLimit
      | Some l \<Rightarrow>
          if l \<le> 0 then Inr defaultActionsLimit
          else if maxActionsLimit < l then Inl ErrLimitAboveMax else Inr l)"

text \<open>A card version that heads its lineage or carries an execution, of either mode.\<close>

definition carriesExecution :: "rec_db \<Rightarrow> card_row \<Rightarrow> bool" where
  "carriesExecution db c \<longleftrightarrow>
     list_ex (\<lambda>e. exCardID e = crID c) (edExecutions (rdExec db)) \<or>
     (case edRecommendOnly (rdExec db) (crActionID c) of
        None \<Rightarrow> False | Some ro \<Rightarrow> roCardID ro = crID c)"

definition headsLineage :: "rec_db \<Rightarrow> card_row \<Rightarrow> bool" where
  "headsLineage db c \<longleftrightarrow>
     list_all (\<lambda>d. crLineageID d = crLineageID c \<longrightarrow> cardVersion d \<le> cardVersion c) (cards db)"

definition rowKey :: "card_row \<Rightarrow> instant \<times> nat" where
  "rowKey c = (crCreatedAt c, unat (crID c))"

definition actionRows :: "rec_db \<Rightarrow> uuid \<Rightarrow> state option \<Rightarrow> card_row list" where
  "actionRows db account st =
     filter (\<lambda>c. crAccountID c = account \<and> (headsLineage db c \<or> carriesExecution db c)
          \<and> getRecommendation db (crRecommendationID c) \<noteq> None
          \<and> (case st of None \<Rightarrow> True | Some s \<Rightarrow> crState c = s)) (cards db)"

definition newestFirst :: "card_row list \<Rightarrow> card_row list" where
  "newestFirst cs = rev (sort_key rowKey cs)"

definition listApprovalCardsPage ::
  "rec_db \<Rightarrow> uuid \<Rightarrow> state option \<Rightarrow> (instant \<times> uuid) option \<Rightarrow> int \<Rightarrow> card_row list" where
  "listApprovalCardsPage db account st cursor pageLimit =
     take (nat pageLimit)
       (newestFirst (filter (\<lambda>c. case cursor of None \<Rightarrow> True | Some (t, i) \<Rightarrow> rowKey c < (t, unat i))
          (actionRows db account st)))"

record actions_page =
  apItems :: "card_row list"
  apNextCursor :: "string option"
  apHasMore :: bool

definition listActionsPage ::
  "codec_lib \<Rightarrow> rec_db \<Rightarrow> uuid \<Rightarrow> state option \<Rightarrow> int option \<Rightarrow> string option
    \<Rightarrow> (queue_error, actions_page) result" where
  "listActionsPage lib db account st requested token =
     andThen (resolveActionsLimit requested) (\<lambda>limit.
     andThen (case token of
                None \<Rightarrow> Inr None
              | Some t \<Rightarrow>
                  andThen (decodeCursor lib t) (\<lambda>cur.
                  if kcAccount cur \<noteq> account then Inl ErrInvalidCursor
                  else Inr (Some (kcCreatedAt cur, kcID cur)))) (\<lambda>cursor.
     (let rows = listApprovalCardsPage db account st cursor (limit + 1);
          more = limit < int (length rows);
          items = (if more then take (nat limit) rows else rows) in
      Inr \<lparr>apItems = items,
           apNextCursor =
             (if more \<and> items \<noteq> []
              then Some (encodeCursor lib account (crCreatedAt (last items)) (crID (last items)))
              else None),
           apHasMore = more\<rparr>)))"

definition listActions ::
  "rec_db \<Rightarrow> uuid \<Rightarrow> state option \<Rightarrow> int \<Rightarrow> (queue_error, card_row list) result" where
  "listActions db account st limit =
     andThen (resolveActionsLimit (Some limit)) (\<lambda>l.
     Inr (take (nat l) (newestFirst
       (filter (\<lambda>c. crAccountID c = account \<and> (headsLineage db c \<or> carriesExecution db c)
          \<and> (case st of None \<Rightarrow> True | Some s \<Rightarrow> crState c = s)) (cards db)))))"

definition listActionsForOrg ::
  "codec_lib \<Rightarrow> (uuid \<rightharpoonup> uuid) \<Rightarrow> rec_db \<Rightarrow> uuid \<Rightarrow> uuid \<Rightarrow> state option \<Rightarrow> int option \<Rightarrow> string option
    \<Rightarrow> (queue_error, actions_page) result" where
  "listActionsForOrg lib orgs db org requestedAccount st requested token =
     (case orgs org of
        None \<Rightarrow> Inl QueueNoRows
      | Some account \<Rightarrow>
          if requestedAccount \<noteq> account then Inl ErrAccountNotOwned
          else listActionsPage lib db account st requested token)"

text \<open>
  A client that follows the cursors.  The bound on the number of pages is the caller's; \<open>None\<close> is a
  traversal that the bound cut off.
\<close>

fun readAll ::
  "codec_lib \<Rightarrow> rec_db \<Rightarrow> uuid \<Rightarrow> state option \<Rightarrow> int option \<Rightarrow> nat \<Rightarrow> string option
    \<Rightarrow> (queue_error, card_row list) result option" where
  "readAll lib db account st requested 0 token = None"
| "readAll lib db account st requested (Suc n) token =
     (case listActionsPage lib db account st requested token of
        Inl e \<Rightarrow> Some (Inl e)
      | Inr p \<Rightarrow>
          if \<not> apHasMore p then Some (Inr (apItems p))
          else
            (case readAll lib db account st requested n (apNextCursor p) of
               None \<Rightarrow> None
             | Some (Inl e) \<Rightarrow> Some (Inl e)
             | Some (Inr rest) \<Rightarrow> Some (Inr (apItems p @ rest))))"

section \<open>The order of the queue\<close>

text \<open>The documented round trips of the libraries, on the payloads the codec builds.\<close>

definition codecOk :: "codec_lib \<Rightarrow> bool" where
  "codecOk lib \<longleftrightarrow>
     (\<forall>u. klParseUUID lib (klUUIDText lib u) = Some u) \<and>
     (\<forall>a t i. klUnwire lib (klWire lib
          \<lparr>kpV = keysetVersion, kpA = klUUIDText lib a, kpT = t, kpI = klUUIDText lib i\<rparr>)
        = Some \<lparr>kpV = keysetVersion, kpA = klUUIDText lib a, kpT = t, kpI = klUUIDText lib i\<rparr>)"

lemma decode_encode:
  "codecOk lib \<Longrightarrow> inInt64 t \<Longrightarrow>
   decodeCursor lib (encodeCursor lib a t i) = Inr \<lparr>kcAccount = a, kcCreatedAt = t, kcID = i\<rparr>"
  by (simp add: decodeCursor_def encodeCursor_def codecOk_def sint_of_int64)

lemma newestFirst_facts:
  assumes "distinct (map rowKey cs)"
  shows "sorted_wrt (\<lambda>c d. rowKey d < rowKey c) (newestFirst cs)" "set (newestFirst cs) = set cs"
    "distinct (newestFirst cs)"
proof -
  have d: "distinct (map rowKey (sort_key rowKey cs))"
    using assms by (metis distinct_map distinct_sort set_sort)
  have "sorted_wrt (<) (map rowKey (sort_key rowKey cs))"
    using d by (simp add: strict_sorted_iff)
  then show "sorted_wrt (\<lambda>c d. rowKey d < rowKey c) (newestFirst cs)"
    by (simp add: newestFirst_def sorted_wrt_rev sorted_wrt_map)
  show "set (newestFirst cs) = set cs" "distinct (newestFirst cs)"
    using assms by (simp_all add: newestFirst_def distinct_map)
qed

lemma newestFirst_filter: "newestFirst (filter P cs) = filter P (newestFirst cs)"
  by (simp add: newestFirst_def filter_sort [symmetric] rev_filter)

text \<open>After a row of a strictly descending list comes what is smaller.\<close>

lemma after_row:
  assumes "sorted_wrt (\<lambda>c d. rowKey d < rowKey c) (xs @ c # ys)"
  shows "filter (\<lambda>d. rowKey d < rowKey c) (xs @ c # ys) = ys"
proof -
  have "filter (\<lambda>d. rowKey d < rowKey c) xs = []"
    using assms by (auto simp: sorted_wrt_append filter_empty_conv dest: less_asym)
  moreover have "filter (\<lambda>d. rowKey d < rowKey c) ys = ys"
    using assms by (auto simp: sorted_wrt_append filter_id_conv)
  ultimately show ?thesis by simp
qed

lemma distinct_rowKeys: "distinct (map crID cs) \<Longrightarrow> distinct (map rowKey cs)"
proof (induction cs)
  case (Cons c cs)
  then show ?case by (auto simp: rowKey_def dest: unsigned_word_eqI)
qed simp

section \<open>Traversal\<close>

definition fullQueue :: "rec_db \<Rightarrow> uuid \<Rightarrow> state option \<Rightarrow> card_row list" where
  "fullQueue db account st = newestFirst (actionRows db account st)"

definition storedTimes :: "rec_db \<Rightarrow> bool" where
  "storedTimes db \<longleftrightarrow> (\<forall>c\<in>set (cards db). inInt64 (crCreatedAt c))"

lemma resolved_limit: "resolveActionsLimit requested = Inr l \<Longrightarrow> 0 < l \<and> l \<le> 500"
  by (auto simp: resolveActionsLimit_def defaultActionsLimit_def maxActionsLimit_def split: option.splits if_splits)

lemma fullQueue_facts:
  assumes "rowsOk db"
  shows "sorted_wrt (\<lambda>c d. rowKey d < rowKey c) (fullQueue db account st)"
    "set (fullQueue db account st) = set (actionRows db account st)" "distinct (fullQueue db account st)"
proof -
  have "distinct (map rowKey (actionRows db account st))"
    using distinct_cards [OF assms] by (intro distinct_rowKeys) (simp add: actionRows_def distinct_map_filter)
  from newestFirst_facts [OF this] show "sorted_wrt (\<lambda>c d. rowKey d < rowKey c) (fullQueue db account st)"
    "set (fullQueue db account st) = set (actionRows db account st)" "distinct (fullQueue db account st)"
    by (simp_all add: fullQueue_def)
qed

text \<open>A position of the traversal: what is already read ends in the row of the token.\<close>

definition tokenAt :: "codec_lib \<Rightarrow> uuid \<Rightarrow> card_row list \<Rightarrow> string option \<Rightarrow> bool" where
  "tokenAt lib account seen token \<longleftrightarrow>
     (if seen = [] then token = None
      else token = Some (encodeCursor lib account (crCreatedAt (last seen)) (crID (last seen))))"

lemma page_at:
  assumes "rowsOk db" and "storedTimes db" and "codecOk lib" and "resolveActionsLimit requested = Inr l"
    and "fullQueue db account st = seen @ rest" and "tokenAt lib account seen token"
  shows "\<exists>nxt. listActionsPage lib db account st requested token =
    Inr \<lparr>apItems = take (nat l) rest, apNextCursor = nxt, apHasMore = (nat l < length rest)\<rparr>
    \<and> (nat l < length rest \<longrightarrow> tokenAt lib account (seen @ take (nat l) rest) nxt)"
proof -
  note q = fullQueue_facts [OF assms(1), of account st]
  have l: "0 < l" "l \<le> 500" using resolved_limit [OF assms(4)] by simp_all
  define cursor where "cursor = (if seen = [] then None else Some (crCreatedAt (last seen), crID (last seen)))"
  have cur: "(case token of None \<Rightarrow> Inr None
      | Some t \<Rightarrow> andThen (decodeCursor lib t) (\<lambda>cur.
          if kcAccount cur \<noteq> account then Inl ErrInvalidCursor else Inr (Some (kcCreatedAt cur, kcID cur)))) = Inr cursor"
  proof (cases "seen = []")
    case False
    then have "last seen \<in> set (fullQueue db account st)" by (simp add: assms(5))
    then have "inInt64 (crCreatedAt (last seen))"
      using assms(2) q(2) by (auto simp: storedTimes_def actionRows_def)
    then show ?thesis using assms(3,6) False by (simp add: tokenAt_def decode_encode cursor_def)
  qed (use assms(6) in \<open>simp add: tokenAt_def cursor_def\<close>)
  have rest: "newestFirst (filter (\<lambda>c. case cursor of None \<Rightarrow> True | Some (t, i) \<Rightarrow> rowKey c < (t, unat i)) (actionRows db account st)) = rest"
  proof (cases "seen = []")
    case False
    then obtain xs c where seen: "seen = xs @ [c]" by (metis rev_exhaust)
    then have "cursor = Some (crCreatedAt c, crID c)" by (simp add: cursor_def)
    moreover have "filter (\<lambda>d. rowKey d < rowKey c) (xs @ c # rest) = rest"
      using q(1) assms(5) seen by (intro after_row) simp
    ultimately show ?thesis
      using assms(5) seen by (simp add: newestFirst_filter rowKey_def flip: fullQueue_def)
  qed (use assms(5) in \<open>simp add: cursor_def flip: fullQueue_def\<close>)
  have n: "nat (l + 1) = Suc (nat l)" using l by simp
  have rows: "listApprovalCardsPage db account st cursor (l + 1) = take (Suc (nat l)) rest"
    by (simp only: listApprovalCardsPage_def rest n)
  have more: "l < int (length (take (Suc (nat l)) rest)) \<longleftrightarrow> nat l < length rest" using l by auto
  have t: "take (nat l) (take (Suc (nat l)) rest) = take (nat l) rest" by (simp add: min_def)
  have items: "(if nat l < length rest then take (nat l) (take (Suc (nat l)) rest) else take (Suc (nat l)) rest) = take (nat l) rest"
    by (simp add: t)
  let ?nxt = "if nat l < length rest \<and> take (nat l) rest \<noteq> []
    then Some (encodeCursor lib account (crCreatedAt (last (take (nat l) rest))) (crID (last (take (nat l) rest)))) else None"
  have "listActionsPage lib db account st requested token =
    Inr \<lparr>apItems = take (nat l) rest, apNextCursor = ?nxt, apHasMore = (nat l < length rest)\<rparr>"
    by (simp only: listActionsPage_def assms(4) andThen_simps cur rows Let_def more items)
  moreover have "nat l < length rest \<longrightarrow> tokenAt lib account (seen @ take (nat l) rest) ?nxt"
    using l by (auto simp: tokenAt_def)
  ultimately show ?thesis by blast
qed

lemma readAll_from:
  assumes "rowsOk db" and "storedTimes db" and "codecOk lib" and "resolveActionsLimit requested = Inr l"
    and "fullQueue db account st = seen @ rest" and "tokenAt lib account seen token" and "length rest < n"
  shows "readAll lib db account st requested n token = Some (Inr rest)"
  using assms(5-7)
proof (induction n arbitrary: seen rest token)
  case (Suc n)
  obtain nxt where p: "listActionsPage lib db account st requested token =
      Inr \<lparr>apItems = take (nat l) rest, apNextCursor = nxt, apHasMore = (nat l < length rest)\<rparr>"
    and t: "nat l < length rest \<longrightarrow> tokenAt lib account (seen @ take (nat l) rest) nxt"
    using page_at [OF assms(1-4) Suc.prems(1,2)] by blast
  show ?case
  proof (cases "nat l < length rest")
    case True
    have "0 < l" using resolved_limit [OF assms(4)] by simp
    then have "length (drop (nat l) rest) < n" using Suc.prems(3) True by simp
    then have "readAll lib db account st requested n nxt = Some (Inr (drop (nat l) rest))"
      using t True Suc.prems(1) by (intro Suc.IH [of "seen @ take (nat l) rest"]) simp_all
    then show ?thesis using p True by simp
  qed (use p in simp)
qed simp

text \<open>
  C34. Reading the actions queue page by page misses nothing and repeats nothing: on tables that do not
  change in between, a client that follows the cursors with any accepted page limit gets, after at most
  one page per row, exactly the queue: each card version of the account that heads its lineage or
  carries an execution, in the state asked for, once, newest first with ties broken by id.  A limit
  above the maximum and a cursor of another account are refused.
\<close>

theorem queue_read_completely:
  assumes "tablesOk db" and "storedTimes db" and "codecOk lib" and "resolveActionsLimit requested = Inr l"
  shows "\<exists>q. readAll lib db account st requested (Suc (length q)) None = Some (Inr q)
    \<and> sorted_wrt (\<lambda>c d. rowKey d < rowKey c) q \<and> distinct q
    \<and> (\<forall>c. c \<in> set q \<longleftrightarrow> c \<in> set (cards db) \<and> crAccountID c = account
          \<and> (currentCard db (crLineageID c) = Some c \<or> carriesExecution db c) \<and> (st = None \<or> st = Some (crState c)))
    \<and> (\<forall>k. 500 < k \<longrightarrow> listActionsPage lib db account st (Some k) None = Inl ErrLimitAboveMax)
    \<and> (\<forall>b t i. b \<noteq> account \<and> inInt64 t \<longrightarrow>
          listActionsPage lib db account st requested (Some (encodeCursor lib b t i)) = Inl ErrInvalidCursor)"
proof -
  let ?q = "fullQueue db account st"
  have ok: "rowsOk db" "uniqueOk db" using assms(1) by (simp_all add: tablesOk_def)
  note q = fullQueue_facts [OF ok(1), of account st]
  have read: "readAll lib db account st requested (Suc (length ?q)) None = Some (Inr ?q)"
    by (rule readAll_from [OF ok(1) assms(2-4), where seen = "[]"]) (simp_all add: tokenAt_def)
  have head: "headsLineage db c \<longleftrightarrow> currentCard db (crLineageID c) = Some c" if c: "c \<in> set (cards db)" for c
  proof
    assume h: "headsLineage db c"
    have g: "getCard db (crID c) = Some c" using c ok(1) by (simp add: rowsOk_set_cards)
    then obtain h' where h': "currentCard db (crLineageID c) = Some h'"
      using currentCard_exists [OF ok(1)] by blast
    note f = currentCard_Some [OF ok(1) h']
    have "cardVersion h' \<le> cardVersion c"
      using h f ok(1) by (auto simp: headsLineage_def list_all_iff rowsOk_set_cards)
    moreover have "cardVersion c \<le> cardVersion h'" using f g by blast
    ultimately have "cardVersion c = cardVersion h'" by simp
    then have "crVersion c = crVersion h'" by (rule signed_word_eqI)
    moreover have "h' \<in> set (cards db)" using f ok(1) by (simp add: rowsOk_set_cards)
    ultimately have "c = h'" using ok(2) c f unfolding uniqueOk_def by metis
    then show "currentCard db (crLineageID c) = Some c" using h' by simp
  next
    assume "currentCard db (crLineageID c) = Some c"
    from currentCard_Some [OF ok(1) this] show "headsLineage db c"
      using ok(1) by (auto simp: headsLineage_def list_all_iff rowsOk_set_cards)
  qed
  have known: "getRecommendation db (crRecommendationID c) \<noteq> None" if c: "c \<in> set (cards db)" for c
  proof -
    have "getCard db (crID c) = Some c" using c ok(1) by (simp add: rowsOk_set_cards)
    then have "rowOk (rdRecommendations db) (crID c) c" using ok(1) unfolding rowsOk_iff by blast
    then show ?thesis by (auto simp: rowOk_def getRecommendation_def find_None_iff)
  qed
  have mem: "c \<in> set ?q \<longleftrightarrow> c \<in> set (cards db) \<and> crAccountID c = account
          \<and> (currentCard db (crLineageID c) = Some c \<or> carriesExecution db c) \<and> (st = None \<or> st = Some (crState c))" for c
    using head [of c] known [of c] q(2) by (cases st) (auto simp: actionRows_def)
  have over: "500 < k \<longrightarrow> listActionsPage lib db account st (Some k) None = Inl ErrLimitAboveMax" for k
    by (simp add: listActionsPage_def resolveActionsLimit_def maxActionsLimit_def)
  have foreign: "b \<noteq> account \<and> inInt64 t \<longrightarrow>
      listActionsPage lib db account st requested (Some (encodeCursor lib b t i)) = Inl ErrInvalidCursor" for b t i
    using assms(3,4) by (simp add: listActionsPage_def decode_encode)
  show ?thesis
    by (intro exI [of _ ?q] conjI allI read q(1,3) mem over foreign)
qed

section \<open>Evaluation on concrete tables\<close>

definition demoCodec :: codec_lib where
  "demoCodec =
     \<lparr>klWire = (\<lambda>p. formatInt (kpV p) @ CHR '':'' # kpA p @ CHR '':'' # formatInt (sint (kpT p)) @ CHR '':'' # kpI p),
      klUnwire = (\<lambda>s. case splitOn (CHR '':'') s of
         [v, a, t, i] \<Rightarrow>
           (case parseInt 64 v of None \<Rightarrow> None | Some v' \<Rightarrow>
           (case parseInt 64 t of None \<Rightarrow> None | Some t' \<Rightarrow>
            Some \<lparr>kpV = v', kpA = a, kpT = word_of_int t', kpI = i\<rparr>))
       | _ \<Rightarrow> None),
      klUUIDText = (\<lambda>u. formatInt (uint u)),
      klParseUUID = (\<lambda>s. map_option word_of_int (parseInt 200 s))\<rparr>"

lemma demoCodec_ok: "codecOk demoCodec"
proof -
  have c: "CHR '':'' \<notin> set (formatInt i)" for i by (rule formatInt_no_colon)
  have s: "- (2 ^ 63) \<le> sint (t :: int64) \<and> sint t < 2 ^ 63" for t
    using sint_ge [of t] sint_lt [of t] by simp
  have "uint (u :: uuid) < 2 ^ 199" for u using uint_bounded [of u] by simp
  moreover have "0 \<le> uint (u :: uuid)" for u by simp
  ultimately have "parseInt 200 (formatInt (uint (u :: uuid))) = Some (uint u)" for u
    by (intro parseInt_formatInt) (simp_all add: order_trans [of _ 0])
  moreover have "parseInt 64 (formatInt (sint (t :: int64))) = Some (sint t)" for t
    using s [of t] by (intro parseInt_formatInt) simp_all
  moreover have "parseInt 64 (formatInt 1) = Some 1" by (intro parseInt_formatInt) simp_all
  ultimately show ?thesis
    by (simp add: codecOk_def demoCodec_def keysetVersion_def splitOn_append splitOn_plain c)
qed

theorem queue_read_completely_witness:
  "\<exists>q. readAll demoCodec demoRec 1 None (Some 3) (Suc (length q)) None = Some (Inr q) \<and>
     demoCard StateAwaitingConfirmation \<in> set q"
proof -
  have t: "storedTimes demoRec"
    by (simp add: storedTimes_def demoCard_def cardParams_def inInt64_def)
  have l: "resolveActionsLimit (Some 3) = Inr 3"
    by (simp add: resolveActionsLimit_def maxActionsLimit_def)
  from queue_read_completely [OF demo_tablesOk t demoCodec_ok l, of 1 None] show ?thesis
    by (elim exE conjE) (intro exI conjI, assumption, simp)
qed

end
