(* ===== verification/EventDetect.thy ===== *)
theory EventDetect
  imports Observation Cost "HOL-Library.AList" "HOL-Library.List_Lexorder" "HOL-Library.Char_ord"
    "HOL-Library.Multiset"
begin

text \<open>
  The market events (services/core/internal/event): their vocabulary (event.go), the five detectors
  (detectors.go) and the ranking of the Today feed (ranking.go).
\<close>

section \<open>Vocabulary (event.go)\<close>

datatype event_type =
  TypeWinningState | TypeCompetitorPrice | TypeSellerCount | TypeSuppressionBoundary
| TypeContributionFloor | TypeOther utext

definition eventTypeValid :: "event_type \<Rightarrow> bool" where
  "eventTypeValid t \<longleftrightarrow> (case t of TypeOther _ \<Rightarrow> False | _ \<Rightarrow> True)"

fun eventTypeText :: "event_type \<Rightarrow> utext" where
  "eventTypeText TypeWinningState = runes ''winning_state''"
| "eventTypeText TypeCompetitorPrice = runes ''competitor_price''"
| "eventTypeText TypeSellerCount = runes ''seller_count''"
| "eventTypeText TypeSuppressionBoundary = runes ''suppression_boundary''"
| "eventTypeText TypeContributionFloor = runes ''contribution_floor''"
| "eventTypeText (TypeOther t) = t"

datatype severity = SeverityInfo | SeverityWarning | SeverityCritical | SeverityOther utext

definition severityRank :: "severity \<Rightarrow> int" where
  "severityRank s =
     (case s of SeverityCritical \<Rightarrow> 3 | SeverityWarning \<Rightarrow> 2 | SeverityInfo \<Rightarrow> 1 | SeverityOther _ \<Rightarrow> -1)"

datatype lifecycle = LifecycleOpen | LifecycleUpdated | LifecycleResolved | LifecycleExpired

text \<open>The zero value is unknown.\<close>

record exposure =
  xpKnown :: bool
  xpAmount :: money

definition knownExposure :: "money \<Rightarrow> exposure" where
  "knownExposure m = \<lparr>xpKnown = True, xpAmount = m\<rparr>"

definition unknownExposure :: exposure where
  "unknownExposure = \<lparr>xpKnown = False, xpAmount = zeroMoney\<rparr>"

definition exposureAmount :: "exposure \<Rightarrow> money \<times> bool" where
  "exposureAmount e = (if \<not> xpKnown e then (zeroMoney, False) else (xpAmount e, True))"

text \<open>The detail is a Go map, here an association list with one entry per key.\<close>

record event_evidence =
  veObservationID :: uuid
  veQuality :: quality
  veRef :: utext
  veDetail :: "(string \<times> utext) list"

record consumption =
  cnInputKey :: utext
  cnAccount :: uuid
  cnTarget :: uuid
  cnNativeSellerID :: utext
  cnOfferIdentity :: utext
  cnPrevObsID :: uuid
  cnCurrObsID :: uuid
  cnCurrCapturedAt :: instant
  cnCurrValue :: utext

record event_candidate =
  ecType :: event_type
  ecVariant :: uuid
  ecTarget :: uuid
  ecDedupKey :: utext
  ecSeverity :: severity
  ecExposure :: exposure
  ecConfidence :: basis_points
  ecUrgency :: basis_points
  ecEvidence :: event_evidence
  ecDetectedAt :: instant
  ecExpiresAt :: instant
  ecThresholdID :: uuid
  ecThresholdVersion :: int
  ecConsumption :: "consumption option"

section \<open>Detectors (detectors.go)\<close>

record event_threshold =
  thID :: uuid
  thVersion :: int
  thMoveBp :: basis_points
  thSellerCountDelta :: int64
  thChallengeMarginBp :: basis_points

definition zeroThreshold :: event_threshold where
  "zeroThreshold =
     \<lparr>thID = 0, thVersion = 0, thMoveBp = newBasisPoints 0, thSellerCountDelta = 0,
      thChallengeMarginBp = newBasisPoints 0\<rparr>"

definition confidenceOf :: "quality \<Rightarrow> basis_points" where
  "confidenceOf q =
     newBasisPoints
       (case q of
          Verified \<Rightarrow> 10000 | Supported \<Rightarrow> 8000 | Stale \<Rightarrow> 3000 | Unverified \<Rightarrow> 4000
        | Conflicted \<Rightarrow> 2000 | Unavailable \<Rightarrow> 1000 | QualityOther _ \<Rightarrow> 0)"

definition urgencyOf :: "severity \<Rightarrow> basis_points" where
  "urgencyOf s =
     newBasisPoints
       (case s of SeverityCritical \<Rightarrow> 10000 | SeverityWarning \<Rightarrow> 6000 | SeverityInfo \<Rightarrow> 3000
        | SeverityOther _ \<Rightarrow> 0)"

text \<open>The text form of a UUID is an argument.\<close>

definition eventDedupKey :: "(uuid \<Rightarrow> string) \<Rightarrow> event_type \<Rightarrow> uuid \<Rightarrow> utext \<Rightarrow> utext" where
  "eventDedupKey us t variant scope =
     (let key = eventTypeText t @ runes '':'' @ runes (us variant) in
      if scope \<noteq> [] then key @ runes '':'' @ scope else key)"

definition candidate ::
  "(uuid \<Rightarrow> string) \<Rightarrow> event_type \<Rightarrow> uuid \<Rightarrow> uuid \<Rightarrow> utext \<Rightarrow> severity \<Rightarrow> exposure \<Rightarrow> event_evidence
    \<Rightarrow> instant \<Rightarrow> duration \<Rightarrow> event_threshold \<Rightarrow> event_candidate" where
  "candidate us t variant target scope sev xp ev now ttl thr =
     \<lparr>ecType = t, ecVariant = variant, ecTarget = target, ecDedupKey = eventDedupKey us t variant scope,
      ecSeverity = sev, ecExposure = xp, ecConfidence = confidenceOf (veQuality ev),
      ecUrgency = urgencyOf sev, ecEvidence = ev, ecDetectedAt = now, ecExpiresAt = now + ttl,
      ecThresholdID = thID thr, ecThresholdVersion = thVersion thr, ecConsumption = None\<rparr>"

record winning_input =
  wiVariant :: uuid
  wiTarget :: uuid
  wiWasWinning :: bool
  wiIsWinning :: bool
  wiChallenged :: bool
  wiExposure :: exposure
  wiEvidence :: event_evidence
  wiNow :: instant
  wiTTL :: duration
  wiThreshold :: event_threshold

definition detectWinningState :: "(uuid \<Rightarrow> string) \<Rightarrow> winning_input \<Rightarrow> event_candidate option" where
  "detectWinningState us i =
     (if wiWasWinning i \<and> \<not> wiIsWinning i
      then Some (candidate us TypeWinningState (wiVariant i) (wiTarget i) [] SeverityCritical
             (wiExposure i) (wiEvidence i) (wiNow i) (wiTTL i) (wiThreshold i))
      else if wiIsWinning i \<and> wiChallenged i
      then Some (candidate us TypeWinningState (wiVariant i) (wiTarget i) [] SeverityWarning
             (wiExposure i) (wiEvidence i) (wiNow i) (wiTTL i) (wiThreshold i))
      else None)"

record price_input =
  piVariant :: uuid
  piTarget :: uuid
  piOfferIdentity :: utext
  piPrevValue :: utext
  piCurrValue :: utext
  piUnit :: utext
  piExposure :: exposure
  piEvidence :: event_evidence
  piNow :: instant
  piTTL :: duration
  piThreshold :: event_threshold
  piConsumption :: "consumption option"

text \<open>\<open>strconv.ParseInt\<close> of a token: a rune beyond ASCII is not a digit.\<close>

definition parseToken :: "utext \<Rightarrow> int option" where
  "parseToken s = (if list_all (\<lambda>r. r < 128) s then parseInt 64 (asciiOf s) else None)"

definition movementBasisPoints :: "utext \<Rightarrow> utext \<Rightarrow> utext \<Rightarrow> int option" where
  "movementBasisPoints prev now_tok unit =
     (if trimSpace unit = [] then None
      else
        (case parseToken (trimSpace prev) of
           None \<Rightarrow> None
         | Some p \<Rightarrow>
             if p \<le> 0 then None
             else
               (case parseToken (trimSpace now_tok) of
                  None \<Rightarrow> None
                | Some c \<Rightarrow>
                    if c < 0 then None
                    else Some ((\<bar>c - p\<bar> * sint basisPointScale) div p))))"

definition detectCompetitorPrice :: "(uuid \<Rightarrow> string) \<Rightarrow> price_input \<Rightarrow> event_candidate option" where
  "detectCompetitorPrice us i =
     (case movementBasisPoints (piPrevValue i) (piCurrValue i) (piUnit i) of
        None \<Rightarrow> None
      | Some moveBp \<Rightarrow>
          (let threshold = sint (bpValue (thMoveBp (piThreshold i))) in
           if threshold \<le> 0 then None
           else if moveBp < threshold then None
           else
             (let sev = (if 2 * threshold \<le> moveBp then SeverityCritical else SeverityWarning);
                  ev = (piEvidence i)\<lparr>veDetail :=
                         AList.update ''move_bp'' (runes (formatInt moveBp))
                        (AList.update ''unit'' (piUnit i)
                        (AList.update ''curr_value'' (piCurrValue i)
                        (AList.update ''prev_value'' (piPrevValue i) (veDetail (piEvidence i)))))\<rparr> in
              Some ((candidate us TypeCompetitorPrice (piVariant i) (piTarget i) (piOfferIdentity i) sev
                       (piExposure i) ev (piNow i) (piTTL i) (piThreshold i))
                     \<lparr>ecConsumption := piConsumption i\<rparr>))))"

record seller_input =
  siVariant :: uuid
  siTarget :: uuid
  siPrevCount :: int64
  siCurrCount :: int64
  siExposure :: exposure
  siEvidence :: event_evidence
  siNow :: instant
  siTTL :: duration
  siThreshold :: event_threshold

definition detectSellerCount :: "(uuid \<Rightarrow> string) \<Rightarrow> seller_input \<Rightarrow> event_candidate option" where
  "detectSellerCount us i =
     (let threshold = thSellerCountDelta (siThreshold i) in
      if threshold \<le>s 0 then None
      else
        (let d = siCurrCount i - siPrevCount i; delta = (if d <s 0 then - d else d) in
         if delta <s threshold then None
         else
           (let sev = (if 2 * threshold \<le>s delta then SeverityCritical else SeverityWarning);
                ev = (siEvidence i)\<lparr>veDetail :=
                       AList.update ''curr_count'' (runes (formatInt (sint (siCurrCount i))))
                      (AList.update ''prev_count'' (runes (formatInt (sint (siPrevCount i))))
                        (veDetail (siEvidence i)))\<rparr> in
            Some (candidate us TypeSellerCount (siVariant i) (siTarget i) [] sev
                    (siExposure i) ev (siNow i) (siTTL i) (siThreshold i)))))"

record suppression_input =
  upVariant :: uuid
  upTarget :: uuid
  upWasSuppressed :: bool
  upIsSuppressed :: bool
  upBoundaryChanged :: bool
  upExposure :: exposure
  upEvidence :: event_evidence
  upNow :: instant
  upTTL :: duration
  upThreshold :: event_threshold

definition detectSuppressionBoundary :: "(uuid \<Rightarrow> string) \<Rightarrow> suppression_input \<Rightarrow> event_candidate option" where
  "detectSuppressionBoundary us i =
     (if \<not> upWasSuppressed i \<and> upIsSuppressed i
      then Some (candidate us TypeSuppressionBoundary (upVariant i) (upTarget i) [] SeverityCritical
             (upExposure i) (upEvidence i) (upNow i) (upTTL i) (upThreshold i))
      else if upBoundaryChanged i
      then Some (candidate us TypeSuppressionBoundary (upVariant i) (upTarget i) [] SeverityWarning
             (upExposure i) (upEvidence i) (upNow i) (upTTL i) (upThreshold i))
      else None)"

record floor_input =
  fiVariant :: uuid
  fiTarget :: uuid
  fiReadiness :: readiness_state
  fiHasContribution :: bool
  fiContribution :: money
  fiFloor :: money
  fiEvidence :: event_evidence
  fiNow :: instant
  fiTTL :: duration

definition detectContributionFloor ::
  "(uuid \<Rightarrow> string) \<Rightarrow> floor_input \<Rightarrow> (money_error, event_candidate option) result" where
  "detectContributionFloor us i =
     (if fiReadiness i \<noteq> StateComplete \<or> \<not> fiHasContribution i then Inr None
      else
        andThen (compareMoney (fiContribution i) (fiFloor i)) (\<lambda>belowFloor.
        if 0 \<le> belowFloor then Inr None
        else
          andThen (subMoney (fiFloor i) (fiContribution i)) (\<lambda>shortfall.
          andThen (zeroOf (currency (fiContribution i)) (exponent (fiContribution i))) (\<lambda>zero.
          andThen (compareMoney (fiContribution i) zero) (\<lambda>crossesZero.
          (let sev = (if crossesZero \<le> 0 then SeverityCritical else SeverityWarning) in
           Inr (Some (candidate us TypeContributionFloor (fiVariant i) (fiTarget i) [] sev
                        (knownExposure shortfall) (fiEvidence i) (fiNow i) (fiTTL i) zeroThreshold))))))))"

section \<open>Stored events\<close>

text \<open>The columns of market_events that the code reads or writes.\<close>

record market_event =
  meID :: uuid
  meAccountID :: uuid
  meVariantID :: uuid
  meTargetID :: "uuid option"
  meType :: event_type
  meSeverity :: severity
  meState :: lifecycle
  meDedupKey :: utext
  meThresholdID :: "uuid option"
  meThresholdVersion :: "int option"
  meExposureKnown :: bool
  meExposureMantissa :: "int64 option"
  meExposureCurrency :: string
  meExposureExponent :: int
  meConfidenceBp :: int
  meUrgencyBp :: int
  meEvidenceObservationID :: "uuid option"
  meEvidenceQuality :: quality
  meEvidenceRef :: utext
  meEvidenceDetail :: "(string \<times> utext) list"
  meFirstDetectedAt :: instant
  meLastEvidenceAt :: instant
  meExpiresAt :: instant
  meResolvedAt :: "instant option"
  meUpdateCount :: int

section \<open>Ranking (ranking.go)\<close>

record rank_factors =
  rfExposureKnown :: bool
  rfExposureMantissa :: int64
  rfExposureCurrency :: string
  rfExposureExponent :: int
  rfConfidenceBp :: int
  rfUrgencyBp :: int

datatype exposure_band = BandComparable | BandQuarantined | BandUnknown

fun bandOrder :: "exposure_band \<Rightarrow> nat" where
  "bandOrder BandComparable = 0"
| "bandOrder BandQuarantined = 1"
| "bandOrder BandUnknown = 2"

record ranked =
  rkEvent :: market_event
  rkRank :: nat
  rkFactors :: rank_factors
  rkScore :: "int option"

record rankable = ranked +
  rkBand :: exposure_band

definition factorsOf :: "market_event \<Rightarrow> rank_factors" where
  "factorsOf e =
     \<lparr>rfExposureKnown = meExposureKnown e,
      rfExposureMantissa =
        (if meExposureKnown e then (case meExposureMantissa e of None \<Rightarrow> 0 | Some m \<Rightarrow> m) else 0),
      rfExposureCurrency = meExposureCurrency e, rfExposureExponent = meExposureExponent e,
      rfConfidenceBp = meConfidenceBp e, rfUrgencyBp = meUrgencyBp e\<rparr>"

definition comparableScore :: "rank_factors \<Rightarrow> int \<Rightarrow> int" where
  "comparableScore f minExp =
     (let mant = (if rfExposureMantissa f <s 0 then 0 else sint (rfExposureMantissa f));
          shift = rfExposureExponent f - minExp;
          scaled = (if 0 < shift then mant * 10 ^ nat shift else mant)
      in scaled * rfConfidenceBp f * rfUrgencyBp f)"

definition knownIn :: "string \<Rightarrow> market_event \<Rightarrow> bool" where
  "knownIn cur e \<longleftrightarrow> meExposureKnown e \<and> meExposureCurrency e = cur"

definition countOf :: "market_event list \<Rightarrow> string \<Rightarrow> nat" where
  "countOf events cur = length (filter (knownIn cur) events)"

text \<open>
  The loop over the map of counts.  Go iterates a map in any order; here it is the order in which the
  currencies first occur.
\<close>

fun bestCurrency :: "(string \<Rightarrow> nat) \<Rightarrow> string \<Rightarrow> int \<Rightarrow> string list \<Rightarrow> string" where
  "bestCurrency counts best bestCount [] = best"
| "bestCurrency counts best bestCount (c # cs) =
     (if bestCount < int (counts c) \<or> int (counts c) = bestCount \<and> c < best
      then bestCurrency counts c (int (counts c)) cs else bestCurrency counts best bestCount cs)"

definition knownCurrencies :: "market_event list \<Rightarrow> string list" where
  "knownCurrencies events = remdups (map meExposureCurrency (filter meExposureKnown events))"

definition canonicalCurrency :: "market_event list \<Rightarrow> string option" where
  "canonicalCurrency events =
     (if knownCurrencies events = [] then None
      else Some (bestCurrency (countOf events) [] (-1) (knownCurrencies events)))"

fun minExponentFrom :: "int option \<Rightarrow> int list \<Rightarrow> int" where
  "minExponentFrom acc [] = (case acc of None \<Rightarrow> 0 | Some m \<Rightarrow> m)"
| "minExponentFrom acc (x # xs) =
     minExponentFrom (case acc of None \<Rightarrow> Some x | Some m \<Rightarrow> if x < m then Some x else Some m) xs"

definition minCanonicalExponent :: "market_event list \<Rightarrow> string \<Rightarrow> int" where
  "minCanonicalExponent events canonical =
     minExponentFrom None (map meExposureExponent (filter (knownIn canonical) events))"

definition unknownScore :: "rank_factors \<Rightarrow> int" where
  "unknownScore f = rfConfidenceBp f * rfUrgencyBp f"

definition lessByTieBreak :: "(uuid \<Rightarrow> string) \<Rightarrow> market_event \<Rightarrow> market_event \<Rightarrow> bool" where
  "lessByTieBreak us a b =
     (let ar = severityRank (meSeverity a); br = severityRank (meSeverity b) in
      if ar \<noteq> br then br < ar
      else if meFirstDetectedAt a \<noteq> meFirstDetectedAt b then meFirstDetectedAt a < meFirstDetectedAt b
      else us (meID a) < us (meID b))"

definition scoreOf :: "rankable \<Rightarrow> int" where
  "scoreOf r = (case rkScore r of None \<Rightarrow> 0 | Some s \<Rightarrow> s)"

text \<open>The comparison of \<open>sort.SliceStable\<close>.\<close>

definition rankLess :: "(uuid \<Rightarrow> string) \<Rightarrow> rankable \<Rightarrow> rankable \<Rightarrow> bool" where
  "rankLess us a b =
     (if rkBand a \<noteq> rkBand b then bandOrder (rkBand a) < bandOrder (rkBand b)
      else if rkBand a = BandComparable \<and> scoreOf a \<noteq> scoreOf b then scoreOf b < scoreOf a
      else if rkBand a = BandUnknown \<and> unknownScore (rkFactors a) \<noteq> unknownScore (rkFactors b)
      then unknownScore (rkFactors b) < unknownScore (rkFactors a)
      else lessByTieBreak us (rkEvent a) (rkEvent b))"

text \<open>A stable sort by a comparison: an element goes before the first one it is less than.\<close>

fun insertStable :: "('a \<Rightarrow> 'a \<Rightarrow> bool) \<Rightarrow> 'a \<Rightarrow> 'a list \<Rightarrow> 'a list" where
  "insertStable before x [] = [x]"
| "insertStable before x (y # ys) = (if before x y then x # y # ys else y # insertStable before x ys)"

definition sliceStable :: "('a \<Rightarrow> 'a \<Rightarrow> bool) \<Rightarrow> 'a list \<Rightarrow> 'a list" where
  "sliceStable before xs = foldl (\<lambda>acc x. insertStable before x acc) [] xs"

definition rankItem :: "string option \<Rightarrow> int \<Rightarrow> market_event \<Rightarrow> rankable" where
  "rankItem canonical minExp e =
     (let f = factorsOf e in
      if \<not> rfExposureKnown f
      then \<lparr>rkEvent = e, rkRank = 0, rkFactors = f, rkScore = None, rkBand = BandUnknown\<rparr>
      else if canonical = Some (rfExposureCurrency f)
      then \<lparr>rkEvent = e, rkRank = 0, rkFactors = f, rkScore = Some (comparableScore f minExp),
            rkBand = BandComparable\<rparr>
      else \<lparr>rkEvent = e, rkRank = 0, rkFactors = f, rkScore = None, rkBand = BandQuarantined\<rparr>)"

definition rankItems :: "(uuid \<Rightarrow> string) \<Rightarrow> market_event list \<Rightarrow> rankable list" where
  "rankItems us events =
     (let canonical = canonicalCurrency events;
          minExp = minCanonicalExponent events (case canonical of None \<Rightarrow> [] | Some c \<Rightarrow> c) in
      sliceStable (rankLess us) (map (rankItem canonical minExp) events))"

definition rankEvents :: "(uuid \<Rightarrow> string) \<Rightarrow> market_event list \<Rightarrow> ranked list" where
  "rankEvents us events =
     map (\<lambda>(i, r). \<lparr>rkEvent = rkEvent r, rkRank = i + 1, rkFactors = rkFactors r, rkScore = rkScore r\<rparr>)
       (enumerate 0 (rankItems us events))"


text \<open>A text of ids for the concrete worlds: their number.\<close>

definition shortText :: "uuid \<Rightarrow> string" where
  "shortText u = formatInt (uint u)"

end
