(* ===== verification/EventStore.thy ===== *)
theory EventStore
  imports EventDetect ObservationReads
begin

text \<open>
  The event store (services/core/internal/event/service.go) over its tables: the market events with
  their row checks and triggers, the materiality thresholds, the ledger of consumed transitions, the
  cursors of the observation streams, the notification outbox and the relevance feedback.
\<close>

section \<open>Tables (db/event.sql.go, db/models.go)\<close>

record threshold_row =
  trID :: uuid
  trAccountID :: uuid
  trCategory :: utext
  trEventType :: event_type
  trVersion :: int
  trMoveBp :: "int option"
  trSellerCountDelta :: "int option"
  trChallengeMarginBp :: "int option"
  trEffectiveFrom :: instant
  trCreatedBy :: "uuid option"

record input_transition =
  itInputKey :: utext
  itAccountID :: uuid
  itTargetID :: uuid
  itNativeSellerID :: utext
  itOfferIdentity :: utext
  itPrevObservationID :: uuid
  itCurrObservationID :: uuid

record consumer_cursor =
  ccAccountID :: uuid
  ccLastObservationID :: uuid
  ccLastCapturedAt :: instant
  ccLastPriceRawValue :: utext

datatype relevance = Relevant | NotRelevant | Muted | RelevanceOther utext

record relevance_feedback =
  rfEventID :: uuid
  rfUserID :: "uuid option"
  rfRelevance :: relevance
  rfNote :: utext

record event_db =
  edEvents :: "market_event list"
  edThresholds :: "threshold_row list"
  edLedger :: "input_transition list"
  edCursors :: "uuid \<times> utext \<times> utext \<rightharpoonup> consumer_cursor"
  edNotices :: "(uuid \<times> uuid \<times> uuid) list"
  edFeedback :: "relevance_feedback list"

record account_row =
  maID :: uuid
  maOrganizationID :: uuid
  maOwnedSellerID :: "utext option"

text \<open>
  What the service reads and does not write: the observation store, the accounts in the order they
  were created, the targets with their variants, the variants' accounts; whether a notifier is wired
  and accepts the intent for an event; the text of a UUID, the ids the database generates for the
  next row, and the clock.
\<close>

record event_env =
  evObs :: observation_db
  evAccounts :: "account_row list"
  evTargets :: "observation_target list"
  evTargetVariant :: "uuid \<Rightarrow> uuid"
  evVariantAccount :: "uuid \<rightharpoonup> uuid"
  evNotifier :: "(market_event \<Rightarrow> bool) option"
  evUUIDText :: "uuid \<Rightarrow> string"
  evNewID :: "event_db \<Rightarrow> uuid"
  evNow :: instant

datatype event_error =
  ErrInvalidCandidate | ErrEventAccountNotFound | ErrEventNotFound | ErrEvidenceRequiresObservation
| ErrEvidenceObservationNotFound | ErrEvidenceFieldInapplicable | ErrRejected | ErrNotConverged
| ErrNotifier | ErrMissingInput | ErrUnknownTransition | ErrMoney money_error | ErrTransient

section \<open>Row checks and triggers (migrations 0011, 0023, 0028)\<close>

definition liveState :: "lifecycle \<Rightarrow> bool" where
  "liveState s \<longleftrightarrow> s = LifecycleOpen \<or> s = LifecycleUpdated"

definition meLive :: "market_event \<Rightarrow> bool" where
  "meLive e = liveState (meState e)"

definition rowChecks :: "market_event \<Rightarrow> bool" where
  "rowChecks e \<longleftrightarrow>
     eventTypeValid (meType e) \<and> (case meSeverity e of SeverityOther _ \<Rightarrow> False | _ \<Rightarrow> True) \<and>
     qualityValid (meEvidenceQuality e) \<and>
     (meExposureKnown e \<or> meExposureMantissa e = None) \<and>
     (\<not> meExposureKnown e \<or> meExposureMantissa e \<noteq> None \<and> meExposureCurrency e \<noteq> []) \<and>
     0 \<le> meConfidenceBp e \<and> meConfidenceBp e \<le> 10000 \<and> 0 \<le> meUrgencyBp e \<and> meUrgencyBp e \<le> 10000"

definition thresholdByID :: "event_db \<Rightarrow> uuid \<Rightarrow> threshold_row option" where
  "thresholdByID db i = find (\<lambda>t. trID t = i) (edThresholds db)"

definition targetByID :: "event_env \<Rightarrow> uuid \<Rightarrow> observation_target option" where
  "targetByID env i = find (\<lambda>t. otID t = i) (evTargets env)"

definition observationByID :: "event_env \<Rightarrow> uuid \<Rightarrow> observation_row option" where
  "observationByID env i = find (\<lambda>r. obID r = i) (odObservations (evObs env))"

text \<open>A reference that resolves to a row of another account is rejected.\<close>

definition sameAccount :: "uuid \<Rightarrow> uuid option \<Rightarrow> bool" where
  "sameAccount account owner \<longleftrightarrow> (case owner of None \<Rightarrow> True | Some a \<Rightarrow> a = account)"

definition accountConsistent :: "event_env \<Rightarrow> event_db \<Rightarrow> market_event \<Rightarrow> bool" where
  "accountConsistent env db e \<longleftrightarrow>
     evVariantAccount env (meVariantID e) = Some (meAccountID e) \<and>
     sameAccount (meAccountID e)
       (Option.bind (meTargetID e) (\<lambda>t. map_option otAccountID (targetByID env t))) \<and>
     sameAccount (meAccountID e)
       (Option.bind (meThresholdID e) (\<lambda>t. map_option trAccountID (thresholdByID db t))) \<and>
     sameAccount (meAccountID e)
       (Option.bind (meEvidenceObservationID e)
          (\<lambda>i. map_option (\<lambda>r. cpAccount (obCapture r)) (observationByID env i)))"

definition supersedes :: "instant \<Rightarrow> threshold_row \<Rightarrow> threshold_row \<Rightarrow> bool" where
  "supersedes at t m \<longleftrightarrow>
     trAccountID m = trAccountID t \<and> trCategory m = trCategory t \<and> trEventType m = trEventType t \<and>
     trEffectiveFrom m \<le> at \<and>
     (trEffectiveFrom t < trEffectiveFrom m \<or>
      trEffectiveFrom t = trEffectiveFrom m \<and> trVersion t < trVersion m)"

definition thresholdProvenance :: "event_db \<Rightarrow> market_event option \<Rightarrow> market_event \<Rightarrow> bool" where
  "thresholdProvenance db old e \<longleftrightarrow>
     (case old of
        Some d \<Rightarrow> meThresholdID e = meThresholdID d \<and> meThresholdVersion e = meThresholdVersion d \<and>
                  meLastEvidenceAt e = meLastEvidenceAt d \<and> meType e = meType d \<and>
                  meAccountID e = meAccountID d
      | None \<Rightarrow> False) \<or>
     (if meType e = TypeContributionFloor then meThresholdID e = None \<and> meThresholdVersion e = None
      else
        (case meThresholdID e of
           None \<Rightarrow> meThresholdVersion e = None
         | Some i \<Rightarrow>
             (case thresholdByID db i of
                None \<Rightarrow> False
              | Some t \<Rightarrow>
                  meThresholdVersion e = Some (trVersion t) \<and> trAccountID t = meAccountID e \<and>
                  trEventType t = meType e \<and> trEffectiveFrom t \<le> meLastEvidenceAt e \<and>
                  \<not> list_ex (supersedes (meLastEvidenceAt e) t) (edThresholds db))))"

definition accepted :: "event_env \<Rightarrow> event_db \<Rightarrow> market_event option \<Rightarrow> market_event \<Rightarrow> bool" where
  "accepted env db old e \<longleftrightarrow>
     rowChecks e \<and> accountConsistent env db e \<and> thresholdProvenance db old e"

section \<open>Statements\<close>

definition liveByKey :: "event_db \<Rightarrow> uuid \<Rightarrow> utext \<Rightarrow> market_event option" where
  "liveByKey db account key =
     find (\<lambda>e. meAccountID e = account \<and> meDedupKey e = key \<and> meLive e) (edEvents db)"

text \<open>An update of the rows a predicate selects: every new row passes the triggers, or none is written.\<close>

definition updateWhere ::
  "event_env \<Rightarrow> event_db \<Rightarrow> (market_event \<Rightarrow> bool) \<Rightarrow> (market_event \<Rightarrow> market_event)
    \<Rightarrow> (event_error, event_db \<times> nat) result" where
  "updateWhere env db P f =
     (if list_all (\<lambda>e. P e \<longrightarrow> accepted env db (Some e) (f e)) (edEvents db)
      then Inr (db\<lparr>edEvents := map (\<lambda>e. if P e then f e else e) (edEvents db)\<rparr>,
                length (filter P (edEvents db)))
      else Inl ErrRejected)"

text \<open>The \<open>DO UPDATE SET\<close> list of RecordEvent.\<close>

definition refreshed :: "market_event \<Rightarrow> market_event \<Rightarrow> market_event" where
  "refreshed old n =
     old\<lparr>meState := LifecycleUpdated, meSeverity := meSeverity n, meThresholdID := meThresholdID n,
         meThresholdVersion := meThresholdVersion n, meExposureKnown := meExposureKnown n,
         meExposureMantissa := meExposureMantissa n, meExposureCurrency := meExposureCurrency n,
         meExposureExponent := meExposureExponent n, meConfidenceBp := meConfidenceBp n,
         meUrgencyBp := meUrgencyBp n, meEvidenceObservationID := meEvidenceObservationID n,
         meEvidenceQuality := meEvidenceQuality n, meEvidenceRef := meEvidenceRef n,
         meEvidenceDetail := meEvidenceDetail n, meLastEvidenceAt := meLastEvidenceAt n,
         meExpiresAt := meExpiresAt n, meUpdateCount := meUpdateCount old + 1\<rparr>"

text \<open>RecordEvent: no row is returned when the stored evidence is newer.\<close>

definition recordEvent ::
  "event_env \<Rightarrow> event_db \<Rightarrow> market_event \<Rightarrow> (event_error, event_db \<times> market_event option) result" where
  "recordEvent env db n =
     (if \<not> accepted env db None n then Inl ErrRejected
      else
        (case liveByKey db (meAccountID n) (meDedupKey n) of
           None \<Rightarrow>
             if list_ex (\<lambda>e. meID e = meID n) (edEvents db) then Inl ErrRejected
             else Inr (db\<lparr>edEvents := edEvents db @ [n]\<rparr>, Some n)
         | Some old \<Rightarrow>
             if meLastEvidenceAt old \<le> meLastEvidenceAt n
             then (if \<not> accepted env db (Some old) (refreshed old n) then Inl ErrRejected
                   else Inr (db\<lparr>edEvents :=
                               map (\<lambda>e. if meID e = meID old then refreshed old n else e) (edEvents db)\<rparr>,
                             Some (refreshed old n)))
             else Inr (db, None)))"

definition insertInputTransition :: "event_db \<Rightarrow> input_transition \<Rightarrow> event_db \<times> nat" where
  "insertInputTransition db t =
     (if list_ex (\<lambda>x. itInputKey x = itInputKey t) (edLedger db) then (db, 0)
      else (db\<lparr>edLedger := edLedger db @ [t]\<rparr>, 1))"

definition streamOf :: "consumption \<Rightarrow> uuid \<times> utext \<times> utext" where
  "streamOf con = (cnTarget con, cnNativeSellerID con, cnOfferIdentity con)"

definition advanceObservationCursor :: "event_db \<Rightarrow> uuid \<Rightarrow> consumption \<Rightarrow> event_db" where
  "advanceObservationCursor db account con =
     (let n = \<lparr>ccAccountID = account, ccLastObservationID = cnCurrObsID con,
               ccLastCapturedAt = cnCurrCapturedAt con, ccLastPriceRawValue = cnCurrValue con\<rparr> in
      (case edCursors db (streamOf con) of
         None \<Rightarrow> db\<lparr>edCursors := (edCursors db)(streamOf con \<mapsto> n)\<rparr>
       | Some c \<Rightarrow>
           if ccLastCapturedAt c < cnCurrCapturedAt con \<or>
              ccLastCapturedAt c = cnCurrCapturedAt con \<and> ccLastObservationID c < cnCurrObsID con
           then db\<lparr>edCursors := (edCursors db)(streamOf con \<mapsto> n\<lparr>ccAccountID := ccAccountID c\<rparr>)\<rparr>
           else db))"

section \<open>Evidence (deriveEvidence)\<close>

definition getObservationForAccount :: "event_env \<Rightarrow> uuid \<Rightarrow> uuid \<Rightarrow> observation_row option" where
  "getObservationForAccount env i account =
     find (\<lambda>r. obID r = i \<and> cpAccount (obCapture r) = account) (odObservations (evObs env))"

definition deriveEvidence ::
  "event_env \<Rightarrow> uuid \<Rightarrow> event_candidate \<Rightarrow> (event_error, quality \<times> utext) result" where
  "deriveEvidence env account c =
     (let ev = ecEvidence c in
      if veObservationID ev = 0
      then (if veQuality ev = Verified \<or> veQuality ev = Supported then Inl ErrEvidenceRequiresObservation
            else Inr (veQuality ev, veRef ev))
      else
        (case getObservationForAccount env (veObservationID ev) account of
           None \<Rightarrow> Inl ErrEvidenceObservationNotFound
         | Some r \<Rightarrow>
             if ecTarget c \<noteq> 0 \<and> cpTargetID (obCapture r) \<noteq> ecTarget c
             then Inl ErrEvidenceFieldInapplicable
             else if \<not> qualityValid (obQuality r) then Inl ErrInvalidCandidate
             else Inr (if \<not> ecDetectedAt c < obFreshnessDeadline r
                         \<and> (obQuality r = Verified \<or> obQuality r = Supported)
                       then Stale else obQuality r,
                       cpEvidenceRef (obCapture r))))"

section \<open>Recording (RecordFor, writeEvent, recordConsumed)\<close>

datatype record_outcome = OutcomeOpened | OutcomeUpdated | OutcomeIgnoredStale

record record_result =
  rrEvent :: "market_event option"
  rrDeduped :: bool
  rrOutcome :: record_outcome
  rrAlreadyConsumed :: bool

definition optionalUUID :: "uuid \<Rightarrow> uuid option" where
  "optionalUUID i = (if i = 0 then None else Some i)"

text \<open>Go's conversion of an int64 to int32 keeps the low bits.\<close>

definition toInt32 :: "int64 \<Rightarrow> int" where
  "toInt32 x = sint (ucast x :: 32 word)"

definition proposedEvent :: "event_env \<Rightarrow> event_db \<Rightarrow> uuid \<Rightarrow> event_candidate \<Rightarrow> quality \<Rightarrow> utext \<Rightarrow> market_event" where
  "proposedEvent env db account c q ref =
     (let (amount, known) = exposureAmount (ecExposure c) in
      \<lparr>meID = evNewID env db, meAccountID = account, meVariantID = ecVariant c,
       meTargetID = optionalUUID (ecTarget c), meType = ecType c, meSeverity = ecSeverity c,
       meState = LifecycleOpen, meDedupKey = ecDedupKey c, meThresholdID = optionalUUID (ecThresholdID c),
       meThresholdVersion = (if ecThresholdID c \<noteq> 0 then Some (ecThresholdVersion c) else None),
       meExposureKnown = xpKnown (ecExposure c),
       meExposureMantissa = (if known then Some (mantissa amount) else None),
       meExposureCurrency = (if known then currency amount else []),
       meExposureExponent = (if known then sint (exponent amount) else 0),
       meConfidenceBp = toInt32 (bpValue (confidenceOf q)), meUrgencyBp = toInt32 (bpValue (ecUrgency c)),
       meEvidenceObservationID = optionalUUID (veObservationID (ecEvidence c)),
       meEvidenceQuality = q, meEvidenceRef = ref, meEvidenceDetail = veDetail (ecEvidence c),
       meFirstDetectedAt = ecDetectedAt c, meLastEvidenceAt = ecDetectedAt c,
       meExpiresAt = ecExpiresAt c, meResolvedAt = None, meUpdateCount = 0\<rparr>)"

text \<open>
  The attempts of writeEvent.  \<open>others n db\<close> is what other sessions commit between the skipped
  statement of attempt \<open>n\<close> and the read that follows it; inside a transaction the skipped statement
  holds the row's lock and nothing comes between.
\<close>

fun recordAttempts ::
  "event_env \<Rightarrow> (nat \<Rightarrow> event_db \<Rightarrow> event_db) \<Rightarrow> nat \<Rightarrow> uuid \<Rightarrow> event_candidate \<Rightarrow> quality \<Rightarrow> utext
    \<Rightarrow> event_db \<Rightarrow> event_db \<times> (event_error, record_result) result" where
  "recordAttempts env others 0 account c q ref db = (db, Inl ErrNotConverged)"
| "recordAttempts env others (Suc n) account c q ref db =
     (case recordEvent env db (proposedEvent env db account c q ref) of
        Inl e \<Rightarrow> (db, Inl e)
      | Inr (db', Some row) \<Rightarrow>
          (db', Inr (if meState row = LifecycleOpen
                     then \<lparr>rrEvent = Some row, rrDeduped = False, rrOutcome = OutcomeOpened,
                           rrAlreadyConsumed = False\<rparr>
                     else \<lparr>rrEvent = Some row, rrDeduped = True, rrOutcome = OutcomeUpdated,
                           rrAlreadyConsumed = False\<rparr>))
      | Inr (db', None) \<Rightarrow>
          (let db'' = others n db' in
           (case liveByKey db'' account (ecDedupKey c) of
              Some row \<Rightarrow> (db'', Inr \<lparr>rrEvent = Some row, rrDeduped = True,
                                      rrOutcome = OutcomeIgnoredStale, rrAlreadyConsumed = False\<rparr>)
            | None \<Rightarrow> recordAttempts env others n account c q ref db'')))"

definition recordMaxAttempts :: nat where
  "recordMaxAttempts = 4"

definition writeEvent ::
  "event_env \<Rightarrow> (nat \<Rightarrow> event_db \<Rightarrow> event_db) \<Rightarrow> event_db \<Rightarrow> uuid \<Rightarrow> event_candidate
    \<Rightarrow> event_db \<times> (event_error, record_result) result" where
  "writeEvent env others db account c =
     (case deriveEvidence env account c of
        Inl e \<Rightarrow> (db, Inl e)
      | Inr (q, ref) \<Rightarrow> recordAttempts env others recordMaxAttempts account c q ref db)"

definition alone :: "nat \<Rightarrow> event_db \<Rightarrow> event_db" where
  "alone n db = db"

definition enqueueNotification ::
  "event_env \<Rightarrow> event_db \<Rightarrow> uuid \<Rightarrow> record_result \<Rightarrow> (event_error, event_db) result" where
  "enqueueNotification env db account res =
     (case (evNotifier env, rrEvent res) of
        (Some f, Some e) \<Rightarrow>
          if rrAlreadyConsumed res \<or> rrOutcome res \<noteq> OutcomeOpened then Inr db
          else if f e then Inr (db\<lparr>edNotices := edNotices db @ [(account, meID e, meVariantID e)]\<rparr>)
          else Inl ErrNotifier
      | _ \<Rightarrow> Inr db)"

text \<open>A transaction: on an error nothing of it remains.\<close>

definition writeEventTx ::
  "event_env \<Rightarrow> event_db \<Rightarrow> uuid \<Rightarrow> event_candidate \<Rightarrow> event_db \<times> (event_error, record_result) result" where
  "writeEventTx env db account c =
     (case writeEvent env alone db account c of
        (_, Inl e) \<Rightarrow> (db, Inl e)
      | (db', Inr res) \<Rightarrow>
          (case enqueueNotification env db' account res of
             Inl e \<Rightarrow> (db, Inl e)
           | Inr db'' \<Rightarrow> (db'', Inr res)))"

definition alreadyConsumedResult :: record_result where
  "alreadyConsumedResult =
     \<lparr>rrEvent = None, rrDeduped = False, rrOutcome = OutcomeOpened, rrAlreadyConsumed = True\<rparr>"

definition recordConsumed ::
  "event_env \<Rightarrow> event_db \<Rightarrow> uuid \<Rightarrow> event_candidate \<Rightarrow> consumption
    \<Rightarrow> event_db \<times> (event_error, record_result) result" where
  "recordConsumed env db account c con =
     (let (db1, claimed) = insertInputTransition db
            \<lparr>itInputKey = cnInputKey con, itAccountID = account, itTargetID = cnTarget con,
             itNativeSellerID = cnNativeSellerID con, itOfferIdentity = cnOfferIdentity con,
             itPrevObservationID = cnPrevObsID con, itCurrObservationID = cnCurrObsID con\<rparr>;
          (db2, r) = (if claimed = 0 then (db1, Inr alreadyConsumedResult)
                      else writeEvent env alone db1 account c) in
      (case r of
         Inl e \<Rightarrow> (db, Inl e)
       | Inr res \<Rightarrow>
           (case enqueueNotification env (advanceObservationCursor db2 account con) account res of
              Inl e \<Rightarrow> (db, Inl e)
            | Inr db3 \<Rightarrow> (db3, Inr res))))"

definition recordFor ::
  "event_env \<Rightarrow> (nat \<Rightarrow> event_db \<Rightarrow> event_db) \<Rightarrow> event_db \<Rightarrow> uuid \<Rightarrow> event_candidate
    \<Rightarrow> event_db \<times> (event_error, record_result) result" where
  "recordFor env others db account c =
     (if \<not> eventTypeValid (ecType c) \<or> \<not> qualityValid (veQuality (ecEvidence c)) \<or> ecDedupKey c = []
      then (db, Inl ErrInvalidCandidate)
      else
        (case ecConsumption c of
           Some con \<Rightarrow> recordConsumed env db account c con
         | None \<Rightarrow>
             if veObservationID (ecEvidence c) \<noteq> 0 then writeEventTx env db account c
             else if evNotifier env \<noteq> None then writeEventTx env db account c
             else writeEvent env others db account c))"

definition advanceConsumedCursor :: "event_db \<Rightarrow> consumption \<Rightarrow> event_db" where
  "advanceConsumedCursor db con = advanceObservationCursor db (cnAccount con) con"

section \<open>Lifecycle\<close>

definition resolveRow :: "instant \<Rightarrow> market_event \<Rightarrow> market_event" where
  "resolveRow now e = e\<lparr>meState := LifecycleResolved, meResolvedAt := Some now\<rparr>"

definition expireRow :: "market_event \<Rightarrow> market_event" where
  "expireRow e = e\<lparr>meState := LifecycleExpired\<rparr>"

definition resolveEvent :: "event_env \<Rightarrow> event_db \<Rightarrow> uuid \<Rightarrow> (event_error, event_db \<times> market_event) result" where
  "resolveEvent env db i =
     (case find (\<lambda>e. meID e = i \<and> meLive e) (edEvents db) of
        None \<Rightarrow> Inl ErrEventNotFound
      | Some e \<Rightarrow>
          andThen (updateWhere env db (\<lambda>x. meID x = i \<and> meLive x) (resolveRow (evNow env)))
            (\<lambda>(db', _). Inr (db', resolveRow (evNow env) e)))"

definition expireStale :: "event_env \<Rightarrow> event_db \<Rightarrow> uuid \<Rightarrow> (event_error, event_db \<times> nat) result" where
  "expireStale env db account =
     updateWhere env db (\<lambda>e. meAccountID e = account \<and> meLive e \<and> meExpiresAt e < evNow env) expireRow"

definition expireStaleAll :: "event_env \<Rightarrow> event_db \<Rightarrow> instant \<Rightarrow> (event_error, event_db \<times> nat) result" where
  "expireStaleAll env db now = updateWhere env db (\<lambda>e. meLive e \<and> meExpiresAt e < now) expireRow"

definition resolveOpen ::
  "event_env \<Rightarrow> event_db \<Rightarrow> uuid \<Rightarrow> utext \<Rightarrow> (event_error, event_db \<times> bool) result" where
  "resolveOpen env db account key =
     andThen (updateWhere env db (\<lambda>e. meAccountID e = account \<and> meDedupKey e = key \<and> meLive e)
                (resolveRow (evNow env)))
       (\<lambda>(db', n). Inr (db', 0 < n))"

section \<open>Thresholds\<close>

record threshold_params =
  tpAccount :: uuid
  tpCategory :: utext
  tpType :: event_type
  tpVersion :: int
  tpMoveBp :: basis_points
  tpSellerCountDelta :: int64
  tpChallengeMarginBp :: basis_points
  tpEffectiveFrom :: instant
  tpCreatedBy :: uuid

definition optionalInt4 :: "int \<Rightarrow> bool \<Rightarrow> int option" where
  "optionalInt4 v present = (if present then Some v else None)"

text \<open>\<open>newID\<close> is the id the database generates for the row.\<close>

definition setThreshold ::
  "event_db \<Rightarrow> uuid \<Rightarrow> threshold_params \<Rightarrow> (event_error, event_db \<times> threshold_row) result" where
  "setThreshold db newID p =
     (let t = \<lparr>trID = newID, trAccountID = tpAccount p, trCategory = tpCategory p, trEventType = tpType p,
               trVersion = tpVersion p,
               trMoveBp = optionalInt4 (toInt32 (bpValue (tpMoveBp p))) (bpValue (tpMoveBp p) \<noteq> 0),
               trSellerCountDelta = optionalInt4 (toInt32 (tpSellerCountDelta p)) (tpSellerCountDelta p \<noteq> 0),
               trChallengeMarginBp = optionalInt4 (toInt32 (bpValue (tpChallengeMarginBp p)))
                                       (bpValue (tpChallengeMarginBp p) \<noteq> 0),
               trEffectiveFrom = tpEffectiveFrom p, trCreatedBy = optionalUUID (tpCreatedBy p)\<rparr> in
      if \<not> eventTypeValid (tpType p) \<or> list_ex (\<lambda>x. trID x = newID) (edThresholds db) \<or>
         list_ex (\<lambda>x. trAccountID x = tpAccount p \<and> trCategory x = tpCategory p \<and>
                      trEventType x = tpType p \<and> trVersion x = tpVersion p) (edThresholds db)
      then Inl ErrRejected
      else Inr (db\<lparr>edThresholds := edThresholds db @ [t]\<rparr>, t))"

definition thresholdFromRow :: "threshold_row \<Rightarrow> event_threshold" where
  "thresholdFromRow row =
     \<lparr>thID = trID row, thVersion = trVersion row,
      thMoveBp = newBasisPoints (case trMoveBp row of None \<Rightarrow> 0 | Some v \<Rightarrow> word_of_int v),
      thSellerCountDelta = (case trSellerCountDelta row of None \<Rightarrow> 0 | Some v \<Rightarrow> word_of_int v),
      thChallengeMarginBp = newBasisPoints (case trChallengeMarginBp row of None \<Rightarrow> 0 | Some v \<Rightarrow> word_of_int v)\<rparr>"

text \<open>\<open>ORDER BY effective_from DESC, version DESC LIMIT 1\<close>.\<close>

definition laterThreshold :: "threshold_row option \<Rightarrow> threshold_row \<Rightarrow> threshold_row option" where
  "laterThreshold acc t =
     (case acc of None \<Rightarrow> Some t
      | Some a \<Rightarrow> if trEffectiveFrom a < trEffectiveFrom t
                     \<or> trEffectiveFrom a = trEffectiveFrom t \<and> trVersion a < trVersion t
                  then Some t else Some a)"

definition inForceRow :: "event_db \<Rightarrow> uuid \<Rightarrow> utext \<Rightarrow> event_type \<Rightarrow> instant \<Rightarrow> threshold_row option" where
  "inForceRow db account category t at =
     foldl laterThreshold None
       (filter (\<lambda>r. trAccountID r = account \<and> trCategory r = category \<and> trEventType r = t
                    \<and> trEffectiveFrom r \<le> at) (edThresholds db))"

definition thresholdAsOf :: "event_db \<Rightarrow> uuid \<Rightarrow> utext \<Rightarrow> event_type \<Rightarrow> instant \<Rightarrow> event_threshold option" where
  "thresholdAsOf db account category t at = map_option thresholdFromRow (inForceRow db account category t at)"

section \<open>Reads and feedback\<close>

definition listOpenEvents :: "event_db \<Rightarrow> uuid \<Rightarrow> market_event list" where
  "listOpenEvents db account =
     sort_key (\<lambda>e. - meLastEvidenceAt e)
       (sort_key meID (filter (\<lambda>e. meAccountID e = account \<and> meLive e) (edEvents db)))"

definition today :: "event_env \<Rightarrow> event_db \<Rightarrow> uuid \<Rightarrow> ranked list" where
  "today env db account = rankEvents (evUUIDText env) (listOpenEvents db account)"

definition orgOf :: "event_env \<Rightarrow> uuid \<Rightarrow> uuid option" where
  "orgOf env account = map_option maOrganizationID (find (\<lambda>a. maID a = account) (evAccounts env))"

definition assertOwned :: "event_env \<Rightarrow> uuid \<Rightarrow> uuid \<Rightarrow> (event_error, unit) result" where
  "assertOwned env organizationID account =
     (if orgOf env account = Some organizationID then Inr () else Inl ErrEventAccountNotFound)"

definition listOpenForOrg ::
  "event_env \<Rightarrow> event_db \<Rightarrow> uuid \<Rightarrow> uuid \<Rightarrow> (event_error, market_event list) result" where
  "listOpenForOrg env db organizationID account =
     andThen (assertOwned env organizationID account) (\<lambda>_. Inr (listOpenEvents db account))"

definition todayForOrg :: "event_env \<Rightarrow> event_db \<Rightarrow> uuid \<Rightarrow> uuid \<Rightarrow> (event_error, ranked list) result" where
  "todayForOrg env db organizationID account =
     andThen (assertOwned env organizationID account) (\<lambda>_. Inr (today env db account))"

definition getEventForOrg :: "event_env \<Rightarrow> event_db \<Rightarrow> uuid \<Rightarrow> uuid \<Rightarrow> (event_error, market_event) result" where
  "getEventForOrg env db organizationID i =
     (case find (\<lambda>e. meID e = i \<and> orgOf env (meAccountID e) = Some organizationID) (edEvents db) of
        None \<Rightarrow> Inl ErrEventNotFound
      | Some e \<Rightarrow> Inr e)"

definition relevanceValid :: "relevance \<Rightarrow> bool" where
  "relevanceValid r \<longleftrightarrow> (case r of RelevanceOther _ \<Rightarrow> False | _ \<Rightarrow> True)"

definition recordRelevance ::
  "event_db \<Rightarrow> uuid \<Rightarrow> uuid \<Rightarrow> relevance \<Rightarrow> utext \<Rightarrow> (event_error, event_db \<times> relevance_feedback) result" where
  "recordRelevance db eventID user r note =
     (let f = \<lparr>rfEventID = eventID, rfUserID = optionalUUID user, rfRelevance = r, rfNote = note\<rparr> in
      if \<not> relevanceValid r \<or> \<not> list_ex (\<lambda>e. meID e = eventID) (edEvents db) then Inl ErrRejected
      else Inr (db\<lparr>edFeedback := edFeedback db @ [f]\<rparr>, f))"

definition recordRelevanceForOrg ::
  "event_env \<Rightarrow> event_db \<Rightarrow> uuid \<Rightarrow> uuid \<Rightarrow> uuid \<Rightarrow> relevance \<Rightarrow> utext
    \<Rightarrow> (event_error, event_db \<times> relevance_feedback) result" where
  "recordRelevanceForOrg env db organizationID eventID user r note =
     andThen (getEventForOrg env db organizationID eventID) (\<lambda>_. recordRelevance db eventID user r note)"

end
