(* ===== verification/EventLife.thy ===== *)
theory EventLife
  imports EventStore
begin

text \<open>
  What the event store keeps: one live event per account and dedup key, evidence that is never
  certified by the caller, and a lifecycle in which a closed event never changes and evidence never
  gets older.
\<close>

section \<open>Moves of the event table\<close>

text \<open>What an observation is worth at an instant: past its deadline it no longer corroborates.\<close>

definition worthAt :: "observation_row \<Rightarrow> instant \<Rightarrow> quality" where
  "worthAt r at =
     (if (obQuality r = Verified \<or> obQuality r = Supported) \<and> \<not> at < obFreshnessDeadline r
      then Stale else obQuality r)"

text \<open>What a row says about its evidence, against the observations of the store.\<close>

definition backed :: "event_env \<Rightarrow> market_event \<Rightarrow> bool" where
  "backed env e \<longleftrightarrow>
     meConfidenceBp e = toInt32 (bpValue (confidenceOf (meEvidenceQuality e))) \<and>
     (case meEvidenceObservationID e of
        None \<Rightarrow> meEvidenceQuality e \<noteq> Verified \<and> meEvidenceQuality e \<noteq> Supported
      | Some i \<Rightarrow>
          (\<exists>r \<in> set (odObservations (evObs env)).
             obID r = i \<and> cpAccount (obCapture r) = meAccountID e \<and>
             meEvidenceRef e = cpEvidenceRef (obCapture r) \<and>
             meEvidenceQuality e = worthAt r (meLastEvidenceAt e)))"

definition newRow :: "event_env \<Rightarrow> market_event \<Rightarrow> bool" where
  "newRow env n \<longleftrightarrow>
     rowChecks n \<and> backed env n \<and> meState n = LifecycleOpen \<and> meResolvedAt n = None \<and>
     meUpdateCount n = 0 \<and> meFirstDetectedAt n = meLastEvidenceAt n"

definition sameKey :: "market_event \<Rightarrow> market_event \<Rightarrow> bool" where
  "sameKey a b \<longleftrightarrow> meAccountID a = meAccountID b \<and> meDedupKey a = meDedupKey b"

text \<open>The four things a statement can do to the table.\<close>

inductive eventMove :: "event_env \<Rightarrow> market_event list \<Rightarrow> market_event list \<Rightarrow> bool" for env where
  move_none: "eventMove env es es"
| move_insert:
    "newRow env n \<Longrightarrow> meID n \<notin> meID ` set es \<Longrightarrow> \<forall>e\<in>set es. meLive e \<longrightarrow> \<not> sameKey e n \<Longrightarrow>
     eventMove env es (es @ [n])"
| move_refresh:
    "old \<in> set es \<Longrightarrow> meLive old \<Longrightarrow> newRow env n \<Longrightarrow> sameKey old n \<Longrightarrow> rowChecks (refreshed old n) \<Longrightarrow>
     meLastEvidenceAt old \<le> meLastEvidenceAt n \<Longrightarrow>
     eventMove env es (map (\<lambda>e. if meID e = meID old then refreshed old n else e) es)"
| move_resolve: "eventMove env es (map (\<lambda>e. if P e \<and> meLive e then resolveRow now e else e) es)"
| move_expire: "eventMove env es (map (\<lambda>e. if P e \<and> meLive e then expireRow e else e) es)"

lemma proposed_simps [simp]:
  "meState (proposedEvent env db a c q ref) = LifecycleOpen"
  "meAccountID (proposedEvent env db a c q ref) = a"
  "meDedupKey (proposedEvent env db a c q ref) = ecDedupKey c"
  "meID (proposedEvent env db a c q ref) = evNewID env db"
  "meLastEvidenceAt (proposedEvent env db a c q ref) = ecDetectedAt c"
  "meFirstDetectedAt (proposedEvent env db a c q ref) = ecDetectedAt c"
  "meUpdateCount (proposedEvent env db a c q ref) = 0"
  "meResolvedAt (proposedEvent env db a c q ref) = None"
  "meConfidenceBp (proposedEvent env db a c q ref) = toInt32 (bpValue (confidenceOf q))"
  "meEvidenceQuality (proposedEvent env db a c q ref) = q"
  "meEvidenceRef (proposedEvent env db a c q ref) = ref"
  "meEvidenceObservationID (proposedEvent env db a c q ref) = optionalUUID (veObservationID (ecEvidence c))"
  by (simp_all add: proposedEvent_def split_beta)

text \<open>Evidence is derived from the account's own observation.\<close>

lemma derived_backed:
  assumes "deriveEvidence env account c = Inr (q, ref)"
  shows "backed env (proposedEvent env db account c q ref)"
proof (cases "veObservationID (ecEvidence c) = 0")
  case True
  then show ?thesis using assms
    by (auto simp: deriveEvidence_def Let_def backed_def optionalUUID_def split: if_splits)
next
  case False
  then obtain r where r: "getObservationForAccount env (veObservationID (ecEvidence c)) account = Some r"
    using assms by (auto simp: deriveEvidence_def Let_def split: option.splits)
  then have "r \<in> set (odObservations (evObs env)) \<and> obID r = veObservationID (ecEvidence c)
      \<and> cpAccount (obCapture r) = account"
    by (auto simp: getObservationForAccount_def find_Some_iff)
  then show ?thesis using assms r False
    by (auto simp: deriveEvidence_def Let_def backed_def optionalUUID_def worthAt_def
        split: if_splits intro!: bexI [of _ r])
qed

lemma liveByKey_Some:
  "liveByKey db a k = Some e \<Longrightarrow> e \<in> set (edEvents db) \<and> meAccountID e = a \<and> meDedupKey e = k \<and> meLive e"
  by (auto simp: liveByKey_def find_Some_iff)

lemma liveByKey_None:
  "liveByKey db a k = None \<longleftrightarrow>
     (\<forall>e\<in>set (edEvents db). \<not> (meAccountID e = a \<and> meDedupKey e = k \<and> meLive e))"
  by (auto simp: liveByKey_def find_None_iff)

lemma recordEvent_move:
  assumes "recordEvent env db (proposedEvent env d account c q ref) = Inr (db', row)"
    and "deriveEvidence env account c = Inr (q, ref)"
  shows "eventMove env (edEvents db) (edEvents db')"
proof -
  let ?n = "proposedEvent env d account c q ref"
  have a: "accepted env db None ?n" using assms(1) by (auto simp: recordEvent_def split: if_splits)
  then have new: "newRow env ?n"
    using derived_backed [OF assms(2)] by (simp add: newRow_def accepted_def)
  show ?thesis
  proof (cases "liveByKey db (meAccountID ?n) (meDedupKey ?n)")
    case None
    then have "\<not> list_ex (\<lambda>e. meID e = meID ?n) (edEvents db)" and d: "edEvents db' = edEvents db @ [?n]"
      using assms(1) a None by (auto simp: recordEvent_def split: if_splits)
    then have "meID ?n \<notin> meID ` set (edEvents db)" by (auto simp: list_ex_iff simp del: proposed_simps)
    then show ?thesis
      unfolding d using new iffD1 [OF liveByKey_None None]
      by (intro move_insert) (auto simp: sameKey_def)
  next
    case (Some old)
    then show ?thesis
      using assms(1) a new liveByKey_Some [OF Some]
        move_refresh [of old "edEvents db" env ?n]
      by (auto simp: recordEvent_def sameKey_def accepted_def split: if_splits intro: move_none)
  qed
qed

text \<open>One writeEvent, with nothing in between, is one statement.\<close>

lemma recordAttempts_alone:
  "recordAttempts env alone (Suc k) account c q ref db = (db', Inr res) \<Longrightarrow>
     (\<exists>row. recordEvent env db (proposedEvent env db account c q ref) = Inr (db', row))"
  by (cases k)
    (auto simp: recordEvent_def alone_def Let_def split: sum.splits option.splits if_splits)

lemma recordAttempts_error:
  "recordAttempts env alone k account c q ref db = (db', Inl e) \<Longrightarrow> db' = db"
  by (induction k arbitrary: db)
    (auto simp: alone_def Let_def recordEvent_def split: sum.splits option.splits if_splits)

lemma writeEvent_move:
  "writeEvent env alone db account c = (db', r) \<Longrightarrow> eventMove env (edEvents db) (edEvents db')"
proof (cases "deriveEvidence env account c")
  case (Inr p)
  assume w: "writeEvent env alone db account c = (db', r)"
  obtain q ref where p: "p = (q, ref)" by (cases p)
  have at: "recordAttempts env alone 4 account c q ref db = (db', r)"
    using w Inr p by (simp add: writeEvent_def recordMaxAttempts_def)
  show ?thesis
  proof (cases r)
    case (Inl e)
    then show ?thesis using recordAttempts_error at by (metis move_none)
  next
    case res: (Inr res)
    have "recordAttempts env alone (Suc 3) account c q ref db = (db', Inr res)"
      using at res by (simp add: numeral_eq_Suc)
    then show ?thesis using recordAttempts_alone recordEvent_move Inr p by metis
  qed
qed (auto simp: writeEvent_def intro: move_none)

lemma advanceObservationCursor_events [simp]:
  "edEvents (advanceObservationCursor db a con) = edEvents db"
  "edThresholds (advanceObservationCursor db a con) = edThresholds db"
  "edLedger (advanceObservationCursor db a con) = edLedger db"
  "edNotices (advanceObservationCursor db a con) = edNotices db"
  by (auto simp: advanceObservationCursor_def Let_def split: option.splits)

lemma enqueue_events:
  "enqueueNotification env db a res = Inr db' \<Longrightarrow>
     edEvents db' = edEvents db \<and> edLedger db' = edLedger db \<and> edCursors db' = edCursors db
     \<and> edThresholds db' = edThresholds db"
  by (auto simp: enqueueNotification_def split: option.splits if_splits)

lemma insertInputTransition_events [simp]:
  "edEvents (fst (insertInputTransition db t)) = edEvents db"
  "edCursors (fst (insertInputTransition db t)) = edCursors db"
  "edThresholds (fst (insertInputTransition db t)) = edThresholds db"
  by (simp_all add: insertInputTransition_def)

lemma writeEventTx_move:
  "writeEventTx env db account c = (db', r) \<Longrightarrow> eventMove env (edEvents db) (edEvents db')"
  by (auto simp: writeEventTx_def split: prod.splits sum.splits
      dest!: writeEvent_move enqueue_events intro: move_none)

lemma recordConsumed_move:
  assumes "recordConsumed env db account c con = (db', r)"
  shows "eventMove env (edEvents db) (edEvents db')"
proof -
  obtain db1 n where i: "insertInputTransition db
      \<lparr>itInputKey = cnInputKey con, itAccountID = account, itTargetID = cnTarget con,
       itNativeSellerID = cnNativeSellerID con, itOfferIdentity = cnOfferIdentity con,
       itPrevObservationID = cnPrevObsID con, itCurrObservationID = cnCurrObsID con\<rparr> = (db1, n)"
    by fastforce
  then have "edEvents db1 = edEvents db" by (metis fst_conv insertInputTransition_events(1))
  then show ?thesis
    using assms i writeEvent_move [of env db1 account c]
    by (auto simp: recordConsumed_def Let_def split: prod.splits sum.splits if_splits
        dest!: enqueue_events intro: move_none)
qed

lemma recordFor_move:
  "recordFor env alone db account c = (db', r) \<Longrightarrow> eventMove env (edEvents db) (edEvents db')"
  by (auto simp: recordFor_def split: if_splits option.splits
      dest: writeEventTx_move recordConsumed_move writeEvent_move intro: move_none)

lemma updateWhere_events:
  "updateWhere env db P f = Inr (db', n) \<Longrightarrow>
     edEvents db' = map (\<lambda>e. if P e then f e else e) (edEvents db)"
  by (auto simp: updateWhere_def split: if_splits)

lemma close_moves:
  "expireStale env db account = Inr (db', n) \<Longrightarrow> eventMove env (edEvents db) (edEvents db')"
  "expireStaleAll env db now = Inr (db', n) \<Longrightarrow> eventMove env (edEvents db) (edEvents db')"
  "resolveOpen env db account key = Inr (db', b) \<Longrightarrow> eventMove env (edEvents db) (edEvents db')"
  "resolveEvent env db i = Inr (db', e) \<Longrightarrow> eventMove env (edEvents db) (edEvents db')"
proof -
  assume "expireStale env db account = Inr (db', n)"
  from updateWhere_events [OF this [unfolded expireStale_def]] show "eventMove env (edEvents db) (edEvents db')"
    using move_expire [of env "edEvents db" "\<lambda>e. meAccountID e = account \<and> meExpiresAt e < evNow env"]
    by (simp add: conj_ac)
next
  assume "expireStaleAll env db now = Inr (db', n)"
  from updateWhere_events [OF this [unfolded expireStaleAll_def]] show "eventMove env (edEvents db) (edEvents db')"
    using move_expire [of env "edEvents db" "\<lambda>e. meExpiresAt e < now"] by (simp add: conj_ac)
next
  assume "resolveOpen env db account key = Inr (db', b)"
  then obtain k where "updateWhere env db (\<lambda>e. meAccountID e = account \<and> meDedupKey e = key \<and> meLive e)
      (resolveRow (evNow env)) = Inr (db', k)"
    by (auto simp: resolveOpen_def result_simps)
  from updateWhere_events [OF this] show "eventMove env (edEvents db) (edEvents db')"
    using move_resolve [of env "edEvents db" "\<lambda>e. meAccountID e = account \<and> meDedupKey e = key"]
    by (simp add: conj_ac)
next
  assume "resolveEvent env db i = Inr (db', e)"
  then obtain k where "updateWhere env db (\<lambda>e. meID e = i \<and> meLive e) (resolveRow (evNow env)) = Inr (db', k)"
    by (auto simp: resolveEvent_def result_simps split: option.splits)
  from updateWhere_events [OF this] show "eventMove env (edEvents db) (edEvents db')"
    using move_resolve [of env "edEvents db" "\<lambda>e. meID e = i"] by simp
qed

section \<open>The invariant of the table\<close>

definition tableOk :: "event_env \<Rightarrow> market_event list \<Rightarrow> bool" where
  "tableOk env es \<longleftrightarrow>
     distinct (map meID es) \<and>
     distinct (map (\<lambda>e. (meAccountID e, meDedupKey e)) (filter meLive es)) \<and>
     (\<forall>e\<in>set es. rowChecks e \<and> backed env e \<and> meFirstDetectedAt e \<le> meLastEvidenceAt e \<and>
        (meResolvedAt e \<noteq> None \<longleftrightarrow> meState e = LifecycleResolved))"

lemma closeRow_simps [simp]:
  "rowChecks (resolveRow now e) = rowChecks e" "rowChecks (expireRow e) = rowChecks e"
  "backed env (resolveRow now e) = backed env e" "backed env (expireRow e) = backed env e"
  "meLive (resolveRow now e) = False" "meLive (expireRow e) = False"
  "meID (resolveRow now e) = meID e" "meID (expireRow e) = meID e"
  "meFirstDetectedAt (resolveRow now e) = meFirstDetectedAt e" "meFirstDetectedAt (expireRow e) = meFirstDetectedAt e"
  "meLastEvidenceAt (resolveRow now e) = meLastEvidenceAt e" "meLastEvidenceAt (expireRow e) = meLastEvidenceAt e"
  "meResolvedAt (resolveRow now e) = Some now" "meResolvedAt (expireRow e) = meResolvedAt e"
  "meState (resolveRow now e) = LifecycleResolved" "meState (expireRow e) = LifecycleExpired"
  by (simp_all add: resolveRow_def expireRow_def rowChecks_def backed_def meLive_def liveState_def
      split: option.splits)

lemma refreshed_simps [simp]:
  "meID (refreshed old n) = meID old" "meLive (refreshed old n)"
  "meAccountID (refreshed old n) = meAccountID old" "meDedupKey (refreshed old n) = meDedupKey old"
  "meLastEvidenceAt (refreshed old n) = meLastEvidenceAt n"
  "meFirstDetectedAt (refreshed old n) = meFirstDetectedAt old"
  "meState (refreshed old n) = LifecycleUpdated" "meResolvedAt (refreshed old n) = meResolvedAt old"
  by (simp_all add: refreshed_def meLive_def liveState_def)

lemma backed_refreshed: "backed env n \<Longrightarrow> sameKey old n \<Longrightarrow> backed env (refreshed old n)"
  by (simp add: backed_def refreshed_def sameKey_def split: option.splits)

lemma filter_map_closed:
  assumes "\<And>e. \<not> meLive (f e)"
  shows "filter meLive (map (\<lambda>e. if P e \<and> meLive e then f e else e) es) = filter (\<lambda>e. meLive e \<and> \<not> P e) es"
  using assms by (induction es) auto

lemma distinct_map_filter_sub:
  "distinct (map g (filter P es)) \<Longrightarrow> distinct (map g (filter (\<lambda>e. P e \<and> Q e) es))"
  by (metis distinct_map_filter filter_filter)

lemma tableOk_closed:
  assumes t: "tableOk env es" and f: "\<And>e. \<not> meLive (f e)" "\<And>e. meID (f e) = meID e"
    "\<And>e. e \<in> set es \<Longrightarrow> meLive e \<Longrightarrow> rowChecks (f e) \<and> backed env (f e) \<and>
        meFirstDetectedAt (f e) \<le> meLastEvidenceAt (f e) \<and>
        (meResolvedAt (f e) \<noteq> None \<longleftrightarrow> meState (f e) = LifecycleResolved)"
  shows "tableOk env (map (\<lambda>e. if P e \<and> meLive e then f e else e) es)"
proof -
  have "map meID (map (\<lambda>e. if P e \<and> meLive e then f e else e) es) = map meID es"
    using f(2) by simp
  moreover have "distinct (map (\<lambda>e. (meAccountID e, meDedupKey e))
      (filter meLive (map (\<lambda>e. if P e \<and> meLive e then f e else e) es)))"
    unfolding filter_map_closed [OF f(1)] using t by (simp add: tableOk_def distinct_map_filter_sub)
  ultimately show ?thesis using t f(3) unfolding tableOk_def by (auto simp del: map_map)
qed

lemma tableOk_refresh:
  assumes t: "tableOk env es" and o: "old \<in> set es" "meLive old" and n: "newRow env n" "sameKey old n"
    "rowChecks (refreshed old n)" "meLastEvidenceAt old \<le> meLastEvidenceAt n"
  shows "tableOk env (map (\<lambda>e. if meID e = meID old then refreshed old n else e) es)"
proof -
  let ?f = "\<lambda>e. if meID e = meID old then refreshed old n else e"
  have u: "e = old" if "e \<in> set es" "meID e = meID old" for e
    using t o that by (auto simp: tableOk_def distinct_map inj_on_def)
  have l: "map (\<lambda>e. (meAccountID e, meDedupKey e)) (filter meLive (map ?f es)) =
      map (\<lambda>e. (meAccountID e, meDedupKey e)) (filter meLive es)"
    using u o(2) by (induction es) auto
  have "map meID (map ?f es) = map meID es" by simp
  moreover have "meFirstDetectedAt old \<le> meLastEvidenceAt old" "meResolvedAt old = None"
    using t o by (auto simp: tableOk_def meLive_def liveState_def)
  ultimately show ?thesis
    using t n l backed_refreshed [of env n old] unfolding tableOk_def newRow_def
    by (auto simp del: map_map)
qed

lemma tableOk_move: "eventMove env es es' \<Longrightarrow> tableOk env es \<Longrightarrow> tableOk env es'"
proof (induction rule: eventMove.cases)
  case (move_insert n es)
  then show ?case
    by (auto simp: tableOk_def newRow_def sameKey_def meLive_def liveState_def)
next
  case (move_refresh old es n)
  then show ?case using tableOk_refresh by blast
next
  case (move_resolve es P now)
  then show ?case
    by (simp only:, intro tableOk_closed) (simp, simp, simp, simp add: tableOk_def)
next
  case (move_expire es P)
  then show ?case
    by (simp only:, intro tableOk_closed)
      (simp, simp, simp, auto simp: tableOk_def meLive_def liveState_def)
qed simp

section \<open>The steps of the store\<close>

text \<open>
  One committed step: the service's operations, each alone in its transaction; the single statement
  of a writeEvent that runs without a transaction, after evidence that was derived when it began; and
  the observation store growing, with accounts, targets, clock and ids free to change.
\<close>

inductive eventStep :: "event_env \<times> event_db \<Rightarrow> event_env \<times> event_db \<Rightarrow> bool" where
  step_record: "recordFor env alone db account c = (db', r) \<Longrightarrow> eventStep (env, db) (env, db')"
| step_upsert:
    "deriveEvidence env account c = Inr (q, ref) \<Longrightarrow>
     recordEvent env db (proposedEvent env d account c q ref) = Inr (db', row) \<Longrightarrow>
     eventStep (env, db) (env, db')"
| step_cursor: "eventStep (env, db) (env, advanceConsumedCursor db con)"
| step_resolve: "resolveEvent env db i = Inr (db', e) \<Longrightarrow> eventStep (env, db) (env, db')"
| step_resolve_open: "resolveOpen env db account key = Inr (db', b) \<Longrightarrow> eventStep (env, db) (env, db')"
| step_expire: "expireStale env db account = Inr (db', n) \<Longrightarrow> eventStep (env, db) (env, db')"
| step_expire_all: "expireStaleAll env db now = Inr (db', n) \<Longrightarrow> eventStep (env, db) (env, db')"
| step_threshold: "setThreshold db i p = Inr (db', t) \<Longrightarrow> eventStep (env, db) (env, db')"
| step_feedback: "recordRelevance db i u v note = Inr (db', f) \<Longrightarrow> eventStep (env, db) (env, db')"
| step_environment:
    "set (odObservations (evObs env)) \<subseteq> set (odObservations (evObs env')) \<Longrightarrow> eventStep (env, db) (env', db)"

definition emptyEvents :: event_db where
  "emptyEvents = \<lparr>edEvents = [], edThresholds = [], edLedger = [], edCursors = Map.empty, edNotices = [],
                  edFeedback = []\<rparr>"

inductive eventReachable :: "event_env \<times> event_db \<Rightarrow> bool" where
  reach_empty: "eventReachable (env, emptyEvents)"
| reach_step: "eventReachable w \<Longrightarrow> eventStep w w' \<Longrightarrow> eventReachable w'"

text \<open>A step moves the event table, and the environment's observations only grow.\<close>

lemma eventStep_move:
  "eventStep (env, db) (env', db') \<Longrightarrow>
     eventMove env (edEvents db) (edEvents db') \<and>
     set (odObservations (evObs env)) \<subseteq> set (odObservations (evObs env'))"
proof (induction "(env, db)" "(env', db')" rule: eventStep.induct)
  case step_threshold
  then show ?case by (auto simp: setThreshold_def Let_def split: if_splits intro: move_none)
next
  case step_feedback
  then show ?case by (auto simp: recordRelevance_def Let_def split: if_splits intro: move_none)
qed (auto simp: advanceConsumedCursor_def intro: move_none recordFor_move recordEvent_move close_moves)

lemma backed_mono:
  "backed env e \<Longrightarrow> set (odObservations (evObs env)) \<subseteq> set (odObservations (evObs env')) \<Longrightarrow> backed env' e"
  by (auto simp: backed_def split: option.splits)

lemma tableOk_env:
  "tableOk env es \<Longrightarrow> set (odObservations (evObs env)) \<subseteq> set (odObservations (evObs env')) \<Longrightarrow> tableOk env' es"
  using backed_mono unfolding tableOk_def by blast

lemma reachable_tableOk: "eventReachable w \<Longrightarrow> tableOk (fst w) (edEvents (snd w))"
proof (induction rule: eventReachable.induct)
  case (reach_empty env)
  then show ?case by (simp add: tableOk_def emptyEvents_def)
next
  case (reach_step w w')
  then show ?case
    using eventStep_move [of "fst w" "snd w" "fst w'" "snd w'"] tableOk_move tableOk_env by (metis prod.collapse)
qed

text \<open>
  C8. Whatever sequence of recordings, sweeps, clearances and threshold changes brought the store
  where it is: an account has at most one live event per dedup key, every row satisfies the table's
  checks, a row was resolved at an instant exactly when it is resolved, and no evidence is certified
  by its caller.  An event of verified or supported quality cites an observation of its own account
  that has that very quality and was fresh when the event's evidence was observed; an event that cites
  none is of neither quality; and the confidence it is ranked by is that of its stored quality.
\<close>

theorem event_store_sound:
  assumes "eventReachable (env, db)"
  shows "distinct (map meID (edEvents db))
    \<and> distinct (map (\<lambda>e. (meAccountID e, meDedupKey e)) (filter meLive (edEvents db)))
    \<and> (\<forall>e \<in> set (edEvents db). rowChecks e
        \<and> (meResolvedAt e \<noteq> None \<longleftrightarrow> meState e = LifecycleResolved)
        \<and> meConfidenceBp e = toInt32 (bpValue (confidenceOf (meEvidenceQuality e)))
        \<and> (meEvidenceQuality e = Verified \<or> meEvidenceQuality e = Supported \<longrightarrow>
            (\<exists>r \<in> set (odObservations (evObs env)).
               meEvidenceObservationID e = Some (obID r) \<and> cpAccount (obCapture r) = meAccountID e
               \<and> obQuality r = meEvidenceQuality e \<and> meLastEvidenceAt e < obFreshnessDeadline r)))"
proof -
  have t: "tableOk env (edEvents db)" using reachable_tableOk [OF assms] by simp
  have "\<exists>r \<in> set (odObservations (evObs env)).
      meEvidenceObservationID e = Some (obID r) \<and> cpAccount (obCapture r) = meAccountID e
      \<and> obQuality r = meEvidenceQuality e \<and> meLastEvidenceAt e < obFreshnessDeadline r"
    if "e \<in> set (edEvents db)" "meEvidenceQuality e = Verified \<or> meEvidenceQuality e = Supported" for e
    using t that by (fastforce simp: tableOk_def backed_def worthAt_def split: option.splits if_splits)
  then show ?thesis using t by (auto simp: tableOk_def backed_def)
qed

section \<open>The history of an event\<close>

definition evolves :: "market_event \<Rightarrow> market_event \<Rightarrow> bool" where
  "evolves e e' \<longleftrightarrow>
     meID e' = meID e \<and>
     (if meLive e
      then meAccountID e' = meAccountID e \<and> meVariantID e' = meVariantID e \<and> meTargetID e' = meTargetID e \<and>
           meType e' = meType e \<and> meDedupKey e' = meDedupKey e \<and> meFirstDetectedAt e' = meFirstDetectedAt e \<and>
           meLastEvidenceAt e \<le> meLastEvidenceAt e' \<and> meUpdateCount e \<le> meUpdateCount e'
      else e' = e)"

lemma evolves_refl: "evolves e e"
  by (simp add: evolves_def)

lemma evolves_trans: "evolves a b \<Longrightarrow> evolves b c \<Longrightarrow> evolves a c"
  by (auto simp: evolves_def split: if_splits)

lemma eventMove_evolves:
  assumes "eventMove env es es'" and "distinct (map meID es)" and "e \<in> set es"
  shows "\<exists>e' \<in> set es'. evolves e e'"
  using assms
proof (cases rule: eventMove.cases)
  case (move_refresh old n)
  show ?thesis
  proof (cases "meID e = meID old")
    case True
    then have "e = old" using assms move_refresh(2) by (simp add: distinct_map inj_on_def)
    then have "evolves e (refreshed old n)"
      using move_refresh by (simp add: evolves_def refreshed_def)
    then show ?thesis using True assms(3) unfolding move_refresh(1) by (auto intro!: bexI [of _ "refreshed old n"])
  next
    case False
    then show ?thesis using assms(3) unfolding move_refresh(1)
      by (intro bexI [of _ e]) (auto simp: evolves_refl intro!: image_eqI [of _ _ e])
  qed
next
  case (move_resolve P now)
  have "evolves e (if P e \<and> meLive e then resolveRow now e else e)" by (simp add: evolves_def resolveRow_def)
  then show ?thesis using assms(3) unfolding move_resolve set_map by (blast intro: imageI)
next
  case (move_expire P)
  have "evolves e (if P e \<and> meLive e then expireRow e else e)" by (simp add: evolves_def expireRow_def)
  then show ?thesis using assms(3) unfolding move_expire set_map by (blast intro: imageI)
qed (auto intro: bexI [of _ e] evolves_refl)

lemma steps_reachable: "eventStep\<^sup>*\<^sup>* w w' \<Longrightarrow> eventReachable w \<Longrightarrow> eventReachable w'"
  by (induction rule: rtranclp_induct) (auto intro: reach_step)

text \<open>
  C27. The life of an event, over any number of steps: it is never deleted; while it is open its
  identity, subject, dedup key and first detection stay, its evidence only gets newer and its update
  count only grows; and once it is resolved or expired the row never changes again, so no replay
  resurrects it.
\<close>

theorem event_history:
  assumes "eventReachable (env, db)" and "eventStep\<^sup>*\<^sup>* (env, db) (env', db')" and "e \<in> set (edEvents db)"
  shows "\<exists>e' \<in> set (edEvents db'). evolves e e'"
  using assms(2)
proof (induction "(env', db')" arbitrary: env' db' rule: rtranclp_induct)
  case base
  then show ?case using assms(3) evolves_refl by blast
next
  case (step w)
  obtain env1 db1 where w: "w = (env1, db1)" by (cases w)
  with step obtain e1 where e1: "e1 \<in> set (edEvents db1)" "evolves e e1" by blast
  have "tableOk env1 (edEvents db1)"
    using reachable_tableOk [OF steps_reachable [OF step(1) assms(1)]] w by simp
  then obtain e' where "e' \<in> set (edEvents db')" "evolves e1 e'"
    using eventStep_move [of env1 db1 env' db'] step(2) w eventMove_evolves e1(1) unfolding tableOk_def by metis
  then show ?case using e1 evolves_trans by blast
qed

end
