(* ===== verification/EventRecord.thy ===== *)
theory EventRecord
  imports EventLife
begin

text \<open>
  Recording a detected event: its three outcomes, a consumed transition that is ingested once for
  ever, and the threshold a detector fires against being the one the table's trigger accepts.
\<close>

section \<open>Outcomes\<close>

lemma recordEvent_cases:
  assumes "recordEvent env db n = Inr (db', row)"
  shows "(liveByKey db (meAccountID n) (meDedupKey n) = None \<and> row = Some n
           \<and> db' = db\<lparr>edEvents := edEvents db @ [n]\<rparr>)
    \<or> (\<exists>old. liveByKey db (meAccountID n) (meDedupKey n) = Some old \<and>
         (if meLastEvidenceAt old \<le> meLastEvidenceAt n
          then row = Some (refreshed old n) \<and>
            db' = db\<lparr>edEvents := map (\<lambda>e. if meID e = meID old then refreshed old n else e) (edEvents db)\<rparr>
          else row = None \<and> db' = db))"
  using assms by (auto simp: recordEvent_def split: option.splits if_splits)

text \<open>What one writeEvent of a candidate with derived evidence did, by its outcome.\<close>

definition wrote ::
  "event_env \<Rightarrow> event_db \<Rightarrow> event_db \<Rightarrow> uuid \<Rightarrow> event_candidate \<Rightarrow> record_result \<Rightarrow> bool" where
  "wrote env db db' account c res \<longleftrightarrow>
     \<not> rrAlreadyConsumed res \<and>
     (\<exists>q ref n. deriveEvidence env account c = Inr (q, ref) \<and> n = proposedEvent env db account c q ref \<and>
      (case liveByKey db account (ecDedupKey c) of
         None \<Rightarrow> rrOutcome res = OutcomeOpened \<and> \<not> rrDeduped res \<and> rrEvent res = Some n
                 \<and> edEvents db' = edEvents db @ [n]
       | Some old \<Rightarrow> rrDeduped res \<and>
           (if meLastEvidenceAt old \<le> ecDetectedAt c
            then rrOutcome res = OutcomeUpdated \<and> rrEvent res = Some (refreshed old n)
              \<and> edEvents db' = map (\<lambda>e. if meID e = meID old then refreshed old n else e) (edEvents db)
            else rrOutcome res = OutcomeIgnoredStale \<and> rrEvent res = Some old
              \<and> edEvents db' = edEvents db)))"

lemma writeEvent_wrote:
  assumes "writeEvent env alone db account c = (db', Inr res)"
  shows "wrote env db db' account c res \<and> db' = db\<lparr>edEvents := edEvents db'\<rparr>"
proof -
  obtain q ref where d: "deriveEvidence env account c = Inr (q, ref)"
    using assms by (auto simp: writeEvent_def split: sum.splits)
  let ?n = "proposedEvent env db account c q ref"
  have at: "recordAttempts env alone (Suc 3) account c q ref db = (db', Inr res)"
    using assms d by (simp add: writeEvent_def recordMaxAttempts_def)
  from recordAttempts_alone [OF this] obtain row where r: "recordEvent env db ?n = Inr (db', row)" by blast
  show ?thesis
    using recordEvent_cases [OF r] at [unfolded recordAttempts.simps] r d
    by (auto simp: wrote_def Let_def alone_def split: if_splits option.splits)
qed

lemma enqueue_notices:
  "enqueueNotification env db a res = Inr db' \<Longrightarrow>
     edNotices db' = edNotices db @
       (case (evNotifier env, rrEvent res) of
          (Some _, Some e) \<Rightarrow> if rrAlreadyConsumed res \<or> rrOutcome res \<noteq> OutcomeOpened then []
                              else [(a, meID e, meVariantID e)]
        | _ \<Rightarrow> [])"
  by (auto simp: enqueueNotification_def split: option.splits if_splits)

text \<open>
  Further. Recording a candidate that is not consumed from a stream succeeds in exactly three ways: with
  no live event of its account and key it opens one, with the evidence derived from the cited
  observation; with a live one whose evidence is not newer it refreshes that row, in place and counted;
  with a live one of newer evidence it changes no event at all.  It never moves a cursor or touches
  the ledger, and an intent to notify is enqueued exactly for a fresh opening, when a notifier is wired.
\<close>

theorem record_outcomes:
  assumes "recordFor env alone db account c = (db', Inr res)" and "ecConsumption c = None"
  shows "wrote env db db' account c res
    \<and> edLedger db' = edLedger db \<and> edCursors db' = edCursors db \<and> edThresholds db' = edThresholds db
    \<and> edNotices db' = edNotices db @
        (if evNotifier env \<noteq> None \<and> rrOutcome res = OutcomeOpened
         then map (\<lambda>e. (account, meID e, meVariantID e)) (drop (length (edEvents db)) (edEvents db'))
         else [])"
proof -
  have free: "wrote env db db' account c res \<and> edLedger db' = edLedger db \<and> edCursors db' = edCursors db
      \<and> edThresholds db' = edThresholds db \<and> edNotices db' = edNotices db"
    if "writeEvent env alone db account c = (db', Inr res)"
    using writeEvent_wrote [OF that] by (metis (no_types, lifting) event_db.select_convs(2-5) event_db.surjective event_db.update_convs(1))
  have tx: ?thesis if t: "writeEventTx env db account c = (db', Inr res)"
  proof -
    obtain d where w: "writeEvent env alone db account c = (d, Inr res)"
      and q: "enqueueNotification env d account res = Inr db'"
      using t by (auto simp: writeEventTx_def split: prod.splits sum.splits)
    have e: "edEvents db' = edEvents d" using enqueue_events [OF q] by simp
    have "wrote env db db' account c res"
      using writeEvent_wrote [OF w, THEN conjunct1] unfolding wrote_def e .
    moreover have "edLedger d = edLedger db \<and> edCursors d = edCursors db \<and> edThresholds d = edThresholds db
        \<and> edNotices d = edNotices db"
      using writeEvent_wrote [OF w] by (metis (no_types, lifting) event_db.select_convs(2-5) event_db.surjective event_db.update_convs(1))
    ultimately show ?thesis
      using enqueue_events [OF q] enqueue_notices [OF q]
      by (auto simp: wrote_def split: option.splits if_splits)
  qed
  show ?thesis
    using assms free tx by (auto simp: recordFor_def split: if_splits)
qed

section \<open>Ingestion\<close>

definition consumed :: "event_db \<Rightarrow> utext \<Rightarrow> bool" where
  "consumed db key \<longleftrightarrow> key \<in> itInputKey ` set (edLedger db)"

lemma writeEvent_ledger: "writeEvent env alone db account c = (db', r) \<Longrightarrow> edLedger db' = edLedger db"
proof (cases r)
  case (Inl e)
  assume "writeEvent env alone db account c = (db', r)"
  then have "db' = db"
    using Inl recordAttempts_error by (auto simp: writeEvent_def split: sum.splits)
  then show ?thesis by simp
next
  case (Inr res)
  assume "writeEvent env alone db account c = (db', r)"
  then have "db' = db\<lparr>edEvents := edEvents db'\<rparr>" using writeEvent_wrote Inr by blast
  then show ?thesis by (metis event_db.select_convs(3) event_db.surjective event_db.update_convs(1))
qed

lemma recordConsumed_ledger:
  assumes "recordConsumed env db account c con = (db', r)"
  shows "set (edLedger db) \<subseteq> set (edLedger db') \<and> (isOk r \<longrightarrow> consumed db' (cnInputKey con))"
proof -
  let ?t = "\<lparr>itInputKey = cnInputKey con, itAccountID = account, itTargetID = cnTarget con,
       itNativeSellerID = cnNativeSellerID con, itOfferIdentity = cnOfferIdentity con,
       itPrevObservationID = cnPrevObsID con, itCurrObservationID = cnCurrObsID con\<rparr>"
  obtain db1 n where i: "insertInputTransition db ?t = (db1, n)" by fastforce
  then have l: "set (edLedger db) \<subseteq> set (edLedger db1)" "consumed db1 (cnInputKey con)"
    by (auto simp: insertInputTransition_def consumed_def list_ex_iff split: if_splits intro!: image_eqI)
  show ?thesis
    using assms i l writeEvent_ledger [of env db1 account c]
    by (auto simp: recordConsumed_def Let_def consumed_def split: prod.splits sum.splits if_splits
        dest!: enqueue_events)
qed

lemma recordFor_ledger:
  assumes "recordFor env alone db account c = (db', r)"
  shows "set (edLedger db) \<subseteq> set (edLedger db')"
proof -
  have tx: "edLedger d = edLedger db" if "writeEventTx env db account c = (d, r)" for d
    using that by (auto simp: writeEventTx_def split: prod.splits sum.splits
        dest!: writeEvent_ledger enqueue_events)
  show ?thesis
    using assms tx [of db'] writeEvent_ledger recordConsumed_ledger [of env db account c _ db' r]
    by (auto simp: recordFor_def split: if_splits option.splits)
qed

lemma updateWhere_ledger: "updateWhere env db P f = Inr (db', n) \<Longrightarrow> edLedger db' = edLedger db"
  by (auto simp: updateWhere_def split: if_splits)

lemma eventStep_ledger: "eventStep (env, db) (env', db') \<Longrightarrow> set (edLedger db) \<subseteq> set (edLedger db')"
proof (induction "(env, db)" "(env', db')" rule: eventStep.induct)
  case (step_upsert c q ref d row account)
  then show ?case using recordEvent_cases [OF step_upsert(2)] by (auto split: if_splits)
qed (auto simp: advanceConsumedCursor_def resolveEvent_def resolveOpen_def expireStale_def expireStaleAll_def
    setThreshold_def recordRelevance_def Let_def result_simps split: option.splits if_splits
    dest: recordFor_ledger [THEN subsetD] updateWhere_ledger)

lemma steps_ledger: "eventStep\<^sup>*\<^sup>* w w' \<Longrightarrow> set (edLedger (snd w)) \<subseteq> set (edLedger (snd w'))"
proof (induction rule: rtranclp_induct)
  case (step w1 w2)
  then show ?case using eventStep_ledger [of "fst w1" "snd w1" "fst w2" "snd w2"] by auto
qed simp

text \<open>
  C26. A transition of an observation stream is ingested once: after a successful recording of its
  consumption, whatever else happens since, sweeps and clearances that free its dedup key included,
  recording any candidate with the same input key writes no event and notifies no one; it only moves
  the stream's cursor, forward.
\<close>

theorem ingestion_exactly_once:
  assumes "recordFor env alone db account c = (db1, Inr res)" and "ecConsumption c = Some con"
    and "eventStep\<^sup>*\<^sup>* (env, db1) (env', db2)"
    and "ecConsumption c' = Some con'" and "cnInputKey con' = cnInputKey con"
    and "recordFor env' alone db2 account' c' = (db3, r)"
  shows "edEvents db3 = edEvents db2 \<and> edNotices db3 = edNotices db2 \<and> edLedger db3 = edLedger db2
    \<and> (\<forall>res'. r = Inr res' \<longrightarrow> rrAlreadyConsumed res'
         \<and> db3 = advanceObservationCursor db2 account' con')"
proof -
  have "recordConsumed env db account c con = (db1, Inr res)"
    using assms(1,2) by (auto simp: recordFor_def split: if_splits)
  then have "consumed db1 (cnInputKey con)" using recordConsumed_ledger by (metis isOk_simps(2))
  then have "consumed db2 (cnInputKey con')" using steps_ledger [OF assms(3)] assms(5) by (auto simp: consumed_def)
  then have i: "insertInputTransition db2 t = (db2, 0)" if "itInputKey t = cnInputKey con'" for t
    using that by (auto simp: insertInputTransition_def consumed_def list_ex_iff)
  have n: "enqueueNotification env' d account' alreadyConsumedResult = Inr d" for d
    by (simp add: enqueueNotification_def alreadyConsumedResult_def split: option.splits)
  then have "recordConsumed env' db2 account' c' con' =
      (advanceObservationCursor db2 account' con', Inr alreadyConsumedResult)"
    by (simp add: recordConsumed_def i)
  then show ?thesis
    using assms(4,6) by (auto simp: recordFor_def alreadyConsumedResult_def split: if_splits)
qed

section \<open>Thresholds in force\<close>

lemma find_by_key: "distinct (map k xs) \<Longrightarrow> x \<in> set xs \<Longrightarrow> find (\<lambda>y. k y = k x) xs = Some x"
  by (induction xs) (auto simp: image_iff)

definition newerThan :: "threshold_row \<Rightarrow> threshold_row \<Rightarrow> bool" where
  "newerThan a m \<longleftrightarrow> trEffectiveFrom a < trEffectiveFrom m \<or>
     trEffectiveFrom a = trEffectiveFrom m \<and> trVersion a < trVersion m"

lemma newerThan_order: "\<not> newerThan a x \<Longrightarrow> newerThan b x \<Longrightarrow> \<not> newerThan a b"
  "\<not> newerThan a x \<Longrightarrow> \<not> newerThan x b \<Longrightarrow> \<not> newerThan a b" "\<not> newerThan a a"
  by (auto simp: newerThan_def)

lemma laterThreshold_newer:
  "laterThreshold acc t = (case acc of None \<Rightarrow> Some t | Some a \<Rightarrow> if newerThan a t then Some t else Some a)"
  by (simp add: laterThreshold_def newerThan_def split: option.split)

lemma laterThreshold_fold:
  "foldl laterThreshold acc ts = Some t \<Longrightarrow> (acc = Some t \<or> t \<in> set ts) \<and>
     (\<forall>m. acc = Some m \<or> m \<in> set ts \<longrightarrow> \<not> newerThan t m)"
proof (induction ts arbitrary: acc)
  case (Cons x xs)
  then have ih: "(laterThreshold acc x = Some t \<or> t \<in> set xs) \<and>
      (\<forall>m. laterThreshold acc x = Some m \<or> m \<in> set xs \<longrightarrow> \<not> newerThan t m)" by simp
  show ?case
  proof (cases acc)
    case None
    then show ?thesis using ih by (auto simp: laterThreshold_newer)
  next
    case (Some a)
    then show ?thesis using ih newerThan_order(1) [of t x a] newerThan_order(2) [of t a x]
      by (cases "newerThan a x") (auto simp: laterThreshold_newer)
  qed
qed (simp add: newerThan_order)

lemma laterThreshold_None: "foldl laterThreshold acc ts = None \<longleftrightarrow> acc = None \<and> ts = []"
proof (induction ts arbitrary: acc)
  case (Cons x xs)
  then show ?case by (auto simp: laterThreshold_def split: option.splits)
qed simp

lemma setThreshold_ids:
  "setThreshold db i p = Inr (db', t) \<Longrightarrow> distinct (map trID (edThresholds db)) \<Longrightarrow>
     distinct (map trID (edThresholds db'))"
  by (auto simp: setThreshold_def Let_def list_ex_iff split: if_splits)

text \<open>
  Further. The threshold a detection resolves is the one in force: a row of its account, category and type
  that is effective at the instant and that no effective row supersedes, and none is resolved only
  when there is no effective row.  An event of that detection that cites it passes the provenance
  trigger of the event table, which demands exactly that: the resolver and the trigger agree.
\<close>

theorem threshold_in_force:
  assumes "distinct (map trID (edThresholds db))"
  shows "case inForceRow db account category t at of
      None \<Rightarrow> \<not> (\<exists>r \<in> set (edThresholds db). trAccountID r = account \<and> trCategory r = category
                  \<and> trEventType r = t \<and> trEffectiveFrom r \<le> at)
    | Some r \<Rightarrow> r \<in> set (edThresholds db) \<and> trAccountID r = account \<and> trCategory r = category
        \<and> trEventType r = t \<and> trEffectiveFrom r \<le> at
        \<and> \<not> (\<exists>m \<in> set (edThresholds db). supersedes at r m)
        \<and> (\<forall>e. meAccountID e = account \<and> meType e = t \<and> meLastEvidenceAt e = at \<and> t \<noteq> TypeContributionFloor
             \<and> meThresholdID e = Some (trID r) \<and> meThresholdVersion e = Some (trVersion r)
             \<longrightarrow> thresholdProvenance db None e)"
proof (cases "inForceRow db account category t at")
  case None
  then show ?thesis by (auto simp: inForceRow_def laterThreshold_None filter_empty_conv)
next
  case (Some r)
  let ?ts = "filter (\<lambda>r. trAccountID r = account \<and> trCategory r = category \<and> trEventType r = t
               \<and> trEffectiveFrom r \<le> at) (edThresholds db)"
  from laterThreshold_fold [OF Some [unfolded inForceRow_def]]
  have r: "r \<in> set ?ts" and m: "\<forall>m \<in> set ?ts. \<not> newerThan r m"
    by auto
  then have s: "\<not> supersedes at r m" if "m \<in> set (edThresholds db)" for m
    using that by (auto simp: supersedes_def newerThan_def)
  have f: "find (\<lambda>x. trID x = trID r) (edThresholds db) = Some r"
    using find_by_key [OF assms] r by simp
  have "thresholdProvenance db None e"
    if "meAccountID e = account \<and> meType e = t \<and> meLastEvidenceAt e = at \<and> t \<noteq> TypeContributionFloor
      \<and> meThresholdID e = Some (trID r) \<and> meThresholdVersion e = Some (trVersion r)" for e
  proof -
    have "\<not> list_ex (supersedes at r) (edThresholds db)" using s by (auto simp: list_ex_iff)
    moreover have "thresholdByID db (trID r) = Some r" using f by (simp add: thresholdByID_def)
    ultimately show ?thesis using that r by (simp add: thresholdProvenance_def)
  qed
  then show ?thesis using Some r s by simp
qed

end
