(* ===== verification/EventProducer.thy ===== *)
theory EventProducer
  imports EventRecord "HOL-Library.Product_Lexorder"
begin

text \<open>
  The runtime producer of market events: the observation source that drains the streams of competing
  offers (services/core/internal/event/obssource.go) and the pass that evaluates, records, resolves
  and advances (producer.go).
\<close>

section \<open>Transitions (producer.go)\<close>

record transition =
  tnAccount :: uuid
  tnCategory :: utext
  tnType :: event_type
  tnWinning :: "winning_input option"
  tnPrice :: "price_input option"
  tnSeller :: "seller_input option"
  tnSuppression :: "suppression_input option"
  tnFloor :: "floor_input option"

section \<open>The observation source (obssource.go)\<close>

definition validatedOwnedSeller :: "utext option \<Rightarrow> utext option" where
  "validatedOwnedSeller v =
     (case v of
        None \<Rightarrow> None
      | Some s \<Rightarrow> if s = [] then None else if list_all (\<lambda>r. 48 \<le> r \<and> r \<le> 57) s then Some s else None)"

type_synonym stream_key = "utext \<times> utext"

definition rowStream :: "observation_row \<Rightarrow> stream_key" where
  "rowStream r = (cpNativeSellerID (obCapture r), obOfferIdentity r)"

definition rowAt :: "observation_row \<Rightarrow> instant \<times> uuid" where
  "rowAt r = (cpCapturedAt (obCapture r), obID r)"

definition rowValue :: "observation_row \<Rightarrow> utext" where
  "rowValue r = raValue (cpPrice (obCapture r))"

text \<open>
  ListUnconsumedObservationsByTarget: per competing stream the oldest rows strictly after the cursor,
  at most a page of each.  The streams come in the order of their texts; the code relies on no more
  than that each stream's rows are contiguous.
\<close>

definition cursorAt :: "event_db \<Rightarrow> uuid \<Rightarrow> stream_key \<Rightarrow> (instant \<times> uuid) option" where
  "cursorAt db target s =
     map_option (\<lambda>c. (ccLastCapturedAt c, ccLastObservationID c)) (edCursors db (target, s))"

definition unconsumedRow :: "event_db \<Rightarrow> uuid \<Rightarrow> observation_row \<Rightarrow> bool" where
  "unconsumedRow db target r \<longleftrightarrow>
     (case cursorAt db target (rowStream r) of None \<Rightarrow> True | Some p \<Rightarrow> p < rowAt r)"

definition streamRows :: "event_env \<Rightarrow> event_db \<Rightarrow> uuid \<Rightarrow> stream_key \<Rightarrow> observation_row list" where
  "streamRows env db target s =
     sort_key rowAt (filter (\<lambda>r. cpTargetID (obCapture r) = target \<and> rowStream r = s \<and> unconsumedRow db target r)
                       (odObservations (evObs env)))"

definition competingStreams :: "event_env \<Rightarrow> uuid \<Rightarrow> utext \<Rightarrow> stream_key list" where
  "competingStreams env target ownedSeller =
     sort (remdups (map rowStream
       (filter (\<lambda>r. cpTargetID (obCapture r) = target \<and> cpNativeSellerID (obCapture r) \<noteq> ownedSeller)
          (odObservations (evObs env)))))"

definition listUnconsumed :: "event_env \<Rightarrow> event_db \<Rightarrow> uuid \<Rightarrow> utext \<Rightarrow> nat \<Rightarrow> observation_row list" where
  "listUnconsumed env db target ownedSeller page =
     concat (map (\<lambda>s. take page (streamRows env db target s)) (competingStreams env target ownedSeller))"

record obs_cursor =
  ocID :: uuid
  ocValue :: utext

definition cursorOfRow :: "observation_row \<Rightarrow> obs_cursor" where
  "cursorOfRow r = \<lparr>ocID = obID r, ocValue = rowValue r\<rparr>"

definition anchorOf :: "event_db \<Rightarrow> uuid \<Rightarrow> stream_key \<Rightarrow> obs_cursor option" where
  "anchorOf db target s =
     map_option (\<lambda>c. \<lparr>ocID = ccLastObservationID c, ocValue = ccLastPriceRawValue c\<rparr>)
       (edCursors db (target, s))"

definition inputTransitionKey :: "event_env \<Rightarrow> uuid \<Rightarrow> utext \<Rightarrow> utext \<Rightarrow> uuid \<Rightarrow> uuid \<Rightarrow> utext" where
  "inputTransitionKey env target seller offer prev_id curr_id =
     runes (evUUIDText env target) @ runes ''|'' @ seller @ runes ''|'' @ offer @ runes ''|''
       @ runes (evUUIDText env prev_id) @ runes ''|'' @ runes (evUUIDText env curr_id)"

definition buildTransition ::
  "event_env \<Rightarrow> duration \<Rightarrow> uuid \<Rightarrow> uuid \<Rightarrow> obs_cursor \<Rightarrow> observation_row \<Rightarrow> transition" where
  "buildTransition env ttl account target p r =
     \<lparr>tnAccount = account, tnCategory = runes ''*'', tnType = TypeCompetitorPrice, tnWinning = None,
      tnPrice = Some
        \<lparr>piVariant = evTargetVariant env target, piTarget = target, piOfferIdentity = obOfferIdentity r,
         piPrevValue = ocValue p, piCurrValue = rowValue r, piUnit = raUnit (cpPrice (obCapture r)),
         piExposure = unknownExposure,
         piEvidence = \<lparr>veObservationID = obID r, veQuality = obQuality r,
                       veRef = cpEvidenceRef (obCapture r), veDetail = []\<rparr>,
         piNow = cpCapturedAt (obCapture r), piTTL = ttl, piThreshold = zeroThreshold,
         piConsumption = Some
           \<lparr>cnInputKey = inputTransitionKey env target (cpNativeSellerID (obCapture r)) (obOfferIdentity r)
                           (ocID p) (obID r),
            cnAccount = account, cnTarget = target, cnNativeSellerID = cpNativeSellerID (obCapture r),
            cnOfferIdentity = obOfferIdentity r, cnPrevObsID = ocID p, cnCurrObsID = obID r,
            cnCurrCapturedAt = cpCapturedAt (obCapture r), cnCurrValue = rowValue r\<rparr>\<rparr>,
      tnSeller = None, tnSuppression = None, tnFloor = None\<rparr>"

text \<open>
  The loop over the drained rows: \<open>cur\<close> is the stream of the run, \<open>p\<close> its anchor.
\<close>

fun pairRows ::
  "event_env \<Rightarrow> duration \<Rightarrow> uuid \<Rightarrow> uuid \<Rightarrow> (stream_key \<Rightarrow> obs_cursor option) \<Rightarrow> stream_key option
    \<Rightarrow> obs_cursor option \<Rightarrow> observation_row list \<Rightarrow> transition list" where
  "pairRows env ttl account target anchor cur p [] = []"
| "pairRows env ttl account target anchor cur p (r # rs) =
     (let p' = (if cur = Some (rowStream r) then p else anchor (rowStream r));
          rest = pairRows env ttl account target anchor (Some (rowStream r)) (Some (cursorOfRow r)) rs in
      (case p' of
         None \<Rightarrow> rest
       | Some q \<Rightarrow> if rowValue r \<noteq> ocValue q then buildTransition env ttl account target q r # rest else rest))"

definition highWater :: "uuid \<Rightarrow> uuid \<Rightarrow> observation_row \<Rightarrow> consumption" where
  "highWater account target r =
     \<lparr>cnInputKey = [], cnAccount = account, cnTarget = target,
      cnNativeSellerID = cpNativeSellerID (obCapture r), cnOfferIdentity = obOfferIdentity r,
      cnPrevObsID = 0, cnCurrObsID = obID r, cnCurrCapturedAt = cpCapturedAt (obCapture r),
      cnCurrValue = rowValue r\<rparr>"

definition setHighWater :: "consumption list \<Rightarrow> consumption \<Rightarrow> consumption list" where
  "setHighWater drained m =
     (if drained \<noteq> [] \<and> streamOf (last drained) = streamOf m then butlast drained @ [m] else drained @ [m])"

definition targetTransitions ::
  "event_env \<Rightarrow> event_db \<Rightarrow> nat \<Rightarrow> duration \<Rightarrow> uuid \<Rightarrow> utext \<Rightarrow> uuid \<Rightarrow> consumption list
    \<Rightarrow> transition list \<times> consumption list" where
  "targetTransitions env db page ttl account ownedSeller target drained =
     (let rows = listUnconsumed env db target ownedSeller page in
      (pairRows env ttl account target (anchorOf db target) None None rows,
       foldl setHighWater drained (map (highWater account target) rows)))"

text \<open>Transitions: an account whose owned seller is unresolved is left out altogether.\<close>

definition accountTargets :: "event_env \<Rightarrow> (uuid \<times> utext \<times> uuid) list" where
  "accountTargets env =
     concat (map (\<lambda>a. case validatedOwnedSeller (maOwnedSellerID a) of
                        None \<Rightarrow> []
                      | Some s \<Rightarrow> map (\<lambda>t. (maID a, s, otID t)) (listTargets (evTargets env) (maID a)))
               (evAccounts env))"

fun drainTargets ::
  "event_env \<Rightarrow> event_db \<Rightarrow> nat \<Rightarrow> duration \<Rightarrow> (uuid \<times> utext \<times> uuid) list \<Rightarrow> consumption list
    \<Rightarrow> transition list \<times> consumption list" where
  "drainTargets env db page ttl [] drained = ([], drained)"
| "drainTargets env db page ttl ((account, s, target) # ts) drained =
     (let (trs, drained') = targetTransitions env db page ttl account s target drained;
          (rest, drained'') = drainTargets env db page ttl ts drained'
      in (trs @ rest, drained''))"

definition transitions ::
  "event_env \<Rightarrow> event_db \<Rightarrow> nat \<Rightarrow> duration \<Rightarrow> transition list \<times> consumption list" where
  "transitions env db page ttl = drainTargets env db page ttl (accountTargets env) []"

section \<open>Evaluation\<close>

text \<open>
  Which calls of the pass fail with a transient error of the database; the model's own rejections
  come on top.
\<close>

record pass_faults =
  pfExpire :: bool
  pfLoad :: bool
  pfThreshold :: "transition \<Rightarrow> bool"
  pfResolve :: "transition \<Rightarrow> bool"
  pfRecord :: "transition \<Rightarrow> bool"
  pfAdvance :: "consumption \<Rightarrow> bool"

text \<open>\<open>time.Time{}\<close>, the first instant of year 1.\<close>

definition goZeroTime :: instant where
  "goZeroTime = - 62135596800 * second"

definition resolveThreshold ::
  "event_env \<Rightarrow> event_db \<Rightarrow> pass_faults \<Rightarrow> transition \<Rightarrow> instant \<Rightarrow> (event_error, event_threshold) result" where
  "resolveThreshold env db flt tr at =
     (if pfThreshold flt tr then Inl ErrTransient
      else Inr (case thresholdAsOf db (tnAccount tr) (tnCategory tr) (tnType tr)
                       (if at = goZeroTime then evNow env else at) of
                  None \<Rightarrow> zeroThreshold | Some t \<Rightarrow> t))"

definition withThreshold ::
  "event_env \<Rightarrow> event_db \<Rightarrow> pass_faults \<Rightarrow> transition \<Rightarrow> 'i option \<Rightarrow> ('i \<Rightarrow> instant)
    \<Rightarrow> (event_threshold \<Rightarrow> 'i \<Rightarrow> event_candidate option) \<Rightarrow> (event_error, event_candidate option) result" where
  "withThreshold env db flt tr payload at run =
     (case payload of
        None \<Rightarrow> Inl ErrMissingInput
      | Some i \<Rightarrow> andThen (resolveThreshold env db flt tr (at i)) (\<lambda>thr. Inr (run thr i)))"

definition evaluate ::
  "event_env \<Rightarrow> event_db \<Rightarrow> pass_faults \<Rightarrow> transition \<Rightarrow> (event_error, event_candidate option) result" where
  "evaluate env db flt tr =
     (case tnType tr of
        TypeWinningState \<Rightarrow> withThreshold env db flt tr (tnWinning tr) wiNow
          (\<lambda>thr i. detectWinningState (evUUIDText env) (i\<lparr>wiThreshold := thr\<rparr>))
      | TypeCompetitorPrice \<Rightarrow> withThreshold env db flt tr (tnPrice tr) piNow
          (\<lambda>thr i. detectCompetitorPrice (evUUIDText env) (i\<lparr>piThreshold := thr\<rparr>))
      | TypeSellerCount \<Rightarrow> withThreshold env db flt tr (tnSeller tr) siNow
          (\<lambda>thr i. detectSellerCount (evUUIDText env) (i\<lparr>siThreshold := thr\<rparr>))
      | TypeSuppressionBoundary \<Rightarrow> withThreshold env db flt tr (tnSuppression tr) upNow
          (\<lambda>thr i. detectSuppressionBoundary (evUUIDText env) (i\<lparr>upThreshold := thr\<rparr>))
      | TypeContributionFloor \<Rightarrow>
          (case tnFloor tr of None \<Rightarrow> Inl ErrMissingInput
           | Some i \<Rightarrow> mapErr ErrMoney (detectContributionFloor (evUUIDText env) i))
      | TypeOther t \<Rightarrow> Inl ErrUnknownTransition)"

definition transitionDedupKey :: "event_env \<Rightarrow> transition \<Rightarrow> utext option" where
  "transitionDedupKey env tr =
     (case tnType tr of
        TypeWinningState \<Rightarrow>
          map_option (\<lambda>i. eventDedupKey (evUUIDText env) TypeWinningState (wiVariant i) []) (tnWinning tr)
      | TypeCompetitorPrice \<Rightarrow>
          map_option (\<lambda>i. eventDedupKey (evUUIDText env) TypeCompetitorPrice (piVariant i) (piOfferIdentity i))
            (tnPrice tr)
      | TypeSellerCount \<Rightarrow>
          map_option (\<lambda>i. eventDedupKey (evUUIDText env) TypeSellerCount (siVariant i) []) (tnSeller tr)
      | TypeSuppressionBoundary \<Rightarrow>
          map_option (\<lambda>i. eventDedupKey (evUUIDText env) TypeSuppressionBoundary (upVariant i) []) (tnSuppression tr)
      | TypeContributionFloor \<Rightarrow>
          map_option (\<lambda>i. eventDedupKey (evUUIDText env) TypeContributionFloor (fiVariant i) []) (tnFloor tr)
      | TypeOther t \<Rightarrow> None)"

section \<open>The pass (RunOnce)\<close>

record pass_metrics =
  pmScanned :: nat
  pmProduced :: nat
  pmDeduped :: nat
  pmDormant :: nat
  pmResolved :: nat
  pmExpired :: nat
  pmSkipped :: nat
  pmStreamBlocked :: nat
  pmErrors :: nat

definition zeroMetrics :: pass_metrics where
  "zeroMetrics =
     \<lparr>pmScanned = 0, pmProduced = 0, pmDeduped = 0, pmDormant = 0, pmResolved = 0, pmExpired = 0,
      pmSkipped = 0, pmStreamBlocked = 0, pmErrors = 0\<rparr>"

record pass_state =
  psDb :: event_db
  psMetrics :: pass_metrics
  psMaterialized :: "utext list"
  psBlocked :: "utext list"

definition consumptionStreamKey :: "event_env \<Rightarrow> consumption \<Rightarrow> utext" where
  "consumptionStreamKey env con =
     runes (evUUIDText env (cnTarget con)) @ runes ''|'' @ cnNativeSellerID con @ runes ''|''
       @ cnOfferIdentity con"

definition addError :: "pass_state \<Rightarrow> pass_state" where
  "addError st = st\<lparr>psMetrics := (psMetrics st)\<lparr>pmErrors := pmErrors (psMetrics st) + 1\<rparr>\<rparr>"

definition addDormant :: "pass_state \<Rightarrow> pass_state" where
  "addDormant st = st\<lparr>psMetrics := (psMetrics st)\<lparr>pmDormant := pmDormant (psMetrics st) + 1\<rparr>\<rparr>"

text \<open>The detector did not fire: an open event of the transition's key is resolved.\<close>

definition clearOne :: "event_env \<Rightarrow> pass_faults \<Rightarrow> transition \<Rightarrow> pass_state \<Rightarrow> pass_state" where
  "clearOne env flt tr st =
     (case transitionDedupKey env tr of
        None \<Rightarrow> addDormant st
      | Some key \<Rightarrow>
          if key \<in> set (psMaterialized st) then addDormant st
          else if pfResolve flt tr then addError st
          else
            (case resolveOpen env (psDb st) (tnAccount tr) key of
               Inl e \<Rightarrow> addError st
             | Inr (db', resolved) \<Rightarrow>
                 if resolved
                 then st\<lparr>psDb := db',
                         psMetrics := (psMetrics st)\<lparr>pmResolved := pmResolved (psMetrics st) + 1\<rparr>\<rparr>
                 else addDormant (st\<lparr>psDb := db'\<rparr>)))"

definition recordOne ::
  "event_env \<Rightarrow> pass_faults \<Rightarrow> transition \<Rightarrow> event_candidate \<Rightarrow> pass_state \<Rightarrow> pass_state" where
  "recordOne env flt tr c st =
     (let (db', r) = (if pfRecord flt tr then (psDb st, Inl ErrTransient)
                      else recordFor env alone (psDb st) (tnAccount tr) c) in
      (case r of
         Inl e \<Rightarrow>
           (let st' = addError (st\<lparr>psDb := db'\<rparr>) in
            (case ecConsumption c of
               None \<Rightarrow> st'
             | Some con \<Rightarrow> st'\<lparr>psBlocked := consumptionStreamKey env con # psBlocked st'\<rparr>))
       | Inr res \<Rightarrow>
           (let m = psMetrics st; st' = st\<lparr>psDb := db'\<rparr> in
            if rrAlreadyConsumed res then st'\<lparr>psMetrics := m\<lparr>pmSkipped := pmSkipped m + 1\<rparr>\<rparr>
            else if rrDeduped res
            then st'\<lparr>psMetrics := m\<lparr>pmDeduped := pmDeduped m + 1\<rparr>,
                     psMaterialized := ecDedupKey c # psMaterialized st\<rparr>
            else st'\<lparr>psMetrics := m\<lparr>pmProduced := pmProduced m + 1\<rparr>,
                     psMaterialized := ecDedupKey c # psMaterialized st\<rparr>)))"

definition produceOne :: "event_env \<Rightarrow> pass_faults \<Rightarrow> pass_state \<Rightarrow> transition \<Rightarrow> pass_state" where
  "produceOne env flt st0 tr =
     (let st = st0\<lparr>psMetrics := (psMetrics st0)\<lparr>pmScanned := pmScanned (psMetrics st0) + 1\<rparr>\<rparr> in
      (case evaluate env (psDb st) flt tr of
         Inl e \<Rightarrow> addError st
       | Inr None \<Rightarrow> clearOne env flt tr st
       | Inr (Some c) \<Rightarrow>
           if (case ecConsumption c of None \<Rightarrow> False
               | Some con \<Rightarrow> consumptionStreamKey env con \<in> set (psBlocked st))
           then st\<lparr>psMetrics := (psMetrics st)\<lparr>pmStreamBlocked := pmStreamBlocked (psMetrics st) + 1\<rparr>\<rparr>
           else recordOne env flt tr c st))"

definition advanceOne :: "event_env \<Rightarrow> pass_faults \<Rightarrow> pass_state \<Rightarrow> consumption \<Rightarrow> pass_state" where
  "advanceOne env flt st mark =
     (if consumptionStreamKey env mark \<in> set (psBlocked st) then st
      else if pfAdvance flt mark then addError st
      else st\<lparr>psDb := advanceConsumedCursor (psDb st) mark\<rparr>)"

definition sweepFirst :: "event_env \<Rightarrow> pass_faults \<Rightarrow> event_db \<Rightarrow> pass_state" where
  "sweepFirst env flt db =
     (let st = \<lparr>psDb = db, psMetrics = zeroMetrics, psMaterialized = [], psBlocked = []\<rparr> in
      if pfExpire flt then addError st
      else
        (case expireStaleAll env db (evNow env) of
           Inl e \<Rightarrow> addError st
         | Inr (db', n) \<Rightarrow> st\<lparr>psDb := db', psMetrics := zeroMetrics\<lparr>pmExpired := n\<rparr>\<rparr>))"

definition runOnce ::
  "event_env \<Rightarrow> pass_faults \<Rightarrow> nat \<Rightarrow> duration \<Rightarrow> event_db \<Rightarrow> event_db \<times> pass_metrics" where
  "runOnce env flt page ttl db =
     (let st = sweepFirst env flt db in
      if pfLoad flt then (psDb (addError st), psMetrics (addError st))
      else
        (let (trs, marks) = transitions env (psDb st) page ttl;
             st' = foldl (advanceOne env flt) (foldl (produceOne env flt) st trs) marks
         in (psDb st', psMetrics st')))"

end
