(* ===== verification/EventPass.thy ===== *)
theory EventPass
  imports EventProducer
begin

text \<open>
  What the producer's pass shows: it is a run of the store's steps, it pairs the adjacent
  observations of one stream and of nothing else, and error-free passes drain every stream.
\<close>

section \<open>A pass is a run of the store's steps\<close>

lemma addError_db [simp]: "psDb (addError st) = psDb st" "psDb (addDormant st) = psDb st"
  "psBlocked (addError st) = psBlocked st" "psBlocked (addDormant st) = psBlocked st"
  "pmErrors (psMetrics (addError st)) = Suc (pmErrors (psMetrics st))"
  "pmErrors (psMetrics (addDormant st)) = pmErrors (psMetrics st)"
  by (simp_all add: addError_def addDormant_def)

text \<open>What holds of recording and of clearing holds of a transition.\<close>

lemma produceOne_rule:
  assumes "\<And>s c. Q (psDb s) (psDb (recordOne env flt tr c s))"
    and "\<And>s. Q (psDb s) (psDb (clearOne env flt tr s))" and "\<And>d. Q d d"
  shows "Q (psDb st) (psDb (produceOne env flt st tr))"
proof -
  let ?s = "st\<lparr>psMetrics := (psMetrics st)\<lparr>pmScanned := pmScanned (psMetrics st) + 1\<rparr>\<rparr>"
  have "Q (psDb st) (psDb (recordOne env flt tr c ?s))" "Q (psDb st) (psDb (clearOne env flt tr ?s))" for c
    using assms(1) [of ?s] assms(2) [of ?s] by simp_all
  then show ?thesis
    using assms(3) by (auto simp: produceOne_def Let_def split: sum.split option.split)
qed

lemma produceOne_steps:
  "eventStep\<^sup>*\<^sup>* (env, psDb st) (env, psDb (produceOne env flt st tr))"
proof -
  have rec: "eventStep\<^sup>*\<^sup>* (env, psDb s) (env, psDb (recordOne env flt tr c s))" for c s
  proof (cases "pfRecord flt tr")
    case True
    then show ?thesis by (simp add: recordOne_def Let_def split: option.split)
  next
    case False
    obtain db' r where r: "recordFor env alone (psDb s) (tnAccount tr) c = (db', r)" by fastforce
    then have "psDb (recordOne env flt tr c s) = db'"
      using False by (simp add: recordOne_def Let_def split: sum.split option.split)
    then show ?thesis using step_record [OF r] by auto
  qed
  have clear: "eventStep\<^sup>*\<^sup>* (env, psDb s) (env, psDb (clearOne env flt tr s))" for s
    by (auto simp: clearOne_def split: option.split sum.split intro: step_resolve_open)
  show ?thesis
    using rec clear
    by (rule produceOne_rule [of "\<lambda>a b. eventStep\<^sup>*\<^sup>* (env, a) (env, b)"]) simp
qed

lemma advanceOne_steps: "eventStep\<^sup>*\<^sup>* (env, psDb st) (env, psDb (advanceOne env flt st m))"
  by (auto simp: advanceOne_def intro: step_cursor)

lemma foldl_steps:
  assumes "\<And>st x. eventStep\<^sup>*\<^sup>* (env, psDb st) (env, psDb (f st x))"
  shows "eventStep\<^sup>*\<^sup>* (env, psDb st) (env, psDb (foldl f st xs))"
proof (induction xs arbitrary: st)
  case (Cons x xs)
  then show ?case using assms [of st x] by (simp) (metis rtranclp_trans)
qed simp

lemma sweepFirst_steps: "eventStep\<^sup>*\<^sup>* (env, db) (env, psDb (sweepFirst env flt db))"
  by (auto simp: sweepFirst_def Let_def split: sum.split intro: step_expire_all)

lemma runOnce_steps: "eventStep\<^sup>*\<^sup>* (env, db) (env, fst (runOnce env flt page ttl db))"
proof -
  obtain trs marks where t: "transitions env (psDb (sweepFirst env flt db)) page ttl = (trs, marks)" by fastforce
  let ?st = "sweepFirst env flt db"
  have "eventStep\<^sup>*\<^sup>* (env, db) (env, psDb (foldl (advanceOne env flt) (foldl (produceOne env flt) ?st trs) marks))"
    using sweepFirst_steps [of env db flt]
      foldl_steps [of env "produceOne env flt" ?st trs, OF produceOne_steps]
      foldl_steps [of env "advanceOne env flt" "foldl (produceOne env flt) ?st trs" marks, OF advanceOne_steps]
    by (meson rtranclp_trans)
  then show ?thesis
    using sweepFirst_steps [of env db flt] by (simp add: runOnce_def Let_def t)
qed

section \<open>Cursors only move forward\<close>

definition forward :: "event_db \<Rightarrow> event_db \<Rightarrow> bool" where
  "forward db db' \<longleftrightarrow>
     (\<forall>t s p. cursorAt db t s = Some p \<longrightarrow> (\<exists>p'. cursorAt db' t s = Some p' \<and> p \<le> p'))"

lemma forward_refl [simp]: "forward db db"
  by (simp add: forward_def)

lemma forward_trans: "forward a b \<Longrightarrow> forward b c \<Longrightarrow> forward a c"
  unfolding forward_def by (meson order_trans)

lemma forward_same:
  assumes "edCursors db' = edCursors db"
  shows "forward db db'"
proof -
  have "cursorAt db' = cursorAt db" using assms by (intro ext) (simp add: cursorAt_def)
  then show ?thesis by (simp add: forward_def del: split_paired_All split_paired_Ex less_eq_prod_simp)
qed

definition markAt :: "consumption \<Rightarrow> instant \<times> uuid" where
  "markAt con = (cnCurrCapturedAt con, cnCurrObsID con)"

lemma cursorAt_advance:
  "cursorAt (advanceObservationCursor db a con) t s =
     (if (t, s) = streamOf con
      then Some (case cursorAt db t s of None \<Rightarrow> markAt con
                 | Some p \<Rightarrow> if p < markAt con then markAt con else p)
      else cursorAt db t s)"
proof (cases "edCursors db (streamOf con)")
  case None
  then show ?thesis by (simp add: advanceObservationCursor_def cursorAt_def markAt_def Let_def)
next
  case (Some c)
  let ?before = "ccLastCapturedAt c < cnCurrCapturedAt con \<or>
      ccLastCapturedAt c = cnCurrCapturedAt con \<and> ccLastObservationID c < cnCurrObsID con"
  have b: "(ccLastCapturedAt c, ccLastObservationID c) < markAt con \<longleftrightarrow> ?before"
    by (auto simp: markAt_def)
  show ?thesis
  proof (cases ?before)
    case True
    then show ?thesis using Some b
      by (simp add: advanceObservationCursor_def cursorAt_def markAt_def Let_def del: less_prod_simp)
  next
    case False
    then have "advanceObservationCursor db a con = db" using Some by (auto simp: advanceObservationCursor_def Let_def)
    then show ?thesis using Some b False by (simp add: cursorAt_def del: less_prod_simp)
  qed
qed

lemma advance_forward: "forward db (advanceObservationCursor db a con)"
  by (auto simp: forward_def cursorAt_advance simp del: split_paired_All split_paired_Ex less_prod_simp
      less_eq_prod_simp intro: less_imp_le)

lemma advance_reaches:
  "\<exists>p. cursorAt (advanceObservationCursor db a con) (fst (streamOf con)) (snd (streamOf con)) = Some p
       \<and> markAt con \<le> p"
  by (auto simp: cursorAt_advance not_less simp del: split_paired_All split_paired_Ex less_prod_simp
      less_eq_prod_simp split: option.split)

lemma writeEvent_cursors:
  "writeEvent env alone db account c = (db', r) \<Longrightarrow> edCursors db' = edCursors db"
proof (cases r)
  case (Inl e)
  assume "writeEvent env alone db account c = (db', r)"
  then have "db' = db" using Inl recordAttempts_error by (auto simp: writeEvent_def split: sum.splits)
  then show ?thesis by simp
next
  case (Inr res)
  assume "writeEvent env alone db account c = (db', r)"
  then have "db' = db\<lparr>edEvents := edEvents db'\<rparr>" using writeEvent_wrote Inr by blast
  then show ?thesis by (metis event_db.select_convs(4) event_db.surjective event_db.update_convs(1))
qed

lemma recordFor_forward:
  assumes "recordFor env alone db account c = (db', r)"
  shows "forward db db'"
proof -
  have tx: "edCursors d = edCursors db" if "writeEventTx env db account c = (d, r)" for d
    using that by (auto simp: writeEventTx_def split: prod.splits sum.splits
        dest!: writeEvent_cursors enqueue_events)
  have con: "forward db d" if c: "recordConsumed env db account c con = (d, r)" for d con
  proof -
    obtain db1 n where i: "insertInputTransition db
      \<lparr>itInputKey = cnInputKey con, itAccountID = account, itTargetID = cnTarget con,
       itNativeSellerID = cnNativeSellerID con, itOfferIdentity = cnOfferIdentity con,
       itPrevObservationID = cnPrevObsID con, itCurrObservationID = cnCurrObsID con\<rparr> = (db1, n)"
      by fastforce
    then have "edCursors db1 = edCursors db" by (metis fst_conv insertInputTransition_events(2))
    then have "d = db \<or> (\<exists>db2. edCursors db2 = edCursors db
        \<and> edCursors d = edCursors (advanceObservationCursor db2 account con))"
      using c i writeEvent_cursors [of env db1 account c]
      by (fastforce simp: recordConsumed_def Let_def split: prod.splits sum.splits if_splits dest!: enqueue_events)
    then show ?thesis
      using forward_trans [OF forward_same forward_trans [OF advance_forward forward_same]] by (metis forward_refl)
  qed
  show ?thesis
    using assms tx [of db'] con writeEvent_cursors
    by (auto simp: recordFor_def split: if_splits option.splits intro: forward_same)
qed

lemma updateWhere_cursors: "updateWhere env db P f = Inr (db', n) \<Longrightarrow> edCursors db' = edCursors db"
  by (auto simp: updateWhere_def split: if_splits)

lemma produceOne_forward: "forward (psDb st) (psDb (produceOne env flt st tr))"
proof -
  have rec: "forward (psDb s) (psDb (recordOne env flt tr c s))" for c s
  proof -
    obtain db' r where r: "recordFor env alone (psDb s) (tnAccount tr) c = (db', r)" by fastforce
    then show ?thesis
      using recordFor_forward [OF r]
      by (simp add: recordOne_def Let_def split: sum.split option.split)
  qed
  have clear: "forward (psDb s) (psDb (clearOne env flt tr s))" for s
    by (auto simp: clearOne_def resolveOpen_def result_simps split: option.split sum.split
        dest!: updateWhere_cursors intro: forward_same)
  show ?thesis
    using rec clear forward_refl by (rule produceOne_rule)
qed

lemma advanceOne_forward: "forward (psDb st) (psDb (advanceOne env flt st m))"
  by (simp add: advanceOne_def advanceConsumedCursor_def advance_forward)

lemma foldl_forward:
  assumes "\<And>st x. forward (psDb st) (psDb (f st x))"
  shows "forward (psDb st) (psDb (foldl f st xs))"
proof (induction xs arbitrary: st)
  case (Cons x xs)
  then show ?case using assms [of st x] by simp (metis forward_trans)
qed simp

section \<open>Pairs of one stream\<close>

text \<open>
  The movements of one stream: its rows in order, after the row its cursor stands on, paired with
  their predecessors where the price token changes.
\<close>

definition movements ::
  "event_env \<Rightarrow> duration \<Rightarrow> uuid \<Rightarrow> uuid \<Rightarrow> obs_cursor option \<Rightarrow> observation_row list \<Rightarrow> transition list" where
  "movements env ttl account target start rows =
     (let befores = (case start of None \<Rightarrow> [] | Some q \<Rightarrow> [q]) @ map cursorOfRow rows;
          afters = (case start of None \<Rightarrow> tl rows | Some _ \<Rightarrow> rows) in
      map (\<lambda>(q, r). buildTransition env ttl account target q r)
        (filter (\<lambda>(q, r). rowValue r \<noteq> ocValue q) (zip befores afters)))"

lemma pairRows_block:
  assumes "\<forall>r \<in> set rows. rowStream r = s"
  shows "pairRows env ttl account target anchor (Some s) (Some q) (rows @ later) =
    movements env ttl account target (Some q) rows
      @ pairRows env ttl account target anchor (Some s)
          (Some (last (q # map cursorOfRow rows))) later"
  using assms
proof (induction rows arbitrary: q)
  case (Cons r rows)
  have "movements env ttl account target (Some q) (r # rows) =
      (if rowValue r \<noteq> ocValue q then [buildTransition env ttl account target q r] else [])
        @ movements env ttl account target (Some (cursorOfRow r)) rows"
    by (simp add: movements_def Let_def)
  then show ?case using Cons by simp
qed (simp add: movements_def)

lemma pairRows_stream:
  assumes "\<forall>r \<in> set rows. rowStream r = s" and "cur \<noteq> Some s" and "rows \<noteq> []"
  shows "pairRows env ttl account target anchor cur p (rows @ later) =
    movements env ttl account target (anchor s) rows
      @ pairRows env ttl account target anchor (Some s) (Some (cursorOfRow (last rows))) later"
proof -
  obtain r rs where rows: "rows = r # rs" using assms(3) by (cases rows) auto
  have "movements env ttl account target (anchor s) rows =
      (case anchor s of None \<Rightarrow> []
       | Some q \<Rightarrow> if rowValue r \<noteq> ocValue q then [buildTransition env ttl account target q r] else [])
        @ movements env ttl account target (Some (cursorOfRow r)) rs"
    by (cases "anchor s") (simp_all add: movements_def rows Let_def)
  then show ?thesis
    using assms pairRows_block [of rs s env ttl account target anchor "cursorOfRow r" later]
    by (auto simp: rows Let_def last_map split: option.split)
qed

lemma pairRows_streams:
  assumes "\<And>s r. s \<in> set ss \<Longrightarrow> r \<in> set (block s) \<Longrightarrow> rowStream r = s" and "distinct ss"
    and "\<forall>s. cur = Some s \<longrightarrow> s \<notin> set ss"
  shows "pairRows env ttl account target anchor cur p (concat (map block ss)) =
    concat (map (\<lambda>s. movements env ttl account target (anchor s) (block s)) ss)"
  using assms
proof (induction ss arbitrary: cur p)
  case (Cons s ss)
  show ?case
  proof (cases "block s = []")
    case True
    then have "movements env ttl account target (anchor s) (block s) = []"
      by (simp add: movements_def Let_def split: option.split)
    then show ?thesis using True Cons by simp
  next
    case False
    then have "pairRows env ttl account target anchor cur p (block s @ concat (map block ss)) =
        movements env ttl account target (anchor s) (block s)
          @ pairRows env ttl account target anchor (Some s) (Some (cursorOfRow (last (block s))))
              (concat (map block ss))"
      using Cons.prems(1) [of s] Cons.prems(3) False by (intro pairRows_stream) (auto simp del: split_paired_All)
    moreover have "pairRows env ttl account target anchor (Some s) (Some (cursorOfRow (last (block s))))
        (concat (map block ss)) = concat (map (\<lambda>s. movements env ttl account target (anchor s) (block s)) ss)"
      using Cons.prems by (intro Cons.IH) (auto simp del: split_paired_All)
    ultimately show ?thesis by simp
  qed
qed simp

lemma streamRows_stream: "r \<in> set (streamRows env db target s) \<Longrightarrow>
    rowStream r = s \<and> cpTargetID (obCapture r) = target \<and> unconsumedRow db target r
    \<and> r \<in> set (odObservations (evObs env))"
  by (simp add: streamRows_def)

lemma competingStreams_foreign:
  "s \<in> set (competingStreams env target o_id) \<Longrightarrow> fst s \<noteq> o_id"
  by (auto simp: competingStreams_def rowStream_def)

text \<open>
  Further. What a pass evaluates of a target are exactly the price movements of its competing streams: for
  every stream of a seller other than the account's own, its unconsumed observations in the order of
  capture, at most a page, each paired with its predecessor, the first with the row its cursor stands
  on, wherever the price token changed.  No intermediate movement of a burst is collapsed, and no two
  sellers or offers are ever paired.
\<close>

theorem pairs_stay_in_stream:
  "fst (targetTransitions env db page ttl account own target drained) =
     concat (map (\<lambda>s. movements env ttl account target (anchorOf db target s)
                        (take page (streamRows env db target s)))
               (competingStreams env target own))
   \<and> list_all (\<lambda>s. fst s \<noteq> own
        \<and> list_all (\<lambda>r. rowStream r = s \<and> cpTargetID (obCapture r) = target \<and> unconsumedRow db target r)
            (streamRows env db target s)
        \<and> sorted (map rowAt (streamRows env db target s)))
       (competingStreams env target own)"
proof
  show "fst (targetTransitions env db page ttl account own target drained) =
     concat (map (\<lambda>s. movements env ttl account target (anchorOf db target s)
                        (take page (streamRows env db target s)))
               (competingStreams env target own))"
    unfolding targetTransitions_def Let_def fst_conv listUnconsumed_def
    by (rule pairRows_streams)
      (blast dest: in_set_takeD streamRows_stream, simp add: competingStreams_def, simp)
  have "sorted (map rowAt (streamRows env db target s))" for s by (simp add: streamRows_def)
  then show "list_all (\<lambda>s. fst s \<noteq> own
        \<and> list_all (\<lambda>r. rowStream r = s \<and> cpTargetID (obCapture r) = target \<and> unconsumedRow db target r)
            (streamRows env db target s)
        \<and> sorted (map rowAt (streamRows env db target s)))
       (competingStreams env target own)"
    using competingStreams_foreign streamRows_stream unfolding list_all_iff by blast
qed

section \<open>Error-free passes drain the streams\<close>

text \<open>A block of rows of one stream leaves one mark, that of its last row.\<close>

lemma streamOf_highWater [simp]: "streamOf (highWater a t r) = (t, rowStream r)"
  by (simp add: streamOf_def highWater_def rowStream_def)

lemma markAt_highWater [simp]: "markAt (highWater a t r) = rowAt r"
  by (simp add: markAt_def highWater_def rowAt_def)

lemma setHighWater_twice:
  "streamOf m = streamOf m' \<Longrightarrow> setHighWater (setHighWater d m) m' = setHighWater d m'"
  by (simp add: setHighWater_def)

lemma marks_block:
  "\<forall>r \<in> set rows. rowStream r = s \<Longrightarrow> rows \<noteq> [] \<Longrightarrow>
     foldl setHighWater d (map (highWater a t) rows) = setHighWater d (highWater a t (last rows))"
proof (induction rows arbitrary: d)
  case (Cons r rows)
  then show ?case
    by (cases "rows = []") (simp_all add: setHighWater_twice)
qed simp

text \<open>Every mark stands at the last row of the page of its stream.\<close>

definition pageOf :: "event_env \<Rightarrow> event_db \<Rightarrow> nat \<Rightarrow> uuid \<times> stream_key \<Rightarrow> observation_row list" where
  "pageOf env db page ts = take page (streamRows env db (fst ts) (snd ts))"

definition marksOk :: "event_env \<Rightarrow> event_db \<Rightarrow> nat \<Rightarrow> consumption list \<Rightarrow> bool" where
  "marksOk env db page d \<longleftrightarrow>
     (\<forall>m \<in> set d. pageOf env db page (streamOf m) \<noteq> [] \<and> markAt m = rowAt (last (pageOf env db page (streamOf m))))"

lemma setHighWater_covers: "streamOf ` set (setHighWater d m) = insert (streamOf m) (streamOf ` set d)"
proof (cases "d \<noteq> [] \<and> streamOf (last d) = streamOf m")
  case True
  then have "set d = insert (last d) (set (butlast d))" by (metis append_butlast_last_id list.simps(15) rotate1.simps(2) set_rotate1)
  then show ?thesis using True by (auto simp: setHighWater_def)
qed (auto simp: setHighWater_def)

lemma setHighWater_set: "set (setHighWater d m) \<subseteq> insert m (set d)"
  by (auto simp: setHighWater_def dest: in_set_butlastD)

definition covers :: "event_env \<Rightarrow> event_db \<Rightarrow> nat \<Rightarrow> (uuid \<times> stream_key) set \<Rightarrow> consumption list \<Rightarrow> bool" where
  "covers env db page S d \<longleftrightarrow> (\<forall>x \<in> S. pageOf env db page x \<noteq> [] \<longrightarrow> x \<in> streamOf ` set d)"

lemma marks_streams:
  assumes "\<And>s r. s \<in> set ss \<Longrightarrow> r \<in> set (pageOf env db page (t, s)) \<Longrightarrow> rowStream r = s"
    and "marksOk env db page d" and "covers env db page S d"
  shows "marksOk env db page (foldl setHighWater d (map (highWater a t) (concat (map (\<lambda>s. pageOf env db page (t, s)) ss))))
    \<and> covers env db page (S \<union> Pair t ` set ss)
        (foldl setHighWater d (map (highWater a t) (concat (map (\<lambda>s. pageOf env db page (t, s)) ss))))"
  using assms
proof (induction ss arbitrary: d S)
  case (Cons s ss)
  let ?b = "pageOf env db page (t, s)"
  show ?case
  proof (cases "?b = []")
    case True
    have "covers env db page (insert (t, s) S) d" using True Cons.prems(3) by (simp add: covers_def)
    then show ?thesis
      using Cons.IH [of d "insert (t, s) S"] Cons.prems(1,2) True by simp
  next
    case False
    let ?d = "setHighWater d (highWater a t (last ?b))"
    have s: "rowStream (last ?b) = s" using Cons.prems(1) [of s "last ?b"] False by simp
    then have "marksOk env db page ?d"
      using Cons.prems(2) False setHighWater_set unfolding marksOk_def by fastforce
    moreover have "foldl setHighWater d (map (highWater a t) ?b) = ?d"
      using Cons.prems(1) [of s] False by (intro marks_block) auto
    moreover have "covers env db page (insert (t, s) S) ?d"
      using Cons.prems(3) s by (simp add: covers_def setHighWater_covers)
    ultimately show ?thesis
      using Cons.IH [of ?d "insert (t, s) S"] Cons.prems(1) by simp
  qed
qed simp

definition drainedStreams :: "event_env \<Rightarrow> (uuid \<times> utext \<times> uuid) list \<Rightarrow> (uuid \<times> stream_key) set" where
  "drainedStreams env ts = (\<Union>(a, own, t) \<in> set ts. Pair t ` set (competingStreams env t own))"

lemma drainTargets_marks:
  assumes "marksOk env db page d" and "covers env db page S d"
  shows "marksOk env db page (snd (drainTargets env db page ttl ts d))
    \<and> covers env db page (S \<union> drainedStreams env ts) (snd (drainTargets env db page ttl ts d))"
  using assms
proof (induction ts arbitrary: d S)
  case (Cons x ts)
  obtain a own t where x: "x = (a, own, t)" by (cases x)
  let ?d = "snd (targetTransitions env db page ttl a own t d)"
  let ?S = "S \<union> Pair t ` set (competingStreams env t own)"
  have d: "?d = foldl setHighWater d (map (highWater a t)
      (concat (map (\<lambda>s. pageOf env db page (t, s)) (competingStreams env t own))))"
    by (simp add: targetTransitions_def Let_def listUnconsumed_def pageOf_def)
  have "marksOk env db page ?d \<and> covers env db page ?S ?d"
    unfolding d
    by (rule marks_streams [OF _ Cons.prems])
      (simp add: pageOf_def, blast dest: in_set_takeD streamRows_stream)
  then show ?case
    using Cons.IH [of ?d ?S] by (simp add: x split_beta Let_def drainedStreams_def Un_assoc)
qed (simp add: drainedStreams_def)

lemma transitions_marks:
  "marksOk env db page (snd (transitions env db page ttl))
   \<and> covers env db page (drainedStreams env (accountTargets env)) (snd (transitions env db page ttl))"
  using drainTargets_marks [of env db page "[]" "{}" ttl "accountTargets env"]
  by (simp add: transitions_def marksOk_def covers_def)

text \<open>An error-free pass blocks no stream and skips no mark.\<close>

lemma recordOne_errors:
  "pmErrors (psMetrics st) \<le> pmErrors (psMetrics (recordOne env flt tr c st)) \<and>
   (pmErrors (psMetrics (recordOne env flt tr c st)) = pmErrors (psMetrics st) \<longrightarrow>
      psBlocked (recordOne env flt tr c st) = psBlocked st)"
  by (simp add: recordOne_def Let_def split_beta split: sum.split option.split)

lemma clearOne_errors:
  "pmErrors (psMetrics st) \<le> pmErrors (psMetrics (clearOne env flt tr st)) \<and>
   psBlocked (clearOne env flt tr st) = psBlocked st"
  by (simp add: clearOne_def split: sum.split option.split)

lemma produceOne_errors:
  "pmErrors (psMetrics st) \<le> pmErrors (psMetrics (produceOne env flt st tr)) \<and>
   (pmErrors (psMetrics (produceOne env flt st tr)) = pmErrors (psMetrics st) \<longrightarrow>
      psBlocked (produceOne env flt st tr) = psBlocked st)"
proof -
  let ?s = "st\<lparr>psMetrics := (psMetrics st)\<lparr>pmScanned := pmScanned (psMetrics st) + 1\<rparr>\<rparr>"
  show ?thesis
    using recordOne_errors [of ?s env flt tr] clearOne_errors [of ?s env flt tr]
    by (auto simp: produceOne_def Let_def split: sum.split option.split)
qed

lemma produce_errors:
  "pmErrors (psMetrics st) \<le> pmErrors (psMetrics (foldl (produceOne env flt) st trs)) \<and>
   (pmErrors (psMetrics (foldl (produceOne env flt) st trs)) = pmErrors (psMetrics st) \<longrightarrow>
      psBlocked (foldl (produceOne env flt) st trs) = psBlocked st)"
proof (induction trs arbitrary: st)
  case (Cons tr trs)
  from produceOne_errors [of st env flt tr] Cons.IH [of "produceOne env flt st tr"] show ?case
    unfolding foldl_Cons by (metis le_antisym order_trans)
qed simp

lemma advanceOne_errors: "pmErrors (psMetrics st) \<le> pmErrors (psMetrics (advanceOne env flt st m))"
  "psBlocked (advanceOne env flt st m) = psBlocked st"
  by (simp_all add: advanceOne_def)

lemma advance_errors: "pmErrors (psMetrics st) \<le> pmErrors (psMetrics (foldl (advanceOne env flt) st ms))"
  by (induction ms arbitrary: st) (simp_all, meson advanceOne_errors(1) order_trans)

lemma advance_all:
  assumes "psBlocked st = []" and "pmErrors (psMetrics (foldl (advanceOne env flt) st ms)) = pmErrors (psMetrics st)"
    and "m \<in> set ms"
  shows "\<exists>p. cursorAt (psDb (foldl (advanceOne env flt) st ms)) (fst (streamOf m)) (snd (streamOf m)) = Some p
    \<and> markAt m \<le> p"
  using assms
proof (induction ms arbitrary: st)
  case (Cons x ms)
  let ?s = "advanceOne env flt st x"
  have e: "pmErrors (psMetrics ?s) = pmErrors (psMetrics st)"
    using Cons.prems(2) advance_errors [of ?s env flt ms] advanceOne_errors(1) [of st env flt x] by simp
  have adv: "psDb ?s = advanceConsumedCursor (psDb st) x"
    using e Cons.prems(1) by (simp add: advanceOne_def split: if_splits)
  show ?case
  proof (cases "m \<in> set ms")
    case True
    then show ?thesis using Cons.IH [of ?s] Cons.prems e by (simp add: advanceOne_errors(2))
  next
    case False
    then have m: "m = x" using Cons.prems(3) by simp
    obtain p where p: "cursorAt (psDb ?s) (fst (streamOf m)) (snd (streamOf m)) = Some p" "markAt m \<le> p"
      using advance_reaches [of "psDb st" "cnAccount x" x] by (auto simp: adv m advanceConsumedCursor_def)
    have "forward (psDb ?s) (psDb (foldl (advanceOne env flt) ?s ms))"
      by (rule foldl_forward) (rule advanceOne_forward)
    then show ?thesis using p unfolding forward_def foldl_Cons by (meson order_trans)
  qed
qed simp

lemma sweepFirst_cursors: "edCursors (psDb (sweepFirst env flt db)) = edCursors db"
  by (auto simp: sweepFirst_def Let_def expireStaleAll_def split: sum.split dest: updateWhere_cursors)

lemma streamRows_cong: "edCursors db' = edCursors db \<Longrightarrow> streamRows env db' t s = streamRows env db t s"
  by (simp add: streamRows_def unconsumedRow_def cursorAt_def)

lemma length_filter_mono: "(\<And>x. P x \<Longrightarrow> Q x) \<Longrightarrow> length (filter P xs) \<le> length (filter Q xs)"
  by (induction xs) auto

lemma unconsumed_forward:
  assumes "unconsumedRow db' t r" and "forward db db'"
  shows "unconsumedRow db t r"
proof (cases "cursorAt db t (rowStream r)")
  case (Some p)
  then obtain p' where p': "cursorAt db' t (rowStream r) = Some p'" "p \<le> p'"
    using assms(2) unfolding forward_def by blast
  then have "p' < rowAt r" using assms(1) by (simp only: unconsumedRow_def option.case)
  with p'(2) have "p < rowAt r" by (rule le_less_trans)
  then show ?thesis using Some by (simp only: unconsumedRow_def option.case)
qed (simp add: unconsumedRow_def)

lemma streamRows_shrink:
  assumes "forward db db'"
  shows "length (streamRows env db' t s) \<le> length (streamRows env db t s)"
  using unconsumed_forward [OF _ assms] by (auto simp: streamRows_def intro!: length_filter_mono)

lemma sorted_le_last: "sorted xs \<Longrightarrow> x \<in> set xs \<Longrightarrow> x \<le> last xs"
  by (induction xs) auto

lemma page_below:
  assumes "r \<in> set (take page (streamRows env db t s))"
  shows "rowAt r \<le> rowAt (last (pageOf env db page (t, s)))"
proof -
  have "sorted (map rowAt (take page (streamRows env db t s)))"
    by (simp add: streamRows_def take_map [symmetric] sorted_wrt_take)
  moreover have "take page (streamRows env db t s) \<noteq> []" using assms by (metis empty_iff empty_set)
  ultimately show ?thesis
    using sorted_le_last [of "map rowAt (take page (streamRows env db t s))" "rowAt r"] assms
    by (simp add: pageOf_def last_map)
qed

text \<open>A cursor beyond the last row of a page leaves at most the rows after the page.\<close>

lemma streamRows_after:
  assumes f: "forward db db'" and p: "cursorAt db' t s = Some p" "rowAt (last (pageOf env db page (t, s))) \<le> p"
  shows "length (streamRows env db' t s) \<le> length (streamRows env db t s) - page"
proof -
  let ?xs = "streamRows env db t s" and ?q = "rowAt (last (pageOf env db page (t, s)))"
  let ?obs = "odObservations (evObs env)"
  have "rowAt r \<le> ?q" if "r \<in> set (take page ?xs)" for r by (rule page_below [OF that])
  then have "filter (\<lambda>r. ?q < rowAt r) (take page ?xs) = []"
    by (simp add: filter_empty_conv not_less del: less_prod_simp less_eq_prod_simp)
  then have "filter (\<lambda>r. ?q < rowAt r) ?xs = filter (\<lambda>r. ?q < rowAt r) (drop page ?xs)"
    by (metis append_Nil append_take_drop_id filter_append)
  then have short: "length (filter (\<lambda>r. ?q < rowAt r) ?xs) \<le> length ?xs - page"
    by (metis length_drop length_filter_le)
  have "unconsumedRow db t r \<and> ?q < rowAt r" if u: "unconsumedRow db' t r" "rowStream r = s" for r
  proof -
    have "p < rowAt r" using u p(1) by (simp only: unconsumedRow_def option.case)
    with p(2) have "?q < rowAt r" by (rule le_less_trans)
    then show ?thesis using unconsumed_forward [OF u(1) f] by simp
  qed
  then have "length (filter (\<lambda>r. cpTargetID (obCapture r) = t \<and> rowStream r = s \<and> unconsumedRow db' t r) ?obs)
      \<le> length (filter (\<lambda>r. ?q < rowAt r)
          (filter (\<lambda>r. cpTargetID (obCapture r) = t \<and> rowStream r = s \<and> unconsumedRow db t r) ?obs))"
    unfolding filter_filter by (intro length_filter_mono) auto
  also have "\<dots> = length (filter (\<lambda>r. ?q < rowAt r) ?xs)"
    by (simp add: streamRows_def filter_sort del: filter_filter)
  finally show ?thesis using short by (simp add: streamRows_def)
qed

text \<open>
  The high-water advance of a pass that blocked no stream and whose advances all succeed: whatever
  the recording did, a page of rows is consumed.
\<close>

lemma advance_marked:
  assumes t: "transitions env db0 page ttl = (trs, marks)" and blocked: "psBlocked st = []"
    and e: "pmErrors (psMetrics (foldl (advanceOne env flt) st marks)) = pmErrors (psMetrics st)"
    and s: "(account, own, target) \<in> set (accountTargets env)" "s \<in> set (competingStreams env target own)"
    and ne: "pageOf env db0 page (target, s) \<noteq> []"
  obtains q where "cursorAt (psDb (foldl (advanceOne env flt) st marks)) target s = Some q"
    "rowAt (last (pageOf env db0 page (target, s))) \<le> q"
proof -
  have "(target, s) \<in> drainedStreams env (accountTargets env)"
    using s by (auto simp: drainedStreams_def)
  then obtain k where k: "k \<in> set marks" "streamOf k = (target, s)"
    "markAt k = rowAt (last (pageOf env db0 page (target, s)))"
    using transitions_marks [of env db0 page ttl] ne t unfolding covers_def marksOk_def by fastforce
  from advance_all [OF blocked e k(1)]
  obtain q where "cursorAt (psDb (foldl (advanceOne env flt) st marks)) target s = Some q" "markAt k \<le> q"
    by (simp add: k(2) del: split_paired_Ex) blast
  then show thesis using that unfolding k(3) by blast
qed

lemma advance_drains:
  assumes t: "transitions env db0 page ttl = (trs, marks)" and blocked: "psBlocked st = []"
    and e: "pmErrors (psMetrics (foldl (advanceOne env flt) st marks)) = pmErrors (psMetrics st)"
    and fwd: "forward db0 (psDb (foldl (advanceOne env flt) st marks))"
    and s: "(account, own, target) \<in> set (accountTargets env)" "s \<in> set (competingStreams env target own)"
  shows "length (streamRows env (psDb (foldl (advanceOne env flt) st marks)) target s)
    \<le> length (streamRows env db0 target s) - page"
proof (cases "pageOf env db0 page (target, s) = []")
  case True
  then have "page = 0 \<or> streamRows env db0 target s = []" by (simp add: pageOf_def)
  then show ?thesis using streamRows_shrink [OF fwd, of env target s] by auto
next
  case False
  show ?thesis by (rule advance_marked [OF t blocked e s False]) (rule streamRows_after [OF fwd])
qed

lemma advance_consumes:
  assumes t: "transitions env db0 page ttl = (trs, marks)" and blocked: "psBlocked st = []"
    and e: "pmErrors (psMetrics (foldl (advanceOne env flt) st marks)) = pmErrors (psMetrics st)"
    and s: "(account, own, target) \<in> set (accountTargets env)" "s \<in> set (competingStreams env target own)"
    and r: "r \<in> set (take page (streamRows env db0 target s))"
  shows "\<not> unconsumedRow (psDb (foldl (advanceOne env flt) st marks)) target r"
proof -
  have "pageOf env db0 page (target, s) \<noteq> []" using r by (cases page) (auto simp: pageOf_def)
  then obtain q where q: "cursorAt (psDb (foldl (advanceOne env flt) st marks)) target s = Some q"
    "rowAt (last (pageOf env db0 page (target, s))) \<le> q"
    by (rule advance_marked [OF t blocked e s])
  have "rowStream r = s" using r by (auto dest!: in_set_takeD simp: streamRows_def)
  moreover have "rowAt r \<le> q" using page_below [OF r] q(2) by (rule order_trans)
  ultimately show ?thesis using q(1) by (simp only: unconsumedRow_def option.case not_less)
qed

lemma sweepFirst_blocked [simp]: "psBlocked (sweepFirst env flt db) = []"
  by (simp add: sweepFirst_def Let_def split: sum.split)

lemma pass_forward_swept:
  "forward (psDb (sweepFirst env flt db))
     (psDb (foldl (advanceOne env flt) (foldl (produceOne env flt) (sweepFirst env flt db) trs) marks))"
  by (rule forward_trans [OF foldl_forward [OF produceOne_forward] foldl_forward [OF advanceOne_forward]])

text \<open>
  C28. An error-free pass takes a page of rows off every competing stream of every account whose own
  seller is known, however much the other streams hold: no seller starves another.  The page is consumed
  with its immaterial tail: the producer advances every stream that is not blocked to its newest drained
  row, as the \<open>drained\<close> field says, whereas the WORK BOUND paragraph of \<open>obssource.go\<close> says that a
  trailing immaterial transition stays and is derived again.
\<close>

theorem pass_drains_streams:
  assumes "runOnce env flt page ttl db = (db', m)" and "pmErrors m = 0"
    and "(account, own, target) \<in> set (accountTargets env)" and "s \<in> set (competingStreams env target own)"
  shows "length (streamRows env db' target s) \<le> length (streamRows env db target s) - page"
proof -
  let ?st = "sweepFirst env flt db"
  obtain trs marks where t: "transitions env (psDb ?st) page ttl = (trs, marks)" by fastforce
  let ?p = "foldl (produceOne env flt) ?st trs"
  let ?a = "foldl (advanceOne env flt) ?p marks"
  have load: "\<not> pfLoad flt" using assms(1,2) by (auto simp: runOnce_def Let_def split: if_splits)
  then have a: "db' = psDb ?a" "pmErrors (psMetrics ?a) = 0"
    using assms(1,2) t by (auto simp: runOnce_def Let_def)
  then have p: "pmErrors (psMetrics ?p) = 0" using advance_errors [of ?p env flt marks] by simp
  then have "psBlocked ?p = []" using produce_errors [of ?st env flt trs] by auto
  from advance_drains [OF t this _ pass_forward_swept assms(3,4)] a p show ?thesis
    using streamRows_cong [OF sweepFirst_cursors, of env env flt db target s] by simp
qed

section \<open>A failed threshold lookup\<close>

lemma pairRows_type:
  "tr \<in> set (pairRows env ttl account target anchor cur p rows) \<Longrightarrow>
     tnType tr = TypeCompetitorPrice \<and> tnPrice tr \<noteq> None"
  by (induction rows arbitrary: cur p)
    (auto simp: Let_def buildTransition_def split: option.splits if_splits)

lemma transitions_type:
  "tr \<in> set (fst (transitions env db page ttl)) \<Longrightarrow> tnType tr = TypeCompetitorPrice \<and> tnPrice tr \<noteq> None"
proof -
  have "tr \<in> set (fst (drainTargets env db page ttl ts d)) \<Longrightarrow>
      tnType tr = TypeCompetitorPrice \<and> tnPrice tr \<noteq> None" for ts d
  proof (induction ts arbitrary: d)
    case (Cons x ts)
    obtain a own t where "x = (a, own, t)" by (cases x)
    then show ?case
      using Cons pairRows_type [of tr]
      by (auto simp: Let_def split_beta targetTransitions_def)
  qed simp
  then show "tr \<in> set (fst (transitions env db page ttl)) \<Longrightarrow> ?thesis" by (simp add: transitions_def)
qed

lemma produce_failed_lookup:
  assumes "pfThreshold flt = (\<lambda>_. True)"
    and "\<forall>tr \<in> set trs. tnType tr = TypeCompetitorPrice \<and> tnPrice tr \<noteq> None"
  shows "psDb (foldl (produceOne env flt) st trs) = psDb st
    \<and> psBlocked (foldl (produceOne env flt) st trs) = psBlocked st"
  using assms(2)
proof (induction trs arbitrary: st)
  case (Cons tr trs)
  then have "\<exists>e. evaluate env (psDb st) flt tr = Inl e"
    by (auto simp: evaluate_def withThreshold_def resolveThreshold_def assms(1))
  then have "psDb (produceOne env flt st tr) = psDb st \<and> psBlocked (produceOne env flt st tr) = psBlocked st"
    by (auto simp: produceOne_def Let_def addError_def)
  then show ?case using Cons by simp
qed simp

lemma advances_keep:
  "edEvents (psDb (foldl (advanceOne env flt) st ms)) = edEvents (psDb st) \<and>
   edLedger (psDb (foldl (advanceOne env flt) st ms)) = edLedger (psDb st)"
proof (induction ms arbitrary: st)
  case (Cons m ms)
  then show ?case by (simp add: advanceOne_def advanceConsumedCursor_def)
qed simp

lemma sweepFirst_keeps:
  "edLedger (psDb (sweepFirst env flt db)) = edLedger db \<and>
   length (edEvents (psDb (sweepFirst env flt db))) = length (edEvents db)"
  by (auto simp: sweepFirst_def Let_def expireStaleAll_def updateWhere_def split: sum.split)

text \<open>Every step moves cursors forward, so what a cursor has passed is never unconsumed again.\<close>

lemma step_forward: "eventStep w w' \<Longrightarrow> forward (snd w) (snd w')"
proof (induction rule: eventStep.induct)
  case step_record
  then show ?case by (simp add: recordFor_forward)
next
  case step_cursor
  then show ?case by (simp add: advanceConsumedCursor_def advance_forward)
next
  case step_upsert
  then show ?case by (intro forward_same) (auto simp: recordEvent_def split: if_splits option.splits)
next
  case step_threshold
  then show ?case by (intro forward_same) (auto simp: setThreshold_def Let_def split: if_splits)
next
  case step_feedback
  then show ?case by (intro forward_same) (auto simp: recordRelevance_def Let_def split: if_splits)
qed (auto simp: resolveEvent_def resolveOpen_def expireStale_def expireStaleAll_def result_simps
    split: option.splits dest!: updateWhere_cursors intro!: forward_same)

lemma steps_forward: "eventStep\<^sup>*\<^sup>* w w' \<Longrightarrow> forward (snd w) (snd w')"
proof (induction rule: rtranclp_induct)
  case (step w1 w2)
  from step.IH step_forward [OF step.hyps(2)] show ?case by (rule forward_trans)
qed simp

lemma unread_shrink:
  assumes "eventStep\<^sup>*\<^sup>* (env, db') (env', dbL)" and "\<not> unconsumedRow db' t r"
  shows "r \<notin> set (streamRows env' dbL t s)"
  using unconsumed_forward [OF _ steps_forward [OF assms(1)], of t r] assms(2) by (auto simp: streamRows_def)

text \<open>
  C40. What the hold-back of the pass does not cover: when the threshold lookups of a pass fail, and its
  other queries succeed, the pass records no movement, yet its high-water advance consumes a page of every
  competing stream all the same.  No row of such a page is read as unconsumed in any later state, whatever
  happens and whatever is observed meanwhile: its movement is lost, not retried.
\<close>

theorem failed_lookup_loses_movements:
  assumes "runOnce env flt page ttl db = (db', m)" and "pfThreshold flt = (\<lambda>_. True)"
    and "\<not> pfLoad flt" and "pfAdvance flt = (\<lambda>_. False)"
    and "(account, own, target) \<in> set (accountTargets env)" and "s \<in> set (competingStreams env target own)"
  shows "length (edEvents db') = length (edEvents db) \<and> edLedger db' = edLedger db
    \<and> length (streamRows env db' target s) \<le> length (streamRows env db target s) - page
    \<and> (\<forall>r \<in> set (take page (streamRows env db target s)). \<forall>env' dbL.
          eventStep\<^sup>*\<^sup>* (env, db') (env', dbL) \<longrightarrow> r \<notin> set (streamRows env' dbL target s))"
proof -
  let ?st = "sweepFirst env flt db"
  obtain trs marks where t: "transitions env (psDb ?st) page ttl = (trs, marks)" by fastforce
  let ?p = "foldl (produceOne env flt) ?st trs"
  let ?a = "foldl (advanceOne env flt) ?p marks"
  have a: "db' = psDb ?a" using assms(1,3) t by (auto simp: runOnce_def Let_def)
  have p: "psDb ?p = psDb ?st" "psBlocked ?p = []"
    using produce_failed_lookup [OF assms(2), of trs env ?st] transitions_type [of _ env "psDb ?st" page ttl] t
    by auto
  have "pmErrors (psMetrics (foldl (advanceOne env flt) st ms)) = pmErrors (psMetrics st)" for st ms
    by (induction ms arbitrary: st) (simp_all add: advanceOne_def assms(4))
  note drained = t p(2) this
  have rows: "streamRows env (psDb ?st) target s = streamRows env db target s"
    by (rule streamRows_cong [OF sweepFirst_cursors])
  have "\<not> unconsumedRow db' target r" if "r \<in> set (take page (streamRows env db target s))" for r
    using advance_consumes [OF drained assms(5,6)] that unfolding a rows by blast
  then show ?thesis
    using advance_drains [OF drained pass_forward_swept assms(5,6)] rows a p(1)
      advances_keep [of env flt ?p marks] sweepFirst_keeps [of env flt db] unread_shrink by auto
qed

end
