(* ===== verification/EventRanking.thy ===== *)
theory EventRanking
  imports EventDetect Complex_Main "HOL-Library.Product_Lexorder"
begin

text \<open>
  What the detectors and the ranking of market events show: a price movement fires exactly at its
  threshold, a floor breach carries its exact shortfall, and the Today order is total, independent of
  the input order and of Go's map iteration, and compares amounts of one currency by their real value.
\<close>

section \<open>Detectors\<close>

lemma le_div_iff_int:
  fixes p :: int
  assumes "0 < p"
  shows "t \<le> d div p \<longleftrightarrow> t * p \<le> d"
proof
  assume "t \<le> d div p"
  then have "t * p \<le> d div p * p" using assms by (simp add: mult_right_mono)
  also have "\<dots> \<le> d" using assms pos_mod_sign [of p d] by (simp add: minus_mod_eq_div_mult [symmetric])
  finally show "t * p \<le> d" .
next
  assume "t * p \<le> d"
  then have "t * p div p \<le> d div p" using assms by (rule zdiv_mono1)
  then show "t \<le> d div p" using assms by simp
qed

text \<open>
  Further. A competitor price movement fires exactly when it is material: both tokens are integers of the
  64-bit range with a positive old and a non-negative new price in a non-blank unit, the threshold is
  positive, and the relative change is at least the threshold as exact rationals, with no rounding at
  the boundary and no overflow; it is critical exactly from twice the threshold on, cites the evidence
  as it was observed, and carries its consumption.
\<close>

theorem price_move_exact:
  "detectCompetitorPrice us i = Some c \<longleftrightarrow>
    (\<exists>p q. trimSpace (piUnit i) \<noteq> [] \<and> parseToken (trimSpace (piPrevValue i)) = Some p \<and> 0 < p
      \<and> parseToken (trimSpace (piCurrValue i)) = Some q \<and> 0 \<le> q
      \<and> 0 < sint (bpValue (thMoveBp (piThreshold i)))
      \<and> sint (bpValue (thMoveBp (piThreshold i))) * p \<le> 10000 * \<bar>q - p\<bar>
      \<and> c = (candidate us TypeCompetitorPrice (piVariant i) (piTarget i) (piOfferIdentity i)
               (if 2 * sint (bpValue (thMoveBp (piThreshold i))) * p \<le> 10000 * \<bar>q - p\<bar>
                then SeverityCritical else SeverityWarning)
               (piExposure i)
               ((piEvidence i)\<lparr>veDetail :=
                  AList.update ''move_bp'' (runes (formatInt (10000 * \<bar>q - p\<bar> div p)))
                 (AList.update ''unit'' (piUnit i)
                 (AList.update ''curr_value'' (piCurrValue i)
                 (AList.update ''prev_value'' (piPrevValue i) (veDetail (piEvidence i)))))\<rparr>)
               (piNow i) (piTTL i) (piThreshold i))\<lparr>ecConsumption := piConsumption i\<rparr>)"
proof -
  have s: "sint basisPointScale = 10000" by (simp add: basisPointScale_def)
  have le: "t \<le> d div p \<longleftrightarrow> t * p \<le> d" if "0 < p" for t d p :: int
    using that by (rule le_div_iff_int)
  have lt: "d div p < t \<longleftrightarrow> d < t * p" if "0 < p" for t d p :: int
    using le [OF that, of t d] by linarith
  note d = detectCompetitorPrice_def movementBasisPoints_def s
  show ?thesis
  proof (cases "trimSpace (piUnit i) \<noteq> [] \<and> parseToken (trimSpace (piPrevValue i)) \<noteq> None
      \<and> parseToken (trimSpace (piCurrValue i)) \<noteq> None")
    case True
    then obtain p q where "trimSpace (piUnit i) \<noteq> []" and p: "parseToken (trimSpace (piPrevValue i)) = Some p"
      and q: "parseToken (trimSpace (piCurrValue i)) = Some q" by auto
    then show ?thesis
      by (cases "0 < p \<and> 0 \<le> q") (auto simp: d le lt Let_def mult.commute [of _ "10000"])
  qed (auto simp: d split: option.splits)
qed

text \<open>
  Further. A floor breach fires exactly when margin readiness is complete, a contribution exists and it is
  below the floor, both valid amounts of one unit; its exposure is known and is exactly floor minus
  contribution, it is critical exactly from a contribution of zero down, and an amount of another
  currency or exponent, or a shortfall beyond 64 bits, is an error and never an event.
\<close>

theorem floor_breach_exact:
  "detectContributionFloor us i =
    (if fiReadiness i \<noteq> StateComplete \<or> \<not> fiHasContribution i then Inr None
     else case compatible (fiContribution i) (fiFloor i) of Inl e \<Rightarrow> Inl e
     | Inr _ \<Rightarrow>
       (if amt (fiFloor i) \<le> amt (fiContribution i) then Inr None
        else if \<not> inInt64 (amt (fiFloor i) - amt (fiContribution i)) then Inl ErrOverflow
        else Inr (Some (candidate us TypeContributionFloor (fiVariant i) (fiTarget i) []
               (if amt (fiContribution i) \<le> 0 then SeverityCritical else SeverityWarning)
               (knownExposure ((fiFloor i)\<lparr>mantissa := word_of_int (amt (fiFloor i) - amt (fiContribution i))\<rparr>))
               (fiEvidence i) (fiNow i) (fiTTL i) zeroThreshold))))"
proof (cases "compatible (fiContribution i) (fiFloor i)")
  case (Inl e)
  then show ?thesis by (simp add: detectContributionFloor_def compareMoney_def)
next
  case (Inr u)
  then have u: "sameUnit (fiContribution i) (fiFloor i)" by (simp add: result_simps)
  then have s: "subMoney (fiFloor i) (fiContribution i) =
      (if inInt64 (amt (fiFloor i) - amt (fiContribution i))
       then Inr ((fiFloor i)\<lparr>mantissa := word_of_int (amt (fiFloor i) - amt (fiContribution i))\<rparr>)
       else Inl ErrOverflow)"
    by (simp add: subMoney_def isub_spec compatible_def sameUnit_def)
  have z: "zeroOf (currency (fiContribution i)) (exponent (fiContribution i)) =
      Inr ((fiContribution i)\<lparr>mantissa := 0\<rparr>)"
    using u by (simp add: zeroOf_def newMoney_def sameUnit_def valid_def)
  have "compareMoney (fiContribution i) ((fiContribution i)\<lparr>mantissa := 0\<rparr>) =
      Inr (icmp (mantissa (fiContribution i)) 0)"
    using u by (simp add: compareMoney_ok sameUnit_def valid_def)
  then show ?thesis
    using Inr by (simp add: detectContributionFloor_def compareMoney_def s z Let_def)
qed

section \<open>The stable sort\<close>

lemma insertStable_mset [simp]: "mset (insertStable before x ys) = add_mset x (mset ys)"
  by (induction ys) auto

lemma insertStable_set [simp]: "set (insertStable before x ys) = insert x (set ys)"
  by (induction ys) auto

lemma insertStable_sorted:
  fixes k :: "'a \<Rightarrow> 'b::linorder"
  shows "sorted (map k ys) \<Longrightarrow> sorted (map k (insertStable (\<lambda>a b. k a < k b) x ys))"
  by (induction ys) (auto intro: less_imp_le)

lemma insertStable_filter:
  fixes k :: "'a \<Rightarrow> 'b::linorder"
  shows "sorted (map k ys) \<Longrightarrow>
    filter (\<lambda>z. v = k z) (insertStable (\<lambda>a b. k a < k b) x ys) =
    filter (\<lambda>z. v = k z) (ys @ [x])"
proof (induction ys)
  case (Cons y ys)
  have "filter (\<lambda>z. k x = k z) (y # ys) = []" if "k x < k y"
    using that Cons.prems by (auto simp: filter_empty_conv)
  then show ?case using Cons by auto
qed simp

text \<open>A stable sort by the order of a key is the library's sort by that key.\<close>

lemma sliceStable_sort_key:
  fixes k :: "'a \<Rightarrow> 'b::linorder"
  shows "sliceStable (\<lambda>a b. k a < k b) xs = sort_key k xs"
proof -
  let ?f = "\<lambda>acc x. insertStable (\<lambda>a b. k a < k b) x acc"
  have "mset (foldl ?f ys xs) = mset (ys @ xs) \<and> sorted (map k (foldl ?f ys xs))
      \<and> (\<forall>v. filter (\<lambda>z. v = k z) (foldl ?f ys xs) = filter (\<lambda>z. v = k z) (ys @ xs))"
    if "sorted (map k ys)" for ys
    using that
    by (induction xs arbitrary: ys) (simp_all add: insertStable_sorted insertStable_filter [simplified])
  from this [of "[]"] show ?thesis
    unfolding sliceStable_def by (intro properties_for_sort_key [symmetric]) simp_all
qed

section \<open>The Today order\<close>

text \<open>The key that the comparison of the ranking orders by.\<close>

definition rankKey :: "(uuid \<Rightarrow> string) \<Rightarrow> rankable \<Rightarrow> nat \<times> int \<times> int \<times> instant \<times> string" where
  "rankKey us r =
     (bandOrder (rkBand r),
      (case rkBand r of BandComparable \<Rightarrow> - scoreOf r | BandUnknown \<Rightarrow> - unknownScore (rkFactors r)
       | BandQuarantined \<Rightarrow> 0),
      - severityRank (meSeverity (rkEvent r)), meFirstDetectedAt (rkEvent r), us (meID (rkEvent r)))"

lemma bandOrder_inject [simp]: "bandOrder a = bandOrder b \<longleftrightarrow> a = b"
  by (cases a; cases b) auto

lemma rankLess_key: "rankLess us a b \<longleftrightarrow> rankKey us a < rankKey us b"
  by (cases "rkBand a"; cases "rkBand b")
    (auto simp: rankLess_def rankKey_def lessByTieBreak_def Let_def)

lemma rankItems_sort_key:
  "rankItems us events =
     sort_key (rankKey us)
       (map (rankItem (canonicalCurrency events)
              (minCanonicalExponent events (case canonicalCurrency events of None \<Rightarrow> [] | Some c \<Rightarrow> c))) events)"
  by (simp add: rankItems_def Let_def rankLess_key [abs_def] sliceStable_sort_key)

text \<open>The canonical currency: the most frequent known one, the smallest code of those.\<close>

definition leadsOver :: "(string \<Rightarrow> nat) \<Rightarrow> string \<Rightarrow> string \<Rightarrow> bool" where
  "leadsOver counts a b \<longleftrightarrow> counts b < counts a \<or> counts a = counts b \<and> a \<le> b"

lemma leadsOver_antisym: "leadsOver counts a b \<Longrightarrow> leadsOver counts b a \<Longrightarrow> a = b"
  by (auto simp: leadsOver_def)

lemma leadsOver_trans: "leadsOver counts a b \<Longrightarrow> leadsOver counts b d \<Longrightarrow> leadsOver counts a d"
  by (auto simp: leadsOver_def)

lemma bestCurrency_leads:
  "bestCurrency counts b (int (counts b)) cs \<in> insert b (set cs)
   \<and> (\<forall>x \<in> insert b (set cs). leadsOver counts (bestCurrency counts b (int (counts b)) cs) x)"
proof (induction cs arbitrary: b)
  case Nil
  then show ?case by (simp add: leadsOver_def)
next
  case (Cons x xs)
  show ?case
  proof (cases "int (counts b) < int (counts x) \<or> int (counts x) = int (counts b) \<and> x < b")
    case True
    then have "leadsOver counts x b" by (auto simp: leadsOver_def)
    then show ?thesis using True Cons.IH [of x] by (auto intro: leadsOver_trans)
  next
    case False
    then have "leadsOver counts b x" by (auto simp: leadsOver_def)
    then show ?thesis using False Cons.IH [of b] by (auto intro: leadsOver_trans)
  qed
qed

lemma bestCurrency_start:
  "cs \<noteq> [] \<Longrightarrow> bestCurrency counts [] (-1) cs = bestCurrency counts (hd cs) (int (counts (hd cs))) (tl cs)"
  by (cases cs) auto

lemma bestCurrency_iff:
  assumes "cs \<noteq> []"
  shows "bestCurrency counts [] (-1) cs = b \<longleftrightarrow> b \<in> set cs \<and> (\<forall>x \<in> set cs. leadsOver counts b x)"
  using bestCurrency_leads [of counts "hd cs" "tl cs"] assms
  by (cases cs) (auto simp: bestCurrency_start intro: leadsOver_antisym)

lemma bestCurrency_order:
  assumes "set cs = set ds"
  shows "bestCurrency counts [] (-1) cs = bestCurrency counts [] (-1) ds"
proof (cases "cs = []")
  case False
  then have "ds \<noteq> []" using assms by auto
  then show ?thesis using False assms bestCurrency_iff [of cs] bestCurrency_iff [of ds] by metis
qed (use assms in simp)

lemma countOf_mset: "mset events = mset events' \<Longrightarrow> countOf events = countOf events'"
  by (rule ext) (metis countOf_def mset_filter size_mset)

lemma knownCurrencies_set: "set (knownCurrencies events) = meExposureCurrency ` {e \<in> set events. meExposureKnown e}"
  by (auto simp: knownCurrencies_def)

lemma canonicalCurrency_mset:
  assumes "mset events = mset events'"
  shows "canonicalCurrency events = canonicalCurrency events'"
proof -
  have "set (knownCurrencies events) = set (knownCurrencies events')"
    using mset_eq_setD [OF assms] by (simp add: knownCurrencies_set)
  then show ?thesis
    using bestCurrency_order [of "knownCurrencies events" "knownCurrencies events'"]
      countOf_mset [OF assms] by (auto simp: canonicalCurrency_def)
qed

lemma minExponentFrom_Min: "minExponentFrom (Some m) xs = Min (insert m (set xs))"
proof (induction xs arbitrary: m)
  case (Cons x xs)
  have "minExponentFrom (Some m) (x # xs) = Min (insert (min m x) (set xs))"
    using Cons.IH [of x] Cons.IH [of m] by (simp add: min_def)
  also have "\<dots> = Min (insert m (set (x # xs)))"
    by (cases "set xs = {}") (simp_all add: min.assoc)
  finally show ?case .
qed simp

lemma minCanonicalExponent_Min:
  "minCanonicalExponent events cur =
     (let xs = meExposureExponent ` {e \<in> set events. knownIn cur e} in if xs = {} then 0 else Min xs)"
proof (cases "filter (knownIn cur) events")
  case Nil
  then show ?thesis by (auto simp: minCanonicalExponent_def filter_empty_conv Let_def)
next
  case (Cons e es)
  then have "{e \<in> set events. knownIn cur e} = insert e (set es)"
    by (metis list.simps(15) set_filter)
  then show ?thesis using Cons by (simp add: minCanonicalExponent_def minExponentFrom_Min)
qed

lemma minCanonicalExponent_mset:
  assumes "mset events = mset events'"
  shows "minCanonicalExponent events = minCanonicalExponent events'"
  by (rule ext) (simp only: minCanonicalExponent_Min mset_eq_setD [OF assms])

text \<open>Distinct events whose ids print differently have distinct keys.\<close>

lemma rankItem_event [simp]: "rkEvent (rankItem canonical m e) = e"
  by (simp add: rankItem_def Let_def)

lemma rankKey_inj_on:
  assumes "distinct (map (us \<circ> meID) events)"
  shows "inj_on (rankKey us) (set (map (rankItem canonical m) events))"
proof (rule inj_onI)
  fix x y
  assume "x \<in> set (map (rankItem canonical m) events)" "y \<in> set (map (rankItem canonical m) events)"
    and k: "rankKey us x = rankKey us y"
  then obtain a b where ab: "a \<in> set events" "x = rankItem canonical m a" "b \<in> set events"
      "y = rankItem canonical m b" by auto
  then have "us (meID a) = us (meID b)" using k by (simp add: rankKey_def)
  then have "a = b" using assms ab by (simp add: distinct_map inj_on_def)
  then show "x = y" using ab by simp
qed

lemma rankItems_mset: "mset (rankItems us events) =
  image_mset (rankItem (canonicalCurrency events)
    (minCanonicalExponent events (case canonicalCurrency events of None \<Rightarrow> [] | Some c \<Rightarrow> c))) (mset events)"
  by (simp add: rankItems_sort_key)

lemma rankItems_order_free:
  assumes m: "mset events = mset events'" and d: "distinct (map (us \<circ> meID) events)"
  shows "rankItems us events = rankItems us events'"
proof -
  let ?f = "rankItem (canonicalCurrency events)
    (minCanonicalExponent events (case canonicalCurrency events of None \<Rightarrow> [] | Some c \<Rightarrow> c))"
  have e: "rankItems us events' = sort_key (rankKey us) (map ?f events')"
    by (simp only: rankItems_sort_key canonicalCurrency_mset [OF m] minCanonicalExponent_mset [OF m])
  have "mset (map ?f events) = mset (rankItems us events')" using m by (simp add: e)
  moreover have "sorted (map (rankKey us) (rankItems us events'))" by (simp add: e)
  ultimately show ?thesis
    unfolding rankItems_sort_key [of us events] by (intro sort_key_inj_key_eq rankKey_inj_on [OF d])
qed

text \<open>
  Further. The Today feed is a function of the set of open events: whatever order the rows come in, and
  whatever order Go visits its map of currency counts in, the same events get the same ranks.
\<close>

theorem today_order_free:
  assumes "mset events = mset events'" and "distinct (map (us \<circ> meID) events)"
  shows "rankEvents us events = rankEvents us events'
    \<and> (\<forall>ks. set ks = set (knownCurrencies events) \<longrightarrow>
         bestCurrency (countOf events) [] (-1) ks =
         bestCurrency (countOf events') [] (-1) (knownCurrencies events'))"
proof (intro conjI allI impI)
  show "rankEvents us events = rankEvents us events'"
    using rankItems_order_free [OF assms] by (simp add: rankEvents_def)
next
  fix ks
  assume "set ks = set (knownCurrencies events)"
  then have "set ks = set (knownCurrencies events')"
    using mset_eq_setD [OF assms(1)] by (simp add: knownCurrencies_set)
  from bestCurrency_order [OF this] show "bestCurrency (countOf events) [] (-1) ks =
      bestCurrency (countOf events') [] (-1) (knownCurrencies events')"
    by (simp add: countOf_mset [OF assms(1)])
qed

section \<open>Amounts by their real value\<close>

text \<open>What an exposure is worth, as an exact rational: a credit counts as nothing.\<close>

definition realScore :: "rank_factors \<Rightarrow> rat" where
  "realScore f =
     of_int (max 0 (sint (rfExposureMantissa f))) * 10 powi rfExposureExponent f
       * of_int (rfConfidenceBp f) * of_int (rfUrgencyBp f)"

lemma comparableScore_real:
  assumes "m \<le> rfExposureExponent f"
  shows "of_int (comparableScore f m) = realScore f * 10 powi (- m)"
proof -
  have "rfExposureExponent f = m + int (nat (rfExposureExponent f - m))" using assms by simp
  then have "(10::rat) powi rfExposureExponent f * 10 powi (- m) = 10 ^ nat (rfExposureExponent f - m)"
    by (metis add.commute add_diff_cancel_left' diff_conv_add_uminus power_int_add power_int_of_nat zero_neq_numeral)
  moreover have "of_int (comparableScore f m) =
      of_int (max 0 (sint (rfExposureMantissa f))) * (10::rat) ^ nat (rfExposureExponent f - m)
        * of_int (rfConfidenceBp f) * of_int (rfUrgencyBp f)"
    using assms by (auto simp: comparableScore_def Let_def word_sless_alt max_def)
  ultimately show ?thesis by (simp add: realScore_def mult.assoc mult.left_commute)
qed

lemma rankItems_length [simp]: "length (rankItems us events) = length events"
  by (simp add: rankItems_sort_key)

lemma rankEvents_length [simp]: "length (rankEvents us events) = length events"
  by (simp add: rankEvents_def)

lemma rankEvents_nth:
  assumes "i < length events"
  shows "rankEvents us events ! i =
    \<lparr>rkEvent = rkEvent (rankItems us events ! i), rkRank = i + 1,
     rkFactors = rkFactors (rankItems us events ! i), rkScore = rkScore (rankItems us events ! i)\<rparr>"
  using assms by (simp add: rankEvents_def nth_enumerate_eq)

lemma rankEvents_mset: "mset (map rkEvent (rankEvents us events)) = mset events"
proof -
  have "map rkEvent (rankEvents us events) = map rkEvent (rankItems us events)"
    by (rule nth_equalityI) (simp_all add: rankEvents_nth)
  then show ?thesis by (simp add: rankItems_mset image_mset.compositionality o_def)
qed

lemma rankItems_sorted:
  assumes "i < j" and "j < length events"
  shows "rankKey us (rankItems us events ! i) \<le> rankKey us (rankItems us events ! j)"
proof -
  have "sorted (map (rankKey us) (rankItems us events))" by (simp add: rankItems_sort_key)
  then have "map (rankKey us) (rankItems us events) ! i \<le> map (rankKey us) (rankItems us events) ! j"
    using assms by (intro sorted_nth_mono) simp_all
  then show ?thesis using assms by simp
qed

lemma rankItems_elem:
  assumes "r \<in> set (rankItems us events)"
  shows "\<exists>e \<in> set events. r = rankItem (canonicalCurrency events)
    (minCanonicalExponent events (case canonicalCurrency events of None \<Rightarrow> [] | Some c \<Rightarrow> c)) e"
  using assms by (auto simp: rankItems_sort_key)

text \<open>The score of a comparable item is its real value in units of the least exponent.\<close>

lemma rankItem_score:
  assumes "canonicalCurrency events = Some cur" and "e \<in> set events"
    and "rkBand (rankItem (Some cur) (minCanonicalExponent events cur) e) = BandComparable"
  shows "of_int (scoreOf (rankItem (Some cur) (minCanonicalExponent events cur) e)) =
    realScore (factorsOf e) * 10 powi (- minCanonicalExponent events cur)"
proof -
  have k: "knownIn cur e"
    using assms(3) by (auto simp: rankItem_def Let_def knownIn_def factorsOf_def split: if_splits)
  then have "minCanonicalExponent events cur \<le> meExposureExponent e"
    using assms(2) by (auto simp: minCanonicalExponent_Min Let_def)
  then have "of_int (comparableScore (factorsOf e) (minCanonicalExponent events cur)) =
      realScore (factorsOf e) * 10 powi (- minCanonicalExponent events cur)"
    by (intro comparableScore_real) (simp add: factorsOf_def)
  moreover have "rkScore (rankItem (Some cur) (minCanonicalExponent events cur) e) =
      Some (comparableScore (factorsOf e) (minCanonicalExponent events cur))"
    using k by (simp add: rankItem_def Let_def knownIn_def factorsOf_def)
  ultimately show ?thesis by (simp add: scoreOf_def)
qed

lemma rankItem_real_mono:
  fixes events us
  defines "f \<equiv> rankItem (canonicalCurrency events)
    (minCanonicalExponent events (case canonicalCurrency events of None \<Rightarrow> [] | Some c \<Rightarrow> c))"
  assumes d: "d \<in> set events" and e: "e \<in> set events"
    and be: "rkBand (f e) = BandComparable" and bd: "rkBand (f d) = BandComparable"
    and k: "rankKey us (f d) \<le> rankKey us (f e)"
  shows "realScore (factorsOf e) \<le> realScore (factorsOf d)"
proof -
  obtain cur where cur: "canonicalCurrency events = Some cur"
    using be by (auto simp: f_def rankItem_def Let_def split: if_splits)
  have "scoreOf (f e) \<le> scoreOf (f d)" using k bd be by (auto simp: rankKey_def)
  then have le: "(of_int (scoreOf (f e)) :: rat) \<le> of_int (scoreOf (f d))" by simp
  have f: "f = rankItem (Some cur) (minCanonicalExponent events cur)" using cur by (simp add: f_def)
  have "realScore (factorsOf e) * 10 powi (- minCanonicalExponent events cur)
      \<le> realScore (factorsOf d) * 10 powi (- minCanonicalExponent events cur)"
    using le rankItem_score [OF cur d] rankItem_score [OF cur e] be bd unfolding f by (simp only:)
  then show ?thesis by (rule mult_right_le_imp_le) (simp add: zero_less_power_int)
qed

text \<open>
  C30. The Today feed shows every open event once, ranked from 1 on.  Of two events the earlier one is
  never in a worse band; within the canonical currency the earlier one is worth at least as much,
  exposure as an exact rational amount times confidence and urgency, at whatever exponents the two
  amounts are stored; among unknown exposures confidence times urgency decides.  Only an event of a
  known exposure in the canonical currency carries a score, so no amount is ever compared across
  currencies and no unknown exposure is given a number.
\<close>

theorem today_by_real_value:
  assumes "i < j" and "j < length (rankEvents us events)"
  defines "a \<equiv> rankEvents us events ! i" and "b \<equiv> rankEvents us events ! j"
  shows "mset (map rkEvent (rankEvents us events)) = mset events
    \<and> rkRank a = i + 1 \<and> rkRank b = j + 1
    \<and> (rkScore a \<noteq> None \<longleftrightarrow> rfExposureKnown (rkFactors a)
         \<and> canonicalCurrency events = Some (rfExposureCurrency (rkFactors a)))
    \<and> (rkScore b \<noteq> None \<longrightarrow> rkScore a \<noteq> None \<and> realScore (rkFactors b) \<le> realScore (rkFactors a))
    \<and> (\<not> rfExposureKnown (rkFactors a) \<longrightarrow> \<not> rfExposureKnown (rkFactors b)
         \<and> unknownScore (rkFactors b) \<le> unknownScore (rkFactors a))"
proof -
  let ?x = "rankItems us events ! i" and ?y = "rankItems us events ! j"
  let ?cur = "case canonicalCurrency events of None \<Rightarrow> [] | Some c \<Rightarrow> c"
  let ?f = "rankItem (canonicalCurrency events) (minCanonicalExponent events ?cur)"
  have ij: "i < length events" "j < length events" using assms(1,2) by simp_all
  have ab: "rkFactors a = rkFactors ?x" "rkScore a = rkScore ?x" "rkFactors b = rkFactors ?y"
      "rkScore b = rkScore ?y" "rkRank a = i + 1" "rkRank b = j + 1"
    using ij by (simp_all add: a_def b_def rankEvents_nth)
  obtain d e where d: "d \<in> set events" "?x = ?f d" and e: "e \<in> set events" "?y = ?f e"
    using rankItems_elem [of ?x us events] rankItems_elem [of ?y us events] ij by auto
  have k: "rankKey us (?f d) \<le> rankKey us (?f e)"
    using rankItems_sorted [OF assms(1) ij(2), of us] d e by simp
  have sc: "rkScore (?f z) \<noteq> None \<longleftrightarrow> rkBand (?f z) = BandComparable"
      "rkBand (?f z) = BandComparable \<longleftrightarrow>
        meExposureKnown z \<and> canonicalCurrency events = Some (meExposureCurrency z)"
      "rkBand (?f z) = BandUnknown \<longleftrightarrow> \<not> meExposureKnown z"
      "rkFactors (?f z) = factorsOf z"
      "rfExposureKnown (factorsOf z) = meExposureKnown z"
      "rfExposureCurrency (factorsOf z) = meExposureCurrency z" for z
    by (auto simp: rankItem_def Let_def factorsOf_def)
  have real: "realScore (factorsOf e) \<le> realScore (factorsOf d)"
    if "rkBand (?f e) = BandComparable" "rkBand (?f d) = BandComparable"
    using rankItem_real_mono [OF d(1) e(1) that k] .
  have bands: "bandOrder (rkBand (?f d)) \<le> bandOrder (rkBand (?f e))" using k by (auto simp: rankKey_def)
  have unk: "unknownScore (factorsOf e) \<le> unknownScore (factorsOf d)"
    if "rkBand (?f d) = BandUnknown" "rkBand (?f e) = BandUnknown"
    using k that by (auto simp: rankKey_def sc(4))
  have up: "rkBand (?f e) = BandComparable \<Longrightarrow> rkBand (?f d) = BandComparable"
      "rkBand (?f d) = BandUnknown \<Longrightarrow> rkBand (?f e) = BandUnknown"
    using bands by (cases "rkBand (?f d)"; cases "rkBand (?f e)"; simp)+
  show ?thesis
    unfolding ab(1-4) d(2) e(2) using ab(5,6) rankEvents_mset [of us events] real up unk
    by (metis sc)
qed

section \<open>A concrete feed\<close>

definition demoEvent :: "uuid \<Rightarrow> int64 option \<Rightarrow> string \<Rightarrow> int \<Rightarrow> market_event" where
  "demoEvent n amount cur ex =
     \<lparr>meID = n, meAccountID = 1, meVariantID = n, meTargetID = None, meType = TypeContributionFloor,
      meSeverity = SeverityWarning, meState = LifecycleOpen, meDedupKey = [], meThresholdID = None,
      meThresholdVersion = None, meExposureKnown = (amount \<noteq> None), meExposureMantissa = amount,
      meExposureCurrency = cur, meExposureExponent = ex, meConfidenceBp = 8000, meUrgencyBp = 6000,
      meEvidenceObservationID = None, meEvidenceQuality = Supported, meEvidenceRef = [],
      meEvidenceDetail = [], meFirstDetectedAt = 5, meLastEvidenceAt = 5, meExpiresAt = 50,
      meResolvedAt = None, meUpdateCount = 0\<rparr>"

text \<open>Two rial amounts of different exponents, one in euro, one unknown.\<close>

definition demoFeed :: "market_event list" where
  "demoFeed = [demoEvent 1 None [] 0, demoEvent 2 (Some 900) ''EUR'' 0, demoEvent 3 (Some 500) ''IRR'' 0,
               demoEvent 4 (Some 60) ''IRR'' 1]"

lemma demoFeed_ranked:
  "map (\<lambda>r. meID (rkEvent r)) (rankEvents shortText demoFeed) = [4, 3, 2, 1]"
  by code_simp

lemma today_order_free_witness:
  "rankEvents shortText (rev demoFeed) = rankEvents shortText demoFeed"
proof -
  have "mset (rev demoFeed) = mset demoFeed" "distinct (map (shortText \<circ> meID) (rev demoFeed))"
    by (simp, code_simp)
  from today_order_free [OF this] show ?thesis by blast
qed

lemma today_by_real_value_witness:
  "rkScore (rankEvents shortText demoFeed ! 0) = Some 28800000000
   \<and> realScore (rkFactors (rankEvents shortText demoFeed ! 1)) \<le> realScore (rkFactors (rankEvents shortText demoFeed ! 0))"
proof -
  have l: "(1::nat) < length (rankEvents shortText demoFeed)" by (simp add: demoFeed_def)
  have "rkScore (rankEvents shortText demoFeed ! 0) = Some 28800000000"
    "rkScore (rankEvents shortText demoFeed ! 1) \<noteq> None" by code_simp+
  with today_by_real_value [OF _ l, of 0] show ?thesis by simp
qed

end
