(* ===== verification/EventDemo.thy ===== *)
theory EventDemo
  imports EventPass EventRanking
begin

text \<open>A concrete world of the event engine: one account, one target, a competitor that doubles its price.\<close>

definition demoObservation :: "uuid \<Rightarrow> instant \<Rightarrow> string \<Rightarrow> observation_row" where
  "demoObservation i t price =
     \<lparr>obID = i,
      obCapture = witnessCapture\<lparr>cpTargetID := 2, cpAccount := 1, cpNativeSellerID := runes ''5'',
        cpPrice := newRawAmount (runes price) (runes price) (runes ''IRR''), cpCapturedAt := t\<rparr>,
      obOfferIdentity = runes ''A'', obQuality = Supported, obFreshnessDeadline = t + 1000,
      obDedupKey = [], obSchemaValid = True, obIdentityValid = True\<rparr>"

definition demoEventEnv :: event_env where
  "demoEventEnv =
     \<lparr>evObs = emptyStore\<lparr>odObservations := [demoObservation 11 100 ''1000'', demoObservation 12 200 ''2000'']\<rparr>,
      evAccounts = [\<lparr>maID = 1, maOrganizationID = 9, maOwnedSellerID = Some (runes ''77'')\<rparr>],
      evTargets = [\<lparr>otID = 2, otAccountID = 1, otNativeVariantID = 7, otFreshnessDeadlineSeconds = 60,
                    otActive = True\<rparr>],
      evTargetVariant = (\<lambda>_. 3), evVariantAccount = [3 \<mapsto> 1], evNotifier = None, evUUIDText = shortText,
      evNewID = (\<lambda>db. 100 + word_of_int (int (length (edEvents db)))), evNow = 300\<rparr>"

definition demoThresholdParams :: threshold_params where
  "demoThresholdParams =
     \<lparr>tpAccount = 1, tpCategory = runes ''*'', tpType = TypeCompetitorPrice, tpVersion = 1,
      tpMoveBp = newBasisPoints 500, tpSellerCountDelta = 0, tpChallengeMarginBp = newBasisPoints 0,
      tpEffectiveFrom = 0, tpCreatedBy = 0\<rparr>"

definition demoEvents0 :: event_db where
  "demoEvents0 = (case setThreshold emptyEvents 7 demoThresholdParams of Inr (db, _) \<Rightarrow> db | Inl _ \<Rightarrow> emptyEvents)"

definition noFaults :: pass_faults where
  "noFaults =
     \<lparr>pfExpire = False, pfLoad = False, pfThreshold = (\<lambda>_. False), pfResolve = (\<lambda>_. False),
      pfRecord = (\<lambda>_. False), pfAdvance = (\<lambda>_. False)\<rparr>"

definition demoPass :: "pass_faults \<Rightarrow> event_db \<Rightarrow> event_db \<times> pass_metrics" where
  "demoPass flt db = runOnce demoEventEnv flt 500 1000 db"

definition demoEvents1 :: event_db where
  "demoEvents1 = fst (demoPass noFaults demoEvents0)"

lemma demo_reachable0: "eventReachable (demoEventEnv, demoEvents0)"
proof -
  have "setThreshold emptyEvents 7 demoThresholdParams = Inr (demoEvents0, hd (edThresholds demoEvents0))"
    by (simp add: demoEvents0_def setThreshold_def emptyEvents_def demoThresholdParams_def Let_def
        eventTypeValid_def)
  from step_threshold [OF this] show ?thesis by (rule reach_step [OF reach_empty])
qed

lemma demo_steps: "eventStep\<^sup>*\<^sup>* (demoEventEnv, demoEvents0) (demoEventEnv, demoEvents1)"
  unfolding demoEvents1_def demoPass_def by (rule runOnce_steps)

lemma demo_reachable1: "eventReachable (demoEventEnv, demoEvents1)"
  by (rule steps_reachable [OF demo_steps demo_reachable0])

lemma demo_rows:
  "map obID (streamRows demoEventEnv demoEvents0 2 (runes ''5'', runes ''A'')) = [11, 12]"
  by code_simp


lemma demo_chars:
  "char_of (48 :: nat) = CHR ''0''" "char_of (49 :: nat) = CHR ''1''" "char_of (50 :: nat) = CHR ''2''"
  by code_simp+

lemma demo_tokens:
  "parseToken (trimSpace (runes ''1000'')) = Some 1000" "parseToken (trimSpace (runes ''2000'')) = Some 2000"
  by (simp_all add: parseToken_def parseInt_def trimSpace_def runes_def asciiOf_def isDigitChar_def digitVal_def
      isSpaceRune_def demo_chars)

lemma demo_move:
  "movementBasisPoints (runes ''1000'') (runes ''2000'') (runes ''IRR'') = Some 10000"
  by (simp add: movementBasisPoints_def demo_tokens basisPointScale_def)
     (simp add: trimSpace_Nil_iff runes_def isSpaceRune_def)

lemma demo_threshold:
  "thresholdAsOf demoEvents0 1 (runes ''*'') TypeCompetitorPrice 200 =
     Some (zeroThreshold\<lparr>thID := 7, thVersion := 1, thMoveBp := newBasisPoints 500\<rparr>)"
  by (simp add: thresholdAsOf_def inForceRow_def demoEvents0_def setThreshold_def emptyEvents_def
      demoThresholdParams_def Let_def eventTypeValid_def laterThreshold_def thresholdFromRow_def
      optionalInt4_def toInt32_def zeroThreshold_def newBasisPoints_def)

definition demoBefore :: observation_row where
  "demoBefore = demoObservation 11 100 ''1000''"

definition demoAfter :: observation_row where
  "demoAfter = demoObservation 12 200 ''2000''"

definition demoMove :: transition where
  "demoMove = buildTransition demoEventEnv 1000 1 2 (cursorOfRow demoBefore) demoAfter"

lemma demo_sweep: "psDb (sweepFirst demoEventEnv noFaults demoEvents0) = demoEvents0"
  by (simp add: sweepFirst_def noFaults_def expireStaleAll_def updateWhere_def demoEvents0_def setThreshold_def
      emptyEvents_def demoThresholdParams_def Let_def eventTypeValid_def)

lemma demo_transitions:
  "transitions demoEventEnv demoEvents0 500 1000 = ([demoMove], [highWater 1 2 demoAfter])"
  by code_simp

lemmas demo_defs =
  demoMove_def buildTransition_def withThreshold_def resolveThreshold_def noFaults_def demoBefore_def
  demoAfter_def demoObservation_def rowValue_def cursorOfRow_def newRawAmount_def witnessCapture_def
  goZeroTime_def demo_threshold detectCompetitorPrice_def demo_move Let_def zeroThreshold_def candidate_def
  newBasisPoints_def

definition demoCandidate :: event_candidate where
  "demoCandidate =
     (case evaluate demoEventEnv demoEvents0 noFaults demoMove of Inr (Some c) \<Rightarrow> c | _ \<Rightarrow> undefined)"

lemma demo_evaluate: "evaluate demoEventEnv demoEvents0 noFaults demoMove = Inr (Some demoCandidate)"
  by (simp add: demoCandidate_def evaluate_def demo_defs)

lemma demo_candidate:
  "ecType demoCandidate = TypeCompetitorPrice" "ecVariant demoCandidate = 3" "ecTarget demoCandidate = 2"
  "ecSeverity demoCandidate = SeverityCritical" "ecExposure demoCandidate = unknownExposure"
  "ecUrgency demoCandidate = newBasisPoints 10000" "veObservationID (ecEvidence demoCandidate) = 12"
  "veQuality (ecEvidence demoCandidate) = Supported" "ecDetectedAt demoCandidate = 200"
  "ecThresholdID demoCandidate = 7" "ecThresholdVersion demoCandidate = 1"
  "ecDedupKey demoCandidate = eventDedupKey shortText TypeCompetitorPrice 3 (runes ''A'')"
  "\<exists>con. ecConsumption demoCandidate = Some con"
  by (simp_all add: demoCandidate_def evaluate_def demo_defs demoEventEnv_def urgencyOf_def)

lemma demo_key: "ecDedupKey demoCandidate \<noteq> []"
  by (simp add: demo_candidate eventDedupKey_def Let_def runes_def)

lemma demo_derive: "\<exists>ref. deriveEvidence demoEventEnv 1 demoCandidate = Inr (Supported, ref)"
  by (simp add: deriveEvidence_def demo_candidate Let_def getObservationForAccount_def demoEventEnv_def
      demoObservation_def witnessCapture_def qualityValid_def)

lemma demo_empty: "edEvents demoEvents0 = []" "edLedger demoEvents0 = []"
  "edThresholds demoEvents0 = [\<lparr>trID = 7, trAccountID = 1, trCategory = runes ''*'', trEventType = TypeCompetitorPrice,
     trVersion = 1, trMoveBp = Some 500, trSellerCountDelta = None, trChallengeMarginBp = None,
     trEffectiveFrom = 0, trCreatedBy = None\<rparr>]"
  by (simp_all add: demoEvents0_def setThreshold_def emptyEvents_def demoThresholdParams_def Let_def
      eventTypeValid_def optionalInt4_def toInt32_def newBasisPoints_def optionalUUID_def)

lemma demo_accepted:
  "accepted demoEventEnv (demoEvents0\<lparr>edLedger := l\<rparr>) None
     (proposedEvent demoEventEnv (demoEvents0\<lparr>edLedger := l\<rparr>) 1 demoCandidate Supported ref)"
  by (simp add: accepted_def rowChecks_def accountConsistent_def thresholdProvenance_def proposedEvent_def
      demo_candidate exposureAmount_def unknownExposure_def eventTypeValid_def qualityValid_def confidenceOf_def
      toInt32_def newBasisPoints_def optionalUUID_def sameAccount_def targetByID_def thresholdByID_def
      observationByID_def demo_empty supersedes_def demoEventEnv_def demoObservation_def witnessCapture_def)

definition demoEvent1 :: market_event where
  "demoEvent1 = (case deriveEvidence demoEventEnv 1 demoCandidate of
     Inr (q, ref) \<Rightarrow> proposedEvent demoEventEnv demoEvents0 1 demoCandidate q ref | Inl _ \<Rightarrow> undefined)"

lemma demo_proposed:
  "proposedEvent demoEventEnv (demoEvents0\<lparr>edLedger := l\<rparr>) 1 c q ref = proposedEvent demoEventEnv demoEvents0 1 c q ref"
  by (simp add: proposedEvent_def demoEventEnv_def)

definition openedResult :: "market_event \<Rightarrow> record_result" where
  "openedResult e = \<lparr>rrEvent = Some e, rrDeduped = False, rrOutcome = OutcomeOpened, rrAlreadyConsumed = False\<rparr>"

lemma demo_write:
  "writeEvent demoEventEnv alone (demoEvents0\<lparr>edLedger := l\<rparr>) 1 demoCandidate =
     (demoEvents0\<lparr>edLedger := l, edEvents := [demoEvent1]\<rparr>, Inr (openedResult demoEvent1))"
proof -
  obtain ref where r: "deriveEvidence demoEventEnv 1 demoCandidate = Inr (Supported, ref)" using demo_derive by blast
  have a: "accepted demoEventEnv (demoEvents0\<lparr>edLedger := l\<rparr>) None demoEvent1"
    using demo_accepted [of l ref] by (simp add: demoEvent1_def r demo_proposed)
  have "meState demoEvent1 = LifecycleOpen" by (simp add: demoEvent1_def r)
  then show ?thesis
    using a by (simp add: writeEvent_def r recordMaxAttempts_def numeral_eq_Suc recordEvent_def demo_proposed
        demoEvent1_def liveByKey_def demo_empty openedResult_def)
qed

text \<open>The movement is recorded, and its cursor advanced, in one transaction.\<close>

lemma demo_record:
  "\<exists>con db'. ecConsumption demoCandidate = Some con
     \<and> recordFor demoEventEnv alone demoEvents0 1 demoCandidate = (db', Inr (openedResult demoEvent1))
     \<and> edEvents db' = [demoEvent1]"
proof -
  obtain con where c: "ecConsumption demoCandidate = Some con" using demo_candidate by blast
  have n: "enqueueNotification demoEventEnv d a r = Inr d" for d a r
    by (simp add: enqueueNotification_def demoEventEnv_def)
  show ?thesis
    by (simp add: recordFor_def demo_candidate(1,8) demo_key eventTypeValid_def qualityValid_def c recordConsumed_def
        insertInputTransition_def demo_empty demo_write n Let_def)
qed

lemma demo_live: "meLive demoEvent1 \<and> meEvidenceQuality demoEvent1 = Supported"
proof -
  obtain ref where r: "deriveEvidence demoEventEnv 1 demoCandidate = Inr (Supported, ref)" using demo_derive by blast
  then show ?thesis by (simp add: demoEvent1_def meLive_def liveState_def)
qed

lemma demo_produce:
  "edEvents (psDb (foldl (produceOne demoEventEnv noFaults) (sweepFirst demoEventEnv noFaults demoEvents0) [demoMove]))
     = [demoEvent1]
   \<and> pmErrors (psMetrics (foldl (produceOne demoEventEnv noFaults) (sweepFirst demoEventEnv noFaults demoEvents0) [demoMove])) = 0"
proof -
  let ?st = "sweepFirst demoEventEnv noFaults demoEvents0"
  have st: "psDb ?st = demoEvents0" "psBlocked ?st = []" "pmErrors (psMetrics ?st) = 0"
    by (rule demo_sweep, simp)
      (simp add: sweepFirst_def noFaults_def expireStaleAll_def updateWhere_def demo_empty Let_def zeroMetrics_def)
  obtain con db' where c: "ecConsumption demoCandidate = Some con"
    "recordFor demoEventEnv alone demoEvents0 1 demoCandidate = (db', Inr (openedResult demoEvent1))"
    "edEvents db' = [demoEvent1]" using demo_record by blast
  have m: "tnAccount demoMove = 1" by (simp add: demoMove_def buildTransition_def)
  have f: "\<not> pfRecord noFaults demoMove" by (simp add: noFaults_def)
  show ?thesis
    by (simp add: produceOne_def st demo_evaluate c recordOne_def m f Let_def openedResult_def)
qed

lemma demo_pass:
  "edEvents demoEvents1 = [demoEvent1]" "pmErrors (snd (demoPass noFaults demoEvents0)) = 0"
proof -
  let ?p = "foldl (produceOne demoEventEnv noFaults) (sweepFirst demoEventEnv noFaults demoEvents0) [demoMove]"
  have l: "\<not> pfLoad noFaults" by (simp add: noFaults_def)
  have r: "demoPass noFaults demoEvents0 =
      (psDb (foldl (advanceOne demoEventEnv noFaults) ?p [highWater 1 2 demoAfter]),
       psMetrics (foldl (advanceOne demoEventEnv noFaults) ?p [highWater 1 2 demoAfter]))"
    by (simp only: demoPass_def runOnce_def Let_def demo_sweep demo_transitions l if_False prod.case)
  show "edEvents demoEvents1 = [demoEvent1]"
    unfolding demoEvents1_def r fst_conv advances_keep [THEN conjunct1] using demo_produce by blast
  have "pmErrors (psMetrics (advanceOne demoEventEnv noFaults st m)) = pmErrors (psMetrics st)" for st m
    by (simp add: advanceOne_def noFaults_def)
  then show "pmErrors (snd (demoPass noFaults demoEvents0)) = 0"
    unfolding r using demo_produce by simp
qed

section \<open>Witnesses\<close>

lemma event_store_sound_witness:
  "edEvents demoEvents1 = [demoEvent1] \<and> distinct (map meID (edEvents demoEvents1))
   \<and> (\<exists>r \<in> set (odObservations (evObs demoEventEnv)).
        meEvidenceObservationID demoEvent1 = Some (obID r) \<and> obQuality r = Supported)"
  using event_store_sound [OF demo_reachable1] demo_pass demo_live by force

lemma event_history_witness: "\<exists>e' \<in> set (edEvents demoEvents1). evolves demoEvent1 e'"
  by (rule event_history [OF demo_reachable1 rtranclp.rtrancl_refl]) (simp add: demo_pass)

lemma threshold_in_force_witness:
  "\<exists>r \<in> set (edThresholds demoEvents0). inForceRow demoEvents0 1 (runes ''*'') TypeCompetitorPrice 200 = Some r"
proof -
  have "distinct (map trID (edThresholds demoEvents0))" by (simp add: demo_empty)
  from threshold_in_force [OF this, of 1 "runes ''*''" TypeCompetitorPrice 200] show ?thesis
    using demo_threshold by (auto simp: thresholdAsOf_def)
qed

lemma record_outcomes_witness:
  "\<exists>db' res. recordFor demoEventEnv alone demoEvents0 1 (demoCandidate\<lparr>ecConsumption := None\<rparr>) = (db', Inr res)
     \<and> edNotices db' = edNotices demoEvents0 \<and> edLedger db' = []"
proof -
  let ?c = "demoCandidate\<lparr>ecConsumption := None\<rparr>"
  have d: "deriveEvidence demoEventEnv 1 ?c = deriveEvidence demoEventEnv 1 demoCandidate"
    by (simp add: deriveEvidence_def Let_def split: option.split)
  have "proposedEvent demoEventEnv db 1 ?c q ref = proposedEvent demoEventEnv db 1 demoCandidate q ref" for db q ref
    by (simp add: proposedEvent_def)
  then have "recordAttempts demoEventEnv alone n 1 ?c q ref db = recordAttempts demoEventEnv alone n 1 demoCandidate q ref db"
    for n q ref db by (induction n arbitrary: db) (simp_all add: alone_def Let_def split: sum.split prod.split option.split)
  then have "writeEvent demoEventEnv alone demoEvents0 1 ?c =
      (demoEvents0\<lparr>edEvents := [demoEvent1]\<rparr>, Inr (openedResult demoEvent1))"
    using demo_write [of "edLedger demoEvents0"] demo_derive by (auto simp: writeEvent_def d)
  moreover have "enqueueNotification demoEventEnv d a r = Inr d" for d a r
    by (simp add: enqueueNotification_def demoEventEnv_def)
  ultimately have r: "recordFor demoEventEnv alone demoEvents0 1 ?c =
      (demoEvents0\<lparr>edEvents := [demoEvent1]\<rparr>, Inr (openedResult demoEvent1))"
    by (simp add: recordFor_def demo_candidate(1,7,8) demo_key eventTypeValid_def qualityValid_def writeEventTx_def)
  have "evNotifier demoEventEnv = None" by (simp add: demoEventEnv_def)
  with record_outcomes [OF r] r demo_empty show ?thesis by simp
qed

lemma ingestion_exactly_once_witness:
  "\<exists>db1 db2 r. recordFor demoEventEnv alone demoEvents0 1 demoCandidate = (db1, Inr (openedResult demoEvent1))
     \<and> recordFor demoEventEnv alone db1 1 demoCandidate = (db2, r) \<and> edEvents db2 = [demoEvent1]"
proof -
  obtain con db1 where c: "ecConsumption demoCandidate = Some con"
    and r: "recordFor demoEventEnv alone demoEvents0 1 demoCandidate = (db1, Inr (openedResult demoEvent1))"
    and e: "edEvents db1 = [demoEvent1]" using demo_record by blast
  obtain db2 r2 where r2: "recordFor demoEventEnv alone db1 1 demoCandidate = (db2, r2)" by fastforce
  from ingestion_exactly_once [OF r c rtranclp.rtrancl_refl c refl r2] r r2 e show ?thesis by auto
qed

lemma demo_targets: "(1, runes ''77'', 2) \<in> set (accountTargets demoEventEnv)"
  by (simp add: accountTargets_def demoEventEnv_def validatedOwnedSeller_def runes_def listTargets_def)

lemma demo_competing: "(runes ''5'', runes ''A'') \<in> set (competingStreams demoEventEnv 2 (runes ''77''))"
  by (simp add: competingStreams_def demoEventEnv_def demoObservation_def witnessCapture_def rowStream_def runes_def)

lemma pass_drains_streams_witness:
  "length (streamRows demoEventEnv demoEvents0 2 (runes ''5'', runes ''A'')) = 2
   \<and> streamRows demoEventEnv demoEvents1 2 (runes ''5'', runes ''A'') = []"
proof -
  have l: "length (streamRows demoEventEnv demoEvents0 2 (runes ''5'', runes ''A'')) = 2"
    using arg_cong [OF demo_rows, of length] by simp
  have r: "runOnce demoEventEnv noFaults 500 1000 demoEvents0 = (demoEvents1, snd (demoPass noFaults demoEvents0))"
    by (simp add: demoEvents1_def demoPass_def)
  from pass_drains_streams [OF r demo_pass(2) demo_targets demo_competing] l show ?thesis by simp
qed

definition lookupFails :: pass_faults where
  "lookupFails = noFaults\<lparr>pfThreshold := \<lambda>_. True\<rparr>"

lemma failed_lookup_loses_movements_witness:
  "edEvents (fst (demoPass lookupFails demoEvents0)) = []
   \<and> streamRows demoEventEnv (fst (demoPass lookupFails demoEvents0)) 2 (runes ''5'', runes ''A'') = []"
proof -
  have l: "length (streamRows demoEventEnv demoEvents0 2 (runes ''5'', runes ''A'')) = 2"
    using arg_cong [OF demo_rows, of length] by simp
  have r: "runOnce demoEventEnv lookupFails 500 1000 demoEvents0 =
      (fst (demoPass lookupFails demoEvents0), snd (demoPass lookupFails demoEvents0))"
    by (simp add: demoPass_def)
  have f: "pfThreshold lookupFails = (\<lambda>_. True)" "\<not> pfLoad lookupFails" "pfAdvance lookupFails = (\<lambda>_. False)"
    by (simp_all add: lookupFails_def noFaults_def)
  from failed_lookup_loses_movements [OF r f demo_targets demo_competing] l show ?thesis
    by (simp add: demo_empty)
qed

end
