(* ===== verification/Outcome.thy ===== *)
theory Outcome
  imports Execution EventDetect
begin

text \<open>
  The outcome of a reconciled action (services/core/internal/outcome): the rule that classifies a
  window and grades the confidence (outcome.go), the append-only windows and results with their
  queries (service.go, db/outcome.sql.go), the evidence source over the tables (source.go), the close
  job (closer.go) and the reads scoped to the caller's organisation (scoped.go).

  The contract between the close job and its source of evidence is the locale \<open>evidence_source\<close>; the
  production source and the default source are its interpretations.  Every query of the code is its
  own statement, so a determination may be read in one state and its result appended in a later one:
  the step relation \<open>outcomeStep\<close> keeps the resolutions that are in flight.
\<close>

section \<open>The rule (outcome.go)\<close>

datatype outcome_class =
  Positive | Negative | Neutral | Inconclusive | NotMeasurable | ClassOther string

definition classValid :: "outcome_class \<Rightarrow> bool" where
  "classValid r \<longleftrightarrow> r \<in> {Positive, Negative, Neutral, Inconclusive, NotMeasurable}"

datatype confidence = High | Medium | Low | ConfidenceOther string

definition confidenceValid :: "confidence \<Rightarrow> bool" where
  "confidenceValid c \<longleftrightarrow> c \<in> {High, Medium, Low}"

record inputs =
  inEvidenceComplete :: bool
  inAttributionBlocked :: bool
  inFloorBreached :: bool
  inContributionBreachedBound :: bool
  inWithinMateriality :: bool
  inObjectiveImproved :: bool
  inObjectiveWorsened :: bool
  inConcurrentMaterialChanges :: int

definition classifyInputs :: "inputs \<Rightarrow> outcome_class" where
  "classifyInputs i =
     (if \<not> inEvidenceComplete i then NotMeasurable
      else if inAttributionBlocked i then Inconclusive
      else if inFloorBreached i \<or> inContributionBreachedBound i then Negative
      else if inWithinMateriality i then Neutral
      else if inObjectiveWorsened i then Negative
      else if inObjectiveImproved i then Positive
      else Neutral)"

definition grade :: "int \<Rightarrow> confidence" where
  "grade n = (if n \<le> 0 then High else if n = 1 then Medium else Low)"

definition evaluateOutcome :: "inputs \<Rightarrow> outcome_class \<times> confidence" where
  "evaluateOutcome i = (classifyInputs i, grade (inConcurrentMaterialChanges i))"

record window =
  wOpenedAt :: instant
  wClosesAt :: instant

definition openAt :: "instant \<Rightarrow> window" where
  "openAt t = \<lparr>wOpenedAt = t, wClosesAt = t + outcomeWindow\<rparr>"

definition windowClosed :: "window \<Rightarrow> instant \<Rightarrow> bool" where
  "windowClosed w now \<longleftrightarrow> \<not> now < wClosesAt w"

section \<open>Tables\<close>

record window_row =
  wnID :: uuid
  wnActionID :: uuid
  wnCardID :: "uuid option"
  wnOpenedAt :: instant
  wnClosesAt :: instant

record result_row =
  orWindowID :: uuid
  orResult :: outcome_class
  orConfidence :: confidence

text \<open>A determination of the metric pipeline; the code only reads this table.\<close>

record evidence_row =
  oeActionID :: uuid
  oeAccountID :: uuid
  oeWindowStart :: instant
  oeWindowEnd :: instant
  oeComplete :: bool
  oeImproved :: bool
  oeWorsened :: bool
  oeWithinMateriality :: bool
  oeFloorBreached :: bool
  oeBreachedBound :: bool
  oeAttributionBlocked :: bool
  oeMeasuredAt :: instant

text \<open>
  The windows, results and determinations, and the tables of other components the queries join:
  executions, cards, the variant of a recommendation, market events, the account of an organisation.
\<close>

record outcome_db =
  ocWindows :: "window_row list"
  ocResults :: "result_row list"
  ocEvidence :: "evidence_row list"
  ocExecutions :: "execution_row list"
  ocCards :: "uuid \<rightharpoonup> card_row"
  ocVariantOf :: "uuid \<rightharpoonup> uuid"
  ocEvents :: "market_event list"
  ocAccountOfOrg :: "uuid \<rightharpoonup> uuid"

datatype outcome_error =
  ErrWindowOpen | ErrNoWindow | ErrOutcomeAccountNotFound | OutcomeNoRows | OutcomeDbErr
| ErrUnknownDisposition

text \<open>
  Which query fails for which action, the clock of the service at the call for an action, and the
  clock when the due windows are listed.
\<close>

datatype outcome_query = QExecution | QEvidence | QConcurrent | QWindow | QAppend | QResult | QList

record outcome_env =
  ovFails :: "outcome_query \<Rightarrow> uuid \<Rightarrow> bool"
  ovNow :: "uuid \<Rightarrow> instant"
  ovListNow :: instant

section \<open>Queries (db/outcome.sql.go)\<close>

definition windowByAction :: "outcome_db \<Rightarrow> uuid \<Rightarrow> window_row option" where
  "windowByAction db a = find (\<lambda>w. wnActionID w = a) (ocWindows db)"

definition resultOf :: "outcome_db \<Rightarrow> uuid \<Rightarrow> result_row option" where
  "resultOf db w = find (\<lambda>r. orWindowID r = w) (ocResults db)"

text \<open>
  The insert of a window: no row on a known action; an error on a used id, on a card that does not
  exist and on a span that is empty.
\<close>

definition insertWindow ::
  "outcome_db \<Rightarrow> window_row \<Rightarrow> (outcome_error, outcome_db \<times> window_row option) result" where
  "insertWindow db w =
     (if windowByAction db (wnActionID w) \<noteq> None then Inr (db, None)
      else if list_ex (\<lambda>v. wnID v = wnID w) (ocWindows db) \<or>
        (case wnCardID w of None \<Rightarrow> False | Some c \<Rightarrow> ocCards db c = None) \<or>
        \<not> wnOpenedAt w < wnClosesAt w then Inl OutcomeDbErr
      else Inr (db\<lparr>ocWindows := ocWindows db @ [w]\<rparr>, Some w))"

definition insertResult ::
  "outcome_db \<Rightarrow> result_row \<Rightarrow> (outcome_error, outcome_db \<times> result_row option) result" where
  "insertResult db r =
     (if resultOf db (orWindowID r) \<noteq> None then Inr (db, None)
      else if \<not> list_ex (\<lambda>w. wnID w = orWindowID r) (ocWindows db) \<or>
        \<not> classValid (orResult r) \<or> \<not> confidenceValid (orConfidence r) then Inl OutcomeDbErr
      else Inr (db\<lparr>ocResults := ocResults db @ [r]\<rparr>, Some r))"

text \<open>\<open>ListClosableOutcomeWindows\<close>: due windows without a result, in the order they close.\<close>

definition listClosable :: "outcome_db \<Rightarrow> instant \<Rightarrow> window_row list" where
  "listClosable db now =
     sort_key wnClosesAt (filter (\<lambda>w. resultOf db (wnID w) = None \<and> wnClosesAt w \<le> now) (ocWindows db))"

text \<open>
  A determination bound to a window: same action, the account of the window's card when there is one,
  and a measured span inside the window.
\<close>

definition windowCard :: "outcome_db \<Rightarrow> window_row \<Rightarrow> card_row option" where
  "windowCard db w = (case wnCardID w of None \<Rightarrow> None | Some c \<Rightarrow> ocCards db c)"

definition boundTo :: "outcome_db \<Rightarrow> window_row \<Rightarrow> evidence_row \<Rightarrow> bool" where
  "boundTo db w e \<longleftrightarrow>
     oeActionID e = wnActionID w \<and>
     (case windowCard db w of None \<Rightarrow> True | Some c \<Rightarrow> oeAccountID e = crAccountID c) \<and>
     wnOpenedAt w \<le> oeWindowStart e \<and> oeWindowEnd e \<le> wnClosesAt w"

fun newestOf :: "evidence_row list \<Rightarrow> evidence_row option" where
  "newestOf [] = None"
| "newestOf (e # es) =
     (case newestOf es of
        None \<Rightarrow> Some e
      | Some n \<Rightarrow> Some (if oeMeasuredAt e < oeMeasuredAt n then n else e))"

definition evidenceForAction :: "outcome_db \<Rightarrow> uuid \<Rightarrow> evidence_row option" where
  "evidenceForAction db a =
     (case windowByAction db a of
        None \<Rightarrow> None
      | Some w \<Rightarrow> newestOf (filter (boundTo db w) (ocEvidence db)))"

definition countConcurrent :: "outcome_db \<Rightarrow> uuid \<Rightarrow> nat" where
  "countConcurrent db a =
     (case windowByAction db a of
        None \<Rightarrow> 0
      | Some w \<Rightarrow>
          (case windowCard db w of
             None \<Rightarrow> 0
           | Some c \<Rightarrow>
               (case ocVariantOf db (crRecommendationID c) of
                  None \<Rightarrow> 0
                | Some v \<Rightarrow> length (filter (\<lambda>m.
                    meAccountID m = crAccountID c \<and> meVariantID m = v \<and>
                    (meSeverity m = SeverityWarning \<or> meSeverity m = SeverityCritical) \<and>
                    wnOpenedAt w \<le> meFirstDetectedAt m \<and> meFirstDetectedAt m < wnClosesAt w)
                    (ocEvents db)))))"

definition executionOf :: "outcome_db \<Rightarrow> uuid \<Rightarrow> execution_row option" where
  "executionOf db a = find (\<lambda>e. exActionID e = a) (ocExecutions db)"

section \<open>The service (service.go)\<close>

definition openWindow ::
  "outcome_env \<Rightarrow> uuid \<Rightarrow> outcome_db \<Rightarrow> uuid \<Rightarrow> uuid \<Rightarrow> (outcome_error, outcome_db \<times> window_row) result" where
  "openWindow env i db actionID cardID =
     (let w = openAt (ovNow env actionID) in
      if ovFails env QAppend actionID then Inl OutcomeDbErr
      else andThen (insertWindow db
             \<lparr>wnID = i, wnActionID = actionID, wnCardID = optionalUUID cardID,
              wnOpenedAt = wOpenedAt w, wnClosesAt = wClosesAt w\<rparr>) (\<lambda>(db', row).
           case row of
             Some r \<Rightarrow> Inr (db', r)
           | None \<Rightarrow>
               if ovFails env QWindow actionID then Inl OutcomeDbErr
               else (case windowByAction db' actionID of
                       None \<Rightarrow> Inl OutcomeNoRows | Some r \<Rightarrow> Inr (db', r))))"

definition computeAndAppend ::
  "outcome_env \<Rightarrow> outcome_db \<Rightarrow> uuid \<Rightarrow> inputs \<Rightarrow> (outcome_error, outcome_db \<times> result_row) result" where
  "computeAndAppend env db actionID i =
     (if ovFails env QWindow actionID then Inl OutcomeDbErr
      else (case windowByAction db actionID of
              None \<Rightarrow> Inl ErrNoWindow
            | Some win \<Rightarrow>
                if ovNow env actionID < wnClosesAt win then Inl ErrWindowOpen
                else (case evaluateOutcome i of (result, conf) \<Rightarrow>
                  if ovFails env QAppend actionID then Inl OutcomeDbErr
                  else andThen (insertResult db
                         \<lparr>orWindowID = wnID win, orResult = result, orConfidence = conf\<rparr>) (\<lambda>(db', row).
                       case row of
                         Some r \<Rightarrow> Inr (db', r)
                       | None \<Rightarrow>
                           if ovFails env QResult actionID then Inl OutcomeDbErr
                           else (case resultOf db' (wnID win) of
                                   None \<Rightarrow> Inl OutcomeNoRows | Some r \<Rightarrow> Inr (db', r))))))"

record outcome_view =
  vwWindow :: window_row
  vwHasResult :: bool
  vwResult :: "result_row option"

definition viewOf ::
  "outcome_env \<Rightarrow> outcome_db \<Rightarrow> uuid \<Rightarrow> window_row option \<Rightarrow> (outcome_error, outcome_view) result" where
  "viewOf env db actionID win =
     (if ovFails env QWindow actionID then Inl OutcomeDbErr
      else (case win of
              None \<Rightarrow> Inl ErrNoWindow
            | Some w \<Rightarrow>
                if ovFails env QResult actionID then Inl OutcomeDbErr
                else (case resultOf db (wnID w) of
                        None \<Rightarrow> Inr \<lparr>vwWindow = w, vwHasResult = False, vwResult = None\<rparr>
                      | Some r \<Rightarrow> Inr \<lparr>vwWindow = w, vwHasResult = True, vwResult = Some r\<rparr>)))"

definition getOutcome :: "outcome_env \<Rightarrow> outcome_db \<Rightarrow> uuid \<Rightarrow> (outcome_error, outcome_view) result" where
  "getOutcome env db actionID = viewOf env db actionID (windowByAction db actionID)"

record outcome_list_row =
  olActionID :: uuid
  olCardID :: "uuid option"
  olOpenedAt :: instant
  olClosesAt :: instant
  olResult :: "outcome_class option"
  olConfidence :: "confidence option"

definition listRow :: "outcome_db \<Rightarrow> window_row \<Rightarrow> outcome_list_row" where
  "listRow db w =
     \<lparr>olActionID = wnActionID w, olCardID = wnCardID w, olOpenedAt = wnOpenedAt w,
      olClosesAt = wnClosesAt w, olResult = map_option orResult (resultOf db (wnID w)),
      olConfidence = map_option orConfidence (resultOf db (wnID w))\<rparr>"

definition ownedBy :: "outcome_db \<Rightarrow> uuid \<Rightarrow> window_row \<Rightarrow> bool" where
  "ownedBy db account w \<longleftrightarrow>
     (case windowCard db w of None \<Rightarrow> False | Some c \<Rightarrow> crAccountID c = account)"

definition listByAccount :: "outcome_db \<Rightarrow> uuid \<Rightarrow> int \<Rightarrow> outcome_list_row list" where
  "listByAccount db account limit =
     map (listRow db)
       (take (nat (if limit \<le> 0 then 200 else limit))
         (rev (sort_key wnOpenedAt (filter (ownedBy db account) (ocWindows db)))))"

section \<open>Reads of an organisation (scoped.go)\<close>

definition outcomeAccountForOrg :: "outcome_db \<Rightarrow> uuid \<Rightarrow> (outcome_error, uuid) result" where
  "outcomeAccountForOrg db org =
     (case ocAccountOfOrg db org of None \<Rightarrow> Inl OutcomeNoRows | Some a \<Rightarrow> Inr a)"

definition windowByActionForAccount :: "outcome_db \<Rightarrow> uuid \<Rightarrow> uuid \<Rightarrow> window_row option" where
  "windowByActionForAccount db actionID account =
     find (\<lambda>w. wnActionID w = actionID \<and> ownedBy db account w) (ocWindows db)"

definition getOutcomeForOrg ::
  "outcome_env \<Rightarrow> outcome_db \<Rightarrow> uuid \<Rightarrow> uuid \<Rightarrow> (outcome_error, outcome_view) result" where
  "getOutcomeForOrg env db org actionID =
     (case outcomeAccountForOrg db org of
        Inl e \<Rightarrow> Inl (if e = OutcomeNoRows then ErrNoWindow else e)
      | Inr account \<Rightarrow> viewOf env db actionID (windowByActionForAccount db actionID account))"

definition listByAccountForOrg ::
  "outcome_db \<Rightarrow> uuid \<Rightarrow> uuid \<Rightarrow> int \<Rightarrow> (outcome_error, outcome_list_row list) result" where
  "listByAccountForOrg db org requested limit =
     andThen (outcomeAccountForOrg db org) (\<lambda>account.
     if requested \<noteq> account then Inl ErrOutcomeAccountNotFound
     else Inr (listByAccount db account limit))"

section \<open>The evidence source (source.go)\<close>

datatype disposition =
  DispositionMeasurable | DispositionAbsent | DispositionIncomplete | DispositionOther int

record resolution =
  rsDisposition :: disposition
  rsInputs :: inputs

definition zeroInputs :: inputs where
  "zeroInputs =
     \<lparr>inEvidenceComplete = False, inAttributionBlocked = False, inFloorBreached = False,
      inContributionBreachedBound = False, inWithinMateriality = False, inObjectiveImproved = False,
      inObjectiveWorsened = False, inConcurrentMaterialChanges = 0\<rparr>"

text \<open>\<open>objectiveEvidence\<close> holds the determination's flags; \<open>mapEvidence\<close> copies them from the row.\<close>

record objective_evidence =
  obComplete :: bool
  obImproved :: bool
  obWorsened :: bool
  obWithinMateriality :: bool
  obFloorBreached :: bool
  obBreachedBound :: bool
  obAttributionBlocked :: bool

definition mapEvidence :: "evidence_row \<Rightarrow> objective_evidence" where
  "mapEvidence e =
     \<lparr>obComplete = oeComplete e, obImproved = oeImproved e, obWorsened = oeWorsened e,
      obWithinMateriality = oeWithinMateriality e, obFloorBreached = oeFloorBreached e,
      obBreachedBound = oeBreachedBound e, obAttributionBlocked = oeAttributionBlocked e\<rparr>"

definition resolveEvidence :: "bool \<Rightarrow> objective_evidence option \<Rightarrow> int \<Rightarrow> resolution" where
  "resolveEvidence execPending ev concurrent =
     (if execPending then \<lparr>rsDisposition = DispositionIncomplete, rsInputs = zeroInputs\<rparr>
      else (case ev of
              None \<Rightarrow> \<lparr>rsDisposition = DispositionIncomplete, rsInputs = zeroInputs\<rparr>
            | Some b \<Rightarrow>
                if \<not> obComplete b then \<lparr>rsDisposition = DispositionAbsent, rsInputs = zeroInputs\<rparr>
                else \<lparr>rsDisposition = DispositionMeasurable,
                      rsInputs =
                        \<lparr>inEvidenceComplete = True, inAttributionBlocked = obAttributionBlocked b,
                         inFloorBreached = obFloorBreached b,
                         inContributionBreachedBound = obBreachedBound b,
                         inWithinMateriality = obWithinMateriality b,
                         inObjectiveImproved = obImproved b, inObjectiveWorsened = obWorsened b,
                         inConcurrentMaterialChanges = concurrent\<rparr>\<rparr>))"

definition sourceEvidence ::
  "outcome_env \<Rightarrow> outcome_db \<Rightarrow> uuid \<Rightarrow> (outcome_error, resolution) result" where
  "sourceEvidence env db a =
     (if ovFails env QExecution a then Inl OutcomeDbErr
      else if ovFails env QEvidence a then Inl OutcomeDbErr
      else
        (let execPending = (case executionOf db a of
                              None \<Rightarrow> False
                            | Some e \<Rightarrow> exExternalState e = ExtPendingReconciliation);
             ev = map_option mapEvidence (evidenceForAction db a) in
         case ev of
           None \<Rightarrow> Inr (resolveEvidence execPending ev 0)
         | Some b \<Rightarrow>
             if \<not> obComplete b then Inr (resolveEvidence execPending ev 0)
             else if ovFails env QConcurrent a then Inl OutcomeDbErr
             else Inr (resolveEvidence execPending ev (int (countConcurrent db a)))))"

text \<open>\<open>unmeasuredSource\<close>: what a closer built without a source uses.\<close>

definition unmeasuredEvidence :: "outcome_db \<Rightarrow> uuid \<Rightarrow> (outcome_error, resolution) result" where
  "unmeasuredEvidence db a = Inr \<lparr>rsDisposition = DispositionIncomplete, rsInputs = zeroInputs\<rparr>"

section \<open>The close job (closer.go)\<close>

type_synonym evidence_fn = "outcome_db \<Rightarrow> uuid \<Rightarrow> (outcome_error, resolution) result"

text \<open>The state of a pass: the tables, the windows closed, the errors with their actions.\<close>

record close_run =
  clDb :: outcome_db
  clClosed :: nat
  clErrors :: "(uuid \<times> outcome_error) list"

definition addFailure :: "uuid \<Rightarrow> outcome_error \<Rightarrow> close_run \<Rightarrow> close_run" where
  "addFailure a e c = c\<lparr>clErrors := clErrors c @ [(a, e)]\<rparr>"

definition closeResolved :: "outcome_env \<Rightarrow> uuid \<Rightarrow> resolution \<Rightarrow> close_run \<Rightarrow> close_run" where
  "closeResolved env a res c =
     (let append = (\<lambda>i. case computeAndAppend env (clDb c) a i of
                          Inl e \<Rightarrow> addFailure a e c
                        | Inr (db', _) \<Rightarrow> c\<lparr>clDb := db', clClosed := Suc (clClosed c)\<rparr>) in
      case rsDisposition res of
        DispositionIncomplete \<Rightarrow> c
      | DispositionAbsent \<Rightarrow> append zeroInputs
      | DispositionMeasurable \<Rightarrow> append (rsInputs res)
      | DispositionOther _ \<Rightarrow> addFailure a ErrUnknownDisposition c)"

definition closeOne :: "outcome_env \<Rightarrow> evidence_fn \<Rightarrow> window_row \<Rightarrow> close_run \<Rightarrow> close_run" where
  "closeOne env evidence w c =
     (case evidence (clDb c) (wnActionID w) of
        Inl e \<Rightarrow> addFailure (wnActionID w) e c
      | Inr res \<Rightarrow> closeResolved env (wnActionID w) res c)"

definition closeRunOnce ::
  "outcome_env \<Rightarrow> evidence_fn \<Rightarrow> outcome_db \<Rightarrow> (outcome_error, close_run) result" where
  "closeRunOnce env evidence db =
     (if ovFails env QList 0 then Inl OutcomeDbErr
      else Inr (fold (closeOne env evidence) (listClosable db (ovListNow env))
                  \<lparr>clDb = db, clClosed = 0, clErrors = []\<rparr>))"

end
