(* ===== verification/OutcomeClose.thy ===== *)
theory OutcomeClose
  imports Outcome
begin

text \<open>
  What the close job guarantees.  The tables' constraints and the step relation of the outcome plane
  come first; then the contract of an evidence source as a locale, in which one pass is characterised
  window by window; then the interpretations and the properties: a result is always the verdict of a
  determination bound to its window, it is appended once and never changes, and a pass closes exactly
  the due windows that have a determination.
\<close>

section \<open>Facts about the rule\<close>

lemma classifyInputs_valid [simp]: "classValid (classifyInputs i)"
  by (simp add: classValid_def classifyInputs_def)

lemma grade_valid [simp]: "confidenceValid (grade n)"
  by (simp add: confidenceValid_def grade_def)

lemma zeroInputs_outcome [simp]: "evaluateOutcome zeroInputs = (NotMeasurable, High)"
  by (simp add: evaluateOutcome_def classifyInputs_def grade_def zeroInputs_def)

text \<open>The rule of the determination itself: absence first, then blocked attribution, breach, materiality.\<close>

definition verdict :: "evidence_row \<Rightarrow> outcome_class" where
  "verdict e =
     (if \<not> oeComplete e then NotMeasurable
      else if oeAttributionBlocked e then Inconclusive
      else if oeFloorBreached e \<or> oeBreachedBound e then Negative
      else if oeWithinMateriality e then Neutral
      else if oeWorsened e then Negative
      else if oeImproved e then Positive
      else Neutral)"

section \<open>Constraints\<close>

definition outcomeTablesOk :: "outcome_db \<Rightarrow> bool" where
  "outcomeTablesOk db \<longleftrightarrow>
     distinct (map wnID (ocWindows db)) \<and> distinct (map wnActionID (ocWindows db)) \<and>
     distinct (map orWindowID (ocResults db)) \<and>
     (\<forall>w \<in> set (ocWindows db). \<forall>c. wnCardID w = Some c \<longrightarrow> ocCards db c \<noteq> None)"

lemma find_Some_facts: "find P xs = Some x \<Longrightarrow> x \<in> set xs \<and> P x"
  by (auto simp: find_Some_iff)

lemma find_missing: "k \<notin> f ` set xs \<Longrightarrow> find (\<lambda>x. f x = k) xs = None"
  by (induction xs) auto

lemma windowByAction_Some:
  "windowByAction db a = Some w \<Longrightarrow> w \<in> set (ocWindows db) \<and> wnActionID w = a"
  by (auto simp: windowByAction_def dest: find_Some_facts)

lemma windowByAction_row:
  "outcomeTablesOk db \<Longrightarrow> w \<in> set (ocWindows db) \<Longrightarrow> windowByAction db (wnActionID w) = Some w"
  by (simp add: windowByAction_def outcomeTablesOk_def find_distinct)

lemma resultOf_Some: "resultOf db i = Some r \<Longrightarrow> r \<in> set (ocResults db) \<and> orWindowID r = i"
  by (auto simp: resultOf_def dest: find_Some_facts)

lemma resultOf_None: "resultOf db i = None \<longleftrightarrow> i \<notin> orWindowID ` set (ocResults db)"
  by (auto simp: resultOf_def find_None_iff)

lemma resultOf_row:
  "outcomeTablesOk db \<Longrightarrow> r \<in> set (ocResults db) \<Longrightarrow> resultOf db (orWindowID r) = Some r"
  by (simp add: resultOf_def outcomeTablesOk_def find_distinct)

lemma results_update [simp]:
  "windowByAction (db\<lparr>ocResults := rs\<rparr>) a = windowByAction db a"
  "resultOf (db\<lparr>ocResults := rs\<rparr>) i = find (\<lambda>r. orWindowID r = i) rs"
  "windowCard (db\<lparr>ocResults := rs\<rparr>) w = windowCard db w"
  "boundTo (db\<lparr>ocResults := rs\<rparr>) = boundTo db"
  "evidenceForAction (db\<lparr>ocResults := rs\<rparr>) a = evidenceForAction db a"
  "countConcurrent (db\<lparr>ocResults := rs\<rparr>) a = countConcurrent db a"
  "executionOf (db\<lparr>ocResults := rs\<rparr>) a = executionOf db a"
proof -
  show b: "boundTo (db\<lparr>ocResults := rs\<rparr>) = boundTo db"
    by (intro ext) (simp add: boundTo_def windowCard_def cong: option.case_cong)
  show "evidenceForAction (db\<lparr>ocResults := rs\<rparr>) a = evidenceForAction db a"
    by (simp add: evidenceForAction_def windowByAction_def b cong: option.case_cong)
qed (simp_all add: windowByAction_def resultOf_def windowCard_def countConcurrent_def executionOf_def
    cong: option.case_cong)

lemma newestOf_set: "newestOf es = Some e \<Longrightarrow> e \<in> set es"
  by (induction es arbitrary: e) (auto split: option.splits if_splits)

lemma newestOf_None: "newestOf es = None \<longleftrightarrow> es = []"
  by (cases es) (auto split: option.splits)

lemma newestOf_latest: "newestOf es = Some e \<Longrightarrow> f \<in> set es \<Longrightarrow> oeMeasuredAt f \<le> oeMeasuredAt e"
  by (induction es arbitrary: e) (fastforce simp: newestOf_None split: option.splits if_splits)+

lemma evidenceForAction_bound:
  assumes "evidenceForAction db a = Some e"
  obtains w where "windowByAction db a = Some w" "e \<in> set (ocEvidence db)" "boundTo db w e"
  using assms by (auto simp: evidenceForAction_def split: option.splits dest!: newestOf_set)

section \<open>Appending a result\<close>

text \<open>The inputs of a determination and of the concurrent count.\<close>

definition inputsOf :: "evidence_row \<Rightarrow> int \<Rightarrow> inputs" where
  "inputsOf e n =
     \<lparr>inEvidenceComplete = True, inAttributionBlocked = oeAttributionBlocked e,
      inFloorBreached = oeFloorBreached e, inContributionBreachedBound = oeBreachedBound e,
      inWithinMateriality = oeWithinMateriality e, inObjectiveImproved = oeImproved e,
      inObjectiveWorsened = oeWorsened e, inConcurrentMaterialChanges = n\<rparr>"

lemma classify_inputsOf: "oeComplete e \<Longrightarrow> classifyInputs (inputsOf e n) = verdict e"
  by (simp add: classifyInputs_def inputsOf_def verdict_def)

lemma verdict_absent: "\<not> oeComplete e \<Longrightarrow> verdict e = NotMeasurable"
  by (simp add: verdict_def)

lemma resolveEvidence_row:
  "resolveEvidence False (Some (mapEvidence e)) n =
     (if oeComplete e then \<lparr>rsDisposition = DispositionMeasurable, rsInputs = inputsOf e n\<rparr>
      else \<lparr>rsDisposition = DispositionAbsent, rsInputs = zeroInputs\<rparr>)"
  by (simp add: resolveEvidence_def mapEvidence_def inputsOf_def)

definition resultFor :: "window_row \<Rightarrow> inputs \<Rightarrow> result_row" where
  "resultFor w i =
     \<lparr>orWindowID = wnID w, orResult = classifyInputs i, orConfidence = grade (inConcurrentMaterialChanges i)\<rparr>"

lemma computeAndAppend_cases:
  assumes "computeAndAppend env db a i = Inr (db', r)"
  obtains (existing) w where "windowByAction db a = Some w" "db' = db" "resultOf db (wnID w) = Some r"
  | (appended) w where "windowByAction db a = Some w" "resultOf db (wnID w) = None" "r = resultFor w i"
      "db' = db\<lparr>ocResults := ocResults db @ [r]\<rparr>" "wnClosesAt w \<le> ovNow env a"
  using assms
  by (auto simp: computeAndAppend_def insertResult_def evaluateOutcome_def resultFor_def result_simps
        split: if_splits option.splits)

lemma computeAndAppend_new:
  assumes "windowByAction db a = Some w" "w \<in> set (ocWindows db)" "resultOf db (wnID w) = None"
    "wnClosesAt w \<le> ovNow env a" "\<not> ovFails env QWindow a" "\<not> ovFails env QAppend a"
  shows "computeAndAppend env db a i = Inr (db\<lparr>ocResults := ocResults db @ [resultFor w i]\<rparr>, resultFor w i)"
  using assms
  by (auto simp: computeAndAppend_def insertResult_def evaluateOutcome_def resultFor_def list_ex_iff)

section \<open>Steps\<close>

text \<open>
  The tables with the resolutions a closer has read and not yet acted on.  The executor or the service
  opens a window; the pipeline appends a determination that passes the row checks; other components
  change executions, events and cards, but a card keeps its account; a closer resolves an action, or
  acts on a resolution, possibly twice.
\<close>

inductive outcomeStep ::
  "outcome_db \<times> (uuid \<times> resolution) list \<Rightarrow> outcome_db \<times> (uuid \<times> resolution) list \<Rightarrow> bool" where
  stepOpen: "openWindow env i db a c = Inr (db', w) \<Longrightarrow> outcomeStep (db, fl) (db', fl)"
| stepDetermination:
    "oeWindowStart e < oeWindowEnd e \<Longrightarrow> \<not> (oeImproved e \<and> oeWorsened e) \<Longrightarrow>
     outcomeStep (db, fl) (db\<lparr>ocEvidence := ocEvidence db @ [e]\<rparr>, fl)"
| stepOutside:
    "(\<And>c row. ocCards db c = Some row \<Longrightarrow>
       \<exists>row'. cards c = Some row' \<and> crAccountID row' = crAccountID row) \<Longrightarrow>
     outcomeStep (db, fl)
       (db\<lparr>ocExecutions := execs, ocCards := cards, ocVariantOf := variants, ocEvents := events\<rparr>, fl)"
| stepResolve:
    "sourceEvidence env db a = Inr res \<Longrightarrow> outcomeStep (db, fl) (db, fl @ [(a, res)])"
| stepClose:
    "(a, res) \<in> set fl \<Longrightarrow>
     outcomeStep (db, fl) (clDb (closeResolved env a res \<lparr>clDb = db, clClosed = 0, clErrors = []\<rparr>), fl)"

definition emptyOutcome :: "(uuid \<rightharpoonup> uuid) \<Rightarrow> outcome_db" where
  "emptyOutcome orgs =
     \<lparr>ocWindows = [], ocResults = [], ocEvidence = [], ocExecutions = [], ocCards = Map.empty,
      ocVariantOf = Map.empty, ocEvents = [], ocAccountOfOrg = orgs\<rparr>"

definition outcomeReachable :: "outcome_db \<times> (uuid \<times> resolution) list \<Rightarrow> bool" where
  "outcomeReachable s \<longleftrightarrow> (\<exists>orgs. outcomeStep\<^sup>*\<^sup>* (emptyOutcome orgs, []) s)"

text \<open>A verdict backed by a determination of the window.\<close>

definition backedVerdict :: "outcome_db \<Rightarrow> window_row \<Rightarrow> outcome_class \<Rightarrow> bool" where
  "backedVerdict db w v \<longleftrightarrow> (\<exists>e \<in> set (ocEvidence db). boundTo db w e \<and> v = verdict e)"

definition resolutionBacked :: "outcome_db \<Rightarrow> uuid \<times> resolution \<Rightarrow> bool" where
  "resolutionBacked db ar \<longleftrightarrow>
     (case ar of (a, res) \<Rightarrow>
       (\<exists>w \<in> set (ocWindows db). wnActionID w = a \<and>
          (rsDisposition res = DispositionAbsent \<longrightarrow> backedVerdict db w NotMeasurable) \<and>
          (rsDisposition res = DispositionMeasurable \<longrightarrow> backedVerdict db w (classifyInputs (rsInputs res))))
       \<or> (rsDisposition res \<noteq> DispositionAbsent \<and> rsDisposition res \<noteq> DispositionMeasurable))"

definition resultBacked :: "outcome_db \<Rightarrow> result_row \<Rightarrow> bool" where
  "resultBacked db r \<longleftrightarrow>
     (\<exists>w \<in> set (ocWindows db). wnID w = orWindowID r \<and> backedVerdict db w (orResult r))"

definition outcomeInv :: "outcome_db \<times> (uuid \<times> resolution) list \<Rightarrow> bool" where
  "outcomeInv s \<longleftrightarrow>
     outcomeTablesOk (fst s) \<and> (\<forall>r \<in> set (ocResults (fst s)). resultBacked (fst s) r) \<and>
     (\<forall>ar \<in> set (snd s). resolutionBacked (fst s) ar)"

text \<open>What every step keeps of the tables the results rest on.\<close>

definition outcomeGrows :: "outcome_db \<Rightarrow> outcome_db \<Rightarrow> bool" where
  "outcomeGrows db db' \<longleftrightarrow>
     set (ocWindows db) \<subseteq> set (ocWindows db') \<and> set (ocEvidence db) \<subseteq> set (ocEvidence db') \<and>
     (\<exists>rs. ocResults db' = ocResults db @ rs) \<and>
     (\<forall>c row. ocCards db c = Some row \<longrightarrow>
        (\<exists>row'. ocCards db' c = Some row' \<and> crAccountID row' = crAccountID row))"

lemma outcomeGrows_refl [simp]: "outcomeGrows db db"
  by (simp add: outcomeGrows_def)

lemma outcomeGrows_trans: "outcomeGrows a b \<Longrightarrow> outcomeGrows b c \<Longrightarrow> outcomeGrows a c"
  unfolding outcomeGrows_def by fastforce

lemma boundTo_grows:
  assumes "outcomeTablesOk db" "outcomeGrows db db'" "w \<in> set (ocWindows db)" "boundTo db w e"
  shows "boundTo db' w e"
proof (cases "wnCardID w")
  case None
  then show ?thesis using assms(4) by (simp add: boundTo_def windowCard_def)
next
  case (Some c)
  obtain row where row: "ocCards db c = Some row"
    using assms(1,3) Some by (auto simp: outcomeTablesOk_def)
  obtain row' where "ocCards db' c = Some row'" "crAccountID row' = crAccountID row"
    using assms(2) row unfolding outcomeGrows_def by blast
  then show ?thesis using assms(4) Some row by (simp add: boundTo_def windowCard_def)
qed

lemma backedVerdict_grows:
  "outcomeTablesOk db \<Longrightarrow> outcomeGrows db db' \<Longrightarrow> w \<in> set (ocWindows db) \<Longrightarrow> backedVerdict db w v \<Longrightarrow>
   backedVerdict db' w v"
  unfolding backedVerdict_def by (meson boundTo_grows outcomeGrows_def subsetD)

lemma resultBacked_grows:
  "outcomeTablesOk db \<Longrightarrow> outcomeGrows db db' \<Longrightarrow> resultBacked db r \<Longrightarrow> resultBacked db' r"
  unfolding resultBacked_def by (meson backedVerdict_grows outcomeGrows_def subsetD)

lemma resolutionBacked_grows:
  assumes "outcomeTablesOk db" "outcomeGrows db db'" "resolutionBacked db ar"
  shows "resolutionBacked db' ar"
proof -
  have "w \<in> set (ocWindows db')" if "w \<in> set (ocWindows db)" for w
    using that assms(2) by (auto simp: outcomeGrows_def)
  then show ?thesis
    using assms backedVerdict_grows[OF assms(1,2)] unfolding resolutionBacked_def
    by (auto split: prod.splits)
qed

lemma computeAndAppend_grows:
  assumes "computeAndAppend env db a i = Inr (db', r)"
  shows "outcomeGrows db db'"
  using assms by (rule computeAndAppend_cases) (auto simp: outcomeGrows_def)

lemma closeResolved_cases:
  fixes env a res c
  defines "c' \<equiv> closeResolved env a res c"
  obtains (kept) "clDb c' = clDb c"
  | (appended) w i where "windowByAction (clDb c) a = Some w" "resultOf (clDb c) (wnID w) = None"
      "clDb c' = (clDb c)\<lparr>ocResults := ocResults (clDb c) @ [resultFor w i]\<rparr>"
      "rsDisposition res = DispositionAbsent \<and> i = zeroInputs
       \<or> rsDisposition res = DispositionMeasurable \<and> i = rsInputs res"
      "wnClosesAt w \<le> ovNow env a"
proof (cases "rsDisposition res")
  case DispositionMeasurable
  show thesis
  proof (cases "computeAndAppend env (clDb c) a (rsInputs res)")
    case (Inr p)
    then obtain db' r where p: "computeAndAppend env (clDb c) a (rsInputs res) = Inr (db', r)"
      by (cases p) auto
    then have "clDb c' = db'" by (simp add: c'_def closeResolved_def DispositionMeasurable)
    with p show thesis
      by (auto elim!: computeAndAppend_cases intro: kept appended simp: DispositionMeasurable)
  qed (use DispositionMeasurable kept in \<open>simp add: c'_def closeResolved_def addFailure_def\<close>)
next
  case DispositionAbsent
  show thesis
  proof (cases "computeAndAppend env (clDb c) a zeroInputs")
    case (Inr p)
    then obtain db' r where p: "computeAndAppend env (clDb c) a zeroInputs = Inr (db', r)"
      by (cases p) auto
    then have "clDb c' = db'" by (simp add: c'_def closeResolved_def DispositionAbsent)
    with p show thesis
      by (auto elim!: computeAndAppend_cases intro: kept appended simp: DispositionAbsent)
  qed (use DispositionAbsent kept in \<open>simp add: c'_def closeResolved_def addFailure_def\<close>)
qed (use kept in \<open>simp_all add: c'_def closeResolved_def addFailure_def\<close>)

lemma sourceEvidence_cases:
  assumes "sourceEvidence env db a = Inr res"
  obtains (incomplete) "rsDisposition res = DispositionIncomplete"
  | (determined) e where "evidenceForAction db a = Some e"
      "res = (if oeComplete e
              then \<lparr>rsDisposition = DispositionMeasurable, rsInputs = inputsOf e (int (countConcurrent db a))\<rparr>
              else \<lparr>rsDisposition = DispositionAbsent, rsInputs = zeroInputs\<rparr>)"
proof (cases "rsDisposition res = DispositionIncomplete")
  case False
  obtain pending where
    res: "res = resolveEvidence pending (map_option mapEvidence (evidenceForAction db a))
            (case evidenceForAction db a of None \<Rightarrow> 0
             | Some e \<Rightarrow> if oeComplete e then int (countConcurrent db a) else 0)"
    using assms by (auto simp: sourceEvidence_def Let_def mapEvidence_def split: if_splits option.splits)
  have "\<not> pending" using False res by (auto simp: resolveEvidence_def)
  moreover obtain e where e: "evidenceForAction db a = Some e"
    using False res by (cases "evidenceForAction db a") (auto simp: resolveEvidence_def split: if_splits)
  ultimately show thesis
    using determined res by (simp add: resolveEvidence_row)
qed (rule incomplete)

lemma sourceEvidence_backed:
  assumes "sourceEvidence env db a = Inr res"
  shows "resolutionBacked db (a, res)"
  using assms
proof (cases rule: sourceEvidence_cases)
  case (determined e)
  obtain w where w: "windowByAction db a = Some w" "e \<in> set (ocEvidence db)" "boundTo db w e"
    using determined(1) by (rule evidenceForAction_bound)
  then have "backedVerdict db w (verdict e)" by (auto simp: backedVerdict_def)
  then show ?thesis
    using w windowByAction_Some[OF w(1)] determined(2)
    by (cases "oeComplete e") (auto simp: resolutionBacked_def classify_inputsOf verdict_absent)
qed (simp add: resolutionBacked_def)

section \<open>The invariant\<close>

lemma closeResolved_grows: "outcomeGrows (clDb c) (clDb (closeResolved env a res c))"
  by (rule closeResolved_cases[of env a res c]) (simp_all add: outcomeGrows_def)

lemma openWindow_cases:
  assumes "openWindow env i db a c = Inr (db', w)"
  obtains (existing) "db' = db" "windowByAction db a = Some w"
  | (opened) "windowByAction db a = None" "i \<notin> wnID ` set (ocWindows db)"
      "w = \<lparr>wnID = i, wnActionID = a, wnCardID = optionalUUID c, wnOpenedAt = ovNow env a,
            wnClosesAt = ovNow env a + outcomeWindow\<rparr>"
      "db' = db\<lparr>ocWindows := ocWindows db @ [w]\<rparr>"
      "\<And>x. optionalUUID c = Some x \<Longrightarrow> ocCards db x \<noteq> None"
  using assms
  by (auto simp: openWindow_def insertWindow_def openAt_def Let_def list_ex_iff image_iff result_simps
        split: if_splits option.splits)

lemma windowByAction_None: "windowByAction db a = None \<longleftrightarrow> a \<notin> wnActionID ` set (ocWindows db)"
  by (auto simp: windowByAction_def find_None_iff)

lemma outcomeStep_grows: "outcomeStep s s' \<Longrightarrow> outcomeGrows (fst s) (fst s')"
proof (induction rule: outcomeStep.induct)
  case (stepOpen env i db a c db' w fl)
  then show ?case by (auto elim!: openWindow_cases simp: outcomeGrows_def)
next
  case (stepClose a res fl db env)
  show ?case
    using closeResolved_grows[of "\<lparr>clDb = db, clClosed = 0, clErrors = []\<rparr>" env a res] by simp
qed (auto simp: outcomeGrows_def)

lemma outcomeStep_tables: "outcomeStep s s' \<Longrightarrow> outcomeTablesOk (fst s) \<Longrightarrow> outcomeTablesOk (fst s')"
proof (induction rule: outcomeStep.induct)
  case (stepOpen env i db a c db' w fl)
  then show ?case
    by (auto elim!: openWindow_cases simp: outcomeTablesOk_def windowByAction_None)
next
  case (stepOutside db cards fl execs variants events)
  then show ?case by (fastforce simp: outcomeTablesOk_def)
next
  case (stepClose a res fl db env)
  then show ?case
    by (auto intro: closeResolved_cases[of env a res "\<lparr>clDb = db, clClosed = 0, clErrors = []\<rparr>"]
        simp: outcomeTablesOk_def resultOf_None resultFor_def)
qed (simp_all add: outcomeTablesOk_def)

lemma resolutionBacked_window:
  assumes "resolutionBacked db (a, res)" "outcomeTablesOk db" "windowByAction db a = Some w"
    "rsDisposition res = DispositionAbsent \<and> i = zeroInputs
     \<or> rsDisposition res = DispositionMeasurable \<and> i = rsInputs res"
  shows "backedVerdict db w (classifyInputs i)"
proof -
  have "v = w" if "v \<in> set (ocWindows db)" "wnActionID v = a" for v
    using windowByAction_row[OF assms(2) that(1)] that(2) assms(3) by simp
  moreover have "classifyInputs zeroInputs = NotMeasurable"
    by (simp add: classifyInputs_def zeroInputs_def)
  ultimately show ?thesis using assms(1,4) by (auto simp: resolutionBacked_def)
qed

lemma outcomeInv_step:
  assumes "outcomeStep s s'" "outcomeInv s"
  shows "outcomeInv s'"
proof -
  have tables: "outcomeTablesOk (fst s)" "outcomeTablesOk (fst s')" and grows: "outcomeGrows (fst s) (fst s')"
    using assms outcomeStep_tables outcomeStep_grows by (auto simp: outcomeInv_def)
  have old: "\<And>r. r \<in> set (ocResults (fst s)) \<Longrightarrow> resultBacked (fst s') r"
    "\<And>ar. ar \<in> set (snd s) \<Longrightarrow> resolutionBacked (fst s') ar"
    using assms(2) tables(1) grows
    by (auto simp: outcomeInv_def intro: resultBacked_grows resolutionBacked_grows)
  show ?thesis
    using assms(1)
  proof cases
    case (stepResolve env db a res fl)
    then show ?thesis using old tables sourceEvidence_backed by (auto simp: outcomeInv_def)
  next
    case (stepClose a res fl db env)
    have backed: "resolutionBacked db (a, res)" using old(2) stepClose assms(2) by (auto simp: outcomeInv_def)
    let ?run = "\<lparr>clDb = db, clClosed = 0, clErrors = []\<rparr>"
    show ?thesis
    proof (rule closeResolved_cases[of env a res ?run])
      assume "clDb (closeResolved env a res ?run) = clDb ?run"
      then show ?thesis using assms(2) stepClose by (simp add: outcomeInv_def)
    next
      fix w i
      assume w: "windowByAction (clDb ?run) a = Some w"
        and db': "clDb (closeResolved env a res ?run) =
          (clDb ?run)\<lparr>ocResults := ocResults (clDb ?run) @ [resultFor w i]\<rparr>"
        and i: "rsDisposition res = DispositionAbsent \<and> i = zeroInputs
          \<or> rsDisposition res = DispositionMeasurable \<and> i = rsInputs res"
      have "backedVerdict db w (classifyInputs i)"
        using resolutionBacked_window[OF backed] w i tables(1) stepClose by auto
      then have "resultBacked (fst s') (resultFor w i)"
        using windowByAction_Some w db' stepClose
        by (fastforce simp: resultBacked_def resultFor_def backedVerdict_def)
      then show ?thesis using old tables db' stepClose by (auto simp: outcomeInv_def)
    qed
  qed (use old tables in \<open>auto simp: outcomeInv_def elim!: openWindow_cases\<close>)
qed

lemma outcomeInv_empty: "outcomeInv (emptyOutcome orgs, [])"
  by (simp add: outcomeInv_def outcomeTablesOk_def emptyOutcome_def)

lemma outcomeInv_reachable: "outcomeReachable s \<Longrightarrow> outcomeInv s"
proof -
  assume "outcomeReachable s"
  then obtain orgs where "outcomeStep\<^sup>*\<^sup>* (emptyOutcome orgs, []) s" by (auto simp: outcomeReachable_def)
  then show ?thesis by induction (auto intro: outcomeInv_step outcomeInv_empty)
qed

lemma outcomeSteps_grow: "outcomeStep\<^sup>*\<^sup>* s s' \<Longrightarrow> outcomeGrows (fst s) (fst s')"
  by (induction rule: rtranclp_induct) (auto intro: outcomeGrows_trans outcomeStep_grows)

lemma resultOf_grows: "outcomeGrows db db' \<Longrightarrow> resultOf db i = Some r \<Longrightarrow> resultOf db' i = Some r"
  by (auto simp: outcomeGrows_def resultOf_def find_append_case)

text \<open>
  C11. An outcome is never invented: in every reachable state, whatever the interleaving of closers,
  executors and the metric pipeline, each window has at most one result, that result is the verdict of
  a determination recorded for the same action and the account of its card over a span inside the
  window, so it is "not measurable" only where the pipeline determined that the evidence is absent and
  never positive where a floor or bound was breached; and no later step changes or removes it.
\<close>

theorem outcome_backed:
  assumes "outcomeReachable (db, fl)" "r \<in> set (ocResults db)" "outcomeStep\<^sup>*\<^sup>* (db, fl) (db', fl')"
  shows "(\<exists>w \<in> set (ocWindows db). wnID w = orWindowID r
           \<and> (\<exists>e \<in> set (ocEvidence db). boundTo db w e \<and> orResult r = verdict e
                \<and> (orResult r = NotMeasurable \<longleftrightarrow> \<not> oeComplete e)
                \<and> (orResult r = Positive \<longrightarrow> \<not> oeFloorBreached e \<and> \<not> oeBreachedBound e)))
         \<and> resultOf db' (orWindowID r) = Some r
         \<and> (\<forall>r' \<in> set (ocResults db'). orWindowID r' = orWindowID r \<longrightarrow> r' = r)"
proof -
  have inv: "outcomeInv (db, fl)" using assms(1) by (rule outcomeInv_reachable)
  then obtain w e where "w \<in> set (ocWindows db)" "wnID w = orWindowID r" "e \<in> set (ocEvidence db)"
    "boundTo db w e" "orResult r = verdict e"
    using assms(2) by (auto simp: outcomeInv_def resultBacked_def backedVerdict_def)
  moreover have "verdict e = NotMeasurable \<longleftrightarrow> \<not> oeComplete e"
    "verdict e = Positive \<longrightarrow> \<not> oeFloorBreached e \<and> \<not> oeBreachedBound e"
    by (simp_all add: verdict_def)
  moreover have "resultOf db (orWindowID r) = Some r"
    using inv assms(2) by (auto simp: outcomeInv_def resultOf_row)
  then have late: "resultOf db' (orWindowID r) = Some r"
    using outcomeSteps_grow[OF assms(3)] resultOf_grows by fastforce
  moreover have "outcomeReachable (db', fl')"
    using assms(1,3) unfolding outcomeReachable_def by (meson rtranclp_trans)
  then have "r' = r" if "r' \<in> set (ocResults db')" "orWindowID r' = orWindowID r" for r'
    using resultOf_row[of db' r'] outcomeInv_reachable that late by (fastforce simp: outcomeInv_def)
  ultimately show ?thesis by auto
qed

section \<open>A source of evidence\<close>

text \<open>
  What the close job relies on (the contract of \<open>EvidenceSource\<close>): the answer does not depend on the
  results already appended, and absence is reported only of a window for which a determination bound to
  it says so.
\<close>

locale evidence_source =
  fixes evidence :: "outcome_db \<Rightarrow> uuid \<Rightarrow> (outcome_error, resolution) result"
  assumes blind: "evidence (db\<lparr>ocResults := rs\<rparr>) a = evidence db a"
    and honest: "evidence db a = Inr res \<Longrightarrow> resolutionBacked db (a, res)"
begin

text \<open>The row a pass appends for a due window, when it appends one.\<close>

definition closingRow :: "outcome_env \<Rightarrow> outcome_db \<Rightarrow> window_row \<Rightarrow> result_row option" where
  "closingRow env db w =
     (if ovFails env QWindow (wnActionID w) \<or> ovFails env QAppend (wnActionID w) then None
      else (case evidence db (wnActionID w) of
              Inl _ \<Rightarrow> None
            | Inr res \<Rightarrow>
                (case rsDisposition res of
                   DispositionMeasurable \<Rightarrow> Some (resultFor w (rsInputs res))
                 | DispositionAbsent \<Rightarrow> Some (resultFor w zeroInputs)
                 | _ \<Rightarrow> None)))"

lemma closingRow_window: "closingRow env db w = Some r \<Longrightarrow> orWindowID r = wnID w"
  by (auto simp: closingRow_def resultFor_def split: if_splits sum.splits disposition.splits)

lemma closingRow_blind [simp]: "closingRow env (db\<lparr>ocResults := rs\<rparr>) w = closingRow env db w"
  by (simp add: closingRow_def blind)

lemma closeOne_db:
  assumes "clDb c = db\<lparr>ocResults := rs\<rparr>" "outcomeTablesOk db" "w \<in> set (ocWindows db)"
    "wnID w \<notin> orWindowID ` set rs" "wnClosesAt w \<le> ovNow env (wnActionID w)"
  shows "clDb (closeOne env evidence w c) =
           db\<lparr>ocResults := rs @ (case closingRow env db w of None \<Rightarrow> [] | Some r \<Rightarrow> [r])\<rparr>"
proof -
  have row: "windowByAction (clDb c) (wnActionID w) = Some w" "w \<in> set (ocWindows (clDb c))"
    "resultOf (clDb c) (wnID w) = None"
    using assms windowByAction_row[of db w] find_missing[of "wnID w" orWindowID rs] by simp_all
  show ?thesis
  proof (cases "ovFails env QWindow (wnActionID w) \<or> ovFails env QAppend (wnActionID w)")
    case True
    then show ?thesis using assms(1) row
      by (auto simp: closeOne_def closeResolved_def closingRow_def addFailure_def computeAndAppend_def
          evaluateOutcome_def split: sum.split disposition.split option.split)
  next
    case False
    then have "computeAndAppend env (clDb c) (wnActionID w) i =
        Inr ((clDb c)\<lparr>ocResults := rs @ [resultFor w i]\<rparr>, resultFor w i)" for i
      using computeAndAppend_new[OF row assms(5)] assms(1) by simp
    then show ?thesis using False assms(1)
      by (simp add: closeOne_def closeResolved_def closingRow_def addFailure_def blind
          split: sum.split disposition.split)
  qed
qed

lemma closing_fold:
  assumes "clDb c = db\<lparr>ocResults := rs\<rparr>" "outcomeTablesOk db" "set ws \<subseteq> set (ocWindows db)"
    "distinct (map wnID ws)" "wnID ` set ws \<inter> orWindowID ` set rs = {}"
    "\<forall>w \<in> set ws. wnClosesAt w \<le> ovNow env (wnActionID w)"
  shows "clDb (fold (closeOne env evidence) ws c) =
           db\<lparr>ocResults := rs @ List.map_filter (closingRow env db) ws\<rparr>"
  using assms
proof (induction ws arbitrary: c rs)
  case (Cons w ws)
  let ?new = "case closingRow env db w of None \<Rightarrow> [] | Some r \<Rightarrow> [r]"
  have "clDb (closeOne env evidence w c) = db\<lparr>ocResults := rs @ ?new\<rparr>"
    using Cons.prems by (intro closeOne_db) auto
  moreover have "wnID ` set ws \<inter> orWindowID ` set (rs @ ?new) = {}"
    using Cons.prems closingRow_window[of env db w] by (cases "closingRow env db w") auto
  ultimately show ?case
    using Cons.prems Cons.IH[of "closeOne env evidence w c" "rs @ ?new"]
    by (auto simp: map_filter_simps split: option.split)
qed (simp add: map_filter_simps)

lemma closing_keys: "orWindowID ` set (List.map_filter (closingRow env db) ws) \<subseteq> wnID ` set ws"
proof -
  have "orWindowID r \<in> wnID ` set ws" if "w \<in> set ws" "closingRow env db w = Some r" for w r
    using closingRow_window[OF that(2)] that(1) by simp
  then show ?thesis by (auto simp: List.map_filter_def)
qed

lemma find_closing:
  assumes "distinct (map wnID ws)" "w \<in> set ws"
  shows "find (\<lambda>r. orWindowID r = wnID w) (List.map_filter (closingRow env db) ws) = closingRow env db w"
  using assms
proof (induction ws)
  case (Cons v ws)
  have none: "find (\<lambda>r. orWindowID r = wnID w) (List.map_filter (closingRow env db) ws) = None"
    if "wnID w \<notin> wnID ` set ws"
    using that closing_keys by (intro find_missing) blast
  show ?case
    using Cons none
    by (cases "v = w") (auto simp: map_filter_simps dest: closingRow_window split: option.split)
qed simp

lemma pass_result:
  assumes "closeRunOnce env evidence db = Inr run" "outcomeTablesOk db" "w \<in> set (ocWindows db)"
    "resultOf db (wnID w) = None" "\<forall>a. ovListNow env \<le> ovNow env a"
  shows "resultOf (clDb run) (wnID w) = (if wnClosesAt w \<le> ovListNow env then closingRow env db w else None)"
proof -
  let ?due = "listClosable db (ovListNow env)"
  have due: "set ?due = {v \<in> set (ocWindows db). resultOf db (wnID v) = None \<and> wnClosesAt v \<le> ovListNow env}"
    by (auto simp: listClosable_def)
  have "distinct (map wnID ?due)"
    using assms(2) by (auto simp: listClosable_def outcomeTablesOk_def distinct_map intro: inj_on_subset)
  moreover have "wnID ` set ?due \<inter> orWindowID ` set (ocResults db) = {}"
    by (auto simp: due resultOf_None)
  moreover have "\<forall>v \<in> set ?due. wnClosesAt v \<le> ovNow env (wnActionID v)"
    using assms(5) due by (auto intro: order_trans)
  ultimately have "clDb run = db\<lparr>ocResults := ocResults db @ List.map_filter (closingRow env db) ?due\<rparr>"
    using assms(1,2) closing_fold[of "\<lparr>clDb = db, clClosed = 0, clErrors = []\<rparr>" "ocResults db" db ?due env] due
    by (auto simp: closeRunOnce_def split: if_splits)
  moreover have "find (\<lambda>r. orWindowID r = wnID w) (List.map_filter (closingRow env db) ?due) = None"
    if "\<not> wnClosesAt w \<le> ovListNow env"
  proof -
    have "wnID w \<notin> wnID ` set ?due"
      using that assms(2,3) by (auto simp: due outcomeTablesOk_def distinct_map dest: inj_onD)
    then show ?thesis using closing_keys by (intro find_missing) blast
  qed
  ultimately show ?thesis
    using assms(3,4) find_closing[OF \<open>distinct (map wnID ?due)\<close>, of w env db] due
    by (auto simp: find_append_case resultOf_def)
qed

end

section \<open>The two sources\<close>

lemma sourceEvidence_blind: "sourceEvidence env (db\<lparr>ocResults := rs\<rparr>) a = sourceEvidence env db a"
  by (simp add: sourceEvidence_def Let_def split: option.split)

interpretation dbSource: evidence_source "sourceEvidence env" for env
  by unfold_locales (simp_all add: sourceEvidence_blind sourceEvidence_backed)

interpretation unmeasured: evidence_source unmeasuredEvidence
  by unfold_locales (auto simp: unmeasuredEvidence_def resolutionBacked_def)

text \<open>The queries a close of one action makes answer.\<close>

definition queriesAnswer :: "outcome_env \<Rightarrow> uuid \<Rightarrow> bool \<Rightarrow> bool" where
  "queriesAnswer env a complete \<longleftrightarrow>
     (\<forall>q \<in> {QExecution, QEvidence, QWindow, QAppend}. \<not> ovFails env q a) \<and>
     (complete \<longrightarrow> \<not> ovFails env QConcurrent a)"

definition writePending :: "outcome_db \<Rightarrow> uuid \<Rightarrow> bool" where
  "writePending db a \<longleftrightarrow>
     (case executionOf db a of None \<Rightarrow> False | Some e \<Rightarrow> exExternalState e = ExtPendingReconciliation)"

lemma sourceEvidence_value:
  "sourceEvidence env db a =
     (if ovFails env QExecution a \<or> ovFails env QEvidence a then Inl OutcomeDbErr
      else (case evidenceForAction db a of
              None \<Rightarrow> Inr \<lparr>rsDisposition = DispositionIncomplete, rsInputs = zeroInputs\<rparr>
            | Some e \<Rightarrow>
                if oeComplete e \<and> ovFails env QConcurrent a then Inl OutcomeDbErr
                else if writePending db a
                then Inr \<lparr>rsDisposition = DispositionIncomplete, rsInputs = zeroInputs\<rparr>
                else if oeComplete e
                then Inr \<lparr>rsDisposition = DispositionMeasurable,
                          rsInputs = inputsOf e (int (countConcurrent db a))\<rparr>
                else Inr \<lparr>rsDisposition = DispositionAbsent, rsInputs = zeroInputs\<rparr>))"
  by (simp add: sourceEvidence_def resolveEvidence_def writePending_def Let_def mapEvidence_def inputsOf_def
      split: option.split)

lemma sourceRow:
  "dbSource.closingRow env env db w = Some r \<longleftrightarrow>
     \<not> writePending db (wnActionID w) \<and>
     (\<exists>e. evidenceForAction db (wnActionID w) = Some e \<and>
          queriesAnswer env (wnActionID w) (oeComplete e) \<and>
          r = \<lparr>orWindowID = wnID w, orResult = verdict e,
               orConfidence = (if oeComplete e then grade (int (countConcurrent db (wnActionID w))) else High)\<rparr>)"
proof -
  have rows: "resultFor w (inputsOf e n) = \<lparr>orWindowID = wnID w, orResult = verdict e, orConfidence = grade n\<rparr>"
    if "oeComplete e" for e n
    using classify_inputsOf[OF that] by (simp add: resultFor_def inputsOf_def)
  have none: "resultFor w zeroInputs = \<lparr>orWindowID = wnID w, orResult = verdict e, orConfidence = High\<rparr>"
    if "\<not> oeComplete e" for e
    using that zeroInputs_outcome by (simp add: resultFor_def verdict_absent evaluateOutcome_def)
  show ?thesis
    by (cases "evidenceForAction db (wnActionID w)")
      (auto simp: dbSource.closingRow_def sourceEvidence_value queriesAnswer_def rows none)
qed

text \<open>
  C29. A pass closes exactly what is due and determined: on every reachable table, with a clock that does
  not run backwards, a window without a result has one after the pass if and only if its seven days have
  elapsed, its write is not pending, a determination bound to it exists and the queries for its action
  answer; the result is then the verdict of the newest determination with the confidence of the concurrent
  changes.  A failing query, a missing determination or another window's error never closes a window,
  and never keeps another one open.
\<close>

theorem close_pass_exact:
  assumes "outcomeReachable (db, fl)" "closeRunOnce env (sourceEvidence env) db = Inr run"
    "w \<in> set (ocWindows db)" "resultOf db (wnID w) = None" "\<forall>a. ovListNow env \<le> ovNow env a"
  shows "resultOf (clDb run) (wnID w) = Some r \<longleftrightarrow>
           wnClosesAt w \<le> ovListNow env \<and> \<not> writePending db (wnActionID w) \<and>
           (\<exists>e. evidenceForAction db (wnActionID w) = Some e \<and>
                queriesAnswer env (wnActionID w) (oeComplete e) \<and>
                r = \<lparr>orWindowID = wnID w, orResult = verdict e,
                     orConfidence = (if oeComplete e
                       then grade (int (countConcurrent db (wnActionID w))) else High)\<rparr>)"
proof -
  have "outcomeTablesOk db" using outcomeInv_reachable[OF assms(1)] by (simp add: outcomeInv_def)
  then show ?thesis
    using dbSource.pass_result[OF assms(2) _ assms(3,4,5)] sourceRow[of env db w r] by simp
qed

text \<open>
  Further. A closer built without a source leaves every window open.
\<close>

lemma unmeasured_closes_nothing:
  assumes "closeRunOnce env unmeasuredEvidence db = Inr run"
  shows "clDb run = db \<and> clClosed run = 0 \<and> clErrors run = []"
proof -
  have "fold (closeOne env unmeasuredEvidence) ws c = c" for ws c
    by (induction ws arbitrary: c) (simp_all add: closeOne_def closeResolved_def unmeasuredEvidence_def)
  then show ?thesis using assms by (auto simp: closeRunOnce_def split: if_splits)
qed

section \<open>Windows and the executor\<close>

definition windowsOf :: "outcome_db \<Rightarrow> uuid \<rightharpoonup> outcome_window_row" where
  "windowsOf db = (\<lambda>a. map_option (\<lambda>w.
     \<lparr>owCardID = wnCardID w, owOpenedAt = wnOpenedAt w, owClosesAt = wnClosesAt w\<rparr>) (windowByAction db a))"

text \<open>
  Further. The executor and the outcome service open the same window: when the executor's windows are those
  of the outcome tables, its own insert for a card refines \<open>OpenWindow\<close> at the same instant.
\<close>

lemma executor_opens_same_window:
  assumes "openWindow env i db a (crID c) = Inr (db', w)" "edWindows ed = windowsOf db"
  shows "edWindows (openOutcomeWindow ed a (windowFor c (ovNow env a))) = windowsOf db'"
  using assms(1)
proof (cases rule: openWindow_cases)
  case existing
  then have "edWindows ed a \<noteq> None" using assms(2) by (simp add: windowsOf_def)
  then show ?thesis using existing assms(2) by (auto simp: openOutcomeWindow_def)
next
  case opened
  then have "edWindows ed a = None" using assms(2) by (simp add: windowsOf_def)
  moreover have "windowByAction db' x = (if x = a then Some w else windowByAction db x)" for x
    using opened(1,3,4) by (cases "x = a") (auto simp: windowByAction_def find_append_case split: option.split)
  ultimately show ?thesis
    using opened(3) assms(2) by (auto simp: openOutcomeWindow_def windowsOf_def windowFor_def)
qed

section \<open>Reads\<close>

text \<open>
  Further. Another organisation's outcome is the same answer as no outcome: a read for an organisation
  returns a window only if its card belongs to the organisation's account, and then it is the plain read.
\<close>

lemma outcome_reads_scoped:
  assumes "outcomeTablesOk db"
  shows "getOutcomeForOrg env db org a =
           (case ocAccountOfOrg db org of
              None \<Rightarrow> Inl ErrNoWindow
            | Some account \<Rightarrow>
                (if ovFails env QWindow a then Inl OutcomeDbErr
                 else case windowByAction db a of
                   None \<Rightarrow> Inl ErrNoWindow
                 | Some w \<Rightarrow> if ownedBy db account w then getOutcome env db a else Inl ErrNoWindow))"
proof -
  have "windowByActionForAccount db a account =
      (case windowByAction db a of None \<Rightarrow> None | Some w \<Rightarrow> if ownedBy db account w then Some w else None)"
    for account
  proof -
    have pick: "find (\<lambda>w. wnActionID w = a \<and> P w) ws =
        (case find (\<lambda>w. wnActionID w = a) ws of None \<Rightarrow> None | Some w \<Rightarrow> if P w then Some w else None)"
      if "distinct (map wnActionID ws)" for ws P
      using that find_missing[of a wnActionID] by (induction ws) (auto simp: find_None_iff split: option.split)
    then show ?thesis
      using assms pick[of "ocWindows db" "ownedBy db account"]
      by (simp add: windowByActionForAccount_def windowByAction_def outcomeTablesOk_def)
  qed
  then show ?thesis
    by (auto simp: getOutcomeForOrg_def getOutcome_def outcomeAccountForOrg_def viewOf_def split: option.split)
qed

end
