(* ===== verification/OutcomeDemo.thy ===== *)
theory OutcomeDemo
  imports OutcomeClose
begin

text \<open>
  A concrete run of the outcome plane, at which the properties of OutcomeClose are applied: a window
  opened for a card, a complete determination with a breached floor, a second window that never gets
  one, and a pass after both are due.
\<close>

definition demoOutcomeCard :: card_row where
  "demoOutcomeCard =
     \<lparr>crID = 7, crLineageID = 7, crRecommendationID = 8, crAccountID = 1, crVersion = 1,
      crState = StateExecuting, crActionID = 5, crParameterVersion = 1, crContextVersion = 1,
      crPolicyVersion = 1, crCostProfileVersion = 1, crEvidence = None, crIdempotencyKey = ''k'',
      crPrice = zeroMoney, crExpiresAt = 0, crCreatedAt = 0\<rparr>"

definition demoOutcomeEnv :: "instant \<Rightarrow> outcome_env" where
  "demoOutcomeEnv t = \<lparr>ovFails = (\<lambda>_ _. False), ovNow = (\<lambda>_. t), ovListNow = t\<rparr>"

definition demoWindow :: window_row where
  "demoWindow =
     \<lparr>wnID = 20, wnActionID = 5, wnCardID = Some 7, wnOpenedAt = 0, wnClosesAt = outcomeWindow\<rparr>"

definition demoDetermination :: evidence_row where
  "demoDetermination =
     \<lparr>oeActionID = 5, oeAccountID = 1, oeWindowStart = 0, oeWindowEnd = 1000, oeComplete = True,
      oeImproved = True, oeWorsened = False, oeWithinMateriality = False, oeFloorBreached = True,
      oeBreachedBound = False, oeAttributionBlocked = False, oeMeasuredAt = 2000\<rparr>"

definition demoResult :: result_row where
  "demoResult = \<lparr>orWindowID = 20, orResult = Negative, orConfidence = High\<rparr>"

definition demoOutcome :: outcome_db where
  "demoOutcome =
     (emptyOutcome [9 \<mapsto> 1])\<lparr>ocCards := [7 \<mapsto> demoOutcomeCard], ocWindows := [demoWindow],
        ocEvidence := [demoDetermination]\<rparr>"

abbreviation "demoDue \<equiv> demoOutcomeEnv (8 * 24 * hour)"

lemmas demo_outcome_defs =
  demoOutcome_def emptyOutcome_def demoWindow_def demoDetermination_def demoOutcomeCard_def
  demoOutcomeEnv_def outcomeWindow_def demoResult_def

lemma demo_bound: "windowByAction demoOutcome 5 = Some demoWindow"
  "evidenceForAction demoOutcome 5 = Some demoDetermination" "countConcurrent demoOutcome 5 = 0"
  "resultOf demoOutcome 20 = None" "\<not> writePending demoOutcome 5"
  by (simp_all add: windowByAction_def evidenceForAction_def countConcurrent_def boundTo_def windowCard_def
      resultOf_def writePending_def executionOf_def demo_outcome_defs)

lemma demo_window_facts:
  "wnID demoWindow = 20" "wnActionID demoWindow = 5" "wnClosesAt demoWindow \<le> ovListNow demoDue"
  "queriesAnswer demoDue a b" "verdict demoDetermination = Negative" "oeComplete demoDetermination"
  "orResult demoResult = Negative" "demoResult = \<lparr>orWindowID = 20, orResult = Negative, orConfidence = High\<rparr>"
  "demoWindow \<in> set (ocWindows demoOutcome)" "oeFloorBreached demoDetermination"
  "set (ocEvidence demoOutcome) = {demoDetermination}"
  by (simp_all add: queriesAnswer_def verdict_def demo_outcome_defs)

lemma demo_outcome_reachable: "outcomeReachable (demoOutcome, [])"
proof -
  let ?e = "emptyOutcome [9 \<mapsto> 1]"
  let ?c = "?e\<lparr>ocExecutions := [], ocCards := [7 \<mapsto> demoOutcomeCard], ocVariantOf := Map.empty, ocEvents := []\<rparr>"
  let ?w = "?c\<lparr>ocWindows := [demoWindow]\<rparr>"
  have "outcomeStep (?e, []) (?c, [])"
    by (rule stepOutside) (simp add: emptyOutcome_def)
  moreover have "outcomeStep (?c, []) (?w, [])"
    by (rule stepOpen[of "demoOutcomeEnv 0" 20 _ 5 7 _ demoWindow])
      (simp add: openWindow_def insertWindow_def openAt_def windowByAction_def optionalUUID_def
        demo_outcome_defs)
  moreover have "outcomeStep (?w, []) (demoOutcome, [])"
    using stepDetermination[of demoDetermination ?w "[]"]
    by (simp add: demoDetermination_def demoOutcome_def emptyOutcome_def)
  ultimately have "outcomeStep\<^sup>*\<^sup>* (?e, []) (demoOutcome, [])"
    by (meson r_into_rtranclp rtranclp.rtrancl_into_rtrancl)
  then show ?thesis unfolding outcomeReachable_def by blast
qed

text \<open>The pass closes the window: the breach makes it negative although the metric improved.\<close>

lemma demo_source: "sourceEvidence demoDue demoOutcome 5 =
    Inr \<lparr>rsDisposition = DispositionMeasurable, rsInputs = inputsOf demoDetermination 0\<rparr>"
  by (simp add: sourceEvidence_value demo_bound) (simp add: demo_outcome_defs)

lemma demo_close: "closeResolved demoDue 5
     \<lparr>rsDisposition = DispositionMeasurable, rsInputs = inputsOf demoDetermination 0\<rparr>
     \<lparr>clDb = demoOutcome, clClosed = 0, clErrors = []\<rparr> =
   \<lparr>clDb = demoOutcome\<lparr>ocResults := [demoResult]\<rparr>, clClosed = 1, clErrors = []\<rparr>"
proof -
  have "computeAndAppend demoDue demoOutcome 5 (inputsOf demoDetermination 0) =
      Inr (demoOutcome\<lparr>ocResults := ocResults demoOutcome @ [resultFor demoWindow (inputsOf demoDetermination 0)]\<rparr>,
           resultFor demoWindow (inputsOf demoDetermination 0))"
    using demo_bound by (intro computeAndAppend_new) (simp_all add: demo_outcome_defs)
  moreover have "resultFor demoWindow (inputsOf demoDetermination 0) = demoResult"
    by (simp add: resultFor_def inputsOf_def classifyInputs_def grade_def demo_outcome_defs)
  moreover have "ocResults demoOutcome = []" by (simp add: demo_outcome_defs)
  ultimately show ?thesis by (simp add: closeResolved_def)
qed

lemma close_pass_exact_witness:
  "\<exists>run. closeRunOnce demoDue (sourceEvidence demoDue) demoOutcome = Inr run
     \<and> resultOf (clDb run) 20 = Some demoResult"
proof -
  have ok: "\<exists>run. closeRunOnce demoDue (sourceEvidence demoDue) demoOutcome = Inr run"
    by (simp add: closeRunOnce_def demoOutcomeEnv_def)
  then obtain run where run: "closeRunOnce demoDue (sourceEvidence demoDue) demoOutcome = Inr run" by blast
  have "resultOf (clDb run) (wnID demoWindow) = Some demoResult"
    using close_pass_exact[OF demo_outcome_reachable run demo_window_facts(9), of demoResult]
    by (simp add: demo_window_facts demo_bound grade_def)
      (simp add: queriesAnswer_def demo_outcome_defs)
  then show ?thesis using run by (auto simp: demo_window_facts)
qed

lemma outcome_backed_witness:
  "\<exists>fl. outcomeReachable (demoOutcome\<lparr>ocResults := [demoResult]\<rparr>, fl)
     \<and> (\<exists>e \<in> set (ocEvidence demoOutcome). orResult demoResult = verdict e \<and> oeFloorBreached e)"
proof -
  let ?res = "\<lparr>rsDisposition = DispositionMeasurable, rsInputs = inputsOf demoDetermination 0\<rparr>"
  let ?closed = "(demoOutcome\<lparr>ocResults := [demoResult]\<rparr>, [(5, ?res)])"
  have "outcomeStep (demoOutcome, []) (demoOutcome, [(5, ?res)])"
    using stepResolve[OF demo_source, of "[]"] by simp
  moreover have "outcomeStep (demoOutcome, [(5, ?res)]) ?closed"
    using stepClose[of 5 ?res "[(5, ?res)]" demoOutcome demoDue] demo_close by simp
  ultimately have reach: "outcomeReachable ?closed"
    using demo_outcome_reachable unfolding outcomeReachable_def by (meson rtranclp.rtrancl_into_rtrancl)
  have "\<exists>e \<in> set (ocEvidence demoOutcome). orResult demoResult = verdict e"
    using outcome_backed[OF reach _ rtranclp.rtrancl_refl, of demoResult] by auto
  then show ?thesis using reach by (auto simp: demo_window_facts)
qed

end
