(* ===== verification/Identity.thy ===== *)
theory Identity
  imports GoStd Observation
begin

text \<open>
  The mapping of an owned variant to a public product record (services/core/internal/identity): its
  states and decisions (identity.go, service.go), the tables with their partial unique index
  (db/identity.sql.go, migration 0006), the reopen event with its durable intent (events.go,
  dispatch.go, jobs/mapping_reopened.go), the reads (read.go, scoped.go), and the observation targets a
  confirmed mapping owns (observation/service.go, routec/reopen.go, migration 0007).

  The operations run in transactions under READ COMMITTED: the row read first and the ownership
  pre-check may see an older committed state than the guarded update does, so those operations take the
  states their statements see.
\<close>

section \<open>States and rows\<close>

datatype mapping_state = MapConfirmed | MapNeedsReview | MapRejected | MapObsolete | MapOther string

definition mappingText :: "mapping_state \<Rightarrow> string" where
  "mappingText s =
     (case s of MapConfirmed \<Rightarrow> ''confirmed'' | MapNeedsReview \<Rightarrow> ''needs_review''
      | MapRejected \<Rightarrow> ''rejected'' | MapObsolete \<Rightarrow> ''obsolete'' | MapOther t \<Rightarrow> t)"

definition executable :: "mapping_state \<Rightarrow> bool" where
  "executable s \<longleftrightarrow> s = MapConfirmed"

datatype reopen_reason =
  ReasonMerge | ReasonSplit | ReasonRedirect | ReasonVariantConflict | ReopenOther string

definition reopenValid :: "reopen_reason \<Rightarrow> bool" where
  "reopenValid r \<longleftrightarrow> r \<in> {ReasonMerge, ReasonSplit, ReasonRedirect, ReasonVariantConflict}"

definition reopenText :: "reopen_reason \<Rightarrow> string" where
  "reopenText r =
     (case r of ReasonMerge \<Rightarrow> ''merge'' | ReasonSplit \<Rightarrow> ''split'' | ReasonRedirect \<Rightarrow> ''redirect''
      | ReasonVariantConflict \<Rightarrow> ''variant_conflict'' | ReopenOther t \<Rightarrow> t)"

datatype identity_error =
  ErrInvalidReason | ErrNotReopenable | ErrNotPending | ErrIdentityNotFound | ErrIdentityConflict
| ErrIdentityAccountNotFound | IdentityDbErr

record mapping_row =
  mpID :: uuid
  mpAccountID :: uuid
  mpVariantID :: uuid
  mpNativeVariantID :: int64
  mpNativeProductID :: int64
  mpState :: mapping_state
  mpActive :: bool
  mpCandidateSource :: string
  mpVersion :: int

datatype decision = CandidateCreated | DecConfirmed | DecRejected | DecDeferred | DecReopened

text \<open>The JSON evidence of a decision as its fields.\<close>

record decision_evidence =
  deCandidateSource :: "string option"
  deNativeVariantID :: int64
  deNativeProductID :: int64
  deSupplierCode :: "utext option"
  deVariantTitle :: "utext option"
  deVersion :: "int option"
  deNote :: "utext option"

record decision_row =
  dnIdentityID :: uuid
  dnAccountID :: uuid
  dnVariantID :: uuid
  dnDecision :: decision
  dnFromState :: string
  dnToState :: string
  dnReason :: utext
  dnEvidence :: decision_evidence
  dnDecidedBy :: "uuid option"

record invalidation_event =
  ieID :: uuid
  ieAccountID :: uuid
  ieVariantID :: uuid
  ieIdentityID :: uuid
  ieReason :: reopen_reason
  ieDedupKey :: string

record variant_row =
  vrID :: uuid
  vrAccountID :: uuid
  vrNativeVariantID :: int64
  vrNativeProductID :: int64
  vrTitle :: utext
  vrSupplierCode :: utext
  vrProductTitle :: utext

record target_row =
  tgAccountID :: uuid
  tgIdentityID :: uuid
  tgVariantID :: uuid
  tgNativeVariantID :: int64
  tgNativeProductID :: int64
  tgTier :: tier
  tgCadenceSeconds :: int
  tgFreshnessSeconds :: int
  tgActive :: bool

text \<open>
  The tables; \<open>imIntents\<close> is the queue of committed reopen jobs that no worker has finished, \<open>imDropped\<close>
  those the queue discarded after its last attempt.
\<close>

record identity_db =
  imRows :: "mapping_row list"
  imDecisions :: "decision_row list"
  imEvents :: "invalidation_event list"
  imTargets :: "target_row list"
  imIntents :: "invalidation_event list"
  imDropped :: "invalidation_event list"

text \<open>
  The account's catalog, the ids the database generates, the text of a UUID, whether the job enqueue
  succeeds, the account of an organisation.
\<close>

record identity_env =
  iyVariants :: "variant_row list"
  iyNewID :: "identity_db \<Rightarrow> uuid"
  iyUUIDText :: "uuid \<Rightarrow> string"
  iyEnqueues :: bool
  iyAccountOfOrg :: "uuid \<rightharpoonup> uuid"

section \<open>Queries (db/identity.sql.go)\<close>

definition getIdentity :: "identity_db \<Rightarrow> uuid \<Rightarrow> mapping_row option" where
  "getIdentity db i = find (\<lambda>m. mpID m = i) (imRows db)"

definition liveConfirmed :: "mapping_row \<Rightarrow> bool" where
  "liveConfirmed m \<longleftrightarrow> mpState m = MapConfirmed \<and> mpActive m"

definition activeConfirmed :: "identity_db \<Rightarrow> uuid \<Rightarrow> mapping_row option" where
  "activeConfirmed db v = find (\<lambda>m. mpVariantID m = v \<and> liveConfirmed m) (imRows db)"

text \<open>\<open>version + 1\<close> of an \<open>integer\<close> column is an error beyond its range.\<close>

definition bumpOk :: "mapping_row \<Rightarrow> bool" where
  "bumpOk m \<longleftrightarrow> mpVersion m < 2147483647"

text \<open>
  A guarded update of one row: no row when the guard fails; an error when the version overflows; the
  ownership conflict when the new row is confirmed and live and another such row has its variant.
\<close>

definition updateMapping ::
  "identity_db \<Rightarrow> uuid \<Rightarrow> (mapping_row \<Rightarrow> bool) \<Rightarrow> (mapping_row \<Rightarrow> mapping_row)
    \<Rightarrow> (identity_error, (identity_db \<times> mapping_row) option) result" where
  "updateMapping db i P f =
     (case getIdentity db i of
        None \<Rightarrow> Inr None
      | Some m \<Rightarrow>
          if \<not> P m then Inr None
          else if \<not> bumpOk m then Inl IdentityDbErr
          else if liveConfirmed (f m) \<and>
            list_ex (\<lambda>n. mpID n \<noteq> i \<and> mpVariantID n = mpVariantID m \<and> liveConfirmed n) (imRows db)
          then Inl ErrIdentityConflict
          else Inr (Some (db\<lparr>imRows := map (\<lambda>n. if mpID n = i then f n else n) (imRows db)\<rparr>, f m)))"

definition pending :: "mapping_row \<Rightarrow> bool" where
  "pending m \<longleftrightarrow> mpState m = MapNeedsReview"

definition confirmRow :: "mapping_row \<Rightarrow> mapping_row" where
  "confirmRow m = m\<lparr>mpState := MapConfirmed, mpActive := True, mpVersion := mpVersion m + 1\<rparr>"

definition rejectRow :: "mapping_row \<Rightarrow> mapping_row" where
  "rejectRow m = m\<lparr>mpState := MapRejected, mpActive := False, mpVersion := mpVersion m + 1\<rparr>"

definition deferRow :: "mapping_row \<Rightarrow> mapping_row" where
  "deferRow m = m\<lparr>mpVersion := mpVersion m + 1\<rparr>"

definition reopenRow :: "mapping_state \<Rightarrow> mapping_row \<Rightarrow> mapping_row" where
  "reopenRow s m = m\<lparr>mpState := s, mpActive := False, mpVersion := mpVersion m + 1\<rparr>"

definition insertMapping ::
  "identity_db \<Rightarrow> mapping_row \<Rightarrow> (identity_error, identity_db) result" where
  "insertMapping db m =
     (if getIdentity db (mpID m) \<noteq> None then Inl IdentityDbErr
      else Inr (db\<lparr>imRows := imRows db @ [m]\<rparr>))"

definition insertDecision :: "identity_db \<Rightarrow> decision_row \<Rightarrow> identity_db" where
  "insertDecision db d = db\<lparr>imDecisions := imDecisions db @ [d]\<rparr>"

text \<open>
  The event insert.  A key that is taken is a unique violation, which aborts the transaction.
\<close>

definition insertInvalidation ::
  "identity_db \<Rightarrow> invalidation_event \<Rightarrow> (identity_error, identity_db) result" where
  "insertInvalidation db e =
     (if list_ex (\<lambda>x. ieDedupKey x = ieDedupKey e \<or> ieID x = ieID e) (imEvents db) then Inl IdentityDbErr
      else Inr (db\<lparr>imEvents := imEvents db @ [e]\<rparr>))"

definition variantsWithoutIdentity :: "identity_env \<Rightarrow> identity_db \<Rightarrow> uuid \<Rightarrow> variant_row list" where
  "variantsWithoutIdentity env db account =
     sort_key (\<lambda>v. sint (vrNativeVariantID v)) (filter (\<lambda>v. vrAccountID v = account \<and>
       \<not> list_ex (\<lambda>m. mpVariantID m = vrID v \<and> (mpState m = MapNeedsReview \<or> mpState m = MapConfirmed))
          (imRows db)) (iyVariants env))"

definition confirmedTargets :: "identity_db \<Rightarrow> uuid \<Rightarrow> mapping_row list" where
  "confirmedTargets db account =
     sort_key (\<lambda>m. sint (mpNativeVariantID m))
       (filter (\<lambda>m. mpAccountID m = account \<and> liveConfirmed m) (imRows db))"

section \<open>Evidence and actors (service.go)\<close>

definition candidateEvidence :: "variant_row \<Rightarrow> decision_evidence" where
  "candidateEvidence v =
     \<lparr>deCandidateSource = Some ''exact_native_id'', deNativeVariantID = vrNativeVariantID v,
      deNativeProductID = vrNativeProductID v, deSupplierCode = Some (vrSupplierCode v),
      deVariantTitle = Some (vrTitle v), deVersion = None, deNote = None\<rparr>"

definition transitionEvidence :: "mapping_row \<Rightarrow> utext \<Rightarrow> decision_evidence" where
  "transitionEvidence m note =
     \<lparr>deCandidateSource = None, deNativeVariantID = mpNativeVariantID m,
      deNativeProductID = mpNativeProductID m, deSupplierCode = None, deVariantTitle = None,
      deVersion = Some (mpVersion m), deNote = Some note\<rparr>"

definition decidedBy :: "uuid \<Rightarrow> uuid option" where
  "decidedBy a = (if a = 0 then None else Some a)"

section \<open>Candidates\<close>

definition createCandidate ::
  "identity_env \<Rightarrow> uuid \<Rightarrow> variant_row \<Rightarrow> identity_db \<times> mapping_row list
    \<Rightarrow> (identity_error, identity_db \<times> mapping_row list) result" where
  "createCandidate env account v acc =
     (case acc of (db, created) \<Rightarrow>
       (let m = \<lparr>mpID = iyNewID env db, mpAccountID = account, mpVariantID = vrID v,
                 mpNativeVariantID = vrNativeVariantID v, mpNativeProductID = vrNativeProductID v,
                 mpState = MapNeedsReview, mpActive = True, mpCandidateSource = ''exact_native_id'',
                 mpVersion = 1\<rparr> in
        andThen (insertMapping db m) (\<lambda>db1.
        Inr (insertDecision db1
          \<lparr>dnIdentityID = mpID m, dnAccountID = account, dnVariantID = vrID v,
           dnDecision = CandidateCreated, dnFromState = [], dnToState = mappingText MapNeedsReview,
           dnReason = runes ''exact_native_id'', dnEvidence = candidateEvidence v,
           dnDecidedBy = decidedBy 0\<rparr>, created @ [m]))))"

fun createCandidates ::
  "identity_env \<Rightarrow> uuid \<Rightarrow> variant_row list \<Rightarrow> identity_db \<times> mapping_row list
    \<Rightarrow> (identity_error, identity_db \<times> mapping_row list) result" where
  "createCandidates env account [] acc = Inr acc"
| "createCandidates env account (v # vs) acc =
     andThen (createCandidate env account v acc) (createCandidates env account vs)"

text \<open>\<open>seen\<close> is the state the list query sees, \<open>db\<close> the one the inserts see.\<close>

definition generateCandidates ::
  "identity_env \<Rightarrow> identity_db \<Rightarrow> identity_db \<Rightarrow> uuid
    \<Rightarrow> (identity_error, identity_db \<times> mapping_row list) result" where
  "generateCandidates env seen db account =
     createCandidates env account (variantsWithoutIdentity env seen account) (db, [])"

section \<open>Decisions\<close>

definition confirmPreflight :: "identity_db \<Rightarrow> mapping_row \<Rightarrow> (identity_error, unit) result" where
  "confirmPreflight seen before =
     (case activeConfirmed seen (mpVariantID before) of
        None \<Rightarrow> Inr ()
      | Some owner \<Rightarrow> guardR (mpID owner = mpID before) ErrIdentityConflict)"

definition decideWithReason ::
  "identity_db \<Rightarrow> identity_db \<Rightarrow> uuid \<Rightarrow> uuid \<Rightarrow> decision \<Rightarrow> utext
    \<Rightarrow> (mapping_row \<Rightarrow> (identity_error, unit) result) \<Rightarrow> (mapping_row \<Rightarrow> mapping_row)
    \<Rightarrow> (identity_error, identity_db \<times> mapping_row) result" where
  "decideWithReason loaded db identityID actor dec reason pre f =
     (case getIdentity loaded identityID of
        None \<Rightarrow> Inl ErrIdentityNotFound
      | Some before \<Rightarrow>
          andThen (pre before) (\<lambda>_.
          andThen (updateMapping db identityID pending f) (\<lambda>r.
          case r of
            None \<Rightarrow> Inl ErrNotPending
          | Some (db1, aft) \<Rightarrow>
              Inr (insertDecision db1
                \<lparr>dnIdentityID = mpID aft, dnAccountID = mpAccountID aft, dnVariantID = mpVariantID aft,
                 dnDecision = dec, dnFromState = mappingText (mpState before),
                 dnToState = mappingText (mpState aft), dnReason = reason,
                 dnEvidence = transitionEvidence aft reason, dnDecidedBy = decidedBy actor\<rparr>, aft))))"

definition confirmIdentity ::
  "identity_db \<Rightarrow> identity_db \<Rightarrow> identity_db \<Rightarrow> uuid \<Rightarrow> uuid
    \<Rightarrow> (identity_error, identity_db \<times> mapping_row) result" where
  "confirmIdentity loaded checked db i actor =
     decideWithReason loaded db i actor DecConfirmed [] (confirmPreflight checked) confirmRow"

definition rejectIdentity ::
  "identity_db \<Rightarrow> identity_db \<Rightarrow> uuid \<Rightarrow> uuid \<Rightarrow> utext
    \<Rightarrow> (identity_error, identity_db \<times> mapping_row) result" where
  "rejectIdentity loaded db i actor note =
     decideWithReason loaded db i actor DecRejected note (\<lambda>_. Inr ()) rejectRow"

definition deferIdentity ::
  "identity_db \<Rightarrow> identity_db \<Rightarrow> uuid \<Rightarrow> uuid \<Rightarrow> utext
    \<Rightarrow> (identity_error, identity_db \<times> mapping_row) result" where
  "deferIdentity loaded db i actor note =
     decideWithReason loaded db i actor DecDeferred note (\<lambda>_. Inr ()) deferRow"

section \<open>Reopening\<close>

definition reopenDedupKey :: "identity_env \<Rightarrow> mapping_row \<Rightarrow> reopen_reason \<Rightarrow> string" where
  "reopenDedupKey env m r =
     iyUUIDText env (mpID m) @ '':'' @ reopenText r @ '':'' @ formatInt (mpVersion m)"

text \<open>
  The job insert on the transaction: unique by the dedup key, so a key already queued adds nothing.
\<close>

definition dispatchReopen ::
  "identity_env \<Rightarrow> identity_db \<Rightarrow> invalidation_event \<Rightarrow> (identity_error, identity_db) result" where
  "dispatchReopen env db e =
     (if \<not> iyEnqueues env then Inl IdentityDbErr
      else if list_ex (\<lambda>x. ieDedupKey x = ieDedupKey e) (imIntents db) then Inr db
      else Inr (db\<lparr>imIntents := imIntents db @ [e]\<rparr>))"

definition reopenTarget :: "reopen_reason \<Rightarrow> mapping_state" where
  "reopenTarget r = (if r = ReasonRedirect then MapObsolete else MapNeedsReview)"

definition reopenIdentity ::
  "identity_env \<Rightarrow> identity_db \<Rightarrow> identity_db \<Rightarrow> uuid \<Rightarrow> reopen_reason \<Rightarrow> uuid
    \<Rightarrow> (identity_error, identity_db \<times> invalidation_event \<times> mapping_state) result" where
  "reopenIdentity env loaded db i reason actor =
     (if \<not> reopenValid reason then Inl ErrInvalidReason
      else (case getIdentity loaded i of
              None \<Rightarrow> Inl ErrIdentityNotFound
            | Some before \<Rightarrow>
                andThen (updateMapping db i liveConfirmed (reopenRow (reopenTarget reason))) (\<lambda>r.
                case r of
                  None \<Rightarrow> Inl ErrNotReopenable
                | Some (db1, aft) \<Rightarrow>
                    (let db2 = insertDecision db1
                           \<lparr>dnIdentityID = mpID aft, dnAccountID = mpAccountID aft,
                            dnVariantID = mpVariantID aft, dnDecision = DecReopened,
                            dnFromState = mappingText (mpState before),
                            dnToState = mappingText (mpState aft), dnReason = runes (reopenText reason),
                            dnEvidence = transitionEvidence aft (runes (reopenText reason)),
                            dnDecidedBy = decidedBy actor\<rparr>;
                         ev = \<lparr>ieID = iyNewID env db2, ieAccountID = mpAccountID aft,
                               ieVariantID = mpVariantID aft, ieIdentityID = mpID aft,
                               ieReason = reason, ieDedupKey = reopenDedupKey env aft reason\<rparr> in
                     andThen (insertInvalidation db2 ev) (\<lambda>db3.
                     andThen (dispatchReopen env db3 ev) (\<lambda>db4.
                     Inr (db4, ev, mpState aft)))))))"

section \<open>Observation targets\<close>

text \<open>
  \<open>SyncTargetsFromConfirmed\<close>: one insert for the account's live confirmed mappings, with
  \<open>ON CONFLICT (identity_id) DO NOTHING\<close>; every selected mapping passes the insert trigger.
\<close>

definition targetFor :: "mapping_row \<Rightarrow> target_row" where
  "targetFor m =
     (case tierWindow TierStandard of (cadence, freshness) \<Rightarrow>
       \<lparr>tgAccountID = mpAccountID m, tgIdentityID = mpID m, tgVariantID = mpVariantID m,
        tgNativeVariantID = mpNativeVariantID m, tgNativeProductID = mpNativeProductID m,
        tgTier = TierStandard, tgCadenceSeconds = cadence div second,
        tgFreshnessSeconds = freshness div second, tgActive = True\<rparr>)"

definition newTargets :: "identity_db \<Rightarrow> uuid \<Rightarrow> target_row list" where
  "newTargets db account =
     map targetFor (filter (\<lambda>m. mpAccountID m = account \<and> liveConfirmed m \<and>
       \<not> list_ex (\<lambda>t. tgIdentityID t = mpID m) (imTargets db)) (imRows db))"

definition syncTargets :: "identity_db \<Rightarrow> uuid \<Rightarrow> identity_db \<times> target_row list" where
  "syncTargets db account =
     (db\<lparr>imTargets := imTargets db @ newTargets db account\<rparr>, newTargets db account)"

text \<open>\<open>TargetRetirer.MappingReopened\<close>.\<close>

definition retireTargets :: "identity_db \<Rightarrow> uuid \<Rightarrow> identity_db" where
  "retireTargets db i =
     db\<lparr>imTargets := map (\<lambda>t. if tgIdentityID t = i \<and> tgActive t then t\<lparr>tgActive := False\<rparr> else t)
        (imTargets db)\<rparr>"

text \<open>What the scheduler sees: the account's active targets.\<close>

definition activeTargets :: "identity_db \<Rightarrow> uuid \<Rightarrow> target_row list" where
  "activeTargets db account = filter (\<lambda>t. tgAccountID t = account \<and> tgActive t) (imTargets db)"

section \<open>Reads (read.go, scoped.go)\<close>

record queue_item =
  qiIdentityID :: uuid
  qiVariantID :: uuid
  qiNativeVariantID :: int64
  qiNativeProductID :: int64
  qiSupplierCode :: utext
  qiVariantTitle :: utext
  qiProductTitle :: utext
  qiCandidateSource :: string
  qiVersion :: int

definition queueItem :: "identity_env \<Rightarrow> mapping_row \<Rightarrow> queue_item option" where
  "queueItem env m =
     map_option (\<lambda>v.
       \<lparr>qiIdentityID = mpID m, qiVariantID = mpVariantID m, qiNativeVariantID = mpNativeVariantID m,
        qiNativeProductID = mpNativeProductID m, qiSupplierCode = vrSupplierCode v,
        qiVariantTitle = vrTitle v, qiProductTitle = vrProductTitle v,
        qiCandidateSource = mpCandidateSource m, qiVersion = mpVersion m\<rparr>)
       (find (\<lambda>v. vrID v = mpVariantID m) (iyVariants env))"

text \<open>The rows are in the order they were created.\<close>

definition needsReviewQueue :: "identity_env \<Rightarrow> identity_db \<Rightarrow> uuid \<Rightarrow> queue_item list" where
  "needsReviewQueue env db account =
     List.map_filter (queueItem env) (filter (\<lambda>m. mpAccountID m = account \<and> pending m) (imRows db))"

definition needsReviewQueueForOrg ::
  "identity_env \<Rightarrow> identity_db \<Rightarrow> uuid \<Rightarrow> uuid \<Rightarrow> (identity_error, queue_item list) result" where
  "needsReviewQueueForOrg env db org requested =
     (case iyAccountOfOrg env org of
        None \<Rightarrow> Inl ErrIdentityAccountNotFound
      | Some account \<Rightarrow>
          if requested \<noteq> account then Inl ErrIdentityAccountNotFound
          else Inr (needsReviewQueue env db account))"

definition activeConfirmedIdentity :: "identity_db \<Rightarrow> uuid \<Rightarrow> mapping_row option \<times> bool" where
  "activeConfirmedIdentity db v =
     (case activeConfirmed db v of None \<Rightarrow> (None, False) | Some m \<Rightarrow> (Some m, True))"

definition identityDecisions :: "identity_db \<Rightarrow> uuid \<Rightarrow> decision_row list" where
  "identityDecisions db i = filter (\<lambda>d. dnIdentityID d = i) (imDecisions db)"

text \<open>The HTTP status of a domain error (httpapi/identity.go).\<close>

definition identityErrStatus :: "identity_error \<Rightarrow> int" where
  "identityErrStatus e =
     (case e of
        ErrIdentityNotFound \<Rightarrow> 404
      | ErrNotPending \<Rightarrow> 409 | ErrNotReopenable \<Rightarrow> 409 | ErrIdentityConflict \<Rightarrow> 409
      | ErrInvalidReason \<Rightarrow> 400
      | _ \<Rightarrow> 500)"

end
