(* ===== verification/IdentityLife.thy ===== *)
theory IdentityLife
  imports Identity
begin

text \<open>
  The life of the mappings: every interleaving of candidate generation, decisions, reopens, target
  synchronisation and job delivery as a step relation, the invariant of the tables, and what follows:
  one live confirmed mapping per variant, a complete audit, an event and a job for every reopen, and no
  active observation target whose mapping has left the confirmed state without a job to retire it.
\<close>

section \<open>Steps\<close>

text \<open>
  The states of the database, the current one first; a statement of a transaction may have seen an
  earlier one.  A worker finishes a job, may process it more than once, and the queue may discard it.
\<close>

inductive identityStep :: "identity_db list \<Rightarrow> identity_db list \<Rightarrow> bool" where
  stepCandidates:
    "generateCandidates env seen db account = Inr (db', ms) \<Longrightarrow> seen \<in> set (db # h) \<Longrightarrow>
     identityStep (db # h) (db' # db # h)"
| stepConfirm:
    "confirmIdentity loaded checked db i actor = Inr (db', m) \<Longrightarrow> {loaded, checked} \<subseteq> set (db # h) \<Longrightarrow>
     identityStep (db # h) (db' # db # h)"
| stepReject:
    "rejectIdentity loaded db i actor note = Inr (db', m) \<Longrightarrow> loaded \<in> set (db # h) \<Longrightarrow>
     identityStep (db # h) (db' # db # h)"
| stepDefer:
    "deferIdentity loaded db i actor note = Inr (db', m) \<Longrightarrow> loaded \<in> set (db # h) \<Longrightarrow>
     identityStep (db # h) (db' # db # h)"
| stepReopen:
    "reopenIdentity env loaded db i reason actor = Inr (db', e, s) \<Longrightarrow> loaded \<in> set (db # h) \<Longrightarrow>
     identityStep (db # h) (db' # db # h)"
| stepSync: "identityStep (db # h) (fst (syncTargets db account) # db # h)"
| stepProcess:
    "e \<in> set (imEvents db) \<Longrightarrow> identityStep (db # h) (retireTargets db (ieIdentityID e) # db # h)"
| stepFinish:
    "e \<in> set (imIntents db) \<Longrightarrow>
     identityStep (db # h)
       ((retireTargets db (ieIdentityID e))\<lparr>imIntents := remove1 e (imIntents db)\<rparr> # db # h)"
| stepDiscard:
    "e \<in> set (imIntents db) \<Longrightarrow>
     identityStep (db # h)
       (db\<lparr>imIntents := remove1 e (imIntents db), imDropped := imDropped db @ [e]\<rparr> # db # h)"

definition noMappings :: identity_db where
  "noMappings =
     \<lparr>imRows = [], imDecisions = [], imEvents = [], imTargets = [], imIntents = [], imDropped = []\<rparr>"

definition identityReachable :: "identity_db list \<Rightarrow> bool" where
  "identityReachable s \<longleftrightarrow> identityStep\<^sup>*\<^sup>* [noMappings] s"

section \<open>The invariant\<close>

definition auditOf :: "identity_db \<Rightarrow> mapping_row \<Rightarrow> bool" where
  "auditOf db m \<longleftrightarrow>
     (let ds = identityDecisions db (mpID m) in
      ds \<noteq> [] \<and> int (length ds) = mpVersion m \<and> dnToState (last ds) = mappingText (mpState m) \<and>
      (mpState m = MapConfirmed \<longleftrightarrow> dnDecision (last ds) = DecConfirmed))"

definition shapeOk :: "mapping_row \<Rightarrow> bool" where
  "shapeOk m \<longleftrightarrow>
     mpState m \<in> {MapConfirmed, MapNeedsReview, MapRejected, MapObsolete} \<and>
     (mpState m = MapConfirmed \<longrightarrow> mpActive m) \<and>
     (mpState m \<in> {MapRejected, MapObsolete} \<longrightarrow> \<not> mpActive m)"

definition reopensOf :: "identity_db \<Rightarrow> uuid \<Rightarrow> nat" where
  "reopensOf db i = length (filter (\<lambda>d. dnDecision d = DecReopened) (identityDecisions db i))"

definition eventsOf :: "identity_db \<Rightarrow> uuid \<Rightarrow> invalidation_event list" where
  "eventsOf db i = filter (\<lambda>e. ieIdentityID e = i) (imEvents db)"

definition retiring :: "identity_db \<Rightarrow> uuid \<Rightarrow> bool" where
  "retiring db i \<longleftrightarrow> (\<exists>e \<in> set (imIntents db) \<union> set (imDropped db). ieIdentityID e = i)"

definition liveMapping :: "identity_db \<Rightarrow> uuid \<Rightarrow> bool" where
  "liveMapping db i \<longleftrightarrow> (\<exists>m \<in> set (imRows db). mpID m = i \<and> liveConfirmed m)"

text \<open>The mappings and their decisions; the events; the targets.\<close>

definition rowsInv :: "identity_db \<Rightarrow> bool" where
  "rowsInv db \<longleftrightarrow>
     distinct (map mpID (imRows db)) \<and>
     (\<forall>m \<in> set (imRows db). shapeOk m \<and> auditOf db m) \<and>
     (\<forall>m \<in> set (imRows db). \<forall>n \<in> set (imRows db).
        liveConfirmed m \<and> liveConfirmed n \<and> mpVariantID m = mpVariantID n \<longrightarrow> m = n) \<and>
     dnIdentityID ` set (imDecisions db) \<subseteq> mpID ` set (imRows db)"

definition eventsInv :: "identity_db \<Rightarrow> bool" where
  "eventsInv db \<longleftrightarrow>
     (\<forall>i. length (eventsOf db i) = reopensOf db i) \<and> distinct (map ieDedupKey (imEvents db)) \<and>
     set (imIntents db) \<union> set (imDropped db) \<subseteq> set (imEvents db)"

definition targetsInv :: "identity_db \<Rightarrow> bool" where
  "targetsInv db \<longleftrightarrow>
     distinct (map tgIdentityID (imTargets db)) \<and>
     (\<forall>t \<in> set (imTargets db). tgActive t \<longrightarrow>
        liveMapping db (tgIdentityID t) \<or> retiring db (tgIdentityID t))"

text \<open>
  Every operation that moves a mapping is one move: the row, its decision, and no other live confirmed
  mapping of the variant when the new row is one.
\<close>

definition mappingMove ::
  "identity_db \<Rightarrow> mapping_row \<Rightarrow> mapping_row \<Rightarrow> decision_row \<Rightarrow> identity_db \<Rightarrow> bool" where
  "mappingMove db m m' d db' \<longleftrightarrow>
     getIdentity db (mpID m) = Some m \<and>
     db' = db\<lparr>imRows := map (\<lambda>n. if mpID n = mpID m then m' else n) (imRows db),
              imDecisions := imDecisions db @ [d]\<rparr> \<and>
     mpID m' = mpID m \<and> mpVariantID m' = mpVariantID m \<and> mpVersion m' = mpVersion m + 1 \<and> shapeOk m' \<and>
     dnIdentityID d = mpID m \<and> dnToState d = mappingText (mpState m') \<and>
     (mpState m' = MapConfirmed \<longleftrightarrow> dnDecision d = DecConfirmed) \<and>
     (liveConfirmed m' \<longrightarrow> (\<forall>n \<in> set (imRows db).
        mpID n \<noteq> mpID m \<and> mpVariantID n = mpVariantID m \<longrightarrow> \<not> liveConfirmed n))"

lemma getIdentity_Some: "getIdentity db i = Some m \<Longrightarrow> m \<in> set (imRows db) \<and> mpID m = i"
  by (auto simp: getIdentity_def find_Some_iff)

lemma getIdentity_None: "getIdentity db i = None \<longleftrightarrow> i \<notin> mpID ` set (imRows db)"
  by (auto simp: getIdentity_def find_None_iff)

lemma getIdentity_row:
  assumes "distinct (map mpID (imRows db))" "m \<in> set (imRows db)"
  shows "getIdentity db (mpID m) = Some m"
proof -
  have "find (\<lambda>n. mpID n = mpID m) ms = Some m" if "distinct (map mpID ms)" "m \<in> set ms" for ms
    using that by (induction ms) auto
  then show ?thesis using assms by (simp add: getIdentity_def)
qed

lemma updateMapping_cases:
  assumes "updateMapping db i P f = Inr (Some (db', m'))"
  obtains m where "getIdentity db i = Some m" "P m" "m' = f m"
    "db' = db\<lparr>imRows := map (\<lambda>n. if mpID n = i then f n else n) (imRows db)\<rparr>"
    "liveConfirmed (f m) \<longrightarrow> (\<forall>n \<in> set (imRows db).
       mpID n \<noteq> i \<and> mpVariantID n = mpVariantID m \<longrightarrow> \<not> liveConfirmed n)"
  using assms by (auto simp: updateMapping_def list_ex_iff split: option.splits if_splits)

text \<open>With distinct ids, replacing by the function is replacing by its value at the row.\<close>

lemma map_row_value:
  assumes "distinct (map mpID ms)" "m \<in> set ms"
  shows "map (\<lambda>n. if mpID n = mpID m then f n else n) ms = map (\<lambda>n. if mpID n = mpID m then f m else n) ms"
  using assms by (auto simp: distinct_map dest: inj_onD)

lemma decideWithReason_move:
  assumes "decideWithReason loaded db i actor dec reason pre f = Inr (db', m')" "rowsInv db"
    "\<And>m. mpState m = MapNeedsReview \<Longrightarrow> mpID (f m) = mpID m \<and> mpVariantID (f m) = mpVariantID m \<and>
       mpVersion (f m) = mpVersion m + 1 \<and> (shapeOk m \<longrightarrow> shapeOk (f m)) \<and>
       (mpState (f m) = MapConfirmed \<longleftrightarrow> dec = DecConfirmed)"
  obtains m d where "mappingMove db m m' d db'" "mpState m = MapNeedsReview" "m' = f m"
    "dnDecision d = dec" "pre (the (getIdentity loaded i)) = Inr ()"
proof -
  obtain before db1 where b: "getIdentity loaded i = Some before" "pre before = Inr ()"
    and u: "updateMapping db i pending f = Inr (Some (db1, m'))"
    and db': "db' = insertDecision db1
        \<lparr>dnIdentityID = mpID m', dnAccountID = mpAccountID m', dnVariantID = mpVariantID m',
         dnDecision = dec, dnFromState = mappingText (mpState before),
         dnToState = mappingText (mpState m'), dnReason = reason,
         dnEvidence = transitionEvidence m' reason, dnDecidedBy = decidedBy actor\<rparr>"
    using assms(1) by (auto simp: decideWithReason_def result_simps split: option.splits)
  from u obtain m where m: "getIdentity db i = Some m" "pending m" "m' = f m"
    "db1 = db\<lparr>imRows := map (\<lambda>n. if mpID n = i then f n else n) (imRows db)\<rparr>"
    "liveConfirmed (f m) \<longrightarrow> (\<forall>n \<in> set (imRows db).
       mpID n \<noteq> i \<and> mpVariantID n = mpVariantID m \<longrightarrow> \<not> liveConfirmed n)"
    by (rule updateMapping_cases)
  have row: "m \<in> set (imRows db)" "mpID m = i" using m(1) getIdentity_Some by blast+
  have ok: "distinct (map mpID (imRows db))" "shapeOk m" using assms(2) row by (auto simp: rowsInv_def)
  have f: "mpID (f m) = mpID m" "mpVariantID (f m) = mpVariantID m" "mpVersion (f m) = mpVersion m + 1"
    "shapeOk (f m)" "mpState (f m) = MapConfirmed \<longleftrightarrow> dec = DecConfirmed"
    using assms(3)[of m] m(2) ok(2) by (auto simp: pending_def)
  show thesis
  proof (rule that)
    show "mappingMove db m m'
        \<lparr>dnIdentityID = mpID m', dnAccountID = mpAccountID m', dnVariantID = mpVariantID m',
         dnDecision = dec, dnFromState = mappingText (mpState before),
         dnToState = mappingText (mpState m'), dnReason = reason,
         dnEvidence = transitionEvidence m' reason, dnDecidedBy = decidedBy actor\<rparr> db'"
      using m row f db' map_row_value[OF ok(1) row(1), of f]
      by (auto simp: mappingMove_def insertDecision_def)
    show "mpState m = MapNeedsReview" using m(2) by (simp add: pending_def)
  qed (use m b in auto)
qed

lemma identityDecisions_append [simp]:
  "identityDecisions (db\<lparr>imRows := rs, imDecisions := imDecisions db @ [d]\<rparr>) i =
     identityDecisions db i @ (if dnIdentityID d = i then [d] else [])"
  by (simp add: identityDecisions_def)

lemma move_rowsInv:
  assumes "mappingMove db m m' d db'" "rowsInv db"
  shows "rowsInv db'"
proof -
  have row: "m \<in> set (imRows db)" using assms(1) getIdentity_Some by (auto simp: mappingMove_def)
  have rows: "set (imRows db') = insert m' {n \<in> set (imRows db). mpID n \<noteq> mpID m}"
    using assms(1) row by (auto simp: mappingMove_def)
  have "map mpID (imRows db') = map mpID (imRows db)"
    using assms(1) by (auto simp: mappingMove_def)
  then have ids: "distinct (map mpID (imRows db'))" "mpID ` set (imRows db') = mpID ` set (imRows db)"
    using assms(2) by (simp add: rowsInv_def, metis set_map)
  have audit: "auditOf db' n" if "n \<in> set (imRows db')" for n
  proof (cases "n = m'")
    case True
    have "auditOf db m" using assms(2) row by (simp add: rowsInv_def)
    then show ?thesis using assms(1) True by (auto simp: auditOf_def mappingMove_def Let_def)
  next
    case False
    then have "auditOf db n" "mpID n \<noteq> mpID m" using that rows assms(2) by (auto simp: rowsInv_def)
    then show ?thesis using assms(1) by (auto simp: auditOf_def mappingMove_def Let_def)
  qed
  have "shapeOk n" if "n \<in> set (imRows db')" for n
    using that rows assms by (auto simp: rowsInv_def mappingMove_def)
  moreover have "n = k" if "n \<in> set (imRows db')" "k \<in> set (imRows db')" "liveConfirmed n" "liveConfirmed k"
      "mpVariantID n = mpVariantID k" for n k
    using that rows assms by (auto simp: rowsInv_def mappingMove_def)
  moreover have "dnIdentityID ` set (imDecisions db') \<subseteq> mpID ` set (imRows db')"
    using ids(2) assms row by (auto simp: rowsInv_def mappingMove_def)
  ultimately show ?thesis using ids(1) audit by (auto simp: rowsInv_def)
qed

section \<open>The operations as moves\<close>

lemmas mapping_rows = confirmRow_def rejectRow_def deferRow_def reopenRow_def shapeOk_def

lemma confirmIdentity_move:
  assumes "confirmIdentity loaded checked db i actor = Inr (db', m')" "rowsInv db"
  obtains m d where "mappingMove db m m' d db'" "mpState m = MapNeedsReview" "m' = confirmRow m"
    "dnDecision d = DecConfirmed"
  using assms(1) unfolding confirmIdentity_def
  by (rule decideWithReason_move) (use assms(2) in \<open>auto simp: mapping_rows intro: that\<close>)

lemma rejectIdentity_move:
  assumes "rejectIdentity loaded db i actor note = Inr (db', m')" "rowsInv db"
  obtains m d where "mappingMove db m m' d db'" "mpState m = MapNeedsReview" "m' = rejectRow m"
    "dnDecision d = DecRejected"
  using assms(1) unfolding rejectIdentity_def
  by (rule decideWithReason_move) (use assms(2) in \<open>auto simp: mapping_rows intro: that\<close>)

lemma deferIdentity_move:
  assumes "deferIdentity loaded db i actor note = Inr (db', m')" "rowsInv db"
  obtains m d where "mappingMove db m m' d db'" "mpState m = MapNeedsReview" "m' = deferRow m"
    "dnDecision d = DecDeferred"
  using assms(1) unfolding deferIdentity_def
  by (rule decideWithReason_move) (use assms(2) in \<open>auto simp: mapping_rows intro: that\<close>)

text \<open>A reopen is a move out of the live confirmed state with one event and one job, all or nothing.\<close>

definition emits :: "identity_db \<Rightarrow> invalidation_event \<Rightarrow> identity_db \<Rightarrow> bool" where
  "emits db e db' \<longleftrightarrow>
     ieDedupKey e \<notin> ieDedupKey ` set (imEvents db) \<and> db' = db\<lparr>imEvents := imEvents db @ [e],
       imIntents := (if list_ex (\<lambda>x. ieDedupKey x = ieDedupKey e) (imIntents db) then imIntents db
                     else imIntents db @ [e])\<rparr>"

lemma reopenIdentity_move:
  assumes "reopenIdentity env loaded db i reason actor = Inr (db', e, s)" "rowsInv db"
  obtains m d db1 where "mappingMove db m (reopenRow (reopenTarget reason) m) d db1" "liveConfirmed m"
    "mpID m = i" "dnDecision d = DecReopened" "emits db1 e db'" "ieIdentityID e = i"
    "ieVariantID e = mpVariantID m" "s = reopenTarget reason" "reopenValid reason"
proof -
  obtain before db1 aft where b: "getIdentity loaded i = Some before" "reopenValid reason"
    and u: "updateMapping db i liveConfirmed (reopenRow (reopenTarget reason)) = Inr (Some (db1, aft))"
    using assms(1) by (auto simp: reopenIdentity_def result_simps split: option.splits if_splits)
  define d where "d = \<lparr>dnIdentityID = mpID aft, dnAccountID = mpAccountID aft,
      dnVariantID = mpVariantID aft, dnDecision = DecReopened, dnFromState = mappingText (mpState before),
      dnToState = mappingText (mpState aft), dnReason = runes (reopenText reason),
      dnEvidence = transitionEvidence aft (runes (reopenText reason)), dnDecidedBy = decidedBy actor\<rparr>"
  let ?db2 = "insertDecision db1 d"
  have e: "emits ?db2 e db'" "ieIdentityID e = mpID aft" "ieVariantID e = mpVariantID aft" "s = mpState aft"
    using assms(1) b u
    by (auto simp: reopenIdentity_def d_def emits_def insertInvalidation_def dispatchReopen_def Let_def
        result_simps list_ex_iff split: if_splits)
  from u obtain m where m: "getIdentity db i = Some m" "liveConfirmed m" "aft = reopenRow (reopenTarget reason) m"
    "db1 = db\<lparr>imRows := map (\<lambda>n. if mpID n = i then reopenRow (reopenTarget reason) n else n) (imRows db)\<rparr>"
    by (rule updateMapping_cases)
  have row: "m \<in> set (imRows db)" "mpID m = i" using m(1) getIdentity_Some by blast+
  have ok: "distinct (map mpID (imRows db))" using assms(2) by (simp add: rowsInv_def)
  have "mappingMove db m aft d ?db2"
    using m row map_row_value[OF ok row(1), of "reopenRow (reopenTarget reason)"]
    by (auto simp: mappingMove_def insertDecision_def d_def mapping_rows reopenTarget_def liveConfirmed_def)
  then show thesis using that[of m d ?db2] m e row b
    by (simp add: d_def reopenRow_def)
qed

lemma emits_tables:
  assumes "emits db e db'"
  shows "imRows db' = imRows db" "imTargets db' = imTargets db" "imDropped db' = imDropped db"
    "imDecisions db' = imDecisions db" "imEvents db' = imEvents db @ [e]"
    "ieDedupKey e \<notin> ieDedupKey ` set (imEvents db)"
    "imIntents db' = (if list_ex (\<lambda>x. ieDedupKey x = ieDedupKey e) (imIntents db) then imIntents db
                      else imIntents db @ [e])"
  using assms unfolding emits_def by simp_all

lemma emits_rows: "emits db e db' \<Longrightarrow> rowsInv db \<Longrightarrow> rowsInv db'"
  by (auto simp: emits_def rowsInv_def auditOf_def identityDecisions_def)

text \<open>Candidates.\<close>

definition freshMapping :: "identity_db \<Rightarrow> mapping_row \<Rightarrow> decision_row \<Rightarrow> identity_db \<Rightarrow> bool" where
  "freshMapping db m d db' \<longleftrightarrow>
     mpID m \<notin> mpID ` set (imRows db) \<and> mpState m = MapNeedsReview \<and> mpVersion m = 1 \<and> mpActive m \<and>
     dnIdentityID d = mpID m \<and> dnDecision d = CandidateCreated \<and>
     dnToState d = mappingText MapNeedsReview \<and>
     db' = db\<lparr>imRows := imRows db @ [m], imDecisions := imDecisions db @ [d]\<rparr>"

lemma fresh_rowsInv:
  assumes "freshMapping db m d db'" "rowsInv db"
  shows "rowsInv db'"
proof -
  have new: "mpID m \<notin> mpID ` set (imRows db)" "mpState m = MapNeedsReview" "mpVersion m = 1" "mpActive m"
    "dnIdentityID d = mpID m" "dnDecision d = CandidateCreated" "dnToState d = mappingText MapNeedsReview"
    "imRows db' = imRows db @ [m]" "imDecisions db' = imDecisions db @ [d]"
    and dec: "identityDecisions db' i = identityDecisions db i @ (if mpID m = i then [d] else [])" for i
    using assms(1) by (simp_all add: freshMapping_def)
  have old: "distinct (map mpID (imRows db))" "\<forall>n \<in> set (imRows db). shapeOk n \<and> auditOf db n"
    "\<forall>n \<in> set (imRows db). \<forall>k \<in> set (imRows db).
       liveConfirmed n \<and> liveConfirmed k \<and> mpVariantID n = mpVariantID k \<longrightarrow> n = k"
    "dnIdentityID ` set (imDecisions db) \<subseteq> mpID ` set (imRows db)"
    using assms(2) by (simp_all add: rowsInv_def)
  have "identityDecisions db (mpID m) = []"
    using new(1) old(4) unfolding identityDecisions_def filter_empty_conv by (metis image_subset_iff)
  then have "auditOf db' m" using new by (simp add: dec auditOf_def)
  moreover have "auditOf db' n" if "n \<in> set (imRows db)" for n
  proof -
    have "mpID m \<noteq> mpID n" using that new(1) by auto
    then show ?thesis using that old(2) by (simp add: dec auditOf_def)
  qed
  moreover have "shapeOk m" "\<not> liveConfirmed m" using new by (simp_all add: shapeOk_def liveConfirmed_def)
  ultimately show ?thesis
    unfolding rowsInv_def new using old new(1,5) by auto
qed

lemma createCandidate_fresh:
  assumes "createCandidate env account v (db, ms) = Inr (db', ms')"
  obtains m d where "freshMapping db m d db'"
proof -
  define m where "m = \<lparr>mpID = iyNewID env db, mpAccountID = account, mpVariantID = vrID v,
      mpNativeVariantID = vrNativeVariantID v, mpNativeProductID = vrNativeProductID v,
      mpState = MapNeedsReview, mpActive = True, mpCandidateSource = ''exact_native_id'', mpVersion = 1\<rparr>"
  define d where "d = \<lparr>dnIdentityID = mpID m, dnAccountID = account, dnVariantID = vrID v,
      dnDecision = CandidateCreated, dnFromState = [], dnToState = mappingText MapNeedsReview,
      dnReason = runes ''exact_native_id'', dnEvidence = candidateEvidence v, dnDecidedBy = decidedBy 0\<rparr>"
  have "andThen (insertMapping db m) (\<lambda>db1. Inr (insertDecision db1 d, ms @ [m])) = Inr (db', ms')"
    using assms by (simp add: createCandidate_def m_def d_def Let_def)
  then have "mpID m \<notin> mpID ` set (imRows db)"
    "db' = db\<lparr>imRows := imRows db @ [m], imDecisions := imDecisions db @ [d]\<rparr>"
    by (auto simp: insertMapping_def insertDecision_def result_simps getIdentity_None split: if_splits)
  then show thesis using that[of m d] by (simp add: freshMapping_def m_def d_def)
qed

lemma createCandidates_induct:
  assumes "createCandidates env account vs (db, ms) = Inr (db', ms')" "P db"
    "\<And>a m d b. freshMapping a m d b \<Longrightarrow> P a \<Longrightarrow> P b"
  shows "P db'"
  using assms(1,2)
proof (induction vs arbitrary: db ms)
  case (Cons v vs)
  then obtain db1 ms1 where "createCandidate env account v (db, ms) = Inr (db1, ms1)"
    "createCandidates env account vs (db1, ms1) = Inr (db', ms')"
    by (auto simp: result_simps)
  then show ?case using Cons.IH Cons.prems(2) assms(3) by (metis createCandidate_fresh)
qed simp

section \<open>The invariant holds\<close>

lemma moved_tables:
  assumes "mappingMove db m m' d db'"
  shows "imEvents db' = imEvents db" "imIntents db' = imIntents db" "imDropped db' = imDropped db"
    "imTargets db' = imTargets db"
    "identityDecisions db' i = identityDecisions db i @ (if mpID m = i then [d] else [])"
    "set (imRows db') = insert m' {n \<in> set (imRows db). mpID n \<noteq> mpID m}" "m \<in> set (imRows db)"
  using assms getIdentity_Some[of db "mpID m" m] by (auto simp: mappingMove_def)

lemma fresh_tables:
  assumes "freshMapping db m d db'"
  shows "imEvents db' = imEvents db" "imIntents db' = imIntents db" "imDropped db' = imDropped db"
    "imTargets db' = imTargets db" "imRows db' = imRows db @ [m]"
    "identityDecisions db' i = identityDecisions db i @ (if mpID m = i then [d] else [])"
  using assms by (simp_all add: freshMapping_def)

text \<open>A move or a new candidate whose decision is no reopen keeps the events; a reopen adds one.\<close>

lemma same_eventsInv:
  assumes "imEvents db' = imEvents db" "imIntents db' = imIntents db" "imDropped db' = imDropped db"
    "\<And>i. reopensOf db' i = reopensOf db i" "eventsInv db"
  shows "eventsInv db'"
  using assms(4,5) unfolding eventsInv_def eventsOf_def assms(1-3) by simp

lemma move_eventsInv:
  assumes "mappingMove db m m' d db'" "dnDecision d \<noteq> DecReopened" "eventsInv db"
  shows "eventsInv db'"
  by (rule same_eventsInv[OF moved_tables(1-3)[OF assms(1)] _ assms(3)])
    (simp add: reopensOf_def moved_tables(5)[OF assms(1)] assms(2))

lemma fresh_eventsInv:
  assumes "freshMapping db m d db'" "eventsInv db"
  shows "eventsInv db'"
proof (rule same_eventsInv[OF fresh_tables(1-3)[OF assms(1)] _ assms(2)])
  show "reopensOf db' i = reopensOf db i" for i
    using assms(1) by (simp add: reopensOf_def fresh_tables(6)[OF assms(1)]) (simp add: freshMapping_def)
qed

lemma reopen_eventsInv:
  assumes "mappingMove db m m' d db1" "dnDecision d = DecReopened" "emits db1 e db'"
    "ieIdentityID e = mpID m" "eventsInv db"
  shows "eventsInv db'"
proof -
  have e: "imEvents db' = imEvents db @ [e]" "ieDedupKey e \<notin> ieDedupKey ` set (imEvents db)"
    "imDropped db' = imDropped db" "set (imIntents db') \<subseteq> insert e (set (imIntents db))"
    "identityDecisions db' i = identityDecisions db1 i" for i
    using assms(3) moved_tables(1-3)[OF assms(1)] by (auto simp: emits_def identityDecisions_def)
  have count: "reopensOf db' i = reopensOf db i + (if mpID m = i then 1 else 0)" for i
    using assms(2) by (simp add: reopensOf_def e(5) moved_tables(5)[OF assms(1)])
  show ?thesis
    using assms(4,5) e(1-4) count unfolding eventsInv_def by (auto simp: eventsOf_def)
qed

lemma liveMapping_move:
  assumes "mappingMove db m m' d db'" "rowsInv db" "\<not> liveConfirmed m" "liveMapping db i"
  shows "liveMapping db' i"
proof -
  obtain n where n: "n \<in> set (imRows db)" "mpID n = i" "liveConfirmed n"
    using assms(4) by (auto simp: liveMapping_def)
  have "mpID n \<noteq> mpID m"
  proof
    assume "mpID n = mpID m"
    then have "getIdentity db (mpID m) = Some n"
      using n(1) assms(2) getIdentity_row[of db n] by (simp add: rowsInv_def)
    then show False using assms(1,3) n(3) by (simp add: mappingMove_def)
  qed
  then have "n \<in> set (imRows db')" using n(1) moved_tables(6)[OF assms(1)] by simp
  then show ?thesis using n by (auto simp: liveMapping_def)
qed

lemma targetsInv_mono:
  assumes "targetsInv db" "imTargets db' = imTargets db"
    "\<And>i. liveMapping db i \<or> retiring db i \<Longrightarrow> liveMapping db' i \<or> retiring db' i"
  shows "targetsInv db'"
  using assms by (auto simp: targetsInv_def)

lemma move_targetsInv:
  assumes "mappingMove db m m' d db'" "rowsInv db" "\<not> liveConfirmed m" "targetsInv db"
  shows "targetsInv db'"
  using assms(4) moved_tables(4)[OF assms(1)]
proof (rule targetsInv_mono)
  show "liveMapping db' i \<or> retiring db' i" if "liveMapping db i \<or> retiring db i" for i
    using that liveMapping_move[OF assms(1-3), of i] moved_tables(2,3)[OF assms(1)]
    by (auto simp: retiring_def)
qed

lemma reopen_targetsInv:
  assumes "mappingMove db m m' d db1" "emits db1 e db'" "ieIdentityID e = mpID m" "eventsInv db" "targetsInv db"
  shows "targetsInv db'"
proof -
  have "set (imIntents db) \<subseteq> set (imEvents db)" using assms(4) by (simp add: eventsInv_def)
  then have "ieDedupKey e \<notin> ieDedupKey ` set (imIntents db)"
    using emits_tables(6)[OF assms(2)] unfolding moved_tables(1)[OF assms(1)] by blast
  then have "\<not> list_ex (\<lambda>x. ieDedupKey x = ieDedupKey e) (imIntents db)"
    unfolding list_ex_iff image_iff by metis
  then have q: "imIntents db' = imIntents db @ [e]" "imDropped db' = imDropped db" "imRows db' = imRows db1"
    "imTargets db' = imTargets db"
    using emits_tables[OF assms(2)] moved_tables(1-4)[OF assms(1)] by simp_all
  show ?thesis
    using assms(5) q(4)
  proof (rule targetsInv_mono)
    show "liveMapping db' i \<or> retiring db' i" if "liveMapping db i \<or> retiring db i" for i
    proof (cases "i = mpID m")
      case True
      then show ?thesis using assms(3) q by (simp add: retiring_def)
    next
      case False
      then show ?thesis using that q moved_tables(6)[OF assms(1)]
        by (auto simp: liveMapping_def retiring_def)
    qed
  qed
qed

lemma fresh_targetsInv: "freshMapping db m d db' \<Longrightarrow> targetsInv db \<Longrightarrow> targetsInv db'"
  by (erule targetsInv_mono) (auto simp: freshMapping_def liveMapping_def retiring_def)

definition identityInv :: "identity_db \<Rightarrow> bool" where
  "identityInv db \<longleftrightarrow> rowsInv db \<and> eventsInv db \<and> targetsInv db"

lemma fresh_identityInv: "freshMapping db m d db' \<Longrightarrow> identityInv db \<Longrightarrow> identityInv db'"
  by (simp add: identityInv_def fresh_rowsInv fresh_eventsInv fresh_targetsInv)

lemma decided_identityInv:
  "mappingMove db m m' d db' \<Longrightarrow> mpState m = MapNeedsReview \<Longrightarrow> dnDecision d \<noteq> DecReopened \<Longrightarrow>
   identityInv db \<Longrightarrow> identityInv db'"
  by (auto simp: identityInv_def liveConfirmed_def intro: move_rowsInv move_eventsInv move_targetsInv)

lemma reopened_identityInv:
  assumes "mappingMove db m m' d db1" "dnDecision d = DecReopened" "emits db1 e db'"
    "ieIdentityID e = mpID m" "identityInv db"
  shows "identityInv db'"
proof -
  have db: "rowsInv db" "eventsInv db" "targetsInv db" using assms(5) by (simp_all add: identityInv_def)
  have "rowsInv db'" by (rule emits_rows[OF assms(3) move_rowsInv[OF assms(1) db(1)]])
  moreover have "eventsInv db'" by (rule reopen_eventsInv[OF assms(1-4) db(2)])
  moreover have "targetsInv db'" by (rule reopen_targetsInv[OF assms(1,3,4) db(2,3)])
  ultimately show ?thesis by (simp add: identityInv_def)
qed

lemma targetFor_sel [simp]: "tgIdentityID (targetFor m) = mpID m" "tgActive (targetFor m)"
  by (simp_all add: targetFor_def split: prod.split)

lemma sync_identityInv:
  assumes "identityInv db"
  shows "identityInv (fst (syncTargets db account))"
proof -
  let ?new = "newTargets db account"
  have ids: "distinct (map tgIdentityID ?new)" "tgIdentityID ` set ?new \<inter> tgIdentityID ` set (imTargets db) = {}"
    using assms
    by (auto simp: identityInv_def rowsInv_def newTargets_def comp_def list_ex_iff distinct_map_filter)
  have live: "liveMapping db (tgIdentityID t)" if "t \<in> set ?new" for t
    using that by (auto simp: newTargets_def liveMapping_def)
  have rest: "rowsInv db" "eventsInv db" "targetsInv db" using assms by (simp_all add: identityInv_def)
  have "targetsInv (db\<lparr>imTargets := imTargets db @ ?new\<rparr>)"
    using rest(3) ids live by (auto simp: targetsInv_def liveMapping_def retiring_def)
  moreover have "rowsInv (db\<lparr>imTargets := ts\<rparr>) = rowsInv db" "eventsInv (db\<lparr>imTargets := ts\<rparr>) = eventsInv db" for ts
    by (simp_all add: rowsInv_def auditOf_def identityDecisions_def eventsInv_def eventsOf_def reopensOf_def)
  ultimately show ?thesis using rest(1,2) by (simp add: identityInv_def syncTargets_def)
qed

lemma retire_facts:
  "imRows (retireTargets db i) = imRows db" "imDecisions (retireTargets db i) = imDecisions db"
  "imEvents (retireTargets db i) = imEvents db" "imIntents (retireTargets db i) = imIntents db"
  "imDropped (retireTargets db i) = imDropped db"
  "map tgIdentityID (imTargets (retireTargets db i)) = map tgIdentityID (imTargets db)"
  "t \<in> set (imTargets (retireTargets db i)) \<Longrightarrow> tgActive t \<Longrightarrow> t \<in> set (imTargets db) \<and> tgIdentityID t \<noteq> i"
  by (auto simp: retireTargets_def split: if_splits)

text \<open>Retiring, finishing and discarding.\<close>

lemma queue_identityInv:
  assumes "identityInv db" "imRows db' = imRows db" "imDecisions db' = imDecisions db"
    "imEvents db' = imEvents db" "map tgIdentityID (imTargets db') = map tgIdentityID (imTargets db)"
    "set (imIntents db') \<union> set (imDropped db') \<subseteq> set (imIntents db) \<union> set (imDropped db)"
    "\<And>t. t \<in> set (imTargets db') \<Longrightarrow> tgActive t \<Longrightarrow> t \<in> set (imTargets db) \<and>
       (retiring db (tgIdentityID t) \<longrightarrow> retiring db' (tgIdentityID t))"
  shows "identityInv db'"
proof -
  have "rowsInv db'" "eventsInv db'"
    using assms(1,6)
    by (auto simp: identityInv_def rowsInv_def auditOf_def identityDecisions_def eventsInv_def eventsOf_def
        reopensOf_def assms(2-4))
  moreover have "targetsInv db'"
    unfolding targetsInv_def assms(5)
    using assms(1,7) by (auto simp: identityInv_def targetsInv_def liveMapping_def assms(2))
  ultimately show ?thesis by (simp add: identityInv_def)
qed

lemma identityInv_step:
  assumes "identityStep s s'" "identityInv (hd s)"
  shows "identityInv (hd s')"
  using assms
proof (induction rule: identityStep.induct)
  case (stepCandidates env seen db account db' ms h)
  have "identityInv db'"
    using stepCandidates unfolding generateCandidates_def
    by (auto elim!: createCandidates_induct[where P = identityInv] intro: fresh_identityInv)
  then show ?case by simp
next
  case (stepConfirm loaded checked db i actor db' m h)
  then have "rowsInv db" "identityInv db" by (simp_all add: identityInv_def)
  with stepConfirm(1) show ?case by (auto elim!: confirmIdentity_move intro: decided_identityInv)
next
  case (stepReject loaded db i actor txt0 db' m h)
  then have "rowsInv db" "identityInv db" by (simp_all add: identityInv_def)
  with stepReject(1) show ?case by (auto elim!: rejectIdentity_move intro: decided_identityInv)
next
  case (stepDefer loaded db i actor txt0 db' m h)
  then have "rowsInv db" "identityInv db" by (simp_all add: identityInv_def)
  with stepDefer(1) show ?case by (auto elim!: deferIdentity_move intro: decided_identityInv)
next
  case (stepReopen env loaded db i reason actor db' e s h)
  then have "rowsInv db" "identityInv db" by (simp_all add: identityInv_def)
  with stepReopen(1) show ?case by (auto elim!: reopenIdentity_move intro: reopened_identityInv)
next
  case (stepSync db h account)
  then show ?case by (simp add: sync_identityInv)
next
  case (stepProcess e db h)
  have "identityInv (retireTargets db (ieIdentityID e))"
  proof (rule queue_identityInv)
    show "identityInv db" using stepProcess(2) by simp
    show "t \<in> set (imTargets db) \<and> (retiring db (tgIdentityID t) \<longrightarrow>
        retiring (retireTargets db (ieIdentityID e)) (tgIdentityID t))"
      if "t \<in> set (imTargets (retireTargets db (ieIdentityID e)))" "tgActive t" for t
      using retire_facts(7)[OF that] by (simp add: retiring_def retire_facts)
  qed (simp_all add: retire_facts)
  then show ?case by simp
next
  case (stepFinish e db h)
  let ?db = "(retireTargets db (ieIdentityID e))\<lparr>imIntents := remove1 e (imIntents db)\<rparr>"
  have "identityInv ?db"
  proof (rule queue_identityInv)
    show "identityInv db" using stepFinish(2) by simp
    show "t \<in> set (imTargets db) \<and> (retiring db (tgIdentityID t) \<longrightarrow> retiring ?db (tgIdentityID t))"
      if "t \<in> set (imTargets ?db)" "tgActive t" for t
    proof -
      have t: "t \<in> set (imTargets db)" "tgIdentityID t \<noteq> ieIdentityID e"
        using retire_facts(7)[of t db "ieIdentityID e"] that by simp_all
      have "x \<in> set (remove1 e (imIntents db))" if "x \<in> set (imIntents db)" "ieIdentityID x = tgIdentityID t" for x
        using that t(2) by (metis in_set_remove1)
      then show ?thesis using t(1) by (auto simp: retiring_def retire_facts)
    qed
    show "set (imIntents ?db) \<union> set (imDropped ?db) \<subseteq> set (imIntents db) \<union> set (imDropped db)"
      using set_remove1_subset[of e "imIntents db"] by (auto simp: retire_facts)
  qed (simp_all add: retire_facts)
  then show ?case by simp
next
  case (stepDiscard e db h)
  let ?db = "db\<lparr>imIntents := remove1 e (imIntents db), imDropped := imDropped db @ [e]\<rparr>"
  have same: "x \<in> set (imIntents db) \<Longrightarrow> x \<in> set (remove1 e (imIntents db)) \<or> x = e" for x
    by (metis in_set_remove1)
  have "identityInv ?db"
  proof (rule queue_identityInv)
    show "identityInv db" using stepDiscard(2) by simp
    show "set (imIntents ?db) \<union> set (imDropped ?db) \<subseteq> set (imIntents db) \<union> set (imDropped db)"
      using set_remove1_subset[of e "imIntents db"] stepDiscard(1) by auto
    show "t \<in> set (imTargets db) \<and> (retiring db (tgIdentityID t) \<longrightarrow> retiring ?db (tgIdentityID t))"
      if "t \<in> set (imTargets ?db)" "tgActive t" for t
      using that same by (auto simp: retiring_def)
  qed simp_all
  then show ?case by simp
qed

lemma identityInv_reachable: "identityReachable s \<Longrightarrow> identityInv (hd s)"
proof -
  have init: "identityInv (hd [noMappings])"
    by (simp add: identityInv_def rowsInv_def eventsInv_def targetsInv_def noMappings_def eventsOf_def
        reopensOf_def identityDecisions_def)
  assume "identityReachable s"
  then have "identityStep\<^sup>*\<^sup>* [noMappings] s" by (simp add: identityReachable_def)
  then show ?thesis by induction (use init identityInv_step in auto)
qed

section \<open>What a step keeps\<close>

text \<open>
  The audit and the events only grow, mappings keep their ids, a target's mapping keeps its one target
  and an inactive target stays inactive.
\<close>

definition identityGrows :: "identity_db \<Rightarrow> identity_db \<Rightarrow> bool" where
  "identityGrows db db' \<longleftrightarrow>
     (\<exists>ds. imDecisions db' = imDecisions db @ ds) \<and> (\<exists>es. imEvents db' = imEvents db @ es) \<and>
     (\<forall>t \<in> set (imTargets db). \<exists>u \<in> set (imTargets db').
        tgIdentityID u = tgIdentityID t \<and> (\<not> tgActive t \<longrightarrow> \<not> tgActive u))"

lemma identityGrows_refl [simp]: "identityGrows db db"
  by (auto simp: identityGrows_def)

lemma identityGrows_trans: "identityGrows a b \<Longrightarrow> identityGrows b c \<Longrightarrow> identityGrows a c"
  unfolding identityGrows_def by (metis append.assoc)

lemma grows_same_targets:
  "imDecisions db' = imDecisions db @ ds \<Longrightarrow> imEvents db' = imEvents db @ es \<Longrightarrow>
   imTargets db' = imTargets db @ ts \<Longrightarrow> identityGrows db db'"
  by (auto simp: identityGrows_def)

lemma move_grows: "mappingMove db m m' d db' \<Longrightarrow> identityGrows db db'"
  by (rule grows_same_targets[where ds = "[d]" and es = "[]" and ts = "[]"]) (auto simp: mappingMove_def)

lemma fresh_grows: "freshMapping db m d db' \<Longrightarrow> identityGrows db db'"
  by (rule grows_same_targets[where ds = "[d]" and es = "[]" and ts = "[]"]) (auto simp: freshMapping_def)

lemma emits_grows: "emits db e db' \<Longrightarrow> identityGrows db db'"
  by (rule grows_same_targets[where ds = "[]" and es = "[e]" and ts = "[]"]) (simp_all add: emits_tables)

lemma retire_grows: "identityGrows db (retireTargets db i)"
proof -
  let ?f = "\<lambda>t. if tgIdentityID t = i \<and> tgActive t then t\<lparr>tgActive := False\<rparr> else t"
  have "\<exists>u \<in> set (imTargets (retireTargets db i)). tgIdentityID u = tgIdentityID t \<and> (\<not> tgActive t \<longrightarrow> \<not> tgActive u)"
    if "t \<in> set (imTargets db)" for t
  proof
    show "?f t \<in> set (imTargets (retireTargets db i))" using that by (simp add: retireTargets_def)
  qed simp
  then show ?thesis by (simp add: identityGrows_def retire_facts)
qed

lemma queue_grows: "identityGrows db (d\<lparr>imIntents := x, imDropped := y\<rparr>) = identityGrows db d"
  by (simp add: identityGrows_def)

lemma queue_grows': "identityGrows db (d\<lparr>imIntents := x\<rparr>) = identityGrows db d"
  by (simp add: identityGrows_def)

lemma identityStep_grows: "identityStep s s' \<Longrightarrow> rowsInv (hd s) \<Longrightarrow> identityGrows (hd s) (hd s')"
proof (induction rule: identityStep.induct)
  case (stepCandidates env seen db account db' ms h)
  have "identityGrows db db'"
    using stepCandidates(1) unfolding generateCandidates_def
    by (rule createCandidates_induct) (auto intro: identityGrows_trans fresh_grows)
  then show ?case by simp
next
  case (stepConfirm loaded checked db i actor db' m h)
  then have "rowsInv db" by simp
  with stepConfirm(1) show ?case by (auto elim!: confirmIdentity_move intro: move_grows)
next
  case (stepReject loaded db i actor txt0 db' m h)
  then have "rowsInv db" by simp
  with stepReject(1) show ?case by (auto elim!: rejectIdentity_move intro: move_grows)
next
  case (stepDefer loaded db i actor txt0 db' m h)
  then have "rowsInv db" by simp
  with stepDefer(1) show ?case by (auto elim!: deferIdentity_move intro: move_grows)
next
  case (stepReopen env loaded db i reason actor db' e s h)
  then have "rowsInv db" by simp
  with stepReopen(1) show ?case
    by (auto elim!: reopenIdentity_move intro: identityGrows_trans move_grows emits_grows)
next
  case (stepSync db h account)
  show ?case
    by (auto simp: syncTargets_def intro!: grows_same_targets[where ds = "[]" and es = "[]"])
qed (simp_all add: retire_grows queue_grows queue_grows')

lemma identitySteps_grow:
  "identityStep\<^sup>*\<^sup>* s s' \<Longrightarrow> identityInv (hd s) \<Longrightarrow> identityInv (hd s') \<and> identityGrows (hd s) (hd s')"
proof (induction rule: rtranclp_induct)
  case (step s' s'')
  then show ?case
    using identityInv_step identityStep_grows identityGrows_trans by (meson identityInv_def)
qed simp

lemma step_nonempty: "identityStep\<^sup>*\<^sup>* s s' \<Longrightarrow> s \<noteq> [] \<Longrightarrow> s' \<noteq> []"
  by (induction rule: rtranclp_induct) (auto elim: identityStep.cases)

section \<open>Properties\<close>

lemma activeConfirmed_Some:
  "activeConfirmed db v = Some m \<Longrightarrow> m \<in> set (imRows db) \<and> liveConfirmed m \<and> mpVariantID m = v"
  by (auto simp: activeConfirmed_def find_Some_iff)

text \<open>
  C12. Identity quarantine: in every reachable state, whatever earlier states the statements of concurrent
  decisions saw, a variant has at most one live confirmed mapping and the executable lookup returns
  exactly that one, whose latest decision is a confirmation; every mapping has as many audit rows as its
  version says and the last one names its state; and no later step changes or removes an audit row or an
  invalidation event.
\<close>

theorem identity_quarantine:
  assumes "identityReachable (db # h)" "identityStep\<^sup>*\<^sup>* (db # h) (db' # h')"
  shows "(\<forall>v m. activeConfirmed db v = Some m \<longleftrightarrow> m \<in> set (imRows db) \<and> mpVariantID m = v \<and> liveConfirmed m)
    \<and> (\<forall>m \<in> set (imRows db).
         int (length (identityDecisions db (mpID m))) = mpVersion m
         \<and> dnToState (last (identityDecisions db (mpID m))) = mappingText (mpState m)
         \<and> (liveConfirmed m \<longleftrightarrow> dnDecision (last (identityDecisions db (mpID m))) = DecConfirmed))
    \<and> (\<exists>ds es. imDecisions db' = imDecisions db @ ds \<and> imEvents db' = imEvents db @ es)"
proof -
  have inv: "identityInv db" using identityInv_reachable[OF assms(1)] by simp
  then have rows: "rowsInv db" by (simp add: identityInv_def)
  have one: "activeConfirmed db (mpVariantID m) = Some m"
    if live: "m \<in> set (imRows db)" "liveConfirmed m" for m
  proof -
    obtain n where n: "activeConfirmed db (mpVariantID m) = Some n"
      using live by (cases "activeConfirmed db (mpVariantID m)") (auto simp: activeConfirmed_def find_None_iff)
    then have "n = m" using activeConfirmed_Some[OF n] live rows unfolding rowsInv_def by blast
    then show ?thesis using n by simp
  qed
  have "activeConfirmed db v = Some m \<longleftrightarrow> m \<in> set (imRows db) \<and> mpVariantID m = v \<and> liveConfirmed m" for v m
    using one activeConfirmed_Some by blast
  moreover have "int (length (identityDecisions db (mpID m))) = mpVersion m
      \<and> dnToState (last (identityDecisions db (mpID m))) = mappingText (mpState m)
      \<and> (liveConfirmed m \<longleftrightarrow> dnDecision (last (identityDecisions db (mpID m))) = DecConfirmed)"
    if "m \<in> set (imRows db)" for m
    using that rows by (auto simp: rowsInv_def shapeOk_def liveConfirmed_def auditOf_def Let_def)
  moreover have "\<exists>ds es. imDecisions db' = imDecisions db @ ds \<and> imEvents db' = imEvents db @ es"
    using identitySteps_grow[OF assms(2)] inv by (auto simp: identityGrows_def)
  ultimately show ?thesis by blast
qed

text \<open>
  Further. Reopening is all or nothing, and its effect is not lost: a reopen that commits takes the mapping out
  of the executable state, adds its audit row, exactly one event and the job for it; and in every
  reachable state an active observation target belongs to a live confirmed mapping or its mapping has a
  queued or discarded reopen job, so once every job has been finished by a worker no target observes an
  unconfirmed mapping.
\<close>

theorem reopen_committed_once:
  assumes "identityReachable (db # h)" "loaded \<in> set (db # h)"
    "reopenIdentity env loaded db i reason actor = Inr (db', e, s)"
  shows "\<not> liveMapping db' i \<and> e \<in> set (imIntents db') \<and> imEvents db' = imEvents db @ [e]
    \<and> length (imDecisions db') = Suc (length (imDecisions db))
    \<and> dnDecision (last (identityDecisions db' i)) = DecReopened
    \<and> (\<forall>j. length (eventsOf db' j) = reopensOf db' j)
    \<and> (\<forall>t \<in> set (imTargets db'). tgActive t \<longrightarrow>
         liveMapping db' (tgIdentityID t) \<or> retiring db' (tgIdentityID t))"
proof -
  have inv: "identityInv db" using identityInv_reachable[OF assms(1)] by simp
  have inv': "identityInv db'"
    using identityInv_step[OF stepReopen[OF assms(3,2)]] inv by simp
  from assms(3) inv obtain m d db1 where m: "mappingMove db m (reopenRow (reopenTarget reason) m) d db1"
    "mpID m = i" "dnDecision d = DecReopened" "emits db1 e db'" "ieIdentityID e = i"
    unfolding identityInv_def by (elim conjE reopenIdentity_move)
  have new: "\<not> liveConfirmed (reopenRow (reopenTarget reason) m)" by (simp add: reopenRow_def liveConfirmed_def)
  have "\<not> liveMapping db' i"
    using new moved_tables(6)[OF m(1)] m(2) by (auto simp: liveMapping_def emits_tables[OF m(4)])
  moreover have "imEvents db' = imEvents db @ [e]"
    using emits_tables(5)[OF m(4)] moved_tables(1)[OF m(1)] by simp
  moreover have "e \<in> set (imIntents db')"
  proof -
    have "set (imIntents db) \<subseteq> set (imEvents db)" using inv by (simp add: identityInv_def eventsInv_def)
    then have "ieDedupKey e \<notin> ieDedupKey ` set (imIntents db1)"
      using emits_tables(6)[OF m(4)] unfolding moved_tables(1,2)[OF m(1)] by blast
    then have "\<not> list_ex (\<lambda>x. ieDedupKey x = ieDedupKey e) (imIntents db1)"
      unfolding list_ex_iff image_iff by metis
    then show ?thesis using emits_tables(7)[OF m(4)] by simp
  qed
  moreover have "imDecisions db' = imDecisions db @ [d]"
    using emits_tables(4)[OF m(4)] m(1) by (simp add: mappingMove_def)
  moreover have "identityDecisions db' i = identityDecisions db i @ [d]"
    using moved_tables(5)[OF m(1), of i] m(2) emits_tables(4)[OF m(4)] by (simp add: identityDecisions_def)
  ultimately show ?thesis
    using inv' m(3) by (simp add: identityInv_def eventsInv_def targetsInv_def)
qed

text \<open>
  Further. A retired target never comes back: once the target of a mapping is inactive it is inactive in every
  later state and the mapping gets no other one, although the same mapping can be confirmed again; the
  synchronisation skips every mapping that already has a target.
\<close>

theorem retired_target_is_final:
  assumes "identityReachable (db # h)" "identityStep\<^sup>*\<^sup>* (db # h) (db' # h')"
    "t \<in> set (imTargets db)" "\<not> tgActive t" "u \<in> set (imTargets db')" "tgIdentityID u = tgIdentityID t"
  shows "\<not> tgActive u \<and> u \<notin> set (activeTargets (fst (syncTargets db' account)) account)"
proof -
  have inv: "identityInv db'" "identityGrows db db'"
    using identitySteps_grow[OF assms(2)] identityInv_reachable[OF assms(1)] by simp_all
  then obtain v where v: "v \<in> set (imTargets db')" "tgIdentityID v = tgIdentityID t" "\<not> tgActive v"
    using assms(3,4) by (auto simp: identityGrows_def)
  have "distinct (map tgIdentityID (imTargets db'))" using inv(1) by (simp add: identityInv_def targetsInv_def)
  then have "inj_on tgIdentityID (set (imTargets db'))" by (simp add: distinct_map)
  then have "u = v" using v assms(5,6) by (metis inj_onD)
  then show ?thesis using v(3) by (simp add: activeTargets_def)
qed

end
