(* ===== verification/IdentityReopen.thy ===== *)
theory IdentityReopen
  imports IdentityLife RecommendationLife
begin

text \<open>
  A reopen and its consumers together: the worker of the reopen job (jobs/mapping_reopened.go, wired in
  cmd/core/main.go) first expires the dependent controls of the recommendation component and then retires
  the observation target.  A concrete history at the end applies the properties of the identity theories.
\<close>

section \<open>The worker\<close>

definition reopenWork ::
  "rec_db \<Rightarrow> identity_db \<Rightarrow> invalidation_event \<Rightarrow> rec_db \<times> identity_db \<times> rec_error option" where
  "reopenWork rec db e =
     (case mappingReopened rec (ieVariantID e) (reopenText (ieReason e)) of
        (rec', Some err) \<Rightarrow> (rec', db, Some err)
      | (rec', None) \<Rightarrow> (rec', retireTargets db (ieIdentityID e), None))"

lemma expireLoop_skips:
  "\<forall>c \<in> set cs. \<not> bearsControl (crState c) \<Longrightarrow> expireLoop db cs reason n = (db, n, None)"
  by (induction cs) (simp_all add: invalidateDependent_skips)

lemma expire_nothing:
  assumes "tablesOk db" "\<forall>j c. getCard db j = Some c \<longrightarrow> \<not> dependentCard db variant c"
  shows "expireDependentForVariant db variant reason = (db, 0, None)"
proof -
  have "\<not> bearsControl (crState c)" if c: "c \<in> set (liveCardsForVariant db variant)" for c
  proof -
    have "getCard db (crID c) = Some c" "map_option rmVariantID (getRecommendation db (crRecommendationID c)) = Some variant"
      using c rowsOk_set_cards assms(1) by (auto simp: liveCardsForVariant_def tablesOk_def split: option.splits)
    then show ?thesis using assms(2) by (auto simp: dependentCard_def)
  qed
  then show ?thesis by (simp add: expireDependentForVariant_def expireLoop_skips)
qed

lemma retireTargets_twice [simp]: "retireTargets (retireTargets db i) i = retireTargets db i"
  by (simp add: retireTargets_def)

text \<open>
  C39. A reopened mapping loses every dependent control and its target: whatever happens between the commit
  of the reopen and the job, processing the job succeeds, leaves no card of the variant that awaits
  confirmation, is approved or is revalidating, leaves no active target of the mapping, and processing it
  again changes nothing.
\<close>

theorem reopen_reaches_consumers:
  assumes "identityReachable (db # h)" "loaded \<in> set (db # h)"
    "reopenIdentity env loaded db i reason actor = Inr (db', e, s)"
    "identityStep\<^sup>*\<^sup>* (db' # db # h) (late # hl)" "tablesOk rec"
    "reopenWork rec late e = (rec', late', err)"
  shows "err = None
    \<and> (\<forall>j c. getCard rec' j = Some c \<longrightarrow> \<not> dependentCard rec' (ieVariantID e) c)
    \<and> (\<forall>t \<in> set (imTargets late'). tgIdentityID t = i \<longrightarrow> \<not> tgActive t)
    \<and> e \<in> set (imEvents late')
    \<and> reopenWork rec' late' e = (rec', late', None)"
proof -
  obtain rec1 n err1 where x: "expireDependentForVariant rec (ieVariantID e)
      (''identity_reopen:'' @ reopenText (ieReason e)) = (rec1, n, err1)"
    by (cases "expireDependentForVariant rec (ieVariantID e) (''identity_reopen:'' @ reopenText (ieReason e))")
  note facts = reopen_expires_controls[OF assms(5) x]
  have inv: "identityInv db" using identityInv_reachable[OF assms(1)] by simp
  have e: "ieIdentityID e = i" "e \<in> set (imEvents db')"
    using reopenIdentity_move[OF assms(3)] inv emits_tables(5) by (fastforce simp: identityInv_def)+
  have inv': "identityInv db'" using identityInv_step[OF stepReopen[OF assms(3,2)]] inv by simp
  have "e \<in> set (imEvents late)"
    using identitySteps_grow[OF assms(4)] inv' e(2) by (auto simp: identityGrows_def)
  moreover have w: "rec' = rec1" "late' = retireTargets late i" "err = None"
    using assms(6) facts x e(1) by (auto simp: reopenWork_def mappingReopened_def)
  moreover have "\<not> tgActive t" if "t \<in> set (imTargets late')" "tgIdentityID t = i" for t
    using retire_facts(7)[of t late i] that w(2) by blast
  moreover have "reopenWork rec' late' e = (rec', late', None)"
    using expire_nothing[of rec1 "ieVariantID e"] facts w e(1) by (simp add: reopenWork_def mappingReopened_def)
  ultimately show ?thesis using facts by (simp add: retire_facts)
qed

section \<open>A concrete history\<close>

definition demoCatalog :: identity_env where
  "demoCatalog =
     \<lparr>iyVariants = [\<lparr>vrID = 2, vrAccountID = 1, vrNativeVariantID = 70, vrNativeProductID = 7, vrTitle = [],
                     vrSupplierCode = [], vrProductTitle = []\<rparr>],
      iyNewID = (\<lambda>db. 50 + word_of_nat (length (imRows db) + length (imEvents db))),
      iyUUIDText = (\<lambda>_. ''id''), iyEnqueues = True, iyAccountOfOrg = [9 \<mapsto> 1]\<rparr>"

definition demoMapping :: "mapping_state \<Rightarrow> bool \<Rightarrow> int \<Rightarrow> mapping_row" where
  "demoMapping s a v =
     \<lparr>mpID = 50, mpAccountID = 1, mpVariantID = 2, mpNativeVariantID = 70, mpNativeProductID = 7,
      mpState = s, mpActive = a, mpCandidateSource = ''exact_native_id'', mpVersion = v\<rparr>"

definition demoCreated :: identity_db where
  "demoCreated = fst (projr (generateCandidates demoCatalog noMappings noMappings 1))"

definition demoConfirmed :: identity_db where
  "demoConfirmed = fst (projr (confirmIdentity demoCreated demoCreated demoCreated 50 4))"

definition demoTargeted :: identity_db where
  "demoTargeted = fst (syncTargets demoConfirmed 1)"

definition demoReopened :: "identity_db \<times> invalidation_event \<times> mapping_state" where
  "demoReopened = projr (reopenIdentity demoCatalog demoTargeted demoTargeted 50 ReasonMerge 0)"

definition demoRetired :: identity_db where
  "demoRetired = (retireTargets (fst demoReopened) 50)\<lparr>imIntents := []\<rparr>"

definition demoReconfirmed :: identity_db where
  "demoReconfirmed = fst (projr (confirmIdentity demoRetired demoRetired demoRetired 50 4))"

lemmas identity_ops =
  generateCandidates_def variantsWithoutIdentity_def createCandidate_def insertMapping_def
  insertDecision_def getIdentity_def confirmIdentity_def decideWithReason_def confirmPreflight_def
  updateMapping_def pending_def bumpOk_def liveConfirmed_def confirmRow_def activeConfirmed_def
  reopenIdentity_def reopenValid_def reopenRow_def reopenTarget_def insertInvalidation_def
  dispatchReopen_def Let_def

lemma demo_created: "generateCandidates demoCatalog noMappings noMappings 1 =
    Inr (demoCreated, [demoMapping MapNeedsReview True 1])"
  "imRows demoCreated = [demoMapping MapNeedsReview True 1]" "imTargets demoCreated = []"
  "imEvents demoCreated = []" "imIntents demoCreated = []" "imDropped demoCreated = []"
  by (simp_all add: demoCreated_def identity_ops demoCatalog_def noMappings_def demoMapping_def)

lemma demo_mapping_confirmed: "confirmIdentity demoCreated demoCreated demoCreated 50 4 =
    Inr (demoConfirmed, demoMapping MapConfirmed True 2)"
  "imRows demoConfirmed = [demoMapping MapConfirmed True 2]" "imTargets demoConfirmed = []"
  "imEvents demoConfirmed = []" "imIntents demoConfirmed = []" "imDropped demoConfirmed = []"
  by (simp_all add: demoConfirmed_def demo_created identity_ops) (simp_all add: demoMapping_def)

lemma demo_targeted:
  "imRows demoTargeted = [demoMapping MapConfirmed True 2]"
  "imTargets demoTargeted = [targetFor (demoMapping MapConfirmed True 2)]"
  "imEvents demoTargeted = []" "imIntents demoTargeted = []" "imDropped demoTargeted = []"
  by (simp_all add: demoTargeted_def syncTargets_def newTargets_def demo_mapping_confirmed)
    (simp_all add: demoMapping_def liveConfirmed_def)

definition demoReopenEvent :: invalidation_event where
  "demoReopenEvent =
     \<lparr>ieID = 51, ieAccountID = 1, ieVariantID = 2, ieIdentityID = 50, ieReason = ReasonMerge,
      ieDedupKey = ''id:merge:'' @ formatInt 3\<rparr>"

lemma demo_reopened:
  "reopenIdentity demoCatalog demoTargeted demoTargeted 50 ReasonMerge 0 =
     Inr (fst demoReopened, demoReopenEvent, MapNeedsReview)"
  "imRows (fst demoReopened) = [demoMapping MapNeedsReview False 3]"
  "imTargets (fst demoReopened) = [targetFor (demoMapping MapConfirmed True 2)]"
  "imEvents (fst demoReopened) = [demoReopenEvent]" "imIntents (fst demoReopened) = [demoReopenEvent]"
  "imDropped (fst demoReopened) = []"
proof -
  have "\<exists>db'. reopenIdentity demoCatalog demoTargeted demoTargeted 50 ReasonMerge 0 =
      Inr (db', demoReopenEvent, MapNeedsReview) \<and> imRows db' = [demoMapping MapNeedsReview False 3]
      \<and> imTargets db' = [targetFor (demoMapping MapConfirmed True 2)]
      \<and> imEvents db' = [demoReopenEvent] \<and> imIntents db' = [demoReopenEvent] \<and> imDropped db' = []"
    by (simp add: demo_targeted identity_ops)
      (simp add: demoMapping_def demoCatalog_def demoReopenEvent_def reopenDedupKey_def reopenText_def
        demo_targeted)
  then show "reopenIdentity demoCatalog demoTargeted demoTargeted 50 ReasonMerge 0 =
      Inr (fst demoReopened, demoReopenEvent, MapNeedsReview)"
    "imRows (fst demoReopened) = [demoMapping MapNeedsReview False 3]"
    "imTargets (fst demoReopened) = [targetFor (demoMapping MapConfirmed True 2)]"
    "imEvents (fst demoReopened) = [demoReopenEvent]" "imIntents (fst demoReopened) = [demoReopenEvent]"
    "imDropped (fst demoReopened) = []"
    by (auto simp: demoReopened_def)
qed

lemma demo_retired:
  "imRows demoRetired = [demoMapping MapNeedsReview False 3]"
  "imTargets demoRetired = [(targetFor (demoMapping MapConfirmed True 2))\<lparr>tgActive := False\<rparr>]"
  "imEvents demoRetired = [demoReopenEvent]" "imIntents demoRetired = []" "imDropped demoRetired = []"
  using demo_reopened by (simp_all add: demoRetired_def retireTargets_def) (simp add: demoMapping_def)

lemma demo_reconfirmed:
  "confirmIdentity demoRetired demoRetired demoRetired 50 4 =
     Inr (demoReconfirmed, demoMapping MapConfirmed True 4)"
  "imRows demoReconfirmed = [demoMapping MapConfirmed True 4]"
  "imTargets demoReconfirmed = [(targetFor (demoMapping MapConfirmed True 2))\<lparr>tgActive := False\<rparr>]"
  by (simp_all add: demoReconfirmed_def demo_retired identity_ops) (simp_all add: demoMapping_def)

text \<open>The states of the history, newest first.\<close>

definition demoBeforeReopen :: "identity_db list" where
  "demoBeforeReopen = [demoConfirmed, demoCreated, noMappings]"

definition demoAfterReopen :: "identity_db list" where
  "demoAfterReopen = [fst demoReopened, demoTargeted] @ demoBeforeReopen"

lemma demo_identity_reachable: "identityReachable (demoTargeted # demoBeforeReopen)"
proof -
  have "identityStep [noMappings] [demoCreated, noMappings]"
    by (rule stepCandidates[OF demo_created(1)]) simp
  moreover have "identityStep [demoCreated, noMappings] demoBeforeReopen"
    unfolding demoBeforeReopen_def by (rule stepConfirm[OF demo_mapping_confirmed(1)]) simp
  moreover have "identityStep demoBeforeReopen (demoTargeted # demoBeforeReopen)"
    unfolding demoBeforeReopen_def demoTargeted_def by (rule stepSync)
  ultimately show ?thesis
    unfolding identityReachable_def by (meson r_into_rtranclp rtranclp.rtrancl_into_rtrancl)
qed

lemma demo_after_reopen:
  "identityStep (demoTargeted # demoBeforeReopen) (fst demoReopened # demoTargeted # demoBeforeReopen)"
  by (rule stepReopen[OF demo_reopened(1)]) simp

lemma demo_finish:
  "identityStep (fst demoReopened # demoTargeted # demoBeforeReopen)
     (demoRetired # fst demoReopened # demoTargeted # demoBeforeReopen)"
  using stepFinish[of demoReopenEvent "fst demoReopened" "demoTargeted # demoBeforeReopen"] demo_reopened
  by (simp add: demoRetired_def demoReopenEvent_def)

lemma demo_reconfirm:
  "identityStep (demoRetired # fst demoReopened # demoTargeted # demoBeforeReopen)
     (demoReconfirmed # demoRetired # fst demoReopened # demoTargeted # demoBeforeReopen)"
  by (rule stepConfirm[OF demo_reconfirmed(1)]) simp

lemma demo_retired_reachable:
  "identityReachable (demoRetired # fst demoReopened # demoTargeted # demoBeforeReopen)"
  using demo_identity_reachable demo_after_reopen demo_finish unfolding identityReachable_def
  by (meson rtranclp.rtrancl_into_rtrancl)

lemma identity_quarantine_witness:
  "activeConfirmed demoTargeted 2 = Some (demoMapping MapConfirmed True 2)"
  using identity_quarantine[OF demo_identity_reachable rtranclp.rtrancl_refl]
  by (simp add: demo_targeted) (simp add: demoMapping_def liveConfirmed_def)

lemma reopen_committed_once_witness:
  "\<not> liveMapping (fst demoReopened) 50 \<and> demoReopenEvent \<in> set (imIntents (fst demoReopened))"
  using reopen_committed_once[OF demo_identity_reachable _ demo_reopened(1)] by simp

lemma retired_target_is_final_witness:
  "activeConfirmed demoReconfirmed 2 \<noteq> None \<and>
   (targetFor (demoMapping MapConfirmed True 2))\<lparr>tgActive := False\<rparr>
     \<notin> set (activeTargets (fst (syncTargets demoReconfirmed 1)) 1)"
proof -
  let ?t = "(targetFor (demoMapping MapConfirmed True 2))\<lparr>tgActive := False\<rparr>"
  have "activeConfirmed demoReconfirmed 2 = Some (demoMapping MapConfirmed True 4)"
    by (simp add: activeConfirmed_def demo_reconfirmed) (simp add: demoMapping_def liveConfirmed_def)
  moreover have "?t \<notin> set (activeTargets (fst (syncTargets demoReconfirmed 1)) 1)"
    using retired_target_is_final[OF demo_retired_reachable r_into_rtranclp[where r = identityStep, OF demo_reconfirm], of ?t ?t 1]
    by (simp add: demo_retired demo_reconfirmed)
  ultimately show ?thesis by simp
qed

lemma reopen_reaches_consumers_witness:
  "\<exists>rec' late'. reopenWork demoRec (fst demoReopened) demoReopenEvent = (rec', late', None)
     \<and> (\<forall>t \<in> set (imTargets late'). tgIdentityID t = 50 \<longrightarrow> \<not> tgActive t)"
proof -
  obtain rec' late' err where w: "reopenWork demoRec (fst demoReopened) demoReopenEvent = (rec', late', err)"
    by (cases "reopenWork demoRec (fst demoReopened) demoReopenEvent")
  show ?thesis
    using reopen_reaches_consumers[OF demo_identity_reachable _ demo_reopened(1) rtranclp.rtrancl_refl demo_tablesOk w] w
    by auto
qed

end
