(* ===== verification/Permission.thy ===== *)
theory Permission
  imports GoStd Normalize
begin

text \<open>
  Who may do what (services/core/internal/perm): the roles, the administration ladder, the permission
  matrix and the capability envelope of the machine credential; and the middleware that applies them to
  every request (httpapi/middleware.go), with its table of routes.  Actions, roles and routes are strings
  as in the code, so that an unknown one is a value and is denied.
\<close>

section \<open>Roles and the ladder (perm.go)\<close>

type_synonym role = string
type_synonym perm_action = string

abbreviation roleOwner :: role where "roleOwner \<equiv> ''owner''"
abbreviation roleOperator :: role where "roleOperator \<equiv> ''operator''"
abbreviation roleInternal :: role where "roleInternal \<equiv> ''internal''"

definition roleValid :: "role \<Rightarrow> bool" where
  "roleValid r \<longleftrightarrow> r = roleOwner \<or> r = roleOperator \<or> r = roleInternal"

datatype admin_level =
  LevelOperational | L1Read | L2ReversibleConfig | L3CommercialGuardrail | L4MarketplaceMutation
| LevelOther int

definition levelBaseline :: "admin_level \<Rightarrow> role list" where
  "levelBaseline l =
     (case l of
        L1Read \<Rightarrow> [roleOwner, roleOperator, roleInternal]
      | L2ReversibleConfig \<Rightarrow> [roleOwner, roleOperator]
      | L3CommercialGuardrail \<Rightarrow> [roleOwner]
      | L4MarketplaceMutation \<Rightarrow> [roleOwner, roleOperator]
      | _ \<Rightarrow> [])"

definition levelAdmits :: "role \<Rightarrow> admin_level \<Rightarrow> bool" where
  "levelAdmits r l = List.member (levelBaseline l) r"

record rule =
  rlAction :: perm_action
  rlLevel :: admin_level
  rlAllow :: "role list"

definition matrix :: "rule list" where
  "matrix = [
     \<lparr>rlAction = ''connector.inspect'', rlLevel = L1Read, rlAllow = [roleOwner, roleOperator, roleInternal]\<rparr>,
     \<lparr>rlAction = ''read.connection_status'', rlLevel = L1Read, rlAllow = [roleOwner, roleOperator, roleInternal]\<rparr>,
     \<lparr>rlAction = ''read.cost_readiness'', rlLevel = L1Read, rlAllow = [roleOwner, roleOperator, roleInternal]\<rparr>,
     \<lparr>rlAction = ''read.current_strategy'', rlLevel = L1Read, rlAllow = [roleOwner, roleOperator, roleInternal]\<rparr>,
     \<lparr>rlAction = ''session.read'', rlLevel = L1Read, rlAllow = [roleOwner, roleOperator, roleInternal]\<rparr>,
     \<lparr>rlAction = ''session.logout'', rlLevel = L1Read, rlAllow = [roleOwner, roleOperator, roleInternal]\<rparr>,
     \<lparr>rlAction = ''chat.converse'', rlLevel = L1Read, rlAllow = [roleOwner, roleOperator, roleInternal]\<rparr>,
     \<lparr>rlAction = ''read.needs_review'', rlLevel = L1Read, rlAllow = [roleOwner, roleOperator, roleInternal]\<rparr>,
     \<lparr>rlAction = ''read.observations'', rlLevel = L1Read, rlAllow = [roleOwner, roleOperator, roleInternal]\<rparr>,
     \<lparr>rlAction = ''policy.simulate'', rlLevel = L1Read, rlAllow = [roleOwner, roleOperator, roleInternal]\<rparr>,
     \<lparr>rlAction = ''read.events'', rlLevel = L1Read, rlAllow = [roleOwner, roleOperator, roleInternal]\<rparr>,
     \<lparr>rlAction = ''read.approvals'', rlLevel = L1Read, rlAllow = [roleOwner, roleOperator, roleInternal]\<rparr>,
     \<lparr>rlAction = ''read.notifications'', rlLevel = L1Read, rlAllow = [roleOwner, roleOperator, roleInternal]\<rparr>,
     \<lparr>rlAction = ''notification.ack'', rlLevel = L1Read, rlAllow = [roleOwner, roleOperator, roleInternal]\<rparr>,
     \<lparr>rlAction = ''read.recommendation_detail'', rlLevel = L1Read, rlAllow = [roleOwner, roleOperator, roleInternal]\<rparr>,
     \<lparr>rlAction = ''read.guardrails'', rlLevel = L1Read, rlAllow = [roleOwner, roleOperator, roleInternal]\<rparr>,
     \<lparr>rlAction = ''read.users'', rlLevel = L1Read, rlAllow = [roleOwner, roleOperator, roleInternal]\<rparr>,
     \<lparr>rlAction = ''read.watchlist'', rlLevel = L1Read, rlAllow = [roleOwner, roleOperator, roleInternal]\<rparr>,
     \<lparr>rlAction = ''connector.connect'', rlLevel = L2ReversibleConfig, rlAllow = [roleOwner]\<rparr>,
     \<lparr>rlAction = ''connector.refresh'', rlLevel = L2ReversibleConfig, rlAllow = [roleOwner]\<rparr>,
     \<lparr>rlAction = ''connector.disconnect'', rlLevel = L2ReversibleConfig, rlAllow = [roleOwner]\<rparr>,
     \<lparr>rlAction = ''connector.sync'', rlLevel = L2ReversibleConfig, rlAllow = [roleOwner, roleOperator]\<rparr>,
     \<lparr>rlAction = ''config.notification_time'', rlLevel = L2ReversibleConfig, rlAllow = [roleOwner, roleOperator]\<rparr>,
     \<lparr>rlAction = ''config.watchlist'', rlLevel = L2ReversibleConfig, rlAllow = [roleOwner, roleOperator]\<rparr>,
     \<lparr>rlAction = ''config.monitoring_tier'', rlLevel = L2ReversibleConfig, rlAllow = [roleOwner, roleOperator]\<rparr>,
     \<lparr>rlAction = ''config.single_cost_value'', rlLevel = L2ReversibleConfig, rlAllow = [roleOwner, roleOperator]\<rparr>,
     \<lparr>rlAction = ''cost.import'', rlLevel = L2ReversibleConfig, rlAllow = [roleOwner, roleOperator]\<rparr>,
     \<lparr>rlAction = ''identity.resolve'', rlLevel = L2ReversibleConfig, rlAllow = [roleOwner, roleOperator]\<rparr>,
     \<lparr>rlAction = ''event.relevance_feedback'', rlLevel = L2ReversibleConfig, rlAllow = [roleOwner, roleOperator]\<rparr>,
     \<lparr>rlAction = ''price.edit'', rlLevel = L2ReversibleConfig, rlAllow = [roleOwner, roleOperator]\<rparr>,
     \<lparr>rlAction = ''selection.bulk_preview'', rlLevel = L2ReversibleConfig, rlAllow = [roleOwner, roleOperator]\<rparr>,
     \<lparr>rlAction = ''observation.upload_capture'', rlLevel = L2ReversibleConfig, rlAllow = [roleOwner, roleOperator]\<rparr>,
     \<lparr>rlAction = ''extension.pair'', rlLevel = L2ReversibleConfig, rlAllow = [roleOwner, roleOperator]\<rparr>,
     \<lparr>rlAction = ''guardrail.contribution_floor'', rlLevel = L3CommercialGuardrail, rlAllow = [roleOwner]\<rparr>,
     \<lparr>rlAction = ''guardrail.movement_cap'', rlLevel = L3CommercialGuardrail, rlAllow = [roleOwner]\<rparr>,
     \<lparr>rlAction = ''guardrail.cooldown'', rlLevel = L3CommercialGuardrail, rlAllow = [roleOwner]\<rparr>,
     \<lparr>rlAction = ''guardrail.strategy_enablement'', rlLevel = L3CommercialGuardrail, rlAllow = [roleOwner]\<rparr>,
     \<lparr>rlAction = ''guardrail.approval_permission'', rlLevel = L3CommercialGuardrail, rlAllow = [roleOwner]\<rparr>,
     \<lparr>rlAction = ''guardrail.manage_users'', rlLevel = L3CommercialGuardrail, rlAllow = [roleOwner]\<rparr>,
     \<lparr>rlAction = ''guardrail.write'', rlLevel = L3CommercialGuardrail, rlAllow = [roleOwner]\<rparr>,
     \<lparr>rlAction = ''price.approve'', rlLevel = L4MarketplaceMutation, rlAllow = [roleOwner, roleOperator]\<rparr>,
     \<lparr>rlAction = ''price.execute'', rlLevel = L4MarketplaceMutation, rlAllow = [roleOwner, roleOperator]\<rparr>,
     \<lparr>rlAction = ''ops.read_state'', rlLevel = LevelOperational, rlAllow = [roleOwner, roleInternal]\<rparr>,
     \<lparr>rlAction = ''ops.manage_recovery_queue'', rlLevel = LevelOperational, rlAllow = [roleOwner, roleInternal]\<rparr>,
     \<lparr>rlAction = ''ops.read_queues'', rlLevel = LevelOperational, rlAllow = [roleOwner, roleInternal]\<rparr>]"

text \<open>The index over the matrix; a duplicate row would stop the program at start.\<close>

definition ruleOf :: "perm_action \<Rightarrow> rule option" where
  "ruleOf a = find (\<lambda>r. rlAction r = a) matrix"

definition can :: "role \<Rightarrow> perm_action \<Rightarrow> bool" where
  "can r a =
     (if \<not> roleValid r then False
      else (case ruleOf a of None \<Rightarrow> False | Some rl \<Rightarrow> List.member (rlAllow rl) r))"

definition levelOf :: "perm_action \<Rightarrow> admin_level \<times> bool" where
  "levelOf a = (case ruleOf a of None \<Rightarrow> (LevelOperational, False) | Some rl \<Rightarrow> (rlLevel rl, True))"

definition actions :: "perm_action list" where
  "actions = map rlAction matrix"

section \<open>The machine credential (gateway.go)\<close>

definition draftActions :: "perm_action list" where
  "draftActions = [''draft.recommendation'', ''draft.level2_proposal'', ''draft.selection_set'']"

definition isDraftAction :: "perm_action \<Rightarrow> bool" where
  "isDraftAction a = List.member draftActions a"

definition readActions :: "perm_action list" where
  "readActions = map rlAction (filter (\<lambda>r. rlLevel r = L1Read) matrix)"

definition gatewayReadToolActions :: "perm_action list" where
  "gatewayReadToolActions =
     [''connector.inspect'', ''read.connection_status'', ''read.cost_readiness'', ''read.current_strategy'']"

text \<open>The checks at start: no duplicate action, and only L1 reads in the tool list.\<close>

definition permStarts :: bool where
  "permStarts \<longleftrightarrow> distinct (map rlAction matrix) \<and>
     list_all (\<lambda>a. levelOf a = (L1Read, True)) gatewayReadToolActions"

definition gatewayGrantedActions :: "perm_action list" where
  "gatewayGrantedActions = gatewayReadToolActions @ draftActions"

definition gatewayCan :: "perm_action \<Rightarrow> bool" where
  "gatewayCan a = List.member gatewayGrantedActions a"

section \<open>Routes (httpapi/middleware.go)\<close>

datatype route_kind =
  KindPublic | KindProtected | KindSessionOptional | KindGatewayDraft | KindCapture | KindCaptureRead

record route_policy =
  rpMethod :: string
  rpPath :: string
  rpKind :: route_kind
  rpAction :: perm_action

abbreviation route :: "string \<Rightarrow> string \<Rightarrow> route_kind \<Rightarrow> perm_action \<Rightarrow> route_policy" where
  "route m p k a \<equiv> \<lparr>rpMethod = m, rpPath = p, rpKind = k, rpAction = a\<rparr>"

definition routePolicies :: "route_policy list" where
  "routePolicies = [
     route ''GET'' ''/healthz'' KindPublic '''',
     route ''POST'' ''/auth/login'' KindPublic '''',
     route ''GET'' ''/auth/me'' KindProtected ''session.read'',
     route ''POST'' ''/auth/logout'' KindSessionOptional '''',
     route ''POST'' ''/connector/connect'' KindProtected ''connector.connect'',
     route ''POST'' ''/connector/refresh'' KindProtected ''connector.refresh'',
     route ''POST'' ''/connector/disconnect'' KindProtected ''connector.disconnect'',
     route ''POST'' ''/connector/catalog/sync'' KindProtected ''connector.sync'',
     route ''GET'' ''/connector/status'' KindProtected ''connector.inspect'',
     route ''POST'' ''/chat'' KindProtected ''chat.converse'',
     route ''GET'' ''/identity/needs-review'' KindProtected ''read.needs_review'',
     route ''POST'' ''/identity/confirm'' KindProtected ''identity.resolve'',
     route ''POST'' ''/identity/reject'' KindProtected ''identity.resolve'',
     route ''POST'' ''/identity/defer'' KindProtected ''identity.resolve'',
     route ''GET'' ''/catalog/products'' KindProtected ''read.observations'',
     route ''GET'' ''/catalog/product'' KindProtected ''read.observations'',
     route ''GET'' ''/catalog/product-diagnostics'' KindProtected ''read.observations'',
     route ''GET'' ''/observation/targets'' KindProtected ''read.observations'',
     route ''GET'' ''/observation/observed-offers'' KindProtected ''read.observations'',
     route ''GET'' ''/observation/observations'' KindProtected ''read.observations'',
     route ''POST'' ''/observation/capture'' KindCapture ''observation.upload_capture'',
     route ''GET'' ''/ext/owned-targets'' KindCaptureRead '''',
     route ''POST'' ''/ext/pairing/code'' KindProtected ''extension.pair'',
     route ''POST'' ''/ext/pairing/claim'' KindPublic '''',
     route ''POST'' ''/ext/pairing/revoke'' KindProtected ''extension.pair'',
     route ''POST'' ''/cost/import/preview'' KindProtected ''cost.import'',
     route ''GET'' ''/cost/import'' KindProtected ''cost.import'',
     route ''POST'' ''/cost/import/commit'' KindProtected ''cost.import'',
     route ''POST'' ''/cost/value'' KindProtected ''config.single_cost_value'',
     route ''GET'' ''/cost/profiles'' KindProtected ''read.cost_readiness'',
     route ''GET'' ''/cost/readiness'' KindProtected ''read.cost_readiness'',
     route ''POST'' ''/policy/simulate'' KindProtected ''policy.simulate'',
     route ''GET'' ''/events'' KindProtected ''read.events'',
     route ''GET'' ''/event'' KindProtected ''read.events'',
     route ''GET'' ''/today'' KindProtected ''read.events'',
     route ''POST'' ''/events/relevance'' KindProtected ''event.relevance_feedback'',
     route ''GET'' ''/approvals/card'' KindProtected ''read.approvals'',
     route ''POST'' ''/approvals/confirm'' KindProtected ''price.approve'',
     route ''POST'' ''/approvals/bulk/confirm'' KindProtected ''price.approve'',
     route ''POST'' ''/actions/execute'' KindProtected ''price.execute'',
     route ''POST'' ''/actions/retry'' KindProtected ''price.execute'',
     route ''GET'' ''/actions/execution'' KindProtected ''read.approvals'',
     route ''GET'' ''/outcomes'' KindProtected ''read.approvals'',
     route ''POST'' ''/chat/cards/recommendation-draft'' KindGatewayDraft ''draft.recommendation'',
     route ''POST'' ''/chat/cards/selection-set-draft'' KindGatewayDraft ''draft.selection_set'',
     route ''POST'' ''/chat/cards/level2-proposal'' KindGatewayDraft ''draft.level2_proposal'',
     route ''GET'' ''/briefing'' KindProtected ''read.events'',
     route ''GET'' ''/briefing/latest'' KindProtected ''read.events'',
     route ''GET'' ''/notifications'' KindProtected ''read.notifications'',
     route ''POST'' ''/notifications/ack'' KindProtected ''notification.ack'',
     route ''GET'' ''/recommendations/detail'' KindProtected ''read.recommendation_detail'',
     route ''POST'' ''/approvals/card/edit-price'' KindProtected ''price.edit'',
     route ''POST'' ''/selection-sets/preview'' KindProtected ''selection.bulk_preview'',
     route ''GET'' ''/actions'' KindProtected ''read.approvals'',
     route ''GET'' ''/outcomes/list'' KindProtected ''read.approvals'',
     route ''GET'' ''/guardrails'' KindProtected ''read.guardrails'',
     route ''POST'' ''/guardrails'' KindProtected ''guardrail.write'',
     route ''GET'' ''/users'' KindProtected ''read.users'',
     route ''GET'' ''/ops/queues'' KindProtected ''ops.read_queues'',
     route ''GET'' ''/market/conflicts'' KindProtected ''read.observations'',
     route ''GET'' ''/watchlist'' KindProtected ''read.watchlist'',
     route ''POST'' ''/watchlist'' KindProtected ''config.watchlist'']"

definition lookupPolicy :: "string \<Rightarrow> string \<Rightarrow> route_policy option" where
  "lookupPolicy m p = find (\<lambda>r. rpMethod r = m \<and> rpPath r = p) routePolicies"

section \<open>The middleware\<close>

record auth_principal =
  apUserID :: uuid
  apOrganizationID :: uuid
  apEmail :: "rune list"
  apRole :: role
  apExpiresAt :: instant

definition machinePrincipal :: auth_principal where
  "machinePrincipal =
     \<lparr>apUserID = 0, apOrganizationID = 0, apEmail = runes ''llm-gateway'', apRole = ''machine'',
      apExpiresAt = - 62135596800000000000\<rparr>"

datatype auth_error = ErrInvalidCredentials | ErrNoSession | AuthDbErr | AuthEntropyErr | AuthEmptyPassword

record capture_scope =
  csCredentialID :: uuid
  csMarketplaceAccountID :: uuid

text \<open>
  The session service, the configured machine token and the pairing service, which may be unset and
  answers a scope or nothing.
\<close>

record auth_middleware =
  amResolve :: "rune list \<Rightarrow> (auth_error, auth_principal) result"
  amGatewayToken :: "rune list"
  amPairing :: "(rune list \<Rightarrow> capture_scope option) option"

text \<open>A request: method, path, the Authorization header (empty when absent), the session cookie.\<close>

record http_request =
  hrMethod :: string
  hrPath :: string
  hrAuthorization :: "rune list"
  hrCookie :: "rune list option"

text \<open>What the handler finds in its context, or the status of the refusal.\<close>

record request_context =
  rxPrincipal :: "auth_principal option"
  rxToken :: "rune list option"
  rxCaptureAccount :: "uuid option"

datatype verdict_http = Serve request_context | Refuse int

definition emptyContext :: request_context where
  "emptyContext = \<lparr>rxPrincipal = None, rxToken = None, rxCaptureAccount = None\<rparr>"

definition orgFromCtx :: "request_context \<Rightarrow> uuid" where
  "orgFromCtx cx = (case rxPrincipal cx of None \<Rightarrow> 0 | Some p \<Rightarrow> apOrganizationID p)"

definition lowerRune :: "rune \<Rightarrow> rune" where
  "lowerRune r = (if 0x41 \<le> r \<and> r \<le> 0x5A then r + 0x20 else r)"

text \<open>
  The scheme is seven ASCII bytes, none of which a non-ASCII letter folds to, so folding ASCII letters
  is \<open>EqualFold\<close> here.
\<close>

definition bearerToken :: "http_request \<Rightarrow> rune list" where
  "bearerToken rq =
     (let h = hrAuthorization rq in
      if length h \<le> 7 \<or> map lowerRune (take 7 h) \<noteq> map lowerRune (runes ''Bearer '') then []
      else trimSpace (drop 7 h))"

definition sessionToken :: "http_request \<Rightarrow> rune list" where
  "sessionToken rq = (case hrCookie rq of None \<Rightarrow> [] | Some v \<Rightarrow> v)"

definition gatewayAuthenticated :: "auth_middleware \<Rightarrow> http_request \<Rightarrow> bool" where
  "gatewayAuthenticated m rq =
     (if amGatewayToken m = [] then False
      else let bt = bearerToken rq in if bt = [] then False else bt = amGatewayToken m)"

definition denyUnlisted :: "auth_middleware \<Rightarrow> http_request \<Rightarrow> verdict_http" where
  "denyUnlisted m rq =
     (case amResolve m (sessionToken rq) of
        Inr _ \<Rightarrow> Refuse 403
      | Inl ErrNoSession \<Rightarrow> Refuse 401
      | Inl _ \<Rightarrow> Refuse 500)"

definition humanContext :: "auth_principal \<Rightarrow> rune list \<Rightarrow> request_context" where
  "humanContext p token = emptyContext\<lparr>rxPrincipal := Some p, rxToken := Some token\<rparr>"

definition captureContext :: "capture_scope \<Rightarrow> request_context" where
  "captureContext s = emptyContext\<lparr>rxCaptureAccount := Some (csMarketplaceAccountID s)\<rparr>"

definition machineContext :: request_context where
  "machineContext = emptyContext\<lparr>rxPrincipal := Some machinePrincipal\<rparr>"

definition serveHuman :: "auth_middleware \<Rightarrow> http_request \<Rightarrow> perm_action \<Rightarrow> verdict_http \<Rightarrow> verdict_http" where
  "serveHuman m rq a otherwise =
     (case amResolve m (sessionToken rq) of
        Inl ErrNoSession \<Rightarrow> otherwise
      | Inl _ \<Rightarrow> Refuse 500
      | Inr p \<Rightarrow> if \<not> can (apRole p) a then Refuse 403 else Serve (humanContext p (sessionToken rq)))"

definition wrapRequest :: "auth_middleware \<Rightarrow> http_request \<Rightarrow> verdict_http" where
  "wrapRequest m rq =
     (case lookupPolicy (hrMethod rq) (hrPath rq) of
        None \<Rightarrow> denyUnlisted m rq
      | Some pol \<Rightarrow>
          (case rpKind pol of
             KindPublic \<Rightarrow> Serve emptyContext
           | KindSessionOptional \<Rightarrow>
               Serve (if sessionToken rq \<noteq> [] then emptyContext\<lparr>rxToken := Some (sessionToken rq)\<rparr>
                      else emptyContext)
           | KindGatewayDraft \<Rightarrow>
               if \<not> gatewayAuthenticated m rq then Refuse 401
               else if \<not> gatewayCan (rpAction pol) then Refuse 403
               else Serve machineContext
           | KindCapture \<Rightarrow>
               if bearerToken rq \<noteq> [] then
                 (case amPairing m of
                    None \<Rightarrow> Refuse 401
                  | Some resolve \<Rightarrow>
                      (case resolve (bearerToken rq) of
                         None \<Rightarrow> Refuse 401 | Some s \<Rightarrow> Serve (captureContext s)))
               else serveHuman m rq (rpAction pol) (Refuse 401)
           | KindCaptureRead \<Rightarrow>
               if bearerToken rq = [] then Refuse 401
               else (case amPairing m of
                       None \<Rightarrow> Refuse 401
                     | Some resolve \<Rightarrow>
                         (case resolve (bearerToken rq) of
                            None \<Rightarrow> Refuse 401 | Some s \<Rightarrow> Serve (captureContext s)))
           | KindProtected \<Rightarrow>
               serveHuman m rq (rpAction pol)
                 (if gatewayAuthenticated m rq
                  then if \<not> gatewayCan (rpAction pol) then Refuse 403 else Serve machineContext
                  else Refuse 401)))"

section \<open>Facts about the tables\<close>

lemma perm_starts: permStarts
  by (simp add: permStarts_def matrix_def levelOf_def ruleOf_def gatewayReadToolActions_def)

lemma matrix_rows:
  "\<forall>r \<in> set matrix. rlLevel r \<noteq> LevelOperational \<longrightarrow> set (rlAllow r) \<subseteq> set (levelBaseline (rlLevel r))"
  "\<forall>r \<in> set matrix. rlLevel r = LevelOperational \<longrightarrow> set (rlAllow r) = {roleOwner, roleInternal}"
  "\<forall>r \<in> set matrix. rlLevel r \<in> {LevelOperational, L1Read, L2ReversibleConfig, L3CommercialGuardrail, L4MarketplaceMutation}"
  by (simp_all add: matrix_def levelBaseline_def)

lemma ruleOf_Some: "ruleOf a = Some r \<Longrightarrow> r \<in> set matrix \<and> rlAction r = a"
  by (auto simp: ruleOf_def find_Some_iff)

lemma can_level:
  assumes "can r a"
  shows "roleValid r \<and> (\<exists>rl \<in> set matrix. ruleOf a = Some rl \<and> levelOf a = (rlLevel rl, True)
    \<and> (if rlLevel rl = LevelOperational then r = roleOwner \<or> r = roleInternal else levelAdmits r (rlLevel rl)))"
proof -
  obtain rl where rl: "ruleOf a = Some rl" "r \<in> set (rlAllow rl)" "roleValid r"
    using assms by (auto simp: can_def split: option.splits if_splits)
  then have "rl \<in> set matrix" using ruleOf_Some by blast
  then show ?thesis using rl matrix_rows by (fastforce simp: levelOf_def levelAdmits_def)
qed

lemma serveHuman_Serve:
  "serveHuman m rq a w = Serve cx \<longleftrightarrow>
     amResolve m (sessionToken rq) = Inl ErrNoSession \<and> w = Serve cx \<or>
     (\<exists>p. amResolve m (sessionToken rq) = Inr p \<and> can (apRole p) a \<and> cx = humanContext p (sessionToken rq))"
  by (auto simp: serveHuman_def split: sum.split auth_error.split)

lemma gatewayAuthenticated_iff:
  "gatewayAuthenticated m rq \<longleftrightarrow> amGatewayToken m \<noteq> [] \<and> bearerToken rq = amGatewayToken m"
  by (auto simp: gatewayAuthenticated_def Let_def)

lemma lookupPolicy_Some:
  "lookupPolicy a b = Some pol \<Longrightarrow> pol \<in> set routePolicies \<and> rpMethod pol = a \<and> rpPath pol = b"
  by (auto simp: lookupPolicy_def find_Some_iff)

text \<open>The four ways a listed request is served.\<close>

lemma wrapRequest_Serve:
  assumes "wrapRequest m rq = Serve cx" "lookupPolicy (hrMethod rq) (hrPath rq) = Some pol"
  obtains (human) p where "amResolve m (sessionToken rq) = Inr p" "can (apRole p) (rpAction pol)"
      "cx = humanContext p (sessionToken rq)" "rpKind pol \<in> {KindProtected, KindCapture}"
  | (machine) "gatewayAuthenticated m rq" "gatewayCan (rpAction pol)" "cx = machineContext"
  | (capture) resolve s where "amPairing m = Some resolve" "resolve (bearerToken rq) = Some s" "bearerToken rq \<noteq> []"
      "cx = captureContext s" "rpKind pol \<in> {KindCapture, KindCaptureRead}"
  | (unguarded) "rpKind pol \<in> {KindPublic, KindSessionOptional}" "rxPrincipal cx = None" "rxCaptureAccount cx = None"
  using assms
  by (cases "rpKind pol")
    (auto simp: wrapRequest_def serveHuman_Serve emptyContext_def split: if_splits option.splits)

lemma context_principals [simp]:
  "rxPrincipal (humanContext p t) = Some p" "rxPrincipal machineContext = Some machinePrincipal"
  "rxPrincipal (captureContext s) = None" "rxCaptureAccount (captureContext s) = Some (csMarketplaceAccountID s)"
  by (simp_all add: humanContext_def machineContext_def captureContext_def emptyContext_def)

text \<open>The routes that need no person and no machine: four open ones, and two for a paired extension.\<close>

definition openRoutes :: "(string \<times> string) set" where
  "openRoutes = {(''GET'', ''/healthz''), (''POST'', ''/auth/login''), (''POST'', ''/auth/logout''),
     (''POST'', ''/ext/pairing/claim'')}"

definition captureRoutes :: "(string \<times> string) set" where
  "captureRoutes = {(''POST'', ''/observation/capture''), (''GET'', ''/ext/owned-targets'')}"

lemma route_kinds:
  assumes "lookupPolicy a b = Some pol"
  shows "rpKind pol \<in> {KindPublic, KindSessionOptional} \<Longrightarrow> (a, b) \<in> openRoutes"
    "rpKind pol \<in> {KindCapture, KindCaptureRead} \<Longrightarrow> (a, b) \<in> captureRoutes"
proof -
  have "\<forall>q \<in> set routePolicies. rpKind q \<in> {KindPublic, KindSessionOptional} \<longrightarrow> (rpMethod q, rpPath q) \<in> openRoutes"
    "\<forall>q \<in> set routePolicies. rpKind q \<in> {KindCapture, KindCaptureRead} \<longrightarrow> (rpMethod q, rpPath q) \<in> captureRoutes"
    by (simp_all add: routePolicies_def openRoutes_def captureRoutes_def)
  with lookupPolicy_Some[OF assms]
  show "rpKind pol \<in> {KindPublic, KindSessionOptional} \<Longrightarrow> (a, b) \<in> openRoutes"
    "rpKind pol \<in> {KindCapture, KindCaptureRead} \<Longrightarrow> (a, b) \<in> captureRoutes" by auto
qed

lemma open_served: "(hrMethod rq, hrPath rq) \<in> openRoutes \<Longrightarrow> wrapRequest m rq = Serve cx \<Longrightarrow> rxPrincipal cx = None"
  by (auto simp: openRoutes_def wrapRequest_def lookupPolicy_def routePolicies_def emptyContext_def)

text \<open>
  C16. No request is served on borrowed authority.  If the middleware passes a request on, its method and
  path have a policy, and one of four things holds.  Its context has a person whose live session the
  service resolved and whose role the matrix grants the route's action, within the role's place on the
  ladder.  Or it has the machine credential, presented exactly, on an action of its read and draft
  envelope, which contains no write, guardrail, approval or execution.  Or it has no principal and the
  account of a capture credential that resolved, on one of the two routes of the extension.  Or it has
  neither, and the route is one of exactly four: the health check, login, logout and the pairing claim.
\<close>

theorem request_authority:
  assumes "wrapRequest m rq = Serve cx"
  shows "\<exists>pol. lookupPolicy (hrMethod rq) (hrPath rq) = Some pol \<and>
    (case rxPrincipal cx of
       Some p \<Rightarrow>
         (hrMethod rq, hrPath rq) \<notin> openRoutes \<and>
         (amResolve m (sessionToken rq) = Inr p \<and> can (apRole p) (rpAction pol)
          \<and> (fst (levelOf (rpAction pol)) = LevelOperational \<or> levelAdmits (apRole p) (fst (levelOf (rpAction pol))))
        \<or> p = machinePrincipal \<and> amGatewayToken m \<noteq> [] \<and> bearerToken rq = amGatewayToken m
          \<and> (isDraftAction (rpAction pol) \<or> levelOf (rpAction pol) = (L1Read, True)))
     | None \<Rightarrow>
         (case rxCaptureAccount cx of
            None \<Rightarrow> (hrMethod rq, hrPath rq) \<in> openRoutes
          | Some account \<Rightarrow>
              (hrMethod rq, hrPath rq) \<in> captureRoutes \<and>
              (\<exists>resolve s. amPairing m = Some resolve \<and> bearerToken rq \<noteq> [] \<and> resolve (bearerToken rq) = Some s
                 \<and> account = csMarketplaceAccountID s)))"
proof -
  obtain pol where pol: "lookupPolicy (hrMethod rq) (hrPath rq) = Some pol"
    using assms by (cases "lookupPolicy (hrMethod rq) (hrPath rq)")
      (auto simp: wrapRequest_def denyUnlisted_def split: sum.splits auth_error.splits)
  note kinds = route_kinds[OF pol]
  have guarded: "(hrMethod rq, hrPath rq) \<notin> openRoutes" if "rxPrincipal cx = Some p" for p
    using open_served[OF _ assms] that by auto
  show ?thesis
    using assms pol
  proof (cases rule: wrapRequest_Serve)
    case (human p)
    have "fst (levelOf (rpAction pol)) = LevelOperational \<or> levelAdmits (apRole p) (fst (levelOf (rpAction pol)))"
      using can_level[OF human(2)] by (auto split: if_splits)
    then show ?thesis using human pol guarded[of p] by auto
  next
    case machine
    have "isDraftAction (rpAction pol) \<or> levelOf (rpAction pol) = (L1Read, True)"
      using machine(2) perm_starts
      by (auto simp: gatewayCan_def gatewayGrantedActions_def isDraftAction_def permStarts_def list_all_iff)
    then show ?thesis using machine pol guarded by (auto simp: gatewayAuthenticated_iff)
  next
    case (capture resolve s)
    then show ?thesis using pol kinds(2) by auto
  next
    case unguarded
    then show ?thesis using pol kinds(1) by auto
  qed
qed

text \<open>The routes on which a price or a guardrail changes, and the grants of their actions.\<close>

lemma mutation_routes:
  "lookupPolicy ''POST'' ''/approvals/confirm'' = Some (route ''POST'' ''/approvals/confirm'' KindProtected ''price.approve'')"
  "lookupPolicy ''POST'' ''/approvals/bulk/confirm'' = Some (route ''POST'' ''/approvals/bulk/confirm'' KindProtected ''price.approve'')"
  "lookupPolicy ''POST'' ''/actions/execute'' = Some (route ''POST'' ''/actions/execute'' KindProtected ''price.execute'')"
  "lookupPolicy ''POST'' ''/actions/retry'' = Some (route ''POST'' ''/actions/retry'' KindProtected ''price.execute'')"
  "lookupPolicy ''POST'' ''/guardrails'' = Some (route ''POST'' ''/guardrails'' KindProtected ''guardrail.write'')"
  by (simp_all add: lookupPolicy_def routePolicies_def)

lemma mutation_grants:
  "can r ''price.approve'' \<Longrightarrow> r \<in> {roleOwner, roleOperator}"
  "can r ''price.execute'' \<Longrightarrow> r \<in> {roleOwner, roleOperator}"
  "can r ''guardrail.write'' \<Longrightarrow> r \<in> {roleOwner}"
  "\<not> gatewayCan ''price.approve''" "\<not> gatewayCan ''price.execute''" "\<not> gatewayCan ''guardrail.write''"
  by (simp_all add: can_def ruleOf_def matrix_def gatewayCan_def gatewayGrantedActions_def
      gatewayReadToolActions_def draftActions_def split: if_splits)

lemma protected_by:
  assumes "wrapRequest m rq = Serve cx"
    "lookupPolicy (hrMethod rq) (hrPath rq) = Some (route a b KindProtected act)"
    "\<not> gatewayCan act" "\<And>r. can r act \<Longrightarrow> r \<in> S"
  shows "\<exists>p. amResolve m (sessionToken rq) = Inr p \<and> rxPrincipal cx = Some p \<and> apRole p \<in> S
    \<and> orgFromCtx cx = apOrganizationID p"
  using assms(1,2)
  by (cases rule: wrapRequest_Serve) (use assms(3,4) in \<open>auto simp: orgFromCtx_def\<close>)

text \<open>
  Further. Only people approve and execute: a request to confirm a card, confirm in bulk, execute or retry is
  served only to a person with a live session in the role of owner or operator, a guardrail change only to
  an owner, and the context carries that person's organisation; a machine token or a capture credential
  never gets there.
\<close>

theorem only_people_approve:
  assumes "wrapRequest m rq = Serve cx" "hrMethod rq = ''POST''"
    "hrPath rq \<in> {''/approvals/confirm'', ''/approvals/bulk/confirm'', ''/actions/execute'', ''/actions/retry'', ''/guardrails''}"
  shows "\<exists>p. amResolve m (sessionToken rq) = Inr p \<and> rxPrincipal cx = Some p
    \<and> apRole p \<in> (if hrPath rq = ''/guardrails'' then {roleOwner} else {roleOwner, roleOperator})
    \<and> orgFromCtx cx = apOrganizationID p"
proof -
  have routes: "lookupPolicy (hrMethod rq) p = Some pol" if "lookupPolicy ''POST'' p = Some pol" for p pol
    using that assms(2) by simp
  consider "hrPath rq = ''/approvals/confirm''" | "hrPath rq = ''/approvals/bulk/confirm''"
    | "hrPath rq = ''/actions/execute''" | "hrPath rq = ''/actions/retry''" | "hrPath rq = ''/guardrails''"
    using assms(3) by blast
  then show ?thesis
  proof cases
    case 1
    then show ?thesis
      using protected_by[OF assms(1) _ mutation_grants(4,1)] routes[OF mutation_routes(1)] by simp
  next
    case 2
    then show ?thesis
      using protected_by[OF assms(1) _ mutation_grants(4,1)] routes[OF mutation_routes(2)] by simp
  next
    case 3
    then show ?thesis
      using protected_by[OF assms(1) _ mutation_grants(5,2)] routes[OF mutation_routes(3)] by simp
  next
    case 4
    then show ?thesis
      using protected_by[OF assms(1) _ mutation_grants(5,2)] routes[OF mutation_routes(4)] by simp
  next
    case 5
    then show ?thesis
      using protected_by[OF assms(1) _ mutation_grants(6,3)] routes[OF mutation_routes(5)] by simp
  qed
qed

text \<open>A person asks for a confirmation: the owner's session is the only one the service knows.\<close>

definition demoOwner :: auth_principal where
  "demoOwner =
     \<lparr>apUserID = 7, apOrganizationID = 3, apEmail = runes ''o@x.ir'', apRole = roleOwner, apExpiresAt = 100\<rparr>"

definition demoMiddleware :: auth_middleware where
  "demoMiddleware =
     \<lparr>amResolve = (\<lambda>t. if t = runes ''s'' then Inr demoOwner else Inl ErrNoSession),
      amGatewayToken = runes ''g'', amPairing = None\<rparr>"

definition demoConfirm :: http_request where
  "demoConfirm =
     \<lparr>hrMethod = ''POST'', hrPath = ''/approvals/confirm'', hrAuthorization = runes ''Bearer g'',
      hrCookie = Some (runes ''s'')\<rparr>"

lemma demo_confirm_served:
  "wrapRequest demoMiddleware demoConfirm = Serve (humanContext demoOwner (runes ''s''))"
  by (simp add: wrapRequest_def demoConfirm_def mutation_routes serveHuman_def demoMiddleware_def
      sessionToken_def demoOwner_def can_def roleValid_def ruleOf_def matrix_def)

theorem request_authority_witness:
  "wrapRequest demoMiddleware demoConfirm = Serve (humanContext demoOwner (runes ''s''))
   \<and> (\<exists>pol. lookupPolicy ''POST'' ''/approvals/confirm'' = Some pol \<and> can roleOwner (rpAction pol)
        \<and> amResolve demoMiddleware (runes ''s'') = Inr demoOwner)"
proof -
  have "sessionToken demoConfirm = runes ''s''" by (simp add: sessionToken_def demoConfirm_def)
  then show ?thesis
    using demo_confirm_served request_authority[OF demo_confirm_served]
    by (auto simp: demoConfirm_def demoOwner_def machinePrincipal_def)
qed

end
