(* ===== verification/Access.thy ===== *)
theory Access
  imports Permission
begin

text \<open>
  The authentication plane (services/core/internal/auth/auth.go with db/auth.sql.go and users.sql.go), the
  pairing of the browser extension (pairing/pairing.go with db/pairing.sql.go), the provisioning of an
  owner (cmd/core/bootstrap.go), and the tables they share with their constraints (migrations 0001, 0003,
  0016, 0034).  Every statement outside a transaction reads its own committed state.
\<close>

section \<open>Libraries and tables\<close>

text \<open>
  Argon2id behind the PHC encoding of credential.go (\<open>alHash\<close> takes the salt, \<open>alVerify\<close> may refuse a
  malformed hash), SHA-256 in hex, the case folding of \<open>strings.ToLower\<close> and that of PostgreSQL's
  \<open>lower\<close>.
\<close>

record access_lib =
  alHash :: "rune list \<Rightarrow> rune list \<Rightarrow> rune list"
  alVerify :: "rune list \<Rightarrow> rune list \<Rightarrow> (auth_error, bool) result"
  alSha :: "rune list \<Rightarrow> rune list"
  alToLower :: "rune list \<Rightarrow> rune list"
  alSqlLower :: "rune list \<Rightarrow> rune list"

record user_row =
  usID :: uuid
  usOrganizationID :: uuid
  usEmail :: "rune list"
  usRole :: role

record session_row =
  seTokenHash :: "rune list"
  seUserID :: uuid
  seExpiresAt :: instant

record org_account =
  oaID :: uuid
  oaOrganizationID :: uuid
  oaNativeAccountID :: "rune list"
  oaDisplayName :: "rune list"

record pairing_row =
  paID :: uuid
  paAccountID :: uuid
  paCodeHash :: "rune list option"
  paCodeExpiresAt :: instant
  paCredentialHash :: "rune list option"
  paCredentialExpiresAt :: "instant option"
  paClaimedAt :: "instant option"
  paRevokedAt :: "instant option"

record access_db =
  adOrgs :: "(uuid \<times> rune list) list"
  adUsers :: "user_row list"
  adCreds :: "uuid \<rightharpoonup> rune list"
  adSessions :: "session_row list"
  adAccounts :: "org_account list"
  adPairings :: "pairing_row list"

section \<open>Queries\<close>

text \<open>\<open>email_canonical\<close> trims exactly the characters \<open>TrimSpace\<close> trims (\<open>btrim_is_trimSpace\<close>).\<close>

definition btrimSet :: "rune list" where
  "btrimSet = [0x20, 9, 10, 0x0b, 12, 13, 0x85, 0xa0, 0x1680, 0x2000, 0x2001, 0x2002, 0x2003, 0x2004, 0x2005,
     0x2006, 0x2007, 0x2008, 0x2009, 0x200a, 0x2028, 0x2029, 0x202f, 0x205f, 0x3000]"

definition btrim :: "rune list \<Rightarrow> rune list" where
  "btrim s = rev (dropWhile (List.member btrimSet) (rev (dropWhile (List.member btrimSet) s)))"

definition emailCanonical :: "access_lib \<Rightarrow> rune list \<Rightarrow> rune list" where
  "emailCanonical lib a = alSqlLower lib (btrim a)"

definition normEmail :: "access_lib \<Rightarrow> rune list \<Rightarrow> rune list" where
  "normEmail lib s = alToLower lib (trimSpace s)"

definition getUserByEmail :: "access_lib \<Rightarrow> access_db \<Rightarrow> rune list \<Rightarrow> user_row option" where
  "getUserByEmail lib db a = find (\<lambda>u. emailCanonical lib (usEmail u) = emailCanonical lib a) (adUsers db)"

definition getUser :: "access_db \<Rightarrow> uuid \<Rightarrow> user_row option" where
  "getUser db i = find (\<lambda>u. usID u = i) (adUsers db)"

definition listUsersByOrganization :: "access_db \<Rightarrow> uuid \<Rightarrow> user_row list" where
  "listUsersByOrganization db org = filter (\<lambda>u. usOrganizationID u = org) (adUsers db)"

text \<open>The insert of a user: role check, primary key, unique canonical email, foreign key.\<close>

definition createUser :: "access_lib \<Rightarrow> access_db \<Rightarrow> uuid \<Rightarrow> uuid \<Rightarrow> rune list \<Rightarrow> role \<Rightarrow> (access_db \<times> user_row) option" where
  "createUser lib db i org email r =
     (let u = \<lparr>usID = i, usOrganizationID = org, usEmail = emailCanonical lib email, usRole = r\<rparr> in
      if \<not> roleValid r \<or> org \<notin> fst ` set (adOrgs db)
         \<or> list_ex (\<lambda>v. usID v = i \<or> emailCanonical lib (usEmail v) = emailCanonical lib (usEmail u)) (adUsers db)
      then None
      else Some (db\<lparr>adUsers := adUsers db @ [u]\<rparr>, u))"

definition upsertUserCredential :: "access_db \<Rightarrow> uuid \<Rightarrow> rune list \<Rightarrow> access_db" where
  "upsertUserCredential db i h = db\<lparr>adCreds := (adCreds db)(i \<mapsto> h)\<rparr>"

definition createSession :: "access_db \<Rightarrow> session_row \<Rightarrow> access_db option" where
  "createSession db s =
     (if list_ex (\<lambda>x. seTokenHash x = seTokenHash s) (adSessions db) \<or> getUser db (seUserID s) = None then None
      else Some (db\<lparr>adSessions := adSessions db @ [s]\<rparr>))"

definition deleteSession :: "access_db \<Rightarrow> rune list \<Rightarrow> access_db" where
  "deleteSession db h = db\<lparr>adSessions := filter (\<lambda>s. seTokenHash s \<noteq> h) (adSessions db)\<rparr>"

definition deleteSessionsForUser :: "access_db \<Rightarrow> uuid \<Rightarrow> access_db" where
  "deleteSessionsForUser db i = db\<lparr>adSessions := filter (\<lambda>s. seUserID s \<noteq> i) (adSessions db)\<rparr>"

definition getSessionUser :: "access_db \<Rightarrow> rune list \<Rightarrow> instant \<Rightarrow> (session_row \<times> user_row) option" where
  "getSessionUser db h now =
     (case find (\<lambda>s. seTokenHash s = h \<and> now < seExpiresAt s) (adSessions db) of
        None \<Rightarrow> None
      | Some s \<Rightarrow> map_option (Pair s) (getUser db (seUserID s)))"

definition accountByOrganization :: "access_db \<Rightarrow> uuid \<Rightarrow> org_account option" where
  "accountByOrganization db org = find (\<lambda>a. oaOrganizationID a = org) (adAccounts db)"

definition createMarketplaceAccount :: "access_db \<Rightarrow> uuid \<Rightarrow> uuid \<Rightarrow> rune list \<Rightarrow> rune list \<Rightarrow> (access_db \<times> org_account) option" where
  "createMarketplaceAccount db i org native display =
     (let a = \<lparr>oaID = i, oaOrganizationID = org, oaNativeAccountID = native, oaDisplayName = display\<rparr> in
      if org \<notin> fst ` set (adOrgs db)
         \<or> list_ex (\<lambda>b. oaID b = i \<or> oaOrganizationID b = org \<or> oaNativeAccountID b = native) (adAccounts db)
      then None
      else Some (db\<lparr>adAccounts := adAccounts db @ [a]\<rparr>, a))"

definition createOrganization :: "access_db \<Rightarrow> uuid \<Rightarrow> rune list \<Rightarrow> access_db option" where
  "createOrganization db i name =
     (if i \<in> fst ` set (adOrgs db) then None else Some (db\<lparr>adOrgs := adOrgs db @ [(i, name)]\<rparr>))"

section \<open>Sessions (auth.go)\<close>

text \<open>Statements that may fail, and an environment that decides which do.\<close>

datatype access_fault =
  FltUser | FltCredential | FltSession | FltStoreCredential | FltAccount | FltPairing | FltCommit

type_synonym faults = "access_fault \<Rightarrow> bool"

record auth_session =
  asToken :: "rune list"
  asPrincipal :: auth_principal

definition defaultSessionTTL :: duration where "defaultSessionTTL = 12 * hour"

definition principalOf :: "user_row \<Rightarrow> instant \<Rightarrow> auth_principal" where
  "principalOf u expires =
     \<lparr>apUserID = usID u, apOrganizationID = usOrganizationID u, apEmail = usEmail u, apRole = usRole u,
      apExpiresAt = expires\<rparr>"

definition hashPassword :: "access_lib \<Rightarrow> rune list option \<Rightarrow> rune list \<Rightarrow> (auth_error, rune list) result" where
  "hashPassword lib salt plain =
     (if plain = [] then Inl AuthEmptyPassword
      else case salt of None \<Rightarrow> Inl AuthEntropyErr | Some s \<Rightarrow> Inr (alHash lib s plain))"

definition setPassword :: "access_lib \<Rightarrow> faults \<Rightarrow> access_db \<Rightarrow> rune list option \<Rightarrow> uuid \<Rightarrow> rune list \<Rightarrow> (auth_error, access_db) result" where
  "setPassword lib flt db salt i plain =
     andThen (hashPassword lib salt plain) (\<lambda>h.
       if flt FltStoreCredential \<or> getUser db i = None then Inl AuthDbErr else Inr (upsertUserCredential db i h))"

definition issueSession :: "access_lib \<Rightarrow> faults \<Rightarrow> access_db \<Rightarrow> user_row \<Rightarrow> rune list option \<Rightarrow> instant \<Rightarrow> duration \<Rightarrow> access_db \<times> (auth_error, auth_session) result" where
  "issueSession lib flt db u fresh now ttl =
     (case fresh of
        None \<Rightarrow> (db, Inl AuthEntropyErr)
      | Some token \<Rightarrow>
          (case (if flt FltSession then None
                 else createSession db \<lparr>seTokenHash = alSha lib token, seUserID = usID u, seExpiresAt = now + ttl\<rparr>) of
             None \<Rightarrow> (db, Inl AuthDbErr)
           | Some db' \<Rightarrow> (db', Inr \<lparr>asToken = token, asPrincipal = principalOf u (now + ttl)\<rparr>)))"

text \<open>
  Login reads the user in one committed state, the credential in a later one, and inserts the session in
  a third.  The verification against the dummy hash only takes time.
\<close>

definition login :: "access_lib \<Rightarrow> faults \<Rightarrow> access_db \<Rightarrow> access_db \<Rightarrow> access_db \<Rightarrow> rune list \<Rightarrow> rune list \<Rightarrow> rune list option
    \<Rightarrow> instant \<Rightarrow> duration \<Rightarrow> access_db \<times> (auth_error, auth_session) result" where
  "login lib flt dbU dbC db email password fresh now ttl =
     (if flt FltUser then (db, Inl AuthDbErr)
      else (case getUserByEmail lib dbU (normEmail lib email) of
              None \<Rightarrow> (db, Inl ErrInvalidCredentials)
            | Some u \<Rightarrow>
                if flt FltCredential then (db, Inl AuthDbErr)
                else (case adCreds dbC (usID u) of
                        None \<Rightarrow> (db, Inl ErrInvalidCredentials)
                      | Some h \<Rightarrow>
                          (case alVerify lib h password of
                             Inl _ \<Rightarrow> (db, Inl ErrInvalidCredentials)
                           | Inr ok \<Rightarrow>
                               if \<not> ok then (db, Inl ErrInvalidCredentials)
                               else issueSession lib flt db u fresh now ttl))))"

definition resolveSession :: "access_lib \<Rightarrow> faults \<Rightarrow> access_db \<Rightarrow> instant \<Rightarrow> rune list \<Rightarrow> (auth_error, auth_principal) result" where
  "resolveSession lib flt db now token =
     (if token = [] then Inl ErrNoSession
      else if flt FltSession then Inl AuthDbErr
      else (case getSessionUser db (alSha lib token) now of
              None \<Rightarrow> Inl ErrNoSession
            | Some (s, u) \<Rightarrow> Inr (principalOf u (seExpiresAt s))))"

definition logout :: "access_lib \<Rightarrow> faults \<Rightarrow> access_db \<Rightarrow> rune list \<Rightarrow> access_db \<times> (auth_error, unit) result" where
  "logout lib flt db token =
     (if token = [] then (db, Inr ())
      else if flt FltSession then (db, Inl AuthDbErr)
      else (deleteSession db (alSha lib token), Inr ()))"

section \<open>The login and logout endpoints (httpapi/auth.go)\<close>

text \<open>\<open>wired\<close>: the service was given to the server.\<close>

datatype auth_response =
  AuthStatus nat | LoginOk auth_principal "rune list" instant | LogoutOk

definition loginEndpoint :: "bool \<Rightarrow> access_lib \<Rightarrow> faults \<Rightarrow> access_db \<Rightarrow> access_db \<Rightarrow> access_db \<Rightarrow> (rune list \<times> rune list) option
    \<Rightarrow> rune list option \<Rightarrow> instant \<Rightarrow> access_db \<times> auth_response" where
  "loginEndpoint wired lib flt dbU dbC db body fresh now =
     (if \<not> wired then (db, AuthStatus 503) else
      (case body of
        None \<Rightarrow> (db, AuthStatus 401)
      | Some (email, password) \<Rightarrow>
          if email = [] \<or> password = [] then (db, AuthStatus 401)
          else (case login lib flt dbU dbC db email password fresh now defaultSessionTTL of
                  (db', Inl ErrInvalidCredentials) \<Rightarrow> (db', AuthStatus 401)
                | (db', Inl _) \<Rightarrow> (db', AuthStatus 500)
                | (db', Inr s) \<Rightarrow> (db', LoginOk (asPrincipal s) (asToken s) (apExpiresAt (asPrincipal s))))))"

definition logoutEndpoint :: "bool \<Rightarrow> access_lib \<Rightarrow> faults \<Rightarrow> access_db \<Rightarrow> request_context \<Rightarrow> access_db \<times> auth_response" where
  "logoutEndpoint wired lib flt db cx =
     (case rxToken cx of
        None \<Rightarrow> (db, LogoutOk)
      | Some token \<Rightarrow>
          if \<not> wired \<or> token = [] then (db, LogoutOk)
          else (case logout lib flt db token of
                  (db', Inl _) \<Rightarrow> (db', AuthStatus 500)
                | (db', Inr _) \<Rightarrow> (db', LogoutOk)))"

section \<open>Pairing (pairing.go)\<close>

datatype pairing_error = ErrNoAccount | ErrInvalidCode | ErrInvalidCredential | PairingDbErr | PairingEntropyErr

definition defaultCodeTTL :: duration where "defaultCodeTTL = 5 * minute"
definition defaultCredentialTTL :: duration where "defaultCredentialTTL = 30 * 24 * hour"

record pairing_code =
  pcCode :: "rune list"
  pcAccountID :: uuid
  pcExpiresAt :: instant

record pairing_credential =
  pdCredential :: "rune list"
  pdCredentialID :: uuid
  pdAccountID :: uuid
  pdExpiresAt :: instant

definition createPairingCode :: "access_db \<Rightarrow> uuid \<Rightarrow> uuid \<Rightarrow> rune list \<Rightarrow> instant \<Rightarrow> access_db option" where
  "createPairingCode db i account h expires =
     (if account \<notin> oaID ` set (adAccounts db)
         \<or> list_ex (\<lambda>p. paID p = i \<or> paCodeHash p = Some h) (adPairings db) then None
      else Some (db\<lparr>adPairings := adPairings db @
        [\<lparr>paID = i, paAccountID = account, paCodeHash = Some h, paCodeExpiresAt = expires, paCredentialHash = None,
          paCredentialExpiresAt = None, paClaimedAt = None, paRevokedAt = None\<rparr>]\<rparr>))"

definition mintCode :: "access_lib \<Rightarrow> faults \<Rightarrow> access_db \<Rightarrow> uuid \<Rightarrow> uuid \<Rightarrow> rune list option \<Rightarrow> instant \<Rightarrow> duration
    \<Rightarrow> access_db \<times> (pairing_error, pairing_code) result" where
  "mintCode lib flt db i org fresh now ttl =
     (if flt FltAccount then (db, Inl PairingDbErr)
      else (case accountByOrganization db org of
              None \<Rightarrow> (db, Inl ErrNoAccount)
            | Some acct \<Rightarrow>
                (case fresh of
                   None \<Rightarrow> (db, Inl PairingEntropyErr)
                 | Some code \<Rightarrow>
                     (case (if flt FltPairing then None
                            else createPairingCode db i (oaID acct) (alSha lib code) (now + ttl)) of
                        None \<Rightarrow> (db, Inl PairingDbErr)
                      | Some db' \<Rightarrow>
                          (db', Inr \<lparr>pcCode = code, pcAccountID = oaID acct, pcExpiresAt = now + ttl\<rparr>)))))"

definition claimable :: "pairing_row \<Rightarrow> rune list \<Rightarrow> instant \<Rightarrow> bool" where
  "claimable p h now \<longleftrightarrow>
     paCodeHash p = Some h \<and> paClaimedAt p = None \<and> paRevokedAt p = None \<and> now < paCodeExpiresAt p"

text \<open>One statement; it violates the unique index when the new credential's hash is taken.\<close>

definition claimPairingCode :: "access_db \<Rightarrow> rune list \<Rightarrow> rune list \<Rightarrow> instant \<Rightarrow> instant
    \<Rightarrow> (pairing_error, access_db \<times> pairing_row) result" where
  "claimPairingCode db h cred expires now =
     (case find (\<lambda>p. claimable p h now) (adPairings db) of
        None \<Rightarrow> Inl ErrInvalidCode
      | Some p \<Rightarrow>
          if list_ex (\<lambda>q. paCredentialHash q = Some cred) (adPairings db) then Inl PairingDbErr
          else (let p' = p\<lparr>paCredentialHash := Some cred, paCredentialExpiresAt := Some expires,
                          paClaimedAt := Some now, paCodeHash := None\<rparr> in
                Inr (db\<lparr>adPairings := map (\<lambda>q. if paID q = paID p then p' else q) (adPairings db)\<rparr>, p')))"

definition claimCode :: "access_lib \<Rightarrow> faults \<Rightarrow> access_db \<Rightarrow> rune list \<Rightarrow> rune list option \<Rightarrow> instant \<Rightarrow> duration
    \<Rightarrow> access_db \<times> (pairing_error, pairing_credential) result" where
  "claimCode lib flt db rawCode fresh now ttl =
     (if rawCode = [] then (db, Inl ErrInvalidCode)
      else (case fresh of
              None \<Rightarrow> (db, Inl PairingEntropyErr)
            | Some cred \<Rightarrow>
                if flt FltPairing then (db, Inl PairingDbErr)
                else (case claimPairingCode db (alSha lib rawCode) (alSha lib cred) (now + ttl) now of
                        Inl e \<Rightarrow> (db, Inl e)
                      | Inr (db', p) \<Rightarrow>
                          (db', Inr \<lparr>pdCredential = cred, pdCredentialID = paID p, pdAccountID = paAccountID p,
                                    pdExpiresAt = now + ttl\<rparr>))))"

definition liveCredential :: "pairing_row \<Rightarrow> rune list \<Rightarrow> instant \<Rightarrow> bool" where
  "liveCredential p h now \<longleftrightarrow>
     paCredentialHash p = Some h \<and> paRevokedAt p = None
     \<and> (case paCredentialExpiresAt p of None \<Rightarrow> False | Some t \<Rightarrow> now < t)"

definition resolveCredential :: "access_lib \<Rightarrow> faults \<Rightarrow> access_db \<Rightarrow> instant \<Rightarrow> rune list \<Rightarrow> (pairing_error, capture_scope) result" where
  "resolveCredential lib flt db now raw =
     (if raw = [] then Inl ErrInvalidCredential
      else if flt FltPairing then Inl PairingDbErr
      else (case find (\<lambda>p. liveCredential p (alSha lib raw) now) (adPairings db) of
              None \<Rightarrow> Inl ErrInvalidCredential
            | Some p \<Rightarrow> Inr \<lparr>csCredentialID = paID p, csMarketplaceAccountID = paAccountID p\<rparr>))"

definition revokePairingsForAccount :: "access_db \<Rightarrow> uuid \<Rightarrow> instant \<Rightarrow> access_db" where
  "revokePairingsForAccount db account now =
     db\<lparr>adPairings := map (\<lambda>p. if paAccountID p = account \<and> paRevokedAt p = None
                               then p\<lparr>paRevokedAt := Some now\<rparr> else p) (adPairings db)\<rparr>"

definition revokeForOrganization :: "faults \<Rightarrow> access_db \<Rightarrow> uuid \<Rightarrow> instant \<Rightarrow> access_db \<times> (pairing_error, unit) result" where
  "revokeForOrganization flt db org now =
     (if flt FltAccount then (db, Inl PairingDbErr)
      else (case accountByOrganization db org of
              None \<Rightarrow> (db, Inl ErrNoAccount)
            | Some acct \<Rightarrow>
                if flt FltPairing then (db, Inl PairingDbErr)
                else (revokePairingsForAccount db (oaID acct) now, Inr ())))"

section \<open>The pairing endpoints (httpapi/pairing.go)\<close>

datatype pairing_response =
  PairingStatus nat | PairingCreated pairing_code | PairingClaimed pairing_credential | PairingRevoked

definition createPairingCodeEndpoint :: "bool \<Rightarrow> access_lib \<Rightarrow> faults \<Rightarrow> access_db \<Rightarrow> uuid \<Rightarrow> request_context \<Rightarrow> rune list option
    \<Rightarrow> instant \<Rightarrow> access_db \<times> pairing_response" where
  "createPairingCodeEndpoint wired lib flt db i cx fresh now =
     (if \<not> wired then (db, PairingStatus 503) else
      (case rxPrincipal cx of
        None \<Rightarrow> (db, PairingStatus 401)
      | Some p \<Rightarrow>
          (case mintCode lib flt db i (apOrganizationID p) fresh now defaultCodeTTL of
             (db', Inl ErrNoAccount) \<Rightarrow> (db', PairingStatus 409)
           | (db', Inl _) \<Rightarrow> (db', PairingStatus 500)
           | (db', Inr c) \<Rightarrow> (db', PairingCreated c))))"

definition claimPairingCodeEndpoint :: "bool \<Rightarrow> access_lib \<Rightarrow> faults \<Rightarrow> access_db \<Rightarrow> rune list option \<Rightarrow> rune list option
    \<Rightarrow> instant \<Rightarrow> access_db \<times> pairing_response" where
  "claimPairingCodeEndpoint wired lib flt db body fresh now =
     (if \<not> wired then (db, PairingStatus 503) else
      (case body of
        None \<Rightarrow> (db, PairingStatus 401)
      | Some code \<Rightarrow>
          if code = [] then (db, PairingStatus 401)
          else (case claimCode lib flt db code fresh now defaultCredentialTTL of
                  (db', Inl ErrInvalidCode) \<Rightarrow> (db', PairingStatus 401)
                | (db', Inl _) \<Rightarrow> (db', PairingStatus 500)
                | (db', Inr c) \<Rightarrow> (db', PairingClaimed c))))"

definition revokePairingEndpoint :: "bool \<Rightarrow> faults \<Rightarrow> access_db \<Rightarrow> request_context \<Rightarrow> instant \<Rightarrow> access_db \<times> pairing_response" where
  "revokePairingEndpoint wired flt db cx now =
     (if \<not> wired then (db, PairingStatus 503) else
      (case rxPrincipal cx of
        None \<Rightarrow> (db, PairingStatus 401)
      | Some p \<Rightarrow>
          (case revokeForOrganization flt db (apOrganizationID p) now of
             (db', Inl ErrNoAccount) \<Rightarrow> (db', PairingStatus 409)
           | (db', Inl _) \<Rightarrow> (db', PairingStatus 500)
           | (db', Inr _) \<Rightarrow> (db', PairingRevoked))))"

section \<open>Provisioning an owner (cmd/core/bootstrap.go)\<close>

datatype bootstrap_error =
  BsMissing string | BsNotAddress | BsShortPassword | BsOrgNameRequired | BsNativeIDRequired | BsDb | BsAuth auth_error

record bootstrap_input =
  biDatabaseURL :: "rune list"
  biEmail :: "rune list"
  biPassword :: "rune list"
  biOrgName :: "rune list"
  biNativeID :: "rune list"
  biDisplayName :: "rune list"
  biRotate :: bool

definition minPasswordRunes :: nat where "minPasswordRunes = 12"

text \<open>No rune outside ASCII folds to a letter of \<open>true\<close>.\<close>

definition loadBootstrapInput :: "access_lib \<Rightarrow> (string \<Rightarrow> rune list) \<Rightarrow> (bootstrap_error, bootstrap_input) result" where
  "loadBootstrapInput lib getenv =
     (let org = trimSpace (getenv ''BOOTSTRAP_ORG_NAME'');
          display = trimSpace (getenv ''BOOTSTRAP_ACCOUNT_DISPLAY_NAME'');
          inp = \<lparr>biDatabaseURL = trimSpace (getenv ''DATABASE_URL''),
                biEmail = normEmail lib (getenv ''BOOTSTRAP_OWNER_EMAIL''),
                biPassword = getenv ''BOOTSTRAP_OWNER_PASSWORD'', biOrgName = org,
                biNativeID = trimSpace (getenv ''BOOTSTRAP_ACCOUNT_NATIVE_ID''),
                biDisplayName = (if display = [] then org else display),
                biRotate = (map lowerRune (trimSpace (getenv ''BOOTSTRAP_ROTATE_PASSWORD'')) = runes ''true'')\<rparr> in
      if biDatabaseURL inp = [] then Inl (BsMissing ''DATABASE_URL'')
      else if biEmail inp = [] then Inl (BsMissing ''BOOTSTRAP_OWNER_EMAIL'')
      else if \<not> List.member (biEmail inp) 0x40 then Inl BsNotAddress
      else if biPassword inp = [] then Inl (BsMissing ''BOOTSTRAP_OWNER_PASSWORD'')
      else if length (biPassword inp) < minPasswordRunes then Inl BsShortPassword
      else Inr inp)"

definition ensureAccount :: "faults \<Rightarrow> access_db \<Rightarrow> uuid \<Rightarrow> uuid \<Rightarrow> bootstrap_input \<Rightarrow> (bootstrap_error, access_db \<times> org_account) result" where
  "ensureAccount flt db i org inp =
     (if flt FltAccount then Inl BsDb
      else (case accountByOrganization db org of
              Some a \<Rightarrow> Inr (db, a)
            | None \<Rightarrow>
                if biNativeID inp = [] then Inl BsNativeIDRequired
                else (case createMarketplaceAccount db i org (biNativeID inp) (biDisplayName inp) of
                        None \<Rightarrow> Inl BsDb | Some r \<Rightarrow> Inr r)))"

text \<open>The three generated ids of a run.\<close>

record bootstrap_ids =
  bdOrg :: uuid
  bdUser :: uuid
  bdAccount :: uuid

definition bootstrapUser :: "access_lib \<Rightarrow> faults \<Rightarrow> access_db \<Rightarrow> bootstrap_ids \<Rightarrow> rune list option \<Rightarrow> bootstrap_input
    \<Rightarrow> (bootstrap_error, access_db \<times> user_row) result" where
  "bootstrapUser lib flt db ids salt inp =
     (if flt FltUser then Inl BsDb
      else (case getUserByEmail lib db (biEmail inp) of
              Some u \<Rightarrow>
                if \<not> biRotate inp then Inr (db, u)
                else andThen (mapErr BsAuth (setPassword lib flt db salt (usID u) (biPassword inp))) (\<lambda>db'.
                       if flt FltSession then Inl BsDb else Inr (deleteSessionsForUser db' (usID u), u))
            | None \<Rightarrow>
                if biOrgName inp = [] then Inl BsOrgNameRequired
                else (case createOrganization db (bdOrg ids) (biOrgName inp) of
                        None \<Rightarrow> Inl BsDb
                      | Some db1 \<Rightarrow>
                          (case createUser lib db1 (bdUser ids) (bdOrg ids) (biEmail inp) roleOwner of
                             None \<Rightarrow> Inl BsDb
                           | Some (db2, u) \<Rightarrow>
                               andThen (mapErr BsAuth (setPassword lib flt db2 salt (usID u) (biPassword inp)))
                                 (\<lambda>db3. Inr (db3, u))))))"

text \<open>One transaction: an error leaves the tables as they were.\<close>

definition bootstrapOwner :: "access_lib \<Rightarrow> faults \<Rightarrow> access_db \<Rightarrow> bootstrap_ids \<Rightarrow> rune list option \<Rightarrow> bootstrap_input
    \<Rightarrow> access_db \<times> (bootstrap_error, user_row \<times> org_account) result" where
  "bootstrapOwner lib flt db ids salt inp =
     (case andThen (bootstrapUser lib flt db ids salt inp) (\<lambda>(db', u).
             andThen (ensureAccount flt db' (bdAccount ids) (usOrganizationID u) inp) (\<lambda>(db'', a).
               if flt FltCommit then Inl BsDb else Inr (db'', u, a))) of
        Inl e \<Rightarrow> (db, Inl e)
      | Inr (db', r) \<Rightarrow> (db', Inr r))"

section \<open>The middleware over the tables\<close>

definition middlewareOf :: "access_lib \<Rightarrow> faults \<Rightarrow> access_db \<Rightarrow> instant \<Rightarrow> rune list \<Rightarrow> auth_middleware" where
  "middlewareOf lib flt db now gatewayToken =
     \<lparr>amResolve = resolveSession lib flt db now, amGatewayToken = gatewayToken,
      amPairing = Some (\<lambda>raw. case resolveCredential lib flt db now raw of Inl _ \<Rightarrow> None | Inr s \<Rightarrow> Some s)\<rparr>"

end
