(* ===== verification/AccessLife.thy ===== *)
theory AccessLife
  imports Access Observation
begin

text \<open>
  What the authentication and pairing tables keep over every run: their constraints, sessions that rest
  on a verified password, and capture credentials that are claimed once, stay with their account and never
  come back after a revocation; and what the middleware concludes from them.
\<close>

section \<open>Runs\<close>

text \<open>
  The committed states, newest first.  A login reads the user and the credential in any earlier states of
  the run; the other operations are one transaction or one statement after a read that cannot change.
\<close>

inductive accessStep :: "access_lib \<Rightarrow> access_db set \<Rightarrow> access_db \<Rightarrow> access_db \<Rightarrow> bool" for lib past db where
  step_login: "\<lbrakk>dbU \<in> past; dbC \<in> past\<rbrakk> \<Longrightarrow>
    accessStep lib past db (fst (login lib flt dbU dbC db email password fresh now ttl))"
| step_logout: "accessStep lib past db (fst (logout lib flt db token))"
| step_mint: "accessStep lib past db (fst (mintCode lib flt db i org fresh now ttl))"
| step_claim: "accessStep lib past db (fst (claimCode lib flt db rawCode fresh now ttl))"
| step_revoke: "accessStep lib past db (fst (revokeForOrganization flt db org now))"
| step_bootstrap: "accessStep lib past db (fst (bootstrapOwner lib flt db ids salt inp))"

definition emptyAccess :: access_db where
  "emptyAccess =
     \<lparr>adOrgs = [], adUsers = [], adCreds = Map.empty, adSessions = [], adAccounts = [], adPairings = []\<rparr>"

inductive accessRun :: "access_lib \<Rightarrow> access_db list \<Rightarrow> bool" for lib where
  run_empty: "accessRun lib [emptyAccess]"
| run_step: "\<lbrakk>accessRun lib (db # tr); accessStep lib (set (db # tr)) db db'\<rbrakk> \<Longrightarrow> accessRun lib (db' # db # tr)"

section \<open>The constraints of the tables\<close>

definition usersOk :: "access_lib \<Rightarrow> access_db \<Rightarrow> bool" where
  "usersOk lib db \<longleftrightarrow>
     distinct (map usID (adUsers db)) \<and> distinct (map (\<lambda>u. emailCanonical lib (usEmail u)) (adUsers db))
     \<and> (\<forall>u \<in> set (adUsers db). roleValid (usRole u) \<and> usOrganizationID u \<in> fst ` set (adOrgs db))
     \<and> (\<forall>i h. adCreds db i = Some h \<longrightarrow> i \<in> usID ` set (adUsers db))"

definition sessionsOk :: "access_db \<Rightarrow> bool" where
  "sessionsOk db \<longleftrightarrow> distinct (map seTokenHash (adSessions db)) \<and> (\<forall>s \<in> set (adSessions db). seUserID s \<in> usID ` set (adUsers db))"

definition accountsOk :: "access_db \<Rightarrow> bool" where
  "accountsOk db \<longleftrightarrow>
     distinct (map oaID (adAccounts db)) \<and> distinct (map oaOrganizationID (adAccounts db))
     \<and> (\<forall>a \<in> set (adAccounts db). oaOrganizationID a \<in> fst ` set (adOrgs db))"

definition pairingShape :: "pairing_row \<Rightarrow> bool" where
  "pairingShape p \<longleftrightarrow>
     (if paClaimedAt p = None
      then paCodeHash p \<noteq> None \<and> paCredentialHash p = None \<and> paCredentialExpiresAt p = None
      else paCodeHash p = None \<and> paCredentialHash p \<noteq> None \<and> paCredentialExpiresAt p \<noteq> None)"

definition somes :: "'a option list \<Rightarrow> 'a list" where
  "somes xs = List.map_filter id xs"

definition pairingsOk :: "access_db \<Rightarrow> bool" where
  "pairingsOk db \<longleftrightarrow>
     distinct (map paID (adPairings db)) \<and> distinct (somes (map paCodeHash (adPairings db)))
     \<and> distinct (somes (map paCredentialHash (adPairings db)))
     \<and> (\<forall>p \<in> set (adPairings db). pairingShape p \<and> paAccountID p \<in> oaID ` set (adAccounts db))"

definition accessOk :: "access_lib \<Rightarrow> access_db \<Rightarrow> bool" where
  "accessOk lib db \<longleftrightarrow> usersOk lib db \<and> sessionsOk db \<and> accountsOk db \<and> pairingsOk db"

lemma somes_simps [simp]:
  "somes [] = []" "somes (None # xs) = somes xs" "somes (Some x # xs) = x # somes xs"
  "somes (xs @ ys) = somes xs @ somes ys"
  by (simp_all add: somes_def map_filter_simps map_filter_def)

lemma set_somes [simp]: "x \<in> set (somes xs) \<longleftrightarrow> Some x \<in> set xs"
proof (induction xs)
  case (Cons y xs)
  then show ?case by (cases y) auto
qed simp

lemma accessOk_empty: "accessOk lib emptyAccess"
  by (simp add: accessOk_def usersOk_def sessionsOk_def accountsOk_def pairingsOk_def emptyAccess_def)

section \<open>What each operation changes\<close>

text \<open>Queries on distinct keys.\<close>

lemma getUser_iff:
  assumes "usersOk lib db"
  shows "getUser db i = Some u \<longleftrightarrow> u \<in> set (adUsers db) \<and> usID u = i"
  using find_distinct[of usID "adUsers db" u] assms
  by (auto simp: getUser_def usersOk_def find_Some_iff)

lemma getUser_None: "getUser db i = None \<longleftrightarrow> i \<notin> usID ` set (adUsers db)"
  by (auto simp: getUser_def find_None_iff)

lemma login_result:
  "(\<exists>e. login lib flt dbU dbC db email password fresh now ttl = (db, Inl e)) \<or>
   (\<exists>u h token db'. getUserByEmail lib dbU (normEmail lib email) = Some u
      \<and> adCreds dbC (usID u) = Some h \<and> alVerify lib h password = Inr True
      \<and> createSession db \<lparr>seTokenHash = alSha lib token, seUserID = usID u, seExpiresAt = now + ttl\<rparr> = Some db'
      \<and> login lib flt dbU dbC db email password fresh now ttl =
          (db', Inr \<lparr>asToken = token, asPrincipal = principalOf u (now + ttl)\<rparr>))"
  by (auto simp: login_def issueSession_def split: option.split sum.split)

lemma mintCode_result:
  "(\<exists>e. mintCode lib flt db i org fresh now ttl = (db, Inl e)) \<or>
   (\<exists>acct code db'. accountByOrganization db org = Some acct
      \<and> createPairingCode db i (oaID acct) (alSha lib code) (now + ttl) = Some db'
      \<and> mintCode lib flt db i org fresh now ttl =
          (db', Inr \<lparr>pcCode = code, pcAccountID = oaID acct, pcExpiresAt = now + ttl\<rparr>))"
  by (auto simp: mintCode_def split: option.split)

lemma claimCode_result:
  "(\<exists>e. claimCode lib flt db raw fresh now ttl = (db, Inl e)) \<or>
   (\<exists>cred p db'. claimPairingCode db (alSha lib raw) (alSha lib cred) (now + ttl) now = Inr (db', p)
      \<and> claimCode lib flt db raw fresh now ttl =
         (db', Inr \<lparr>pdCredential = cred, pdCredentialID = paID p, pdAccountID = paAccountID p,
                   pdExpiresAt = now + ttl\<rparr>))"
  by (auto simp: claimCode_def split: option.split sum.split)

lemma revoke_result:
  "(\<exists>e. revokeForOrganization flt db org now = (db, Inl e)) \<or>
   (\<exists>acct. accountByOrganization db org = Some acct
      \<and> revokeForOrganization flt db org now = (revokePairingsForAccount db (oaID acct) now, Inr ()))"
  by (auto simp: revokeForOrganization_def split: option.split)

lemma setPassword_Inr:
  "setPassword lib flt db salt i plain = Inr db' \<longleftrightarrow>
     (\<exists>s. plain \<noteq> [] \<and> salt = Some s \<and> \<not> flt FltStoreCredential \<and> getUser db i \<noteq> None
        \<and> db' = upsertUserCredential db i (alHash lib s plain))"
  by (auto simp: setPassword_def hashPassword_def result_simps split: option.split)

section \<open>Every operation keeps the constraints\<close>

lemma ok_createSession:
  assumes "accessOk lib db" "createSession db s = Some db'"
  shows "accessOk lib db'"
proof -
  have "seUserID s \<in> usID ` set (adUsers db)" "seTokenHash s \<notin> seTokenHash ` set (adSessions db)"
    "db' = db\<lparr>adSessions := adSessions db @ [s]\<rparr>"
    using assms(2) getUser_None[of db "seUserID s"]
    by (auto simp: createSession_def list_ex_iff split: if_splits)
  then show ?thesis
    using assms(1) by (auto simp: accessOk_def usersOk_def sessionsOk_def accountsOk_def pairingsOk_def)
qed

lemma distinct_map_filter: "distinct (map f xs) \<Longrightarrow> distinct (map f (filter P xs))"
  by (induction xs) auto

lemma ok_deleteSessions:
  "accessOk lib db \<Longrightarrow> accessOk lib (db\<lparr>adSessions := filter P (adSessions db)\<rparr>)"
  by (auto simp: accessOk_def usersOk_def sessionsOk_def accountsOk_def pairingsOk_def distinct_map_filter)

lemma ok_upsert:
  "accessOk lib db \<Longrightarrow> getUser db i \<noteq> None \<Longrightarrow> accessOk lib (upsertUserCredential db i h)"
  using getUser_None[of db i]
  by (auto simp: accessOk_def usersOk_def sessionsOk_def accountsOk_def pairingsOk_def upsertUserCredential_def)

lemma ok_createOrganization:
  "accessOk lib db \<Longrightarrow> createOrganization db i n = Some db' \<Longrightarrow> accessOk lib db'"
  by (auto simp: createOrganization_def accessOk_def usersOk_def sessionsOk_def accountsOk_def pairingsOk_def
      split: if_splits)

lemma ok_createUser:
  assumes "accessOk lib db" "createUser lib db i org e r = Some (db', u)"
  shows "accessOk lib db' \<and> getUser db' (usID u) \<noteq> None"
proof -
  have *: "roleValid r" "org \<in> fst ` set (adOrgs db)" "i \<notin> usID ` set (adUsers db)"
    "emailCanonical lib (usEmail u) \<notin> (\<lambda>v. emailCanonical lib (usEmail v)) ` set (adUsers db)"
    "db' = db\<lparr>adUsers := adUsers db @ [u]\<rparr>" "usID u = i" "usRole u = r" "usOrganizationID u = org"
    using assms(2) by (auto simp: createUser_def Let_def list_ex_iff split: if_splits)
  have "accessOk lib db'"
    using assms(1) *
    by (auto simp: accessOk_def usersOk_def sessionsOk_def accountsOk_def pairingsOk_def)
  then show ?thesis using getUser_None[of db' i] * by auto
qed

lemma ok_createAccount:
  assumes "accessOk lib db" "createMarketplaceAccount db i org n d = Some (db', a)"
  shows "accessOk lib db'"
proof -
  have "org \<in> fst ` set (adOrgs db)" "i \<notin> oaID ` set (adAccounts db)"
    "org \<notin> oaOrganizationID ` set (adAccounts db)"
    "db' = db\<lparr>adAccounts := adAccounts db @ [a]\<rparr>" "oaID a = i" "oaOrganizationID a = org"
    using assms(2) by (auto simp: createMarketplaceAccount_def Let_def list_ex_iff split: if_splits)
  then show ?thesis
    using assms(1) by (auto simp: accessOk_def usersOk_def sessionsOk_def accountsOk_def pairingsOk_def)
qed

lemma createPairingCode_Some:
  assumes "createPairingCode db i account h expires = Some db'"
  obtains p where "db' = db\<lparr>adPairings := adPairings db @ [p]\<rparr>" "pairingShape p" "paID p = i"
    "paAccountID p = account" "paCodeHash p = Some h" "paCredentialHash p = None" "paClaimedAt p = None"
    "paRevokedAt p = None" "account \<in> oaID ` set (adAccounts db)" "i \<notin> paID ` set (adPairings db)"
    "Some h \<notin> paCodeHash ` set (adPairings db)"
proof -
  let ?p = "\<lparr>paID = i, paAccountID = account, paCodeHash = Some h, paCodeExpiresAt = expires,
    paCredentialHash = None, paCredentialExpiresAt = None, paClaimedAt = None, paRevokedAt = None\<rparr>"
  show thesis
    by (rule that[of ?p])
      (use assms in \<open>auto simp: createPairingCode_def list_ex_iff pairingShape_def split: if_splits\<close>)
qed

lemma ok_createCode:
  assumes "accessOk lib db" "createPairingCode db i account h expires = Some db'"
  shows "accessOk lib db'"
proof -
  obtain p where "db' = db\<lparr>adPairings := adPairings db @ [p]\<rparr>" "pairingShape p" "paID p = i"
    "paAccountID p = account" "paCodeHash p = Some h" "paCredentialHash p = None"
    "account \<in> oaID ` set (adAccounts db)" "i \<notin> paID ` set (adPairings db)"
    "Some h \<notin> paCodeHash ` set (adPairings db)"
    using assms(2) by (rule createPairingCode_Some)
  then show ?thesis
    using assms(1) by (auto simp: accessOk_def usersOk_def sessionsOk_def accountsOk_def pairingsOk_def)
qed

text \<open>A change of the pairing rows that keeps ids, hashes, owners and shapes.\<close>

lemma ok_map_pairings:
  assumes "accessOk lib db"
    "\<And>p. paID (g p) = paID p \<and> paCodeHash (g p) = paCodeHash p \<and> paCredentialHash (g p) = paCredentialHash p
       \<and> paAccountID (g p) = paAccountID p \<and> (pairingShape p \<longrightarrow> pairingShape (g p))"
  shows "accessOk lib (db\<lparr>adPairings := map g (adPairings db)\<rparr>)"
proof -
  have "map paID (map g ps) = map paID ps" "map paCodeHash (map g ps) = map paCodeHash ps"
    "map paCredentialHash (map g ps) = map paCredentialHash ps" for ps
    using assms(2) by simp_all
  then have "pairingsOk (db\<lparr>adPairings := map g (adPairings db)\<rparr>)"
    using assms by (simp add: accessOk_def pairingsOk_def del: map_map)
  then show ?thesis
    using assms(1) by (simp add: accessOk_def usersOk_def sessionsOk_def accountsOk_def)
qed

lemma ok_revokePairings: "accessOk lib db \<Longrightarrow> accessOk lib (revokePairingsForAccount db account now)"
  unfolding revokePairingsForAccount_def by (rule ok_map_pairings) (auto simp: pairingShape_def)

text \<open>The claim changes one row, in place.\<close>

lemma claimPairingCode_Inr:
  assumes "claimPairingCode db h cred expires now = Inr (db', p')"
  obtains p where "p \<in> set (adPairings db)" "claimable p h now" "Some cred \<notin> paCredentialHash ` set (adPairings db)"
    "p' = p\<lparr>paCredentialHash := Some cred, paCredentialExpiresAt := Some expires, paClaimedAt := Some now, paCodeHash := None\<rparr>"
    "db' = db\<lparr>adPairings := map (\<lambda>q. if paID q = paID p then p' else q) (adPairings db)\<rparr>"
proof -
  obtain p where f: "find (\<lambda>p. claimable p h now) (adPairings db) = Some p"
    using assms by (auto simp: claimPairingCode_def split: option.splits)
  then have "p \<in> set (adPairings db)" "claimable p h now" by (auto simp: find_Some_iff)
  then show thesis
    by (rule that) (use assms f in \<open>auto simp: claimPairingCode_def Let_def list_ex_iff split: if_splits\<close>)
qed

lemma somes_update_None:
  assumes "distinct (map key ps)" "p \<in> set ps" "distinct (somes (map f ps))" "f p' = None"
  shows "distinct (somes (map (\<lambda>q. f (if key q = key p then p' else q)) ps))"
  using assms
proof (induction ps)
  case (Cons q ps)
  have rest: "map (\<lambda>q. f (if key q = key p then p' else q)) ps = map f ps" if "p = q"
  proof -
    have "key p \<notin> key ` set ps" using Cons.prems(1) that by simp
    then have "\<forall>x \<in> set ps. key x \<noteq> key p" by (metis imageI)
    then show ?thesis by (intro map_cong) auto
  qed
  have sub: "set (map (\<lambda>q. f (if key q = key p then p' else q)) ps) \<subseteq> insert None (set (map f ps))"
    using Cons.prems(4) by auto
  show ?case
  proof (cases "p = q")
    case True
    then show ?thesis using Cons.prems rest[OF True] by (cases "f q") (auto simp del: map_eq_conv)
  next
    case False
    then have ne: "key q \<noteq> key p" using Cons.prems(1,2) by auto
    have "distinct (somes (map (\<lambda>q. f (if key q = key p then p' else q)) ps))"
      using Cons False by (cases "f q") auto
    then show ?thesis using Cons.prems(3) ne sub by (cases "f q") auto
  qed
qed simp

lemma somes_update_fresh:
  assumes "distinct (map key ps)" "p \<in> set ps" "distinct (somes (map f ps))" "f p' = Some c"
    "Some c \<notin> f ` set ps"
  shows "distinct (somes (map (\<lambda>q. f (if key q = key p then p' else q)) ps))"
  using assms
proof (induction ps)
  case (Cons q ps)
  have rest: "map (\<lambda>q. f (if key q = key p then p' else q)) ps = map f ps" if "p = q"
  proof -
    have "key p \<notin> key ` set ps" using Cons.prems(1) that by simp
    then have "\<forall>x \<in> set ps. key x \<noteq> key p" by (metis imageI)
    then show ?thesis by (intro map_cong) auto
  qed
  have sub: "set (map (\<lambda>q. f (if key q = key p then p' else q)) ps) \<subseteq> insert (Some c) (set (map f ps))"
    using Cons.prems(4) by auto
  show ?case
  proof (cases "p = q")
    case True
    then show ?thesis using Cons.prems rest[OF True] by (cases "f q") (auto simp del: map_eq_conv)
  next
    case False
    then have ne: "key q \<noteq> key p" using Cons.prems(1,2) by auto
    have "distinct (somes (map (\<lambda>q. f (if key q = key p then p' else q)) ps))"
      using Cons False by (cases "f q") auto
    then show ?thesis using Cons.prems(3,5) ne sub by (cases "f q") auto
  qed
qed simp

lemma ok_claim:
  assumes ok: "accessOk lib db" and c: "claimPairingCode db h cred expires now = Inr (db', p')"
  shows "accessOk lib db'"
proof -
  obtain p where p: "p \<in> set (adPairings db)" "claimable p h now"
    "Some cred \<notin> paCredentialHash ` set (adPairings db)"
    "p' = p\<lparr>paCredentialHash := Some cred, paCredentialExpiresAt := Some expires, paClaimedAt := Some now, paCodeHash := None\<rparr>"
    "db' = db\<lparr>adPairings := map (\<lambda>q. if paID q = paID p then p' else q) (adPairings db)\<rparr>"
    using c by (rule claimPairingCode_Inr)
  have prs: "pairingsOk db" using ok by (simp add: accessOk_def)
  have ids: "map paID (adPairings db') = map paID (adPairings db)" using p by (auto simp: comp_def)
  have codes: "distinct (somes (map paCodeHash (adPairings db')))"
    using prs somes_update_None[of paID "adPairings db" p paCodeHash p'] p
    by (simp add: pairingsOk_def comp_def)
  have creds: "distinct (somes (map paCredentialHash (adPairings db')))"
    using prs somes_update_fresh[of paID "adPairings db" p paCredentialHash p' cred] p
    by (simp add: pairingsOk_def comp_def)
  have rows: "\<forall>q \<in> set (adPairings db'). pairingShape q \<and> paAccountID q \<in> oaID ` set (adAccounts db')"
    using prs p by (auto simp: pairingsOk_def pairingShape_def)
  have "pairingsOk db'" using ids codes creds rows prs by (simp add: pairingsOk_def)
  then show ?thesis
    using ok p(5) by (simp add: accessOk_def usersOk_def sessionsOk_def accountsOk_def)
qed

lemma ok_setPassword:
  "accessOk lib db \<Longrightarrow> setPassword lib flt db salt i plain = Inr db' \<Longrightarrow> accessOk lib db'"
  by (auto simp: setPassword_Inr intro: ok_upsert)

lemma getUserByEmail_Some:
  "getUserByEmail lib db e = Some u \<Longrightarrow> u \<in> set (adUsers db) \<and> emailCanonical lib (usEmail u) = emailCanonical lib e"
  by (auto simp: getUserByEmail_def find_Some_iff)

text \<open>What a committed run of the provisioning did to the users and the credentials.\<close>

lemma bootstrapUser_cases:
  assumes "bootstrapUser lib flt db ids salt inp = Inr (db', u)"
  obtains (kept) "getUserByEmail lib db (biEmail inp) = Some u" "\<not> biRotate inp" "db' = db"
  | (rotated) db1 where "getUserByEmail lib db (biEmail inp) = Some u" "biRotate inp"
      "setPassword lib flt db salt (usID u) (biPassword inp) = Inr db1"
      "db' = deleteSessionsForUser db1 (usID u)"
  | (created) db1 db2 where "getUserByEmail lib db (biEmail inp) = None"
      "createOrganization db (bdOrg ids) (biOrgName inp) = Some db1"
      "createUser lib db1 (bdUser ids) (bdOrg ids) (biEmail inp) roleOwner = Some (db2, u)"
      "setPassword lib flt db2 salt (usID u) (biPassword inp) = Inr db'"
proof (cases "getUserByEmail lib db (biEmail inp)")
  case None
  then show thesis
    using assms created by (auto simp: bootstrapUser_def result_simps split: if_splits option.splits)
next
  case (Some v)
  then show thesis
    using assms kept rotated
    by (cases "biRotate inp") (auto simp: bootstrapUser_def result_simps split: if_splits)
qed

lemma ok_bootstrapUser:
  assumes "accessOk lib db" "bootstrapUser lib flt db ids salt inp = Inr (db', u)"
  shows "accessOk lib db'"
  using assms(2)
proof (cases rule: bootstrapUser_cases)
  case (rotated db1)
  then show ?thesis
    using ok_setPassword[OF assms(1)] ok_deleteSessions unfolding deleteSessionsForUser_def by blast
next
  case (created db1 db2)
  then show ?thesis
    using ok_createOrganization[OF assms(1)] ok_createUser ok_setPassword by blast
qed (use assms(1) in simp)

lemma bootstrapOwner_Inr:
  "bootstrapOwner lib flt db ids salt inp = (db', Inr (u, a)) \<longleftrightarrow>
     (\<exists>db1. bootstrapUser lib flt db ids salt inp = Inr (db1, u)
        \<and> ensureAccount flt db1 (bdAccount ids) (usOrganizationID u) inp = Inr (db', a) \<and> \<not> flt FltCommit)"
  by (auto simp: bootstrapOwner_def result_simps split: sum.splits if_splits)

lemma bootstrapOwner_Inl: "snd (bootstrapOwner lib flt db ids salt inp) = Inl e \<Longrightarrow> fst (bootstrapOwner lib flt db ids salt inp) = db"
  by (auto simp: bootstrapOwner_def split: sum.splits)

lemma ensureAccount_Inr:
  "ensureAccount flt db i org inp = Inr (db', a) \<longleftrightarrow>
     \<not> flt FltAccount \<and>
     (accountByOrganization db org = Some a \<and> db' = db
      \<or> accountByOrganization db org = None \<and> biNativeID inp \<noteq> []
        \<and> createMarketplaceAccount db i org (biNativeID inp) (biDisplayName inp) = Some (db', a))"
  by (auto simp: ensureAccount_def split: option.splits)

lemma ok_bootstrap:
  assumes "accessOk lib db"
  shows "accessOk lib (fst (bootstrapOwner lib flt db ids salt inp))"
proof (cases "bootstrapOwner lib flt db ids salt inp")
  case b: (Pair db' r)
  show ?thesis
  proof (cases r)
    case (Inl e)
    then show ?thesis using bootstrapOwner_Inl[of lib flt db ids salt inp e] b assms by simp
  next
    case (Inr ua)
    obtain u a where "ua = (u, a)" by (cases ua)
    then obtain db1 where "bootstrapUser lib flt db ids salt inp = Inr (db1, u)"
      "ensureAccount flt db1 (bdAccount ids) (usOrganizationID u) inp = Inr (db', a)"
      using b Inr bootstrapOwner_Inr[of lib flt db ids salt inp db' u a] by blast
    then have "accessOk lib db1" "db' = db1 \<or>
        createMarketplaceAccount db1 (bdAccount ids) (usOrganizationID u) (biNativeID inp) (biDisplayName inp) = Some (db', a)"
      using ok_bootstrapUser[OF assms] by (auto simp: ensureAccount_Inr)
    then show ?thesis using ok_createAccount b by auto
  qed
qed

lemma ok_step:
  assumes "accessStep lib past db db'" "accessOk lib db"
  shows "accessOk lib db'"
  using assms(1)
proof cases
  case (step_login dbU dbC flt email password fresh now ttl)
  then show ?thesis
    using login_result[of lib flt dbU dbC db email password fresh now ttl] assms(2) ok_createSession by fastforce
next
  case (step_logout flt token)
  then show ?thesis
    using assms(2) ok_deleteSessions by (auto simp: logout_def deleteSession_def)
next
  case (step_mint flt i org fresh now ttl)
  then show ?thesis
    using mintCode_result[of lib flt db i org fresh now ttl] assms(2) ok_createCode by fastforce
next
  case (step_claim flt rawCode fresh now ttl)
  then show ?thesis
    using claimCode_result[of lib flt db rawCode fresh now ttl] assms(2) ok_claim by fastforce
next
  case (step_revoke flt org now)
  then show ?thesis
    using revoke_result[of flt db org now] assms(2) ok_revokePairings by fastforce
next
  case (step_bootstrap flt ids salt inp)
  then show ?thesis using assms(2) ok_bootstrap by simp
qed

text \<open>
  C18. The tables stay well formed: in every state of every run each user has one of the three roles and an
  organisation, ids and canonical addresses are unique, every session and credential belongs to a user,
  an organisation has at most one account, and a pairing row is either unclaimed with its code or claimed
  with a credential and its expiry and no code, under an existing account.
\<close>

theorem access_well_formed:
  assumes "accessRun lib tr" "db \<in> set tr"
  shows "accessOk lib db"
  using assms
proof (induction arbitrary: db)
  case run_empty
  then show ?case using accessOk_empty by simp
next
  case (run_step db0 tr db1)
  have "accessOk lib db0" using run_step(3) by simp
  then show ?case using run_step ok_step by auto
qed

end
