(* ===== verification/AccessTrust.thy ===== *)
theory AccessTrust
  imports AccessLife
begin

text \<open>
  What the tables of AccessLife let the middleware conclude: a session rests on a password that was
  verified, a capture credential on an unrevoked pairing of its account, and a rotation ends every session.
  A concrete run applies the properties, and shows the one gap: a login that overlaps a rotation.
\<close>

section \<open>Runs and their history\<close>

inductive_cases accessRun_cons: "accessRun lib (a # b # tr)"

lemma accessRun_not_Nil: "accessRun lib tr \<Longrightarrow> tr \<noteq> []"
  by (induction rule: accessRun.induct) auto

text \<open>How one pairing row can change.\<close>

definition rowLater :: "pairing_row \<Rightarrow> pairing_row \<Rightarrow> bool" where
  "rowLater p q \<longleftrightarrow> paID q = paID p \<and> paAccountID q = paAccountID p
     \<and> (paClaimedAt p \<noteq> None \<longrightarrow> paClaimedAt q = paClaimedAt p \<and> paCodeHash q = None
          \<and> paCredentialHash q = paCredentialHash p \<and> paCredentialExpiresAt q = paCredentialExpiresAt p)
     \<and> (paRevokedAt p \<noteq> None \<longrightarrow> paRevokedAt q = paRevokedAt p)"

definition pairingsLater :: "access_db \<Rightarrow> access_db \<Rightarrow> bool" where
  "pairingsLater db db' \<longleftrightarrow> (\<forall>p \<in> set (adPairings db). \<exists>q \<in> set (adPairings db'). rowLater p q)"

lemma rowLater_refl: "pairingShape p \<Longrightarrow> rowLater p p"
  by (auto simp: rowLater_def pairingShape_def)

lemma rowLater_trans: "rowLater p q \<Longrightarrow> rowLater q r \<Longrightarrow> rowLater p r"
  by (auto simp: rowLater_def)

lemma pairingsLater_trans: "pairingsLater a b \<Longrightarrow> pairingsLater b c \<Longrightarrow> pairingsLater a c"
  unfolding pairingsLater_def using rowLater_trans by blast

lemma pairingsLater_incl:
  "pairingsOk db \<Longrightarrow> set (adPairings db) \<subseteq> set (adPairings db') \<Longrightarrow> pairingsLater db db'"
  unfolding pairingsLater_def pairingsOk_def using rowLater_refl by blast

lemma pairingsLater_map:
  "(\<And>p. p \<in> set (adPairings db) \<Longrightarrow> rowLater p (g p)) \<Longrightarrow> pairingsLater db (db\<lparr>adPairings := map g (adPairings db)\<rparr>)"
  unfolding pairingsLater_def by auto

lemma pairingsLater_claim:
  assumes ok: "pairingsOk db" and c: "claimPairingCode db h cred expires now = Inr (db', p')"
  shows "pairingsLater db db'"
proof -
  obtain p where p: "p \<in> set (adPairings db)" "claimable p h now"
    "p' = p\<lparr>paCredentialHash := Some cred, paCredentialExpiresAt := Some expires, paClaimedAt := Some now, paCodeHash := None\<rparr>"
    "db' = db\<lparr>adPairings := map (\<lambda>q. if paID q = paID p then p' else q) (adPairings db)\<rparr>"
    using c by (rule claimPairingCode_Inr)
  have "q = p" if "q \<in> set (adPairings db)" "paID q = paID p" for q
    using ok p(1) that by (auto simp: pairingsOk_def distinct_map inj_on_def)
  moreover have "rowLater p p'" using p(2,3) by (simp add: rowLater_def claimable_def)
  moreover have "rowLater q q" if "q \<in> set (adPairings db)" for q
    using ok that rowLater_refl by (auto simp: pairingsOk_def)
  ultimately show ?thesis
    unfolding p(4) by (intro pairingsLater_map) auto
qed

lemma pairingsLater_revoke: "pairingsOk db \<Longrightarrow> pairingsLater db (revokePairingsForAccount db account now)"
  unfolding revokePairingsForAccount_def
  by (rule pairingsLater_map) (auto simp: rowLater_def pairingsOk_def pairingShape_def)

lemma bootstrap_tables:
  "set (adSessions (fst (bootstrapOwner lib flt db ids salt inp))) \<subseteq> set (adSessions db)
   \<and> adPairings (fst (bootstrapOwner lib flt db ids salt inp)) = adPairings db"
proof (cases "bootstrapOwner lib flt db ids salt inp")
  case b: (Pair db' r)
  show ?thesis
  proof (cases r)
    case (Inl e)
    then show ?thesis using bootstrapOwner_Inl[of lib flt db ids salt inp e] b by simp
  next
    case (Inr ua)
    obtain u a where "ua = (u, a)" by (cases ua)
    then obtain db1 where b1: "bootstrapUser lib flt db ids salt inp = Inr (db1, u)"
      and a1: "ensureAccount flt db1 (bdAccount ids) (usOrganizationID u) inp = Inr (db', a)"
      using b Inr bootstrapOwner_Inr[of lib flt db ids salt inp db' u a] by blast
    have "set (adSessions db1) \<subseteq> set (adSessions db) \<and> adPairings db1 = adPairings db"
      using b1
      by (cases rule: bootstrapUser_cases)
        (auto simp: setPassword_Inr upsertUserCredential_def deleteSessionsForUser_def createOrganization_def
          createUser_def Let_def split: if_splits)
    moreover have "adSessions db' = adSessions db1 \<and> adPairings db' = adPairings db1"
      using a1 by (auto simp: ensureAccount_Inr createMarketplaceAccount_def Let_def split: if_splits)
    ultimately show ?thesis using b by simp
  qed
qed

lemma pairingsLater_step:
  assumes "accessStep lib past db db'" "accessOk lib db"
  shows "pairingsLater db db'"
proof -
  have ok: "pairingsOk db" using assms(2) by (simp add: accessOk_def)
  have refl: "pairingsLater db db" using pairingsLater_incl[OF ok] by simp
  show ?thesis using assms(1)
  proof cases
    case (step_login dbU dbC flt email password fresh now ttl)
    have "adPairings db' = adPairings db"
      using login_result[of lib flt dbU dbC db email password fresh now ttl] step_login(1)
      by (auto simp: createSession_def split: if_splits)
    then show ?thesis using pairingsLater_incl[OF ok] by simp
  next
    case (step_logout flt token)
    then show ?thesis
      using pairingsLater_incl[OF ok] refl by (auto simp: logout_def deleteSession_def)
  next
    case (step_mint flt i org fresh now ttl)
    then show ?thesis
      using mintCode_result[of lib flt db i org fresh now ttl] refl
      by (auto intro!: pairingsLater_incl[OF ok] simp: createPairingCode_def split: if_splits)
  next
    case (step_claim flt rawCode fresh now ttl)
    then show ?thesis
      using claimCode_result[of lib flt db rawCode fresh now ttl] refl pairingsLater_claim[OF ok] by auto
  next
    case (step_revoke flt org now)
    then show ?thesis
      using revoke_result[of flt db org now] refl pairingsLater_revoke[OF ok] by auto
  next
    case (step_bootstrap flt ids salt inp)
    then show ?thesis using pairingsLater_incl[OF ok] bootstrap_tables by simp
  qed
qed

text \<open>Well-formedness of every state of a run, for the proofs below.\<close>

lemma run_ok: "accessRun lib tr \<Longrightarrow> db \<in> set tr \<Longrightarrow> accessOk lib db"
  by (induction arbitrary: db rule: accessRun.induct) (auto simp: accessOk_empty intro: ok_step)

lemma run_pairings:
  "accessRun lib tr \<Longrightarrow> db \<in> set tr \<Longrightarrow> pairingsLater db (hd tr)"
proof (induction arbitrary: db rule: accessRun.induct)
  case run_empty
  then show ?case by (simp add: pairingsLater_def emptyAccess_def)
next
  case (run_step db0 tr db1)
  have ok: "accessOk lib db0" using run_ok[OF run_step(1)] by simp
  have st: "pairingsLater db0 db1" by (rule pairingsLater_step[OF run_step(2) ok])
  have "accessOk lib db1" by (rule ok_step[OF run_step(2) ok])
  then have "pairingsLater db1 db1" by (intro pairingsLater_incl) (simp_all add: accessOk_def)
  then show ?case using run_step.prems run_step.IH st pairingsLater_trans by auto
qed

section \<open>Capture credentials\<close>

lemma resolveCredential_Inr:
  assumes "resolveCredential lib flt db now raw = Inr s"
  obtains p where "p \<in> set (adPairings db)" "liveCredential p (alSha lib raw) now" "raw \<noteq> []"
    "csCredentialID s = paID p" "csMarketplaceAccountID s = paAccountID p"
proof -
  obtain p where "find (\<lambda>p. liveCredential p (alSha lib raw) now) (adPairings db) = Some p" "raw \<noteq> []"
    "s = \<lparr>csCredentialID = paID p, csMarketplaceAccountID = paAccountID p\<rparr>"
    using assms by (auto simp: resolveCredential_def split: if_splits option.splits)
  then show thesis by (intro that[of p]) (auto simp: find_Some_iff)
qed

text \<open>
  C17. The life of a capture credential: whatever has happened since, a pairing that was revoked at some
  point of a run never resolves again and can never be claimed; a pairing that was claimed is never claimed
  a second time; and as long as it resolves, it resolves to the account it was minted for.
\<close>

theorem credential_lifecycle:
  assumes run: "accessRun lib (db' # tr)" and "db \<in> set (db' # tr)" "p \<in> set (adPairings db)"
  shows "(paRevokedAt p \<noteq> None \<longrightarrow>
      (\<forall>flt now raw s. resolveCredential lib flt db' now raw = Inr s \<longrightarrow> csCredentialID s \<noteq> paID p)) \<and> (paRevokedAt p \<noteq> None \<or> paClaimedAt p \<noteq> None \<longrightarrow>
      (\<forall>flt raw fresh now ttl c. snd (claimCode lib flt db' raw fresh now ttl) = Inr c \<longrightarrow> pdCredentialID c \<noteq> paID p)) \<and> (\<forall>flt now raw s. resolveCredential lib flt db' now raw = Inr s \<and> csCredentialID s = paID p \<longrightarrow>
      csMarketplaceAccountID s = paAccountID p \<and> (\<exists>q \<in> set (adPairings db'). rowLater p q
        \<and> liveCredential q (alSha lib raw) now))"
proof -
  obtain q where q: "q \<in> set (adPairings db')" "rowLater p q"
    using run_pairings[OF assms(1,2)] assms(3) by (auto simp: pairingsLater_def)
  have same: "r = q" if "r \<in> set (adPairings db')" "paID r = paID p" for r
    using run_ok[OF run, of db'] q that
    by (auto simp: accessOk_def pairingsOk_def distinct_map inj_on_def rowLater_def)
  have A: "paRevokedAt p \<noteq> None \<longrightarrow>
      (\<forall>flt now raw s. resolveCredential lib flt db' now raw = Inr s \<longrightarrow> csCredentialID s \<noteq> paID p)"
    using same q(2) by (auto simp: rowLater_def liveCredential_def elim!: resolveCredential_Inr)
  have B: "paRevokedAt p \<noteq> None \<or> paClaimedAt p \<noteq> None \<longrightarrow>
      (\<forall>flt raw fresh now ttl c. snd (claimCode lib flt db' raw fresh now ttl) = Inr c \<longrightarrow> pdCredentialID c \<noteq> paID p)"
  proof (intro impI allI notI)
    fix flt raw fresh now ttl c
    assume h: "paRevokedAt p \<noteq> None \<or> paClaimedAt p \<noteq> None"
      and c: "snd (claimCode lib flt db' raw fresh now ttl) = Inr c" and i: "pdCredentialID c = paID p"
    obtain r where "r \<in> set (adPairings db')" "claimable r (alSha lib raw) now" "paID r = paID p"
      using claimCode_result[of lib flt db' raw fresh now ttl] c i by (auto elim!: claimPairingCode_Inr)
    then show False using same h q(2) by (auto simp: rowLater_def claimable_def)
  qed
  have C: "\<forall>flt now raw s. resolveCredential lib flt db' now raw = Inr s \<and> csCredentialID s = paID p \<longrightarrow>
      csMarketplaceAccountID s = paAccountID p \<and> (\<exists>q \<in> set (adPairings db'). rowLater p q
        \<and> liveCredential q (alSha lib raw) now)"
    using same q by (auto simp: rowLater_def elim!: resolveCredential_Inr)
  show ?thesis using A B C by (intro conjI)
qed

text \<open>
  Further. Evidence stays inside the pairing's account: when the middleware passes on an upload with a
  capture credential, that credential belongs to a live pairing of the account in the context, and an
  upload for any other account is refused without touching the store.
\<close>

theorem capture_scoped:
  assumes "wrapRequest (middlewareOf lib flt db now gw) rq = Serve cx" "rxCaptureAccount cx = Some a"
  shows "(\<exists>p \<in> set (adPairings db). liveCredential p (alSha lib (bearerToken rq)) now \<and> paAccountID p = a)
    \<and> (cuAccountID u \<noteq> a \<longrightarrow>
        uploadCapture cd reg odb (rxCaptureAccount cx) (Some u) t i = (odb, UploadStatus 403))"
proof -
  obtain pol where pol: "lookupPolicy (hrMethod rq) (hrPath rq) = Some pol"
    using assms(1) by (cases "lookupPolicy (hrMethod rq) (hrPath rq)")
      (auto simp: wrapRequest_def denyUnlisted_def split: sum.splits auth_error.splits)
  have none: "rxCaptureAccount (humanContext p t) = None" "rxCaptureAccount machineContext = None"
    "rxCaptureAccount emptyContext = None" for p t
    by (simp_all add: humanContext_def machineContext_def emptyContext_def)
  obtain s where "resolveCredential lib flt db now (bearerToken rq) = Inr s" "csMarketplaceAccountID s = a"
    using assms(1) pol
  proof (cases rule: wrapRequest_Serve)
    case (capture resolve s)
    then show thesis
      using assms(2) that by (auto simp: middlewareOf_def split: sum.splits)
  next
    case unguarded
    then show thesis
      using assms pol none by (auto simp: wrapRequest_def split: if_splits)
  qed (use assms(2) none in auto)
  then show ?thesis
    using assms(2) by (auto elim!: resolveCredential_Inr simp: uploadCapture_def)
qed

section \<open>Sessions\<close>

definition provenBy :: "access_lib \<Rightarrow> access_db set \<Rightarrow> uuid \<Rightarrow> bool" where
  "provenBy lib past i \<longleftrightarrow> (\<exists>dbC \<in> past. \<exists>h password. adCreds dbC i = Some h \<and> alVerify lib h password = Inr True)"

lemma provenBy_mono: "provenBy lib past i \<Longrightarrow> past \<subseteq> past' \<Longrightarrow> provenBy lib past' i"
  by (auto simp: provenBy_def)

lemma sessions_step:
  assumes "accessStep lib past db db'"
  shows "set (adSessions db') \<subseteq> set (adSessions db) \<union> {s. provenBy lib past (seUserID s)}"
  using assms
proof cases
  case (step_login dbU dbC flt email password fresh now ttl)
  have "provenBy lib past (usID u)" if "adCreds dbC (usID u) = Some h" "alVerify lib h password = Inr True" for u h
    using that step_login(3) unfolding provenBy_def by blast
  then show ?thesis
    using login_result[of lib flt dbU dbC db email password fresh now ttl] step_login(1)
    by (auto simp: createSession_def split: if_splits)
next
  case (step_logout flt token)
  then show ?thesis by (auto simp: logout_def deleteSession_def split: if_splits)
next
  case (step_mint flt i org fresh now ttl)
  then show ?thesis
    using mintCode_result[of lib flt db i org fresh now ttl] by (auto simp: createPairingCode_def split: if_splits)
next
  case (step_claim flt rawCode fresh now ttl)
  then show ?thesis
    using claimCode_result[of lib flt db rawCode fresh now ttl]
    by (auto simp: claimPairingCode_def Let_def split: option.splits if_splits)
next
  case (step_revoke flt org now)
  then show ?thesis
    using revoke_result[of flt db org now] by (auto simp: revokePairingsForAccount_def)
next
  case (step_bootstrap flt ids salt inp)
  then show ?thesis using bootstrap_tables by blast
qed

lemma run_sessions:
  "accessRun lib tr \<Longrightarrow> \<forall>s \<in> set (adSessions (hd tr)). provenBy lib (set tr) (seUserID s)"
proof (induction rule: accessRun.induct)
  case (run_step db tr db')
  have "provenBy lib (set (db # tr)) (seUserID s)" if "s \<in> set (adSessions db')" for s
    using sessions_step[OF run_step(2)] run_step(3) that by auto
  then show ?case using provenBy_mono[of lib "set (db # tr)" _ "set (db' # db # tr)"] by auto
qed (simp add: emptyAccess_def)

lemma resolveSession_Inr:
  assumes "resolveSession lib flt db now token = Inr p" "accessOk lib db"
  obtains s u where "s \<in> set (adSessions db)" "seTokenHash s = alSha lib token" "now < seExpiresAt s"
    "u \<in> set (adUsers db)" "usID u = seUserID s" "p = principalOf u (seExpiresAt s)" "token \<noteq> []"
proof -
  obtain s u where *: "find (\<lambda>s. seTokenHash s = alSha lib token \<and> now < seExpiresAt s) (adSessions db) = Some s"
    "getUser db (seUserID s) = Some u" "p = principalOf u (seExpiresAt s)" "token \<noteq> []"
    using assms(1) by (auto simp: resolveSession_def getSessionUser_def split: if_splits option.splits)
  then show thesis
    using assms(2) by (intro that[of s u]) (auto simp: find_Some_iff getUser_iff accessOk_def)
qed

text \<open>
  C5. Whoever changes a price or a guardrail is a person who logged in: if, in any state of any run of the
  tables, the middleware passes on a request to confirm a card, confirm in bulk, execute or retry, or to
  change a guardrail, the presented cookie belongs to an unexpired session, its user exists and now has the
  role owner or operator (owner for guardrails), some password was verified against that user's credential
  in an earlier state, and the handler sees that user's organisation.
\<close>

theorem mutations_by_live_sessions:
  assumes run: "accessRun lib (db # tr)"
    and served: "wrapRequest (middlewareOf lib flt db now gw) rq = Serve cx" "hrMethod rq = ''POST''"
      "hrPath rq \<in> {''/approvals/confirm'', ''/approvals/bulk/confirm'', ''/actions/execute'', ''/actions/retry'', ''/guardrails''}"
  shows "\<exists>s \<in> set (adSessions db). \<exists>u \<in> set (adUsers db).
    seTokenHash s = alSha lib (sessionToken rq) \<and> now < seExpiresAt s \<and> usID u = seUserID s
    \<and> usRole u \<in> (if hrPath rq = ''/guardrails'' then {roleOwner} else {roleOwner, roleOperator})
    \<and> provenBy lib (set (db # tr)) (usID u) \<and> orgFromCtx cx = usOrganizationID u"
proof -
  obtain p where p: "resolveSession lib flt db now (sessionToken rq) = Inr p" "orgFromCtx cx = apOrganizationID p"
    "apRole p \<in> (if hrPath rq = ''/guardrails'' then {roleOwner} else {roleOwner, roleOperator})"
    using only_people_approve[OF served] by (auto simp: middlewareOf_def)
  have ok: "accessOk lib db" using run_ok[OF run] by simp
  obtain s u where su: "s \<in> set (adSessions db)" "seTokenHash s = alSha lib (sessionToken rq)" "now < seExpiresAt s"
    "u \<in> set (adUsers db)" "usID u = seUserID s" "p = principalOf u (seExpiresAt s)"
    using resolveSession_Inr[OF p(1) ok] .
  have "provenBy lib (set (db # tr)) (usID u)" using run_sessions[OF run] su by simp
  then show ?thesis
    using p(2,3) su by (intro bexI[of _ s] bexI[of _ u]) (simp_all add: principalOf_def)
qed

section \<open>Provisioning\<close>

text \<open>
  Further. A rotation ends every session: after a provisioning run that rotated a user's password, no
  token resolves to that user, and the credential is the new hash.
\<close>

theorem rotation_revokes:
  assumes "bootstrapOwner lib flt db ids salt inp = (db', Inr (u, a))" "accessOk lib db"
    "getUserByEmail lib db (biEmail inp) \<noteq> None" "biRotate inp"
  shows "(\<forall>flt now token p. resolveSession lib flt db' now token = Inr p \<longrightarrow> apUserID p \<noteq> usID u)
    \<and> (\<exists>s. salt = Some s \<and> adCreds db' (usID u) = Some (alHash lib s (biPassword inp)))"
proof -
  obtain db1 where b: "bootstrapUser lib flt db ids salt inp = Inr (db1, u)"
    "ensureAccount flt db1 (bdAccount ids) (usOrganizationID u) inp = Inr (db', a)"
    using assms(1) by (auto simp: bootstrapOwner_Inr)
  obtain db0 where r: "setPassword lib flt db salt (usID u) (biPassword inp) = Inr db0"
    "db1 = deleteSessionsForUser db0 (usID u)"
    using b(1) assms(3,4) by (cases rule: bootstrapUser_cases) auto
  have same: "adSessions db' = adSessions db1" "adCreds db' = adCreds db1"
    using b(2) by (auto simp: ensureAccount_Inr createMarketplaceAccount_def Let_def split: if_splits)
  have ok: "accessOk lib db'" using ok_bootstrap[OF assms(2), of flt ids salt inp] assms(1) by simp
  show ?thesis
    using r same ok
    by (auto simp: setPassword_Inr upsertUserCredential_def deleteSessionsForUser_def principalOf_def
        elim!: resolveSession_Inr)
qed

end
