(* ===== verification/AccessDemo.thy ===== *)
theory AccessDemo
  imports AccessTrust
begin

text \<open>
  A concrete run of the access tables: an owner is provisioned, logs in, pairs an extension and revokes it.
  The properties of AccessTrust are applied to it.  A second run shows that a login whose reads precede a
  password rotation leaves a session behind that the rotation did not revoke.
\<close>

definition demoLib :: access_lib where
  "demoLib = \<lparr>alHash = (\<lambda>s p. s @ p), alVerify = (\<lambda>h p. Inr (h = p)), alSha = (\<lambda>t. 0x23 # t),
     alToLower = (\<lambda>s. s), alSqlLower = (\<lambda>s. s)\<rparr>"

definition noFaults :: faults where "noFaults = (\<lambda>_. False)"

definition demoInput :: "rune list \<Rightarrow> bool \<Rightarrow> bootstrap_input" where
  "demoInput password again = \<lparr>biDatabaseURL = [1], biEmail = [0x6f, 0x40], biPassword = password,
     biOrgName = [0x4f], biNativeID = [0x39], biDisplayName = [0x4f], biRotate = again\<rparr>"

definition demoIds :: bootstrap_ids where "demoIds = \<lparr>bdOrg = 1, bdUser = 2, bdAccount = 3\<rparr>"

definition demoUser :: user_row where
  "demoUser = \<lparr>usID = 2, usOrganizationID = 1, usEmail = [0x6f, 0x40], usRole = roleOwner\<rparr>"

definition demoSession :: session_row where
  "demoSession = \<lparr>seTokenHash = [0x23, 5], seUserID = 2, seExpiresAt = 100\<rparr>"

definition demoAccount :: org_account where
  "demoAccount = \<lparr>oaID = 3, oaOrganizationID = 1, oaNativeAccountID = [0x39], oaDisplayName = [0x4f]\<rparr>"

definition demoProvisioned :: "rune list \<Rightarrow> access_db" where
  "demoProvisioned password = \<lparr>adOrgs = [(1, [0x4f])], adUsers = [demoUser], adCreds = [2 \<mapsto> password],
     adSessions = [], adAccounts = [demoAccount], adPairings = []\<rparr>"

definition demoLoggedIn :: "rune list \<Rightarrow> access_db" where
  "demoLoggedIn password = (demoProvisioned password)\<lparr>adSessions := [demoSession]\<rparr>"

definition demoPairing :: pairing_row where
  "demoPairing = \<lparr>paID = 4, paAccountID = 3, paCodeHash = None, paCodeExpiresAt = 50,
     paCredentialHash = Some [0x23, 7], paCredentialExpiresAt = Some 90, paClaimedAt = Some 10, paRevokedAt = None\<rparr>"

definition demoMinted :: access_db where
  "demoMinted = (demoLoggedIn [9])\<lparr>adPairings := [demoPairing\<lparr>paCodeHash := Some [0x23, 6],
     paCredentialHash := None, paCredentialExpiresAt := None, paClaimedAt := None\<rparr>]\<rparr>"

definition demoClaimed :: access_db where
  "demoClaimed = (demoLoggedIn [9])\<lparr>adPairings := [demoPairing]\<rparr>"

definition demoRevoked :: access_db where
  "demoRevoked = (demoLoggedIn [9])\<lparr>adPairings := [demoPairing\<lparr>paRevokedAt := Some 20\<rparr>]\<rparr>"

lemmas demo_states = demoLib_def noFaults_def demoInput_def demoIds_def demoUser_def demoSession_def
  demoAccount_def demoProvisioned_def demoLoggedIn_def demoPairing_def demoMinted_def demoClaimed_def demoRevoked_def

lemma demo_email: "btrim [0x6f, 0x40] = [0x6f, 0x40]"
  by (simp add: btrim_def btrimSet_def)

lemmas demo_queries = getUserByEmail_def emailCanonical_def demo_email getUser_def setPassword_def hashPassword_def
  createOrganization_def createUser_def roleValid_def upsertUserCredential_def ensureAccount_def
  accountByOrganization_def createMarketplaceAccount_def Let_def

lemma demo_bootstrap:
  "fst (bootstrapOwner demoLib noFaults emptyAccess demoIds (Some []) (demoInput password False)) =
     (if password = [] then emptyAccess else demoProvisioned password)"
  by (simp add: bootstrapOwner_def bootstrapUser_def demo_queries demo_states emptyAccess_def)

lemma demo_rotation:
  "bootstrapOwner demoLib noFaults (demoProvisioned [9]) demoIds (Some []) (demoInput [8] True) =
     (demoProvisioned [8], Inr (demoUser, demoAccount))"
  by (simp add: bootstrapOwner_def bootstrapUser_def demo_queries demo_states deleteSessionsForUser_def)

lemma demo_login:
  "fst (login demoLib noFaults (demoProvisioned [9]) (demoProvisioned [9]) (demoProvisioned pw) [0x6f, 0x40] [9]
     (Some [5]) 0 100) = demoLoggedIn pw"
  by (simp add: login_def normEmail_def trimSpace_def isSpaceRune_def issueSession_def createSession_def
      demo_queries demo_states)

lemma demo_mint:
  "fst (mintCode demoLib noFaults (demoLoggedIn [9]) 4 1 (Some [6]) 0 50) = demoMinted"
  by (simp add: mintCode_def createPairingCode_def demo_queries demo_states)

lemma demo_claim:
  "fst (claimCode demoLib noFaults demoMinted [6] (Some [7]) 10 80) = demoClaimed"
  by (simp add: claimCode_def claimPairingCode_def claimable_def demo_queries demo_states)

lemma demo_revoke: "fst (revokeForOrganization noFaults demoClaimed 1 20) = demoRevoked"
  by (simp add: revokeForOrganization_def revokePairingsForAccount_def demo_queries demo_states)

lemma demo_run:
  "accessRun demoLib [demoRevoked, demoClaimed, demoMinted, demoLoggedIn [9], demoProvisioned [9], emptyAccess]"
proof -
  have 1: "accessRun demoLib [demoProvisioned [9], emptyAccess]"
    by (rule run_step[OF run_empty])
      (use step_bootstrap[of demoLib _ emptyAccess noFaults demoIds "Some []" "demoInput [9] False"] in
        \<open>simp add: demo_bootstrap\<close>)
  have 2: "accessRun demoLib [demoLoggedIn [9], demoProvisioned [9], emptyAccess]"
    by (rule run_step[OF 1])
      (use step_login[of "demoProvisioned [9]" _ "demoProvisioned [9]" demoLib "demoProvisioned [9]" noFaults
          "[0x6f, 0x40]" "[9]" "Some [5]" 0 100] in \<open>simp add: demo_login\<close>)
  have 3: "accessRun demoLib [demoMinted, demoLoggedIn [9], demoProvisioned [9], emptyAccess]"
    by (rule run_step[OF 2])
      (use step_mint[of demoLib _ "demoLoggedIn [9]" noFaults 4 1 "Some [6]" 0 50] in \<open>simp add: demo_mint\<close>)
  have 4: "accessRun demoLib [demoClaimed, demoMinted, demoLoggedIn [9], demoProvisioned [9], emptyAccess]"
    by (rule run_step[OF 3])
      (use step_claim[of demoLib _ demoMinted noFaults "[6]" "Some [7]" 10 80] in \<open>simp add: demo_claim\<close>)
  show ?thesis
    by (rule run_step[OF 4])
      (use step_revoke[of demoLib _ demoClaimed noFaults 1 20] in \<open>simp add: demo_revoke\<close>)
qed

theorem access_well_formed_witness: "accessOk demoLib demoRevoked"
  by (rule access_well_formed[OF demo_run]) simp

theorem credential_lifecycle_witness:
  "\<not> (\<exists>flt now raw s. resolveCredential demoLib flt demoRevoked now raw = Inr s \<and> csCredentialID s = 4)"
  using credential_lifecycle[OF demo_run, of demoRevoked "demoPairing\<lparr>paRevokedAt := Some 20\<rparr>"]
  by (simp add: demo_states)

definition demoRequest :: http_request where
  "demoRequest = \<lparr>hrMethod = ''POST'', hrPath = ''/guardrails'', hrAuthorization = [], hrCookie = Some [5]\<rparr>"

lemma demo_request_served:
  "wrapRequest (middlewareOf demoLib noFaults demoRevoked 30 []) demoRequest =
     Serve (humanContext (principalOf demoUser 100) [5])"
  by (simp add: wrapRequest_def demoRequest_def mutation_routes serveHuman_def middlewareOf_def sessionToken_def
      resolveSession_def getSessionUser_def getUser_def principalOf_def can_def roleValid_def ruleOf_def matrix_def
      demo_states)

theorem mutations_by_live_sessions_witness:
  "\<exists>s \<in> set (adSessions demoRevoked). \<exists>u \<in> set (adUsers demoRevoked). seTokenHash s = [0x23, 5] \<and> 30 < seExpiresAt s
     \<and> usID u = seUserID s \<and> usRole u = roleOwner"
  using mutations_by_live_sessions[OF demo_run demo_request_served]
  by (simp add: demoRequest_def sessionToken_def demo_states)

section \<open>A login across a rotation\<close>

text \<open>
  Further. A session opened with the old password survives a rotation: the login read the user and the
  credential before the rotation committed and inserted its session afterwards.  The tables then hold the
  new credential and a live session nobody could open with it.
\<close>

lemma login_race_survives_rotation:
  "accessRun demoLib [demoLoggedIn [8], demoProvisioned [8], demoProvisioned [9], emptyAccess]
   \<and> resolveSession demoLib noFaults (demoLoggedIn [8]) 30 [5] = Inr (principalOf demoUser 100)
   \<and> adCreds (demoLoggedIn [8]) 2 = Some [8] \<and> alVerify demoLib [8] [9] = Inr False"
proof (intro conjI)
  have 1: "accessRun demoLib [demoProvisioned [9], emptyAccess]"
    by (rule run_step[OF run_empty])
      (use step_bootstrap[of demoLib _ emptyAccess noFaults demoIds "Some []" "demoInput [9] False"] in
        \<open>simp add: demo_bootstrap\<close>)
  have 2: "accessRun demoLib [demoProvisioned [8], demoProvisioned [9], emptyAccess]"
    by (rule run_step[OF 1])
      (use step_bootstrap[of demoLib _ "demoProvisioned [9]" noFaults demoIds "Some []" "demoInput [8] True"] in
        \<open>simp add: demo_rotation\<close>)
  show "accessRun demoLib [demoLoggedIn [8], demoProvisioned [8], demoProvisioned [9], emptyAccess]"
    by (rule run_step[OF 2])
      (use step_login[of "demoProvisioned [9]" _ "demoProvisioned [9]" demoLib "demoProvisioned [8]" noFaults
          "[0x6f, 0x40]" "[9]" "Some [5]" 0 100] in \<open>simp add: demo_login\<close>)
qed (simp_all add: resolveSession_def getSessionUser_def getUser_def principalOf_def demo_states)

text \<open>
  Further. Provisioning again without the rotation flag is not without effect: an organisation that has no
  account gets one.
\<close>

lemma bootstrap_creates_account_for_existing:
  "fst (bootstrapOwner demoLib noFaults ((demoProvisioned [9])\<lparr>adAccounts := []\<rparr>) demoIds None (demoInput [8] False)) =
     demoProvisioned [9]"
  by (simp add: bootstrapOwner_def bootstrapUser_def demo_queries demo_states)

text \<open>\<open>btrim\<close> and \<open>TrimSpace\<close> trim the same characters, so the two canonical forms differ in case folding only.\<close>

lemma btrim_is_trimSpace: "btrim = trimSpace"
proof -
  have "9 \<le> r \<and> r \<le> 13 \<longleftrightarrow> r = 9 \<or> r = 10 \<or> r = 11 \<or> r = 12 \<or> r = 13" for r :: nat by arith
  moreover have "0x2000 \<le> r \<and> r \<le> 0x200A \<longleftrightarrow> r = 0x2000 \<or> r = 0x2001 \<or> r = 0x2002 \<or> r = 0x2003 \<or> r = 0x2004
     \<or> r = 0x2005 \<or> r = 0x2006 \<or> r = 0x2007 \<or> r = 0x2008 \<or> r = 0x2009 \<or> r = 0x200A" for r :: nat by arith
  ultimately have "isSpaceRune r \<longleftrightarrow> List.member btrimSet r" for r
    by (simp only: isSpaceRune_def btrimSet_def) (simp, blast)
  then have "isSpaceRune = List.member btrimSet" by blast
  then show ?thesis by (intro ext) (simp add: btrim_def trimSpace_def)
qed

end
