(* ===== verification/CostStore.thy ===== *)
theory CostStore
  imports Cost Permission
begin

text \<open>
  The cost service over its tables (services/core/internal/cost/service.go, scoped.go, db/cost.sql.go,
  migrations 0008 and 0019) and its endpoints (httpapi/cost.go): import previews and their commit,
  single values, point-in-time lookup, and the cached margin readiness with its freshness horizon.
  A transaction is a function to an error, which rolls it back, or to the new tables.
\<close>

section \<open>Tables\<close>

record cost_profile =
  kpID :: uuid
  kpAccountID :: uuid
  kpVariantID :: uuid
  kpComponent :: component
  kpVersion :: int
  kpMantissa :: int64
  kpCurrency :: string
  kpExponent :: "16 word"
  kpRawText :: "rune list"
  kpRawValue :: "rune list"
  kpRawUnit :: "rune list"
  kpEffectiveFrom :: instant
  kpStaleAfter :: "instant option"
  kpSource :: string
  kpBatchID :: "uuid option"
  kpCreatedBy :: "uuid option"

datatype batch_status = BatchPreview | BatchCommitted | BatchCancelled

record import_batch =
  kbID :: uuid
  kbAccountID :: uuid
  kbFilename :: "rune list"
  kbStatus :: batch_status
  kbAccept :: "32 word"
  kbReject :: "32 word"
  kbDuplicate :: "32 word"
  kbCreatedBy :: "uuid option"
  kbCommittedAt :: "instant option"

record import_row =
  kiBatchID :: uuid
  kiRowNumber :: "32 word"
  kiRawSKU :: "rune list"
  kiComponent :: component
  kiRawValue :: "rune list"
  kiNormalized :: "rune list"
  kiRawUnit :: "rune list"
  kiVariantID :: "uuid option"
  kiMantissa :: "int64 option"
  kiCurrency :: string
  kiExponent :: "16 word"
  kiDisposition :: disposition
  kiReason :: string

text \<open>A jsonb column of component names: \<open>None\<close> when it is not an array of strings.\<close>

type_synonym json_names = "string list option"

record cost_policy_row =
  kyCurrency :: string
  kyExponent :: "16 word"
  kyRequired :: json_names

record readiness_row =
  krVariantID :: uuid
  krAccountID :: uuid
  krState :: readiness_state
  krMissing :: json_names
  krStale :: json_names
  krComputedAt :: instant
  krStaleBoundary :: "instant option"

record cost_variant =
  kvID :: uuid
  kvAccountID :: uuid
  kvSupplierCode :: "rune list"

record cost_db =
  kdVariants :: "cost_variant list"
  kdOrgAccounts :: "uuid \<rightharpoonup> uuid"
  kdPolicies :: "uuid \<rightharpoonup> cost_policy_row"
  kdRequirements :: "uuid \<rightharpoonup> json_names"
  kdBatches :: "import_batch list"
  kdRows :: "import_row list"
  kdProfiles :: "cost_profile list"
  kdReadiness :: "uuid \<rightharpoonup> readiness_row"

datatype cost_error =
  ErrBatchNotFound | ErrBatchNotPreview | ErrUnresolvedDuplicates | ErrVariantNotFound
| ErrAccountVariantMismatch | ErrCostAccountNotFound | ErrCostCsv csv_error | ErrCostAmount amount_error
| ErrCostDb

section \<open>Column encodings\<close>

definition marshalComponents :: "component list \<Rightarrow> json_names" where
  "marshalComponents cs = Some (map componentText cs)"

definition componentSet :: "json_names \<Rightarrow> (component \<Rightarrow> bool) \<Rightarrow> component \<Rightarrow> bool" where
  "componentSet raw allowed c =
     (case raw of None \<Rightarrow> False | Some names \<Rightarrow> allowed c \<and> list_ex (\<lambda>n. componentOf n = c) names)"

definition decodeComponentList :: "json_names \<Rightarrow> component list" where
  "decodeComponentList raw =
     (case raw of None \<Rightarrow> [] | Some names \<Rightarrow> filter componentValid (map componentOf names))"

definition normalizedValue :: "rune list \<Rightarrow> rune list" where
  "normalizedValue raw = trimSpace (digits raw)"

definition uuidPtr :: "uuid \<Rightarrow> uuid option" where
  "uuidPtr i = (if i = 0 then None else Some i)"

section \<open>Queries\<close>

definition variantAccount :: "cost_db \<Rightarrow> uuid \<Rightarrow> uuid option" where
  "variantAccount db i = map_option kvAccountID (find (\<lambda>v. kvID v = i) (kdVariants db))"

definition resolveVariants :: "cost_db \<Rightarrow> uuid \<Rightarrow> rune list \<Rightarrow> cost_variant list" where
  "resolveVariants db account sku = filter (\<lambda>v. kvAccountID v = account \<and> kvSupplierCode v = sku) (kdVariants db)"

definition getBatch :: "cost_db \<Rightarrow> uuid \<Rightarrow> import_batch option" where
  "getBatch db i = find (\<lambda>b. kbID b = i) (kdBatches db)"

text \<open>The order of a stored row number and component; the sort of the database is stable enough to
  order by the text of the component.\<close>

definition importOrder :: "component list" where
  "importOrder = [ComponentAds, ComponentCOGS, ComponentCommission, ComponentFulfillment, ComponentPackaging,
     ComponentPromotion, ComponentReturns, ComponentShipping]"

definition componentRank :: "component \<Rightarrow> nat" where
  "componentRank c = length (takeWhile (\<lambda>d. d \<noteq> c) importOrder)"

definition listRows :: "cost_db \<Rightarrow> uuid \<Rightarrow> import_row list" where
  "listRows db i =
     sort_key (\<lambda>r. sint (kiRowNumber r)) (sort_key (\<lambda>r. componentRank (kiComponent r))
       (filter (\<lambda>r. kiBatchID r = i) (kdRows db)))"

definition listAccepted :: "cost_db \<Rightarrow> uuid \<Rightarrow> import_row list" where
  "listAccepted db i = filter (\<lambda>r. kiDisposition r = DispositionAccept \<and> kiVariantID r \<noteq> None) (listRows db i)"

text \<open>The row with the greatest effective date, then version.\<close>

definition newer :: "cost_profile \<Rightarrow> cost_profile \<Rightarrow> bool" where
  "newer p q \<longleftrightarrow> kpEffectiveFrom q < kpEffectiveFrom p
     \<or> kpEffectiveFrom q = kpEffectiveFrom p \<and> kpVersion q < kpVersion p"

definition newest :: "cost_profile list \<Rightarrow> cost_profile option" where
  "newest ps = foldl (\<lambda>best p. case best of None \<Rightarrow> Some p | Some q \<Rightarrow> Some (if newer p q then p else q)) None ps"

definition inForce :: "cost_profile list \<Rightarrow> uuid \<Rightarrow> instant \<Rightarrow> component \<Rightarrow> cost_profile option" where
  "inForce ps variant at c =
     newest (filter (\<lambda>p. kpVariantID p = variant \<and> kpComponent p = c \<and> kpEffectiveFrom p \<le> at) ps)"

definition costProfileAt :: "cost_db \<Rightarrow> uuid \<Rightarrow> instant \<Rightarrow> cost_profile list" where
  "costProfileAt db variant at = List.map_filter (inForce (kdProfiles db) variant at) importOrder"

definition costProfileAtForAccount :: "cost_db \<Rightarrow> uuid \<Rightarrow> uuid \<Rightarrow> instant \<Rightarrow> cost_profile list" where
  "costProfileAtForAccount db variant account at =
     List.map_filter (inForce (filter (\<lambda>p. kpAccountID p = account) (kdProfiles db)) variant at) importOrder"

definition versionsOf :: "cost_profile list \<Rightarrow> uuid \<Rightarrow> component \<Rightarrow> cost_profile list" where
  "versionsOf ps variant c = filter (\<lambda>p. kpVariantID p = variant \<and> kpComponent p = c) ps"

definition nextVersion :: "cost_profile list \<Rightarrow> uuid \<Rightarrow> component \<Rightarrow> int" where
  "nextVersion ps variant c = foldl max 0 (map kpVersion (versionsOf ps variant c)) + 1"

text \<open>The append with its constraints; the caller's row gets the next version.\<close>

definition insertProfile :: "cost_db \<Rightarrow> cost_profile \<Rightarrow> (cost_error, cost_db \<times> cost_profile) result" where
  "insertProfile db p0 =
     (let p = p0\<lparr>kpVersion := nextVersion (kdProfiles db) (kpVariantID p0) (kpComponent p0)\<rparr> in
      if \<not> componentValid (kpComponent p) \<or> 2147483647 < kpVersion p
         \<or> variantAccount db (kpVariantID p) = None
         \<or> list_ex (\<lambda>q. kpID q = kpID p \<or> kpVariantID q = kpVariantID p \<and> kpComponent q = kpComponent p
              \<and> kpVersion q = kpVersion p) (kdProfiles db)
      then Inl ErrCostDb
      else Inr (db\<lparr>kdProfiles := kdProfiles db @ [p]\<rparr>, p))"

definition insertBatch :: "cost_db \<Rightarrow> import_batch \<Rightarrow> cost_db option" where
  "insertBatch db b =
     (if getBatch db (kbID b) \<noteq> None then None else Some (db\<lparr>kdBatches := kdBatches db @ [b]\<rparr>))"

text \<open>A rejected or duplicate row needs a reason.\<close>

definition insertRow :: "cost_db \<Rightarrow> import_row \<Rightarrow> cost_db option" where
  "insertRow db r =
     (if kiDisposition r \<noteq> DispositionAccept \<and> kiReason r = [] then None
      else Some (db\<lparr>kdRows := kdRows db @ [r]\<rparr>))"

definition updateBatch :: "cost_db \<Rightarrow> uuid \<Rightarrow> (import_batch \<Rightarrow> bool) \<Rightarrow> (import_batch \<Rightarrow> import_batch)
    \<Rightarrow> (cost_db \<times> import_batch) option" where
  "updateBatch db i ok f =
     (case find (\<lambda>b. kbID b = i \<and> ok b) (kdBatches db) of
        None \<Rightarrow> None
      | Some b \<Rightarrow> Some (db\<lparr>kdBatches := map (\<lambda>x. if kbID x = i \<and> ok x then f x else x) (kdBatches db)\<rparr>, f b))"

definition markCommitted :: "cost_db \<Rightarrow> uuid \<Rightarrow> instant \<Rightarrow> (cost_db \<times> import_batch) option" where
  "markCommitted db i now =
     updateBatch db i (\<lambda>b. kbStatus b = BatchPreview \<and> kbDuplicate b = 0)
       (\<lambda>b. b\<lparr>kbStatus := BatchCommitted, kbCommittedAt := Some now\<rparr>)"

definition cancelBatch :: "cost_db \<Rightarrow> uuid \<Rightarrow> (cost_db \<times> import_batch) option" where
  "cancelBatch db i = updateBatch db i (\<lambda>b. kbStatus b = BatchPreview) (\<lambda>b. b\<lparr>kbStatus := BatchCancelled\<rparr>)"

text \<open>The upsert keeps the account of an existing row.\<close>

definition upsertReadiness :: "cost_db \<Rightarrow> readiness_row \<Rightarrow> (cost_error, cost_db \<times> readiness_row) result" where
  "upsertReadiness db r =
     (if variantAccount db (krVariantID r) = None then Inl ErrCostDb
      else (let r' = (case kdReadiness db (krVariantID r) of
                        None \<Rightarrow> r | Some old \<Rightarrow> r\<lparr>krAccountID := krAccountID old\<rparr>) in
            Inr (db\<lparr>kdReadiness := (kdReadiness db)(krVariantID r \<mapsto> r')\<rparr>, r')))"

section \<open>Readiness (service.go)\<close>

record account_policy =
  kaCurrency :: string
  kaExponent :: int8
  kaRequired :: "component \<Rightarrow> bool"

definition defaultEntryCurrency :: string where "defaultEntryCurrency = ''IRR''"
definition defaultEntryExponent :: int8 where "defaultEntryExponent = 0"

definition loadPolicy :: "cost_db \<Rightarrow> uuid \<Rightarrow> account_policy" where
  "loadPolicy db account =
     (case kdPolicies db account of
        None \<Rightarrow> \<lparr>kaCurrency = defaultEntryCurrency, kaExponent = defaultEntryExponent, kaRequired = (\<lambda>_. False)\<rparr>
      | Some y \<Rightarrow> \<lparr>kaCurrency = kyCurrency y, kaExponent = ucast (kyExponent y),
                   kaRequired = componentSet (kyRequired y) isP0Optional\<rparr>)"

definition loadApplicable :: "cost_db \<Rightarrow> uuid \<Rightarrow> component \<Rightarrow> bool" where
  "loadApplicable db variant =
     (case kdRequirements db variant of None \<Rightarrow> (\<lambda>_. False) | Some raw \<Rightarrow> componentSet raw isApplicableOptional)"

definition presenceFrom :: "instant \<Rightarrow> cost_profile \<Rightarrow> component_presence" where
  "presenceFrom now p =
     \<lparr>cpPresent = True,
      cpStale = (case kpStaleAfter p of None \<Rightarrow> False | Some t \<Rightarrow> \<not> now < t),
      cpAuthoritative = isAuthoritativeSource (kpSource p)\<rparr>"

text \<open>The two maps filled by the loop over the profiles.\<close>

definition presences :: "instant \<Rightarrow> cost_profile list \<Rightarrow> component \<rightharpoonup> component_presence" where
  "presences now ps = foldl (\<lambda>m p. m(kpComponent p \<mapsto> presenceFrom now p)) Map.empty ps"

definition staleAfters :: "cost_profile list \<Rightarrow> component \<rightharpoonup> instant" where
  "staleAfters ps =
     foldl (\<lambda>m p. case kpStaleAfter p of None \<Rightarrow> m | Some t \<Rightarrow> m(kpComponent p \<mapsto> t)) Map.empty ps"

definition readinessInputAt :: "cost_db \<Rightarrow> uuid \<Rightarrow> uuid \<Rightarrow> instant \<Rightarrow> readiness_input" where
  "readinessInputAt db account variant now =
     \<lparr>riComponents = presences now (costProfileAt db variant now),
      riApplicable = loadApplicable db variant,
      riRequiredOptional = kaRequired (loadPolicy db account)\<rparr>"

text \<open>9999-12-31 in nanoseconds of Unix time.\<close>

definition staleBoundarySentinel :: instant where
  "staleBoundarySentinel = 253402214400 * second"

definition boundaryStep :: "readiness_input \<Rightarrow> (component \<rightharpoonup> instant) \<Rightarrow> instant \<Rightarrow> component \<Rightarrow> instant" where
  "boundaryStep inp staleAfter boundary c =
     (if \<not> required inp c then boundary
      else (let p = presenceOf inp c in
            if \<not> cpPresent p \<or> (requiresAuthoritativeProvenance c \<and> \<not> cpAuthoritative p) \<or> cpStale p then boundary
            else (case staleAfter c of None \<Rightarrow> boundary | Some sa \<Rightarrow> if sa < boundary then sa else boundary)))"

definition earliestStaleBoundary :: "readiness_input \<Rightarrow> (component \<rightharpoonup> instant) \<Rightarrow> instant" where
  "earliestStaleBoundary inp staleAfter = foldl (boundaryStep inp staleAfter) staleBoundarySentinel allComponents"

text \<open>
  \<open>recompute\<close> reads in the state \<open>dbR\<close> and writes into \<open>db\<close>: inside a transaction they are the same, from
  the pool another transaction may commit in between.
\<close>

definition readinessRow :: "cost_db \<Rightarrow> uuid \<Rightarrow> uuid \<Rightarrow> instant \<Rightarrow> readiness_row" where
  "readinessRow dbR account variant now =
     (let inp = readinessInputAt dbR account variant now; verdict = deriveReadiness inp in
      \<lparr>krVariantID = variant, krAccountID = account, krState = rdState verdict,
       krMissing = marshalComponents (rdMissing verdict), krStale = marshalComponents (rdStale verdict),
       krComputedAt = now,
       krStaleBoundary = Some (earliestStaleBoundary inp (staleAfters (costProfileAt dbR variant now)))\<rparr>)"

definition recompute :: "cost_db \<Rightarrow> cost_db \<Rightarrow> uuid \<Rightarrow> uuid \<Rightarrow> instant \<Rightarrow> (cost_error, cost_db \<times> readiness_row) result" where
  "recompute dbR db account variant now = upsertReadiness db (readinessRow dbR account variant now)"

text \<open>
  Three moments: the cached row, or without one the owner, is read in \<open>dbC\<close>, the inputs in \<open>dbR\<close>, and the
  verdict is written into \<open>db\<close>.
\<close>

definition getReadiness :: "cost_db \<Rightarrow> cost_db \<Rightarrow> cost_db \<Rightarrow> uuid \<Rightarrow> instant \<Rightarrow> (cost_error, cost_db \<times> readiness_row) result" where
  "getReadiness dbC dbR db variant now =
     (case kdReadiness dbC variant of
        Some row \<Rightarrow>
          (case krStaleBoundary row of
             None \<Rightarrow> recompute dbR db (krAccountID row) variant now
           | Some t \<Rightarrow> if \<not> now < t then recompute dbR db (krAccountID row) variant now else Inr (db, row))
      | None \<Rightarrow>
          (case variantAccount dbC variant of
             None \<Rightarrow> Inl ErrVariantNotFound
           | Some account \<Rightarrow> recompute dbR db account variant now))"

definition recomputeReadiness :: "cost_db \<Rightarrow> cost_db \<Rightarrow> uuid \<Rightarrow> uuid \<Rightarrow> instant \<Rightarrow> (cost_error, cost_db \<times> readiness_row) result" where
  "recomputeReadiness dbR db account variant now = recompute dbR db account variant now"

section \<open>Imports (service.go)\<close>

fun resolveSKUs :: "cost_db \<Rightarrow> uuid \<Rightarrow> parsed_entry list \<Rightarrow> (rune list \<rightharpoonup> resolved_sku) \<Rightarrow> (rune list \<rightharpoonup> resolved_sku)" where
  "resolveSKUs db account [] m = m"
| "resolveSKUs db account (e # es) m =
     (case m (peRawSKU e) of
        Some _ \<Rightarrow> resolveSKUs db account es m
      | None \<Rightarrow>
          (let matches = resolveVariants db account (peRawSKU e) in
           resolveSKUs db account es (m(peRawSKU e \<mapsto>
             \<lparr>rsVariantID = (case matches of [v] \<Rightarrow> kvID v | _ \<Rightarrow> 0), rsCount = length matches\<rparr>))))"

record preview_input =
  piAccount :: uuid
  piFilename :: "rune list"
  piValidUTF8 :: bool
  piReads :: "csv_read list"
  piMapping :: mapping_spec
  piCreatedBy :: uuid

record import_preview =
  ipBatch :: import_batch
  ipRows :: "import_row list"
  ipDetected :: "detected_mapping option"

definition storedRow :: "uuid \<Rightarrow> preview_row \<Rightarrow> import_row" where
  "storedRow i r =
     \<lparr>kiBatchID = i, kiRowNumber = of_nat (prRowNumber r), kiRawSKU = prRawSKU r, kiComponent = prComponent r,
      kiRawValue = prRawValue r, kiNormalized = prNormalized r, kiRawUnit = [],
      kiVariantID = (if prHasVariant r then Some (prVariantID r) else None),
      kiMantissa = (if prHasAmount r then Some (prMantissa r) else None), kiCurrency = prCurrency r,
      kiExponent = scast (prExponent r), kiDisposition = prDisposition r, kiReason = prReason r\<rparr>"

fun insertRows :: "cost_db \<Rightarrow> import_row list \<Rightarrow> cost_db option" where
  "insertRows db [] = Some db"
| "insertRows db (r # rs) = (case insertRow db r of None \<Rightarrow> None | Some db' \<Rightarrow> insertRows db' rs)"

definition previewImport :: "(rune list \<Rightarrow> rune list) \<Rightarrow> cost_db \<Rightarrow> uuid \<Rightarrow> preview_input
    \<Rightarrow> (cost_error, cost_db \<times> import_preview) result" where
  "previewImport lower db i inp =
     andThen (mapErr ErrCostCsv (parseCSV lower (piValidUTF8 inp) (piReads inp) (piMapping inp))) (\<lambda>(entries, detected).
       let pol = loadPolicy db (piAccount inp);
           (rows, cnt) = buildPreviewRows entries (resolveSKUs db (piAccount inp) entries Map.empty)
                           (kaCurrency pol) (kaExponent pol);
           b = \<lparr>kbID = i, kbAccountID = piAccount inp, kbFilename = piFilename inp, kbStatus = BatchPreview,
                kbAccept = of_nat (cntAccept cnt), kbReject = of_nat (cntReject cnt),
                kbDuplicate = of_nat (cntDuplicate cnt), kbCreatedBy = uuidPtr (piCreatedBy inp),
                kbCommittedAt = None\<rparr>;
           stored = map (storedRow i) rows in
       case insertBatch db b of
         None \<Rightarrow> Inl ErrCostDb
       | Some db1 \<Rightarrow>
           (case insertRows db1 stored of
              None \<Rightarrow> Inl ErrCostDb
            | Some db2 \<Rightarrow> Inr (db2, \<lparr>ipBatch = b, ipRows = stored, ipDetected = Some detected\<rparr>)))"

definition getPreview :: "cost_db \<Rightarrow> uuid \<Rightarrow> (cost_error, import_preview) result" where
  "getPreview db i =
     (case getBatch db i of
        None \<Rightarrow> Inl ErrBatchNotFound
      | Some b \<Rightarrow> Inr \<lparr>ipBatch = b, ipRows = listRows db i, ipDetected = None\<rparr>)"

record commit_result =
  kcBatch :: import_batch
  kcCommittedRows :: nat
  kcAffected :: "uuid list"

text \<open>The version an accepted row becomes; reading an invalid amount column yields zero.\<close>

definition profileOfRow :: "import_batch \<Rightarrow> uuid \<Rightarrow> instant \<Rightarrow> uuid \<Rightarrow> import_row \<Rightarrow> cost_profile" where
  "profileOfRow b createdBy now i r =
     \<lparr>kpID = i, kpAccountID = kbAccountID b, kpVariantID = (case kiVariantID r of None \<Rightarrow> 0 | Some v \<Rightarrow> v),
      kpComponent = kiComponent r, kpVersion = 0,
      kpMantissa = (case kiMantissa r of None \<Rightarrow> 0 | Some m \<Rightarrow> m), kpCurrency = kiCurrency r,
      kpExponent = kiExponent r, kpRawText = kiRawValue r, kpRawValue = kiNormalized r, kpRawUnit = kiRawUnit r,
      kpEffectiveFrom = now, kpStaleAfter = None, kpSource = sourceCSVImport, kpBatchID = Some (kbID b),
      kpCreatedBy = uuidPtr createdBy\<rparr>"

fun insertProfiles :: "cost_db \<Rightarrow> cost_profile list \<Rightarrow> (cost_error, cost_db) result" where
  "insertProfiles db [] = Inr db"
| "insertProfiles db (p # ps) = andThen (insertProfile db p) (\<lambda>(db', _). insertProfiles db' ps)"

fun recomputeAll :: "cost_db \<Rightarrow> uuid \<Rightarrow> instant \<Rightarrow> uuid list \<Rightarrow> (cost_error, cost_db) result" where
  "recomputeAll db account now [] = Inr db"
| "recomputeAll db account now (v # vs) =
     andThen (recompute db db account v now) (\<lambda>(db', _). recomputeAll db' account now vs)"

text \<open>
  \<open>ids\<close> are the generated ids; \<open>order\<close> is the order in which Go's map iteration visits the affected
  variants.
\<close>

definition commitImport :: "(uuid list \<Rightarrow> uuid list) \<Rightarrow> cost_db \<Rightarrow> (nat \<Rightarrow> uuid) \<Rightarrow> uuid \<Rightarrow> uuid \<Rightarrow> instant
    \<Rightarrow> (cost_error, cost_db \<times> commit_result) result" where
  "commitImport order db ids i createdBy now =
     (case getBatch db i of
        None \<Rightarrow> Inl ErrBatchNotFound
      | Some b \<Rightarrow>
          if kbStatus b \<noteq> BatchPreview then Inl ErrBatchNotPreview
          else if 0 <s kbDuplicate b then Inl ErrUnresolvedDuplicates
          else (case markCommitted db i now of
                  None \<Rightarrow> Inl ErrBatchNotPreview
                | Some (db1, committed) \<Rightarrow>
                    (let accepted = listAccepted db1 i;
                         ps = map (\<lambda>(k, r). profileOfRow b createdBy now (ids k) r) (enumerate 0 accepted);
                         variants = order (remdups (map kpVariantID ps)) in
                     andThen (insertProfiles db1 ps) (\<lambda>db2.
                     andThen (recomputeAll db2 (kbAccountID b) now variants) (\<lambda>db3.
                       Inr (db3, \<lparr>kcBatch = committed, kcCommittedRows = length accepted, kcAffected = variants\<rparr>))))))"

definition cancelImport :: "cost_db \<Rightarrow> uuid \<Rightarrow> (cost_error, cost_db \<times> import_batch) result" where
  "cancelImport db i = (case cancelBatch db i of None \<Rightarrow> Inl ErrBatchNotPreview | Some r \<Rightarrow> Inr r)"

section \<open>Single values, settings and scoped reads\<close>

definition assertVariantOwnedBy :: "cost_db \<Rightarrow> uuid \<Rightarrow> uuid \<Rightarrow> (cost_error, unit) result" where
  "assertVariantOwnedBy db account variant =
     (case variantAccount db variant of
        None \<Rightarrow> Inl ErrVariantNotFound
      | Some owner \<Rightarrow> guardR (owner = account) ErrAccountVariantMismatch)"

record single_cost_input =
  siAccount :: uuid
  siVariantID :: uuid
  siComponent :: component
  siRawValue :: "rune list"
  siRawUnit :: "rune list"
  siEffectiveFrom :: "instant option"
  siStaleAfter :: "instant option"
  siCreatedBy :: uuid

text \<open>The zero time of the request stands for no date; two clock readings.\<close>

definition enterSingleCost :: "cost_db \<Rightarrow> uuid \<Rightarrow> single_cost_input \<Rightarrow> instant \<Rightarrow> instant
    \<Rightarrow> (cost_error, cost_db \<times> cost_profile) result" where
  "enterSingleCost db i inp now now2 =
     (if \<not> componentValid (siComponent inp) then Inl (ErrCostAmount ErrInvalidAmount)
      else
        andThen (assertVariantOwnedBy db (siAccount inp) (siVariantID inp)) (\<lambda>_.
          let pol = loadPolicy db (siAccount inp) in
          andThen (mapErr ErrCostAmount (parseAmount (siRawValue inp) (kaCurrency pol) (kaExponent pol))) (\<lambda>m.
          andThen (insertProfile db
            \<lparr>kpID = i, kpAccountID = siAccount inp, kpVariantID = siVariantID inp, kpComponent = siComponent inp,
             kpVersion = 0, kpMantissa = mantissa m, kpCurrency = currency m, kpExponent = scast (exponent m),
             kpRawText = siRawValue inp, kpRawValue = normalizedValue (siRawValue inp), kpRawUnit = siRawUnit inp,
             kpEffectiveFrom = (case siEffectiveFrom inp of None \<Rightarrow> now | Some t \<Rightarrow> t),
             kpStaleAfter = siStaleAfter inp, kpSource = sourceSingleValue, kpBatchID = None,
             kpCreatedBy = uuidPtr (siCreatedBy inp)\<rparr>) (\<lambda>(db1, p).
          andThen (recompute db1 db1 (siAccount inp) (siVariantID inp) now2) (\<lambda>(db2, _).
            Inr (db2, p))))))"

definition listVersions :: "cost_db \<Rightarrow> uuid \<Rightarrow> component \<Rightarrow> cost_profile list" where
  "listVersions db variant c =
     rev (sort_key kpEffectiveFrom (sort_key kpVersion (versionsOf (kdProfiles db) variant c)))"

definition setAccountPolicy :: "cost_db \<Rightarrow> uuid \<Rightarrow> string \<Rightarrow> int8 \<Rightarrow> component list \<Rightarrow> cost_db" where
  "setAccountPolicy db account cur ex requiredOptional =
     db\<lparr>kdPolicies := (kdPolicies db)(account \<mapsto>
       \<lparr>kyCurrency = cur, kyExponent = scast ex, kyRequired = marshalComponents requiredOptional\<rparr>)\<rparr>"

definition setSkuApplicable :: "cost_db \<Rightarrow> uuid \<Rightarrow> uuid \<Rightarrow> component list \<Rightarrow> (cost_error, cost_db) result" where
  "setSkuApplicable db account variant applicable =
     andThen (assertVariantOwnedBy db account variant) (\<lambda>_.
       Inr (db\<lparr>kdRequirements := (kdRequirements db)(variant \<mapsto> marshalComponents applicable)\<rparr>))"

definition costAccountForOrg :: "cost_db \<Rightarrow> uuid \<Rightarrow> (cost_error, uuid) result" where
  "costAccountForOrg db org = (case kdOrgAccounts db org of None \<Rightarrow> Inl ErrCostAccountNotFound | Some a \<Rightarrow> Inr a)"

definition costProfileAtForOrg :: "cost_db \<Rightarrow> uuid \<Rightarrow> uuid \<Rightarrow> instant \<Rightarrow> (cost_error, cost_profile list) result" where
  "costProfileAtForOrg db org variant at =
     andThen (costAccountForOrg db org) (\<lambda>account. Inr (costProfileAtForAccount db variant account at))"

definition getReadinessForOrg :: "cost_db \<Rightarrow> cost_db \<Rightarrow> cost_db \<Rightarrow> cost_db \<Rightarrow> uuid \<Rightarrow> uuid \<Rightarrow> instant
    \<Rightarrow> (cost_error, cost_db \<times> readiness_row) result" where
  "getReadinessForOrg dbO dbC dbR db org variant now =
     andThen (costAccountForOrg dbO org) (\<lambda>account.
       case variantAccount dbO variant of
         None \<Rightarrow> Inl ErrVariantNotFound
       | Some owner \<Rightarrow> if owner \<noteq> account then Inl ErrVariantNotFound else getReadiness dbC dbR db variant now)"

definition getPreviewForOrg :: "cost_db \<Rightarrow> uuid \<Rightarrow> uuid \<Rightarrow> (cost_error, import_preview) result" where
  "getPreviewForOrg db org i =
     andThen (costAccountForOrg db org) (\<lambda>account.
       case getBatch db i of
         None \<Rightarrow> Inl ErrBatchNotFound
       | Some b \<Rightarrow> if kbAccountID b \<noteq> account then Inl ErrBatchNotFound else getPreview db i)"

section \<open>The endpoints (httpapi/cost.go)\<close>

definition costStatus :: "cost_error \<Rightarrow> nat" where
  "costStatus e =
     (case e of
        ErrBatchNotFound \<Rightarrow> 404 | ErrVariantNotFound \<Rightarrow> 404 | ErrCostAccountNotFound \<Rightarrow> 404
      | ErrAccountVariantMismatch \<Rightarrow> 403
      | ErrBatchNotPreview \<Rightarrow> 409 | ErrUnresolvedDuplicates \<Rightarrow> 409
      | ErrCostCsv _ \<Rightarrow> 400
      | ErrCostAmount a \<Rightarrow> (case a of AmountMoneyErr _ \<Rightarrow> 500 | _ \<Rightarrow> 400)
      | ErrCostDb \<Rightarrow> 500)"

definition principalID :: "request_context \<Rightarrow> uuid" where
  "principalID cx = (case rxPrincipal cx of None \<Rightarrow> 0 | Some p \<Rightarrow> apUserID p)"

datatype cost_response =
  CostStatus nat | CostPreviewed import_preview | CostCommitted commit_result | CostEntered cost_profile
| CostListed "cost_profile list" | CostReadiness readiness_row "component list" "component list"

definition previewEndpoint :: "(rune list \<Rightarrow> rune list) \<Rightarrow> cost_db \<Rightarrow> uuid \<Rightarrow> request_context \<Rightarrow> preview_input option
    \<Rightarrow> cost_db \<times> cost_response" where
  "previewEndpoint lower db i cx body =
     (case body of
        None \<Rightarrow> (db, CostStatus 400)
      | Some inp \<Rightarrow>
          (case previewImport lower db i (inp\<lparr>piCreatedBy := principalID cx\<rparr>) of
             Inl e \<Rightarrow> (db, CostStatus (costStatus e)) | Inr (db', p) \<Rightarrow> (db', CostPreviewed p)))"

definition getPreviewEndpoint :: "cost_db \<Rightarrow> request_context \<Rightarrow> uuid \<Rightarrow> cost_response" where
  "getPreviewEndpoint db cx i =
     (case getPreviewForOrg db (orgFromCtx cx) i of Inl e \<Rightarrow> CostStatus (costStatus e) | Inr p \<Rightarrow> CostPreviewed p)"

definition commitEndpoint :: "(uuid list \<Rightarrow> uuid list) \<Rightarrow> cost_db \<Rightarrow> (nat \<Rightarrow> uuid) \<Rightarrow> request_context \<Rightarrow> uuid option
    \<Rightarrow> instant \<Rightarrow> cost_db \<times> cost_response" where
  "commitEndpoint order db ids cx body now =
     (case body of
        None \<Rightarrow> (db, CostStatus 400)
      | Some i \<Rightarrow>
          (case commitImport order db ids i (principalID cx) now of
             Inl e \<Rightarrow> (db, CostStatus (costStatus e)) | Inr (db', r) \<Rightarrow> (db', CostCommitted r)))"

definition enterSingleEndpoint :: "cost_db \<Rightarrow> uuid \<Rightarrow> request_context \<Rightarrow> single_cost_input option \<Rightarrow> instant \<Rightarrow> instant
    \<Rightarrow> cost_db \<times> cost_response" where
  "enterSingleEndpoint db i cx body now now2 =
     (case body of
        None \<Rightarrow> (db, CostStatus 400)
      | Some inp \<Rightarrow>
          (case enterSingleCost db i (inp\<lparr>siCreatedBy := principalID cx\<rparr>) now now2 of
             Inl e \<Rightarrow> (db, CostStatus (costStatus e)) | Inr (db', p) \<Rightarrow> (db', CostEntered p)))"

definition listProfilesEndpoint :: "cost_db \<Rightarrow> request_context \<Rightarrow> uuid \<Rightarrow> instant option \<Rightarrow> instant \<Rightarrow> cost_response" where
  "listProfilesEndpoint db cx variant asOf now =
     (case costProfileAtForOrg db (orgFromCtx cx) variant (case asOf of None \<Rightarrow> now | Some t \<Rightarrow> t) of
        Inl e \<Rightarrow> CostStatus (costStatus e) | Inr ps \<Rightarrow> CostListed ps)"

definition readinessEndpoint :: "cost_db \<Rightarrow> cost_db \<Rightarrow> cost_db \<Rightarrow> cost_db \<Rightarrow> request_context \<Rightarrow> uuid \<Rightarrow> instant \<Rightarrow> cost_db \<times> cost_response" where
  "readinessEndpoint dbO dbC dbR db cx variant now =
     (case getReadinessForOrg dbO dbC dbR db (orgFromCtx cx) variant now of
        Inl e \<Rightarrow> (db, CostStatus (costStatus e))
      | Inr (db', r) \<Rightarrow>
          (db', CostReadiness r (decodeComponentList (krMissing r)) (decodeComponentList (krStale r))))"

end
