(* ===== verification/CostLife.thy ===== *)
theory CostLife
  imports CostStore "HOL-Library.Multiset"
begin

text \<open>
  What the cost tables keep: versions are appended, numbered without gaps and belong to the account that
  owns their variant; an import is committed once and exactly; the point-in-time lookup is not changed by
  versions that take effect later; and the cached readiness answers what a recomputation would.
\<close>

section \<open>Point-in-time lookup\<close>

lemma newest_Some:
  "newest ps = Some p \<Longrightarrow> p \<in> set ps \<and> (\<forall>q \<in> set ps. \<not> newer q p)"
proof (induction ps arbitrary: p rule: rev_induct)
  case (snoc x ps)
  show ?case
  proof (cases "newest ps")
    case None
    then have "ps = []" by (cases ps rule: rev_cases) (auto simp: newest_def split: option.splits)
    then show ?thesis using snoc.prems by (auto simp: newest_def newer_def)
  next
    case (Some q)
    then show ?thesis using snoc.IH[OF Some] snoc.prems
      by (auto simp: newest_def newer_def split: if_splits)
  qed
qed (simp add: newest_def)

lemma newest_None: "newest ps = None \<longleftrightarrow> ps = []"
  by (cases ps rule: rev_cases) (auto simp: newest_def split: option.splits)

text \<open>Versions that are not selected by the filter do not matter.\<close>

lemma inForce_append:
  "\<forall>p \<in> set new. kpVariantID p \<noteq> variant \<or> at < kpEffectiveFrom p \<Longrightarrow>
     inForce (ps @ new) variant at c = inForce ps variant at c"
proof -
  assume "\<forall>p \<in> set new. kpVariantID p \<noteq> variant \<or> at < kpEffectiveFrom p"
  then have "filter (\<lambda>p. kpVariantID p = variant \<and> kpComponent p = c \<and> kpEffectiveFrom p \<le> at) new = []"
    by (auto simp: filter_empty_conv)
  then show ?thesis by (simp add: inForce_def)
qed

lemma inForce_same:
  "\<forall>p \<in> set ps. kpVariantID p = variant \<longrightarrow> kpEffectiveFrom p \<le> t \<or> t' < kpEffectiveFrom p \<Longrightarrow> t \<le> t' \<Longrightarrow>
     inForce ps variant t' c = inForce ps variant t c"
  unfolding inForce_def
  by (rule arg_cong[where f = newest]) (rule filter_cong, auto)

lemma inForce_facts:
  "inForce ps variant at c = Some p \<Longrightarrow>
     p \<in> set ps \<and> kpVariantID p = variant \<and> kpComponent p = c \<and> kpEffectiveFrom p \<le> at"
  by (auto simp: inForce_def dest!: newest_Some)

lemma mem_importOrder: "c \<in> set importOrder \<longleftrightarrow> componentValid c"
  by (cases c) (simp_all add: importOrder_def componentValid_def component_class_defs)

lemma distinct_importOrder: "distinct importOrder"
  by (simp add: importOrder_def)

text \<open>The maps the recomputation fills hold, per component, the version in force.\<close>

lemma foldl_update:
  assumes "distinct (map key ps)"
  shows "foldl (\<lambda>m p. m(key p \<mapsto> val p)) m0 ps c =
    (case find (\<lambda>p. key p = c) ps of None \<Rightarrow> m0 c | Some p \<Rightarrow> Some (val p))"
  using assms
proof (induction ps arbitrary: m0)
  case (Cons p ps)
  show ?case
  proof (cases "key p = c")
    case True
    then have "find (\<lambda>q. key q = c) ps = None" using Cons.prems by (auto simp: find_None_iff image_iff)
    then show ?thesis using Cons True by simp
  next
    case False
    then show ?thesis using Cons by (simp split: option.split)
  qed
qed simp

lemma costProfileAt_find:
  "find (\<lambda>p. kpComponent p = c) (List.map_filter (inForce ps variant at) cs) =
     (if c \<in> set cs then inForce ps variant at c else None)"
proof (induction cs)
  case (Cons d cs)
  show ?case
  proof (cases "inForce ps variant at d")
    case None
    then show ?thesis using Cons by (auto simp: map_filter_simps)
  next
    case (Some p)
    then have "kpComponent p = d" using inForce_facts by blast
    then show ?thesis using Cons Some by (auto simp: map_filter_simps)
  qed
qed (simp add: map_filter_simps)

lemma costProfileAt_distinct:
  "distinct cs \<Longrightarrow> distinct (map kpComponent (List.map_filter (inForce ps variant at) cs))"
proof (induction cs)
  case (Cons d cs)
  have "kpComponent q \<in> set cs" if "q \<in> set (List.map_filter (inForce ps variant at) cs)" for q
    using that by (induction cs) (auto simp: map_filter_simps split: option.splits dest: inForce_facts)
  moreover have "inForce ps variant at d = Some p \<Longrightarrow> kpComponent p = d" for p using inForce_facts by blast
  ultimately show ?case using Cons by (cases "inForce ps variant at d") (auto simp: map_filter_simps)
qed (simp add: map_filter_simps)

lemma presences_at:
  "presences now (costProfileAt db variant at) c =
     (if componentValid c then map_option (presenceFrom now) (inForce (kdProfiles db) variant at c) else None)"
  unfolding presences_def costProfileAt_def
  by (subst foldl_update[OF costProfileAt_distinct[OF distinct_importOrder]])
    (simp add: costProfileAt_find mem_importOrder split: option.split)

lemma staleAfters_foldl:
  "foldl (\<lambda>m p. case kpStaleAfter p of None \<Rightarrow> m | Some t \<Rightarrow> m(kpComponent p \<mapsto> t)) m0 ps =
     foldl (\<lambda>m p. m(kpComponent p \<mapsto> the (kpStaleAfter p))) m0 (filter (\<lambda>p. kpStaleAfter p \<noteq> None) ps)"
  by (induction ps arbitrary: m0) (auto split: option.split)

lemma find_filter: "distinct (map key ps) \<Longrightarrow>
    find (\<lambda>p. key p = c) (filter P ps) = (case find (\<lambda>p. key p = c) ps of None \<Rightarrow> None | Some p \<Rightarrow> if P p then Some p else None)"
proof (induction ps)
  case (Cons p ps)
  show ?case
  proof (cases "key p = c")
    case True
    then have "find (\<lambda>q. key q = c) ps = None" using Cons.prems by (auto simp: find_None_iff image_iff)
    then show ?thesis using Cons True by simp
  next
    case False
    then show ?thesis using Cons by simp
  qed
qed simp

lemma staleAfters_at:
  "staleAfters (costProfileAt db variant at) c =
     (if componentValid c
      then Option.bind (inForce (kdProfiles db) variant at c) kpStaleAfter else None)"
proof -
  have d: "distinct (map kpComponent (costProfileAt db variant at))"
    unfolding costProfileAt_def by (rule costProfileAt_distinct[OF distinct_importOrder])
  then have d': "distinct (map kpComponent (filter P (costProfileAt db variant at)))" for P
    by (simp add: distinct_map inj_on_def)
  show ?thesis
    unfolding staleAfters_def staleAfters_foldl foldl_update[OF d'] find_filter[OF d]
    by (auto simp: costProfileAt_def costProfileAt_find mem_importOrder split: option.split)
qed

section \<open>The freshness horizon\<close>

lemma boundary_le: "foldl (boundaryStep inp sa) b cs \<le> b"
proof (induction cs arbitrary: b)
  case (Cons c cs)
  have "boundaryStep inp sa b c \<le> b" by (auto simp: boundaryStep_def Let_def split: option.split)
  then show ?case using Cons[of "boundaryStep inp sa b c"] by simp
qed simp

text \<open>The horizon is no later than the review-by instant of any component that can still age.\<close>

lemma boundary_bounds:
  assumes "c \<in> set cs" "required inp c" "satisfied inp c" "\<not> cpStale (presenceOf inp c)" "sa c = Some t"
  shows "foldl (boundaryStep inp sa) b cs \<le> t"
  using assms(1)
proof (induction cs arbitrary: b)
  case (Cons d cs)
  show ?case
  proof (cases "d = c")
    case True
    then have "boundaryStep inp sa b d \<le> t"
      using assms(2-5) by (auto simp: boundaryStep_def satisfied_def Let_def)
    then show ?thesis using boundary_le[of inp sa "boundaryStep inp sa b d" cs] by simp
  next
    case False
    then show ?thesis using Cons by simp
  qed
qed simp

text \<open>
  Two inputs that agree on what is required and present, and in staleness on what is required and
  satisfied, give the same verdict.
\<close>

lemma deriveReadiness_cong:
  assumes "\<And>c. required inp c = required inp' c" "\<And>c. satisfied inp c = satisfied inp' c"
    "\<And>c. required inp c \<Longrightarrow> satisfied inp c \<Longrightarrow> cpStale (presenceOf inp c) = cpStale (presenceOf inp' c)"
  shows "deriveReadiness inp = deriveReadiness inp'"
proof -
  have "rdMissing (deriveReadiness inp) = rdMissing (deriveReadiness inp')"
    unfolding deriveReadiness_lists using assms by simp
  moreover have "rdStale (deriveReadiness inp) = rdStale (deriveReadiness inp')"
    unfolding deriveReadiness_lists using assms by (intro filter_cong) auto
  moreover have "rdState (deriveReadiness inp) = rdState (deriveReadiness inp')"
  proof -
    have E: "(\<exists>c. required inp' c \<and> cpStale (presenceOf inp c) \<and> satisfied inp' c)
      = (\<exists>c. required inp' c \<and> cpStale (presenceOf inp' c) \<and> satisfied inp' c)" using assms by metis
    show ?thesis unfolding deriveReadiness_state by (simp only: assms(1,2) E)
  qed
  ultimately show ?thesis by (cases "deriveReadiness inp"; cases "deriveReadiness inp'") simp
qed

text \<open>
  Until the horizon, and while no further version takes effect, the verdict does not change.
\<close>

lemma verdict_until_boundary:
  assumes "t \<le> now" "now < earliestStaleBoundary (readinessInputAt db account variant t) (staleAfters (costProfileAt db variant t))"
    "\<forall>p \<in> set (kdProfiles db). kpVariantID p = variant \<longrightarrow> kpEffectiveFrom p \<le> t \<or> now < kpEffectiveFrom p"
  shows "deriveReadiness (readinessInputAt db account variant now) = deriveReadiness (readinessInputAt db account variant t)"
proof -
  let ?a = "readinessInputAt db account variant t" and ?b = "readinessInputAt db account variant now"
  have same: "inForce (kdProfiles db) variant now c = inForce (kdProfiles db) variant t c" for c
    using inForce_same[OF assms(3,1)] by simp
  have pres: "presenceOf (readinessInputAt db account variant u) c =
      (case (if componentValid c then inForce (kdProfiles db) variant u c else None) of
         None \<Rightarrow> absentPresence | Some p \<Rightarrow> presenceFrom u p)" for u c
    by (simp add: presenceOf_def readinessInputAt_def presences_at split: option.split)
  have req: "required ?a c = required ?b c" for c by (simp add: required_def readinessInputAt_def)
  have sat: "satisfied ?a c = satisfied ?b c" for c
    by (simp add: satisfied_def pres same presenceFrom_def split: option.split)
  have stale: "cpStale (presenceOf ?a c) = cpStale (presenceOf ?b c)" if r: "required ?a c" "satisfied ?a c" for c
  proof (cases "cpStale (presenceOf ?a c)")
    case True
    then show ?thesis using assms(1) r(2)
      by (auto simp: pres same presenceFrom_def satisfied_def absentPresence_def split: option.splits if_splits)
  next
    case False
    have c: "componentValid c" using r(1) by (auto simp: required_def componentValid_def split: if_splits)
    have bound: "now < u" if "inForce (kdProfiles db) variant t c = Some p" "kpStaleAfter p = Some u" for p u
    proof -
      have "staleAfters (costProfileAt db variant t) c = Some u"
        using that c by (simp add: staleAfters_at)
      then have "earliestStaleBoundary ?a (staleAfters (costProfileAt db variant t)) \<le> u"
        unfolding earliestStaleBoundary_def
        using boundary_bounds[of c allComponents ?a] r False c by (simp add: componentValid_iff)
      then show ?thesis using assms(2) by simp
    qed
    then show ?thesis using False r(2)
      by (auto simp: pres same presenceFrom_def satisfied_def absentPresence_def split: option.splits if_splits)
  qed
  show ?thesis using deriveReadiness_cong[of ?a ?b, OF req sat stale] by simp
qed

section \<open>Runs\<close>

text \<open>
  The program's operations as steps; an error leaves the tables alone.  Variants come from the catalog.  The
  table admits a third source, the connector, which no code of the program writes: its step stands for a
  writer that appends a version for its owner and recomputes.  The setters of policies and requirements have
  no caller in the program: a run keeps the ones it starts with.  Go visits the keys of a map once each, in
  any order.

  A read of readiness is several statements: what it looked at may be any earlier state of the run when its
  verdict is stored.  \<open>stepRecompute\<close> is the same for \<open>RecomputeReadiness\<close>, and for a writer whose transaction
  overlapped another one's: its versions count as appended before the other's, its verdict is stored after.
\<close>

definition emptyCost :: "(uuid \<rightharpoonup> uuid) \<Rightarrow> (uuid \<rightharpoonup> cost_policy_row) \<Rightarrow> (uuid \<rightharpoonup> json_names) \<Rightarrow> cost_db" where
  "emptyCost orgs policies requirements =
     \<lparr>kdVariants = [], kdOrgAccounts = orgs, kdPolicies = policies, kdRequirements = requirements, kdBatches = [],
      kdRows = [], kdProfiles = [], kdReadiness = Map.empty\<rparr>"

inductive costReachable :: "cost_db \<Rightarrow> bool" and costStep :: "cost_db \<Rightarrow> cost_db \<Rightarrow> bool" where
  cost_start: "costReachable (emptyCost orgs policies requirements)"
| cost_step: "costReachable db \<Longrightarrow> costStep db db' \<Longrightarrow> costReachable db'"
| stepPreview: "previewImport lower db i inp = Inr (db', p) \<Longrightarrow> costStep db db'"
| stepCommit: "\<lbrakk>\<And>xs. mset (order xs) = mset xs; commitImport order db ids i by now = Inr (db', r)\<rbrakk> \<Longrightarrow> costStep db db'"
| stepCancel: "cancelImport db i = Inr (db', b) \<Longrightarrow> costStep db db'"
| stepSingle: "enterSingleCost db i inp now now2 = Inr (db', p) \<Longrightarrow> costStep db db'"
| stepRead: "\<lbrakk>costReachable dbC; costStep\<^sup>*\<^sup>* dbC dbR; costStep\<^sup>*\<^sup>* dbR db;
    getReadiness dbC dbR db variant now = Inr (db', r)\<rbrakk> \<Longrightarrow> costStep db db'"
| stepRecompute: "\<lbrakk>costReachable dbR; costStep\<^sup>*\<^sup>* dbR db; variantAccount dbR variant = Some account;
    recomputeReadiness dbR db account variant now = Inr (db', r)\<rbrakk> \<Longrightarrow> costStep db db'"
| stepConnector: "\<lbrakk>variantAccount db (kpVariantID p0) = Some (kpAccountID p0); insertProfile db p0 = Inr (db1, p);
    recompute db1 db1 (kpAccountID p0) (kpVariantID p0) now = Inr (db', r)\<rbrakk> \<Longrightarrow> costStep db db'"
| stepVariant: "variantAccount db (kvID v) = None \<Longrightarrow> costStep db (db\<lparr>kdVariants := kdVariants db @ [v]\<rparr>)"

section \<open>What an insert and a recomputation change\<close>

definition numbered :: "cost_profile list \<Rightarrow> bool" where
  "numbered ps \<longleftrightarrow> (\<forall>v c. map kpVersion (versionsOf ps v c) = map int [1..<Suc (length (versionsOf ps v c))])"

lemma nextVersion_numbered:
  assumes "numbered ps"
  shows "nextVersion ps v c = int (length (versionsOf ps v c)) + 1"
proof -
  let ?n = "length (versionsOf ps v c)"
  have "foldl max 0 (map int [1..<Suc n]) = int n" for n
    by (induction n) (simp_all add: upt_Suc_append)
  then show ?thesis using assms by (simp add: nextVersion_def numbered_def del: upt_Suc)
qed

lemma insertProfile_Inr:
  assumes "insertProfile db p0 = Inr (db', p)"
  shows "db' = db\<lparr>kdProfiles := kdProfiles db @ [p]\<rparr>" "componentValid (kpComponent p)"
    "p = p0\<lparr>kpVersion := nextVersion (kdProfiles db) (kpVariantID p0) (kpComponent p0)\<rparr>"
    "variantAccount db (kpVariantID p) \<noteq> None"
  using assms by (auto simp: insertProfile_def Let_def split: if_splits)

lemma numbered_insert:
  assumes "numbered (kdProfiles db)" "insertProfile db p0 = Inr (db', p)"
  shows "numbered (kdProfiles db')"
proof -
  have p: "kpVersion p = int (length (versionsOf (kdProfiles db) (kpVariantID p) (kpComponent p))) + 1"
    using insertProfile_Inr[OF assms(2)] nextVersion_numbered[OF assms(1)] by simp
  show ?thesis
    unfolding numbered_def insertProfile_Inr(1)[OF assms(2)]
    using assms(1) p by (auto simp: numbered_def versionsOf_def)
qed

text \<open>The readiness row depends on the variant's versions, the policies and the requirements only.\<close>

lemma readinessRow_cong:
  assumes "filter (\<lambda>p. kpVariantID p = v) (kdProfiles db') = filter (\<lambda>p. kpVariantID p = v) (kdProfiles db)"
    "kdPolicies db' = kdPolicies db" "kdRequirements db' = kdRequirements db"
  shows "readinessRow db' a v t = readinessRow db a v t"
proof -
  have "inForce ps v at = (\<lambda>c. newest (filter (\<lambda>p. kpComponent p = c \<and> kpEffectiveFrom p \<le> at) (filter (\<lambda>p. kpVariantID p = v) ps)))"
    for ps at
  proof
    show "inForce ps v at c = newest (filter (\<lambda>p. kpComponent p = c \<and> kpEffectiveFrom p \<le> at) (filter (\<lambda>p. kpVariantID p = v) ps))" for c
      unfolding inForce_def filter_filter by (rule arg_cong[where f = newest]) (rule filter_cong, auto)
  qed
  then have "costProfileAt db' v t = costProfileAt db v t" using assms(1) by (simp only: costProfileAt_def)
  then show ?thesis
    using assms(2,3) by (simp add: readinessRow_def readinessInputAt_def loadPolicy_def loadApplicable_def)
qed

text \<open>The cache of a variant: computed by the current tables at its own instant, for the owning account.\<close>

definition coherent :: "cost_db \<Rightarrow> uuid \<Rightarrow> bool" where
  "coherent db v \<longleftrightarrow>
     (case kdReadiness db v of None \<Rightarrow> True
      | Some row \<Rightarrow> variantAccount db v = Some (krAccountID row)
          \<and> row = readinessRow db (krAccountID row) v (krComputedAt row))"

lemma readinessRow_fields [simp]:
  "krAccountID (readinessRow db a v t) = a" "krComputedAt (readinessRow db a v t) = t"
  "krVariantID (readinessRow db a v t) = v"
  by (simp_all add: readinessRow_def Let_def)

lemma recompute_Inr:
  assumes "recompute dbR db a v now = Inr (db', r)" "variantAccount db v = Some a"
    "kdReadiness db v = None \<or> krAccountID (the (kdReadiness db v)) = a"
  shows "r = readinessRow dbR a v now" "db' = db\<lparr>kdReadiness := (kdReadiness db)(v \<mapsto> r)\<rparr>"
proof -
  have same: "r = r\<lparr>krAccountID := krAccountID r\<rparr>" for r by (cases r) simp
  have "(readinessRow dbR a v now)\<lparr>krAccountID := a\<rparr> = readinessRow dbR a v now"
    using same[of "readinessRow dbR a v now"] by simp
  then show "r = readinessRow dbR a v now" "db' = db\<lparr>kdReadiness := (kdReadiness db)(v \<mapsto> r)\<rparr>"
    using assms by (auto simp: recompute_def upsertReadiness_def Let_def split: option.splits if_splits)
qed

text \<open>What stays the same when only profiles, batches, rows or the cache change.\<close>

definition sameSettings :: "cost_db \<Rightarrow> cost_db \<Rightarrow> bool" where
  "sameSettings db db' \<longleftrightarrow> kdVariants db' = kdVariants db \<and> kdPolicies db' = kdPolicies db
     \<and> kdRequirements db' = kdRequirements db \<and> kdOrgAccounts db' = kdOrgAccounts db"

lemma sameSettings_variant: "sameSettings db db' \<Longrightarrow> variantAccount db' v = variantAccount db v"
  by (simp add: sameSettings_def variantAccount_def)

lemma sameSettings_trans: "sameSettings a b \<Longrightarrow> sameSettings b c \<Longrightarrow> sameSettings a c"
  by (simp add: sameSettings_def)

lemma coherent_cong:
  assumes "coherent db v" "sameSettings db db'" "kdReadiness db' v = kdReadiness db v"
    "filter (\<lambda>p. kpVariantID p = v) (kdProfiles db') = filter (\<lambda>p. kpVariantID p = v) (kdProfiles db)"
  shows "coherent db' v"
proof -
  have same: "readinessRow db' a v t = readinessRow db a v t" for a t
    using assms(2,4) by (intro readinessRow_cong) (simp_all add: sameSettings_def)
  show ?thesis
    using assms(1) unfolding coherent_def assms(3) sameSettings_variant[OF assms(2)] same .
qed

section \<open>The invariant\<close>

definition cacheOwned :: "cost_db \<Rightarrow> bool" where
  "cacheOwned db \<longleftrightarrow> (\<forall>v row. kdReadiness db v = Some row \<longrightarrow> variantAccount db v = Some (krAccountID row))"

definition batchAccount :: "cost_db \<Rightarrow> uuid \<Rightarrow> uuid option" where
  "batchAccount db i = map_option kbAccountID (getBatch db i)"

definition rowsOwned :: "cost_db \<Rightarrow> bool" where
  "rowsOwned db \<longleftrightarrow>
     (\<forall>r \<in> set (kdRows db). \<forall>v. kiDisposition r = DispositionAccept \<and> kiVariantID r = Some v \<longrightarrow>
        (\<exists>a. batchAccount db (kiBatchID r) = Some a \<and> variantAccount db v = Some a))"

definition profilesOwned :: "cost_db \<Rightarrow> bool" where
  "profilesOwned db \<longleftrightarrow>
     (\<forall>p \<in> set (kdProfiles db). componentValid (kpComponent p)
        \<and> variantAccount db (kpVariantID p) = Some (kpAccountID p))"

definition costInv :: "cost_db \<Rightarrow> bool" where
  "costInv db \<longleftrightarrow> distinct (map kvID (kdVariants db)) \<and> distinct (map kbID (kdBatches db)) \<and> numbered (kdProfiles db)
     \<and> profilesOwned db \<and> rowsOwned db \<and> cacheOwned db"

text \<open>What every step keeps: owners, versions, settings, and batches that have left the preview.\<close>

definition costGrows :: "cost_db \<Rightarrow> cost_db \<Rightarrow> bool" where
  "costGrows db db' \<longleftrightarrow> (\<forall>v a. variantAccount db v = Some a \<longrightarrow> variantAccount db' v = Some a)
     \<and> (\<exists>new. kdProfiles db' = kdProfiles db @ new) \<and> kdPolicies db' = kdPolicies db
     \<and> kdRequirements db' = kdRequirements db
     \<and> (\<forall>b \<in> set (kdBatches db). kbStatus b \<noteq> BatchPreview \<longrightarrow> b \<in> set (kdBatches db'))"

lemma costGrows_refl: "costGrows db db"
  by (simp add: costGrows_def)

lemma costGrows_trans: "costGrows a b \<Longrightarrow> costGrows b c \<Longrightarrow> costGrows a c"
  unfolding costGrows_def by auto

lemma costGrows_settings:
  "sameSettings db db' \<Longrightarrow> kdProfiles db' = kdProfiles db @ new \<Longrightarrow>
     (\<And>b. b \<in> set (kdBatches db) \<Longrightarrow> kbStatus b \<noteq> BatchPreview \<Longrightarrow> b \<in> set (kdBatches db')) \<Longrightarrow> costGrows db db'"
  by (auto simp: costGrows_def sameSettings_variant) (simp_all add: sameSettings_def)

lemma coherent_Some:
  "coherent db v \<Longrightarrow> kdReadiness db v = Some row \<Longrightarrow>
     variantAccount db v = Some (krAccountID row) \<and> row = readinessRow db (krAccountID row) v (krComputedAt row)"
  unfolding coherent_def by (simp only: option.case)

lemma cacheOwned_at:
  "cacheOwned db \<Longrightarrow> variantAccount db v = Some a \<Longrightarrow> kdReadiness db v = None \<or> krAccountID (the (kdReadiness db v)) = a"
  unfolding cacheOwned_def by (cases "kdReadiness db v") auto

text \<open>The variant has the same versions in both states.\<close>

definition versionsSame :: "uuid \<Rightarrow> cost_db \<Rightarrow> cost_db \<Rightarrow> bool" where
  "versionsSame v dbR db \<longleftrightarrow>
     filter (\<lambda>p. kpVariantID p = v) (kdProfiles dbR) = filter (\<lambda>p. kpVariantID p = v) (kdProfiles db)"

lemma recompute_effect:
  assumes "recompute dbR db a v now = Inr (db', r)" "variantAccount db v = Some a" "cacheOwned db"
  shows "sameSettings db db'" "kdProfiles db' = kdProfiles db" "kdBatches db' = kdBatches db" "kdRows db' = kdRows db"
    "r = readinessRow dbR a v now" "cacheOwned db'"
    "versionsSame v dbR db \<Longrightarrow> kdPolicies dbR = kdPolicies db \<Longrightarrow> kdRequirements dbR = kdRequirements db \<Longrightarrow> coherent db' v"
    "\<And>w. w \<noteq> v \<Longrightarrow> coherent db w \<Longrightarrow> coherent db' w"
proof -
  note r = recompute_Inr[OF assms(1,2) cacheOwned_at[OF assms(3,2)]]
  show s: "sameSettings db db'" using r(2) by (simp add: sameSettings_def)
  note var = sameSettings_variant[OF s]
  show "kdProfiles db' = kdProfiles db" "kdBatches db' = kdBatches db" "kdRows db' = kdRows db"
    "r = readinessRow dbR a v now" using r by simp_all
  show "cacheOwned db'"
    using assms(2,3) r(1) var unfolding cacheOwned_def r(2) by (auto split: if_splits)
  show "coherent db' w" if "w \<noteq> v" "coherent db w" for w
    using that r(2) by (intro coherent_cong[OF that(2) s]) simp_all
  assume same: "versionsSame v dbR db" "kdPolicies dbR = kdPolicies db" "kdRequirements dbR = kdRequirements db"
  have "readinessRow db' a v now = readinessRow dbR a v now"
    using same r(2) by (intro readinessRow_cong) (simp_all add: versionsSame_def)
  then show "coherent db' v"
    using r assms(2) var by (simp add: coherent_def)
qed

lemma recomputeAll_Inr:
  assumes "recomputeAll db a now vs = Inr db'" "\<forall>v \<in> set vs. variantAccount db v = Some a" "cacheOwned db"
  shows "sameSettings db db' \<and> kdProfiles db' = kdProfiles db \<and> kdBatches db' = kdBatches db \<and> kdRows db' = kdRows db
    \<and> cacheOwned db' \<and> (\<forall>v. v \<in> set vs \<or> coherent db v \<longrightarrow> coherent db' v)"
  using assms
proof (induction vs arbitrary: db)
  case Nil
  then show ?case by (simp add: sameSettings_def)
next
  case (Cons v vs)
  obtain db1 r where r: "recompute db db a v now = Inr (db1, r)" and rest: "recomputeAll db1 a now vs = Inr db'"
    using Cons.prems(1) by (auto simp: result_simps)
  have v: "variantAccount db v = Some a" using Cons.prems(2) by simp
  note one = recompute_effect[OF r v Cons.prems(3)]
  have var: "variantAccount db1 w = variantAccount db w" for w by (rule sameSettings_variant[OF one(1)])
  have "coherent db1 v" by (rule one(7)) (simp_all add: versionsSame_def)
  then have keep: "coherent db1 w" if "w = v \<or> coherent db w" for w
    using that one(8) by (cases "w = v") auto
  have IH: "sameSettings db1 db' \<and> kdProfiles db' = kdProfiles db1 \<and> kdBatches db' = kdBatches db1 \<and> kdRows db' = kdRows db1
    \<and> cacheOwned db' \<and> (\<forall>v. v \<in> set vs \<or> coherent db1 v \<longrightarrow> coherent db' v)"
    using Cons.IH[OF rest] Cons.prems(2) var one(6) by simp
  show ?case using IH keep one(1-4) sameSettings_trans by auto
qed

definition unversioned :: "cost_profile \<Rightarrow> cost_profile" where
  "unversioned p = p\<lparr>kpVersion := 0\<rparr>"

lemma unversioned_fields [simp]:
  "kpVariantID (unversioned p) = kpVariantID p" "kpAccountID (unversioned p) = kpAccountID p"
  "kpComponent (unversioned p) = kpComponent p" "kpEffectiveFrom (unversioned p) = kpEffectiveFrom p"
  "unversioned (p\<lparr>kpVersion := n\<rparr>) = unversioned p"
  by (simp_all add: unversioned_def)

text \<open>A batch of inserts appends the given rows, numbered.\<close>

lemma insertProfiles_Inr:
  "insertProfiles db ps = Inr db' \<Longrightarrow> numbered (kdProfiles db) \<Longrightarrow>
     \<exists>new. db' = db\<lparr>kdProfiles := kdProfiles db @ new\<rparr> \<and> map unversioned new = map unversioned ps
       \<and> numbered (kdProfiles db') \<and> (\<forall>p \<in> set new. componentValid (kpComponent p))"
proof (induction ps arbitrary: db)
  case Nil
  then show ?case by simp
next
  case (Cons p0 ps)
  obtain db1 p where p: "insertProfile db p0 = Inr (db1, p)" and rest: "insertProfiles db1 ps = Inr db'"
    using Cons.prems(1) by (auto simp: result_simps)
  note f = insertProfile_Inr[OF p]
  obtain new where "db' = db1\<lparr>kdProfiles := kdProfiles db1 @ new\<rparr>" "map unversioned new = map unversioned ps"
    "numbered (kdProfiles db')" "\<forall>p \<in> set new. componentValid (kpComponent p)"
    using Cons.IH[OF rest numbered_insert[OF Cons.prems(2) p]] by blast
  then show ?case using f by (intro exI[of _ "p # new"]) simp
qed

lemma map_unversioned:
  "map unversioned xs = map unversioned ys \<Longrightarrow> map kpVariantID xs = map kpVariantID ys \<and> map kpAccountID xs = map kpAccountID ys
     \<and> map kpEffectiveFrom xs = map kpEffectiveFrom ys"
proof -
  assume "map unversioned xs = map unversioned ys"
  then have "map f (map unversioned xs) = map f (map unversioned ys)" for f :: "cost_profile \<Rightarrow> 'x" by simp
  from this[of kpVariantID] this[of kpAccountID] this[of kpEffectiveFrom] show ?thesis by (simp add: comp_def)
qed

lemma batchAccount_update:
  assumes "updateBatch db i ok f = Some (db', b)" "\<And>x. kbID (f x) = kbID x" "\<And>x. kbAccountID (f x) = kbAccountID x"
  shows "batchAccount db' j = batchAccount db j"
    "\<exists>bs. db' = db\<lparr>kdBatches := bs\<rparr>"
proof -
  define g where "g = (\<lambda>x. if kbID x = i \<and> ok x then f x else x)"
  have db': "db' = db\<lparr>kdBatches := map g (kdBatches db)\<rparr>"
    using assms(1) by (auto simp: updateBatch_def g_def split: option.splits)
  have "kbID (g x) = kbID x" "kbAccountID (g x) = kbAccountID x" for x by (simp_all add: g_def assms)
  then have "map_option kbAccountID (find (\<lambda>b. kbID b = j) (map g bs)) = map_option kbAccountID (find (\<lambda>b. kbID b = j) bs)" for bs
    by (induction bs) auto
  then show "batchAccount db' j = batchAccount db j" by (simp add: db' batchAccount_def getBatch_def)
  show "\<exists>bs. db' = db\<lparr>kdBatches := bs\<rparr>" using db' by blast
qed

lemma updateBatch_Some:
  assumes "updateBatch db i ok f = Some (db', b')"
  shows "\<exists>b. b \<in> set (kdBatches db) \<and> kbID b = i \<and> ok b \<and> b' = f b"
  using assms by (auto simp: updateBatch_def find_Some_iff split: option.splits) (metis nth_mem)

lemma updateBatch_keeps:
  assumes "updateBatch db i ok f = Some (db', b')" "\<And>x. ok x \<Longrightarrow> kbStatus x = BatchPreview"
  shows "\<forall>b \<in> set (kdBatches db). kbStatus b \<noteq> BatchPreview \<longrightarrow> b \<in> set (kdBatches db')" "b' \<in> set (kdBatches db')"
proof -
  have db': "kdBatches db' = map (\<lambda>x. if kbID x = i \<and> ok x then f x else x) (kdBatches db)"
    using assms(1) by (auto simp: updateBatch_def split: option.splits)
  show "\<forall>b \<in> set (kdBatches db). kbStatus b \<noteq> BatchPreview \<longrightarrow> b \<in> set (kdBatches db')"
  proof (intro ballI impI)
    fix b assume b: "b \<in> set (kdBatches db)" "kbStatus b \<noteq> BatchPreview"
    then have "\<not> ok b" using assms(2) by blast
    then show "b \<in> set (kdBatches db')" unfolding db' using b(1) by (force simp: image_iff)
  qed
  obtain b where "b \<in> set (kdBatches db)" "kbID b = i" "ok b" "b' = f b" using updateBatch_Some[OF assms(1)] by blast
  then show "b' \<in> set (kdBatches db')" unfolding db' by (force simp: image_iff)
qed

section \<open>Every operation keeps the invariant\<close>

text \<open>A change of batches or rows that keeps the batches' accounts.\<close>

lemma inv_batches:
  assumes "costInv db" "db' = db\<lparr>kdBatches := bs, kdRows := rs\<rparr>" "distinct (map kbID bs)"
    "\<forall>r \<in> set rs. r \<in> set (kdRows db) \<or>
       (\<forall>v. kiDisposition r = DispositionAccept \<and> kiVariantID r = Some v \<longrightarrow>
          batchAccount db' (kiBatchID r) \<noteq> None \<and> variantAccount db v = batchAccount db' (kiBatchID r))"
    "\<And>j a. batchAccount db j = Some a \<Longrightarrow> batchAccount db' j = Some a"
  shows "costInv db'" "\<And>v. coherent db v \<Longrightarrow> coherent db' v" "sameSettings db db'"
proof -
  show s: "sameSettings db db'" using assms(2) by (simp add: sameSettings_def)
  note var = sameSettings_variant[OF s]
  show "coherent db' v" if "coherent db v" for v
    by (rule coherent_cong[OF that s]) (use assms(2) in simp_all)
  have "cacheOwned db'" using assms(1,2) var by (simp add: costInv_def cacheOwned_def)
  moreover have "rowsOwned db'"
    unfolding rowsOwned_def
  proof (intro ballI allI impI)
    fix r v
    assume r: "r \<in> set (kdRows db')" "kiDisposition r = DispositionAccept \<and> kiVariantID r = Some v"
    then have "r \<in> set (kdRows db) \<or> batchAccount db' (kiBatchID r) \<noteq> None \<and> variantAccount db v = batchAccount db' (kiBatchID r)"
      using assms(2,4) by auto
    then show "\<exists>a. batchAccount db' (kiBatchID r) = Some a \<and> variantAccount db' v = Some a"
    proof
      assume "r \<in> set (kdRows db)"
      then obtain a where "batchAccount db (kiBatchID r) = Some a" "variantAccount db v = Some a"
        using assms(1) r(2) unfolding costInv_def rowsOwned_def by blast
      then show ?thesis using assms(5) var by auto
    qed (use var in auto)
  qed
  ultimately show "costInv db'"
    using assms(1-3) var by (auto simp: costInv_def profilesOwned_def)
qed

lemma insertRows_Some:
  "insertRows db rs = Some db' \<Longrightarrow> db' = db\<lparr>kdRows := kdRows db @ rs\<rparr>"
  by (induction rs arbitrary: db) (simp, fastforce simp: insertRow_def split: option.splits if_splits)

text \<open>A SKU resolves to a variant of the importing account.\<close>

lemma resolveSKUs_owned:
  "resolveSKUs db account es m sku = Some r \<Longrightarrow>
     (\<And>sku r. m sku = Some r \<Longrightarrow> rsCount r = 1 \<Longrightarrow> variantAccount db (rsVariantID r) = Some account) \<Longrightarrow>
     distinct (map kvID (kdVariants db)) \<Longrightarrow>
     rsCount r = 1 \<Longrightarrow> variantAccount db (rsVariantID r) = Some account"
proof (induction db account es m rule: resolveSKUs.induct)
  case (2 db account e es m)
  show ?case
  proof (cases "m (peRawSKU e)")
    case (Some x)
    then show ?thesis using 2 by simp
  next
    case None
    let ?ms = "resolveVariants db account (peRawSKU e)"
    let ?new = "\<lparr>rsVariantID = (case ?ms of [v] \<Rightarrow> kvID v | _ \<Rightarrow> 0), rsCount = length ?ms\<rparr>"
    have new: "variantAccount db (rsVariantID ?new) = Some account" if one: "rsCount ?new = 1"
    proof -
      obtain v where v: "?ms = [v]" using one by (auto simp: length_Suc_conv)
      then have "v \<in> set ?ms" by simp
      then have "v \<in> set (kdVariants db)" "kvAccountID v = account" by (auto simp: resolveVariants_def)
      then show ?thesis using v find_distinct[OF "2.prems"(3)] by (simp add: variantAccount_def)
    qed
    have upd: "variantAccount db (rsVariantID r) = Some account"
      if "(m(peRawSKU e \<mapsto> ?new)) sku = Some r" "rsCount r = 1" for sku r
    proof (cases "sku = peRawSKU e")
      case True
      then show ?thesis using that new by simp
    next
      case False
      then show ?thesis using that "2.prems"(2)[of sku r] by simp
    qed
    have rest: "resolveSKUs db account es (m(peRawSKU e \<mapsto> ?new)) sku = Some r"
      using "2.prems"(1) None by (simp add: Let_def)
    show ?thesis
      by (rule "2.IH"(1)[OF None refl rest _ "2.prems"(3,4)]) (rule upd)
  qed
qed simp

lemma decideRow_variant:
  assumes "prDisposition (decideRow d m cur ex e) = DispositionAccept"
  shows "prHasVariant (decideRow d m cur ex e)
    \<and> (\<exists>r. m (peRawSKU e) = Some r \<and> rsCount r = 1 \<and> prVariantID (decideRow d m cur ex e) = rsVariantID r)"
  using assms
  by (auto simp: decideRow_def Let_def rejectRow_def blankRow_def not_less le_Suc_eq
      split: if_splits option.splits sum.splits)

lemma inv_preview:
  assumes inv: "costInv db" and p: "previewImport lower db i inp = Inr (db', pv)"
  shows "costInv db'" "costGrows db db'" "\<And>v. coherent db v \<Longrightarrow> coherent db' v"
proof -
  obtain entries detected where
    "mapErr ErrCostCsv (parseCSV lower (piValidUTF8 inp) (piReads inp) (piMapping inp)) = Inr (entries, detected)"
    using p by (auto simp: previewImport_def result_simps)
  define m where "m = resolveSKUs db (piAccount inp) entries Map.empty"
  obtain rows cnt where rc: "buildPreviewRows entries m (kaCurrency (loadPolicy db (piAccount inp))) (kaExponent (loadPolicy db (piAccount inp))) = (rows, cnt)"
    by (cases "buildPreviewRows entries m (kaCurrency (loadPolicy db (piAccount inp))) (kaExponent (loadPolicy db (piAccount inp)))")
  define b where "b = ipBatch pv"
  have "kbID b = i \<and> kbAccountID b = piAccount inp
    \<and> (\<exists>db1. insertBatch db b = Some db1 \<and> insertRows db1 (map (storedRow i) rows) = Some db')"
    using p rc \<open>mapErr ErrCostCsv _ = _\<close>
    by (auto simp: previewImport_def Let_def m_def b_def split: option.splits)
  then obtain db1 where b: "kbID b = i" "kbAccountID b = piAccount inp" "insertBatch db b = Some db1"
    "insertRows db1 (map (storedRow i) rows) = Some db'" by blast
  have db1: "db1 = db\<lparr>kdBatches := kdBatches db @ [b]\<rparr>" "getBatch db i = None"
    using b by (auto simp: insertBatch_def split: if_splits)
  then have db': "db' = db\<lparr>kdBatches := kdBatches db @ [b], kdRows := kdRows db @ map (storedRow i) rows\<rparr>"
    using insertRows_Some[OF b(4)] by simp
  have acct: "batchAccount db' i = Some (piAccount inp)"
    using db' db1(2) b by (simp add: batchAccount_def getBatch_def find_append_case)
  have keep: "batchAccount db' j = Some a" if "batchAccount db j = Some a" for j a
    using that db' by (auto simp: batchAccount_def getBatch_def find_append_case split: option.split)
  have row: "batchAccount db' (kiBatchID r) \<noteq> None \<and> variantAccount db v = batchAccount db' (kiBatchID r)"
    if "r \<in> set (map (storedRow i) rows)" "kiDisposition r = DispositionAccept" "kiVariantID r = Some v" for r v
  proof -
    note accepted = that
    obtain q where q: "q \<in> set rows" "r = storedRow i q" using accepted(1) by auto
    then obtain e where "e \<in> set entries" "q = decideRow (dupCounts entries (\<lambda>_. 0)) m
        (kaCurrency (loadPolicy db (piAccount inp))) (kaExponent (loadPolicy db (piAccount inp))) e"
      using rc by (auto simp: buildPreviewRows_def Let_def)
    then obtain x where "m (peRawSKU e) = Some x" "rsCount x = 1" "v = rsVariantID x"
      using decideRow_variant accepted(2,3) q(2) by (fastforce simp: storedRow_def)
    then have "variantAccount db v = Some (piAccount inp)"
      using resolveSKUs_owned[of db "piAccount inp" entries Map.empty] inv by (simp add: m_def costInv_def)
    then show ?thesis using q(2) acct by (simp add: storedRow_def)
  qed
  have fresh: "distinct (map kbID (kdBatches db @ [b]))"
    using db1(2) b(1) inv by (auto simp: costInv_def getBatch_def find_None_iff)
  have rows: "\<forall>r \<in> set (kdRows db @ map (storedRow i) rows). r \<in> set (kdRows db) \<or>
       (\<forall>v. kiDisposition r = DispositionAccept \<and> kiVariantID r = Some v \<longrightarrow>
          batchAccount db' (kiBatchID r) \<noteq> None \<and> variantAccount db v = batchAccount db' (kiBatchID r))"
    using row by auto
  note B = inv_batches[OF inv db' fresh rows]
  show "costInv db'" by (rule B(1)) (rule keep)
  show "coherent db' v" if "coherent db v" for v by (rule B(2)[OF _ that]) (rule keep)
  show "costGrows db db'" by (rule costGrows_settings) (use db' in \<open>auto simp: sameSettings_def\<close>)
qed

lemma inv_recompute:
  assumes inv: "costInv db" and r: "recompute dbR db a v now = Inr (db', r)" and a: "variantAccount db v = Some a"
  shows "costInv db'" "costGrows db db'"
proof -
  have "cacheOwned db" using inv by (simp add: costInv_def)
  note one = recompute_effect[OF r a this]
  show "costInv db'"
    using inv one(1-4,6) sameSettings_variant[OF one(1)]
    by (simp add: costInv_def profilesOwned_def rowsOwned_def batchAccount_def getBatch_def sameSettings_def)
  show "costGrows db db'" by (rule costGrows_settings[OF one(1)]) (use one(2,3) in auto)
qed

text \<open>Appending owned versions and recomputing what they touch.\<close>

lemma inv_append:
  assumes inv: "costInv db" and new: "db1 = db\<lparr>kdProfiles := kdProfiles db @ new\<rparr>" "numbered (kdProfiles db1)"
    "\<forall>p \<in> set new. componentValid (kpComponent p) \<and> kpAccountID p = a \<and> variantAccount db (kpVariantID p) = Some a"
    and re: "recomputeAll db1 a now vs = Inr db'" and vs: "set vs = kpVariantID ` set new"
  shows "costInv db'" "kdProfiles db' = kdProfiles db @ new" "\<And>v. coherent db v \<Longrightarrow> coherent db' v"
    "sameSettings db db'" "kdBatches db' = kdBatches db"
proof -
  have s: "sameSettings db db1" using new(1) by (simp add: sameSettings_def)
  note var = sameSettings_variant[OF s]
  have owned1: "cacheOwned db1" using inv var new(1) by (simp add: cacheOwned_def costInv_def)
  have vs1: "\<forall>v \<in> set vs. variantAccount db1 v = Some a" using vs new(3) var by auto
  note R = recomputeAll_Inr[OF re vs1 owned1]
  have "coherent db1 v" if "v \<notin> set vs" "coherent db v" for v
  proof (rule coherent_cong[OF that(2) s])
    have "filter (\<lambda>p. kpVariantID p = v) new = []" using that(1) vs by (auto simp: filter_empty_conv)
    then show "filter (\<lambda>p. kpVariantID p = v) (kdProfiles db1) = filter (\<lambda>p. kpVariantID p = v) (kdProfiles db)"
      using new(1) by simp
  qed (use new(1) in simp)
  then show "coherent db' v" if "coherent db v" for v using R that by blast
  have s': "sameSettings db1 db'" using R by simp
  note var' = sameSettings_variant[OF s']
  have prof: "profilesOwned db'"
    using R inv new var var' by (auto simp: costInv_def profilesOwned_def)
  have rows: "rowsOwned db'"
    using R inv new var var' by (simp add: costInv_def rowsOwned_def batchAccount_def getBatch_def)
  show "costInv db'"
    using prof rows R inv new s' by (simp add: costInv_def sameSettings_def)
  show "kdProfiles db' = kdProfiles db @ new" "kdBatches db' = kdBatches db" using R new(1) by simp_all
  show "sameSettings db db'" by (rule sameSettings_trans[OF s s'])
qed

lemma commitImport_Inr:
  assumes "commitImport order db ids i by now = Inr (db', r)"
  obtains b db1 db2 where "getBatch db i = Some b" "markCommitted db i now = Some (db1, kcBatch r)"
    "insertProfiles db1 (map (\<lambda>(k, r). profileOfRow b by now (ids k) r) (enumerate 0 (listAccepted db1 i))) = Inr db2"
    "recomputeAll db2 (kbAccountID b) now (order (remdups (map kpVariantID
       (map (\<lambda>(k, r). profileOfRow b by now (ids k) r) (enumerate 0 (listAccepted db1 i)))))) = Inr db'"
    "kcCommittedRows r = length (listAccepted db1 i)"
  using assms that
  by (auto simp: commitImport_def Let_def result_simps split: option.splits if_splits)

lemma mem_listAccepted:
  "r \<in> set (listAccepted db i) \<Longrightarrow>
     r \<in> set (kdRows db) \<and> kiBatchID r = i \<and> kiDisposition r = DispositionAccept \<and> (\<exists>v. kiVariantID r = Some v)"
  by (auto simp: listAccepted_def listRows_def)

lemma markCommitted_Some:
  assumes "markCommitted db i now = Some (db1, c)"
  shows "\<exists>b \<in> set (kdBatches db). kbID b = i \<and> kbStatus b = BatchPreview \<and> kbDuplicate b = 0"
    "kbStatus c = BatchCommitted" "\<exists>bs. db1 = db\<lparr>kdBatches := bs\<rparr>" "batchAccount db1 j = batchAccount db j"
    "map kbID (kdBatches db1) = map kbID (kdBatches db)"
    "\<forall>b \<in> set (kdBatches db1). kbID b = i \<longrightarrow> kbStatus b = BatchCommitted \<or> b \<in> set (kdBatches db) \<and> \<not> (kbStatus b = BatchPreview \<and> kbDuplicate b = 0)"
    "\<forall>b \<in> set (kdBatches db). kbStatus b \<noteq> BatchPreview \<longrightarrow> b \<in> set (kdBatches db1)" "c \<in> set (kdBatches db1)" "kbID c = i"
proof -
  have u: "updateBatch db i (\<lambda>b. kbStatus b = BatchPreview \<and> kbDuplicate b = 0)
      (\<lambda>b. b\<lparr>kbStatus := BatchCommitted, kbCommittedAt := Some now\<rparr>) = Some (db1, c)"
    using assms by (simp add: markCommitted_def)
  show "\<exists>b \<in> set (kdBatches db). kbID b = i \<and> kbStatus b = BatchPreview \<and> kbDuplicate b = 0"
    "kbStatus c = BatchCommitted" "kbID c = i"
    using updateBatch_Some[OF u] by auto
  show "\<forall>b \<in> set (kdBatches db). kbStatus b \<noteq> BatchPreview \<longrightarrow> b \<in> set (kdBatches db1)" "c \<in> set (kdBatches db1)"
    using updateBatch_keeps[OF u] by blast+
  show "\<exists>bs. db1 = db\<lparr>kdBatches := bs\<rparr>" "batchAccount db1 j = batchAccount db j"
    using batchAccount_update[OF u] by simp_all
  have db1: "kdBatches db1 = map (\<lambda>x. if kbID x = i \<and> kbStatus x = BatchPreview \<and> kbDuplicate x = 0
      then x\<lparr>kbStatus := BatchCommitted, kbCommittedAt := Some now\<rparr> else x) (kdBatches db)"
    using u by (auto simp: updateBatch_def split: option.splits)
  then show "map kbID (kdBatches db1) = map kbID (kdBatches db)" by simp
  show "\<forall>b \<in> set (kdBatches db1). kbID b = i \<longrightarrow> kbStatus b = BatchCommitted \<or> b \<in> set (kdBatches db) \<and> \<not> (kbStatus b = BatchPreview \<and> kbDuplicate b = 0)"
    
  proof (intro ballI impI)
    fix b
    assume b: "b \<in> set (kdBatches db1)" "kbID b = i"
    obtain x where x: "x \<in> set (kdBatches db)"
      "b = (if kbID x = i \<and> kbStatus x = BatchPreview \<and> kbDuplicate x = 0
         then x\<lparr>kbStatus := BatchCommitted, kbCommittedAt := Some now\<rparr> else x)"
      using b(1) unfolding db1 set_map by (rule imageE)
    show "kbStatus b = BatchCommitted \<or> b \<in> set (kdBatches db) \<and> \<not> (kbStatus b = BatchPreview \<and> kbDuplicate b = 0)"
    proof (cases "kbID x = i \<and> kbStatus x = BatchPreview \<and> kbDuplicate x = 0")
      case True
      then have "kbStatus b = BatchCommitted" unfolding x(2) by simp
      then show ?thesis ..
    next
      case False
      then have "b = x" unfolding x(2) by (rule if_not_P)
      then show ?thesis using False x(1) b(2) by blast
    qed
  qed
qed

text \<open>What a commit appended: the accepted rows' versions, all for the batch's account.\<close>

lemma commit_step:
  assumes inv: "costInv db" and perm: "\<And>xs. mset (order xs) = mset xs"
    and c: "commitImport order db ids i by now = Inr (db', r)"
  shows "\<exists>b new. getBatch db i = Some b \<and> kdProfiles db' = kdProfiles db @ new
     \<and> map unversioned new = map (\<lambda>(k, r). profileOfRow b by now (ids k) r) (enumerate 0 (listAccepted db i))
     \<and> costInv db' \<and> costGrows db db' \<and> (\<forall>v. coherent db v \<longrightarrow> coherent db' v) \<and> kcCommittedRows r = length new
     \<and> (\<exists>db1. markCommitted db i now = Some (db1, kcBatch r) \<and> kdBatches db' = kdBatches db1)"
proof -
  obtain b db1 db2 where b: "getBatch db i = Some b" and m: "markCommitted db i now = Some (db1, kcBatch r)"
    and ins: "insertProfiles db1 (map (\<lambda>(k, r). profileOfRow b by now (ids k) r) (enumerate 0 (listAccepted db1 i))) = Inr db2"
    and re: "recomputeAll db2 (kbAccountID b) now (order (remdups (map kpVariantID
       (map (\<lambda>(k, r). profileOfRow b by now (ids k) r) (enumerate 0 (listAccepted db1 i)))))) = Inr db'"
    and n: "kcCommittedRows r = length (listAccepted db1 i)"
    using commitImport_Inr[OF c] by blast
  note M = markCommitted_Some[OF m]
  obtain bs where db1: "db1 = db\<lparr>kdBatches := bs\<rparr>" using M(3) by blast
  have acc: "listAccepted db1 i = listAccepted db i" by (simp add: db1 listAccepted_def listRows_def)
  have db1': "db1 = db\<lparr>kdBatches := bs, kdRows := kdRows db\<rparr>" using db1 by simp
  have "distinct (map kbID bs)" using db1 M(5) inv by (simp add: costInv_def)
  note B = inv_batches[OF inv db1' this]
  have inv1: "costInv db1" by (rule B) (use M(4) in simp_all)
  have coh1: "coherent db1 v" if "coherent db v" for v by (rule B(2)[OF _ _ that]) (use M(4) in simp_all)
  have s1: "sameSettings db db1" using db1 by (simp add: sameSettings_def)
  define ps where "ps = map (\<lambda>(k, r). profileOfRow b by now (ids k) r) (enumerate 0 (listAccepted db i))"
  have un: "map unversioned ps = ps"
    unfolding ps_def by (rule map_idI) (auto simp: unversioned_def profileOfRow_def)
  have num1: "numbered (kdProfiles db1)" using inv1 unfolding costInv_def by blast
  have ins': "insertProfiles db1 ps = Inr db2" using ins unfolding acc ps_def .
  obtain new where new: "db2 = db1\<lparr>kdProfiles := kdProfiles db1 @ new\<rparr>" "map unversioned new = ps"
    "numbered (kdProfiles db2)" "\<forall>p \<in> set new. componentValid (kpComponent p)"
    using insertProfiles_Inr[OF ins' num1] unfolding un by blast
  have owned: "kpAccountID q = kbAccountID b \<and> variantAccount db1 (kpVariantID q) = Some (kbAccountID b)" if q: "q \<in> set ps" for q
  proof -
    obtain k x where x: "(k, x) \<in> set (enumerate 0 (listAccepted db i))" "q = profileOfRow b by now (ids k) x"
      using q by (auto simp: ps_def)
    have "x \<in> set (listAccepted db i)" using x(1) by (auto simp: in_set_enumerate_eq)
    then obtain v where v: "x \<in> set (kdRows db)" "kiBatchID x = i" "kiDisposition x = DispositionAccept" "kiVariantID x = Some v"
      using mem_listAccepted by blast
    then have "batchAccount db i = variantAccount db v"
      using inv by (fastforce simp: costInv_def rowsOwned_def)
    moreover have "batchAccount db i = Some (kbAccountID b)" using b by (simp add: batchAccount_def)
    moreover have "variantAccount db1 v = variantAccount db v" by (simp add: db1 variantAccount_def)
    ultimately show ?thesis using x(2) v(4) by (simp add: profileOfRow_def)
  qed
  have same: "set (map f new) = set (map f ps)" if "\<And>p. f (unversioned p) = f p" for f :: "cost_profile \<Rightarrow> 'x"
  proof -
    have "map f (map unversioned new) = map f new" using that by simp
    then show ?thesis using new(2) by simp
  qed
  have newOwned: "\<forall>p \<in> set new. componentValid (kpComponent p) \<and> kpAccountID p = kbAccountID b
      \<and> variantAccount db1 (kpVariantID p) = Some (kbAccountID b)"
  proof
    fix p assume p: "p \<in> set new"
    then have "unversioned p \<in> set ps" using new(2) by force
    then show "componentValid (kpComponent p) \<and> kpAccountID p = kbAccountID b
      \<and> variantAccount db1 (kpVariantID p) = Some (kbAccountID b)"
      using owned[of "unversioned p"] new(4) p by simp
  qed
  have vs: "set (order (remdups (map kpVariantID ps))) = kpVariantID ` set new"
    using mset_eq_setD[OF perm] same[of kpVariantID] by simp
  have re': "recomputeAll db2 (kbAccountID b) now (order (remdups (map kpVariantID ps))) = Inr db'"
    using re acc by (simp only: ps_def)
  note A = inv_append[OF inv1 new(1,3) newOwned re' vs]
  have "kdBatches db' = kdBatches db1" by (rule A(5))
  moreover have "length new = length (listAccepted db i)"
    using arg_cong[OF new(2), of length] by (simp add: ps_def)
  moreover have "costGrows db db'"
    by (rule costGrows_settings[OF sameSettings_trans[OF s1 A(4)]]) (use A(2,5) db1 M(7) in auto)
  ultimately show ?thesis
    using b A(1-3) coh1 new(1,2) n acc m db1 by (auto simp: ps_def)
qed

lemma assertVariantOwnedBy_Inr [result_simps]:
  "assertVariantOwnedBy db a v = Inr u \<longleftrightarrow> variantAccount db v = Some a"
  by (auto simp: assertVariantOwnedBy_def result_simps split: option.splits)

lemma recomputeAll_single:
  "recompute db db a v now = Inr (db', r) \<Longrightarrow> recomputeAll db a now [v] = Inr db'"
  by simp

text \<open>One version, recomputed: the single value and the connector.\<close>

lemma append_one_step:
  assumes inv: "costInv db" and a: "variantAccount db (kpVariantID p0) = Some (kpAccountID p0)"
    and ins: "insertProfile db p0 = Inr (db1, p)"
    and re: "recompute db1 db1 (kpAccountID p0) (kpVariantID p0) now = Inr (db', r)"
  shows "costInv db'" "kdProfiles db' = kdProfiles db @ [p]" "kpSource p = kpSource p0" "costGrows db db'"
    "\<And>v. coherent db v \<Longrightarrow> coherent db' v"
proof -
  note f = insertProfile_Inr[OF ins]
  have num: "numbered (kdProfiles db1)" using numbered_insert[OF _ ins] inv by (simp add: costInv_def)
  have owner: "\<forall>q \<in> set [p]. componentValid (kpComponent q) \<and> kpAccountID q = kpAccountID p0
      \<and> variantAccount db (kpVariantID q) = Some (kpAccountID p0)"
    using f a by simp
  have "set [kpVariantID p0] = kpVariantID ` set [p]" using f(3) by simp
  note A = inv_append[OF inv f(1) num owner recomputeAll_single[OF re] this]
  show "costInv db'" "kdProfiles db' = kdProfiles db @ [p]" using A f(3) by simp_all
  show "kpSource p = kpSource p0" using f(3) by simp
  show "coherent db' v" if "coherent db v" for v using that by (rule A(3))
  show "costGrows db db'" by (rule costGrows_settings[OF A(4) A(2)]) (use A(5) in simp)
qed

lemma enterSingleCost_Inr:
  assumes "enterSingleCost db i inp now now2 = Inr (db', p)"
  shows "\<exists>p0 db1 r. kpVariantID p0 = siVariantID inp \<and> kpAccountID p0 = siAccount inp
    \<and> kpSource p0 = sourceSingleValue \<and> kpComponent p0 = siComponent inp
    \<and> variantAccount db (kpVariantID p0) = Some (kpAccountID p0) \<and> insertProfile db p0 = Inr (db1, p)
    \<and> recompute db1 db1 (kpAccountID p0) (kpVariantID p0) now2 = Inr (db', r)"
proof -
  define p0 where "p0 m = \<lparr>kpID = i, kpAccountID = siAccount inp, kpVariantID = siVariantID inp,
     kpComponent = siComponent inp, kpVersion = 0, kpMantissa = mantissa m, kpCurrency = currency m,
     kpExponent = scast (exponent m), kpRawText = siRawValue inp, kpRawValue = normalizedValue (siRawValue inp),
     kpRawUnit = siRawUnit inp, kpEffectiveFrom = (case siEffectiveFrom inp of None \<Rightarrow> now | Some t \<Rightarrow> t),
     kpStaleAfter = siStaleAfter inp, kpSource = sourceSingleValue, kpBatchID = None,
     kpCreatedBy = uuidPtr (siCreatedBy inp)\<rparr>" for m :: money
  have "variantAccount db (siVariantID inp) = Some (siAccount inp)
    \<and> (\<exists>m db1 r. insertProfile db (p0 m) = Inr (db1, p) \<and> recompute db1 db1 (siAccount inp) (siVariantID inp) now2 = Inr (db', r))"
  proof -
    have eq: "enterSingleCost db i inp now now2 =
        (if \<not> componentValid (siComponent inp) then Inl (ErrCostAmount ErrInvalidAmount)
         else andThen (assertVariantOwnedBy db (siAccount inp) (siVariantID inp)) (\<lambda>_.
           andThen (mapErr ErrCostAmount (parseAmount (siRawValue inp) (kaCurrency (loadPolicy db (siAccount inp)))
             (kaExponent (loadPolicy db (siAccount inp))))) (\<lambda>m.
           andThen (insertProfile db (p0 m)) (\<lambda>(db1, p).
           andThen (recompute db1 db1 (siAccount inp) (siVariantID inp) now2) (\<lambda>(db2, _). Inr (db2, p))))))"
      by (simp add: enterSingleCost_def p0_def Let_def)
    show ?thesis using assms unfolding eq by (auto simp: result_simps split: if_splits)
  qed
  then obtain m db1 r where "variantAccount db (siVariantID inp) = Some (siAccount inp)"
    "insertProfile db (p0 m) = Inr (db1, p)" "recompute db1 db1 (siAccount inp) (siVariantID inp) now2 = Inr (db', r)"
    by blast
  then show ?thesis by (intro exI[of _ "p0 m"] exI[of _ db1] exI[of _ r]) (simp add: p0_def)
qed

lemma single_step:
  assumes inv: "costInv db" and e: "enterSingleCost db i inp now now2 = Inr (db', p)"
  shows "costInv db'" "costGrows db db'" "coherent db v \<Longrightarrow> coherent db' v"
proof -
  obtain p0 db1 r where p0: "variantAccount db (kpVariantID p0) = Some (kpAccountID p0)"
    "insertProfile db p0 = Inr (db1, p)" "recompute db1 db1 (kpAccountID p0) (kpVariantID p0) now2 = Inr (db', r)"
    using enterSingleCost_Inr[OF e] by blast
  note A = append_one_step[OF inv p0]
  show "costInv db'" "costGrows db db'" by (rule A)+
  show "coherent db v \<Longrightarrow> coherent db' v" by (rule A(5))
qed

lemma cancel_step:
  assumes inv: "costInv db" and c: "cancelImport db i = Inr (db', b)"
  shows "costInv db'" "costGrows db db'" "\<And>v. coherent db v \<Longrightarrow> coherent db' v"
proof -
  have u: "updateBatch db i (\<lambda>b. kbStatus b = BatchPreview) (\<lambda>b. b\<lparr>kbStatus := BatchCancelled\<rparr>) = Some (db', b)"
    using c by (auto simp: cancelImport_def cancelBatch_def split: option.splits)
  obtain bs where "db' = db\<lparr>kdBatches := bs\<rparr>" using batchAccount_update(2)[OF u] by auto
  then have bs: "db' = db\<lparr>kdBatches := bs, kdRows := kdRows db\<rparr>" by simp
  have "map kbID (kdBatches db') = map kbID (kdBatches db)"
    using u by (auto simp: updateBatch_def split: option.splits)
  then have d: "distinct (map kbID bs)" using bs inv by (simp add: costInv_def)
  have acct: "batchAccount db' j = batchAccount db j" for j using batchAccount_update(1)[OF u] by simp
  note B = inv_batches[OF inv bs d]
  show "costInv db'" by (rule B) (simp_all add: acct)
  show "coherent db' v" if "coherent db v" for v by (rule B(2)[OF _ _ that]) (simp_all add: acct)
  show "costGrows db db'"
    by (rule costGrows_settings) (use bs updateBatch_keeps(1)[OF u] in \<open>auto simp: sameSettings_def\<close>)
qed

lemma variant_step:
  assumes inv: "costInv db" and v: "variantAccount db (kvID v) = None" and db': "db' = db\<lparr>kdVariants := kdVariants db @ [v]\<rparr>"
  shows "costInv db'" "costGrows db db'" "\<And>w. coherent db w \<Longrightarrow> coherent db' w"
proof -
  have app: "variantAccount db' w = Some a" if "variantAccount db w = Some a" for w a
    using that db' by (auto simp: variantAccount_def find_append_case split: option.splits)
  have row: "readinessRow db' a w t = readinessRow db a w t" for a w t
    using db' by (intro readinessRow_cong) simp_all
  show "coherent db' w" if c: "coherent db w" for w
  proof (cases "kdReadiness db w")
    case None
    then show ?thesis using db' by (simp add: coherent_def)
  next
    case (Some x)
    then have "variantAccount db w = Some (krAccountID x) \<and> x = readinessRow db (krAccountID x) w (krComputedAt x)"
      using coherent_Some c by blast
    moreover have "kdReadiness db' w = Some x" using Some db' by simp
    ultimately show ?thesis unfolding coherent_def row using app by (simp only: option.case)
  qed
  have "distinct (map kvID (kdVariants db'))"
    using inv v db' by (auto simp: costInv_def variantAccount_def find_None_iff)
  then show "costInv db'"
    using inv db' app
    by (fastforce simp: costInv_def profilesOwned_def rowsOwned_def batchAccount_def getBatch_def cacheOwned_def)
  show "costGrows db db'" unfolding costGrows_def using app db' by auto
qed

text \<open>What a read stores is for the owner of the variant.\<close>

lemma getReadiness_Inr:
  assumes "getReadiness dbC dbR db v now = Inr (db', r)"
  obtains (cached) t where "kdReadiness dbC v = Some r" "krStaleBoundary r = Some t" "now < t" "db' = db"
  | (computed) a where "recompute dbR db a v now = Inr (db', r)"
      "variantAccount dbC v = Some a \<or> (\<exists>row. kdReadiness dbC v = Some row \<and> a = krAccountID row)"
  using assms that by (auto simp: getReadiness_def split: option.splits if_splits)

lemma read_owner:
  assumes "cacheOwned dbC" "costGrows dbC db"
    "variantAccount dbC v = Some a \<or> (\<exists>row. kdReadiness dbC v = Some row \<and> a = krAccountID row)"
  shows "variantAccount db v = Some a"
  using assms by (auto simp: cacheOwned_def costGrows_def)

lemma grows_run:
  "(\<lambda>x y. costStep x y \<and> (costInv x \<longrightarrow> costInv y \<and> costGrows x y))\<^sup>*\<^sup>* a b \<Longrightarrow> costInv a \<Longrightarrow> costInv b \<and> costGrows a b"
  by (induction rule: rtranclp_induct) (auto intro: costGrows_refl costGrows_trans)

lemma inv_reachable_step:
  "costReachable db \<Longrightarrow> costInv db"
  "costStep x y \<Longrightarrow> costInv x \<longrightarrow> costInv y \<and> costGrows x y"
proof (induction rule: costReachable_costStep.inducts)
  case (cost_start orgs policies requirements)
  show ?case
    by (simp add: costInv_def emptyCost_def numbered_def versionsOf_def profilesOwned_def rowsOwned_def cacheOwned_def)
next
  case (stepPreview lower db i inp db' p)
  then show ?case using inv_preview by blast
next
  case (stepCommit order db ids i "by" now db' r)
  then show ?case using commit_step by blast
next
  case (stepCancel db i db' b)
  then show ?case using cancel_step by blast
next
  case (stepSingle db i inp now now2 db' p)
  then show ?case using single_step by blast
next
  case (stepRead dbC dbR db variant now db' r)
  show ?case
  proof (intro impI)
    assume inv: "costInv db"
    have C: "costInv dbC" "costGrows dbC db"
      using stepRead.IH grows_run costGrows_trans by blast+
    from stepRead.hyps(2) show "costInv db' \<and> costGrows db db'"
    proof (cases rule: getReadiness_Inr)
      case (computed a)
      then show ?thesis using inv_recompute[OF inv computed(1)] read_owner[OF _ C(2) computed(2)] C(1) unfolding costInv_def by blast
    qed (use inv costGrows_refl in simp)
  qed
next
  case (stepRecompute dbR db variant account now db' r)
  have "costGrows dbR db" using stepRecompute.IH grows_run by blast
  then have "variantAccount db variant = Some account" using stepRecompute.hyps by (simp add: costGrows_def)
  then show ?case using stepRecompute.hyps inv_recompute by (auto simp: recomputeReadiness_def)
next
  case (stepConnector db p0 db1 p now db' r)
  show ?case using append_one_step(1,4)[OF _ stepConnector] by blast
next
  case (stepVariant db v)
  then show ?case using variant_step by blast
qed blast

lemmas inv_reachable = inv_reachable_step(1)
lemma inv_step: "costInv db \<Longrightarrow> costStep db db' \<Longrightarrow> costInv db' \<and> costGrows db db'"
  using inv_reachable_step(2) by blast

lemma run_grows:
  "costStep\<^sup>*\<^sup>* a b \<Longrightarrow> costInv a \<Longrightarrow> costInv b \<and> costGrows a b"
  by (induction rule: rtranclp_induct) (auto intro: costGrows_refl costGrows_trans dest: inv_step)

section \<open>When the cache keeps up\<close>

text \<open>
  A step is overtaken for a variant when it stores a verdict of the variant after a version of the variant
  was committed that its inputs did not contain.
\<close>

definition overtaken :: "uuid \<Rightarrow> cost_db \<Rightarrow> cost_db \<Rightarrow> bool" where
  "overtaken v db db' \<longleftrightarrow>
     (\<exists>dbR a now r. costReachable dbR \<and> costStep\<^sup>*\<^sup>* dbR db \<and> recompute dbR db a v now = Inr (db', r)
        \<and> \<not> versionsSame v dbR db)"

lemma coherent_stored:
  assumes inv: "costInv db" and R: "costReachable dbR" "costStep\<^sup>*\<^sup>* dbR db"
    and r: "recompute dbR db a w now = Inr (db', r)" "variantAccount db w = Some a"
    and q: "\<not> overtaken v db db'" and c: "coherent db v"
  shows "coherent db' v"
proof -
  have g: "costGrows dbR db" using run_grows[OF R(2) inv_reachable[OF R(1)]] by blast
  have "cacheOwned db" using inv by (simp add: costInv_def)
  note one = recompute_effect[OF r this]
  show ?thesis
  proof (cases "v = w")
    case True
    have "versionsSame w dbR db" using q R r(1) unfolding overtaken_def True by blast
    then show ?thesis unfolding True by (rule one(7)) (use g in \<open>simp_all add: costGrows_def\<close>)
  qed (use one(8) c in blast)
qed

lemma coherent_step:
  assumes inv: "costInv db" and st: "costStep db db'" and q: "\<not> overtaken v db db'" and c: "coherent db v"
  shows "coherent db' v"
  using st
proof cases
  case (stepPreview lower i inp p)
  then show ?thesis using inv_preview[OF inv] c by blast
next
  case (stepCommit order i ids "by" now r)
  then show ?thesis using commit_step[OF inv stepCommit(1,2)] c by blast
next
  case (stepCancel i b)
  then show ?thesis using cancel_step[OF inv] c by blast
next
  case (stepSingle i inp now now2 p)
  then show ?thesis using single_step[OF inv] c by blast
next
  case (stepRead dbC dbR variant now r)
  have C: "costInv dbC" "costGrows dbC db"
    using run_grows rtranclp_trans stepRead(1-3) inv_reachable by metis+
  have R: "costReachable dbR"
    using stepRead(2,1) by (induction rule: rtranclp_induct) (auto intro: cost_step)
  from stepRead(4) show ?thesis
  proof (cases rule: getReadiness_Inr)
    case (computed a)
    have "variantAccount db variant = Some a" using read_owner[OF _ C(2) computed(2)] C(1) by (simp add: costInv_def)
    then show ?thesis using coherent_stored[OF inv R stepRead(3) computed(1) _ q c] by blast
  qed (use c in simp)
next
  case (stepRecompute dbR variant account now r)
  have "costGrows dbR db" using run_grows stepRecompute(1,2) inv_reachable by blast
  then have "variantAccount db variant = Some account" using stepRecompute(3) by (simp add: costGrows_def)
  then show ?thesis
    using coherent_stored[OF inv stepRecompute(1,2) _ _ q c] stepRecompute(4) by (simp add: recomputeReadiness_def)
next
  case (stepConnector p0 db1 p now r)
  show ?thesis by (rule append_one_step(5)[OF inv stepConnector c])
next
  case (stepVariant v)
  then show ?thesis using variant_step[OF inv] c by blast
qed

text \<open>A run in which no step is overtaken for the variant.\<close>

definition undisturbed :: "uuid \<Rightarrow> cost_db \<Rightarrow> cost_db \<Rightarrow> bool" where
  "undisturbed v = (\<lambda>x y. costStep x y \<and> \<not> overtaken v x y)\<^sup>*\<^sup>*"

lemma undisturbed_coherent:
  assumes "undisturbed v (emptyCost orgs policies requirements) db"
  shows "costReachable db \<and> coherent db v"
  using assms unfolding undisturbed_def
proof (induction rule: rtranclp_induct)
  case base
  have "coherent (emptyCost orgs policies requirements) v" by (simp add: coherent_def emptyCost_def)
  then show ?case using cost_start by blast
next
  case (step x y)
  then show ?case using coherent_step inv_reachable cost_step by blast
qed

end
