(* ===== verification/CostFresh.thy ===== *)
theory CostFresh
  imports CostLife
begin

text \<open>
  The properties of the cost service over its runs, applied to a concrete run at the end, and the places
  where the program departs from them: a cost dated in the future or the past, a verdict stored late, and
  the commission that no code can make authoritative.
\<close>

section \<open>Versions\<close>

text \<open>
  C13. The ledger of cost versions is append-only, gap-free and tenant-clean: in every reachable state the
  versions of a variant and component are numbered 1, 2, 3 and so on in the order they were written, every
  version belongs to the account that owns its variant, and no operation changes or removes one.
\<close>

theorem cost_ledger_sound:
  assumes "costReachable db"
  shows "(\<forall>v c. map kpVersion (versionsOf (kdProfiles db) v c) = map int [1..<Suc (length (versionsOf (kdProfiles db) v c))])
    \<and> (\<forall>p \<in> set (kdProfiles db). variantAccount db (kpVariantID p) = Some (kpAccountID p))
    \<and> (\<forall>db'. costStep db db' \<longrightarrow> (\<exists>new. kdProfiles db' = kdProfiles db @ new))"
  using inv_reachable[OF assms] inv_step unfolding costInv_def numbered_def profilesOwned_def costGrows_def by blast

text \<open>
  C14. An import is committed once and exactly: a successful commit was given a batch in preview without
  unresolved duplicates, appends one version per accepted row in order, with the row's amount and the
  batch's account, and nothing else; and in no later state of the run, whatever happens in between, is the
  batch anything but the committed row, or can it be committed or cancelled again.
\<close>

theorem import_committed_exactly:
  assumes "costReachable db" "\<And>xs. mset (order xs) = mset xs" "commitImport order db ids i by now = Inr (db', r)"
  shows "(\<exists>b \<in> set (kdBatches db). kbID b = i \<and> kbStatus b = BatchPreview \<and> kbDuplicate b = 0)
    \<and> (\<exists>b new. getBatch db i = Some b \<and> kdProfiles db' = kdProfiles db @ new
         \<and> map unversioned new = map (\<lambda>(k, r). profileOfRow b by now (ids k) r) (enumerate 0 (listAccepted db i))
         \<and> kcCommittedRows r = length new)
    \<and> kbStatus (kcBatch r) = BatchCommitted
    \<and> (\<forall>dbL. costStep\<^sup>*\<^sup>* db' dbL \<longrightarrow> getBatch dbL i = Some (kcBatch r)
         \<and> (\<forall>order' ids' by' now'. commitImport order' dbL ids' i by' now' = Inl ErrBatchNotPreview)
         \<and> cancelImport dbL i = Inl ErrBatchNotPreview)"
proof -
  have inv: "costInv db" by (rule inv_reachable[OF assms(1)])
  obtain b new db1 where c: "getBatch db i = Some b" "kdProfiles db' = kdProfiles db @ new"
    "map unversioned new = map (\<lambda>(k, r). profileOfRow b by now (ids k) r) (enumerate 0 (listAccepted db i))"
    "kcCommittedRows r = length new" "markCommitted db i now = Some (db1, kcBatch r)" "kdBatches db' = kdBatches db1"
    "costInv db'"
    using commit_step[OF inv assms(2,3)] by blast
  note M = markCommitted_Some[OF c(5)]
  have later: "getBatch dbL i = Some (kcBatch r)" if "costStep\<^sup>*\<^sup>* db' dbL" for dbL
  proof -
    have "costInv dbL \<and> costGrows db' dbL" by (rule run_grows[OF that c(7)])
    then have "distinct (map kbID (kdBatches dbL))" "kcBatch r \<in> set (kdBatches dbL)"
      using M(2,8) c(6) by (auto simp: costInv_def costGrows_def)
    then show ?thesis using find_distinct[of kbID] M(9) by (auto simp: getBatch_def)
  qed
  have closed: "commitImport order' dbL ids' i by' now' = Inl ErrBatchNotPreview"
    "cancelImport dbL i = Inl ErrBatchNotPreview" if "costStep\<^sup>*\<^sup>* db' dbL" for dbL order' ids' by' now'
  proof -
    note g = later[OF that]
    show "commitImport order' dbL ids' i by' now' = Inl ErrBatchNotPreview"
      using g M(2) by (simp add: commitImport_def)
    have "distinct (map kbID (kdBatches dbL))"
      using run_grows[OF that c(7)] by (simp add: costInv_def)
    then have "y = kcBatch r" if "y \<in> set (kdBatches dbL)" "kbID y = i" for y
      using g that find_distinct[of kbID "kdBatches dbL" y] by (simp add: getBatch_def)
    then have "find (\<lambda>b. kbID b = i \<and> kbStatus b = BatchPreview) (kdBatches dbL) = None"
      using M(2) by (auto simp: find_None_iff)
    then show "cancelImport dbL i = Inl ErrBatchNotPreview"
      by (simp add: cancelImport_def cancelBatch_def updateBatch_def)
  qed
  show ?thesis using c(1-4) M(1,2) later closed by blast
qed

text \<open>
  Further. A historical answer is reproducible as long as nothing is written into the past: the lookup at an
  instant is unchanged by a step whose new versions take effect later.
\<close>

theorem history_reproducible:
  assumes "costReachable db" "costStep db db'"
    "\<forall>p \<in> set (kdProfiles db') - set (kdProfiles db). at < kpEffectiveFrom p"
    "distinct (kdProfiles db')"
  shows "costProfileAt db' v at = costProfileAt db v at"
proof -
  obtain new where new: "kdProfiles db' = kdProfiles db @ new"
    using inv_step[OF inv_reachable[OF assms(1)] assms(2)] unfolding costGrows_def by blast
  then have "\<forall>p \<in> set new. at < kpEffectiveFrom p" using assms(3,4) by auto
  then have "inForce (kdProfiles db') v at = inForce (kdProfiles db) v at"
    unfolding new by (intro ext inForce_append) blast
  then show ?thesis by (simp only: costProfileAt_def)
qed

section \<open>Readiness\<close>

text \<open>No version of the variant took effect since its cached readiness was computed.\<close>

definition noneTookEffect :: "cost_db \<Rightarrow> uuid \<Rightarrow> instant \<Rightarrow> bool" where
  "noneTookEffect db v now \<longleftrightarrow>
     (\<forall>row. kdReadiness db v = Some row \<longrightarrow> krComputedAt row \<le> now \<and>
        (\<forall>p \<in> set (kdProfiles db). kpVariantID p = v \<longrightarrow> kpEffectiveFrom p \<le> krComputedAt row \<or> now < kpEffectiveFrom p))"

text \<open>
  C15. Reading readiness through the cache is as good as deriving it anew.  Take any run in which no verdict
  of the variant was stored after a version it had not seen, and any read, whose statements may be
  separated by other steps.  If no version of the variant took effect since the cached row was computed,
  the row the read returns has the state and the missing and stale components that the versions in force
  now, the requirements and the policy of the owning account give at one of the two moments the read
  looked at the tables, even when the clock has passed the review date of some cost.
\<close>

theorem cached_readiness_current:
  assumes "undisturbed v (emptyCost orgs policies requirements) dbC" "costStep\<^sup>*\<^sup>* dbC dbR" "costStep\<^sup>*\<^sup>* dbR db"
    "getReadiness dbC dbR db v now = Inr (db', row)" "noneTookEffect dbC v now"
  shows "\<exists>dbS \<in> {dbC, dbR}. \<exists>a. variantAccount dbS v = Some a \<and>
    (let verdict = deriveReadiness (readinessInputAt dbS a v now) in
     krState row = rdState verdict \<and> krMissing row = marshalComponents (rdMissing verdict)
     \<and> krStale row = marshalComponents (rdStale verdict))"
proof -
  have reach: "costReachable dbC" and coh: "coherent dbC v" using undisturbed_coherent[OF assms(1)] by blast+
  have C: "costInv dbC" by (rule inv_reachable[OF reach])
  have R: "costInv dbR" "costGrows dbC dbR" using run_grows[OF assms(2) C] by blast+
  have D: "costInv db" "costGrows dbC db" using run_grows[OF assms(3) R(1)] costGrows_trans[OF R(2)] by blast+
  have owned: "cacheOwned dbC" "cacheOwned db" using C D(1) by (simp_all add: costInv_def)
  from assms(4) show ?thesis
  proof (cases rule: getReadiness_Inr)
    case (computed a)
    have a: "variantAccount dbR v = Some a" "variantAccount db v = Some a"
      using read_owner[OF owned(1) _ computed(2)] R(2) D(2) by blast+
    have "row = readinessRow dbR a v now" by (rule recompute_effect(5)[OF computed(1) a(2) owned(2)])
    then show ?thesis using a(1) by (auto simp: readinessRow_def Let_def)
  next
    case (cached b)
    obtain a t where at: "variantAccount dbC v = Some a" "row = readinessRow dbC a v t"
      using coherent_Some[OF coh cached(1)] by blast
    have b: "earliestStaleBoundary (readinessInputAt dbC a v t) (staleAfters (costProfileAt dbC v t)) = b"
      using cached(2) unfolding at(2) by (simp add: readinessRow_def Let_def)
    have "krComputedAt row = t" unfolding at(2) by simp
    then have "deriveReadiness (readinessInputAt dbC a v now) = deriveReadiness (readinessInputAt dbC a v t)"
      using assms(5) cached(1,3) b by (intro verdict_until_boundary) (auto simp: noneTookEffect_def)
    then show ?thesis using at by (auto simp: readinessRow_def Let_def)
  qed
qed

text \<open>
  Further. Readiness is never complete while no version comes from the connector: the commission stays
  unsatisfied, whatever the seller enters.
\<close>

theorem commission_never_satisfied:
  assumes "\<forall>p \<in> set (kdProfiles db). kpSource p \<noteq> sourceConnector"
  shows "rdState (deriveReadiness (readinessInputAt db a v now)) = StateMissing"
proof -
  have "cpAuthoritative (presenceOf (readinessInputAt db a v now) ComponentCommission) = False"
  proof (cases "inForce (kdProfiles db) v now ComponentCommission")
    case None
    then show ?thesis by (simp add: presenceOf_def readinessInputAt_def presences_at absentPresence_def)
  next
    case (Some p)
    then have "kpSource p \<noteq> sourceConnector" using assms inForce_facts[OF Some] by blast
    then show ?thesis using Some
      by (simp add: presenceOf_def readinessInputAt_def presences_at presenceFrom_def absentPresence_def
          isAuthoritativeSource_def)
  qed
  then have "\<not> satisfied (readinessInputAt db a v now) ComponentCommission"
    by (simp add: satisfied_def requiresAuthoritativeProvenance_def)
  then show ?thesis by (auto simp: deriveReadiness_state isHardRequired_def)
qed

text \<open>And the program's own writers never use that source.\<close>

lemma program_sources:
  assumes "costInv db"
  shows "enterSingleCost db i inp now now2 = Inr (db1, p) \<Longrightarrow> kdProfiles db1 = kdProfiles db @ [p] \<and> kpSource p = sourceSingleValue"
    "(\<And>xs. mset (order xs) = mset xs) \<Longrightarrow> commitImport order db ids j by now = Inr (db2, r) \<Longrightarrow>
       \<exists>new. kdProfiles db2 = kdProfiles db @ new \<and> (\<forall>p \<in> set new. kpSource p = sourceCSVImport)"
proof -
  show "enterSingleCost db i inp now now2 = Inr (db1, p) \<Longrightarrow> kdProfiles db1 = kdProfiles db @ [p] \<and> kpSource p = sourceSingleValue"
    using enterSingleCost_Inr append_one_step[OF assms] by metis
  assume "\<And>xs. mset (order xs) = mset xs" "commitImport order db ids j by now = Inr (db2, r)"
  then obtain b new where new: "kdProfiles db2 = kdProfiles db @ new"
    "map unversioned new = map (\<lambda>(k, r). profileOfRow b by now (ids k) r) (enumerate 0 (listAccepted db j))"
    using commit_step[OF assms] by blast
  have "map kpSource (map unversioned new) = map kpSource new" by (simp add: unversioned_def)
  then have "map kpSource new = map kpSource (map (\<lambda>(k, r). profileOfRow b by now (ids k) r) (enumerate 0 (listAccepted db j)))"
    using new(2) by simp
  also have "set \<dots> \<subseteq> {sourceCSVImport}" by (auto simp: profileOfRow_def)
  finally have "kpSource ` set new \<subseteq> {sourceCSVImport}" by simp
  then show "\<exists>new. kdProfiles db2 = kdProfiles db @ new \<and> (\<forall>p \<in> set new. kpSource p = sourceCSVImport)"
    using new(1) by blast
qed

section \<open>A concrete run\<close>

text \<open>
  A variant with connector costs at instant 10, an import of two cells, and a commission the seller enters
  to take effect at instant 1000.
\<close>

definition costDemo0 :: cost_db where
  "costDemo0 = (emptyCost [1 \<mapsto> 2] Map.empty Map.empty)\<lparr>kdVariants :=
     [\<lparr>kvID = 3, kvAccountID = 2, kvSupplierCode = runes ''A''\<rparr>]\<rparr>"

definition demoVersion :: "uuid \<Rightarrow> component \<Rightarrow> int \<Rightarrow> instant \<Rightarrow> string \<Rightarrow> cost_profile" where
  "demoVersion i c n t source =
     \<lparr>kpID = i, kpAccountID = 2, kpVariantID = 3, kpComponent = c, kpVersion = n, kpMantissa = 5,
      kpCurrency = ''IRR'', kpExponent = 0, kpRawText = [], kpRawValue = [], kpRawUnit = [], kpEffectiveFrom = t,
      kpStaleAfter = None, kpSource = source, kpBatchID = None, kpCreatedBy = None\<rparr>"

definition demoPresent :: cost_profile where
  "demoPresent = demoVersion 11 ComponentCOGS 1 10 sourceConnector"

definition costDemo1 :: cost_db where
  "costDemo1 = costDemo0\<lparr>kdProfiles := [demoPresent],
     kdReadiness := [3 \<mapsto> readinessRow (costDemo0\<lparr>kdProfiles := [demoPresent]\<rparr>) 2 3 10]\<rparr>"

lemma costDemo0_fields [simp]:
  "kdProfiles costDemo0 = []" "kdReadiness costDemo0 = Map.empty" "kdBatches costDemo0 = []" "kdRows costDemo0 = []"
  "kdPolicies costDemo0 = Map.empty" "kdRequirements costDemo0 = Map.empty"
  "kdVariants costDemo0 = [\<lparr>kvID = 3, kvAccountID = 2, kvSupplierCode = runes ''A''\<rparr>]"
  by (simp_all add: costDemo0_def emptyCost_def)

lemma costDemo1_fields [simp]:
  "kdProfiles costDemo1 = [demoPresent]" "kdBatches costDemo1 = []" "kdRows costDemo1 = []"
  "kdPolicies costDemo1 = Map.empty" "kdRequirements costDemo1 = Map.empty"
  "kdVariants costDemo1 = kdVariants costDemo0"
  "kdReadiness costDemo1 = [3 \<mapsto> readinessRow (costDemo0\<lparr>kdProfiles := [demoPresent]\<rparr>) 2 3 10]"
  by (simp_all add: costDemo1_def)

lemma demo_owner: "kdVariants db = kdVariants costDemo0 \<Longrightarrow> variantAccount db 3 = Some 2"
  by (simp add: variantAccount_def)

lemma costDemo0_step: "costStep (emptyCost [1 \<mapsto> 2] Map.empty Map.empty) costDemo0"
  using stepVariant[of "emptyCost [1 \<mapsto> 2] Map.empty Map.empty" "\<lparr>kvID = 3, kvAccountID = 2, kvSupplierCode = runes ''A''\<rparr>"]
  by (simp add: costDemo0_def variantAccount_def emptyCost_def)

lemma costDemo0_reachable: "costReachable costDemo0"
  by (rule cost_step[OF cost_start costDemo0_step])

lemma costDemo1_step: "costStep costDemo0 costDemo1"
proof (rule stepConnector[of costDemo0 demoPresent _ _ 10])
  show "variantAccount costDemo0 (kpVariantID demoPresent) = Some (kpAccountID demoPresent)"
    using demo_owner[of costDemo0] by (simp add: demoPresent_def demoVersion_def)
  show "insertProfile costDemo0 demoPresent = Inr (costDemo0\<lparr>kdProfiles := [demoPresent]\<rparr>, demoPresent)"
    using demo_owner[of costDemo0]
    by (simp add: insertProfile_def demoPresent_def demoVersion_def nextVersion_def versionsOf_def
        componentValid_def component_class_defs Let_def)
  have "variantAccount (costDemo0\<lparr>kdProfiles := [demoPresent]\<rparr>) 3 = Some 2" by (rule demo_owner) simp
  then show "recompute (costDemo0\<lparr>kdProfiles := [demoPresent]\<rparr>) (costDemo0\<lparr>kdProfiles := [demoPresent]\<rparr>)
      (kpAccountID demoPresent) (kpVariantID demoPresent) 10
    = Inr (costDemo1, readinessRow (costDemo0\<lparr>kdProfiles := [demoPresent]\<rparr>) 2 3 10)"
    by (simp add: recompute_def upsertReadiness_def costDemo1_def demoPresent_def demoVersion_def Let_def)
qed

lemma costDemo1_reachable: "costReachable costDemo1"
  by (rule cost_step[OF costDemo0_reachable costDemo1_step])

theorem cost_ledger_sound_witness:
  "map kpVersion (versionsOf (kdProfiles costDemo1) 3 ComponentCOGS) = [1]"
  using cost_ledger_sound[OF costDemo1_reachable] by (simp add: versionsOf_def demoPresent_def demoVersion_def)

lemma boundary_empty: "earliestStaleBoundary inp Map.empty = staleBoundarySentinel"
proof -
  have "foldl (boundaryStep inp Map.empty) b cs = b" for b cs
    by (induction cs arbitrary: b) (simp_all add: boundaryStep_def Let_def)
  then show ?thesis by (simp add: earliestStaleBoundary_def)
qed

text \<open>Writing a verdict changes the cache alone, so no other step is overtaken.\<close>

lemma overtaken_keeps: "overtaken v db db' \<Longrightarrow> kdVariants db' = kdVariants db \<and> kdProfiles db' = kdProfiles db"
  by (auto simp: overtaken_def recompute_def upsertReadiness_def Let_def split: if_splits)

lemma costDemo1_undisturbed: "undisturbed 3 (emptyCost [1 \<mapsto> 2] Map.empty Map.empty) costDemo1"
proof -
  let ?r = "\<lambda>x y. costStep x y \<and> \<not> overtaken 3 x y"
  have "?r (emptyCost [1 \<mapsto> 2] Map.empty Map.empty) costDemo0"
    using overtaken_keeps costDemo0_step by (force simp: emptyCost_def)
  moreover have "?r costDemo0 costDemo1" using overtaken_keeps costDemo1_step by force
  ultimately show ?thesis
    unfolding undisturbed_def by (rule rtranclp.rtrancl_into_rtrancl[where r = ?r, OF r_into_rtranclp])
qed

lemma demo_boundary: "krStaleBoundary (readinessRow (costDemo0\<lparr>kdProfiles := [demoPresent]\<rparr>) 2 3 10) = Some staleBoundarySentinel"
proof -
  have "staleAfters (costProfileAt (costDemo0\<lparr>kdProfiles := [demoPresent]\<rparr>) 3 10) = Map.empty"
  proof
    show "staleAfters (costProfileAt (costDemo0\<lparr>kdProfiles := [demoPresent]\<rparr>) 3 10) c = None" for c
      using inForce_facts[of "[demoPresent]" 3 10 c]
      by (cases "inForce [demoPresent] 3 10 c") (auto simp: staleAfters_at demoPresent_def demoVersion_def)
  qed
  then show ?thesis by (simp add: readinessRow_def Let_def boundary_empty)
qed

theorem cached_readiness_current_witness:
  "getReadiness costDemo1 costDemo1 costDemo1 3 20 = Inr (costDemo1, the (kdReadiness costDemo1 3))
   \<and> krState (the (kdReadiness costDemo1 3)) = rdState (deriveReadiness (readinessInputAt costDemo1 2 3 20))"
proof -
  have g: "getReadiness costDemo1 costDemo1 costDemo1 3 20 = Inr (costDemo1, the (kdReadiness costDemo1 3))"
    using demo_boundary by (simp add: getReadiness_def staleBoundarySentinel_def second_def)
  have "noneTookEffect costDemo1 3 20" by (simp add: noneTookEffect_def demoPresent_def demoVersion_def)
  from cached_readiness_current[OF costDemo1_undisturbed rtranclp.rtrancl_refl rtranclp.rtrancl_refl g this]
    demo_owner[of costDemo1]
  show ?thesis using g by (simp add: Let_def)
qed

text \<open>The import: one accepted cell of a file with the columns of a SKU and a cost of goods.\<close>

definition demoBatch :: import_batch where
  "demoBatch = \<lparr>kbID = 20, kbAccountID = 2, kbFilename = [], kbStatus = BatchPreview, kbAccept = 1, kbReject = 0,
     kbDuplicate = 0, kbCreatedBy = None, kbCommittedAt = None\<rparr>"

definition demoImportRow :: import_row where
  "demoImportRow = \<lparr>kiBatchID = 20, kiRowNumber = 1, kiRawSKU = runes ''A'', kiComponent = ComponentCOGS,
     kiRawValue = runes ''7'', kiNormalized = runes ''7'', kiRawUnit = [], kiVariantID = Some 3, kiMantissa = Some 7,
     kiCurrency = ''IRR'', kiExponent = 0, kiDisposition = DispositionAccept, kiReason = []\<rparr>"

definition demoPreviewInput :: preview_input where
  "demoPreviewInput = \<lparr>piAccount = 2, piFilename = [], piValidUTF8 = True,
     piReads = [CsvRecord [runes ''sku'', runes ''cogs''], CsvRecord [runes ''A'', runes ''7'']],
     piMapping = \<lparr>mpSKUColumn = [], mpComponents = []\<rparr>, piCreatedBy = 0\<rparr>"

definition costDemo2 :: cost_db where
  "costDemo2 = costDemo1\<lparr>kdBatches := [demoBatch], kdRows := [demoImportRow]\<rparr>"

definition demoEntry :: parsed_entry where
  "demoEntry = \<lparr>peRowNumber = 1, peRawSKU = runes ''A'', peComponent = ComponentCOGS, peRawValue = runes ''7'',
     peNormalized = runes ''7''\<rparr>"

lemma demo_parse: "parseAmount (runes ''7'') ''IRR'' 0 = Inr \<lparr>mantissa = 7, currency = ''IRR'', exponent = 0\<rparr>"
  by (simp add: parseAmount_def runes_def digits_def digitFold_def trimSpace_def isSpaceRune_def
      percentMarks_def replaceSeparator_def cutDot_def isASCIIDigits_def isDigitRune_def
      targetFrac_def word_sless_alt mantissaDigits_def parseInt_runes digitsVal_def newMoney_def)

lemma demo_csv: "\<exists>det. parseCSV id True (piReads demoPreviewInput) (piMapping demoPreviewInput) = Inr ([demoEntry], det)"
  by (simp add: demoPreviewInput_def demoEntry_def parseCSV_def resolveColumns_def scanColumn_def Let_def addColumn_def
      skuHeaderAliases_def runes_def trimSpace_def isSpaceRune_def parseComponentRunes_def allComponents_def
      isBlankRecord_def recordEntries_def digits_def digitFold_def andThen_def)

lemma demo_preview: "\<exists>p. previewImport id costDemo1 20 demoPreviewInput = Inr (costDemo2, p)"
proof -
  obtain det where csv: "parseCSV id True (piReads demoPreviewInput) (piMapping demoPreviewInput) = Inr ([demoEntry], det)"
    using demo_csv by blast
  have res: "resolveSKUs costDemo1 2 [demoEntry] Map.empty = [runes ''A'' \<mapsto> \<lparr>rsVariantID = 3, rsCount = Suc 0\<rparr>]"
    by (simp add: resolveVariants_def demoEntry_def)
  have pol: "loadPolicy costDemo1 2 = \<lparr>kaCurrency = ''IRR'', kaExponent = 0, kaRequired = (\<lambda>_. False)\<rparr>"
    by (simp add: loadPolicy_def defaultEntryCurrency_def defaultEntryExponent_def)
  have rows: "decideRow (dupCounts [demoEntry] (\<lambda>_. 0)) [runes ''A'' \<mapsto> \<lparr>rsVariantID = 3, rsCount = Suc 0\<rparr>] ''IRR'' 0 demoEntry
      = \<lparr>prRowNumber = 1, prRawSKU = runes ''A'', prComponent = ComponentCOGS, prRawValue = runes ''7'',
         prNormalized = runes ''7'', prVariantID = 3, prHasVariant = True, prMantissa = 7, prCurrency = ''IRR'',
         prExponent = 0, prHasAmount = True, prDisposition = DispositionAccept, prReason = []\<rparr>"
    using demo_parse by (simp add: decideRow_def blankRow_def Let_def demoEntry_def)
  have fields: "piValidUTF8 demoPreviewInput" "piAccount demoPreviewInput = 2" "piFilename demoPreviewInput = []"
    "piCreatedBy demoPreviewInput = 0" by (simp_all add: demoPreviewInput_def)
  show ?thesis
    unfolding previewImport_def
    by (simp del: resolveSKUs.simps dupCounts.simps
        add: csv res pol rows fields buildPreviewRows_def countRow_def Let_def andThen_def mapErr_def storedRow_def
        insertBatch_def getBatch_def insertRow_def uuidPtr_def costDemo2_def demoBatch_def demoImportRow_def)
qed

lemma costDemo2_reachable: "costReachable costDemo2"
  using demo_preview cost_step[OF costDemo1_reachable stepPreview] by blast

lemma demo_commit: "\<exists>db' r. commitImport id costDemo2 (\<lambda>k. 30) 20 9 100 = Inr (db', r) \<and> kcCommittedRows r = 1"
proof -
  have b: "getBatch costDemo2 20 = Some demoBatch" by (simp add: getBatch_def costDemo2_def demoBatch_def)
  have m: "markCommitted costDemo2 20 100 =
      Some (costDemo2\<lparr>kdBatches := [demoBatch\<lparr>kbStatus := BatchCommitted, kbCommittedAt := Some 100\<rparr>]\<rparr>,
            demoBatch\<lparr>kbStatus := BatchCommitted, kbCommittedAt := Some 100\<rparr>)" (is "_ = Some (?db1, _)")
    by (simp add: markCommitted_def updateBatch_def costDemo2_def demoBatch_def)
  have acc: "listAccepted ?db1 20 = [demoImportRow]"
    by (simp add: listAccepted_def listRows_def costDemo2_def demoImportRow_def)
  let ?p = "(profileOfRow demoBatch 9 100 30 demoImportRow)\<lparr>kpVersion := 2\<rparr>"
  have pf: "kpVariantID (profileOfRow demoBatch 9 100 30 demoImportRow) = 3"
    "kpComponent (profileOfRow demoBatch 9 100 30 demoImportRow) = ComponentCOGS"
    "kpID (profileOfRow demoBatch 9 100 30 demoImportRow) = 30"
    by (simp_all add: profileOfRow_def demoImportRow_def)
  have own: "variantAccount (?db1\<lparr>kdProfiles := x\<rparr>) 3 = Some 2" "variantAccount ?db1 3 = Some 2" for x
    using demo_owner by (simp_all add: costDemo2_def)
  have ins: "insertProfile ?db1 (profileOfRow demoBatch 9 100 30 demoImportRow)
      = Inr (?db1\<lparr>kdProfiles := [demoPresent, ?p]\<rparr>, ?p)"
    using own(2) by (simp add: insertProfile_def pf nextVersion_def versionsOf_def costDemo2_def demoPresent_def
        demoVersion_def componentValid_def component_class_defs Let_def)
  let ?db2 = "?db1\<lparr>kdProfiles := [demoPresent, ?p]\<rparr>"
  obtain db3 row where rc: "recompute ?db2 ?db2 2 3 100 = Inr (db3, row)"
    using own(1) by (simp add: recompute_def upsertReadiness_def Let_def)
  have st: "kbStatus demoBatch = BatchPreview" "\<not> 0 <s kbDuplicate demoBatch" "kbAccountID demoBatch = 2"
    by (simp_all add: demoBatch_def word_sless_alt)
  show ?thesis
    unfolding commitImport_def b option.case m Let_def prod.case acc
    by (simp add: st ins pf rc andThen_def enumerate_simps)
qed

theorem import_committed_exactly_witness:
  "\<exists>db' r. commitImport id costDemo2 (\<lambda>k. 30) 20 9 100 = Inr (db', r) \<and> length (kdProfiles db') = 2
     \<and> getBatch db' 20 = Some (kcBatch r) \<and> commitImport id db' (\<lambda>k. 40) 20 9 200 = Inl ErrBatchNotPreview"
proof -
  obtain db' r where c: "commitImport id costDemo2 (\<lambda>k. 30) 20 9 100 = Inr (db', r)" "kcCommittedRows r = 1"
    using demo_commit by blast
  have "mset (id xs) = mset xs" for xs :: "uuid list" by simp
  from import_committed_exactly[OF costDemo2_reachable this c(1)]
  show ?thesis using c by (auto simp: costDemo2_def)
qed

text \<open>
  Without the condition of the cached read it fails: the seller enters a cost of goods at 10 that takes
  effect at 1000.  The cached row is served at 2000 and calls the cost missing, although it is in force.
\<close>

definition demoFuture :: single_cost_input where
  "demoFuture = \<lparr>siAccount = 2, siVariantID = 3, siComponent = ComponentCOGS, siRawValue = runes ''7'', siRawUnit = [],
     siEffectiveFrom = Some 1000, siStaleAfter = None, siCreatedBy = 0\<rparr>"

definition demoFutureVersion :: cost_profile where
  "demoFutureVersion =
     \<lparr>kpID = 11, kpAccountID = 2, kpVariantID = 3, kpComponent = ComponentCOGS, kpVersion = 1, kpMantissa = 7,
      kpCurrency = ''IRR'', kpExponent = 0, kpRawText = runes ''7'', kpRawValue = runes ''7'', kpRawUnit = [],
      kpEffectiveFrom = 1000, kpStaleAfter = None, kpSource = sourceSingleValue, kpBatchID = None, kpCreatedBy = None\<rparr>"

definition costDemo3 :: cost_db where
  "costDemo3 = costDemo0\<lparr>kdProfiles := [demoFutureVersion],
     kdReadiness := [3 \<mapsto> readinessRow (costDemo0\<lparr>kdProfiles := [demoFutureVersion]\<rparr>) 2 3 10]\<rparr>"

lemma demo_future: "enterSingleCost costDemo0 11 demoFuture 10 10 = Inr (costDemo3, demoFutureVersion)"
proof -
  have own: "variantAccount costDemo0 3 = Some 2" "variantAccount (costDemo0\<lparr>kdProfiles := x\<rparr>) 3 = Some 2" for x
    using demo_owner by simp_all
  have pol: "loadPolicy costDemo0 2 = \<lparr>kaCurrency = ''IRR'', kaExponent = 0, kaRequired = (\<lambda>_. False)\<rparr>"
    by (simp add: loadPolicy_def defaultEntryCurrency_def defaultEntryExponent_def)
  have norm: "normalizedValue (runes ''7'') = runes ''7''"
    by (simp add: normalizedValue_def runes_def trimSpace_def isSpaceRune_def digits_def digitFold_def)
  show ?thesis
    by (simp add: enterSingleCost_def demoFuture_def assertVariantOwnedBy_def own pol norm demo_parse Let_def
        componentValid_def component_class_defs insertProfile_def nextVersion_def versionsOf_def uuidPtr_def
        recompute_def upsertReadiness_def costDemo3_def demoFutureVersion_def andThen_def mapErr_def guardR_def)
qed

lemma missing_before:
  assumes "inForce (kdProfiles db) v t ComponentCOGS = None"
  shows "ComponentCOGS \<in> set (decodeComponentList (krMissing (readinessRow db a v t)))"
proof -
  have "\<not> satisfied (readinessInputAt db a v t) ComponentCOGS"
    by (simp add: satisfied_def presenceOf_def readinessInputAt_def presences_at assms absentPresence_def)
  then have "ComponentCOGS \<in> set (rdMissing (deriveReadiness (readinessInputAt db a v t)))"
    by (simp add: deriveReadiness_lists required_def isHardRequired_def allComponents_def)
  moreover have "componentOf (componentText ComponentCOGS) = ComponentCOGS" "componentValid ComponentCOGS"
    by (simp_all add: componentOf_def allComponents_def componentValid_def component_class_defs)
  ultimately show ?thesis
    by (force simp: readinessRow_def Let_def decodeComponentList_def marshalComponents_def image_iff)
qed

lemma satisfied_after:
  assumes "inForce (kdProfiles db) v t ComponentCOGS = Some p"
  shows "satisfied (readinessInputAt db a v t) ComponentCOGS"
  by (simp add: satisfied_def presenceOf_def readinessInputAt_def presences_at assms presenceFrom_def
      componentValid_def component_class_defs requiresAuthoritativeProvenance_def)

lemma boundary_none:
  assumes "\<And>c. inForce (kdProfiles db) v t c = None"
  shows "krStaleBoundary (readinessRow db a v t) = Some staleBoundarySentinel"
proof -
  have "staleAfters (costProfileAt db v t) = Map.empty" by (rule ext) (simp add: staleAfters_at assms)
  then show ?thesis by (simp add: readinessRow_def Let_def boundary_empty)
qed

lemma cached_readiness_future_cost:
  "\<exists>row. costReachable costDemo3 \<and> getReadiness costDemo3 costDemo3 costDemo3 3 2000 = Inr (costDemo3, row)
     \<and> ComponentCOGS \<in> set (decodeComponentList (krMissing row))
     \<and> satisfied (readinessInputAt costDemo3 2 3 2000) ComponentCOGS"
proof -
  let ?db = "costDemo0\<lparr>kdProfiles := [demoFutureVersion]\<rparr>"
  let ?row = "readinessRow ?db 2 3 10"
  have kd: "kdReadiness costDemo3 3 = Some ?row" "kdProfiles costDemo3 = [demoFutureVersion]"
    by (simp_all add: costDemo3_def)
  have before: "inForce (kdProfiles ?db) 3 10 c = None" for c
    by (simp add: inForce_def newest_def demoFutureVersion_def)
  have after: "inForce (kdProfiles costDemo3) 3 2000 ComponentCOGS = Some demoFutureVersion"
    by (simp add: inForce_def newest_def demoFutureVersion_def kd)
  have g: "getReadiness costDemo3 costDemo3 costDemo3 3 2000 = Inr (costDemo3, ?row)"
    using boundary_none[OF before] by (simp add: getReadiness_def kd staleBoundarySentinel_def second_def)
  have "costReachable costDemo3" by (rule cost_step[OF costDemo0_reachable stepSingle[OF demo_future]])
  then show ?thesis using g missing_before[OF before] satisfied_after[OF after] by blast
qed

text \<open>
  And the run must be undisturbed: a read that looked at the tables before a cost was committed stores its
  verdict afterwards.  The cost is in force, yet every later read is served the verdict that calls it missing.
\<close>

definition costDemo4 :: cost_db where
  "costDemo4 = costDemo1\<lparr>kdReadiness := [3 \<mapsto> readinessRow costDemo0 2 3 20]\<rparr>"

lemma cached_readiness_overtaken:
  "\<exists>row. costReachable costDemo4 \<and> getReadiness costDemo4 costDemo4 costDemo4 3 30 = Inr (costDemo4, row)
     \<and> noneTookEffect costDemo4 3 30 \<and> ComponentCOGS \<in> set (decodeComponentList (krMissing row))
     \<and> satisfied (readinessInputAt costDemo4 2 3 30) ComponentCOGS"
proof -
  let ?row = "readinessRow costDemo0 2 3 20"
  have kd: "kdReadiness costDemo4 3 = Some ?row" "kdProfiles costDemo4 = [demoPresent]"
    by (simp_all add: costDemo4_def)
  have same: "(readinessRow costDemo0 2 3 20)\<lparr>krAccountID := 2\<rparr> = readinessRow costDemo0 2 3 20"
    by (simp add: readinessRow_def Let_def)
  have "getReadiness costDemo0 costDemo0 costDemo1 3 20 = Inr (costDemo4, ?row)"
    using demo_owner[of costDemo0] demo_owner[of costDemo1]
    by (simp add: getReadiness_def recompute_def upsertReadiness_def Let_def costDemo4_def same)
  moreover have "costStep\<^sup>*\<^sup>* costDemo0 costDemo1" using costDemo1_step by blast
  ultimately have "costStep costDemo1 costDemo4"
    using stepRead[OF costDemo0_reachable rtranclp.rtrancl_refl] by blast
  then have reach: "costReachable costDemo4" by (rule cost_step[OF costDemo1_reachable])
  have before: "inForce (kdProfiles costDemo0) 3 20 c = None" for c
    by (simp add: inForce_def newest_def)
  have after: "inForce (kdProfiles costDemo4) 3 30 ComponentCOGS = Some demoPresent"
    by (simp add: inForce_def newest_def demoPresent_def demoVersion_def kd)
  have g: "getReadiness costDemo4 costDemo4 costDemo4 3 30 = Inr (costDemo4, ?row)"
    using boundary_none[OF before] by (simp add: getReadiness_def kd staleBoundarySentinel_def second_def)
  have "noneTookEffect costDemo4 3 30" by (simp add: noneTookEffect_def kd demoPresent_def demoVersion_def)
  then show ?thesis using reach g missing_before[OF before] satisfied_after[OF after] by blast
qed

end
