(* ===== verification/Spec2Isabelle.thy ===== *)
theory Spec2Isabelle
  imports PolicyApi Guardrail Watchlist Reconcile ObservationReads RouteCObserver RecommendationReach Fingerprint ActionsQueue EventDemo OutcomeDemo IdentityReopen AccessDemo CostFresh
begin

text \<open>
  A verification development of the Go core of market-ops (services/core): the program that prices a
  seller's offers on one marketplace, asks a person to approve each price, writes approved prices, and
  measures what came of them.  Theories are named after the packages they model; a definition has the name
  of the Go function, type or sqlc query it translates.

  How the program works.  Captures of public offers arrive from the extension or from the Route C observer
  and become observations and offers of record (Observation, ObservationReads, RouteC*).  Confirmed
  mappings tie an owned variant to a public product and own the observation targets (Identity*).  The
  event producer turns successive observations into market events and ranks them (Event*).  Costs give a
  margin (Cost*, Margin), the policy turns margin and market into a proposal or blockers (Policy,
  PolicyApi), and the recommendation service stores versions, mints immutable approval cards, confirms
  them individually or in bulk and dispatches a durable execution intent (Recommendation*, BulkApproval,
  Fingerprint, ActionsQueue, Approval, AuditTrail).  The executor revalidates a card at nine gates and
  performs at most one external write; the reconciler settles unknown results (Execution, Reconcile).  The
  outcome plane opens a window for a reconciled write and closes it with a verdict (Outcome*).  Every
  request passes the permission middleware, over sessions and capture credentials (Permission, Access*).
  Guardrail and Watchlist are the settings a person changes.

  Layout.
  \<^item> Prelude, GoStd, Normalize: Go's (value, error) pairs as a sum with sequencing, 64-bit integers as
    words, instants, and the string functions of the standard library the core calls; digit folding.
  \<^item> Money: checked int64 arithmetic, amounts, rounding, basis points, text encoding.  The lemmas give the
    exact integer results and the round trip of the text form.
  \<^item> Cost, CostStore, CostLife, CostFresh: components, provenance, readiness, the amount parser and import
    preview; the cost service over its tables; its invariant; the versions, the commit of an import, the
    cached readiness and where it departs from the versions in force.
  \<^item> Margin: the contribution engine and its reconciliation.  A contribution is exact and no input can raise it.
  \<^item> Policy, PolicyApi: configuration bounds, the six stages, and the simulation endpoint.
  \<^item> Approval, AuditTrail: the card's state machine, its version binding and the append-only audit.
  \<^item> Execution, Reconcile: every transaction of Execute as a step of a process over shared tables; the world
    relation interleaves calls, crashes and reconciliation passes.
  \<^item> Guardrail, Watchlist: stricter-only settings with optimistic concurrency; a capped list.
  \<^item> Observation, ObservationReads: ingest with its transactions, sweep, drift downgrade and reads.
  \<^item> RouteCBreaker, RouteCBudget, RouteCStops, RouteCSweep, RouteCParser, RouteCObserver: the breaker, the
    durable and the in-memory budget, kill switches and limiter, planning and backoff, the parser and drift
    guard, and the observer that composes them.
  \<^item> Recommendation, RecommendationStore, RecommendationLife, RecommendationBulk, BulkApproval,
    RecommendationReach, Fingerprint, ActionsQueue: assembly, persistence, the life of a card, bulk
    selection and confirmation, reachability of the whole service, the sealed fingerprint, the queue.
  \<^item> EventDetect, EventRanking, EventStore, EventLife, EventRecord, EventProducer, EventPass, EventDemo: the
    detectors and the feed, the event tables, what they keep, recording, the producer and its pass.
  \<^item> Outcome, OutcomeClose, OutcomeDemo: windows, determinations and the close job.
  \<^item> Identity, IdentityLife, IdentityReopen: mappings, their invariant, and a reopen with its consumers.
  \<^item> Permission, Access, AccessLife, AccessTrust, AccessDemo: roles, matrix, routes and middleware; sessions,
    pairings and provisioning over their tables; their constraints, and what a served request implies.

  State.  A component's tables are a record of lists or maps, a transaction a function from the committed
  tables to an error (rolled back) or new tables, an operation of several transactions a function that
  takes the tables each of its statements sees (a readiness read, a price edit: later states of one run),
  or a process whose steps others interleave.  A write of the cost service that began before another
  committed may store a readiness verdict older than the tables (stepRecompute, stepRead of CostLife);
  the property of the cached read names the runs in which none did, and a run with one refutes it.  The
  constraints, unique indexes and triggers of the migrations are part of the inserts and updates.  Step
  relations (worldStep, recStep, eventStep, outcomeStep, identityStep, accessStep, costStep,
  storeStep) collect the
  operations; invariants are proved by induction over reachable states.

  Interfaces.  budget_reserver is what the observer needs of a budget and is interpreted by the durable
  table (db) and by the in-memory one (mem); kill_switch_store likewise (dbk, memk); evidence_source is
  what the close job needs of a source of evidence, interpreted by the tables (dbSource) and by the source
  of an installation without a measurement pipeline (unmeasured).

  Bounds.  Execute runs under executeFuel = 10 steps, more than the longest path of its transactions, and
  recordMaxAttempts = 4 is the code's own bound; the loops of a Route C fetch are bounded by MaxRetries,
  reading a queue by its length.  Everything else is structural recursion.

  Parameters.  Generated ids, clocks, random secrets, SHA-256, Argon2id, base64 and JSON codecs, case
  folding, query failures, and the marketplace are arguments.  What is assumed of them is a named
  hypothesis of the property that needs it.

  Abstractions.  Time is an integer of nanoseconds; the truncation to microseconds of a stored timestamp is
  not modelled.  A job queue keeps a job until a worker finishes it or its attempts run out.  Telemetry,
  logging and the wording of errors are left out.

  Not modelled: the marketplace connector and its HTTP client, catalog synchronisation and its reads,
  notifications and mail, the briefing, analytics, the conversation plane and its stream, diagnostics, the
  remaining HTTP handlers, the job wiring, configuration and process start, the development tools under
  cmd, and generated code.  Their logic is transport, text or wiring around other systems; the component
  list of the development names each with its reason.
\<close>

end
